(* ===== verification/Binary64.thy ===== *)
theory Binary64
  imports Complex_Main "HOL-Library.Log_Nat"
begin

text \<open>
  JavaScript numbers. A finite IEEE-754 binary64 value is represented by the rational number it
  denotes; \<open>fl\<close> rounds a rational to the nearest binary64 significand (53 bits, ties to even), so
  that \<open>fl (a + b)\<close> is the value of the JavaScript expression \<open>a + b\<close>, and \<open>fl (1 / 10)\<close> the value
  of the literal \<open>0.1\<close>. The exponent range is not bounded (no overflow to infinity and no
  underflow): every quantity of the game lies far inside the range. The values \<open>NaN\<close> and
  \<open>Infinity\<close> exist only where the source tests for them, as constructors of \<open>js_number\<close>.
  The zeros \<open>0\<close> and \<open>-0\<close> are identified.
\<close>

type_synonym num = rat

section \<open>Powers of two and the binary exponent\<close>

definition ilog2 :: "num \<Rightarrow> int" where
  "ilog2 x = (let (n, d) = quotient_of x; k = bitlen n - bitlen d
              in if 2 powi k \<le> x then k else k - 1)"

definition round_half_even :: "num \<Rightarrow> int" where
  "round_half_even x =
     (let n = \<lfloor>x\<rfloor>; r = x - of_int n
      in if r < 1 / 2 then n else if 1 / 2 < r then n + 1 else if even n then n else n + 1)"

definition fl :: "num \<Rightarrow> num" where
  "fl x = (if x = 0 then 0
           else let u = 2 powi (ilog2 \<bar>x\<bar> - 52) in of_int (round_half_even (x / u)) * u)"

text \<open>The four arithmetic operators of the language.\<close>

abbreviation jadd :: "num \<Rightarrow> num \<Rightarrow> num" where "jadd a b \<equiv> fl (a + b)"
abbreviation jsub :: "num \<Rightarrow> num \<Rightarrow> num" where "jsub a b \<equiv> fl (a - b)"
abbreviation jmul :: "num \<Rightarrow> num \<Rightarrow> num" where "jmul a b \<equiv> fl (a * b)"
abbreviation jdiv :: "num \<Rightarrow> num \<Rightarrow> num" where "jdiv a b \<equiv> fl (a / b)"

text \<open>\<open>Math.floor\<close>, \<open>Math.ceil\<close> and \<open>Math.round\<close> are exact; \<open>Math.round\<close> sends a half upwards.\<close>

definition math_floor :: "num \<Rightarrow> num" where "math_floor x = of_int \<lfloor>x\<rfloor>"
definition math_ceil :: "num \<Rightarrow> num" where "math_ceil x = of_int \<lceil>x\<rceil>"
definition math_round :: "num \<Rightarrow> num" where "math_round x = of_int \<lfloor>x + 1 / 2\<rfloor>"

lemma two_powi_pos [simp]: "0 < (2::rat) powi e"
  by (rule zero_less_power_int) simp

lemma two_powi_nonneg [simp]: "0 \<le> (2::rat) powi e"
  by (rule less_imp_le [OF two_powi_pos])

lemma two_powi_nz [simp]: "(2::rat) powi e \<noteq> 0"
  using two_powi_pos [of e] by simp

lemma two_powi_add: "(2::rat) powi (a + b) = 2 powi a * 2 powi b"
  by (simp add: power_int_add)

lemma two_powi_mono: "a \<le> b \<Longrightarrow> (2::rat) powi a \<le> 2 powi b"
  by (simp add: power_int_increasing)

lemma two_powi_strict_mono: "a < b \<Longrightarrow> (2::rat) powi a < 2 powi b"
proof -
  assume "a < b"
  then have "(2::rat) powi (a + 1) \<le> 2 powi b" by (intro two_powi_mono) simp
  moreover have "(2::rat) powi a < 2 powi (a + 1)" by (simp add: two_powi_add)
  ultimately show ?thesis by simp
qed

lemma two_powi_le_iff: "(2::rat) powi a \<le> 2 powi b \<longleftrightarrow> a \<le> b"
  using two_powi_mono two_powi_strict_mono by (metis linorder_not_le)

lemma two_powi_less_iff: "(2::rat) powi a < 2 powi b \<longleftrightarrow> a < b"
  using two_powi_le_iff by (metis linorder_not_le)

lemma two_powi_of_nat: "(2::rat) powi (int n) = of_int (2 ^ n)"
  by (simp add: power_int_def)

lemma two_powi_int: "0 \<le> e \<Longrightarrow> (2::rat) powi e = of_int (2 ^ nat e)"
  by (simp add: power_int_def)

lemma bitlen_powi:
  assumes "0 < n"
  shows "2 powi (bitlen n - 1) \<le> (of_int n :: rat)" and "(of_int n :: rat) < 2 powi (bitlen n)"
proof -
  have pos: "1 \<le> bitlen n" using assms bitlen_nonneg [of n] bitlen_eq_zero_iff [of n] by linarith
  have "2 ^ nat (bitlen n - 1) \<le> n" and "n < 2 ^ nat (bitlen n)"
    using bitlen_bounds [OF assms] by simp_all
  then have "(of_int (2 ^ nat (bitlen n - 1)) :: rat) \<le> of_int n"
    and "(of_int n :: rat) < of_int (2 ^ nat (bitlen n))"
    by (simp_all only: of_int_le_iff of_int_less_iff)
  then show "2 powi (bitlen n - 1) \<le> (of_int n :: rat)" and "(of_int n :: rat) < 2 powi (bitlen n)"
    using pos by (simp_all only: two_powi_int [of "bitlen n - 1"] two_powi_int [of "bitlen n"])
qed

lemma ilog2_bounds:
  assumes "0 < x"
  shows "2 powi (ilog2 x) \<le> x" and "x < 2 powi (ilog2 x + 1)"
proof -
  obtain n d where nd: "quotient_of x = (n, d)" by fastforce
  have x: "x = of_int n / of_int d" by (rule quotient_of_div [OF nd])
  have d: "0 < d" by (rule quotient_of_denom_pos [OF nd])
  with x assms have n: "0 < n" by (simp add: zero_less_divide_iff)
  let ?k = "bitlen n - bitlen d"
  have low: "2 powi (?k - 1) < x"
  proof -
    have "2 powi (?k - 1) * of_int d < (2 powi (?k - 1) * 2 powi (bitlen d) :: rat)"
      using bitlen_powi(2) [OF d] by (simp add: mult_strict_left_mono)
    also have "\<dots> = 2 powi (bitlen n - 1)" by (simp flip: two_powi_add)
    also have "\<dots> \<le> of_int n" by (rule bitlen_powi(1) [OF n])
    finally show ?thesis using d by (simp add: x pos_less_divide_eq)
  qed
  have up: "x < 2 powi (?k + 1)"
  proof -
    have "(of_int n :: rat) < 2 powi (bitlen n)" by (rule bitlen_powi(2) [OF n])
    also have "\<dots> = 2 powi (?k + 1) * 2 powi (bitlen d - 1)" by (simp flip: two_powi_add)
    also have "\<dots> \<le> 2 powi (?k + 1) * of_int d"
      using bitlen_powi(1) [OF d] by (simp add: mult_left_mono)
    finally show ?thesis using d by (simp add: x pos_divide_less_eq)
  qed
  show "2 powi (ilog2 x) \<le> x" and "x < 2 powi (ilog2 x + 1)"
    using low up by (auto simp: ilog2_def nd Let_def)
qed

lemma ilog2_unique:
  assumes "2 powi e \<le> x" and "x < 2 powi (e + 1)"
  shows "ilog2 x = e"
proof -
  have pos: "0 < x" using assms(1) two_powi_pos [of e] by linarith
  have "2 powi e < (2::rat) powi (ilog2 x + 1)" using assms(1) ilog2_bounds(2) [OF pos] by linarith
  moreover have "2 powi (ilog2 x) < (2::rat) powi (e + 1)"
    using assms(2) ilog2_bounds(1) [OF pos] by linarith
  ultimately show ?thesis by (simp add: two_powi_less_iff)
qed

lemma ilog2_mono: "0 < x \<Longrightarrow> x \<le> y \<Longrightarrow> ilog2 x \<le> ilog2 y"
proof -
  assume "0 < x" "x \<le> y"
  then have "2 powi (ilog2 x) \<le> x" "y < 2 powi (ilog2 y + 1)"
    using ilog2_bounds [of x] ilog2_bounds [of y] by auto
  with \<open>x \<le> y\<close> have "2 powi (ilog2 x) < (2::rat) powi (ilog2 y + 1)" by linarith
  then show ?thesis by (simp add: two_powi_less_iff)
qed

section \<open>Rounding to an integer\<close>

lemma round_half_even_of_int [simp]: "round_half_even (of_int n) = n"
  by (simp add: round_half_even_def)

lemma round_half_even_error: "\<bar>of_int (round_half_even x) - x\<bar> \<le> 1 / 2"
  using of_int_floor_le [of x] floor_correct [of x]
  by (auto simp: round_half_even_def Let_def abs_le_iff)

lemma round_half_even_mono:
  assumes "x \<le> y"
  shows "round_half_even x \<le> round_half_even y"
proof (cases "\<lfloor>x\<rfloor> = \<lfloor>y\<rfloor>")
  case True
  with assms show ?thesis by (auto simp: round_half_even_def Let_def)
next
  case False
  with assms have "\<lfloor>x\<rfloor> + 1 \<le> \<lfloor>y\<rfloor>" using floor_mono [OF assms] by linarith
  moreover have "round_half_even x \<le> \<lfloor>x\<rfloor> + 1" and "\<lfloor>y\<rfloor> \<le> round_half_even y"
    by (simp_all add: round_half_even_def Let_def)
  ultimately show ?thesis by linarith
qed

section \<open>The set of binary64 values\<close>

definition is_double :: "num \<Rightarrow> bool" where
  "is_double x \<longleftrightarrow> (\<exists>m e. x = of_int m * 2 powi e \<and> \<bar>m\<bar> \<le> 2 ^ 53)"

lemma fl_zero [simp]: "fl 0 = 0"
  by (simp add: fl_def)

lemma fl_pos_eq:
  "0 < x \<Longrightarrow> fl x = of_int (round_half_even (x / 2 powi (ilog2 x - 52))) * 2 powi (ilog2 x - 52)"
  by (simp add: fl_def Let_def)


lemma scaled_bounds:
  assumes "0 < x"
  shows "2 ^ 52 \<le> x / 2 powi (ilog2 x - 52)" and "x / 2 powi (ilog2 x - 52) \<le> 2 ^ 53"
proof -
  let ?u = "2 powi (ilog2 x - 52) :: rat"
  have "2 powi (52 + (ilog2 x - 52)) \<le> x" "x < 2 powi (53 + (ilog2 x - 52))"
    using ilog2_bounds [OF assms] by (simp_all add: add.commute)
  then have "2 powi 52 * ?u \<le> x" "x < 2 powi 53 * ?u" by (simp_all only: two_powi_add)
  then have "2 ^ 52 * ?u \<le> x" "x \<le> 2 ^ 53 * ?u" by (simp_all add: power_int_def)
  then show "2 ^ 52 \<le> x / ?u" and "x / ?u \<le> 2 ^ 53"
    by (simp_all add: pos_le_divide_eq pos_divide_le_eq)
qed

lemma significand_bounds:
  assumes "0 < x"
  shows "2 ^ 52 \<le> round_half_even (x / 2 powi (ilog2 x - 52))"
    and "round_half_even (x / 2 powi (ilog2 x - 52)) \<le> 2 ^ 53"
proof -
  let ?y = "x / 2 powi (ilog2 x - 52) :: rat"
  have "round_half_even (of_int (2 ^ 52)) \<le> round_half_even ?y"
    by (rule round_half_even_mono) (use scaled_bounds(1) [OF assms] in simp)
  then show "2 ^ 52 \<le> round_half_even ?y" by (simp only: round_half_even_of_int)
  have "round_half_even ?y \<le> round_half_even (of_int (2 ^ 53))"
    by (rule round_half_even_mono) (use scaled_bounds(2) [OF assms] in simp)
  then show "round_half_even ?y \<le> 2 ^ 53" by (simp only: round_half_even_of_int)
qed

lemma round_half_even_minus: "round_half_even (- x) = - round_half_even x"
proof (cases "x \<in> \<int>")
  case True
  then obtain n where "x = of_int n" by (rule Ints_cases)
  then show ?thesis using round_half_even_of_int [of "- n"] by simp
next
  case False
  then have "\<lfloor>- x\<rfloor> = - \<lfloor>x\<rfloor> - 1"
    by (simp add: floor_minus ceiling_altdef) (metis Ints_of_int)
  then show ?thesis by (auto simp: round_half_even_def Let_def)
qed

lemma fl_minus [simp]: "fl (- x) = - fl x"
  by (simp add: fl_def Let_def round_half_even_minus flip: minus_divide_left)

lemma fl_minus_diff: "fl (a - b) = - fl (b - a)"
  using fl_minus [of "b - a"] by simp

lemma fl_bounds:
  assumes "0 < x"
  shows "2 powi (ilog2 x) \<le> fl x" and "fl x \<le> 2 powi (ilog2 x + 1)"
proof -
  let ?u = "2 powi (ilog2 x - 52) :: rat" and ?m = "round_half_even (x / 2 powi (ilog2 x - 52))"
  have m: "of_int (2 ^ 52) \<le> (of_int ?m :: rat)" "(of_int ?m :: rat) \<le> of_int (2 ^ 53)"
    using significand_bounds [OF assms] by (simp_all only: of_int_le_iff)
  have "2 powi (ilog2 x) = 2 powi 52 * ?u" "2 powi (ilog2 x + 1) = 2 powi 53 * ?u"
    by (simp_all only: two_powi_add [symmetric]) (simp_all add: algebra_simps)
  moreover have "(2 powi 52 :: rat) = of_int (2 ^ 52)" "(2 powi 53 :: rat) = of_int (2 ^ 53)"
    by (simp_all add: power_int_def)
  moreover have "fl x = of_int ?m * ?u" by (rule fl_pos_eq [OF assms])
  ultimately show "2 powi (ilog2 x) \<le> fl x" and "fl x \<le> 2 powi (ilog2 x + 1)"
    using m by (simp_all only: mult_right_mono two_powi_nonneg)
qed

lemma is_double_minus [simp]: "is_double (- x) \<longleftrightarrow> is_double x"
proof -
  have "is_double (- x)" if "is_double x" for x
  proof -
    from that obtain m e where "x = of_int m * 2 powi e" "\<bar>m\<bar> \<le> 2 ^ 53" by (auto simp: is_double_def)
    then have "- x = of_int (- m) * 2 powi e \<and> \<bar>- m\<bar> \<le> 2 ^ 53" by simp
    then show ?thesis unfolding is_double_def by blast
  qed
  from this [of x] this [of "- x"] show ?thesis by auto
qed

lemma is_double_0 [simp]: "is_double 0"
  unfolding is_double_def by (rule exI [of _ 0]) simp

lemma is_double_fl [simp]: "is_double (fl x)"
proof -
  have pos: "is_double (fl y)" if "0 < y" for y
    unfolding is_double_def fl_pos_eq [OF that]
    by (intro exI conjI, rule refl) (use significand_bounds [OF that] in simp)
  show ?thesis
  proof (cases x "0 :: rat" rule: linorder_cases)
    case less
    then have "is_double (fl (- x))" by (intro pos) simp
    then show ?thesis by simp
  qed (simp_all add: pos)
qed

lemma is_double_cases:
  assumes "is_double x"
  obtains m e where "x = of_int m * 2 powi e" "\<bar>m\<bar> < 2 ^ 53"
proof -
  obtain m e where me: "x = of_int m * 2 powi e" "\<bar>m\<bar> \<le> 2 ^ 53"
    using assms by (auto simp: is_double_def)
  show thesis
  proof (cases "\<bar>m\<bar> = 2 ^ 53")
    case True
    have "(of_int m :: rat) = of_int (sgn m) * 2 powi 53"
      using True by (auto simp add: power_int_def abs_if sgn_if split: if_splits)
    then have "x = of_int (sgn m) * 2 powi (53 + e)"
      by (simp add: me(1) two_powi_add)
    then show thesis by (rule that) (simp add: sgn_if)
  next
    case False
    with me show thesis by (intro that) auto
  qed
qed

lemma fl_double [simp]:
  assumes "is_double x"
  shows "fl x = x"
proof -
  have pos: "fl y = y" if d: "is_double y" and "0 < y" for y
  proof -
    obtain m e where y: "y = of_int m * 2 powi e" and m: "\<bar>m\<bar> < 2 ^ 53"
      using d by (rule is_double_cases)
    let ?u = "2 powi (ilog2 y - 52) :: rat"
    have "0 < m" using \<open>0 < y\<close> y two_powi_pos [of e] by (simp add: zero_less_mult_iff del: two_powi_pos)
    then have "(of_int m :: rat) < of_int (2 ^ 53)" using m by (simp only: of_int_less_iff)
    then have "y < 2 powi 53 * 2 powi e" by (simp add: y power_int_def)
    then have "2 powi (ilog2 y) < (2 powi (53 + e) :: rat)"
      using ilog2_bounds(1) [OF \<open>0 < y\<close>] by (simp only: two_powi_add)
    then have e: "0 \<le> e - (ilog2 y - 52)" by (simp add: two_powi_less_iff)
    have "y = of_int m * 2 powi ((e - (ilog2 y - 52)) + (ilog2 y - 52))" by (simp add: y)
    also have "\<dots> = of_int (m * 2 ^ nat (e - (ilog2 y - 52))) * ?u"
      by (simp only: two_powi_add two_powi_int [OF e] of_int_mult mult.assoc)
    finally obtain k :: int where k: "y = of_int k * ?u" by blast
    then have "y / ?u = of_int k" by (simp add: nonzero_divide_eq_eq)
    then show ?thesis using k by (simp add: fl_pos_eq [OF \<open>0 < y\<close>])
  qed
  show ?thesis
  proof (cases x "0 :: rat" rule: linorder_cases)
    case less
    then have "fl (- x) = - x" using assms by (intro pos) simp_all
    then show ?thesis by simp
  qed (use assms in \<open>simp_all add: pos\<close>)
qed

lemma fl_fl [simp]: "fl (fl x) = fl x"
  by simp


section \<open>Rounding is monotone, sign-preserving and exact on integers\<close>

lemma is_double_powi [simp]: "is_double (2 powi e)"
  unfolding is_double_def by (rule exI [of _ 1], rule exI [of _ e]) simp

lemma fl_pos: "0 < x \<Longrightarrow> 0 < fl x"
  using fl_bounds(1) [of x] two_powi_pos [of "ilog2 x"] by linarith

lemma fl_pos_iff [simp]: "0 < fl x \<longleftrightarrow> 0 < x"
proof (cases x "0 :: rat" rule: linorder_cases)
  case less
  then have "0 < fl (- x)" by (intro fl_pos) simp
  with less show ?thesis by simp
qed (simp_all add: fl_pos)

lemma fl_neg_iff [simp]: "fl x < 0 \<longleftrightarrow> x < 0"
  using fl_pos_iff [of "- x"] by (simp del: fl_pos_iff)

lemma fl_nonneg_iff [simp]: "0 \<le> fl x \<longleftrightarrow> 0 \<le> x"
  using fl_neg_iff [of x] by (simp add: not_less [symmetric] del: fl_neg_iff)

lemma fl_nonpos_iff [simp]: "fl x \<le> 0 \<longleftrightarrow> x \<le> 0"
  using fl_pos_iff [of x] by (simp add: not_less [symmetric] del: fl_pos_iff)

lemma fl_eq_0_iff [simp]: "fl x = 0 \<longleftrightarrow> x = 0"
  using fl_pos_iff [of x] fl_neg_iff [of x] by (auto simp: not_less simp del: fl_pos_iff fl_neg_iff)

lemma fl_mono_pos:
  assumes "0 < x" "x \<le> y"
  shows "fl x \<le> fl y"
proof (cases "ilog2 x = ilog2 y")
  case True
  let ?u = "2 powi (ilog2 y - 52) :: rat"
  have "round_half_even (x / ?u) \<le> round_half_even (y / ?u)"
    using assms(2) by (intro round_half_even_mono divide_right_mono) simp_all
  then show ?thesis
    using assms True by (simp add: fl_pos_eq mult_right_mono)
next
  case False
  then have "ilog2 x + 1 \<le> ilog2 y" using ilog2_mono [OF assms] by simp
  then have "2 powi (ilog2 x + 1) \<le> (2 powi (ilog2 y) :: rat)" by (rule two_powi_mono)
  then show ?thesis using fl_bounds(2) [of x] fl_bounds(1) [of y] assms by linarith
qed

lemma fl_mono:
  assumes "x \<le> y"
  shows "fl x \<le> fl y"
proof (cases "0 < x")
  case True
  then show ?thesis using assms by (rule fl_mono_pos)
next
  case xneg: False
  show ?thesis
  proof (cases "0 \<le> y")
    case True
    then have "0 \<le> fl y" "fl x \<le> 0" using xneg by simp_all
    then show ?thesis by linarith
  next
    case False
    then have "fl (- y) \<le> fl (- x)" using assms by (intro fl_mono_pos) simp_all
    then show ?thesis by simp
  qed
qed

lemma fl_le_double: "x \<le> c \<Longrightarrow> is_double c \<Longrightarrow> fl x \<le> c"
  using fl_mono [of x c] by simp

lemma fl_ge_double: "c \<le> x \<Longrightarrow> is_double c \<Longrightarrow> c \<le> fl x"
  using fl_mono [of c x] by simp

lemma fl_less_imp: "fl x < fl y \<Longrightarrow> x < y"
  using fl_mono [of y x] by (metis linorder_not_le)

lemma fl_error:
  assumes "0 < x"
  shows "\<bar>fl x - x\<bar> \<le> x / 2 ^ 53"
proof -
  let ?u = "2 powi (ilog2 x - 52) :: rat" and ?m = "round_half_even (x / 2 powi (ilog2 x - 52))"
  have x: "x = x / ?u * ?u" by simp
  have "fl x - x = (of_int ?m - x / ?u) * ?u"
    using x by (simp add: fl_pos_eq [OF assms] left_diff_distrib)
  then have "\<bar>fl x - x\<bar> = \<bar>of_int ?m - x / ?u\<bar> * ?u" by (simp add: abs_mult)
  also have "\<dots> \<le> 1 / 2 * ?u" by (intro mult_right_mono round_half_even_error) simp
  finally have "\<bar>fl x - x\<bar> \<le> ?u / 2" by simp
  moreover have "?u * 2 ^ 52 \<le> x"
    using scaled_bounds(1) [OF assms] by (simp add: pos_le_divide_eq mult.commute)
  ultimately show ?thesis by (simp add: field_simps)
qed

lemma is_double_of_int: "\<bar>n\<bar> \<le> 2 ^ 53 \<Longrightarrow> is_double (of_int n)"
  unfolding is_double_def by (rule exI [of _ n], rule exI [of _ 0]) simp

lemma fl_of_int_exact: "\<bar>n\<bar> \<le> 2 ^ 53 \<Longrightarrow> fl (of_int n) = of_int n"
  by (intro fl_double is_double_of_int)

lemma fl_of_nat_exact: "n \<le> 2 ^ 53 \<Longrightarrow> fl (of_nat n) = of_nat n"
  using fl_of_int_exact [of "int n"] by simp

lemma is_double_numeral: "(numeral k :: int) \<le> 2 ^ 53 \<Longrightarrow> is_double (numeral k)"
  using is_double_of_int [of "numeral k"] by simp

lemma fl_numeral [simp]: "(numeral k :: int) \<le> 2 ^ 53 \<Longrightarrow> fl (numeral k) = numeral k"
  by (intro fl_double is_double_numeral)

lemma is_double_1 [simp]: "is_double 1"
  using is_double_of_int [of 1] by simp

lemma fl_1 [simp]: "fl 1 = 1"
  by (simp add: fl_double)

text \<open>Evaluation takes a short cut on integers.\<close>

lemma fl_code [code]:
  "fl x = (case quotient_of x of (n, d) \<Rightarrow>
     if d = 1 \<and> \<bar>n\<bar> \<le> 9007199254740992 then x
     else let u = 2 powi (ilog2 \<bar>x\<bar> - 52) in of_int (round_half_even (x / u)) * u)"
proof (cases "quotient_of x")
  case (Pair n d)
  have x: "x = of_int n / of_int d" by (rule quotient_of_div [OF Pair])
  show ?thesis
  proof (cases "d = 1 \<and> \<bar>n\<bar> \<le> 2 ^ 53")
    case True
    then have "fl x = x" using x fl_of_int_exact [of n] by simp
    with True show ?thesis by (simp add: Pair)
  next
    case False
    then have "x \<noteq> 0" using Pair by auto
    with False show ?thesis by (auto simp add: Pair fl_def)
  qed
qed

text \<open>A dyadic fraction is exact as well.\<close>

lemma is_double_dyadic: "\<bar>m\<bar> \<le> 2 ^ 53 \<Longrightarrow> is_double (of_int m / 2 ^ k)"
  unfolding is_double_def
  by (rule exI [of _ m], rule exI [of _ "- int k"]) (simp add: power_int_minus divide_inverse)

lemma fl_dyadic: "\<bar>m\<bar> \<le> 2 ^ 53 \<Longrightarrow> fl (of_int m / 2 ^ k) = of_int m / 2 ^ k"
  by (intro fl_double is_double_dyadic)

lemma fl_Ints:
  assumes "x \<in> \<int>"
  shows "fl x \<in> \<int>"
proof -
  have pos: "fl y \<in> \<int>" if "y \<in> \<int>" "0 < y" for y
  proof -
    obtain n where n: "y = of_int n" using \<open>y \<in> \<int>\<close> by (rule Ints_cases)
    show ?thesis
    proof (cases "n \<le> 2 ^ 53")
      case True
      with that n have "fl y = of_int n" by (simp add: fl_of_int_exact)
      then show ?thesis by simp
    next
      case False
      then have "(of_int (2 ^ 53) :: rat) \<le> of_int n" by (simp only: of_int_le_iff)
      then have "2 powi 53 \<le> y" by (simp add: n power_int_def)
      then have "(2 powi 53 :: rat) < 2 powi (ilog2 y + 1)"
        using ilog2_bounds(2) [OF \<open>0 < y\<close>] by linarith
      then have "53 < ilog2 y + 1" by (simp only: two_powi_less_iff)
      then have "0 \<le> ilog2 y - 52" by simp
      then show ?thesis by (simp add: fl_pos_eq [OF \<open>0 < y\<close>] two_powi_int)
    qed
  qed
  show ?thesis
  proof (cases x "0 :: rat" rule: linorder_cases)
    case less
    then have "fl (- x) \<in> \<int>" using assms by (intro pos) simp_all
    then show ?thesis by simp
  qed (use assms in \<open>simp_all add: pos\<close>)
qed

text \<open>The natural numbers are closed under rounding.\<close>

lemma Nats_iff: "(x :: rat) \<in> \<nat> \<longleftrightarrow> x \<in> \<int> \<and> 0 \<le> x"
  by (auto simp: Nats_altdef2)

lemma fl_Nats: "x \<in> \<nat> \<Longrightarrow> fl x \<in> \<nat>"
  by (simp add: Nats_iff fl_Ints)

lemma Ints_double: "x \<in> \<int> \<Longrightarrow> \<bar>x\<bar> \<le> 2 ^ 53 \<Longrightarrow> is_double x"
proof -
  assume "x \<in> \<int>" "\<bar>x\<bar> \<le> 2 ^ 53"
  then obtain n where n: "x = of_int n" by (auto elim: Ints_cases)
  have "(of_int \<bar>n\<bar> :: rat) \<le> of_int (2 ^ 53)" using \<open>\<bar>x\<bar> \<le> 2 ^ 53\<close> n by simp
  then have "\<bar>n\<bar> \<le> 2 ^ 53" by (simp only: of_int_le_iff)
  then show ?thesis using n by (simp add: is_double_of_int)
qed

lemma fl_Ints_exact: "x \<in> \<int> \<Longrightarrow> \<bar>x\<bar> \<le> 2 ^ 53 \<Longrightarrow> fl x = x"
  by (intro fl_double Ints_double)

section \<open>Rounding functions\<close>

lemma math_floor_Ints [simp]: "math_floor x \<in> \<int>"
  by (simp add: math_floor_def)

lemma math_ceil_Ints [simp]: "math_ceil x \<in> \<int>"
  by (simp add: math_ceil_def)

lemma math_round_Ints [simp]: "math_round x \<in> \<int>"
  by (simp add: math_round_def)

lemma math_floor_le: "math_floor x \<le> x"
  by (simp add: math_floor_def)

lemma math_floor_gt: "x - 1 < math_floor x"
  unfolding math_floor_def by linarith

lemma math_ceil_ge: "x \<le> math_ceil x"
  by (simp add: math_ceil_def)

lemma math_ceil_lt: "math_ceil x < x + 1"
  unfolding math_ceil_def by linarith

lemma math_floor_mono: "x \<le> y \<Longrightarrow> math_floor x \<le> math_floor y"
  by (simp add: math_floor_def floor_mono)

lemma math_ceil_mono: "x \<le> y \<Longrightarrow> math_ceil x \<le> math_ceil y"
  by (simp add: math_ceil_def ceiling_mono)

lemma math_round_mono: "x \<le> y \<Longrightarrow> math_round x \<le> math_round y"
  by (simp add: math_round_def floor_mono)

lemma math_floor_Int [simp]: "x \<in> \<int> \<Longrightarrow> math_floor x = x"
  by (auto simp: math_floor_def elim: Ints_cases)

lemma math_ceil_Int [simp]: "x \<in> \<int> \<Longrightarrow> math_ceil x = x"
  by (auto simp: math_ceil_def elim: Ints_cases)

lemma math_floor_nonneg: "0 \<le> math_floor x \<longleftrightarrow> 0 \<le> x"
  by (simp add: math_floor_def)

lemma math_ceil_nonneg: "0 \<le> x \<Longrightarrow> 0 \<le> math_ceil x"
  using math_ceil_ge [of x] by linarith

lemma math_ceil_le_Int: "x \<le> c \<Longrightarrow> c \<in> \<int> \<Longrightarrow> math_ceil x \<le> c"
  using math_ceil_mono [of x c] by simp

lemma math_floor_ge_Int: "c \<le> x \<Longrightarrow> c \<in> \<int> \<Longrightarrow> c \<le> math_floor x"
  using math_floor_mono [of c x] by simp

text \<open>The fractional part of a non-negative binary64 value is exact.\<close>

lemma is_double_frac:
  assumes "is_double x" "0 \<le> x"
  shows "is_double (x - math_floor x)"
proof -
  obtain m e where x: "x = of_int m * 2 powi e" and m: "\<bar>m\<bar> < 2 ^ 53"
    using assms(1) by (rule is_double_cases)
  have m0: "0 \<le> m" using assms(2) x two_powi_pos [of e] by (auto simp: zero_le_mult_iff simp del: two_powi_pos)
  show ?thesis
  proof (cases "0 \<le> e")
    case True
    then have "x \<in> \<int>" by (simp add: x two_powi_int)
    then show ?thesis by simp
  next
    case False
    define k where "k = nat (- e)"
    have pe: "2 powi e = 1 / (2 ^ k :: rat)"
      using False by (simp add: k_def power_int_def inverse_eq_divide power_divide)
    have xk: "x = of_int m / of_int (2 ^ k)" by (simp add: x pe)
    have "\<lfloor>x\<rfloor> = m div 2 ^ k" unfolding xk by (rule floor_divide_of_int_eq)
    then have "x - math_floor x = of_int m / 2 ^ k - of_int (m div 2 ^ k)"
      by (simp add: math_floor_def x pe)
    moreover have "(of_int m :: rat) = of_int (m div 2 ^ k) * 2 ^ k + of_int (m mod 2 ^ k)"
      using div_mult_mod_eq [of m "2 ^ k"] by (metis of_int_add of_int_mult of_int_numeral of_int_power)
    ultimately have "x - math_floor x = of_int (m mod 2 ^ k) / 2 ^ k"
      by (simp add: add_divide_distrib)
    moreover have "\<bar>m mod 2 ^ k\<bar> \<le> 2 ^ 53"
      using m m0 zmod_le_nonneg_dividend [OF m0, of "2 ^ k"] by simp
    ultimately show ?thesis by (simp add: is_double_dyadic)
  qed
qed

text \<open>Rounding a binary64 value to an integer gives a binary64 value.\<close>

lemma is_double_Int_or_small:
  assumes "is_double x"
  shows "x \<in> \<int> \<or> \<bar>x\<bar> \<le> 2 ^ 52"
proof -
  obtain m e where x: "x = of_int m * 2 powi e" and m: "\<bar>m\<bar> < 2 ^ 53"
    using assms by (rule is_double_cases)
  show ?thesis
  proof (cases "0 \<le> e")
    case True
    then show ?thesis by (simp add: x two_powi_int)
  next
    case False
    have "(of_int \<bar>m\<bar> :: rat) \<le> of_int (2 ^ 53)" using m by (simp only: of_int_le_iff)
    moreover have "2 powi e \<le> (2 powi (- 1) :: rat)" using False by (intro two_powi_mono) simp
    ultimately have "of_int \<bar>m\<bar> * 2 powi e \<le> (of_int (2 ^ 53) * 2 powi (- 1) :: rat)"
      by (intro mult_mono) simp_all
    then show ?thesis by (simp add: x abs_mult power_int_def)
  qed
qed

lemma is_double_math_round [simp]:
  assumes "is_double x"
  shows "is_double (math_round x)"
proof -
  consider "x \<in> \<int>" | "\<bar>x\<bar> \<le> 2 ^ 52" using is_double_Int_or_small [OF assms] by blast
  then show ?thesis
  proof cases
    case 1
    then obtain n where n: "x = of_int n" by (rule Ints_cases)
    have "\<lfloor>(of_int n + 1 / 2 :: rat)\<rfloor> = n" by linarith
    then have "math_round x = x" by (simp add: math_round_def n)
    with assms show ?thesis by simp
  next
    case 2
    moreover have "math_round x \<le> x + 1 / 2" "x - 1 / 2 < math_round x"
      unfolding math_round_def by linarith+
    ultimately have "\<bar>math_round x\<bar> \<le> 2 ^ 53" by (simp add: abs_le_iff)
    then show ?thesis by (intro Ints_double) simp_all
  qed
qed

lemma is_double_math_floor [simp]:
  assumes "is_double x"
  shows "is_double (math_floor x)"
proof -
  consider "x \<in> \<int>" | "\<bar>x\<bar> \<le> 2 ^ 52" using is_double_Int_or_small [OF assms] by blast
  then show ?thesis
  proof cases
    case 1
    with assms show ?thesis by simp
  next
    case 2
    moreover have "math_floor x \<le> x" "x - 1 < math_floor x"
      by (rule math_floor_le, rule math_floor_gt)
    ultimately have "\<bar>math_floor x\<bar> \<le> 2 ^ 53" by (simp add: abs_le_iff)
    then show ?thesis by (intro Ints_double) simp_all
  qed
qed

section \<open>Values that may not be finite\<close>

text \<open>
  Numbers that reach the code from outside (a stored level, an action's timestamp, a render frame's
  duration) can be \<open>NaN\<close> or infinite; the source guards them with \<open>Number.isFinite\<close>.
\<close>

datatype js_number = Finite num | PosInfinity | NegInfinity | NaN

fun is_finite :: "js_number \<Rightarrow> bool" where
  "is_finite (Finite _) = True"
| "is_finite _ = False"

text \<open>\<open>Number.isInteger\<close> and \<open>Number.isSafeInteger\<close>.\<close>

fun number_is_integer :: "js_number \<Rightarrow> bool" where
  "number_is_integer (Finite x) = (math_floor x = x)"
| "number_is_integer _ = False"

fun number_is_safe_integer :: "js_number \<Rightarrow> bool" where
  "number_is_safe_integer (Finite x) = (math_floor x = x \<and> \<bar>x\<bar> \<le> 2 ^ 53 - 1)"
| "number_is_safe_integer _ = False"

section \<open>Errors of chains of operations\<close>

lemma fl_near:
  assumes "0 \<le> x" shows "\<bar>fl x - x\<bar> \<le> x / 9007199254740992"
  using fl_error [of x] assms by (cases "x = 0") auto

lemma fl_near_within:
  assumes "0 \<le> x" "x \<le> c" "c / 9007199254740992 \<le> e" shows "\<bar>fl x - x\<bar> \<le> e"
proof -
  have "x / 9007199254740992 \<le> c / 9007199254740992" using assms(2) by (rule divide_right_mono) simp
  with fl_near [OF assms(1)] assms(3) show ?thesis by (meson order_trans)
qed

lemma math_round_near:
  assumes "\<bar>x - of_int n\<bar> < 1 / 2" shows "math_round x = of_int n"
proof -
  have "\<lfloor>x + 1 / 2\<rfloor> = n" using assms unfolding abs_less_iff by (intro floor_unique) linarith+
  then show ?thesis by (simp add: math_round_def)
qed

text \<open>A value that is within \<open>e\<close> of an exact result; each operation adds its own error.\<close>

definition near :: "num \<Rightarrow> num \<Rightarrow> num \<Rightarrow> bool" where
  "near x r e \<longleftrightarrow> \<bar>x - r\<bar> \<le> e"

lemma near_add: "near x r e \<Longrightarrow> near y q d \<Longrightarrow> near (x + y) (r + q) (e + d)"
  unfolding near_def by linarith

lemma near_refl: "near x x 0"
  by (simp add: near_def)

lemma near_scale:
  assumes "near x r e" "0 \<le> a" "a \<le> A" shows "near (a * x) (a * r) (A * e)"
proof -
  have "a * x - a * r = a * (x - r)" by (simp add: right_diff_distrib)
  then have "\<bar>a * x - a * r\<bar> = a * \<bar>x - r\<bar>" using assms(2) by (simp only: abs_mult abs_of_nonneg)
  also have "\<dots> \<le> A * e" by (rule mult_mono) (use assms in \<open>auto simp: near_def\<close>)
  finally show ?thesis by (simp add: near_def)
qed

lemma near_fl:
  assumes "near x r e" "0 \<le> x" "r + e \<le> 10000" shows "near (fl x) r (e + 2 / 1000000000000)"
proof -
  have "x \<le> 10000" using assms(1,3) unfolding near_def by linarith
  then have "\<bar>fl x - x\<bar> \<le> 2 / 1000000000000" by (rule fl_near_within [OF assms(2)]) simp
  then show ?thesis using assms(1) unfolding near_def by linarith
qed

lemma near_weaken: "near x r e \<Longrightarrow> e \<le> d \<Longrightarrow> near x r d"
  unfolding near_def by linarith

lemma fl_thousandths_less:
  assumes "a < b" "b \<le> 10000" shows "fl (of_nat a / 1000) < fl (of_nat b / 1000)"
proof -
  have near: "near (fl (of_nat n / 1000)) (of_nat n / 1000) (2 / 1000000000000)" if "n \<le> 10000" for n
  proof -
    have "(of_nat n :: num) / 1000 \<le> 100" using of_nat_mono [OF that, where ?'a = rat] by simp
    then show ?thesis using near_fl [OF near_refl, of "of_nat n / 1000"] by simp
  qed
  have "(of_nat (Suc a) :: num) \<le> of_nat b" using assms(1) by (simp only: of_nat_le_iff)
  then have "of_nat a / 1000 + 1 / 1000 \<le> (of_nat b / 1000 :: num)" by (simp add: field_simps)
  then show ?thesis using near [of a] near [of b] assms unfolding near_def by linarith
qed

end
