(* ===== verification/Prelude.thy ===== *)
theory Prelude
  imports Binary64 "HOL-Library.AList" "HOL-Library.Multiset" "HOL-Library.List_Lexorder"
    "HOL-Library.Char_ord"
begin

text \<open>
  What the components share: the collections of facts the proofs use, thrown errors as values,
  JavaScript objects as association lists in insertion order, and \<open>Array.prototype.sort\<close>.
\<close>

named_theorems wf_intros \<open>introduction rules for the well-formedness predicates\<close>
named_theorems obj_simps \<open>equations about objects and their keys\<close>
named_theorems step_defs \<open>definitions of the handlers that a simulation step is made of\<close>

section \<open>Thrown errors as values\<close>

text \<open>
  An exception of the source is a value. \<open>TypeError\<close> is the engine's own error for reading a
  property of \<open>undefined\<close>; the other constructors are the error classes of the code, with the
  message or code they carry.
\<close>

datatype js_error =
    TypeError
  | Thrown string
  | PvpSimulationError string
  | TwoVTwoSimulationError string
  | LaneReplayError string

type_synonym 'a result = "js_error + 'a"

definition rbind :: "'e + 'a \<Rightarrow> ('a \<Rightarrow> 'e + 'b) \<Rightarrow> 'e + 'b" where
  "rbind m f = (case m of Inl e \<Rightarrow> Inl e | Inr v \<Rightarrow> f v)"

lemma rbind_simps [simp]: "rbind (Inl e) f = Inl e" "rbind (Inr v) f = f v"
  by (simp_all add: rbind_def)

lemma rbind_eq_Inr: "rbind m f = Inr r \<longleftrightarrow> (\<exists>v. m = Inr v \<and> f v = Inr r)"
  by (cases m) simp_all

lemma rbind_eq_Inl: "rbind m f = Inl e \<longleftrightarrow> m = Inl e \<or> (\<exists>v. m = Inr v \<and> f v = Inl e)"
  by (cases m) auto

lemma rbind_cong [fundef_cong]:
  "m = m' \<Longrightarrow> (\<And>v. m' = Inr v \<Longrightarrow> f v = g v) \<Longrightarrow> rbind m f = rbind m' g"
  by (cases m') simp_all

text \<open>Reading a property of a value that may be \<open>undefined\<close>.\<close>

definition defined_or_type_error :: "'a option \<Rightarrow> 'a result" where
  "defined_or_type_error v = (case v of None \<Rightarrow> Inl TypeError | Some x \<Rightarrow> Inr x)"

lemma defined_or_type_error_simps [simp]:
  "defined_or_type_error None = Inl TypeError" "defined_or_type_error (Some x) = Inr x"
  by (simp_all add: defined_or_type_error_def)

lemma defined_or_type_error_Inr [simp]: "defined_or_type_error v = Inr x \<longleftrightarrow> v = Some x"
  by (cases v) simp_all

text \<open>A loop over an array whose body may throw.\<close>

fun fold_res :: "('a \<Rightarrow> 'b \<Rightarrow> 'e + 'b) \<Rightarrow> 'a list \<Rightarrow> 'b \<Rightarrow> 'e + 'b" where
  "fold_res f [] s = Inr s"
| "fold_res f (x # xs) s = rbind (f x s) (fold_res f xs)"

fun map_res :: "('a \<Rightarrow> 'e + 'b) \<Rightarrow> 'a list \<Rightarrow> 'e + 'b list" where
  "map_res f [] = Inr []"
| "map_res f (x # xs) = rbind (f x) (\<lambda>y. rbind (map_res f xs) (\<lambda>ys. Inr (y # ys)))"

lemma fold_res_invariant:
  assumes "fold_res f xs s = Inr r" and "P s"
    and "\<And>x s s'. x \<in> set xs \<Longrightarrow> P s \<Longrightarrow> f x s = Inr s' \<Longrightarrow> P s'"
  shows "P r"
  using assms
proof (induction xs arbitrary: s)
  case (Cons x xs)
  from Cons.prems(1) obtain s' where s': "f x s = Inr s'" "fold_res f xs s' = Inr r"
    by (auto simp: rbind_eq_Inr)
  moreover have "P s'" using Cons.prems(2,3) s'(1) by auto
  ultimately show ?case using Cons.prems(3) by (intro Cons.IH) auto
qed simp

lemma fold_res_total:
  assumes "P s" and "\<And>x s. x \<in> set xs \<Longrightarrow> P s \<Longrightarrow> \<exists>s'. f x s = Inr s' \<and> P s'"
  shows "\<exists>r. fold_res f xs s = Inr r \<and> P r"
  using assms
proof (induction xs arbitrary: s)
  case (Cons x xs)
  from Cons.prems obtain s' where s': "f x s = Inr s'" "P s'" by auto
  from s'(2) obtain r where "fold_res f xs s' = Inr r" "P r"
    using Cons.IH [of s'] Cons.prems(2) by auto
  with s'(1) show ?case by simp
qed simp

lemma map_res_Inr: "map_res f xs = Inr ys \<longleftrightarrow> list_all2 (\<lambda>x y. f x = Inr y) xs ys"
  by (induction xs arbitrary: ys) (auto simp: rbind_eq_Inr list_all2_Cons1)

lemma map_res_total: "(\<And>x. x \<in> set xs \<Longrightarrow> \<exists>y. f x = Inr y) \<Longrightarrow> \<exists>ys. map_res f xs = Inr ys"
  by (induction xs) (fastforce simp: rbind_eq_Inr)+

lemma map_res_in: "map_res f xs = Inr ys \<Longrightarrow> y \<in> set ys \<Longrightarrow> \<exists>x\<in>set xs. f x = Inr y"
  by (induction xs arbitrary: ys) (auto simp: rbind_eq_Inr)

lemma map_res_out: "map_res f xs = Inr ys \<Longrightarrow> x \<in> set xs \<Longrightarrow> \<exists>y\<in>set ys. f x = Inr y"
  by (induction xs arbitrary: ys) (auto simp: rbind_eq_Inr)

lemma set_map_filter: "set (List.map_filter f xs) = {y. \<exists>x\<in>set xs. f x = Some y}"
  by (force simp: List.map_filter_def)

section \<open>Objects\<close>

text \<open>
  A \<open>Record<string, V>\<close> is an association list in insertion order: writing an existing key keeps its
  place, a new key goes to the end, and \<open>Object.entries\<close> lists the pairs in that order. (No key of
  the game looks like an array index, which would be moved to the front.)
\<close>

type_synonym 'v obj = "(string \<times> 'v) list"

abbreviation obj_get :: "'v obj \<Rightarrow> string \<Rightarrow> 'v option" where "obj_get \<equiv> map_of"
abbreviation obj_set :: "string \<Rightarrow> 'v \<Rightarrow> 'v obj \<Rightarrow> 'v obj" where "obj_set \<equiv> AList.update"
abbreviation obj_keys :: "'v obj \<Rightarrow> string list" where "obj_keys ob \<equiv> map fst ob"
abbreviation obj_values :: "'v obj \<Rightarrow> 'v list" where "obj_values ob \<equiv> map snd ob"

lemma obj_get_set [obj_simps]: "obj_get (obj_set k v ob) k' = (if k' = k then Some v else obj_get ob k')"
  by (simp add: update_conv')

lemma obj_get_Some_set: "distinct (obj_keys ob) \<Longrightarrow> obj_get ob k = Some v \<longleftrightarrow> (k, v) \<in> set ob"
  by (simp add: map_of_eq_Some_iff)

lemma obj_keys_set [obj_simps]:
  "obj_keys (obj_set k v ob) = (if k \<in> set (obj_keys ob) then obj_keys ob else obj_keys ob @ [k])"
  by (simp add: update_keys)

lemma obj_distinct_set [simp]: "distinct (obj_keys ob) \<Longrightarrow> distinct (obj_keys (obj_set k v ob))"
  by (simp add: distinct_update)

lemma obj_set_new: "k \<notin> set (obj_keys ob) \<Longrightarrow> obj_set k v ob = ob @ [(k, v)]"
  by (induction ob) auto

lemma obj_get_key: "obj_get ob k \<noteq> None \<longleftrightarrow> k \<in> set (obj_keys ob)"
  by (simp add: map_of_eq_None_iff)

lemma obj_get_ex: "k \<in> set (obj_keys ob) \<Longrightarrow> \<exists>v. obj_get ob k = Some v"
  using obj_get_key [of ob k] by (cases "obj_get ob k") simp_all

lemma obj_get_Some_key: "obj_get ob k = Some v \<Longrightarrow> k \<in> set (obj_keys ob)"
  by (metis obj_get_key option.distinct(1))

lemma obj_get_Some_value: "obj_get ob k = Some v \<Longrightarrow> v \<in> set (obj_values ob)"
  by (force dest: map_of_SomeD)

text \<open>Mapping the values of an object keeps its keys and their order.\<close>

definition obj_map :: "(string \<Rightarrow> 'v \<Rightarrow> 'w) \<Rightarrow> 'v obj \<Rightarrow> 'w obj" where
  "obj_map f ob = map (\<lambda>(k, v). (k, f k v)) ob"

lemma obj_map_keys [obj_simps]: "obj_keys (obj_map f ob) = obj_keys ob"
  by (induction ob) (auto simp: obj_map_def)

lemma obj_get_map [obj_simps]: "obj_get (obj_map f ob) k = map_option (f k) (obj_get ob k)"
  by (induction ob) (auto simp: obj_map_def)

lemma obj_map_set: "(k, w) \<in> set (obj_map f ob) \<longleftrightarrow> (\<exists>v. (k, v) \<in> set ob \<and> w = f k v)"
  by (auto simp: obj_map_def)

text \<open>The value of \<open>m?.[k] ?? d\<close>.\<close>

definition obj_get_or :: "'v obj option \<Rightarrow> string \<Rightarrow> 'v \<Rightarrow> 'v" where
  "obj_get_or m k d = (case m of None \<Rightarrow> d
     | Some ob \<Rightarrow> (case obj_get ob k of None \<Rightarrow> d | Some v \<Rightarrow> v))"

section \<open>Sorting\<close>

text \<open>
  \<open>Array.prototype.sort\<close> is stable: an element is inserted behind the elements that compare equal.
  The comparator returns a number whose sign orders its arguments.
\<close>

fun sort_insert :: "('a \<Rightarrow> 'a \<Rightarrow> num) \<Rightarrow> 'a \<Rightarrow> 'a list \<Rightarrow> 'a list" where
  "sort_insert cmp x [] = [x]"
| "sort_insert cmp x (y # ys) = (if cmp y x \<le> 0 then y # sort_insert cmp x ys else x # y # ys)"

definition js_sort :: "('a \<Rightarrow> 'a \<Rightarrow> num) \<Rightarrow> 'a list \<Rightarrow> 'a list" where
  "js_sort cmp xs = fold (sort_insert cmp) xs []"

text \<open>\<open>c || d\<close> on numbers, as comparators chain their keys.\<close>

definition cmp_or :: "num \<Rightarrow> num \<Rightarrow> num" where
  "cmp_or c d = (if c \<noteq> 0 then c else d)"

text \<open>\<open>a < b ? -1 : a > b ? 1 : 0\<close> on strings, which compare by code units.\<close>

definition cmp_string :: "string \<Rightarrow> string \<Rightarrow> num" where
  "cmp_string a b = (if a < b then -1 else if b < a then 1 else 0)"

lemma mset_sort_insert [simp]: "mset (sort_insert cmp x xs) = add_mset x (mset xs)"
  by (induction xs) auto

lemma mset_js_sort [simp]: "mset (js_sort cmp xs) = mset xs"
proof -
  have "mset (fold (sort_insert cmp) xs ys) = mset ys + mset xs" for ys
    by (induction xs arbitrary: ys) auto
  then show ?thesis by (simp add: js_sort_def)
qed

lemma set_js_sort [simp]: "set (js_sort cmp xs) = set xs"
  by (metis mset_js_sort set_mset_mset)

lemma length_js_sort [simp]: "length (js_sort cmp xs) = length xs"
  by (metis mset_js_sort size_mset)

lemma distinct_js_sort [simp]: "distinct (js_sort cmp xs) = distinct xs"
  by (metis mset_js_sort mset_eq_imp_distinct_iff)

lemma js_sort_Nil [simp]: "js_sort cmp [] = []"
  by (simp add: js_sort_def)

lemma js_sort_eq_Nil [simp]: "js_sort cmp xs = [] \<longleftrightarrow> xs = []"
  by (metis length_0_conv length_js_sort)

locale js_comparator =
  fixes cmp :: "'a \<Rightarrow> 'a \<Rightarrow> num"
  assumes cmp_total: "cmp x y \<le> 0 \<or> cmp y x \<le> 0"
    and cmp_trans: "cmp x y \<le> 0 \<Longrightarrow> cmp y z \<le> 0 \<Longrightarrow> cmp x z \<le> 0"
begin

definition sorted_by :: "'a list \<Rightarrow> bool" where
  "sorted_by = sorted_wrt (\<lambda>x y. cmp x y \<le> 0)"

lemma sorted_by_insert: "sorted_by xs \<Longrightarrow> sorted_by (sort_insert cmp x xs)"
proof (induction xs)
  case (Cons y ys)
  have set: "set (sort_insert cmp x ys) = insert x (set ys)"
    by (metis mset_sort_insert set_mset_mset set_mset_add_mset_insert)
  show ?case
  proof (cases "cmp y x \<le> 0")
    case True
    with Cons show ?thesis by (auto simp: sorted_by_def set)
  next
    case False
    then have "cmp x y \<le> 0" using cmp_total by blast
    with Cons False show ?thesis by (auto simp: sorted_by_def intro: cmp_trans)
  qed
qed (simp add: sorted_by_def)

lemma sorted_js_sort: "sorted_by (js_sort cmp xs)"
proof -
  have "sorted_by (fold (sort_insert cmp) xs ys)" if "sorted_by ys" for ys
    using that by (induction xs arbitrary: ys) (auto intro: sorted_by_insert)
  then show ?thesis by (simp add: js_sort_def sorted_by_def)
qed

text \<open>On elements the comparator tells apart, the result does not depend on the input's order.\<close>

lemma sorted_by_unique:
  assumes "sorted_by xs" "sorted_by ys" "mset xs = mset ys"
    and "\<And>x y. x \<in> set xs \<Longrightarrow> y \<in> set xs \<Longrightarrow> cmp x y \<le> 0 \<Longrightarrow> cmp y x \<le> 0 \<Longrightarrow> x = y"
  shows "xs = ys"
  using assms
proof (induction xs arbitrary: ys)
  case (Cons x xs)
  from Cons.prems(3) obtain y ys' where ys: "ys = y # ys'"
    by (metis mset_zero_iff_right neq_Nil_conv add_mset_not_empty mset.simps(2))
  have mem: "set (x # xs) = set ys" using Cons.prems(3) by (metis set_mset_mset)
  have "x = y"
  proof (rule ccontr)
    assume "x \<noteq> y"
    then have "x \<in> set ys'" "y \<in> set xs" using mem ys by auto
    then have "cmp y x \<le> 0" "cmp x y \<le> 0" using Cons.prems(1,2) ys by (auto simp: sorted_by_def)
    then show False using Cons.prems(4) [of x y] \<open>y \<in> set xs\<close> \<open>x \<noteq> y\<close> by auto
  qed
  moreover have "xs = ys'"
    using Cons.prems ys \<open>x = y\<close> by (intro Cons.IH) (auto simp: sorted_by_def)
  ultimately show ?case using ys by simp
qed simp

lemma js_sort_permutation:
  assumes "mset xs = mset ys"
    and "\<And>x y. x \<in> set xs \<Longrightarrow> y \<in> set xs \<Longrightarrow> cmp x y \<le> 0 \<Longrightarrow> cmp y x \<le> 0 \<Longrightarrow> x = y"
  shows "js_sort cmp xs = js_sort cmp ys"
  by (rule sorted_by_unique) (use assms sorted_js_sort in simp_all)

end

text \<open>Comparators of the code: by a numeric key, by a string key, and by one key after another.\<close>

lemma fl_diff_le_iff: "jsub a b \<le> 0 \<longleftrightarrow> a \<le> b"
  by simp

interpretation by_string: js_comparator cmp_string
  by unfold_locales (auto simp: cmp_string_def split: if_splits)

section \<open>Decimal numerals\<close>

text \<open>\<open>String(n)\<close> of a natural number.\<close>

definition digit_char :: "nat \<Rightarrow> char" where
  "digit_char d = ''0123456789'' ! d"

fun nat_string :: "nat \<Rightarrow> string" where
  "nat_string n = (if n < 10 then [digit_char n] else nat_string (n div 10) @ [digit_char (n mod 10)])"

declare nat_string.simps [simp del]

lemma digit_char_inj: "a < 10 \<Longrightarrow> b < 10 \<Longrightarrow> digit_char a = digit_char b \<Longrightarrow> a = b"
  by (auto simp: digit_char_def nth_Cons' split: if_splits)

lemma nat_string_last: "last (nat_string n) = digit_char (n mod 10)"
  by (subst nat_string.simps) simp

lemma nat_string_butlast: "butlast (nat_string n) = (if n < 10 then [] else nat_string (n div 10))"
  by (subst nat_string.simps) (simp add: butlast_append)

lemma nat_string_nonempty: "nat_string n \<noteq> []" "[] \<noteq> nat_string n"
  by (subst nat_string.simps, simp)+

lemma nat_string_inj: "nat_string m = nat_string n \<longleftrightarrow> m = n"
proof (induction m arbitrary: n rule: less_induct)
  case (less m)
  have "m = n" if eq: "nat_string m = nat_string n"
  proof -
    have digit: "m mod 10 = n mod 10"
      using arg_cong [OF eq, of last] digit_char_inj [of "m mod 10" "n mod 10"] by (simp add: nat_string_last)
    have rest: "(if m < 10 then [] else nat_string (m div 10)) = (if n < 10 then [] else nat_string (n div 10))"
      using arg_cong [OF eq, of butlast] by (simp add: nat_string_butlast)
    have "m div 10 = n div 10"
      using rest less.IH [of "m div 10" "n div 10"]
      by (cases "m < 10"; cases "n < 10") (simp_all add: nat_string_nonempty)
    with digit show ?thesis by (metis div_mult_mod_eq)
  qed
  then show ?case by blast
qed

section \<open>Machines driven by a clock\<close>

text \<open>Repeating a step that may throw.\<close>

primrec run_steps :: "nat \<Rightarrow> ('s \<Rightarrow> 's result) \<Rightarrow> 's \<Rightarrow> 's result" where
  "run_steps 0 step s = Inr s"
| "run_steps (Suc n) step s = rbind (step s) (run_steps n step)"

text \<open>
  The interface of a simulation with a time limit: steps keep an invariant and do not throw, a state that
  is over stays, and the clock gains at least \<open>gain\<close> in every step after which the run goes on, below the
  limit.
\<close>

locale tick_machine =
  fixes step :: "'s \<Rightarrow> 's result" and ok :: "'s \<Rightarrow> bool" and running :: "'s \<Rightarrow> bool"
    and clock :: "'s \<Rightarrow> num" and gain :: num and limit :: num
  assumes step_ok: "ok s \<Longrightarrow> \<exists>s'. step s = Inr s' \<and> ok s'"
    and over_stays: "ok s \<Longrightarrow> \<not> running s \<Longrightarrow> step s = Inr s"
    and clock_gain: "ok s \<Longrightarrow> running s \<Longrightarrow> step s = Inr s' \<Longrightarrow> running s' \<Longrightarrow>
      clock s + gain \<le> clock s' \<and> clock s' < limit"
begin

lemma run_ok: "ok s \<Longrightarrow> \<exists>s'. run_steps n step s = Inr s' \<and> ok s'"
proof (induction n arbitrary: s)
  case (Suc n)
  then obtain s1 where "step s = Inr s1" "ok s1" using step_ok by blast
  with Suc.IH [of s1] show ?case by simp
qed simp

lemma run_over: "ok s \<Longrightarrow> \<not> running s \<Longrightarrow> run_steps n step s = Inr s"
  by (induction n) (simp_all add: over_stays)

lemma run_clock:
  assumes "ok s" "running s" "run_steps n step s = Inr s'" "running s'"
  shows "clock s + of_nat n * gain \<le> clock s' \<and> (0 < n \<longrightarrow> clock s' < limit)"
  using assms
proof (induction n arbitrary: s)
  case (Suc n)
  obtain s1 where s1: "step s = Inr s1" "ok s1" using step_ok Suc.prems(1) by blast
  have rest: "run_steps n step s1 = Inr s'" using Suc.prems(3) s1 by simp
  have on: "running s1" using run_over [OF s1(2)] rest Suc.prems(4) by fastforce
  have "clock s + gain \<le> clock s1 \<and> clock s1 < limit" by (rule clock_gain [OF Suc.prems(1,2) s1(1) on])
  moreover have "clock s1 + of_nat n * gain \<le> clock s' \<and> (0 < n \<longrightarrow> clock s' < limit)"
    by (rule Suc.IH [OF s1(2) on rest Suc.prems(4)])
  moreover have "n = 0 \<Longrightarrow> s' = s1" using rest by simp
  ultimately show ?case by (cases "n = 0") (auto simp: algebra_simps)
qed simp

lemma run_ends:
  assumes "ok s" "0 < n" "limit \<le> clock s + of_nat n * gain"
  shows "\<exists>s'. run_steps n step s = Inr s' \<and> ok s' \<and> \<not> running s'"
proof -
  obtain s' where s': "run_steps n step s = Inr s'" "ok s'" using run_ok [OF assms(1)] by blast
  show ?thesis
  proof (cases "running s")
    case True
    then have "\<not> running s'" using run_clock [OF assms(1) True s'(1)] assms(2,3) by fastforce
    with s' show ?thesis by blast
  next
    case False
    then show ?thesis using run_over [OF assms(1)] assms(1) by blast
  qed
qed

end

end
