(* ===== verification/GameTypes.thy ===== *)
theory GameTypes
  imports Prelude
begin

text \<open>
  The domain types of \<open>packages/game-core/src/types.ts\<close>, the rule versions of
  \<open>gameplay-rules.ts\<close> and the territory types of \<open>territory-types.ts\<close>. A record field
  \<open>t_units\<close>, \<open>a_units\<close>, \<open>g_status\<close> stands for the field \<open>units\<close> of \<open>Territory\<close>, \<open>units\<close> of
  \<open>MarchingArmy\<close>, \<open>status\<close> of \<open>GameState\<close>, and so on; an optional field has an option type.
\<close>

section \<open>Domain types\<close>

datatype team = Player | Enemy | Neutral
datatype match_mode = OneVsOne | TwoVsTwo
datatype territory_type = Fortress | Barracks | Stable
datatype match_status = Playing | Victory | Defeat | Draw

type_synonym battlefield_id = string
type_synonym commander_id = string

record territory =
  t_id :: string
  t_name :: string
  t_x :: num
  t_y :: num
  t_radius :: num
  t_owner :: team
  t_units :: num
  t_maxUnits :: num
  t_productionRate :: num
  t_tier :: nat
  t_type :: territory_type

record army =
  a_routeIds :: "string list option"
  a_routeLeg :: "nat option"
  a_routeSpeed :: "num option"
  a_id :: string
  a_sourceId :: string
  a_targetId :: string
  a_owner :: team
  a_units :: num
  a_startX :: num
  a_startY :: num
  a_targetX :: num
  a_targetY :: num
  a_progress :: num
  a_speed :: num
  a_distance :: num

record combat_result =
  c_routeInterrupted :: bool
  c_targetId :: string
  c_attackerOwner :: team
  c_previousOwner :: team
  c_newOwner :: team
  c_previousUnits :: num
  c_incomingUnits :: num
  c_remainingUnits :: num
  c_captured :: bool
  c_reinforced :: bool

record match_stats =
  ms_duration :: num
  ms_playerUnitsDispatched :: num
  ms_enemyUnitsDispatched :: num
  ms_capturedByPlayer :: num
  ms_capturedByEnemy :: num

text \<open>
  \<open>playerAbilityUsed\<close> and \<open>enemyAbilityUsed\<close> are only ever written as \<open>true\<close> and only tested for
  truth, so the absent field is \<open>False\<close>.
\<close>

record game_state =
  g_rules :: "num option"
  g_readyAtMs :: "num obj option"
  g_shieldedUntilMs :: "num obj option"
  g_playerAbilityUsed :: bool
  g_enemyAbilityUsed :: bool
  g_battlefieldId :: "battlefield_id option"
  g_territories :: "territory obj"
  g_armies :: "army list"
  g_status :: match_status
  g_elapsed :: num
  g_timeLimit :: num
  g_stats :: match_stats

text \<open>\<open>PlayerUpgradeModifiers\<close> of \<open>upgrades.ts\<close>, which the map and the simulation also use.\<close>

record player_modifiers =
  pm_startingUnits :: num
  pm_productionRateMultiplier :: num
  pm_armySpeedMultiplier :: num

definition empty_stats :: match_stats where
  "empty_stats = \<lparr>ms_duration = 0, ms_playerUnitsDispatched = 0, ms_enemyUnitsDispatched = 0,
     ms_capturedByPlayer = 0, ms_capturedByEnemy = 0\<rparr>"

section \<open>Gameplay rule versions\<close>

definition GAMEPLAY_RULES_VERSION :: num where "GAMEPLAY_RULES_VERSION = 2"
definition TACTICAL_RULES_VERSION :: num where "TACTICAL_RULES_VERSION = 3"
definition TACTICAL_V4_RULES_VERSION :: num where "TACTICAL_V4_RULES_VERSION = 4"

definition tactical_baseBonus :: num where "tactical_baseBonus = 8"
definition tactical_supportUnits :: num where "tactical_supportUnits = 14"
definition tactical_minLegSeconds :: num where "tactical_minLegSeconds = 2"

definition hasCaptureRecovery :: "num option \<Rightarrow> bool" where
  "hasCaptureRecovery v = (v = Some 2 \<or> v = Some 3 \<or> v = Some 4)"

definition usesTacticalRules :: "num option \<Rightarrow> bool" where
  "usesTacticalRules v = (v = Some 3 \<or> v = Some 4)"

definition hasCommanderAbilities :: "num option \<Rightarrow> bool" where
  "hasCommanderAbilities v = (v = Some 4)"

definition hasFogOfWar :: "num option \<Rightarrow> bool" where
  "hasFogOfWar v = (v = Some 4)"

definition CAPTURE_RECOVERY_MS :: num where "CAPTURE_RECOVERY_MS = 3000"

definition ability_unlockSeconds :: num where "ability_unlockSeconds = 15"
definition ability_shieldDefenseMultiplier :: num where "ability_shieldDefenseMultiplier = 2"
definition ability_shieldDurationMs :: num where "ability_shieldDurationMs = 8000"
definition ability_supplyUnits :: num where "ability_supplyUnits = 5"
definition ability_chargeUnitMultiplier :: num where "ability_chargeUnitMultiplier = 2"
definition ability_chargeSpeedMultiplier :: num where "ability_chargeSpeedMultiplier = 3 / 2"

definition CAPTURE_INITIAL_PRODUCTION_MULTIPLIER :: num where
  "CAPTURE_INITIAL_PRODUCTION_MULTIPLIER = 1 / 2"

definition validateGameplayRulesVersion :: "num \<Rightarrow> num result" where
  "validateGameplayRulesVersion value =
     (if value \<noteq> 1 \<and> value \<noteq> 2 \<and> value \<noteq> 3 \<and> value \<noteq> 4
      then Inl (Thrown ''unsupported_gameplay_rules_version'') else Inr value)"

text \<open>The deadline is an integer number of milliseconds; \<open>readyAtMs\<close> defaults to 0.\<close>

definition getCaptureProductionMultiplier :: "num \<Rightarrow> num \<Rightarrow> num" where
  "getCaptureProductionMultiplier elapsedSeconds readyAtMs =
     (let remaining = max 0 (jsub readyAtMs (math_round (jmul elapsedSeconds 1000)))
      in jsub 1 (jmul (jsub 1 CAPTURE_INITIAL_PRODUCTION_MULTIPLIER)
                   (min 1 (jdiv remaining CAPTURE_RECOVERY_MS))))"

section \<open>Territory types\<close>

definition FORTRESS_DEFENSE_MULTIPLIER :: num where "FORTRESS_DEFENSE_MULTIPLIER = 5 / 4"
definition BARRACKS_PRODUCTION_MULTIPLIER :: num where "BARRACKS_PRODUCTION_MULTIPLIER = 5 / 4"
definition STABLE_ARMY_SPEED_MULTIPLIER :: num where "STABLE_ARMY_SPEED_MULTIPLIER = 5 / 4"

definition getTerritoryDefenseMultiplier :: "territory_type \<Rightarrow> num" where
  "getTerritoryDefenseMultiplier ty = (if ty = Fortress then FORTRESS_DEFENSE_MULTIPLIER else 1)"

definition getTerritoryDefenseStrength :: "territory \<Rightarrow> num \<Rightarrow> num" where
  "getTerritoryDefenseStrength t bonus =
     math_ceil (jmul (t_units t) (jmul (getTerritoryDefenseMultiplier (t_type t)) bonus))"

definition getRemainingDefenders :: "territory_type \<Rightarrow> num \<Rightarrow> num \<Rightarrow> num" where
  "getRemainingDefenders ty effectiveUnits bonus =
     math_ceil (jdiv effectiveUnits (jmul (getTerritoryDefenseMultiplier ty) bonus))"

definition getTerritoryProductionMultiplier :: "territory_type \<Rightarrow> num" where
  "getTerritoryProductionMultiplier ty = (if ty = Barracks then BARRACKS_PRODUCTION_MULTIPLIER else 1)"

definition getTerritoryArmySpeedMultiplier :: "territory_type \<Rightarrow> num" where
  "getTerritoryArmySpeedMultiplier ty = (if ty = Stable then STABLE_ARMY_SPEED_MULTIPLIER else 1)"

text \<open>\<open>TERRITORY_TYPE_PRESENTATION\<close>: the label and the colour of each type.\<close>

definition territoryTypePresentation :: "territory_type \<Rightarrow> string \<times> nat" where
  "territoryTypePresentation ty = (case ty of
       Fortress \<Rightarrow> (''DEF'', 0xf59e0b)
     | Barracks \<Rightarrow> (''PROD'', 0x34d399)
     | Stable \<Rightarrow> (''SPD'', 0x38bdf8))"

section \<open>Facts\<close>

lemma usesTacticalRules_recovery: "usesTacticalRules v \<Longrightarrow> hasCaptureRecovery v"
  by (auto simp: usesTacticalRules_def hasCaptureRecovery_def)

lemma defense_multiplier_ge_1: "1 \<le> getTerritoryDefenseMultiplier ty"
  by (simp add: getTerritoryDefenseMultiplier_def FORTRESS_DEFENSE_MULTIPLIER_def)

lemma production_multiplier_pos: "0 < getTerritoryProductionMultiplier ty"
  by (simp add: getTerritoryProductionMultiplier_def BARRACKS_PRODUCTION_MULTIPLIER_def)

lemma army_speed_multiplier_pos: "0 < getTerritoryArmySpeedMultiplier ty"
  by (simp add: getTerritoryArmySpeedMultiplier_def STABLE_ARMY_SPEED_MULTIPLIER_def)

text \<open>
  While a captured territory recovers, production is scaled by a factor between one half and one;
  the factor is one as soon as the deadline has passed.
\<close>

lemma is_double_half [simp]: "is_double (1 / 2)"
  using is_double_dyadic [of 1 1] by simp

lemma fl_half [simp]: "fl (1 / 2) = 1 / 2"
  by (rule fl_double) simp

lemma capture_multiplier_bounds:
  "1 / 2 \<le> getCaptureProductionMultiplier e r" "getCaptureProductionMultiplier e r \<le> 1"
proof -
  define q where "q = min 1 (jdiv (max 0 (jsub r (math_round (jmul e 1000)))) CAPTURE_RECOVERY_MS)"
  have q: "0 \<le> q" "q \<le> 1" by (auto simp: q_def CAPTURE_RECOVERY_MS_def)
  have eq: "getCaptureProductionMultiplier e r = jsub 1 (fl (1 / 2 * q))"
    by (simp add: getCaptureProductionMultiplier_def CAPTURE_INITIAL_PRODUCTION_MULTIPLIER_def q_def Let_def)
  have "0 \<le> fl (1 / 2 * q)" "fl (1 / 2 * q) \<le> 1 / 2"
    using q by (simp, intro fl_le_double) simp_all
  then show "1 / 2 \<le> getCaptureProductionMultiplier e r" "getCaptureProductionMultiplier e r \<le> 1"
    unfolding eq by (intro fl_ge_double fl_le_double; simp)+
qed

lemma capture_multiplier_recovered:
  "r \<le> math_round (jmul e 1000) \<Longrightarrow> getCaptureProductionMultiplier e r = 1"
  by (simp add: getCaptureProductionMultiplier_def max_def)

text \<open>A tower for the examples: the centre of the first battlefield, with the given owner and units.\<close>

definition example_tower :: "team \<Rightarrow> num \<Rightarrow> territory_type \<Rightarrow> territory" where
  "example_tower w n ty = \<lparr>t_id = ''n_center'', t_name = ''Crown Keep'', t_x = 200, t_y = 360,
     t_radius = 32, t_owner = w, t_units = n, t_maxUnits = 55, t_productionRate = 1, t_tier = 2,
     t_type = ty\<rparr>"

end
