(* ===== verification/Battlefields.thy ===== *)
theory Battlefields
  imports GameTypes
begin

text \<open>
  \<open>battlefields.ts\<close>, the data file \<open>apps/server-nakama/battlefields.json\<close> it loads, and \<open>map.ts\<close>.
  The four shipped battlefields are constants, with the numbers of the file; a template of the source
  has exactly the fields of a \<open>Territory\<close>, so it is a \<open>territory\<close> here.
  \<open>validateBattlefieldDefinition\<close> is modelled check by check, in the order in which the code throws.
\<close>

text \<open>The binary64 values of the decimal literals, for evaluation.\<close>

lemma decimal_literals [code_unfold]:
  "fl (85 / 100) = 7656119366529843 / 9007199254740992"
  "fl (9 / 10) = 8106479329266893 / 9007199254740992"
  "fl (11 / 10) = 2476979795053773 / 2251799813685248"
  "fl (115 / 100) = 2589569785738035 / 2251799813685248"
  "fl (12 / 10) = 5404319552844595 / 4503599627370496"
  by code_simp+

text \<open>The tolerance \<open>1e-4\<close> of the symmetry checks.\<close>

definition SYMMETRY_EPSILON :: num where
  "SYMMETRY_EPSILON = fl (1 / 10 ^ 4)"

lemma SYMMETRY_EPSILON_code [code]: "SYMMETRY_EPSILON = 7378697629483821 / 73786976294838206464"
  unfolding SYMMETRY_EPSILON_def by code_simp

lemma SYMMETRY_EPSILON_bounds: "0 < SYMMETRY_EPSILON" "SYMMETRY_EPSILON < 1"
  by (simp_all add: SYMMETRY_EPSILON_code)

section \<open>Battlefield definitions\<close>

record battlefield_definition =
  b_id :: string
  b_mode :: match_mode
  b_name :: string
  b_subtitle :: string
  b_accent :: num
  b_motif :: string
  b_colors :: "num obj"
  b_territories :: "territory list"
  b_roads :: "(string \<times> string) list"

definition tower ::
  "string \<Rightarrow> string \<Rightarrow> num \<Rightarrow> num \<Rightarrow> num \<Rightarrow> team \<Rightarrow> num \<Rightarrow> num \<Rightarrow> num \<Rightarrow> nat \<Rightarrow> territory_type \<Rightarrow> territory" where
  "tower i nm x y radius own u maxU rate tier ty =
     \<lparr>t_id = i, t_name = nm, t_x = x, t_y = y, t_radius = radius, t_owner = own, t_units = u,
      t_maxUnits = maxU, t_productionRate = rate, t_tier = tier, t_type = ty\<rparr>"

definition crown_cross :: battlefield_definition where
  "crown_cross = \<lparr>b_id = ''crown_cross'', b_mode = OneVsOne, b_name = ''Crown Cross'', b_subtitle = ''Control the central keep'', b_accent = 16096779,
     b_motif = ''crown_cross'',
     b_colors = [(''field'', 2775610), (''grid'', 4092752), (''road'', 7232062), (''roadInlay'', 9402450), (''socket'', 2309163), (''motifColor'', 16096779)],
     b_territories = [
       tower ''p_base'' ''Player Fortress'' 200 610 36 Player 20 65 (fl (12 / 10)) 3 Fortress,
       tower ''e_base'' ''Enemy Citadel'' 200 110 36 Enemy 20 65 (fl (12 / 10)) 3 Fortress,
       tower ''n_bot_left'' ''Southwest Barracks'' 85 485 27 Neutral 8 40 (fl (9 / 10)) 1 Barracks,
       tower ''n_bot_right'' ''Southeast Stable'' 315 485 27 Neutral 8 40 (fl (9 / 10)) 1 Stable,
       tower ''n_center'' ''Crown Keep'' 200 360 32 Neutral 14 55 (fl (11 / 10)) 2 Fortress,
       tower ''n_mid_left'' ''West Barracks'' 75 360 26 Neutral 10 40 (fl (85 / 100)) 1 Barracks,
       tower ''n_mid_right'' ''East Barracks'' 325 360 26 Neutral 10 40 (fl (85 / 100)) 1 Barracks,
       tower ''n_top_left'' ''Northwest Stable'' 85 235 27 Neutral 8 40 (fl (9 / 10)) 1 Stable,
       tower ''n_top_right'' ''Northeast Barracks'' 315 235 27 Neutral 8 40 (fl (9 / 10)) 1 Barracks],
     b_roads = [
       (''p_base'', ''n_bot_left''), (''p_base'', ''n_center''), (''p_base'', ''n_bot_right''),
       (''n_bot_left'', ''n_mid_left''), (''n_bot_right'', ''n_mid_right''), (''n_mid_left'', ''n_center''),
       (''n_mid_right'', ''n_center''), (''n_mid_left'', ''n_top_left''), (''n_mid_right'', ''n_top_right''),
       (''n_center'', ''e_base''), (''n_top_left'', ''e_base''), (''n_top_right'', ''e_base''),
       (''n_bot_left'', ''n_center''), (''n_bot_right'', ''n_center''), (''n_top_left'', ''n_center''),
       (''n_top_right'', ''n_center'')]\<rparr>"

definition twin_passes :: battlefield_definition where
  "twin_passes = \<lparr>b_id = ''twin_passes'', b_mode = OneVsOne, b_name = ''Twin Passes'', b_subtitle = ''Fast towers rule the flanks'', b_accent = 3718648,
     b_motif = ''twin_passes'',
     b_colors = [(''field'', 3038020), (''grid'', 4355418), (''road'', 7430730), (''roadInlay'', 9667690), (''socket'', 2508083), (''motifColor'', 3718648)],
     b_territories = [
       tower ''p_base'' ''Player Fortress'' 200 610 36 Player 20 65 (fl (12 / 10)) 3 Fortress,
       tower ''e_base'' ''Enemy Citadel'' 200 110 36 Enemy 20 65 (fl (12 / 10)) 3 Fortress,
       tower ''n_west_gate_s'' ''Southwest Gate'' 100 490 27 Neutral 8 40 (fl (9 / 10)) 1 Stable,
       tower ''n_west_pass'' ''West Pass'' 90 360 28 Neutral 14 45 1 2 Barracks,
       tower ''n_west_gate_n'' ''Northwest Gate'' 100 230 27 Neutral 8 40 (fl (9 / 10)) 1 Stable,
       tower ''n_east_gate_s'' ''Southeast Gate'' 300 490 27 Neutral 8 40 (fl (9 / 10)) 1 Stable,
       tower ''n_east_pass'' ''East Pass'' 310 360 28 Neutral 14 45 1 2 Barracks,
       tower ''n_east_gate_n'' ''Northeast Gate'' 300 230 27 Neutral 8 40 (fl (9 / 10)) 1 Stable],
     b_roads = [
       (''p_base'', ''n_west_gate_s''), (''p_base'', ''n_east_gate_s''), (''n_west_gate_s'', ''n_west_pass''),
       (''n_east_gate_s'', ''n_east_pass''), (''n_west_pass'', ''n_east_pass''), (''n_west_pass'', ''n_west_gate_n''),
       (''n_east_pass'', ''n_east_gate_n''), (''n_west_gate_n'', ''e_base''), (''n_east_gate_n'', ''e_base'')]\<rparr>"

definition royal_ring :: battlefield_definition where
  "royal_ring = \<lparr>b_id = ''royal_ring'', b_mode = OneVsOne, b_name = ''Royal Ring'', b_subtitle = ''Choose your attack lane'', b_accent = 10980346,
     b_motif = ''royal_ring'',
     b_colors = [(''field'', 3107655), (''grid'', 4423000), (''road'', 9666654), (''roadInlay'', 11838340), (''socket'', 2641720), (''motifColor'', 10980346)],
     b_territories = [
       tower ''p_base'' ''Player Fortress'' 200 610 36 Player 20 65 (fl (12 / 10)) 3 Fortress,
       tower ''e_base'' ''Enemy Citadel'' 200 110 36 Enemy 20 65 (fl (12 / 10)) 3 Fortress,
       tower ''n_ring_sw'' ''Southwest Bastion'' 125 505 26 Neutral 9 40 (fl (9 / 10)) 1 Barracks,
       tower ''n_ring_se'' ''Southeast Bastion'' 275 505 26 Neutral 9 40 (fl (9 / 10)) 1 Barracks,
       tower ''n_ring_w_s'' ''West Lower Outpost'' 65 415 26 Neutral 8 40 (fl (85 / 100)) 1 Stable,
       tower ''n_ring_e_s'' ''East Lower Outpost'' 335 415 26 Neutral 8 40 (fl (85 / 100)) 1 Stable,
       tower ''n_ring_w_n'' ''West Upper Outpost'' 65 305 26 Neutral 8 40 (fl (85 / 100)) 1 Stable,
       tower ''n_ring_e_n'' ''East Upper Outpost'' 335 305 26 Neutral 8 40 (fl (85 / 100)) 1 Stable,
       tower ''n_ring_nw'' ''Northwest Bastion'' 125 215 26 Neutral 9 40 (fl (9 / 10)) 1 Barracks,
       tower ''n_ring_ne'' ''Northeast Bastion'' 275 215 26 Neutral 9 40 (fl (9 / 10)) 1 Barracks],
     b_roads = [
       (''p_base'', ''n_ring_sw''), (''p_base'', ''n_ring_se''), (''n_ring_sw'', ''n_ring_se''),
       (''n_ring_sw'', ''n_ring_w_s''), (''n_ring_se'', ''n_ring_e_s''), (''n_ring_w_s'', ''n_ring_w_n''),
       (''n_ring_e_s'', ''n_ring_e_n''), (''n_ring_w_n'', ''n_ring_nw''), (''n_ring_e_n'', ''n_ring_ne''),
       (''n_ring_nw'', ''n_ring_ne''), (''n_ring_nw'', ''e_base''), (''n_ring_ne'', ''e_base''),
       (''n_ring_w_s'', ''n_ring_e_n''), (''n_ring_e_s'', ''n_ring_w_n'')]\<rparr>"

definition quad_citadel :: battlefield_definition where
  "quad_citadel = \<lparr>b_id = ''quad_citadel'', b_mode = TwoVsTwo, b_name = ''Quad Citadel'', b_subtitle = ''Four commanders, two banners'', b_accent = 8490232,
     b_motif = ''quad_citadel'',
     b_colors = [(''field'', 4088368), (''grid'', 5404732), (''road'', 6968890), (''roadInlay'', 9138760), (''socket'', 3030820), (''motifColor'', 8490232)],
     b_territories = [
       tower ''a_base_w'' ''West Bastion'' 90 590 36 Player 20 65 (fl (12 / 10)) 3 Fortress,
       tower ''a_base_e'' ''East Bastion'' 310 590 36 Player 20 65 (fl (12 / 10)) 3 Fortress,
       tower ''b_base_w'' ''North Citadel West'' 90 130 36 Enemy 20 65 (fl (12 / 10)) 3 Fortress,
       tower ''b_base_e'' ''North Citadel East'' 310 130 36 Enemy 20 65 (fl (12 / 10)) 3 Fortress,
       tower ''a_gate_w'' ''South Gate West'' 115 470 27 Neutral 8 40 (fl (9 / 10)) 1 Barracks,
       tower ''a_gate_e'' ''South Gate East'' 285 470 27 Neutral 8 40 (fl (9 / 10)) 1 Stable,
       tower ''b_gate_w'' ''North Gate East'' 285 250 27 Neutral 8 40 (fl (9 / 10)) 1 Barracks,
       tower ''b_gate_e'' ''North Gate West'' 115 250 27 Neutral 8 40 (fl (9 / 10)) 1 Stable,
       tower ''n_corner_sw'' ''Southwest Spur'' 60 540 26 Neutral 8 40 (fl (9 / 10)) 1 Stable,
       tower ''n_corner_se'' ''Southeast Spur'' 340 540 26 Neutral 8 40 (fl (9 / 10)) 1 Barracks,
       tower ''n_corner_nw'' ''Northwest Spur'' 60 180 26 Neutral 8 40 (fl (9 / 10)) 1 Barracks,
       tower ''n_corner_ne'' ''Northeast Spur'' 340 180 26 Neutral 8 40 (fl (9 / 10)) 1 Stable,
       tower ''n_center'' ''Quad Keep'' 200 360 34 Neutral 16 55 (fl (115 / 100)) 2 Fortress],
     b_roads = [
       (''a_base_w'', ''a_base_e''), (''a_base_w'', ''a_gate_w''), (''a_base_e'', ''a_gate_e''),
       (''a_gate_w'', ''n_center''), (''a_gate_e'', ''n_center''), (''a_base_w'', ''n_corner_sw''),
       (''a_base_e'', ''n_corner_se''), (''n_corner_sw'', ''a_gate_w''), (''n_corner_se'', ''a_gate_e''),
       (''n_corner_sw'', ''n_corner_se''), (''b_base_w'', ''b_base_e''), (''b_base_e'', ''b_gate_w''),
       (''b_base_w'', ''b_gate_e''), (''b_gate_w'', ''n_center''), (''b_gate_e'', ''n_center''),
       (''b_base_e'', ''n_corner_ne''), (''b_base_w'', ''n_corner_nw''), (''n_corner_ne'', ''b_gate_w''),
       (''n_corner_nw'', ''b_gate_e''), (''n_corner_ne'', ''n_corner_nw'')]\<rparr>"

definition BATTLEFIELDS :: "battlefield_definition list" where
  "BATTLEFIELDS = [crown_cross, twin_passes, royal_ring, quad_citadel]"

definition DEFAULT_BATTLEFIELD_ID :: battlefield_id where
  "DEFAULT_BATTLEFIELD_ID = ''crown_cross''"

text \<open>\<open>undefined\<close> selects the default mode; \<open>Inl\<close> carries the message's prefix and the value.\<close>

definition normalizeBattlefieldMode :: "string option \<Rightarrow> match_mode result" where
  "normalizeBattlefieldMode v =
     (case v of None \<Rightarrow> Inr OneVsOne
      | Some s \<Rightarrow> if s = ''1v1'' then Inr OneVsOne else if s = ''2v2'' then Inr TwoVsTwo
                  else Inl (Thrown (''Invalid battlefield mode: '' @ s)))"

definition normalizeBattlefieldId :: "string option \<Rightarrow> battlefield_id" where
  "normalizeBattlefieldId v =
     (case v of None \<Rightarrow> DEFAULT_BATTLEFIELD_ID
      | Some s \<Rightarrow> if list_ex (\<lambda>b. b_id b = s) BATTLEFIELDS then s else DEFAULT_BATTLEFIELD_ID)"

definition getBattlefield :: "string option \<Rightarrow> battlefield_definition" where
  "getBattlefield v =
     (let i = normalizeBattlefieldId v
      in case List.find (\<lambda>b. b_id b = i) BATTLEFIELDS of Some b \<Rightarrow> b | None \<Rightarrow> hd BATTLEFIELDS)"

section \<open>Initial territories (map.ts)\<close>

definition default_modifiers :: player_modifiers where
  "default_modifiers = \<lparr>pm_startingUnits = 20, pm_productionRateMultiplier = 1, pm_armySpeedMultiplier = 1\<rparr>"

definition default_territory :: "player_modifiers \<Rightarrow> player_modifiers \<Rightarrow> territory \<Rightarrow> territory" where
  "default_territory playerModifiers enemyModifiers template =
     (if t_id template = ''p_base'' \<or> t_owner template = Player then
        template\<lparr>t_units := pm_startingUnits playerModifiers,
          t_productionRate := jmul (t_productionRate template) (pm_productionRateMultiplier playerModifiers)\<rparr>
      else if t_id template = ''e_base'' \<or> t_owner template = Enemy then
        template\<lparr>t_units := pm_startingUnits enemyModifiers,
          t_productionRate := jmul (t_productionRate template) (pm_productionRateMultiplier enemyModifiers)\<rparr>
      else template)"

definition createDefaultTerritories ::
  "player_modifiers option \<Rightarrow> player_modifiers option \<Rightarrow> battlefield_id option \<Rightarrow> territory obj" where
  "createDefaultTerritories playerModifiers enemyModifiers battlefieldId =
     (let pm = (case playerModifiers of Some m \<Rightarrow> m | None \<Rightarrow> default_modifiers);
          em = (case enemyModifiers of Some m \<Rightarrow> m | None \<Rightarrow> default_modifiers);
          b = getBattlefield (Some (case battlefieldId of Some i \<Rightarrow> i | None \<Rightarrow> ''crown_cross''))
      in fold (\<lambda>template. obj_set (t_id template) (default_territory pm em template)) (b_territories b) [])"

section \<open>Validation\<close>

datatype battlefield_error =
    MotifMismatch
  | InvalidColor string
  | DuplicateTerritory string
  | PlayerBaseCount
  | EnemyBaseCount
  | TeamASpawns
  | TeamBSpawns
  | SpawnNotFortress string
  | NoNeutralTerritory
  | RoadEndpointMissing string
  | SelfRoad string
  | DuplicateRoad string
  | OutOfBounds string
  | BasesNotSymmetric
  | NoCounterpart string
  | ManyCounterparts string nat
  | OwnerNotMirrored string
  | AttributeMismatch string string
  | RoadMapsToItself string string
  | RoadNotMirrored string string string string
  | UndefinedCounterpart
  | NotDistinctBattlefields string string

type_synonym check = "battlefield_error + unit"

definition throw_if :: "bool \<Rightarrow> battlefield_error \<Rightarrow> check" where
  "throw_if c e = (if c then Inl e else Inr ())"

definition then_check :: "check \<Rightarrow> check \<Rightarrow> check" where
  "then_check m k = rbind m (\<lambda>_. k)"

fun checks :: "check list \<Rightarrow> check" where
  "checks [] = Inr ()"
| "checks (c # cs) = then_check c (checks cs)"

definition check_all :: "('a \<Rightarrow> check) \<Rightarrow> 'a list \<Rightarrow> check" where
  "check_all f xs = checks (map f xs)"

definition roadKey :: "string \<Rightarrow> string \<Rightarrow> string" where
  "roadKey idA idB = (if idA < idB then idA @ ''<->'' @ idB else idB @ ''<->'' @ idA)"

fun check_unique_ids :: "string list \<Rightarrow> territory list \<Rightarrow> check" where
  "check_unique_ids seen [] = Inr ()"
| "check_unique_ids seen (t # ts) =
     (if t_id t \<in> set seen then Inl (DuplicateTerritory (t_id t))
      else check_unique_ids (t_id t # seen) ts)"

fun check_roads :: "string list \<Rightarrow> string list \<Rightarrow> (string \<times> string) list \<Rightarrow> check" where
  "check_roads ids seen [] = Inr ()"
| "check_roads ids seen ((a, b) # rs) =
     (if a \<notin> set ids then Inl (RoadEndpointMissing a)
      else if b \<notin> set ids then Inl (RoadEndpointMissing b)
      else if a = b then Inl (SelfRoad a)
      else if roadKey a b \<in> set seen then Inl (DuplicateRoad (roadKey a b))
      else check_roads ids (roadKey a b # seen) rs)"

definition check_colors :: "battlefield_definition \<Rightarrow> check" where
  "check_colors d = check_all (\<lambda>(key, color).
     throw_if (math_floor color \<noteq> color \<or> color < 0 \<or> 16777215 < color) (InvalidColor key)) (b_colors d)"

definition owned_by :: "team \<Rightarrow> battlefield_definition \<Rightarrow> territory list" where
  "owned_by w d = filter (\<lambda>t. t_owner t = w) (b_territories d)"

definition check_bases :: "battlefield_definition \<Rightarrow> check" where
  "check_bases d =
     (let playerBases = owned_by Player d; enemyBases = owned_by Enemy d
      in if b_mode d = OneVsOne then
           checks [throw_if (map t_id playerBases \<noteq> [''p_base'']) PlayerBaseCount,
                   throw_if (map t_id enemyBases \<noteq> [''e_base'']) EnemyBaseCount]
         else
           checks [throw_if (js_sort cmp_string (map t_id playerBases) \<noteq> [''a_base_e'', ''a_base_w'']) TeamASpawns,
                   throw_if (js_sort cmp_string (map t_id enemyBases) \<noteq> [''b_base_e'', ''b_base_w'']) TeamBSpawns,
                   check_all (\<lambda>spawn. throw_if (t_tier spawn \<noteq> 3 \<or> t_type spawn \<noteq> Fortress)
                     (SpawnNotFortress (t_id spawn))) (playerBases @ enemyBases)])"

definition check_bounds :: "battlefield_definition \<Rightarrow> check" where
  "check_bounds d = check_all (\<lambda>t.
     throw_if (jsub (t_x t) (t_radius t) < 15 \<or> 385 < jadd (t_x t) (t_radius t)
       \<or> jsub (t_y t) (t_radius t) < 70 \<or> 650 < jadd (t_y t) (t_radius t)) (OutOfBounds (t_id t)))
     (b_territories d)"

definition check_base_axis :: "battlefield_definition \<Rightarrow> check" where
  "check_base_axis d =
     (if b_mode d = OneVsOne then
        throw_if (t_x (hd (owned_by Player d)) \<noteq> t_x (hd (owned_by Enemy d))
          \<or> jadd (t_y (hd (owned_by Player d))) (t_y (hd (owned_by Enemy d))) \<noteq> 720) BasesNotSymmetric
      else Inr ())"

text \<open>\<open>other\<close> stands where a half turn about the centre of the 400 by 720 canvas takes \<open>t\<close>.\<close>

definition at_counterpart :: "territory \<Rightarrow> territory \<Rightarrow> bool" where
  "at_counterpart t other \<longleftrightarrow>
     \<bar>jsub (t_x other) (jsub 400 (t_x t))\<bar> < SYMMETRY_EPSILON
     \<and> \<bar>jsub (t_y other) (jsub 720 (t_y t))\<bar> < SYMMETRY_EPSILON"

text \<open>On whole coordinates, as the shipped data has them, the tolerance never matters.\<close>

definition small_whole :: "num \<Rightarrow> bool" where
  "small_whole x \<longleftrightarrow> snd (quotient_of x) = 1 \<and> \<bar>fst (quotient_of x)\<bar> \<le> 1000"

lemma small_wholeD:
  assumes "small_whole x"
  obtains n where "x = of_int n" "\<bar>n\<bar> \<le> 1000"
proof -
  have "x = of_int (fst (quotient_of x)) / of_int (snd (quotient_of x))"
    by (rule quotient_of_div) simp
  with assms show thesis
    by (intro that [of "fst (quotient_of x)"]) (simp_all only: small_whole_def of_int_1 div_by_1)
qed

lemma whole_tolerance:
  assumes "small_whole x" "small_whole y" "c = 400 \<or> c = 720"
  shows "\<bar>jsub y (jsub c x)\<bar> < SYMMETRY_EPSILON \<longleftrightarrow> y + x = c"
proof -
  obtain m n where mn: "x = of_int m" "y = of_int n" "\<bar>m\<bar> \<le> 1000" "\<bar>n\<bar> \<le> 1000"
    using assms(1,2) by (auto elim!: small_wholeD)
  define k :: int where "k = (if c = 400 then 400 else 720)"
  have k: "c = of_int k" "0 \<le> k" "k \<le> 720" using assms(3) by (auto simp: k_def)
  have "fl (of_int (k - m)) = (of_int (k - m) :: rat)" "fl (of_int (n - (k - m))) = (of_int (n - (k - m)) :: rat)"
    using mn k by (intro fl_of_int_exact; simp)+
  then have "\<bar>jsub y (jsub c x)\<bar> = of_int \<bar>n - (k - m)\<bar>" by (simp add: mn k)
  moreover have "(of_int \<bar>n - (k - m)\<bar> :: rat) < SYMMETRY_EPSILON \<longleftrightarrow> n - (k - m) = 0"
  proof (cases "n - (k - m) = 0")
    case False
    then have "(of_int 1 :: rat) \<le> of_int \<bar>n - (k - m)\<bar>" by (subst of_int_le_iff) linarith
    with False show ?thesis using SYMMETRY_EPSILON_bounds by simp
  qed (simp add: SYMMETRY_EPSILON_bounds)
  moreover have "n - (k - m) = 0 \<longleftrightarrow> y + x = c"
    unfolding mn k(1) by (simp flip: of_int_add) linarith
  ultimately show ?thesis by simp
qed

lemma at_counterpart_code [code]:
  "at_counterpart t other =
     (if small_whole (t_x t) \<and> small_whole (t_x other) \<and> small_whole (t_y t) \<and> small_whole (t_y other)
      then t_x other + t_x t = 400 \<and> t_y other + t_y t = 720
      else \<bar>jsub (t_x other) (jsub 400 (t_x t))\<bar> < SYMMETRY_EPSILON
        \<and> \<bar>jsub (t_y other) (jsub 720 (t_y t))\<bar> < SYMMETRY_EPSILON)"
  by (simp add: at_counterpart_def whole_tolerance)

definition mirrored_owner :: "team \<Rightarrow> team" where
  "mirrored_owner w = (case w of Player \<Rightarrow> Enemy | Enemy \<Rightarrow> Player | Neutral \<Rightarrow> Neutral)"

definition same_attributes :: "territory \<Rightarrow> territory \<Rightarrow> bool" where
  "same_attributes t m \<longleftrightarrow> t_tier t = t_tier m \<and> t_type t = t_type m \<and> t_units t = t_units m
     \<and> t_maxUnits t = t_maxUnits m \<and> t_productionRate t = t_productionRate m \<and> t_radius t = t_radius m"

definition check_counterpart :: "battlefield_definition \<Rightarrow> territory \<Rightarrow> check" where
  "check_counterpart d t =
     (case filter (at_counterpart t) (b_territories d) of
        [] \<Rightarrow> Inl (NoCounterpart (t_id t))
      | match # others \<Rightarrow>
          if others \<noteq> [] then Inl (ManyCounterparts (t_id t) (length (match # others)))
          else checks [throw_if (t_owner match \<noteq> mirrored_owner (t_owner t)) (OwnerNotMirrored (t_id t)),
                       throw_if (\<not> same_attributes t match) (AttributeMismatch (t_id t) (t_id match))])"

text \<open>\<open>terrMap.get(id)\<close> and the first territory at the counterpart's place.\<close>

definition territory_by_id :: "battlefield_definition \<Rightarrow> string \<Rightarrow> territory option" where
  "territory_by_id d i = List.find (\<lambda>t. t_id t = i) (b_territories d)"

definition rotated :: "battlefield_definition \<Rightarrow> string \<Rightarrow> territory option" where
  "rotated d i = (case territory_by_id d i of None \<Rightarrow> None
     | Some t \<Rightarrow> List.find (at_counterpart t) (b_territories d))"

definition check_road_symmetry :: "battlefield_definition \<Rightarrow> string \<times> string \<Rightarrow> check" where
  "check_road_symmetry d r =
     (case r of (idA, idB) \<Rightarrow> (case (rotated d idA, rotated d idB) of
        (Some rotA, Some rotB) \<Rightarrow>
          (let rotKey = roadKey (t_id rotA) (t_id rotB)
           in checks [throw_if (b_mode d = TwoVsTwo \<and> rotKey = roadKey idA idB) (RoadMapsToItself idA idB),
                      throw_if (rotKey \<notin> set (map (\<lambda>(a, b). roadKey a b) (b_roads d)))
                        (RoadNotMirrored idA idB (t_id rotA) (t_id rotB))])
      | _ \<Rightarrow> Inl UndefinedCounterpart))"

definition validateBattlefieldDefinition :: "battlefield_definition \<Rightarrow> check" where
  "validateBattlefieldDefinition d = checks
     [throw_if (b_motif d \<noteq> b_id d) MotifMismatch,
      check_colors d,
      check_unique_ids [] (b_territories d),
      check_bases d,
      throw_if (owned_by Neutral d = []) NoNeutralTerritory,
      check_roads (map t_id (b_territories d)) [] (b_roads d),
      check_bounds d,
      check_base_axis d,
      check_all (check_counterpart d) (b_territories d),
      check_all (check_road_symmetry d) (b_roads d)]"

definition not_distinct :: "battlefield_definition \<Rightarrow> battlefield_definition \<Rightarrow> bool" where
  "not_distinct a b \<longleftrightarrow>
     length (b_territories a) = length (b_territories b)
     \<and> list_all (\<lambda>t. list_ex (\<lambda>bt. t_id bt = t_id t) (b_territories b)) (b_territories a)
     \<and> length (b_roads a) = length (b_roads b)
     \<and> list_all (\<lambda>(a1, a2). list_ex (\<lambda>(b1, b2). (a1 = b1 \<and> a2 = b2) \<or> (a1 = b2 \<and> a2 = b1)) (b_roads b))
         (b_roads a)"

fun check_distinct_battlefields :: "battlefield_definition list \<Rightarrow> check" where
  "check_distinct_battlefields [] = Inr ()"
| "check_distinct_battlefields (a # bs) =
     then_check (check_all (\<lambda>b. throw_if (not_distinct a b) (NotDistinctBattlefields (b_id a) (b_id b))) bs)
       (check_distinct_battlefields bs)"

definition validateAllBattlefields :: "battlefield_definition list \<Rightarrow> check" where
  "validateAllBattlefields ds =
     then_check (check_all validateBattlefieldDefinition ds) (check_distinct_battlefields ds)"

section \<open>Facts about validation\<close>

lemma then_check_Inr [simp]: "then_check m k = Inr () \<longleftrightarrow> m = Inr () \<and> k = Inr ()"
  by (cases m) (auto simp: then_check_def)

lemma throw_if_Inr [simp]: "throw_if c e = Inr () \<longleftrightarrow> \<not> c"
  by (simp add: throw_if_def)

lemma checks_Inr [simp]: "checks cs = Inr () \<longleftrightarrow> list_all (\<lambda>c. c = Inr ()) cs"
  by (induction cs) auto

lemma check_all_Inr [simp]: "check_all f xs = Inr () \<longleftrightarrow> (\<forall>x\<in>set xs. f x = Inr ())"
  by (simp add: check_all_def list_all_iff)

lemma check_unique_ids_Inr:
  "check_unique_ids seen ts = Inr () \<longleftrightarrow> distinct (map t_id ts) \<and> set (map t_id ts) \<inter> set seen = {}"
  by (induction seen ts rule: check_unique_ids.induct) auto

lemma check_roads_Inr:
  "check_roads ids seen rs = Inr () \<Longrightarrow> (a, b) \<in> set rs \<Longrightarrow> a \<in> set ids \<and> b \<in> set ids \<and> a \<noteq> b"
  by (induction ids seen rs rule: check_roads.induct) (auto split: if_splits)

lemma check_counterpart_Inr:
  "check_counterpart d t = Inr () \<longleftrightarrow>
     (\<exists>m. filter (at_counterpart t) (b_territories d) = [m]
       \<and> t_owner m = mirrored_owner (t_owner t) \<and> same_attributes t m)"
  by (auto simp: check_counterpart_def split: list.splits)

lemma validateBattlefieldDefinition_Inr:
  "validateBattlefieldDefinition d = Inr () \<longleftrightarrow>
     b_motif d = b_id d \<and> check_colors d = Inr () \<and> distinct (map t_id (b_territories d))
     \<and> check_bases d = Inr () \<and> owned_by Neutral d \<noteq> []
     \<and> check_roads (map t_id (b_territories d)) [] (b_roads d) = Inr ()
     \<and> check_bounds d = Inr () \<and> check_base_axis d = Inr ()
     \<and> (\<forall>t\<in>set (b_territories d). check_counterpart d t = Inr ())
     \<and> (\<forall>r\<in>set (b_roads d). check_road_symmetry d r = Inr ())"
  by (auto simp: validateBattlefieldDefinition_def check_unique_ids_Inr)

section \<open>Fairness\<close>

text \<open>Two towers are joined when there is a road between them, in either direction.\<close>

definition joined :: "battlefield_definition \<Rightarrow> string \<Rightarrow> string \<Rightarrow> bool" where
  "joined d a b \<longleftrightarrow> (a, b) \<in> set (b_roads d) \<or> (b, a) \<in> set (b_roads d)"

text \<open>
  What the shipped battlefields have and the checks rely on: whole coordinates, so that the tolerance of the symmetry
  checks does not matter, and names without the sign that separates the two ends in the key of a road.
\<close>

definition plain_tower :: "territory \<Rightarrow> bool" where
  "plain_tower t \<longleftrightarrow> small_whole (t_x t) \<and> small_whole (t_y t) \<and> CHR ''<'' \<notin> set (t_id t)"

text \<open>The keys of two roads are the same only if the roads join the same towers.\<close>

lemma separated_inj:
  assumes "a @ ''<->'' @ b = c @ ''<->'' @ e" "CHR ''<'' \<notin> set a" "CHR ''<'' \<notin> set c"
  shows "a = c \<and> b = e"
proof -
  have "takeWhile (\<lambda>x. x \<noteq> CHR ''<'') (a @ ''<->'' @ b) = a" "takeWhile (\<lambda>x. x \<noteq> CHR ''<'') (c @ ''<->'' @ e) = c"
    using assms(2,3) by (simp_all add: takeWhile_append)
  then have "a = c" using assms(1) by simp
  then show ?thesis using assms(1) by simp
qed

lemma roadKey_inj:
  assumes "roadKey a b = roadKey c e" "\<forall>i\<in>{a, b, c, e}. CHR ''<'' \<notin> set i"
  shows "(a = c \<and> b = e) \<or> (a = e \<and> b = c)"
  using assms separated_inj [of a b c e] separated_inj [of a b e c] separated_inj [of b a c e] separated_inj [of b a e c]
  by (auto simp: roadKey_def split: if_splits)

lemma roadKey_sym: "roadKey a b = roadKey b a"
  by (auto simp: roadKey_def)

text \<open>The counterpart of a tower of a validated battlefield.\<close>

definition counterpart :: "battlefield_definition \<Rightarrow> territory \<Rightarrow> territory" where
  "counterpart d t = hd (filter (at_counterpart t) (b_territories d))"

lemma counterpart_only:
  assumes "validateBattlefieldDefinition d = Inr ()" "t \<in> set (b_territories d)"
  shows "filter (at_counterpart t) (b_territories d) = [counterpart d t]"
    "t_owner (counterpart d t) = mirrored_owner (t_owner t)" "same_attributes t (counterpart d t)"
  using assms by (auto simp: validateBattlefieldDefinition_Inr check_counterpart_Inr counterpart_def)

lemma counterpart_mem:
  assumes "validateBattlefieldDefinition d = Inr ()" "t \<in> set (b_territories d)"
  shows "counterpart d t \<in> set (b_territories d)" "at_counterpart t (counterpart d t)"
proof -
  have "counterpart d t \<in> set (filter (at_counterpart t) (b_territories d))" by (simp add: counterpart_only(1) [OF assms])
  then show "counterpart d t \<in> set (b_territories d)" "at_counterpart t (counterpart d t)" by simp_all
qed

lemma at_counterpart_plain:
  "plain_tower t \<Longrightarrow> plain_tower m \<Longrightarrow> at_counterpart t m \<longleftrightarrow> t_x m + t_x t = 400 \<and> t_y m + t_y t = 720"
  by (simp add: at_counterpart_code plain_tower_def)

lemma counterpart_involution:
  assumes v: "validateBattlefieldDefinition d = Inr ()" and plain: "\<forall>t\<in>set (b_territories d). plain_tower t"
    and t: "t \<in> set (b_territories d)"
  shows "t_x (counterpart d t) = 400 - t_x t" "t_y (counterpart d t) = 720 - t_y t" "counterpart d (counterpart d t) = t"
proof -
  let ?m = "counterpart d t"
  note m = counterpart_mem [OF v t]
  have pos: "t_x ?m + t_x t = 400 \<and> t_y ?m + t_y t = 720" using m plain t at_counterpart_plain by blast
  then show "t_x ?m = 400 - t_x t" "t_y ?m = 720 - t_y t" by auto
  have "at_counterpart ?m t" using pos m(1) plain t by (subst at_counterpart_plain) (auto simp: add.commute)
  then have "t \<in> set (filter (at_counterpart ?m) (b_territories d))" using t by simp
  then show "counterpart d ?m = t" by (simp add: counterpart_only(1) [OF v m(1)])
qed

lemma find_by_key: "distinct (map f xs) \<Longrightarrow> x \<in> set xs \<Longrightarrow> List.find (\<lambda>y. f y = f x) xs = Some x"
  by (induction xs) (auto intro: rev_image_eqI)

lemma find_filtered: "filter P xs = x # ys \<Longrightarrow> List.find P xs = Some x"
  by (induction xs) (auto split: if_splits)

lemma rotated_counterpart:
  assumes v: "validateBattlefieldDefinition d = Inr ()" and t: "t \<in> set (b_territories d)"
  shows "rotated d (t_id t) = Some (counterpart d t)"
proof -
  have "distinct (map t_id (b_territories d))" using v by (simp add: validateBattlefieldDefinition_Inr)
  from find_by_key [OF this t] show ?thesis using find_filtered [OF counterpart_only(1) [OF v t]]
    by (simp add: rotated_def territory_by_id_def)
qed

lemma road_counterpart:
  assumes v: "validateBattlefieldDefinition d = Inr ()" and plain: "\<forall>t\<in>set (b_territories d). plain_tower t"
    and t: "t \<in> set (b_territories d)" "u \<in> set (b_territories d)" and road: "(t_id t, t_id u) \<in> set (b_roads d)"
  shows "joined d (t_id (counterpart d t)) (t_id (counterpart d u))"
proof -
  have "check_road_symmetry d (t_id t, t_id u) = Inr ()" using v road by (simp add: validateBattlefieldDefinition_Inr)
  then obtain a b where r: "(a, b) \<in> set (b_roads d)" "roadKey (t_id (counterpart d t)) (t_id (counterpart d u)) = roadKey a b"
    by (auto simp: check_road_symmetry_def rotated_counterpart [OF v t(1)] rotated_counterpart [OF v t(2)] Let_def)
  have roads: "check_roads (map t_id (b_territories d)) [] (b_roads d) = Inr ()" using v by (simp add: validateBattlefieldDefinition_Inr)
  then have "a \<in> t_id ` set (b_territories d)" "b \<in> t_id ` set (b_territories d)" using check_roads_Inr [OF roads r(1)] by simp_all
  then have "\<forall>i\<in>{t_id (counterpart d t), t_id (counterpart d u), a, b}. CHR ''<'' \<notin> set i"
    using plain counterpart_mem(1) [OF v t(1)] counterpart_mem(1) [OF v t(2)] by (auto simp: plain_tower_def)
  from roadKey_inj [OF r(2) this] show ?thesis using r(1) by (auto simp: joined_def)
qed

lemma joined_counterpart:
  assumes "validateBattlefieldDefinition d = Inr ()" "\<forall>t\<in>set (b_territories d). plain_tower t"
    and "t \<in> set (b_territories d)" "u \<in> set (b_territories d)"
  shows "joined d (t_id (counterpart d t)) (t_id (counterpart d u)) \<longleftrightarrow> joined d (t_id t) (t_id u)"
proof -
  have one: "joined d (t_id x) (t_id y) \<Longrightarrow> joined d (t_id (counterpart d x)) (t_id (counterpart d y))"
    if "x \<in> set (b_territories d)" "y \<in> set (b_territories d)" for x y
    using road_counterpart [OF assms(1,2) that] road_counterpart [OF assms(1,2) that(2,1)] by (auto simp: joined_def)
  show ?thesis
    using one [OF assms(3,4)] one [OF counterpart_mem(1) [OF assms(1,3)] counterpart_mem(1) [OF assms(1,4)]]
      counterpart_involution(3) [OF assms(1,2)] assms(3,4) by auto
qed

text \<open>What both sides have on the board at the start.\<close>

definition side_total :: "battlefield_definition \<Rightarrow> team \<Rightarrow> (territory \<Rightarrow> num) \<Rightarrow> num" where
  "side_total d w f = (\<Sum>t | t \<in> set (b_territories d) \<and> t_owner t = w. f t)"

lemma side_totals:
  assumes v: "validateBattlefieldDefinition d = Inr ()" and plain: "\<forall>t\<in>set (b_territories d). plain_tower t"
    and f: "\<And>t. t \<in> set (b_territories d) \<Longrightarrow> f (counterpart d t) = f t"
  shows "side_total d Player f = side_total d Enemy f"
  unfolding side_total_def
  by (rule sum.reindex_bij_witness [of _ "counterpart d" "counterpart d"])
    (use counterpart_involution(3) [OF v plain] counterpart_mem(1) [OF v] counterpart_only(2) [OF v] f in
      \<open>auto simp: mirrored_owner_def\<close>)

section \<open>Properties\<close>

text \<open>
  C11: a battlefield that passes validation is fair. The half turn of the canvas maps the towers onto one another: the
  tower at the opposite place belongs to the other side (is neutral for a neutral one), has the same units,
  capacity, production, tier, type and radius, and is turned back onto the first one; two towers are joined by a road
  exactly when their counterparts are. So both sides start with as many towers, units and as much production. This is
  for maps with whole coordinates and without \<open><\<close> in the names, which all shipped maps are.
\<close>

theorem validated_battlefield_fair:
  assumes "validateBattlefieldDefinition d = Inr ()" "\<forall>t\<in>set (b_territories d). plain_tower t"
  shows "\<exists>turn. (\<forall>t\<in>set (b_territories d). turn t \<in> set (b_territories d) \<and> turn (turn t) = t
      \<and> t_x (turn t) = 400 - t_x t \<and> t_y (turn t) = 720 - t_y t
      \<and> (t_owner (turn t) = Enemy \<longleftrightarrow> t_owner t = Player) \<and> (t_owner (turn t) = Player \<longleftrightarrow> t_owner t = Enemy)
      \<and> t_units (turn t) = t_units t \<and> t_maxUnits (turn t) = t_maxUnits t \<and> t_productionRate (turn t) = t_productionRate t
      \<and> t_tier (turn t) = t_tier t \<and> t_type (turn t) = t_type t \<and> t_radius (turn t) = t_radius t
      \<and> (\<forall>u\<in>set (b_territories d). joined d (t_id (turn t)) (t_id (turn u)) \<longleftrightarrow> joined d (t_id t) (t_id u)))
    \<and> side_total d Player (\<lambda>_. 1) = side_total d Enemy (\<lambda>_. 1)
    \<and> side_total d Player t_units = side_total d Enemy t_units
    \<and> side_total d Player t_productionRate = side_total d Enemy t_productionRate"
proof (intro exI [of _ "counterpart d"] conjI ballI)
  fix t assume t: "t \<in> set (b_territories d)"
  note only = counterpart_only [OF assms(1) t]
  show "(t_owner (counterpart d t) = Enemy) = (t_owner t = Player)" "(t_owner (counterpart d t) = Player) = (t_owner t = Enemy)"
    by (simp_all add: only(2) mirrored_owner_def split: team.split)
  show "t_units (counterpart d t) = t_units t" "t_maxUnits (counterpart d t) = t_maxUnits t"
    "t_productionRate (counterpart d t) = t_productionRate t" "t_tier (counterpart d t) = t_tier t"
    "t_type (counterpart d t) = t_type t" "t_radius (counterpart d t) = t_radius t"
    using only(3) by (simp_all add: same_attributes_def)
  show "counterpart d t \<in> set (b_territories d)" by (rule counterpart_mem(1) [OF assms(1) t])
  show "t_x (counterpart d t) = 400 - t_x t" "t_y (counterpart d t) = 720 - t_y t" "counterpart d (counterpart d t) = t"
    by (rule counterpart_involution [OF assms t])+
  show "joined d (t_id (counterpart d t)) (t_id (counterpart d u)) = joined d (t_id t) (t_id u)"
    if "u \<in> set (b_territories d)" for u by (rule joined_counterpart [OF assms t that])
next
  note same = counterpart_only(3) [OF assms(1), unfolded same_attributes_def]
  show "side_total d Player (\<lambda>_. 1) = side_total d Enemy (\<lambda>_. 1)" "side_total d Player t_units = side_total d Enemy t_units"
    "side_total d Player t_productionRate = side_total d Enemy t_productionRate"
    by (rule side_totals [OF assms]; use same in simp)+
qed

text \<open>The shipped maps, check by check.\<close>

lemma shipped_crown_cross: "validateBattlefieldDefinition crown_cross = Inr ()"
  by code_simp

lemma shipped_twin_passes: "validateBattlefieldDefinition twin_passes = Inr ()"
  by code_simp

lemma shipped_royal_ring: "validateBattlefieldDefinition royal_ring = Inr ()"
  by code_simp

lemma shipped_quad_citadel: "validateBattlefieldDefinition quad_citadel = Inr ()"
  by code_simp

lemma shipped_distinct: "check_distinct_battlefields BATTLEFIELDS = Inr ()"
  by code_simp

lemma shipped_plain: "\<forall>b\<in>set BATTLEFIELDS. \<forall>t\<in>set (b_territories b). plain_tower t"
  unfolding list_all_iff [symmetric] by code_simp

lemma validated_battlefield_fair_witness:
  "side_total quad_citadel Player t_units = side_total quad_citadel Enemy t_units
   \<and> (\<exists>turn. turn (hd (b_territories quad_citadel)) \<in> set (b_territories quad_citadel)
       \<and> t_y (turn (hd (b_territories quad_citadel))) = 130)"
proof -
  have "\<forall>t\<in>set (b_territories quad_citadel). plain_tower t" using shipped_plain by (simp add: BATTLEFIELDS_def)
  moreover have "hd (b_territories quad_citadel) \<in> set (b_territories quad_citadel)" "t_y (hd (b_territories quad_citadel)) = 590"
    by (simp_all add: quad_citadel_def tower_def)
  ultimately show ?thesis using validated_battlefield_fair [OF shipped_quad_citadel] by fastforce
qed

text \<open>The four shipped battlefields pass validation and are structurally distinct.\<close>

theorem shipped_battlefields_valid: "validateAllBattlefields BATTLEFIELDS = Inr ()"
  using shipped_crown_cross shipped_twin_passes shipped_royal_ring shipped_quad_citadel shipped_distinct
  by (simp add: validateAllBattlefields_def BATTLEFIELDS_def)

section \<open>Lookup and initial territories\<close>

lemma getBattlefield_shipped: "getBattlefield v \<in> set BATTLEFIELDS"
proof -
  have "find P BATTLEFIELDS = Some b \<Longrightarrow> b \<in> set BATTLEFIELDS" for P b
    by (metis find_Some_iff nth_mem)
  moreover have "hd BATTLEFIELDS \<in> set BATTLEFIELDS" by (simp add: BATTLEFIELDS_def)
  ultimately show ?thesis by (auto simp: getBattlefield_def Let_def split: option.splits)
qed

lemma getBattlefield_valid: "validateBattlefieldDefinition (getBattlefield v) = Inr ()"
  using getBattlefield_shipped [of v] shipped_battlefields_valid by (simp add: validateAllBattlefields_def)

lemma getBattlefield_distinct: "distinct (map t_id (b_territories (getBattlefield v)))"
  using getBattlefield_valid by (simp add: validateBattlefieldDefinition_Inr)

lemma getBattlefield_roads:
  "(a, b) \<in> set (b_roads (getBattlefield v)) \<Longrightarrow>
     a \<in> t_id ` set (b_territories (getBattlefield v)) \<and> b \<in> t_id ` set (b_territories (getBattlefield v)) \<and> a \<noteq> b"
  using getBattlefield_valid [of v] check_roads_Inr [of _ "[]"]
  by (fastforce simp: validateBattlefieldDefinition_Inr)

lemma obj_set_fold:
  assumes "distinct (map f xs)" "set (map f xs) \<inter> set (obj_keys ob) = {}"
  shows "fold (\<lambda>x. obj_set (f x) (g x)) xs ob = ob @ map (\<lambda>x. (f x, g x)) xs"
  using assms
proof (induction xs arbitrary: ob)
  case (Cons x xs)
  have "obj_set (f x) (g x) ob = ob @ [(f x, g x)]"
    using Cons.prems(2) by (induction ob) auto
  moreover have "fold (\<lambda>x. obj_set (f x) (g x)) xs (ob @ [(f x, g x)])
      = (ob @ [(f x, g x)]) @ map (\<lambda>x. (f x, g x)) xs"
    using Cons.prems by (intro Cons.IH) auto
  ultimately show ?case by simp
qed simp

text \<open>The initial object lists the battlefield's templates in definition order, each under its own id.\<close>

lemma createDefaultTerritories_eq:
  "createDefaultTerritories pm em bid =
     map (\<lambda>t. (t_id t, default_territory (case pm of Some m \<Rightarrow> m | None \<Rightarrow> default_modifiers)
                  (case em of Some m \<Rightarrow> m | None \<Rightarrow> default_modifiers) t))
       (b_territories (getBattlefield (Some (case bid of Some i \<Rightarrow> i | None \<Rightarrow> ''crown_cross''))))"
  unfolding createDefaultTerritories_def Let_def
  by (subst obj_set_fold) (simp_all add: getBattlefield_distinct)

lemma default_territory_frame [simp]:
  "t_id (default_territory pm em t) = t_id t"
  "t_owner (default_territory pm em t) = t_owner t"
  "t_maxUnits (default_territory pm em t) = t_maxUnits t"
  "t_type (default_territory pm em t) = t_type t"
  "t_x (default_territory pm em t) = t_x t"
  "t_y (default_territory pm em t) = t_y t"
  "t_tier (default_territory pm em t) = t_tier t"
  by (simp_all add: default_territory_def)

end
