(* ===== verification/TacticalRoutes.thy ===== *)
theory TacticalRoutes
  imports Battlefields
begin

text \<open>
  \<open>tactical-routes.ts\<close>: the roads an order follows and the marching of an army along its legs.
  \<open>Math.hypot\<close> is implementation-approximated in the language definition, so it is a parameter
  \<open>hyp\<close> of every definition that measures a distance.
\<close>

type_synonym hypot_fn = "num \<Rightarrow> num \<Rightarrow> num"

text \<open>What the code relies on: a distance is a binary64 value and never negative.\<close>

definition hypot_ok :: "hypot_fn \<Rightarrow> bool" where
  "hypot_ok hyp \<longleftrightarrow> (\<forall>x y. is_double (hyp x y) \<and> 0 \<le> hyp x y)"

definition TACTICAL_SUPPORTS :: "battlefield_id \<Rightarrow> (string \<times> string) option" where
  "TACTICAL_SUPPORTS i =
     (if i = ''crown_cross'' then Some (''n_bot_left'', ''n_top_right'')
      else if i = ''twin_passes'' then Some (''n_west_gate_s'', ''n_east_gate_n'')
      else if i = ''royal_ring'' then Some (''n_ring_sw'', ''n_ring_ne'')
      else None)"

definition tacticalNeighbors :: "game_state \<Rightarrow> string \<Rightarrow> string list" where
  "tacticalNeighbors s i = js_sort cmp_string
     (concat (map (\<lambda>(a, b). if a = i then [b] else if b = i then [a] else [])
       (b_roads (getBattlefield (g_battlefieldId s)))))"

definition territory_distance :: "hypot_fn \<Rightarrow> territory \<Rightarrow> territory \<Rightarrow> num" where
  "territory_distance hyp from to = hyp (jsub (t_x to) (t_x from)) (jsub (t_y to) (t_y from))"

definition legCost :: "hypot_fn \<Rightarrow> territory \<Rightarrow> territory \<Rightarrow> num" where
  "legCost hyp from to = math_round (jmul (territory_distance hyp from to) 1000)"

section \<open>Cheapest friendly paths\<close>

record path_entry =
  pe_id :: string
  pe_cost :: num
  pe_path :: "string list"

text \<open>\<open>a.join('|')\<close>.\<close>

fun join_path :: "string list \<Rightarrow> string" where
  "join_path [] = []"
| "join_path [x] = x"
| "join_path (x # y # ys) = x @ ''|'' @ join_path (y # ys)"

definition comparePath :: "string list \<Rightarrow> string list \<Rightarrow> num" where
  "comparePath a b = cmp_string (join_path a) (join_path b)"

definition cmp_path_entry :: "path_entry \<Rightarrow> path_entry \<Rightarrow> num" where
  "cmp_path_entry a b = cmp_or (jsub (pe_cost a) (pe_cost b)) (comparePath (pe_path a) (pe_path b))"

text \<open>The friendly neighbours of the settled node that are not settled yet, with their costs and paths.\<close>

definition friendly_targets :: "game_state \<Rightarrow> team \<Rightarrow> path_entry obj \<Rightarrow> string \<Rightarrow> (string \<times> territory) list" where
  "friendly_targets s owner best from = concat (map (\<lambda>i.
     case obj_get (g_territories s) i of None \<Rightarrow> []
     | Some t \<Rightarrow> if t_owner t \<noteq> owner \<or> i \<in> set (obj_keys best) then [] else [(i, t)])
     (tacticalNeighbors s from))"

definition path_push :: "hypot_fn \<Rightarrow> path_entry \<Rightarrow> territory \<Rightarrow> string \<Rightarrow> territory \<Rightarrow> path_entry" where
  "path_push hyp entry from i t =
     \<lparr>pe_id = i, pe_cost = jadd (pe_cost entry) (legCost hyp from t), pe_path = pe_path entry @ [i]\<rparr>"

definition friendly_pushes ::
  "hypot_fn \<Rightarrow> game_state \<Rightarrow> team \<Rightarrow> path_entry obj \<Rightarrow> path_entry \<Rightarrow> path_entry list result" where
  "friendly_pushes hyp s owner best entry =
     map_res (\<lambda>(i, t). rbind (defined_or_type_error (obj_get (g_territories s) (pe_id entry)))
         (\<lambda>from. Inr (path_push hyp entry from i t)))
       (friendly_targets s owner best (pe_id entry))"

lemma friendly_targets_iff:
  "(i, t) \<in> set (friendly_targets s owner best from) \<longleftrightarrow>
     i \<in> set (tacticalNeighbors s from) \<and> obj_get (g_territories s) i = Some t \<and> t_owner t = owner
     \<and> i \<notin> set (obj_keys best)"
proof -
  let ?f = "\<lambda>j. case obj_get (g_territories s) j of None \<Rightarrow> []
      | Some t \<Rightarrow> if t_owner t \<noteq> owner \<or> j \<in> set (obj_keys best) then [] else [(j, t)]"
  have "(i, t) \<in> set (?f j) \<longleftrightarrow>
      j = i \<and> obj_get (g_territories s) i = Some t \<and> t_owner t = owner \<and> i \<notin> set (obj_keys best)" for j
    by (auto split: option.splits if_splits)
  then have "(\<exists>j\<in>set (tacticalNeighbors s from). (i, t) \<in> set (?f j)) \<longleftrightarrow>
      i \<in> set (tacticalNeighbors s from) \<and> obj_get (g_territories s) i = Some t \<and> t_owner t = owner
      \<and> i \<notin> set (obj_keys best)"
    by (simp only:) blast
  then show ?thesis by (simp only: friendly_targets_def set_concat set_map UN_iff image_iff bex_simps)
qed

lemma friendly_pushes_Inr:
  assumes "friendly_pushes hyp s owner best entry = Inr ps"
  shows "p \<in> set ps \<longleftrightarrow> (\<exists>i t from. (i, t) \<in> set (friendly_targets s owner best (pe_id entry))
    \<and> obj_get (g_territories s) (pe_id entry) = Some from \<and> p = path_push hyp entry from i t)"
  using map_res_in [OF assms [unfolded friendly_pushes_def], of p]
    map_res_out [OF assms [unfolded friendly_pushes_def]]
  by (auto simp: rbind_eq_Inr) force

lemma friendly_pushes_total:
  "obj_get (g_territories s) (pe_id entry) = Some from \<Longrightarrow> \<exists>ps. friendly_pushes hyp s owner best entry = Inr ps"
  unfolding friendly_pushes_def by (rule map_res_total) auto

lemma js_sort_Cons:
  assumes "js_sort cmp q = x # rest"
  shows "set q = insert x (set rest)" "length q = Suc (length rest)"
  using assms by (metis set_js_sort list.simps(15), metis length_js_sort length_Cons)

text \<open>
  The loop ends: a node that is settled leaves the finite set of nodes still to settle (the queued ones
  and the territories), a node that was settled already only shortens the queue.
\<close>

function friendly_loop ::
  "hypot_fn \<Rightarrow> game_state \<Rightarrow> team \<Rightarrow> path_entry obj \<Rightarrow> path_entry list \<Rightarrow> path_entry obj result" where
  "friendly_loop hyp s owner best queue =
     (case js_sort cmp_path_entry queue of
        [] \<Rightarrow> Inr best
      | entry # rest \<Rightarrow>
          if pe_id entry \<in> set (obj_keys best) then friendly_loop hyp s owner best rest
          else rbind (friendly_pushes hyp s owner best entry)
            (\<lambda>pushes. friendly_loop hyp s owner (obj_set (pe_id entry) entry best) (rest @ pushes)))"
  by pat_completeness auto

termination
proof (relation "measures
    [\<lambda>(hyp, s, owner, best, queue).
        card ((pe_id ` set queue \<union> set (obj_keys (g_territories s))) - set (obj_keys best)),
     \<lambda>(hyp, s, owner, best, queue). length queue]"; clarify?)
  show "wf (measures
    [\<lambda>(hyp, s, owner, best, queue).
        card ((pe_id ` set queue \<union> set (obj_keys (g_territories s))) - set (obj_keys best)),
     \<lambda>(hyp, s, owner, best, queue). length queue])" by simp
next
  fix hyp :: hypot_fn and s :: game_state and owner :: team and best :: "path_entry obj"
    and queue :: "path_entry list" and entry rest
  assume q: "js_sort cmp_path_entry queue = entry # rest" and settled: "pe_id entry \<in> set (obj_keys best)"
  have "(pe_id ` set rest \<union> set (obj_keys (g_territories s))) - set (obj_keys best)
      = (pe_id ` set queue \<union> set (obj_keys (g_territories s))) - set (obj_keys best)"
    using js_sort_Cons(1) [OF q] settled by auto
  then show "((hyp, s, owner, best, rest), hyp, s, owner, best, queue) \<in> measures
    [\<lambda>(hyp, s, owner, best, queue).
        card ((pe_id ` set queue \<union> set (obj_keys (g_territories s))) - set (obj_keys best)),
     \<lambda>(hyp, s, owner, best, queue). length queue]"
    using js_sort_Cons(2) [OF q] by simp
next
  fix hyp :: hypot_fn and s :: game_state and owner :: team and best :: "path_entry obj"
    and queue :: "path_entry list" and entry rest pushes
  assume q: "js_sort cmp_path_entry queue = entry # rest" and new: "pe_id entry \<notin> set (obj_keys best)"
    and pushes: "friendly_pushes hyp s owner best entry = Inr pushes"
  have "pe_id ` set pushes \<subseteq> set (obj_keys (g_territories s))"
    using friendly_pushes_Inr [OF pushes]
    by (auto simp: friendly_targets_iff path_push_def obj_get_Some_key simp del: set_map)
  then have "(pe_id ` set (rest @ pushes) \<union> set (obj_keys (g_territories s)))
        - set (obj_keys (obj_set (pe_id entry) entry best))
      \<subset> (pe_id ` set queue \<union> set (obj_keys (g_territories s))) - set (obj_keys best)"
    using js_sort_Cons(1) [OF q] new by (auto simp: obj_simps)
  then show "((hyp, s, owner, obj_set (pe_id entry) entry best, rest @ pushes), hyp, s, owner, best, queue)
      \<in> measures
    [\<lambda>(hyp, s, owner, best, queue).
        card ((pe_id ` set queue \<union> set (obj_keys (g_territories s))) - set (obj_keys best)),
     \<lambda>(hyp, s, owner, best, queue). length queue]"
    by (simp add: psubset_card_mono)
qed

declare friendly_loop.simps [simp del]

definition friendlyPaths :: "hypot_fn \<Rightarrow> game_state \<Rightarrow> string \<Rightarrow> team \<Rightarrow> path_entry obj result" where
  "friendlyPaths hyp s sourceId owner =
     friendly_loop hyp s owner [] [\<lparr>pe_id = sourceId, pe_cost = 0, pe_path = [sourceId]\<rparr>]"

section \<open>Dispatch routes\<close>

text \<open>One iteration of the choice among the reachable towers next to the target.\<close>

definition choose_entry ::
  "hypot_fn \<Rightarrow> game_state \<Rightarrow> path_entry obj \<Rightarrow> territory \<Rightarrow> string \<Rightarrow> string
     \<Rightarrow> (num \<times> string list) option \<Rightarrow> (num \<times> string list) option result" where
  "choose_entry hyp s reachable target targetId entryId chosen =
     (case obj_get reachable entryId of None \<Rightarrow> Inr chosen
      | Some entry \<Rightarrow>
          rbind (defined_or_type_error (obj_get (g_territories s) entryId)) (\<lambda>from.
            let cost = jadd (pe_cost entry) (legCost hyp from target); path = pe_path entry @ [targetId]
            in Inr (case chosen of None \<Rightarrow> Some (cost, path)
                | Some (c, p) \<Rightarrow>
                    if cost < c \<or> cost = c \<and> comparePath path p < 0 then Some (cost, path) else chosen)))"

definition findDispatchRoute ::
  "hypot_fn \<Rightarrow> game_state \<Rightarrow> string \<Rightarrow> string \<Rightarrow> team \<Rightarrow> string list option result" where
  "findDispatchRoute hyp s sourceId targetId owner =
     (case (obj_get (g_territories s) sourceId, obj_get (g_territories s) targetId) of
        (Some source, Some target) \<Rightarrow>
          if sourceId = targetId \<or> t_owner source \<noteq> owner then Inr None
          else if \<not> usesTacticalRules (g_rules s) then Inr (Some [sourceId, targetId])
          else if t_owner target \<noteq> owner then
            if targetId \<in> set (tacticalNeighbors s sourceId) then Inr (Some [sourceId, targetId])
            else rbind (friendlyPaths hyp s sourceId owner) (\<lambda>reachable.
              rbind (fold_res (choose_entry hyp s reachable target targetId) (tacticalNeighbors s targetId) None)
                (\<lambda>chosen. Inr (map_option snd chosen)))
          else rbind (friendlyPaths hyp s sourceId owner) (\<lambda>reachable.
            Inr (map_option pe_path (obj_get reachable targetId)))
      | _ \<Rightarrow> Inr None)"

section \<open>Marching\<close>

definition setArmyLeg :: "hypot_fn \<Rightarrow> army \<Rightarrow> territory \<Rightarrow> territory \<Rightarrow> nat \<Rightarrow> army" where
  "setArmyLeg hyp m from to leg =
     (let distance = territory_distance hyp from to;
          mult = (case a_routeSpeed m of Some r \<Rightarrow> r | None \<Rightarrow> 1)
      in m\<lparr>a_routeLeg := Some leg, a_targetId := t_id to, a_startX := t_x from, a_startY := t_y from,
           a_targetX := t_x to, a_targetY := t_y to, a_distance := distance, a_progress := 0,
           a_speed := jdiv 1 (max tactical_minLegSeconds (jdiv distance (jmul 140 mult)))\<rparr>)"

abbreviation army_leg :: "army \<Rightarrow> nat" where
  "army_leg m \<equiv> (case a_routeLeg m of Some l \<Rightarrow> l | None \<Rightarrow> 0)"

text \<open>
  The army may cross several waypoints in one step. \<open>nextLeg >= routeIds.length - 1\<close> is written without
  the subtraction, which is negative in the source for an empty route.
\<close>

function advance_loop :: "hypot_fn \<Rightarrow> territory obj \<Rightarrow> army \<Rightarrow> num \<Rightarrow> (army \<times> bool) result" where
  "advance_loop hyp territories moving remaining =
     (let progress = jadd (a_progress moving) (jmul (a_speed moving) remaining) in
      if progress < 1 then Inr (moving\<lparr>a_progress := progress\<rparr>, False)
      else let nextLeg = Suc (army_leg moving) in
        case (obj_get territories (a_targetId moving), a_routeIds moving) of
          (Some waypoint, Some ids) \<Rightarrow>
            if t_owner waypoint \<noteq> a_owner moving \<or> length ids \<le> Suc nextLeg
            then Inr (moving\<lparr>a_progress := 1\<rparr>, True)
            else rbind (defined_or_type_error (obj_get territories (ids ! Suc nextLeg))) (\<lambda>to.
              advance_loop hyp territories (setArmyLeg hyp moving waypoint to nextLeg)
                (jdiv (jsub progress 1) (a_speed moving)))
        | _ \<Rightarrow> Inr (moving\<lparr>a_progress := 1\<rparr>, True))"
  by pat_completeness auto

termination
  by (relation "measure (\<lambda>(hyp, territories, moving, remaining).
        (case a_routeIds moving of Some ids \<Rightarrow> length ids | None \<Rightarrow> 0) - army_leg moving)")
    (auto simp: setArmyLeg_def Let_def dest!: sym [of "Some _"])

declare advance_loop.simps [simp del]

definition advanceRoutedArmy :: "hypot_fn \<Rightarrow> army \<Rightarrow> territory obj \<Rightarrow> num \<Rightarrow> (army \<times> bool) result" where
  "advanceRoutedArmy hyp m territories delta = advance_loop hyp territories m delta"

text \<open>
  The first tower of the remaining route that the army's owner does not hold, else the route's end.
  \<open>state\<close> is optional in the source; every caller of the core passes it.
\<close>

definition armyDestination :: "army \<Rightarrow> game_state option \<Rightarrow> string" where
  "armyDestination m s =
     (case (case (s, a_routeIds m) of
          (Some st, Some ids) \<Rightarrow>
            List.find (\<lambda>i. map_option t_owner (obj_get (g_territories st) i) \<noteq> Some (a_owner m))
              (drop (Suc (army_leg m)) ids)
        | _ \<Rightarrow> None) of
      Some i \<Rightarrow> i
    | None \<Rightarrow> (case a_routeIds m of Some ids \<Rightarrow> if ids = [] then a_targetId m else last ids
                | None \<Rightarrow> a_targetId m))"

text \<open>The travel time of the legs \<open>i, i + 1, ...\<close> of the route, up to the destination.\<close>

fun remaining_legs ::
  "hypot_fn \<Rightarrow> army \<Rightarrow> game_state \<Rightarrow> string \<Rightarrow> nat \<Rightarrow> string list \<Rightarrow> num \<Rightarrow> num result" where
  "remaining_legs hyp m s destination i (a # b # ids) seconds =
     (if a = destination then Inr seconds
      else rbind (defined_or_type_error (obj_get (g_territories s) a)) (\<lambda>from.
        rbind (defined_or_type_error (obj_get (g_territories s) b)) (\<lambda>to.
          remaining_legs hyp m s destination (Suc i) (b # ids)
            (jadd seconds (jdiv 1 (a_speed (setArmyLeg hyp m from to i)))))))"
| "remaining_legs hyp m s destination i ids seconds = Inr seconds"

definition armyArrivalSeconds :: "hypot_fn \<Rightarrow> army \<Rightarrow> game_state \<Rightarrow> num result" where
  "armyArrivalSeconds hyp m s =
     (let seconds = jdiv (jsub 1 (a_progress m)) (a_speed m);
          destination = armyDestination m (Some s)
      in case a_routeIds m of None \<Rightarrow> Inr seconds
         | Some ids \<Rightarrow> remaining_legs hyp m s destination (Suc (army_leg m)) (drop (Suc (army_leg m)) ids) seconds)"

end
