(* ===== verification/RouteFacts.thy ===== *)
theory RouteFacts
  imports TacticalRoutes
begin

text \<open>
  Correctness of the route search: \<open>friendly_walk\<close> is the specification, the walks along roads
  through towers of one owner with the cost the code adds up leg by leg; the search settles exactly
  the towers a walk reaches, each with a walk of least cost.
\<close>

section \<open>Comparators\<close>

lemma cmp_string_le: "cmp_string a b \<le> 0 \<longleftrightarrow> a \<le> b"
  by (auto simp: cmp_string_def)

lemma cmp_or_le: "cmp_or (jsub a b) d \<le> 0 \<longleftrightarrow> a < b \<or> a = b \<and> d \<le> 0"
  by (auto simp: cmp_or_def)

lemma cmp_path_entry_le:
  "cmp_path_entry a b \<le> 0 \<longleftrightarrow> pe_cost a < pe_cost b
     \<or> pe_cost a = pe_cost b \<and> join_path (pe_path a) \<le> join_path (pe_path b)"
  by (simp add: cmp_path_entry_def cmp_or_le comparePath_def cmp_string_le)

interpretation by_path: js_comparator cmp_path_entry
  by unfold_locales (auto simp: cmp_path_entry_le)

lemma popped_cheapest:
  assumes "js_sort cmp_path_entry queue = entry # rest" "q \<in> set queue"
  shows "pe_cost entry \<le> pe_cost q"
proof -
  have "by_path.sorted_by (entry # rest)" using by_path.sorted_js_sort [of queue] assms(1) by simp
  moreover have "q = entry \<or> q \<in> set rest" using js_sort_Cons(1) [OF assms(1)] assms(2) by simp
  ultimately show ?thesis by (auto simp: by_path.sorted_by_def cmp_path_entry_le)
qed

section \<open>Walks\<close>

lemma tacticalNeighbors_iff:
  "b \<in> set (tacticalNeighbors s a) \<longleftrightarrow>
     (a, b) \<in> set (b_roads (getBattlefield (g_battlefieldId s)))
     \<or> (b, a) \<in> set (b_roads (getBattlefield (g_battlefieldId s)))"
proof -
  let ?R = "b_roads (getBattlefield (g_battlefieldId s))"
  have "b \<in> set (tacticalNeighbors s a) \<longleftrightarrow>
      (\<exists>r\<in>set ?R. b \<in> set (case r of (p, q) \<Rightarrow> if p = a then [q] else if q = a then [p] else []))"
    unfolding tacticalNeighbors_def by simp
  also have "\<dots> \<longleftrightarrow> (a, b) \<in> set ?R \<or> (b, a) \<in> set ?R \<and> a \<noteq> b"
  proof
    assume "\<exists>r\<in>set ?R. b \<in> set (case r of (p, q) \<Rightarrow> if p = a then [q] else if q = a then [p] else [])"
    then show "(a, b) \<in> set ?R \<or> (b, a) \<in> set ?R \<and> a \<noteq> b" by (auto split: if_splits)
  next
    assume "(a, b) \<in> set ?R \<or> (b, a) \<in> set ?R \<and> a \<noteq> b"
    then show "\<exists>r\<in>set ?R. b \<in> set (case r of (p, q) \<Rightarrow> if p = a then [q] else if q = a then [p] else [])"
      by (elim disjE) (rule bexI [of _ "(a, b)"], simp, simp, rule bexI [of _ "(b, a)"], auto)
  qed
  finally show ?thesis by blast
qed

lemma tacticalNeighbors_sym: "b \<in> set (tacticalNeighbors s a) \<longleftrightarrow> a \<in> set (tacticalNeighbors s b)"
  by (auto simp: tacticalNeighbors_iff)

inductive friendly_walk ::
  "hypot_fn \<Rightarrow> game_state \<Rightarrow> team \<Rightarrow> string \<Rightarrow> string list \<Rightarrow> string \<Rightarrow> num \<Rightarrow> bool"
  for hyp :: hypot_fn and s :: game_state and w :: team and src :: string where
  walk_start: "friendly_walk hyp s w src [src] src 0"
| walk_step: "friendly_walk hyp s w src p a c \<Longrightarrow> b \<in> set (tacticalNeighbors s a) \<Longrightarrow>
     obj_get (g_territories s) a = Some ta \<Longrightarrow> obj_get (g_territories s) b = Some tb \<Longrightarrow> t_owner tb = w \<Longrightarrow>
     friendly_walk hyp s w src (p @ [b]) b (jadd c (legCost hyp ta tb))"

text \<open>Consecutive towers of a list are joined by roads.\<close>

definition along_roads :: "game_state \<Rightarrow> string list \<Rightarrow> bool" where
  "along_roads s = successively (\<lambda>a b. b \<in> set (tacticalNeighbors s a))"

lemma along_roads_snoc:
  "ids \<noteq> [] \<Longrightarrow> along_roads s (ids @ [b]) \<longleftrightarrow> along_roads s ids \<and> b \<in> set (tacticalNeighbors s (last ids))"
  by (simp add: along_roads_def successively_append_iff)

definition owned_tower :: "game_state \<Rightarrow> team \<Rightarrow> string \<Rightarrow> bool" where
  "owned_tower s w i \<longleftrightarrow> (\<exists>t. obj_get (g_territories s) i = Some t \<and> t_owner t = w)"

lemma friendly_walk_path:
  assumes "friendly_walk hyp s w src p a c"
  shows "p \<noteq> [] \<and> hd p = src \<and> last p = a \<and> along_roads s p \<and> (\<forall>i\<in>set (tl p). owned_tower s w i) \<and> is_double c"
  using assms
proof induction
  case walk_start
  show ?case by (simp add: along_roads_def)
next
  case (walk_step p a c b ta tb)
  then show ?case by (auto simp: along_roads_snoc owned_tower_def)
qed

lemma legCost_nonneg: "hypot_ok hyp \<Longrightarrow> 0 \<le> legCost hyp ta tb"
  by (simp add: legCost_def math_round_def hypot_ok_def territory_distance_def)

lemma jadd_increasing: "is_double c \<Longrightarrow> 0 \<le> d \<Longrightarrow> c \<le> jadd c d"
  by (rule fl_ge_double) simp_all

section \<open>The loop's invariant\<close>

definition queue_ok :: "hypot_fn \<Rightarrow> game_state \<Rightarrow> team \<Rightarrow> string \<Rightarrow> path_entry list \<Rightarrow> bool" where
  "queue_ok hyp s w src queue \<longleftrightarrow>
     (\<forall>q\<in>set queue. friendly_walk hyp s w src (pe_path q) (pe_id q) (pe_cost q))"

definition settled_ok :: "hypot_fn \<Rightarrow> game_state \<Rightarrow> team \<Rightarrow> string \<Rightarrow> path_entry obj \<Rightarrow> bool" where
  "settled_ok hyp s w src best \<longleftrightarrow>
     (\<forall>i e. obj_get best i = Some e \<longrightarrow> pe_id e = i \<and> friendly_walk hyp s w src (pe_path e) i (pe_cost e)
        \<and> (\<forall>p c. friendly_walk hyp s w src p i c \<longrightarrow> pe_cost e \<le> c))"

definition relaxed_to :: "path_entry obj \<Rightarrow> path_entry list \<Rightarrow> string \<Rightarrow> num \<Rightarrow> bool" where
  "relaxed_to best queue b c \<longleftrightarrow>
     b \<in> set (obj_keys best) \<or> (\<exists>q\<in>set queue. pe_id q = b \<and> pe_cost q \<le> c)"

definition frontier_ok ::
  "hypot_fn \<Rightarrow> game_state \<Rightarrow> team \<Rightarrow> path_entry obj \<Rightarrow> path_entry list \<Rightarrow> bool" where
  "frontier_ok hyp s w best queue \<longleftrightarrow>
     (\<forall>a e b ta tb. obj_get best a = Some e \<longrightarrow> b \<in> set (tacticalNeighbors s a) \<longrightarrow>
        obj_get (g_territories s) a = Some ta \<longrightarrow> obj_get (g_territories s) b = Some tb \<longrightarrow> t_owner tb = w \<longrightarrow>
        relaxed_to best queue b (jadd (pe_cost e) (legCost hyp ta tb)))"

definition search_inv ::
  "hypot_fn \<Rightarrow> game_state \<Rightarrow> team \<Rightarrow> string \<Rightarrow> path_entry obj \<Rightarrow> path_entry list \<Rightarrow> bool" where
  "search_inv hyp s w src best queue \<longleftrightarrow> queue_ok hyp s w src queue \<and> settled_ok hyp s w src best
     \<and> frontier_ok hyp s w best queue \<and> relaxed_to best queue src 0"

lemma queue_okD: "queue_ok hyp s w src queue \<Longrightarrow> q \<in> set queue \<Longrightarrow>
    friendly_walk hyp s w src (pe_path q) (pe_id q) (pe_cost q)"
  by (simp add: queue_ok_def)

lemma settled_okD:
  assumes "settled_ok hyp s w src best" "obj_get best i = Some e"
  shows "pe_id e = i" "friendly_walk hyp s w src (pe_path e) i (pe_cost e)"
    and "friendly_walk hyp s w src p i c \<Longrightarrow> pe_cost e \<le> c"
  using assms unfolding settled_ok_def by blast+

lemma frontier_okD:
  "frontier_ok hyp s w best queue \<Longrightarrow> obj_get best a = Some e \<Longrightarrow> b \<in> set (tacticalNeighbors s a) \<Longrightarrow>
     obj_get (g_territories s) a = Some ta \<Longrightarrow> obj_get (g_territories s) b = Some tb \<Longrightarrow> t_owner tb = w \<Longrightarrow>
     relaxed_to best queue b (jadd (pe_cost e) (legCost hyp ta tb))"
  unfolding frontier_ok_def by blast

lemma search_frontier:
  assumes inv: "search_inv hyp s w src best queue" and hyp: "hypot_ok hyp"
    and walk: "friendly_walk hyp s w src p a c" and new: "a \<notin> set (obj_keys best)"
  shows "\<exists>q\<in>set queue. pe_cost q \<le> c"
  using walk new
proof induction
  case walk_start
  then show ?case using inv by (auto simp: search_inv_def relaxed_to_def)
next
  case (walk_step p a c b ta tb)
  have c: "is_double c" using friendly_walk_path [OF walk_step.hyps(1)] by simp
  show ?case
  proof (cases "a \<in> set (obj_keys best)")
    case False
    then obtain q where "q \<in> set queue" "pe_cost q \<le> c" using walk_step.IH by blast
    moreover have "c \<le> jadd c (legCost hyp ta tb)"
      by (rule jadd_increasing [OF c legCost_nonneg [OF hyp]])
    ultimately have "pe_cost q \<le> jadd c (legCost hyp ta tb)" by simp
    then show ?thesis using \<open>q \<in> set queue\<close> by blast
  next
    case True
    then obtain e where e: "obj_get best a = Some e" using obj_get_key by (metis option.exhaust)
    have "pe_cost e \<le> c" using inv settled_okD(3) [OF _ e walk_step.hyps(1)] by (simp add: search_inv_def)
    then have le: "jadd (pe_cost e) (legCost hyp ta tb) \<le> jadd c (legCost hyp ta tb)"
      by (intro fl_mono) simp
    have "relaxed_to best queue b (jadd (pe_cost e) (legCost hyp ta tb))"
      using inv frontier_okD [OF _ e walk_step.hyps(2-5)] by (simp add: search_inv_def)
    then obtain q where q: "q \<in> set queue" "pe_cost q \<le> jadd (pe_cost e) (legCost hyp ta tb)"
      using walk_step.prems by (auto simp: relaxed_to_def)
    from q(2) le have "pe_cost q \<le> jadd c (legCost hyp ta tb)" by (rule order_trans)
    then show ?thesis using q(1) by blast
  qed
qed

lemma search_inv_start:
  "search_inv hyp s w src [] [\<lparr>pe_id = src, pe_cost = 0, pe_path = [src]\<rparr>]"
  by (auto simp: search_inv_def queue_ok_def settled_ok_def frontier_ok_def relaxed_to_def intro: walk_start)

lemma relaxed_to_skip:
  "relaxed_to best queue b c \<Longrightarrow> set queue = insert entry (set rest) \<Longrightarrow> pe_id entry \<in> set (obj_keys best) \<Longrightarrow>
     relaxed_to best rest b c"
  by (auto simp: relaxed_to_def)

lemma relaxed_to_settle:
  "relaxed_to best queue b c \<Longrightarrow> set queue = insert entry (set rest) \<Longrightarrow>
     relaxed_to (obj_set (pe_id entry) entry best) (rest @ ps) b c"
  by (auto simp: relaxed_to_def obj_simps)

lemma search_inv_skip:
  assumes inv: "search_inv hyp s w src best queue" and q: "js_sort cmp_path_entry queue = entry # rest"
    and settled: "pe_id entry \<in> set (obj_keys best)"
  shows "search_inv hyp s w src best rest"
proof -
  note skip = relaxed_to_skip [OF _ js_sort_Cons(1) [OF q] settled]
  have "queue_ok hyp s w src rest"
    using inv js_sort_Cons(1) [OF q] by (simp add: search_inv_def queue_ok_def)
  moreover have "frontier_ok hyp s w best rest"
    unfolding frontier_ok_def
    by (intro allI impI, rule skip, rule frontier_okD) (use inv in \<open>simp_all add: search_inv_def\<close>)
  moreover have "relaxed_to best rest src 0"
    by (rule skip) (use inv in \<open>simp add: search_inv_def\<close>)
  ultimately show ?thesis using inv by (simp add: search_inv_def)
qed

lemma search_inv_settle:
  assumes inv: "search_inv hyp s w src best queue" and hyp: "hypot_ok hyp"
    and q: "js_sort cmp_path_entry queue = entry # rest"
    and new: "pe_id entry \<notin> set (obj_keys best)"
    and pushes: "friendly_pushes hyp s w best entry = Inr ps"
  shows "search_inv hyp s w src (obj_set (pe_id entry) entry best) (rest @ ps)"
proof -
  let ?best = "obj_set (pe_id entry) entry best"
  have set_q: "set queue = insert entry (set rest)" by (rule js_sort_Cons(1) [OF q])
  have queue: "queue_ok hyp s w src queue" and best: "settled_ok hyp s w src best"
    and frontier: "frontier_ok hyp s w best queue" and source: "relaxed_to best queue src 0"
    using inv by (simp_all add: search_inv_def)
  have walk: "friendly_walk hyp s w src (pe_path entry) (pe_id entry) (pe_cost entry)"
    by (rule queue_okD [OF queue]) (simp add: set_q)
  have pushed: "friendly_walk hyp s w src (pe_path r) (pe_id r) (pe_cost r)" if "r \<in> set ps" for r
    using that walk unfolding friendly_pushes_Inr [OF pushes]
    by (auto simp: friendly_targets_iff path_push_def intro: walk_step)
  have "queue_ok hyp s w src (rest @ ps)"
    using pushed queue set_q by (auto simp: queue_ok_def)
  moreover have "settled_ok hyp s w src ?best"
    unfolding settled_ok_def
  proof (intro allI impI)
    fix i e assume "obj_get ?best i = Some e"
    then have "i = pe_id entry \<and> e = entry \<or> obj_get best i = Some e"
      by (simp add: obj_get_set split: if_splits)
    then consider "i = pe_id entry" "e = entry" | "obj_get best i = Some e" by blast
    then show "pe_id e = i \<and> friendly_walk hyp s w src (pe_path e) i (pe_cost e)
        \<and> (\<forall>p c. friendly_walk hyp s w src p i c \<longrightarrow> pe_cost e \<le> c)"
    proof cases
      case 1
      have "pe_cost entry \<le> c" if walked: "friendly_walk hyp s w src p (pe_id entry) c" for p c
      proof -
        obtain r where r: "r \<in> set queue" "pe_cost r \<le> c" using search_frontier [OF inv hyp walked new] by blast
        show ?thesis by (rule order_trans [OF popped_cheapest [OF q r(1)] r(2)])
      qed
      with 1 walk show ?thesis by blast
    next
      case 2
      then show ?thesis using settled_okD [OF best] by blast
    qed
  qed
  moreover have "frontier_ok hyp s w ?best (rest @ ps)"
    unfolding frontier_ok_def
  proof (intro allI impI)
    fix a e b ta tb
    assume e: "obj_get ?best a = Some e"
      and b: "b \<in> set (tacticalNeighbors s a)" "obj_get (g_territories s) a = Some ta"
        "obj_get (g_territories s) b = Some tb" "t_owner tb = w"
    show "relaxed_to ?best (rest @ ps) b (jadd (pe_cost e) (legCost hyp ta tb))"
    proof (cases "a = pe_id entry")
      case True
      then have "e = entry" using e by (simp add: obj_simps)
      show ?thesis
      proof (cases "b \<in> set (obj_keys best)")
        case True
        then show ?thesis by (simp add: relaxed_to_def obj_keys_set)
      next
        case False
        then have "path_push hyp entry ta b tb \<in> set ps"
          using b \<open>a = pe_id entry\<close> by (auto simp: friendly_pushes_Inr [OF pushes] friendly_targets_iff)
        then have "\<exists>r\<in>set ps. pe_id r = b \<and> pe_cost r \<le> jadd (pe_cost entry) (legCost hyp ta tb)"
          by (rule rev_bexI) (simp add: path_push_def)
        then show ?thesis using \<open>e = entry\<close> by (auto simp: relaxed_to_def)
      qed
    next
      case False
      then have "obj_get best a = Some e" using e by (simp add: obj_simps)
      from frontier_okD [OF frontier this b] show ?thesis by (rule relaxed_to_settle [OF _ set_q])
    qed
  qed
  moreover have "relaxed_to ?best (rest @ ps) src 0" by (rule relaxed_to_settle [OF source set_q])
  ultimately show ?thesis by (simp add: search_inv_def)
qed

lemma friendly_loop_correct:
  assumes "search_inv hyp s w src best queue" "hypot_ok hyp"
    and "obj_get (g_territories s) src = Some tsrc"
  shows "\<exists>r. friendly_loop hyp s w best queue = Inr r \<and> search_inv hyp s w src r []"
  using assms
proof (induction hyp s w best queue rule: friendly_loop.induct)
  case (1 hyp s w best queue)
  show ?case
  proof (cases "js_sort cmp_path_entry queue")
    case Nil
    then show ?thesis using "1.prems" by (simp add: friendly_loop.simps [of hyp s w best])
  next
    case (Cons entry rest)
    show ?thesis
    proof (cases "pe_id entry \<in> set (obj_keys best)")
      case True
      have "\<exists>r. friendly_loop hyp s w best rest = Inr r \<and> search_inv hyp s w src r []"
        using "1.IH"(1) [OF Cons True search_inv_skip [OF "1.prems"(1) Cons True]] "1.prems"(2,3) by blast
      then show ?thesis using Cons True by (simp add: friendly_loop.simps [of hyp s w best])
    next
      case False
      have "friendly_walk hyp s w src (pe_path entry) (pe_id entry) (pe_cost entry)"
        by (rule queue_okD [of hyp s w src queue])
          (use "1.prems"(1) js_sort_Cons(1) [OF Cons] in \<open>simp_all add: search_inv_def\<close>)
      then have "\<exists>t. obj_get (g_territories s) (pe_id entry) = Some t"
        using "1.prems"(3) by cases auto
      then obtain ps where ps: "friendly_pushes hyp s w best entry = Inr ps"
        using friendly_pushes_total by blast
      have "search_inv hyp s w src (obj_set (pe_id entry) entry best) (rest @ ps)"
        by (rule search_inv_settle [OF "1.prems"(1,2) Cons False ps])
      then have "\<exists>r. friendly_loop hyp s w (obj_set (pe_id entry) entry best) (rest @ ps) = Inr r
          \<and> search_inv hyp s w src r []"
        using "1.IH"(2) [OF Cons False ps] "1.prems"(2,3) by blast
      then show ?thesis using Cons False ps by (simp add: friendly_loop.simps [of hyp s w best])
    qed
  qed
qed

lemma friendlyPaths_correct:
  assumes "hypot_ok hyp" "obj_get (g_territories s) src = Some tsrc"
  obtains best where "friendlyPaths hyp s src w = Inr best" "settled_ok hyp s w src best"
    and "\<And>p i c. friendly_walk hyp s w src p i c \<Longrightarrow> \<exists>e. obj_get best i = Some e"
proof -
  obtain best where best: "friendlyPaths hyp s src w = Inr best" "search_inv hyp s w src best []"
    using friendly_loop_correct [OF search_inv_start assms] unfolding friendlyPaths_def by blast
  have "\<exists>e. obj_get best i = Some e" if walked: "friendly_walk hyp s w src p i c" for p i c
  proof -
    have "i \<in> set (obj_keys best)" using search_frontier [OF best(2) assms(1) walked] by auto
    then show ?thesis using obj_get_key [of best i] by (cases "obj_get best i") simp_all
  qed
  then show thesis using that best by (simp add: search_inv_def)
qed

section \<open>Dispatch routes\<close>

text \<open>
  The routes the rules allow an order of \<open>w\<close>, with the cost the search gives them: to an own tower a walk
  through own towers, to another tower such a walk to a tower beside it and the road from there.
\<close>

definition route_option ::
  "hypot_fn \<Rightarrow> game_state \<Rightarrow> team \<Rightarrow> string \<Rightarrow> string \<Rightarrow> string list \<Rightarrow> num \<Rightarrow> bool" where
  "route_option hyp s w src tgt ids c \<longleftrightarrow>
     (\<exists>tt. obj_get (g_territories s) tgt = Some tt \<and>
       (if t_owner tt = w then friendly_walk hyp s w src ids tgt c
        else \<exists>p a k ta. friendly_walk hyp s w src p a k \<and> tgt \<in> set (tacticalNeighbors s a)
          \<and> obj_get (g_territories s) a = Some ta \<and> ids = p @ [tgt] \<and> c = jadd k (legCost hyp ta tt)))"

text \<open>The routes that end with the road from one tower to the target, and the choice of the cheapest.\<close>

definition candidates ::
  "hypot_fn \<Rightarrow> game_state \<Rightarrow> path_entry obj \<Rightarrow> territory \<Rightarrow> string \<Rightarrow> string \<Rightarrow> (num \<times> string list) set" where
  "candidates hyp s best tt tgt a = {(jadd (pe_cost e) (legCost hyp ta tt), pe_path e @ [tgt]) | e ta.
     obj_get best a = Some e \<and> obj_get (g_territories s) a = Some ta}"

definition cheapest_of :: "(num \<times> string list) set \<Rightarrow> (num \<times> string list) option \<Rightarrow> bool" where
  "cheapest_of C r \<longleftrightarrow> (case r of None \<Rightarrow> C = {} | Some x \<Rightarrow> x \<in> C \<and> (\<forall>y\<in>C. fst x \<le> fst y))"

lemma choose_entry_step:
  assumes "\<And>e. obj_get best a = Some e \<Longrightarrow> \<exists>ta. obj_get (g_territories s) a = Some ta"
    and "cheapest_of C chosen"
  shows "\<exists>r. choose_entry hyp s best tt tgt a chosen = Inr r \<and> cheapest_of (C \<union> candidates hyp s best tt tgt a) r"
proof (cases "obj_get best a")
  case None
  then show ?thesis using assms(2) by (simp add: choose_entry_def candidates_def)
next
  case (Some e)
  then obtain ta where ta: "obj_get (g_territories s) a = Some ta" using assms(1) by blast
  let ?x = "(jadd (pe_cost e) (legCost hyp ta tt), pe_path e @ [tgt])"
  have "candidates hyp s best tt tgt a = {?x}" using Some ta by (auto simp: candidates_def)
  then show ?thesis using assms(2) Some ta
    by (auto simp: choose_entry_def cheapest_of_def Let_def split: option.splits)
qed

lemma choose_entry_fold:
  assumes "\<And>a e. obj_get best a = Some e \<Longrightarrow> \<exists>ta. obj_get (g_territories s) a = Some ta"
    and "cheapest_of C chosen"
  shows "\<exists>r. fold_res (choose_entry hyp s best tt tgt) ids chosen = Inr r
    \<and> cheapest_of (C \<union> \<Union> (candidates hyp s best tt tgt ` set ids)) r"
  using assms(2)
proof (induction ids arbitrary: C chosen)
  case (Cons a ids)
  have "\<exists>r. choose_entry hyp s best tt tgt a chosen = Inr r
      \<and> cheapest_of (C \<union> candidates hyp s best tt tgt a) r"
    by (rule choose_entry_step [OF _ Cons.prems]) (rule assms(1))
  then obtain r where r: "choose_entry hyp s best tt tgt a chosen = Inr r"
    "cheapest_of (C \<union> candidates hyp s best tt tgt a) r" by blast
  show ?case using Cons.IH [OF r(2)] r(1) by (simp add: Un_assoc)
qed simp

lemma settled_territory:
  assumes "settled_ok hyp s w src best" "obj_get (g_territories s) src = Some tsrc" "obj_get best a = Some e"
  shows "\<exists>ta. obj_get (g_territories s) a = Some ta"
  using settled_okD(2) [OF assms(1,3)] assms(2) by cases auto

lemma choose_entry_correct:
  assumes best: "settled_ok hyp s w src best" and src: "obj_get (g_territories s) src = Some tsrc"
    and complete: "\<And>p i c. friendly_walk hyp s w src p i c \<Longrightarrow> \<exists>e. obj_get best i = Some e"
    and tgt: "obj_get (g_territories s) tgt = Some tt" "t_owner tt \<noteq> w"
  shows "\<exists>r. fold_res (choose_entry hyp s best tt tgt) (tacticalNeighbors s tgt) None = Inr r
    \<and> (r = None \<longrightarrow> (\<forall>ids c. \<not> route_option hyp s w src tgt ids c))
    \<and> (\<forall>c ids. r = Some (c, ids) \<longrightarrow> route_option hyp s w src tgt ids c
         \<and> (\<forall>ids' c'. route_option hyp s w src tgt ids' c' \<longrightarrow> c \<le> c'))"
proof -
  let ?C = "\<Union> (candidates hyp s best tt tgt ` set (tacticalNeighbors s tgt))"
  have start: "cheapest_of {} None" by (simp add: cheapest_of_def)
  have "\<exists>r. fold_res (choose_entry hyp s best tt tgt) (tacticalNeighbors s tgt) None = Inr r
      \<and> cheapest_of ({} \<union> ?C) r"
    by (rule choose_entry_fold [OF _ start]) (rule settled_territory [OF best src])
  then obtain r where r: "fold_res (choose_entry hyp s best tt tgt) (tacticalNeighbors s tgt) None = Inr r"
    "cheapest_of ?C r" by auto
  have sound: "route_option hyp s w src tgt ids c" if mem: "(c, ids) \<in> ?C" for ids c
  proof -
    obtain a e ta where a: "a \<in> set (tacticalNeighbors s tgt)" "obj_get best a = Some e"
      "obj_get (g_territories s) a = Some ta" "c = jadd (pe_cost e) (legCost hyp ta tt)" "ids = pe_path e @ [tgt]"
      using mem by (auto simp: candidates_def)
    show ?thesis using settled_okD(2) [OF best a(2)] a tgt tacticalNeighbors_sym [of a s tgt]
      unfolding route_option_def by auto
  qed
  have bound: "\<exists>x\<in>?C. fst x \<le> c" if opt: "route_option hyp s w src tgt ids c" for ids c
  proof -
    obtain p a k ta where a: "friendly_walk hyp s w src p a k" "a \<in> set (tacticalNeighbors s tgt)"
      "obj_get (g_territories s) a = Some ta" "c = jadd k (legCost hyp ta tt)"
      using opt tgt tacticalNeighbors_sym [of tgt s] by (auto simp: route_option_def)
    obtain e where e: "obj_get best a = Some e" using complete [OF a(1)] by blast
    have "pe_cost e \<le> k" by (rule settled_okD(3) [OF best e a(1)])
    then have "jadd (pe_cost e) (legCost hyp ta tt) \<le> c" unfolding a(4) by (intro fl_mono) simp
    moreover have "(jadd (pe_cost e) (legCost hyp ta tt), pe_path e @ [tgt]) \<in> ?C"
      using a(2,3) e by (auto simp: candidates_def)
    ultimately show ?thesis by force
  qed
  have "\<forall>ids c. \<not> route_option hyp s w src tgt ids c" if "r = None"
    using bound r(2) that unfolding cheapest_of_def by fastforce
  moreover have "route_option hyp s w src tgt ids c" if "r = Some (c, ids)" for c ids
    by (rule sound) (use r(2) that in \<open>simp add: cheapest_of_def\<close>)
  moreover have "c \<le> c'" if "r = Some (c, ids)" "route_option hyp s w src tgt ids' c'" for c ids ids' c'
  proof -
    have "\<exists>x\<in>?C. fst x \<le> c'" by (rule bound [OF that(2)])
    then obtain x where x: "x \<in> ?C" "fst x \<le> c'" by blast
    have "c \<le> fst x" using r(2) that(1) x(1) unfolding cheapest_of_def by fastforce
    then show ?thesis using x(2) by simp
  qed
  ultimately show ?thesis using r(1) by (intro exI [of _ r]) blast
qed

text \<open>The outcome of the route search under the tactical rules, for every order that passes its guards.\<close>

lemma findDispatchRoute_tactical:
  assumes hyp: "hypot_ok hyp" and rules: "usesTacticalRules (g_rules s)" and ne: "src \<noteq> tgt"
    and src: "obj_get (g_territories s) src = Some tsrc" "t_owner tsrc = w"
    and tgt: "obj_get (g_territories s) tgt = Some tt"
  obtains r where "findDispatchRoute hyp s src tgt w = Inr r"
    and "r = None \<Longrightarrow> \<forall>ids c. \<not> route_option hyp s w src tgt ids c"
    and "\<And>ids. r = Some ids \<Longrightarrow> \<exists>c. route_option hyp s w src tgt ids c
      \<and> (t_owner tt = w \<or> tgt \<notin> set (tacticalNeighbors s src) \<longrightarrow>
          (\<forall>ids' c'. route_option hyp s w src tgt ids' c' \<longrightarrow> c \<le> c'))"
proof -
  obtain best where best: "friendlyPaths hyp s src w = Inr best" "settled_ok hyp s w src best"
    and complete: "\<And>p i c. friendly_walk hyp s w src p i c \<Longrightarrow> \<exists>e. obj_get best i = Some e"
    using friendlyPaths_correct [OF hyp src(1), of w] by metis
  consider "t_owner tt = w" | "t_owner tt \<noteq> w" "tgt \<in> set (tacticalNeighbors s src)"
    | "t_owner tt \<noteq> w" "tgt \<notin> set (tacticalNeighbors s src)" by blast
  then show thesis
  proof cases
    case 1
    have opt: "route_option hyp s w src tgt ids c \<longleftrightarrow> friendly_walk hyp s w src ids tgt c" for ids c
      using 1 tgt by (simp add: route_option_def)
    show thesis
    proof (rule that)
      show "findDispatchRoute hyp s src tgt w = Inr (map_option pe_path (obj_get best tgt))"
        using 1 ne src tgt rules best(1) by (simp add: findDispatchRoute_def)
    next
      show "\<forall>ids c. \<not> route_option hyp s w src tgt ids c" if "map_option pe_path (obj_get best tgt) = None"
        using that complete unfolding opt by fastforce
    next
      fix ids assume "map_option pe_path (obj_get best tgt) = Some ids"
      then obtain e where e: "obj_get best tgt = Some e" "pe_path e = ids" by auto
      show "\<exists>c. route_option hyp s w src tgt ids c
        \<and> (t_owner tt = w \<or> tgt \<notin> set (tacticalNeighbors s src) \<longrightarrow>
            (\<forall>ids' c'. route_option hyp s w src tgt ids' c' \<longrightarrow> c \<le> c'))"
        using settled_okD [OF best(2) e(1)] e(2) unfolding opt by blast
    qed
  next
    case 2
    have "route_option hyp s w src tgt [src, tgt] (jadd 0 (legCost hyp tsrc tt))"
      using 2 tgt src walk_start [of hyp s w src] unfolding route_option_def by fastforce
    moreover have "findDispatchRoute hyp s src tgt w = Inr (Some [src, tgt])"
      using 2 ne src tgt rules by (simp add: findDispatchRoute_def)
    ultimately show thesis using 2 by (intro that [of "Some [src, tgt]"]) auto
  next
    case 3
    have "\<exists>r. fold_res (choose_entry hyp s best tt tgt) (tacticalNeighbors s tgt) None = Inr r
      \<and> (r = None \<longrightarrow> (\<forall>ids c. \<not> route_option hyp s w src tgt ids c))
      \<and> (\<forall>c ids. r = Some (c, ids) \<longrightarrow> route_option hyp s w src tgt ids c
           \<and> (\<forall>ids' c'. route_option hyp s w src tgt ids' c' \<longrightarrow> c \<le> c'))"
      by (rule choose_entry_correct [OF best(2) src(1) _ tgt 3(1)]) (rule complete)
    then obtain r where r: "fold_res (choose_entry hyp s best tt tgt) (tacticalNeighbors s tgt) None = Inr r"
      and none: "r = None \<longrightarrow> (\<forall>ids c. \<not> route_option hyp s w src tgt ids c)"
      and least: "\<forall>c ids. r = Some (c, ids) \<longrightarrow> route_option hyp s w src tgt ids c
           \<and> (\<forall>ids' c'. route_option hyp s w src tgt ids' c' \<longrightarrow> c \<le> c')" by blast
    show thesis
    proof (rule that)
      show "findDispatchRoute hyp s src tgt w = Inr (map_option snd r)"
        using 3 ne src tgt rules best(1) r by (simp add: findDispatchRoute_def)
    next
      show "\<forall>ids c. \<not> route_option hyp s w src tgt ids c" if "map_option snd r = None"
        using that none by simp
    next
      fix ids assume "map_option snd r = Some ids"
      then obtain c where "r = Some (c, ids)" by auto
      then show "\<exists>c. route_option hyp s w src tgt ids c
        \<and> (t_owner tt = w \<or> tgt \<notin> set (tacticalNeighbors s src) \<longrightarrow>
            (\<forall>ids' c'. route_option hyp s w src tgt ids' c' \<longrightarrow> c \<le> c'))"
        using least by blast
    qed
  qed
qed

lemma findDispatchRoute_guards:
  assumes "findDispatchRoute hyp s src tgt w = Inr (Some ids)"
  obtains ts tt where "obj_get (g_territories s) src = Some ts" "t_owner ts = w"
    and "obj_get (g_territories s) tgt = Some tt" "src \<noteq> tgt"
  using assms by (auto simp: findDispatchRoute_def split: option.splits if_splits)

text \<open>The search never throws, whatever the board.\<close>

lemma findDispatchRoute_total:
  assumes "hypot_ok hyp"
  shows "\<exists>r. findDispatchRoute hyp s src tgt w = Inr r"
proof (cases "\<exists>ts tt. obj_get (g_territories s) src = Some ts \<and> t_owner ts = w
    \<and> obj_get (g_territories s) tgt = Some tt \<and> src \<noteq> tgt \<and> usesTacticalRules (g_rules s)")
  case True
  then show ?thesis using findDispatchRoute_tactical [OF assms] by metis
next
  case False
  then show ?thesis by (auto simp: findDispatchRoute_def split: option.splits)
qed

lemma route_option_path:
  assumes opt: "route_option hyp s w src tgt ids c" and ne: "src \<noteq> tgt"
    and src: "owned_tower s w src"
  shows "hd ids = src \<and> last ids = tgt \<and> 2 \<le> length ids \<and> along_roads s ids
    \<and> (\<forall>i\<in>set (butlast ids). owned_tower s w i)"
proof -
  have walk: "hd p = src \<and> p \<noteq> [] \<and> last p = a \<and> along_roads s p \<and> (\<forall>i\<in>set p. owned_tower s w i)"
    if "friendly_walk hyp s w src p a k" for p a k
  proof -
    have "p = src # tl p" using friendly_walk_path [OF that] by (cases p) auto
    then show ?thesis using friendly_walk_path [OF that] src by (metis set_ConsD)
  qed
  obtain tt where tt: "obj_get (g_territories s) tgt = Some tt" using opt by (auto simp: route_option_def)
  show ?thesis
  proof (cases "t_owner tt = w")
    case True
    then have w: "friendly_walk hyp s w src ids tgt c" using opt tt by (simp add: route_option_def)
    have "length ids \<noteq> 1" using walk [OF w] ne by (auto simp: length_Suc_conv)
    moreover have "ids \<noteq> []" using walk [OF w] by simp
    ultimately have "2 \<le> length ids" by (cases ids) (auto simp: Suc_le_eq)
    then show ?thesis using walk [OF w] by (auto dest: in_set_butlastD)
  next
    case False
    then obtain p a k where w: "friendly_walk hyp s w src p a k" "tgt \<in> set (tacticalNeighbors s a)" "ids = p @ [tgt]"
      using opt tt by (auto simp: route_option_def)
    have "p \<noteq> []" "along_roads s (p @ [tgt])" using walk [OF w(1)] w(2) by (auto simp: along_roads_snoc)
    then show ?thesis using walk [OF w(1)] w(3) by (cases p) auto
  qed
qed

lemma findDispatchRoute_path:
  assumes "hypot_ok hyp" "usesTacticalRules (g_rules s)"
    and "findDispatchRoute hyp s src tgt w = Inr (Some ids)"
  shows "hd ids = src \<and> last ids = tgt \<and> 2 \<le> length ids \<and> along_roads s ids
    \<and> (\<forall>i\<in>set (butlast ids). owned_tower s w i)"
proof -
  obtain ts tt where src: "obj_get (g_territories s) src = Some ts" "t_owner ts = w"
    and tgt: "obj_get (g_territories s) tgt = Some tt" and ne: "src \<noteq> tgt"
    using assms(3) by (rule findDispatchRoute_guards)
  obtain c where "route_option hyp s w src tgt ids c"
    using findDispatchRoute_tactical [OF assms(1,2) ne src tgt] assms(3) by (metis Inr_inject)
  then show ?thesis
    by (rule route_option_path [OF _ ne]) (use src in \<open>auto simp: owned_tower_def\<close>)
qed

section \<open>An opening board for the examples\<close>

text \<open>Version 3's opening on the first battlefield, measured with the sum of the coordinate distances.\<close>

definition manhattan :: hypot_fn where
  "manhattan x y = jadd \<bar>x\<bar> \<bar>y\<bar>"

definition example_board :: game_state where
  "example_board = \<lparr>g_rules = Some 3, g_readyAtMs = None, g_shieldedUntilMs = None, g_playerAbilityUsed = False,
     g_enemyAbilityUsed = False, g_battlefieldId = Some ''crown_cross'',
     g_territories = obj_map (\<lambda>i t. if i = ''n_bot_left'' then t\<lparr>t_owner := Player, t_units := 14\<rparr>
         else if i = ''n_top_right'' then t\<lparr>t_owner := Enemy, t_units := 14\<rparr> else t)
       (createDefaultTerritories None None (Some ''crown_cross'')),
     g_armies = [], g_status = Playing, g_elapsed = 0, g_timeLimit = 90, g_stats = empty_stats\<rparr>"

lemma manhattan_ok: "hypot_ok manhattan"
  by (simp add: hypot_ok_def manhattan_def)

lemma getBattlefield_crown_cross: "getBattlefield (Some ''crown_cross'') = crown_cross"
  by (simp add: getBattlefield_def normalizeBattlefieldId_def BATTLEFIELDS_def crown_cross_def Let_def)

lemma example_roads:
  "''n_mid_left'' \<in> set (tacticalNeighbors example_board ''n_bot_left'')"
  "''n_bot_left'' \<in> set (tacticalNeighbors example_board ''p_base'')"
  "''n_center'' \<in> set (tacticalNeighbors example_board ''p_base'')"
  "''n_mid_left'' \<notin> set (tacticalNeighbors example_board ''p_base'')"
  by (simp_all add: tacticalNeighbors_iff example_board_def getBattlefield_crown_cross crown_cross_def)

lemma example_rules: "usesTacticalRules (g_rules example_board)"
  by (simp add: usesTacticalRules_def example_board_def)

lemma example_owners:
  "map_option t_owner (obj_get (g_territories example_board) ''p_base'') = Some Player"
  "map_option t_owner (obj_get (g_territories example_board) ''n_bot_left'') = Some Player"
  "map_option t_owner (obj_get (g_territories example_board) ''n_mid_left'') = Some Neutral"
  "map_option t_owner (obj_get (g_territories example_board) ''n_center'') = Some Neutral"
  by (simp_all add: example_board_def createDefaultTerritories_eq getBattlefield_crown_cross crown_cross_def
      tower_def obj_simps default_territory_def)

lemma example_direct_route:
  "findDispatchRoute manhattan example_board ''p_base'' ''n_center'' Player = Inr (Some [''p_base'', ''n_center''])"
  using example_owners(1,4) example_roads(3) example_rules by (auto simp: findDispatchRoute_def)

section \<open>Properties\<close>

text \<open>
  C12: legality of routes. Under the tactical rules a route starts at the source, ends at the target, has at
  least one leg, follows a road on every leg, and every tower on it except perhaps the last belongs to the
  side that gives the order.
\<close>

theorem dispatch_route_legal:
  assumes "hypot_ok hyp" "usesTacticalRules (g_rules s)"
    and "findDispatchRoute hyp s src tgt w = Inr (Some ids)"
  shows "hd ids = src \<and> last ids = tgt \<and> 2 \<le> length ids
    \<and> successively (\<lambda>a b. b \<in> set (tacticalNeighbors s a)) ids
    \<and> (\<forall>i\<in>set (butlast ids). \<exists>t. obj_get (g_territories s) i = Some t \<and> t_owner t = w)"
  using findDispatchRoute_path [OF assms] by (simp add: along_roads_def owned_tower_def)

lemma dispatch_route_legal_witness:
  "''n_center'' \<in> set (tacticalNeighbors example_board ''p_base'')
   \<and> (\<exists>t. obj_get (g_territories example_board) ''p_base'' = Some t \<and> t_owner t = Player)"
  using dispatch_route_legal [OF manhattan_ok example_rules example_direct_route] by simp

text \<open>
  C13: the route search is total, complete and cheapest. Whenever the source is owned and the target is another
  tower, the search returns without throwing; it returns no route exactly when the rules allow none; and the
  route returned costs no more than any route the rules allow, except that an attack over a direct road always
  takes that road.
\<close>

theorem dispatch_route_complete_cheapest:
  assumes "hypot_ok hyp" "usesTacticalRules (g_rules s)" "src \<noteq> tgt"
    and "obj_get (g_territories s) src = Some ts" "t_owner ts = w" "obj_get (g_territories s) tgt = Some tt"
  shows "\<exists>r. findDispatchRoute hyp s src tgt w = Inr r
    \<and> (r = None \<longleftrightarrow> (\<forall>ids c. \<not> route_option hyp s w src tgt ids c))
    \<and> (\<forall>ids. r = Some ids \<longrightarrow> (\<exists>c. route_option hyp s w src tgt ids c
        \<and> (t_owner tt = w \<or> tgt \<notin> set (tacticalNeighbors s src) \<longrightarrow>
            (\<forall>ids' c'. route_option hyp s w src tgt ids' c' \<longrightarrow> c \<le> c'))))"
  using findDispatchRoute_tactical [OF assms] by (metis option.exhaust)

lemma dispatch_route_complete_cheapest_witness:
  "\<exists>ids c. findDispatchRoute manhattan example_board ''p_base'' ''n_mid_left'' Player = Inr (Some ids)
    \<and> route_option manhattan example_board Player ''p_base'' ''n_mid_left'' ids c
    \<and> ''n_mid_left'' \<notin> set (tacticalNeighbors example_board ''p_base'')"
proof -
  obtain tp where tp: "obj_get (g_territories example_board) ''p_base'' = Some tp" "t_owner tp = Player"
    using example_owners(1) by auto
  obtain tb where tb: "obj_get (g_territories example_board) ''n_bot_left'' = Some tb" "t_owner tb = Player"
    using example_owners(2) by auto
  obtain tm where tm: "obj_get (g_territories example_board) ''n_mid_left'' = Some tm" "t_owner tm = Neutral"
    using example_owners(3) by auto
  have "\<exists>ids c. route_option manhattan example_board Player ''p_base'' ''n_mid_left'' ids c"
    using walk_step [OF walk_start example_roads(2) tp(1) tb] tm tb(1) example_roads(1)
    unfolding route_option_def by fastforce
  then show ?thesis
    using dispatch_route_complete_cheapest [OF manhattan_ok example_rules _ tp tm(1)] example_roads(4) by fastforce
qed

end
