(* ===== verification/Dispatch.thy ===== *)
theory Dispatch
  imports RouteFacts
begin

text \<open>
  \<open>dispatch.ts\<close>: sending armies. \<open>DispatchResult\<close> is a datatype: a failure with the reason the code
  gives, or a success with the source left behind and the army. The army id generator, which draws from
  the clock and \<open>Math.random\<close> by default, is a parameter: the id itself for one dispatch, the ids of
  successive calls for several.
\<close>

definition BASE_ARMY_TRAVEL_SPEED :: num where "BASE_ARMY_TRAVEL_SPEED = 140"

datatype dispatch_result = DispatchFailed string | Dispatched territory army

definition calculateDispatchUnits :: "num \<Rightarrow> num \<Rightarrow> num" where
  "calculateDispatchUnits currentUnits ratio =
     (if currentUnits \<le> 1 then 0 else max 1 (math_floor (jmul currentUnits ratio)))"

text \<open>A travel speed that is not a positive finite number counts as 1.\<close>

definition safe_speed_multiplier :: "js_number \<Rightarrow> num" where
  "safe_speed_multiplier m = (case m of Finite v \<Rightarrow> if 0 < v then v else 1 | _ \<Rightarrow> 1)"

definition new_army ::
  "hypot_fn \<Rightarrow> territory \<Rightarrow> territory \<Rightarrow> team \<Rightarrow> num \<Rightarrow> num \<Rightarrow> string \<Rightarrow> army" where
  "new_army hyp source target owner unitsToSend safeSpeed armyId =
     (let distance = territory_distance hyp source target;
          durationSeconds = max 1 (jdiv distance (jmul (jmul BASE_ARMY_TRAVEL_SPEED safeSpeed)
            (getTerritoryArmySpeedMultiplier (t_type source))))
      in \<lparr>a_routeIds = None, a_routeLeg = None, a_routeSpeed = None, a_id = armyId, a_sourceId = t_id source,
          a_targetId = t_id target, a_owner = owner, a_units = unitsToSend, a_startX = t_x source,
          a_startY = t_y source, a_targetX = t_x target, a_targetY = t_y target, a_progress = 0,
          a_speed = jdiv 1 durationSeconds, a_distance = distance\<rparr>)"

definition dispatch_route ::
  "hypot_fn \<Rightarrow> game_state option \<Rightarrow> territory \<Rightarrow> territory \<Rightarrow> team \<Rightarrow> string list option result" where
  "dispatch_route hyp s source target owner =
     (case s of Some st \<Rightarrow> findDispatchRoute hyp st (t_id source) (t_id target) owner
      | None \<Rightarrow> Inr (Some [t_id source, t_id target]))"

text \<open>Under the tactical rules the army is put on the first leg of its route.\<close>

definition routed_army ::
  "hypot_fn \<Rightarrow> game_state option \<Rightarrow> territory \<Rightarrow> string list \<Rightarrow> num \<Rightarrow> army \<Rightarrow> army result" where
  "routed_army hyp s source route safeSpeed m =
     (case s of
        Some st \<Rightarrow>
          if usesTacticalRules (g_rules st) then
            rbind (defined_or_type_error (obj_get (g_territories st) (route ! 1))) (\<lambda>to.
              Inr (setArmyLeg hyp (m\<lparr>a_routeIds := Some route,
                a_routeSpeed := Some (jmul safeSpeed (getTerritoryArmySpeedMultiplier (t_type source)))\<rparr>) source to 0))
          else Inr m
      | None \<Rightarrow> Inr m)"

definition dispatchArmy ::
  "hypot_fn \<Rightarrow> territory \<Rightarrow> territory \<Rightarrow> team \<Rightarrow> num \<Rightarrow> string \<Rightarrow> js_number \<Rightarrow> game_state option
     \<Rightarrow> dispatch_result result" where
  "dispatchArmy hyp source target expectedOwner ratio armyId speed s =
     (if t_id source = t_id target then Inr (DispatchFailed ''Cannot dispatch to the same territory'')
      else if t_owner source \<noteq> expectedOwner
        then Inr (DispatchFailed ''Source territory is not owned by the dispatcher'')
      else rbind (dispatch_route hyp s source target expectedOwner) (\<lambda>r. case r of
          None \<Rightarrow> Inr (DispatchFailed (if t_owner target = expectedOwner then ''No friendly route''
                                      else ''Attack an adjacent tower''))
        | Some route \<Rightarrow>
            let unitsToSend = calculateDispatchUnits (t_units source) ratio in
            if unitsToSend \<le> 0 then Inr (DispatchFailed ''Not enough units in source territory'')
            else rbind (routed_army hyp s source route (safe_speed_multiplier speed)
                  (new_army hyp source target expectedOwner unitsToSend (safe_speed_multiplier speed) armyId))
                (\<lambda>m. Inr (Dispatched (source\<lparr>t_units := jsub (t_units source) unitsToSend\<rparr>) m))))"

record multi_dispatch =
  md_successes :: "dispatch_result list"
  md_armies :: "army list"
  md_updatedSources :: "territory obj"
  md_total :: num

definition dispatch_source ::
  "hypot_fn \<Rightarrow> territory \<Rightarrow> team \<Rightarrow> num \<Rightarrow> js_number \<Rightarrow> (nat \<Rightarrow> string) \<Rightarrow> game_state option
     \<Rightarrow> territory \<Rightarrow> multi_dispatch \<Rightarrow> multi_dispatch result" where
  "dispatch_source hyp target owner ratio speed ids s source acc =
     (if t_id source = t_id target then Inr acc
      else rbind (dispatchArmy hyp source target owner ratio (ids (length (md_armies acc))) speed s) (\<lambda>res.
        case res of
          DispatchFailed _ \<Rightarrow> Inr acc
        | Dispatched left m \<Rightarrow> Inr (acc\<lparr>md_successes := md_successes acc @ [res],
            md_armies := md_armies acc @ [m],
            md_updatedSources := obj_set (t_id source) left (md_updatedSources acc),
            md_total := jadd (md_total acc) (a_units m)\<rparr>)))"

definition dispatchMultipleArmies ::
  "hypot_fn \<Rightarrow> territory list \<Rightarrow> territory \<Rightarrow> team \<Rightarrow> num \<Rightarrow> js_number \<Rightarrow> (nat \<Rightarrow> string) \<Rightarrow> game_state option
     \<Rightarrow> multi_dispatch result" where
  "dispatchMultipleArmies hyp sources target owner ratio speed ids s =
     fold_res (dispatch_source hyp target owner ratio speed ids s) sources
       \<lparr>md_successes = [], md_armies = [], md_updatedSources = [], md_total = 0\<rparr>"

section \<open>Unit counts\<close>

lemma safe_speed_multiplier_pos [simp]: "0 < safe_speed_multiplier m"
  by (auto simp: safe_speed_multiplier_def split: js_number.splits)

lemma calculateDispatchUnits_half:
  assumes "n \<le> 2 ^ 53"
  shows "calculateDispatchUnits (of_nat n) (1 / 2) = of_nat (n div 2)"
proof -
  have half: "fl (of_nat n * (1 / 2)) = of_int (int n) / 2"
    using fl_dyadic [of "int n" 1] assms by simp
  have floor: "\<lfloor>of_int (int n) / (2::rat)\<rfloor> = int n div 2"
    using floor_divide_of_int_eq [of "int n" 2, where ?'a = rat] by simp
  have quot: "of_int (int n div 2) = (of_nat (n div 2) :: rat)"
    by (metis of_int_of_nat_eq of_nat_numeral zdiv_int)
  have large: "(of_nat n \<le> (1::rat)) = (n \<le> 1)" using of_nat_le_iff [of n 1, where ?'a = rat] by simp
  show ?thesis
  proof (cases "n \<le> 1")
    case True
    then have "n div 2 = 0" by simp
    with True show ?thesis by (simp only: calculateDispatchUnits_def large if_True of_nat_0)
  next
    case False
    then have "1 \<le> n div 2" by simp
    then have "(1::rat) \<le> of_nat (n div 2)" by (metis of_nat_1 of_nat_le_iff)
    with False show ?thesis
      by (simp only: calculateDispatchUnits_def large if_False half math_floor_def floor quot max_def if_True)
  qed
qed

lemma dispatch_left_half:
  "n \<le> 2 ^ 53 \<Longrightarrow> jsub (of_nat n) (of_nat (n div 2)) = of_nat (n - n div 2)"
  using fl_of_nat_exact [of "n - n div 2"] by (simp flip: of_nat_diff)

section \<open>One dispatch\<close>

lemma new_army_frame [simp]:
  "a_id (new_army hyp source target w u sp i) = i"
  "a_owner (new_army hyp source target w u sp i) = w"
  "a_units (new_army hyp source target w u sp i) = u"
  "a_sourceId (new_army hyp source target w u sp i) = t_id source"
  "a_targetId (new_army hyp source target w u sp i) = t_id target"
  "a_progress (new_army hyp source target w u sp i) = 0"
  "a_routeIds (new_army hyp source target w u sp i) = None"
  by (simp_all add: new_army_def Let_def)

lemma setArmyLeg_frame [simp]:
  "a_id (setArmyLeg hyp m a b leg) = a_id m" "a_owner (setArmyLeg hyp m a b leg) = a_owner m"
  "a_units (setArmyLeg hyp m a b leg) = a_units m" "a_sourceId (setArmyLeg hyp m a b leg) = a_sourceId m"
  "a_routeIds (setArmyLeg hyp m a b leg) = a_routeIds m" "a_progress (setArmyLeg hyp m a b leg) = 0"
  "a_targetId (setArmyLeg hyp m a b leg) = t_id b" "a_routeLeg (setArmyLeg hyp m a b leg) = Some leg"
  by (simp_all add: setArmyLeg_def Let_def)

lemma unit_interval_speed:
  assumes "1 \<le> d" shows "0 < jdiv 1 d \<and> jdiv 1 d \<le> 1"
  using assms by (auto intro!: fl_le_double)

lemma new_army_speed: "0 < a_speed (new_army hyp source target w u sp i) \<and> a_speed (new_army hyp source target w u sp i) \<le> 1"
  unfolding new_army_def Let_def by (simp del: fl_pos_iff) (rule unit_interval_speed, simp)

lemma setArmyLeg_speed: "0 < a_speed (setArmyLeg hyp m a b leg) \<and> a_speed (setArmyLeg hyp m a b leg) \<le> 1"
  unfolding setArmyLeg_def Let_def
  by (simp del: fl_pos_iff) (rule unit_interval_speed, simp add: tactical_minLegSeconds_def max_def)

lemma routed_army_Inr:
  assumes "routed_army hyp s source route sp m = Inr m'"
  shows "a_id m' = a_id m" "a_owner m' = a_owner m" "a_units m' = a_units m" "a_sourceId m' = a_sourceId m"
    and "a_progress m = 0 \<Longrightarrow> a_progress m' = 0"
    and "0 < a_speed m \<and> a_speed m \<le> 1 \<Longrightarrow> 0 < a_speed m' \<and> a_speed m' \<le> 1"
  using assms setArmyLeg_speed
  by (auto simp: routed_army_def rbind_eq_Inr split: option.splits if_splits)

lemma dispatchArmy_Dispatched:
  assumes "dispatchArmy hyp source target w ratio i speed s = Inr (Dispatched left m)"
  obtains route where "t_id source \<noteq> t_id target" "t_owner source = w"
    and "dispatch_route hyp s source target w = Inr (Some route)"
    and "0 < calculateDispatchUnits (t_units source) ratio"
    and "routed_army hyp s source route (safe_speed_multiplier speed) (new_army hyp source target w
           (calculateDispatchUnits (t_units source) ratio) (safe_speed_multiplier speed) i) = Inr m"
    and "left = source\<lparr>t_units := jsub (t_units source) (calculateDispatchUnits (t_units source) ratio)\<rparr>"
  using assms
  by (auto simp: dispatchArmy_def rbind_eq_Inr Let_def split: if_splits option.splits)

lemma dispatch_route_total: "hypot_ok hyp \<Longrightarrow> \<exists>r. dispatch_route hyp s source target w = Inr r"
  using findDispatchRoute_total by (auto simp: dispatch_route_def split: option.splits)

text \<open>The first waypoint of a tactical route is a tower of the board.\<close>

lemma first_waypoint:
  assumes "hypot_ok hyp" "usesTacticalRules (g_rules s)"
    and "findDispatchRoute hyp s src tgt w = Inr (Some ids)"
  shows "\<exists>t. obj_get (g_territories s) (ids ! 1) = Some t"
proof -
  have path: "last ids = tgt" "2 \<le> length ids" "\<forall>i\<in>set (butlast ids). owned_tower s w i"
    using findDispatchRoute_path [OF assms] by blast+
  show ?thesis
  proof (cases "length ids = 2")
    case True
    then have "ids ! 1 = tgt" using path(1) by (cases ids rule: rev_cases) (auto simp: nth_append)
    then show ?thesis using assms(3) by (auto elim: findDispatchRoute_guards)
  next
    case False
    then have "ids ! 1 = butlast ids ! 1" "1 < length (butlast ids)" using path(2) by (simp_all add: nth_butlast)
    then have "ids ! 1 \<in> set (butlast ids)" by simp
    then show ?thesis using path(3) by (auto simp: owned_tower_def)
  qed
qed

lemma routed_army_total:
  assumes "hypot_ok hyp" "dispatch_route hyp s source target w = Inr (Some route)"
  shows "\<exists>m'. routed_army hyp s source route sp m = Inr m'"
  using first_waypoint [OF assms(1)] assms(2)
  by (fastforce simp: routed_army_def dispatch_route_def split: option.splits)

lemma dispatchArmy_total:
  assumes "hypot_ok hyp"
  shows "\<exists>r. dispatchArmy hyp source target w ratio i speed s = Inr r"
proof -
  obtain r where r: "dispatch_route hyp s source target w = Inr r" using dispatch_route_total [OF assms] by blast
  show ?thesis
  proof (cases r)
    case (Some route)
    have "\<exists>m'. routed_army hyp s source route (safe_speed_multiplier speed) m = Inr m'" for m
      by (rule routed_army_total [OF assms r [unfolded Some]])
    then obtain f where "\<And>m. routed_army hyp s source route (safe_speed_multiplier speed) m = Inr (f m)" by metis
    then show ?thesis by (simp add: dispatchArmy_def Let_def r Some)
  qed (simp add: dispatchArmy_def r)
qed

section \<open>Several sources\<close>

lemma sum_units_Nats: "(\<And>x. x \<in> set xs \<Longrightarrow> f x \<in> \<nat>) \<Longrightarrow> sum_list (map f xs) \<in> (\<nat> :: num set)"
  by (induction xs) auto

lemma whole_dispatch:
  assumes "dispatchArmy hyp source target w (1 / 2) i speed s = Inr (Dispatched left m)"
    and "t_units source \<in> \<nat>" "t_units source \<le> 2 ^ 53"
  shows "\<exists>n. t_units source = of_nat n \<and> 2 \<le> n \<and> a_units m = of_nat (n div 2)
    \<and> left = source\<lparr>t_units := of_nat (n - n div 2)\<rparr>"
proof -
  obtain n where n: "t_units source = of_nat n" using assms(2) by (auto simp: Nats_def)
  then have le: "n \<le> 2 ^ 53"
    using assms(3) of_nat_le_iff [of n "2 ^ 53", where ?'a = rat] by simp
  note units = calculateDispatchUnits_half [OF le] dispatch_left_half [OF le]
  show ?thesis
    using assms(1)
  proof (rule dispatchArmy_Dispatched, goal_cases)
    case (1 route)
    have "0 < n div 2" using 1(4) by (simp add: n units(1))
    then have "2 \<le> n" by simp
    moreover have "a_units m = of_nat (n div 2)" using routed_army_Inr(3) [OF 1(5)] by (simp add: n units(1))
    ultimately show ?thesis using 1(6) by (auto simp: n units)
  qed
qed

lemma dispatch_source_cases:
  assumes "dispatch_source hyp target w ratio speed ids s t acc = Inr acc'"
  obtains "acc' = acc"
    | left m where "dispatchArmy hyp t target w ratio (ids (length (md_armies acc))) speed s = Inr (Dispatched left m)"
      "acc' = acc\<lparr>md_successes := md_successes acc @ [Dispatched left m], md_armies := md_armies acc @ [m],
         md_updatedSources := obj_set (t_id t) left (md_updatedSources acc), md_total := jadd (md_total acc) (a_units m)\<rparr>"
proof (cases "t_id t = t_id target")
  case True
  then show thesis using assms that(1) by (simp add: dispatch_source_def)
next
  case False
  then obtain res where res: "dispatchArmy hyp t target w ratio (ids (length (md_armies acc))) speed s = Inr res"
    using assms by (auto simp: dispatch_source_def rbind_eq_Inr)
  show thesis
  proof (cases res)
    case DispatchFailed
    then show thesis using assms False res that(1) by (simp add: dispatch_source_def)
  next
    case (Dispatched left m)
    then show thesis using assms False res that(2) by (simp add: dispatch_source_def)
  qed
qed

text \<open>The units of the sources that sent nothing.\<close>

definition unsent :: "territory list \<Rightarrow> territory obj \<Rightarrow> num" where
  "unsent sources updated = sum_list (map t_units (filter (\<lambda>t. t_id t \<notin> set (obj_keys updated)) sources))"

lemma dispatch_fold:
  assumes "fold_res (dispatch_source hyp target w (1 / 2) speed ids s) sources acc = Inr r"
    and "distinct (map t_id sources)" "set (map t_id sources) \<inter> set (obj_keys (md_updatedSources acc)) = {}"
    and "\<forall>t\<in>set sources. t_units t \<in> \<nat>"
    and "md_total acc = sum_list (map a_units (md_armies acc))" "md_total acc \<in> \<nat>"
    and "md_total acc + sum_list (map t_units sources) \<le> 2 ^ 53"
  shows "md_total r = sum_list (map a_units (md_armies r))
    \<and> sum_list (map t_units (obj_values (md_updatedSources r))) + md_total r + unsent sources (md_updatedSources r)
      = sum_list (map t_units (obj_values (md_updatedSources acc))) + md_total acc + sum_list (map t_units sources)
    \<and> set (obj_keys (md_updatedSources r)) \<subseteq> set (obj_keys (md_updatedSources acc)) \<union> set (map t_id sources)
      \<and> set (obj_keys (md_updatedSources acc)) \<subseteq> set (obj_keys (md_updatedSources r))"
  using assms
proof (induction sources arbitrary: acc)
  case Nil
  then show ?case by (simp add: unsent_def)
next
  case (Cons t ts)
  obtain acc' where acc': "dispatch_source hyp target w (1 / 2) speed ids s t acc = Inr acc'"
    and rest: "fold_res (dispatch_source hyp target w (1 / 2) speed ids s) ts acc' = Inr r"
    using Cons.prems(1) by (auto simp: rbind_eq_Inr)
  have rest_nonneg: "0 \<le> sum_list (map t_units ts)"
    using Cons.prems(4) by (intro sum_list_nonneg) (auto simp: Nats_iff)
  have total_nonneg: "0 \<le> md_total acc" using Cons.prems(6) by (simp add: Nats_iff)
  consider "acc' = acc"
    | left m where "dispatchArmy hyp t target w (1 / 2) (ids (length (md_armies acc))) speed s = Inr (Dispatched left m)"
      "acc' = acc\<lparr>md_successes := md_successes acc @ [Dispatched left m], md_armies := md_armies acc @ [m],
         md_updatedSources := obj_set (t_id t) left (md_updatedSources acc), md_total := jadd (md_total acc) (a_units m)\<rparr>"
    by (rule dispatch_source_cases [OF acc'])
  then show ?case
  proof cases
    case 1
    have units: "0 \<le> t_units t" using Cons.prems(4) by (simp add: Nats_iff)
    have concl: "md_total r = sum_list (map a_units (md_armies r))
      \<and> sum_list (map t_units (obj_values (md_updatedSources r))) + md_total r + unsent ts (md_updatedSources r)
      = sum_list (map t_units (obj_values (md_updatedSources acc))) + md_total acc + sum_list (map t_units ts)
      \<and> set (obj_keys (md_updatedSources r)) \<subseteq> set (obj_keys (md_updatedSources acc)) \<union> set (map t_id ts)
      \<and> set (obj_keys (md_updatedSources acc)) \<subseteq> set (obj_keys (md_updatedSources r))"
    proof (rule Cons.IH [OF rest [unfolded 1]])
      show "md_total acc + sum_list (map t_units ts) \<le> 2 ^ 53" using Cons.prems(7) units by simp
    qed (use Cons.prems in simp_all)
    moreover have "t_id t \<notin> set (obj_keys (md_updatedSources r))"
      using concl Cons.prems(2,3) by auto
    then have "unsent (t # ts) (md_updatedSources r) = t_units t + unsent ts (md_updatedSources r)"
      by (simp add: unsent_def)
    ultimately show ?thesis by (auto simp del: map_map)
  next
    case 2
    have "t_units t \<le> 2 ^ 53" using Cons.prems(7) rest_nonneg total_nonneg by simp
    then obtain n where n: "t_units t = of_nat n" "2 \<le> n" "a_units m = of_nat (n div 2)"
      "left = t\<lparr>t_units := of_nat (n - n div 2)\<rparr>"
      using whole_dispatch [OF 2(1)] Cons.prems(4) by auto
    have split: "of_nat (n - n div 2) + of_nat (n div 2) = (of_nat n :: num)" by (simp flip: of_nat_add)
    have half: "(of_nat (n div 2) :: num) \<le> of_nat n" by simp
    have exact: "jadd (md_total acc) (a_units m) = md_total acc + of_nat (n div 2)"
      using Cons.prems(6,7) rest_nonneg total_nonneg n(1) half unfolding n(3)
      by (intro fl_Ints_exact) (auto simp: Nats_iff)
    have fresh: "t_id t \<notin> set (obj_keys (md_updatedSources acc))" using Cons.prems(3) by auto
    let ?acc' = "acc\<lparr>md_successes := md_successes acc @ [Dispatched left m], md_armies := md_armies acc @ [m],
         md_updatedSources := md_updatedSources acc @ [(t_id t, left)], md_total := md_total acc + of_nat (n div 2)\<rparr>"
    have new: "acc' = ?acc'" using 2(2) unfolding obj_set_new [OF fresh] exact .
    have concl: "md_total r = sum_list (map a_units (md_armies r))
      \<and> sum_list (map t_units (obj_values (md_updatedSources r))) + md_total r + unsent ts (md_updatedSources r)
      = sum_list (map t_units (obj_values (md_updatedSources ?acc'))) + md_total ?acc' + sum_list (map t_units ts)
      \<and> set (obj_keys (md_updatedSources r)) \<subseteq> set (obj_keys (md_updatedSources ?acc')) \<union> set (map t_id ts)
      \<and> set (obj_keys (md_updatedSources ?acc')) \<subseteq> set (obj_keys (md_updatedSources r))"
    proof (rule Cons.IH [OF rest [unfolded new]])
      show "md_total ?acc' + sum_list (map t_units ts) \<le> 2 ^ 53" using Cons.prems(7) n(1) half by simp
      show "md_total ?acc' \<in> \<nat>" using Cons.prems(6) by simp
      show "md_total ?acc' = sum_list (map a_units (md_armies ?acc'))" using Cons.prems(5) n(3) by simp
      show "set (map t_id ts) \<inter> set (obj_keys (md_updatedSources ?acc')) = {}" using Cons.prems(2,3) by auto
    qed (use Cons.prems in simp_all)
    then have "t_id t \<in> set (obj_keys (md_updatedSources r))" by auto
    moreover note concl
    ultimately show ?thesis using n(1,4) split by (auto simp: unsent_def simp del: map_map)
  qed
qed

lemma dispatch_source_total:
  "hypot_ok hyp \<Longrightarrow> \<exists>acc'. dispatch_source hyp target w ratio speed ids s t acc = Inr acc'"
  using dispatchArmy_total [of hyp t target w ratio "ids (length (md_armies acc))" speed s]
  by (auto simp: dispatch_source_def split: dispatch_result.splits)

section \<open>Properties\<close>

text \<open>
  C14: an order of half a garrison. It never throws. It succeeds exactly when source and target differ, the
  source belongs to the dispatcher, the rules give a route and there are at least two units; then the army
  takes the lower half, the source keeps the upper half, so no unit is lost and at least one stays, and the
  army starts at progress 0 with a positive speed that crosses a leg in no less than a second.
\<close>

theorem dispatchArmy_correct:
  assumes "hypot_ok hyp" "t_units source = of_nat n" "n \<le> 2 ^ 53"
  shows "\<exists>r. dispatchArmy hyp source target w (1 / 2) i speed s = Inr r \<and>
    (case r of
       DispatchFailed _ \<Rightarrow> t_id source = t_id target \<or> t_owner source \<noteq> w
         \<or> dispatch_route hyp s source target w = Inr None \<or> n < 2
     | Dispatched left m \<Rightarrow> t_id source \<noteq> t_id target \<and> t_owner source = w
         \<and> (\<exists>route. dispatch_route hyp s source target w = Inr (Some route)) \<and> 2 \<le> n
         \<and> a_units m = of_nat (n div 2) \<and> left = source\<lparr>t_units := of_nat (n - n div 2)\<rparr>
         \<and> a_id m = i \<and> a_owner m = w \<and> a_sourceId m = t_id source
         \<and> a_progress m = 0 \<and> 0 < a_speed m \<and> a_speed m \<le> 1)"
proof -
  obtain r where r: "dispatchArmy hyp source target w (1 / 2) i speed s = Inr r"
    using dispatchArmy_total [OF assms(1)] by blast
  show ?thesis
  proof (cases r)
    case (DispatchFailed reason)
    have "t_id source = t_id target \<or> t_owner source \<noteq> w \<or> dispatch_route hyp s source target w = Inr None \<or> n < 2"
      using r [unfolded DispatchFailed]
      by (auto simp: dispatchArmy_def rbind_eq_Inr Let_def assms(2) calculateDispatchUnits_half [OF assms(3)]
          split: if_splits option.splits)
    then show ?thesis using r DispatchFailed by simp
  next
    case (Dispatched left m)
    obtain k where k: "t_units source = of_nat k" "2 \<le> k" "a_units m = of_nat (k div 2)"
      "left = source\<lparr>t_units := of_nat (k - k div 2)\<rparr>"
      using whole_dispatch [OF r [unfolded Dispatched]] assms(2,3) of_nat_le_iff [of n "2 ^ 53", where ?'a = rat]
      by auto
    have "k = n" using k(1) assms(2) by simp
    obtain route where route: "t_id source \<noteq> t_id target" "t_owner source = w"
        "dispatch_route hyp s source target w = Inr (Some route)"
        "routed_army hyp s source route (safe_speed_multiplier speed) (new_army hyp source target w
           (calculateDispatchUnits (t_units source) (1 / 2)) (safe_speed_multiplier speed) i) = Inr m"
      using r [unfolded Dispatched] by (rule dispatchArmy_Dispatched)
    then show ?thesis
      using r Dispatched k \<open>k = n\<close> routed_army_Inr [OF route(4)] new_army_speed by simp
  qed
qed

lemma dispatchArmy_correct_witness:
  "\<exists>left m. dispatchArmy manhattan (example_tower Player 21 Stable) (example_tower Enemy 5 Fortress\<lparr>t_id := ''e''\<rparr>)
      Player (1 / 2) ''a1'' (Finite 1) None = Inr (Dispatched left m)
    \<and> a_units m = 10 \<and> t_units left = 11"
proof -
  have units: "t_units (example_tower Player 21 Stable) = of_nat 21" "(21::nat) \<le> 2 ^ 53"
    by (simp_all add: example_tower_def)
  from dispatchArmy_correct [OF manhattan_ok units, of "example_tower Enemy 5 Fortress\<lparr>t_id := ''e''\<rparr>" Player
      "''a1''" "Finite 1" None]
  show ?thesis
  proof (elim exE conjE, goal_cases)
    case (1 r)
    then show ?case by (cases r) (auto simp: dispatch_route_def example_tower_def)
  qed
qed

text \<open>
  A coordinated attack conserves troops. It never throws, and when the garrisons are whole and together
  stay in the exact range, the units of the sources equal what the updated sources keep, what the armies carry
  and what the sources that sent nothing still hold; the reported total is the sum of the armies.
\<close>

theorem dispatchMultipleArmies_conserves:
  assumes "hypot_ok hyp" "distinct (map t_id sources)" "\<forall>t\<in>set sources. t_units t \<in> \<nat>"
    and "sum_list (map t_units sources) \<le> 2 ^ 53"
  shows "\<exists>r. dispatchMultipleArmies hyp sources target w (1 / 2) speed ids s = Inr r
    \<and> md_total r = sum_list (map a_units (md_armies r))
    \<and> sum_list (map t_units sources) = sum_list (map t_units (obj_values (md_updatedSources r)))
        + sum_list (map a_units (md_armies r)) + unsent sources (md_updatedSources r)"
proof -
  obtain r where r: "dispatchMultipleArmies hyp sources target w (1 / 2) speed ids s = Inr r"
    unfolding dispatchMultipleArmies_def
    using fold_res_total [of "\<lambda>_. True"] dispatch_source_total [OF assms(1)] by metis
  have "md_total r = sum_list (map a_units (md_armies r))
    \<and> sum_list (map t_units (obj_values (md_updatedSources r))) + md_total r + unsent sources (md_updatedSources r)
      = sum_list (map t_units (obj_values [])) + 0 + sum_list (map t_units sources)"
    using dispatch_fold [OF r [unfolded dispatchMultipleArmies_def]] assms(2-4) by simp
  then show ?thesis using r by auto
qed

lemma dispatchMultipleArmies_conserves_witness:
  "\<exists>r. dispatchMultipleArmies manhattan
      [example_tower Player 21 Stable, example_tower Player 1 Stable\<lparr>t_id := ''b''\<rparr>]
      (example_tower Enemy 5 Fortress\<lparr>t_id := ''e''\<rparr>) Player (1 / 2) (Finite 1) (\<lambda>_. ''a'') None = Inr r
    \<and> sum_list (map t_units (obj_values (md_updatedSources r))) + sum_list (map a_units (md_armies r))
        + unsent [example_tower Player 21 Stable, example_tower Player 1 Stable\<lparr>t_id := ''b''\<rparr>] (md_updatedSources r) = 22"
proof -
  let ?ts = "[example_tower Player 21 Stable, example_tower Player 1 Stable\<lparr>t_id := ''b''\<rparr>]"
  have "distinct (map t_id ?ts)" "\<forall>t\<in>set ?ts. t_units t \<in> \<nat>" "sum_list (map t_units ?ts) \<le> 2 ^ 53"
    by (simp_all add: example_tower_def)
  from dispatchMultipleArmies_conserves [OF manhattan_ok this, of "example_tower Enemy 5 Fortress\<lparr>t_id := ''e''\<rparr>"
      Player "Finite 1" "\<lambda>_. ''a''" None]
  show ?thesis by (auto simp: example_tower_def)
qed

end
