(* ===== verification/Combat.thy ===== *)
theory Combat
  imports GameTypes
begin

text \<open>
  \<open>combat.ts\<close>: what happens when an army arrives at a territory. \<open>resolveArrival\<close> is the whole
  function, with its early return and its four outcomes (reinforcement, capture, repulse, tie).
\<close>

definition arrival_result ::
  "territory \<Rightarrow> team \<Rightarrow> team \<Rightarrow> num \<Rightarrow> num \<Rightarrow> bool \<Rightarrow> bool \<Rightarrow> combat_result" where
  "arrival_result target attacker newOwner incoming remaining captured reinforced =
     \<lparr>c_routeInterrupted = False, c_targetId = t_id target, c_attackerOwner = attacker,
      c_previousOwner = t_owner target, c_newOwner = newOwner,
      c_previousUnits = t_units target, c_incomingUnits = incoming,
      c_remainingUnits = remaining, c_captured = captured, c_reinforced = reinforced\<rparr>"

definition resolveArrival :: "territory \<Rightarrow> num \<Rightarrow> team \<Rightarrow> num \<Rightarrow> combat_result" where
  "resolveArrival target incomingUnits attackerOwner defenseBonus =
     (if incomingUnits \<le> 0 then
        arrival_result target attackerOwner (t_owner target) 0 (t_units target) False False
      else if attackerOwner = t_owner target then
        arrival_result target attackerOwner (t_owner target) incomingUnits
          (jadd (t_units target) incomingUnits) False True
      else let defenseStrength = getTerritoryDefenseStrength target defenseBonus in
        if defenseStrength < incomingUnits then
          arrival_result target attackerOwner attackerOwner incomingUnits
            (jsub incomingUnits defenseStrength) True False
        else if incomingUnits < defenseStrength then
          arrival_result target attackerOwner (t_owner target) incomingUnits
            (getRemainingDefenders (t_type target) (jsub defenseStrength incomingUnits) defenseBonus)
            False False
        else arrival_result target attackerOwner (t_owner target) incomingUnits 0 False False)"

lemmas resolveArrival_defs = resolveArrival_def arrival_result_def Let_def

section \<open>Facts\<close>

text \<open>The army's owner and the tower's owner are the only possible new owners.\<close>

lemma resolveArrival_frame [simp]:
  "c_targetId (resolveArrival t n w b) = t_id t"
  "c_attackerOwner (resolveArrival t n w b) = w"
  "c_previousOwner (resolveArrival t n w b) = t_owner t"
  "c_previousUnits (resolveArrival t n w b) = t_units t"
  "c_routeInterrupted (resolveArrival t n w b) = False"
  by (simp_all add: resolveArrival_defs)

lemma resolveArrival_newOwner:
  "c_newOwner (resolveArrival t n w b) = (if c_captured (resolveArrival t n w b) then w else t_owner t)"
  by (simp add: resolveArrival_defs)

lemma resolveArrival_captured:
  "c_captured (resolveArrival t n w b) \<longleftrightarrow>
     0 < n \<and> w \<noteq> t_owner t \<and> getTerritoryDefenseStrength t b < n"
  by (auto simp: resolveArrival_defs)

lemma resolveArrival_reinforced:
  "c_reinforced (resolveArrival t n w b) \<longleftrightarrow> 0 < n \<and> w = t_owner t"
  by (simp add: resolveArrival_defs)

text \<open>Unit counts stay natural numbers: the counts of the code are always whole and non-negative.\<close>

lemma defense_strength_Nats:
  assumes "0 \<le> t_units t" "0 \<le> b"
  shows "getTerritoryDefenseStrength t b \<in> \<nat>"
proof -
  have "0 \<le> getTerritoryDefenseMultiplier (t_type t)"
    using defense_multiplier_ge_1 [of "t_type t"] by linarith
  then show ?thesis
    using assms by (simp add: Nats_iff getTerritoryDefenseStrength_def math_ceil_nonneg)
qed

lemma remaining_defenders_Nats:
  assumes "0 \<le> n" "0 \<le> b"
  shows "getRemainingDefenders ty n b \<in> \<nat>"
proof -
  have "0 \<le> getTerritoryDefenseMultiplier ty"
    using defense_multiplier_ge_1 [of ty] by linarith
  then show ?thesis
    using assms by (simp add: Nats_iff getRemainingDefenders_def math_ceil_nonneg)
qed

lemma Nats_diff: "a \<in> \<nat> \<Longrightarrow> b \<in> \<nat> \<Longrightarrow> b \<le> a \<Longrightarrow> a - b \<in> (\<nat> :: rat set)"
  by (simp add: Nats_iff)

lemma resolveArrival_Nats:
  assumes "t_units t \<in> \<nat>" "n \<in> \<nat>" "0 \<le> b"
  shows "c_remainingUnits (resolveArrival t n w b) \<in> \<nat>"
proof -
  have s: "getTerritoryDefenseStrength t b \<in> \<nat>"
    using assms by (intro defense_strength_Nats) (simp_all add: Nats_iff)
  show ?thesis
    using assms s by (auto simp: resolveArrival_defs intro!: fl_Nats Nats_diff remaining_defenders_Nats)
qed

lemma resolveArrival_positive:
  assumes "c_captured (resolveArrival t n w b)"
  shows "0 < c_remainingUnits (resolveArrival t n w b)"
  using assms by (auto simp: resolveArrival_defs split: if_splits)

text \<open>
  The defence factor of a battle is 1, 1.25, 2 or 2.5 (a fortress and the royal shield); multiplying a
  unit count of at most \<open>2 ^ 49\<close> by it is exact.
\<close>

lemma dyadic_factor_exact:
  assumes "u \<in> \<nat>" "u \<le> 2 ^ 49" "0 \<le> k" "k \<le> 10"
  shows "is_double (u * (of_int k / 2 ^ 2))"
proof -
  obtain n where n: "u = of_int n" "0 \<le> n" using assms(1) by (auto simp: Nats_altdef2 elim: Ints_cases)
  have "(of_int n :: rat) \<le> of_int (2 ^ 49)" using assms(2) n by simp
  then have "n \<le> 2 ^ 49" by (simp only: of_int_le_iff)
  then have "n * k \<le> 2 ^ 49 * 10" using n assms by (intro mult_mono) auto
  moreover have "0 \<le> n * k" using n assms by simp
  ultimately have "is_double (of_int (n * k) / 2 ^ 2)" by (intro is_double_dyadic) simp
  then show ?thesis by (simp add: n)
qed

definition defense_factor :: "territory_type \<Rightarrow> num \<Rightarrow> num" where
  "defense_factor ty b = jmul (getTerritoryDefenseMultiplier ty) b"

lemma defense_factor_cases:
  assumes "b = 1 \<or> b = 2"
  obtains k :: int where "0 < k" "k \<le> 10" "4 \<le> k" "defense_factor ty b = of_int k / 2 ^ 2"
proof -
  have "fl (5 / 4) = 5 / 4" "fl (5 / 2) = 5 / 2"
    using fl_dyadic [of 5 2] fl_dyadic [of 5 1] by simp_all
  then have "defense_factor ty b \<in> {of_int 4 / 2 ^ 2, of_int 5 / 2 ^ 2, of_int 8 / 2 ^ 2, of_int 10 / 2 ^ 2}"
    using assms
    by (auto simp: defense_factor_def getTerritoryDefenseMultiplier_def FORTRESS_DEFENSE_MULTIPLIER_def)
  then show thesis using that [of 4] that [of 5] that [of 8] that [of 10] by auto
qed

lemma defense_strength_exact:
  assumes "t_units t \<in> \<nat>" "t_units t \<le> 2 ^ 49" "b = 1 \<or> b = 2"
  shows "getTerritoryDefenseStrength t b = math_ceil (t_units t * defense_factor (t_type t) b)"
proof -
  obtain k where k: "0 < k" "k \<le> 10" "defense_factor (t_type t) b = of_int k / 2 ^ 2"
    using defense_factor_cases [OF assms(3)] by blast
  have "is_double (t_units t * defense_factor (t_type t) b)"
    unfolding k(3) using k by (intro dyadic_factor_exact [OF assms(1,2)]) simp_all
  then have "fl (t_units t * defense_factor (t_type t) b) = t_units t * defense_factor (t_type t) b"
    by simp
  then show ?thesis by (simp add: getTerritoryDefenseStrength_def flip: defense_factor_def)
qed

text \<open>
  A tower is at least as strong as its garrison, and an attack that does not capture it never leaves
  it with more units than it had: the upward rounding of the fortress bonus is not an exploit.
\<close>

lemma defense_strength_ge_units:
  assumes "t_units t \<in> \<nat>" "t_units t \<le> 2 ^ 49" "b = 1 \<or> b = 2"
  shows "t_units t \<le> getTerritoryDefenseStrength t b"
proof -
  obtain k where k: "4 \<le> k" "defense_factor (t_type t) b = of_int k / 2 ^ 2"
    using defense_factor_cases [OF assms(3)] by blast
  have "t_units t * 1 \<le> t_units t * defense_factor (t_type t) b"
    using assms(1) k by (intro mult_left_mono) (simp_all add: Nats_iff)
  also have "\<dots> \<le> getTerritoryDefenseStrength t b"
    unfolding defense_strength_exact [OF assms] by (rule math_ceil_ge)
  finally show ?thesis by simp
qed

lemma repulsed_not_stronger:
  assumes t: "t_units t \<in> \<nat>" "t_units t \<le> 2 ^ 49" and b: "b = 1 \<or> b = 2" and n: "1 \<le> n"
    and less: "n < getTerritoryDefenseStrength t b"
  shows "getRemainingDefenders (t_type t) (jsub (getTerritoryDefenseStrength t b) n) b \<le> t_units t"
proof -
  let ?m = "defense_factor (t_type t) b" and ?u = "t_units t"
  obtain k where k: "0 < k" "k \<le> 10" "?m = of_int k / 2 ^ 2"
    using defense_factor_cases [OF b] by blast
  have m: "0 < ?m" using k by simp
  have "getTerritoryDefenseStrength t b < ?u * ?m + 1"
    unfolding defense_strength_exact [OF t b] by (rule math_ceil_lt)
  then have "getTerritoryDefenseStrength t b - n \<le> ?u * ?m" using n by linarith
  moreover have "is_double (?u * ?m)"
    unfolding k(3) using k by (intro dyadic_factor_exact [OF t]) simp_all
  ultimately have "jsub (getTerritoryDefenseStrength t b) n \<le> ?u * ?m" by (rule fl_le_double)
  then have "jsub (getTerritoryDefenseStrength t b) n / ?m \<le> ?u"
    using m by (simp add: pos_divide_le_eq)
  moreover have "is_double ?u" using t by (intro Ints_double) (simp_all add: Nats_iff)
  ultimately have "jdiv (jsub (getTerritoryDefenseStrength t b) n) ?m \<le> ?u" by (rule fl_le_double)
  then show ?thesis
    using t(1) by (simp add: getRemainingDefenders_def Nats_iff math_ceil_le_Int flip: defense_factor_def)
qed

lemma repulsed_survives:
  assumes b: "b = 1 \<or> b = 2" and less: "n < getTerritoryDefenseStrength t b"
  shows "0 < getRemainingDefenders (t_type t) (jsub (getTerritoryDefenseStrength t b) n) b"
proof -
  obtain k where k: "0 < k" "defense_factor (t_type t) b = of_int k / 2 ^ 2"
    using defense_factor_cases [OF b] by blast
  have "0 < jdiv (jsub (getTerritoryDefenseStrength t b) n) (defense_factor (t_type t) b)"
    using less k by simp
  then show ?thesis
    unfolding getRemainingDefenders_def defense_factor_def
    using math_ceil_ge order_less_le_trans by blast
qed

text \<open>The defence factor is exact, and dividing by it does not cross a whole number.\<close>

lemma defense_factor_exact: "b = 1 \<or> b = 2 \<Longrightarrow> defense_factor ty b = getTerritoryDefenseMultiplier ty * b"
  using fl_dyadic [of 5 2] fl_dyadic [of 5 1]
  by (auto simp: defense_factor_def getTerritoryDefenseMultiplier_def FORTRESS_DEFENSE_MULTIPLIER_def)

lemma quotient_ceiling:
  fixes n k :: int
  assumes k: "0 < k" "k \<le> 10" and small: "of_int n / (of_int k / 2 ^ 2) \<le> (2 ^ 49 :: num)" and n: "0 \<le> n"
  shows "math_ceil (jdiv (of_int n) (of_int k / 2 ^ 2)) = math_ceil (of_int n / (of_int k / 2 ^ 2))"
proof -
  define q :: num where "q = of_int n / (of_int k / 2 ^ 2)"
  define z where "z = \<lceil>q\<rceil> - 1"
  have q: "of_int z < q" "q \<le> of_int (z + 1)" unfolding z_def by linarith+
  have qk: "q * of_int k = of_int (4 * n)" using k by (simp add: q_def)
  have "of_int (k * z) < (of_int (4 * n) :: num)"
    using mult_strict_right_mono [OF q(1), of "of_int k"] k unfolding qk by (simp add: mult.commute)
  then have "k * z + 1 \<le> 4 * n" by (simp only: of_int_less_iff)
  then have "of_int (k * z + 1) \<le> q * of_int k" unfolding qk by (simp only: of_int_le_iff)
  then have "of_int z + 1 / of_int k \<le> q" using k by (simp add: field_simps)
  moreover have "(1 / 16 :: num) \<le> 1 / of_int k" using k by (intro divide_left_mono) simp_all
  ultimately have gap: "of_int (16 * z + 1) / 2 ^ 4 \<le> q" by simp
  have "of_int z < (2 ^ 49 :: num)" using q(1) small unfolding q_def [symmetric] by linarith
  then have "of_int z < (of_int (2 ^ 49) :: num)" by simp
  then have "z < 2 ^ 49" by (simp only: of_int_less_iff)
  moreover have "0 \<le> q" using n k by (simp add: q_def)
  then have "- 1 \<le> z" unfolding z_def by linarith
  ultimately have z: "\<bar>16 * z + 1\<bar> \<le> 2 ^ 53" "\<bar>z + 1\<bar> \<le> 2 ^ 53" by simp_all
  have "of_int (16 * z + 1) / 2 ^ 4 \<le> fl q" using gap z(1) by (intro fl_ge_double is_double_dyadic)
  then have "of_int z < fl q" by simp
  moreover have "fl q \<le> of_int (z + 1)" using q(2) is_double_dyadic [OF z(2), of 0] by (intro fl_le_double) simp_all
  ultimately have "\<lceil>fl q\<rceil> = z + 1" by linarith
  then have "\<lceil>fl q\<rceil> = \<lceil>q\<rceil>" by (simp add: z_def)
  then show ?thesis unfolding q_def math_ceil_def by (rule arg_cong)
qed

lemma repulse_exact:
  assumes t: "t_units t \<in> \<nat>" "t_units t \<le> 2 ^ 49" and b: "b = 1 \<or> b = 2" and n: "n \<in> \<nat>" "1 \<le> n"
    and less: "n < getTerritoryDefenseStrength t b"
  shows "getRemainingDefenders (t_type t) (jsub (getTerritoryDefenseStrength t b) n) b
    = math_ceil ((getTerritoryDefenseStrength t b - n) / (getTerritoryDefenseMultiplier (t_type t) * b))"
proof -
  let ?m = "defense_factor (t_type t) b" and ?d = "getTerritoryDefenseStrength t b"
  obtain k where k: "0 < k" "k \<le> 10" "?m = of_int k / 2 ^ 2" using defense_factor_cases [OF b] by blast
  have "?d \<in> \<int>" "n \<in> \<int>" using n by (simp_all add: getTerritoryDefenseStrength_def Nats_iff)
  then obtain e where e: "?d - n = of_int e" by (metis Ints_cases Ints_diff)
  have e0: "0 \<le> e" using less e by (metis diff_gt_0_iff_gt less_le of_int_0_le_iff)
  have "?d < t_units t * ?m + 1" unfolding defense_strength_exact [OF t b] by (rule math_ceil_lt)
  then have below: "of_int e \<le> t_units t * ?m" using n e by linarith
  have "0 < ?m" using k by simp
  with below have "of_int e / ?m \<le> t_units t" by (simp only: pos_divide_le_eq)
  then have small: "of_int e / (of_int k / 2 ^ 2) \<le> (2 ^ 49 :: num)" using t(2) unfolding k(3) by (rule order_trans)
  have "is_double (of_int e)"
  proof -
    have "of_int e \<le> t_units t * ?m" by (rule below)
    also have "\<dots> \<le> 2 ^ 49 * 4" by (rule mult_mono) (use t k in \<open>simp_all add: Nats_iff\<close>)
    finally have "of_int e \<le> (of_int (2 ^ 51) :: num)" by simp
    then have "e \<le> 2 ^ 51" by (simp only: of_int_le_iff)
    then show ?thesis using e0 is_double_dyadic [of e 0] by simp
  qed
  then have "jsub ?d n = of_int e" using e by simp
  moreover have "getRemainingDefenders (t_type t) x b = math_ceil (jdiv x ?m)" for x
    by (simp add: getRemainingDefenders_def defense_factor_def)
  ultimately show ?thesis using quotient_ceiling [OF k(1,2) small e0] e
    by (simp only: k(3) defense_factor_exact [OF b, symmetric])
qed

lemma repulse_bounds:
  assumes t: "t_units t \<in> \<nat>" "t_units t \<le> 2 ^ 49" and b: "b = 1 \<or> b = 2" and n: "n \<in> \<nat>" "1 \<le> n"
    and less: "n < getTerritoryDefenseStrength t b"
    and r: "r = getRemainingDefenders (t_type t) (jsub (getTerritoryDefenseStrength t b) n) b"
    and m: "m = getTerritoryDefenseMultiplier (t_type t) * b"
  shows "r \<in> \<nat>" "1 \<le> r" "r \<le> t_units t" "(r - 1) * m < getTerritoryDefenseStrength t b - n"
    "getTerritoryDefenseStrength t b - n \<le> r * m"
proof -
  let ?e = "getTerritoryDefenseStrength t b - n"
  have e: "r = math_ceil (?e / m)" unfolding r m by (rule repulse_exact [OF t b n less])
  have "0 < m" using b defense_multiplier_ge_1 [of "t_type t"] unfolding m by auto
  moreover have "?e / m \<le> r" "r < ?e / m + 1" unfolding e by (rule math_ceil_ge, rule math_ceil_lt)
  ultimately show "?e \<le> r * m" and "(r - 1) * m < ?e"
    using pos_less_divide_eq [of m "r - 1" ?e] by (simp_all add: pos_divide_le_eq)
  have pos: "0 < r" unfolding r using repulsed_survives [OF b less] .
  have "r \<in> \<int>" unfolding e by simp
  then show "1 \<le> r" "r \<in> \<nat>" using pos by (auto simp: Nats_iff elim!: Ints_cases)
  show "r \<le> t_units t" unfolding r using repulsed_not_stronger [OF t b n(2) less] .
qed

section \<open>Properties\<close>

text \<open>
  C9: the four outcomes of an arrival. A friendly army adds exactly its units. Against a hostile one a garrison counts
  for its units times its defence factor, rounded up. The army captures the tower exactly when it outnumbers that
  strength, and then keeps the excess, which is at least one unit. A weaker army leaves the owner in place with a whole
  garrison of at least one unit and never of more units than before: the fewest units that carry the strength
  left by the attack. An exact tie leaves the owner with an empty tower.
\<close>

theorem resolveArrival_outcomes:
  assumes "t_units t \<in> \<nat>" "t_units t \<le> 2 ^ 49" "n \<in> \<nat>" "1 \<le> n" "n \<le> 2 ^ 49" "b = 1 \<or> b = 2"
  shows "let r = resolveArrival t n w b; left = c_remainingUnits r; d = getTerritoryDefenseStrength t b;
      factor = getTerritoryDefenseMultiplier (t_type t) * b in
    (if w = t_owner t then
       c_reinforced r \<and> \<not> c_captured r \<and> c_newOwner r = w \<and> left = t_units t + n
     else t_units t * factor \<le> d \<and> d < t_units t * factor + 1 \<and>
      (if d < n then
         c_captured r \<and> \<not> c_reinforced r \<and> c_newOwner r = w \<and> left = n - d \<and> 1 \<le> left
       else \<not> c_captured r \<and> \<not> c_reinforced r \<and> c_newOwner r = t_owner t
         \<and> (if n = d then left = 0
            else left \<in> \<nat> \<and> 1 \<le> left \<and> left \<le> t_units t \<and> (left - 1) * factor < d - n \<and> d - n \<le> left * factor)))"
proof -
  let ?d = "getTerritoryDefenseStrength t b" and ?m = "getTerritoryDefenseMultiplier (t_type t) * b"
  have d: "?d \<in> \<int>" "0 \<le> ?d" using assms defense_strength_Nats [of t b] by (auto simp: Nats_iff)
  have n0: "n \<in> \<int>" using assms(3) by (simp add: Nats_iff)
  have sum: "fl (t_units t + n) = t_units t + n"
    using assms by (intro fl_Ints_exact) (auto simp: Nats_iff)
  have excess: "fl (n - ?d) = n - ?d \<and> 1 \<le> n - ?d" if "?d < n"
  proof -
    have "n - ?d \<in> \<int>" using n0 d by simp
    with that have "1 \<le> n - ?d" by (auto elim!: Ints_cases)
    then show ?thesis using that assms(5) d n0 by (simp add: fl_Ints_exact)
  qed
  have strength: "t_units t * ?m \<le> ?d" "?d < t_units t * ?m + 1"
    unfolding defense_strength_exact [OF assms(1,2,6)] defense_factor_exact [OF assms(6)]
    by (rule math_ceil_ge, rule math_ceil_lt)
  note repulse = repulse_bounds [OF assms(1,2,6,3,4) _ refl refl]
  show ?thesis
    using assms(4) sum excess strength repulse by (auto simp: resolveArrival_defs)
qed

lemma example_tower_strength: "getTerritoryDefenseStrength (example_tower Neutral 14 Fortress) 1 = 18"
  by code_simp

lemma resolveArrival_outcomes_witness:
  "c_captured (resolveArrival (example_tower Neutral 14 Fortress) 20 Player 1)
   \<and> c_remainingUnits (resolveArrival (example_tower Neutral 14 Fortress) 20 Player 1) = 2
   \<and> c_newOwner (resolveArrival (example_tower Neutral 14 Fortress) 10 Player 1) = Neutral
   \<and> 1 \<le> c_remainingUnits (resolveArrival (example_tower Neutral 14 Fortress) 10 Player 1)
   \<and> 8 \<le> c_remainingUnits (resolveArrival (example_tower Neutral 14 Fortress) 10 Player 1) * (5 / 4)"
  using resolveArrival_outcomes [of "example_tower Neutral 14 Fortress" 20 1 Player]
    resolveArrival_outcomes [of "example_tower Neutral 14 Fortress" 10 1 Player]
  by (simp add: example_tower_strength Let_def)
     (simp add: example_tower_def Nats_iff getTerritoryDefenseMultiplier_def FORTRESS_DEFENSE_MULTIPLIER_def)

end
