(* ===== verification/Generation.thy ===== *)
theory Generation
  imports GameTypes
begin

text \<open>
  \<open>generation.ts\<close>: passive unit production. \<open>tickUnitGeneration\<close> walks over the entries of the
  territories in their order; \<open>tick_entry\<close> is one iteration of its loop, writing the updated
  territory, the updated accumulator and the generated count under the entry's key.
\<close>

definition ACCUMULATOR_SNAP_EPSILON :: num where
  "ACCUMULATOR_SNAP_EPSILON = fl (1 / 10 ^ 9)"

record generation_result =
  gr_territories :: "territory obj"
  gr_accumulators :: "num obj"
  gr_counts :: "num obj"

text \<open>The accumulator after this step's production, snapped to an integer it nearly equals.\<close>

definition snap_accumulator :: "num \<Rightarrow> num" where
  "snap_accumulator rawAcc =
     (let nearestInteger = math_round rawAcc
      in if \<bar>jsub rawAcc nearestInteger\<bar> < ACCUMULATOR_SNAP_EPSILON then nearestInteger else rawAcc)"

definition generation_write ::
  "string \<Rightarrow> territory \<Rightarrow> num \<Rightarrow> num \<Rightarrow> generation_result \<Rightarrow> generation_result" where
  "generation_write i t acc made r =
     r\<lparr>gr_territories := obj_set i t (gr_territories r),
       gr_accumulators := obj_set i acc (gr_accumulators r),
       gr_counts := obj_set i made (gr_counts r)\<rparr>"

definition tick_entry ::
  "num \<Rightarrow> num obj option \<Rightarrow> string \<times> territory \<Rightarrow> generation_result \<Rightarrow> generation_result" where
  "tick_entry deltaSeconds productionMultipliers e r =
     (case e of (i, territory) \<Rightarrow>
       if t_owner territory = Neutral \<or> t_productionRate territory \<le> 0 then
         generation_write i territory 0 0 r
       else if t_maxUnits territory \<le> t_units territory then
         generation_write i territory 0 0 r
       else
         let productionRate = jmul (jmul (t_productionRate territory)
               (getTerritoryProductionMultiplier (t_type territory)))
               (obj_get_or productionMultipliers i 1);
             rawAcc = jadd (obj_get_or (Some (gr_accumulators r)) i 0)
               (jmul productionRate deltaSeconds);
             currentAcc = snap_accumulator rawAcc;
             wholeUnits = math_floor currentAcc
         in if 0 < wholeUnits then
              let allowedIncrease = max 0 (jsub (t_maxUnits territory) (t_units territory));
                  actualIncrease = min wholeUnits allowedIncrease
              in generation_write i
                   (territory\<lparr>t_units := jadd (t_units territory) actualIncrease\<rparr>)
                   (jsub currentAcc wholeUnits) actualIncrease r
            else generation_write i territory currentAcc 0 r)"

definition tickUnitGeneration ::
  "territory obj \<Rightarrow> num obj \<Rightarrow> num \<Rightarrow> num obj option \<Rightarrow> generation_result" where
  "tickUnitGeneration territories accumulators deltaSeconds productionMultipliers =
     fold (tick_entry deltaSeconds productionMultipliers) territories
       \<lparr>gr_territories = [], gr_accumulators = accumulators, gr_counts = []\<rparr>"

section \<open>Facts\<close>

text \<open>
  What one iteration computes for a territory, as a function of the old accumulator: the new unit
  count and the new accumulator.
\<close>

definition production_acc :: "num \<Rightarrow> num obj option \<Rightarrow> string \<Rightarrow> territory \<Rightarrow> num \<Rightarrow> num" where
  "production_acc delta pm i t acc = snap_accumulator (jadd acc
     (jmul (jmul (jmul (t_productionRate t) (getTerritoryProductionMultiplier (t_type t)))
        (obj_get_or pm i 1)) delta))"

definition produces :: "territory \<Rightarrow> bool" where
  "produces t \<longleftrightarrow> t_owner t \<noteq> Neutral \<and> 0 < t_productionRate t \<and> t_units t < t_maxUnits t"

definition produced_units :: "num \<Rightarrow> num obj option \<Rightarrow> string \<Rightarrow> territory \<Rightarrow> num \<Rightarrow> num" where
  "produced_units delta pm i t acc =
     (if produces t \<and> 0 < math_floor (production_acc delta pm i t acc)
      then min (math_floor (production_acc delta pm i t acc)) (max 0 (jsub (t_maxUnits t) (t_units t)))
      else 0)"

definition produced_acc :: "num \<Rightarrow> num obj option \<Rightarrow> string \<Rightarrow> territory \<Rightarrow> num \<Rightarrow> num" where
  "produced_acc delta pm i t acc =
     (let c = production_acc delta pm i t acc
      in if \<not> produces t then 0 else if 0 < math_floor c then jsub c (math_floor c) else c)"

definition produced_territory :: "num \<Rightarrow> num obj option \<Rightarrow> string \<Rightarrow> territory \<Rightarrow> num \<Rightarrow> territory" where
  "produced_territory delta pm i t acc =
     (if produced_units delta pm i t acc = 0 then t
      else t\<lparr>t_units := jadd (t_units t) (produced_units delta pm i t acc)\<rparr>)"

lemma produced_units_nonneg: "0 \<le> produced_units delta pm i t acc"
  by (auto simp: produced_units_def)

lemma room_pos: "produces t \<Longrightarrow> 0 < jsub (t_maxUnits t) (t_units t)"
  by (simp add: produces_def)

lemma tick_entry_eq:
  "tick_entry delta pm (i, t) r =
     (let acc = obj_get_or (Some (gr_accumulators r)) i 0
      in generation_write i (produced_territory delta pm i t acc) (produced_acc delta pm i t acc)
           (produced_units delta pm i t acc) r)"
proof (cases "produces t")
  case False
  then show ?thesis
    by (auto simp: tick_entry_def produced_territory_def produced_acc_def produced_units_def
        produces_def Let_def not_le not_less)
next
  case True
  define acc where "acc = obj_get_or (Some (gr_accumulators r)) i 0"
  define c where "c = production_acc delta pm i t acc"
  have "tick_entry delta pm (i, t) r =
      (if 0 < math_floor c
       then generation_write i (t\<lparr>t_units := jadd (t_units t)
              (min (math_floor c) (max 0 (jsub (t_maxUnits t) (t_units t))))\<rparr>)
            (jsub c (math_floor c)) (min (math_floor c) (max 0 (jsub (t_maxUnits t) (t_units t)))) r
       else generation_write i t c 0 r)"
    using True
    unfolding tick_entry_def prod.case Let_def c_def production_acc_def acc_def produces_def
    by (simp del: fl_pos_iff fl_nonneg_iff add: not_le)
  moreover have "min (math_floor c) (max 0 (jsub (t_maxUnits t) (t_units t))) \<noteq> 0" if "0 < math_floor c"
    using room_pos [OF True] that by (simp add: min_def max_def)
  ultimately show ?thesis
    using True unfolding Let_def produced_territory_def produced_acc_def produced_units_def
    by (simp flip: acc_def c_def)
qed

text \<open>
  The loop as a map: with distinct keys an iteration only ever reads the accumulator that was there at
  the start, and the result lists the same territories in the same order.
\<close>

lemma update_new_key: "k \<notin> set (obj_keys ob) \<Longrightarrow> obj_set k v ob = ob @ [(k, v)]"
  by (induction ob) auto

definition tick_fold_spec ::
  "num \<Rightarrow> num obj option \<Rightarrow> territory obj \<Rightarrow> generation_result \<Rightarrow> generation_result \<Rightarrow> bool" where
  "tick_fold_spec delta pm es r r' \<longleftrightarrow>
     gr_territories r' = gr_territories r
       @ map (\<lambda>(i, t). (i, produced_territory delta pm i t (obj_get_or (Some (gr_accumulators r)) i 0))) es
     \<and> gr_counts r' = gr_counts r
       @ map (\<lambda>(i, t). (i, produced_units delta pm i t (obj_get_or (Some (gr_accumulators r)) i 0))) es
     \<and> (\<forall>i. obj_get (gr_accumulators r') i = (case obj_get es i of None \<Rightarrow> obj_get (gr_accumulators r) i
           | Some t \<Rightarrow> Some (produced_acc delta pm i t (obj_get_or (Some (gr_accumulators r)) i 0))))"

lemma tick_fold:
  assumes "distinct (obj_keys es)" "set (obj_keys es) \<inter> set (obj_keys (gr_territories r)) = {}"
    and "set (obj_keys es) \<inter> set (obj_keys (gr_counts r)) = {}"
  shows "tick_fold_spec delta pm es r (fold (tick_entry delta pm) es r)"
  using assms
proof (induction es arbitrary: r)
  case Nil
  then show ?case by (simp add: tick_fold_spec_def)
next
  case (Cons e es)
  obtain i t where e: "e = (i, t)" by fastforce
  let ?r = "tick_entry delta pm (i, t) r" and ?acc = "obj_get_or (Some (gr_accumulators r)) i 0"
  have r: "gr_territories ?r = gr_territories r @ [(i, produced_territory delta pm i t ?acc)]"
    "gr_counts ?r = gr_counts r @ [(i, produced_units delta pm i t ?acc)]"
    "gr_accumulators ?r = obj_set i (produced_acc delta pm i t ?acc) (gr_accumulators r)"
    using Cons.prems e by (auto simp: tick_entry_eq generation_write_def Let_def update_new_key)
  have new: "i \<notin> set (obj_keys es)" using Cons.prems(1) e by simp
  then have i_es: "obj_get es i = None" by (simp add: map_of_eq_None_iff)
  have same: "obj_get_or (Some (gr_accumulators ?r)) j 0 = obj_get_or (Some (gr_accumulators r)) j 0"
    if "j \<noteq> i" for j
    using that by (simp add: r(3) obj_get_or_def obj_simps)
  have cong: "map (\<lambda>(j, t). (j, f j t (obj_get_or (Some (gr_accumulators ?r)) j 0))) es
    = map (\<lambda>(j, t). (j, f j t (obj_get_or (Some (gr_accumulators r)) j 0))) es"
    for f :: "string \<Rightarrow> territory \<Rightarrow> num \<Rightarrow> 'x"
  proof (intro map_cong refl)
    fix x
    assume "x \<in> set es"
    then have "fst x \<noteq> i" using new by force
    then show "(case x of (j, u) \<Rightarrow> (j, f j u (obj_get_or (Some (gr_accumulators ?r)) j 0)))
      = (case x of (j, u) \<Rightarrow> (j, f j u (obj_get_or (Some (gr_accumulators r)) j 0)))"
      by (cases x) (simp add: same)
  qed
  have IH: "tick_fold_spec delta pm es ?r (fold (tick_entry delta pm) es ?r)"
    using Cons.prems e by (intro Cons.IH) (auto simp: r)
  have acc: "obj_get (gr_accumulators (fold (tick_entry delta pm) es ?r)) j =
      (case obj_get (e # es) j of None \<Rightarrow> obj_get (gr_accumulators r) j
       | Some t \<Rightarrow> Some (produced_acc delta pm j t (obj_get_or (Some (gr_accumulators r)) j 0)))" for j
    using IH i_es same [of j]
    by (cases "j = i") (auto simp: e r(3) obj_simps tick_fold_spec_def split: option.splits)
  show ?case
    unfolding tick_fold_spec_def
    using IH acc cong [of "produced_territory delta pm"] cong [of "produced_units delta pm"]
    by (simp add: tick_fold_spec_def e r)
qed

theorem tickUnitGeneration_eq:
  assumes "distinct (obj_keys ts)"
  shows "gr_territories (tickUnitGeneration ts accs delta pm) =
      obj_map (\<lambda>i t. produced_territory delta pm i t (obj_get_or (Some accs) i 0)) ts"
    and "obj_get (gr_accumulators (tickUnitGeneration ts accs delta pm)) i =
      (case obj_get ts i of None \<Rightarrow> obj_get accs i
       | Some t \<Rightarrow> Some (produced_acc delta pm i t (obj_get_or (Some accs) i 0)))"
    and "gr_counts (tickUnitGeneration ts accs delta pm) =
      obj_map (\<lambda>i t. produced_units delta pm i t (obj_get_or (Some accs) i 0)) ts"
  using tick_fold [of ts "\<lparr>gr_territories = [], gr_accumulators = accs, gr_counts = []\<rparr>" delta pm] assms
  by (simp_all add: tickUnitGeneration_def obj_map_def tick_fold_spec_def split: option.splits)

text \<open>The accumulator stays in the unit interval, so a step never banks a whole unit.\<close>

lemma snap_double: "is_double x \<Longrightarrow> is_double (snap_accumulator x)"
  by (simp add: snap_accumulator_def Let_def)

lemma math_round_nonneg: "0 \<le> x \<Longrightarrow> 0 \<le> math_round x"
  unfolding math_round_def by simp

lemma snap_nonneg: "0 \<le> x \<Longrightarrow> 0 \<le> snap_accumulator x"
  by (simp add: snap_accumulator_def Let_def math_round_nonneg)

lemma production_acc_double: "is_double (production_acc delta pm i t acc)"
  by (simp add: production_acc_def snap_double)

lemma production_acc_nonneg:
  assumes "0 \<le> acc" "0 \<le> delta" "0 < t_productionRate t" "0 \<le> obj_get_or pm i 1"
  shows "0 \<le> production_acc delta pm i t acc"
  using assms production_multiplier_pos [of "t_type t"] unfolding production_acc_def
  by (intro snap_nonneg) (simp add: add_nonneg_nonneg less_imp_le)

lemma produced_acc_bounds:
  assumes "0 \<le> acc" "0 \<le> delta" "0 \<le> obj_get_or pm i 1"
  shows "0 \<le> produced_acc delta pm i t acc" "produced_acc delta pm i t acc < 1"
proof -
  let ?c = "production_acc delta pm i t acc"
  have "produces t \<Longrightarrow> 0 \<le> ?c"
    using assms by (intro production_acc_nonneg) (simp_all add: produces_def)
  moreover have "produces t \<Longrightarrow> jsub ?c (math_floor ?c) = ?c - math_floor ?c"
    using calculation production_acc_double by (simp add: is_double_frac)
  moreover have "\<not> 0 < math_floor ?c \<Longrightarrow> ?c < 1"
    unfolding math_floor_def by linarith
  ultimately show "0 \<le> produced_acc delta pm i t acc" "produced_acc delta pm i t acc < 1"
    using math_floor_le [of ?c] math_floor_gt [of ?c] by (auto simp: produced_acc_def Let_def)
qed

lemma produced_units_le_room: "produced_units delta pm i t acc \<le> max 0 (jsub (t_maxUnits t) (t_units t))"
  by (auto simp: produced_units_def)

lemma produced_units_Nats:
  assumes "t_units t \<in> \<nat>" "t_maxUnits t \<in> \<nat>"
  shows "produced_units delta pm i t acc \<in> \<nat>"
  using assms
  by (auto simp: produced_units_def Nats_iff min_def max_def intro!: fl_Ints)

lemma produced_territory_frame [simp]:
  "t_owner (produced_territory delta pm i t acc) = t_owner t"
  "t_id (produced_territory delta pm i t acc) = t_id t"
  "t_x (produced_territory delta pm i t acc) = t_x t"
  "t_y (produced_territory delta pm i t acc) = t_y t"
  "t_maxUnits (produced_territory delta pm i t acc) = t_maxUnits t"
  "t_productionRate (produced_territory delta pm i t acc) = t_productionRate t"
  "t_type (produced_territory delta pm i t acc) = t_type t"
  "t_tier (produced_territory delta pm i t acc) = t_tier t"
  by (simp_all add: produced_territory_def)

lemma produced_territory_Nats:
  assumes "t_units t \<in> \<nat>" "t_maxUnits t \<in> \<nat>"
  shows "t_units (produced_territory delta pm i t acc) \<in> \<nat>"
  using assms produced_units_Nats [OF assms, of delta pm i acc]
  by (auto simp: produced_territory_def intro!: fl_Nats)

lemma produced_territory_bounds:
  assumes "t_units t \<in> \<nat>" "t_maxUnits t \<in> \<nat>" "t_maxUnits t \<le> 2 ^ 53"
  shows "t_units t \<le> t_units (produced_territory delta pm i t acc)"
    and "t_units (produced_territory delta pm i t acc) \<le> max (t_units t) (t_maxUnits t)"
proof -
  let ?p = "produced_units delta pm i t acc"
  have room: "?p \<le> t_maxUnits t - t_units t" if "produces t"
  proof -
    have "t_maxUnits t - t_units t \<in> \<int>" "\<bar>t_maxUnits t - t_units t\<bar> \<le> 2 ^ 53"
      using assms that by (auto simp: Nats_iff produces_def)
    then have "jsub (t_maxUnits t) (t_units t) = t_maxUnits t - t_units t" by (rule fl_Ints_exact)
    then show ?thesis
      using produced_units_le_room [of delta pm i t acc] that by (simp add: produces_def)
  qed
  have "t_units t \<le> fl (t_units t + ?p) \<and> fl (t_units t + ?p) \<le> max (t_units t) (t_maxUnits t)" if "?p \<noteq> 0"
  proof -
    have p: "produces t" using that by (auto simp: produced_units_def split: if_splits)
    then have u: "t_units t < t_maxUnits t" by (simp add: produces_def)
    have d: "is_double (t_units t)" "is_double (t_maxUnits t)"
      using assms u by (auto intro!: Ints_double simp: Nats_iff)
    have "t_units t \<le> fl (t_units t + ?p)" "fl (t_units t + ?p) \<le> t_maxUnits t"
      using produced_units_nonneg [of delta pm i t acc] room [OF p] d
      by (auto intro!: fl_ge_double fl_le_double)
    then show ?thesis by simp
  qed
  then show "t_units t \<le> t_units (produced_territory delta pm i t acc)"
    and "t_units (produced_territory delta pm i t acc) \<le> max (t_units t) (t_maxUnits t)"
    by (auto simp: produced_territory_def)
qed

section \<open>Properties\<close>

text \<open>
  C10: production. In a step, whatever the multipliers, a territory keeps its owner and every static
  attribute; its units never decrease, never pass the larger of their old value and the capacity, and
  stay whole; the count reported is exactly the increase; a neutral or full tower produces nothing;
  and the accumulator left behind is a fraction of a unit in \<open>[0, 1)\<close>.
\<close>

theorem tickUnitGeneration_correct:
  assumes "distinct (obj_keys ts)" "obj_get ts i = Some t"
    and "t_units t \<in> \<nat>" "t_maxUnits t \<in> \<nat>" "t_maxUnits t \<le> 2 ^ 53" "t_units t \<le> 2 ^ 53"
    and "0 \<le> obj_get_or (Some accs) i 0" "0 \<le> delta" "0 \<le> obj_get_or pm i 1"
  shows "\<exists>u n acc. obj_get (gr_territories (tickUnitGeneration ts accs delta pm)) i = Some (t\<lparr>t_units := u\<rparr>)
    \<and> obj_get (gr_counts (tickUnitGeneration ts accs delta pm)) i = Some n
    \<and> obj_get (gr_accumulators (tickUnitGeneration ts accs delta pm)) i = Some acc
    \<and> u = t_units t + n \<and> u \<in> \<nat> \<and> 0 \<le> n \<and> u \<le> max (t_units t) (t_maxUnits t)
    \<and> (if t_owner t = Neutral \<or> t_maxUnits t \<le> t_units t then n = 0 \<and> acc = 0 else 0 \<le> acc \<and> acc < 1)"
proof -
  let ?a = "obj_get_or (Some accs) i 0"
  let ?t = "produced_territory delta pm i t ?a" and ?n = "produced_units delta pm i t ?a"
  have n: "?n \<in> \<nat>" "0 \<le> ?n" using assms by (simp_all add: produced_units_Nats produced_units_nonneg)
  have bounds: "t_units t \<le> t_units ?t" "t_units ?t \<le> max (t_units t) (t_maxUnits t)"
    using produced_territory_bounds [OF assms(3-5)] by simp_all
  have room: "t_units t + ?n \<le> 2 ^ 53" if "?n \<noteq> 0"
  proof -
    have p: "produces t" using that by (auto simp: produced_units_def split: if_splits)
    have "t_maxUnits t - t_units t \<in> \<int>" "\<bar>t_maxUnits t - t_units t\<bar> \<le> 2 ^ 53"
      using assms p by (auto simp: Nats_iff produces_def)
    then have "jsub (t_maxUnits t) (t_units t) = t_maxUnits t - t_units t" by (rule fl_Ints_exact)
    then have "?n \<le> t_maxUnits t - t_units t"
      using produced_units_le_room [of delta pm i t ?a] p by (simp add: produces_def)
    then show ?thesis using assms(5) by linarith
  qed
  have "fl (t_units t + ?n) = t_units t + ?n" if "?n \<noteq> 0"
    using that room n assms(3) by (intro fl_Ints_exact) (auto simp: Nats_iff)
  then have u: "t_units ?t = t_units t + ?n" "?t = t\<lparr>t_units := t_units t + ?n\<rparr>"
    by (simp_all add: produced_territory_def)
  have acc: "0 \<le> produced_acc delta pm i t ?a" "produced_acc delta pm i t ?a < 1"
    using produced_acc_bounds assms by simp_all
  have none: "?n = 0 \<and> produced_acc delta pm i t ?a = 0" if "t_owner t = Neutral \<or> t_maxUnits t \<le> t_units t"
    using that by (auto simp: produced_units_def produced_acc_def produces_def Let_def)
  have "t_units t + ?n \<in> \<nat>" using n assms(3) by (simp add: Nats_iff)
  then show ?thesis
    using bounds u acc none n assms(2)
    by (intro exI [of _ "t_units t + ?n"] exI [of _ ?n] exI [of _ "produced_acc delta pm i t ?a"])
      (simp add: tickUnitGeneration_eq [OF assms(1)] obj_simps)
qed

lemma tickUnitGeneration_correct_witness:
  "\<exists>u n acc. obj_get (gr_territories
        (tickUnitGeneration [(''n_center'', example_tower Player 14 Fortress)] [] 1 None)) ''n_center''
      = Some (example_tower Player 14 Fortress\<lparr>t_units := u\<rparr>)
    \<and> u = 14 + n \<and> u \<in> \<nat> \<and> 0 \<le> n \<and> u \<le> 55 \<and> 0 \<le> acc \<and> acc < (1 :: num)"
  using tickUnitGeneration_correct [of "[(''n_center'', example_tower Player 14 Fortress)]" "''n_center''"
      "example_tower Player 14 Fortress" "[]" 1 None]
  by (simp add: example_tower_def obj_get_or_def Nats_iff) blast

end
