(* ===== verification/Simulation.thy ===== *)
theory Simulation
  imports Dispatch Combat Generation
begin

text \<open>
  \<open>simulation.ts\<close>: the initial state of a match and one step of its simulation. The step's loop over the
  armies carries the values the code mutates (\<open>step_work\<close>); the army loop, production and the verdict are
  composed as in the source.
\<close>

section \<open>The initial state\<close>

definition DEFAULT_MATCH_TIME_LIMIT :: num where "DEFAULT_MATCH_TIME_LIMIT = 90"

text \<open>\<open>InitialGameOptions\<close>; a plain number stands for the options that give only the time limit.\<close>

record initial_options =
  io_rules :: "num option"
  io_timeLimit :: "num option"
  io_playerModifiers :: "player_modifiers option"
  io_enemyModifiers :: "player_modifiers option"
  io_battlefieldId :: "string option"

definition time_limit_options :: "num \<Rightarrow> initial_options" where
  "time_limit_options n = \<lparr>io_rules = None, io_timeLimit = Some n, io_playerModifiers = None,
     io_enemyModifiers = None, io_battlefieldId = None\<rparr>"

definition obj_update :: "string \<Rightarrow> ('v \<Rightarrow> 'v) \<Rightarrow> 'v obj \<Rightarrow> 'v obj result" where
  "obj_update i f ob = rbind (defined_or_type_error (obj_get ob i)) (\<lambda>v. Inr (obj_set i (f v) ob))"

definition add_base_bonus :: "string \<Rightarrow> territory obj \<Rightarrow> territory obj result" where
  "add_base_bonus i = obj_update i (\<lambda>t. t\<lparr>t_units := jadd (t_units t) tactical_baseBonus\<rparr>)"

definition open_support :: "string \<Rightarrow> team \<Rightarrow> player_modifiers option \<Rightarrow> territory obj \<Rightarrow> territory obj result" where
  "open_support i w pm = obj_update i (\<lambda>t. t\<lparr>t_owner := w, t_units := tactical_supportUnits,
     t_productionRate := jmul (t_productionRate t)
       (case pm of Some m \<Rightarrow> pm_productionRateMultiplier m | None \<Rightarrow> 1)\<rparr>)"

definition tactical_opening ::
  "battlefield_id \<Rightarrow> player_modifiers option \<Rightarrow> player_modifiers option \<Rightarrow> territory obj \<Rightarrow> territory obj result" where
  "tactical_opening i pm em ts =
     (if i = ''quad_citadel'' then Inl (Thrown ''tactical_rules_require_1v1'')
      else rbind (add_base_bonus ''p_base'' ts) (\<lambda>ts. rbind (add_base_bonus ''e_base'' ts) (\<lambda>ts.
        rbind (defined_or_type_error (TACTICAL_SUPPORTS i)) (\<lambda>(p, e).
          rbind (open_support p Player pm ts) (open_support e Enemy em)))))"

definition createInitialGameState :: "initial_options \<Rightarrow> game_state result" where
  "createInitialGameState opts =
     (let timeLimit = (case io_timeLimit opts of Some n \<Rightarrow> n | None \<Rightarrow> DEFAULT_MATCH_TIME_LIMIT);
          battlefieldId = normalizeBattlefieldId (io_battlefieldId opts)
      in rbind (validateGameplayRulesVersion (case io_rules opts of Some v \<Rightarrow> v | None \<Rightarrow> GAMEPLAY_RULES_VERSION))
        (\<lambda>version.
          let territories = createDefaultTerritories (io_playerModifiers opts) (io_enemyModifiers opts) (Some battlefieldId)
          in rbind (if usesTacticalRules (Some version)
                then tactical_opening battlefieldId (io_playerModifiers opts) (io_enemyModifiers opts) territories
                else Inr territories)
            (\<lambda>ts. Inr \<lparr>g_rules = Some version, g_readyAtMs = None, g_shieldedUntilMs = None,
               g_playerAbilityUsed = False, g_enemyAbilityUsed = False, g_battlefieldId = Some battlefieldId,
               g_territories = ts, g_armies = [], g_status = Playing, g_elapsed = 0, g_timeLimit = timeLimit,
               g_stats = empty_stats\<rparr>)))"

section \<open>One step\<close>

record step_result =
  sr_state :: game_state
  sr_accumulators :: "num obj"
  sr_arrivals :: "combat_result list"

record step_work =
  sw_territories :: "territory obj"
  sw_remaining :: "army list"
  sw_arrivals :: "combat_result list"
  sw_stats :: match_stats
  sw_ready :: "num obj option"
  sw_gen :: "num obj"

definition step_elapsed :: "game_state \<Rightarrow> num \<Rightarrow> num" where
  "step_elapsed s deltaSeconds =
     (let elapsed = jadd (g_elapsed s) deltaSeconds
      in if hasCaptureRecovery (g_rules s) then jdiv (math_round (jmul elapsed (10 ^ 9))) (10 ^ 9) else elapsed)"

definition step_now :: "game_state \<Rightarrow> num \<Rightarrow> num" where
  "step_now s deltaSeconds = math_round (jmul (step_elapsed s deltaSeconds) 1000)"

text \<open>The army after this step and its progress: marched over its waypoints under the tactical rules.\<close>

definition march :: "hypot_fn \<Rightarrow> game_state \<Rightarrow> territory obj \<Rightarrow> num \<Rightarrow> army \<Rightarrow> (army \<times> num) result" where
  "march hyp s territories deltaSeconds m =
     (if usesTacticalRules (g_rules s) then
        rbind (advanceRoutedArmy hyp m territories deltaSeconds) (\<lambda>(moved, arrived).
          Inr (moved, if arrived then 1 else a_progress moved))
      else Inr (m, jadd (a_progress m) (jmul (a_speed m) deltaSeconds)))"

definition count_capture :: "team \<Rightarrow> match_stats \<Rightarrow> match_stats" where
  "count_capture w st = (case w of
       Player \<Rightarrow> st\<lparr>ms_capturedByPlayer := jadd (ms_capturedByPlayer st) 1\<rparr>
     | Enemy \<Rightarrow> st\<lparr>ms_capturedByEnemy := jadd (ms_capturedByEnemy st) 1\<rparr>
     | Neutral \<Rightarrow> st)"

text \<open>A recapture keeps a recovery that is still running; every capture empties the production accumulator.\<close>

definition start_recovery :: "num \<Rightarrow> string \<Rightarrow> num obj \<Rightarrow> num obj" where
  "start_recovery nowMs i ready =
     (if obj_get_or (Some ready) i 0 \<le> nowMs then obj_set i (jadd nowMs CAPTURE_RECOVERY_MS) ready else ready)"

definition route_interrupted :: "army \<Rightarrow> bool" where
  "route_interrupted m = (case a_routeIds m of Some ids \<Rightarrow> ids = [] \<or> a_targetId m \<noteq> last ids | None \<Rightarrow> False)"

definition arrive :: "game_state \<Rightarrow> num \<Rightarrow> army \<Rightarrow> territory \<Rightarrow> step_work \<Rightarrow> step_work" where
  "arrive s nowMs m target w =
     (let shielded = obj_get_or (g_shieldedUntilMs s) (t_id target) 0 > nowMs;
          r = resolveArrival target (a_units m) (a_owner m)
                (if shielded then ability_shieldDefenseMultiplier else 1);
          combat = (if route_interrupted m then r\<lparr>c_routeInterrupted := True\<rparr> else r);
          w1 = w\<lparr>sw_territories := obj_set (a_targetId m)
                   (target\<lparr>t_owner := c_newOwner combat, t_units := c_remainingUnits combat\<rparr>) (sw_territories w),
                 sw_arrivals := sw_arrivals w @ [combat]\<rparr>
      in if c_captured combat then
           w1\<lparr>sw_ready := map_option (start_recovery nowMs (t_id target)) (sw_ready w1),
              sw_gen := (if sw_ready w1 = None then sw_gen w1 else obj_set (t_id target) 0 (sw_gen w1)),
              sw_stats := count_capture (c_newOwner combat) (sw_stats w1)\<rparr>
         else w1)"

definition move_army ::
  "hypot_fn \<Rightarrow> game_state \<Rightarrow> num \<Rightarrow> num \<Rightarrow> army \<Rightarrow> step_work \<Rightarrow> step_work result" where
  "move_army hyp s nowMs deltaSeconds m w =
     rbind (march hyp s (sw_territories w) deltaSeconds m) (\<lambda>(moved, nextProgress).
       if 1 \<le> nextProgress then
         Inr (case obj_get (sw_territories w) (a_targetId moved) of
                None \<Rightarrow> w
              | Some target \<Rightarrow> arrive s nowMs moved target w)
       else Inr (w\<lparr>sw_remaining := sw_remaining w @ [moved\<lparr>a_progress := nextProgress\<rparr>]\<rparr>))"

definition owned_towers :: "team \<Rightarrow> territory obj \<Rightarrow> territory list" where
  "owned_towers w ts = filter (\<lambda>t. t_owner t = w) (obj_values ts)"

definition owned_armies :: "team \<Rightarrow> army list \<Rightarrow> army list" where
  "owned_armies w ms = filter (\<lambda>m. a_owner m = w) ms"

definition total_units :: "territory list \<Rightarrow> num" where
  "total_units ts = fold (\<lambda>t acc. jadd acc (t_units t)) ts 0"

definition match_verdict :: "territory obj \<Rightarrow> army list \<Rightarrow> num \<Rightarrow> num \<Rightarrow> match_status" where
  "match_verdict ts remaining newElapsed limit =
     (let playerTerritories = owned_towers Player ts; enemyTerritories = owned_towers Enemy ts
      in if enemyTerritories = [] \<and> owned_armies Enemy remaining = [] then Victory
         else if playerTerritories = [] \<and> owned_armies Player remaining = [] then Defeat
         else if limit \<le> newElapsed then
           if length enemyTerritories < length playerTerritories then Victory
           else if length playerTerritories < length enemyTerritories then Defeat
           else if total_units enemyTerritories < total_units playerTerritories then Victory
           else if total_units playerTerritories < total_units enemyTerritories then Defeat
           else Draw
         else Playing)"

definition step_production :: "num \<Rightarrow> num \<Rightarrow> step_work \<Rightarrow> generation_result" where
  "step_production newElapsed deltaSeconds w =
     tickUnitGeneration (sw_territories w) (sw_gen w) deltaSeconds
       (map_option (obj_map (\<lambda>i ready. getCaptureProductionMultiplier newElapsed ready)) (sw_ready w))"

definition step_start :: "game_state \<Rightarrow> num obj \<Rightarrow> num \<Rightarrow> step_work" where
  "step_start s accumulators newElapsed =
     \<lparr>sw_territories = g_territories s, sw_remaining = [], sw_arrivals = [],
      sw_stats = (g_stats s)\<lparr>ms_duration := newElapsed\<rparr>,
      sw_ready = (if hasCaptureRecovery (g_rules s)
                  then Some (case g_readyAtMs s of Some r \<Rightarrow> r | None \<Rightarrow> []) else None),
      sw_gen = accumulators\<rparr>"

definition step_finish :: "game_state \<Rightarrow> num \<Rightarrow> num \<Rightarrow> step_work \<Rightarrow> step_result" where
  "step_finish s newElapsed deltaSeconds w =
     (let gen = step_production newElapsed deltaSeconds w
      in \<lparr>sr_state = s\<lparr>g_territories := gr_territories gen, g_armies := sw_remaining w,
            g_status := match_verdict (gr_territories gen) (sw_remaining w) newElapsed (g_timeLimit s),
            g_elapsed := newElapsed, g_stats := sw_stats w,
            g_readyAtMs := (case sw_ready w of Some (r # rs) \<Rightarrow> Some (r # rs) | _ \<Rightarrow> None)\<rparr>,
          sr_accumulators = gr_accumulators gen, sr_arrivals = sw_arrivals w\<rparr>)"

definition stepSimulation :: "hypot_fn \<Rightarrow> game_state \<Rightarrow> num obj \<Rightarrow> num \<Rightarrow> step_result result" where
  "stepSimulation hyp s accumulators deltaSeconds =
     (if g_status s \<noteq> Playing then Inr \<lparr>sr_state = s, sr_accumulators = accumulators, sr_arrivals = []\<rparr>
      else let newElapsed = step_elapsed s deltaSeconds; nowMs = step_now s deltaSeconds
        in rbind (fold_res (move_army hyp s nowMs deltaSeconds) (g_armies s) (step_start s accumulators newElapsed))
          (\<lambda>w. Inr (step_finish s newElapsed deltaSeconds w)))"

end
