(* ===== verification/SimulationFacts.thy ===== *)
theory SimulationFacts
  imports Simulation
begin

text \<open>
  The invariant of a running match, that every step keeps it and never throws, the verdict, the clock, and
  the end of every match.
\<close>

section \<open>Well-formed matches\<close>

definition wf_tower :: "string \<Rightarrow> territory \<Rightarrow> bool" where
  "wf_tower i t \<longleftrightarrow> t_id t = i \<and> t_units t \<in> \<nat> \<and> t_maxUnits t \<in> \<nat>"

definition wf_board :: "territory obj \<Rightarrow> bool" where
  "wf_board ts \<longleftrightarrow> distinct (obj_keys ts) \<and> (\<forall>i t. obj_get ts i = Some t \<longrightarrow> wf_tower i t)"

text \<open>An army on the march: a whole number of units of one side, on a route through towers of the board.\<close>

definition wf_army :: "string list \<Rightarrow> army \<Rightarrow> bool" where
  "wf_army ids m \<longleftrightarrow> a_units m \<in> \<nat> \<and> a_owner m \<noteq> Neutral \<and> 0 \<le> a_progress m
     \<and> 0 < a_speed m \<and> a_speed m \<le> 1 \<and> (\<forall>r. a_routeIds m = Some r \<longrightarrow> set r \<subseteq> set ids)"

definition wf_accumulators :: "num obj \<Rightarrow> bool" where
  "wf_accumulators accs \<longleftrightarrow> (\<forall>i. 0 \<le> obj_get_or (Some accs) i 0)"

definition wf_state :: "game_state \<Rightarrow> num obj \<Rightarrow> bool" where
  "wf_state s accs \<longleftrightarrow> wf_board (g_territories s) \<and> wf_accumulators accs
     \<and> (\<forall>m\<in>set (g_armies s). wf_army (obj_keys (g_territories s)) m \<and> a_progress m < 1)"

lemma wf_board_set [wf_intros]: "wf_board ts \<Longrightarrow> wf_tower i t \<Longrightarrow> wf_board (obj_set i t ts)"
  by (auto simp: wf_board_def obj_get_set)

lemma wf_boardD: "wf_board ts \<Longrightarrow> obj_get ts i = Some t \<Longrightarrow> wf_tower i t"
  by (simp add: wf_board_def)

lemma wf_accumulators_set [wf_intros]: "wf_accumulators accs \<Longrightarrow> 0 \<le> v \<Longrightarrow> wf_accumulators (obj_set i v accs)"
  by (auto simp: wf_accumulators_def obj_get_or_def obj_get_set)

section \<open>Marching\<close>

definition same_army :: "army \<Rightarrow> army \<Rightarrow> bool" where
  "same_army m m' \<longleftrightarrow> a_id m' = a_id m \<and> a_owner m' = a_owner m \<and> a_units m' = a_units m
     \<and> a_sourceId m' = a_sourceId m \<and> a_routeIds m' = a_routeIds m"

lemma advance_loop_ok:
  assumes "wf_army (obj_keys ts) m" "0 \<le> delta"
  shows "\<exists>m' b. advance_loop hyp ts m delta = Inr (m', b) \<and> same_army m m' \<and> wf_army (obj_keys ts) m'
    \<and> (\<not> b \<longrightarrow> a_progress m' < 1)"
  using assms
proof (induction hyp ts m delta rule: advance_loop.induct)
  case (1 hyp ts m delta)
  let ?p = "jadd (a_progress m) (jmul (a_speed m) delta)"
  have p: "0 \<le> ?p" using "1.prems" by (auto simp: wf_army_def)
  have stay: "same_army m (m\<lparr>a_progress := v\<rparr>)" for v by (simp add: same_army_def)
  have moved: "wf_army (obj_keys ts) (m\<lparr>a_progress := v\<rparr>)" if "0 \<le> v" for v
    using "1.prems" that by (simp add: wf_army_def)
  show ?case
  proof (cases "?p < 1")
    case True
    then have "advance_loop hyp ts m delta = Inr (m\<lparr>a_progress := ?p\<rparr>, False)"
      by (simp add: advance_loop.simps [of hyp ts m] Let_def)
    then show ?thesis using True p stay moved [OF p] by (intro exI conjI) auto
  next
    case False
    let ?next = "Suc (army_leg m)"
    show ?thesis
    proof (cases "\<exists>waypoint ids. obj_get ts (a_targetId m) = Some waypoint \<and> a_routeIds m = Some ids
        \<and> t_owner waypoint = a_owner m \<and> Suc ?next < length ids")
      case True
      then obtain waypoint ids where w: "obj_get ts (a_targetId m) = Some waypoint" "a_routeIds m = Some ids"
        "t_owner waypoint = a_owner m" "Suc ?next < length ids" by blast
      have "ids ! Suc ?next \<in> set (obj_keys ts)" using w(2,4) "1.prems"(1) nth_mem by (force simp: wf_army_def)
      then obtain to where to: "obj_get ts (ids ! Suc ?next) = Some to" using obj_get_key by (metis option.exhaust)
      let ?m = "setArmyLeg hyp m waypoint to ?next" and ?rest = "jdiv (jsub ?p 1) (a_speed m)"
      have step: "advance_loop hyp ts m delta = advance_loop hyp ts ?m ?rest"
        using False w to by (simp add: advance_loop.simps [of hyp ts m] Let_def)
      have "wf_army (obj_keys ts) ?m" using "1.prems"(1) setArmyLeg_speed by (simp add: wf_army_def)
      moreover have "0 \<le> ?rest" using False "1.prems"(1) by (simp add: wf_army_def)
      ultimately have "\<exists>m' b. advance_loop hyp ts ?m ?rest = Inr (m', b) \<and> same_army ?m m' \<and> wf_army (obj_keys ts) m'
          \<and> (\<not> b \<longrightarrow> a_progress m' < 1)"
        using "1.IH" [OF refl False refl refl w(1,2)] w(3,4) to by simp
      then show ?thesis unfolding step by (simp add: same_army_def)
    next
      case none: False
      then have "advance_loop hyp ts m delta = Inr (m\<lparr>a_progress := 1\<rparr>, True)"
        using False by (auto simp: advance_loop.simps [of hyp ts m] Let_def split: option.splits)
      then show ?thesis using stay moved [of 1] by (intro exI conjI) auto
    qed
  qed
qed

lemma march_ok:
  assumes "wf_army (obj_keys ts) m" "a_progress m < 1" "0 \<le> delta"
  shows "\<exists>m' p. march hyp s ts delta m = Inr (m', p) \<and> same_army m m' \<and> wf_army (obj_keys ts) m' \<and> 0 \<le> p"
proof (cases "usesTacticalRules (g_rules s)")
  case True
  obtain m' b where "advance_loop hyp ts m delta = Inr (m', b)" "same_army m m'" "wf_army (obj_keys ts) m'"
    using advance_loop_ok [OF assms(1,3)] by blast
  moreover from this have "0 \<le> a_progress m'" by (simp add: wf_army_def)
  ultimately show ?thesis using True by (simp add: march_def advanceRoutedArmy_def)
next
  case False
  then show ?thesis using assms by (simp add: march_def same_army_def wf_army_def)
qed

section \<open>The army loop\<close>

definition work_ok :: "string list \<Rightarrow> step_work \<Rightarrow> bool" where
  "work_ok ids w \<longleftrightarrow> wf_board (sw_territories w) \<and> obj_keys (sw_territories w) = ids
     \<and> (\<forall>m\<in>set (sw_remaining w). wf_army ids m \<and> a_progress m < 1) \<and> wf_accumulators (sw_gen w)"

lemma arrive_ok:
  assumes w: "work_ok ids w" and target: "obj_get (sw_territories w) (a_targetId m) = Some target"
    and m: "a_units m \<in> \<nat>"
  shows "work_ok ids (arrive s nowMs m target w)"
proof -
  have t: "wf_tower (a_targetId m) target" using w target wf_boardD by (auto simp: work_ok_def)
  let ?b = "if nowMs < obj_get_or (g_shieldedUntilMs s) (t_id target) 0 then ability_shieldDefenseMultiplier else 1"
  let ?r = "resolveArrival target (a_units m) (a_owner m) ?b"
  have "c_remainingUnits ?r \<in> \<nat>"
    using t m by (intro resolveArrival_Nats) (auto simp: wf_tower_def ability_shieldDefenseMultiplier_def)
  then have "wf_tower (a_targetId m) (target\<lparr>t_owner := c_newOwner ?r, t_units := c_remainingUnits ?r\<rparr>)"
    using t by (simp add: wf_tower_def)
  then have "wf_board (obj_set (a_targetId m) (target\<lparr>t_owner := c_newOwner ?r, t_units := c_remainingUnits ?r\<rparr>)
      (sw_territories w))"
    using w by (auto simp: work_ok_def intro: wf_intros)
  moreover have "obj_keys (obj_set (a_targetId m) v (sw_territories w)) = ids" for v
    using w obj_get_Some_key [OF target] unfolding work_ok_def obj_keys_set by simp
  moreover have "wf_accumulators (obj_set i 0 (sw_gen w))" for i
    using w by (auto simp: work_ok_def intro: wf_intros)
  ultimately show ?thesis using w by (simp add: arrive_def work_ok_def Let_def)
qed

lemma move_army_ok:
  assumes w: "work_ok ids w" and m: "wf_army ids m" "a_progress m < 1" and delta: "0 \<le> delta"
  shows "\<exists>w'. move_army hyp s nowMs delta m w = Inr w' \<and> work_ok ids w'"
proof -
  have keys: "obj_keys (sw_territories w) = ids" using w by (simp add: work_ok_def)
  obtain m' p where march: "march hyp s (sw_territories w) delta m = Inr (m', p)" "wf_army ids m'" "0 \<le> p"
    using march_ok [OF m(1) [folded keys] m(2) delta] keys by blast
  show ?thesis
  proof (cases "1 \<le> p")
    case True
    then show ?thesis using march w arrive_ok [OF w]
      by (auto simp: move_army_def wf_army_def split: option.splits)
  next
    case False
    then show ?thesis using march w by (simp add: move_army_def work_ok_def wf_army_def)
  qed
qed

lemma step_start_ok: "wf_state s accs \<Longrightarrow> work_ok (obj_keys (g_territories s)) (step_start s accs e)"
  by (simp add: wf_state_def work_ok_def step_start_def)

lemma step_work_ok:
  assumes "wf_state s accs" "0 \<le> delta"
  shows "\<exists>w. fold_res (move_army hyp s nowMs delta) (g_armies s) (step_start s accs e) = Inr w
    \<and> work_ok (obj_keys (g_territories s)) w"
  using step_start_ok [OF assms(1)]
  by (rule fold_res_total) (use assms in \<open>auto simp: wf_state_def intro!: move_army_ok\<close>)

section \<open>Production and the whole step\<close>

lemma recovery_multipliers_nonneg:
  "0 \<le> obj_get_or (map_option (obj_map (\<lambda>i ready. getCaptureProductionMultiplier e ready)) r) i 1"
proof -
  have "0 \<le> getCaptureProductionMultiplier e v" for v
    by (rule order_trans [OF _ capture_multiplier_bounds(1)]) simp
  then show ?thesis by (auto simp: obj_get_or_def obj_get_map split: option.splits)
qed

lemma step_production_ok:
  assumes "work_ok ids w" "0 \<le> delta"
  shows "wf_board (gr_territories (step_production e delta w))"
    and "obj_keys (gr_territories (step_production e delta w)) = ids"
    and "wf_accumulators (gr_accumulators (step_production e delta w))"
proof -
  have d: "distinct (obj_keys (sw_territories w))" using assms unfolding work_ok_def wf_board_def by blast
  have acc: "0 \<le> obj_get_or (Some (sw_gen w)) i 0" for i using assms by (simp add: work_ok_def wf_accumulators_def)
  note eq = tickUnitGeneration_eq [OF d]
  show "obj_keys (gr_territories (step_production e delta w)) = ids"
    using assms by (simp add: step_production_def eq obj_map_keys work_ok_def)
  have "wf_tower i (produced_territory delta pm i t a)" if "obj_get (sw_territories w) i = Some t" for i t pm a
    using wf_boardD [OF _ that] assms(1) by (auto simp: work_ok_def wf_tower_def produced_territory_Nats)
  then show "wf_board (gr_territories (step_production e delta w))"
    using d by (auto simp: step_production_def eq wf_board_def obj_simps)
  show "wf_accumulators (gr_accumulators (step_production e delta w))"
    unfolding wf_accumulators_def step_production_def
  proof
    fix i
    let ?pm = "map_option (obj_map (\<lambda>i. getCaptureProductionMultiplier e)) (sw_ready w)"
    have "0 \<le> produced_acc delta ?pm i t (obj_get_or (Some (sw_gen w)) i 0)" for t
      by (rule produced_acc_bounds(1) [OF acc assms(2) recovery_multipliers_nonneg])
    then show "0 \<le> obj_get_or (Some (gr_accumulators (tickUnitGeneration (sw_territories w) (sw_gen w) delta ?pm))) i 0"
      using acc [of i] eq(2) [of "sw_gen w" delta ?pm i]
      by (cases "obj_get (sw_territories w) i") (simp_all add: obj_get_or_def)
  qed
qed

lemma stepSimulation_Inr:
  assumes "wf_state s accs" "0 \<le> delta" "g_status s = Playing"
  obtains w where "stepSimulation hyp s accs delta = Inr (step_finish s (step_elapsed s delta) delta w)"
    and "work_ok (obj_keys (g_territories s)) w"
    and "fold_res (move_army hyp s (step_now s delta) delta) (g_armies s) (step_start s accs (step_elapsed s delta)) = Inr w"
  using step_work_ok [OF assms(1,2), of hyp "step_now s delta" "step_elapsed s delta"] assms(3)
  by (auto simp: stepSimulation_def Let_def)

lemma step_wf:
  assumes "wf_state s accs" "0 \<le> delta"
  shows "\<exists>r. stepSimulation hyp s accs delta = Inr r \<and> wf_state (sr_state r) (sr_accumulators r)
    \<and> obj_keys (g_territories (sr_state r)) = obj_keys (g_territories s)"
proof (cases "g_status s = Playing")
  case True
  then obtain w where step: "stepSimulation hyp s accs delta = Inr (step_finish s (step_elapsed s delta) delta w)"
    and w: "work_ok (obj_keys (g_territories s)) w"
    using stepSimulation_Inr [OF assms True] by blast
  note gen = step_production_ok [OF w assms(2)]
  have "\<forall>m\<in>set (sw_remaining w). wf_army (obj_keys (g_territories s)) m \<and> a_progress m < 1"
    using w by (simp add: work_ok_def)
  then show ?thesis
    using step gen by (simp add: step_finish_def wf_state_def Let_def)
next
  case False
  then show ?thesis using assms by (simp add: stepSimulation_def)
qed

section \<open>Initial states\<close>

lemma getBattlefield_units:
  "t \<in> set (b_territories (getBattlefield v)) \<Longrightarrow> t_units t \<in> \<nat> \<and> t_maxUnits t \<in> \<nat>"
  using getBattlefield_shipped [of v]
  by (auto simp: BATTLEFIELDS_def crown_cross_def twin_passes_def royal_ring_def quad_citadel_def tower_def)

definition modifiers_ok :: "player_modifiers option \<Rightarrow> bool" where
  "modifiers_ok pm \<longleftrightarrow> (\<forall>m. pm = Some m \<longrightarrow> pm_startingUnits m \<in> \<nat>)"

lemma default_territories_wf:
  assumes "modifiers_ok pm" "modifiers_ok em"
  shows "wf_board (createDefaultTerritories pm em bid)"
proof -
  let ?d = "\<lambda>mo. case mo of Some m \<Rightarrow> m | None \<Rightarrow> default_modifiers"
  have units: "pm_startingUnits (?d mo) \<in> \<nat>" if "modifiers_ok mo" for mo
    using that by (auto simp: modifiers_ok_def default_modifiers_def split: option.splits)
  have "wf_tower (t_id t) (default_territory (?d pm) (?d em) t)"
    if "t \<in> set (b_territories (getBattlefield v))" for t v
    using getBattlefield_units [OF that] units [OF assms(1)] units [OF assms(2)]
    by (simp add: wf_tower_def default_territory_def Let_def)
  then show ?thesis
    by (auto simp: wf_board_def createDefaultTerritories_eq getBattlefield_distinct comp_def dest!: map_of_SomeD)
qed

lemma obj_update_ok:
  assumes "i \<in> set (obj_keys ts)" "wf_board ts" "\<And>t. wf_tower i t \<Longrightarrow> wf_tower i (f t)"
  shows "\<exists>ts'. obj_update i f ts = Inr ts' \<and> wf_board ts' \<and> obj_keys ts' = obj_keys ts"
proof -
  obtain t where t: "obj_get ts i = Some t" using assms(1) obj_get_key by (metis option.exhaust)
  have "wf_board (obj_set i (f t) ts)" by (rule wf_board_set [OF assms(2) assms(3) [OF wf_boardD [OF assms(2) t]]])
  then show ?thesis using t assms(1) by (simp add: obj_update_def obj_keys_set)
qed

lemma add_base_bonus_ok:
  "i \<in> set (obj_keys ts) \<Longrightarrow> wf_board ts \<Longrightarrow>
     \<exists>ts'. add_base_bonus i ts = Inr ts' \<and> wf_board ts' \<and> obj_keys ts' = obj_keys ts"
  unfolding add_base_bonus_def
  by (rule obj_update_ok) (auto simp: wf_tower_def tactical_baseBonus_def intro!: fl_Nats Nats_add)

lemma open_support_ok:
  "i \<in> set (obj_keys ts) \<Longrightarrow> wf_board ts \<Longrightarrow>
     \<exists>ts'. open_support i w pm ts = Inr ts' \<and> wf_board ts' \<and> obj_keys ts' = obj_keys ts"
  unfolding open_support_def
  by (rule obj_update_ok) (auto simp: wf_tower_def tactical_supportUnits_def)

text \<open>The opening finds its bases and its supports on every battlefield of the tactical rules.\<close>

lemma tactical_opening_towers:
  assumes "i = ''crown_cross'' \<or> i = ''twin_passes'' \<or> i = ''royal_ring''"
  shows "\<exists>p e. TACTICAL_SUPPORTS i = Some (p, e)
    \<and> {''p_base'', ''e_base'', p, e} \<subseteq> set (map t_id (b_territories (getBattlefield (Some i))))"
  using assms
  by (elim disjE) (simp_all add: TACTICAL_SUPPORTS_def getBattlefield_def normalizeBattlefieldId_def BATTLEFIELDS_def
      crown_cross_def twin_passes_def royal_ring_def quad_citadel_def tower_def Let_def)

lemma tactical_opening_ok:
  assumes i: "i = ''crown_cross'' \<or> i = ''twin_passes'' \<or> i = ''royal_ring''" and wf: "wf_board ts"
    and keys: "obj_keys ts = map t_id (b_territories (getBattlefield (Some i)))"
  shows "\<exists>ts'. tactical_opening i pm em ts = Inr ts' \<and> wf_board ts' \<and> obj_keys ts' = obj_keys ts"
proof -
  obtain p e where pe: "TACTICAL_SUPPORTS i = Some (p, e)"
    "{''p_base'', ''e_base'', p, e} \<subseteq> set (obj_keys ts)"
    using tactical_opening_towers [OF i] unfolding keys by blast
  have mem: "''p_base'' \<in> set (obj_keys ts)" "''e_base'' \<in> set (obj_keys ts)"
    "p \<in> set (obj_keys ts)" "e \<in> set (obj_keys ts)" using pe(2) by blast+
  obtain ts1 where ts1: "add_base_bonus ''p_base'' ts = Inr ts1" "wf_board ts1" "obj_keys ts1 = obj_keys ts"
    using add_base_bonus_ok [OF mem(1) wf] by blast
  obtain ts2 where ts2: "add_base_bonus ''e_base'' ts1 = Inr ts2" "wf_board ts2" "obj_keys ts2 = obj_keys ts1"
    using add_base_bonus_ok [OF mem(2) [folded ts1(3)] ts1(2)] by blast
  have ts2_keys: "obj_keys ts2 = obj_keys ts" by (simp only: ts2(3) ts1(3))
  obtain ts3 where ts3: "open_support p Player pm ts2 = Inr ts3" "wf_board ts3" "obj_keys ts3 = obj_keys ts2"
    using open_support_ok [OF mem(3) [folded ts2_keys] ts2(2)] by blast
  have ts3_keys: "obj_keys ts3 = obj_keys ts" by (simp only: ts3(3) ts2_keys)
  obtain ts4 where ts4: "open_support e Enemy em ts3 = Inr ts4" "wf_board ts4" "obj_keys ts4 = obj_keys ts3"
    using open_support_ok [OF mem(4) [folded ts3_keys] ts3(2)] by blast
  have ts4_keys: "obj_keys ts4 = obj_keys ts" by (simp only: ts4(3) ts3_keys)
  have "i \<noteq> ''quad_citadel''" using i by auto
  then show ?thesis using ts1(1) ts2(1) ts3(1) ts4(1,2) ts4_keys pe(1) by (simp add: tactical_opening_def)
qed

lemma normalizeBattlefieldId_cases:
  "normalizeBattlefieldId v = ''crown_cross'' \<or> normalizeBattlefieldId v = ''twin_passes''
   \<or> normalizeBattlefieldId v = ''royal_ring'' \<or> normalizeBattlefieldId v = ''quad_citadel''"
  by (cases v) (auto simp: normalizeBattlefieldId_def BATTLEFIELDS_def crown_cross_def twin_passes_def
      royal_ring_def quad_citadel_def DEFAULT_BATTLEFIELD_ID_def)

text \<open>The rule version of the options and the outcome of the initial state for it.\<close>

definition initial_version :: "initial_options \<Rightarrow> num" where
  "initial_version opts = (case io_rules opts of Some v \<Rightarrow> v | None \<Rightarrow> GAMEPLAY_RULES_VERSION)"

lemma createInitialGameState_ok:
  assumes "modifiers_ok (io_playerModifiers opts)" "modifiers_ok (io_enemyModifiers opts)"
    and version: "initial_version opts \<in> {1, 2, 3, 4}"
    and map: "normalizeBattlefieldId (io_battlefieldId opts) \<noteq> ''quad_citadel'' \<or> \<not> usesTacticalRules (Some (initial_version opts))"
  shows "\<exists>s. createInitialGameState opts = Inr s \<and> wf_state s [] \<and> g_status s = Playing \<and> g_elapsed s = 0
    \<and> g_armies s = [] \<and> g_rules s = Some (initial_version opts)
    \<and> g_timeLimit s = (case io_timeLimit opts of Some n \<Rightarrow> n | None \<Rightarrow> DEFAULT_MATCH_TIME_LIMIT)
    \<and> obj_keys (g_territories s) = map t_id (b_territories (getBattlefield (g_battlefieldId s)))"
proof -
  let ?i = "normalizeBattlefieldId (io_battlefieldId opts)"
  let ?ts = "createDefaultTerritories (io_playerModifiers opts) (io_enemyModifiers opts) (Some ?i)"
  have wf: "wf_board ?ts" by (rule default_territories_wf [OF assms(1,2)])
  have keys: "obj_keys ?ts = map t_id (b_territories (getBattlefield (Some ?i)))"
    by (simp add: createDefaultTerritories_eq)
  have valid: "validateGameplayRulesVersion (initial_version opts) = Inr (initial_version opts)"
    using version by (auto simp: validateGameplayRulesVersion_def)
  obtain ts where ts: "(if usesTacticalRules (Some (initial_version opts))
      then tactical_opening ?i (io_playerModifiers opts) (io_enemyModifiers opts) ?ts else Inr ?ts) = Inr ts"
    "wf_board ts" "obj_keys ts = obj_keys ?ts"
  proof (cases "usesTacticalRules (Some (initial_version opts))")
    case True
    then show thesis
      using that tactical_opening_ok [OF _ wf keys] map normalizeBattlefieldId_cases [of "io_battlefieldId opts"]
      by (metis (no_types, lifting))
  next
    case False
    then show thesis using that wf by simp
  qed
  show ?thesis
    using ts valid keys unfolding initial_version_def createInitialGameState_def
    by (simp add: wf_state_def wf_accumulators_def obj_get_or_def Let_def)
qed

section \<open>The clock\<close>

text \<open>
  A step of at least 10 ms moves the clock by at least half its length, rounding included, as long as the
  clock is below 1000 seconds.
\<close>

lemma fl_lower:
  assumes "0 \<le> x" shows "x - x / 2 ^ 53 \<le> fl x"
proof (cases "x = 0")
  case False
  then have "\<bar>fl x - x\<bar> \<le> x / 2 ^ 53" using assms by (intro fl_error) simp
  then show ?thesis by (simp only: abs_le_iff) linarith
qed simp

lemma step_elapsed_gain:
  assumes e: "0 \<le> g_elapsed s" "g_elapsed s \<le> 1000" and d: "1 / 100 \<le> d" "d \<le> 1"
  shows "g_elapsed s + d / 2 \<le> step_elapsed s d"
proof -
  define a where "a = jadd (g_elapsed s) d"
  have a1: "g_elapsed s + d - (g_elapsed s + d) / 2 ^ 53 \<le> a"
    unfolding a_def using e d by (intro fl_lower) simp
  have a2: "a \<le> 1001" unfolding a_def using e d
    by (intro fl_le_double) (simp_all add: is_double_numeral)
  have a0: "0 \<le> a" unfolding a_def using e d by simp
  show ?thesis
  proof (cases "hasCaptureRecovery (g_rules s)")
    case False
    then have "step_elapsed s d = a" by (simp add: step_elapsed_def a_def Let_def)
    then show ?thesis using a1 e d by (simp add: field_simps)
  next
    case True
    define b where "b = jmul a (10 ^ 9)"
    define q where "q = jdiv (math_round b) (10 ^ 9)"
    have b: "a * 10 ^ 9 - a * 10 ^ 9 / 2 ^ 53 \<le> b" unfolding b_def using a0 by (intro fl_lower) simp
    have r: "b - 1 / 2 \<le> math_round b" unfolding math_round_def by linarith
    have b2: "0 \<le> b" unfolding b_def using a0 by simp
    have r0: "0 \<le> math_round b" unfolding math_round_def using b2 by simp
    have "b \<le> 1001 * 10 ^ 9" unfolding b_def using a2
      by (intro fl_le_double) (simp_all add: is_double_numeral)
    then have r2: "math_round b \<le> 1001 * 10 ^ 9 + 1" unfolding math_round_def by linarith
    have q: "math_round b / 10 ^ 9 - math_round b / 10 ^ 9 / 2 ^ 53 \<le> q"
      unfolding q_def using r0 by (intro fl_lower) simp
    have "step_elapsed s d = q" using True by (simp add: step_elapsed_def a_def b_def q_def Let_def)
    moreover have "g_elapsed s + d / 2 \<le> q"
      using a1 a2 b r q r2 e d by (simp add: field_simps)
    ultimately show ?thesis by simp
  qed
qed

section \<open>The verdict\<close>

lemma verdict_Playing:
  "match_verdict ts ms e limit = Playing \<longleftrightarrow>
     (owned_towers Enemy ts \<noteq> [] \<or> owned_armies Enemy ms \<noteq> [])
     \<and> (owned_towers Player ts \<noteq> [] \<or> owned_armies Player ms \<noteq> []) \<and> e < limit"
  by (auto simp: match_verdict_def Let_def)

lemma total_units_exact:
  assumes "\<forall>t\<in>set ts. t_units t \<in> \<nat>" "sum_list (map t_units ts) \<le> 2 ^ 53"
  shows "total_units ts = sum_list (map t_units ts)"
proof -
  have "fold (\<lambda>t acc. jadd acc (t_units t)) ts a = a + sum_list (map t_units ts)"
    if "a \<in> \<nat>" "a + sum_list (map t_units ts) \<le> 2 ^ 53" for a
    using that assms(1)
  proof (induction ts arbitrary: a)
    case (Cons t ts)
    have nonneg: "0 \<le> sum_list (map t_units ts)" using Cons.prems(3) by (intro sum_list_nonneg) (auto simp: Nats_iff)
    have sum: "a + t_units t \<in> \<nat>" using Cons.prems by (auto intro: Nats_add)
    then have "jadd a (t_units t) = a + t_units t"
      using Cons.prems(2) nonneg by (intro fl_Ints_exact) (auto simp: Nats_iff)
    then show ?case using Cons.IH [OF sum] Cons.prems by (simp add: add.assoc)
  qed simp
  from this [of 0] assms(2) show ?thesis by (simp add: total_units_def)
qed

section \<open>Runs of the fixed tick\<close>

text \<open>The fixed tick of \<open>pvp.ts\<close>, shared by the local prediction and the server's replay.\<close>

definition PVP_SIMULATION_TICK_SECONDS :: num where
  "PVP_SIMULATION_TICK_SECONDS = fl (2 / 100)"

lemma pvp_tick_value: "PVP_SIMULATION_TICK_SECONDS = 5764607523034235 / 288230376151711744"
  unfolding PVP_SIMULATION_TICK_SECONDS_def by code_simp

definition sim_tick :: "hypot_fn \<Rightarrow> game_state \<times> num obj \<Rightarrow> (game_state \<times> num obj) result" where
  "sim_tick hyp = (\<lambda>(s, accs). rbind (stepSimulation hyp s accs PVP_SIMULATION_TICK_SECONDS)
     (\<lambda>r. Inr (sr_state r, sr_accumulators r)))"

definition match_ok :: "num \<Rightarrow> game_state \<times> num obj \<Rightarrow> bool" where
  "match_ok limit = (\<lambda>(s, accs). wf_state s accs \<and> 0 \<le> g_elapsed s
     \<and> (g_status s = Playing \<longrightarrow> g_elapsed s \<le> 1000) \<and> g_timeLimit s = limit \<and> limit \<le> 1000)"

lemma sim_tick_over: "g_status s \<noteq> Playing \<Longrightarrow> sim_tick hyp (s, accs) = Inr (s, accs)"
  by (simp add: sim_tick_def stepSimulation_def)

lemma sim_tick_playing:
  assumes "match_ok limit (s, accs)" "g_status s = Playing"
  shows "\<exists>s' accs'. sim_tick hyp (s, accs) = Inr (s', accs') \<and> match_ok limit (s', accs')
    \<and> g_elapsed s + 1 / 200 \<le> g_elapsed s' \<and> (g_status s' = Playing \<longrightarrow> g_elapsed s' < limit)"
proof -
  let ?d = PVP_SIMULATION_TICK_SECONDS
  have d: "0 \<le> ?d" "1 / 100 \<le> ?d" "?d \<le> 1" by (simp_all add: pvp_tick_value)
  have ok: "wf_state s accs" "0 \<le> g_elapsed s" "g_elapsed s \<le> 1000" "g_timeLimit s = limit" "limit \<le> 1000"
    using assms by (simp_all add: match_ok_def)
  obtain r where r: "stepSimulation hyp s accs ?d = Inr r" "wf_state (sr_state r) (sr_accumulators r)"
    using step_wf [OF ok(1) d(1)] by blast
  obtain w where w: "r = step_finish s (step_elapsed s ?d) ?d w"
    using stepSimulation_Inr [OF ok(1) d(1) assms(2), of hyp] r(1) by (metis Inr_inject)
  have elapsed: "g_elapsed (sr_state r) = step_elapsed s ?d" "g_timeLimit (sr_state r) = limit"
    using ok(4) by (simp_all add: w step_finish_def Let_def)
  have gain: "g_elapsed s + 1 / 200 \<le> step_elapsed s ?d"
    using step_elapsed_gain [OF ok(2,3) d(2,3)] d(2) by linarith
  have "g_status (sr_state r) = Playing \<Longrightarrow> step_elapsed s ?d < limit"
    using ok(4) by (simp add: w step_finish_def Let_def verdict_Playing)
  then show ?thesis using r elapsed gain ok(2,5)
    by (auto simp: sim_tick_def match_ok_def)
qed

interpretation match_run: tick_machine "sim_tick hyp" "match_ok limit" "\<lambda>(s, accs). g_status s = Playing"
    "\<lambda>(s, accs). g_elapsed s" "1 / 200" limit for hyp limit
proof
  show "\<exists>x'. sim_tick hyp x = Inr x' \<and> match_ok limit x'" if "match_ok limit x" for x
    using that sim_tick_playing [of limit "fst x" "snd x" hyp] sim_tick_over [of "fst x" hyp "snd x"]
    by (cases "g_status (fst x) = Playing") auto
  show "sim_tick hyp x = Inr x" if "\<not> (case x of (s, accs) \<Rightarrow> g_status s = Playing)" for x
    using that sim_tick_over by (cases x) simp
  show "(case x of (s, accs) \<Rightarrow> g_elapsed s) + 1 / 200 \<le> (case x' of (s, accs) \<Rightarrow> g_elapsed s)
      \<and> (case x' of (s, accs) \<Rightarrow> g_elapsed s) < limit"
    if "match_ok limit x" "case x of (s, accs) \<Rightarrow> g_status s = Playing" "sim_tick hyp x = Inr x'"
      "case x' of (s, accs) \<Rightarrow> g_status s = Playing" for x x'
    using that sim_tick_playing [of limit "fst x" "snd x" hyp] by (cases x, cases x') fastforce
qed

section \<open>Properties\<close>

lemma start_90:
  obtains s where "createInitialGameState (time_limit_options 90) = Inr s" "wf_state s []" "g_status s = Playing"
    "match_ok 90 (s, [])"
  using createInitialGameState_ok [of "time_limit_options 90"]
  by (auto simp: time_limit_options_def modifiers_ok_def initial_version_def GAMEPLAY_RULES_VERSION_def
      usesTacticalRules_def match_ok_def)

text \<open>
  the initial state. An unknown rule version and the tactical rules on the 2v2 map are the only options
  that throw; for every other the match starts playing, at time 0, without armies, with the towers of its
  battlefield and whole garrisons.
\<close>

theorem createInitialGameState_correct:
  assumes "modifiers_ok (io_playerModifiers opts)" "modifiers_ok (io_enemyModifiers opts)"
  shows "if initial_version opts \<notin> {1, 2, 3, 4}
    then createInitialGameState opts = Inl (Thrown ''unsupported_gameplay_rules_version'')
    else if usesTacticalRules (Some (initial_version opts)) \<and> normalizeBattlefieldId (io_battlefieldId opts) = ''quad_citadel''
    then createInitialGameState opts = Inl (Thrown ''tactical_rules_require_1v1'')
    else \<exists>s. createInitialGameState opts = Inr s \<and> wf_state s [] \<and> g_status s = Playing \<and> g_elapsed s = 0
      \<and> g_armies s = [] \<and> g_rules s = Some (initial_version opts)
      \<and> obj_keys (g_territories s) = map t_id (b_territories (getBattlefield (g_battlefieldId s)))"
proof (cases "initial_version opts \<in> {1, 2, 3, 4}")
  case True
  show ?thesis
  proof (cases "usesTacticalRules (Some (initial_version opts)) \<and> normalizeBattlefieldId (io_battlefieldId opts) = ''quad_citadel''")
    case False
    then show ?thesis using True createInitialGameState_ok [OF assms True] by auto
  next
    case tactical: True
    have "validateGameplayRulesVersion (initial_version opts) = Inr (initial_version opts)"
      using True by (auto simp: validateGameplayRulesVersion_def)
    then show ?thesis
      using True tactical unfolding initial_version_def createInitialGameState_def
      by (simp add: Let_def tactical_opening_def)
  qed
next
  case False
  then show ?thesis
    by (simp add: createInitialGameState_def validateGameplayRulesVersion_def initial_version_def Let_def)
qed

lemma createInitialGameState_correct_witness:
  "\<exists>s. createInitialGameState (time_limit_options 90) = Inr s \<and> wf_state s [] \<and> g_rules s = Some 2"
  using createInitialGameState_correct [of "time_limit_options 90"]
  by (auto simp: time_limit_options_def modifiers_ok_def initial_version_def GAMEPLAY_RULES_VERSION_def
      usesTacticalRules_def)

text \<open>
  C15: a step never throws and keeps the invariant. From a well-formed match every step of non-negative length
  returns; the towers stay the same towers with whole garrisons, every army still on the march has a whole
  number of units, an owner and progress below 1 on a route through towers of the board, and no accumulator is
  negative; a match that is over is returned unchanged.
\<close>

theorem stepSimulation_invariant:
  assumes "wf_state s accs" "0 \<le> delta"
  shows "\<exists>r. stepSimulation hyp s accs delta = Inr r \<and> wf_state (sr_state r) (sr_accumulators r)
    \<and> obj_keys (g_territories (sr_state r)) = obj_keys (g_territories s)
    \<and> (g_status s \<noteq> Playing \<longrightarrow> sr_state r = s \<and> sr_accumulators r = accs \<and> sr_arrivals r = [])"
proof (cases "g_status s = Playing")
  case True
  then show ?thesis using step_wf [OF assms] by simp
next
  case False
  then show ?thesis using assms by (simp add: stepSimulation_def)
qed

lemma stepSimulation_invariant_witness:
  "\<exists>s r. createInitialGameState (time_limit_options 90) = Inr s \<and> stepSimulation manhattan s [] 1 = Inr r
    \<and> wf_state (sr_state r) (sr_accumulators r)"
proof -
  obtain s where s: "createInitialGameState (time_limit_options 90) = Inr s" "wf_state s []" by (rule start_90)
  show ?thesis using stepSimulation_invariant [OF s(2), of 1 manhattan] s(1) by auto
qed

text \<open>
  C16: the verdict. After a step of a running match, a side without towers and without armies has lost (the
  enemy is looked at first); when the time is up the side with more towers wins, then the side with more units
  in its towers, and a full tie is a draw; otherwise the match goes on.
\<close>

theorem stepSimulation_verdict:
  assumes "wf_state s accs" "0 \<le> delta" "g_status s = Playing" "stepSimulation hyp s accs delta = Inr r"
    and "ts = obj_values (g_territories (sr_state r))" "ms = g_armies (sr_state r)"
    and "P = filter (\<lambda>t. t_owner t = Player) ts" "E = filter (\<lambda>t. t_owner t = Enemy) ts"
    and "sum_list (map t_units P) \<le> 2 ^ 53" "sum_list (map t_units E) \<le> 2 ^ 53"
  shows "g_status (sr_state r) =
    (if E = [] \<and> (\<forall>m\<in>set ms. a_owner m \<noteq> Enemy) then Victory
     else if P = [] \<and> (\<forall>m\<in>set ms. a_owner m \<noteq> Player) then Defeat
     else if g_elapsed (sr_state r) < g_timeLimit s then Playing
     else if length E < length P \<or> length E = length P \<and> sum_list (map t_units E) < sum_list (map t_units P) then Victory
     else if length P < length E \<or> length P = length E \<and> sum_list (map t_units P) < sum_list (map t_units E) then Defeat
     else Draw)"
proof -
  obtain w where w: "r = step_finish s (step_elapsed s delta) delta w"
    using stepSimulation_Inr [OF assms(1-3), of hyp] assms(4) by (metis Inr_inject)
  have status: "g_status (sr_state r) = match_verdict (g_territories (sr_state r)) ms (g_elapsed (sr_state r)) (g_timeLimit s)"
    by (simp add: w step_finish_def Let_def assms(6))
  have towers: "owned_towers Player (g_territories (sr_state r)) = P" "owned_towers Enemy (g_territories (sr_state r)) = E"
    by (simp_all add: owned_towers_def assms(5,7,8))
  have armies: "owned_armies side ms = [] \<longleftrightarrow> (\<forall>m\<in>set ms. a_owner m \<noteq> side)" for side
    by (simp add: owned_armies_def filter_empty_conv)
  have board: "wf_board (g_territories (sr_state r))"
    using step_wf [OF assms(1,2), of hyp] assms(4) by (auto simp: wf_state_def)
  have whole: "t_units t \<in> \<nat>" if mem: "t \<in> set ts" for t
  proof -
    obtain i where "obj_get (g_territories (sr_state r)) i = Some t"
      using mem board by (force simp: assms(5) wf_board_def)
    then show ?thesis using wf_boardD [OF board] by (simp add: wf_tower_def)
  qed
  have totals: "total_units P = sum_list (map t_units P)" "total_units E = sum_list (map t_units E)"
    using whole assms(9,10) by (simp_all add: total_units_exact assms(7,8))
  show ?thesis
    unfolding status by (auto simp: match_verdict_def towers armies totals Let_def not_less)
qed

text \<open>Two towers, one second to play.\<close>

definition duel :: game_state where
  "duel = \<lparr>g_rules = None, g_readyAtMs = None, g_shieldedUntilMs = None, g_playerAbilityUsed = False,
     g_enemyAbilityUsed = False, g_battlefieldId = None,
     g_territories = [(''n_center'', example_tower Player 14 Fortress), (''e'', example_tower Enemy 5 Fortress\<lparr>t_id := ''e''\<rparr>)],
     g_armies = [], g_status = Playing, g_elapsed = 0, g_timeLimit = 1, g_stats = empty_stats\<rparr>"

lemma duel_wf: "wf_state duel []"
  by (auto simp: wf_state_def duel_def wf_board_def wf_tower_def wf_accumulators_def example_tower_def obj_get_or_def
      split: if_splits)

lemma duel_step: "stepSimulation manhattan duel [] 1 = Inr (step_finish duel 1 1 (step_start duel [] 1))"
  by (simp add: stepSimulation_def duel_def step_elapsed_def hasCaptureRecovery_def)

lemma duel_units:
  "map (\<lambda>t. (t_owner t, t_units t)) (obj_values (g_territories (sr_state (step_finish duel 1 1 (step_start duel [] 1)))))
     = [(Player, 15), (Enemy, 6)]"
  by code_simp

lemma duel_sums:
  "map t_units (filter (\<lambda>t. t_owner t = Player) (obj_values (g_territories (sr_state (step_finish duel 1 1 (step_start duel [] 1)))))) = [15]"
  "map t_units (filter (\<lambda>t. t_owner t = Enemy) (obj_values (g_territories (sr_state (step_finish duel 1 1 (step_start duel [] 1)))))) = [6]"
  using duel_units by (auto simp: map_eq_Cons_conv)

lemma stepSimulation_verdict_witness:
  "g_status (sr_state (step_finish duel 1 1 (step_start duel [] 1))) = Victory"
proof -
  let ?r = "step_finish duel 1 1 (step_start duel [] 1)"
  have time: "g_elapsed (sr_state ?r) = 1" "g_timeLimit duel = 1" by (simp_all add: step_finish_def duel_def Let_def)
  have ne: "filter (\<lambda>t. t_owner t = w) (obj_values (g_territories (sr_state ?r))) \<noteq> []" if "w = Player \<or> w = Enemy" for w
    using duel_sums that by auto
  have len: "length (filter (\<lambda>t. t_owner t = w) (obj_values (g_territories (sr_state ?r)))) = 1" if "w = Player \<or> w = Enemy" for w
    using arg_cong [OF duel_sums(1), of length] arg_cong [OF duel_sums(2), of length] that by auto
  show ?thesis
    using stepSimulation_verdict [OF duel_wf _ _ duel_step refl refl refl refl] duel_sums time ne len
    by (simp add: duel_def)
qed

text \<open>
  Every match ends. With the fixed tick of 20 ms, after \<open>n\<close> ticks with \<open>n\<close> at least 200 times the time
  limit no match is still playing; no tick on the way throws, and the result is well formed.
\<close>

theorem match_ends:
  assumes "wf_state s accs" "g_elapsed s = 0" "g_timeLimit s \<le> 1000" "0 < n" "200 * g_timeLimit s \<le> of_nat n"
  shows "\<exists>s' accs'. run_steps n (sim_tick hyp) (s, accs) = Inr (s', accs') \<and> wf_state s' accs' \<and> g_status s' \<noteq> Playing"
proof -
  have "match_ok (g_timeLimit s) (s, accs)" using assms by (simp add: match_ok_def)
  from match_run.run_ends [OF this assms(4), of hyp] assms(2,5)
  show ?thesis by (fastforce simp: match_ok_def)
qed

lemma match_ends_witness:
  "\<exists>s s' accs'. createInitialGameState (time_limit_options 90) = Inr s
    \<and> run_steps 18000 (sim_tick manhattan) (s, []) = Inr (s', accs') \<and> g_status s' \<noteq> Playing"
proof -
  obtain s where s: "createInitialGameState (time_limit_options 90) = Inr s" "wf_state s []" "match_ok 90 (s, [])"
    by (rule start_90)
  have "g_elapsed s = 0" "g_timeLimit s = 90"
    using s(1,3) by (auto simp: match_ok_def createInitialGameState_def rbind_eq_Inr Let_def)
  then show ?thesis using match_ends [OF s(2), of 18000 manhattan] s(1) by auto
qed

end
