(* ===== verification/Ai.thy ===== *)
theory Ai
  imports SimulationFacts
begin

text \<open>
  \<open>ai.ts\<close> and \<open>tactical-ai.ts\<close>: the two policies of the bot. Every array callback that reads a tower or
  an arrival time may throw, so the array methods used on them are the throwing ones below.
\<close>

record ai_move =
  am_from :: string
  am_to :: string

section \<open>The first policy\<close>

definition AI_SCORE_EPSILON :: num where "AI_SCORE_EPSILON = fl (1 / 10 ^ 9)"

definition type_value :: "territory_type \<Rightarrow> num" where
  "type_value ty = (case ty of Barracks \<Rightarrow> 18 | Stable \<Rightarrow> 14 | Fortress \<Rightarrow> 10)"

definition scoreAiDispatch :: "hypot_fn \<Rightarrow> territory \<Rightarrow> territory \<Rightarrow> team \<Rightarrow> num" where
  "scoreAiDispatch hyp source target aiTeam =
     (let dispatchAmount = calculateDispatchUnits (t_units source) (1 / 2);
          distancePenalty = jmul (territory_distance hyp source target) (fl (6 / 100))
      in if t_owner target \<noteq> aiTeam then
           let defenseStrength = getTerritoryDefenseStrength target 1;
               canCapture = defenseStrength < dispatchAmount;
               unitAdvantage = jsub dispatchAmount defenseStrength
           in if t_owner target \<noteq> Neutral then
                if canCapture then
                  jsub (jadd (jadd 110 (type_value (t_type target))) (jmul unitAdvantage 3)) distancePenalty
                else jsub (jsub 25 (t_units target)) distancePenalty
              else if canCapture then
                let score = jsub (jadd (jadd 65 (type_value (t_type target))) (jmul (jsub 12 defenseStrength) 2))
                      distancePenalty
                in if t_id target = ''n_center'' \<or> (2 \<le> t_tier target \<and> t_type target = Fortress)
                   then jadd score 35 else score
              else -50
         else if t_units target < 8 \<and> 16 \<le> t_units source then
           jsub (jadd 35 (jmul (jsub 15 (t_units target)) (3 / 2))) distancePenalty
         else -20)"

text \<open>\<open>bestScore\<close> starts at \<open>-Infinity\<close>, which is \<open>None\<close>.\<close>

definition better_move ::
  "hypot_fn \<Rightarrow> team \<Rightarrow> territory \<Rightarrow> territory \<Rightarrow> (num \<times> ai_move) option \<Rightarrow> (num \<times> ai_move) option" where
  "better_move hyp aiTeam source target best =
     (let score = scoreAiDispatch hyp source target aiTeam;
          new = Some (score, \<lparr>am_from = t_id source, am_to = t_id target\<rparr>)
      in case best of None \<Rightarrow> new | Some (s, m) \<Rightarrow> if s < score then new else best)"

definition evaluateAiMove :: "hypot_fn \<Rightarrow> territory obj \<Rightarrow> team \<Rightarrow> num \<Rightarrow> ai_move option" where
  "evaluateAiMove hyp territories aiTeam minDispatchThreshold =
     (let territoryList = obj_values territories;
          readySources = filter (\<lambda>t. t_owner t = aiTeam \<and> minDispatchThreshold \<le> t_units t) territoryList;
          best = fold (\<lambda>source best.
              if calculateDispatchUnits (t_units source) (1 / 2) \<le> 0 then best
              else fold (better_move hyp aiTeam source)
                (filter (\<lambda>t. t_id t \<noteq> t_id source) territoryList) best)
            readySources None
      in case best of None \<Rightarrow> None
         | Some (score, m) \<Rightarrow> if AI_SCORE_EPSILON < score then Some m else None)"

section \<open>Throwing array methods\<close>

fun some_res :: "('a \<Rightarrow> bool result) \<Rightarrow> 'a list \<Rightarrow> bool result" where
  "some_res p [] = Inr False"
| "some_res p (x # xs) = rbind (p x) (\<lambda>b. if b then Inr True else some_res p xs)"

fun filter_res :: "('a \<Rightarrow> bool result) \<Rightarrow> 'a list \<Rightarrow> 'a list result" where
  "filter_res p [] = Inr []"
| "filter_res p (x # xs) = rbind (p x) (\<lambda>b. rbind (filter_res p xs) (\<lambda>ys. Inr (if b then x # ys else ys)))"

fun find_res :: "('a \<Rightarrow> bool result) \<Rightarrow> 'a list \<Rightarrow> 'a option result" where
  "find_res p [] = Inr None"
| "find_res p (x # xs) = rbind (p x) (\<lambda>b. if b then Inr (Some x) else find_res p xs)"

definition flat_map_res :: "('a \<Rightarrow> 'b list result) \<Rightarrow> 'a list \<Rightarrow> 'b list result" where
  "flat_map_res f xs = rbind (map_res f xs) (\<lambda>ys. Inr (concat ys))"

text \<open>A loop that returns from inside its body: the first value other than \<open>None\<close>.\<close>

fun first_res :: "('a \<Rightarrow> 'b option result) \<Rightarrow> 'a list \<Rightarrow> 'b option result" where
  "first_res f [] = Inr None"
| "first_res f (x # xs) = rbind (f x) (\<lambda>r. case r of None \<Rightarrow> first_res f xs | Some y \<Rightarrow> Inr (Some y))"

section \<open>The tactical policy\<close>

text \<open>An army heading for a tower, its place in the army list and its arrival time.\<close>

record incoming =
  in_army :: army
  in_index :: nat
  in_eta :: num

definition cmp_incoming :: "incoming \<Rightarrow> incoming \<Rightarrow> num" where
  "cmp_incoming a b = cmp_or (jsub (in_eta a) (in_eta b)) (jsub (of_nat (in_index a)) (of_nat (in_index b)))"

definition tacticalIncoming :: "hypot_fn \<Rightarrow> game_state \<Rightarrow> string \<Rightarrow> incoming list result" where
  "tacticalIncoming hyp s i =
     rbind (map_res (\<lambda>(m, index). rbind (armyArrivalSeconds hyp m s) (\<lambda>eta.
         Inr \<lparr>in_army = m, in_index = index, in_eta = eta\<rparr>))
       (let ms = filter (\<lambda>a. armyDestination a (Some s) = i) (g_armies s) in zip ms [0..<length ms]))
     (\<lambda>xs. Inr (js_sort cmp_incoming xs))"

definition ETA_EPSILON :: num where "ETA_EPSILON = fl (1 / 10 ^ 9)"

definition forecast_arrival :: "num \<Rightarrow> num \<Rightarrow> incoming \<Rightarrow> territory \<Rightarrow> territory" where
  "forecast_arrival seconds defenseMultiplier x projected =
     (if in_eta x \<le> jadd seconds ETA_EPSILON then
        let r = resolveArrival projected (a_units (in_army x)) (a_owner (in_army x)) defenseMultiplier
        in projected\<lparr>t_owner := c_newOwner r, t_units := c_remainingUnits r\<rparr>
      else projected)"

definition tacticalForecast ::
  "hypot_fn \<Rightarrow> game_state \<Rightarrow> territory \<Rightarrow> num \<Rightarrow> num \<Rightarrow> num \<Rightarrow> territory result" where
  "tacticalForecast hyp s t seconds units defenseMultiplier =
     rbind (tacticalIncoming hyp s (t_id t)) (\<lambda>xs.
       Inr (fold (forecast_arrival seconds defenseMultiplier) xs (t\<lparr>t_units := units\<rparr>)))"

definition hostile_incoming :: "hypot_fn \<Rightarrow> game_state \<Rightarrow> team \<Rightarrow> string \<Rightarrow> incoming list result" where
  "hostile_incoming hyp s w i =
     rbind (tacticalIncoming hyp s i) (\<lambda>xs. Inr (filter (\<lambda>x. a_owner (in_army x) \<noteq> w) xs))"

record candidate =
  cd_source :: territory
  cd_army :: army
  cd_eta :: num

definition cmp_candidate :: "candidate \<Rightarrow> candidate \<Rightarrow> num" where
  "cmp_candidate a b = cmp_or (jsub (cd_eta a) (cd_eta b)) (if t_id (cd_source a) < t_id (cd_source b) then -1 else 1)"

text \<open>A source that would fall to the armies already on their way, once it has sent its half, sends nothing.\<close>

definition source_candidate ::
  "hypot_fn \<Rightarrow> game_state \<Rightarrow> team \<Rightarrow> js_number \<Rightarrow> territory \<Rightarrow> territory \<Rightarrow> candidate list result" where
  "source_candidate hyp s w speed target source =
     rbind (dispatchArmy hyp source target w (1 / 2) ''candidate'' speed (Some s)) (\<lambda>d. case d of
         DispatchFailed _ \<Rightarrow> Inr []
       | Dispatched left m \<Rightarrow>
           rbind (hostile_incoming hyp s w (t_id source)) (\<lambda>hostile.
             rbind (if hostile = [] then Inr False
                    else rbind (tacticalForecast hyp s source (in_eta (last hostile)) (t_units left) 1)
                      (\<lambda>t. Inr (t_owner t \<noteq> w)))
               (\<lambda>falls. if falls then Inr []
                 else rbind (armyArrivalSeconds hyp m s) (\<lambda>eta.
                   Inr [\<lparr>cd_source = source, cd_army = m, cd_eta = eta\<rparr>]))))"

definition sorted_towers :: "game_state \<Rightarrow> territory list" where
  "sorted_towers s = js_sort (\<lambda>a b. cmp_string (t_id a) (t_id b)) (obj_values (g_territories s))"

definition move_candidates ::
  "hypot_fn \<Rightarrow> game_state \<Rightarrow> team \<Rightarrow> js_number \<Rightarrow> territory \<Rightarrow> candidate list result" where
  "move_candidates hyp s w speed target =
     rbind (flat_map_res (source_candidate hyp s w speed target)
         (filter (\<lambda>t. t_owner t = w \<and> 4 \<le> t_units t \<and> t_id t \<noteq> t_id target) (sorted_towers s)))
       (\<lambda>cs. Inr (js_sort cmp_candidate cs))"

definition candidate_move :: "territory \<Rightarrow> candidate \<Rightarrow> ai_move" where
  "candidate_move target c = \<lparr>am_from = t_id (cd_source c), am_to = t_id target\<rparr>"

subsection \<open>Rescuing an own tower\<close>

fun rescue_loop ::
  "hypot_fn \<Rightarrow> game_state \<Rightarrow> team \<Rightarrow> territory \<Rightarrow> num \<Rightarrow> candidate list \<Rightarrow> num \<Rightarrow> ai_move list
     \<Rightarrow> ai_move list option result" where
  "rescue_loop hyp s w target horizon [] units moves = Inr None"
| "rescue_loop hyp s w target horizon (c # cs) units moves =
     (let units' = jadd units (a_units (cd_army c)); moves' = moves @ [candidate_move target c]
      in rbind (tacticalForecast hyp s target horizon units' 1) (\<lambda>t.
        if t_owner t = w then Inr (Some moves')
        else rescue_loop hyp s w target horizon cs units' moves'))"

definition rescue_tower ::
  "hypot_fn \<Rightarrow> game_state \<Rightarrow> team \<Rightarrow> js_number \<Rightarrow> territory \<Rightarrow> ai_move list option result" where
  "rescue_tower hyp s w speed target =
     rbind (hostile_incoming hyp s w (t_id target)) (\<lambda>hostile.
       if hostile = [] then Inr None
       else let horizon = in_eta (last hostile) in
         rbind (tacticalForecast hyp s target horizon (t_units target) 1) (\<lambda>t.
           if t_owner t = w then Inr None
           else rbind (move_candidates hyp s w speed target) (\<lambda>cs.
             rescue_loop hyp s w target horizon
               (filter (\<lambda>c. cd_eta c < jsub (in_eta (hd hostile)) ETA_EPSILON) cs) (t_units target) [])))"

subsection \<open>Attacking a tower together\<close>

definition attack_score :: "territory \<Rightarrow> territory \<Rightarrow> candidate \<Rightarrow> num" where
  "attack_score target remaining c =
     jsub (jadd (jadd (if t_owner target = Neutral then 500 else 1000) (jmul (type_value (t_type target)) 10))
            (min (t_units remaining) 50))
       (math_round (jmul (cd_eta c) 10))"

fun attack_loop ::
  "team \<Rightarrow> territory \<Rightarrow> candidate list \<Rightarrow> territory \<Rightarrow> ai_move list \<Rightarrow> (num \<times> ai_move list) option" where
  "attack_loop w target [] remaining moves = None"
| "attack_loop w target (c # cs) remaining moves =
     (let r = resolveArrival remaining (a_units (cd_army c)) w 1;
          remaining' = remaining\<lparr>t_units := c_remainingUnits r, t_owner := c_newOwner r\<rparr>;
          moves' = moves @ [candidate_move target c]
      in if t_owner remaining' = w then Some (attack_score target remaining' c, moves')
         else attack_loop w target cs remaining' moves')"

definition attack_target ::
  "hypot_fn \<Rightarrow> game_state \<Rightarrow> team \<Rightarrow> js_number \<Rightarrow> territory \<Rightarrow> (num \<times> ai_move list) option result" where
  "attack_target hyp s w speed target =
     rbind (move_candidates hyp s w speed target) (\<lambda>options.
       if options = [] then Inr None
       else let lastEta = cd_eta (last options) in
         rbind (tacticalForecast hyp s target lastEta (t_units target) 1) (\<lambda>projected.
           if t_owner projected = w then Inr None
           else let growth = (if t_owner target = Neutral then 0
                  else math_ceil (jmul (jmul lastEta (t_productionRate target))
                    (getTerritoryProductionMultiplier (t_type target))))
             in Inr (attack_loop w target options (projected\<lparr>t_units := jadd (t_units projected) growth\<rparr>) [])))"

definition best_attack ::
  "hypot_fn \<Rightarrow> game_state \<Rightarrow> team \<Rightarrow> js_number \<Rightarrow> territory \<Rightarrow> (num \<times> ai_move list) option
     \<Rightarrow> (num \<times> ai_move list) option result" where
  "best_attack hyp s w speed target best =
     rbind (attack_target hyp s w speed target) (\<lambda>r. Inr (case r of None \<Rightarrow> best
       | Some (score, moves) \<Rightarrow> (case best of None \<Rightarrow> r | Some (b, _) \<Rightarrow> if b < score then r else best)))"

subsection \<open>Supplying the frontier\<close>

definition hostile_neighbors :: "game_state \<Rightarrow> team \<Rightarrow> string \<Rightarrow> territory list result" where
  "hostile_neighbors s w i =
     rbind (map_res (\<lambda>j. defined_or_type_error (obj_get (g_territories s) j)) (tacticalNeighbors s i))
       (\<lambda>ts. Inr (filter (\<lambda>t. t_owner t \<noteq> w) ts))"

definition frontier :: "game_state \<Rightarrow> team \<Rightarrow> territory \<Rightarrow> bool result" where
  "frontier s w t = some_res (\<lambda>i. rbind (defined_or_type_error (obj_get (g_territories s) i))
     (\<lambda>n. Inr (t_owner n \<noteq> w))) (tacticalNeighbors s (t_id t))"

text \<open>\<open>Math.max\<close> of no arguments is \<open>-Infinity\<close>, which every number exceeds.\<close>

definition exceeds_all :: "num \<Rightarrow> num list \<Rightarrow> bool" where
  "exceeds_all x ys = list_all (\<lambda>y. y < x) ys"

definition supply_tower ::
  "hypot_fn \<Rightarrow> game_state \<Rightarrow> team \<Rightarrow> js_number \<Rightarrow> territory \<Rightarrow> ai_move list option result" where
  "supply_tower hyp s w speed target =
     rbind (tacticalIncoming hyp s (t_id target)) (\<lambda>xs.
       let committed = fold (\<lambda>x n. jadd n (a_units (in_army x))) (filter (\<lambda>x. a_owner (in_army x) = w) xs) 0 in
       rbind (hostile_neighbors s w (t_id target)) (\<lambda>hostile.
         if exceeds_all (calculateDispatchUnits (jadd (t_units target) committed) (1 / 2))
              (map (\<lambda>t. getTerritoryDefenseStrength t 1) hostile)
         then Inr None
         else rbind (move_candidates hyp s w speed target) (\<lambda>cs.
           rbind (find_res (\<lambda>c. rbind (frontier s w (cd_source c)) (\<lambda>b. Inr (\<not> b))) cs) (\<lambda>found.
             Inr (map_option (\<lambda>c. [candidate_move target c]) found)))))"

definition evaluateTacticalMoves ::
  "hypot_fn \<Rightarrow> game_state \<Rightarrow> team \<Rightarrow> js_number \<Rightarrow> ai_move list result" where
  "evaluateTacticalMoves hyp s w speed =
     (if g_status s \<noteq> Playing then Inr []
      else let towers = sorted_towers s in
        rbind (first_res (rescue_tower hyp s w speed) (filter (\<lambda>t. t_owner t = w) towers)) (\<lambda>rescue.
          case rescue of Some moves \<Rightarrow> Inr moves
          | None \<Rightarrow>
            rbind (fold_res (best_attack hyp s w speed) (filter (\<lambda>t. t_owner t \<noteq> w) towers) None) (\<lambda>best.
              case best of Some (score, moves) \<Rightarrow> Inr moves
              | None \<Rightarrow>
                rbind (filter_res (\<lambda>t. if t_owner t = w then frontier s w t else Inr False) towers) (\<lambda>front.
                  rbind (first_res (supply_tower hyp s w speed) front) (\<lambda>supply.
                    Inr (case supply of Some moves \<Rightarrow> moves | None \<Rightarrow> []))))))"

end
