(* ===== verification/Abilities.thy ===== *)
theory Abilities
  imports Ai
begin

text \<open>
  \<open>abilities.ts\<close>, \<open>bot-abilities.ts\<close>, \<open>bot-difficulty.ts\<close>, \<open>fog.ts\<close> and \<open>order-preview.ts\<close>. A commander
  id is one of the three shipped ones; any other string has no ability.
\<close>

section \<open>Commander abilities\<close>

datatype ability = RoyalShield | SupplyDrop | VanguardCharge

definition COMMANDER_ABILITY :: "commander_id \<Rightarrow> ability option" where
  "COMMANDER_ABILITY c =
     (if c = ''crown_guard'' then Some RoyalShield
      else if c = ''quartermaster'' then Some SupplyDrop
      else if c = ''vanguard'' then Some VanguardCharge else None)"

definition abilityNeedsTarget :: "ability \<Rightarrow> bool" where
  "abilityNeedsTarget a \<longleftrightarrow> a = VanguardCharge"

record ability_result =
  ar_state :: game_state
  ar_army :: "army option"

definition ability_used :: "game_state \<Rightarrow> team \<Rightarrow> bool" where
  "ability_used s w = (if w = Player then g_playerAbilityUsed s else g_enemyAbilityUsed s)"

definition mark_used :: "team \<Rightarrow> game_state \<Rightarrow> game_state" where
  "mark_used w s = (if w = Player then s\<lparr>g_playerAbilityUsed := True\<rparr> else s\<lparr>g_enemyAbilityUsed := True\<rparr>)"

definition CLOCK_EPSILON :: num where "CLOCK_EPSILON = fl (1 / 10 ^ 9)"

definition ability_locked :: "game_state \<Rightarrow> bool" where
  "ability_locked s \<longleftrightarrow> jadd (g_elapsed s) CLOCK_EPSILON < ability_unlockSeconds"

definition count_dispatch :: "team \<Rightarrow> num \<Rightarrow> match_stats \<Rightarrow> match_stats" where
  "count_dispatch w n st =
     (if w = Player then st\<lparr>ms_playerUnitsDispatched := jadd (ms_playerUnitsDispatched st) n\<rparr>
      else st\<lparr>ms_enemyUnitsDispatched := jadd (ms_enemyUnitsDispatched st) n\<rparr>)"

definition apply_shield :: "game_state \<Rightarrow> team \<Rightarrow> string \<Rightarrow> ability_result" where
  "apply_shield s w sourceId =
     \<lparr>ar_state = (mark_used w s)\<lparr>g_shieldedUntilMs := Some (obj_set sourceId
         (jadd (math_round (jmul (g_elapsed s) 1000)) ability_shieldDurationMs)
         (case g_shieldedUntilMs s of Some ob \<Rightarrow> ob | None \<Rightarrow> []))\<rparr>,
      ar_army = None\<rparr>"

definition apply_supply :: "game_state \<Rightarrow> team \<Rightarrow> string \<Rightarrow> territory \<Rightarrow> ability_result" where
  "apply_supply s w sourceId source =
     \<lparr>ar_state = (mark_used w s)\<lparr>g_territories := obj_set sourceId
         (source\<lparr>t_units := jadd (t_units source) ability_supplyUnits\<rparr>) (g_territories s)\<rparr>,
      ar_army = None\<rparr>"

definition apply_charge :: "game_state \<Rightarrow> team \<Rightarrow> string \<Rightarrow> territory \<Rightarrow> army \<Rightarrow> ability_result" where
  "apply_charge s w sourceId left m =
     (let charged = m\<lparr>a_units := math_floor (jmul (a_units m) ability_chargeUnitMultiplier)\<rparr>
      in \<lparr>ar_state = (mark_used w s)\<lparr>g_territories := obj_set sourceId left (g_territories s),
            g_armies := g_armies s @ [charged], g_stats := count_dispatch w (a_units charged) (g_stats s)\<rparr>,
          ar_army = Some charged\<rparr>)"

definition applyTeamAbility ::
  "hypot_fn \<Rightarrow> game_state \<Rightarrow> team \<Rightarrow> commander_id option \<Rightarrow> string \<Rightarrow> string \<Rightarrow> num \<Rightarrow> string
     \<Rightarrow> ability_result option result" where
  "applyTeamAbility hyp s w commander sourceId targetId speed armyId =
     (case commander of None \<Rightarrow> Inr None
      | Some c \<Rightarrow>
        if \<not> hasCommanderAbilities (g_rules s) \<or> g_status s \<noteq> Playing then Inr None
        else if ability_used s w \<or> ability_locked s then Inr None
        else (case obj_get (g_territories s) sourceId of None \<Rightarrow> Inr None
          | Some source \<Rightarrow>
            if t_owner source \<noteq> w then Inr None
            else (case COMMANDER_ABILITY c of None \<Rightarrow> Inr None
              | Some RoyalShield \<Rightarrow> Inr (if targetId \<noteq> sourceId then None else Some (apply_shield s w sourceId))
              | Some SupplyDrop \<Rightarrow> Inr (if targetId \<noteq> sourceId then None else Some (apply_supply s w sourceId source))
              | Some VanguardCharge \<Rightarrow>
                  (case obj_get (g_territories s) targetId of None \<Rightarrow> Inr None
                   | Some target \<Rightarrow>
                     if targetId = sourceId then Inr None
                     else rbind (dispatchArmy hyp source target w (1 / 2) armyId
                           (Finite (jmul speed ability_chargeSpeedMultiplier)) (Some s)) (\<lambda>r.
                         Inr (case r of DispatchFailed _ \<Rightarrow> None
                              | Dispatched left m \<Rightarrow> Some (apply_charge s w sourceId left m)))))))"

definition applyPlayerAbility ::
  "hypot_fn \<Rightarrow> game_state \<Rightarrow> commander_id option \<Rightarrow> string \<Rightarrow> string \<Rightarrow> num \<Rightarrow> string \<Rightarrow> ability_result option result" where
  "applyPlayerAbility hyp s = applyTeamAbility hyp s Player"

definition isShielded :: "game_state \<Rightarrow> string \<Rightarrow> bool" where
  "isShielded s i \<longleftrightarrow> math_round (jmul (g_elapsed s) 1000) < obj_get_or (g_shieldedUntilMs s) i 0"

section \<open>Bot difficulty\<close>

datatype bot_difficulty = Easy | Normal | Hard

definition BOT_DIFFICULTIES :: "bot_difficulty list" where "BOT_DIFFICULTIES = [Easy, Normal, Hard]"

definition BOT_COMMANDER :: "bot_difficulty \<Rightarrow> commander_id option" where
  "BOT_COMMANDER d = (case d of Easy \<Rightarrow> None | Normal \<Rightarrow> Some ''quartermaster'' | Hard \<Rightarrow> Some ''vanguard'')"

text \<open>The \<open>default\<close> branch throws for values outside the type, which the datatype does not have.\<close>

definition getBotAiTickSeconds :: "bot_difficulty \<Rightarrow> num" where
  "getBotAiTickSeconds d = (case d of Easy \<Rightarrow> fl (36 / 10) | Normal \<Rightarrow> fl (18 / 10) | Hard \<Rightarrow> fl (9 / 10))"

section \<open>The bot's choice of an ability\<close>

record bot_choice =
  bc_sourceId :: string
  bc_targetId :: string
  bc_moves :: "ai_move list"

record threat =
  th_tower :: territory
  th_firstEta :: num
  th_horizon :: num

definition tower_threat :: "hypot_fn \<Rightarrow> game_state \<Rightarrow> team \<Rightarrow> territory \<Rightarrow> threat list result" where
  "tower_threat hyp s w own =
     rbind (hostile_incoming hyp s w (t_id own)) (\<lambda>hostile.
       if hostile = [] then Inr []
       else rbind (tacticalForecast hyp s own (in_eta (last hostile)) (t_units own) 1) (\<lambda>t.
         Inr (if t_owner t = w then []
              else [\<lparr>th_tower = own, th_firstEta = in_eta (hd hostile), th_horizon = in_eta (last hostile)\<rparr>])))"

definition threatenedTowers :: "hypot_fn \<Rightarrow> game_state \<Rightarrow> team \<Rightarrow> threat list result" where
  "threatenedTowers hyp s w =
     flat_map_res (tower_threat hyp s w)
       (js_sort (\<lambda>a b. cmp_string (t_id a) (t_id b)) (filter (\<lambda>t. t_owner t = w) (obj_values (g_territories s))))"

definition shield_saves :: "hypot_fn \<Rightarrow> game_state \<Rightarrow> team \<Rightarrow> threat \<Rightarrow> bool result" where
  "shield_saves hyp s w t =
     (let shieldSeconds = jdiv ability_shieldDurationMs 1000
      in if th_firstEta t \<le> jadd (jsub shieldSeconds 1) ETA_EPSILON then
           rbind (tacticalForecast hyp s (th_tower t) (min (th_horizon t) (jsub shieldSeconds 1))
               (t_units (th_tower t)) ability_shieldDefenseMultiplier) (\<lambda>f. Inr (t_owner f = w))
         else Inr False)"

definition supply_saves :: "hypot_fn \<Rightarrow> game_state \<Rightarrow> team \<Rightarrow> threat \<Rightarrow> bool result" where
  "supply_saves hyp s w t =
     rbind (tacticalForecast hyp s (th_tower t) (th_horizon t)
       (jadd (t_units (th_tower t)) ability_supplyUnits) 1) (\<lambda>f. Inr (t_owner f = w))"

definition cmp_id_strict :: "string \<Rightarrow> string \<Rightarrow> num" where
  "cmp_id_strict a b = (if a < b then -1 else 1)"

definition own_tower_choice :: "threat \<Rightarrow> ai_move list \<Rightarrow> bot_choice" where
  "own_tower_choice t moves =
     \<lparr>bc_sourceId = t_id (th_tower t), bc_targetId = t_id (th_tower t), bc_moves = moves\<rparr>"

definition chooseBotAbility ::
  "hypot_fn \<Rightarrow> game_state \<Rightarrow> team \<Rightarrow> commander_id option \<Rightarrow> ai_move list \<Rightarrow> bot_choice option result" where
  "chooseBotAbility hyp s w commander moves =
     (case commander of None \<Rightarrow> Inr None
      | Some c \<Rightarrow>
        if \<not> hasCommanderAbilities (g_rules s) \<or> g_status s \<noteq> Playing then Inr None
        else if ability_used s w \<or> ability_locked s then Inr None
        else (case COMMANDER_ABILITY c of None \<Rightarrow> Inr None
          | Some VanguardCharge \<Rightarrow> Inr (case moves of [] \<Rightarrow> None
              | m # ms \<Rightarrow> Some \<lparr>bc_sourceId = am_from m, bc_targetId = am_to m, bc_moves = ms\<rparr>)
          | Some RoyalShield \<Rightarrow>
              rbind (threatenedTowers hyp s w) (\<lambda>threats.
                rbind (filter_res (shield_saves hyp s w) threats) (\<lambda>saved.
                  Inr (case js_sort (\<lambda>a b. cmp_or (jsub (t_units (th_tower b)) (t_units (th_tower a)))
                            (cmp_id_strict (t_id (th_tower a)) (t_id (th_tower b)))) saved of
                         [] \<Rightarrow> None | t # _ \<Rightarrow> Some (own_tower_choice t moves))))
          | Some SupplyDrop \<Rightarrow>
              rbind (threatenedTowers hyp s w) (\<lambda>threats.
                rbind (filter_res (supply_saves hyp s w) threats) (\<lambda>rescued.
                  Inr (case js_sort (\<lambda>a b. cmp_or (jsub (th_firstEta a) (th_firstEta b))
                            (cmp_id_strict (t_id (th_tower a)) (t_id (th_tower b)))) rescued of
                         t # _ \<Rightarrow> Some (own_tower_choice t moves)
                       | [] \<Rightarrow> (case moves of [] \<Rightarrow> None
                           | m # _ \<Rightarrow> Some \<lparr>bc_sourceId = am_from m, bc_targetId = am_from m, bc_moves = moves\<rparr>))))))"

section \<open>Fog of war\<close>

definition set_add :: "string \<Rightarrow> string list \<Rightarrow> string list" where
  "set_add x xs = (if x \<in> set xs then xs else xs @ [x])"

definition owned_by_id :: "game_state \<Rightarrow> team \<Rightarrow> string \<Rightarrow> bool" where
  "owned_by_id s w i \<longleftrightarrow> map_option t_owner (obj_get (g_territories s) i) = Some w"

text \<open>A \<open>Set\<close> is the list of its elements in insertion order.\<close>

definition computeVisibleTerritoryIds :: "game_state \<Rightarrow> team \<Rightarrow> string list" where
  "computeVisibleTerritoryIds s w =
     fold (\<lambda>(a, b) visible.
         let v = (if owned_by_id s w a then set_add b visible else visible)
         in if owned_by_id s w b then set_add a v else v)
       (b_roads (getBattlefield (Some (case g_battlefieldId s of Some i \<Rightarrow> i | None \<Rightarrow> DEFAULT_BATTLEFIELD_ID))))
       (fold (\<lambda>t visible. if t_owner t = w then set_add (t_id t) visible else visible)
         (obj_values (g_territories s)) [])"

text \<open>\<open>routeIds[leg]\<close> past the end is \<open>undefined\<close>, which no visible set holds.\<close>

definition list_get :: "'a list \<Rightarrow> nat \<Rightarrow> 'a option" where
  "list_get xs i = (if i < length xs then Some (xs ! i) else None)"

definition isArmyCountVisible :: "army \<Rightarrow> string list \<Rightarrow> team \<Rightarrow> bool" where
  "isArmyCountVisible m visible w =
     (if a_owner m = w then True
      else let leg = (case a_routeIds m of Some _ \<Rightarrow> army_leg m | None \<Rightarrow> 0);
               from = (case a_routeIds m of Some ids \<Rightarrow> list_get ids leg | None \<Rightarrow> Some (a_sourceId m));
               to = (case a_routeIds m of
                   Some ids \<Rightarrow> (case list_get ids (Suc leg) of Some i \<Rightarrow> i | None \<Rightarrow> a_targetId m)
                 | None \<Rightarrow> a_targetId m)
           in (case from of Some i \<Rightarrow> i \<in> set visible | None \<Rightarrow> False) \<or> to \<in> set visible)"

section \<open>Previewing an order\<close>

record preview_order =
  po_army :: army
  po_source :: territory

record order_preview =
  op_orders :: "preview_order list"
  op_projected :: "territory option"
  op_sent :: num
  op_left :: num
  op_reason :: string

definition preview_source ::
  "hypot_fn \<Rightarrow> game_state \<Rightarrow> territory option \<Rightarrow> team \<Rightarrow> js_number \<Rightarrow> num \<Rightarrow> string \<Rightarrow> preview_order list result" where
  "preview_source hyp s target w multiplier unitMultiplier i =
     (case (obj_get (g_territories s) i, target) of
        (Some source, Some t) \<Rightarrow>
          rbind (dispatchArmy hyp source t w (1 / 2) (''preview_'' @ i) multiplier (Some s)) (\<lambda>d.
            Inr (case d of DispatchFailed _ \<Rightarrow> []
              | Dispatched left m \<Rightarrow>
                  [\<lparr>po_army = m\<lparr>a_units := math_floor (jmul (a_units m) unitMultiplier)\<rparr>, po_source = left\<rparr>]))
      | _ \<Rightarrow> Inr [])"

definition preview_arrivals :: "hypot_fn \<Rightarrow> game_state \<Rightarrow> preview_order list \<Rightarrow> incoming list result" where
  "preview_arrivals hyp s orders =
     rbind (map_res (\<lambda>(d, index). rbind (armyArrivalSeconds hyp (po_army d) s) (\<lambda>eta.
         Inr \<lparr>in_army = po_army d, in_index = index, in_eta = eta\<rparr>)) (zip orders [0..<length orders]))
       (\<lambda>xs. Inr (js_sort cmp_incoming xs))"

definition preview_arrival :: "team \<Rightarrow> incoming \<Rightarrow> territory \<Rightarrow> territory" where
  "preview_arrival w x projected =
     (let r = resolveArrival projected (a_units (in_army x)) w 1
      in projected\<lparr>t_owner := c_newOwner r, t_units := c_remainingUnits r\<rparr>)"

definition previewOrder ::
  "hypot_fn \<Rightarrow> game_state \<Rightarrow> string list \<Rightarrow> string \<Rightarrow> team \<Rightarrow> js_number \<Rightarrow> num \<Rightarrow> order_preview result" where
  "previewOrder hyp s sources targetId w multiplier unitMultiplier =
     (let target = obj_get (g_territories s) targetId in
      rbind (flat_map_res (preview_source hyp s target w multiplier unitMultiplier) sources) (\<lambda>orders.
        rbind (preview_arrivals hyp s orders) (\<lambda>arrivals.
          Inr \<lparr>op_orders = orders, op_projected = map_option (fold (preview_arrival w) arrivals) target,
            op_sent = fold (\<lambda>d n. jadd n (a_units (po_army d))) orders 0,
            op_left = fold (\<lambda>d n. jadd n (t_units (po_source d))) orders 0,
            op_reason = (if orders \<noteq> [] then [] else if map_option t_owner target = Some w
              then ''No friendly route'' else ''Attack an adjacent tower'')\<rparr>)))"

end
