(* ===== verification/Pvp.thy ===== *)
theory Pvp
  imports Abilities "HOL-Library.While_Combinator"
begin

text \<open>
  \<open>pvp.ts\<close>: the replay of a match from the client's timestamped orders. A \<open>while\<close> loop of the source that
  no constant bounds is \<open>while_option\<close>, so a replay that would not return is \<open>None\<close>; a thrown error is
  \<open>Some (Inl e)\<close>.
\<close>

section \<open>Loops that may throw and may run forever\<close>

type_synonym 'a run = "'a result option"

definition run_bind :: "'a run \<Rightarrow> ('a \<Rightarrow> 'b run) \<Rightarrow> 'b run" where
  "run_bind m f = (case m of None \<Rightarrow> None | Some (Inl e) \<Rightarrow> Some (Inl e) | Some (Inr v) \<Rightarrow> f v)"

definition while_run :: "('s \<Rightarrow> bool) \<Rightarrow> ('s \<Rightarrow> 's run) \<Rightarrow> 's \<Rightarrow> 's run" where
  "while_run c f s =
     (case while_option (\<lambda>m. case m of Some (Inr v) \<Rightarrow> c v | _ \<Rightarrow> False) (\<lambda>m. run_bind m f) (Some (Inr s)) of
        None \<Rightarrow> None | Some m \<Rightarrow> m)"

text \<open>The same for a body without loops.\<close>

definition while_res :: "('s \<Rightarrow> bool) \<Rightarrow> ('s \<Rightarrow> 's result) \<Rightarrow> 's \<Rightarrow> 's run" where
  "while_res c f = while_run c (\<lambda>s. Some (f s))"

section \<open>Data\<close>

definition PVP_TIME_LIMIT_SECONDS :: num where "PVP_TIME_LIMIT_SECONDS = 90"
definition PVP_AI_TICK_SECONDS :: num where "PVP_AI_TICK_SECONDS = getBotAiTickSeconds Normal"
definition MAX_PVP_ACTIONS :: nat where "MAX_PVP_ACTIONS = 120"

record tick_budget =
  tb_ticks :: num
  tb_remainder :: num

definition finite_or_zero :: "js_number \<Rightarrow> num" where
  "finite_or_zero v = (case v of Finite x \<Rightarrow> max 0 x | _ \<Rightarrow> 0)"

definition consumeSimulationTicks :: "js_number \<Rightarrow> js_number \<Rightarrow> tick_budget" where
  "consumeSimulationTicks previousRemainder delta =
     (let safeRemainder = finite_or_zero previousRemainder;
          safeDelta = finite_or_zero delta;
          total = jadd safeRemainder safeDelta;
          ticks = math_floor (jdiv (jadd total CLOCK_EPSILON) PVP_SIMULATION_TICK_SECONDS)
      in \<lparr>tb_ticks = ticks, tb_remainder = max 0 (jsub total (jmul ticks PVP_SIMULATION_TICK_SECONDS))\<rparr>)"

text \<open>The runtime value of \<open>kind\<close> may be any string; \<open>validateActions\<close> rejects all but \<open>'ability'\<close>.\<close>

record pvp_action =
  pa_sequence :: js_number
  pa_at :: js_number
  pa_sourceId :: string
  pa_targetId :: string
  pa_kind :: "string option"

record battle_summary =
  bs_status :: match_status
  bs_stats :: match_stats
  bs_duration :: num
  bs_actionsProcessed :: nat

record pvp_options =
  px_botDifficulty :: "bot_difficulty option"
  px_rules :: "num option"
  px_playerModifiers :: "player_modifiers option"
  px_enemyModifiers :: "player_modifiers option"
  px_actions :: "pvp_action list"
  px_battlefieldId :: "battlefield_id option"
  px_commanderId :: "commander_id option"

record pvp_result =
  pv_finalState :: game_state
  pv_summary :: battle_summary

section \<open>Dispatching from a state\<close>

definition dispatchFromState ::
  "hypot_fn \<Rightarrow> game_state \<Rightarrow> string \<Rightarrow> string \<Rightarrow> team \<Rightarrow> num \<Rightarrow> string \<Rightarrow> game_state result" where
  "dispatchFromState hyp s sourceId targetId owner speed armyId =
     (case obj_get (g_territories s) sourceId of
        None \<Rightarrow> Inl (PvpSimulationError ''invalid_source'')
      | Some source \<Rightarrow> (case obj_get (g_territories s) targetId of
          None \<Rightarrow> Inl (PvpSimulationError ''invalid_target'')
        | Some target \<Rightarrow>
            rbind (dispatchArmy hyp source target owner (1 / 2) armyId (Finite speed) (Some s)) (\<lambda>r. case r of
              DispatchFailed _ \<Rightarrow> Inl (PvpSimulationError ''invalid_dispatch'')
            | Dispatched left m \<Rightarrow> Inr (s\<lparr>g_territories := obj_set sourceId left (g_territories s),
                g_armies := g_armies s @ [m],
                g_stats := (g_stats s)\<lparr>
                  ms_playerUnitsDispatched := (if owner = Player
                    then jadd (ms_playerUnitsDispatched (g_stats s)) (a_units m) else ms_playerUnitsDispatched (g_stats s)),
                  ms_enemyUnitsDispatched := (if owner = Enemy
                    then jadd (ms_enemyUnitsDispatched (g_stats s)) (a_units m) else ms_enemyUnitsDispatched (g_stats s))\<rparr>\<rparr>))))"

section \<open>Validating the client's orders\<close>

definition valid_timestamp :: "num \<Rightarrow> js_number \<Rightarrow> bool" where
  "valid_timestamp previousTime v =
     (case v of Finite t \<Rightarrow> 0 \<le> t \<and> t \<le> PVP_TIME_LIMIT_SECONDS \<and> previousTime \<le> t | _ \<Rightarrow> False)"

definition finite_value :: "js_number \<Rightarrow> num" where
  "finite_value v = (case v of Finite x \<Rightarrow> x | _ \<Rightarrow> 0)"

fun validate_from :: "nat \<Rightarrow> num \<Rightarrow> pvp_action list \<Rightarrow> unit result" where
  "validate_from index previousTime [] = Inr ()"
| "validate_from index previousTime (a # as) =
     (if pa_sequence a \<noteq> Finite (of_nat index) then Inl (PvpSimulationError ''invalid_sequence'')
      else if pa_kind a \<noteq> None \<and> pa_kind a \<noteq> Some ''ability'' then Inl (PvpSimulationError ''invalid_action_kind'')
      else if \<not> valid_timestamp previousTime (pa_at a) then Inl (PvpSimulationError ''invalid_timestamp'')
      else validate_from (Suc index) (finite_value (pa_at a)) as)"

definition validateActions :: "pvp_action list \<Rightarrow> unit result" where
  "validateActions actions =
     (if MAX_PVP_ACTIONS < length actions then Inl (PvpSimulationError ''too_many_actions'')
      else validate_from 0 0 actions)"

section \<open>The replay\<close>

text \<open>The variables that \<open>simulatePvpBattle\<close> and its local functions share.\<close>

record replay =
  rp_state :: game_state
  rp_accumulators :: "num obj"
  rp_time :: num
  rp_tick :: nat
  rp_nextAi :: num
  rp_aiIndex :: nat
  rp_actionIndex :: nat

abbreviation rp_playing :: "replay \<Rightarrow> bool" where
  "rp_playing r \<equiv> g_status (rp_state r) = Playing"

definition replay_step :: "hypot_fn \<Rightarrow> num \<Rightarrow> replay \<Rightarrow> replay result" where
  "replay_step hyp delta r = rbind (stepSimulation hyp (rp_state r) (rp_accumulators r) delta) (\<lambda>x.
     Inr (r\<lparr>rp_state := sr_state x, rp_accumulators := sr_accumulators x\<rparr>))"

definition target_tick :: "num \<Rightarrow> num" where
  "target_tick timestamp = math_floor (jadd (jdiv timestamp PVP_SIMULATION_TICK_SECONDS) CLOCK_EPSILON)"

definition step_to_current :: "hypot_fn \<Rightarrow> num \<Rightarrow> replay \<Rightarrow> replay run" where
  "step_to_current hyp timestamp r =
     run_bind (while_res (\<lambda>r. rp_playing r \<and> of_nat (rp_tick r) < target_tick timestamp)
         (\<lambda>r. rbind (replay_step hyp PVP_SIMULATION_TICK_SECONDS r) (\<lambda>r. Inr (r\<lparr>rp_tick := Suc (rp_tick r)\<rparr>))) r)
       (\<lambda>r. Some (Inr (r\<lparr>rp_time := jmul (of_nat (rp_tick r)) PVP_SIMULATION_TICK_SECONDS\<rparr>)))"

definition legacy_correction :: "hypot_fn \<Rightarrow> num \<Rightarrow> replay \<Rightarrow> replay result" where
  "legacy_correction hyp timestamp r =
     (let remainder = jsub timestamp (rp_time r)
      in rbind (if rp_playing r \<and> 0 < remainder then replay_step hyp remainder r else Inr r) (\<lambda>r.
        let clockCorrection = jsub timestamp (g_elapsed (rp_state r))
        in rbind (if rp_playing r \<and> 0 < clockCorrection then replay_step hyp clockCorrection r else Inr r) (\<lambda>r.
          Inr (r\<lparr>rp_time := timestamp\<rparr>))))"

definition step_to_legacy :: "hypot_fn \<Rightarrow> num \<Rightarrow> replay \<Rightarrow> replay run" where
  "step_to_legacy hyp timestamp r =
     run_bind (while_res (\<lambda>r. rp_playing r
           \<and> jadd (rp_time r) PVP_SIMULATION_TICK_SECONDS \<le> jadd timestamp CLOCK_EPSILON)
         (\<lambda>r. rbind (replay_step hyp PVP_SIMULATION_TICK_SECONDS r) (\<lambda>r.
            Inr (r\<lparr>rp_time := jadd (rp_time r) PVP_SIMULATION_TICK_SECONDS\<rparr>))) r)
       (\<lambda>r. Some (legacy_correction hyp timestamp r))"

definition stepTo :: "hypot_fn \<Rightarrow> bool \<Rightarrow> num \<Rightarrow> replay \<Rightarrow> replay run" where
  "stepTo hyp currentRules timestamp r =
     (if currentRules then step_to_current hyp timestamp r else step_to_legacy hyp timestamp r)"

definition army_speed :: "player_modifiers option \<Rightarrow> num" where
  "army_speed pm = (case pm of Some m \<Rightarrow> pm_armySpeedMultiplier m | None \<Rightarrow> 1)"

definition ai_army_id :: "nat \<Rightarrow> string" where "ai_army_id n = ''pvp_ai_'' @ nat_string n"

definition dispatch_ai_move :: "hypot_fn \<Rightarrow> num \<Rightarrow> ai_move \<Rightarrow> replay \<Rightarrow> replay result" where
  "dispatch_ai_move hyp speed mv r =
     rbind (dispatchFromState hyp (rp_state r) (am_from mv) (am_to mv) Enemy speed (ai_army_id (rp_aiIndex r))) (\<lambda>s.
       Inr (r\<lparr>rp_state := s, rp_aiIndex := Suc (rp_aiIndex r)\<rparr>))"

text \<open>The bot spends its ability before the orders of its turn; a charge replaces the first order.\<close>

definition bot_ability ::
  "hypot_fn \<Rightarrow> bot_difficulty \<Rightarrow> num \<Rightarrow> ai_move list \<Rightarrow> replay \<Rightarrow> (replay \<times> ai_move list) result" where
  "bot_ability hyp difficulty speed moves r =
     rbind (chooseBotAbility hyp (rp_state r) Enemy (BOT_COMMANDER difficulty) moves) (\<lambda>choice. case choice of
       None \<Rightarrow> Inr (r, moves)
     | Some c \<Rightarrow> rbind (applyTeamAbility hyp (rp_state r) Enemy (BOT_COMMANDER difficulty) (bc_sourceId c)
           (bc_targetId c) speed (ai_army_id (rp_aiIndex r))) (\<lambda>ability. Inr (case ability of
         None \<Rightarrow> (r, moves)
       | Some a \<Rightarrow> (r\<lparr>rp_state := ar_state a, rp_aiIndex := Suc (rp_aiIndex r)\<rparr>, bc_moves c))))"

definition executeAiAction :: "hypot_fn \<Rightarrow> pvp_options \<Rightarrow> replay \<Rightarrow> replay result" where
  "executeAiAction hyp opts r =
     (if \<not> rp_playing r then Inr r
      else let speed = army_speed (px_enemyModifiers opts) in
        if usesTacticalRules (g_rules (rp_state r)) then
          rbind (evaluateTacticalMoves hyp (rp_state r) Enemy (Finite speed)) (\<lambda>moves.
            rbind (bot_ability hyp (case px_botDifficulty opts of Some d \<Rightarrow> d | None \<Rightarrow> Normal) speed moves r)
              (\<lambda>(r, moves). fold_res (dispatch_ai_move hyp speed) moves r))
        else (case evaluateAiMove hyp (g_territories (rp_state r)) Enemy 8 of
          None \<Rightarrow> Inr r
        | Some mv \<Rightarrow> dispatch_ai_move hyp speed mv r))"

definition ai_tick :: "pvp_options \<Rightarrow> num" where
  "ai_tick opts = getBotAiTickSeconds (case px_botDifficulty opts of Some d \<Rightarrow> d | None \<Rightarrow> Normal)"

text \<open>The bot's turns up to a moment.\<close>

definition ai_until :: "hypot_fn \<Rightarrow> pvp_options \<Rightarrow> bool \<Rightarrow> num \<Rightarrow> replay \<Rightarrow> replay run" where
  "ai_until hyp opts currentRules limit =
     while_run (\<lambda>r. rp_playing r \<and> rp_nextAi r \<le> limit)
       (\<lambda>r. run_bind (stepTo hyp currentRules (rp_nextAi r) r) (\<lambda>r.
          Some (rbind (executeAiAction hyp opts r) (\<lambda>r.
            Inr (r\<lparr>rp_nextAi := jadd (rp_nextAi r) (ai_tick opts)\<rparr>)))))"

definition player_army_id :: "pvp_action \<Rightarrow> string" where
  "player_army_id a = ''pvp_player_'' @ nat_string (nat \<lfloor>finite_value (pa_sequence a)\<rfloor>)"

text \<open>Illegal orders and illegal abilities are ignored; any other error is thrown on.\<close>

definition player_action :: "hypot_fn \<Rightarrow> pvp_options \<Rightarrow> pvp_action \<Rightarrow> replay \<Rightarrow> replay result" where
  "player_action hyp opts a r =
     (let speed = army_speed (px_playerModifiers opts) in
      if pa_kind a = Some ''ability'' then
        rbind (applyPlayerAbility hyp (rp_state r) (px_commanderId opts) (pa_sourceId a) (pa_targetId a) speed
            (player_army_id a)) (\<lambda>ability. Inr (case ability of None \<Rightarrow> r
          | Some x \<Rightarrow> r\<lparr>rp_state := ar_state x, rp_actionIndex := Suc (rp_actionIndex r)\<rparr>))
      else (case dispatchFromState hyp (rp_state r) (pa_sourceId a) (pa_targetId a) Player speed (player_army_id a) of
          Inr s \<Rightarrow> Inr (r\<lparr>rp_state := s, rp_actionIndex := Suc (rp_actionIndex r)\<rparr>)
        | Inl (PvpSimulationError _) \<Rightarrow> Inr r
        | Inl e \<Rightarrow> Inl e))"

fun replay_actions ::
  "hypot_fn \<Rightarrow> pvp_options \<Rightarrow> bool \<Rightarrow> num \<Rightarrow> pvp_action list \<Rightarrow> replay \<Rightarrow> replay run" where
  "replay_actions hyp opts currentRules eps [] r = Some (Inr r)"
| "replay_actions hyp opts currentRules eps (a # as) r =
     run_bind (ai_until hyp opts currentRules (jadd (finite_value (pa_at a)) eps) r) (\<lambda>r.
       if \<not> rp_playing r then Some (Inr r)
       else run_bind (stepTo hyp currentRules (finite_value (pa_at a)) r) (\<lambda>r.
         if \<not> rp_playing r then Some (Inr r)
         else run_bind (Some (player_action hyp opts a r)) (replay_actions hyp opts currentRules eps as)))"

text \<open>After the last order: the remaining turns of the bot, the time limit, and a step of no length.\<close>

definition replay_finish :: "hypot_fn \<Rightarrow> pvp_options \<Rightarrow> bool \<Rightarrow> num \<Rightarrow> replay \<Rightarrow> replay run" where
  "replay_finish hyp opts currentRules eps r =
     run_bind (ai_until hyp opts currentRules (jadd PVP_TIME_LIMIT_SECONDS eps) r) (\<lambda>r.
       if \<not> rp_playing r then Some (Inr r)
       else run_bind (stepTo hyp currentRules PVP_TIME_LIMIT_SECONDS r) (\<lambda>r.
         if \<not> rp_playing r then Some (Inr r) else Some (replay_step hyp 0 r)))"

definition replay_start :: "pvp_options \<Rightarrow> game_state \<Rightarrow> replay" where
  "replay_start opts s = \<lparr>rp_state = s, rp_accumulators = [], rp_time = 0, rp_tick = 0, rp_nextAi = ai_tick opts,
     rp_aiIndex = 0, rp_actionIndex = 0\<rparr>"

definition pvp_initial_options :: "pvp_options \<Rightarrow> initial_options" where
  "pvp_initial_options opts = \<lparr>io_rules = px_rules opts, io_timeLimit = Some PVP_TIME_LIMIT_SECONDS,
     io_playerModifiers = px_playerModifiers opts, io_enemyModifiers = px_enemyModifiers opts,
     io_battlefieldId = px_battlefieldId opts\<rparr>"

definition replay_summary :: "replay \<Rightarrow> battle_summary" where
  "replay_summary r =
     \<lparr>bs_status = (if rp_playing r then Draw else g_status (rp_state r)), bs_stats = g_stats (rp_state r),
      bs_duration = math_floor (g_elapsed (rp_state r)), bs_actionsProcessed = rp_actionIndex r\<rparr>"

definition simulatePvpBattle :: "hypot_fn \<Rightarrow> pvp_options \<Rightarrow> pvp_result run" where
  "simulatePvpBattle hyp opts =
     run_bind (Some (validateActions (px_actions opts))) (\<lambda>_.
       run_bind (Some (createInitialGameState (pvp_initial_options opts))) (\<lambda>s.
         let currentRules = (g_rules s = Some 2 \<or> usesTacticalRules (g_rules s));
             eps = (if currentRules then CLOCK_EPSILON else 0)
         in run_bind (replay_actions hyp opts currentRules eps (px_actions opts) (replay_start opts s)) (\<lambda>r.
           run_bind (replay_finish hyp opts currentRules eps r) (\<lambda>r.
             Some (Inr \<lparr>pv_finalState = rp_state r, pv_summary = replay_summary r\<rparr>)))))"

end
