(* ===== verification/AiFacts.thy ===== *)
theory AiFacts
  imports Abilities
begin

text \<open>
  The policies never throw on a well-formed match, and what they propose is legal: each move can be
  dispatched, whatever the other moves of the same turn were.
\<close>

section \<open>Complete boards\<close>

text \<open>A match on its whole battlefield: every tower of the map is a territory of the state.\<close>

definition wf_match :: "game_state \<Rightarrow> bool" where
  "wf_match s \<longleftrightarrow> wf_board (g_territories s)
     \<and> (\<forall>m\<in>set (g_armies s). wf_army (obj_keys (g_territories s)) m \<and> a_progress m < 1)
     \<and> set (map t_id (b_territories (getBattlefield (g_battlefieldId s)))) \<subseteq> set (obj_keys (g_territories s))"

lemma neighbor_territory:
  assumes "wf_match s" "b \<in> set (tacticalNeighbors s a)"
  shows "\<exists>t. obj_get (g_territories s) b = Some t"
proof -
  have "b \<in> t_id ` set (b_territories (getBattlefield (g_battlefieldId s)))"
    using assms(2) getBattlefield_roads [of _ _ "g_battlefieldId s"] by (auto simp: tacticalNeighbors_iff)
  then have "b \<in> set (obj_keys (g_territories s))" using assms(1) by (auto simp: wf_match_def)
  then show ?thesis by (rule obj_get_ex)
qed

lemma wf_board_values:
  assumes "wf_board ts"
  shows "map t_id (obj_values ts) = obj_keys ts"
    and "t \<in> set (obj_values ts) \<Longrightarrow> obj_get ts (t_id t) = Some t"
proof -
  have get: "obj_get ts i = Some t" if "(i, t) \<in> set ts" for i t
    using assms that by (simp add: wf_board_def)
  then have ids: "t_id t = i" if "(i, t) \<in> set ts" for i t
    using wf_boardD [OF assms get [OF that]] by (simp add: wf_tower_def)
  then show "map t_id (obj_values ts) = obj_keys ts" by auto
  show "t \<in> set (obj_values ts) \<Longrightarrow> obj_get ts (t_id t) = Some t" using get ids by fastforce
qed

lemma wf_board_tower: "wf_board ts \<Longrightarrow> t \<in> set (obj_values ts) \<Longrightarrow> wf_tower (t_id t) t"
  using wf_board_values(2) wf_boardD by blast

lemma distinct_map_js_sort: "distinct (map f (js_sort cmp xs)) = distinct (map f xs)"
  by (metis mset_js_sort mset_map mset_eq_imp_distinct_iff)

lemma sorted_towers:
  assumes "wf_match s"
  shows "distinct (map t_id (sorted_towers s))"
    and "t \<in> set (sorted_towers s) \<Longrightarrow> obj_get (g_territories s) (t_id t) = Some t"
proof -
  have board: "wf_board (g_territories s)" using assms by (simp add: wf_match_def)
  have "distinct (obj_keys (g_territories s))" using board by (simp add: wf_board_def)
  then show "distinct (map t_id (sorted_towers s))"
    unfolding sorted_towers_def distinct_map_js_sort wf_board_values(1) [OF board] .
  show "t \<in> set (sorted_towers s) \<Longrightarrow> obj_get (g_territories s) (t_id t) = Some t"
    unfolding sorted_towers_def set_js_sort by (rule wf_board_values(2) [OF board])
qed

section \<open>Throwing array methods\<close>

lemma some_res_total: "(\<And>x. x \<in> set xs \<Longrightarrow> \<exists>b. p x = Inr b) \<Longrightarrow> \<exists>b. some_res p xs = Inr b"
  by (induction xs) fastforce+

lemma filter_res_total: "(\<And>x. x \<in> set xs \<Longrightarrow> \<exists>b. p x = Inr b) \<Longrightarrow> \<exists>ys. filter_res p xs = Inr ys"
  by (induction xs) fastforce+

lemma filter_res_subset: "filter_res p xs = Inr ys \<Longrightarrow> set ys \<subseteq> set xs"
  by (induction xs arbitrary: ys) (fastforce simp: rbind_eq_Inr split: if_splits)+

lemma find_res_total: "(\<And>x. x \<in> set xs \<Longrightarrow> \<exists>b. p x = Inr b) \<Longrightarrow> \<exists>r. find_res p xs = Inr r"
  by (induction xs) fastforce+

lemma find_res_mem: "find_res p xs = Inr (Some x) \<Longrightarrow> x \<in> set xs"
  by (induction xs) (auto simp: rbind_eq_Inr split: if_splits)

lemma flat_map_res_total: "(\<And>x. x \<in> set xs \<Longrightarrow> \<exists>ys. f x = Inr ys) \<Longrightarrow> \<exists>ys. flat_map_res f xs = Inr ys"
  using map_res_total [of xs f] by (auto simp: flat_map_res_def)

lemma flat_map_res_mem:
  assumes "flat_map_res f xs = Inr ys" "y \<in> set ys"
  shows "\<exists>x\<in>set xs. \<exists>zs. f x = Inr zs \<and> y \<in> set zs"
proof -
  obtain zss where zss: "map_res f xs = Inr zss" "ys = concat zss"
    using assms(1) by (auto simp: flat_map_res_def rbind_eq_Inr)
  then obtain zs where "zs \<in> set zss" "y \<in> set zs" using assms(2) by auto
  then show ?thesis using map_res_in [OF zss(1)] by blast
qed

lemma first_res_total: "(\<And>x. x \<in> set xs \<Longrightarrow> \<exists>r. f x = Inr r) \<Longrightarrow> \<exists>r. first_res f xs = Inr r"
proof (induction xs)
  case (Cons x xs)
  from Cons.prems obtain r where "f x = Inr r" by auto
  then show ?case using Cons by (cases r) simp_all
qed simp

lemma first_res_mem: "first_res f xs = Inr (Some y) \<Longrightarrow> \<exists>x\<in>set xs. f x = Inr (Some y)"
  by (induction xs) (auto simp: rbind_eq_Inr split: option.splits)

text \<open>A flat map whose pieces are empty or the single element they come from keeps keys distinct.\<close>

lemma flat_map_res_distinct:
  assumes "flat_map_res f xs = Inr ys" "distinct (map k xs)"
    and "\<And>x zs. x \<in> set xs \<Longrightarrow> f x = Inr zs \<Longrightarrow> map g zs = [] \<or> map g zs = [x]"
  shows "distinct (map (\<lambda>y. k (g y)) ys) \<and> set (map g ys) \<subseteq> set xs"
proof -
  have "distinct (map (\<lambda>y. k (g y)) (concat zss)) \<and> set (map g (concat zss)) \<subseteq> set xs"
    if "map_res f xs = Inr zss" for zss
    using that assms(2,3)
  proof (induction xs arbitrary: zss)
    case (Cons x xs)
    from Cons.prems(1) obtain zs zss' where z: "f x = Inr zs" "map_res f xs = Inr zss'" "zss = zs # zss'"
      by (auto simp: rbind_eq_Inr)
    have IH: "distinct (map (\<lambda>y. k (g y)) (concat zss')) \<and> set (map g (concat zss')) \<subseteq> set xs"
      using Cons.IH [OF z(2)] Cons.prems by simp
    have fresh: "k x \<notin> set (map (\<lambda>y. k (g y)) (concat zss'))" using IH Cons.prems(2) by auto
    have "map g zs = [] \<or> map g zs = [x]" using Cons.prems(3) [of x zs] z(1) by simp
    then consider "zs = []" | y where "zs = [y]" "g y = x" by (auto simp: map_eq_Cons_conv)
    then show ?case
    proof cases
      case 1
      then show ?thesis using IH z(3) by auto
    next
      case 2
      then show ?thesis using IH z(3) fresh by auto
    qed
  qed simp
  moreover obtain zss where "map_res f xs = Inr zss" "ys = concat zss"
    using assms(1) by (auto simp: flat_map_res_def rbind_eq_Inr)
  ultimately show ?thesis by blast
qed

section \<open>Arrival times\<close>

lemma remaining_legs_total:
  "set ids \<subseteq> set (obj_keys (g_territories s)) \<Longrightarrow> \<exists>r. remaining_legs hyp m s dest i ids secs = Inr r"
proof (induction hyp m s dest i ids secs rule: remaining_legs.induct)
  case (1 hyp m s dest i a b ids secs)
  then have mem: "a \<in> set (obj_keys (g_territories s))" "b \<in> set (obj_keys (g_territories s))" by auto
  obtain ta tb where "obj_get (g_territories s) a = Some ta" "obj_get (g_territories s) b = Some tb"
    using mem [THEN obj_get_ex] by blast
  then show ?case using 1 by simp
qed simp_all

lemma armyArrivalSeconds_total:
  assumes "\<And>ids. a_routeIds m = Some ids \<Longrightarrow> set ids \<subseteq> set (obj_keys (g_territories s))"
  shows "\<exists>r. armyArrivalSeconds hyp m s = Inr r"
proof (cases "a_routeIds m")
  case (Some ids)
  have "set (drop (Suc (army_leg m)) ids) \<subseteq> set (obj_keys (g_territories s))"
    using assms [OF Some] set_drop_subset by (rule subset_trans [rotated])
  from remaining_legs_total [OF this] show ?thesis using Some by (simp add: armyArrivalSeconds_def Let_def)
qed (simp add: armyArrivalSeconds_def Let_def)

lemma tacticalIncoming_total:
  assumes "wf_match s"
  shows "\<exists>xs. tacticalIncoming hyp s i = Inr xs"
proof -
  have "\<exists>r. armyArrivalSeconds hyp m s = Inr r" if "m \<in> set (g_armies s)" for m
    by (rule armyArrivalSeconds_total) (use assms that in \<open>auto simp: wf_match_def wf_army_def\<close>)
  then have "\<exists>xs. map_res (\<lambda>(m, index). rbind (armyArrivalSeconds hyp m s) (\<lambda>eta.
      Inr \<lparr>in_army = m, in_index = index, in_eta = eta\<rparr>))
    (zip (filter (\<lambda>a. armyDestination a (Some s) = i) (g_armies s))
       [0..<length (filter (\<lambda>a. armyDestination a (Some s) = i) (g_armies s))]) = Inr xs"
    by (intro map_res_total) (fastforce dest: set_zip_leftD)
  then show ?thesis by (auto simp: tacticalIncoming_def Let_def)
qed

lemma hostile_incoming_total: "wf_match s \<Longrightarrow> \<exists>xs. hostile_incoming hyp s w i = Inr xs"
  using tacticalIncoming_total [of s hyp i] by (auto simp: hostile_incoming_def)

lemma tacticalForecast_total: "wf_match s \<Longrightarrow> \<exists>t'. tacticalForecast hyp s t secs u d = Inr t'"
  using tacticalIncoming_total [of s hyp "t_id t"] by (auto simp: tacticalForecast_def)

section \<open>Legal moves\<close>

definition legal_move :: "hypot_fn \<Rightarrow> game_state \<Rightarrow> team \<Rightarrow> ai_move \<Rightarrow> bool" where
  "legal_move hyp s w mv \<longleftrightarrow> am_from mv \<noteq> am_to mv
     \<and> (\<exists>src tgt. obj_get (g_territories s) (am_from mv) = Some src \<and> obj_get (g_territories s) (am_to mv) = Some tgt
          \<and> t_owner src = w \<and> 1 < t_units src)
     \<and> (\<exists>route. findDispatchRoute hyp s (am_from mv) (am_to mv) w = Inr (Some route))"

lemma dispatch_units_pos: "0 < calculateDispatchUnits u r \<longleftrightarrow> 1 < u"
  by (auto simp: calculateDispatchUnits_def)

lemma legal_move_dispatch:
  assumes "legal_move hyp s w mv" "hypot_ok hyp" "wf_board (g_territories s)"
    and "obj_get (g_territories s) (am_from mv) = Some src" "obj_get (g_territories s) (am_to mv) = Some tgt"
  shows "\<exists>left m. dispatchArmy hyp src tgt w (1 / 2) i speed (Some s) = Inr (Dispatched left m)"
proof -
  obtain route where route: "findDispatchRoute hyp s (am_from mv) (am_to mv) w = Inr (Some route)"
    "am_from mv \<noteq> am_to mv" "t_owner src = w" "1 < t_units src"
    using assms(1,4,5) by (auto simp: legal_move_def)
  have ids: "t_id src = am_from mv" "t_id tgt = am_to mv"
    using wf_boardD [OF assms(3)] assms(4,5) by (auto simp: wf_tower_def)
  have r: "dispatch_route hyp (Some s) src tgt w = Inr (Some route)" by (simp add: dispatch_route_def ids route)
  have "\<exists>m'. routed_army hyp (Some s) src route (safe_speed_multiplier speed) m = Inr m'" for m
    by (rule routed_army_total [OF assms(2) r])
  then obtain f where "\<And>m. routed_army hyp (Some s) src route (safe_speed_multiplier speed) m = Inr (f m)" by metis
  then show ?thesis using r route ids dispatch_units_pos [of "t_units src" "1 / 2"]
    by (simp add: dispatchArmy_def Let_def not_le)
qed

lemma dispatched_legal:
  assumes "dispatchArmy hyp src tgt w ratio i speed (Some s) = Inr (Dispatched left m)"
    and "obj_get (g_territories s) (t_id src) = Some src" "obj_get (g_territories s) (t_id tgt) = Some tgt"
  shows "legal_move hyp s w \<lparr>am_from = t_id src, am_to = t_id tgt\<rparr>"
  using assms(1)
  by (rule dispatchArmy_Dispatched)
    (use assms(2,3) in \<open>auto simp: legal_move_def dispatch_route_def dispatch_units_pos\<close>)

text \<open>The army of a dispatch is well formed, and its route stays on the board.\<close>

lemma route_on_board:
  assumes "hypot_ok hyp" "usesTacticalRules (g_rules s)" "findDispatchRoute hyp s src tgt w = Inr (Some ids)"
  shows "set ids \<subseteq> set (obj_keys (g_territories s))"
proof -
  have path: "last ids = tgt" "2 \<le> length ids" "\<forall>i\<in>set (butlast ids). owned_tower s w i"
    using findDispatchRoute_path [OF assms] by blast+
  obtain ys where ys: "ids = ys @ [tgt]" using path(1,2) by (cases ids rule: rev_cases) auto
  have "tgt \<in> set (obj_keys (g_territories s))"
    using assms(3) by (auto elim!: findDispatchRoute_guards dest: obj_get_Some_key)
  moreover have "i \<in> set (obj_keys (g_territories s))" if "i \<in> set ys" for i
    using path(3) that obj_get_Some_key [of "g_territories s" i] by (auto simp: owned_tower_def ys)
  ultimately show ?thesis by (auto simp: ys)
qed

lemma dispatched_army_wf:
  assumes "dispatchArmy hyp src tgt w (1 / 2) i speed (Some s) = Inr (Dispatched left m)" "hypot_ok hyp"
    and "t_units src \<in> \<nat>" "w \<noteq> Neutral"
  shows "wf_army (obj_keys (g_territories s)) m \<and> a_progress m < 1 \<and> a_owner m = w"
  using assms(1)
proof (rule dispatchArmy_Dispatched, goal_cases)
  case (1 route)
  let ?u = "calculateDispatchUnits (t_units src) (1 / 2)"
  have "?u \<in> \<nat>" using assms(3) by (auto simp: calculateDispatchUnits_def Nats_iff max_def)
  moreover have "set ids \<subseteq> set (obj_keys (g_territories s))" if "a_routeIds m = Some ids" for ids
  proof -
    have "usesTacticalRules (g_rules s)" "ids = route"
      using 1(5) that by (auto simp: routed_army_def rbind_eq_Inr split: if_splits)
    then show ?thesis using route_on_board [OF assms(2), of s "t_id src" "t_id tgt" w ids] 1(3)
      by (simp add: dispatch_route_def)
  qed
  ultimately show ?case
    using routed_army_Inr [OF 1(5)] new_army_speed assms(4) by (simp add: wf_army_def)
qed

text \<open>Owners and places decide which routes exist: another board with the same ones has them too.\<close>

definition same_map :: "game_state \<Rightarrow> game_state \<Rightarrow> bool" where
  "same_map s s' \<longleftrightarrow> g_battlefieldId s' = g_battlefieldId s \<and> g_rules s' = g_rules s
     \<and> (\<forall>i. map_option (\<lambda>t. (t_owner t, t_x t, t_y t)) (obj_get (g_territories s') i)
          = map_option (\<lambda>t. (t_owner t, t_x t, t_y t)) (obj_get (g_territories s) i))"

lemma same_mapD:
  assumes "same_map s s'" "obj_get (g_territories s) i = Some t"
  shows "\<exists>t'. obj_get (g_territories s') i = Some t' \<and> t_owner t' = t_owner t \<and> t_x t' = t_x t \<and> t_y t' = t_y t"
proof -
  have "map_option (\<lambda>t. (t_owner t, t_x t, t_y t)) (obj_get (g_territories s') i) = Some (t_owner t, t_x t, t_y t)"
    using assms by (simp add: same_map_def)
  then show ?thesis by (auto simp: map_option_case split: option.splits)
qed

lemma same_map_neighbors: "same_map s s' \<Longrightarrow> tacticalNeighbors s' i = tacticalNeighbors s i"
  by (simp add: tacticalNeighbors_def same_map_def)

lemma same_map_walk:
  assumes "friendly_walk hyp s w src p a c" "same_map s s'"
  shows "friendly_walk hyp s' w src p a c"
  using assms
proof induction
  case walk_start
  show ?case by (rule friendly_walk.walk_start)
next
  case (walk_step p a c b ta tb)
  obtain ta' tb' where t: "obj_get (g_territories s') a = Some ta'" "obj_get (g_territories s') b = Some tb'"
    "t_owner tb' = w" "legCost hyp ta tb = legCost hyp ta' tb'"
    using same_mapD [OF walk_step.prems walk_step.hyps(3)] same_mapD [OF walk_step.prems walk_step.hyps(4)]
      walk_step.hyps(5) by (auto simp: legCost_def territory_distance_def)
  have "b \<in> set (tacticalNeighbors s' a)" using walk_step by (simp add: same_map_neighbors)
  from friendly_walk.walk_step [OF walk_step.IH [OF walk_step.prems] this t(1,2,3)] show ?case by (simp add: t(4))
qed

lemma same_map_route:
  assumes "findDispatchRoute hyp s src tgt w = Inr (Some r)" "same_map s s'" "hypot_ok hyp"
  shows "\<exists>r'. findDispatchRoute hyp s' src tgt w = Inr (Some r')"
proof -
  obtain ts tt where src: "obj_get (g_territories s) src = Some ts" "t_owner ts = w"
    and tgt: "obj_get (g_territories s) tgt = Some tt" and ne: "src \<noteq> tgt"
    using assms(1) by (rule findDispatchRoute_guards)
  obtain ts' tt' where src': "obj_get (g_territories s') src = Some ts'" "t_owner ts' = w"
    and tgt': "obj_get (g_territories s') tgt = Some tt'" "t_owner tt' = t_owner tt"
    using same_mapD [OF assms(2) src(1)] same_mapD [OF assms(2) tgt] src(2) by auto
  have rules: "g_rules s' = g_rules s" using assms(2) by (simp add: same_map_def)
  show ?thesis
  proof (cases "usesTacticalRules (g_rules s)")
    case True
    obtain c where opt: "route_option hyp s w src tgt r c"
      using findDispatchRoute_tactical [OF assms(3) True ne src tgt] assms(1) by (metis Inr_inject)
    have "\<exists>ids c. route_option hyp s' w src tgt ids c"
    proof (cases "t_owner tt = w")
      case True
      then have "friendly_walk hyp s w src r tgt c" using opt tgt by (simp add: route_option_def)
      from same_map_walk [OF this assms(2)] show ?thesis using True tgt' by (auto simp: route_option_def)
    next
      case False
      then obtain p a k ta where w: "friendly_walk hyp s w src p a k" "tgt \<in> set (tacticalNeighbors s a)"
        "obj_get (g_territories s) a = Some ta"
        using opt tgt by (auto simp: route_option_def)
      obtain ta' where "obj_get (g_territories s') a = Some ta'" using same_mapD [OF assms(2) w(3)] by blast
      moreover have "tgt \<in> set (tacticalNeighbors s' a)" using w(2) by (simp add: same_map_neighbors [OF assms(2)])
      ultimately have "route_option hyp s' w src tgt (p @ [tgt]) (jadd k (legCost hyp ta' tt'))"
        using same_map_walk [OF w(1) assms(2)] False tgt' unfolding route_option_def by auto
      then show ?thesis by blast
    qed
    then show ?thesis
      using findDispatchRoute_tactical [OF assms(3) True [folded rules] ne src' tgt'(1)]
      by (metis option.exhaust)
  next
    case False
    then show ?thesis using src' tgt' ne rules by (simp add: findDispatchRoute_def)
  qed
qed

end
