(* ===== verification/PolicyFacts.thy ===== *)
theory PolicyFacts
  imports AiFacts
begin

text \<open>Totality and legality of both policies and of the bot's choice of an ability.\<close>

section \<open>Candidates\<close>

lemma source_candidate_total:
  assumes "wf_match s" "hypot_ok hyp" "t_units source \<in> \<nat>" "w \<noteq> Neutral"
  shows "\<exists>cs. source_candidate hyp s w speed target source = Inr cs"
proof -
  obtain d where d: "dispatchArmy hyp source target w (1 / 2) ''candidate'' speed (Some s) = Inr d"
    using dispatchArmy_total [OF assms(2)] by blast
  show ?thesis
  proof (cases d)
    case (DispatchFailed r)
    then show ?thesis using d by (simp add: source_candidate_def)
  next
    case (Dispatched left m)
    have "wf_army (obj_keys (g_territories s)) m"
      using dispatched_army_wf [OF d [unfolded Dispatched] assms(2-4)] by blast
    then obtain eta where "armyArrivalSeconds hyp m s = Inr eta"
      using armyArrivalSeconds_total [of m s hyp] by (auto simp: wf_army_def)
    moreover obtain hostile where "hostile_incoming hyp s w (t_id source) = Inr hostile"
      using hostile_incoming_total [OF assms(1)] by blast
    moreover obtain t where "tacticalForecast hyp s source (in_eta (last hostile)) (t_units left) 1 = Inr t"
      using tacticalForecast_total [OF assms(1)] by blast
    ultimately show ?thesis using d Dispatched by (simp add: source_candidate_def)
  qed
qed

lemma source_candidate_Inr:
  assumes "source_candidate hyp s w speed target source = Inr cs"
  shows "cs = [] \<or> (\<exists>m eta left. cs = [\<lparr>cd_source = source, cd_army = m, cd_eta = eta\<rparr>]
    \<and> dispatchArmy hyp source target w (1 / 2) ''candidate'' speed (Some s) = Inr (Dispatched left m))"
proof -
  obtain d where d: "dispatchArmy hyp source target w (1 / 2) ''candidate'' speed (Some s) = Inr d"
    using assms by (auto simp: source_candidate_def rbind_eq_Inr)
  show ?thesis
  proof (cases d)
    case DispatchFailed
    then show ?thesis using assms d by (simp add: source_candidate_def)
  next
    case (Dispatched left m)
    obtain hostile where h: "hostile_incoming hyp s w (t_id source) = Inr hostile"
      using assms d Dispatched by (auto simp: source_candidate_def rbind_eq_Inr)
    let ?falls = "if hostile = [] then Inr False
      else rbind (tacticalForecast hyp s source (in_eta (last hostile)) (t_units left) 1) (\<lambda>t. Inr (t_owner t \<noteq> w))"
    have rest: "rbind ?falls (\<lambda>falls. if falls then Inr [] else rbind (armyArrivalSeconds hyp m s)
        (\<lambda>eta. Inr [\<lparr>cd_source = source, cd_army = m, cd_eta = eta\<rparr>])) = Inr cs"
      using assms d Dispatched h by (simp add: source_candidate_def)
    then obtain falls where "?falls = Inr falls"
      "(if falls then Inr [] else rbind (armyArrivalSeconds hyp m s)
        (\<lambda>eta. Inr [\<lparr>cd_source = source, cd_army = m, cd_eta = eta\<rparr>])) = Inr cs"
      unfolding rbind_eq_Inr by blast
    then show ?thesis using d Dispatched by (cases falls) (auto simp: rbind_eq_Inr)
  qed
qed

abbreviation candidate_sources :: "game_state \<Rightarrow> team \<Rightarrow> territory \<Rightarrow> territory list" where
  "candidate_sources s w target \<equiv>
     filter (\<lambda>t. t_owner t = w \<and> 4 \<le> t_units t \<and> t_id t \<noteq> t_id target) (sorted_towers s)"

lemma sorted_tower_wf: "wf_match s \<Longrightarrow> t \<in> set (sorted_towers s) \<Longrightarrow> wf_tower (t_id t) t"
  using sorted_towers(2) wf_boardD unfolding wf_match_def by blast

lemma move_candidates_total:
  assumes "wf_match s" "hypot_ok hyp" "w \<noteq> Neutral"
  shows "\<exists>cs. move_candidates hyp s w speed target = Inr cs"
proof -
  have "\<exists>cs. source_candidate hyp s w speed target source = Inr cs" if "source \<in> set (candidate_sources s w target)" for source
    using that sorted_tower_wf [OF assms(1), of source] source_candidate_total [OF assms(1,2) _ assms(3)]
    by (simp add: wf_tower_def)
  then obtain cs where "flat_map_res (source_candidate hyp s w speed target) (candidate_sources s w target) = Inr cs"
    using flat_map_res_total [of "candidate_sources s w target" "source_candidate hyp s w speed target"] by blast
  then show ?thesis by (simp add: move_candidates_def)
qed

text \<open>The sources of the candidates are different towers, and each of them can send its half to the target.\<close>

definition legal_candidates :: "hypot_fn \<Rightarrow> game_state \<Rightarrow> team \<Rightarrow> territory \<Rightarrow> candidate list \<Rightarrow> bool" where
  "legal_candidates hyp s w target cs \<longleftrightarrow> distinct (map (\<lambda>c. t_id (cd_source c)) cs)
     \<and> (\<forall>c\<in>set cs. cd_source c \<in> set (sorted_towers s) \<and> t_owner (cd_source c) = w \<and> 4 \<le> t_units (cd_source c)
          \<and> legal_move hyp s w (candidate_move target c))"

lemma move_candidates_legal:
  assumes "move_candidates hyp s w speed target = Inr cs" "wf_match s" "target \<in> set (sorted_towers s)"
  shows "legal_candidates hyp s w target cs"
proof -
  obtain xs where xs: "flat_map_res (source_candidate hyp s w speed target) (candidate_sources s w target) = Inr xs"
    "cs = js_sort cmp_candidate xs"
    using assms(1) by (auto simp: move_candidates_def rbind_eq_Inr)
  have dist: "distinct (map t_id (candidate_sources s w target))"
    by (rule distinct_map_filter [OF sorted_towers(1) [OF assms(2)]])
  have piece: "map cd_source zs = [] \<or> map cd_source zs = [x]"
    if "source_candidate hyp s w speed target x = Inr zs" for x zs
    using source_candidate_Inr [OF that] by auto
  have "distinct (map (\<lambda>c. t_id (cd_source c)) xs) \<and> set (map cd_source xs) \<subseteq> set (candidate_sources s w target)"
    by (rule flat_map_res_distinct [OF xs(1) dist piece])
  then have "distinct (map (\<lambda>c. t_id (cd_source c)) cs)"
    and sub: "\<forall>c\<in>set cs. cd_source c \<in> set (candidate_sources s w target)"
    by (auto simp: xs(2) distinct_map_js_sort)
  moreover have "legal_move hyp s w (candidate_move target c)" if mem: "c \<in> set cs" for c
  proof -
    obtain source zs where z: "source \<in> set (candidate_sources s w target)"
      "source_candidate hyp s w speed target source = Inr zs" "c \<in> set zs"
      using flat_map_res_mem [OF xs(1), of c] mem by (auto simp: xs(2))
    then obtain left m where "dispatchArmy hyp source target w (1 / 2) ''candidate'' speed (Some s) = Inr (Dispatched left m)"
      "cd_source c = source"
      using source_candidate_Inr [OF z(2)] by auto
    then show ?thesis
      using dispatched_legal [of hyp source target w] sorted_towers(2) [OF assms(2)] z(1) assms(3)
      by (simp add: candidate_move_def)
  qed
  ultimately show ?thesis by (simp add: legal_candidates_def)
qed

section \<open>Moves\<close>

definition legal_moves :: "hypot_fn \<Rightarrow> game_state \<Rightarrow> team \<Rightarrow> ai_move list \<Rightarrow> bool" where
  "legal_moves hyp s w ms \<longleftrightarrow> distinct (map am_from ms) \<and> (\<forall>mv\<in>set ms. legal_move hyp s w mv)"

lemma legal_moves_Nil [simp]: "legal_moves hyp s w []"
  by (simp add: legal_moves_def)

lemma legal_moves_take:
  assumes "legal_candidates hyp s w target cs"
  shows "legal_moves hyp s w (map (candidate_move target) (take k (filter P cs)))"
proof -
  have "distinct (map (\<lambda>c. t_id (cd_source c)) (filter P cs))"
    using assms by (intro distinct_map_filter) (simp add: legal_candidates_def)
  then have "distinct (take k (map (\<lambda>c. t_id (cd_source c)) (filter P cs)))" by (rule distinct_take)
  then have "distinct (map (am_from \<circ> candidate_move target) (take k (filter P cs)))"
    by (simp add: take_map candidate_move_def comp_def)
  moreover have "\<forall>c\<in>set (take k (filter P cs)). legal_move hyp s w (candidate_move target c)"
    using assms by (auto simp: legal_candidates_def dest!: in_set_takeD)
  ultimately show ?thesis by (simp add: legal_moves_def)
qed

lemma rescue_loop_prefix:
  "rescue_loop hyp s w target horizon cs units moves = Inr (Some ms) \<Longrightarrow>
     \<exists>k. ms = moves @ map (candidate_move target) (take k cs)"
proof (induction cs arbitrary: units moves)
  case (Cons c cs)
  from Cons.prems Cons.IH consider "ms = moves @ [candidate_move target c]"
    | k where "ms = (moves @ [candidate_move target c]) @ map (candidate_move target) (take k cs)"
    by (fastforce simp: rbind_eq_Inr Let_def split: if_splits)
  then show ?case
  proof cases
    case 1
    then show ?thesis by (intro exI [of _ "Suc 0"]) simp
  next
    case (2 k)
    then show ?thesis by (intro exI [of _ "Suc k"]) simp
  qed
qed simp

lemma rescue_loop_total:
  "wf_match s \<Longrightarrow> \<exists>r. rescue_loop hyp s w target horizon cs units moves = Inr r"
proof (induction cs arbitrary: units moves)
  case (Cons c cs)
  obtain t where "tacticalForecast hyp s target horizon (jadd units (a_units (cd_army c))) 1 = Inr t"
    using tacticalForecast_total [OF Cons.prems] by blast
  then show ?case using Cons by (simp add: Let_def)
qed simp

lemma attack_loop_prefix:
  "attack_loop w target cs remaining moves = Some (score, ms) \<Longrightarrow>
     \<exists>k. ms = moves @ map (candidate_move target) (take k cs)"
proof (induction cs arbitrary: remaining moves)
  case (Cons c cs)
  from Cons.prems Cons.IH consider "ms = moves @ [candidate_move target c]"
    | k where "ms = (moves @ [candidate_move target c]) @ map (candidate_move target) (take k cs)"
    by (fastforce simp: Let_def split: if_splits)
  then show ?case
  proof cases
    case 1
    then show ?thesis by (intro exI [of _ "Suc 0"]) simp
  next
    case (2 k)
    then show ?thesis by (intro exI [of _ "Suc k"]) simp
  qed
qed simp

lemma rescue_tower_ok:
  assumes "wf_match s" "hypot_ok hyp" "w \<noteq> Neutral" "target \<in> set (sorted_towers s)"
  shows "\<exists>r. rescue_tower hyp s w speed target = Inr r \<and> (\<forall>ms. r = Some ms \<longrightarrow> legal_moves hyp s w ms)"
proof -
  obtain hostile where h: "hostile_incoming hyp s w (t_id target) = Inr hostile"
    using hostile_incoming_total [OF assms(1)] by blast
  obtain t where t: "tacticalForecast hyp s target (in_eta (last hostile)) (t_units target) 1 = Inr t"
    using tacticalForecast_total [OF assms(1)] by blast
  obtain cs where cs: "move_candidates hyp s w speed target = Inr cs"
    using move_candidates_total [OF assms(1-3)] by blast
  define cs' where "cs' = filter (\<lambda>c. cd_eta c < jsub (in_eta (hd hostile)) ETA_EPSILON) cs"
  obtain r where r: "rescue_loop hyp s w target (in_eta (last hostile)) cs' (t_units target) [] = Inr r"
    using rescue_loop_total [OF assms(1)] by blast
  have "legal_moves hyp s w ms" if "r = Some ms" for ms
    using rescue_loop_prefix [OF r [unfolded that]] legal_moves_take [OF move_candidates_legal [OF cs assms(1,4)]]
    by (auto simp: cs'_def)
  then show ?thesis using h t cs r by (auto simp: rescue_tower_def Let_def cs'_def)
qed

lemma attack_target_ok:
  assumes "wf_match s" "hypot_ok hyp" "w \<noteq> Neutral" "target \<in> set (sorted_towers s)"
  shows "\<exists>r. attack_target hyp s w speed target = Inr r \<and> (\<forall>sc ms. r = Some (sc, ms) \<longrightarrow> legal_moves hyp s w ms)"
proof -
  obtain cs where cs: "move_candidates hyp s w speed target = Inr cs"
    using move_candidates_total [OF assms(1-3)] by blast
  obtain t where t: "tacticalForecast hyp s target (cd_eta (last cs)) (t_units target) 1 = Inr t"
    using tacticalForecast_total [OF assms(1)] by blast
  have "legal_moves hyp s w ms" if "attack_loop w target cs rem [] = Some (sc, ms)" for rem sc ms
    using attack_loop_prefix [OF that] legal_moves_take [OF move_candidates_legal [OF cs assms(1,4)], of _ "\<lambda>_. True"]
    by auto
  then show ?thesis using cs t by (auto simp: attack_target_def Let_def)
qed

definition legal_best :: "hypot_fn \<Rightarrow> game_state \<Rightarrow> team \<Rightarrow> (num \<times> ai_move list) option \<Rightarrow> bool" where
  "legal_best hyp s w best \<longleftrightarrow> (\<forall>sc ms. best = Some (sc, ms) \<longrightarrow> legal_moves hyp s w ms)"

lemma best_attack_ok:
  assumes "wf_match s" "hypot_ok hyp" "w \<noteq> Neutral" "target \<in> set (sorted_towers s)" "legal_best hyp s w best"
  shows "\<exists>r. best_attack hyp s w speed target best = Inr r \<and> legal_best hyp s w r"
proof -
  obtain r where r: "attack_target hyp s w speed target = Inr r" "legal_best hyp s w r"
    using attack_target_ok [OF assms(1-4)] unfolding legal_best_def by blast
  then show ?thesis using assms(5)
    by (cases r; cases best) (auto simp: best_attack_def split: prod.splits)
qed

lemma frontier_total:
  assumes "wf_match s" shows "\<exists>b. frontier s w t = Inr b"
  unfolding frontier_def
  by (rule some_res_total) (use neighbor_territory [OF assms] in fastforce)

lemma hostile_neighbors_total:
  assumes "wf_match s" shows "\<exists>ts. hostile_neighbors s w i = Inr ts"
proof -
  have "\<exists>ts. map_res (\<lambda>j. defined_or_type_error (obj_get (g_territories s) j)) (tacticalNeighbors s i) = Inr ts"
    by (rule map_res_total) (use neighbor_territory [OF assms] in fastforce)
  then show ?thesis by (auto simp: hostile_neighbors_def)
qed

lemma supply_tower_ok:
  assumes "wf_match s" "hypot_ok hyp" "w \<noteq> Neutral" "target \<in> set (sorted_towers s)"
  shows "\<exists>r. supply_tower hyp s w speed target = Inr r \<and> (\<forall>ms. r = Some ms \<longrightarrow> legal_moves hyp s w ms)"
proof -
  obtain xs where xs: "tacticalIncoming hyp s (t_id target) = Inr xs"
    using tacticalIncoming_total [OF assms(1)] by blast
  obtain hostile where h: "hostile_neighbors s w (t_id target) = Inr hostile"
    using hostile_neighbors_total [OF assms(1)] by blast
  obtain cs where cs: "move_candidates hyp s w speed target = Inr cs"
    using move_candidates_total [OF assms(1-3)] by blast
  have "\<exists>b. rbind (frontier s w (cd_source c)) (\<lambda>b. Inr (\<not> b)) = Inr b" for c
    using frontier_total [OF assms(1), of w "cd_source c"] by auto
  then obtain found where found: "find_res (\<lambda>c. rbind (frontier s w (cd_source c)) (\<lambda>b. Inr (\<not> b))) cs = Inr found"
    using find_res_total by metis
  have "legal_moves hyp s w [candidate_move target c]" if "found = Some c" for c
    using find_res_mem [OF found [unfolded that]] move_candidates_legal [OF cs assms(1,4)]
    by (simp add: legal_moves_def legal_candidates_def)
  then show ?thesis using xs h cs found by (cases found) (simp_all add: supply_tower_def Let_def)
qed

lemma first_res_legal:
  assumes "\<And>t. t \<in> set ts \<Longrightarrow> \<exists>r. f t = Inr r \<and> (\<forall>ms. r = Some ms \<longrightarrow> legal_moves hyp s w ms)"
  shows "\<exists>r. first_res f ts = Inr r \<and> (\<forall>ms. r = Some ms \<longrightarrow> legal_moves hyp s w ms)"
proof -
  obtain r where r: "first_res f ts = Inr r" using first_res_total [of ts f] assms by blast
  have "legal_moves hyp s w ms" if some: "r = Some ms" for ms
  proof -
    obtain t where "t \<in> set ts" "f t = Inr (Some ms)" using first_res_mem [OF r [unfolded some]] by blast
    then show ?thesis using assms by fastforce
  qed
  with r show ?thesis by blast
qed

lemma evaluateTacticalMoves_ok:
  assumes wf: "wf_match s" and hyp: "hypot_ok hyp" and w: "w \<noteq> Neutral"
  shows "\<exists>ms. evaluateTacticalMoves hyp s w speed = Inr ms \<and> legal_moves hyp s w ms"
proof -
  let ?ts = "sorted_towers s"
  obtain rescue where rescue: "first_res (rescue_tower hyp s w speed) (filter (\<lambda>t. t_owner t = w) ?ts) = Inr rescue"
    "\<forall>ms. rescue = Some ms \<longrightarrow> legal_moves hyp s w ms"
    using first_res_legal [of "filter (\<lambda>t. t_owner t = w) ?ts" "rescue_tower hyp s w speed" hyp s w]
      rescue_tower_ok [OF wf hyp w] by auto
  have "\<exists>best. fold_res (best_attack hyp s w speed) (filter (\<lambda>t. t_owner t \<noteq> w) ?ts) None = Inr best \<and> legal_best hyp s w best"
    by (rule fold_res_total) (auto simp: legal_best_def [of _ _ _ None] intro: best_attack_ok [OF wf hyp w])
  then obtain best where best: "fold_res (best_attack hyp s w speed) (filter (\<lambda>t. t_owner t \<noteq> w) ?ts) None = Inr best"
    "legal_best hyp s w best" by blast
  have "\<exists>b. (if t_owner t = w then frontier s w t else Inr False) = Inr b" for t
    using frontier_total [OF wf, of w t] by (cases "t_owner t = w") auto
  then obtain front where front: "filter_res (\<lambda>t. if t_owner t = w then frontier s w t else Inr False) ?ts = Inr front"
    using filter_res_total [of ?ts "\<lambda>t. if t_owner t = w then frontier s w t else Inr False"] by blast
  have "set front \<subseteq> set ?ts" by (rule filter_res_subset [OF front])
  then have "\<exists>r. supply_tower hyp s w speed t = Inr r \<and> (\<forall>ms. r = Some ms \<longrightarrow> legal_moves hyp s w ms)"
    if "t \<in> set front" for t using supply_tower_ok [OF wf hyp w] that by blast
  then obtain sup where sup: "first_res (supply_tower hyp s w speed) front = Inr sup"
    "\<forall>ms. sup = Some ms \<longrightarrow> legal_moves hyp s w ms"
    using first_res_legal by blast
  show ?thesis
  proof (cases "g_status s = Playing")
    case True
    then show ?thesis using rescue best front sup
      by (cases rescue; cases best; cases sup) (auto simp: evaluateTacticalMoves_def Let_def legal_best_def)
  qed (simp add: evaluateTacticalMoves_def)
qed

section \<open>The first policy\<close>

abbreviation ready_sources :: "territory obj \<Rightarrow> team \<Rightarrow> num \<Rightarrow> territory list" where
  "ready_sources ts w n \<equiv> filter (\<lambda>t. t_owner t = w \<and> n \<le> t_units t) (obj_values ts)"

text \<open>The pairs the two loops compare, in their order.\<close>

definition ai_pairs :: "territory obj \<Rightarrow> team \<Rightarrow> num \<Rightarrow> (territory \<times> territory) list" where
  "ai_pairs ts w n = concat (map (\<lambda>src. map (Pair src) (filter (\<lambda>t. t_id t \<noteq> t_id src) (obj_values ts)))
     (filter (\<lambda>src. 0 < calculateDispatchUnits (t_units src) (1 / 2)) (ready_sources ts w n)))"

lemma nested_fold:
  "fold (\<lambda>src best. if P src then best else fold (f src) (g src) best) xs best =
   fold (\<lambda>(src, t). f src t) (concat (map (\<lambda>src. map (Pair src) (g src)) (filter (\<lambda>src. \<not> P src) xs))) best"
proof (induction xs arbitrary: best)
  case (Cons x xs)
  have "fold (\<lambda>(src, t). f src t) (map (Pair x) ys) b = fold (f x) ys b" for ys b
    by (induction ys arbitrary: b) auto
  then show ?case using Cons by simp
qed simp

lemma evaluateAiMove_pairs:
  "evaluateAiMove hyp ts w n =
     (case fold (\<lambda>(src, t). better_move hyp w src t) (ai_pairs ts w n) None of None \<Rightarrow> None
      | Some (score, m) \<Rightarrow> if AI_SCORE_EPSILON < score then Some m else None)"
  unfolding evaluateAiMove_def Let_def nested_fold ai_pairs_def by (simp add: not_le)

lemma concat_pairs: "(a, b) \<in> set (concat (map (\<lambda>x. map (Pair x) (g x)) xs)) \<longleftrightarrow> a \<in> set xs \<and> b \<in> set (g a)"
  by (induction xs) auto

lemma ai_pairs_iff:
  "(src, t) \<in> set (ai_pairs ts w n) \<longleftrightarrow> src \<in> set (obj_values ts) \<and> t \<in> set (obj_values ts)
     \<and> t_owner src = w \<and> n \<le> t_units src \<and> 1 < t_units src \<and> t_id src \<noteq> t_id t"
  unfolding ai_pairs_def concat_pairs by (auto simp: dispatch_units_pos)

definition best_of_pairs ::
  "hypot_fn \<Rightarrow> team \<Rightarrow> (territory \<times> territory) list \<Rightarrow> (num \<times> ai_move) option \<Rightarrow> bool" where
  "best_of_pairs hyp w ps r \<longleftrightarrow> (case r of None \<Rightarrow> ps = []
     | Some (sc, m) \<Rightarrow> (\<exists>(src, t)\<in>set ps. sc = scoreAiDispatch hyp src t w \<and> m = \<lparr>am_from = t_id src, am_to = t_id t\<rparr>)
         \<and> (\<forall>(src, t)\<in>set ps. scoreAiDispatch hyp src t w \<le> sc))"

lemma better_move_best:
  assumes "best_of_pairs hyp w qs b"
  shows "best_of_pairs hyp w (qs @ [p]) (better_move hyp w (fst p) (snd p) b)"
proof (cases b)
  case None
  then show ?thesis using assms by (auto simp: best_of_pairs_def better_move_def Let_def)
next
  case (Some x)
  obtain sc m where x: "x = (sc, m)" by (cases x)
  show ?thesis
  proof (cases "sc < scoreAiDispatch hyp (fst p) (snd p) w")
    case True
    then show ?thesis using assms Some x
      by (cases p) (fastforce simp: best_of_pairs_def better_move_def Let_def)
  next
    case False
    then show ?thesis using assms Some x
      by (cases p) (auto simp: best_of_pairs_def better_move_def Let_def)
  qed
qed

lemma better_fold:
  "best_of_pairs hyp w qs b \<Longrightarrow> best_of_pairs hyp w (qs @ ps) (fold (\<lambda>(src, t). better_move hyp w src t) ps b)"
proof (induction ps arbitrary: qs b)
  case (Cons p ps)
  show ?case using Cons.IH [OF better_move_best [OF Cons.prems, of p]] by (simp add: case_prod_beta)
qed simp

lemma evaluateAiMove_best:
  "case evaluateAiMove hyp ts w n of
     None \<Rightarrow> \<forall>(src, t)\<in>set (ai_pairs ts w n). scoreAiDispatch hyp src t w \<le> AI_SCORE_EPSILON
   | Some m \<Rightarrow> \<exists>(src, t)\<in>set (ai_pairs ts w n). m = \<lparr>am_from = t_id src, am_to = t_id t\<rparr>
       \<and> AI_SCORE_EPSILON < scoreAiDispatch hyp src t w
       \<and> (\<forall>(src', t')\<in>set (ai_pairs ts w n). scoreAiDispatch hyp src' t' w \<le> scoreAiDispatch hyp src t w)"
proof -
  let ?r = "fold (\<lambda>(src, t). better_move hyp w src t) (ai_pairs ts w n) None"
  have "best_of_pairs hyp w [] None" by (simp add: best_of_pairs_def)
  from better_fold [OF this, of "ai_pairs ts w n"] have best: "best_of_pairs hyp w (ai_pairs ts w n) ?r" by simp
  show ?thesis
  proof (cases ?r)
    case None
    then show ?thesis using best by (simp add: evaluateAiMove_pairs best_of_pairs_def)
  next
    case (Some x)
    obtain sc m where x: "x = (sc, m)" by (cases x)
    have all: "\<forall>(src, t)\<in>set (ai_pairs ts w n). scoreAiDispatch hyp src t w \<le> sc"
      and ex: "\<exists>(src, t)\<in>set (ai_pairs ts w n). sc = scoreAiDispatch hyp src t w \<and> m = \<lparr>am_from = t_id src, am_to = t_id t\<rparr>"
      using best Some x by (simp_all add: best_of_pairs_def)
    show ?thesis
    proof (cases "AI_SCORE_EPSILON < sc")
      case True
      then have "evaluateAiMove hyp ts w n = Some m" using Some x by (simp add: evaluateAiMove_pairs)
      then show ?thesis using True all ex by (simp only: option.case) blast
    next
      case False
      then have "evaluateAiMove hyp ts w n = None" using Some x by (simp add: evaluateAiMove_pairs)
      then show ?thesis using False all by (simp only: option.case) fastforce
    qed
  qed
qed

section \<open>The bot's ability\<close>

lemma tower_threat_total: "wf_match s \<Longrightarrow> \<exists>r. tower_threat hyp s w t = Inr r"
proof -
  assume wf: "wf_match s"
  obtain hostile where "hostile_incoming hyp s w (t_id t) = Inr hostile"
    using hostile_incoming_total [OF wf] by blast
  moreover obtain f where "tacticalForecast hyp s t (in_eta (last hostile)) (t_units t) 1 = Inr f"
    using tacticalForecast_total [OF wf] by blast
  ultimately show ?thesis by (simp add: tower_threat_def)
qed

lemma threatenedTowers_total: "wf_match s \<Longrightarrow> \<exists>r. threatenedTowers hyp s w = Inr r"
  unfolding threatenedTowers_def by (rule flat_map_res_total) (rule tower_threat_total)

lemma shield_saves_total: "wf_match s \<Longrightarrow> \<exists>b. shield_saves hyp s w t = Inr b"
  using tacticalForecast_total [of s hyp "th_tower t" "min (th_horizon t) (jsub (jdiv ability_shieldDurationMs 1000) 1)"
      "t_units (th_tower t)" ability_shieldDefenseMultiplier]
  by (auto simp: shield_saves_def Let_def)

lemma supply_saves_total: "wf_match s \<Longrightarrow> \<exists>b. supply_saves hyp s w t = Inr b"
  using tacticalForecast_total [of s hyp "th_tower t" "th_horizon t" "jadd (t_units (th_tower t)) ability_supplyUnits" 1]
  by (auto simp: supply_saves_def)

lemma legal_moves_tl: "legal_moves hyp s w (m # ms) \<Longrightarrow> legal_moves hyp s w ms"
  by (simp add: legal_moves_def)

text \<open>The bot keeps its moves, or spends the first one on a charge; it never throws.\<close>

lemma chooseBotAbility_ok:
  assumes wf: "wf_match s"
  shows "\<exists>r. chooseBotAbility hyp s w commander moves = Inr r
    \<and> (\<forall>c. r = Some c \<longrightarrow> bc_moves c = moves \<or> bc_moves c = tl moves)"
proof -
  obtain threats where t: "threatenedTowers hyp s w = Inr threats" using threatenedTowers_total [OF wf] by blast
  obtain saved where s: "filter_res (shield_saves hyp s w) threats = Inr saved"
    using filter_res_total [of threats "shield_saves hyp s w"] shield_saves_total [OF wf] by blast
  obtain rescued where r: "filter_res (supply_saves hyp s w) threats = Inr rescued"
    using filter_res_total [of threats "supply_saves hyp s w"] supply_saves_total [OF wf] by blast
  show ?thesis
    by (auto simp: chooseBotAbility_def t s r own_tower_choice_def split: option.splits ability.splits list.splits)
qed

end
