(* ===== verification/PvpFacts.thy ===== *)
theory PvpFacts
  imports Pvp PolicyFacts
begin

text \<open>The replay terminates, never throws on valid orders, keeps the match well formed and decides it.\<close>

section \<open>Loops\<close>

lemma run_bind_simps [simp]:
  "run_bind None f = None" "run_bind (Some (Inl e)) f = Some (Inl e)" "run_bind (Some (Inr v)) f = f v"
  by (simp_all add: run_bind_def)

text \<open>
  The interface of a loop that ends: its body returns, keeps an invariant and lowers a measure as long as the
  condition holds.
\<close>

locale terminating_loop =
  fixes c :: "'s \<Rightarrow> bool" and f :: "'s \<Rightarrow> 's run" and inv :: "'s \<Rightarrow> bool" and m :: "'s \<Rightarrow> nat"
  assumes body: "inv s \<Longrightarrow> c s \<Longrightarrow> \<exists>s'. f s = Some (Inr s') \<and> inv s' \<and> m s' < m s"
begin

lemma loop_returns:
  assumes "inv s"
  shows "\<exists>s'. while_run c f s = Some (Inr s') \<and> inv s' \<and> \<not> c s'"
proof -
  let ?b = "\<lambda>x. case x of Some (Inr v) \<Rightarrow> c v | _ \<Rightarrow> False" and ?f = "\<lambda>x. run_bind x f"
  let ?P = "\<lambda>x. \<exists>v. x = Some (Inr v) \<and> inv v" and ?m = "\<lambda>x. case x of Some (Inr v) \<Rightarrow> m v | _ \<Rightarrow> 0"
  have step: "?P (?f x) \<and> ?m (?f x) < ?m x" if P: "?P x" and b: "?b x" for x
  proof -
    obtain v where v: "x = Some (Inr v)" "inv v" using P by blast
    then obtain v' where "f v = Some (Inr v')" "inv v'" "m v' < m v" using body [of v] b by auto
    with v show ?thesis by simp
  qed
  have start: "?P (Some (Inr s))" using assms by simp
  obtain x where x: "while_option ?b ?f (Some (Inr s)) = Some x"
    using measure_while_option_Some [of ?P ?b ?f ?m, OF step start] by blast
  have "?P x" by (rule while_option_rule [where P = ?P, OF _ x start]) (use step in blast)
  moreover have "\<not> ?b x" by (rule while_option_stop [OF x])
  ultimately show ?thesis using x by (auto simp: while_run_def)
qed

end

section \<open>Orders on a running match\<close>

text \<open>
  The match a replay works on: well formed, with the towers of its battlefield, under the rules it began
  with and the time limit of a match.
\<close>

definition pvp_ok :: "num option \<Rightarrow> game_state \<Rightarrow> num obj \<Rightarrow> bool" where
  "pvp_ok v s accs \<longleftrightarrow> wf_state s accs \<and> wf_match s \<and> g_rules s = v \<and> g_timeLimit s = PVP_TIME_LIMIT_SECONDS"

text \<open>Orders change garrisons, armies, statistics and abilities; owners, places, rules and clock stay.\<close>

definition ordered :: "game_state \<Rightarrow> game_state \<Rightarrow> bool" where
  "ordered s s' \<longleftrightarrow> same_map s s' \<and> obj_keys (g_territories s') = obj_keys (g_territories s)
     \<and> g_status s' = g_status s \<and> g_elapsed s' = g_elapsed s \<and> g_timeLimit s' = g_timeLimit s"

definition units_at :: "game_state \<Rightarrow> string \<Rightarrow> num" where
  "units_at s i = (case obj_get (g_territories s) i of None \<Rightarrow> 0 | Some t \<Rightarrow> t_units t)"

lemma ordered_refl [simp]: "ordered s s"
  by (simp add: ordered_def same_map_def)

lemma ordered_trans: "ordered s s' \<Longrightarrow> ordered s' s'' \<Longrightarrow> ordered s s''"
  by (simp add: ordered_def same_map_def)

lemma legal_move_units: "legal_move hyp s w mv \<Longrightarrow> 1 < units_at s (am_from mv)"
  by (auto simp: legal_move_def units_at_def)

lemma legal_move_ordered:
  assumes "legal_move hyp s w mv" "ordered s s'" "hypot_ok hyp" "1 < units_at s' (am_from mv)"
  shows "legal_move hyp s' w mv"
proof -
  obtain src tgt route where old: "obj_get (g_territories s) (am_from mv) = Some src"
    "obj_get (g_territories s) (am_to mv) = Some tgt" "t_owner src = w" "am_from mv \<noteq> am_to mv"
    "findDispatchRoute hyp s (am_from mv) (am_to mv) w = Inr (Some route)"
    using assms(1) by (auto simp: legal_move_def)
  have map: "same_map s s'" using assms(2) by (simp add: ordered_def)
  obtain src' where src': "obj_get (g_territories s') (am_from mv) = Some src'" "t_owner src' = w"
    using same_mapD [OF map old(1)] old(3) by auto
  obtain tgt' where tgt': "obj_get (g_territories s') (am_to mv) = Some tgt'"
    using same_mapD [OF map old(2)] by auto
  obtain route' where "findDispatchRoute hyp s' (am_from mv) (am_to mv) w = Inr (Some route')"
    using same_map_route [OF old(5) map assms(3)] by blast
  then show ?thesis using src' tgt' old(4) assms(4) by (simp add: legal_move_def units_at_def)
qed

lemma legal_moves_ordered:
  assumes "legal_moves hyp s w ms" "ordered s s'" "hypot_ok hyp"
    and "\<And>mv. mv \<in> set ms \<Longrightarrow> 1 < units_at s (am_from mv) \<Longrightarrow> 1 < units_at s' (am_from mv)"
  shows "legal_moves hyp s' w ms"
  using assms(1,4) legal_move_ordered [OF _ assms(2,3)] legal_move_units unfolding legal_moves_def by blast

text \<open>Writing a garrison and adding an army.\<close>

lemma ordered_write:
  assumes "obj_get (g_territories s) i = Some t"
    and "g_territories s' = obj_set i (t\<lparr>t_units := u\<rparr>) (g_territories s)"
    and "g_rules s' = g_rules s" "g_battlefieldId s' = g_battlefieldId s" "g_status s' = g_status s"
    and "g_elapsed s' = g_elapsed s" "g_timeLimit s' = g_timeLimit s"
  shows "ordered s s'" and "\<And>j. j \<noteq> i \<Longrightarrow> units_at s' j = units_at s j" and "units_at s' i = u"
proof -
  have "i \<in> set (obj_keys (g_territories s))" using obj_get_Some_key [OF assms(1)] .
  then have "obj_keys (g_territories s') = obj_keys (g_territories s)"
    by (simp only: assms(2) obj_keys_set if_True)
  then show "ordered s s'" using assms by (auto simp: ordered_def same_map_def obj_get_set)
  show "j \<noteq> i \<Longrightarrow> units_at s' j = units_at s j" for j by (simp add: units_at_def assms(2) obj_get_set)
  show "units_at s' i = u" by (simp add: units_at_def assms(2) obj_get_set)
qed

lemma pvp_ok_write:
  assumes "pvp_ok v s accs" "obj_get (g_territories s) i = Some t" "u \<in> \<nat>"
    and "g_territories s' = obj_set i (t\<lparr>t_units := u\<rparr>) (g_territories s)" "g_armies s' = g_armies s @ ms"
    and "\<forall>m\<in>set ms. wf_army (obj_keys (g_territories s)) m \<and> a_progress m < 1"
    and "g_rules s' = g_rules s" "g_battlefieldId s' = g_battlefieldId s" "g_timeLimit s' = g_timeLimit s"
  shows "pvp_ok v s' accs"
proof -
  have board: "wf_board (g_territories s)" using assms(1) by (simp add: pvp_ok_def wf_match_def)
  have "wf_tower i (t\<lparr>t_units := u\<rparr>)" using wf_boardD [OF board assms(2)] assms(3) by (simp add: wf_tower_def)
  then have board': "wf_board (g_territories s')" unfolding assms(4) by (rule wf_board_set [OF board])
  have keys: "obj_keys (g_territories s') = obj_keys (g_territories s)"
    using obj_get_Some_key [OF assms(2)] by (simp only: assms(4) obj_keys_set if_True)
  have old: "\<forall>m\<in>set (g_armies s). wf_army (obj_keys (g_territories s)) m \<and> a_progress m < 1"
    and ids: "set (map t_id (b_territories (getBattlefield (g_battlefieldId s)))) \<subseteq> set (obj_keys (g_territories s))"
    and accs: "wf_accumulators accs" and rest: "g_rules s = v" "g_timeLimit s = PVP_TIME_LIMIT_SECONDS"
    using assms(1) by (simp_all add: pvp_ok_def wf_state_def wf_match_def)
  have armies: "\<forall>m\<in>set (g_armies s'). wf_army (obj_keys (g_territories s)) m \<and> a_progress m < 1"
    using old assms(6) by (auto simp: assms(5))
  have "wf_state s' accs" unfolding wf_state_def keys using board' accs armies by blast
  moreover have "wf_match s'" unfolding wf_match_def keys assms(8) using board' armies ids by blast
  ultimately show ?thesis using rest assms(7,9) by (simp add: pvp_ok_def)
qed

section \<open>Dispatches\<close>

lemma half_le:
  assumes "0 \<le> u" shows "fl (u * (1 / 2)) \<le> (u :: num)"
proof (cases "u = 0")
  case False
  then have "\<bar>fl (u * (1 / 2)) - u * (1 / 2)\<bar> \<le> u * (1 / 2) / 2 ^ 53" using fl_error [of "u * (1 / 2)"] assms by simp
  then show ?thesis unfolding abs_le_iff using assms by (simp add: field_simps)
qed simp

lemma left_half_Nats:
  assumes "u \<in> \<nat>" "0 < calculateDispatchUnits u (1 / 2)"
  shows "jsub u (calculateDispatchUnits u (1 / 2)) \<in> \<nat>"
proof -
  have u: "1 < u" "u \<in> \<int>" using assms by (auto simp: dispatch_units_pos Nats_iff)
  have "math_floor (fl (u * (1 / 2))) \<le> u" by (rule order_trans [OF math_floor_le half_le]) (use u in simp)
  then have "u - calculateDispatchUnits u (1 / 2) \<in> \<nat>"
    using u by (auto simp: calculateDispatchUnits_def Nats_iff max_def)
  then show ?thesis by (rule fl_Nats)
qed

lemma dispatched_left:
  assumes "dispatchArmy hyp src tgt w (1 / 2) i speed s = Inr (Dispatched left m)" "t_units src \<in> \<nat>"
  shows "\<exists>u\<in>\<nat>. left = src\<lparr>t_units := u\<rparr>"
  using assms(1)
proof (rule dispatchArmy_Dispatched, goal_cases)
  case (1 route)
  then show ?case using left_half_Nats [OF assms(2)] by blast
qed

text \<open>What one order of either kind, or an ability, leaves behind: a well-formed match on the same map.\<close>

definition order_ok :: "num option \<Rightarrow> num obj \<Rightarrow> string \<Rightarrow> game_state \<Rightarrow> game_state \<Rightarrow> bool" where
  "order_ok v accs i s s' \<longleftrightarrow> pvp_ok v s' accs \<and> ordered s s' \<and> (\<forall>j. j \<noteq> i \<longrightarrow> units_at s' j = units_at s j)"

lemma dispatched_order_ok:
  assumes "pvp_ok v s accs" "hypot_ok hyp" "w \<noteq> Neutral" "obj_get (g_territories s) i = Some src"
    and "dispatchArmy hyp src tgt w (1 / 2) n speed (Some s) = Inr (Dispatched left m)"
    and "g_territories s' = obj_set i left (g_territories s)" "g_armies s' = g_armies s @ [m\<lparr>a_units := k\<rparr>]" "k \<in> \<nat>"
    and "g_rules s' = g_rules s" "g_battlefieldId s' = g_battlefieldId s" "g_status s' = g_status s"
    and "g_elapsed s' = g_elapsed s" "g_timeLimit s' = g_timeLimit s"
  shows "order_ok v accs i s s'"
proof -
  have nat: "t_units src \<in> \<nat>" using assms(1,4) by (auto simp: pvp_ok_def wf_match_def wf_board_def wf_tower_def)
  obtain u where u: "u \<in> \<nat>" "left = src\<lparr>t_units := u\<rparr>" using dispatched_left [OF assms(5) nat] by blast
  note terr = assms(6) [unfolded u(2)]
  have m: "wf_army (obj_keys (g_territories s)) m" "a_progress m < 1"
    using dispatched_army_wf [OF assms(5,2) nat assms(3)] by auto
  have "wf_army (obj_keys (g_territories s)) (m\<lparr>a_units := k\<rparr>) \<and> a_progress (m\<lparr>a_units := k\<rparr>) < 1"
    using m assms(8) by (simp add: wf_army_def)
  then have "pvp_ok v s' accs"
    by (intro pvp_ok_write [OF assms(1,4) u(1) terr assms(7) _ assms(9,10,13)]) simp
  then show ?thesis
    using ordered_write [OF assms(4) terr assms(9-13)] by (simp add: order_ok_def)
qed

lemma dispatchFromState_ok:
  assumes "pvp_ok v s accs" "hypot_ok hyp" "w \<noteq> Neutral" "dispatchFromState hyp s i j w speed n = Inr s'"
  shows "order_ok v accs i s s'"
proof -
  obtain src tgt where st: "obj_get (g_territories s) i = Some src" "obj_get (g_territories s) j = Some tgt"
    using assms(4) by (auto simp: dispatchFromState_def split: option.splits)
  obtain r where r: "dispatchArmy hyp src tgt w (1 / 2) n (Finite speed) (Some s) = Inr r"
    using dispatchArmy_total [OF assms(2)] by blast
  then obtain left m where "r = Dispatched left m" using assms(4) st by (cases r) (auto simp: dispatchFromState_def)
  with r have d: "dispatchArmy hyp src tgt w (1 / 2) n (Finite speed) (Some s) = Inr (Dispatched left m)" by simp
  have nat: "t_units src \<in> \<nat>" using assms(1) st by (auto simp: pvp_ok_def wf_match_def wf_board_def wf_tower_def)
  have "a_units m \<in> \<nat>" using dispatched_army_wf [OF d assms(2) nat assms(3)] by (simp add: wf_army_def)
  moreover have "m\<lparr>a_units := a_units m\<rparr> = m" by simp
  ultimately show ?thesis using assms(4) st d
    by (intro dispatched_order_ok [OF assms(1-3) st(1) d]) (auto simp: dispatchFromState_def)
qed

lemma dispatchFromState_legal:
  assumes "pvp_ok v s accs" "hypot_ok hyp" "legal_move hyp s w mv"
  shows "\<exists>s'. dispatchFromState hyp s (am_from mv) (am_to mv) w speed n = Inr s'"
proof -
  obtain src tgt where st: "obj_get (g_territories s) (am_from mv) = Some src" "obj_get (g_territories s) (am_to mv) = Some tgt"
    using assms(3) by (auto simp: legal_move_def)
  have "wf_board (g_territories s)" using assms(1) by (simp add: pvp_ok_def wf_match_def)
  from legal_move_dispatch [OF assms(3,2) this st]
  obtain left m where "dispatchArmy hyp src tgt w (1 / 2) n (Finite speed) (Some s) = Inr (Dispatched left m)" by blast
  then show ?thesis using st by (simp add: dispatchFromState_def)
qed

text \<open>An order of the client is performed or rejected with one of the codes; nothing else is thrown.\<close>

lemma dispatchFromState_total:
  assumes "hypot_ok hyp"
  shows "(\<exists>s'. dispatchFromState hyp s i j w speed n = Inr s')
    \<or> (\<exists>code. dispatchFromState hyp s i j w speed n = Inl (PvpSimulationError code))"
proof (cases "obj_get (g_territories s) i")
  case None
  then show ?thesis by (simp add: dispatchFromState_def)
next
  case src: (Some src)
  show ?thesis
  proof (cases "obj_get (g_territories s) j")
    case (Some tgt)
    obtain r where "dispatchArmy hyp src tgt w (1 / 2) n (Finite speed) (Some s) = Inr r"
      using dispatchArmy_total [OF assms] by blast
    then show ?thesis using src Some by (cases r) (simp_all add: dispatchFromState_def)
  qed (use src in \<open>simp add: dispatchFromState_def\<close>)
qed

section \<open>Abilities\<close>

text \<open>
  An ability of a side never throws; a use that is not ignored marks the side's ability as used, keeps the
  match well formed and changes no garrison but the source's, which it lowers only for a charge.
\<close>

lemma mark_used_frame [simp]:
  "g_territories (mark_used w s) = g_territories s" "g_armies (mark_used w s) = g_armies s"
  "g_rules (mark_used w s) = g_rules s" "g_battlefieldId (mark_used w s) = g_battlefieldId s"
  "g_status (mark_used w s) = g_status s" "g_elapsed (mark_used w s) = g_elapsed s"
  "g_timeLimit (mark_used w s) = g_timeLimit s" "g_stats (mark_used w s) = g_stats s"
  "g_shieldedUntilMs (mark_used w s) = g_shieldedUntilMs s" "g_readyAtMs (mark_used w s) = g_readyAtMs s"
  by (simp_all add: mark_used_def)

lemma mark_used_used: "ability_used (mark_used w s) w"
  by (simp add: mark_used_def ability_used_def)

lemma pvp_ok_units: "pvp_ok v s accs \<Longrightarrow> obj_get (g_territories s) i = Some t \<Longrightarrow> t_units t \<in> \<nat>"
  by (auto simp: pvp_ok_def wf_match_def wf_board_def wf_tower_def)

lemma apply_shield_ok:
  assumes "pvp_ok v s accs"
  shows "order_ok v accs i s (ar_state (apply_shield s w i))
    \<and> units_at (ar_state (apply_shield s w i)) i = units_at s i"
  using assms by (simp add: order_ok_def pvp_ok_def apply_shield_def wf_state_def wf_match_def ordered_def
      same_map_def units_at_def)

lemma apply_supply_ok:
  assumes "pvp_ok v s accs" "obj_get (g_territories s) i = Some t"
  shows "order_ok v accs i s (ar_state (apply_supply s w i t))
    \<and> 1 < units_at (ar_state (apply_supply s w i t)) i"
proof -
  let ?s = "ar_state (apply_supply s w i t)" and ?u = "jadd (t_units t) ability_supplyUnits"
  have nat: "t_units t \<in> \<nat>" by (rule pvp_ok_units [OF assms])
  have u: "?u \<in> \<nat>" unfolding ability_supplyUnits_def by (rule fl_Nats) (use nat in simp)
  have terr: "g_territories ?s = obj_set i (t\<lparr>t_units := ?u\<rparr>) (g_territories s)"
    and frame: "g_armies ?s = g_armies s @ []" "g_rules ?s = g_rules s" "g_battlefieldId ?s = g_battlefieldId s"
      "g_status ?s = g_status s" "g_elapsed ?s = g_elapsed s" "g_timeLimit ?s = g_timeLimit s"
    by (simp_all add: apply_supply_def)
  have "pvp_ok v ?s accs"
    by (rule pvp_ok_write [OF assms u terr frame(1) _ frame(2,3,6)]) simp
  moreover note ordered_write [OF assms(2) terr frame(2-6)]
  moreover have "5 \<le> ?u" using nat
    by (intro fl_ge_double) (auto simp: Nats_iff ability_supplyUnits_def intro: is_double_numeral)
  ultimately show ?thesis using assms(2) by (simp add: order_ok_def units_at_def)
qed

lemma apply_charge_ok:
  assumes "pvp_ok v s accs" "hypot_ok hyp" "w \<noteq> Neutral" "obj_get (g_territories s) i = Some src"
    and "dispatchArmy hyp src tgt w (1 / 2) n speed (Some s) = Inr (Dispatched left m)"
  shows "order_ok v accs i s (ar_state (apply_charge s w i left m))"
proof -
  have "a_units m \<in> \<nat>" using dispatched_army_wf [OF assms(5,2) pvp_ok_units [OF assms(1,4)] assms(3)]
    by (simp add: wf_army_def)
  then have charged: "math_floor (jmul (a_units m) ability_chargeUnitMultiplier) \<in> \<nat>"
    by (auto simp: Nats_iff math_floor_nonneg ability_chargeUnitMultiplier_def)
  then show ?thesis
    by (intro dispatched_order_ok [OF assms(1-5) _ _ charged]) (simp_all add: apply_charge_def Let_def)
qed

definition ability_ok :: "num option \<Rightarrow> num obj \<Rightarrow> team \<Rightarrow> string \<Rightarrow> string \<Rightarrow> game_state \<Rightarrow> ability_result \<Rightarrow> bool" where
  "ability_ok v accs w i j s x \<longleftrightarrow> order_ok v accs i s (ar_state x) \<and> ability_used (ar_state x) w
     \<and> (i = j \<longrightarrow> 1 < units_at s i \<longrightarrow> 1 < units_at (ar_state x) i)"

lemma applyTeamAbility_ok:
  assumes "pvp_ok v s accs" "hypot_ok hyp" "w \<noteq> Neutral"
  shows "\<exists>r. applyTeamAbility hyp s w commander i j speed n = Inr r \<and> (\<forall>x. r = Some x \<longrightarrow> ability_ok v accs w i j s x)"
proof (cases "applyTeamAbility hyp s w commander i j speed n = Inr None")
  case False
  then obtain c src where c: "commander = Some c" and rules: "hasCommanderAbilities (g_rules s)" "g_status s = Playing"
      "\<not> ability_used s w" "\<not> ability_locked s"
    and src: "obj_get (g_territories s) i = Some src" "t_owner src = w"
    by (auto simp: applyTeamAbility_def split: option.splits if_splits)
  have used: "ability_used (ar_state (apply_shield s w i)) w" "ability_used (ar_state (apply_supply s w i src)) w"
    "ability_used (ar_state (apply_charge s w i left m)) w" for left m
    by (simp_all add: apply_shield_def apply_supply_def apply_charge_def Let_def mark_used_def ability_used_def)
  obtain a where a: "COMMANDER_ABILITY c = Some a" using False c rules src by (auto simp: applyTeamAbility_def split: option.splits)
  show ?thesis
  proof (cases a)
    case RoyalShield
    then show ?thesis using False c rules src a used apply_shield_ok [OF assms(1), of i w]
      by (auto simp: applyTeamAbility_def ability_ok_def)
  next
    case SupplyDrop
    then show ?thesis using False c rules src a used apply_supply_ok [OF assms(1) src(1), of w]
      by (auto simp: applyTeamAbility_def ability_ok_def)
  next
    case VanguardCharge
    then obtain tgt where tgt: "obj_get (g_territories s) j = Some tgt" "j \<noteq> i"
      using False c rules src a by (auto simp: applyTeamAbility_def split: option.splits if_splits)
    obtain r where r: "dispatchArmy hyp src tgt w (1 / 2) n (Finite (jmul speed ability_chargeSpeedMultiplier)) (Some s) = Inr r"
      using dispatchArmy_total [OF assms(2)] by blast
    then show ?thesis using VanguardCharge False c rules src a tgt used apply_charge_ok [OF assms src(1)]
      by (cases r) (auto simp: applyTeamAbility_def ability_ok_def)
  qed
qed auto

section \<open>The bot's turn\<close>

lemma chooseBotAbility_choice:
  assumes "chooseBotAbility hyp s w commander moves = Inr (Some c)"
  shows "bc_sourceId c = bc_targetId c \<and> bc_moves c = moves
    \<or> (\<exists>m. moves = m # bc_moves c \<and> bc_sourceId c = am_from m)"
proof -
  obtain k where k: "commander = Some k" using assms by (cases commander) (simp_all add: chooseBotAbility_def)
  have go: "hasCommanderAbilities (g_rules s)" "g_status s = Playing" "\<not> (ability_used s w \<or> ability_locked s)"
    using assms k by (auto simp: chooseBotAbility_def split: if_splits)
  obtain a where a: "COMMANDER_ABILITY k = Some a"
    using assms k go by (cases "COMMANDER_ABILITY k") (simp_all add: chooseBotAbility_def)
  show ?thesis
  proof (cases a)
    case VanguardCharge
    then show ?thesis using assms k go a by (auto simp: chooseBotAbility_def split: list.splits)
  next
    case RoyalShield
    then obtain ts where "(case js_sort (\<lambda>a b. cmp_or (jsub (t_units (th_tower b)) (t_units (th_tower a)))
        (cmp_id_strict (t_id (th_tower a)) (t_id (th_tower b)))) ts of [] \<Rightarrow> None
        | t # _ \<Rightarrow> Some (own_tower_choice t moves)) = Some c"
      using assms k go a by (auto simp: chooseBotAbility_def rbind_eq_Inr)
    then show ?thesis by (auto simp: own_tower_choice_def split: list.splits)
  next
    case SupplyDrop
    then obtain ts where "(case js_sort (\<lambda>a b. cmp_or (jsub (th_firstEta a) (th_firstEta b))
          (cmp_id_strict (t_id (th_tower a)) (t_id (th_tower b)))) ts of
        t # _ \<Rightarrow> Some (own_tower_choice t moves)
      | [] \<Rightarrow> (case moves of [] \<Rightarrow> None
          | m # _ \<Rightarrow> Some \<lparr>bc_sourceId = am_from m, bc_targetId = am_from m, bc_moves = moves\<rparr>)) = Some c"
      using assms k go a by (auto simp: chooseBotAbility_def rbind_eq_Inr)
    then show ?thesis by (auto simp: own_tower_choice_def split: list.splits)
  qed
qed

text \<open>What a turn of the bot leaves alone: the clock, the accumulators and the count of the player's orders.\<close>

definition same_clock :: "replay \<Rightarrow> replay \<Rightarrow> bool" where
  "same_clock r r' \<longleftrightarrow> rp_accumulators r' = rp_accumulators r \<and> rp_time r' = rp_time r \<and> rp_tick r' = rp_tick r
     \<and> rp_nextAi r' = rp_nextAi r \<and> rp_actionIndex r' = rp_actionIndex r"

text \<open>The moves that remain after the bot's ability are legal where the ability left the match.\<close>

lemma bot_ability_ok:
  assumes ok: "pvp_ok v (rp_state r) accs" and hyp: "hypot_ok hyp" and ms: "legal_moves hyp (rp_state r) Enemy moves"
  shows "\<exists>r' ms'. bot_ability hyp difficulty speed moves r = Inr (r', ms') \<and> pvp_ok v (rp_state r') accs
    \<and> ordered (rp_state r) (rp_state r') \<and> legal_moves hyp (rp_state r') Enemy ms'
    \<and> same_clock r r'"
proof -
  let ?s = "rp_state r"
  have wf: "wf_match ?s" using ok by (simp add: pvp_ok_def)
  obtain choice where choice: "chooseBotAbility hyp ?s Enemy (BOT_COMMANDER difficulty) moves = Inr choice"
    using chooseBotAbility_ok [OF wf] by blast
  show ?thesis
  proof (cases choice)
    case None
    then show ?thesis using choice ok ms by (simp add: bot_ability_def same_clock_def)
  next
    case (Some c)
    obtain a where a: "applyTeamAbility hyp ?s Enemy (BOT_COMMANDER difficulty) (bc_sourceId c) (bc_targetId c) speed
        (ai_army_id (rp_aiIndex r)) = Inr a"
      "\<forall>x. a = Some x \<longrightarrow> ability_ok v accs Enemy (bc_sourceId c) (bc_targetId c) ?s x"
      using applyTeamAbility_ok [OF ok hyp, of Enemy] by blast
    show ?thesis
    proof (cases a)
      case None
      then show ?thesis using choice Some a ok ms by (simp add: bot_ability_def same_clock_def)
    next
      case x: (Some x)
      then have after: "ability_ok v accs Enemy (bc_sourceId c) (bc_targetId c) ?s x" using a(2) by simp
      have "legal_moves hyp (ar_state x) Enemy (bc_moves c)"
        using chooseBotAbility_choice [OF choice [unfolded Some]]
      proof (elim disjE exE conjE)
        assume c: "bc_sourceId c = bc_targetId c" "bc_moves c = moves"
        have "1 < units_at (ar_state x) i" if "1 < units_at ?s i" for i
          using after c(1) that by (cases "i = bc_sourceId c") (auto simp: ability_ok_def order_ok_def)
        with after ms c(2) show ?thesis
          using legal_moves_ordered [OF ms _ hyp] by (simp add: ability_ok_def order_ok_def)
      next
        fix m assume c: "moves = m # bc_moves c" "bc_sourceId c = am_from m"
        have tl: "legal_moves hyp ?s Enemy (bc_moves c)" using ms c(1) by (metis legal_moves_tl)
        have "am_from mv \<noteq> am_from m" if "mv \<in> set (bc_moves c)" for mv
          using ms that unfolding c(1) legal_moves_def by (auto simp: image_iff)
        with after c(2) show ?thesis
          using legal_moves_ordered [OF tl _ hyp] by (simp add: ability_ok_def order_ok_def)
      qed
      then show ?thesis using choice Some a x after by (simp add: bot_ability_def ability_ok_def order_ok_def same_clock_def)
    qed
  qed
qed

lemma dispatch_ai_moves_ok:
  assumes "pvp_ok v (rp_state r) accs" "hypot_ok hyp" "legal_moves hyp (rp_state r) Enemy moves"
  shows "\<exists>r'. fold_res (dispatch_ai_move hyp speed) moves r = Inr r' \<and> pvp_ok v (rp_state r') accs
    \<and> ordered (rp_state r) (rp_state r') \<and> same_clock r r'"
  using assms(1,3)
proof (induction moves arbitrary: r)
  case (Cons mv moves)
  have legal: "legal_move hyp (rp_state r) Enemy mv" "legal_moves hyp (rp_state r) Enemy moves"
    using Cons.prems(2) by (auto simp: legal_moves_def)
  obtain s where s: "dispatchFromState hyp (rp_state r) (am_from mv) (am_to mv) Enemy speed (ai_army_id (rp_aiIndex r)) = Inr s"
    using dispatchFromState_legal [OF Cons.prems(1) assms(2) legal(1)] by blast
  have after: "order_ok v accs (am_from mv) (rp_state r) s"
    by (rule dispatchFromState_ok [OF Cons.prems(1) assms(2) _ s]) simp
  define r1 where "r1 = r\<lparr>rp_state := s, rp_aiIndex := Suc (rp_aiIndex r)\<rparr>"
  have other: "am_from mv' \<noteq> am_from mv" if "mv' \<in> set moves" for mv'
    using Cons.prems(2) that by (auto simp: legal_moves_def image_iff)
  have "legal_moves hyp s Enemy moves"
    by (rule legal_moves_ordered [OF legal(2) _ assms(2)]) (use after other in \<open>auto simp: order_ok_def\<close>)
  then obtain r' where r': "fold_res (dispatch_ai_move hyp speed) moves r1 = Inr r'" "pvp_ok v (rp_state r') accs"
    "ordered s (rp_state r')" "same_clock r1 r'"
    using Cons.IH [of r1] after by (auto simp: r1_def order_ok_def)
  have "dispatch_ai_move hyp speed mv r = Inr r1" using s by (simp add: dispatch_ai_move_def r1_def)
  moreover have "ordered (rp_state r) (rp_state r')"
    using after r'(3) ordered_trans unfolding order_ok_def by blast
  ultimately show ?case using r'
    by (intro exI [of _ r']) (simp add: r1_def same_clock_def)
qed (simp add: same_clock_def)

text \<open>Under the first rules the bot's move is one of the pairs its policy compares, which can always be sent.\<close>

lemma evaluateAiMove_legal:
  assumes "wf_board (g_territories s)" "\<not> usesTacticalRules (g_rules s)"
    and "evaluateAiMove hyp (g_territories s) w n = Some mv"
  shows "legal_move hyp s w mv"
proof -
  obtain src t where "(src, t) \<in> set (ai_pairs (g_territories s) w n)" and mv: "mv = \<lparr>am_from = t_id src, am_to = t_id t\<rparr>"
    using evaluateAiMove_best [where hyp = hyp and ts = "g_territories s" and w = w and n = n] assms(3) by auto
  then have "src \<in> set (obj_values (g_territories s))" "t \<in> set (obj_values (g_territories s))" "t_owner src = w"
    "1 < t_units src" "t_id src \<noteq> t_id t" by (simp_all add: ai_pairs_iff)
  then show ?thesis using wf_board_values(2) [OF assms(1)] assms(2)
    by (simp add: legal_move_def mv findDispatchRoute_def)
qed

lemma executeAiAction_ok:
  assumes "pvp_ok v (rp_state r) accs" "hypot_ok hyp"
  shows "\<exists>r'. executeAiAction hyp opts r = Inr r' \<and> pvp_ok v (rp_state r') accs
    \<and> ordered (rp_state r) (rp_state r') \<and> same_clock r r'"
proof (cases "rp_playing r")
  case playing: True
  let ?speed = "army_speed (px_enemyModifiers opts)"
  have wf: "wf_match (rp_state r)" using assms(1) by (simp add: pvp_ok_def)
  then have board: "wf_board (g_territories (rp_state r))" by (simp add: wf_match_def)
  show ?thesis
  proof (cases "usesTacticalRules (g_rules (rp_state r))")
    case True
    obtain ms where ms: "evaluateTacticalMoves hyp (rp_state r) Enemy (Finite ?speed) = Inr ms"
      "legal_moves hyp (rp_state r) Enemy ms"
      using evaluateTacticalMoves_ok [OF wf assms(2)] by blast
    let ?d = "case px_botDifficulty opts of Some d \<Rightarrow> d | None \<Rightarrow> Normal"
    obtain r1 ms1 where 1: "bot_ability hyp ?d ?speed ms r = Inr (r1, ms1)" "pvp_ok v (rp_state r1) accs"
      "ordered (rp_state r) (rp_state r1)" "legal_moves hyp (rp_state r1) Enemy ms1" "same_clock r r1"
      using bot_ability_ok [OF assms ms(2)] by blast
    obtain r2 where 2: "fold_res (dispatch_ai_move hyp ?speed) ms1 r1 = Inr r2" "pvp_ok v (rp_state r2) accs"
      "ordered (rp_state r1) (rp_state r2)" "same_clock r1 r2"
      using dispatch_ai_moves_ok [OF 1(2) assms(2) 1(4)] by blast
    have "executeAiAction hyp opts r = Inr r2" using playing True ms(1) 1(1) 2(1) by (simp add: executeAiAction_def Let_def)
    moreover have "ordered (rp_state r) (rp_state r2)" by (rule ordered_trans [OF 1(3) 2(3)])
    moreover have "same_clock r r2" using 1(5) 2(4) by (simp add: same_clock_def)
    ultimately show ?thesis using 2(2) by blast
  next
    case False
    show ?thesis
    proof (cases "evaluateAiMove hyp (g_territories (rp_state r)) Enemy 8")
      case None
      then show ?thesis using playing False assms(1) by (simp add: executeAiAction_def Let_def same_clock_def)
    next
      case (Some mv)
      have "legal_moves hyp (rp_state r) Enemy [mv]"
        using evaluateAiMove_legal [OF board False Some] by (simp add: legal_moves_def)
      then show ?thesis using dispatch_ai_moves_ok [OF assms, of "[mv]" ?speed] playing False Some
        by (auto simp: executeAiAction_def Let_def rbind_eq_Inr)
    qed
  qed
qed (use assms(1) in \<open>simp add: executeAiAction_def same_clock_def\<close>)

text \<open>The client's orders and abilities.\<close>

lemma player_action_ok:
  assumes "pvp_ok v (rp_state r) accs" "hypot_ok hyp"
  shows "\<exists>r'. player_action hyp opts a r = Inr r' \<and> pvp_ok v (rp_state r') accs \<and> ordered (rp_state r) (rp_state r')
    \<and> same_clock r (r'\<lparr>rp_actionIndex := rp_actionIndex r\<rparr>) \<and> rp_actionIndex r' \<le> Suc (rp_actionIndex r)"
proof (cases "pa_kind a = Some ''ability''")
  case True
  let ?speed = "army_speed (px_playerModifiers opts)"
  obtain x where x: "applyTeamAbility hyp (rp_state r) Player (px_commanderId opts) (pa_sourceId a) (pa_targetId a) ?speed
      (player_army_id a) = Inr x"
    "\<forall>y. x = Some y \<longrightarrow> ability_ok v accs Player (pa_sourceId a) (pa_targetId a) (rp_state r) y"
    using applyTeamAbility_ok [OF assms, of Player] by blast
  then show ?thesis using True assms(1)
    by (cases x) (auto simp: player_action_def applyPlayerAbility_def same_clock_def ability_ok_def order_ok_def)
next
  case False
  let ?d = "dispatchFromState hyp (rp_state r) (pa_sourceId a) (pa_targetId a) Player (army_speed (px_playerModifiers opts))
      (player_army_id a)"
  from dispatchFromState_total [OF assms(2)] consider s where "?d = Inr s" | code where "?d = Inl (PvpSimulationError code)"
    by blast
  then show ?thesis
  proof cases
    case 1
    then show ?thesis using False dispatchFromState_ok [OF assms _ 1]
      by (simp add: player_action_def Let_def same_clock_def order_ok_def)
  next
    case 2
    then show ?thesis using False assms(1) by (simp add: player_action_def Let_def same_clock_def)
  qed
qed

end
