(* ===== verification/PvpReplay.thy ===== *)
theory PvpReplay
  imports PvpFacts
begin

text \<open>
  The clock of a replay. Under the current rules the match clock is always the tick count over fifty, rounded
  once, so a match is over at tick 4500; every loop of the replay ends.
\<close>

section \<open>The exact clock\<close>

lemma tick_near: "\<bar>PVP_SIMULATION_TICK_SECONDS - 1 / 50\<bar> \<le> 1 / 100000000000000000" "0 \<le> PVP_SIMULATION_TICK_SECONDS"
  by (simp_all add: pvp_tick_value)

lemma step_elapsed_tick:
  assumes k: "k < 4500" and e: "g_elapsed s = fl (of_nat k / 50)" and r: "hasCaptureRecovery (g_rules s)"
  shows "step_elapsed s PVP_SIMULATION_TICK_SECONDS = fl (of_nat (Suc k) / 50)"
proof -
  let ?T = PVP_SIMULATION_TICK_SECONDS and ?q = "of_nat k / 50 :: num"
  have q: "0 \<le> ?q" "?q \<le> 90" using k by simp_all
  have x: "\<bar>fl ?q - ?q\<bar> \<le> 1 / 10000000000000" using fl_near [OF q(1)] q(2) by (simp add: abs_le_iff)
  define y where "y = fl ?q + ?T"
  have y: "\<bar>y - (?q + 1 / 50)\<bar> \<le> 2 / 10000000000000" using x tick_near unfolding y_def by linarith
  have y0: "0 \<le> y" using q(1) tick_near unfolding y_def by simp
  have y1: "y \<le> 91" using y q by linarith
  have fy: "\<bar>fl y - (?q + 1 / 50)\<bar> \<le> 4 / 10000000000000" using fl_near [OF y0] y y1 by linarith
  have fy0: "0 \<le> fl y" using y0 by simp
  have fy1: "fl y \<le> 92" using fy q by linarith
  define z where "z = fl y * 1000000000"
  have target: "(?q + 1 / 50) * 1000000000 = of_int (int (Suc k) * 20000000)" by (simp add: field_simps)
  have "z - of_int (int (Suc k) * 20000000) = (fl y - (?q + 1 / 50)) * 1000000000"
    unfolding target [symmetric] z_def by (rule left_diff_distrib [symmetric])
  then have "\<bar>z - of_int (int (Suc k) * 20000000)\<bar> = \<bar>fl y - (?q + 1 / 50)\<bar> * 1000000000"
    by (simp only: abs_mult abs_numeral)
  also have "\<dots> \<le> 4 / 10000000000000 * 1000000000" by (rule mult_right_mono [OF fy]) simp
  finally have z: "\<bar>z - of_int (int (Suc k) * 20000000)\<bar> \<le> 4 / 10000" by simp
  have z0: "0 \<le> z" and z1: "z \<le> 92 * 1000000000" using fy0 fy1 by (simp_all add: z_def)
  have "\<bar>fl z - of_int (int (Suc k) * 20000000)\<bar> < 1 / 2" using fl_near [OF z0] z z1 by linarith
  then have round: "math_round (fl z) = of_int (int (Suc k) * 20000000)" by (rule math_round_near)
  have "step_elapsed s ?T = fl (math_round (fl z) / 1000000000)"
    using r e by (simp add: step_elapsed_def Let_def y_def z_def)
  also have "math_round (fl z) / 1000000000 = of_nat (Suc k) / 50" unfolding round by simp
  finally show ?thesis .
qed

section \<open>One step of the replay\<close>

lemma step_frame:
  assumes "wf_state s accs" "0 \<le> delta" "stepSimulation hyp s accs delta = Inr r"
  shows "g_rules (sr_state r) = g_rules s" "g_battlefieldId (sr_state r) = g_battlefieldId s"
    "g_timeLimit (sr_state r) = g_timeLimit s"
    "g_status s = Playing \<Longrightarrow> g_elapsed (sr_state r) = step_elapsed s delta"
    "g_status s \<noteq> Playing \<Longrightarrow> sr_state r = s"
    "g_status (sr_state r) = Playing \<Longrightarrow> g_elapsed (sr_state r) < g_timeLimit s"
proof -
  have "g_rules (sr_state r) = g_rules s \<and> g_battlefieldId (sr_state r) = g_battlefieldId s
    \<and> g_timeLimit (sr_state r) = g_timeLimit s
    \<and> (g_status s = Playing \<longrightarrow> g_elapsed (sr_state r) = step_elapsed s delta
        \<and> (g_status (sr_state r) = Playing \<longrightarrow> g_elapsed (sr_state r) < g_timeLimit s))"
  proof (cases "g_status s = Playing")
    case True
    obtain w where "stepSimulation hyp s accs delta = Inr (step_finish s (step_elapsed s delta) delta w)"
      using stepSimulation_Inr [OF assms(1,2) True] by blast
    then show ?thesis using assms(3) by (auto simp: step_finish_def Let_def verdict_Playing)
  qed (use assms(3) in \<open>auto simp: stepSimulation_def\<close>)
  moreover have "g_status s \<noteq> Playing \<Longrightarrow> sr_state r = s" using assms(3) by (auto simp: stepSimulation_def)
  ultimately show "g_rules (sr_state r) = g_rules s" "g_battlefieldId (sr_state r) = g_battlefieldId s"
    "g_timeLimit (sr_state r) = g_timeLimit s"
    "g_status s = Playing \<Longrightarrow> g_elapsed (sr_state r) = step_elapsed s delta"
    "g_status s \<noteq> Playing \<Longrightarrow> sr_state r = s"
    "g_status (sr_state r) = Playing \<Longrightarrow> g_elapsed (sr_state r) < g_timeLimit s" by metis+
qed
text \<open>
  A replay in good order: the match is, no time is negative, and under the current rules the match clock is
  the tick count over fifty and a match that goes on has not reached tick 4500.
\<close>

definition replay_ok :: "num option \<Rightarrow> replay \<Rightarrow> bool" where
  "replay_ok v r \<longleftrightarrow> pvp_ok v (rp_state r) (rp_accumulators r) \<and> 0 \<le> rp_time r \<and> 0 \<le> rp_nextAi r
     \<and> (hasCaptureRecovery v \<longrightarrow> g_elapsed (rp_state r) = fl (of_nat (rp_tick r) / 50) \<and> rp_tick r \<le> 4500
          \<and> (rp_playing r \<longrightarrow> rp_tick r < 4500))"

lemma pvp_ok_step:
  assumes "pvp_ok v s accs" "0 \<le> delta"
  shows "\<exists>r. stepSimulation hyp s accs delta = Inr r \<and> pvp_ok v (sr_state r) (sr_accumulators r)"
proof -
  have wf: "wf_state s accs" using assms(1) by (simp add: pvp_ok_def)
  obtain r where r: "stepSimulation hyp s accs delta = Inr r" "wf_state (sr_state r) (sr_accumulators r)"
    "obj_keys (g_territories (sr_state r)) = obj_keys (g_territories s)"
    using step_wf [OF wf assms(2)] by blast
  note frame = step_frame [OF wf assms(2) r(1)]
  have "set (map t_id (b_territories (getBattlefield (g_battlefieldId s)))) \<subseteq> set (obj_keys (g_territories s))"
    using assms(1) by (simp add: pvp_ok_def wf_match_def)
  then have "wf_match (sr_state r)" using r(2) unfolding wf_match_def wf_state_def r(3) frame(2) by blast
  then show ?thesis using r(1,2) frame(1,3) assms(1) by (simp add: pvp_ok_def)
qed

lemma replay_step_ok:
  assumes "pvp_ok v (rp_state r) (rp_accumulators r)" "0 \<le> delta"
  shows "\<exists>r'. replay_step hyp delta r = Inr r' \<and> pvp_ok v (rp_state r') (rp_accumulators r')
    \<and> rp_time r' = rp_time r \<and> rp_nextAi r' = rp_nextAi r \<and> rp_tick r' = rp_tick r \<and> rp_actionIndex r' = rp_actionIndex r"
  using pvp_ok_step [OF assms, of hyp] by (auto simp: replay_step_def)

lemma replay_tick_ok:
  assumes "replay_ok v r" "hasCaptureRecovery v" "rp_playing r"
  shows "\<exists>r'. replay_step hyp PVP_SIMULATION_TICK_SECONDS r = Inr r' \<and> replay_ok v (r'\<lparr>rp_tick := Suc (rp_tick r')\<rparr>)
    \<and> rp_tick r' = rp_tick r \<and> rp_nextAi r' = rp_nextAi r \<and> rp_actionIndex r' = rp_actionIndex r"
proof -
  let ?s = "rp_state r" and ?T = PVP_SIMULATION_TICK_SECONDS
  have ok: "pvp_ok v ?s (rp_accumulators r)" and tick: "rp_tick r < 4500" "g_elapsed ?s = fl (of_nat (rp_tick r) / 50)"
    using assms by (auto simp: replay_ok_def)
  have wf: "wf_state ?s (rp_accumulators r)" "hasCaptureRecovery (g_rules ?s)" "g_timeLimit ?s = PVP_TIME_LIMIT_SECONDS"
    using ok assms(2) by (simp_all add: pvp_ok_def)
  obtain x where x: "stepSimulation hyp ?s (rp_accumulators r) ?T = Inr x" "pvp_ok v (sr_state x) (sr_accumulators x)"
    using pvp_ok_step [OF ok tick_near(2)] by blast
  note frame = step_frame [OF wf(1) tick_near(2) x(1)]
  have e: "g_elapsed (sr_state x) = fl (of_nat (Suc (rp_tick r)) / 50)"
    using frame(4) [OF assms(3)] step_elapsed_tick [OF tick wf(2)] by simp
  have "Suc (rp_tick r) < 4500" if "g_status (sr_state x) = Playing"
  proof (rule ccontr)
    assume "\<not> Suc (rp_tick r) < 4500"
    then have "(90::num) \<le> of_nat (Suc (rp_tick r)) / 50" by simp
    then have "90 \<le> fl (of_nat (Suc (rp_tick r)) / 50)" by (intro fl_ge_double is_double_numeral) simp_all
    then show False using frame(6) [OF that] wf(3) e by (simp add: PVP_TIME_LIMIT_SECONDS_def)
  qed
  then show ?thesis using x e assms(1) tick by (simp add: replay_step_def replay_ok_def)
qed

section \<open>The loops\<close>

lemma currentRules_iff: "(v = Some 2 \<or> usesTacticalRules v) \<longleftrightarrow> hasCaptureRecovery v"
  by (auto simp: usesTacticalRules_def hasCaptureRecovery_def)

definition tick_body :: "hypot_fn \<Rightarrow> replay \<Rightarrow> replay result" where
  "tick_body hyp r = rbind (replay_step hyp PVP_SIMULATION_TICK_SECONDS r) (\<lambda>r. Inr (r\<lparr>rp_tick := Suc (rp_tick r)\<rparr>))"

text \<open>What the loops keep besides the order of the replay: the bot's clock and the player's count.\<close>

definition loop_inv :: "num option \<Rightarrow> num \<Rightarrow> nat \<Rightarrow> replay \<Rightarrow> bool" where
  "loop_inv v a n r \<longleftrightarrow> replay_ok v r \<and> rp_nextAi r = a \<and> rp_actionIndex r = n"

interpretation tick_loop: terminating_loop
    "\<lambda>r. rp_playing r \<and> of_nat (rp_tick r) < target" "\<lambda>r. Some (tick_body hyp r)"
    "\<lambda>r. loop_inv v a n r \<and> hasCaptureRecovery v" "\<lambda>r. 4500 - rp_tick r" for target hyp v a n
proof unfold_locales
  fix r assume "loop_inv v a n r \<and> hasCaptureRecovery v" "rp_playing r \<and> of_nat (rp_tick r) < target"
  then have r: "replay_ok v r" "hasCaptureRecovery v" "rp_playing r" "rp_nextAi r = a" "rp_actionIndex r = n"
    by (simp_all add: loop_inv_def)
  obtain r' where r': "replay_step hyp PVP_SIMULATION_TICK_SECONDS r = Inr r'"
    "replay_ok v (r'\<lparr>rp_tick := Suc (rp_tick r')\<rparr>)" "rp_tick r' = rp_tick r" "rp_nextAi r' = rp_nextAi r"
    "rp_actionIndex r' = rp_actionIndex r"
    using replay_tick_ok [OF r(1-3)] by blast
  have "rp_tick r < 4500" using r by (simp add: replay_ok_def)
  then show "\<exists>s'. Some (tick_body hyp r) = Some (Inr s') \<and> (loop_inv v a n s' \<and> hasCaptureRecovery v)
      \<and> 4500 - rp_tick s' < 4500 - rp_tick r"
    using r r' by (simp add: tick_body_def loop_inv_def)
qed

lemma step_to_current_ok:
  assumes "loop_inv v a n r" "hasCaptureRecovery v"
  shows "\<exists>r'. step_to_current hyp timestamp r = Some (Inr r') \<and> loop_inv v a n r'
    \<and> \<not> (rp_playing r' \<and> of_nat (rp_tick r') < target_tick timestamp)"
proof -
  obtain r' where "while_res (\<lambda>r. rp_playing r \<and> of_nat (rp_tick r) < target_tick timestamp) (tick_body hyp) r = Some (Inr r')"
    "loop_inv v a n r'" "\<not> (rp_playing r' \<and> of_nat (rp_tick r') < target_tick timestamp)"
    using tick_loop.loop_returns [of v a n r "target_tick timestamp" hyp] assms unfolding while_res_def by blast
  then show ?thesis
    by (simp add: step_to_current_def tick_body_def [abs_def] loop_inv_def replay_ok_def pvp_tick_value)
qed

text \<open>Clocks that only rounding slows down.\<close>

lemma clock_gain:
  assumes "0 \<le> x" "x \<le> 100" "0 \<le> d" "d \<le> 10"
  shows "x + d - 1 / 1000 \<le> jadd x d"
  using fl_lower [of "x + d"] assms by (simp add: field_simps)

lemma nat_ceiling_decreases:
  assumes "b + 1 \<le> (a :: num)" "0 < a" shows "nat \<lceil>b\<rceil> < nat \<lceil>a\<rceil>"
proof -
  have "\<lceil>b\<rceil> + 1 \<le> \<lceil>a\<rceil>" using ceiling_mono [OF assms(1)] by simp
  moreover have "0 < \<lceil>a\<rceil>" using assms(2) by simp
  ultimately show ?thesis by linarith
qed

definition legacy_body :: "hypot_fn \<Rightarrow> replay \<Rightarrow> replay result" where
  "legacy_body hyp r = rbind (replay_step hyp PVP_SIMULATION_TICK_SECONDS r) (\<lambda>r.
     Inr (r\<lparr>rp_time := jadd (rp_time r) PVP_SIMULATION_TICK_SECONDS\<rparr>))"

interpretation legacy_loop: terminating_loop
    "\<lambda>r. rp_playing r \<and> jadd (rp_time r) PVP_SIMULATION_TICK_SECONDS \<le> jadd timestamp CLOCK_EPSILON"
    "\<lambda>r. Some (legacy_body hyp r)" "\<lambda>r. loop_inv v a n r \<and> \<not> hasCaptureRecovery v \<and> timestamp \<le> 91"
    "\<lambda>r. nat \<lceil>100 * (93 - rp_time r)\<rceil>" for timestamp hyp v a n
proof unfold_locales
  fix r
  let ?T = PVP_SIMULATION_TICK_SECONDS
  assume "loop_inv v a n r \<and> \<not> hasCaptureRecovery v \<and> timestamp \<le> 91"
    and "rp_playing r \<and> jadd (rp_time r) ?T \<le> jadd timestamp CLOCK_EPSILON"
  then have r: "replay_ok v r" "\<not> hasCaptureRecovery v" "timestamp \<le> 91" "rp_nextAi r = a" "rp_actionIndex r = n"
    and now: "jadd (rp_time r) ?T \<le> jadd timestamp CLOCK_EPSILON" by (simp_all add: loop_inv_def)
  have ok: "pvp_ok v (rp_state r) (rp_accumulators r)" "0 \<le> rp_time r" using r(1) by (simp_all add: replay_ok_def)
  have "CLOCK_EPSILON \<le> 1" unfolding CLOCK_EPSILON_def by (intro fl_le_double) simp_all
  then have "jadd timestamp CLOCK_EPSILON \<le> 92" using r(3) by (intro fl_le_double is_double_numeral) simp_all
  moreover have "rp_time r \<le> jadd (rp_time r) ?T"
  proof -
    have "rp_time r \<le> 100 \<or> 100 < rp_time r" by linarith
    then show ?thesis
    proof
      assume "rp_time r \<le> 100"
      then show ?thesis using clock_gain [of "rp_time r" ?T] ok(2) by (simp add: pvp_tick_value)
    next
      assume "100 < rp_time r"
      then have "100 \<le> jadd (rp_time r) ?T" by (intro fl_ge_double is_double_numeral) (simp_all add: pvp_tick_value)
      then show ?thesis using now \<open>jadd timestamp CLOCK_EPSILON \<le> 92\<close> by linarith
    qed
  qed
  ultimately have t: "rp_time r \<le> 92" using now by linarith
  have gain: "rp_time r + 1 / 100 \<le> jadd (rp_time r) ?T"
    using clock_gain [of "rp_time r" ?T] ok(2) t by (simp add: pvp_tick_value)
  obtain r' where r': "replay_step hyp ?T r = Inr r'" "pvp_ok v (rp_state r') (rp_accumulators r')"
    "rp_time r' = rp_time r" "rp_nextAi r' = rp_nextAi r" "rp_actionIndex r' = rp_actionIndex r"
    using replay_step_ok [OF ok(1) tick_near(2)] by blast
  have "nat \<lceil>100 * (93 - jadd (rp_time r) ?T)\<rceil> < nat \<lceil>100 * (93 - rp_time r)\<rceil>"
    by (rule nat_ceiling_decreases) (use gain t in \<open>simp_all add: algebra_simps\<close>)
  then show "\<exists>s'. Some (legacy_body hyp r) = Some (Inr s')
      \<and> (loop_inv v a n s' \<and> \<not> hasCaptureRecovery v \<and> timestamp \<le> 91)
      \<and> nat \<lceil>100 * (93 - rp_time s')\<rceil> < nat \<lceil>100 * (93 - rp_time r)\<rceil>"
    using r r' ok(2) gain tick_near(2) by (simp add: legacy_body_def loop_inv_def replay_ok_def)
qed

lemma replay_step_loop_inv:
  assumes "loop_inv v a n r" "\<not> hasCaptureRecovery v" "0 \<le> delta"
  shows "\<exists>r'. replay_step hyp delta r = Inr r' \<and> loop_inv v a n r'"
proof -
  have "pvp_ok v (rp_state r) (rp_accumulators r)" using assms(1) by (simp add: loop_inv_def replay_ok_def)
  from replay_step_ok [OF this assms(3), of hyp] show ?thesis
    using assms(1,2) by (auto simp: loop_inv_def replay_ok_def)
qed

lemma legacy_correction_ok:
  assumes inv: "loop_inv v a n r" and v: "\<not> hasCaptureRecovery v" and t: "0 \<le> timestamp"
  shows "\<exists>r'. legacy_correction hyp timestamp r = Inr r' \<and> loop_inv v a n r'"
proof -
  have guarded: "\<exists>r'. (if rp_playing r \<and> 0 < d then replay_step hyp d r else Inr r) = Inr r' \<and> loop_inv v a n r'"
    if "loop_inv v a n r" for r d
    using replay_step_loop_inv [OF that v, of d hyp] that by auto
  obtain r1 where 1: "(if rp_playing r \<and> 0 < jsub timestamp (rp_time r)
      then replay_step hyp (jsub timestamp (rp_time r)) r else Inr r) = Inr r1" "loop_inv v a n r1"
    using guarded [OF inv] by blast
  obtain r2 where 2: "(if rp_playing r1 \<and> 0 < jsub timestamp (g_elapsed (rp_state r1))
      then replay_step hyp (jsub timestamp (g_elapsed (rp_state r1))) r1 else Inr r1) = Inr r2" "loop_inv v a n r2"
    using guarded [OF 1(2)] by blast
  have "legacy_correction hyp timestamp r = Inr (r2\<lparr>rp_time := timestamp\<rparr>)"
    unfolding legacy_correction_def Let_def 1(1) rbind_simps 2(1) by simp
  moreover have "loop_inv v a n (r2\<lparr>rp_time := timestamp\<rparr>)" using 2(2) t by (simp add: loop_inv_def replay_ok_def)
  ultimately show ?thesis by blast
qed

lemma target_tick_limit: "target_tick 90 = 4500"
  unfolding target_tick_def by code_simp

lemma stepTo_ok:
  assumes "loop_inv v a n r" "0 \<le> timestamp" "timestamp \<le> 91"
  shows "\<exists>r'. stepTo hyp (hasCaptureRecovery v) timestamp r = Some (Inr r') \<and> loop_inv v a n r'
    \<and> (hasCaptureRecovery v \<longrightarrow> timestamp = PVP_TIME_LIMIT_SECONDS \<longrightarrow> \<not> rp_playing r')"
proof (cases "hasCaptureRecovery v")
  case True
  obtain r' where r': "step_to_current hyp timestamp r = Some (Inr r')" "loop_inv v a n r'"
    "\<not> (rp_playing r' \<and> of_nat (rp_tick r') < target_tick timestamp)"
    using step_to_current_ok [OF assms(1) True] by blast
  have "\<not> rp_playing r'" if "timestamp = PVP_TIME_LIMIT_SECONDS"
    using r'(2,3) True that
    by (auto simp: loop_inv_def replay_ok_def PVP_TIME_LIMIT_SECONDS_def target_tick_limit)
  with True r' show ?thesis by (auto simp: stepTo_def)
next
  case False
  obtain r1 where 1: "while_res (\<lambda>r. rp_playing r
      \<and> jadd (rp_time r) PVP_SIMULATION_TICK_SECONDS \<le> jadd timestamp CLOCK_EPSILON) (legacy_body hyp) r = Some (Inr r1)"
    "loop_inv v a n r1"
    using legacy_loop.loop_returns [of v a n r timestamp hyp] assms False unfolding while_res_def by blast
  obtain r2 where "legacy_correction hyp timestamp r1 = Inr r2" "loop_inv v a n r2"
    using legacy_correction_ok [OF 1(2) False assms(2)] by blast
  with 1 False show ?thesis by (simp add: stepTo_def step_to_legacy_def legacy_body_def [abs_def])
qed

section \<open>The bot's clock\<close>

lemma ai_tick_bounds: "3 / 4 \<le> ai_tick opts" "ai_tick opts \<le> 4"
proof -
  have double: "is_double (3 / 4)" using is_double_dyadic [of 3 2] by simp
  have near: "3 / 4 \<le> fl x \<and> fl x \<le> 4" if "3 / 4 \<le> x" "x \<le> 4" for x
    using fl_ge_double [OF that(1) double] fl_le_double [OF that(2) is_double_numeral] by simp
  have "3 / 4 \<le> getBotAiTickSeconds d \<and> getBotAiTickSeconds d \<le> 4" for d
    using near [of "36 / 10"] near [of "18 / 10"] near [of "9 / 10"] by (cases d) (simp_all add: getBotAiTickSeconds_def)
  then show "3 / 4 \<le> ai_tick opts" "ai_tick opts \<le> 4" by (simp_all add: ai_tick_def)
qed

text \<open>Orders leave the clock of the replay as it is.\<close>

lemma replay_ok_ordered:
  assumes "replay_ok v r" "pvp_ok v (rp_state r') (rp_accumulators r)" "ordered (rp_state r) (rp_state r')"
    and "same_clock r (r'\<lparr>rp_actionIndex := rp_actionIndex r\<rparr>)"
  shows "replay_ok v r'"
  using assms by (simp add: replay_ok_def ordered_def same_clock_def)

definition ai_body :: "hypot_fn \<Rightarrow> pvp_options \<Rightarrow> bool \<Rightarrow> replay \<Rightarrow> replay run" where
  "ai_body hyp opts currentRules r = run_bind (stepTo hyp currentRules (rp_nextAi r) r) (\<lambda>r.
     Some (rbind (executeAiAction hyp opts r) (\<lambda>r. Inr (r\<lparr>rp_nextAi := jadd (rp_nextAi r) (ai_tick opts)\<rparr>))))"

interpretation ai_loop: terminating_loop "\<lambda>r. rp_playing r \<and> rp_nextAi r \<le> limit"
    "ai_body hyp opts (hasCaptureRecovery v)"
    "\<lambda>r. replay_ok v r \<and> rp_actionIndex r = n \<and> limit \<le> 91 \<and> hypot_ok hyp"
    "\<lambda>r. nat \<lceil>2 * (92 - rp_nextAi r)\<rceil>" for limit hyp opts v n
proof unfold_locales
  fix r
  assume "replay_ok v r \<and> rp_actionIndex r = n \<and> limit \<le> 91 \<and> hypot_ok hyp" "rp_playing r \<and> rp_nextAi r \<le> limit"
  then have r: "replay_ok v r" "rp_actionIndex r = n" "rp_nextAi r \<le> 91" "limit \<le> 91" "hypot_ok hyp" "0 \<le> rp_nextAi r"
    by (simp_all add: replay_ok_def)
  have "loop_inv v (rp_nextAi r) n r" using r by (simp add: loop_inv_def)
  from stepTo_ok [OF this r(6,3), of hyp] obtain r1 where
    1: "stepTo hyp (hasCaptureRecovery v) (rp_nextAi r) r = Some (Inr r1)" "replay_ok v r1"
      "rp_nextAi r1 = rp_nextAi r" "rp_actionIndex r1 = n" by (auto simp: loop_inv_def)
  then have "pvp_ok v (rp_state r1) (rp_accumulators r1)" by (simp add: replay_ok_def)
  from executeAiAction_ok [OF this r(5)] obtain r2 where 2: "executeAiAction hyp opts r1 = Inr r2"
    "pvp_ok v (rp_state r2) (rp_accumulators r1)" "ordered (rp_state r1) (rp_state r2)" "same_clock r1 r2" by blast
  then have r2: "replay_ok v r2" "rp_nextAi r2 = rp_nextAi r" "rp_actionIndex r2 = n"
    using replay_ok_ordered [OF 1(2) 2(2,3)] 1(3,4) by (simp_all add: same_clock_def)
  have gain: "rp_nextAi r + 1 / 2 \<le> jadd (rp_nextAi r) (ai_tick opts)"
    using clock_gain [of "rp_nextAi r" "ai_tick opts"] ai_tick_bounds [of opts] r by linarith
  have "nat \<lceil>2 * (92 - jadd (rp_nextAi r) (ai_tick opts))\<rceil> < nat \<lceil>2 * (92 - rp_nextAi r)\<rceil>"
    by (rule nat_ceiling_decreases) (use gain r in \<open>simp_all add: algebra_simps\<close>)
  then show "\<exists>s'. ai_body hyp opts (hasCaptureRecovery v) r = Some (Inr s')
      \<and> (replay_ok v s' \<and> rp_actionIndex s' = n \<and> limit \<le> 91 \<and> hypot_ok hyp)
      \<and> nat \<lceil>2 * (92 - rp_nextAi s')\<rceil> < nat \<lceil>2 * (92 - rp_nextAi r)\<rceil>"
    using 1(1) 2(1) r2 r gain ai_tick_bounds(1) [of opts] by (simp add: ai_body_def replay_ok_def)
qed

lemma ai_until_ok:
  assumes "replay_ok v r" "limit \<le> 91" "hypot_ok hyp"
  shows "\<exists>r'. ai_until hyp opts (hasCaptureRecovery v) limit r = Some (Inr r') \<and> replay_ok v r'
    \<and> rp_actionIndex r' = rp_actionIndex r"
  using ai_loop.loop_returns [of v r "rp_actionIndex r" limit hyp opts] assms
  unfolding ai_until_def ai_body_def [abs_def] by blast

section \<open>The whole replay\<close>

definition valid_action :: "nat \<Rightarrow> pvp_action \<Rightarrow> bool" where
  "valid_action i a \<longleftrightarrow> pa_sequence a = Finite (of_nat i) \<and> pa_kind a \<in> {None, Some ''ability''}
     \<and> (\<exists>t. pa_at a = Finite t \<and> 0 \<le> t \<and> t \<le> PVP_TIME_LIMIT_SECONDS)"

lemma valid_action_time: "valid_action i a \<Longrightarrow> 0 \<le> finite_value (pa_at a) \<and> finite_value (pa_at a) \<le> 90"
  by (auto simp: valid_action_def finite_value_def PVP_TIME_LIMIT_SECONDS_def)

lemma validate_from_ok:
  "validate_from i t as = Inr () \<longleftrightarrow> (\<forall>k<length as. valid_action (i + k) (as ! k))
     \<and> sorted (t # map (\<lambda>a. finite_value (pa_at a)) as)"
proof (induction i t as rule: validate_from.induct)
  case (2 i t a as)
  have all: "(\<forall>k<length (a # as). valid_action (i + k) ((a # as) ! k))
      \<longleftrightarrow> valid_action i a \<and> (\<forall>k<length as. valid_action (Suc i + k) (as ! k))"
    by (auto simp: less_Suc_eq_0_disj)
  show ?case
  proof (cases "valid_action i a \<and> t \<le> finite_value (pa_at a)")
    case True
    then have "validate_from i t (a # as) = validate_from (Suc i) (finite_value (pa_at a)) as"
      by (auto simp: valid_action_def valid_timestamp_def finite_value_def)
    moreover have "validate_from (Suc i) (finite_value (pa_at a)) as = Inr ()
        \<longleftrightarrow> (\<forall>k<length as. valid_action (Suc i + k) (as ! k)) \<and> sorted (finite_value (pa_at a) # map (\<lambda>a. finite_value (pa_at a)) as)"
      by (rule 2) (use True in \<open>auto simp: valid_action_def valid_timestamp_def finite_value_def\<close>)
    ultimately show ?thesis using True by (simp only: all list.map sorted2 simp_thms)
  next
    case False
    then have "validate_from i t (a # as) \<noteq> Inr ()"
      by (auto simp: valid_action_def valid_timestamp_def finite_value_def split: js_number.splits)
    then show ?thesis using False unfolding all by auto
  qed
qed simp

lemma validate_from_error: "validate_from i t as = Inl e \<Longrightarrow>
    e \<in> PvpSimulationError ` {''invalid_sequence'', ''invalid_action_kind'', ''invalid_timestamp''}"
  by (induction i t as rule: validate_from.induct) (auto split: if_splits)

lemma eps_bounds: "CLOCK_EPSILON \<le> 1" "(if b then CLOCK_EPSILON else 0) \<le> 1"
  unfolding CLOCK_EPSILON_def by (auto intro!: fl_le_double)

lemma replay_actions_ok:
  assumes "replay_ok v r" "hypot_ok hyp" "eps \<le> 1"
    and "\<forall>a\<in>set as. 0 \<le> finite_value (pa_at a) \<and> finite_value (pa_at a) \<le> 90"
  shows "\<exists>r'. replay_actions hyp opts (hasCaptureRecovery v) eps as r = Some (Inr r') \<and> replay_ok v r'
    \<and> rp_actionIndex r' \<le> rp_actionIndex r + length as"
  using assms(1,4)
proof (induction as arbitrary: r)
  case (Cons a as)
  let ?t = "finite_value (pa_at a)"
  have t: "0 \<le> ?t" "?t \<le> 91" using Cons.prems(2) by simp_all
  have "jadd ?t eps \<le> 91" using Cons.prems(2) assms(3) by (intro fl_le_double is_double_numeral) simp_all
  then obtain r1 where 1: "ai_until hyp opts (hasCaptureRecovery v) (jadd ?t eps) r = Some (Inr r1)" "replay_ok v r1"
    "rp_actionIndex r1 = rp_actionIndex r"
    using ai_until_ok [OF Cons.prems(1) _ assms(2)] by blast
  show ?case
  proof (cases "rp_playing r1")
    case playing: True
    have "loop_inv v (rp_nextAi r1) (rp_actionIndex r) r1" using 1 by (simp add: loop_inv_def)
    from stepTo_ok [OF this t, of hyp] obtain r2 where 2: "stepTo hyp (hasCaptureRecovery v) ?t r1 = Some (Inr r2)"
      "replay_ok v r2" "rp_actionIndex r2 = rp_actionIndex r" by (auto simp: loop_inv_def)
    show ?thesis
    proof (cases "rp_playing r2")
      case True
      have "pvp_ok v (rp_state r2) (rp_accumulators r2)" using 2(2) by (simp add: replay_ok_def)
      from player_action_ok [OF this assms(2), of opts a] obtain r3 where 3: "player_action hyp opts a r2 = Inr r3"
        "pvp_ok v (rp_state r3) (rp_accumulators r2)" "ordered (rp_state r2) (rp_state r3)"
        "same_clock r2 (r3\<lparr>rp_actionIndex := rp_actionIndex r2\<rparr>)" "rp_actionIndex r3 \<le> Suc (rp_actionIndex r2)" by blast
      have "replay_ok v r3" by (rule replay_ok_ordered [OF 2(2) 3(2-4)])
      from Cons.IH [OF this] Cons.prems(2) obtain r4 where
        "replay_actions hyp opts (hasCaptureRecovery v) eps as r3 = Some (Inr r4)" "replay_ok v r4"
        "rp_actionIndex r4 \<le> rp_actionIndex r3 + length as" by auto
      then show ?thesis using playing True 1(1) 2 3 by simp
    qed (use playing 1(1) 2 in simp)
  qed (use 1 in simp)
qed simp

lemma replay_finish_ok:
  assumes "replay_ok v r" "hypot_ok hyp" "eps \<le> 1"
  shows "\<exists>r'. replay_finish hyp opts (hasCaptureRecovery v) eps r = Some (Inr r')
    \<and> pvp_ok v (rp_state r') (rp_accumulators r') \<and> rp_actionIndex r' = rp_actionIndex r
    \<and> (hasCaptureRecovery v \<longrightarrow> \<not> rp_playing r' \<and> replay_ok v r')"
proof -
  have "jadd PVP_TIME_LIMIT_SECONDS eps \<le> 91" using assms(3) unfolding PVP_TIME_LIMIT_SECONDS_def
    by (intro fl_le_double is_double_numeral) simp_all
  then obtain r1 where 1: "ai_until hyp opts (hasCaptureRecovery v) (jadd PVP_TIME_LIMIT_SECONDS eps) r = Some (Inr r1)"
    "replay_ok v r1" "rp_actionIndex r1 = rp_actionIndex r"
    using ai_until_ok [OF assms(1) _ assms(2)] by blast
  have ok1: "pvp_ok v (rp_state r1) (rp_accumulators r1)" using 1(2) by (simp add: replay_ok_def)
  show ?thesis
  proof (cases "rp_playing r1")
    case playing: True
    have inv: "loop_inv v (rp_nextAi r1) (rp_actionIndex r) r1" using 1 by (simp add: loop_inv_def)
    obtain r2 where 2: "stepTo hyp (hasCaptureRecovery v) PVP_TIME_LIMIT_SECONDS r1 = Some (Inr r2)"
      "replay_ok v r2" "rp_actionIndex r2 = rp_actionIndex r" "hasCaptureRecovery v \<longrightarrow> \<not> rp_playing r2"
      using stepTo_ok [OF inv, of PVP_TIME_LIMIT_SECONDS hyp] by (auto simp: loop_inv_def PVP_TIME_LIMIT_SECONDS_def)
    have ok2: "pvp_ok v (rp_state r2) (rp_accumulators r2)" using 2(2) by (simp add: replay_ok_def)
    show ?thesis
    proof (cases "rp_playing r2")
      case True
      obtain r3 where "replay_step hyp 0 r2 = Inr r3" "pvp_ok v (rp_state r3) (rp_accumulators r3)"
        "rp_actionIndex r3 = rp_actionIndex r2" using replay_step_ok [OF ok2, of 0 hyp] by auto
      then show ?thesis using 1(1) playing 2 True by (simp add: replay_finish_def)
    qed (use 1(1) playing 2 ok2 in \<open>simp add: replay_finish_def\<close>)
  qed (use 1 ok1 in \<open>simp add: replay_finish_def\<close>)
qed

definition options_ok :: "pvp_options \<Rightarrow> bool" where
  "options_ok opts \<longleftrightarrow> modifiers_ok (px_playerModifiers opts) \<and> modifiers_ok (px_enemyModifiers opts)
     \<and> initial_version (pvp_initial_options opts) \<in> {1, 2, 3, 4}
     \<and> (normalizeBattlefieldId (px_battlefieldId opts) \<noteq> ''quad_citadel''
          \<or> \<not> usesTacticalRules (Some (initial_version (pvp_initial_options opts))))"

lemma replay_start_actions [simp]: "rp_actionIndex (replay_start opts s) = 0"
  by (simp add: replay_start_def)

lemma replay_start_ok:
  assumes "options_ok opts"
  shows "\<exists>s. createInitialGameState (pvp_initial_options opts) = Inr s
    \<and> g_rules s = Some (initial_version (pvp_initial_options opts))
    \<and> replay_ok (g_rules s) (replay_start opts s)"
proof -
  obtain s where s: "createInitialGameState (pvp_initial_options opts) = Inr s" "wf_state s []" "g_status s = Playing"
    "g_elapsed s = 0" "g_armies s = []" "g_rules s = Some (initial_version (pvp_initial_options opts))"
    "g_timeLimit s = PVP_TIME_LIMIT_SECONDS"
    "obj_keys (g_territories s) = map t_id (b_territories (getBattlefield (g_battlefieldId s)))"
    using createInitialGameState_ok [of "pvp_initial_options opts"] assms
    by (auto simp: options_ok_def pvp_initial_options_def)
  have "wf_match s" unfolding wf_match_def s(8) using s(2,5) by (simp add: wf_state_def)
  then have "pvp_ok (g_rules s) s []" using s by (simp add: pvp_ok_def)
  then have "replay_ok (g_rules s) (replay_start opts s)" using s(4) ai_tick_bounds(1) [of opts]
    by (simp add: replay_ok_def replay_start_def)
  with s(1,6) show ?thesis by blast
qed

lemma simulatePvpBattle_ok:
  assumes "validateActions (px_actions opts) = Inr ()" "options_ok opts" "hypot_ok hyp"
    and v: "v = Some (initial_version (pvp_initial_options opts))"
  shows "\<exists>s r. simulatePvpBattle hyp opts = Some (Inr \<lparr>pv_finalState = rp_state r, pv_summary = replay_summary r\<rparr>)
    \<and> createInitialGameState (pvp_initial_options opts) = Inr s
    \<and> pvp_ok v (rp_state r) (rp_accumulators r) \<and> rp_actionIndex r \<le> length (px_actions opts)
    \<and> (hasCaptureRecovery v \<longrightarrow> \<not> rp_playing r \<and> replay_ok v r)"
proof -
  let ?as = "px_actions opts"
  obtain s where s: "createInitialGameState (pvp_initial_options opts) = Inr s" "g_rules s = v"
    "replay_ok v (replay_start opts s)" using replay_start_ok [OF assms(2)] v by auto
  define eps where "eps = (if hasCaptureRecovery v then CLOCK_EPSILON else 0)"
  have eps: "eps \<le> 1" unfolding eps_def by (rule eps_bounds)
  have valid: "\<forall>k<length ?as. valid_action k (?as ! k)"
    using assms(1) validate_from_ok [of 0 0 ?as] by (simp add: validateActions_def split: if_splits)
  have "\<forall>a\<in>set ?as. 0 \<le> finite_value (pa_at a) \<and> finite_value (pa_at a) \<le> 90"
    unfolding all_set_conv_all_nth using valid valid_action_time by blast
  then obtain r1 where 1: "replay_actions hyp opts (hasCaptureRecovery v) eps ?as (replay_start opts s) = Some (Inr r1)"
    "replay_ok v r1" "rp_actionIndex r1 \<le> length ?as"
    using replay_actions_ok [OF s(3) assms(3) eps, of ?as opts] replay_start_actions by auto
  obtain r2 where 2: "replay_finish hyp opts (hasCaptureRecovery v) eps r1 = Some (Inr r2)"
    "pvp_ok v (rp_state r2) (rp_accumulators r2)" "rp_actionIndex r2 = rp_actionIndex r1"
    "hasCaptureRecovery v \<longrightarrow> \<not> rp_playing r2 \<and> replay_ok v r2"
    using replay_finish_ok [OF 1(2) assms(3) eps] by blast
  have "simulatePvpBattle hyp opts = Some (Inr \<lparr>pv_finalState = rp_state r2, pv_summary = replay_summary r2\<rparr>)"
    using assms(1) s(1,2) 1(1) 2(1) by (simp add: simulatePvpBattle_def Let_def currentRules_iff eps_def)
  then show ?thesis using s(1) 2 1(3) by auto
qed

section \<open>The cadence-independent clock\<close>

lemma fl_nonneg_le: "0 \<le> x \<Longrightarrow> fl x \<le> x + x / 9007199254740992"
  using fl_near [of x] by linarith

text \<open>
  The frame clock loses no time. For a frame of any length up to 10000 seconds (negative lengths count as
  0) the number of ticks is a whole number, what remains is at least 0 and at most one tick (up to 10 ns of
  rounding), and ticks and remainder together make up the time that was given, up to 10 ns.
\<close>

theorem consumeSimulationTicks_bounds:
  assumes "is_double rem" "is_double d" "max 0 rem + max 0 d \<le> 10000"
    and b: "b = consumeSimulationTicks (Finite rem) (Finite d)"
  shows "tb_ticks b \<in> \<nat> \<and> 0 \<le> tb_remainder b \<and> tb_remainder b \<le> 1 / 50 + 1 / 100000000
    \<and> \<bar>tb_ticks b * (1 / 50) + tb_remainder b - (max 0 rem + max 0 d)\<bar> \<le> 1 / 100000000"
proof -
  let ?T = PVP_SIMULATION_TICK_SECONDS
  define x where "x = max 0 rem + max 0 d"
  define total where "total = fl x"
  define t1 where "t1 = fl (total + CLOCK_EPSILON)"
  define q where "q = fl (t1 / ?T)"
  define k where "k = math_floor q"
  have x: "0 \<le> x" "x \<le> 10000" using assms(3) by (simp_all add: x_def)
  have total: "\<bar>total - x\<bar> \<le> 1 / 100000000000" "0 \<le> total"
    using fl_near [OF x(1)] x unfolding total_def by (linarith, simp)
  have eps: "\<bar>CLOCK_EPSILON - 1 / 1000000000\<bar> \<le> 1 / 1000000000000" "0 \<le> CLOCK_EPSILON"
    using fl_near [of "1 / 1000000000"] by (simp_all add: CLOCK_EPSILON_def)
  have t1: "\<bar>t1 - (total + CLOCK_EPSILON)\<bar> \<le> 1 / 100000000000" "0 \<le> t1" "total \<le> t1"
  proof -
    have nonneg: "0 \<le> total + CLOCK_EPSILON" using total(2) eps(2) by simp
    have "total + CLOCK_EPSILON \<le> 10001" using total x eps by linarith
    then show "\<bar>t1 - (total + CLOCK_EPSILON)\<bar> \<le> 1 / 100000000000"
      unfolding t1_def by (rule fl_near_within [OF nonneg]) simp
    show "0 \<le> t1" using nonneg unfolding t1_def by simp
    show "total \<le> t1" unfolding t1_def by (rule fl_ge_double) (use eps in \<open>simp_all add: total_def\<close>)
  qed
  have T: "0 < ?T" "\<bar>?T - 1 / 50\<bar> \<le> 1 / 100000000000000000" "?T \<le> 1" "1 / 60 \<le> ?T" by (simp_all add: pvp_tick_value)
  define p where "p = t1 / ?T"
  have t1_max: "t1 \<le> 10001" using t1 total x eps by linarith
  have p: "p * ?T = t1" "0 \<le> p" using T(1) t1(2) by (simp_all add: p_def)
  have "p * (1 / 60) \<le> p * ?T" by (rule mult_left_mono [OF T(4) p(2)])
  then have p_max: "p \<le> 700000" using p(1) t1_max by linarith
  have q: "\<bar>q - p\<bar> \<le> 1 / 10000000000" using fl_near [OF p(2)] p_max by (simp add: q_def p_def [symmetric])
  have k: "k \<in> \<int>" "k \<le> q" "q < k + 1" "0 \<le> k"
    using t1(2) T(1) math_floor_gt [of q] by (simp_all add: k_def q_def math_floor_nonneg math_floor_le)
  define m where "m = k * ?T"
  have "k * ?T \<le> (p + 1 / 10000000000) * ?T" by (rule mult_right_mono) (use k q T in linarith)+
  then have m_le: "m \<le> t1 + 1 / 10000000000" using p(1) T(3) by (simp add: m_def distrib_right)
  have "(p - 1 / 10000000000) * ?T \<le> (k + 1) * ?T" by (rule mult_right_mono) (use k q T in linarith)+
  then have m_ge: "t1 - ?T - 1 / 10000000000 \<le> m" using p(1) T(3) by (simp add: m_def distrib_right left_diff_distrib)
  have m0: "0 \<le> m" using k(4) T(1) by (simp add: m_def)
  have "m - k * (1 / 50) = k * (?T - 1 / 50)" unfolding m_def by (rule right_diff_distrib [symmetric])
  then have "\<bar>m - k * (1 / 50)\<bar> = k * \<bar>?T - 1 / 50\<bar>" using k(4) by (simp only: abs_mult abs_of_nonneg)
  also have "\<dots> \<le> 700001 * (1 / 100000000000000000)" by (rule mult_mono) (use k q p_max T in linarith)+
  finally have m_near: "\<bar>m - k * (1 / 50)\<bar> \<le> 1 / 10000000000" by simp
  have fm: "\<bar>fl m - m\<bar> \<le> 1 / 10000000000" using fl_near [OF m0] m_le t1_max by linarith
  define d where "d = total - fl m"
  have d1: "- (3 / 1000000000) \<le> d" using fm m_le t1(1) eps(1) unfolding d_def by linarith
  have d2: "d \<le> ?T + 3 / 1000000000" using fm m_ge t1(3) unfolding d_def by linarith
  have d3: "\<bar>d + m - total\<bar> \<le> 1 / 10000000000" using fm unfolding d_def by linarith
  have fd: "\<bar>max 0 (fl d) - d\<bar> \<le> 4 / 1000000000" "max 0 (fl d) \<le> ?T + 4 / 1000000000"
  proof -
    have "\<bar>max 0 (fl d) - d\<bar> \<le> 4 / 1000000000 \<and> max 0 (fl d) \<le> ?T + 4 / 1000000000"
    proof (cases "0 \<le> d")
      case True
      then have "max 0 (fl d) = fl d" by simp
      moreover have "\<bar>fl d - d\<bar> \<le> 1 / 1000000000" by (rule fl_near_within [OF True, of 2]) (use d2 T(3) in simp_all)
      ultimately show ?thesis using d2 by linarith
    next
      case False
      then have "fl d \<le> 0" by simp
      then show ?thesis using False d1 T(1) by (auto simp: max_def)
    qed
    then show "\<bar>max 0 (fl d) - d\<bar> \<le> 4 / 1000000000" "max 0 (fl d) \<le> ?T + 4 / 1000000000" by blast+
  qed
  have b_eq: "tb_ticks b = k" "tb_remainder b = max 0 (fl d)"
    by (simp_all add: b consumeSimulationTicks_def finite_or_zero_def Let_def x_def total_def t1_def q_def k_def d_def m_def)
  have "k \<in> \<nat>" using k(1,4) by (simp add: Nats_iff)
  moreover have "max 0 (fl d) \<le> 1 / 50 + 1 / 100000000" using fd(2) T(2) by linarith
  moreover have "\<bar>k * (1 / 50) + max 0 (fl d) - x\<bar> \<le> 1 / 100000000"
  proof -
    show ?thesis using fd(1) d3 m_near total(1) by linarith
  qed
  ultimately show ?thesis unfolding b_eq x_def by simp
qed

lemma consumeSimulationTicks_bounds_witness:
  "tb_ticks (consumeSimulationTicks (Finite (1 / 64)) (Finite (1 / 16))) \<in> \<nat>
   \<and> tb_remainder (consumeSimulationTicks (Finite (1 / 64)) (Finite (1 / 16))) \<le> 1 / 50 + 1 / 100000000"
proof -
  have "is_double (1 / 64)" "is_double (1 / 16)" using is_double_dyadic [of 1 6] is_double_dyadic [of 1 4] by simp_all
  from consumeSimulationTicks_bounds [OF this _ refl] show ?thesis by simp
qed

text \<open>
  C18: which lists of orders a replay accepts: at most 120 of them, numbered from 0, of a known kind, with finite
  times in the 90 seconds that never go back. Every other list is refused with an error code of the replay
  before anything is simulated.
\<close>

theorem validateActions_correct:
  "if MAX_PVP_ACTIONS < length as then validateActions as = Inl (PvpSimulationError ''too_many_actions'')
   else if list_all2 valid_action [0..<length as] as \<and> sorted (map (\<lambda>a. finite_value (pa_at a)) as)
     then validateActions as = Inr ()
   else validateActions as \<in> (Inl \<circ> PvpSimulationError) ` {''invalid_sequence'', ''invalid_action_kind'', ''invalid_timestamp''}"
proof -
  have all: "list_all2 valid_action [0..<length as] as \<longleftrightarrow> (\<forall>k<length as. valid_action (0 + k) (as ! k))"
    by (simp add: list_all2_conv_all_nth)
  have "sorted (0 # map (\<lambda>a. finite_value (pa_at a)) as) \<longleftrightarrow> sorted (map (\<lambda>a. finite_value (pa_at a)) as)"
    if "\<forall>k<length as. valid_action (0 + k) (as ! k)"
  proof -
    have "\<forall>a\<in>set as. 0 \<le> finite_value (pa_at a)"
      unfolding all_set_conv_all_nth using that valid_action_time by blast
    then show ?thesis by auto
  qed
  then have ok: "validate_from 0 0 as = Inr () \<longleftrightarrow> list_all2 valid_action [0..<length as] as
      \<and> sorted (map (\<lambda>a. finite_value (pa_at a)) as)"
    unfolding validate_from_ok all by blast
  show ?thesis
  proof (cases "validate_from 0 0 as")
    case (Inl e)
    then show ?thesis using ok validate_from_error [OF Inl] by (auto simp: validateActions_def)
  next
    case (Inr u)
    then show ?thesis using ok by (simp add: validateActions_def)
  qed
qed

text \<open>
  C17: a replay of valid orders always returns and never throws, whatever the orders try. The match it ends
  with is well formed, no more orders are counted than were given, and under the current rules the match is
  decided: its status is a verdict, and it took at most 90 seconds on a clock that is exactly the number of
  ticks over fifty.
\<close>

theorem simulatePvpBattle_total:
  assumes "validateActions (px_actions opts) = Inr ()" "options_ok opts" "hypot_ok hyp"
  shows "\<exists>res accs. simulatePvpBattle hyp opts = Some (Inr res) \<and> wf_state (pv_finalState res) accs
    \<and> bs_actionsProcessed (pv_summary res) \<le> length (px_actions opts)
    \<and> (px_rules opts \<noteq> Some 1 \<longrightarrow> g_status (pv_finalState res) \<noteq> Playing
        \<and> bs_status (pv_summary res) = g_status (pv_finalState res) \<and> bs_duration (pv_summary res) \<le> 90
        \<and> (\<exists>k\<le>4500. g_elapsed (pv_finalState res) = fl (of_nat k / 50)))"
proof -
  let ?v = "Some (initial_version (pvp_initial_options opts))"
  obtain s r where r: "simulatePvpBattle hyp opts = Some (Inr \<lparr>pv_finalState = rp_state r, pv_summary = replay_summary r\<rparr>)"
    "pvp_ok ?v (rp_state r) (rp_accumulators r)" "rp_actionIndex r \<le> length (px_actions opts)"
    "hasCaptureRecovery ?v \<longrightarrow> \<not> rp_playing r \<and> replay_ok ?v r"
    using simulatePvpBattle_ok [OF assms refl] by blast
  have decided: "\<not> rp_playing r \<and> math_floor (g_elapsed (rp_state r)) \<le> 90
      \<and> (\<exists>k\<le>4500. g_elapsed (rp_state r) = fl (of_nat k / 50))" if "px_rules opts \<noteq> Some 1"
  proof -
    have "hasCaptureRecovery ?v" using assms(2) that
      by (auto simp: options_ok_def hasCaptureRecovery_def initial_version_def pvp_initial_options_def
          GAMEPLAY_RULES_VERSION_def split: option.splits)
    then have fin: "\<not> rp_playing r" "rp_tick r \<le> 4500" "g_elapsed (rp_state r) = fl (of_nat (rp_tick r) / 50)"
      using r(4) by (auto simp: replay_ok_def)
    have "(of_nat (rp_tick r) :: num) \<le> of_nat 4500" using fin(2) by (simp only: of_nat_le_iff)
    then have "g_elapsed (rp_state r) \<le> 90" unfolding fin(3) by (intro fl_le_double is_double_numeral) simp_all
    then show ?thesis using fin math_floor_le [of "g_elapsed (rp_state r)"] by (meson order_trans)
  qed
  then show ?thesis using r(1-3)
    by (auto simp: replay_summary_def pvp_ok_def intro!: exI [of _ "rp_accumulators r"])
qed

definition example_order :: pvp_action where
  "example_order = \<lparr>pa_sequence = Finite 0, pa_at = Finite 1, pa_sourceId = ''p_base'', pa_targetId = ''n_center'', pa_kind = None\<rparr>"

definition example_options :: pvp_options where
  "example_options = \<lparr>px_botDifficulty = None, px_rules = Some 3, px_playerModifiers = None, px_enemyModifiers = None,
     px_actions = [example_order], px_battlefieldId = None, px_commanderId = None\<rparr>"

lemma example_options_ok: "options_ok example_options" "px_actions example_options = [example_order]"
  by (auto simp: example_options_def options_ok_def modifiers_ok_def pvp_initial_options_def initial_version_def
      usesTacticalRules_def normalizeBattlefieldId_def BATTLEFIELDS_def crown_cross_def DEFAULT_BATTLEFIELD_ID_def)

lemma simulatePvpBattle_total_witness:
  "\<exists>res. simulatePvpBattle manhattan example_options = Some (Inr res) \<and> g_status (pv_finalState res) \<noteq> Playing
     \<and> bs_actionsProcessed (pv_summary res) \<le> 1"
proof -
  have "validateActions (px_actions example_options) = Inr ()"
    by (simp add: example_options_ok validateActions_def MAX_PVP_ACTIONS_def example_order_def valid_timestamp_def
        PVP_TIME_LIMIT_SECONDS_def)
  from simulatePvpBattle_total [OF this example_options_ok(1) manhattan_ok] show ?thesis
    by (auto simp: example_options_def)
qed

text \<open>
  The bot's turn never throws, under either policy and with or without its ability: every order it gives is
  legal in the match the orders before it left. The turn keeps the match well formed and changes no owner, no
  status and no clock.
\<close>

theorem executeAiAction_safe:
  assumes "pvp_ok v (rp_state r) accs" "hypot_ok hyp"
  shows "\<exists>r'. executeAiAction hyp opts r = Inr r' \<and> pvp_ok v (rp_state r') accs
    \<and> (\<forall>i. map_option t_owner (obj_get (g_territories (rp_state r')) i) = map_option t_owner (obj_get (g_territories (rp_state r)) i))
    \<and> g_status (rp_state r') = g_status (rp_state r) \<and> g_elapsed (rp_state r') = g_elapsed (rp_state r)
    \<and> rp_tick r' = rp_tick r \<and> rp_time r' = rp_time r \<and> rp_nextAi r' = rp_nextAi r"
proof -
  obtain r' where r': "executeAiAction hyp opts r = Inr r'" "pvp_ok v (rp_state r') accs"
    "ordered (rp_state r) (rp_state r')" "same_clock r r'"
    using executeAiAction_ok [OF assms] by blast
  have owner: "map_option t_owner (obj_get (g_territories (rp_state r')) i) = map_option t_owner (obj_get (g_territories (rp_state r)) i)" for i
  proof -
    have "map_option (\<lambda>t. (t_owner t, t_x t, t_y t)) (obj_get (g_territories (rp_state r')) i)
        = map_option (\<lambda>t. (t_owner t, t_x t, t_y t)) (obj_get (g_territories (rp_state r)) i)"
      using r'(3) by (simp add: ordered_def same_map_def)
    from arg_cong [OF this, of "map_option fst"] show ?thesis by (simp add: option.map_comp comp_def)
  qed
  then show ?thesis using r' by (auto simp: ordered_def same_clock_def)
qed

lemma executeAiAction_safe_witness:
  "\<exists>s r. createInitialGameState (pvp_initial_options example_options) = Inr s
    \<and> executeAiAction manhattan example_options (replay_start example_options s) = Inr r \<and> g_status (rp_state r) = g_status s"
proof -
  obtain s where s: "createInitialGameState (pvp_initial_options example_options) = Inr s"
    "replay_ok (g_rules s) (replay_start example_options s)"
    using replay_start_ok [OF example_options_ok(1)] by blast
  have "pvp_ok (g_rules s) (rp_state (replay_start example_options s)) (rp_accumulators (replay_start example_options s))"
    using s(2) by (simp add: replay_ok_def)
  from executeAiAction_safe [OF this manhattan_ok, of example_options] s(1) show ?thesis by (auto simp: replay_start_def)
qed

end
