(* ===== verification/MatchPolicies.thy ===== *)
theory MatchPolicies
  imports PvpReplay
begin

text \<open>
  What the bots, the abilities, the fog of war and the order preview promise: the properties of \<open>ai.ts\<close>,
  \<open>tactical-ai.ts\<close>, \<open>abilities.ts\<close>, \<open>bot-abilities.ts\<close>, \<open>fog.ts\<close> and \<open>order-preview.ts\<close>.
\<close>

section \<open>Starting matches\<close>

lemma getBattlefield_None: "getBattlefield None = crown_cross"
proof -
  have "b_id crown_cross = DEFAULT_BATTLEFIELD_ID" by (simp add: crown_cross_def DEFAULT_BATTLEFIELD_ID_def)
  then show ?thesis by (simp add: getBattlefield_def normalizeBattlefieldId_def BATTLEFIELDS_def)
qed

lemma tactical_start:
  obtains s where "createInitialGameState (pvp_initial_options example_options) = Inr s" "pvp_ok (Some 3) s []" "g_status s = Playing"
proof -
  have v: "initial_version (pvp_initial_options example_options) = 3"
    by (simp add: initial_version_def pvp_initial_options_def example_options_def)
  obtain s where s: "createInitialGameState (pvp_initial_options example_options) = Inr s" "g_rules s = Some 3"
    "replay_ok (g_rules s) (replay_start example_options s)"
    using replay_start_ok [OF example_options_ok(1)] v by auto
  have "g_status s = Playing"
    using s(1) by (auto simp: createInitialGameState_def rbind_eq_Inr Let_def)
  then show ?thesis using s that by (simp add: replay_ok_def replay_start_def)
qed

section \<open>The bots\<close>

text \<open>
  C19: the tactical policy returns without throwing for either side, and its moves can all be carried out: their
  sources are different towers, and each move is an order the dispatch rules accept in the present state.
\<close>

theorem tactical_moves_legal:
  assumes "wf_match s" "hypot_ok hyp" "w \<noteq> Neutral"
  shows "\<exists>ms. evaluateTacticalMoves hyp s w speed = Inr ms \<and> distinct (map am_from ms)
    \<and> (\<forall>mv\<in>set ms. \<exists>src tgt left m. obj_get (g_territories s) (am_from mv) = Some src
         \<and> obj_get (g_territories s) (am_to mv) = Some tgt \<and> t_owner src = w
         \<and> dispatchArmy hyp src tgt w (1 / 2) i speed (Some s) = Inr (Dispatched left m))"
proof -
  obtain ms where ms: "evaluateTacticalMoves hyp s w speed = Inr ms" "legal_moves hyp s w ms"
    using evaluateTacticalMoves_ok [OF assms] by blast
  have board: "wf_board (g_territories s)" using assms(1) by (simp add: wf_match_def)
  have "\<exists>src tgt left m. obj_get (g_territories s) (am_from mv) = Some src
         \<and> obj_get (g_territories s) (am_to mv) = Some tgt \<and> t_owner src = w
         \<and> dispatchArmy hyp src tgt w (1 / 2) i speed (Some s) = Inr (Dispatched left m)" if "mv \<in> set ms" for mv
  proof -
    have legal: "legal_move hyp s w mv" using ms(2) that by (simp add: legal_moves_def)
    then obtain src tgt where st: "obj_get (g_territories s) (am_from mv) = Some src"
      "obj_get (g_territories s) (am_to mv) = Some tgt" "t_owner src = w" by (auto simp: legal_move_def)
    then show ?thesis using legal_move_dispatch [OF legal assms(2) board st(1,2)] by blast
  qed
  with ms show ?thesis by (auto simp: legal_moves_def)
qed

lemma tactical_moves_legal_witness:
  "\<exists>s ms. createInitialGameState (pvp_initial_options example_options) = Inr s
    \<and> evaluateTacticalMoves manhattan s Enemy (Finite 1) = Inr ms \<and> distinct (map am_from ms)"
proof -
  obtain s where s: "createInitialGameState (pvp_initial_options example_options) = Inr s" "pvp_ok (Some 3) s []"
    by (rule tactical_start)
  then have "wf_match s" by (simp add: pvp_ok_def)
  from tactical_moves_legal [OF this manhattan_ok, of Enemy] s(1) show ?thesis by blast
qed

text \<open>
  The first policy plays a move of maximal score. It returns a move exactly when some pair of a ready source
  and another tower scores above the tie margin, and then no such pair scores higher than the move's.
\<close>

theorem evaluateAiMove_maximal:
  assumes "pairs = {(src, t). src \<in> set (obj_values ts) \<and> t \<in> set (obj_values ts) \<and> t_owner src = w
      \<and> n \<le> t_units src \<and> 1 < t_units src \<and> t_id src \<noteq> t_id t}"
  shows "case evaluateAiMove hyp ts w n of
     None \<Rightarrow> \<forall>(src, t)\<in>pairs. scoreAiDispatch hyp src t w \<le> AI_SCORE_EPSILON
   | Some m \<Rightarrow> \<exists>(src, t)\<in>pairs. m = \<lparr>am_from = t_id src, am_to = t_id t\<rparr>
       \<and> AI_SCORE_EPSILON < scoreAiDispatch hyp src t w
       \<and> (\<forall>(src', t')\<in>pairs. scoreAiDispatch hyp src' t' w \<le> scoreAiDispatch hyp src t w)"
proof -
  have "pairs = set (ai_pairs ts w n)" using assms ai_pairs_iff [of _ _ ts w n] by auto
  then show ?thesis by (simp only: evaluateAiMove_best)
qed

lemma evaluateAiMove_maximal_witness:
  "evaluateAiMove manhattan (g_territories duel) Player 8 = Some \<lparr>am_from = ''n_center'', am_to = ''e''\<rparr>
   \<or> (\<forall>t\<in>{example_tower Enemy 5 Fortress\<lparr>t_id := ''e''\<rparr>}.
        scoreAiDispatch manhattan (example_tower Player 14 Fortress) t Player \<le> AI_SCORE_EPSILON)"
  using evaluateAiMove_maximal [where hyp = manhattan and ts = "g_territories duel" and w = Player and n = 8, OF refl]
  by (auto simp: duel_def example_tower_def split: option.splits)

section \<open>Abilities\<close>

text \<open>
  C20: a commander ability is usable once. It has an effect only under the fourth rules, in a running match,
  from the moment it unlocks, from a tower the side owns and when the side has not used it; the state it leaves
  is well formed, changes no owner and no garrison but the source's, and refuses every further ability of the
  same side. No use of it throws.
\<close>

theorem ability_used_once:
  assumes "pvp_ok v s accs" "hypot_ok hyp" "w \<noteq> Neutral"
  shows "\<exists>r. applyTeamAbility hyp s w commander i j speed n = Inr r
    \<and> (\<forall>x. r = Some x \<longrightarrow> v = Some 4 \<and> g_status s = Playing \<and> \<not> ability_locked s \<and> \<not> ability_used s w
        \<and> (\<exists>src. obj_get (g_territories s) i = Some src \<and> t_owner src = w)
        \<and> pvp_ok v (ar_state x) accs
        \<and> (\<forall>k. k \<noteq> i \<longrightarrow> units_at (ar_state x) k = units_at s k)
        \<and> (\<forall>commander' i' j' speed' n'. applyTeamAbility hyp (ar_state x) w commander' i' j' speed' n' = Inr None))"
proof -
  obtain r where r: "applyTeamAbility hyp s w commander i j speed n = Inr r"
    "\<forall>x. r = Some x \<longrightarrow> ability_ok v accs w i j s x"
    using applyTeamAbility_ok [OF assms] by blast
  have "v = Some 4 \<and> g_status s = Playing \<and> \<not> ability_locked s \<and> \<not> ability_used s w
        \<and> (\<exists>src. obj_get (g_territories s) i = Some src \<and> t_owner src = w)" if "r = Some x" for x
    using r(1) assms(1) that
    by (auto simp: applyTeamAbility_def hasCommanderAbilities_def pvp_ok_def split: option.splits if_splits)
  moreover have "applyTeamAbility hyp (ar_state x) w commander' i' j' speed' n' = Inr None"
    if "r = Some x" for x commander' i' j' speed' n'
    using r(2) that by (auto simp: applyTeamAbility_def ability_ok_def split: option.splits)
  ultimately show ?thesis using r by (auto simp: ability_ok_def order_ok_def)
qed

definition ability_match :: game_state where
  "ability_match = \<lparr>g_rules = Some 4, g_readyAtMs = None, g_shieldedUntilMs = None, g_playerAbilityUsed = False,
     g_enemyAbilityUsed = False, g_battlefieldId = None, g_territories = map (\<lambda>t. (t_id t, t\<lparr>t_owner := Player\<rparr>)) (b_territories crown_cross),
     g_armies = [], g_status = Playing, g_elapsed = 20, g_timeLimit = 90, g_stats = empty_stats\<rparr>"

lemma ability_match_ok: "pvp_ok (Some 4) ability_match []"
proof -
  have nat: "wf_tower (t_id t) (t\<lparr>t_owner := Player\<rparr>)" if "t \<in> set (b_territories crown_cross)" for t
    using that by (auto simp: wf_tower_def crown_cross_def tower_def Let_def)
  have keys: "obj_keys (g_territories ability_match) = map t_id (b_territories crown_cross)"
    by (simp add: ability_match_def)
  have crown: "getBattlefield None = crown_cross" by (rule getBattlefield_None)
  have "distinct (obj_keys (g_territories ability_match))"
    using getBattlefield_distinct [of None] by (simp add: keys crown)
  moreover have "wf_tower k t" if "obj_get (g_territories ability_match) k = Some t" for k t
    using map_of_SomeD [OF that] nat by (auto simp: ability_match_def)
  ultimately have "wf_board (g_territories ability_match)" unfolding wf_board_def by blast
  then show ?thesis unfolding pvp_ok_def wf_state_def wf_match_def wf_accumulators_def keys
    by (simp add: ability_match_def crown obj_get_or_def PVP_TIME_LIMIT_SECONDS_def)
qed

lemma ability_match_shield:
  "applyTeamAbility manhattan ability_match Player (Some ''crown_guard'') ''p_base'' ''p_base'' 1 ''a''
     = Inr (Some (apply_shield ability_match Player ''p_base''))"
proof -
  have "\<exists>t. obj_get (g_territories ability_match) ''p_base'' = Some t \<and> t_owner t = Player"
    by (simp add: ability_match_def crown_cross_def tower_def Let_def)
  moreover have "\<not> ability_locked ability_match" by code_simp
  ultimately show ?thesis
    by (auto simp: applyTeamAbility_def COMMANDER_ABILITY_def ability_match_def hasCommanderAbilities_def ability_used_def)
qed

lemma ability_used_once_witness:
  "applyTeamAbility manhattan (ar_state (apply_shield ability_match Player ''p_base'')) Player
     (Some ''vanguard'') ''p_base'' ''n_center'' 1 ''b'' = Inr None"
  using ability_used_once [OF ability_match_ok manhattan_ok, of Player "Some ''crown_guard''" "''p_base''" "''p_base''" 1 "''a''"]
    ability_match_shield by auto

section \<open>Fog of war\<close>

lemma set_set_add [simp]: "set (set_add x xs) = insert x (set xs)"
  by (auto simp: set_add_def)

lemma fold_set_add:
  "set (fold (\<lambda>t v. if P t then set_add (f t) v else v) ts vs) = set vs \<union> f ` {t \<in> set ts. P t}"
  by (induction ts arbitrary: vs) auto

lemma fold_roads:
  "set (fold (\<lambda>(a, b) visible. let v = (if P a then set_add b visible else visible)
       in if P b then set_add a v else v) rs vs)
   = set vs \<union> {i. \<exists>j. ((j, i) \<in> set rs \<or> (i, j) \<in> set rs) \<and> P j}"
proof (induction rs arbitrary: vs)
  case (Cons r rs)
  obtain a b where r: "r = (a, b)" by (cases r)
  show ?case unfolding r fold_simps Cons.IH by (auto simp: Let_def)
qed simp

lemma getBattlefield_default: "getBattlefield (Some (case v of Some i \<Rightarrow> i | None \<Rightarrow> DEFAULT_BATTLEFIELD_ID)) = getBattlefield v"
proof (cases v)
  case None
  have "normalizeBattlefieldId (Some DEFAULT_BATTLEFIELD_ID) = DEFAULT_BATTLEFIELD_ID"
    by (simp add: normalizeBattlefieldId_def)
  then have "getBattlefield (Some DEFAULT_BATTLEFIELD_ID) = getBattlefield None"
    by (simp add: getBattlefield_def normalizeBattlefieldId_def [of None])
  with None show ?thesis by simp
qed simp

lemma owned_by_id_iff: "owned_by_id s w i \<longleftrightarrow> owned_tower s w i"
  by (auto simp: owned_by_id_def owned_tower_def)

lemma computeVisibleTerritoryIds_set:
  assumes "wf_board (g_territories s)"
  shows "set (computeVisibleTerritoryIds s w) = {i. owned_tower s w i \<or> (\<exists>j\<in>set (tacticalNeighbors s i). owned_tower s w j)}"
proof -
  have own: "t_id ` {t \<in> set (obj_values (g_territories s)). t_owner t = w} = {i. owned_tower s w i}"
  proof (intro equalityI subsetI)
    fix i assume "i \<in> t_id ` {t \<in> set (obj_values (g_territories s)). t_owner t = w}"
    then show "i \<in> {i. owned_tower s w i}" using wf_board_values(2) [OF assms] by (auto simp: owned_tower_def)
  next
    fix i assume "i \<in> {i. owned_tower s w i}"
    then obtain t where "obj_get (g_territories s) i = Some t" "t_owner t = w" by (auto simp: owned_tower_def)
    moreover have "t_id t = i" using wf_boardD [OF assms] calculation(1) by (simp add: wf_tower_def)
    ultimately show "i \<in> t_id ` {t \<in> set (obj_values (g_territories s)). t_owner t = w}"
      using obj_get_Some_value by (auto intro!: image_eqI [of _ _ t])
  qed
  show ?thesis
    unfolding computeVisibleTerritoryIds_def getBattlefield_default fold_roads fold_set_add own owned_by_id_iff
    by (auto simp: tacticalNeighbors_iff)
qed

text \<open>
  The fog never hides a legal target. The visible towers are exactly a side's own and those one road away
  from them, and under the tactical rules the target of every order the dispatch rules accept is visible, as is
  the tower its last leg starts from.
\<close>

theorem fog_shows_legal_targets:
  assumes "wf_board (g_territories s)" "hypot_ok hyp"
  shows "set (computeVisibleTerritoryIds s w) = {i. owned_by_id s w i \<or> (\<exists>j\<in>set (tacticalNeighbors s i). owned_by_id s w j)}
    \<and> (\<forall>src tgt ids. usesTacticalRules (g_rules s) \<longrightarrow> findDispatchRoute hyp s src tgt w = Inr (Some ids)
        \<longrightarrow> tgt \<in> set (computeVisibleTerritoryIds s w) \<and> last (butlast ids) \<in> set (computeVisibleTerritoryIds s w))"
proof -
  have "tgt \<in> set (computeVisibleTerritoryIds s w) \<and> last (butlast ids) \<in> set (computeVisibleTerritoryIds s w)"
    if rules: "usesTacticalRules (g_rules s)" and route: "findDispatchRoute hyp s src tgt w = Inr (Some ids)" for src tgt ids
  proof -
    have path: "last ids = tgt" "2 \<le> length ids" "along_roads s ids" "\<forall>i\<in>set (butlast ids). owned_tower s w i"
      using findDispatchRoute_path [OF assms(2) rules route] by auto
    obtain ys where ys: "ids = ys @ [tgt]" using path(1,2) by (cases ids rule: rev_cases) auto
    have "ys \<noteq> []" using path(2) ys by auto
    then have "tgt \<in> set (tacticalNeighbors s (last ys))" "owned_tower s w (last ys)"
      using path(3,4) along_roads_snoc [of ys s tgt] by (auto simp: ys)
    then show ?thesis unfolding computeVisibleTerritoryIds_set [OF assms(1)]
      by (auto simp: ys tacticalNeighbors_sym [of tgt])
  qed
  then show ?thesis using computeVisibleTerritoryIds_set [OF assms(1)] by (simp add: owned_by_id_iff)
qed

lemma fog_shows_legal_targets_witness:
  "''n_center'' \<in> set (computeVisibleTerritoryIds ability_match Player)"
proof -
  have "owned_by_id ability_match Player ''n_center''"
    by (simp add: owned_by_id_def ability_match_def crown_cross_def tower_def Let_def)
  moreover have "wf_board (g_territories ability_match)" using ability_match_ok by (simp add: pvp_ok_def wf_match_def)
  ultimately show ?thesis using fog_shows_legal_targets [OF _ manhattan_ok, of ability_match Player] by blast
qed

section \<open>Previews\<close>

lemma preview_source_ok:
  assumes "wf_match s" "hypot_ok hyp" "w \<noteq> Neutral"
  shows "\<exists>os. preview_source hyp s target w speed um i = Inr os
    \<and> (\<forall>d\<in>set os. (\<forall>ids. a_routeIds (po_army d) = Some ids \<longrightarrow> set ids \<subseteq> set (obj_keys (g_territories s)))
        \<and> (\<exists>src. obj_get (g_territories s) i = Some src \<and> t_owner src = w))"
proof (cases "obj_get (g_territories s) i")
  case (Some source)
  show ?thesis
  proof (cases target)
    case t: (Some t)
    obtain r where r: "dispatchArmy hyp source t w (1 / 2) (''preview_'' @ i) speed (Some s) = Inr r"
      using dispatchArmy_total [OF assms(2)] by blast
    show ?thesis
    proof (cases r)
      case (Dispatched left m)
      have nat: "t_units source \<in> \<nat>" using assms(1) Some by (auto simp: wf_match_def wf_board_def wf_tower_def)
      have "wf_army (obj_keys (g_territories s)) m"
        using dispatched_army_wf [OF r [unfolded Dispatched] assms(2) nat assms(3)] by blast
      moreover have "t_owner source = w" using r [unfolded Dispatched] by (rule dispatchArmy_Dispatched)
      ultimately show ?thesis using Some t r Dispatched by (simp add: preview_source_def wf_army_def)
    qed (use Some t r in \<open>simp add: preview_source_def\<close>)
  qed (use Some in \<open>simp add: preview_source_def\<close>)
qed (simp add: preview_source_def)

text \<open>
  Previewing an order never throws, on any selection of sources and any target. Only towers the side owns
  contribute, a target that is not on the board has no forecast, and a reason is given exactly when nothing
  would be sent.
\<close>

theorem previewOrder_total:
  assumes "wf_match s" "hypot_ok hyp" "w \<noteq> Neutral"
  shows "\<exists>p. previewOrder hyp s sources tgt w speed um = Inr p
    \<and> (op_projected p = None \<longleftrightarrow> obj_get (g_territories s) tgt = None)
    \<and> (op_reason p = [] \<longleftrightarrow> op_orders p \<noteq> [])
    \<and> (op_orders p \<noteq> [] \<longrightarrow> (\<exists>i\<in>set sources. owned_by_id s w i))"
proof -
  let ?t = "obj_get (g_territories s) tgt"
  obtain os where os: "flat_map_res (preview_source hyp s ?t w speed um) sources = Inr os"
    using flat_map_res_total [of sources "preview_source hyp s ?t w speed um"] preview_source_ok [OF assms] by blast
  have from_source: "(\<forall>ids. a_routeIds (po_army d) = Some ids \<longrightarrow> set ids \<subseteq> set (obj_keys (g_territories s)))
      \<and> (\<exists>i\<in>set sources. owned_by_id s w i)" if mem: "d \<in> set os" for d
  proof -
    obtain i zs where i: "i \<in> set sources" "preview_source hyp s ?t w speed um i = Inr zs" "d \<in> set zs"
      using flat_map_res_mem [OF os mem] by blast
    obtain os' where os': "preview_source hyp s ?t w speed um i = Inr os'"
      "\<forall>d\<in>set os'. (\<forall>ids. a_routeIds (po_army d) = Some ids \<longrightarrow> set ids \<subseteq> set (obj_keys (g_territories s)))
        \<and> (\<exists>src. obj_get (g_territories s) i = Some src \<and> t_owner src = w)"
      using preview_source_ok [OF assms, of ?t speed um i] by blast
    then have "owned_by_id s w i" using i(2,3) by (fastforce simp: owned_by_id_def)
    then show ?thesis using os' i by fastforce
  qed
  have "\<exists>y. (case p of (d, index) \<Rightarrow> rbind (armyArrivalSeconds hyp (po_army d) s) (\<lambda>eta.
         Inr \<lparr>in_army = po_army d, in_index = index, in_eta = eta\<rparr>)) = Inr y"
    if mem: "p \<in> set (zip os [0..<length os])" for p
  proof -
    obtain d k where p: "p = (d, k)" by (cases p)
    then have "d \<in> set os" using mem by (auto dest: set_zip_leftD)
    then obtain eta where "armyArrivalSeconds hyp (po_army d) s = Inr eta"
      using armyArrivalSeconds_total [of "po_army d" s hyp] from_source by blast
    then show ?thesis by (simp add: p)
  qed
  then obtain ys where "map_res (\<lambda>(d, index). rbind (armyArrivalSeconds hyp (po_army d) s) (\<lambda>eta.
         Inr \<lparr>in_army = po_army d, in_index = index, in_eta = eta\<rparr>)) (zip os [0..<length os]) = Inr ys"
    using map_res_total by blast
  then have "preview_arrivals hyp s os = Inr (js_sort cmp_incoming ys)" by (simp add: preview_arrivals_def)
  moreover have "os \<noteq> [] \<longrightarrow> (\<exists>i\<in>set sources. owned_by_id s w i)"
    using from_source [of "hd os"] by (cases os) auto
  ultimately show ?thesis using os by (auto simp: previewOrder_def Let_def)
qed

lemma previewOrder_total_witness:
  "\<exists>p. previewOrder manhattan ability_match [''p_base'', ''nowhere''] ''n_center'' Player (Finite 1) 1 = Inr p
    \<and> op_projected p \<noteq> None"
proof -
  have "wf_match ability_match" using ability_match_ok by (simp add: pvp_ok_def)
  moreover have "obj_get (g_territories ability_match) ''n_center'' \<noteq> None"
    by (simp add: ability_match_def crown_cross_def tower_def Let_def)
  ultimately show ?thesis
    using previewOrder_total [OF _ manhattan_ok, of ability_match Player "[''p_base'', ''nowhere'']" "''n_center''" "Finite 1" 1]
    by fastforce
qed

end
