(* ===== verification/NumberText.thy ===== *)
theory NumberText
  imports GameTypes
begin

text \<open>
  How the language prints numbers: \<open>String(x)\<close> with the shortest digits that round back to \<open>x\<close>, and
  \<open>x.toFixed(d)\<close>. Text that leaves ASCII is a list of code points.
\<close>

type_synonym utext = "nat list"

definition ascii :: "string \<Rightarrow> utext" where "ascii s = map of_char s"

text \<open>A decimal scale: the number \<open>n\<close> with \<open>10 ^ (n - 1) \<le> x < 10 ^ n\<close>, for positive \<open>x\<close>.\<close>

definition decimal_length :: "nat \<Rightarrow> nat" where
  "decimal_length n = length (nat_string n)"

definition decimal_exponent :: "num \<Rightarrow> int" where
  "decimal_exponent x =
     (if 1 \<le> x then int (decimal_length (nat \<lfloor>x\<rfloor>))
      else let k = decimal_length (nat (\<lceil>1 / x\<rceil> - 1)) in - int k + (if 10 powi (- int k) \<le> x then 1 else 0))"

text \<open>The closest \<open>k\<close>-digit decimals below and above \<open>x\<close>; the first that rounds to \<open>x\<close>, or the closer one.\<close>

definition digits_with :: "num \<Rightarrow> int \<Rightarrow> nat \<Rightarrow> nat option" where
  "digits_with x n k =
     (let scale = 10 powi (n - int k); lo = nat \<lfloor>x / scale\<rfloor>; hi = Suc lo;
          lo_ok = (0 < lo \<and> fl (of_nat lo * scale) = x); hi_ok = (fl (of_nat hi * scale) = x)
      in if lo_ok \<and> (\<not> hi_ok \<or> x - of_nat lo * scale \<le> of_nat hi * scale - x) then Some lo
         else if hi_ok then Some hi else None)"

text \<open>The digits, their number and the scale; digits that round up to the next power of ten are a single 1.\<close>

definition shortest_digits :: "num \<Rightarrow> nat \<times> nat \<times> int" where
  "shortest_digits x =
     (let n = decimal_exponent x
      in case List.find (\<lambda>k. digits_with x n k \<noteq> None) [1..<18] of
        Some k \<Rightarrow> (let s = the (digits_with x n k) in if s = 10 ^ k then (1, 1, n + 1) else (s, k, n))
      | None \<Rightarrow> (0, 1, n))"

definition int_string :: "int \<Rightarrow> string" where
  "int_string i = (if i < 0 then ''-'' @ nat_string (nat (- i)) else nat_string (nat i))"

definition positive_string :: "num \<Rightarrow> string" where
  "positive_string x =
     (let (s, k, n) = shortest_digits x; ds = nat_string s; e = n - 1;
          exp = ''e'' @ (if e < 0 then ''-'' else ''+'') @ nat_string (nat \<bar>e\<bar>)
      in if int k \<le> n \<and> n \<le> 21 then ds @ replicate (nat n - k) (CHR ''0'')
         else if 0 < n \<and> n \<le> 21 then take (nat n) ds @ ''.'' @ drop (nat n) ds
         else if -6 < n \<and> n \<le> 0 then ''0.'' @ replicate (nat (- n)) (CHR ''0'') @ ds
         else if k = 1 then ds @ exp
         else take 1 ds @ ''.'' @ drop 1 ds @ exp)"

definition num_string :: "num \<Rightarrow> string" where
  "num_string x =
     (if x = of_int \<lfloor>x\<rfloor> \<and> \<bar>x\<bar> \<le> 2 ^ 53 then int_string \<lfloor>x\<rfloor>
      else if x < 0 then ''-'' @ positive_string (- x) else positive_string x)"

text \<open>\<open>toFixed\<close> rounds the exact value, ties upwards, and pads with zeros.\<close>

definition pad_left :: "nat \<Rightarrow> string \<Rightarrow> string" where
  "pad_left k s = replicate (k - length s) (CHR ''0'') @ s"

definition to_fixed :: "nat \<Rightarrow> num \<Rightarrow> string" where
  "to_fixed d x =
     (let n = nat \<lfloor>\<bar>x\<bar> * 10 ^ d + 1 / 2\<rfloor>; digits = pad_left (Suc d) (nat_string n); m = length digits - d
      in (if x < 0 then ''-'' else []) @ take m digits @ (if d = 0 then [] else ''.'' @ drop m digits))"

lemma num_string_of_nat: "n \<le> 2 ^ 53 \<Longrightarrow> num_string (of_nat n) = nat_string n"
proof -
  assume "n \<le> 2 ^ 53"
  then have "(of_nat n :: num) \<le> of_nat (2 ^ 53)" by (simp only: of_nat_le_iff)
  then show ?thesis by (simp add: num_string_def int_string_def)
qed

end
