(* ===== verification/Upgrades.thy ===== *)
theory Upgrades
  imports NumberText Dispatch
begin

text \<open>
  \<open>commanders.ts\<close> and \<open>upgrades.ts\<close>, with the career and ledger types of \<open>progression.ts\<close>. A level of a career
  read from storage may be any number, so levels are \<open>js_number\<close>; \<open>None\<close> is a value that is not a number.
\<close>

section \<open>Careers and ledgers\<close>

datatype currency = Coins | Gems | Trophies

record player_career =
  pc_playerId :: string
  pc_coins :: num
  pc_gems :: num
  pc_trophies :: num
  pc_startingGarrisonLevel :: js_number
  pc_productionLevel :: js_number
  pc_armySpeedLevel :: js_number
  pc_treasuryLevel :: js_number
  pc_selectedCommanderId :: string
  pc_matchesPlayed :: num
  pc_matchesWon :: num
  pc_currentStreak :: num
  pc_bestStreak :: num
  pc_lastMatchTimestamp :: num
  pc_tutorialCompleted :: "bool option"

record ledger_entry =
  le_id :: string
  le_player :: string
  le_currency :: currency
  le_amount :: num
  le_reason :: string
  le_source :: string
  le_previousBalance :: num
  le_resultingBalance :: num
  le_timestamp :: num

section \<open>Commanders\<close>

record commander_definition =
  co_id :: commander_id
  co_name :: string
  co_role :: string
  co_unlockKingdomLevel :: num
  co_accent :: nat
  co_startingUnitsDelta :: num
  co_productionMultiplier :: num
  co_armySpeedMultiplier :: num
  co_strength :: string
  co_tradeoff :: string

definition DEFAULT_COMMANDER_ID :: commander_id where "DEFAULT_COMMANDER_ID = ''crown_guard''"

definition COMMANDERS :: "commander_definition list" where
  "COMMANDERS = [
    \<lparr>co_id = ''crown_guard'', co_name = ''Crown Guard'', co_role = ''Balanced command'', co_unlockKingdomLevel = 0,
      co_accent = 0x60a5fa, co_startingUnitsDelta = 0, co_productionMultiplier = 1, co_armySpeedMultiplier = 1,
      co_strength = ''No weakness'', co_tradeoff = ''No specialty''\<rparr>,
    \<lparr>co_id = ''quartermaster'', co_name = ''Quartermaster'', co_role = ''Builds armies faster'', co_unlockKingdomLevel = 10,
      co_accent = 0x34d399, co_startingUnitsDelta = 0, co_productionMultiplier = fl (115 / 100),
      co_armySpeedMultiplier = fl (9 / 10), co_strength = ''+15% production'', co_tradeoff = ''-10% march speed''\<rparr>,
    \<lparr>co_id = ''vanguard'', co_name = ''Vanguard'', co_role = ''Strikes before rivals'', co_unlockKingdomLevel = 25,
      co_accent = 0xf59e0b, co_startingUnitsDelta = -3, co_productionMultiplier = 1,
      co_armySpeedMultiplier = fl (115 / 100), co_strength = ''+15% march speed'', co_tradeoff = ''-3 starting troops''\<rparr>]"

text \<open>The argument is \<open>unknown\<close>; a value that is not a string equals no id.\<close>

definition normalizeCommanderId :: "string option \<Rightarrow> commander_id" where
  "normalizeCommanderId v =
     (case v of Some i \<Rightarrow> if list_ex (\<lambda>c. co_id c = i) COMMANDERS then i else DEFAULT_COMMANDER_ID
      | None \<Rightarrow> DEFAULT_COMMANDER_ID)"

definition getCommander :: "string option \<Rightarrow> commander_definition" where
  "getCommander v =
     (case List.find (\<lambda>c. co_id c = normalizeCommanderId v) COMMANDERS of
        Some c \<Rightarrow> c | None \<Rightarrow> hd COMMANDERS)"

definition isCommanderUnlocked :: "string option \<Rightarrow> num \<Rightarrow> bool" where
  "isCommanderUnlocked v kingdomLevel \<longleftrightarrow> co_unlockKingdomLevel (getCommander v) \<le> kingdomLevel"

section \<open>Upgrade levels and effects\<close>

datatype upgrade_type = StartingGarrison | Production | ArmySpeed | Treasury

definition upgrade_name :: "upgrade_type \<Rightarrow> string" where
  "upgrade_name ty = (case ty of StartingGarrison \<Rightarrow> ''starting_garrison'' | Production \<Rightarrow> ''production''
     | ArmySpeed \<Rightarrow> ''army_speed'' | Treasury \<Rightarrow> ''treasury'')"

definition UPGRADE_COSTS :: "num list" where
  "UPGRADE_COSTS = [50, 100, 175, 275, 400, 500, 625, 775, 950, 1150, 1375, 1625, 1900, 2200, 2525,
     2875, 3250, 3650, 4100, 4600]"

record upgrade_definition =
  ud_maxLevel :: num
  ud_costs :: "num list"

definition UPGRADE_DEFINITIONS :: "upgrade_type \<Rightarrow> upgrade_definition" where
  "UPGRADE_DEFINITIONS ty = (case ty of
       StartingGarrison \<Rightarrow> \<lparr>ud_maxLevel = 20, ud_costs = UPGRADE_COSTS\<rparr>
     | Production \<Rightarrow> \<lparr>ud_maxLevel = 20, ud_costs = UPGRADE_COSTS\<rparr>
     | ArmySpeed \<Rightarrow> \<lparr>ud_maxLevel = 20, ud_costs = UPGRADE_COSTS\<rparr>
     | Treasury \<Rightarrow> \<lparr>ud_maxLevel = 20, ud_costs = UPGRADE_COSTS\<rparr>)"

definition normalizeUpgradeLevel :: "js_number option \<Rightarrow> upgrade_type \<Rightarrow> num" where
  "normalizeUpgradeLevel v ty =
     (case v of Some (Finite x) \<Rightarrow> min (ud_maxLevel (UPGRADE_DEFINITIONS ty)) (max 0 (math_floor x)) | _ \<Rightarrow> 0)"

definition getUpgradeLevel :: "player_career \<Rightarrow> upgrade_type \<Rightarrow> num" where
  "getUpgradeLevel c ty = (case ty of
       StartingGarrison \<Rightarrow> normalizeUpgradeLevel (Some (pc_startingGarrisonLevel c)) ty
     | Production \<Rightarrow> normalizeUpgradeLevel (Some (pc_productionLevel c)) ty
     | Treasury \<Rightarrow> normalizeUpgradeLevel (Some (pc_treasuryLevel c)) ty
     | ArmySpeed \<Rightarrow> normalizeUpgradeLevel (Some (pc_armySpeedLevel c)) ty)"

text \<open>\<open>xs[i]\<close> of a whole number \<open>i\<close>.\<close>

definition num_get :: "'a list \<Rightarrow> num \<Rightarrow> 'a option" where
  "num_get xs i = (if 0 \<le> i \<and> nat \<lfloor>i\<rfloor> < length xs then Some (xs ! nat \<lfloor>i\<rfloor>) else None)"

definition getNextUpgradeCost :: "player_career \<Rightarrow> upgrade_type \<Rightarrow> num option" where
  "getNextUpgradeCost c ty = num_get (ud_costs (UPGRADE_DEFINITIONS ty)) (getUpgradeLevel c ty)"

definition getStartingUnits :: "num \<Rightarrow> num" where
  "getStartingUnits level = jadd (jadd 20 (jmul (min level 5) 3)) (max (jsub level 5) 0)"

definition roundMultiplier :: "num \<Rightarrow> num" where
  "roundMultiplier v = jdiv (math_round (jmul v 1000)) 1000"

definition getProductionRateMultiplier :: "num \<Rightarrow> num" where
  "getProductionRateMultiplier level =
     roundMultiplier (jadd (jadd 1 (jmul (min level 5) (fl (8 / 100)))) (jmul (max (jsub level 5) 0) (fl (2 / 100))))"

definition getArmySpeedMultiplier :: "num \<Rightarrow> num" where
  "getArmySpeedMultiplier level =
     roundMultiplier (jadd (jadd 1 (jmul (min level 5) (fl (6 / 100)))) (jmul (max (jsub level 5) 0) (fl (15 / 1000))))"

definition getPlayerUpgradeModifiers :: "player_career \<Rightarrow> player_modifiers" where
  "getPlayerUpgradeModifiers c =
     (let garrisonLevel = getUpgradeLevel c StartingGarrison; productionLevel = getUpgradeLevel c Production;
          armySpeedLevel = getUpgradeLevel c ArmySpeed; commander = getCommander (Some (pc_selectedCommanderId c))
      in \<lparr>pm_startingUnits = max 1 (jadd (getStartingUnits garrisonLevel) (co_startingUnitsDelta commander)),
          pm_productionRateMultiplier =
            roundMultiplier (jmul (getProductionRateMultiplier productionLevel) (co_productionMultiplier commander)),
          pm_armySpeedMultiplier =
            roundMultiplier (jmul (getArmySpeedMultiplier armySpeedLevel) (co_armySpeedMultiplier commander))\<rparr>)"

definition getTreasuryCoinBonusRate :: "js_number \<Rightarrow> num" where
  "getTreasuryCoinBonusRate level =
     (let safeLevel = normalizeUpgradeLevel (Some level) Treasury
      in jadd (jmul (min safeLevel 5) (fl (5 / 100))) (jmul (max (jsub safeLevel 5) 0) (fl (2 / 100))))"

section \<open>Labels\<close>

text \<open>\<open>s.replace(/\.?0+$/, '')\<close> on the text of a number with a decimal point.\<close>

definition strip_zeros :: "string \<Rightarrow> string" where
  "strip_zeros s =
     (let t = rev (dropWhile (\<lambda>c. c = CHR ''0'') (rev s))
      in if t \<noteq> s \<and> t \<noteq> [] \<and> last t = CHR ''.'' then butlast t else t)"

definition formatPercent :: "num \<Rightarrow> string" where
  "formatPercent v = strip_zeros (to_fixed 3 v)"

definition getUpgradeEffectLabel :: "upgrade_type \<Rightarrow> js_number \<Rightarrow> string" where
  "getUpgradeEffectLabel ty level =
     (let safeLevel = normalizeUpgradeLevel (Some level) ty
      in case ty of
           StartingGarrison \<Rightarrow> ''+'' @ num_string (jsub (getStartingUnits safeLevel) 20) @ '' troops''
         | Production \<Rightarrow> ''+'' @ formatPercent (jmul (jsub (getProductionRateMultiplier safeLevel) 1) 100) @ ''% production''
         | ArmySpeed \<Rightarrow> ''+'' @ formatPercent (jmul (jsub (getArmySpeedMultiplier safeLevel) 1) 100) @ ''% march''
         | Treasury \<Rightarrow> ''+'' @ formatPercent (jmul (getTreasuryCoinBonusRate (Finite safeLevel)) 100) @ ''% coins'')"

definition milestone_level :: "num \<Rightarrow> num" where
  "milestone_level level = min 20 (max 0 (math_floor level))"

definition getUpgradeMilestoneTier :: "num \<Rightarrow> num" where
  "getUpgradeMilestoneTier level =
     (let safeLevel = milestone_level level in if safeLevel = 20 then 4 else math_floor (jdiv safeLevel 5))"

definition check_mark :: utext where "check_mark = [0x20, 0x2713]"
definition right_arrow :: utext where "right_arrow = [0x2192]"

definition getUpgradeMilestoneLabel :: "num \<Rightarrow> utext" where
  "getUpgradeMilestoneLabel level =
     (let safeLevel = milestone_level level in
      if safeLevel = 20 then ascii ''M20'' @ check_mark
      else let completed = jmul (math_floor (jdiv safeLevel 5)) 5
        in if 0 < completed \<and> safeLevel = completed then ascii (''M'' @ num_string completed) @ check_mark
           else ascii (''M'' @ num_string completed) @ right_arrow @ ascii (num_string (jadd completed 5)))"

text \<open>\<open>a % b\<close> of non-negative numbers.\<close>

definition num_mod :: "num \<Rightarrow> num \<Rightarrow> num" where
  "num_mod a b = a - b * of_int \<lfloor>a / b\<rfloor>"

definition isUpgradeMilestoneLevel :: "num \<Rightarrow> bool" where
  "isUpgradeMilestoneLevel level \<longleftrightarrow> (let safeLevel = milestone_level level in 0 < safeLevel \<and> num_mod safeLevel 5 = 0)"

definition getUpgradeMilestoneProgress :: "num \<Rightarrow> num" where
  "getUpgradeMilestoneProgress level =
     (let safeLevel = milestone_level level in
      if 0 < safeLevel \<and> num_mod safeLevel 5 = 0 then 1
      else let tierStart = jmul (math_floor (jdiv safeLevel 5)) 5 in jdiv (jsub safeLevel tierStart) 5)"

record upgrade_card =
  uc_type :: upgrade_type
  uc_level :: num
  uc_maxLevel :: num
  uc_isMaxLevel :: bool
  uc_currentEffectLabel :: string
  uc_nextEffectLabel :: "string option"
  uc_nextCost :: "num option"
  uc_canAfford :: bool
  uc_milestoneLabel :: utext
  uc_milestoneProgress :: num

definition getUpgradeCardViewModel :: "player_career \<Rightarrow> upgrade_type \<Rightarrow> upgrade_card" where
  "getUpgradeCardViewModel c ty =
     (let level = getUpgradeLevel c ty; maxLevel = ud_maxLevel (UPGRADE_DEFINITIONS ty);
          isMaxLevel = (maxLevel \<le> level); nextCost = getNextUpgradeCost c ty
      in \<lparr>uc_type = ty, uc_level = level, uc_maxLevel = maxLevel, uc_isMaxLevel = isMaxLevel,
          uc_currentEffectLabel = getUpgradeEffectLabel ty (Finite level),
          uc_nextEffectLabel = (if isMaxLevel then None else Some (getUpgradeEffectLabel ty (Finite (jadd level 1)))),
          uc_nextCost = nextCost,
          uc_canAfford = (case nextCost of Some cost \<Rightarrow> cost \<le> pc_coins c | None \<Rightarrow> False),
          uc_milestoneLabel = getUpgradeMilestoneLabel level,
          uc_milestoneProgress = getUpgradeMilestoneProgress level\<rparr>)"

section \<open>Buying an upgrade\<close>

datatype upgrade_failure = InsufficientCoins | MaxLevel

record upgrade_purchase =
  up_outcome :: "upgrade_failure + ledger_entry"
  up_cost :: "num option"
  up_previousCareer :: player_career
  up_newCareer :: player_career

definition purchaseUpgrade :: "player_career \<Rightarrow> upgrade_type \<Rightarrow> string \<Rightarrow> num \<Rightarrow> upgrade_purchase" where
  "purchaseUpgrade c ty purchaseId timestamp =
     (let level = getUpgradeLevel c ty
      in case getNextUpgradeCost c ty of
        None \<Rightarrow> \<lparr>up_outcome = Inl MaxLevel, up_cost = None, up_previousCareer = c, up_newCareer = c\<rparr>
      | Some cost \<Rightarrow>
          if pc_coins c < cost then
            \<lparr>up_outcome = Inl InsufficientCoins, up_cost = Some cost, up_previousCareer = c, up_newCareer = c\<rparr>
          else
            let newLevel = Finite (jadd level 1);
                newCareer = c\<lparr>pc_coins := jsub (pc_coins c) cost,
                  pc_startingGarrisonLevel := (if ty = StartingGarrison then newLevel else pc_startingGarrisonLevel c),
                  pc_productionLevel := (if ty = Production then newLevel else pc_productionLevel c),
                  pc_armySpeedLevel := (if ty = ArmySpeed then newLevel else pc_armySpeedLevel c),
                  pc_treasuryLevel := (if ty = Treasury then newLevel else pc_treasuryLevel c)\<rparr>
            in \<lparr>up_outcome = Inr \<lparr>le_id = purchaseId, le_player = pc_playerId c, le_currency = Coins, le_amount = - cost,
                    le_reason = ''upgrade_'' @ upgrade_name ty, le_source = ''upgrade_purchase'',
                    le_previousBalance = pc_coins c, le_resultingBalance = pc_coins newCareer, le_timestamp = timestamp\<rparr>,
                up_cost = Some cost, up_previousCareer = c, up_newCareer = newCareer\<rparr>)"

section \<open>Facts\<close>

lemma maxLevel_20 [simp]: "ud_maxLevel (UPGRADE_DEFINITIONS ty) = 20"
  by (cases ty) (simp_all add: UPGRADE_DEFINITIONS_def)

lemma costs_table [simp]: "ud_costs (UPGRADE_DEFINITIONS ty) = UPGRADE_COSTS"
  by (cases ty) (simp_all add: UPGRADE_DEFINITIONS_def)

text \<open>Whatever number a career holds, the level used is a whole number from 0 to 20.\<close>

lemma normalizeUpgradeLevel_range:
  "\<exists>n\<le>20. normalizeUpgradeLevel v ty = of_nat n"
proof -
  have "\<exists>n\<le>20. min 20 (max 0 (math_floor x)) = of_nat n" for x
  proof (intro exI conjI)
    show "nat (min 20 (max 0 \<lfloor>x\<rfloor>)) \<le> 20" by simp
    show "min 20 (max 0 (math_floor x)) = of_nat (nat (min 20 (max 0 \<lfloor>x\<rfloor>)))"
      by (simp add: math_floor_def min_def max_def)
  qed
  moreover have "\<exists>n\<le>20. (0::num) = of_nat n" by (rule exI [of _ 0]) simp
  ultimately show ?thesis
    by (simp add: normalizeUpgradeLevel_def split: option.splits js_number.splits)
qed

lemma getUpgradeLevel_range: "\<exists>n\<le>20. getUpgradeLevel c ty = of_nat n"
  unfolding getUpgradeLevel_def by (cases ty) (simp_all only: upgrade_type.case normalizeUpgradeLevel_range)

lemma num_get_of_nat [simp]: "num_get xs (of_nat n) = (if n < length xs then Some (xs ! n) else None)"
  by (simp add: num_get_def)

lemma costs_bounds: "n < 20 \<Longrightarrow> UPGRADE_COSTS ! n \<in> \<nat> \<and> 50 \<le> UPGRADE_COSTS ! n \<and> UPGRADE_COSTS ! n \<le> 4600"
  by (simp add: UPGRADE_COSTS_def nth_Cons' split: if_splits)

lemma length_costs [simp]: "length UPGRADE_COSTS = 20"
  by (simp add: UPGRADE_COSTS_def)

lemma next_cost_level:
  "getUpgradeLevel c ty = of_nat n \<Longrightarrow> getNextUpgradeCost c ty = (if n < 20 then Some (UPGRADE_COSTS ! n) else None)"
  by (simp add: getNextUpgradeCost_def)

lemma normalize_whole: "n \<le> 20 \<Longrightarrow> normalizeUpgradeLevel (Some (Finite (of_nat n))) ty = of_nat n"
  by (simp add: normalizeUpgradeLevel_def)

text \<open>Each level of an upgrade is better than the one before, and none is out of range.\<close>

definition level_effects :: "nat \<Rightarrow> num \<times> num \<times> num" where
  "level_effects n = (getStartingUnits (of_nat n), getProductionRateMultiplier (of_nat n), getArmySpeedMultiplier (of_nat n))"

definition better_effects :: "num \<times> num \<times> num \<Rightarrow> num \<times> num \<times> num \<Rightarrow> bool" where
  "better_effects = (\<lambda>(a, b, c) (a', b', c'). a < a' \<and> b < b' \<and> c < c')"

text \<open>The multipliers are exact thousandths, rounded once.\<close>

lemma roundMultiplier_near:
  assumes "near v (of_nat m / 1000) (1 / 10000000)" "0 \<le> v" "m \<le> 5000"
  shows "roundMultiplier v = fl (of_nat m / 1000)"
proof -
  have m: "(of_nat m :: num) \<le> 5000" using assms(3) by simp
  have "near (1000 * v) (1000 * (of_nat m / 1000)) (1000 * (1 / 10000000))" by (rule near_scale [OF assms(1)]) simp_all
  then have "near (fl (1000 * v)) (1000 * (of_nat m / 1000)) (1000 * (1 / 10000000) + 2 / 1000000000000)"
    by (rule near_fl) (use assms(2) m in simp_all)
  then have "\<bar>fl (v * 1000) - of_int (int m)\<bar> < 1 / 2" by (simp add: near_def mult.commute)
  then have "math_round (fl (v * 1000)) = of_nat m" using math_round_near by fastforce
  then show ?thesis by (simp add: roundMultiplier_def)
qed

lemma steps_near:
  assumes "near p r (2 / 1000000000000)" "near q s (2 / 1000000000000)" "0 \<le> p" "0 \<le> q" "0 \<le> r" "r \<le> 1" "0 \<le> s" "s \<le> 1" "n \<le> 20"
  shows "near (jadd (jadd 1 (jmul (of_nat (min n 5)) p)) (jmul (of_nat (n - 5)) q))
    (1 + of_nat (min n 5) * r + of_nat (n - 5) * s) (1 / 10000000)"
    and "0 \<le> jadd (jadd 1 (jmul (of_nat (min n 5)) p)) (jmul (of_nat (n - 5)) q)"
proof -
  have a: "(of_nat (min n 5) :: num) \<le> 5" and b: "(of_nat (n - 5) :: num) \<le> 15"
    using of_nat_mono [of "min n 5" 5, where ?'a = rat] of_nat_mono [of "n - 5" 15, where ?'a = rat] assms(9) by simp_all
  have ar: "of_nat (min n 5) * r \<le> 5" using mult_mono [OF a assms(6)] assms(5) by simp
  have bs: "of_nat (n - 5) * s \<le> 15" using mult_mono [OF b assms(8)] assms(7) by simp
  have ar0: "0 \<le> of_nat (min n 5) * r" and bs0: "0 \<le> of_nat (n - 5) * s" using assms by simp_all
  have 1: "near (jmul (of_nat (min n 5)) p) (of_nat (min n 5) * r) (5 * (2 / 1000000000000) + 2 / 1000000000000)"
    by (rule near_fl [OF near_scale [OF assms(1) _ a]]) (use ar assms(3) in simp_all)
  have 2: "near (jmul (of_nat (n - 5)) q) (of_nat (n - 5) * s) (15 * (2 / 1000000000000) + 2 / 1000000000000)"
    by (rule near_fl [OF near_scale [OF assms(2) _ b]]) (use bs assms(4) in simp_all)
  have 3: "near (jadd 1 (jmul (of_nat (min n 5)) p)) (1 + of_nat (min n 5) * r) (20 / 1000000000000)"
    by (rule near_weaken [OF near_fl [OF near_add [OF near_refl 1]]]) (use ar assms(3) in simp_all)
  have "near (jadd (jadd 1 (jmul (of_nat (min n 5)) p)) (jmul (of_nat (n - 5)) q))
    (1 + of_nat (min n 5) * r + of_nat (n - 5) * s) (20 / 1000000000000 + (15 * (2 / 1000000000000) + 2 / 1000000000000) + 2 / 1000000000000)"
    by (rule near_fl [OF near_add [OF 3 2]]) (use ar bs assms(3,4) in \<open>simp_all\<close>)
  then show "near (jadd (jadd 1 (jmul (of_nat (min n 5)) p)) (jmul (of_nat (n - 5)) q))
    (1 + of_nat (min n 5) * r + of_nat (n - 5) * s) (1 / 10000000)" by (rule near_weaken) simp
  show "0 \<le> jadd (jadd 1 (jmul (of_nat (min n 5)) p)) (jmul (of_nat (n - 5)) q)" using assms(3,4) by simp
qed

lemma level_parts:
  assumes "n \<le> 20"
  shows "min (of_nat n) 5 = (of_nat (min n 5) :: num)" "max (jsub (of_nat n) 5) 0 = (of_nat (n - 5) :: num)"
proof -
  show "min (of_nat n) 5 = (of_nat (min n 5) :: num)" by (simp add: min_def)
  show "max (jsub (of_nat n) 5) 0 = (of_nat (n - 5) :: num)"
  proof (cases "5 \<le> n")
    case True
    then show ?thesis using assms fl_of_nat_exact [of "n - 5"] by (simp add: of_nat_diff)
  next
    case False
    then have "(of_nat n :: num) - 5 \<le> 0" by simp
    then have "jsub (of_nat n) 5 \<le> 0" by (simp only: fl_nonpos_iff)
    then show ?thesis using False by simp
  qed
qed

lemma literal_near: "0 \<le> r \<Longrightarrow> r \<le> 1 \<Longrightarrow> near (fl r) r (2 / 1000000000000)"
  using near_fl [OF near_refl [of r]] by simp

lemma thousandths:
  "1 + of_nat a * (of_nat k / 1000) + of_nat b * (of_nat l / 1000) = (of_nat (1000 + k * a + l * b) / 1000 :: num)"
  by (simp add: add_divide_distrib mult.commute)

lemma production_exact:
  assumes "n \<le> 20"
  shows "getProductionRateMultiplier (of_nat n) = fl (of_nat (1000 + 80 * min n 5 + 20 * (n - 5)) / 1000)"
  unfolding getProductionRateMultiplier_def level_parts [OF assms]
proof (rule roundMultiplier_near)
  have "near (jadd (jadd 1 (jmul (of_nat (min n 5)) (fl (8 / 100)))) (jmul (of_nat (n - 5)) (fl (2 / 100))))
      (1 + of_nat (min n 5) * (8 / 100) + of_nat (n - 5) * (2 / 100)) (1 / 10000000)"
    by (rule steps_near(1) [OF literal_near literal_near]) (use assms in simp_all)
  then show "near (jadd (jadd 1 (jmul (of_nat (min n 5)) (fl (8 / 100)))) (jmul (of_nat (n - 5)) (fl (2 / 100))))
      (of_nat (1000 + 80 * min n 5 + 20 * (n - 5)) / 1000) (1 / 10000000)"
    unfolding thousandths [of "min n 5" 80 "n - 5" 20, symmetric] by simp
qed (use assms in auto)

lemma army_speed_exact:
  assumes "n \<le> 20"
  shows "getArmySpeedMultiplier (of_nat n) = fl (of_nat (1000 + 60 * min n 5 + 15 * (n - 5)) / 1000)"
  unfolding getArmySpeedMultiplier_def level_parts [OF assms]
proof (rule roundMultiplier_near)
  have "near (jadd (jadd 1 (jmul (of_nat (min n 5)) (fl (6 / 100)))) (jmul (of_nat (n - 5)) (fl (15 / 1000))))
      (1 + of_nat (min n 5) * (6 / 100) + of_nat (n - 5) * (15 / 1000)) (1 / 10000000)"
    by (rule steps_near(1) [OF literal_near literal_near]) (use assms in simp_all)
  then show "near (jadd (jadd 1 (jmul (of_nat (min n 5)) (fl (6 / 100)))) (jmul (of_nat (n - 5)) (fl (15 / 1000))))
      (of_nat (1000 + 60 * min n 5 + 15 * (n - 5)) / 1000) (1 / 10000000)"
    unfolding thousandths [of "min n 5" 60 "n - 5" 15, symmetric] by simp
qed (use assms in auto)

lemma starting_units_exact:
  assumes "n \<le> 20" shows "getStartingUnits (of_nat n) = of_nat (20 + 3 * min n 5 + (n - 5))"
proof -
  have 1: "jmul (of_nat (min n 5)) 3 = of_nat (3 * min n 5)" using fl_of_nat_exact [of "3 * min n 5"] by (simp add: mult.commute)
  have 2: "jadd 20 (of_nat (3 * min n 5)) = of_nat (20 + 3 * min n 5)" using fl_of_nat_exact [of "20 + 3 * min n 5"] by simp
  have 3: "jadd (of_nat (20 + 3 * min n 5)) (of_nat (n - 5)) = of_nat (20 + 3 * min n 5 + (n - 5))"
    using fl_of_nat_exact [of "20 + 3 * min n 5 + (n - 5)"] assms by simp
  show ?thesis unfolding getStartingUnits_def level_parts [OF assms] 1 2 3 ..
qed

lemma effects_improve:
  assumes "n < 20" shows "better_effects (level_effects n) (level_effects (Suc n))"
proof -
  have n: "n \<le> 20" "Suc n \<le> 20" using assms by simp_all
  have "1000 + 80 * min n 5 + 20 * (n - 5) < 1000 + 80 * min (Suc n) 5 + 20 * (Suc n - 5)"
    "1000 + 60 * min n 5 + 15 * (n - 5) < 1000 + 60 * min (Suc n) 5 + 15 * (Suc n - 5)"
    "20 + 3 * min n 5 + (n - 5) < 20 + 3 * min (Suc n) 5 + (Suc n - 5)"
    "1000 + 80 * min (Suc n) 5 + 20 * (Suc n - 5) \<le> 10000" "1000 + 60 * min (Suc n) 5 + 15 * (Suc n - 5) \<le> 10000"
    using assms by (auto simp: min_def)
  then show ?thesis using n
    by (simp only: better_effects_def level_effects_def prod.case production_exact army_speed_exact starting_units_exact
        of_nat_less_iff) (intro conjI TrueI fl_thousandths_less; assumption)
qed

lemma roundMultiplier_nonneg: "0 \<le> x \<Longrightarrow> 0 \<le> roundMultiplier x"
  by (simp add: roundMultiplier_def math_round_def)

lemma getCommander_cases: "getCommander v \<in> set COMMANDERS"
proof -
  have "c \<in> set COMMANDERS" if "List.find P COMMANDERS = Some c" for P c
    using that by (auto simp: find_Some_iff)
  moreover have "hd COMMANDERS \<in> set COMMANDERS" by (simp add: COMMANDERS_def)
  ultimately show ?thesis by (auto simp: getCommander_def split: option.splits)
qed

lemma commander_delta: "co_startingUnitsDelta (getCommander v) \<in> \<int>"
  using getCommander_cases [of v] by (auto simp: COMMANDERS_def)

text \<open>
  buying an upgrade. The purchase fails at level 20 and when the coins do not cover the cost, and then
  changes nothing. Otherwise it takes exactly the cost, never leaves a debt, raises the level by one and touches no other
  upgrade and nothing else of the career, and its ledger entry balances. The card offers the purchase exactly
  when it would succeed, and what is bought is better in every effect.
\<close>

theorem purchaseUpgrade_correct:
  assumes "pc_coins c \<in> \<nat>" "pc_coins c \<le> 2 ^ 53" "getUpgradeLevel c ty = of_nat n"
    and r: "r = purchaseUpgrade c ty i ts"
  shows "(case up_outcome r of
      Inl MaxLevel \<Rightarrow> n = 20 \<and> up_newCareer r = c
    | Inl InsufficientCoins \<Rightarrow> n < 20 \<and> pc_coins c < UPGRADE_COSTS ! n \<and> up_newCareer r = c
    | Inr entry \<Rightarrow> n < 20 \<and> pc_coins (up_newCareer r) = pc_coins c - UPGRADE_COSTS ! n
        \<and> pc_coins (up_newCareer r) \<in> \<nat> \<and> getUpgradeLevel (up_newCareer r) ty = of_nat (Suc n)
        \<and> (\<forall>ty'. ty' \<noteq> ty \<longrightarrow> getUpgradeLevel (up_newCareer r) ty' = getUpgradeLevel c ty')
        \<and> (pc_trophies (up_newCareer r), pc_gems (up_newCareer r), pc_playerId (up_newCareer r), pc_matchesPlayed (up_newCareer r))
            = (pc_trophies c, pc_gems c, pc_playerId c, pc_matchesPlayed c)
        \<and> le_previousBalance entry + le_amount entry = le_resultingBalance entry
        \<and> le_previousBalance entry = pc_coins c \<and> le_resultingBalance entry = pc_coins (up_newCareer r)
        \<and> better_effects (level_effects n) (level_effects (Suc n)))
    \<and> (uc_canAfford (getUpgradeCardViewModel c ty) \<longleftrightarrow> (\<exists>entry. up_outcome r = Inr entry))"
proof -
  have n20: "n \<le> 20" using getUpgradeLevel_range [of c ty] assms(3) by auto
  note cost = next_cost_level [OF assms(3)]
  have card: "uc_canAfford (getUpgradeCardViewModel c ty) \<longleftrightarrow> n < 20 \<and> UPGRADE_COSTS ! n \<le> pc_coins c"
    by (simp add: getUpgradeCardViewModel_def Let_def cost)
  show ?thesis
  proof (cases "n < 20 \<and> UPGRADE_COSTS ! n \<le> pc_coins c")
    case True
    define new where "new = up_newCareer r"
    have left: "pc_coins c - UPGRADE_COSTS ! n \<in> \<nat>"
      using True assms(1) costs_bounds [of n] by (auto simp: Nats_iff)
    have "jsub (pc_coins c) (UPGRADE_COSTS ! n) = pc_coins c - UPGRADE_COSTS ! n"
      using left assms(2) costs_bounds [of n] True by (intro fl_Ints_exact) (auto simp: Nats_iff)
    moreover have "jadd (of_nat n) 1 = of_nat (Suc n)" using n20 fl_of_nat_exact [of "Suc n"] by (simp add: add.commute)
    ultimately have new: "r = \<lparr>up_outcome = Inr \<lparr>le_id = i, le_player = pc_playerId c, le_currency = Coins,
          le_amount = - UPGRADE_COSTS ! n, le_reason = ''upgrade_'' @ upgrade_name ty, le_source = ''upgrade_purchase'',
          le_previousBalance = pc_coins c, le_resultingBalance = pc_coins c - UPGRADE_COSTS ! n, le_timestamp = ts\<rparr>,
        up_cost = Some (UPGRADE_COSTS ! n), up_previousCareer = c, up_newCareer = c\<lparr>pc_coins := pc_coins c - UPGRADE_COSTS ! n,
          pc_startingGarrisonLevel := (if ty = StartingGarrison then Finite (of_nat (Suc n)) else pc_startingGarrisonLevel c),
          pc_productionLevel := (if ty = Production then Finite (of_nat (Suc n)) else pc_productionLevel c),
          pc_armySpeedLevel := (if ty = ArmySpeed then Finite (of_nat (Suc n)) else pc_armySpeedLevel c),
          pc_treasuryLevel := (if ty = Treasury then Finite (of_nat (Suc n)) else pc_treasuryLevel c)\<rparr>\<rparr>"
      using True assms(3) cost by (simp add: r purchaseUpgrade_def Let_def)
    have "getUpgradeLevel (up_newCareer r) ty = of_nat (Suc n)"
      using True normalize_whole [of "Suc n" ty] by (cases ty) (simp_all add: new getUpgradeLevel_def)
    moreover have "getUpgradeLevel (up_newCareer r) ty' = getUpgradeLevel c ty'" if "ty' \<noteq> ty" for ty'
      using that by (cases ty') (simp_all add: new getUpgradeLevel_def)
    moreover have "better_effects (level_effects n) (level_effects (Suc n))"
      using effects_improve True by blast
    ultimately show ?thesis using True left by (simp add: new card)
  next
    case False
    then show ?thesis using n20 cost assms(3) by (auto simp: r purchaseUpgrade_def Let_def card)
  qed
qed

definition example_career :: player_career where
  "example_career = \<lparr>pc_playerId = ''p'', pc_coins = 100, pc_gems = 10, pc_trophies = 0, pc_startingGarrisonLevel = Finite 0,
     pc_productionLevel = Finite 1, pc_armySpeedLevel = NaN, pc_treasuryLevel = Finite 0,
     pc_selectedCommanderId = ''crown_guard'', pc_matchesPlayed = 0, pc_matchesWon = 0, pc_currentStreak = 0,
     pc_bestStreak = 0, pc_lastMatchTimestamp = 0, pc_tutorialCompleted = None\<rparr>"

lemma purchaseUpgrade_correct_witness:
  "pc_coins (up_newCareer (purchaseUpgrade example_career Production ''x'' 0)) = 0
   \<and> uc_canAfford (getUpgradeCardViewModel example_career Production)"
proof -
  have level: "getUpgradeLevel example_career Production = of_nat 1"
    by (simp add: example_career_def getUpgradeLevel_def normalizeUpgradeLevel_def)
  have coins: "pc_coins example_career \<in> \<nat>" "pc_coins example_career \<le> 2 ^ 53" by (simp_all add: example_career_def)
  have cost: "UPGRADE_COSTS ! 1 = 100" "UPGRADE_COSTS ! Suc 0 = 100" by (simp_all add: UPGRADE_COSTS_def)
  have "\<exists>entry. up_outcome (purchaseUpgrade example_career Production ''x'' 0) = Inr entry"
    using level next_cost_level [OF level] cost
    by (simp add: purchaseUpgrade_def Let_def) (simp add: example_career_def)
  then obtain entry where "up_outcome (purchaseUpgrade example_career Production ''x'' 0) = Inr entry" by blast
  then show ?thesis
    using purchaseUpgrade_correct [OF coins level refl, of "''x''" 0] by (auto simp: cost example_career_def)
qed

end
