(* ===== verification/Progression.thy ===== *)
theory Progression
  imports Upgrades
begin

text \<open>
  \<open>progression.ts\<close>, \<open>kingdom.ts\<close>, \<open>realm.ts\<close> and \<open>levels.ts\<close>: rewards and the settlement of a match, ranks,
  the kingdom's level, the clipped levels of realm matches, and the campaign.
\<close>

section \<open>Ranks\<close>

record rank_tier =
  rk_id :: string
  rk_name :: string
  rk_badge :: utext
  rk_minTrophies :: num
  rk_maxTrophies :: num
  rk_color :: nat

definition RANK_TIERS :: "rank_tier list" where
  "RANK_TIERS = [
    \<lparr>rk_id = ''recruit'', rk_name = ''Recruit'', rk_badge = [0x1F6E1, 0xFE0F], rk_minTrophies = 0, rk_maxTrophies = 99, rk_color = 0x94a3b8\<rparr>,
    \<lparr>rk_id = ''soldier'', rk_name = ''Soldier'', rk_badge = [0x2694, 0xFE0F], rk_minTrophies = 100, rk_maxTrophies = 249, rk_color = 0x38bdf8\<rparr>,
    \<lparr>rk_id = ''knight'', rk_name = ''Knight'', rk_badge = [0x1F396, 0xFE0F], rk_minTrophies = 250, rk_maxTrophies = 499, rk_color = 0x818cf8\<rparr>,
    \<lparr>rk_id = ''commander'', rk_name = ''Commander'', rk_badge = [0x1F451], rk_minTrophies = 500, rk_maxTrophies = 899, rk_color = 0xf59e0b\<rparr>,
    \<lparr>rk_id = ''warlord'', rk_name = ''Warlord'', rk_badge = [0x1F531], rk_minTrophies = 900, rk_maxTrophies = 1399, rk_color = 0xec4899\<rparr>,
    \<lparr>rk_id = ''crown_lord'', rk_name = ''Crown Lord'', rk_badge = [0x1F48E], rk_minTrophies = 1400, rk_maxTrophies = 99999, rk_color = 0xa855f7\<rparr>]"

text \<open>The loop runs from the highest tier down.\<close>

definition getRankTier :: "num \<Rightarrow> rank_tier" where
  "getRankTier trophies =
     (let safeTrophies = max 0 trophies
      in case List.find (\<lambda>tier. rk_minTrophies tier \<le> safeTrophies) (rev RANK_TIERS) of
        Some tier \<Rightarrow> tier | None \<Rightarrow> hd RANK_TIERS)"

section \<open>Careers and rewards\<close>

definition createDefaultCareer :: "string \<Rightarrow> player_career" where
  "createDefaultCareer playerId = \<lparr>pc_playerId = playerId, pc_coins = 100, pc_gems = 10, pc_trophies = 0,
     pc_startingGarrisonLevel = Finite 0, pc_productionLevel = Finite 0, pc_armySpeedLevel = Finite 0,
     pc_treasuryLevel = Finite 0, pc_selectedCommanderId = ''crown_guard'', pc_matchesPlayed = 0, pc_matchesWon = 0,
     pc_currentStreak = 0, pc_bestStreak = 0, pc_lastMatchTimestamp = 0, pc_tutorialCompleted = None\<rparr>"

record reward_breakdown =
  rb_baseCoins :: num
  rb_speedBonus :: num
  rb_dominationBonus :: num
  rb_streakBonus :: num
  rb_treasuryBonus :: num
  rb_totalCoins :: num
  rb_trophyDelta :: num

datatype outcome = Won | Lost | Drawn

definition applyTreasuryBonus :: "js_number \<Rightarrow> num \<Rightarrow> num \<Rightarrow> num \<Rightarrow> num \<Rightarrow> num \<Rightarrow> reward_breakdown" where
  "applyTreasuryBonus treasuryLevel baseCoins speedBonus dominationBonus streakBonus trophyDelta =
     (let preTreasuryCoinReward = jadd (jadd (jadd baseCoins speedBonus) dominationBonus) streakBonus;
          treasuryBonus = math_floor (jmul preTreasuryCoinReward (getTreasuryCoinBonusRate treasuryLevel))
      in \<lparr>rb_baseCoins = baseCoins, rb_speedBonus = speedBonus, rb_dominationBonus = dominationBonus,
          rb_streakBonus = streakBonus, rb_treasuryBonus = treasuryBonus,
          rb_totalCoins = jadd preTreasuryCoinReward treasuryBonus, rb_trophyDelta = trophyDelta\<rparr>)"

definition speed_bonus :: "num \<Rightarrow> num" where
  "speed_bonus duration = (if 0 < duration \<and> duration \<le> 40 then 15 else if duration \<le> 60 then 10 else 0)"

definition streak_bonus :: "num \<Rightarrow> num" where
  "streak_bonus currentStreak = (let newStreak = jadd currentStreak 1 in min 25 (max 0 (jmul (jsub newStreak 1) 5)))"

definition calculateMatchRewards :: "outcome \<Rightarrow> match_stats \<Rightarrow> num \<Rightarrow> js_number \<Rightarrow> reward_breakdown" where
  "calculateMatchRewards status stats currentStreak treasuryLevel = (case status of
       Won \<Rightarrow> applyTreasuryBonus treasuryLevel 40 (speed_bonus (ms_duration stats))
         (if 5 \<le> ms_capturedByPlayer stats then 15 else 0) (streak_bonus currentStreak) 30
     | Lost \<Rightarrow> applyTreasuryBonus treasuryLevel 10 0 0 0 (-12)
     | Drawn \<Rightarrow> applyTreasuryBonus treasuryLevel 20 0 0 0 5)"

record match_settlement =
  st_matchId :: string
  st_status :: outcome
  st_breakdown :: reward_breakdown
  st_stats :: match_stats
  st_previousCareer :: player_career
  st_newCareer :: player_career
  st_previousRank :: rank_tier
  st_newRank :: rank_tier
  st_rankPromoted :: bool
  st_ledgerEntries :: "ledger_entry list"

definition settled_career :: "player_career \<Rightarrow> outcome \<Rightarrow> reward_breakdown \<Rightarrow> num \<Rightarrow> player_career" where
  "settled_career c status breakdown timestamp =
     (let isWin = (status = Won);
          currentStreak = (if isWin then jadd (pc_currentStreak c) 1 else 0)
      in c\<lparr>pc_coins := jadd (pc_coins c) (rb_totalCoins breakdown),
           pc_trophies := max 0 (jadd (pc_trophies c) (rb_trophyDelta breakdown)),
           pc_matchesPlayed := jadd (pc_matchesPlayed c) 1,
           pc_matchesWon := (if isWin then jadd (pc_matchesWon c) 1 else pc_matchesWon c),
           pc_currentStreak := currentStreak, pc_bestStreak := max (pc_bestStreak c) currentStreak,
           pc_lastMatchTimestamp := timestamp\<rparr>)"

definition settlement_entries :: "player_career \<Rightarrow> player_career \<Rightarrow> outcome \<Rightarrow> num \<Rightarrow> string \<Rightarrow> num \<Rightarrow> ledger_entry list" where
  "settlement_entries c new status totalCoins matchId timestamp =
     (let actualTrophyDelta = jsub (pc_trophies new) (pc_trophies c);
          coins = \<lparr>le_id = matchId @ ''_coins_'' @ num_string timestamp, le_player = pc_playerId c, le_currency = Coins,
            le_amount = totalCoins, le_reason = (case status of Won \<Rightarrow> ''match_victory'' | Drawn \<Rightarrow> ''match_draw'' | Lost \<Rightarrow> ''match_consolation''),
            le_source = ''battle_settlement'', le_previousBalance = pc_coins c, le_resultingBalance = pc_coins new,
            le_timestamp = timestamp\<rparr>;
          trophies = \<lparr>le_id = matchId @ ''_trophies_'' @ num_string timestamp, le_player = pc_playerId c, le_currency = Trophies,
            le_amount = actualTrophyDelta, le_reason = (case status of Won \<Rightarrow> ''rank_victory'' | Drawn \<Rightarrow> ''rank_draw'' | Lost \<Rightarrow> ''rank_defeat''),
            le_source = ''battle_settlement'', le_previousBalance = pc_trophies c, le_resultingBalance = pc_trophies new,
            le_timestamp = timestamp\<rparr>
      in if actualTrophyDelta \<noteq> 0 then [coins, trophies] else [coins])"

definition settleMatch :: "player_career \<Rightarrow> outcome \<Rightarrow> match_stats \<Rightarrow> string \<Rightarrow> num \<Rightarrow> match_settlement" where
  "settleMatch c status stats matchId timestamp =
     (let previousRank = getRankTier (pc_trophies c);
          breakdown = calculateMatchRewards status stats (pc_currentStreak c) (pc_treasuryLevel c);
          newCareer = settled_career c status breakdown timestamp;
          newRank = getRankTier (pc_trophies newCareer)
      in \<lparr>st_matchId = matchId, st_status = status, st_breakdown = breakdown, st_stats = stats, st_previousCareer = c,
          st_newCareer = newCareer, st_previousRank = previousRank, st_newRank = newRank,
          st_rankPromoted = (rk_minTrophies previousRank < rk_minTrophies newRank),
          st_ledgerEntries = settlement_entries c newCareer status (rb_totalCoins breakdown) matchId timestamp\<rparr>)"

section \<open>The kingdom\<close>

record kingdom_tier =
  kt_id :: string
  kt_name :: string
  kt_minLevel :: num
  kt_color :: nat

definition KINGDOM_TIERS :: "kingdom_tier list" where
  "KINGDOM_TIERS = [
    \<lparr>kt_id = ''war_camp'', kt_name = ''War Camp'', kt_minLevel = 0, kt_color = 0x94a3b8\<rparr>,
    \<lparr>kt_id = ''stone_fort'', kt_name = ''Stone Fort'', kt_minLevel = 10, kt_color = 0x60a5fa\<rparr>,
    \<lparr>kt_id = ''royal_keep'', kt_name = ''Royal Keep'', kt_minLevel = 25, kt_color = 0x818cf8\<rparr>,
    \<lparr>kt_id = ''grand_citadel'', kt_name = ''Grand Citadel'', kt_minLevel = 45, kt_color = 0xc084fc\<rparr>,
    \<lparr>kt_id = ''crown_capital'', kt_name = ''Crown Capital'', kt_minLevel = 65, kt_color = 0xfbbf24\<rparr>]"

definition KINGDOM_UPGRADES :: "upgrade_type list" where
  "KINGDOM_UPGRADES = [StartingGarrison, Production, ArmySpeed, Treasury]"

definition MAX_KINGDOM_LEVEL :: num where
  "MAX_KINGDOM_LEVEL = fold (\<lambda>ty total. jadd total (ud_maxLevel (UPGRADE_DEFINITIONS ty))) KINGDOM_UPGRADES 0"

record kingdom_progress =
  kp_totalLevel :: num
  kp_maxLevel :: num
  kp_tier :: kingdom_tier
  kp_tierIndex :: nat
  kp_nextTier :: "kingdom_tier option"
  kp_levelsToNextTier :: num
  kp_tierProgress :: num

definition getKingdomLevel :: "player_career \<Rightarrow> num" where
  "getKingdomLevel c = fold (\<lambda>ty total. jadd total (getUpgradeLevel c ty)) KINGDOM_UPGRADES 0"

definition kingdom_tier_index :: "num \<Rightarrow> nat" where
  "kingdom_tier_index totalLevel =
     (case List.find (\<lambda>i. kt_minLevel (KINGDOM_TIERS ! i) \<le> totalLevel) (rev [0..<length KINGDOM_TIERS]) of
        Some i \<Rightarrow> i | None \<Rightarrow> 0)"

definition getKingdomProgress :: "player_career \<Rightarrow> kingdom_progress" where
  "getKingdomProgress c =
     (let totalLevel = getKingdomLevel c; tierIndex = kingdom_tier_index totalLevel; tier = KINGDOM_TIERS ! tierIndex;
          nextTier = (if Suc tierIndex < length KINGDOM_TIERS then Some (KINGDOM_TIERS ! Suc tierIndex) else None)
      in \<lparr>kp_totalLevel = totalLevel, kp_maxLevel = MAX_KINGDOM_LEVEL, kp_tier = tier, kp_tierIndex = tierIndex,
          kp_nextTier = nextTier,
          kp_levelsToNextTier = (case nextTier of Some n \<Rightarrow> jsub (kt_minLevel n) totalLevel | None \<Rightarrow> 0),
          kp_tierProgress = (case nextTier of
              Some n \<Rightarrow> jdiv (jsub totalLevel (kt_minLevel tier)) (jsub (kt_minLevel n) (kt_minLevel tier))
            | None \<Rightarrow> 1)\<rparr>)"

section \<open>Realm matches\<close>

datatype realm_policy = EqualPolicy | BoundedPolicy

definition realm_normalize :: "js_number option \<Rightarrow> num" where
  "realm_normalize v = (case v of Some (Finite x) \<Rightarrow> max 0 (min 20 (math_floor x)) | _ \<Rightarrow> 0)"

definition realm_level :: "js_number list \<Rightarrow> js_number list \<Rightarrow> realm_policy \<Rightarrow> nat \<Rightarrow> num" where
  "realm_level levels opponentLevels policy index =
     (if policy = EqualPolicy then 0
      else min (realm_normalize (if index < length levels then Some (levels ! index) else None))
             (jadd (realm_normalize (if index < length opponentLevels then Some (opponentLevels ! index) else None)) 2))"

definition realmModifiers ::
  "js_number list \<Rightarrow> js_number list \<Rightarrow> string \<Rightarrow> realm_policy \<Rightarrow> num list \<times> player_modifiers" where
  "realmModifiers levels opponentLevels commanderId policy =
     (let effective = map (realm_level levels opponentLevels policy) [0, 1, 2];
          commander = getCommander (Some commanderId)
      in (effective, \<lparr>pm_startingUnits = max 1 (jadd (jadd 20 (effective ! 0)) (co_startingUnitsDelta commander)),
            pm_productionRateMultiplier = jdiv (math_round (jmul (jmul (jadd 1 (jmul (effective ! 1) (fl (2 / 100))))
              (co_productionMultiplier commander)) 1000)) 1000,
            pm_armySpeedMultiplier = jdiv (math_round (jmul (jmul (jadd 1 (jmul (effective ! 2) (fl (15 / 1000))))
              (co_armySpeedMultiplier commander)) 1000)) 1000\<rparr>))"

definition careerCombatLevels :: "player_career \<Rightarrow> js_number list" where
  "careerCombatLevels c = [pc_startingGarrisonLevel c, pc_productionLevel c, pc_armySpeedLevel c]"

section \<open>Facts about rewards\<close>

lemma Nats_double: "x \<in> \<nat> \<Longrightarrow> x \<le> 2 ^ 53 \<Longrightarrow> fl x = (x :: num)"
  by (rule fl_Ints_exact) (auto simp: Nats_iff)

lemma Nats_add_exact: "a \<in> \<nat> \<Longrightarrow> b \<in> \<nat> \<Longrightarrow> a + b \<le> 2 ^ 53 \<Longrightarrow> jadd a b = a + (b :: num)"
  by (rule Nats_double) simp_all

lemma treasury_rate:
  assumes "normalizeUpgradeLevel (Some level) Treasury = of_nat n"
  shows "getTreasuryCoinBonusRate level = jadd (jmul (of_nat (min n 5)) (fl (5 / 100))) (jmul (of_nat (n - 5)) (fl (2 / 100)))"
proof -
  have "n \<le> 20" using normalizeUpgradeLevel_range [of "Some level" Treasury] assms by auto
  then show ?thesis using assms by (simp only: getTreasuryCoinBonusRate_def Let_def level_parts)
qed

lemma treasury_rate_bounds: "0 \<le> getTreasuryCoinBonusRate level" "getTreasuryCoinBonusRate level \<le> 1"
proof -
  obtain n where n: "n \<le> 20" "normalizeUpgradeLevel (Some level) Treasury = of_nat n"
    using normalizeUpgradeLevel_range by blast
  have sixteenth: "is_double (1 / 16)" "is_double (5 / 16)" "is_double (1 / 32)" "is_double (15 / 32)"
    using is_double_dyadic [of 1 4] is_double_dyadic [of 5 4] is_double_dyadic [of 1 5] is_double_dyadic [of 15 5] by simp_all
  have p: "0 \<le> fl (5 / 100)" "fl (5 / 100) \<le> 1 / 16" by (simp, rule fl_le_double [OF _ sixteenth(1)], simp)
  have q: "0 \<le> fl (2 / 100)" "fl (2 / 100) \<le> 1 / 32" by (simp, rule fl_le_double [OF _ sixteenth(3)], simp)
  have a: "(of_nat (min n 5) :: num) \<le> 5" "(of_nat (n - 5) :: num) \<le> 15"
    using of_nat_mono [of "min n 5" 5, where ?'a = rat] of_nat_mono [of "n - 5" 15, where ?'a = rat] n(1) by simp_all
  have "of_nat (min n 5) * fl (5 / 100) \<le> 5 * (1 / 16)" by (rule mult_mono) (use a p in simp_all)
  then have 1: "jmul (of_nat (min n 5)) (fl (5 / 100)) \<le> 5 / 16" by (intro fl_le_double sixteenth) simp
  have "of_nat (n - 5) * fl (2 / 100) \<le> 15 * (1 / 32)" by (rule mult_mono) (use a q in simp_all)
  then have 2: "jmul (of_nat (n - 5)) (fl (2 / 100)) \<le> 15 / 32" by (intro fl_le_double sixteenth) simp
  show "getTreasuryCoinBonusRate level \<le> 1" unfolding treasury_rate [OF n(2)]
    by (rule fl_le_double) (use 1 2 in \<open>linarith, simp\<close>)
  show "0 \<le> getTreasuryCoinBonusRate level" unfolding treasury_rate [OF n(2)] using p q by simp
qed

lemma treasury_rate_mono:
  assumes "normalizeUpgradeLevel (Some l) Treasury \<le> normalizeUpgradeLevel (Some l') Treasury"
  shows "getTreasuryCoinBonusRate l \<le> getTreasuryCoinBonusRate l'"
proof -
  obtain n where n: "n \<le> 20" "normalizeUpgradeLevel (Some l) Treasury = of_nat n" using normalizeUpgradeLevel_range by blast
  obtain m where m: "m \<le> 20" "normalizeUpgradeLevel (Some l') Treasury = of_nat m" using normalizeUpgradeLevel_range by blast
  have "n \<le> m" using assms n(2) m(2) by simp
  then have "(of_nat (min n 5) :: num) \<le> of_nat (min m 5)" "(of_nat (n - 5) :: num) \<le> of_nat (m - 5)"
    by simp_all
  then show ?thesis unfolding treasury_rate [OF n(2)] treasury_rate [OF m(2)]
    by (intro fl_mono add_mono mult_right_mono) simp_all
qed

lemma streak_bonus_bounds: "streak_bonus k \<in> \<nat>" if "k \<in> \<int>"
proof -
  have "jmul (jsub (jadd k 1) 1) 5 \<in> \<int>" using that by (intro fl_Ints) (auto intro!: Ints_mult Ints_diff fl_Ints)
  then show ?thesis by (auto simp: streak_bonus_def Let_def Nats_iff min_def max_def)
qed

lemma streak_bonus_le: "streak_bonus k \<le> 25"
  by (simp add: streak_bonus_def Let_def)

text \<open>The parts of a reward: whole coins, at most 95 before the treasury, and a treasury bonus of at most that again.\<close>

lemma applyTreasuryBonus_ok:
  assumes "base \<in> \<nat>" "speed \<in> \<nat>" "cap \<in> \<nat>" "streak \<in> \<nat>" "base + speed + cap + streak \<le> 100"
    and b: "b = applyTreasuryBonus level base speed cap streak d"
  shows "rb_totalCoins b = base + speed + cap + streak + rb_treasuryBonus b"
    and "rb_treasuryBonus b \<in> \<nat>" "rb_treasuryBonus b \<le> base + speed + cap + streak" "rb_totalCoins b \<in> \<nat>"
    and "rb_treasuryBonus b = math_floor (jmul (base + speed + cap + streak) (getTreasuryCoinBonusRate level))"
proof -
  let ?pre = "base + speed + cap + streak" and ?rate = "getTreasuryCoinBonusRate level"
  have nonneg: "0 \<le> base" "0 \<le> speed" "0 \<le> cap" "0 \<le> streak" using assms(1-4) by (auto simp: Nats_iff)
  have 1: "jadd base speed = base + speed" by (rule Nats_add_exact) (use assms nonneg in simp_all)
  have 2: "jadd (base + speed) cap = base + speed + cap" by (rule Nats_add_exact) (use assms nonneg in simp_all)
  have 3: "jadd (base + speed + cap) streak = ?pre" by (rule Nats_add_exact) (use assms nonneg in simp_all)
  have pre: "?pre \<in> \<nat>" "0 \<le> ?pre" using assms(1-4) nonneg by simp_all
  have bonus: "rb_treasuryBonus b = math_floor (jmul ?pre ?rate)"
    by (simp add: b applyTreasuryBonus_def Let_def 1 2 3)
  then show "rb_treasuryBonus b = math_floor (jmul ?pre ?rate)" .
  have pos: "0 \<le> jmul ?pre ?rate" using pre(2) treasury_rate_bounds(1) [of level] by simp
  show nat: "rb_treasuryBonus b \<in> \<nat>" unfolding bonus using pos by (simp add: Nats_iff math_floor_nonneg)
  have "?pre * ?rate \<le> ?pre * 1" by (rule mult_left_mono) (use treasury_rate_bounds(2) pre(2) in simp_all)
  then have "jmul ?pre ?rate \<le> ?pre" using pre assms(5) by (intro fl_le_double Ints_double) (auto simp: Nats_iff)
  then show le: "rb_treasuryBonus b \<le> ?pre" unfolding bonus using math_floor_le order_trans by blast
  have "jadd ?pre (rb_treasuryBonus b) = ?pre + rb_treasuryBonus b" by (rule Nats_add_exact) (use pre nat le assms(5) in simp_all)
  then show total: "rb_totalCoins b = ?pre + rb_treasuryBonus b"
    by (simp add: b applyTreasuryBonus_def Let_def 1 2 3)
  show "rb_totalCoins b \<in> \<nat>" unfolding total using pre nat by simp
qed

lemma calculateMatchRewards_ok:
  assumes "k \<in> \<int>" and b: "b = calculateMatchRewards status stats k level"
  shows "rb_totalCoins b \<in> \<nat>" "rb_totalCoins b = rb_baseCoins b + rb_speedBonus b + rb_dominationBonus b + rb_streakBonus b + rb_treasuryBonus b"
    "rb_treasuryBonus b \<in> \<nat>" "10 \<le> rb_totalCoins b" "rb_totalCoins b \<le> 190"
    "rb_treasuryBonus b = math_floor (jmul (rb_baseCoins b + rb_speedBonus b + rb_dominationBonus b + rb_streakBonus b) (getTreasuryCoinBonusRate level))"
    "rb_trophyDelta b = (case status of Won \<Rightarrow> 30 | Lost \<Rightarrow> -12 | Drawn \<Rightarrow> 5)"
proof -
  have parts: "rb_baseCoins (applyTreasuryBonus l a s d st t) = a" "rb_speedBonus (applyTreasuryBonus l a s d st t) = s"
    "rb_dominationBonus (applyTreasuryBonus l a s d st t) = d" "rb_streakBonus (applyTreasuryBonus l a s d st t) = st"
    "rb_trophyDelta (applyTreasuryBonus l a s d st t) = t" for l a s d st t
    by (simp_all add: applyTreasuryBonus_def Let_def)
  have speed: "speed_bonus x \<in> \<nat>" "0 \<le> speed_bonus x" "speed_bonus x \<le> 15" for x by (simp_all add: speed_bonus_def)
  have streak: "0 \<le> streak_bonus k" using streak_bonus_bounds [OF assms(1)] by (simp add: Nats_iff)
  obtain base sp cap st d where r: "b = applyTreasuryBonus level base sp cap st d"
    "base \<in> \<nat>" "sp \<in> \<nat>" "cap \<in> \<nat>" "st \<in> \<nat>" "10 \<le> base" "base + sp + cap + st \<le> 95"
    "d = (case status of Won \<Rightarrow> 30 | Lost \<Rightarrow> -12 | Drawn \<Rightarrow> 5)"
  proof (cases status)
    case Won
    let ?cap = "if 5 \<le> ms_capturedByPlayer stats then 15 else 0 :: num"
    have "?cap \<le> 15" by simp
    then show ?thesis using that [of 40 "speed_bonus (ms_duration stats)" ?cap "streak_bonus k" 30] Won
        speed [of "ms_duration stats"] streak_bonus_bounds [OF assms(1)] streak_bonus_le [of k]
      by (simp add: b calculateMatchRewards_def)
  next
    case Lost
    then show ?thesis using that [of 10 0 0 0 "-12"] by (simp add: b calculateMatchRewards_def)
  next
    case Drawn
    then show ?thesis using that [of 20 0 0 0 5] by (simp add: b calculateMatchRewards_def)
  qed
  have pre: "base + sp + cap + st \<le> 100" using r(7) by simp
  have nonneg: "0 \<le> sp" "0 \<le> cap" "0 \<le> st" using r(3-5) by (auto simp: Nats_iff)
  note ok = applyTreasuryBonus_ok [OF r(2-5) pre r(1)]
  have "0 \<le> rb_treasuryBonus b" using ok(2) by (simp add: Nats_iff)
  then show "10 \<le> rb_totalCoins b" using ok(1) r(6) nonneg by linarith
  show "rb_totalCoins b \<le> 190" using ok(1,3) r(7) by linarith
  show "rb_totalCoins b \<in> \<nat>" "rb_treasuryBonus b \<in> \<nat>" by (rule ok(4), rule ok(2))
  show "rb_totalCoins b = rb_baseCoins b + rb_speedBonus b + rb_dominationBonus b + rb_streakBonus b + rb_treasuryBonus b"
    "rb_treasuryBonus b = math_floor (jmul (rb_baseCoins b + rb_speedBonus b + rb_dominationBonus b + rb_streakBonus b) (getTreasuryCoinBonusRate level))"
    "rb_trophyDelta b = (case status of Won \<Rightarrow> 30 | Lost \<Rightarrow> -12 | Drawn \<Rightarrow> 5)"
    using ok(1,5) r(8) by (simp_all add: r(1) parts)
qed

section \<open>Facts about ranks\<close>

lemma getRankTier_eq:
  "getRankTier t = (if 1400 \<le> t then RANK_TIERS ! 5 else if 900 \<le> t then RANK_TIERS ! 4 else if 500 \<le> t then RANK_TIERS ! 3
     else if 250 \<le> t then RANK_TIERS ! 2 else if 100 \<le> t then RANK_TIERS ! 1 else RANK_TIERS ! 0)"
  by (auto simp: getRankTier_def RANK_TIERS_def Let_def nth_Cons' max_def)

lemma rank_mono: "t \<le> t' \<Longrightarrow> rk_minTrophies (getRankTier t) \<le> rk_minTrophies (getRankTier t')"
  by (auto simp: getRankTier_eq RANK_TIERS_def nth_Cons')

lemma rank_min_le: "0 \<le> t \<Longrightarrow> rk_minTrophies (getRankTier t) \<le> t"
  by (auto simp: getRankTier_eq RANK_TIERS_def nth_Cons')

lemma rank_min_eq:
  "rk_minTrophies (getRankTier t) = (if 1400 \<le> t then 1400 else if 900 \<le> t then 900 else if 500 \<le> t then 500
     else if 250 \<le> t then 250 else if 100 \<le> t then 100 else 0)"
  by (simp add: getRankTier_eq RANK_TIERS_def)

lemma rank_mins: "rk_minTrophies ` set RANK_TIERS = {0, 100, 250, 500, 900, 1400}"
  by (simp add: RANK_TIERS_def)

lemma rank_tier_best:
  shows "rk_minTrophies (getRankTier t) \<le> max 0 t" "getRankTier t \<in> set RANK_TIERS"
    "tier \<in> set RANK_TIERS \<Longrightarrow> rk_minTrophies tier \<le> max 0 t \<Longrightarrow> rk_minTrophies tier \<le> rk_minTrophies (getRankTier t)"
proof -
  show "rk_minTrophies (getRankTier t) \<le> max 0 t" unfolding rank_min_eq by (simp add: max_def)
  have "length RANK_TIERS = 6" by (simp add: RANK_TIERS_def)
  then show "getRankTier t \<in> set RANK_TIERS" unfolding getRankTier_eq by (auto intro: nth_mem)
  assume "tier \<in> set RANK_TIERS" and le: "rk_minTrophies tier \<le> max 0 t"
  then have "rk_minTrophies tier \<in> {0, 100, 250, 500, 900, 1400}" unfolding rank_mins [symmetric] by blast
  then show "rk_minTrophies tier \<le> rk_minTrophies (getRankTier t)" using le unfolding rank_min_eq by (auto simp: le_max_iff_disj)
qed

text \<open>A career with whole balances that leave room to grow.\<close>

definition career_ok :: "player_career \<Rightarrow> bool" where
  "career_ok c \<longleftrightarrow> pc_coins c \<in> \<nat> \<and> pc_coins c \<le> 2 ^ 52 \<and> pc_trophies c \<in> \<nat> \<and> pc_trophies c \<le> 2 ^ 52
     \<and> pc_currentStreak c \<in> \<nat> \<and> pc_currentStreak c \<le> 2 ^ 52 \<and> pc_matchesPlayed c \<in> \<nat> \<and> pc_matchesPlayed c \<le> 2 ^ 52
     \<and> pc_matchesWon c \<in> \<nat> \<and> pc_matchesWon c \<le> pc_matchesPlayed c \<and> pc_currentStreak c \<le> pc_bestStreak c
     \<and> pc_currentStreak c \<le> pc_matchesWon c"

lemma new_trophies:
  assumes "t \<in> \<nat>" "t \<le> 2 ^ 52" "d = 30 \<or> d = -12 \<or> d = (5::num)"
  shows "max 0 (jadd t d) = max 0 (t + d)" "jsub (max 0 (t + d)) t = max 0 (t + d) - t" "max 0 (t + d) \<in> \<nat>"
proof -
  have t: "t \<in> \<int>" "0 \<le> t" using assms(1) by (auto simp: Nats_iff)
  have d: "d \<in> \<int>" "- 12 \<le> d" "d \<le> 30" using assms(3) by auto
  have "jadd t d = t + d" using t d assms(2) by (intro fl_Ints_exact) (auto simp: abs_le_iff)
  then show "max 0 (jadd t d) = max 0 (t + d)" by simp
  have "max 0 (t + d) \<in> \<int>" using t(1) d(1) by (simp add: max_def)
  then show "max 0 (t + d) \<in> \<nat>" by (simp add: Nats_iff)
  have "max 0 (t + d) - t \<in> \<int>" using t(1) d(1) by (simp add: max_def)
  then show "jsub (max 0 (t + d)) t = max 0 (t + d) - t"
    using t d assms(2) by (intro fl_Ints_exact) (auto simp: abs_le_iff max_def)
qed

lemma settled_career_ok:
  assumes ok: "career_ok c" and b: "b = calculateMatchRewards status stats (pc_currentStreak c) (pc_treasuryLevel c)"
    and new: "new = settled_career c status b ts"
  shows "pc_coins new = pc_coins c + rb_totalCoins b" "pc_coins new \<in> \<nat>"
    "pc_trophies new = max 0 (pc_trophies c + rb_trophyDelta b)" "pc_trophies new \<in> \<nat>"
    "jsub (pc_trophies new) (pc_trophies c) = pc_trophies new - pc_trophies c"
    "pc_matchesPlayed new = pc_matchesPlayed c + 1"
    "pc_matchesWon new = (if status = Won then pc_matchesWon c + 1 else pc_matchesWon c)"
    "pc_currentStreak new = (if status = Won then pc_currentStreak c + 1 else 0)"
    "pc_bestStreak new = max (pc_bestStreak c) (pc_currentStreak new)"
proof -
  have c: "pc_coins c \<in> \<nat>" "pc_coins c \<le> 2 ^ 52" "pc_trophies c \<in> \<nat>" "pc_trophies c \<le> 2 ^ 52"
    "pc_currentStreak c \<in> \<nat>" "pc_currentStreak c \<le> 2 ^ 52" "pc_matchesPlayed c \<in> \<nat>" "pc_matchesPlayed c \<le> 2 ^ 52"
    "pc_matchesWon c \<in> \<nat>" "pc_matchesWon c \<le> pc_matchesPlayed c"
    using ok by (simp_all add: career_ok_def)
  have streak: "pc_currentStreak c \<in> \<int>" using c(5) by (simp add: Nats_iff)
  note r = calculateMatchRewards_ok [OF streak b]
  have d: "rb_trophyDelta b = 30 \<or> rb_trophyDelta b = -12 \<or> rb_trophyDelta b = 5" using r(7) by (cases status) auto
  have "jadd (pc_coins c) (rb_totalCoins b) = pc_coins c + rb_totalCoins b"
    by (rule Nats_add_exact) (use c r in simp_all)
  then show coins: "pc_coins new = pc_coins c + rb_totalCoins b" by (simp add: new settled_career_def Let_def)
  show "pc_coins new \<in> \<nat>" unfolding coins using c r by simp
  note t = new_trophies [OF c(3,4) d]
  show trophies: "pc_trophies new = max 0 (pc_trophies c + rb_trophyDelta b)" using t(1) by (simp add: new settled_career_def Let_def)
  show "pc_trophies new \<in> \<nat>" "jsub (pc_trophies new) (pc_trophies c) = pc_trophies new - pc_trophies c"
    unfolding trophies using t(2,3) by simp_all
  have 1: "jadd (pc_matchesPlayed c) 1 = pc_matchesPlayed c + 1" "jadd (pc_matchesWon c) 1 = pc_matchesWon c + 1"
    "jadd (pc_currentStreak c) 1 = pc_currentStreak c + 1"
    by (rule Nats_add_exact; use c in simp)+
  show "pc_matchesPlayed new = pc_matchesPlayed c + 1" "pc_matchesWon new = (if status = Won then pc_matchesWon c + 1 else pc_matchesWon c)"
    "pc_currentStreak new = (if status = Won then pc_currentStreak c + 1 else 0)"
    "pc_bestStreak new = max (pc_bestStreak c) (pc_currentStreak new)"
    using 1 by (simp_all add: new settled_career_def Let_def)
qed

text \<open>
  C21: the settlement of a match balances. Every ledger entry belongs to the player and its balances differ by its
  amount; there is one entry for the coins and one for the trophies exactly when the trophies change, and the
  entries lead from the old balances to the new ones. The coins are the sum of the bonuses, at least 10 and at
  most 190, the trophies never go below zero, wins never exceed matches, and upgrades and gems are untouched.
\<close>

theorem settleMatch_balances:
  assumes "career_ok c" and s: "s = settleMatch c status stats i ts" and new: "new = st_newCareer s"
  shows "(\<forall>e\<in>set (st_ledgerEntries s). le_player e = pc_playerId c
      \<and> le_previousBalance e + le_amount e = le_resultingBalance e)
    \<and> map (\<lambda>e. (le_currency e, le_previousBalance e, le_resultingBalance e)) (st_ledgerEntries s)
      = (Coins, pc_coins c, pc_coins new)
        # (if pc_trophies new = pc_trophies c then [] else [(Trophies, pc_trophies c, pc_trophies new)])
    \<and> pc_coins new - pc_coins c = rb_baseCoins (st_breakdown s) + rb_speedBonus (st_breakdown s)
        + rb_dominationBonus (st_breakdown s) + rb_streakBonus (st_breakdown s) + rb_treasuryBonus (st_breakdown s)
    \<and> 10 \<le> pc_coins new - pc_coins c \<and> pc_coins new - pc_coins c \<le> 190
    \<and> pc_trophies new = max 0 (pc_trophies c + (case status of Won \<Rightarrow> 30 | Lost \<Rightarrow> -12 | Drawn \<Rightarrow> 5))
    \<and> pc_matchesWon new \<le> pc_matchesPlayed new \<and> pc_currentStreak new \<le> pc_bestStreak new
    \<and> (pc_gems new, pc_startingGarrisonLevel new, pc_productionLevel new, pc_armySpeedLevel new, pc_treasuryLevel new)
      = (pc_gems c, pc_startingGarrisonLevel c, pc_productionLevel c, pc_armySpeedLevel c, pc_treasuryLevel c)"
proof -
  define b where "b = calculateMatchRewards status stats (pc_currentStreak c) (pc_treasuryLevel c)"
  have new_eq: "new = settled_career c status b ts" by (simp add: new s settleMatch_def Let_def b_def)
  note ok = settled_career_ok [OF assms(1) b_def new_eq]
  have c: "pc_currentStreak c \<in> \<int>" "pc_matchesWon c \<le> pc_matchesPlayed c" "pc_currentStreak c \<le> pc_bestStreak c"
    "pc_currentStreak c \<in> \<nat>" "pc_trophies c \<in> \<nat>"
    using assms(1) by (simp_all add: career_ok_def Nats_iff)
  note r = calculateMatchRewards_ok [OF c(1) b_def]
  have frame: "pc_gems new = pc_gems c" "pc_startingGarrisonLevel new = pc_startingGarrisonLevel c"
    "pc_productionLevel new = pc_productionLevel c" "pc_armySpeedLevel new = pc_armySpeedLevel c"
    "pc_treasuryLevel new = pc_treasuryLevel c"
    by (simp_all add: new_eq settled_career_def Let_def)
  have entries: "st_ledgerEntries s = settlement_entries c new status (rb_totalCoins b) i ts" "st_breakdown s = b"
    by (simp_all add: s settleMatch_def Let_def b_def new_eq)
  have won: "pc_matchesWon new \<le> pc_matchesPlayed new" using ok(6,7) c(2) by (cases status) simp_all
  have best: "pc_currentStreak new \<le> pc_bestStreak new" using ok(9) by simp
  show ?thesis unfolding entries
    using ok r frame won best by (simp add: settlement_entries_def Let_def)
qed

lemma example_career_ok: "career_ok example_career"
  by (simp add: career_ok_def example_career_def)

lemma settleMatch_balances_witness:
  "pc_trophies (st_newCareer (settleMatch example_career Lost empty_stats ''m'' 0)) = 0
   \<and> 10 \<le> pc_coins (st_newCareer (settleMatch example_career Lost empty_stats ''m'' 0)) - 100"
  using settleMatch_balances [OF example_career_ok refl refl, of Lost empty_stats "''m''" 0]
  by (simp add: example_career_def)

text \<open>
  Ranks follow trophies. The rank is the highest tier whose threshold the trophies reach, more trophies never
  give a lower rank, a settlement reports a promotion exactly when the threshold rises, and only wins and draws
  can promote.
\<close>

theorem rank_progress:
  assumes "career_ok c" and s: "s = settleMatch c status stats i ts"
  shows "(\<forall>t. rk_minTrophies (getRankTier t) \<le> max 0 t \<and> getRankTier t \<in> set RANK_TIERS
      \<and> (\<forall>tier\<in>set RANK_TIERS. rk_minTrophies tier \<le> max 0 t \<longrightarrow> rk_minTrophies tier \<le> rk_minTrophies (getRankTier t)))
    \<and> (pc_trophies (st_newCareer s) \<le> pc_trophies c \<longrightarrow> \<not> st_rankPromoted s)
    \<and> (st_rankPromoted s \<longrightarrow> status \<noteq> Lost \<and> rk_minTrophies (st_previousRank s) < rk_minTrophies (st_newRank s))"
proof -
  define b where "b = calculateMatchRewards status stats (pc_currentStreak c) (pc_treasuryLevel c)"
  have new: "st_newCareer s = settled_career c status b ts" by (simp add: s settleMatch_def Let_def b_def)
  note ok = settled_career_ok [OF assms(1) b_def new]
  have streak: "pc_currentStreak c \<in> \<int>" and t: "0 \<le> pc_trophies c" using assms(1) by (simp_all add: career_ok_def Nats_iff)
  have lost: "pc_trophies (st_newCareer s) \<le> pc_trophies c" if "status = Lost"
    using ok(3) calculateMatchRewards_ok(7) [OF streak b_def] that t by simp
  have promoted: "st_rankPromoted s \<longleftrightarrow> rk_minTrophies (getRankTier (pc_trophies c)) < rk_minTrophies (getRankTier (pc_trophies (st_newCareer s)))"
    and ranks: "st_previousRank s = getRankTier (pc_trophies c)" "st_newRank s = getRankTier (pc_trophies (st_newCareer s))"
    by (simp_all add: s settleMatch_def Let_def)
  have down: "\<not> st_rankPromoted s" if "pc_trophies (st_newCareer s) \<le> pc_trophies c"
    using rank_mono [OF that] promoted by simp
  have "status \<noteq> Lost" if "st_rankPromoted s" using that down lost by blast
  then show ?thesis using down promoted ranks by (intro conjI allI ballI impI rank_tier_best) simp_all
qed

lemma rank_progress_witness: "\<not> st_rankPromoted (settleMatch example_career Lost empty_stats ''m'' 0)"
  using rank_progress [OF example_career_ok refl, of Lost empty_stats "''m''" 0] by blast

section \<open>Facts about the kingdom and the realm\<close>

lemma getKingdomLevel_sum:
  "\<exists>n\<le>80. getKingdomLevel c = of_nat n"
proof -
  obtain a b d e where r: "a \<le> 20" "b \<le> 20" "d \<le> 20" "e \<le> 20"
    and l: "getUpgradeLevel c StartingGarrison = of_nat a" "getUpgradeLevel c Production = of_nat b"
      "getUpgradeLevel c ArmySpeed = of_nat d" "getUpgradeLevel c Treasury = of_nat e"
    using getUpgradeLevel_range by meson
  have add: "jadd (of_nat m) (of_nat n) = (of_nat (m + n) :: num)" if "m + n \<le> 80" for m n
    using fl_of_nat_exact [of "m + n"] that by simp
  have "jadd (jadd (jadd (jadd 0 (of_nat a)) (of_nat b)) (of_nat d)) (of_nat e) = of_nat (a + b + d + e)"
    using add [of 0 a] add [of a b] add [of "a + b" d] add [of "a + b + d" e] r by simp
  then have "getKingdomLevel c = of_nat (a + b + d + e)" by (simp add: getKingdomLevel_def KINGDOM_UPGRADES_def l)
  then show ?thesis using r by (intro exI [of _ "a + b + d + e"]) simp
qed

lemma kingdom_tier_index_eq:
  "kingdom_tier_index x = (if 65 \<le> x then 4 else if 45 \<le> x then 3 else if 25 \<le> x then 2 else if 10 \<le> x then 1 else 0)"
proof -
  have "rev [0..<length KINGDOM_TIERS] = [4, 3, 2, 1, 0]" by (simp add: KINGDOM_TIERS_def upt_rec)
  then show ?thesis by (simp add: kingdom_tier_index_def) (simp add: KINGDOM_TIERS_def)
qed

lemma kingdom_tiers:
  "length KINGDOM_TIERS = 5" "kt_minLevel (KINGDOM_TIERS ! 0) = 0" "kt_minLevel (KINGDOM_TIERS ! Suc 0) = 10"
  "kt_minLevel (KINGDOM_TIERS ! 2) = 25" "kt_minLevel (KINGDOM_TIERS ! Suc (Suc 0)) = 25" "kt_minLevel (KINGDOM_TIERS ! 3) = 45" "kt_minLevel (KINGDOM_TIERS ! 4) = 65"
  by (simp_all add: KINGDOM_TIERS_def)

lemma unit_fraction: "0 \<le> a \<Longrightarrow> a \<le> b \<Longrightarrow> 0 < b \<Longrightarrow> 0 \<le> jdiv a b \<and> jdiv a b \<le> 1"
  by (auto intro!: fl_le_double)

lemma small_diff: "jsub (of_nat a) (of_nat b) = (of_nat a - of_nat b :: num)" if "a \<le> 1000" "b \<le> 1000"
proof -
  have "(of_nat a - of_nat b :: num) = of_int (int a - int b)" by simp
  moreover have "fl (of_int (int a - int b)) = (of_int (int a - int b) :: num)" using that by (intro fl_of_int_exact) auto
  ultimately show ?thesis by simp
qed

text \<open>
  The kingdom's level and its bar. Whatever numbers a career holds, the level is whole and at most 80, its tier
  is the one whose threshold it has reached, the bar stays between 0 and 1, and below the last tier the levels
  missing to the next one are counted exactly and are never zero.
\<close>

theorem kingdom_progress_bounds:
  "\<exists>n\<le>80. kp_totalLevel (getKingdomProgress c) = of_nat n
     \<and> kt_minLevel (kp_tier (getKingdomProgress c)) \<le> of_nat n
     \<and> 0 \<le> kp_tierProgress (getKingdomProgress c) \<and> kp_tierProgress (getKingdomProgress c) \<le> 1
     \<and> (case kp_nextTier (getKingdomProgress c) of
          None \<Rightarrow> 65 \<le> n \<and> kp_levelsToNextTier (getKingdomProgress c) = 0
        | Some tier \<Rightarrow> of_nat n < kt_minLevel tier
            \<and> kp_levelsToNextTier (getKingdomProgress c) = kt_minLevel tier - of_nat n)"
proof -
  obtain n where n: "n \<le> 80" "getKingdomLevel c = of_nat n" using getKingdomLevel_sum by blast
  have sub: "jsub (of_nat n) (numeral k) = of_nat n - (numeral k :: num)" "jsub (numeral k) (of_nat n) = (numeral k :: num) - of_nat n"
    if "numeral k \<le> (1000::nat)" for k
    using small_diff [of n "numeral k"] small_diff [of "numeral k" n] n(1) that by simp_all
  have bar: "0 \<le> jdiv (of_nat n - a) b \<and> jdiv (of_nat n - a) b \<le> 1" if "a \<le> of_nat n" "of_nat n \<le> a + b" "0 < b" for a b :: num
    using unit_fraction [of "of_nat n - a" b] that by simp
  have "fl (of_nat n) = (of_nat n :: num)" by (rule fl_of_nat_exact) (use n(1) in simp)
  then show ?thesis using n(1) bar bar [of 0 10]
    by (intro exI [of _ n])
      (auto simp: getKingdomProgress_def Let_def n(2) kingdom_tier_index_eq kingdom_tiers sub)
qed

text \<open>
  In a realm match nobody fights with more than two levels over the opponent. Every effective level is a whole
  number between 0 and 20, at most the player's own and at most the opponent's plus two; under the equal policy all
  are zero. The army a match starts with is a whole number of at least 17 units.
\<close>

theorem realm_levels_bounded:
  "(\<forall>index. \<exists>n\<le>20. realm_level levels opponentLevels policy index = of_nat n)
   \<and> list_all2 (\<lambda>level index. level = realm_level levels opponentLevels policy index
        \<and> level \<le> realm_normalize (if index < length levels then Some (levels ! index) else None)
        \<and> level \<le> realm_normalize (if index < length opponentLevels then Some (opponentLevels ! index) else None) + 2
        \<and> level = (if policy = EqualPolicy then 0 else level))
      (fst (realmModifiers levels opponentLevels i policy)) [0, 1, 2]
   \<and> pm_startingUnits (snd (realmModifiers levels opponentLevels i policy)) \<in> \<nat>
   \<and> 17 \<le> pm_startingUnits (snd (realmModifiers levels opponentLevels i policy))"
proof -
  have norm: "\<exists>n\<le>20. realm_normalize v = of_nat n" for v
  proof -
    have "\<exists>n\<le>20. max 0 (min 20 (math_floor x)) = of_nat n" for x
    proof (intro exI conjI)
      show "nat (min 20 (max 0 \<lfloor>x\<rfloor>)) \<le> 20" by simp
      show "max 0 (min 20 (math_floor x)) = of_nat (nat (min 20 (max 0 \<lfloor>x\<rfloor>)))"
        by (simp add: math_floor_def min_def max_def)
    qed
    moreover have "\<exists>n\<le>20. (0::num) = of_nat n" by (rule exI [of _ 0]) simp
    ultimately show ?thesis by (simp add: realm_normalize_def split: option.splits js_number.splits)
  qed
  define own where "own index = realm_normalize (if index < length levels then Some (levels ! index) else None)" for index
  define opp where "opp index = realm_normalize (if index < length opponentLevels then Some (opponentLevels ! index) else None)" for index
  have opp2: "jadd (opp index) 2 = opp index + 2" for index
  proof -
    obtain n where "n \<le> 20" "opp index = of_nat n" using norm unfolding opp_def by blast
    then show ?thesis using fl_of_nat_exact [of "n + 2"] by (simp add: add.commute)
  qed
  have level: "realm_level levels opponentLevels policy index = (if policy = EqualPolicy then 0 else min (own index) (opp index + 2))" for index
    unfolding realm_level_def own_def [symmetric] opp_def [symmetric] opp2 ..
  have nonneg: "0 \<le> own index" "0 \<le> opp index" for index
    using norm unfolding own_def opp_def by (metis of_nat_0_le_iff)+
  have whole: "\<exists>n\<le>20. realm_level levels opponentLevels policy index = of_nat n" for index
  proof -
    obtain a b where "a \<le> 20" "own index = of_nat a" "b \<le> 20" "opp index = of_nat b"
      using norm unfolding own_def opp_def by blast
    then show ?thesis unfolding level
      by (intro exI [of _ "if policy = EqualPolicy then 0 else min a (b + 2)"]) (auto simp: min_def)
  qed
  have "getCommander (Some i) \<in> set COMMANDERS" by (rule getCommander_cases)
  then have delta: "co_startingUnitsDelta (getCommander (Some i)) \<in> \<int>" "- 3 \<le> co_startingUnitsDelta (getCommander (Some i))"
    "co_startingUnitsDelta (getCommander (Some i)) \<le> 0" by (auto simp: COMMANDERS_def)
  obtain n where n: "n \<le> 20" "realm_level levels opponentLevels policy 0 = of_nat n" using whole by blast
  have base: "jadd 20 (of_nat n) = 20 + of_nat n" using fl_of_nat_exact [of "20 + n"] n(1) by simp
  let ?u = "jadd (20 + of_nat n) (co_startingUnitsDelta (getCommander (Some i)))"
  have "17 \<le> 20 + of_nat n + co_startingUnitsDelta (getCommander (Some i))"
    using delta(2) of_nat_0_le_iff [of n, where ?'a = rat] by linarith
  then have "17 \<le> ?u" by (rule fl_ge_double) (simp add: is_double_numeral)
  moreover have "?u \<in> \<int>" using delta(1) by (intro fl_Ints) simp
  moreover have "0 \<le> ?u" using calculation(1) by (rule order_trans [rotated]) simp
  ultimately have units: "?u \<in> \<nat>" "17 \<le> ?u" unfolding Nats_iff by blast+
  have start: "pm_startingUnits (snd (realmModifiers levels opponentLevels i policy)) = ?u"
    using units(2) by (simp add: realmModifiers_def Let_def n(2) base max_def)
  have list: "fst (realmModifiers levels opponentLevels i policy) = map (realm_level levels opponentLevels policy) [0, 1, 2]"
    by (simp add: realmModifiers_def Let_def)
  have bounds: "realm_level levels opponentLevels policy index \<le> own index \<and> realm_level levels opponentLevels policy index \<le> opp index + 2
      \<and> realm_level levels opponentLevels policy index = (if policy = EqualPolicy then 0 else realm_level levels opponentLevels policy index)" for index
    using nonneg [of index] by (auto simp: level)
  show ?thesis unfolding start list list_all2_map1 list_all2_same
    using whole units bounds [unfolded own_def opp_def] by blast
qed

end
