(* ===== verification/Campaign.thy ===== *)
theory Campaign
  imports MatchPolicies Progression
begin

text \<open>
  \<open>levels.ts\<close>: the campaign's table of levels and its progress, and the matches that careers and levels start.
\<close>

definition LEVEL_RULES_VERSION :: num where "LEVEL_RULES_VERSION = 3"

definition LEVEL_PLAYER_MODIFIERS :: player_modifiers where
  "LEVEL_PLAYER_MODIFIERS = \<lparr>pm_startingUnits = 20, pm_productionRateMultiplier = 1, pm_armySpeedMultiplier = 1\<rparr>"

record level_definition =
  ld_id :: nat
  ld_battlefieldId :: battlefield_id
  ld_botDifficulty :: bot_difficulty
  ld_enemy :: player_modifiers
  ld_coinReward :: num

definition level_enemy :: "num \<Rightarrow> num \<Rightarrow> num \<Rightarrow> player_modifiers" where
  "level_enemy startingUnits production speed =
     \<lparr>pm_startingUnits = startingUnits, pm_productionRateMultiplier = production, pm_armySpeedMultiplier = speed\<rparr>"

definition level :: "nat \<Rightarrow> battlefield_id \<Rightarrow> bot_difficulty \<Rightarrow> player_modifiers \<Rightarrow> num \<Rightarrow> level_definition" where
  "level i b d e r = \<lparr>ld_id = i, ld_battlefieldId = b, ld_botDifficulty = d, ld_enemy = e, ld_coinReward = r\<rparr>"

definition LEVELS :: "level_definition list" where
  "LEVELS = [
    level 1 ''crown_cross'' Easy (level_enemy 16 (fl (9 / 10)) 1) 25,
    level 2 ''crown_cross'' Easy (level_enemy 18 1 1) 25,
    level 3 ''twin_passes'' Easy (level_enemy 18 1 1) 25,
    level 4 ''royal_ring'' Easy (level_enemy 20 1 1) 25,
    level 5 ''crown_cross'' Normal (level_enemy 18 (fl (95 / 100)) 1) 40,
    level 6 ''twin_passes'' Normal (level_enemy 20 1 1) 40,
    level 7 ''royal_ring'' Normal (level_enemy 20 1 1) 40,
    level 8 ''crown_cross'' Hard (level_enemy 20 1 1) 60,
    level 9 ''twin_passes'' Hard (level_enemy 22 (fl (105 / 100)) 1) 60,
    level 10 ''royal_ring'' Hard (level_enemy 22 (fl (105 / 100)) 1) 60]"

definition LEVEL_COUNT :: nat where "LEVEL_COUNT = length LEVELS"

definition getLevel :: "js_number \<Rightarrow> level_definition option" where
  "getLevel i = List.find (\<lambda>l. Finite (of_nat (ld_id l)) = i) LEVELS"

definition isLevelUnlocked :: "num \<Rightarrow> js_number \<Rightarrow> bool" where
  "isLevelUnlocked levelsCompleted i = (case i of
       Finite x \<Rightarrow> number_is_integer i \<and> 1 \<le> x \<and> x \<le> of_nat LEVEL_COUNT \<and> x \<le> jadd levelsCompleted 1
     | _ \<Rightarrow> False)"

definition levelsCompletedAfter :: "num \<Rightarrow> js_number \<Rightarrow> num" where
  "levelsCompletedAfter levelsCompleted i =
     (if isLevelUnlocked levelsCompleted i then max levelsCompleted (case i of Finite x \<Rightarrow> x | _ \<Rightarrow> 0) else levelsCompleted)"

text \<open>The match a level is played as: the tactical rules, the base player and the level's enemy.\<close>

definition level_options :: "level_definition \<Rightarrow> pvp_action list \<Rightarrow> pvp_options" where
  "level_options l actions = \<lparr>px_botDifficulty = Some (ld_botDifficulty l), px_rules = Some LEVEL_RULES_VERSION,
     px_playerModifiers = Some LEVEL_PLAYER_MODIFIERS, px_enemyModifiers = Some (ld_enemy l), px_actions = actions,
     px_battlefieldId = Some (ld_battlefieldId l), px_commanderId = None\<rparr>"

section \<open>Facts\<close>

lemma LEVEL_COUNT_10 [simp]: "LEVEL_COUNT = 10"
  by (simp add: LEVEL_COUNT_def LEVELS_def)

lemma number_is_integer_iff: "number_is_integer (Finite x) \<longleftrightarrow> x \<in> \<int>"
  by (metis math_floor_Int math_floor_Ints number_is_integer.simps(1))

lemma isLevelUnlocked_iff:
  assumes "n \<le> 10"
  shows "isLevelUnlocked (of_nat n) (Finite x) \<longleftrightarrow> (\<exists>k. x = of_nat k \<and> 1 \<le> k \<and> k \<le> 10 \<and> k \<le> Suc n)"
proof -
  have succ: "jadd (of_nat n) 1 = of_nat (Suc n)" using fl_of_nat_exact [of "Suc n"] assms by (simp add: add.commute)
  have conv: "(of_nat k \<le> (10::num)) = (k \<le> 10)" "((1::num) \<le> of_nat k) = (1 \<le> k)" for k
    using of_nat_le_iff [of k 10, where ?'a = rat] of_nat_le_iff [of 1 k, where ?'a = rat] by simp_all
  show ?thesis
  proof
    assume "isLevelUnlocked (of_nat n) (Finite x)"
    then have x: "x \<in> \<int>" "1 \<le> x" "x \<le> 10" "x \<le> of_nat (Suc n)"
      unfolding isLevelUnlocked_def js_number.case number_is_integer_iff succ by simp_all
    then have "x \<in> \<nat>" by (simp add: Nats_iff)
    then obtain k where k: "x = of_nat k" by (auto elim: Nats_cases)
    have "k \<le> Suc n" using x(4) unfolding k by (simp only: of_nat_le_iff)
    then show "\<exists>k. x = of_nat k \<and> 1 \<le> k \<and> k \<le> 10 \<and> k \<le> Suc n" using x(2,3) k conv by blast
  next
    assume "\<exists>k. x = of_nat k \<and> 1 \<le> k \<and> k \<le> 10 \<and> k \<le> Suc n"
    then obtain k where k: "x = of_nat k" "1 \<le> k" "k \<le> 10" "k \<le> Suc n" by blast
    then show "isLevelUnlocked (of_nat n) (Finite x)"
      unfolding isLevelUnlocked_def js_number.case number_is_integer_iff succ k(1)
      using conv [of k] by (simp del: of_nat_Suc)
  qed
qed

text \<open>
  Campaign progress. From \<open>n\<close> completed levels a finished level moves progress by exactly one when it is the
  next one and there is a next one, and otherwise leaves it: replaying an earlier level, skipping ahead and any
  number that is not a level change nothing. Reporting the same level twice counts once.
\<close>

theorem campaign_progress:
  assumes "n \<le> LEVEL_COUNT"
  shows "levelsCompletedAfter (of_nat n) i = of_nat (if n < LEVEL_COUNT \<and> i = Finite (of_nat (Suc n)) then Suc n else n)
    \<and> levelsCompletedAfter (levelsCompletedAfter (of_nat n) i) i = levelsCompletedAfter (of_nat n) i"
proof -
  have one: "levelsCompletedAfter (of_nat n) i = of_nat (if n < LEVEL_COUNT \<and> i = Finite (of_nat (Suc n)) then Suc n else n)"
    if n: "n \<le> LEVEL_COUNT" for n
  proof (cases i)
    case (Finite x)
    have iff: "isLevelUnlocked (of_nat n) i \<longleftrightarrow> (\<exists>k. x = of_nat k \<and> 1 \<le> k \<and> k \<le> 10 \<and> k \<le> Suc n)"
      unfolding Finite by (rule isLevelUnlocked_iff) (use n in simp)
    show ?thesis
    proof (cases "isLevelUnlocked (of_nat n) i")
      case True
      then obtain k where k: "x = of_nat k" "k \<le> 10" "k \<le> Suc n" using iff by blast
      have "max (of_nat n) (of_nat k) = (of_nat (max n k) :: num)" by (simp add: max_def)
      then have "levelsCompletedAfter (of_nat n) i = of_nat (max n k)" using True Finite k(1) by (simp add: levelsCompletedAfter_def)
      moreover have "max n k = (if n < LEVEL_COUNT \<and> i = Finite (of_nat (Suc n)) then Suc n else n)"
        using k(2,3) unfolding Finite k(1) js_number.inject of_nat_eq_iff by auto
      ultimately show ?thesis by simp
    next
      case False
      have "\<not> (n < LEVEL_COUNT \<and> i = Finite (of_nat (Suc n)))"
      proof
        assume "n < LEVEL_COUNT \<and> i = Finite (of_nat (Suc n))"
        then have "x = of_nat (Suc n)" "Suc n \<le> 10" by (simp_all add: Finite del: of_nat_Suc)
        then have "\<exists>k. x = of_nat k \<and> 1 \<le> k \<and> k \<le> 10 \<and> k \<le> Suc n" by (intro exI [of _ "Suc n"]) simp
        then show False using False iff by blast
      qed
      then show ?thesis using False by (simp add: levelsCompletedAfter_def)
    qed
  qed (simp_all add: levelsCompletedAfter_def isLevelUnlocked_def)
  show ?thesis using one [OF assms] one [of "if n < LEVEL_COUNT \<and> i = Finite (of_nat (Suc n)) then Suc n else n"] assms
    by (cases "n < LEVEL_COUNT \<and> i = Finite (of_nat (Suc n))") auto
qed

lemma campaign_progress_witness:
  "levelsCompletedAfter (of_nat 3) (Finite (of_nat 4)) = of_nat 4 \<and> levelsCompletedAfter (of_nat 3) NaN = of_nat 3"
  using campaign_progress [of 3 "Finite (of_nat 4)"] campaign_progress [of 3 NaN] by simp

section \<open>Matches from careers and levels\<close>

lemma max_one_Nats: "x \<in> \<int> \<Longrightarrow> max 1 x \<in> (\<nat> :: num set)"
  by (auto simp: max_def Nats_iff)

lemma career_modifiers_ok: "modifiers_ok (Some (getPlayerUpgradeModifiers c))"
proof -
  obtain n where n: "n \<le> 20" "getUpgradeLevel c StartingGarrison = of_nat n" using getUpgradeLevel_range by blast
  have "jadd (getStartingUnits (of_nat n)) (co_startingUnitsDelta (getCommander (Some (pc_selectedCommanderId c)))) \<in> \<int>"
    by (intro fl_Ints Ints_add commander_delta) (simp add: starting_units_exact [OF n(1)])
  then show ?thesis unfolding modifiers_ok_def
    by (simp only: getPlayerUpgradeModifiers_def Let_def n(2) option.inject) (auto intro: max_one_Nats)
qed

text \<open>
  A match can be replayed for any two careers and on every campaign level. Whatever numbers the careers hold
  as levels and whatever commander they name, a match with their modifiers on any battlefield, and every match
  of the campaign, returns with a verdict for every list of valid orders.
\<close>

theorem career_matches_return:
  assumes "validateActions actions = Inr ()" "hypot_ok hyp"
  shows "(\<exists>res. simulatePvpBattle hyp \<lparr>px_botDifficulty = d, px_rules = Some 2,
        px_playerModifiers = Some (getPlayerUpgradeModifiers c), px_enemyModifiers = Some (getPlayerUpgradeModifiers c'),
        px_actions = actions, px_battlefieldId = b, px_commanderId = co\<rparr> = Some (Inr res)
        \<and> g_status (pv_finalState res) \<noteq> Playing)
    \<and> (\<forall>l\<in>set LEVELS. \<exists>res. simulatePvpBattle hyp (level_options l actions) = Some (Inr res)
        \<and> g_status (pv_finalState res) \<noteq> Playing)"
proof -
  have returns: "\<exists>res. simulatePvpBattle hyp opts = Some (Inr res) \<and> g_status (pv_finalState res) \<noteq> Playing"
    if "px_actions opts = actions" "options_ok opts" "px_rules opts \<noteq> Some 1" for opts
    using simulatePvpBattle_ok [of opts hyp, OF _ that(2) assms(2) refl] assms(1) that
    by (auto simp: options_ok_def hasCaptureRecovery_def initial_version_def pvp_initial_options_def GAMEPLAY_RULES_VERSION_def
        split: option.splits)
  have "options_ok \<lparr>px_botDifficulty = d, px_rules = Some 2, px_playerModifiers = Some (getPlayerUpgradeModifiers c),
      px_enemyModifiers = Some (getPlayerUpgradeModifiers c'), px_actions = actions, px_battlefieldId = b, px_commanderId = co\<rparr>"
    by (simp add: options_ok_def pvp_initial_options_def initial_version_def usesTacticalRules_def career_modifiers_ok)
  moreover have "options_ok (level_options l actions)" if "l \<in> set LEVELS" for l
  proof -
    have map: "ld_battlefieldId l \<noteq> ''quad_citadel''" and units: "pm_startingUnits (ld_enemy l) \<in> \<nat>"
      using that by (auto simp: LEVELS_def level_def level_enemy_def)
    have "normalizeBattlefieldId (Some (ld_battlefieldId l)) \<noteq> ''quad_citadel''"
      using map by (simp add: normalizeBattlefieldId_def DEFAULT_BATTLEFIELD_ID_def)
    then show ?thesis using units
      by (simp add: options_ok_def level_options_def modifiers_ok_def pvp_initial_options_def initial_version_def
          LEVEL_RULES_VERSION_def LEVEL_PLAYER_MODIFIERS_def)
  qed
  ultimately show ?thesis using returns by (simp add: level_options_def LEVEL_RULES_VERSION_def)
qed

lemma career_matches_return_witness:
  "\<exists>res. simulatePvpBattle manhattan (level_options (LEVELS ! 9) [example_order]) = Some (Inr res)
     \<and> g_status (pv_finalState res) \<noteq> Playing"
proof -
  have "validateActions [example_order] = Inr ()"
    by (simp add: validateActions_def MAX_PVP_ACTIONS_def example_order_def valid_timestamp_def PVP_TIME_LIMIT_SECONDS_def)
  moreover have "LEVELS ! 9 \<in> set LEVELS" by (rule nth_mem) (simp add: LEVELS_def)
  ultimately show ?thesis using career_matches_return [OF _ manhattan_ok] by blast
qed

end
