(* ===== verification/Lanes.thy ===== *)
theory Lanes
  imports Campaign
begin

text \<open>
  \<open>lanes.ts\<close>: lanes send single soldiers from a tower to a target until they are cut. The loop that lets a
  lane's soldiers leave has no constant bound, so a step is a \<open>run\<close>. Configurations have a positive speed and
  a positive emission interval; \<open>LANE_CONFIG\<close> is the only one the game uses.
\<close>

section \<open>Data\<close>

record lane_config =
  lc_emitSeconds :: num
  lc_soldierSpeed :: num

definition LANE_CONFIG :: lane_config where
  "LANE_CONFIG = \<lparr>lc_emitSeconds = fl (2 / 10), lc_soldierSpeed = 140\<rparr>"

record lane =
  la_id :: string
  la_owner :: team
  la_sourceId :: string
  la_targetId :: string
  la_routeIds :: "string list"
  la_nextEmitIn :: num

record soldier =
  so_owner :: team
  so_targetId :: string
  so_routeIds :: "string list"
  so_total :: num
  so_remaining :: num

record lane_state =
  ls_lanes :: "lane list"
  ls_soldiers :: "soldier list"
  ls_nextLaneId :: nat

definition emptyLaneState :: lane_state where
  "emptyLaneState = \<lparr>ls_lanes = [], ls_soldiers = [], ls_nextLaneId = 0\<rparr>"

section \<open>Opening and cutting\<close>

fun route_length :: "hypot_fn \<Rightarrow> territory obj \<Rightarrow> string list \<Rightarrow> num \<Rightarrow> num result" where
  "route_length hyp ts (i # j # ids) acc =
     rbind (defined_or_type_error (obj_get ts i)) (\<lambda>a. rbind (defined_or_type_error (obj_get ts j)) (\<lambda>b.
       route_length hyp ts (j # ids) (jadd acc (territory_distance hyp a b))))"
| "route_length hyp ts ids acc = Inr acc"

definition routeSeconds :: "hypot_fn \<Rightarrow> game_state \<Rightarrow> string list \<Rightarrow> lane_config \<Rightarrow> num result" where
  "routeSeconds hyp s routeIds config =
     rbind (route_length hyp (g_territories s) routeIds 0) (\<lambda>l. Inr (jdiv l (lc_soldierSpeed config)))"

definition maxLanes :: "game_state \<Rightarrow> string \<Rightarrow> nat" where
  "maxLanes s towerId = (case obj_get (g_territories s) towerId of Some t \<Rightarrow> t_tier t | None \<Rightarrow> 1)"

definition lane_between :: "team \<Rightarrow> string \<Rightarrow> string \<Rightarrow> lane \<Rightarrow> bool" where
  "lane_between w src tgt l \<longleftrightarrow> la_owner l = w \<and> la_sourceId l = src \<and> la_targetId l = tgt"

definition lanes_from :: "team \<Rightarrow> string \<Rightarrow> lane list \<Rightarrow> lane list" where
  "lanes_from w src ls = filter (\<lambda>l. la_owner l = w \<and> la_sourceId l = src) ls"

definition openLane ::
  "hypot_fn \<Rightarrow> game_state \<Rightarrow> lane_state \<Rightarrow> team \<Rightarrow> string \<Rightarrow> string \<Rightarrow> lane_state result" where
  "openLane hyp s lanes owner sourceId targetId =
     (if list_ex (lane_between owner sourceId targetId) (ls_lanes lanes) then Inr lanes
      else if maxLanes s sourceId \<le> length (lanes_from owner sourceId (ls_lanes lanes)) then Inr lanes
      else rbind (findDispatchRoute hyp s sourceId targetId owner) (\<lambda>route. Inr (case route of
          None \<Rightarrow> lanes
        | Some r \<Rightarrow> lanes\<lparr>ls_lanes := ls_lanes lanes @ [\<lparr>la_id = ''lane_'' @ nat_string (ls_nextLaneId lanes),
              la_owner = owner, la_sourceId = sourceId, la_targetId = targetId, la_routeIds = r, la_nextEmitIn = 0\<rparr>],
            ls_nextLaneId := Suc (ls_nextLaneId lanes)\<rparr>)))"

text \<open>
  When no lane is removed the same object is returned, which the caller compares by identity: the flag of the
  second component is \<open>next !== lanes\<close>.
\<close>

definition cutLane :: "lane_state \<Rightarrow> team \<Rightarrow> string \<Rightarrow> string \<Rightarrow> lane_state \<times> bool" where
  "cutLane lanes owner sourceId targetId =
     (let kept = filter (\<lambda>l. \<not> lane_between owner sourceId targetId l) (ls_lanes lanes)
      in if length kept = length (ls_lanes lanes) then (lanes, False) else (lanes\<lparr>ls_lanes := kept\<rparr>, True))"

definition pruneDeadLanes :: "territory obj \<Rightarrow> lane list \<Rightarrow> lane list" where
  "pruneDeadLanes ts ls = filter (\<lambda>l. map_option t_owner (obj_get ts (la_sourceId l)) = Some (la_owner l)) ls"

section \<open>One step\<close>

definition LANE_EPSILON :: num where "LANE_EPSILON = fl (1 / 10 ^ 9)"

record soldier_work =
  fw_territories :: "territory obj"
  fw_stats :: match_stats
  fw_flying :: "soldier list"

definition soldier_capture :: "team \<Rightarrow> match_stats \<Rightarrow> match_stats" where
  "soldier_capture w st =
     (if w = Player then st\<lparr>ms_capturedByPlayer := jadd (ms_capturedByPlayer st) 1\<rparr>
      else st\<lparr>ms_capturedByEnemy := jadd (ms_capturedByEnemy st) 1\<rparr>)"

text \<open>A soldier that arrives reinforces a friendly tower, removes a defender, or takes an empty tower.\<close>

definition soldier_arrives :: "soldier \<Rightarrow> territory \<Rightarrow> soldier_work \<Rightarrow> soldier_work" where
  "soldier_arrives so target w =
     (if t_owner target = so_owner so then
        w\<lparr>fw_territories := obj_set (so_targetId so)
          (target\<lparr>t_units := min (t_maxUnits target) (jadd (t_units target) 1)\<rparr>) (fw_territories w)\<rparr>
      else if 0 < t_units target then
        w\<lparr>fw_territories := obj_set (so_targetId so) (target\<lparr>t_units := jsub (t_units target) 1\<rparr>) (fw_territories w)\<rparr>
      else
        w\<lparr>fw_territories := obj_set (so_targetId so) (target\<lparr>t_owner := so_owner so, t_units := 1\<rparr>) (fw_territories w),
          fw_stats := soldier_capture (so_owner so) (fw_stats w)\<rparr>)"

definition move_soldier :: "num \<Rightarrow> soldier \<Rightarrow> soldier_work \<Rightarrow> soldier_work" where
  "move_soldier deltaSeconds so w =
     (let remaining = jsub (so_remaining so) deltaSeconds in
      if LANE_EPSILON < remaining then w\<lparr>fw_flying := fw_flying w @ [so\<lparr>so_remaining := remaining\<rparr>]\<rparr>
      else (case obj_get (fw_territories w) (so_targetId so) of
          None \<Rightarrow> w
        | Some target \<Rightarrow> soldier_arrives so target w))"

text \<open>The variables of the emission loop of one lane; \<open>ew_stopped\<close> is set by its \<open>break\<close>.\<close>

record emit_work =
  ew_wait :: num
  ew_units :: num
  ew_stats :: match_stats
  ew_emitted :: "soldier list"
  ew_stopped :: bool

definition count_soldier :: "team \<Rightarrow> match_stats \<Rightarrow> match_stats" where
  "count_soldier w st =
     (if w = Player then st\<lparr>ms_playerUnitsDispatched := jadd (ms_playerUnitsDispatched st) 1\<rparr>
      else st\<lparr>ms_enemyUnitsDispatched := jadd (ms_enemyUnitsDispatched st) 1\<rparr>)"

definition new_soldier :: "lane \<Rightarrow> num \<Rightarrow> soldier" where
  "new_soldier l seconds = \<lparr>so_owner = la_owner l, so_targetId = la_targetId l, so_routeIds = la_routeIds l,
     so_total = seconds, so_remaining = seconds\<rparr>"

definition emit_soldier :: "hypot_fn \<Rightarrow> game_state \<Rightarrow> lane_config \<Rightarrow> lane \<Rightarrow> emit_work \<Rightarrow> emit_work result" where
  "emit_soldier hyp s config l w =
     (if 1 < ew_units w then
        rbind (routeSeconds hyp s (la_routeIds l) config) (\<lambda>seconds.
          Inr (w\<lparr>ew_units := jsub (ew_units w) 1, ew_emitted := ew_emitted w @ [new_soldier l seconds],
                 ew_stats := count_soldier (la_owner l) (ew_stats w)\<rparr>))
      else Inr w)"

definition emit_body :: "hypot_fn \<Rightarrow> game_state \<Rightarrow> lane_config \<Rightarrow> lane \<Rightarrow> emit_work \<Rightarrow> emit_work result" where
  "emit_body hyp s config l w =
     rbind (emit_soldier hyp s config l w) (\<lambda>w.
       let wait = jadd (ew_wait w) (lc_emitSeconds config) in
       Inr (if ew_units w \<le> 1 then w\<lparr>ew_wait := max wait (lc_emitSeconds config), ew_stopped := True\<rparr>
            else w\<lparr>ew_wait := wait\<rparr>))"

definition emit_goes_on :: "emit_work \<Rightarrow> bool" where
  "emit_goes_on w \<longleftrightarrow> \<not> ew_stopped w \<and> ew_wait w \<le> LANE_EPSILON"

definition emit_loop :: "hypot_fn \<Rightarrow> game_state \<Rightarrow> lane_config \<Rightarrow> lane \<Rightarrow> emit_work \<Rightarrow> emit_work run" where
  "emit_loop hyp s config l = while_res emit_goes_on (emit_body hyp s config l)"

record lanes_work =
  lw_territories :: "territory obj"
  lw_stats :: match_stats
  lw_emitted :: "soldier list"
  lw_lanes :: "lane list"

definition emit_start :: "lane \<Rightarrow> num \<Rightarrow> territory \<Rightarrow> lanes_work \<Rightarrow> emit_work" where
  "emit_start l deltaSeconds source w = \<lparr>ew_wait = jsub (la_nextEmitIn l) deltaSeconds, ew_units = t_units source,
     ew_stats = lw_stats w, ew_emitted = lw_emitted w, ew_stopped = False\<rparr>"

definition emit_lane ::
  "hypot_fn \<Rightarrow> game_state \<Rightarrow> lane_config \<Rightarrow> num \<Rightarrow> lane \<Rightarrow> lanes_work \<Rightarrow> lanes_work run" where
  "emit_lane hyp s config deltaSeconds l w =
     run_bind (Some (defined_or_type_error (obj_get (lw_territories w) (la_sourceId l)))) (\<lambda>source.
       run_bind (emit_loop hyp s config l (emit_start l deltaSeconds source w)) (\<lambda>e.
         Some (Inr \<lparr>lw_territories = obj_set (la_sourceId l) (source\<lparr>t_units := ew_units e\<rparr>) (lw_territories w),
           lw_stats = ew_stats e, lw_emitted = ew_emitted e,
           lw_lanes = lw_lanes w @ [l\<lparr>la_nextEmitIn := ew_wait e\<rparr>]\<rparr>)))"

text \<open>A loop over an array whose body may throw and may run forever.\<close>

fun fold_run :: "('a \<Rightarrow> 's \<Rightarrow> 's run) \<Rightarrow> 'a list \<Rightarrow> 's \<Rightarrow> 's run" where
  "fold_run f [] s = Some (Inr s)"
| "fold_run f (x # xs) s = run_bind (f x s) (fold_run f xs)"

text \<open>A side without towers and without soldiers has lost.\<close>

definition lane_verdict :: "match_status \<Rightarrow> territory obj \<Rightarrow> soldier list \<Rightarrow> match_status" where
  "lane_verdict status ts soldiers =
     (if owned_towers Enemy ts = [] \<and> filter (\<lambda>so. so_owner so = Enemy) soldiers = [] then Victory
      else if owned_towers Player ts = [] \<and> filter (\<lambda>so. so_owner so = Player) soldiers = [] then Defeat
      else status)"

record lane_step =
  lp_state :: game_state
  lp_accumulators :: "num obj"
  lp_lanes :: lane_state

definition soldiers_fly :: "num \<Rightarrow> soldier list \<Rightarrow> game_state \<Rightarrow> soldier_work" where
  "soldiers_fly deltaSeconds soldiers s =
     fold (move_soldier deltaSeconds) soldiers
       \<lparr>fw_territories = g_territories s, fw_stats = g_stats s, fw_flying = []\<rparr>"

definition stepLaneSimulation ::
  "hypot_fn \<Rightarrow> game_state \<Rightarrow> num obj \<Rightarrow> lane_state \<Rightarrow> num \<Rightarrow> lane_config \<Rightarrow> lane_step run" where
  "stepLaneSimulation hyp s accumulators lanes deltaSeconds config =
     run_bind (Some (stepSimulation hyp s accumulators deltaSeconds)) (\<lambda>st.
       if g_status (sr_state st) \<noteq> Playing then
         Some (Inr \<lparr>lp_state = sr_state st, lp_accumulators = sr_accumulators st, lp_lanes = lanes\<rparr>)
       else
         let f = soldiers_fly deltaSeconds (ls_soldiers lanes) (sr_state st);
             live = pruneDeadLanes (fw_territories f) (ls_lanes lanes)
         in run_bind (fold_run (emit_lane hyp (sr_state st) config deltaSeconds) live
              \<lparr>lw_territories = fw_territories f, lw_stats = fw_stats f, lw_emitted = [], lw_lanes = []\<rparr>) (\<lambda>w.
            let soldiers = fw_flying f @ lw_emitted w in
            Some (Inr \<lparr>lp_state = (sr_state st)\<lparr>g_territories := lw_territories w, g_stats := lw_stats w,
                  g_status := lane_verdict (g_status (sr_state st)) (lw_territories w) soldiers\<rparr>,
                lp_accumulators = sr_accumulators st,
                lp_lanes = lanes\<lparr>ls_lanes := lw_lanes w, ls_soldiers := soldiers\<rparr>\<rparr>)))"

section \<open>Where a soldier is\<close>

record point =
  pt_x :: num
  pt_y :: num

definition route_points :: "game_state \<Rightarrow> soldier \<Rightarrow> territory list" where
  "route_points s so = List.map_filter (obj_get (g_territories s)) (so_routeIds so)"

fun leg_lengths :: "hypot_fn \<Rightarrow> territory list \<Rightarrow> num list" where
  "leg_lengths hyp (p # q # ps) = territory_distance hyp p q # leg_lengths hyp (q # ps)"
| "leg_lengths hyp ps = []"

definition travelled_distance :: "num list \<Rightarrow> soldier \<Rightarrow> num" where
  "travelled_distance lengths so =
     jmul (fold (\<lambda>d sum. jadd sum d) lengths 0)
       (min 1 (max 0 (jsub 1 (jdiv (so_remaining so) (so_total so)))))"

fun walk_legs :: "territory list \<Rightarrow> num list \<Rightarrow> num \<Rightarrow> point" where
  "walk_legs (p # q # ps) (d # ds) travelled =
     (if travelled \<le> d \<or> ds = [] then
        let f = (if d = 0 then 1 else min 1 (jdiv travelled d)) in
        \<lparr>pt_x = jadd (t_x p) (jmul (jsub (t_x q) (t_x p)) f), pt_y = jadd (t_y p) (jmul (jsub (t_y q) (t_y p)) f)\<rparr>
      else walk_legs (q # ps) ds (jsub travelled d))"
| "walk_legs (p # ps) ds travelled = \<lparr>pt_x = t_x (last (p # ps)), pt_y = t_y (last (p # ps))\<rparr>"
| "walk_legs [] ds travelled = \<lparr>pt_x = 0, pt_y = 0\<rparr>"

definition soldierPosition :: "hypot_fn \<Rightarrow> game_state \<Rightarrow> soldier \<Rightarrow> point" where
  "soldierPosition hyp s so =
     (case route_points s so of
        [] \<Rightarrow> \<lparr>pt_x = 0, pt_y = 0\<rparr>
      | p # ps \<Rightarrow>
          if ps = [] \<or> so_total so \<le> 0 then \<lparr>pt_x = t_x p, pt_y = t_y p\<rparr>
          else let lengths = leg_lengths hyp (p # ps) in
            walk_legs (p # ps) lengths (travelled_distance lengths so))"

text \<open>The leg the distance falls on, the last one when it exceeds them all.\<close>

fun heading_leg :: "nat \<Rightarrow> num list \<Rightarrow> num \<Rightarrow> nat" where
  "heading_leg i [] travelled = i - 1"
| "heading_leg i (d # ds) travelled =
     (if travelled \<le> d then i else heading_leg (Suc i) ds (jsub travelled d))"

definition soldierHeading :: "hypot_fn \<Rightarrow> game_state \<Rightarrow> soldier \<Rightarrow> point" where
  "soldierHeading hyp s so =
     (let points = route_points s so in
      if length points < 2 \<or> so_total so \<le> 0 then \<lparr>pt_x = 0, pt_y = -1\<rparr>
      else let lengths = leg_lengths hyp points;
               leg = heading_leg 0 lengths (travelled_distance lengths so);
               dx = jsub (t_x (points ! Suc leg)) (t_x (points ! leg));
               dy = jsub (t_y (points ! Suc leg)) (t_y (points ! leg));
               len = hyp dx dy
           in if len = 0 then \<lparr>pt_x = 0, pt_y = -1\<rparr> else \<lparr>pt_x = jdiv dx len, pt_y = jdiv dy len\<rparr>)"

section \<open>Swipes\<close>

definition turn_sign :: "point \<Rightarrow> point \<Rightarrow> point \<Rightarrow> num" where
  "turn_sign p q r = jsub (jmul (jsub (pt_x q) (pt_x p)) (jsub (pt_y r) (pt_y p)))
     (jmul (jsub (pt_y q) (pt_y p)) (jsub (pt_x r) (pt_x p)))"

definition segments_cross :: "point \<Rightarrow> point \<Rightarrow> point \<Rightarrow> point \<Rightarrow> bool" where
  "segments_cross from to a b \<longleftrightarrow>
     jmul (turn_sign from to a) (turn_sign from to b) < 0 \<and> jmul (turn_sign a b from) (turn_sign a b to) < 0"

definition tower_point :: "territory \<Rightarrow> point" where
  "tower_point t = \<lparr>pt_x = t_x t, pt_y = t_y t\<rparr>"

fun route_crossed :: "game_state \<Rightarrow> point \<Rightarrow> point \<Rightarrow> string list \<Rightarrow> bool" where
  "route_crossed s from to (i # j # ids) =
     ((case (obj_get (g_territories s) i, obj_get (g_territories s) j) of
         (Some a, Some b) \<Rightarrow> segments_cross from to (tower_point a) (tower_point b)
       | _ \<Rightarrow> False) \<or> route_crossed s from to (j # ids))"
| "route_crossed s from to ids = False"

definition lanesCrossedBySegment :: "game_state \<Rightarrow> lane_state \<Rightarrow> team \<Rightarrow> point \<Rightarrow> point \<Rightarrow> lane list" where
  "lanesCrossedBySegment s lanes owner from to =
     filter (\<lambda>l. la_owner l = owner \<and> route_crossed s from to (la_routeIds l)) (ls_lanes lanes)"

end
