(* ===== verification/LaneEngine.thy ===== *)
theory LaneEngine
  imports Lanes
begin

text \<open>
  \<open>lane-ai.ts\<close>, \<open>lane-engine.ts\<close>, \<open>lane-levels.ts\<close> and \<open>lane-replay.ts\<close>: the bot's lane policy, the engine
  that the live client and the replay share, the nine lane battles, and the replay of a lane battle.
\<close>

section \<open>The policy\<close>

definition LANE_BOT_TICK_SECONDS :: "bot_difficulty \<Rightarrow> num" where
  "LANE_BOT_TICK_SECONDS d = (case d of Easy \<Rightarrow> 8 | Normal \<Rightarrow> 6 | Hard \<Rightarrow> 9 / 2)"

definition LANE_BOT_START_SECONDS :: "bot_difficulty \<Rightarrow> num" where
  "LANE_BOT_START_SECONDS d = (case d of Easy \<Rightarrow> 10 | Normal \<Rightarrow> 8 | Hard \<Rightarrow> 2)"

definition LANE_ENEMY_MODIFIERS :: "bot_difficulty \<Rightarrow> player_modifiers" where
  "LANE_ENEMY_MODIFIERS d = (case d of
       Easy \<Rightarrow> level_enemy 14 (fl (6 / 10)) 1
     | Normal \<Rightarrow> level_enemy 18 (fl (8 / 10)) 1
     | Hard \<Rightarrow> level_enemy 20 (fl (85 / 100)) 1)"

record lane_order =
  lo_from :: string
  lo_to :: string

record lane_orders =
  lo_open :: "lane_order list"
  lo_cut :: "lane_order list"

record lane_plan_options =
  pl_skill :: "nat option"
  pl_config :: "lane_config option"

definition regeneration :: "territory \<Rightarrow> num" where
  "regeneration t =
     (if t_owner t = Neutral then 0 else jmul (t_productionRate t) (getTerritoryProductionMultiplier (t_type t)))"

definition cmp_id :: "territory \<Rightarrow> territory \<Rightarrow> num" where
  "cmp_id a b = cmp_string (t_id a) (t_id b)"

definition lane_finished :: "team \<Rightarrow> lane \<Rightarrow> territory \<Rightarrow> bool" where
  "lane_finished w l target \<longleftrightarrow> t_owner target = w
     \<and> (if la_sourceId l = la_targetId l then 0 else min (jsub (t_maxUnits target) 1) 14) \<le> t_units target"

definition lane_hopeless :: "team \<Rightarrow> num \<Rightarrow> territory \<Rightarrow> bool" where
  "lane_hopeless w rate target \<longleftrightarrow> t_owner target \<noteq> w \<and> rate \<le> jadd (regeneration target) (fl (1 / 10))"

definition lane_done :: "game_state \<Rightarrow> team \<Rightarrow> num \<Rightarrow> lane \<Rightarrow> bool" where
  "lane_done s w rate l =
     (case (obj_get (g_territories s) (la_targetId l), obj_get (g_territories s) (la_sourceId l)) of
        (Some target, Some source) \<Rightarrow> lane_finished w l target \<or> lane_hopeless w rate target
      | _ \<Rightarrow> False)"

definition planned_cuts :: "game_state \<Rightarrow> lane list \<Rightarrow> team \<Rightarrow> num \<Rightarrow> lane_order list" where
  "planned_cuts s ls w rate = map (\<lambda>l. \<lparr>lo_from = la_sourceId l, lo_to = la_targetId l\<rparr>)
     (filter (lane_done s w rate) (filter (\<lambda>l. la_owner l = w) ls))"

definition cut_key :: "string \<Rightarrow> string \<Rightarrow> string" where
  "cut_key from to = from @ ''>'' @ to"

definition active_lanes :: "lane list \<Rightarrow> team \<Rightarrow> lane_order list \<Rightarrow> lane list" where
  "active_lanes ls w cuts = filter (\<lambda>l. la_owner l = w
     \<and> cut_key (la_sourceId l) (la_targetId l) \<notin> set (map (\<lambda>c. cut_key (lo_from c) (lo_to c)) cuts)) ls"

definition lane_attackers :: "lane list \<Rightarrow> team \<Rightarrow> territory \<Rightarrow> nat" where
  "lane_attackers ls w t = length (filter (\<lambda>l. la_owner l \<noteq> w \<and> la_targetId l = t_id t) ls)"

definition lanes_targeting :: "lane list \<Rightarrow> territory \<Rightarrow> nat" where
  "lanes_targeting active t = length (filter (\<lambda>l. la_targetId l = t_id t) active)"

definition has_route :: "hypot_fn \<Rightarrow> game_state \<Rightarrow> team \<Rightarrow> territory \<Rightarrow> territory \<Rightarrow> bool result" where
  "has_route hyp s w source t = rbind (findDispatchRoute hyp s (t_id source) (t_id t) w) (\<lambda>r. Inr (r \<noteq> None))"

definition already_targeted :: "lane list \<Rightarrow> territory \<Rightarrow> bool" where
  "already_targeted own t = list_ex (\<lambda>l. la_targetId l = t_id t) own"

definition cmp_units_id :: "territory \<Rightarrow> territory \<Rightarrow> num" where
  "cmp_units_id a b = cmp_or (jsub (t_units a) (t_units b)) (cmp_id a b)"

definition rescue_target ::
  "hypot_fn \<Rightarrow> game_state \<Rightarrow> lane list \<Rightarrow> lane list \<Rightarrow> lane list \<Rightarrow> team \<Rightarrow> territory list \<Rightarrow> territory
     \<Rightarrow> territory option result" where
  "rescue_target hyp s ls active own w towers source =
     rbind (filter_res (\<lambda>t. if already_targeted own t then Inr False else has_route hyp s w source t)
         (filter (\<lambda>t. t_owner t = w \<and> t_id t \<noteq> t_id source \<and> 0 < lane_attackers ls w t \<and> t_units t < 8
            \<and> 12 \<le> t_units source \<and> lanes_targeting active t = 0) towers))
       (\<lambda>ts. Inr (list_get (js_sort cmp_units_id ts) 0))"

record lane_option =
  lt_tower :: territory
  lt_score :: num

definition cmp_option :: "lane_option \<Rightarrow> lane_option \<Rightarrow> num" where
  "cmp_option a b = cmp_or (jsub (lt_score a) (lt_score b)) (cmp_id (lt_tower a) (lt_tower b))"

definition lane_score :: "hypot_fn \<Rightarrow> lane list \<Rightarrow> team \<Rightarrow> territory \<Rightarrow> territory \<Rightarrow> num" where
  "lane_score hyp ls w source t =
     jsub (jadd (jadd (t_units t) (if t_owner t = Neutral then 0 else 3))
         (jdiv (territory_distance hyp source t) 45))
       (if 0 < lane_attackers ls w t then 2 else 0)"

definition attack_option ::
  "hypot_fn \<Rightarrow> game_state \<Rightarrow> lane list \<Rightarrow> lane list \<Rightarrow> lane list \<Rightarrow> team \<Rightarrow> num \<Rightarrow> nat \<Rightarrow> territory list
     \<Rightarrow> territory \<Rightarrow> territory option result" where
  "attack_option hyp s ls active own w rate skill towers source =
     rbind (filter_res (\<lambda>t. if jadd (regeneration t) (fl (2 / 10)) < rate then has_route hyp s w source t else Inr False)
         (filter (\<lambda>t. t_owner t \<noteq> w \<and> \<not> already_targeted own t \<and> lanes_targeting active t < 2) towers))
       (\<lambda>ts. let options2 = js_sort cmp_option
                   (map (\<lambda>t. \<lparr>lt_tower = t, lt_score = lane_score hyp ls w source t\<rparr>) ts)
             in Inr (if options2 = [] then None
                     else Some (lt_tower (options2 ! min skill (length options2 - 1)))))"

definition plan_source ::
  "hypot_fn \<Rightarrow> game_state \<Rightarrow> lane list \<Rightarrow> lane list \<Rightarrow> team \<Rightarrow> num \<Rightarrow> nat \<Rightarrow> territory list \<Rightarrow> territory
     \<Rightarrow> lane_order option result" where
  "plan_source hyp s ls active w rate skill towers source =
     (let own = filter (\<lambda>l. la_sourceId l = t_id source) active in
      if maxLanes s (t_id source) \<le> length own then Inr None
      else rbind (rescue_target hyp s ls active own w towers source) (\<lambda>rescue. case rescue of
          Some t \<Rightarrow> Inr (Some \<lparr>lo_from = t_id source, lo_to = t_id t\<rparr>)
        | None \<Rightarrow> rbind (attack_option hyp s ls active own w rate skill towers source) (\<lambda>pick.
            Inr (map_option (\<lambda>t. \<lparr>lo_from = t_id source, lo_to = t_id t\<rparr>) pick))))"

definition planLanes ::
  "hypot_fn \<Rightarrow> game_state \<Rightarrow> lane_state \<Rightarrow> team \<Rightarrow> lane_plan_options \<Rightarrow> lane_orders result" where
  "planLanes hyp s lanes w opts =
     (let config = (case pl_config opts of Some c \<Rightarrow> c | None \<Rightarrow> LANE_CONFIG);
          rate = jdiv 1 (lc_emitSeconds config);
          towers = js_sort cmp_id (obj_values (g_territories s));
          cut = planned_cuts s (ls_lanes lanes) w rate;
          active = active_lanes (ls_lanes lanes) w cut;
          skill = (case pl_skill opts of Some k \<Rightarrow> k | None \<Rightarrow> 0)
      in rbind (map_res (plan_source hyp s (ls_lanes lanes) active w rate skill towers)
            (filter (\<lambda>t. t_owner t = w \<and> 4 \<le> t_units t) towers))
          (\<lambda>orders. Inr \<lparr>lo_open = List.map_filter id orders, lo_cut = cut\<rparr>))"

section \<open>The engine\<close>

definition captures_at :: "game_state \<Rightarrow> string \<times> territory \<Rightarrow> combat_result option" where
  "captures_at before e =
     (case obj_get (g_territories before) (fst e) of
        None \<Rightarrow> None
      | Some was \<Rightarrow>
          let now = snd e in
          if t_owner was = t_owner now \<or> t_owner now = Neutral then None
          else Some \<lparr>c_routeInterrupted = False, c_targetId = fst e, c_attackerOwner = t_owner now,
            c_previousOwner = t_owner was, c_newOwner = t_owner now, c_previousUnits = t_units was,
            c_incomingUnits = 1, c_remainingUnits = t_units now, c_captured = True, c_reinforced = False\<rparr>)"

definition capturesBetween :: "game_state \<Rightarrow> game_state \<Rightarrow> combat_result list" where
  "capturesBetween before after = List.map_filter (captures_at before) (g_territories after)"

record bot_schedule =
  sc_startSeconds :: num
  sc_tickSeconds :: num

record lane_engine =
  en_lanes :: lane_state
  en_nextBotSeconds :: num
  en_schedule :: bot_schedule
  en_config :: lane_config
  en_difficulty :: bot_difficulty

definition new_engine :: "bot_difficulty \<Rightarrow> lane_config \<Rightarrow> bot_schedule option \<Rightarrow> lane_engine" where
  "new_engine d config schedule =
     (let sch = (case schedule of Some x \<Rightarrow> x
            | None \<Rightarrow> \<lparr>sc_startSeconds = LANE_BOT_START_SECONDS d, sc_tickSeconds = LANE_BOT_TICK_SECONDS d\<rparr>)
      in \<lparr>en_lanes = emptyLaneState, en_nextBotSeconds = sc_startSeconds sch, en_schedule = sch,
          en_config = config, en_difficulty = d\<rparr>)"

definition apply_plan :: "hypot_fn \<Rightarrow> game_state \<Rightarrow> team \<Rightarrow> lane_orders \<Rightarrow> lane_state \<Rightarrow> lane_state result" where
  "apply_plan hyp s w p lanes =
     fold_res (\<lambda>x ls. openLane hyp s ls w (lo_from x) (lo_to x)) (lo_open p)
       (fold (\<lambda>x ls. fst (cutLane ls w (lo_from x) (lo_to x))) (lo_cut p) lanes)"

definition engine_plan :: "hypot_fn \<Rightarrow> game_state \<Rightarrow> team \<Rightarrow> lane_engine \<Rightarrow> lane_engine result" where
  "engine_plan hyp s w e =
     rbind (planLanes hyp s (en_lanes e) w \<lparr>pl_skill = None, pl_config = Some (en_config e)\<rparr>) (\<lambda>p.
       rbind (apply_plan hyp s w p (en_lanes e)) (\<lambda>ls. Inr (e\<lparr>en_lanes := ls\<rparr>)))"

record engine_step =
  es_state :: game_state
  es_accumulators :: "num obj"
  es_captures :: "combat_result list"
  es_engine :: lane_engine

definition bot_due :: "lane_engine \<Rightarrow> game_state \<Rightarrow> bool" where
  "bot_due e s \<longleftrightarrow> g_status s = Playing \<and> jsub (en_nextBotSeconds e) LANE_EPSILON \<le> g_elapsed s"

definition engineStep ::
  "hypot_fn \<Rightarrow> lane_engine \<Rightarrow> game_state \<Rightarrow> num obj \<Rightarrow> num \<Rightarrow> engine_step run" where
  "engineStep hyp e s accumulators deltaSeconds =
     run_bind (stepLaneSimulation hyp s accumulators (en_lanes e) deltaSeconds (en_config e)) (\<lambda>r.
       let e1 = e\<lparr>en_lanes := lp_lanes r\<rparr>;
           captures = capturesBetween s (lp_state r)
       in run_bind (Some (if bot_due e1 (lp_state r)
             then engine_plan hyp (lp_state r) Enemy
               (e1\<lparr>en_nextBotSeconds := jadd (en_nextBotSeconds e1) (sc_tickSeconds (en_schedule e1))\<rparr>)
             else Inr e1)) (\<lambda>e2.
         Some (Inr \<lparr>es_state = lp_state r, es_accumulators = lp_accumulators r, es_captures = captures,
           es_engine = e2\<rparr>)))"

definition engineOpen ::
  "hypot_fn \<Rightarrow> lane_engine \<Rightarrow> game_state \<Rightarrow> string \<Rightarrow> string \<Rightarrow> (lane_engine \<times> bool) result" where
  "engineOpen hyp e s sourceId targetId =
     (case obj_get (g_territories s) sourceId of
        None \<Rightarrow> Inr (e, False)
      | Some source \<Rightarrow>
          if t_owner source \<noteq> Player \<or> sourceId = targetId then Inr (e, False)
          else rbind (openLane hyp s (en_lanes e) Player sourceId targetId) (\<lambda>ls.
            Inr (e\<lparr>en_lanes := ls\<rparr>, list_ex (lane_between Player sourceId targetId) (ls_lanes ls))))"

definition engineCut :: "lane_engine \<Rightarrow> string \<Rightarrow> string \<Rightarrow> lane_engine \<times> bool" where
  "engineCut e sourceId targetId =
     (let r = cutLane (en_lanes e) Player sourceId targetId in (e\<lparr>en_lanes := fst r\<rparr>, snd r))"

record open_for =
  of_engine :: lane_engine
  of_opened :: "string list"
  of_blocked :: "string list"

definition open_one :: "hypot_fn \<Rightarrow> game_state \<Rightarrow> string \<Rightarrow> string \<Rightarrow> open_for \<Rightarrow> open_for result" where
  "open_one hyp s targetId i acc =
     rbind (engineOpen hyp (of_engine acc) s i targetId) (\<lambda>(e, ok).
       Inr (if ok then acc\<lparr>of_engine := e, of_opened := of_opened acc @ [i]\<rparr>
            else acc\<lparr>of_engine := e, of_blocked := of_blocked acc @ [i]\<rparr>))"

definition engineOpenFor :: "hypot_fn \<Rightarrow> lane_engine \<Rightarrow> game_state \<Rightarrow> string list \<Rightarrow> string \<Rightarrow> open_for result" where
  "engineOpenFor hyp e s sourceIds targetId =
     fold_res (open_one hyp s targetId) sourceIds \<lparr>of_engine = e, of_opened = [], of_blocked = []\<rparr>"

definition cutBySwipe :: "lane_engine \<Rightarrow> game_state \<Rightarrow> point \<Rightarrow> point \<Rightarrow> lane_engine \<times> lane list" where
  "cutBySwipe e s from to =
     (let crossed = lanesCrossedBySegment s (en_lanes e) Player from to
      in (fold (\<lambda>l e. fst (engineCut e (la_sourceId l) (la_targetId l))) crossed e, crossed))"

definition freePaths :: "lane_engine \<Rightarrow> game_state \<Rightarrow> string \<Rightarrow> team \<Rightarrow> int" where
  "freePaths e s towerId owner =
     max 0 (int (maxLanes s towerId) - int (length (lanes_from owner towerId (ls_lanes (en_lanes e)))))"

section \<open>The nine battles\<close>

record lane_level =
  ll_id :: nat
  ll_battlefieldId :: battlefield_id
  ll_botDifficulty :: bot_difficulty
  ll_enemy :: player_modifiers

definition LANE_MAPS :: "battlefield_id list" where
  "LANE_MAPS = [''crown_cross'', ''twin_passes'', ''royal_ring'']"

definition LANE_DIFFICULTIES :: "bot_difficulty list" where
  "LANE_DIFFICULTIES = [Easy, Normal, Hard]"

definition LANE_LEVELS :: "lane_level list" where
  "LANE_LEVELS = concat (map (\<lambda>(d, bd). map (\<lambda>(m, bf).
       \<lparr>ll_id = d * length LANE_MAPS + m + 1, ll_battlefieldId = bf, ll_botDifficulty = bd,
        ll_enemy = LANE_ENEMY_MODIFIERS bd\<rparr>) (zip [0..<length LANE_MAPS] LANE_MAPS))
     (zip [0..<length LANE_DIFFICULTIES] LANE_DIFFICULTIES))"

definition getLaneLevel :: "js_number \<Rightarrow> lane_level option" where
  "getLaneLevel i = List.find (\<lambda>l. Finite (of_nat (ll_id l)) = i) LANE_LEVELS"

section \<open>The replay of a lane battle\<close>

text \<open>The runtime value of \<open>kind\<close> may be any string.\<close>

record lane_action =
  lx_sequence :: js_number
  lx_at :: js_number
  lx_kind :: string
  lx_sourceId :: string
  lx_targetId :: string

definition MAX_LANE_ACTIONS :: nat where "MAX_LANE_ACTIONS = MAX_PVP_ACTIONS"

record lane_battle_options =
  lb_battlefieldId :: battlefield_id
  lb_botDifficulty :: bot_difficulty
  lb_enemy :: player_modifiers
  lb_actions :: "lane_action list"

record lane_battle_summary =
  lu_status :: match_status
  lu_duration :: num
  lu_actionsProcessed :: nat

record lane_battle_result =
  lz_finalState :: game_state
  lz_summary :: lane_battle_summary

fun validate_lanes_from :: "game_state \<Rightarrow> nat \<Rightarrow> num \<Rightarrow> lane_action list \<Rightarrow> unit result" where
  "validate_lanes_from s index previous [] = Inr ()"
| "validate_lanes_from s index previous (a # as) =
     (if lx_sequence a \<noteq> Finite (of_nat index) then Inl (LaneReplayError ''invalid_sequence'')
      else if lx_kind a \<noteq> ''lane'' \<and> lx_kind a \<noteq> ''cut'' then Inl (LaneReplayError ''invalid_action_kind'')
      else if \<not> valid_timestamp previous (lx_at a) then Inl (LaneReplayError ''invalid_timestamp'')
      else if obj_get (g_territories s) (lx_sourceId a) = None \<or> obj_get (g_territories s) (lx_targetId a) = None
        then Inl (LaneReplayError ''invalid_territory'')
      else validate_lanes_from s (Suc index) (finite_value (lx_at a)) as)"

definition validateLaneActions :: "lane_action list \<Rightarrow> game_state \<Rightarrow> unit result" where
  "validateLaneActions actions s =
     (if MAX_LANE_ACTIONS < length actions then Inl (LaneReplayError ''too_many_actions'')
      else validate_lanes_from s 0 0 actions)"

record lane_replay =
  lr_state :: game_state
  lr_accumulators :: "num obj"
  lr_engine :: lane_engine
  lr_tick :: nat
  lr_processed :: nat

definition lane_tick :: "hypot_fn \<Rightarrow> lane_replay \<Rightarrow> lane_replay run" where
  "lane_tick hyp r =
     run_bind (engineStep hyp (lr_engine r) (lr_state r) (lr_accumulators r) PVP_SIMULATION_TICK_SECONDS) (\<lambda>x.
       Some (Inr (r\<lparr>lr_state := es_state x, lr_accumulators := es_accumulators x, lr_engine := es_engine x,
         lr_tick := Suc (lr_tick r)\<rparr>)))"

definition stepToTick :: "hypot_fn \<Rightarrow> num \<Rightarrow> lane_replay \<Rightarrow> lane_replay run" where
  "stepToTick hyp target = while_run (\<lambda>r. g_status (lr_state r) = Playing \<and> of_nat (lr_tick r) < target) (lane_tick hyp)"

definition lane_order_applied :: "hypot_fn \<Rightarrow> lane_action \<Rightarrow> lane_replay \<Rightarrow> lane_replay result" where
  "lane_order_applied hyp a r =
     rbind (if lx_kind a = ''lane'' then engineOpen hyp (lr_engine r) (lr_state r) (lx_sourceId a) (lx_targetId a)
            else Inr (engineCut (lr_engine r) (lx_sourceId a) (lx_targetId a)))
       (\<lambda>(e, applied). Inr (r\<lparr>lr_engine := e,
          lr_processed := (if applied then Suc (lr_processed r) else lr_processed r)\<rparr>))"

fun replay_lane_actions :: "hypot_fn \<Rightarrow> lane_action list \<Rightarrow> lane_replay \<Rightarrow> lane_replay run" where
  "replay_lane_actions hyp [] r = Some (Inr r)"
| "replay_lane_actions hyp (a # as) r =
     run_bind (stepToTick hyp (target_tick (finite_value (lx_at a))) r) (\<lambda>r.
       if g_status (lr_state r) \<noteq> Playing then Some (Inr r)
       else run_bind (Some (lane_order_applied hyp a r)) (replay_lane_actions hyp as))"

definition lane_initial_options :: "lane_battle_options \<Rightarrow> initial_options" where
  "lane_initial_options opts = \<lparr>io_rules = Some LEVEL_RULES_VERSION, io_timeLimit = None,
     io_playerModifiers = Some LEVEL_PLAYER_MODIFIERS, io_enemyModifiers = Some (lb_enemy opts),
     io_battlefieldId = Some (lb_battlefieldId opts)\<rparr>"

definition final_lane_tick :: num where
  "final_lane_tick = jadd (math_ceil (jdiv PVP_TIME_LIMIT_SECONDS PVP_SIMULATION_TICK_SECONDS)) 5"

definition simulateLaneBattle :: "hypot_fn \<Rightarrow> lane_battle_options \<Rightarrow> lane_battle_result run" where
  "simulateLaneBattle hyp opts =
     run_bind (Some (createInitialGameState (lane_initial_options opts))) (\<lambda>s.
       run_bind (Some (validateLaneActions (lb_actions opts) s)) (\<lambda>_.
         run_bind (replay_lane_actions hyp (lb_actions opts) \<lparr>lr_state = s, lr_accumulators = [],
             lr_engine = new_engine (lb_botDifficulty opts) LANE_CONFIG None, lr_tick = 0, lr_processed = 0\<rparr>) (\<lambda>r.
           run_bind (stepToTick hyp final_lane_tick r) (\<lambda>r.
             Some (Inr \<lparr>lz_finalState = lr_state r,
               lz_summary = \<lparr>lu_status = (if g_status (lr_state r) = Playing then Draw else g_status (lr_state r)),
                 lu_duration = math_floor (g_elapsed (lr_state r)), lu_actionsProcessed = lr_processed r\<rparr>\<rparr>)))))"

end
