(* ===== verification/LaneFacts.thy ===== *)
theory LaneFacts
  imports LaneEngine
begin

text \<open>
  Lanes keep to the paths a tower has, their soldiers are whole units taken from the source, and a step of a
  lane battle never throws and always ends.
\<close>

section \<open>Lanes in good order\<close>

text \<open>A lane of one side, along roads of the board from its source to another tower.\<close>

definition lane_ok :: "string list \<Rightarrow> lane \<Rightarrow> bool" where
  "lane_ok ids l \<longleftrightarrow> la_owner l \<noteq> Neutral \<and> la_sourceId l \<noteq> la_targetId l \<and> set (la_routeIds l) \<subseteq> set ids
     \<and> hd (la_routeIds l) = la_sourceId l \<and> last (la_routeIds l) = la_targetId l \<and> 2 \<le> length (la_routeIds l)
     \<and> 0 \<le> la_nextEmitIn l"

definition lane_key :: "lane \<Rightarrow> team \<times> string \<times> string" where
  "lane_key l = (la_owner l, la_sourceId l, la_targetId l)"

text \<open>No tower runs more lanes of a side than its tier, and no two lanes of a side join the same towers.\<close>

definition lanes_ok :: "game_state \<Rightarrow> lane list \<Rightarrow> bool" where
  "lanes_ok s ls \<longleftrightarrow> (\<forall>w i. length (lanes_from w i ls) \<le> maxLanes s i) \<and> distinct (map lane_key ls)
     \<and> (\<forall>l\<in>set ls. lane_ok (obj_keys (g_territories s)) l)"

definition lane_state_ok :: "game_state \<Rightarrow> lane_state \<Rightarrow> bool" where
  "lane_state_ok s lanes \<longleftrightarrow> lanes_ok s (ls_lanes lanes) \<and> (\<forall>so\<in>set (ls_soldiers lanes). so_owner so \<noteq> Neutral)"

lemma lane_between_key: "lane_between w src tgt l \<longleftrightarrow> lane_key l = (w, src, tgt)"
  by (auto simp: lane_between_def lane_key_def)

lemma lanes_from_append [simp]: "lanes_from w i (ls @ ls') = lanes_from w i ls @ lanes_from w i ls'"
  by (simp add: lanes_from_def)

lemma lanes_from_filter: "length (lanes_from w i (filter P ls)) \<le> length (lanes_from w i ls)"
proof -
  have "lanes_from w i (filter P ls) = filter P (lanes_from w i ls)"
    by (simp add: lanes_from_def conj_commute)
  then show ?thesis by simp
qed

lemma lanes_ok_filter:
  assumes "lanes_ok s ls" shows "lanes_ok s (filter P ls)"
  unfolding lanes_ok_def
proof (intro conjI allI ballI)
  fix w i
  have "length (lanes_from w i ls) \<le> maxLanes s i" using assms by (simp add: lanes_ok_def)
  then show "length (lanes_from w i (filter P ls)) \<le> maxLanes s i"
    by (rule le_trans [OF lanes_from_filter])
next
  show "distinct (map lane_key (filter P ls))" using assms by (simp add: lanes_ok_def distinct_map_filter)
next
  fix l assume "l \<in> set (filter P ls)"
  then show "lane_ok (obj_keys (g_territories s)) l" using assms by (simp add: lanes_ok_def)
qed

text \<open>Lanes that differ only in the time to their next soldier.\<close>

definition same_lane :: "lane \<Rightarrow> lane \<Rightarrow> bool" where
  "same_lane l l' \<longleftrightarrow> (\<exists>x\<ge>0. l' = l\<lparr>la_nextEmitIn := x\<rparr>)"

lemma same_lane_ok: "same_lane l l' \<Longrightarrow> lane_ok ids l \<Longrightarrow> lane_ok ids l'"
  by (auto simp: same_lane_def lane_ok_def)

lemma same_lanes_ok:
  assumes "list_all2 same_lane ls ls'" "lanes_ok s ls" shows "lanes_ok s ls'"
proof -
  have "map lane_key ls' = map lane_key ls"
    using assms(1) by induction (auto simp: same_lane_def lane_key_def)
  moreover have "length (lanes_from w i ls') = length (lanes_from w i ls)" for w i
    using assms(1) unfolding lanes_from_def by induction (auto simp: same_lane_def)
  moreover have "lane_ok (obj_keys (g_territories s)) l'" if "l' \<in> set ls'" for l'
  proof -
    from that obtain k where k: "k < length ls'" "ls' ! k = l'" unfolding in_set_conv_nth by blast
    then have "same_lane (ls ! k) l'" "ls ! k \<in> set ls"
      using list_all2_nthD2 [OF assms(1) k(1)] list_all2_lengthD [OF assms(1)] by auto
    then show ?thesis using assms(2) same_lane_ok by (auto simp: lanes_ok_def)
  qed
  ultimately show ?thesis using assms(2) by (simp add: lanes_ok_def)
qed

section \<open>Opening and cutting\<close>

lemma openLane_cases:
  assumes "hypot_ok hyp" "usesTacticalRules (g_rules s)" "wf_match s" "lanes_ok s (ls_lanes lanes)" "w \<noteq> Neutral"
  obtains (kept) "openLane hyp s lanes w src tgt = Inr lanes"
      "list_ex (lane_between w src tgt) (ls_lanes lanes) \<or> maxLanes s src \<le> length (lanes_from w src (ls_lanes lanes))
        \<or> findDispatchRoute hyp s src tgt w = Inr None"
    | (opened) l where "openLane hyp s lanes w src tgt = Inr (lanes\<lparr>ls_lanes := ls_lanes lanes @ [l],
         ls_nextLaneId := Suc (ls_nextLaneId lanes)\<rparr>)"
      "lane_key l = (w, src, tgt)" "lane_ok (obj_keys (g_territories s)) l"
      "\<not> list_ex (lane_between w src tgt) (ls_lanes lanes)"
      "length (lanes_from w src (ls_lanes lanes)) < maxLanes s src"
      "findDispatchRoute hyp s src tgt w = Inr (Some (la_routeIds l))" "la_nextEmitIn l = 0"
proof -
  obtain r where r: "findDispatchRoute hyp s src tgt w = Inr r" using findDispatchRoute_total [OF assms(1)] by blast
  show thesis
  proof (cases "list_ex (lane_between w src tgt) (ls_lanes lanes)
      \<or> maxLanes s src \<le> length (lanes_from w src (ls_lanes lanes)) \<or> r = None")
    case True
    then show thesis using r by (intro kept) (auto simp: openLane_def)
  next
    case False
    then obtain ids where ids: "r = Some ids" by blast
    let ?l = "\<lparr>la_id = ''lane_'' @ nat_string (ls_nextLaneId lanes), la_owner = w, la_sourceId = src, la_targetId = tgt,
      la_routeIds = ids, la_nextEmitIn = 0\<rparr>"
    note path = findDispatchRoute_path [OF assms(1,2) r [unfolded ids]]
    obtain ts tt where towers: "obj_get (g_territories s) tgt = Some tt" "src \<noteq> tgt"
      using r [unfolded ids] by (rule findDispatchRoute_guards)
    have "set (butlast ids) \<subseteq> set (obj_keys (g_territories s))"
      using path by (auto simp: owned_tower_def dest!: obj_get_Some_key)
    moreover have "tgt \<in> set (obj_keys (g_territories s))" using obj_get_Some_key [OF towers(1)] .
    moreover have "ids = butlast ids @ [tgt]" using path by (metis append_butlast_last_id list.size(3) not_numeral_le_zero)
    ultimately have "set ids \<subseteq> set (obj_keys (g_territories s))" by (metis Un_subset_iff set_append insert_subset list.set(1,2) empty_subsetI)
    then have "lane_ok (obj_keys (g_territories s)) ?l" using path towers(2) assms(5) by (simp add: lane_ok_def)
    then show thesis using False r ids
      by (intro opened [of ?l]) (auto simp: openLane_def lane_key_def)
  qed
qed

lemma lanes_ok_open:
  assumes "lanes_ok s ls" "lane_ok (obj_keys (g_territories s)) l" "lane_key l = (w, src, tgt)"
    and "\<not> list_ex (lane_between w src tgt) ls" "length (lanes_from w src ls) < maxLanes s src"
  shows "lanes_ok s (ls @ [l])"
proof -
  have "length (lanes_from v i (ls @ [l])) \<le> maxLanes s i" for v i
    using assms(1,3,5) by (auto simp: lanes_ok_def lanes_from_def lane_key_def)
  moreover have "lane_key l \<notin> lane_key ` set ls" using assms(3,4) by (auto simp: list_ex_iff lane_between_key)
  ultimately show ?thesis using assms(1,2) by (auto simp: lanes_ok_def)
qed

lemma openLane_ok:
  assumes "hypot_ok hyp" "usesTacticalRules (g_rules s)" "wf_match s" "lane_state_ok s lanes" "w \<noteq> Neutral"
  shows "\<exists>lanes'. openLane hyp s lanes w src tgt = Inr lanes' \<and> lane_state_ok s lanes'"
proof -
  have ok: "lanes_ok s (ls_lanes lanes)" using assms(4) by (simp add: lane_state_ok_def)
  show ?thesis
  proof (rule openLane_cases [OF assms(1-3) ok assms(5), of src tgt], goal_cases)
    case 1
    then show ?thesis using assms(4) by simp
  next
    case (2 l)
    then show ?thesis using lanes_ok_open [OF ok 2(3,2,4,5)] assms(4) by (simp add: lane_state_ok_def)
  qed
qed

lemma length_filter_eq: "length (filter P xs) = length xs \<longleftrightarrow> (\<forall>x\<in>set xs. P x)"
  using length_filter_less [of _ xs P] by (metis filter_True less_irrefl)

lemma cutLane_lanes:
  "ls_lanes (fst (cutLane lanes w src tgt)) = filter (\<lambda>l. \<not> lane_between w src tgt l) (ls_lanes lanes)"
  "ls_soldiers (fst (cutLane lanes w src tgt)) = ls_soldiers lanes"
  "snd (cutLane lanes w src tgt) = list_ex (lane_between w src tgt) (ls_lanes lanes)"
  by (simp_all add: cutLane_def Let_def length_filter_eq list_ex_iff)

lemma cutLane_ok: "lane_state_ok s lanes \<Longrightarrow> lane_state_ok s (fst (cutLane lanes w src tgt))"
  by (simp add: lane_state_ok_def cutLane_lanes lanes_ok_filter)

section \<open>Boards with the same towers\<close>

text \<open>A step changes garrisons and owners only: the keys of the board and the tiers stay.\<close>

definition same_tiers :: "territory obj \<Rightarrow> territory obj \<Rightarrow> bool" where
  "same_tiers ts ts' \<longleftrightarrow> obj_keys ts' = obj_keys ts
     \<and> (\<forall>i. map_option t_tier (obj_get ts' i) = map_option t_tier (obj_get ts i))"

lemma same_tiers_refl [simp]: "same_tiers ts ts"
  by (simp add: same_tiers_def)

lemma same_tiers_trans: "same_tiers ts ts' \<Longrightarrow> same_tiers ts' ts'' \<Longrightarrow> same_tiers ts ts''"
  by (simp add: same_tiers_def)

lemma same_tiers_set:
  assumes "obj_get ts i = Some t" "t_tier t' = t_tier t" shows "same_tiers ts (obj_set i t' ts)"
  using assms obj_get_Some_key [OF assms(1)] unfolding same_tiers_def obj_keys_set by (simp add: obj_get_set)

lemma maxLanes_same: "same_tiers (g_territories s) (g_territories s') \<Longrightarrow> maxLanes s' i = maxLanes s i"
proof -
  assume "same_tiers (g_territories s) (g_territories s')"
  then have "map_option t_tier (obj_get (g_territories s') i) = map_option t_tier (obj_get (g_territories s) i)"
    by (simp add: same_tiers_def)
  then show ?thesis by (auto simp: maxLanes_def split: option.splits)
qed

lemma lanes_ok_same:
  assumes "same_tiers (g_territories s) (g_territories s')" "lanes_ok s ls" shows "lanes_ok s' ls"
proof -
  have "obj_keys (g_territories s') = obj_keys (g_territories s)" using assms(1) by (simp add: same_tiers_def)
  then show ?thesis using assms(2) maxLanes_same [OF assms(1)] by (simp add: lanes_ok_def)
qed

lemma arrive_tiers:
  assumes "obj_get (sw_territories w) (a_targetId m) = Some target"
  shows "same_tiers (sw_territories w) (sw_territories (arrive s nowMs m target w))"
  using same_tiers_set [OF assms] by (simp add: arrive_def Let_def)

lemma move_army_tiers:
  "move_army hyp s nowMs delta m w = Inr w' \<Longrightarrow> same_tiers (sw_territories w) (sw_territories w')"
  using arrive_tiers by (auto simp: move_army_def rbind_eq_Inr split: option.splits if_splits)

lemma produced_tier [simp]: "t_tier (produced_territory delta pm i t a) = t_tier t"
  by (simp add: produced_territory_def)

lemma step_production_tiers:
  assumes "distinct (obj_keys (sw_territories w))"
  shows "same_tiers (sw_territories w) (gr_territories (step_production e delta w))"
  unfolding same_tiers_def step_production_def tickUnitGeneration_eq [OF assms]
  by (simp add: obj_simps option.map_comp comp_def)

lemma stepSimulation_tiers:
  assumes "wf_state s accs" "0 \<le> delta" "stepSimulation hyp s accs delta = Inr r"
  shows "same_tiers (g_territories s) (g_territories (sr_state r))"
proof (cases "g_status s = Playing")
  case True
  then obtain w where w: "stepSimulation hyp s accs delta = Inr (step_finish s (step_elapsed s delta) delta w)"
    "work_ok (obj_keys (g_territories s)) w"
    "fold_res (move_army hyp s (step_now s delta) delta) (g_armies s) (step_start s accs (step_elapsed s delta)) = Inr w"
    using stepSimulation_Inr [OF assms(1,2) True] by blast
  have "same_tiers (g_territories s) (sw_territories (step_start s accs (step_elapsed s delta)))"
    by (simp add: step_start_def)
  then have moved: "same_tiers (g_territories s) (sw_territories w)"
    by (rule fold_res_invariant [OF w(3)]) (blast intro: same_tiers_trans move_army_tiers)
  have d: "distinct (obj_keys (sw_territories w))" using w(2) unfolding work_ok_def wf_board_def by blast
  have "r = step_finish s (step_elapsed s delta) delta w" using assms(3) w(1) by (metis Inr_inject)
  then have "g_territories (sr_state r) = gr_territories (step_production (step_elapsed s delta) delta w)"
    by (simp add: step_finish_def Let_def)
  then show ?thesis using same_tiers_trans [OF moved step_production_tiers [OF d]] by simp
qed (use assms(3) in \<open>auto simp: stepSimulation_def\<close>)

section \<open>Soldiers in flight\<close>

definition fly_ok :: "territory obj \<Rightarrow> soldier_work \<Rightarrow> bool" where
  "fly_ok ts w \<longleftrightarrow> wf_board (fw_territories w) \<and> same_tiers ts (fw_territories w)
     \<and> (\<forall>so\<in>set (fw_flying w). so_owner so \<noteq> Neutral)"

lemma write_tower_ok:
  assumes "wf_board ts'" "same_tiers ts ts'" "obj_get ts' i = Some t"
    and "t_units t' \<in> \<nat>" "t_id t' = t_id t" "t_maxUnits t' = t_maxUnits t" "t_tier t' = t_tier t"
  shows "wf_board (obj_set i t' ts') \<and> same_tiers ts (obj_set i t' ts')"
proof -
  have "wf_tower i t'" using wf_boardD [OF assms(1,3)] assms(4-6) by (simp add: wf_tower_def)
  then show ?thesis using wf_board_set [OF assms(1)] same_tiers_trans [OF assms(2) same_tiers_set [OF assms(3,7)]] by blast
qed

lemma Nats_pred: "u \<in> \<nat> \<Longrightarrow> 0 < u \<Longrightarrow> jsub u 1 \<in> (\<nat> :: num set)"
proof -
  assume "u \<in> \<nat>" "0 < u"
  then have "u - 1 \<in> \<int>" "0 \<le> u - 1" by (auto elim!: Nats_cases)
  then show ?thesis by (intro fl_Nats) (simp add: Nats_iff)
qed

lemma soldier_arrives_ok:
  assumes "fly_ok ts w" "obj_get (fw_territories w) (so_targetId so) = Some target"
  shows "fly_ok ts (soldier_arrives so target w)"
proof -
  have board: "wf_board (fw_territories w)" "same_tiers ts (fw_territories w)" using assms(1) by (simp_all add: fly_ok_def)
  have nat: "t_units target \<in> \<nat>" "t_maxUnits target \<in> \<nat>"
    using wf_boardD [OF board(1) assms(2)] by (simp_all add: wf_tower_def)
  have "jadd (t_units target) 1 \<in> \<nat>" by (rule fl_Nats) (simp add: nat)
  then have units: "min (t_maxUnits target) (jadd (t_units target) 1) \<in> \<nat>" using nat(2) by (simp add: min_def)
  note pred = Nats_pred [OF nat(1)]
  note written = write_tower_ok [OF board assms(2)]
  have friend: "wf_board (obj_set (so_targetId so) (target\<lparr>t_units := min (t_maxUnits target) (jadd (t_units target) 1)\<rparr>) (fw_territories w))
      \<and> same_tiers ts (obj_set (so_targetId so) (target\<lparr>t_units := min (t_maxUnits target) (jadd (t_units target) 1)\<rparr>) (fw_territories w))"
    by (rule written) (simp_all add: units)
  have hit: "wf_board (obj_set (so_targetId so) (target\<lparr>t_units := jsub (t_units target) 1\<rparr>) (fw_territories w))
      \<and> same_tiers ts (obj_set (so_targetId so) (target\<lparr>t_units := jsub (t_units target) 1\<rparr>) (fw_territories w))"
    if "0 < t_units target"
    by (rule written) (simp_all add: pred that)
  have taken: "wf_board (obj_set (so_targetId so) (target\<lparr>t_owner := so_owner so, t_units := 1\<rparr>) (fw_territories w))
      \<and> same_tiers ts (obj_set (so_targetId so) (target\<lparr>t_owner := so_owner so, t_units := 1\<rparr>) (fw_territories w))"
    by (rule written) simp_all
  show ?thesis using assms(1) friend hit taken by (simp add: soldier_arrives_def fly_ok_def)
qed

lemma move_soldier_ok:
  assumes "fly_ok ts w" "so_owner so \<noteq> Neutral" shows "fly_ok ts (move_soldier delta so w)"
proof (cases "LANE_EPSILON < jsub (so_remaining so) delta")
  case True
  then show ?thesis using assms by (simp add: move_soldier_def fly_ok_def)
next
  case False
  then show ?thesis using assms soldier_arrives_ok [OF assms(1)] by (auto simp: move_soldier_def split: option.splits)
qed

lemma soldiers_fly_ok:
  assumes "wf_board (g_territories s)" "\<forall>so\<in>set sos. so_owner so \<noteq> Neutral"
  shows "fly_ok (g_territories s) (soldiers_fly delta sos s)"
proof -
  have fold: "fly_ok ts w \<Longrightarrow> fly_ok ts (fold (move_soldier delta) sos w)" for ts w
    using assms(2) by (induction sos arbitrary: w) (simp_all add: move_soldier_ok)
  show ?thesis unfolding soldiers_fly_def by (rule fold) (simp add: fly_ok_def assms(1))
qed

section \<open>Soldiers leaving\<close>

lemma LANE_EPSILON_bounds: "0 < LANE_EPSILON" "LANE_EPSILON \<le> 1 / 2"
  unfolding LANE_EPSILON_def by (simp, intro fl_le_double) simp_all

text \<open>A configuration whose emission interval is between a tenth of a second and ten seconds.\<close>

definition lane_config_ok :: "lane_config \<Rightarrow> bool" where
  "lane_config_ok config \<longleftrightarrow> 1 / 10 \<le> lc_emitSeconds config \<and> lc_emitSeconds config \<le> 10"

lemma LANE_CONFIG_ok: "lane_config_ok LANE_CONFIG"
proof -
  have "\<bar>fl (2 / 10) - 2 / 10\<bar> \<le> 1 / 10" by (rule fl_near_within [of _ 1]) simp_all
  then have "1 / 10 \<le> fl (2 / 10)" "fl (2 / 10) \<le> 10" by linarith+
  then show ?thesis unfolding lane_config_ok_def LANE_CONFIG_def by simp
qed

lemma route_length_total:
  "set ids \<subseteq> set (obj_keys ts) \<Longrightarrow> \<exists>l. route_length hyp ts ids acc = Inr l"
proof (induction ids arbitrary: acc rule: induct_list012)
  case (3 i j ids)
  then obtain a b where "obj_get ts i = Some a" "obj_get ts j = Some b"
    using obj_get_ex [of i ts] obj_get_ex [of j ts] by auto
  then show ?case using 3 by simp
qed simp_all

lemma routeSeconds_total:
  "set ids \<subseteq> set (obj_keys (g_territories s)) \<Longrightarrow> \<exists>x. routeSeconds hyp s ids config = Inr x"
  using route_length_total [of ids "g_territories s" hyp 0] by (auto simp: routeSeconds_def)

lemma fl_error_abs: "\<bar>fl x - x\<bar> \<le> \<bar>x\<bar> / 2 ^ 53"
proof (cases "0 \<le> x")
  case True
  then show ?thesis using fl_error [of x] by (cases "x = 0") simp_all
next
  case False
  then have "\<bar>fl (- x) - (- x)\<bar> \<le> - x / 2 ^ 53" using fl_error [of "- x"] by simp
  then show ?thesis using False by (simp add: abs_le_iff)
qed

lemma emission_wait:
  assumes "- 11 \<le> wait" "wait \<le> LANE_EPSILON" "1 / 10 \<le> d" "d \<le> 10"
  shows "wait + 1 / 100 \<le> jadd wait d"
proof -
  have "\<bar>wait + d\<bar> \<le> 21" using assms LANE_EPSILON_bounds by linarith
  then have "\<bar>wait + d\<bar> / 2 ^ 53 \<le> 1 / 1000" by simp
  then have "\<bar>fl (wait + d) - (wait + d)\<bar> \<le> 1 / 1000" by (rule order_trans [OF fl_error_abs])
  then show ?thesis using assms(3) by linarith
qed

text \<open>
  The loop's invariant: soldiers are appended one at a time, each taken from the garrison, which stays at one
  unit or more; the emission times never pass below the start.
\<close>

definition emit_inv :: "lane \<Rightarrow> num \<Rightarrow> emit_work \<Rightarrow> emit_work \<Rightarrow> bool" where
  "emit_inv l x w0 w \<longleftrightarrow> ew_units w \<in> \<nat> \<and> - 11 \<le> ew_wait w \<and> (1 \<le> ew_units w0 \<longrightarrow> 1 \<le> ew_units w)
     \<and> (\<exists>n. ew_emitted w = ew_emitted w0 @ replicate n (new_soldier l x)
          \<and> (ew_units w0 \<le> 2 ^ 53 \<longrightarrow> ew_units w = ew_units w0 - of_nat n))
     \<and> (ew_stopped w \<longrightarrow> 0 \<le> ew_wait w)"

lemma emit_body_ok:
  assumes inv: "emit_inv l x w0 w" and on: "emit_goes_on w" and config: "lane_config_ok config"
    and x: "routeSeconds hyp s (la_routeIds l) config = Inr x"
  shows "\<exists>w'. emit_body hyp s config l w = Inr w' \<and> emit_inv l x w0 w' \<and> ew_wait w + 1 / 100 \<le> ew_wait w'"
proof -
  let ?d = "lc_emitSeconds config"
  have w: "ew_units w \<in> \<nat>" "- 11 \<le> ew_wait w" "ew_wait w \<le> LANE_EPSILON" "\<not> ew_stopped w"
    "1 \<le> ew_units w0 \<Longrightarrow> 1 \<le> ew_units w"
    using inv on by (auto simp: emit_inv_def emit_goes_on_def)
  obtain n where n: "ew_emitted w = ew_emitted w0 @ replicate n (new_soldier l x)"
    "ew_units w0 \<le> 2 ^ 53 \<Longrightarrow> ew_units w = ew_units w0 - of_nat n"
    using inv by (auto simp: emit_inv_def)
  have gain: "ew_wait w + 1 / 100 \<le> jadd (ew_wait w) ?d"
    by (rule emission_wait) (use w config in \<open>simp_all add: lane_config_ok_def\<close>)
  have d: "0 \<le> ?d" using config by (simp add: lane_config_ok_def)
  show ?thesis
  proof (cases "1 < ew_units w")
    case True
    let ?w = "w\<lparr>ew_units := jsub (ew_units w) 1, ew_emitted := ew_emitted w @ [new_soldier l x],
      ew_stats := count_soldier (la_owner l) (ew_stats w)\<rparr>"
    have pred: "jsub (ew_units w) 1 \<in> \<nat>" "1 \<le> jsub (ew_units w) 1"
    proof -
      show "jsub (ew_units w) 1 \<in> \<nat>" using Nats_pred [OF w(1)] True by simp
      have "2 \<le> ew_units w" using True w(1) by (auto elim!: Nats_cases)
      then show "1 \<le> jsub (ew_units w) 1" by (intro fl_ge_double) simp_all
    qed
    have exact: "jsub (ew_units w) 1 = ew_units w0 - of_nat (Suc n)" if "ew_units w0 \<le> 2 ^ 53"
    proof -
      have "ew_units w - 1 \<in> \<int>" "\<bar>ew_units w - 1\<bar> \<le> 2 ^ 53" using w(1) True n(2) that by (auto simp: Nats_iff)
      then show ?thesis using n(2) [OF that] by (simp add: fl_Ints_exact)
    qed
    have "ew_emitted ?w = ew_emitted w0 @ replicate (Suc n) (new_soldier l x)"
      using n(1) by (simp flip: replicate_append_same)
    then have inv': "emit_inv l x w0 (?w\<lparr>ew_wait := y, ew_stopped := b\<rparr>)" if "-11 \<le> y" "0 \<le> y \<or> \<not> b" for y b
      unfolding emit_inv_def using pred exact that by (auto intro!: exI [of _ "Suc n"])
    have "emit_body hyp s config l w = Inr (if jsub (ew_units w) 1 \<le> 1
        then ?w\<lparr>ew_wait := max (jadd (ew_wait w) ?d) ?d, ew_stopped := True\<rparr>
        else ?w\<lparr>ew_wait := jadd (ew_wait w) ?d, ew_stopped := ew_stopped w\<rparr>)"
      using True x by (simp add: emit_body_def emit_soldier_def Let_def)
    moreover have "- 11 \<le> jadd (ew_wait w) ?d" using gain w(2) by linarith
    moreover have "- 11 \<le> max (jadd (ew_wait w) ?d) ?d" "0 \<le> max (jadd (ew_wait w) ?d) ?d" using d by auto
    moreover have "ew_wait w + 1 / 100 \<le> max (jadd (ew_wait w) ?d) ?d" using gain by simp
    ultimately show ?thesis using inv' gain w(4) by auto
  next
    case False
    then have "emit_body hyp s config l w = Inr (w\<lparr>ew_wait := max (jadd (ew_wait w) ?d) ?d, ew_stopped := True\<rparr>)"
      by (simp add: emit_body_def emit_soldier_def Let_def)
    moreover have "emit_inv l x w0 (w\<lparr>ew_wait := max (jadd (ew_wait w) ?d) ?d, ew_stopped := True\<rparr>)"
      unfolding emit_inv_def using w n d by (auto intro!: exI [of _ n])
    ultimately show ?thesis using gain by (auto simp: max_def)
  qed
qed

interpretation emission: terminating_loop emit_goes_on "\<lambda>w. Some (emit_body hyp s config l w)"
    "\<lambda>w. emit_inv l x w0 w \<and> lane_config_ok config \<and> routeSeconds hyp s (la_routeIds l) config = Inr x"
    "\<lambda>w. nat \<lceil>100 * (1 - ew_wait w)\<rceil>" for hyp s config l x w0
proof unfold_locales
  fix w
  assume w: "emit_inv l x w0 w \<and> lane_config_ok config \<and> routeSeconds hyp s (la_routeIds l) config = Inr x"
    and on: "emit_goes_on w"
  obtain w' where w': "emit_body hyp s config l w = Inr w'" "emit_inv l x w0 w'" "ew_wait w + 1 / 100 \<le> ew_wait w'"
    using emit_body_ok [OF _ on] w by blast
  have "ew_wait w < 1" using on LANE_EPSILON_bounds by (simp add: emit_goes_on_def)
  then have "nat \<lceil>100 * (1 - ew_wait w')\<rceil> < nat \<lceil>100 * (1 - ew_wait w)\<rceil>"
    by (intro nat_ceiling_decreases) (use w'(3) in simp_all)
  then show "\<exists>w'. Some (emit_body hyp s config l w) = Some (Inr w')
      \<and> (emit_inv l x w0 w' \<and> lane_config_ok config \<and> routeSeconds hyp s (la_routeIds l) config = Inr x)
      \<and> nat \<lceil>100 * (1 - ew_wait w')\<rceil> < nat \<lceil>100 * (1 - ew_wait w)\<rceil>"
    using w w' by blast
qed

lemma emit_loop_ok:
  assumes "ew_units w \<in> \<nat>" "- 11 \<le> ew_wait w" "\<not> ew_stopped w" "lane_config_ok config"
    and "routeSeconds hyp s (la_routeIds l) config = Inr x"
  shows "\<exists>w'. emit_loop hyp s config l w = Some (Inr w') \<and> emit_inv l x w w' \<and> 0 \<le> ew_wait w'"
proof -
  have start: "emit_inv l x w w"
    using assms(1-3) unfolding emit_inv_def by (auto intro!: exI [of _ 0])
  then obtain w' where w': "while_res emit_goes_on (emit_body hyp s config l) w = Some (Inr w')" "emit_inv l x w w'"
    "\<not> emit_goes_on w'"
    using emission.loop_returns [of l x w w config hyp s] assms(4,5) unfolding while_res_def by blast
  have "0 \<le> ew_wait w'" using w'(2,3) LANE_EPSILON_bounds(1) by (auto simp: emit_goes_on_def emit_inv_def)
  then show ?thesis using w' by (auto simp: emit_loop_def)
qed

text \<open>A loop over an array keeps an invariant that speaks of the elements already handled.\<close>

lemma fold_run_returns:
  assumes "I [] s" and "\<And>ys x s. x \<in> set xs \<Longrightarrow> I ys s \<Longrightarrow> \<exists>s'. f x s = Some (Inr s') \<and> I (ys @ [x]) s'"
  shows "\<exists>s'. fold_run f xs s = Some (Inr s') \<and> I xs s'"
proof -
  have "\<exists>s'. fold_run f zs s = Some (Inr s') \<and> I (ys @ zs) s'" if "I ys s" "set zs \<subseteq> set xs" for ys zs s
    using that
  proof (induction zs arbitrary: ys s)
    case (Cons x zs)
    then obtain s1 where "f x s = Some (Inr s1)" "I (ys @ [x]) s1" using assms(2) by force
    then show ?case using Cons.IH [of "ys @ [x]" s1] Cons.prems(2) by simp
  qed simp
  from this [of "[]" s xs] assms(1) show ?thesis by simp
qed

definition lanes_work_ok :: "territory obj \<Rightarrow> lanes_work \<Rightarrow> bool" where
  "lanes_work_ok ts w \<longleftrightarrow> wf_board (lw_territories w) \<and> same_tiers ts (lw_territories w)
     \<and> (\<forall>so\<in>set (lw_emitted w). so_owner so \<noteq> Neutral)"

lemma start_wait:
  assumes "0 \<le> x" "delta \<le> 10" shows "- 11 \<le> jsub x delta"
proof -
  have "is_double (- 10)" using is_double_numeral [of "num.Bit0 (num.Bit1 (num.Bit0 num.One))"] by simp
  then have "- 10 \<le> jsub x delta" using assms by (intro fl_ge_double) simp_all
  then show ?thesis by simp
qed

text \<open>
  One lane of a step: the garrison of its source loses as many units as soldiers leave, and keeps at least one
  of those it had.
\<close>

lemma emit_lane_ok:
  assumes "lanes_work_ok ts w" "lane_ok (obj_keys ts) l" "delta \<le> 10" "lane_config_ok config"
    and "obj_keys (g_territories s) = obj_keys ts"
  shows "\<exists>w' l' n x source. emit_lane hyp s config delta l w = Some (Inr w') \<and> lanes_work_ok ts w'
    \<and> lw_lanes w' = lw_lanes w @ [l'] \<and> same_lane l l' \<and> obj_get (lw_territories w) (la_sourceId l) = Some source
    \<and> lw_emitted w' = lw_emitted w @ replicate n (new_soldier l x)
    \<and> (\<exists>u. lw_territories w' = obj_set (la_sourceId l) (source\<lparr>t_units := u\<rparr>) (lw_territories w)
        \<and> (1 \<le> t_units source \<longrightarrow> 1 \<le> u) \<and> (t_units source \<le> 2 ^ 53 \<longrightarrow> u = t_units source - of_nat n))"
proof -
  have board: "wf_board (lw_territories w)" "same_tiers ts (lw_territories w)" using assms(1) by (simp_all add: lanes_work_ok_def)
  have route: "set (la_routeIds l) \<subseteq> set (obj_keys ts)" "hd (la_routeIds l) = la_sourceId l" "2 \<le> length (la_routeIds l)"
    "la_owner l \<noteq> Neutral" "0 \<le> la_nextEmitIn l" using assms(2) by (simp_all add: lane_ok_def)
  then have "la_sourceId l \<in> set (obj_keys ts)" by (metis hd_in_set list.size(3) not_numeral_le_zero subsetD)
  then have "la_sourceId l \<in> set (obj_keys (lw_territories w))" using board(2) by (simp only: same_tiers_def)
  then obtain source where source: "obj_get (lw_territories w) (la_sourceId l) = Some source" using obj_get_ex by blast
  have nat: "t_units source \<in> \<nat>" using wf_boardD [OF board(1) source] by (simp add: wf_tower_def)
  obtain x where x: "routeSeconds hyp s (la_routeIds l) config = Inr x"
    using routeSeconds_total route(1) assms(5) by metis
  let ?e = "emit_start l delta source w"
  have "ew_units ?e \<in> \<nat>" "- 11 \<le> ew_wait ?e" "\<not> ew_stopped ?e"
    using nat start_wait [OF route(5) assms(3)] by (simp_all add: emit_start_def)
  then obtain e where e: "emit_loop hyp s config l ?e = Some (Inr e)" "emit_inv l x ?e e" "0 \<le> ew_wait e"
    using emit_loop_ok assms(4) x by blast
  obtain n where n: "ew_emitted e = lw_emitted w @ replicate n (new_soldier l x)"
    "t_units source \<le> 2 ^ 53 \<longrightarrow> ew_units e = t_units source - of_nat n" "ew_units e \<in> \<nat>"
    "1 \<le> t_units source \<longrightarrow> 1 \<le> ew_units e" using e(2) by (auto simp: emit_inv_def emit_start_def)
  let ?w = "\<lparr>lw_territories = obj_set (la_sourceId l) (source\<lparr>t_units := ew_units e\<rparr>) (lw_territories w),
      lw_stats = ew_stats e, lw_emitted = ew_emitted e, lw_lanes = lw_lanes w @ [l\<lparr>la_nextEmitIn := ew_wait e\<rparr>]\<rparr>"
  have run: "emit_lane hyp s config delta l w = Some (Inr ?w)" using source e(1) by (simp add: emit_lane_def)
  have owners: "\<forall>so\<in>set (ew_emitted e). so_owner so \<noteq> Neutral"
    using assms(1) route(4) by (auto simp: lanes_work_ok_def n(1) new_soldier_def)
  have ok: "lanes_work_ok ts ?w"
    using write_tower_ok [OF board source, of "source\<lparr>t_units := ew_units e\<rparr>"] n(3) owners by (simp add: lanes_work_ok_def)
  have same: "same_lane l (l\<lparr>la_nextEmitIn := ew_wait e\<rparr>)" using e(3) by (auto simp: same_lane_def)
  show ?thesis
    by (rule exI [of _ ?w], rule exI [of _ "l\<lparr>la_nextEmitIn := ew_wait e\<rparr>"], rule exI [of _ n], rule exI [of _ x],
        rule exI [of _ source]) (use run ok same source n in auto)
qed

lemma emit_lanes_ok:
  assumes "lanes_work_ok ts w" "lw_lanes w = []" "\<forall>l\<in>set ls. lane_ok (obj_keys ts) l" "delta \<le> 10" "lane_config_ok config"
    and "obj_keys (g_territories s) = obj_keys ts"
  shows "\<exists>w'. fold_run (emit_lane hyp s config delta) ls w = Some (Inr w') \<and> lanes_work_ok ts w'
    \<and> list_all2 same_lane ls (lw_lanes w')"
  by (rule fold_run_returns [where I = "\<lambda>ys w. lanes_work_ok ts w \<and> list_all2 same_lane ys (lw_lanes w)"])
     (use assms emit_lane_ok [of ts _ _ delta config s hyp] in
       \<open>simp, metis list_all2_appendI list.rel_intros(1) list.rel_intros(2)\<close>)

section \<open>The step\<close>

text \<open>A battle in good order, and what a step keeps of it besides its order.\<close>

lemma stepLaneSimulation_ok:
  assumes "pvp_ok v s accs" "lane_state_ok s lanes" "0 \<le> delta" "delta \<le> 10" "lane_config_ok config"
  shows "\<exists>r. stepLaneSimulation hyp s accs lanes delta config = Some (Inr r)
    \<and> pvp_ok v (lp_state r) (lp_accumulators r) \<and> lane_state_ok (lp_state r) (lp_lanes r)
    \<and> same_tiers (g_territories s) (g_territories (lp_state r))
    \<and> (g_status s = Playing \<longrightarrow> g_elapsed (lp_state r) = step_elapsed s delta)
    \<and> (g_status s \<noteq> Playing \<longrightarrow> lp_state r = s)
    \<and> (g_status (lp_state r) = Playing \<longrightarrow> g_elapsed (lp_state r) < g_timeLimit s
        \<and> (\<forall>w\<in>{Player, Enemy}. owned_towers w (g_territories (lp_state r)) \<noteq> []
            \<or> (\<exists>so\<in>set (ls_soldiers (lp_lanes r)). so_owner so = w)))"
proof -
  obtain st where st: "stepSimulation hyp s accs delta = Inr st" "pvp_ok v (sr_state st) (sr_accumulators st)"
    using pvp_ok_step [OF assms(1,3)] by blast
  have wf: "wf_state s accs" using assms(1) by (simp add: pvp_ok_def)
  note frame = step_frame [OF wf assms(3) st(1)] and tiers = stepSimulation_tiers [OF wf assms(3) st(1)]
  have lanes: "lanes_ok (sr_state st) (ls_lanes lanes)" "\<forall>so\<in>set (ls_soldiers lanes). so_owner so \<noteq> Neutral"
    using assms(2) lanes_ok_same [OF tiers] by (simp_all add: lane_state_ok_def)
  show ?thesis
  proof (cases "g_status (sr_state st) = Playing")
    case False
    have "lane_state_ok (sr_state st) lanes" using lanes by (simp add: lane_state_ok_def)
    then show ?thesis using False st tiers frame by (simp add: stepLaneSimulation_def)
  next
    case True
    let ?s = "sr_state st"
    let ?f = "soldiers_fly delta (ls_soldiers lanes) ?s"
    let ?w = "\<lparr>lw_territories = fw_territories ?f, lw_stats = fw_stats ?f, lw_emitted = [], lw_lanes = []\<rparr>"
    have board: "wf_board (g_territories ?s)" using st(2) by (simp add: pvp_ok_def wf_match_def)
    have fly: "fly_ok (g_territories ?s) ?f" by (rule soldiers_fly_ok [OF board lanes(2)])
    then have work: "lanes_work_ok (g_territories ?s) ?w" by (simp add: fly_ok_def lanes_work_ok_def)
    define live where "live = pruneDeadLanes (fw_territories ?f) (ls_lanes lanes)"
    have live_ok: "lanes_ok ?s live" using lanes_ok_filter [OF lanes(1)] by (simp add: live_def pruneDeadLanes_def)
    then have "\<forall>l\<in>set live. lane_ok (obj_keys (g_territories ?s)) l" by (simp add: lanes_ok_def)
    from emit_lanes_ok [OF work _ this assms(4,5) refl, of hyp]
    obtain w where w: "fold_run (emit_lane hyp ?s config delta) live ?w = Some (Inr w)"
      "lanes_work_ok (g_territories ?s) w" "list_all2 same_lane live (lw_lanes w)" by auto
    define sos where "sos = fw_flying ?f @ lw_emitted w"
    define s' where "s' = ?s\<lparr>g_territories := lw_territories w, g_stats := lw_stats w,
      g_status := lane_verdict (g_status ?s) (lw_territories w) sos\<rparr>"
    have run: "stepLaneSimulation hyp s accs lanes delta config = Some (Inr \<lparr>lp_state = s',
        lp_accumulators = sr_accumulators st, lp_lanes = lanes\<lparr>ls_lanes := lw_lanes w, ls_soldiers := sos\<rparr>\<rparr>)"
      using True st(1) w(1) by (simp add: stepLaneSimulation_def s'_def sos_def live_def Let_def)
    have tiers': "same_tiers (g_territories ?s) (g_territories s')" "wf_board (g_territories s')"
      using w(2) by (simp_all add: lanes_work_ok_def s'_def)
    then have keys: "obj_keys (g_territories s') = obj_keys (g_territories ?s)" by (simp only: same_tiers_def)
    have other: "g_armies s' = g_armies ?s" "g_battlefieldId s' = g_battlefieldId ?s" "g_rules s' = g_rules ?s"
      "g_timeLimit s' = g_timeLimit ?s" "g_elapsed s' = g_elapsed ?s" by (simp_all add: s'_def)
    have "pvp_ok v s' (sr_accumulators st)"
      using st(2) tiers'(2) unfolding pvp_ok_def wf_state_def wf_match_def keys other by blast
    moreover have "lane_state_ok s' (lanes\<lparr>ls_lanes := lw_lanes w, ls_soldiers := sos\<rparr>)"
      using lanes_ok_same [OF tiers'(1) same_lanes_ok [OF w(3) live_ok]] fly w(2)
      by (auto simp: lane_state_ok_def sos_def fly_ok_def lanes_work_ok_def)
    moreover have "same_tiers (g_territories s) (g_territories s')" by (rule same_tiers_trans [OF tiers tiers'(1)])
    moreover have "g_status s = Playing" using True frame(5) by (cases "g_status s = Playing") auto
    moreover have "g_status s' = Playing \<Longrightarrow> owned_towers x (g_territories s') \<noteq> [] \<or> (\<exists>so\<in>set sos. so_owner so = x)"
      if "x \<in> {Player, Enemy}" for x
      using that by (auto simp: s'_def lane_verdict_def filter_empty_conv split: if_splits)
    ultimately show ?thesis using run frame(4,6) True other by simp
  qed
qed

end
