(* ===== verification/LaneBattle.thy ===== *)
theory LaneBattle
  imports LaneFacts
begin

text \<open>
  The bot's plans are carried out as planned, the engine keeps its lanes in order, and the replay of a lane
  battle returns with a verdict.
\<close>

section \<open>Plans\<close>

lemma has_route_total: "hypot_ok hyp \<Longrightarrow> \<exists>b. has_route hyp s w source t = Inr b"
  using findDispatchRoute_total [of hyp s "t_id source" "t_id t" w] by (auto simp: has_route_def)

lemma has_route_True:
  assumes "has_route hyp s w source t = Inr True"
  obtains ids where "findDispatchRoute hyp s (t_id source) (t_id t) w = Inr (Some ids)"
  using assms by (auto simp: has_route_def rbind_eq_Inr)

lemma filter_res_sound: "filter_res p xs = Inr ys \<Longrightarrow> y \<in> set ys \<Longrightarrow> y \<in> set xs \<and> p y = Inr True"
  by (induction xs arbitrary: ys) (fastforce simp: rbind_eq_Inr split: if_splits)+

lemma list_get_mem: "list_get xs i = Some x \<Longrightarrow> x \<in> set xs"
  by (auto simp: list_get_def split: if_splits)

lemma rescue_target_ok:
  assumes "hypot_ok hyp"
  shows "\<exists>r. rescue_target hyp s ls active own w towers source = Inr r
    \<and> (\<forall>t. r = Some t \<longrightarrow> t \<in> set towers \<and> t_owner t = w \<and> \<not> already_targeted own t \<and> has_route hyp s w source t = Inr True)"
proof -
  define p where "p = (\<lambda>t. if already_targeted own t then Inr False else has_route hyp s w source t)"
  define xs where "xs = filter (\<lambda>t. t_owner t = w \<and> t_id t \<noteq> t_id source \<and> 0 < lane_attackers ls w t \<and> t_units t < 8
      \<and> 12 \<le> t_units source \<and> lanes_targeting active t = 0) towers"
  have "\<exists>b. p t = Inr b" for t using has_route_total [OF assms, of s w source t] by (auto simp: p_def)
  then have "\<exists>ys. filter_res p xs = Inr ys" by (rule filter_res_total)
  then obtain ys where ys: "filter_res p xs = Inr ys" by blast
  have "t \<in> set towers \<and> t_owner t = w \<and> \<not> already_targeted own t \<and> has_route hyp s w source t = Inr True"
    if "list_get (js_sort cmp_units_id ys) 0 = Some t" for t
    using filter_res_sound [OF ys, of t] list_get_mem [OF that] by (auto simp: p_def xs_def split: if_splits)
  then show ?thesis using ys by (simp add: rescue_target_def p_def [symmetric] xs_def [symmetric])
qed

lemma attack_option_ok:
  assumes "hypot_ok hyp"
  shows "\<exists>r. attack_option hyp s ls active own w rate skill towers source = Inr r
    \<and> (\<forall>t. r = Some t \<longrightarrow> t \<in> set towers \<and> t_owner t \<noteq> w \<and> \<not> already_targeted own t \<and> has_route hyp s w source t = Inr True)"
proof -
  define p where "p = (\<lambda>t. if jadd (regeneration t) (fl (2 / 10)) < rate then has_route hyp s w source t else Inr False)"
  define xs where "xs = filter (\<lambda>t. t_owner t \<noteq> w \<and> \<not> already_targeted own t \<and> lanes_targeting active t < 2) towers"
  have "\<exists>b. p t = Inr b" for t using has_route_total [OF assms, of s w source t] by (auto simp: p_def)
  then have "\<exists>ys. filter_res p xs = Inr ys" by (rule filter_res_total)
  then obtain ys where ys: "filter_res p xs = Inr ys" by blast
  define os where "os = js_sort cmp_option (map (\<lambda>t. \<lparr>lt_tower = t, lt_score = lane_score hyp ls w source t\<rparr>) ys)"
  have picked: "lt_tower (os ! k) \<in> set towers \<and> t_owner (lt_tower (os ! k)) \<noteq> w \<and> \<not> already_targeted own (lt_tower (os ! k))
      \<and> has_route hyp s w source (lt_tower (os ! k)) = Inr True" if "k < length os" for k
  proof -
    have "os ! k \<in> set os" using that by simp
    then have "lt_tower (os ! k) \<in> set ys" by (auto simp: os_def)
    from filter_res_sound [OF ys this] show ?thesis by (auto simp: p_def xs_def split: if_splits)
  qed
  have "attack_option hyp s ls active own w rate skill towers source =
      Inr (if os = [] then None else Some (lt_tower (os ! min skill (length os - 1))))"
    unfolding attack_option_def p_def [symmetric] xs_def [symmetric] ys rbind_simps Let_def os_def [symmetric] by (rule refl)
  moreover have "min skill (length os - 1) < length os" if "os \<noteq> []" using that by (simp add: min_less_iff_disj)
  ultimately show ?thesis using picked by auto
qed

text \<open>What a planned lane can rely on.\<close>

definition plannable :: "hypot_fn \<Rightarrow> game_state \<Rightarrow> lane list \<Rightarrow> team \<Rightarrow> lane_order \<Rightarrow> bool" where
  "plannable hyp s active w x \<longleftrightarrow>
     length (filter (\<lambda>l. la_sourceId l = lo_from x) active) < maxLanes s (lo_from x)
     \<and> \<not> list_ex (\<lambda>l. la_sourceId l = lo_from x \<and> la_targetId l = lo_to x) active
     \<and> (\<exists>ids. findDispatchRoute hyp s (lo_from x) (lo_to x) w = Inr (Some ids))"

lemma plan_source_ok:
  assumes "hypot_ok hyp"
  shows "\<exists>r. plan_source hyp s ls active w rate skill towers source = Inr r
    \<and> (\<forall>x. r = Some x \<longrightarrow> lo_from x = t_id source \<and> plannable hyp s active w x)"
proof -
  let ?own = "filter (\<lambda>l. la_sourceId l = t_id source) active"
  have good: "plannable hyp s active w \<lparr>lo_from = t_id source, lo_to = t_id t\<rparr>"
    if "length ?own < maxLanes s (t_id source)" "\<not> already_targeted ?own t" "has_route hyp s w source t = Inr True" for t
    using that has_route_True [OF that(3)] by (auto simp: plannable_def already_targeted_def list_ex_iff)
  obtain r1 where r1: "rescue_target hyp s ls active ?own w towers source = Inr r1"
    "\<And>t. r1 = Some t \<Longrightarrow> \<not> already_targeted ?own t \<and> has_route hyp s w source t = Inr True"
    using rescue_target_ok [OF assms, of s ls active ?own w towers source] by auto
  obtain r2 where r2: "attack_option hyp s ls active ?own w rate skill towers source = Inr r2"
    "\<And>t. r2 = Some t \<Longrightarrow> \<not> already_targeted ?own t \<and> has_route hyp s w source t = Inr True"
    using attack_option_ok [OF assms, of s ls active ?own w rate skill towers source] by auto
  show ?thesis
    using good r1 r2 by (cases r1; cases r2) (simp_all add: plan_source_def Let_def)
qed

lemma filter_id_list_all2:
  assumes "list_all2 (\<lambda>x y. P x y) xs ys" "distinct (map f xs)"
    and "\<And>x y. P x (Some y) \<Longrightarrow> g y = f x \<and> Q y"
  shows "distinct (map g (List.map_filter id ys)) \<and> (\<forall>y\<in>set (List.map_filter id ys). Q y)
    \<and> set (map g (List.map_filter id ys)) \<subseteq> set (map f xs)"
  using assms(1,2)
proof (induction rule: list_all2_induct)
  case (Cons x xs y ys)
  then show ?case using assms(3) [of x] by (cases y) (auto simp: List.map_filter_simps)
qed (simp add: List.map_filter_simps)

text \<open>The cuts of a plan end exactly the lanes that the plan counts as done.\<close>

lemma cut_key_inj:
  assumes "CHR ''>'' \<notin> set a" "CHR ''>'' \<notin> set a'" shows "cut_key a b = cut_key a' b' \<longleftrightarrow> a = a' \<and> b = b'"
proof -
  have "takeWhile (\<lambda>c. c \<noteq> CHR ''>'') (cut_key a b) = a" if "CHR ''>'' \<notin> set a" for a b
    using that unfolding cut_key_def by (subst takeWhile_append2) (auto simp: takeWhile_tail)
  then show ?thesis using assms by (metis cut_key_def append_same_eq same_append_eq list.inject)
qed

lemma cuts_applied:
  "ls_lanes (fold (\<lambda>x ls. fst (cutLane ls w (lo_from x) (lo_to x))) cs lanes)
     = filter (\<lambda>l. \<not> (\<exists>x\<in>set cs. lane_between w (lo_from x) (lo_to x) l)) (ls_lanes lanes)"
  "ls_soldiers (fold (\<lambda>x ls. fst (cutLane ls w (lo_from x) (lo_to x))) cs lanes) = ls_soldiers lanes"
  by (induction cs arbitrary: lanes) (auto simp: cutLane_lanes intro: filter_cong)

lemma cuts_ok: "lane_state_ok s lanes \<Longrightarrow> lane_state_ok s (fold (\<lambda>x ls. fst (cutLane ls w (lo_from x) (lo_to x))) cs lanes)"
  by (induction cs arbitrary: lanes) (simp_all add: cutLane_ok)

lemma active_lanes_eq:
  assumes "\<forall>l\<in>set ls. CHR ''>'' \<notin> set (la_sourceId l)" "\<forall>x\<in>set cs. CHR ''>'' \<notin> set (lo_from x)"
  shows "active_lanes ls w cs = filter (\<lambda>l. la_owner l = w)
    (filter (\<lambda>l. \<not> (\<exists>x\<in>set cs. lane_between w (lo_from x) (lo_to x) l)) ls)"
proof -
  have "(cut_key (la_sourceId l) (la_targetId l) \<in> set (map (\<lambda>c. cut_key (lo_from c) (lo_to c)) cs))
      \<longleftrightarrow> (\<exists>x\<in>set cs. la_sourceId l = lo_from x \<and> la_targetId l = lo_to x)" if "l \<in> set ls" for l
  proof -
    have "cut_key (la_sourceId l) (la_targetId l) = cut_key (lo_from x) (lo_to x) \<longleftrightarrow> la_sourceId l = lo_from x \<and> la_targetId l = lo_to x"
      if "x \<in> set cs" for x
      by (rule cut_key_inj) (use assms that \<open>l \<in> set ls\<close> in auto)
    then show ?thesis by auto
  qed
  then show ?thesis by (auto simp: active_lanes_def lane_between_def intro!: filter_cong)
qed

text \<open>Opening the planned lanes one after another: each appends one lane.\<close>

lemma opens_applied:
  assumes "hypot_ok hyp" "usesTacticalRules (g_rules s)" "wf_match s" "w \<noteq> Neutral"
    and "lane_state_ok s lanes" "distinct (map lo_from xs)"
    and "\<forall>x\<in>set xs. length (lanes_from w (lo_from x) (ls_lanes lanes)) < maxLanes s (lo_from x)
      \<and> \<not> list_ex (lane_between w (lo_from x) (lo_to x)) (ls_lanes lanes)
      \<and> (\<exists>ids. findDispatchRoute hyp s (lo_from x) (lo_to x) w = Inr (Some ids))"
  shows "\<exists>new lanes'. fold_res (\<lambda>x ls. openLane hyp s ls w (lo_from x) (lo_to x)) xs lanes = Inr lanes'
    \<and> lane_state_ok s lanes' \<and> ls_lanes lanes' = ls_lanes lanes @ new
    \<and> map lane_key new = map (\<lambda>x. (w, lo_from x, lo_to x)) xs"
  using assms(5-7)
proof (induction xs arbitrary: lanes)
  case (Cons x xs)
  have ok: "lanes_ok s (ls_lanes lanes)" using Cons.prems(1) by (simp add: lane_state_ok_def)
  obtain l where l: "openLane hyp s lanes w (lo_from x) (lo_to x) = Inr (lanes\<lparr>ls_lanes := ls_lanes lanes @ [l],
         ls_nextLaneId := Suc (ls_nextLaneId lanes)\<rparr>)" "lane_key l = (w, lo_from x, lo_to x)"
  proof (rule openLane_cases [OF assms(1-3) ok assms(4), of "lo_from x" "lo_to x"], goal_cases)
    case 1
    then show thesis using Cons.prems(3) by fastforce
  next
    case (2 l)
    then show thesis using that by blast
  qed
  let ?lanes = "lanes\<lparr>ls_lanes := ls_lanes lanes @ [l], ls_nextLaneId := Suc (ls_nextLaneId lanes)\<rparr>"
  have "lane_state_ok s ?lanes" using openLane_ok [OF assms(1-3) Cons.prems(1) assms(4), of "lo_from x" "lo_to x"] l(1) by auto
  moreover have "length (lanes_from w (lo_from y) (ls_lanes ?lanes)) < maxLanes s (lo_from y)
      \<and> \<not> list_ex (lane_between w (lo_from y) (lo_to y)) (ls_lanes ?lanes)
      \<and> (\<exists>ids. findDispatchRoute hyp s (lo_from y) (lo_to y) w = Inr (Some ids))" if "y \<in> set xs" for y
  proof -
    have ne: "lo_from y \<noteq> lo_from x" using Cons.prems(2) that by (force simp: image_iff)
    have "lanes_from w (lo_from y) [l] = []" "\<not> lane_between w (lo_from y) (lo_to y) l"
      using l(2) ne by (auto simp: lanes_from_def lane_key_def lane_between_def)
    then show ?thesis using Cons.prems(3) that by simp
  qed
  ultimately obtain new lanes' where "fold_res (\<lambda>x ls. openLane hyp s ls w (lo_from x) (lo_to x)) xs ?lanes = Inr lanes'"
    "lane_state_ok s lanes'" "ls_lanes lanes' = ls_lanes ?lanes @ new" "map lane_key new = map (\<lambda>x. (w, lo_from x, lo_to x)) xs"
    using Cons.IH [of ?lanes] Cons.prems(2) by auto
  then show ?case using l by (intro exI [of _ "l # new"] exI [of _ lanes']) simp
qed simp

lemma board_ids: "wf_board ts \<Longrightarrow> map t_id (obj_values ts) = obj_keys ts"
  by (auto simp: wf_board_def wf_tower_def map_of_eq_Some_iff)

lemma sorted_ids_distinct: "wf_board ts \<Longrightarrow> distinct (map t_id (js_sort cmp (obj_values ts)))"
proof -
  assume wf: "wf_board ts"
  have "mset (map t_id (js_sort cmp (obj_values ts))) = mset (map t_id (obj_values ts))" by (simp only: mset_map mset_js_sort)
  also have "map t_id (obj_values ts) = obj_keys ts" by (rule board_ids [OF wf])
  finally show ?thesis using wf by (metis mset_eq_imp_distinct_iff wf_board_def)
qed

lemma planLanes_ok:
  assumes "hypot_ok hyp" "wf_board (g_territories s)"
  shows "\<exists>p. planLanes hyp s lanes w opts = Inr p \<and> distinct (map lo_from (lo_open p))
    \<and> lo_cut p = planned_cuts s (ls_lanes lanes) w (jdiv 1 (lc_emitSeconds (case pl_config opts of Some c \<Rightarrow> c | None \<Rightarrow> LANE_CONFIG)))
    \<and> (\<forall>x\<in>set (lo_open p). plannable hyp s (active_lanes (ls_lanes lanes) w (lo_cut p)) w x
        \<and> (\<exists>t. obj_get (g_territories s) (lo_from x) = Some t \<and> t_owner t = w \<and> 4 \<le> t_units t))"
proof -
  define rate where "rate = jdiv 1 (lc_emitSeconds (case pl_config opts of Some c \<Rightarrow> c | None \<Rightarrow> LANE_CONFIG))"
  define towers where "towers = js_sort cmp_id (obj_values (g_territories s))"
  define cut where "cut = planned_cuts s (ls_lanes lanes) w rate"
  define active where "active = active_lanes (ls_lanes lanes) w cut"
  define skill where "skill = (case pl_skill opts of Some k \<Rightarrow> k | None \<Rightarrow> 0)"
  define sources where "sources = filter (\<lambda>t. t_owner t = w \<and> 4 \<le> t_units t) towers"
  let ?f = "plan_source hyp s (ls_lanes lanes) active w rate skill towers"
  have total: "\<exists>r. ?f t = Inr r" for t using plan_source_ok [OF assms(1)] by blast
  obtain os where os: "map_res ?f sources = Inr os" using map_res_total [of sources ?f] total by blast
  then have all: "list_all2 (\<lambda>t r. ?f t = Inr r \<and> t \<in> set sources) sources os"
    by (auto simp: map_res_Inr list_all2_conv_all_nth)
  have d: "distinct (map t_id sources)"
    unfolding sources_def towers_def by (rule distinct_map_filter [OF sorted_ids_distinct [OF assms(2)]])
  have tower: "\<exists>t'. obj_get (g_territories s) (t_id t) = Some t' \<and> t_owner t' = w \<and> 4 \<le> t_units t'" if "t \<in> set sources" for t
  proof -
    have "t \<in> snd ` set (g_territories s)" "t_owner t = w" "4 \<le> t_units t"
      using that by (auto simp: sources_def towers_def)
    moreover from this obtain i where "(i, t) \<in> set (g_territories s)" by (metis imageE prod.collapse)
    moreover from this have "obj_get (g_territories s) i = Some t" using assms(2) by (simp add: wf_board_def)
    ultimately show ?thesis using wf_boardD [OF assms(2)] by (auto simp: wf_tower_def)
  qed
  have "distinct (map lo_from (List.map_filter id os))
    \<and> (\<forall>x\<in>set (List.map_filter id os). plannable hyp s active w x
        \<and> (\<exists>t. obj_get (g_territories s) (lo_from x) = Some t \<and> t_owner t = w \<and> 4 \<le> t_units t))
    \<and> set (map lo_from (List.map_filter id os)) \<subseteq> set (map t_id sources)"
  proof (rule filter_id_list_all2 [OF all d])
    fix t x assume "?f t = Inr (Some x) \<and> t \<in> set sources"
    then show "lo_from x = t_id t \<and> plannable hyp s active w x
        \<and> (\<exists>t. obj_get (g_territories s) (lo_from x) = Some t \<and> t_owner t = w \<and> 4 \<le> t_units t)"
      using plan_source_ok [OF assms(1), of s "ls_lanes lanes" active w rate skill towers t] tower by fastforce
  qed
  moreover have "planLanes hyp s lanes w opts = Inr \<lparr>lo_open = List.map_filter id os, lo_cut = cut\<rparr>"
    using os unfolding planLanes_def Let_def rate_def towers_def cut_def active_def skill_def sources_def by simp
  ultimately show ?thesis by (simp add: active_def cut_def rate_def)
qed

text \<open>Tower names without the character that separates the two names in the planner's keys.\<close>

definition plain_ids :: "game_state \<Rightarrow> bool" where
  "plain_ids s \<longleftrightarrow> (\<forall>i\<in>set (obj_keys (g_territories s)). CHR ''>'' \<notin> set i)"

lemma planned_cuts_mem:
  "x \<in> set (planned_cuts s ls w rate) \<Longrightarrow> \<exists>l\<in>set ls. la_owner l = w \<and> la_sourceId l = lo_from x \<and> la_targetId l = lo_to x"
  by (auto simp: planned_cuts_def)

lemma lane_source_key: "lane_ok ids l \<Longrightarrow> la_sourceId l \<in> set ids"
proof -
  assume "lane_ok ids l"
  then have "la_routeIds l \<noteq> []" "hd (la_routeIds l) = la_sourceId l" "set (la_routeIds l) \<subseteq> set ids"
    by (auto simp: lane_ok_def)
  then show ?thesis by (metis hd_in_set subsetD)
qed

text \<open>A plan that keeps the names apart runs exactly as planned.\<close>

lemma plan_applied:
  assumes "hypot_ok hyp" "usesTacticalRules (g_rules s)" "wf_match s" "w \<noteq> Neutral" "lane_state_ok s lanes" "plain_ids s"
  shows "\<exists>p kept new lanes'. planLanes hyp s lanes w opts = Inr p \<and> apply_plan hyp s w p lanes = Inr lanes'
    \<and> lane_state_ok s lanes' \<and> ls_lanes lanes' = kept @ new
    \<and> kept = filter (\<lambda>l. \<not> (\<exists>x\<in>set (lo_cut p). lane_between w (lo_from x) (lo_to x) l)) (ls_lanes lanes)
    \<and> map lane_key new = map (\<lambda>x. (w, lo_from x, lo_to x)) (lo_open p) \<and> distinct (map lo_from (lo_open p))
    \<and> (\<forall>x\<in>set (lo_open p). \<exists>t. obj_get (g_territories s) (lo_from x) = Some t \<and> t_owner t = w \<and> 4 \<le> t_units t)
    \<and> (\<forall>x\<in>set (lo_cut p). \<exists>l\<in>set (ls_lanes lanes). lane_between w (lo_from x) (lo_to x) l)"
proof -
  have board: "wf_board (g_territories s)" using assms(3) by (simp add: wf_match_def)
  obtain p where p: "planLanes hyp s lanes w opts = Inr p" "distinct (map lo_from (lo_open p))"
    "lo_cut p = planned_cuts s (ls_lanes lanes) w (jdiv 1 (lc_emitSeconds (case pl_config opts of Some c \<Rightarrow> c | None \<Rightarrow> LANE_CONFIG)))"
    "\<forall>x\<in>set (lo_open p). plannable hyp s (active_lanes (ls_lanes lanes) w (lo_cut p)) w x
        \<and> (\<exists>t. obj_get (g_territories s) (lo_from x) = Some t \<and> t_owner t = w \<and> 4 \<le> t_units t)"
    using planLanes_ok [OF assms(1) board] by blast
  let ?cut = "fold (\<lambda>x ls. fst (cutLane ls w (lo_from x) (lo_to x))) (lo_cut p) lanes"
  define kept where "kept = filter (\<lambda>l. \<not> (\<exists>x\<in>set (lo_cut p). lane_between w (lo_from x) (lo_to x) l)) (ls_lanes lanes)"
  have kept: "ls_lanes ?cut = kept" "lane_state_ok s ?cut"
    using cuts_applied(1) cuts_ok [OF assms(5)] by (simp_all add: kept_def)
  have cut_lane: "\<exists>l\<in>set (ls_lanes lanes). lane_between w (lo_from x) (lo_to x) l" if "x \<in> set (lo_cut p)" for x
    using planned_cuts_mem that unfolding p(3) lane_between_def by blast
  have source: "CHR ''>'' \<notin> set (la_sourceId l)" if "l \<in> set (ls_lanes lanes)" for l
  proof -
    have "lane_ok (obj_keys (g_territories s)) l" using assms(5) that by (simp add: lane_state_ok_def lanes_ok_def)
    then show ?thesis using lane_source_key assms(6) unfolding plain_ids_def by blast
  qed
  have active: "active_lanes (ls_lanes lanes) w (lo_cut p) = filter (\<lambda>l. la_owner l = w) kept"
    unfolding kept_def
  proof (rule active_lanes_eq)
    show "\<forall>x\<in>set (lo_cut p). CHR ''>'' \<notin> set (lo_from x)" using cut_lane source by (force simp: lane_between_def)
  qed (use source in blast)
  have free: "length (lanes_from w (lo_from x) (ls_lanes ?cut)) < maxLanes s (lo_from x)
      \<and> \<not> list_ex (lane_between w (lo_from x) (lo_to x)) (ls_lanes ?cut)
      \<and> (\<exists>ids. findDispatchRoute hyp s (lo_from x) (lo_to x) w = Inr (Some ids))" if "x \<in> set (lo_open p)" for x
  proof -
    have "plannable hyp s (filter (\<lambda>l. la_owner l = w) kept) w x" using p(4) that unfolding active by blast
    then show ?thesis unfolding kept(1) plannable_def lanes_from_def
      by (auto simp: list_ex_iff lane_between_def conj_commute)
  qed
  obtain new lanes' where "fold_res (\<lambda>x ls. openLane hyp s ls w (lo_from x) (lo_to x)) (lo_open p) ?cut = Inr lanes'"
    "lane_state_ok s lanes'" "ls_lanes lanes' = kept @ new" "map lane_key new = map (\<lambda>x. (w, lo_from x, lo_to x)) (lo_open p)"
    using opens_applied [OF assms(1-4) kept(2) p(2)] free unfolding kept(1) by blast
  then show ?thesis using p cut_lane by (intro exI [of _ p] exI [of _ kept] exI [of _ new] exI [of _ lanes'])
      (auto simp: apply_plan_def kept_def)
qed

section \<open>The engine\<close>

definition engine_ok :: "game_state \<Rightarrow> lane_engine \<Rightarrow> bool" where
  "engine_ok s e \<longleftrightarrow> lane_state_ok s (en_lanes e) \<and> lane_config_ok (en_config e)"

lemma apply_plan_ok:
  assumes "hypot_ok hyp" "usesTacticalRules (g_rules s)" "wf_match s" "lane_state_ok s lanes" "w \<noteq> Neutral"
  shows "\<exists>lanes'. apply_plan hyp s w p lanes = Inr lanes' \<and> lane_state_ok s lanes'"
  unfolding apply_plan_def using cuts_ok [OF assms(4)]
  by (rule fold_res_total [where P = "lane_state_ok s"]) (rule openLane_ok [OF assms(1-3) _ assms(5)])

lemma engine_plan_ok:
  assumes "hypot_ok hyp" "usesTacticalRules (g_rules s)" "wf_match s" "engine_ok s e" "w \<noteq> Neutral"
  shows "\<exists>e'. engine_plan hyp s w e = Inr e' \<and> engine_ok s e'"
proof -
  have board: "wf_board (g_territories s)" using assms(3) by (simp add: wf_match_def)
  have lanes: "lane_state_ok s (en_lanes e)" using assms(4) by (simp add: engine_ok_def)
  obtain p where p: "planLanes hyp s (en_lanes e) w \<lparr>pl_skill = None, pl_config = Some (en_config e)\<rparr> = Inr p"
    using planLanes_ok [OF assms(1) board] by blast
  obtain ls where "apply_plan hyp s w p (en_lanes e) = Inr ls" "lane_state_ok s ls"
    using apply_plan_ok [OF assms(1-3) lanes assms(5)] by blast
  then show ?thesis using p assms(4) by (simp add: engine_plan_def engine_ok_def)
qed

lemma engineStep_ok:
  assumes "hypot_ok hyp" "usesTacticalRules v" "pvp_ok v s accs" "engine_ok s e" "0 \<le> delta" "delta \<le> 10"
  shows "\<exists>x. engineStep hyp e s accs delta = Some (Inr x) \<and> pvp_ok v (es_state x) (es_accumulators x)
    \<and> engine_ok (es_state x) (es_engine x) \<and> (g_status s = Playing \<longrightarrow> g_elapsed (es_state x) = step_elapsed s delta)
    \<and> (g_status (es_state x) = Playing \<longrightarrow> g_elapsed (es_state x) < g_timeLimit s)"
proof -
  have e: "lane_state_ok s (en_lanes e)" "lane_config_ok (en_config e)" using assms(4) by (simp_all add: engine_ok_def)
  obtain r where r: "stepLaneSimulation hyp s accs (en_lanes e) delta (en_config e) = Some (Inr r)"
    "pvp_ok v (lp_state r) (lp_accumulators r)" "lane_state_ok (lp_state r) (lp_lanes r)"
    "g_status s = Playing \<longrightarrow> g_elapsed (lp_state r) = step_elapsed s delta"
    "g_status (lp_state r) = Playing \<longrightarrow> g_elapsed (lp_state r) < g_timeLimit s"
    using stepLaneSimulation_ok [OF assms(3) e(1) assms(5,6) e(2), of hyp] by blast
  let ?e = "e\<lparr>en_lanes := lp_lanes r\<rparr>"
  let ?e' = "?e\<lparr>en_nextBotSeconds := jadd (en_nextBotSeconds ?e) (sc_tickSeconds (en_schedule ?e))\<rparr>"
  have match: "usesTacticalRules (g_rules (lp_state r))" "wf_match (lp_state r)"
    using r(2) assms(2) by (simp_all add: pvp_ok_def)
  have "engine_ok (lp_state r) ?e" "engine_ok (lp_state r) ?e'" using r(3) e(2) by (simp_all add: engine_ok_def)
  then obtain e2 where e2: "(if bot_due ?e (lp_state r) then engine_plan hyp (lp_state r) Enemy ?e' else Inr ?e) = Inr e2"
    "engine_ok (lp_state r) e2"
    using engine_plan_ok [OF assms(1) match, of ?e' Enemy] by (cases "bot_due ?e (lp_state r)") auto
  have "engineStep hyp e s accs delta = Some (Inr \<lparr>es_state = lp_state r, es_accumulators = lp_accumulators r,
      es_captures = capturesBetween s (lp_state r), es_engine = e2\<rparr>)"
    unfolding engineStep_def r(1) run_bind_simps Let_def e2(1) ..
  then show ?thesis using r e2(2) by simp
qed

lemma engineOpen_ok:
  assumes "hypot_ok hyp" "usesTacticalRules (g_rules s)" "wf_match s" "engine_ok s e"
  shows "\<exists>e' b. engineOpen hyp e s src tgt = Inr (e', b) \<and> engine_ok s e'"
proof -
  have "lane_state_ok s (en_lanes e)" using assms(4) by (simp add: engine_ok_def)
  then obtain ls where "openLane hyp s (en_lanes e) Player src tgt = Inr ls" "lane_state_ok s ls"
    using openLane_ok [OF assms(1-3), of "en_lanes e" Player src tgt] by auto
  then show ?thesis using assms(4) by (auto simp: engineOpen_def engine_ok_def split: option.splits)
qed

lemma engineCut_ok: "engine_ok s e \<Longrightarrow> engine_ok s (fst (engineCut e src tgt))"
  by (simp add: engineCut_def Let_def engine_ok_def cutLane_ok)

text \<open>A swipe removes exactly the lanes it crosses.\<close>

lemma swipe_cuts:
  "ls_lanes (en_lanes (fold (\<lambda>l e. fst (engineCut e (la_sourceId l) (la_targetId l))) cs e))
     = filter (\<lambda>l. \<not> (\<exists>c\<in>set cs. lane_between Player (la_sourceId c) (la_targetId c) l)) (ls_lanes (en_lanes e))"
  by (induction cs arbitrary: e) (auto simp: engineCut_def Let_def cutLane_lanes intro: filter_cong)

lemma cutBySwipe_lanes:
  assumes "lanes_ok s (ls_lanes (en_lanes e))"
  shows "ls_lanes (en_lanes (fst (cutBySwipe e s from to)))
    = filter (\<lambda>l. l \<notin> set (snd (cutBySwipe e s from to))) (ls_lanes (en_lanes e))"
proof -
  define ls where "ls = ls_lanes (en_lanes e)"
  define cs where "cs = lanesCrossedBySegment s (en_lanes e) Player from to"
  have cs: "set cs \<subseteq> set ls" "\<forall>c\<in>set cs. la_owner c = Player" by (auto simp: cs_def ls_def lanesCrossedBySegment_def)
  have inj: "inj_on lane_key (set ls)" using assms by (simp add: ls_def lanes_ok_def distinct_map)
  have "(\<exists>c\<in>set cs. lane_between Player (la_sourceId c) (la_targetId c) l) \<longleftrightarrow> l \<in> set cs" if "l \<in> set ls" for l
  proof
    assume "\<exists>c\<in>set cs. lane_between Player (la_sourceId c) (la_targetId c) l"
    then obtain c where c: "c \<in> set cs" "lane_between Player (la_sourceId c) (la_targetId c) l" by blast
    then have "lane_key c = lane_key l" using cs(2) by (auto simp: lane_between_key lane_key_def)
    then have "c = l" using inj c(1) cs(1) that by (auto dest: inj_onD)
    then show "l \<in> set cs" using c by simp
  qed (use cs(2) in \<open>auto simp: lane_between_def\<close>)
  then have "filter (\<lambda>l. \<not> (\<exists>c\<in>set cs. lane_between Player (la_sourceId c) (la_targetId c) l)) ls = filter (\<lambda>l. l \<notin> set cs) ls"
    by (intro filter_cong) auto
  then show ?thesis by (simp add: cutBySwipe_def Let_def swipe_cuts cs_def [symmetric] ls_def [symmetric])
qed

section \<open>The replay\<close>

definition lane_replay_ok :: "num option \<Rightarrow> lane_replay \<Rightarrow> bool" where
  "lane_replay_ok v r \<longleftrightarrow> pvp_ok v (lr_state r) (lr_accumulators r) \<and> engine_ok (lr_state r) (lr_engine r)
     \<and> usesTacticalRules v \<and> g_elapsed (lr_state r) = fl (of_nat (lr_tick r) / 50) \<and> lr_tick r \<le> 4500
     \<and> (g_status (lr_state r) = Playing \<longrightarrow> lr_tick r < 4500)"

lemma lane_tick_ok:
  assumes "hypot_ok hyp" "lane_replay_ok v r" "g_status (lr_state r) = Playing"
  shows "\<exists>r'. lane_tick hyp r = Some (Inr r') \<and> lane_replay_ok v r' \<and> lr_tick r' = Suc (lr_tick r)
    \<and> lr_processed r' = lr_processed r"
proof -
  let ?T = PVP_SIMULATION_TICK_SECONDS
  have r: "pvp_ok v (lr_state r) (lr_accumulators r)" "engine_ok (lr_state r) (lr_engine r)" "usesTacticalRules v"
    "g_elapsed (lr_state r) = fl (of_nat (lr_tick r) / 50)" "lr_tick r < 4500"
    using assms(2,3) by (simp_all add: lane_replay_ok_def)
  have rules: "hasCaptureRecovery (g_rules (lr_state r))" "g_timeLimit (lr_state r) = 90"
    using r(1,3) usesTacticalRules_recovery by (simp_all add: pvp_ok_def PVP_TIME_LIMIT_SECONDS_def)
  have T: "0 \<le> ?T" "?T \<le> 10" by (simp_all add: pvp_tick_value)
  obtain x where x: "engineStep hyp (lr_engine r) (lr_state r) (lr_accumulators r) ?T = Some (Inr x)"
    "pvp_ok v (es_state x) (es_accumulators x)" "engine_ok (es_state x) (es_engine x)"
    "g_elapsed (es_state x) = step_elapsed (lr_state r) ?T"
    "g_status (es_state x) = Playing \<Longrightarrow> g_elapsed (es_state x) < 90"
    using engineStep_ok [OF assms(1) r(3,1,2) T] assms(3) rules(2) by auto
  have e: "g_elapsed (es_state x) = fl (of_nat (Suc (lr_tick r)) / 50)"
    using x(4) step_elapsed_tick [OF r(5,4) rules(1)] by simp
  have "Suc (lr_tick r) < 4500" if "g_status (es_state x) = Playing"
  proof (rule ccontr)
    assume "\<not> Suc (lr_tick r) < 4500"
    then have "(90::num) \<le> of_nat (Suc (lr_tick r)) / 50" by simp
    then have "90 \<le> fl (of_nat (Suc (lr_tick r)) / 50)" by (intro fl_ge_double is_double_numeral) simp_all
    then show False using x(5) [OF that] e by simp
  qed
  then show ?thesis using x(1-3) e r(3,5) by (simp add: lane_tick_def lane_replay_ok_def)
qed

interpretation lane_ticks: terminating_loop
    "\<lambda>r. g_status (lr_state r) = Playing \<and> of_nat (lr_tick r) < target" "lane_tick hyp"
    "\<lambda>r. lane_replay_ok v r \<and> hypot_ok hyp \<and> lr_processed r = n" "\<lambda>r. 4500 - lr_tick r" for target hyp v n
proof unfold_locales
  fix r assume r: "lane_replay_ok v r \<and> hypot_ok hyp \<and> lr_processed r = n"
    "g_status (lr_state r) = Playing \<and> of_nat (lr_tick r) < target"
  then have "lr_tick r < 4500" by (simp add: lane_replay_ok_def)
  with r show "\<exists>s'. lane_tick hyp r = Some (Inr s') \<and> (lane_replay_ok v s' \<and> hypot_ok hyp \<and> lr_processed s' = n)
      \<and> 4500 - lr_tick s' < 4500 - lr_tick r"
    using lane_tick_ok [of hyp v r] by auto
qed

lemma stepToTick_ok:
  assumes "hypot_ok hyp" "lane_replay_ok v r"
  shows "\<exists>r'. stepToTick hyp target r = Some (Inr r') \<and> lane_replay_ok v r' \<and> lr_processed r' = lr_processed r
    \<and> \<not> (g_status (lr_state r') = Playing \<and> of_nat (lr_tick r') < target)"
  using lane_ticks.loop_returns [of v r hyp "lr_processed r" target] assms unfolding stepToTick_def by blast

lemma lane_order_applied_ok:
  assumes "hypot_ok hyp" "lane_replay_ok v r"
  shows "\<exists>r'. lane_order_applied hyp a r = Inr r' \<and> lane_replay_ok v r' \<and> lr_processed r' \<le> Suc (lr_processed r)"
proof -
  have m: "usesTacticalRules (g_rules (lr_state r))" "wf_match (lr_state r)" "engine_ok (lr_state r) (lr_engine r)"
    using assms(2) by (simp_all add: lane_replay_ok_def pvp_ok_def)
  obtain e b where "engineOpen hyp (lr_engine r) (lr_state r) (lx_sourceId a) (lx_targetId a) = Inr (e, b)" "engine_ok (lr_state r) e"
    using engineOpen_ok [OF assms(1) m] by blast
  moreover obtain e2 b2 where "engineCut (lr_engine r) (lx_sourceId a) (lx_targetId a) = (e2, b2)" "engine_ok (lr_state r) e2"
    using engineCut_ok [OF m(3), of "lx_sourceId a" "lx_targetId a"] by (metis prod.collapse)
  ultimately show ?thesis using assms(2) by (simp add: lane_order_applied_def lane_replay_ok_def)
qed

lemma replay_lane_actions_ok:
  assumes "hypot_ok hyp" "lane_replay_ok v r"
  shows "\<exists>r'. replay_lane_actions hyp as r = Some (Inr r') \<and> lane_replay_ok v r' \<and> lr_processed r' \<le> lr_processed r + length as"
  using assms(2)
proof (induction as arbitrary: r)
  case (Cons a as)
  obtain r1 where r1: "stepToTick hyp (target_tick (finite_value (lx_at a))) r = Some (Inr r1)" "lane_replay_ok v r1"
    "lr_processed r1 = lr_processed r" using stepToTick_ok [OF assms(1) Cons.prems] by blast
  obtain r2 where r2: "lane_order_applied hyp a r1 = Inr r2" "lane_replay_ok v r2" "lr_processed r2 \<le> Suc (lr_processed r1)"
    using lane_order_applied_ok [OF assms(1) r1(2)] by blast
  show ?case using r1 r2 Cons.IH [OF r2(2)] by (cases "g_status (lr_state r1) = Playing") auto
qed simp

lemma final_lane_tick_value: "final_lane_tick = 4505"
  unfolding final_lane_tick_def by code_simp

lemma validate_lanes_error:
  "validate_lanes_from s k t as = Inl e \<Longrightarrow>
     e \<in> LaneReplayError ` {''invalid_sequence'', ''invalid_action_kind'', ''invalid_timestamp'', ''invalid_territory''}"
  by (induction s k t as rule: validate_lanes_from.induct) (auto split: if_splits)

text \<open>The battles that can be replayed: a whole starting garrison of the enemy, on a map for two sides.\<close>

definition lane_options_ok :: "lane_battle_options \<Rightarrow> bool" where
  "lane_options_ok opts \<longleftrightarrow> pm_startingUnits (lb_enemy opts) \<in> \<nat>
     \<and> normalizeBattlefieldId (Some (lb_battlefieldId opts)) \<noteq> ''quad_citadel''"

definition lane_start :: "lane_battle_options \<Rightarrow> game_state \<Rightarrow> lane_replay" where
  "lane_start opts s = \<lparr>lr_state = s, lr_accumulators = [],
     lr_engine = new_engine (lb_botDifficulty opts) LANE_CONFIG None, lr_tick = 0, lr_processed = 0\<rparr>"

lemma lane_start_ok:
  assumes "lane_options_ok opts"
  shows "\<exists>s. createInitialGameState (lane_initial_options opts) = Inr s \<and> g_status s = Playing
    \<and> g_rules s = Some 3 \<and> lane_replay_ok (g_rules s) (lane_start opts s)"
proof -
  have v: "initial_version (lane_initial_options opts) = 3"
    by (simp add: initial_version_def lane_initial_options_def LEVEL_RULES_VERSION_def)
  obtain s where s: "createInitialGameState (lane_initial_options opts) = Inr s" "wf_state s []" "g_status s = Playing"
    "g_elapsed s = 0" "g_armies s = []" "g_rules s = Some 3" "g_timeLimit s = PVP_TIME_LIMIT_SECONDS"
    "obj_keys (g_territories s) = map t_id (b_territories (getBattlefield (g_battlefieldId s)))"
    using createInitialGameState_ok [of "lane_initial_options opts"] assms v
    by (auto simp: lane_options_ok_def lane_initial_options_def modifiers_ok_def LEVEL_PLAYER_MODIFIERS_def
        DEFAULT_MATCH_TIME_LIMIT_def PVP_TIME_LIMIT_SECONDS_def)
  have "wf_match s" unfolding wf_match_def s(8) using s(2,5) by (simp add: wf_state_def)
  then have "pvp_ok (g_rules s) s []" using s by (simp add: pvp_ok_def)
  moreover have "engine_ok s (new_engine d LANE_CONFIG None)" for d
    using LANE_CONFIG_ok by (simp add: engine_ok_def new_engine_def Let_def emptyLaneState_def lane_state_ok_def
        lanes_ok_def lanes_from_def)
  ultimately have "lane_replay_ok (g_rules s) (lane_start opts s)"
    using s by (simp add: lane_replay_ok_def lane_start_def usesTacticalRules_def)
  then show ?thesis using s by blast
qed

lemma simulateLaneBattle_ok:
  assumes "hypot_ok hyp" "lane_options_ok opts" "createInitialGameState (lane_initial_options opts) = Inr s"
    and "validateLaneActions (lb_actions opts) s = Inr ()"
  shows "\<exists>r. simulateLaneBattle hyp opts = Some (Inr \<lparr>lz_finalState = lr_state r,
        lz_summary = \<lparr>lu_status = g_status (lr_state r), lu_duration = math_floor (g_elapsed (lr_state r)),
          lu_actionsProcessed = lr_processed r\<rparr>\<rparr>)
    \<and> lane_replay_ok (Some 3) r \<and> g_status (lr_state r) \<noteq> Playing \<and> lr_processed r \<le> length (lb_actions opts)"
proof -
  have start: "lane_replay_ok (Some 3) (lane_start opts s)" using lane_start_ok [OF assms(2)] assms(3) by auto
  obtain r1 where r1: "replay_lane_actions hyp (lb_actions opts) (lane_start opts s) = Some (Inr r1)"
    "lane_replay_ok (Some 3) r1" "lr_processed r1 \<le> length (lb_actions opts)"
    using replay_lane_actions_ok [OF assms(1) start, of "lb_actions opts"] by (auto simp: lane_start_def)
  obtain r2 where r2: "stepToTick hyp final_lane_tick r1 = Some (Inr r2)" "lane_replay_ok (Some 3) r2"
    "lr_processed r2 = lr_processed r1" "\<not> (g_status (lr_state r2) = Playing \<and> of_nat (lr_tick r2) < final_lane_tick)"
    using stepToTick_ok [OF assms(1) r1(2)] by blast
  have over: "g_status (lr_state r2) \<noteq> Playing"
  proof
    assume "g_status (lr_state r2) = Playing"
    then have "lr_tick r2 < 4500" using r2(2) by (simp add: lane_replay_ok_def)
    then have "(of_nat (lr_tick r2) :: num) < of_nat 4505" by (simp only: of_nat_less_iff)
    then show False using r2(4) \<open>g_status (lr_state r2) = Playing\<close> by (simp add: final_lane_tick_value)
  qed
  then have "simulateLaneBattle hyp opts = Some (Inr \<lparr>lz_finalState = lr_state r2,
      lz_summary = \<lparr>lu_status = g_status (lr_state r2), lu_duration = math_floor (g_elapsed (lr_state r2)),
        lu_actionsProcessed = lr_processed r2\<rparr>\<rparr>)"
    using r1(1) r2(1) assms(3,4) by (simp add: simulateLaneBattle_def lane_start_def)
  then show ?thesis using r1 r2 over by auto
qed

text \<open>An example: the first of the nine battles with one order.\<close>

definition example_lane_order :: lane_action where
  "example_lane_order = \<lparr>lx_sequence = Finite 0, lx_at = Finite 1, lx_kind = ''lane'', lx_sourceId = ''p_base'',
     lx_targetId = ''e_base''\<rparr>"

definition lane_level_options :: "lane_level \<Rightarrow> lane_action list \<Rightarrow> lane_battle_options" where
  "lane_level_options l actions = \<lparr>lb_battlefieldId = ll_battlefieldId l, lb_botDifficulty = ll_botDifficulty l,
     lb_enemy = ll_enemy l, lb_actions = actions\<rparr>"

lemma LANE_LEVELS_eq: "LANE_LEVELS = map (\<lambda>(i, bf, d). \<lparr>ll_id = i, ll_battlefieldId = bf, ll_botDifficulty = d,
    ll_enemy = LANE_ENEMY_MODIFIERS d\<rparr>)
   [(1, ''crown_cross'', Easy), (2, ''twin_passes'', Easy), (3, ''royal_ring'', Easy),
    (4, ''crown_cross'', Normal), (5, ''twin_passes'', Normal), (6, ''royal_ring'', Normal),
    (7, ''crown_cross'', Hard), (8, ''twin_passes'', Hard), (9, ''royal_ring'', Hard)]"
  by (simp add: LANE_LEVELS_def LANE_MAPS_def LANE_DIFFICULTIES_def)

lemma lane_level_ok: "l \<in> set LANE_LEVELS \<Longrightarrow> lane_options_ok (lane_level_options l as)"
proof -
  assume l: "l \<in> set LANE_LEVELS"
  have map: "ll_battlefieldId l \<in> {''crown_cross'', ''twin_passes'', ''royal_ring''}"
    and enemy: "ll_enemy l \<in> range LANE_ENEMY_MODIFIERS"
    using l unfolding LANE_LEVELS_eq by auto
  have "pm_startingUnits (LANE_ENEMY_MODIFIERS d) \<in> \<nat>" for d
    by (cases d) (simp_all add: LANE_ENEMY_MODIFIERS_def level_enemy_def)
  then have "pm_startingUnits (ll_enemy l) \<in> \<nat>" using enemy by auto
  moreover have "normalizeBattlefieldId (Some i) \<noteq> ''quad_citadel''"
    if "i \<in> {''crown_cross'', ''twin_passes'', ''royal_ring''}" for i
    using that by (auto simp: normalizeBattlefieldId_def BATTLEFIELDS_def crown_cross_def twin_passes_def royal_ring_def)
  ultimately show ?thesis using map by (simp add: lane_options_ok_def lane_level_options_def)
qed

section \<open>Properties\<close>

lemma captures_at_iff:
  "captures_at s (i, now) = Some c \<Longrightarrow> c_targetId c = i \<and> (\<exists>was. obj_get (g_territories s) i = Some was
     \<and> t_owner now \<noteq> t_owner was \<and> t_owner now \<noteq> Neutral)"
  "obj_get (g_territories s) i = Some was \<Longrightarrow> t_owner now \<noteq> t_owner was \<Longrightarrow> t_owner now \<noteq> Neutral \<Longrightarrow>
     \<exists>c. captures_at s (i, now) = Some c \<and> c_targetId c = i"
  by (auto simp: captures_at_def Let_def split: option.splits if_splits)

lemma capturesBetween_targets:
  assumes "distinct (obj_keys (g_territories s'))"
  shows "c_targetId ` set (capturesBetween s s') = {i. \<exists>was now. obj_get (g_territories s) i = Some was
    \<and> obj_get (g_territories s') i = Some now \<and> t_owner now \<noteq> t_owner was \<and> t_owner now \<noteq> Neutral}"
proof (intro set_eqI iffI)
  fix i assume "i \<in> c_targetId ` set (capturesBetween s s')"
  then obtain j now c where c: "(j, now) \<in> set (g_territories s')" "captures_at s (j, now) = Some c" "i = c_targetId c"
    by (auto simp: capturesBetween_def set_map_filter)
  moreover have "obj_get (g_territories s') j = Some now" using c(1) assms by simp
  ultimately show "i \<in> {i. \<exists>was now. obj_get (g_territories s) i = Some was
    \<and> obj_get (g_territories s') i = Some now \<and> t_owner now \<noteq> t_owner was \<and> t_owner now \<noteq> Neutral}"
    using captures_at_iff(1) [OF c(2)] by auto
next
  fix i assume "i \<in> {i. \<exists>was now. obj_get (g_territories s) i = Some was
    \<and> obj_get (g_territories s') i = Some now \<and> t_owner now \<noteq> t_owner was \<and> t_owner now \<noteq> Neutral}"
  then obtain was now where i: "obj_get (g_territories s) i = Some was" "obj_get (g_territories s') i = Some now"
    "t_owner now \<noteq> t_owner was" "t_owner now \<noteq> Neutral" by blast
  then obtain c where c: "captures_at s (i, now) = Some c" "c_targetId c = i" using captures_at_iff(2) by blast
  have "c \<in> set (capturesBetween s s')" unfolding capturesBetween_def set_map_filter
    using map_of_SomeD [OF i(2)] c(1) by blast
  then show "i \<in> c_targetId ` set (capturesBetween s s')" using c(2) by blast
qed

text \<open>
  C22: a step of the lane engine, whatever its length up to ten seconds, returns and throws nothing. It keeps the
  match well formed, and no tower ever runs more lanes of a side than its tier; lanes of a side join different
  pairs of towers along routes from their source to their target. The captures it reports are the towers whose
  owner changed.
\<close>

theorem engineStep_invariant:
  assumes "hypot_ok hyp" "usesTacticalRules v" "pvp_ok v s accs" "engine_ok s e" "0 \<le> delta" "delta \<le> 10"
  shows "\<exists>x. engineStep hyp e s accs delta = Some (Inr x) \<and> pvp_ok v (es_state x) (es_accumulators x)
    \<and> engine_ok (es_state x) (es_engine x)
    \<and> (\<forall>w i. length (lanes_from w i (ls_lanes (en_lanes (es_engine x)))) \<le> maxLanes (es_state x) i)
    \<and> c_targetId ` set (es_captures x) = {i. \<exists>was now. obj_get (g_territories s) i = Some was
        \<and> obj_get (g_territories (es_state x)) i = Some now \<and> t_owner now \<noteq> t_owner was \<and> t_owner now \<noteq> Neutral}"
proof -
  obtain x where x: "engineStep hyp e s accs delta = Some (Inr x)" "pvp_ok v (es_state x) (es_accumulators x)"
    "engine_ok (es_state x) (es_engine x)" using engineStep_ok [OF assms] by blast
  have d: "distinct (obj_keys (g_territories (es_state x)))" using x(2) by (simp add: pvp_ok_def wf_match_def wf_board_def)
  have "es_captures x = capturesBetween s (es_state x)"
    using x(1) by (auto simp: engineStep_def run_bind_def Let_def split: option.splits sum.splits)
  then have caps: "c_targetId ` set (es_captures x) = {i. \<exists>was now. obj_get (g_territories s) i = Some was
        \<and> obj_get (g_territories (es_state x)) i = Some now \<and> t_owner now \<noteq> t_owner was \<and> t_owner now \<noteq> Neutral}"
    using capturesBetween_targets [OF d] by simp
  have "lane_state_ok (es_state x) (en_lanes (es_engine x))" using x(3) by (simp add: engine_ok_def)
  then have "\<forall>w i. length (lanes_from w i (ls_lanes (en_lanes (es_engine x)))) \<le> maxLanes (es_state x) i"
    by (simp add: lane_state_ok_def lanes_ok_def)
  then show ?thesis using x caps by blast
qed

lemma engineStep_invariant_witness:
  "\<exists>s x. createInitialGameState (lane_initial_options (lane_level_options (hd LANE_LEVELS) [])) = Inr s
    \<and> engineStep manhattan (new_engine Easy LANE_CONFIG None) s [] PVP_SIMULATION_TICK_SECONDS = Some (Inr x)
    \<and> length (lanes_from Enemy ''e_base'' (ls_lanes (en_lanes (es_engine x)))) \<le> maxLanes (es_state x) ''e_base''"
proof -
  have level: "hd LANE_LEVELS \<in> set LANE_LEVELS" "ll_botDifficulty (hd LANE_LEVELS) = Easy" by (simp_all add: LANE_LEVELS_eq)
  obtain s where s: "createInitialGameState (lane_initial_options (lane_level_options (hd LANE_LEVELS) [])) = Inr s"
    "lane_replay_ok (g_rules s) (lane_start (lane_level_options (hd LANE_LEVELS) []) s)"
    using lane_start_ok [OF lane_level_ok [OF level(1)]] by blast
  then have "usesTacticalRules (g_rules s)" "pvp_ok (g_rules s) s []" "engine_ok s (new_engine Easy LANE_CONFIG None)"
    by (simp_all add: lane_replay_ok_def lane_start_def lane_level_options_def level(2))
  from engineStep_invariant [OF manhattan_ok this, of PVP_SIMULATION_TICK_SECONDS] s(1) show ?thesis
    by (fastforce simp: pvp_tick_value)
qed

text \<open>
  C23: a plan runs exactly as planned. The lanes that a plan cuts exist, the lanes that it opens are all opened
  (every one leaves a tower of the side with at least four units, has a route and a free path when its turn
  comes), no tower opens two, and no other lane appears or disappears.
\<close>

theorem planLanes_carried_out:
  assumes "hypot_ok hyp" "usesTacticalRules (g_rules s)" "wf_match s" "w \<noteq> Neutral" "lane_state_ok s lanes" "plain_ids s"
  shows "\<exists>p lanes'. planLanes hyp s lanes w opts = Inr p \<and> apply_plan hyp s w p lanes = Inr lanes' \<and> lane_state_ok s lanes'
    \<and> lane_key ` set (ls_lanes lanes') =
        (lane_key ` set (ls_lanes lanes) - {(w, lo_from x, lo_to x) | x. x \<in> set (lo_cut p)})
        \<union> {(w, lo_from x, lo_to x) | x. x \<in> set (lo_open p)}
    \<and> {(w, lo_from x, lo_to x) | x. x \<in> set (lo_cut p)} \<subseteq> lane_key ` set (ls_lanes lanes)
    \<and> distinct (map lo_from (lo_open p))
    \<and> (\<forall>x\<in>set (lo_open p). \<exists>t. obj_get (g_territories s) (lo_from x) = Some t \<and> t_owner t = w \<and> 4 \<le> t_units t)"
proof -
  obtain p kept new lanes' where p: "planLanes hyp s lanes w opts = Inr p" "apply_plan hyp s w p lanes = Inr lanes'"
    "lane_state_ok s lanes'" "ls_lanes lanes' = kept @ new" "distinct (map lo_from (lo_open p))"
    and kept: "kept = filter (\<lambda>l. \<not> (\<exists>x\<in>set (lo_cut p). lane_between w (lo_from x) (lo_to x) l)) (ls_lanes lanes)"
    and new: "map lane_key new = map (\<lambda>x. (w, lo_from x, lo_to x)) (lo_open p)"
    and src: "\<forall>x\<in>set (lo_open p). \<exists>t. obj_get (g_territories s) (lo_from x) = Some t \<and> t_owner t = w \<and> 4 \<le> t_units t"
    and cuts: "\<forall>x\<in>set (lo_cut p). \<exists>l\<in>set (ls_lanes lanes). lane_between w (lo_from x) (lo_to x) l"
    using plan_applied [OF assms, of opts] by blast
  have "lane_key ` set kept = lane_key ` set (ls_lanes lanes) - {(w, lo_from x, lo_to x) | x. x \<in> set (lo_cut p)}"
    unfolding kept by (auto simp: lane_between_key)
  moreover have "lane_key ` set new = {(w, lo_from x, lo_to x) | x. x \<in> set (lo_open p)}"
    using arg_cong [OF new, of set] by auto
  ultimately have "lane_key ` set (ls_lanes lanes') =
        (lane_key ` set (ls_lanes lanes) - {(w, lo_from x, lo_to x) | x. x \<in> set (lo_cut p)})
        \<union> {(w, lo_from x, lo_to x) | x. x \<in> set (lo_open p)}"
    by (simp only: p(4) set_append image_Un)
  moreover have "{(w, lo_from x, lo_to x) | x. x \<in> set (lo_cut p)} \<subseteq> lane_key ` set (ls_lanes lanes)"
    using cuts by (auto simp: lane_between_key) (metis image_eqI)
  ultimately show ?thesis using p(1-3,5) src by blast
qed

text \<open>The names of the towers of every battlefield are plain.\<close>

lemma battlefield_plain: "t \<in> set (b_territories (getBattlefield v)) \<Longrightarrow> CHR ''>'' \<notin> set (t_id t)"
  using getBattlefield_shipped [of v]
  by (auto simp: BATTLEFIELDS_def crown_cross_def twin_passes_def royal_ring_def quad_citadel_def tower_def)

lemma planLanes_carried_out_witness:
  "\<exists>s p lanes'. createInitialGameState (lane_initial_options (lane_level_options (hd LANE_LEVELS) [])) = Inr s
    \<and> planLanes manhattan s emptyLaneState Enemy \<lparr>pl_skill = None, pl_config = None\<rparr> = Inr p
    \<and> apply_plan manhattan s Enemy p emptyLaneState = Inr lanes' \<and> lo_cut p = []
    \<and> lane_key ` set (ls_lanes lanes') = {(Enemy, lo_from x, lo_to x) | x. x \<in> set (lo_open p)}"
proof -
  have level: "hd LANE_LEVELS \<in> set LANE_LEVELS" by (simp add: LANE_LEVELS_eq)
  let ?opts = "lane_level_options (hd LANE_LEVELS) []"
  obtain s where s: "createInitialGameState (lane_initial_options ?opts) = Inr s"
    "lane_replay_ok (g_rules s) (lane_start ?opts s)"
    using lane_start_ok [OF lane_level_ok [OF level]] by blast
  obtain s' where s': "createInitialGameState (lane_initial_options ?opts) = Inr s'"
    "obj_keys (g_territories s') = map t_id (b_territories (getBattlefield (g_battlefieldId s')))"
    using createInitialGameState_ok [of "lane_initial_options ?opts"] lane_level_ok [OF level, of "[]"]
    by (auto simp: lane_options_ok_def lane_initial_options_def modifiers_ok_def LEVEL_PLAYER_MODIFIERS_def
        initial_version_def LEVEL_RULES_VERSION_def)
  have "s' = s" using s(1) s'(1) by (metis Inr_inject)
  then have keys: "obj_keys (g_territories s) = map t_id (b_territories (getBattlefield (g_battlefieldId s)))"
    using s'(2) by simp
  have plain: "plain_ids s" unfolding plain_ids_def keys using battlefield_plain by auto
  have "usesTacticalRules (g_rules s)" "wf_match s" "lane_state_ok s emptyLaneState"
    using s(2) by (simp_all add: lane_replay_ok_def lane_start_def pvp_ok_def lane_state_ok_def lanes_ok_def
        emptyLaneState_def lanes_from_def)
  from planLanes_carried_out [OF manhattan_ok this(1,2) _ this(3) plain, of Enemy "\<lparr>pl_skill = None, pl_config = None\<rparr>"]
  obtain p lanes' where p: "planLanes manhattan s emptyLaneState Enemy \<lparr>pl_skill = None, pl_config = None\<rparr> = Inr p"
    "apply_plan manhattan s Enemy p emptyLaneState = Inr lanes'"
    "lane_key ` set (ls_lanes lanes') = (lane_key ` set (ls_lanes emptyLaneState) - {(Enemy, lo_from x, lo_to x) | x. x \<in> set (lo_cut p)})
        \<union> {(Enemy, lo_from x, lo_to x) | x. x \<in> set (lo_open p)}"
    "{(Enemy, lo_from x, lo_to x) | x. x \<in> set (lo_cut p)} \<subseteq> lane_key ` set (ls_lanes emptyLaneState)" by auto
  have none: "lane_key ` set (ls_lanes emptyLaneState) = {}" by (simp add: emptyLaneState_def)
  have "lo_cut p = []" using p(4) unfolding none by auto
  moreover have "lane_key ` set (ls_lanes lanes') = {(Enemy, lo_from x, lo_to x) | x. x \<in> set (lo_open p)}"
    unfolding p(3) none by simp
  ultimately show ?thesis using s(1) p(1,2) by blast
qed

text \<open>
  C24: the replay of a lane battle on a map for two sides returns: a list of orders that is too long, misnumbered,
  of unknown kind, out of time or names no tower is refused with one of the replay's error codes before anything
  is simulated; every other list is played to a verdict within 90 seconds, and the count of processed orders is
  at most their number.
\<close>

theorem simulateLaneBattle_total:
  assumes "hypot_ok hyp" "lane_options_ok opts"
  shows "\<exists>s. createInitialGameState (lane_initial_options opts) = Inr s
    \<and> (case validateLaneActions (lb_actions opts) s of
         Inl e \<Rightarrow> simulateLaneBattle hyp opts = Some (Inl e) \<and> e \<in> LaneReplayError ` {''too_many_actions'',
           ''invalid_sequence'', ''invalid_action_kind'', ''invalid_timestamp'', ''invalid_territory''}
       | Inr _ \<Rightarrow> \<exists>res. simulateLaneBattle hyp opts = Some (Inr res)
           \<and> lu_status (lz_summary res) = g_status (lz_finalState res) \<and> g_status (lz_finalState res) \<noteq> Playing
           \<and> lu_duration (lz_summary res) \<le> 90 \<and> lu_actionsProcessed (lz_summary res) \<le> length (lb_actions opts))"
proof -
  obtain s where s: "createInitialGameState (lane_initial_options opts) = Inr s" using lane_start_ok [OF assms(2)] by blast
  show ?thesis
  proof (cases "validateLaneActions (lb_actions opts) s")
    case (Inl e)
    have code: "e \<in> LaneReplayError ` {''too_many_actions'', ''invalid_sequence'', ''invalid_action_kind'',
        ''invalid_timestamp'', ''invalid_territory''}"
    proof (cases "MAX_LANE_ACTIONS < length (lb_actions opts)")
      case True
      then have "e = LaneReplayError ''too_many_actions''" using Inl by (simp add: validateLaneActions_def)
      then show ?thesis by (simp only: image_insert insert_iff simp_thms)
    next
      case False
      then have "validate_lanes_from s 0 0 (lb_actions opts) = Inl e" using Inl by (simp add: validateLaneActions_def)
      from validate_lanes_error [OF this] show ?thesis unfolding image_insert insert_iff by blast
    qed
    have run: "simulateLaneBattle hyp opts = Some (Inl e)" using s Inl by (simp add: simulateLaneBattle_def)
    show ?thesis by (rule exI [of _ s]) (simp only: Inl sum.case, intro conjI s run code)
  next
    case (Inr u)
    obtain r where r: "simulateLaneBattle hyp opts = Some (Inr \<lparr>lz_finalState = lr_state r,
        lz_summary = \<lparr>lu_status = g_status (lr_state r), lu_duration = math_floor (g_elapsed (lr_state r)),
          lu_actionsProcessed = lr_processed r\<rparr>\<rparr>)" "lane_replay_ok (Some 3) r" "g_status (lr_state r) \<noteq> Playing"
      "lr_processed r \<le> length (lb_actions opts)"
      using simulateLaneBattle_ok [OF assms s] Inr by auto
    have fin: "lr_tick r \<le> 4500" "g_elapsed (lr_state r) = fl (of_nat (lr_tick r) / 50)"
      using r(2) by (simp_all add: lane_replay_ok_def)
    have "(of_nat (lr_tick r) :: num) \<le> of_nat 4500" using fin(1) by (simp only: of_nat_le_iff)
    then have "g_elapsed (lr_state r) \<le> 90" unfolding fin(2) by (intro fl_le_double is_double_numeral) simp_all
    then have "math_floor (g_elapsed (lr_state r)) \<le> 90" by (rule order_trans [OF math_floor_le])
    then show ?thesis using s Inr r by simp
  qed
qed

lemma simulateLaneBattle_total_witness:
  "\<exists>s. createInitialGameState (lane_initial_options (lane_level_options (LANE_LEVELS ! 8) [])) = Inr s
    \<and> validateLaneActions [] s = Inr ()
    \<and> (\<exists>res. simulateLaneBattle manhattan (lane_level_options (LANE_LEVELS ! 8) []) = Some (Inr res)
        \<and> g_status (lz_finalState res) \<in> {Victory, Defeat, Draw} \<and> lu_actionsProcessed (lz_summary res) = 0)"
proof -
  let ?l = "LANE_LEVELS ! 8"
  have l: "?l \<in> set LANE_LEVELS" by (rule nth_mem) (simp add: LANE_LEVELS_eq)
  have verdict: "v \<noteq> Playing \<Longrightarrow> v \<in> {Victory, Defeat, Draw}" for v by (cases v) simp_all
  have "lb_actions (lane_level_options ?l []) = []" by (simp add: lane_level_options_def)
  with simulateLaneBattle_total [OF manhattan_ok lane_level_ok [OF l], of "[]"]
  show ?thesis using verdict by (fastforce simp: validateLaneActions_def)
qed

text \<open>
  Soldiers are paid for by the source. When a lane's time comes, some number of soldiers leave, all with the
  lane's owner, target and route; the source's garrison loses exactly that many units and never its last one,
  every other tower stays as it is, and the time to the next soldier is not negative.
\<close>

theorem emit_lane_conserves:
  assumes "lanes_work_ok (lw_territories w) w" "lane_ok (obj_keys (g_territories s)) l"
    and "obj_keys (g_territories s) = obj_keys (lw_territories w)" "delta \<le> 10" "lane_config_ok config"
    and "obj_get (lw_territories w) (la_sourceId l) = Some source" "t_units source \<le> 2 ^ 53"
  shows "\<exists>w' n x. emit_lane hyp s config delta l w = Some (Inr w')
    \<and> lw_emitted w' = lw_emitted w @ replicate n (new_soldier l x)
    \<and> obj_get (lw_territories w') (la_sourceId l) = Some (source\<lparr>t_units := t_units source - of_nat n\<rparr>)
    \<and> (1 \<le> t_units source \<longrightarrow> 1 \<le> t_units source - of_nat n)
    \<and> (\<forall>i. i \<noteq> la_sourceId l \<longrightarrow> obj_get (lw_territories w') i = obj_get (lw_territories w) i)
    \<and> (\<exists>wait\<ge>0. lw_lanes w' = lw_lanes w @ [l\<lparr>la_nextEmitIn := wait\<rparr>])"
proof -
  have lane: "lane_ok (obj_keys (lw_territories w)) l" using assms(2,3) by simp
  obtain w' l' n x source' u where e: "emit_lane hyp s config delta l w = Some (Inr w')"
    "lw_lanes w' = lw_lanes w @ [l']" "same_lane l l'" "obj_get (lw_territories w) (la_sourceId l) = Some source'"
    "lw_emitted w' = lw_emitted w @ replicate n (new_soldier l x)"
    "lw_territories w' = obj_set (la_sourceId l) (source'\<lparr>t_units := u\<rparr>) (lw_territories w)"
    "1 \<le> t_units source' \<longrightarrow> 1 \<le> u" "t_units source' \<le> 2 ^ 53 \<longrightarrow> u = t_units source' - of_nat n"
    using emit_lane_ok [OF assms(1) lane assms(4,5,3)] by blast
  have "source' = source" using e(4) assms(6) by simp
  then have u: "u = t_units source - of_nat n" "1 \<le> t_units source \<longrightarrow> 1 \<le> u" using e(7,8) assms(7) by simp_all
  have board: "obj_get (lw_territories w') i = (if i = la_sourceId l then Some (source\<lparr>t_units := u\<rparr>)
      else obj_get (lw_territories w) i)" for i
    unfolding e(6) \<open>source' = source\<close> by (rule obj_get_set)
  obtain wait where "0 \<le> wait" "l' = l\<lparr>la_nextEmitIn := wait\<rparr>" using e(3) by (auto simp: same_lane_def)
  then show ?thesis using e(1,2,5) u board by (intro exI [of _ w'] exI [of _ n] exI [of _ x]) (simp, blast)
qed

definition example_lane :: lane where
  "example_lane = \<lparr>la_id = ''lane_0'', la_owner = Player, la_sourceId = ''n_center'', la_targetId = ''e'',
     la_routeIds = [''n_center'', ''e''], la_nextEmitIn = 0\<rparr>"

lemma emit_lane_conserves_witness:
  "\<exists>w' n. emit_lane manhattan duel LANE_CONFIG (1 / 64) example_lane
      \<lparr>lw_territories = g_territories duel, lw_stats = empty_stats, lw_emitted = [], lw_lanes = []\<rparr> = Some (Inr w')
    \<and> length (lw_emitted w') = n \<and> (1 :: num) \<le> 14 - of_nat n"
proof -
  let ?w = "\<lparr>lw_territories = g_territories duel, lw_stats = empty_stats, lw_emitted = [], lw_lanes = []\<rparr>"
  let ?t = "example_tower Player 14 Fortress"
  have units: "t_units ?t = 14" by (simp add: example_tower_def)
  have 1: "lanes_work_ok (lw_territories ?w) ?w" using duel_wf by (simp add: lanes_work_ok_def wf_state_def)
  have 2: "lane_ok (obj_keys (g_territories duel)) example_lane" by (simp add: lane_ok_def example_lane_def duel_def)
  have 3: "obj_keys (g_territories duel) = obj_keys (lw_territories ?w)" by simp
  have 4: "obj_get (lw_territories ?w) (la_sourceId example_lane) = Some ?t" by (simp add: example_lane_def duel_def)
  obtain w' n x where "emit_lane manhattan duel LANE_CONFIG (1 / 64) example_lane ?w = Some (Inr w')"
    "lw_emitted w' = lw_emitted ?w @ replicate n (new_soldier example_lane x)" "1 \<le> t_units ?t \<longrightarrow> 1 \<le> t_units ?t - of_nat n"
    using emit_lane_conserves [OF 1 2 3 _ LANE_CONFIG_ok 4, of "1 / 64" manhattan] units by auto
  then show ?thesis using units by auto
qed

text \<open>One soldier that has arrived.\<close>

lemma arrived_soldier:
  assumes "jsub (so_remaining so) delta \<le> LANE_EPSILON" "obj_get (fw_territories w) (so_targetId so) = Some t"
  shows "move_soldier delta so w = soldier_arrives so t w"
  using assms by (simp add: move_soldier_def)

lemma fold_replicate_Suc: "fold f (replicate (Suc n) x) w = f x (fold f (replicate n x) w)"
  by (induction n arbitrary: w) simp_all

text \<open>
  A siege. Soldiers of one side that arrive one after another at a tower of another side first take its
  defenders, one each; the soldier that finds none takes the tower with one unit, and those after it fill it up
  to its capacity. Nothing else on the board changes.
\<close>

theorem soldiers_siege:
  assumes "jsub (so_remaining so) delta \<le> LANE_EPSILON"
    and "obj_get (fw_territories w) (so_targetId so) = Some t" "t_owner t \<noteq> so_owner so"
    and "t_units t = of_nat u" "t_maxUnits t = of_nat cap" "1 \<le> cap" "u \<le> 2 ^ 53" "m \<le> 2 ^ 53"
  shows "obj_get (fw_territories (fold (move_soldier delta) (replicate m so) w)) (so_targetId so)
      = Some (if m \<le> u then t\<lparr>t_units := of_nat (u - m)\<rparr>
              else t\<lparr>t_owner := so_owner so, t_units := of_nat (min cap (m - u))\<rparr>)
    \<and> (\<forall>i. i \<noteq> so_targetId so \<longrightarrow>
        obj_get (fw_territories (fold (move_soldier delta) (replicate m so) w)) i = obj_get (fw_territories w) i)
    \<and> fw_flying (fold (move_soldier delta) (replicate m so) w) = fw_flying w"
  using assms(8)
proof (induction m)
  case 0
  have "t\<lparr>t_units := of_nat u\<rparr> = t" using assms(4) by (metis territory.surjective territory.update_convs(7))
  then show ?case using assms(2) by simp
next
  case (Suc m)
  let ?w = "fold (move_soldier delta) (replicate m so) w"
  let ?t = "if m \<le> u then t\<lparr>t_units := of_nat (u - m)\<rparr>
            else t\<lparr>t_owner := so_owner so, t_units := of_nat (min cap (m - u))\<rparr>"
  have IH: "obj_get (fw_territories ?w) (so_targetId so) = Some ?t"
    "\<forall>i. i \<noteq> so_targetId so \<longrightarrow> obj_get (fw_territories ?w) i = obj_get (fw_territories w) i"
    "fw_flying ?w = fw_flying w" using Suc by simp_all
  have step: "fold (move_soldier delta) (replicate (Suc m) so) w = soldier_arrives so ?t ?w"
    unfolding fold_replicate_Suc by (rule arrived_soldier [OF assms(1) IH(1)])
  consider "m < u" | "m = u" | "u < m" by linarith
  then have "soldier_arrives so ?t ?w = ?w\<lparr>fw_territories := obj_set (so_targetId so)
      (if Suc m \<le> u then t\<lparr>t_units := of_nat (u - Suc m)\<rparr>
       else t\<lparr>t_owner := so_owner so, t_units := of_nat (min cap (Suc m - u))\<rparr>) (fw_territories ?w),
      fw_stats := fw_stats (soldier_arrives so ?t ?w)\<rparr>"
  proof cases
    case 1
    have "of_nat (u - m) - 1 = (of_nat (u - Suc m) :: num)" using 1 by (simp add: of_nat_diff)
    then have "jsub (of_nat (u - m)) 1 = of_nat (u - Suc m)"
      by (simp only:) (rule fl_of_nat_exact, use assms(7) in simp)
    then show ?thesis using 1 assms(3) by (simp add: soldier_arrives_def)
  next
    case 2
    then show ?thesis using assms(3,6) by (simp add: soldier_arrives_def)
  next
    case 3
    have plus: "jadd (of_nat (min cap (m - u))) 1 = of_nat (Suc (min cap (m - u)))"
      using fl_of_nat_exact [of "Suc (min cap (m - u))"] Suc.prems by (simp add: add.commute)
    have "min (of_nat cap) (of_nat (Suc (min cap (m - u)))) = (of_nat (min cap (Suc m - u)) :: num)"
      unfolding of_nat_min [symmetric] using 3 by (intro arg_cong [where f = of_nat]) linarith
    then show ?thesis using 3 assms(5) plus by (simp add: soldier_arrives_def)
  qed
  then show ?case unfolding step using IH(2,3) by (metis (no_types, lifting) obj_get_set soldier_work.select_convs(1,3)
      soldier_work.surjective soldier_work.update_convs(1,2))
qed

lemma soldiers_siege_witness:
  "obj_get (fw_territories (fold (move_soldier (1 / 64)) (replicate 8 (new_soldier example_lane 0))
       \<lparr>fw_territories = g_territories duel, fw_stats = empty_stats, fw_flying = []\<rparr>)) ''e''
     = Some (example_tower Player 3 Fortress\<lparr>t_id := ''e''\<rparr>)"
proof -
  have "obj_get (g_territories duel) ''e'' = Some (example_tower Enemy 5 Fortress\<lparr>t_id := ''e''\<rparr>)" by (simp add: duel_def)
  moreover have "jsub 0 (1 / 64) \<le> LANE_EPSILON"
    by (rule order_trans [OF _ less_imp_le [OF LANE_EPSILON_bounds(1)]]) (simp del: fl_minus)
  ultimately show ?thesis
    using soldiers_siege [of "new_soldier example_lane 0" "1 / 64"
        "\<lparr>fw_territories = g_territories duel, fw_stats = empty_stats, fw_flying = []\<rparr>"
        "example_tower Enemy 5 Fortress\<lparr>t_id := ''e''\<rparr>" 5 55 8]
    by (simp add: new_soldier_def example_lane_def example_tower_def)
qed

end
