(* ===== verification/JsonText.thy ===== *)
theory JsonText
  imports NumberText
begin

text \<open>
  JSON values as the code sees them, and \<open>JSON.stringify\<close>. A property of an object that is absent reads as
  \<open>undefined\<close>, which is \<open>None\<close>. Text is a list of code units below 256, none of which the language escapes
  apart from the quotation mark, the backslash and the control characters.
\<close>

datatype json =
    JNull
  | JBool bool
  | JNumber js_number
  | JString string
  | JArray "json list"
  | JObject "(string \<times> json) list"

definition hex_char :: "nat \<Rightarrow> char" where
  "hex_char d = ''0123456789abcdef'' ! d"

definition escape_char :: "char \<Rightarrow> string" where
  "escape_char c =
     (let n = of_char c :: nat; bs = CHR 0x5C
      in if c = CHR 0x22 then [bs, CHR 0x22]
         else if c = bs then [bs, bs]
         else if n = 8 then [bs, CHR ''b'']
         else if n = 9 then [bs, CHR ''t'']
         else if n = 10 then [bs, CHR ''n'']
         else if n = 12 then [bs, CHR ''f'']
         else if n = 13 then [bs, CHR ''r'']
         else if n < 32 then [bs, CHR ''u'', CHR ''0'', CHR ''0'', hex_char (n div 16), hex_char (n mod 16)]
         else [c])"

definition quote :: "string \<Rightarrow> string" where
  "quote s = [CHR 0x22] @ concat (map escape_char s) @ [CHR 0x22]"

definition number_text :: "js_number \<Rightarrow> string" where
  "number_text v = (case v of Finite x \<Rightarrow> num_string x | _ \<Rightarrow> ''null'')"

fun comma_separated :: "string list \<Rightarrow> string" where
  "comma_separated [] = []"
| "comma_separated [x] = x"
| "comma_separated (x # y # ys) = x @ '','' @ comma_separated (y # ys)"

fun stringify :: "json \<Rightarrow> string" where
  "stringify JNull = ''null''"
| "stringify (JBool b) = (if b then ''true'' else ''false'')"
| "stringify (JNumber v) = number_text v"
| "stringify (JString s) = quote s"
| "stringify (JArray vs) = ''['' @ comma_separated (map stringify vs) @ '']''"
| "stringify (JObject ps) = ''{'' @ comma_separated (map (\<lambda>(k, v). quote k @ '':'' @ stringify v) ps) @ ''}''"

text \<open>Object literals: a property with the value \<open>undefined\<close> is not printed and reads as absent.\<close>

definition field :: "string \<Rightarrow> json option \<Rightarrow> (string \<times> json) list" where
  "field k v = (case v of None \<Rightarrow> [] | Some x \<Rightarrow> [(k, x)])"

abbreviation jnum :: "num \<Rightarrow> json" where "jnum x \<equiv> JNumber (Finite x)"

text \<open>Tests of the runtime type, as \<open>typeof\<close> and \<open>Array.isArray\<close> make them.\<close>

fun json_object :: "json option \<Rightarrow> (string \<times> json) list option" where
  "json_object (Some (JObject ps)) = Some ps"
| "json_object _ = None"

fun json_array :: "json option \<Rightarrow> json list option" where
  "json_array (Some (JArray vs)) = Some vs"
| "json_array _ = None"

fun json_string :: "json option \<Rightarrow> string option" where
  "json_string (Some (JString s)) = Some s"
| "json_string _ = None"

fun json_number :: "json option \<Rightarrow> js_number option" where
  "json_number (Some (JNumber v)) = Some v"
| "json_number _ = None"

fun json_bool :: "json option \<Rightarrow> bool option" where
  "json_bool (Some (JBool b)) = Some b"
| "json_bool _ = None"

lemma json_object_Some: "json_object v = Some ps \<longleftrightarrow> v = Some (JObject ps)"
  by (cases v rule: json_object.cases) auto

lemma json_array_Some: "json_array v = Some vs \<longleftrightarrow> v = Some (JArray vs)"
  by (cases v rule: json_array.cases) auto

lemma json_string_Some: "json_string v = Some s \<longleftrightarrow> v = Some (JString s)"
  by (cases v rule: json_string.cases) auto

lemma json_number_Some: "json_number v = Some n \<longleftrightarrow> v = Some (JNumber n)"
  by (cases v rule: json_number.cases) auto

lemma json_bool_Some: "json_bool v = Some b \<longleftrightarrow> v = Some (JBool b)"
  by (cases v rule: json_bool.cases) auto

lemmas json_inverts = json_object_Some json_array_Some json_string_Some json_number_Some json_bool_Some

end
