(* ===== verification/TwoVTwo.thy ===== *)
theory TwoVTwo
  imports JsonText Pvp "HOL-Library.Word"
begin

unbundle bit_operations_syntax

text \<open>
  \<open>init2v2.ts\<close> and the simulation of \<open>pvp2v2.ts\<close>: four slots in two teams on one board, the canonical order of
  their actions, the replay, and the hash that client and server compare.
\<close>

section \<open>Slots and teams\<close>

datatype slot = Slot0 | Slot1 | Slot2 | Slot3
datatype team_id = TeamA | TeamB

fun slot_number :: "slot \<Rightarrow> nat" where
  "slot_number Slot0 = 0"
| "slot_number Slot1 = 1"
| "slot_number Slot2 = 2"
| "slot_number Slot3 = 3"

instantiation slot :: linorder
begin

definition less_eq_slot :: "slot \<Rightarrow> slot \<Rightarrow> bool" where "a \<le> b \<longleftrightarrow> slot_number a \<le> slot_number b"
definition less_slot :: "slot \<Rightarrow> slot \<Rightarrow> bool" where "a < b \<longleftrightarrow> slot_number a < slot_number b"

instance
  by standard (auto simp: less_eq_slot_def less_slot_def elim!: slot_number.elims)

end

definition TWO_V_TWO_SLOTS :: "slot list" where
  "TWO_V_TWO_SLOTS = [Slot0, Slot1, Slot2, Slot3]"

text \<open>\<open>TWO_V_TWO_SLOTS.includes(value)\<close> on a runtime number, with the slot it finds.\<close>

definition slot_value :: "slot \<Rightarrow> js_number" where
  "slot_value s = Finite (of_nat (slot_number s))"

definition slot_of :: "js_number \<Rightarrow> slot option" where
  "slot_of v = List.find (\<lambda>s. slot_value s = v) TWO_V_TWO_SLOTS"

definition teamIdForSlot :: "slot \<Rightarrow> team_id" where
  "teamIdForSlot s = (if s < Slot2 then TeamA else TeamB)"

definition simulationOwnerForSlot :: "slot \<Rightarrow> team" where
  "simulationOwnerForSlot s = (if teamIdForSlot s = TeamA then Player else Enemy)"

section \<open>The initial state\<close>

text \<open>\<open>createInitial2v2Territories\<close> clones every field of the template.\<close>

definition createInitial2v2Territories :: "battlefield_id \<Rightarrow> territory obj result" where
  "createInitial2v2Territories battlefieldId =
     (let battlefield = getBattlefield (Some battlefieldId)
      in if b_mode battlefield \<noteq> TwoVsTwo then Inl (Thrown ''2v2_initialization_invalid:battlefield_mode'')
         else Inr (fold (\<lambda>template. obj_set (t_id template) template) (b_territories battlefield) []))"

text \<open>The runtime slot of an assignment or an action may be any number.\<close>

record spawn_assignment =
  sa_slot :: js_number
  sa_territoryId :: string

record two_initial_options =
  ti_rules :: "num option"
  ti_territories :: "territory obj"
  ti_assignments :: "spawn_assignment list"
  ti_modifiers :: "slot \<Rightarrow> player_modifiers"
  ti_timeLimit :: "num option"
  ti_battlefieldId :: "battlefield_id option"

definition initialization_error :: "string \<Rightarrow> js_error" where
  "initialization_error reason = Thrown (''2v2_initialization_invalid:'' @ reason)"

fun validate_spawns :: "territory obj \<Rightarrow> slot list \<Rightarrow> string list \<Rightarrow> spawn_assignment list \<Rightarrow> unit result" where
  "validate_spawns ts seenSlots seenTerritories [] = Inr ()"
| "validate_spawns ts seenSlots seenTerritories (a # as) =
     (case slot_of (sa_slot a) of
        None \<Rightarrow> Inl (initialization_error ''slot'')
      | Some slot \<Rightarrow>
          if slot \<in> set seenSlots \<or> sa_territoryId a \<in> set seenTerritories
          then Inl (initialization_error ''spawn_assignments'')
          else (case obj_get ts (sa_territoryId a) of
              None \<Rightarrow> Inl (initialization_error ''spawn_not_found'')
            | Some t \<Rightarrow>
                if t_owner t \<noteq> simulationOwnerForSlot slot then Inl (initialization_error ''spawn_owner'')
                else validate_spawns ts (slot # seenSlots) (sa_territoryId a # seenTerritories) as))"

definition validateSpawnAssignments :: "two_initial_options \<Rightarrow> unit result" where
  "validateSpawnAssignments opts =
     (if length (ti_assignments opts) \<noteq> length TWO_V_TWO_SLOTS
      then Inl (initialization_error ''spawn_assignments'')
      else validate_spawns (ti_territories opts) [] [] (ti_assignments opts))"

text \<open>The lookups of this loop always succeed after the validation; elsewhere they would read \<open>undefined\<close>.\<close>

definition place_spawn ::
  "(slot \<Rightarrow> player_modifiers) \<Rightarrow> spawn_assignment \<Rightarrow> territory obj \<Rightarrow> territory obj result" where
  "place_spawn modifiersBySlot a ts =
     rbind (defined_or_type_error (slot_of (sa_slot a))) (\<lambda>slot.
       let modifiers = modifiersBySlot slot
       in obj_update (sa_territoryId a) (\<lambda>spawn. spawn\<lparr>t_units := pm_startingUnits modifiers,
            t_productionRate := jmul (t_productionRate spawn) (pm_productionRateMultiplier modifiers)\<rparr>) ts)"

definition createInitial2v2GameState :: "two_initial_options \<Rightarrow> game_state result" where
  "createInitial2v2GameState opts =
     rbind (validateSpawnAssignments opts) (\<lambda>_.
       rbind (validateGameplayRulesVersion (case ti_rules opts of Some v \<Rightarrow> v | None \<Rightarrow> GAMEPLAY_RULES_VERSION))
         (\<lambda>version.
           if 3 \<le> version then Inl (Thrown ''unsupported_gameplay_rules_version'')
           else rbind (fold_res (place_spawn (ti_modifiers opts)) (ti_assignments opts) (ti_territories opts)) (\<lambda>ts.
             Inr \<lparr>g_rules = (if version = 2 then Some 2 else None), g_readyAtMs = None, g_shieldedUntilMs = None,
                g_playerAbilityUsed = False, g_enemyAbilityUsed = False, g_battlefieldId = ti_battlefieldId opts,
                g_territories = ts, g_armies = [], g_status = Playing, g_elapsed = 0,
                g_timeLimit = (case ti_timeLimit opts of Some n \<Rightarrow> n | None \<Rightarrow> 90), g_stats = empty_stats\<rparr>)))"

section \<open>The canonical order of actions\<close>

definition MATCH_SCHEMA_VERSION_2 :: num where "MATCH_SCHEMA_VERSION_2 = 2"

record two_action =
  ta_schemaVersion :: js_number
  ta_tick :: js_number
  ta_serverSeq :: js_number
  ta_slot :: js_number
  ta_clientSeq :: js_number
  ta_sourceId :: string
  ta_targetId :: string

definition DEFAULT_MAX_ACTIONS :: nat where "DEFAULT_MAX_ACTIONS = MAX_PVP_ACTIONS * 4"

text \<open>
  The sign of \<open>left - right\<close> as a comparator result: a difference of equal infinities or with \<open>NaN\<close> is
  \<open>NaN\<close>, which is falsy in \<open>||\<close> and counts as zero in \<open>sort\<close>.
\<close>

fun cmp_number :: "js_number \<Rightarrow> js_number \<Rightarrow> num" where
  "cmp_number (Finite a) (Finite b) = jsub a b"
| "cmp_number NaN _ = 0"
| "cmp_number _ NaN = 0"
| "cmp_number PosInfinity PosInfinity = 0"
| "cmp_number NegInfinity NegInfinity = 0"
| "cmp_number PosInfinity _ = 1"
| "cmp_number _ NegInfinity = 1"
| "cmp_number _ _ = -1"

definition compareCanonicalActions :: "two_action \<Rightarrow> two_action \<Rightarrow> num" where
  "compareCanonicalActions left right =
     cmp_or (cmp_number (ta_tick left) (ta_tick right))
       (cmp_or (cmp_number (ta_serverSeq left) (ta_serverSeq right))
         (cmp_or (cmp_number (ta_slot left) (ta_slot right))
           (cmp_number (ta_clientSeq left) (ta_clientSeq right))))"

definition natural_number :: "js_number \<Rightarrow> bool" where
  "natural_number v \<longleftrightarrow> number_is_safe_integer v \<and> (case v of Finite x \<Rightarrow> 0 \<le> x | _ \<Rightarrow> False)"

fun check_actions :: "js_number list \<Rightarrow> (slot \<Rightarrow> nat) \<Rightarrow> two_action list \<Rightarrow> unit result" where
  "check_actions seenServer nextClient [] = Inr ()"
| "check_actions seenServer nextClient (a # as) =
     (if ta_schemaVersion a \<noteq> Finite MATCH_SCHEMA_VERSION_2 then Inl (TwoVTwoSimulationError ''invalid_schema_version'')
      else if \<not> natural_number (ta_tick a) then Inl (TwoVTwoSimulationError ''invalid_tick'')
      else if \<not> natural_number (ta_serverSeq a) then Inl (TwoVTwoSimulationError ''invalid_server_sequence'')
      else if ta_serverSeq a \<in> set seenServer then Inl (TwoVTwoSimulationError ''invalid_server_sequence'')
      else case slot_of (ta_slot a) of
          None \<Rightarrow> Inl (TwoVTwoSimulationError ''invalid_slot'')
        | Some slot \<Rightarrow>
            if \<not> number_is_safe_integer (ta_clientSeq a) \<or> ta_clientSeq a \<noteq> Finite (of_nat (nextClient slot))
            then Inl (TwoVTwoSimulationError ''invalid_client_sequence'')
            else if ta_sourceId a = [] then Inl (TwoVTwoSimulationError ''invalid_source'')
            else if ta_targetId a = [] then Inl (TwoVTwoSimulationError ''invalid_target'')
            else check_actions (ta_serverSeq a # seenServer) (nextClient(slot := Suc (nextClient slot))) as)"

definition canonicalizeTwoVTwoActions :: "two_action list \<Rightarrow> num option \<Rightarrow> two_action list result" where
  "canonicalizeTwoVTwoActions actions maxActions =
     (if (case maxActions of Some n \<Rightarrow> n | None \<Rightarrow> of_nat DEFAULT_MAX_ACTIONS) < of_nat (length actions)
      then Inl (TwoVTwoSimulationError ''too_many_actions'')
      else let canonical = js_sort compareCanonicalActions actions
        in rbind (check_actions [] (\<lambda>_. 0) canonical) (\<lambda>_. Inr canonical))"

section \<open>The simulation\<close>

record two_options =
  to_initial :: two_initial_options
  to_actions :: "two_action list"
  to_maxActions :: "num option"

record two_battle =
  tb_state :: game_state
  tb_accumulators :: "num obj"
  tb_tick :: nat
  tb_processed :: nat

definition maximum_tick :: "num \<Rightarrow> num" where
  "maximum_tick limit = math_floor (jadd (jdiv limit PVP_SIMULATION_TICK_SECONDS) CLOCK_EPSILON)"

definition battle_step :: "hypot_fn \<Rightarrow> num \<Rightarrow> two_battle \<Rightarrow> two_battle result" where
  "battle_step hyp delta b =
     rbind (stepSimulation hyp (tb_state b) (tb_accumulators b) delta) (\<lambda>stepped.
       Inr (b\<lparr>tb_state := sr_state stepped, tb_accumulators := sr_accumulators stepped\<rparr>))"

definition battle_tick :: "hypot_fn \<Rightarrow> two_battle \<Rightarrow> two_battle result" where
  "battle_tick hyp b =
     rbind (battle_step hyp PVP_SIMULATION_TICK_SECONDS b) (\<lambda>b. Inr (b\<lparr>tb_tick := Suc (tb_tick b)\<rparr>))"

definition stepUntil :: "hypot_fn \<Rightarrow> num \<Rightarrow> two_battle \<Rightarrow> two_battle run" where
  "stepUntil hyp targetTick =
     while_res (\<lambda>b. g_status (tb_state b) = Playing \<and> of_nat (tb_tick b) < targetTick) (battle_tick hyp)"

definition two_army_id :: "two_action \<Rightarrow> string" where
  "two_army_id a = ''2v2_'' @ number_text (ta_tick a) @ ''_'' @ number_text (ta_serverSeq a) @ ''_''
     @ number_text (ta_slot a) @ ''_'' @ number_text (ta_clientSeq a)"

text \<open>The dispatch is given no state, so it never looks for a route.\<close>

definition two_order :: "hypot_fn \<Rightarrow> (slot \<Rightarrow> player_modifiers) \<Rightarrow> two_action \<Rightarrow> game_state \<Rightarrow> game_state result" where
  "two_order hyp modifiersBySlot a s =
     (case obj_get (g_territories s) (ta_sourceId a) of
        None \<Rightarrow> Inl (TwoVTwoSimulationError ''invalid_source'')
      | Some source \<Rightarrow> (case obj_get (g_territories s) (ta_targetId a) of
          None \<Rightarrow> Inl (TwoVTwoSimulationError ''invalid_target'')
        | Some target \<Rightarrow>
            rbind (defined_or_type_error (slot_of (ta_slot a))) (\<lambda>slot.
              let owner = simulationOwnerForSlot slot
              in if t_owner source \<noteq> owner then Inl (TwoVTwoSimulationError ''slot_not_permitted'')
                 else rbind (dispatchArmy hyp source target owner (1 / 2) (two_army_id a)
                     (Finite (pm_armySpeedMultiplier (modifiersBySlot slot))) None) (\<lambda>r. case r of
                   DispatchFailed _ \<Rightarrow> Inl (TwoVTwoSimulationError ''invalid_dispatch'')
                 | Dispatched left m \<Rightarrow> Inr (s\<lparr>g_territories := obj_set (t_id source) left (g_territories s),
                     g_armies := g_armies s @ [m],
                     g_stats := (g_stats s)\<lparr>
                       ms_playerUnitsDispatched := (if owner = Player
                         then jadd (ms_playerUnitsDispatched (g_stats s)) (a_units m)
                         else ms_playerUnitsDispatched (g_stats s)),
                       ms_enemyUnitsDispatched := (if owner = Enemy
                         then jadd (ms_enemyUnitsDispatched (g_stats s)) (a_units m)
                         else ms_enemyUnitsDispatched (g_stats s))\<rparr>\<rparr>)))))"

definition play_action ::
  "hypot_fn \<Rightarrow> two_initial_options \<Rightarrow> num \<Rightarrow> two_action \<Rightarrow> two_battle \<Rightarrow> two_battle run" where
  "play_action hyp opts maximumTick a b =
     (if maximumTick < finite_value (ta_tick a) then Some (Inl (TwoVTwoSimulationError ''invalid_tick''))
      else run_bind (stepUntil hyp (finite_value (ta_tick a)) b) (\<lambda>b.
        if g_status (tb_state b) \<noteq> Playing then Some (Inl (TwoVTwoSimulationError ''action_after_battle_end''))
        else Some (rbind (two_order hyp (ti_modifiers opts) a (tb_state b)) (\<lambda>s.
          Inr (b\<lparr>tb_state := s, tb_processed := Suc (tb_processed b)\<rparr>)))))"

fun play_actions ::
  "hypot_fn \<Rightarrow> two_initial_options \<Rightarrow> num \<Rightarrow> two_action list \<Rightarrow> two_battle \<Rightarrow> two_battle run" where
  "play_actions hyp opts maximumTick [] b = Some (Inr b)"
| "play_actions hyp opts maximumTick (a # as) b =
     run_bind (play_action hyp opts maximumTick a b) (play_actions hyp opts maximumTick as)"

definition finish_battle :: "hypot_fn \<Rightarrow> num \<Rightarrow> two_battle \<Rightarrow> two_battle run" where
  "finish_battle hyp maximumTick b =
     run_bind (stepUntil hyp maximumTick b) (\<lambda>b.
       if g_status (tb_state b) = Playing
       then Some (battle_step hyp (max 0 (jsub (g_timeLimit (tb_state b)) (g_elapsed (tb_state b)))) b)
       else Some (Inr b))"

section \<open>The hash of a state\<close>

definition team_name :: "team \<Rightarrow> string" where
  "team_name w = (case w of Player \<Rightarrow> ''player'' | Enemy \<Rightarrow> ''enemy'' | Neutral \<Rightarrow> ''neutral'')"

definition status_name :: "match_status \<Rightarrow> string" where
  "status_name st = (case st of Playing \<Rightarrow> ''playing'' | Victory \<Rightarrow> ''victory'' | Defeat \<Rightarrow> ''defeat'' | Draw \<Rightarrow> ''draw'')"

definition type_name :: "territory_type \<Rightarrow> string" where
  "type_name ty = (case ty of Fortress \<Rightarrow> ''fortress'' | Barracks \<Rightarrow> ''barracks'' | Stable \<Rightarrow> ''stable'')"

text \<open>
  The properties in the order in which \<open>createInitial2v2GameState\<close>, \<open>dispatchArmy\<close> and
  \<open>stepSimulation\<close> write them, which is the order in which they are printed.
\<close>

definition territory_json :: "territory \<Rightarrow> json" where
  "territory_json t = JObject [(''id'', JString (t_id t)), (''name'', JString (t_name t)), (''x'', jnum (t_x t)),
     (''y'', jnum (t_y t)), (''radius'', jnum (t_radius t)), (''owner'', JString (team_name (t_owner t))),
     (''units'', jnum (t_units t)), (''maxUnits'', jnum (t_maxUnits t)),
     (''productionRate'', jnum (t_productionRate t)), (''tier'', jnum (of_nat (t_tier t))),
     (''type'', JString (type_name (t_type t)))]"

definition army_json :: "army \<Rightarrow> json" where
  "army_json m = JObject ([(''id'', JString (a_id m)), (''sourceId'', JString (a_sourceId m)),
     (''targetId'', JString (a_targetId m)), (''owner'', JString (team_name (a_owner m))),
     (''units'', jnum (a_units m)), (''startX'', jnum (a_startX m)), (''startY'', jnum (a_startY m)),
     (''targetX'', jnum (a_targetX m)), (''targetY'', jnum (a_targetY m)), (''progress'', jnum (a_progress m)),
     (''speed'', jnum (a_speed m)), (''distance'', jnum (a_distance m))]
     @ field ''routeIds'' (map_option (\<lambda>r. JArray (map JString r)) (a_routeIds m))
     @ field ''routeSpeedMultiplier'' (map_option jnum (a_routeSpeed m))
     @ field ''routeLeg'' (map_option (\<lambda>n. jnum (of_nat n)) (a_routeLeg m)))"

definition stats_json :: "match_stats \<Rightarrow> json" where
  "stats_json st = JObject [(''matchDurationSeconds'', jnum (ms_duration st)),
     (''playerUnitsDispatched'', jnum (ms_playerUnitsDispatched st)),
     (''enemyUnitsDispatched'', jnum (ms_enemyUnitsDispatched st)),
     (''territoriesCapturedByPlayer'', jnum (ms_capturedByPlayer st)),
     (''territoriesCapturedByEnemy'', jnum (ms_capturedByEnemy st))]"

definition cmp_key :: "string \<times> 'v \<Rightarrow> string \<times> 'v \<Rightarrow> num" where
  "cmp_key left right = cmp_string (fst left) (fst right)"

definition sorted_entries :: "('v \<Rightarrow> json) \<Rightarrow> 'v obj \<Rightarrow> json" where
  "sorted_entries f ob = JObject (map (\<lambda>(k, v). (k, f v)) (js_sort cmp_key ob))"

definition canonical_state :: "game_state \<Rightarrow> json" where
  "canonical_state s = JObject (field ''battlefieldId'' (map_option JString (g_battlefieldId s))
     @ [(''territories'', sorted_entries territory_json (g_territories s)),
        (''armies'', JArray (map army_json (g_armies s))),
        (''status'', JString (status_name (g_status s))),
        (''elapsedTimeSeconds'', jnum (g_elapsed s)),
        (''timeLimitSeconds'', jnum (g_timeLimit s)),
        (''stats'', stats_json (g_stats s))]
     @ field ''gameplayRulesVersion'' (map_option jnum (g_rules s))
     @ field ''productionReadyAtMs'' (map_option (sorted_entries jnum) (g_readyAtMs s))
     @ field ''shieldedUntilMs'' (map_option (\<lambda>ob. JObject (map (\<lambda>(k, v). (k, jnum v)) ob)) (g_shieldedUntilMs s))
     @ field ''playerAbilityUsed'' (if g_playerAbilityUsed s then Some (JBool True) else None)
     @ field ''enemyAbilityUsed'' (if g_enemyAbilityUsed s then Some (JBool True) else None))"

text \<open>The 32-bit FNV-1a hash: \<open>Math.imul\<close> keeps the low 32 bits of the product.\<close>

definition fnv_step :: "char \<Rightarrow> 32 word \<Rightarrow> 32 word" where
  "fnv_step c hash = (hash XOR of_nat (of_char c)) * 0x01000193"

definition fnv_hash :: "string \<Rightarrow> 32 word" where
  "fnv_hash text = fold fnv_step text 0x811c9dc5"

fun hex_string :: "nat \<Rightarrow> string" where
  "hex_string n = (if n < 16 then [hex_char n] else hex_string (n div 16) @ [hex_char (n mod 16)])"

declare hex_string.simps [simp del]

definition hashTwoVTwoState :: "game_state \<Rightarrow> string" where
  "hashTwoVTwoState s = pad_left 8 (hex_string (unat (fnv_hash (stringify (canonical_state s)))))"

section \<open>The whole battle\<close>

record two_result =
  tz_canonicalActions :: "two_action list"
  tz_finalState :: game_state
  tz_stateHash :: string
  tz_actionsProcessed :: nat

definition battle_start :: "game_state \<Rightarrow> two_battle" where
  "battle_start s = \<lparr>tb_state = s, tb_accumulators = [], tb_tick = 0, tb_processed = 0\<rparr>"

definition simulate2v2Battle :: "hypot_fn \<Rightarrow> two_options \<Rightarrow> two_result run" where
  "simulate2v2Battle hyp opts =
     run_bind (Some (canonicalizeTwoVTwoActions (to_actions opts) (to_maxActions opts))) (\<lambda>canonicalActions.
       run_bind (Some (createInitial2v2GameState (to_initial opts))) (\<lambda>s.
         let maximumTick = maximum_tick (g_timeLimit s)
         in run_bind (play_actions hyp (to_initial opts) maximumTick canonicalActions (battle_start s)) (\<lambda>b.
           run_bind (finish_battle hyp maximumTick b) (\<lambda>b.
             Some (Inr \<lparr>tz_canonicalActions = canonicalActions, tz_finalState = tb_state b,
               tz_stateHash = hashTwoVTwoState (tb_state b), tz_actionsProcessed = tb_processed b\<rparr>)))))"

end
