(* ===== verification/TwoVTwoProtocol.thy ===== *)
theory TwoVTwoProtocol
  imports TwoVTwo
begin

text \<open>
  The wire protocol of \<open>pvp2v2.ts\<close>: the payloads the server sends, the validator that every inbound message
  passes before a client changes its match state, and the messages a client sends. A game state, statistics and a
  settlement travel as JSON values that the validator only inspects.
\<close>

section \<open>Payloads\<close>

definition TWO_V_TWO_MATCH_MODE :: string where "TWO_V_TWO_MATCH_MODE = ''2v2''"

record roster_entry =
  re_slot :: slot
  re_teamId :: team_id
  re_userId :: string
  re_displayName :: string

record match_started =
  sm_matchId :: string
  sm_mode :: string
  sm_slot :: slot
  sm_teamId :: team_id
  sm_nextSequence :: num
  sm_players :: "roster_entry list"
  sm_state :: json

record state_payload =
  sp_tick :: num
  sp_state :: json

record command_accepted =
  ca_sequence :: num
  ca_slot :: slot

record command_rejected =
  cr_sequence :: num
  cr_code :: string

datatype participant_status = Won | Lost | Drawn

record participant_result =
  pr_slot :: slot
  pr_teamId :: team_id
  pr_userId :: string
  pr_status :: participant_status
  pr_stats :: "json option"
  pr_abandoned :: "bool option"
  pr_settlement :: "json option"

text \<open>\<open>outcome\<close> is absent or \<open>'cancelled'\<close>.\<close>

record match_result =
  mr_matchId :: string
  mr_mode :: string
  mr_winnerTeamId :: "team_id option"
  mr_cancelled :: bool
  mr_participants :: "participant_result list option"

datatype server_message =
    MatchStarted match_started
  | StateMessage state_payload
  | CommandAccepted command_accepted
  | CommandRejected command_rejected
  | MatchResult match_result
  | RematchStarted string
  | MatchClosed string
  | ErrorMessage string

definition team_id_text :: "team_id \<Rightarrow> string" where
  "team_id_text t = (case t of TeamA \<Rightarrow> ''a'' | TeamB \<Rightarrow> ''b'')"

definition participant_status_text :: "participant_status \<Rightarrow> string" where
  "participant_status_text p = (case p of Won \<Rightarrow> ''victory'' | Lost \<Rightarrow> ''defeat'' | Drawn \<Rightarrow> ''draw'')"

section \<open>Tests and parsers of values\<close>

definition require :: "bool \<Rightarrow> 'a option \<Rightarrow> 'a option" where
  "require b v = (if b then v else None)"

definition isGameState :: "json option \<Rightarrow> bool" where
  "isGameState v = (case json_object v of
     None \<Rightarrow> False
   | Some ps \<Rightarrow> json_string (obj_get ps ''status'') \<noteq> None \<and> json_object (obj_get ps ''territories'') \<noteq> None
       \<and> json_array (obj_get ps ''armies'') \<noteq> None)"

text \<open>\<open>isFiniteInt\<close>, with the number it accepts.\<close>

definition finite_int :: "json option \<Rightarrow> num option" where
  "finite_int v = (case json_number v of
     None \<Rightarrow> None
   | Some n \<Rightarrow> require (natural_number n) (Some (finite_value n)))"

definition nonempty_string :: "json option \<Rightarrow> string option" where
  "nonempty_string v = (case json_string v of None \<Rightarrow> None | Some s \<Rightarrow> require (s \<noteq> []) (Some s))"

definition parseMatchStats :: "json option \<Rightarrow> json option" where
  "parseMatchStats v = (case json_object v of
     None \<Rightarrow> None
   | Some ps \<Rightarrow> require (json_number (obj_get ps ''matchDurationSeconds'') \<noteq> None) v)"

definition parseSettlement :: "json option \<Rightarrow> json option" where
  "parseSettlement v = (case json_object v of
     None \<Rightarrow> None
   | Some ps \<Rightarrow> require (json_string (obj_get ps ''matchId'') \<noteq> None) v)"

definition parseSlot :: "json option \<Rightarrow> slot option" where
  "parseSlot v = Option.bind (finite_int v) (\<lambda>n. slot_of (Finite n))"

definition is_team :: "json option \<Rightarrow> team_id \<Rightarrow> bool" where
  "is_team v t \<longleftrightarrow> v = Some (JString (team_id_text t))"

definition parse_roster_entry :: "slot list \<Rightarrow> json \<Rightarrow> roster_entry option" where
  "parse_roster_entry seen v =
     Option.bind (json_object (Some v)) (\<lambda>entry.
     Option.bind (parseSlot (obj_get entry ''slot'')) (\<lambda>slot.
     require (slot \<notin> set seen) (
     Option.bind (nonempty_string (obj_get entry ''userId'')) (\<lambda>userId.
     Option.bind (json_string (obj_get entry ''displayName'')) (\<lambda>displayName.
     require (is_team (obj_get entry ''teamId'') (teamIdForSlot slot))
       (Some \<lparr>re_slot = slot, re_teamId = teamIdForSlot slot, re_userId = userId, re_displayName = displayName\<rparr>))))))"

fun roster_from :: "slot list \<Rightarrow> json list \<Rightarrow> roster_entry list option" where
  "roster_from seen [] = Some []"
| "roster_from seen (v # vs) =
     Option.bind (parse_roster_entry seen v) (\<lambda>e.
     Option.bind (roster_from (re_slot e # seen) vs) (\<lambda>es. Some (e # es)))"

definition parseRoster :: "json option \<Rightarrow> roster_entry list option" where
  "parseRoster v = Option.bind (json_array v) (\<lambda>vs. require (length vs = length TWO_V_TWO_SLOTS) (roster_from [] vs))"

section \<open>Parsing a server message\<close>

definition parse_status :: "json option \<Rightarrow> participant_status option" where
  "parse_status v = List.find (\<lambda>p. v = Some (JString (participant_status_text p))) [Won, Lost, Drawn]"

definition parse_participant :: "slot list \<Rightarrow> string list \<Rightarrow> json \<Rightarrow> participant_result option" where
  "parse_participant seenSlots seenUsers v =
     Option.bind (json_object (Some v)) (\<lambda>entry.
     Option.bind (parseSlot (obj_get entry ''slot'')) (\<lambda>slot.
     require (is_team (obj_get entry ''teamId'') (teamIdForSlot slot)) (
     Option.bind (nonempty_string (obj_get entry ''userId'')) (\<lambda>userId.
     require (slot \<notin> set seenSlots \<and> userId \<notin> set seenUsers) (
     Option.bind (parse_status (obj_get entry ''status'')) (\<lambda>status.
       Some \<lparr>pr_slot = slot, pr_teamId = teamIdForSlot slot, pr_userId = userId, pr_status = status,
         pr_stats = parseMatchStats (obj_get entry ''stats''), pr_abandoned = json_bool (obj_get entry ''abandoned''),
         pr_settlement = parseSettlement (obj_get entry ''settlement'')\<rparr>))))))"

fun participants_from :: "slot list \<Rightarrow> string list \<Rightarrow> json list \<Rightarrow> participant_result list option" where
  "participants_from seenSlots seenUsers [] = Some []"
| "participants_from seenSlots seenUsers (v # vs) =
     Option.bind (parse_participant seenSlots seenUsers v) (\<lambda>p.
     Option.bind (participants_from (pr_slot p # seenSlots) (pr_userId p # seenUsers) vs) (\<lambda>ps. Some (p # ps)))"

text \<open>The winner: \<open>undefined\<close>, or one of the teams; the outer option is the rejection.\<close>

definition parse_winner :: "json option \<Rightarrow> team_id option option" where
  "parse_winner v =
     (if v = None then Some None
      else if is_team v TeamA then Some (Some TeamA)
      else if is_team v TeamB then Some (Some TeamB) else None)"

definition parse_match_started :: "(string \<times> json) list \<Rightarrow> server_message option" where
  "parse_match_started raw =
     Option.bind (nonempty_string (obj_get raw ''matchId'')) (\<lambda>matchId.
     require (obj_get raw ''mode'' = Some (JString TWO_V_TWO_MATCH_MODE)) (
     Option.bind (parseSlot (obj_get raw ''slot'')) (\<lambda>slot.
     require (is_team (obj_get raw ''teamId'') (teamIdForSlot slot)) (
     Option.bind (finite_int (obj_get raw ''nextSequence'')) (\<lambda>nextSequence.
     Option.bind (parseRoster (obj_get raw ''players'')) (\<lambda>players.
     require (isGameState (obj_get raw ''state'')) (
     Option.bind (obj_get raw ''state'') (\<lambda>state.
       Some (MatchStarted \<lparr>sm_matchId = matchId, sm_mode = TWO_V_TWO_MATCH_MODE, sm_slot = slot,
         sm_teamId = teamIdForSlot slot, sm_nextSequence = nextSequence, sm_players = players, sm_state = state\<rparr>)))))))))"

definition parse_match_result :: "(string \<times> json) list \<Rightarrow> server_message option" where
  "parse_match_result raw =
     Option.bind (json_object (obj_get raw ''result'')) (\<lambda>result.
     Option.bind (nonempty_string (obj_get result ''matchId'')) (\<lambda>matchId.
     require (obj_get result ''mode'' = Some (JString TWO_V_TWO_MATCH_MODE)) (
       if obj_get result ''outcome'' = Some (JString ''cancelled'')
       then Some (MatchResult \<lparr>mr_matchId = matchId, mr_mode = TWO_V_TWO_MATCH_MODE, mr_winnerTeamId = None,
         mr_cancelled = True, mr_participants = None\<rparr>)
       else
         Option.bind (json_array (obj_get result ''participants'')) (\<lambda>vs.
         require (length vs = length TWO_V_TWO_SLOTS) (
         Option.bind (participants_from [] [] vs) (\<lambda>participants.
         Option.bind (parse_winner (obj_get result ''winnerTeamId'')) (\<lambda>winner.
           Some (MatchResult \<lparr>mr_matchId = matchId, mr_mode = TWO_V_TWO_MATCH_MODE, mr_winnerTeamId = winner,
             mr_cancelled = False, mr_participants = Some participants\<rparr>))))))))"

definition parse_message :: "string \<Rightarrow> (string \<times> json) list \<Rightarrow> server_message option" where
  "parse_message ty raw =
     (if ty = ''match_started'' then parse_match_started raw
      else if ty = ''state'' then
        Option.bind (finite_int (obj_get raw ''tick'')) (\<lambda>tick.
        require (isGameState (obj_get raw ''state'')) (
        Option.bind (obj_get raw ''state'') (\<lambda>state. Some (StateMessage \<lparr>sp_tick = tick, sp_state = state\<rparr>))))
      else if ty = ''command_accepted'' then
        Option.bind (finite_int (obj_get raw ''sequence'')) (\<lambda>sequence.
        Option.bind (parseSlot (obj_get raw ''slot'')) (\<lambda>slot.
          Some (CommandAccepted \<lparr>ca_sequence = sequence, ca_slot = slot\<rparr>)))
      else if ty = ''command_rejected'' then
        Option.bind (finite_int (obj_get raw ''sequence'')) (\<lambda>sequence.
        Option.bind (nonempty_string (obj_get raw ''code'')) (\<lambda>code.
          Some (CommandRejected \<lparr>cr_sequence = sequence, cr_code = code\<rparr>)))
      else if ty = ''match_result'' then parse_match_result raw
      else if ty = ''rematch_started'' then map_option RematchStarted (nonempty_string (obj_get raw ''matchId''))
      else if ty = ''match_closed'' then map_option MatchClosed (nonempty_string (obj_get raw ''matchId''))
      else if ty = ''error'' then map_option ErrorMessage (nonempty_string (obj_get raw ''code''))
      else None)"

definition parseTwoVTwoServerMessage :: "json option \<Rightarrow> server_message option" where
  "parseTwoVTwoServerMessage v =
     Option.bind (json_object v) (\<lambda>raw.
     require (obj_get raw ''schemaVersion'' = Some (jnum MATCH_SCHEMA_VERSION_2)) (
     Option.bind (json_string (obj_get raw ''type'')) (\<lambda>ty. parse_message ty raw)))"

section \<open>Messages of a client\<close>

definition client_message :: "string \<Rightarrow> (string \<times> json) list \<Rightarrow> string" where
  "client_message ty rest =
     stringify (JObject ([(''schemaVersion'', jnum MATCH_SCHEMA_VERSION_2), (''type'', JString ty)] @ rest))"

definition createTwoVTwoDispatchMessage :: "js_number \<Rightarrow> string \<Rightarrow> string \<Rightarrow> string" where
  "createTwoVTwoDispatchMessage sequence sourceId targetId =
     client_message ''dispatch'' [(''sequence'', JNumber sequence), (''sourceId'', JString sourceId), (''targetId'', JString targetId)]"

definition createTwoVTwoReadyMessage :: string where
  "createTwoVTwoReadyMessage = client_message ''ready'' []"

definition createTwoVTwoSurrenderMessage :: string where
  "createTwoVTwoSurrenderMessage = client_message ''surrender'' []"

definition createTwoVTwoRematchVoteMessage :: string where
  "createTwoVTwoRematchVoteMessage = client_message ''rematch_vote'' []"

end
