(* ===== verification/TwoVTwoFacts.thy ===== *)
theory TwoVTwoFacts
  imports TwoVTwo PvpReplay "HOL-Library.Product_Lexorder"
begin

text \<open>
  What the 2v2 code guarantees: which spawn assignments are accepted, the canonical order of the actions, and a
  battle that returns for every input.
\<close>

section \<open>Slots\<close>

lemma slot_of_value [simp]: "slot_of (slot_value s) = Some s"
  by (cases s) (simp_all add: slot_of_def slot_value_def TWO_V_TWO_SLOTS_def)

lemma slot_of_eq: "slot_of v = Some s \<longleftrightarrow> v = slot_value s"
proof
  show "slot_of v = Some s \<Longrightarrow> v = slot_value s" by (auto simp: slot_of_def find_Some_iff)
qed simp

lemma slot_number_inj: "slot_number s = slot_number t \<longleftrightarrow> s = t"
  by (cases s; cases t) simp_all

lemma all_slots: "set TWO_V_TWO_SLOTS = UNIV" "distinct TWO_V_TWO_SLOTS" "length TWO_V_TWO_SLOTS = 4"
  using slot.exhaust by (auto simp: TWO_V_TWO_SLOTS_def)

lemma slot_below: "s < Slot2 \<longleftrightarrow> s = Slot0 \<or> s = Slot1"
  by (cases s) (simp_all add: less_slot_def)

lemma simulationOwner_cases: "simulationOwnerForSlot s = (if s = Slot0 \<or> s = Slot1 then Player else Enemy)"
  by (simp add: simulationOwnerForSlot_def teamIdForSlot_def slot_below)

lemma simulationOwner_side: "simulationOwnerForSlot s \<noteq> Neutral"
  by (simp add: simulationOwner_cases)

section \<open>Spawn assignments\<close>

definition spawn_ok :: "territory obj \<Rightarrow> spawn_assignment \<Rightarrow> bool" where
  "spawn_ok ts a \<longleftrightarrow> (\<exists>s t. slot_of (sa_slot a) = Some s \<and> obj_get ts (sa_territoryId a) = Some t
     \<and> t_owner t = simulationOwnerForSlot s)"

definition spawn_slot :: "spawn_assignment \<Rightarrow> slot" where
  "spawn_slot a = the (slot_of (sa_slot a))"

lemma validate_spawns_ok:
  "validate_spawns ts ss is as = Inr () \<longleftrightarrow> (\<forall>a\<in>set as. spawn_ok ts a)
     \<and> distinct (map spawn_slot as) \<and> set ss \<inter> spawn_slot ` set as = {}
     \<and> distinct (map sa_territoryId as) \<and> set is \<inter> sa_territoryId ` set as = {}"
  by (induction ts ss "is" as rule: validate_spawns.induct)
     (auto simp: spawn_ok_def spawn_slot_def split: option.splits)

definition init_reasons :: "string list" where
  "init_reasons = [''spawn_assignments'', ''slot'', ''spawn_not_found'', ''spawn_owner'']"

lemma validate_spawns_error:
  "validate_spawns ts ss is as = Inl e \<Longrightarrow> \<exists>reason\<in>set init_reasons. e = initialization_error reason"
  by (induction ts ss "is" as rule: validate_spawns.induct)
     (auto simp: init_reasons_def split: option.splits if_splits)

text \<open>A valid assignment gives each of the four slots one tower of its own side.\<close>

definition spawns_ok :: "two_initial_options \<Rightarrow> bool" where
  "spawns_ok opts \<longleftrightarrow> mset (map spawn_slot (ti_assignments opts)) = mset TWO_V_TWO_SLOTS
     \<and> distinct (map sa_territoryId (ti_assignments opts))
     \<and> (\<forall>a\<in>set (ti_assignments opts). spawn_ok (ti_territories opts) a)"

lemma four_slots: "mset ss = mset TWO_V_TWO_SLOTS \<longleftrightarrow> length ss = 4 \<and> distinct ss" for ss :: "slot list"
proof
  assume "length ss = 4 \<and> distinct ss"
  moreover have "card (UNIV :: slot set) = 4"
    using all_slots distinct_card [of TWO_V_TWO_SLOTS] by simp
  moreover have fin: "finite (UNIV :: slot set)" using all_slots(1) by (metis finite_set)
  ultimately have "set ss = UNIV" by (metis card_subset_eq distinct_card subset_UNIV)
  then show "mset ss = mset TWO_V_TWO_SLOTS"
    using \<open>length ss = 4 \<and> distinct ss\<close> all_slots by (simp add: set_eq_iff_mset_eq_distinct [symmetric])
next
  assume eq: "mset ss = mset TWO_V_TWO_SLOTS"
  have "length ss = 4" using mset_eq_length [OF eq] all_slots(3) by simp
  moreover have "distinct ss" using mset_eq_imp_distinct_iff [OF eq] all_slots(2) by simp
  ultimately show "length ss = 4 \<and> distinct ss" by blast
qed

lemma validateSpawnAssignments_ok: "validateSpawnAssignments opts = Inr () \<longleftrightarrow> spawns_ok opts"
  unfolding spawns_ok_def four_slots
  by (auto simp: validateSpawnAssignments_def validate_spawns_ok all_slots)

lemma validateSpawnAssignments_error:
  "validateSpawnAssignments opts = Inl e \<Longrightarrow> \<exists>reason\<in>set init_reasons. e = initialization_error reason"
  using validate_spawns_error by (auto simp: validateSpawnAssignments_def init_reasons_def split: if_splits)

text \<open>Placing the spawns writes one tower each.\<close>

definition spawned :: "(slot \<Rightarrow> player_modifiers) \<Rightarrow> spawn_assignment \<Rightarrow> territory \<Rightarrow> territory" where
  "spawned mods a t = t\<lparr>t_units := pm_startingUnits (mods (spawn_slot a)),
     t_productionRate := jmul (t_productionRate t) (pm_productionRateMultiplier (mods (spawn_slot a)))\<rparr>"

lemma place_spawn_ok:
  assumes "spawn_ok ts a" "obj_get ts' (sa_territoryId a) = Some t"
  shows "place_spawn mods a ts' = Inr (obj_set (sa_territoryId a) (spawned mods a t) ts')"
proof -
  obtain s where s: "slot_of (sa_slot a) = Some s" using assms(1) by (auto simp: spawn_ok_def)
  show ?thesis by (simp add: place_spawn_def s assms(2) spawned_def spawn_slot_def obj_update_def Let_def)
qed

definition spawn_at :: "spawn_assignment list \<Rightarrow> string \<Rightarrow> spawn_assignment option" where
  "spawn_at as i = List.find (\<lambda>a. sa_territoryId a = i) as"

lemma place_spawns_ok:
  assumes "\<forall>a\<in>set as. spawn_ok ts a" "distinct (map sa_territoryId as)"
    and "obj_keys ts' = obj_keys ts"
  shows "\<exists>ts''. fold_res (place_spawn mods) as ts' = Inr ts'' \<and> obj_keys ts'' = obj_keys ts'
    \<and> (\<forall>i. obj_get ts'' i = (case spawn_at as i of None \<Rightarrow> obj_get ts' i
          | Some a \<Rightarrow> map_option (spawned mods a) (obj_get ts' i)))"
  using assms
proof (induction as arbitrary: ts')
  case (Cons a as)
  let ?i = "sa_territoryId a"
  have ok: "spawn_ok ts a" using Cons.prems(1) by simp
  then obtain t0 where "obj_get ts ?i = Some t0" unfolding spawn_ok_def by blast
  then have key: "?i \<in> set (obj_keys ts')" unfolding Cons.prems(3) by (rule obj_get_Some_key)
  then obtain t where t: "obj_get ts' ?i = Some t" using obj_get_ex by metis
  let ?ts1 = "obj_set ?i (spawned mods a t) ts'"
  have keys1: "obj_keys ?ts1 = obj_keys ts'" using key by (simp only: obj_keys_set if_True)
  have pre: "\<forall>a\<in>set as. spawn_ok ts a" "distinct (map sa_territoryId as)" "obj_keys ?ts1 = obj_keys ts"
    using Cons.prems keys1 by auto
  obtain ts'' where ts'': "fold_res (place_spawn mods) as ?ts1 = Inr ts''" "obj_keys ts'' = obj_keys ts'"
    "\<And>i. obj_get ts'' i = (case spawn_at as i of None \<Rightarrow> obj_get ?ts1 i
          | Some a \<Rightarrow> map_option (spawned mods a) (obj_get ?ts1 i))"
    using Cons.IH [OF pre] unfolding keys1 by blast
  have none: "spawn_at as ?i = None" using Cons.prems(2) unfolding spawn_at_def find_None_iff
    by (simp add: image_iff) metis
  have "obj_get ts'' j = (case spawn_at (a # as) j of None \<Rightarrow> obj_get ts' j
          | Some a \<Rightarrow> map_option (spawned mods a) (obj_get ts' j))" for j
  proof (cases "j = ?i")
    case True
    then show ?thesis using ts''(3) [of ?i] none t by (simp add: obj_get_set spawn_at_def)
  next
    case False
    then have same: "spawn_at (a # as) j = spawn_at as j" by (simp add: spawn_at_def)
    have "obj_get ?ts1 j = obj_get ts' j" using False by (simp add: obj_get_set)
    then show ?thesis unfolding ts''(3) same by (simp only:)
  qed
  then show ?case using place_spawn_ok [OF ok t] ts''(1,2) by simp
qed (simp add: spawn_at_def)

text \<open>The initial state, or the reason why there is none.\<close>

definition two_start :: "two_initial_options \<Rightarrow> territory obj \<Rightarrow> game_state" where
  "two_start opts ts = \<lparr>g_rules = (if ti_rules opts = Some 1 then None else Some 2), g_readyAtMs = None,
     g_shieldedUntilMs = None, g_playerAbilityUsed = False, g_enemyAbilityUsed = False,
     g_battlefieldId = ti_battlefieldId opts, g_territories = ts, g_armies = [], g_status = Playing,
     g_elapsed = 0, g_timeLimit = (case ti_timeLimit opts of Some n \<Rightarrow> n | None \<Rightarrow> 90), g_stats = empty_stats\<rparr>"

definition two_rules_ok :: "two_initial_options \<Rightarrow> bool" where
  "two_rules_ok opts \<longleftrightarrow> ti_rules opts \<in> {None, Some 1, Some 2}"

lemma createInitial2v2GameState_ok:
  assumes "spawns_ok opts" "two_rules_ok opts"
  obtains ts where "createInitial2v2GameState opts = Inr (two_start opts ts)"
    and "obj_keys ts = obj_keys (ti_territories opts)"
    and "\<And>i. obj_get ts i = (case spawn_at (ti_assignments opts) i of None \<Rightarrow> obj_get (ti_territories opts) i
          | Some a \<Rightarrow> map_option (spawned (ti_modifiers opts) a) (obj_get (ti_territories opts) i))"
proof -
  obtain ts where ts: "fold_res (place_spawn (ti_modifiers opts)) (ti_assignments opts) (ti_territories opts) = Inr ts"
    "obj_keys ts = obj_keys (ti_territories opts)"
    "\<And>i. obj_get ts i = (case spawn_at (ti_assignments opts) i of None \<Rightarrow> obj_get (ti_territories opts) i
          | Some a \<Rightarrow> map_option (spawned (ti_modifiers opts) a) (obj_get (ti_territories opts) i))"
    using place_spawns_ok [of "ti_assignments opts" "ti_territories opts" "ti_territories opts" "ti_modifiers opts"] assms(1)
    by (auto simp: spawns_ok_def)
  have "createInitial2v2GameState opts = Inr (two_start opts ts)"
    using assms ts(1) validateSpawnAssignments_ok [of opts]
    by (auto simp: createInitial2v2GameState_def two_start_def two_rules_ok_def validateGameplayRulesVersion_def
        GAMEPLAY_RULES_VERSION_def)
  then show thesis using that ts(2,3) by blast
qed

definition two_init_errors :: "js_error set" where
  "two_init_errors = insert (Thrown ''unsupported_gameplay_rules_version'') (initialization_error ` set init_reasons)"

lemma createInitial2v2GameState_error:
  assumes "\<not> (spawns_ok opts \<and> two_rules_ok opts)"
  shows "\<exists>e\<in>two_init_errors. createInitial2v2GameState opts = Inl e"
proof (cases "validateSpawnAssignments opts")
  case (Inl e)
  then show ?thesis using validateSpawnAssignments_error [OF Inl]
    by (auto simp: createInitial2v2GameState_def two_init_errors_def)
next
  case (Inr u)
  then have "\<not> two_rules_ok opts" using assms validateSpawnAssignments_ok [of opts] by simp
  with Inr show ?thesis
    by (auto simp: createInitial2v2GameState_def two_init_errors_def two_rules_ok_def
        validateGameplayRulesVersion_def GAMEPLAY_RULES_VERSION_def split: option.splits)
qed

section \<open>The canonical order\<close>

lemma sort_insert_cong:
  "(\<And>y. y \<in> set xs \<Longrightarrow> (c y x \<le> 0) = (d y x \<le> 0)) \<Longrightarrow> sort_insert c x xs = sort_insert d x xs"
  by (induction xs) auto

lemma js_sort_cong:
  assumes "\<And>x y. x \<in> set xs \<Longrightarrow> y \<in> set xs \<Longrightarrow> (c y x \<le> 0) = (d y x \<le> 0)"
  shows "js_sort c xs = js_sort d xs"
proof -
  have fold: "fold (sort_insert c) xs ys = fold (sort_insert d) xs ys"
    if "\<And>x y. x \<in> set xs \<union> set ys \<Longrightarrow> y \<in> set xs \<union> set ys \<Longrightarrow> (c y x \<le> 0) = (d y x \<le> 0)" for ys
    using that
  proof (induction xs arbitrary: ys)
    case (Cons x xs)
    have eq: "sort_insert c x ys = sort_insert d x ys" by (rule sort_insert_cong) (use Cons.prems in auto)
    have "set (sort_insert d x ys) = insert x (set ys)"
      by (metis mset_sort_insert set_mset_add_mset_insert set_mset_mset)
    then show ?case using Cons.prems by (simp add: eq) (rule Cons.IH, auto)
  qed simp
  show ?thesis unfolding js_sort_def by (rule fold) (use assms in simp)
qed

text \<open>Actions are ordered by tick, then server sequence, slot and client sequence.\<close>

definition two_key :: "two_action \<Rightarrow> num \<times> num \<times> num \<times> num" where
  "two_key a = (finite_value (ta_tick a), finite_value (ta_serverSeq a), finite_value (ta_slot a),
     finite_value (ta_clientSeq a))"

definition cmp_two_key :: "two_action \<Rightarrow> two_action \<Rightarrow> num" where
  "cmp_two_key a b = (if two_key a < two_key b then -1 else if two_key a = two_key b then 0 else 1)"

lemma cmp_two_key_le: "cmp_two_key a b \<le> 0 \<longleftrightarrow> two_key a \<le> two_key b"
  by (auto simp: cmp_two_key_def)

interpretation by_two_key: js_comparator cmp_two_key
  by unfold_locales (auto simp: cmp_two_key_le)

text \<open>An action on its own: what must hold of it wherever it stands.\<close>

definition valid_two_action :: "two_action \<Rightarrow> bool" where
  "valid_two_action a \<longleftrightarrow> ta_schemaVersion a = Finite MATCH_SCHEMA_VERSION_2 \<and> natural_number (ta_tick a)
     \<and> natural_number (ta_serverSeq a) \<and> slot_of (ta_slot a) \<noteq> None \<and> number_is_safe_integer (ta_clientSeq a)
     \<and> ta_sourceId a \<noteq> [] \<and> ta_targetId a \<noteq> []"

lemma natural_finite: "natural_number v \<Longrightarrow> v = Finite (finite_value v)"
  by (cases v) (simp_all add: natural_number_def finite_value_def)

lemma slot_finite: "slot_of v \<noteq> None \<Longrightarrow> v = Finite (finite_value v)"
  by (auto simp: slot_of_eq slot_value_def finite_value_def)

lemma safe_integer_finite: "number_is_safe_integer v \<Longrightarrow> v = Finite (finite_value v)"
  by (cases v) (simp_all add: finite_value_def)

lemma compare_valid:
  assumes "valid_two_action a" "valid_two_action b"
  shows "compareCanonicalActions a b \<le> 0 \<longleftrightarrow> two_key a \<le> two_key b"
proof -
  have fin: "ta_tick c = Finite (finite_value (ta_tick c)) \<and> ta_serverSeq c = Finite (finite_value (ta_serverSeq c))
      \<and> ta_slot c = Finite (finite_value (ta_slot c)) \<and> ta_clientSeq c = Finite (finite_value (ta_clientSeq c))"
    if "valid_two_action c" for c
    using that natural_finite slot_finite safe_integer_finite unfolding valid_two_action_def by blast
  have cmp: "cmp_number v w = jsub (finite_value v) (finite_value w)"
    if "v = Finite (finite_value v)" "w = Finite (finite_value w)" for v w
    using that by (metis cmp_number.simps(1))
  show ?thesis using fin [OF assms(1)] fin [OF assms(2)]
    by (simp add: compareCanonicalActions_def two_key_def cmp cmp_or_def less_eq_prod_def less_prod_def) auto
qed

section \<open>Sequence numbers\<close>

fun numbered :: "nat \<Rightarrow> js_number list \<Rightarrow> bool" where
  "numbered n [] = True"
| "numbered n (v # vs) = (v = Finite (of_nat n) \<and> numbered (Suc n) vs)"

lemma numbered_upt: "numbered n vs \<longleftrightarrow> vs = map (\<lambda>k. Finite (of_nat k)) [n..<n + length vs]"
  by (induction n vs rule: numbered.induct) (auto simp: upt_rec)

definition slot_clients :: "slot \<Rightarrow> two_action list \<Rightarrow> js_number list" where
  "slot_clients s as = map ta_clientSeq (filter (\<lambda>a. ta_slot a = slot_value s) as)"

lemma slot_clients_simps [simp]:
  "slot_clients s [] = []"
  "slot_clients s (a # as) = (if ta_slot a = slot_value s then ta_clientSeq a # slot_clients s as else slot_clients s as)"
  by (simp_all add: slot_clients_def)

lemma slot_value_inj [simp]: "slot_value s = slot_value t \<longleftrightarrow> s = t"
  by (simp add: slot_value_def slot_number_inj)

definition canonical_from :: "js_number list \<Rightarrow> (slot \<Rightarrow> nat) \<Rightarrow> two_action list \<Rightarrow> bool" where
  "canonical_from seen next_client as \<longleftrightarrow> (\<forall>a\<in>set as. valid_two_action a) \<and> distinct (map ta_serverSeq as)
     \<and> set seen \<inter> ta_serverSeq ` set as = {} \<and> (\<forall>s. numbered (next_client s) (slot_clients s as))"

lemma canonical_from_Cons:
  assumes "slot_of (ta_slot a) = Some s"
  shows "canonical_from seen c (a # as) \<longleftrightarrow> valid_two_action a \<and> ta_serverSeq a \<notin> set seen
     \<and> ta_clientSeq a = Finite (of_nat (c s)) \<and> canonical_from (ta_serverSeq a # seen) (c(s := Suc (c s))) as"
proof -
  have slot: "ta_slot a = slot_value s" using assms by (simp add: slot_of_eq)
  have "(\<forall>s'. numbered (c s') (slot_clients s' (a # as))) \<longleftrightarrow> ta_clientSeq a = Finite (of_nat (c s))
      \<and> (\<forall>s'. numbered ((c(s := Suc (c s))) s') (slot_clients s' as))"
    unfolding slot_clients_simps slot slot_value_inj by (auto split: if_splits)
  then show ?thesis unfolding canonical_from_def by auto
qed

lemma check_actions_ok: "check_actions seen c as = Inr () \<longleftrightarrow> canonical_from seen c as"
proof (induction seen c as rule: check_actions.induct)
  case (2 seen c a as)
  show ?case
  proof (cases "slot_of (ta_slot a)")
    case None
    then have "\<not> valid_two_action a" by (simp add: valid_two_action_def)
    then show ?thesis using None by (simp add: canonical_from_def)
  next
    case (Some s)
    show ?thesis
    proof (cases "valid_two_action a \<and> ta_serverSeq a \<notin> set seen \<and> ta_clientSeq a = Finite (of_nat (c s))")
      case True
      then have safe: "number_is_safe_integer (Finite (of_nat (c s)))" unfolding valid_two_action_def by metis
      have "check_actions seen c (a # as) = check_actions (ta_serverSeq a # seen) (c(s := Suc (c s))) as"
        using True Some safe by (simp add: valid_two_action_def del: number_is_safe_integer.simps)
      moreover have "check_actions (ta_serverSeq a # seen) (c(s := Suc (c s))) as = Inr ()
          \<longleftrightarrow> canonical_from (ta_serverSeq a # seen) (c(s := Suc (c s))) as"
        using True Some safe
        by (intro "2.IH") (simp_all add: valid_two_action_def del: number_is_safe_integer.simps)
      ultimately show ?thesis using True canonical_from_Cons [OF Some] by simp
    next
      case False
      then have "\<not> canonical_from seen c (a # as)" using canonical_from_Cons [OF Some, of seen c as] by blast
      moreover have "check_actions seen c (a # as) \<noteq> Inr ()"
        using False Some by (auto simp: valid_two_action_def)
      ultimately show ?thesis by simp
    qed
  qed
qed (simp add: canonical_from_def)

text \<open>What canonicalisation returns.\<close>

definition canonical_actions :: "two_action list \<Rightarrow> bool" where
  "canonical_actions as \<longleftrightarrow> (\<forall>a\<in>set as. valid_two_action a)
     \<and> sorted_wrt (\<lambda>a b. (finite_value (ta_tick a), finite_value (ta_serverSeq a))
                        < (finite_value (ta_tick b), finite_value (ta_serverSeq b))) as
     \<and> distinct (map ta_serverSeq as)
     \<and> (\<forall>s. slot_clients s as = map (\<lambda>k. Finite (of_nat k)) [0..<length (slot_clients s as)])"

lemma canonical_sorted:
  assumes "\<forall>a\<in>set as. valid_two_action a" "distinct (map ta_serverSeq as)" "by_two_key.sorted_by as"
  shows "sorted_wrt (\<lambda>a b. (finite_value (ta_tick a), finite_value (ta_serverSeq a))
                        < (finite_value (ta_tick b), finite_value (ta_serverSeq b))) as"
  using assms
proof (induction as)
  case (Cons a as)
  have "(finite_value (ta_tick a), finite_value (ta_serverSeq a))
      < (finite_value (ta_tick b), finite_value (ta_serverSeq b))" if b: "b \<in> set as" for b
  proof -
    have le: "two_key a \<le> two_key b" using Cons.prems(3) b by (simp add: by_two_key.sorted_by_def cmp_two_key_le)
    have "valid_two_action a" "valid_two_action b" using Cons.prems(1) b by simp_all
    then have fin: "ta_serverSeq a = Finite (finite_value (ta_serverSeq a))"
      "ta_serverSeq b = Finite (finite_value (ta_serverSeq b))"
      unfolding valid_two_action_def using natural_finite by blast+
    have "ta_serverSeq a \<noteq> ta_serverSeq b" using Cons.prems(2) b by force
    then have "finite_value (ta_serverSeq a) \<noteq> finite_value (ta_serverSeq b)" using fin by metis
    then show ?thesis using le by (auto simp: two_key_def less_eq_prod_def less_prod_def)
  qed
  moreover have "sorted_wrt (\<lambda>a b. (finite_value (ta_tick a), finite_value (ta_serverSeq a))
      < (finite_value (ta_tick b), finite_value (ta_serverSeq b))) as"
    using Cons.prems by (intro Cons.IH) (auto simp: by_two_key.sorted_by_def)
  ultimately show ?case by simp
qed simp

lemma compare_sort:
  assumes "\<forall>a\<in>set as. valid_two_action a"
  shows "js_sort compareCanonicalActions as = js_sort cmp_two_key as"
  using assms by (intro js_sort_cong) (simp add: compare_valid cmp_two_key_le)

lemma canonicalize_Inr:
  assumes "canonicalizeTwoVTwoActions as mx = Inr ys"
  shows "ys = js_sort compareCanonicalActions as" "canonical_from [] (\<lambda>_. 0) ys" "\<forall>a\<in>set as. valid_two_action a"
    "canonical_actions ys"
proof -
  show ys: "ys = js_sort compareCanonicalActions as" and ok: "canonical_from [] (\<lambda>_. 0) ys"
    using assms check_actions_ok [of "[]" "\<lambda>_. 0" ys]
    by (auto simp: canonicalizeTwoVTwoActions_def Let_def rbind_eq_Inr split: if_splits)
  then show valid: "\<forall>a\<in>set as. valid_two_action a" by (simp add: canonical_from_def)
  have "by_two_key.sorted_by ys"
    unfolding ys compare_sort [OF valid] by (rule by_two_key.sorted_js_sort)
  then have "sorted_wrt (\<lambda>a b. (finite_value (ta_tick a), finite_value (ta_serverSeq a))
                        < (finite_value (ta_tick b), finite_value (ta_serverSeq b))) ys"
    using ok by (intro canonical_sorted) (simp_all add: canonical_from_def)
  moreover have "slot_clients s ys = map (\<lambda>k. Finite (of_nat k)) [0..<length (slot_clients s ys)]" for s
    using ok numbered_upt [of 0 "slot_clients s ys"] by (simp add: canonical_from_def)
  ultimately show "canonical_actions ys" using ok by (auto simp: canonical_actions_def canonical_from_def)
qed

lemma canonicalize_valid: "canonicalizeTwoVTwoActions as mx = Inr ys \<Longrightarrow> \<forall>a\<in>set ys. valid_two_action a"
  using canonicalize_Inr(2) by (simp add: canonical_from_def)

lemma canonicalize_permutation:
  assumes "canonicalizeTwoVTwoActions as mx = Inr ys" "mset bs = mset as"
  shows "canonicalizeTwoVTwoActions bs mx = Inr ys"
proof -
  note ys = canonicalize_Inr [OF assms(1)]
  have set: "set bs = set as" using assms(2) by (metis set_mset_mset)
  have len: "length bs = length as" using assms(2) by (rule mset_eq_length)
  have distinct: "distinct (map ta_serverSeq bs)"
  proof -
    have "mset (map ta_serverSeq bs) = mset (map ta_serverSeq ys)" unfolding ys(1) by (simp add: assms(2))
    then have "distinct (map ta_serverSeq bs) = distinct (map ta_serverSeq ys)" by (rule mset_eq_imp_distinct_iff)
    then show ?thesis using ys(2) by (simp add: canonical_from_def)
  qed
  have unique: "x = y" if x: "x \<in> set bs" and y: "y \<in> set bs" and le: "cmp_two_key x y \<le> 0" "cmp_two_key y x \<le> 0" for x y
  proof -
    have "two_key x = two_key y" using le by (simp add: cmp_two_key_le)
    then have "finite_value (ta_serverSeq x) = finite_value (ta_serverSeq y)" by (simp add: two_key_def)
    moreover have "valid_two_action x" "valid_two_action y" using x y ys(3) set by simp_all
    ultimately have "ta_serverSeq x = ta_serverSeq y"
      unfolding valid_two_action_def using natural_finite by metis
    then show ?thesis using distinct x y by (simp add: distinct_map inj_on_def)
  qed
  have "js_sort compareCanonicalActions bs = js_sort cmp_two_key bs"
    using ys(3) set by (intro compare_sort) simp
  also have "\<dots> = js_sort cmp_two_key as" by (rule by_two_key.js_sort_permutation [OF assms(2) unique])
  also have "\<dots> = js_sort compareCanonicalActions as" using compare_sort [OF ys(3)] by simp
  finally show ?thesis using assms(1) unfolding canonicalizeTwoVTwoActions_def len by (simp only:)
qed

text \<open>A refused list is refused with one of the codes.\<close>

definition action_codes :: "string list" where
  "action_codes = [''too_many_actions'', ''invalid_schema_version'', ''invalid_tick'', ''invalid_server_sequence'',
     ''invalid_client_sequence'', ''invalid_slot'', ''invalid_source'', ''invalid_target'']"

lemma check_actions_error:
  "check_actions seen c as = Inl e \<Longrightarrow> \<exists>code\<in>set action_codes. e = TwoVTwoSimulationError code"
  by (induction seen c as rule: check_actions.induct)
     (auto simp: action_codes_def split: option.splits if_splits)

lemma canonicalize_error:
  "canonicalizeTwoVTwoActions as mx = Inl e \<Longrightarrow> \<exists>code\<in>set action_codes. e = TwoVTwoSimulationError code"
  using check_actions_error
  by (auto simp: canonicalizeTwoVTwoActions_def Let_def rbind_eq_Inl action_codes_def split: if_splits)

section \<open>Orders\<close>

definition order_codes :: "string list" where
  "order_codes = [''invalid_tick'', ''action_after_battle_end'', ''invalid_source'', ''invalid_target'',
     ''slot_not_permitted'', ''invalid_dispatch'']"

lemma free_dispatch_wf:
  assumes "dispatchArmy hyp src tgt w (1 / 2) i speed None = Inr (Dispatched left m)"
    and "t_units src \<in> \<nat>" "w \<noteq> Neutral"
  shows "wf_army ids m \<and> a_progress m < 1"
  using assms(1)
proof (rule dispatchArmy_Dispatched, goal_cases)
  case (1 route)
  let ?u = "calculateDispatchUnits (t_units src) (1 / 2)"
  have "?u \<in> \<nat>" using assms(2) by (auto simp: calculateDispatchUnits_def Nats_iff max_def)
  moreover have "m = new_army hyp src tgt w ?u (safe_speed_multiplier speed) i" using 1(5) by (simp add: routed_army_def)
  ultimately show ?case using new_army_speed assms(3) by (auto simp: wf_army_def new_army_def Let_def)
qed

lemma wf_state_order:
  assumes "wf_state s accs" "obj_get (g_territories s) i = Some src" "u \<in> \<nat>" "\<And>ids. wf_army ids m \<and> a_progress m < 1"
    and "g_territories s' = obj_set (t_id src) (src\<lparr>t_units := u\<rparr>) (g_territories s)" "g_armies s' = g_armies s @ [m]"
  shows "wf_state s' accs \<and> obj_keys (g_territories s') = obj_keys (g_territories s)"
proof -
  have board: "wf_board (g_territories s)" using assms(1) by (simp add: wf_state_def)
  have src: "wf_tower i src" by (rule wf_boardD [OF board assms(2)])
  then have i: "t_id src = i" by (simp add: wf_tower_def)
  have keys: "obj_keys (g_territories s') = obj_keys (g_territories s)"
    using obj_get_Some_key [OF assms(2)] by (simp only: assms(5) i obj_keys_set if_True)
  have "wf_tower i (src\<lparr>t_units := u\<rparr>)" using src assms(3) by (simp add: wf_tower_def)
  then have "wf_board (g_territories s')" unfolding assms(5) i by (rule wf_board_set [OF board])
  then show ?thesis using assms(1,4,6) keys by (auto simp: wf_state_def)
qed

lemma two_order_total:
  assumes "wf_state s accs" "hypot_ok hyp" "slot_of (ta_slot a) = Some slot"
  shows "(\<exists>code\<in>set order_codes. two_order hyp mods a s = Inl (TwoVTwoSimulationError code))
    \<or> (\<exists>s'. two_order hyp mods a s = Inr s' \<and> wf_state s' accs
        \<and> obj_keys (g_territories s') = obj_keys (g_territories s) \<and> g_rules s' = g_rules s \<and> g_status s' = g_status s
        \<and> g_elapsed s' = g_elapsed s \<and> g_timeLimit s' = g_timeLimit s)"
proof -
  let ?w = "simulationOwnerForSlot slot"
  show ?thesis
  proof (cases "\<exists>src tgt. obj_get (g_territories s) (ta_sourceId a) = Some src
      \<and> obj_get (g_territories s) (ta_targetId a) = Some tgt \<and> t_owner src = ?w")
    case False
    then show ?thesis
      by (auto simp: two_order_def order_codes_def assms(3) Let_def split: option.splits)
  next
    case True
    then obtain src tgt where st: "obj_get (g_territories s) (ta_sourceId a) = Some src"
      "obj_get (g_territories s) (ta_targetId a) = Some tgt" "t_owner src = ?w" by blast
    let ?d = "dispatchArmy hyp src tgt ?w (1 / 2) (two_army_id a) (Finite (pm_armySpeedMultiplier (mods slot))) None"
    obtain r where r: "?d = Inr r" using dispatchArmy_total [OF assms(2)] by blast
    show ?thesis
    proof (cases r)
      case (DispatchFailed reason)
      then show ?thesis using r st by (simp add: two_order_def assms(3) order_codes_def Let_def)
    next
      case (Dispatched left m)
      with r have d: "?d = Inr (Dispatched left m)" by simp
      have nat: "t_units src \<in> \<nat>" using assms(1) st(1) by (auto simp: wf_state_def wf_board_def wf_tower_def)
      obtain u where u: "u \<in> \<nat>" "left = src\<lparr>t_units := u\<rparr>" using dispatched_left [OF d nat] by blast
      note m = free_dispatch_wf [OF d nat simulationOwner_side]
      have "\<exists>s'. two_order hyp mods a s = Inr s' \<and> g_territories s' = obj_set (t_id src) left (g_territories s)
          \<and> g_armies s' = g_armies s @ [m] \<and> g_rules s' = g_rules s \<and> g_status s' = g_status s
          \<and> g_elapsed s' = g_elapsed s \<and> g_timeLimit s' = g_timeLimit s"
        using st d by (simp add: two_order_def assms(3) Let_def)
      then obtain s' where s': "two_order hyp mods a s = Inr s'"
        "g_territories s' = obj_set (t_id src) left (g_territories s)" "g_armies s' = g_armies s @ [m]"
        "g_rules s' = g_rules s" "g_status s' = g_status s" "g_elapsed s' = g_elapsed s" "g_timeLimit s' = g_timeLimit s"
        by blast
      show ?thesis
        using s' wf_state_order [OF assms(1) st(1) u(1) m s'(2) [unfolded u(2)] s'(3)] by blast
    qed
  qed
qed

section \<open>The clock of a battle\<close>

text \<open>
  A battle in good order; under the current rules and the usual time limit, the match clock is the tick count
  over fifty, rounded once, and a battle that goes on has not reached tick 4500.
\<close>

definition battle_ok :: "num option \<Rightarrow> num \<Rightarrow> string list \<Rightarrow> two_battle \<Rightarrow> bool" where
  "battle_ok v limit ids b \<longleftrightarrow> wf_state (tb_state b) (tb_accumulators b) \<and> obj_keys (g_territories (tb_state b)) = ids
     \<and> g_rules (tb_state b) = v \<and> g_timeLimit (tb_state b) = limit
     \<and> (v = Some 2 \<and> limit = 90 \<longrightarrow> g_elapsed (tb_state b) = fl (of_nat (tb_tick b) / 50) \<and> tb_tick b \<le> 4500
          \<and> (g_status (tb_state b) = Playing \<longrightarrow> tb_tick b < 4500))"

lemma battle_tick_ok:
  assumes "battle_ok v limit ids b" "g_status (tb_state b) = Playing"
  shows "\<exists>b'. battle_tick hyp b = Inr b' \<and> battle_ok v limit ids b' \<and> tb_tick b' = Suc (tb_tick b)
    \<and> tb_processed b' = tb_processed b"
proof -
  let ?s = "tb_state b" and ?T = PVP_SIMULATION_TICK_SECONDS
  have wf: "wf_state ?s (tb_accumulators b)" using assms(1) by (simp add: battle_ok_def)
  obtain x where x: "stepSimulation hyp ?s (tb_accumulators b) ?T = Inr x" "wf_state (sr_state x) (sr_accumulators x)"
    "obj_keys (g_territories (sr_state x)) = obj_keys (g_territories ?s)"
    using step_wf [OF wf tick_near(2)] by blast
  note frame = step_frame [OF wf tick_near(2) x(1)]
  have "g_elapsed (sr_state x) = fl (of_nat (Suc (tb_tick b)) / 50) \<and> Suc (tb_tick b) \<le> 4500
      \<and> (g_status (sr_state x) = Playing \<longrightarrow> Suc (tb_tick b) < 4500)" if cur: "v = Some 2" "limit = 90"
  proof -
    have old: "g_elapsed ?s = fl (of_nat (tb_tick b) / 50)" "tb_tick b < 4500" "hasCaptureRecovery (g_rules ?s)"
      "g_timeLimit ?s = 90"
      using assms cur by (simp_all add: battle_ok_def hasCaptureRecovery_def)
    have e: "g_elapsed (sr_state x) = fl (of_nat (Suc (tb_tick b)) / 50)"
      using frame(4) [OF assms(2)] step_elapsed_tick [OF old(2,1,3)] by simp
    have "Suc (tb_tick b) < 4500" if "g_status (sr_state x) = Playing"
    proof (rule ccontr)
      assume "\<not> Suc (tb_tick b) < 4500"
      then have "(90::num) \<le> of_nat (Suc (tb_tick b)) / 50" by simp
      then have "90 \<le> fl (of_nat (Suc (tb_tick b)) / 50)" by (intro fl_ge_double is_double_numeral) simp_all
      then show False using frame(6) [OF that] old(4) e by simp
    qed
    then show ?thesis using e old(2) by simp
  qed
  then show ?thesis using x frame(1,3) assms(1) by (simp add: battle_tick_def battle_step_def battle_ok_def)
qed

interpretation until_loop: terminating_loop
    "\<lambda>b. g_status (tb_state b) = Playing \<and> of_nat (tb_tick b) < target" "\<lambda>b. Some (battle_tick hyp b)"
    "\<lambda>b. battle_ok v limit ids b \<and> tb_processed b = n" "\<lambda>b. nat \<lceil>target\<rceil> - tb_tick b" for target hyp v limit ids n
proof unfold_locales
  fix b assume b: "battle_ok v limit ids b \<and> tb_processed b = n" "g_status (tb_state b) = Playing \<and> of_nat (tb_tick b) < target"
  then obtain b' where b': "battle_tick hyp b = Inr b'" "battle_ok v limit ids b'" "tb_tick b' = Suc (tb_tick b)"
    "tb_processed b' = tb_processed b" using battle_tick_ok [of v limit ids b hyp] by blast
  have "int (tb_tick b) < \<lceil>target\<rceil>" using b(2) by (simp add: less_ceiling_iff)
  then have "tb_tick b < nat \<lceil>target\<rceil>" by linarith
  then show "\<exists>b'. Some (battle_tick hyp b) = Some (Inr b') \<and> (battle_ok v limit ids b' \<and> tb_processed b' = n)
      \<and> nat \<lceil>target\<rceil> - tb_tick b' < nat \<lceil>target\<rceil> - tb_tick b"
    using b' b(1) by auto
qed

lemma stepUntil_ok:
  assumes "battle_ok v limit ids b"
  shows "\<exists>b'. stepUntil hyp target b = Some (Inr b') \<and> battle_ok v limit ids b' \<and> tb_processed b' = tb_processed b
    \<and> \<not> (g_status (tb_state b') = Playing \<and> of_nat (tb_tick b') < target)"
  using until_loop.loop_returns [of v limit ids b "tb_processed b" target hyp] assms
  unfolding stepUntil_def while_res_def by blast

lemma play_action_ok:
  assumes "battle_ok v limit ids b" "hypot_ok hyp" "valid_two_action a"
  shows "(\<exists>code\<in>set order_codes. play_action hyp opts mt a b = Some (Inl (TwoVTwoSimulationError code)))
    \<or> (\<exists>b'. play_action hyp opts mt a b = Some (Inr b') \<and> battle_ok v limit ids b'
        \<and> tb_processed b' = Suc (tb_processed b))"
proof (cases "mt < finite_value (ta_tick a)")
  case True
  then show ?thesis by (simp add: play_action_def order_codes_def)
next
  case False
  obtain b1 where b1: "stepUntil hyp (finite_value (ta_tick a)) b = Some (Inr b1)" "battle_ok v limit ids b1"
    "tb_processed b1 = tb_processed b" using stepUntil_ok [OF assms(1)] by blast
  obtain slot where slot: "slot_of (ta_slot a) = Some slot" using assms(3) by (auto simp: valid_two_action_def)
  have wf: "wf_state (tb_state b1) (tb_accumulators b1)" using b1(2) by (simp add: battle_ok_def)
  show ?thesis
  proof (cases "g_status (tb_state b1) = Playing")
    case True
    then have play: "play_action hyp opts mt a b = Some (rbind (two_order hyp (ti_modifiers opts) a (tb_state b1)) (\<lambda>s.
          Inr (b1\<lparr>tb_state := s, tb_processed := Suc (tb_processed b1)\<rparr>)))"
      using b1(1) False by (simp add: play_action_def)
    from two_order_total [OF wf assms(2) slot, of "ti_modifiers opts"] show ?thesis
    proof (elim disjE exE conjE bexE, goal_cases)
      case (2 s')
      then show ?case unfolding play using b1(2,3) by (auto simp: battle_ok_def)
    qed (auto simp: play)
  qed (use b1(1) False in \<open>simp add: play_action_def order_codes_def\<close>)
qed

lemma play_actions_ok:
  assumes "battle_ok v limit ids b" "hypot_ok hyp" "\<forall>a\<in>set as. valid_two_action a"
  shows "(\<exists>code\<in>set order_codes. as \<noteq> [] \<and> play_actions hyp opts mt as b = Some (Inl (TwoVTwoSimulationError code)))
    \<or> (\<exists>b'. play_actions hyp opts mt as b = Some (Inr b') \<and> battle_ok v limit ids b'
        \<and> tb_processed b' = tb_processed b + length as)"
  using assms(1,3)
proof (induction as arbitrary: b)
  case (Cons a as)
  from play_action_ok [OF Cons.prems(1) assms(2), of a opts mt] Cons.prems(2) consider
      code where "code \<in> set order_codes" "play_action hyp opts mt a b = Some (Inl (TwoVTwoSimulationError code))"
    | b1 where "play_action hyp opts mt a b = Some (Inr b1)" "battle_ok v limit ids b1" "tb_processed b1 = Suc (tb_processed b)"
    by auto
  then show ?case
  proof cases
    case 2
    then show ?thesis using Cons.IH [OF 2(2)] Cons.prems(2) by auto
  qed auto
qed simp

lemma maximum_tick_90: "maximum_tick 90 = 4500"
  using target_tick_limit by (simp add: maximum_tick_def target_tick_def)

lemma finish_battle_ok:
  assumes "battle_ok v limit ids b"
  shows "\<exists>b'. finish_battle hyp (maximum_tick limit) b = Some (Inr b')
    \<and> wf_state (tb_state b') (tb_accumulators b') \<and> obj_keys (g_territories (tb_state b')) = ids
    \<and> tb_processed b' = tb_processed b
    \<and> (v = Some 2 \<and> limit = 90 \<longrightarrow> g_status (tb_state b') \<noteq> Playing
         \<and> (\<exists>k\<le>4500. g_elapsed (tb_state b') = fl (of_nat k / 50)))"
proof -
  obtain b1 where b1: "stepUntil hyp (maximum_tick limit) b = Some (Inr b1)" "battle_ok v limit ids b1"
    "tb_processed b1 = tb_processed b" "\<not> (g_status (tb_state b1) = Playing \<and> of_nat (tb_tick b1) < maximum_tick limit)"
    using stepUntil_ok [OF assms] by blast
  show ?thesis
  proof (cases "g_status (tb_state b1) = Playing")
    case False
    then show ?thesis using b1 by (auto simp: finish_battle_def battle_ok_def)
  next
    case True
    then have "\<not> (v = Some 2 \<and> limit = 90)"
      using b1(2,4) by (auto simp: battle_ok_def maximum_tick_90)
    moreover have wf: "wf_state (tb_state b1) (tb_accumulators b1)" using b1(2) by (simp add: battle_ok_def)
    obtain x where "stepSimulation hyp (tb_state b1) (tb_accumulators b1) (max 0 (jsub limit (g_elapsed (tb_state b1)))) = Inr x"
      "wf_state (sr_state x) (sr_accumulators x)"
      "obj_keys (g_territories (sr_state x)) = obj_keys (g_territories (tb_state b1))"
      using step_wf [OF wf, of "max 0 (jsub limit (g_elapsed (tb_state b1)))" hyp] by auto
    then have "\<exists>b'. finish_battle hyp (maximum_tick limit) b = Some (Inr b')
        \<and> wf_state (tb_state b') (tb_accumulators b') \<and> obj_keys (g_territories (tb_state b')) = ids
        \<and> tb_processed b' = tb_processed b"
      using True b1(1-3) by (auto simp: finish_battle_def battle_step_def battle_ok_def)
    ultimately show ?thesis by blast
  qed
qed

text \<open>The options of a battle: whole garrisons, on a board whose keys are the towers' ids.\<close>

definition two_options_ok :: "two_initial_options \<Rightarrow> bool" where
  "two_options_ok opts \<longleftrightarrow> wf_board (ti_territories opts) \<and> (\<forall>s. pm_startingUnits (ti_modifiers opts s) \<in> \<nat>)"

definition current_battle :: "two_initial_options \<Rightarrow> bool" where
  "current_battle opts \<longleftrightarrow> ti_rules opts \<noteq> Some 1 \<and> ti_timeLimit opts \<in> {None, Some 90}"

lemma two_start_ok:
  assumes "two_options_ok opts" "spawns_ok opts" "two_rules_ok opts"
  obtains s where "createInitial2v2GameState opts = Inr s"
    and "battle_ok (g_rules s) (g_timeLimit s) (obj_keys (ti_territories opts)) (battle_start s)"
    and "current_battle opts \<Longrightarrow> g_rules s = Some 2 \<and> g_timeLimit s = 90"
proof -
  obtain ts where ts: "createInitial2v2GameState opts = Inr (two_start opts ts)"
    "obj_keys ts = obj_keys (ti_territories opts)"
    "\<And>i. obj_get ts i = (case spawn_at (ti_assignments opts) i of None \<Rightarrow> obj_get (ti_territories opts) i
          | Some a \<Rightarrow> map_option (spawned (ti_modifiers opts) a) (obj_get (ti_territories opts) i))"
    using createInitial2v2GameState_ok [OF assms(2,3)] by blast
  have board: "wf_board (ti_territories opts)" and units: "pm_startingUnits (ti_modifiers opts s) \<in> \<nat>" for s
    using assms(1) by (auto simp: two_options_ok_def)
  have "wf_tower i t" if t: "obj_get ts i = Some t" for i t
  proof (cases "spawn_at (ti_assignments opts) i")
    case None
    then show ?thesis using t ts(3) [of i] wf_boardD [OF board] by simp
  next
    case (Some a)
    then obtain t0 where "obj_get (ti_territories opts) i = Some t0" "t = spawned (ti_modifiers opts) a t0"
      using t ts(3) [of i] by auto
    then show ?thesis using wf_boardD [OF board] units by (auto simp: wf_tower_def spawned_def)
  qed
  then have "wf_board ts" using board ts(2) by (simp add: wf_board_def)
  then have "battle_ok (g_rules (two_start opts ts)) (g_timeLimit (two_start opts ts)) (obj_keys (ti_territories opts))
      (battle_start (two_start opts ts))"
    by (simp add: battle_ok_def battle_start_def two_start_def wf_state_def wf_accumulators_def obj_get_or_def ts(2))
  moreover have "g_rules (two_start opts ts) = Some 2 \<and> g_timeLimit (two_start opts ts) = 90" if "current_battle opts"
    using that by (auto simp: two_start_def current_battle_def)
  ultimately show thesis using that [OF ts(1)] by blast
qed

section \<open>Properties\<close>

text \<open>
  C26: the order in which the four players' actions arrive at the server does not matter. Whenever a list of
  actions is accepted, its canonical form has the same actions in strictly increasing (tick, server sequence)
  order, with the client sequences of every slot counting up from 0, and every permutation of the list has the
  same canonical form and the same battle: final state, hash and number of actions.
\<close>

theorem arrival_order_irrelevant:
  assumes "canonicalizeTwoVTwoActions (to_actions opts) (to_maxActions opts) = Inr ys"
  shows "mset ys = mset (to_actions opts) \<and> canonical_actions ys
    \<and> (\<forall>bs. mset bs = mset (to_actions opts) \<longrightarrow>
         canonicalizeTwoVTwoActions bs (to_maxActions opts) = Inr ys
         \<and> simulate2v2Battle hyp (opts\<lparr>to_actions := bs\<rparr>) = simulate2v2Battle hyp opts)"
proof (intro conjI allI impI)
  note ys = canonicalize_Inr [OF assms]
  show "mset ys = mset (to_actions opts)" unfolding ys(1) by simp
  show "canonical_actions ys" by (rule ys(4))
  fix bs assume "mset bs = mset (to_actions opts)"
  then show bs: "canonicalizeTwoVTwoActions bs (to_maxActions opts) = Inr ys" by (rule canonicalize_permutation [OF assms])
  show "simulate2v2Battle hyp (opts\<lparr>to_actions := bs\<rparr>) = simulate2v2Battle hyp opts"
    using assms bs by (simp add: simulate2v2Battle_def)
qed

definition example_action :: "num \<Rightarrow> slot \<Rightarrow> string \<Rightarrow> two_action" where
  "example_action n s source = \<lparr>ta_schemaVersion = Finite 2, ta_tick = Finite 0, ta_serverSeq = Finite n,
     ta_slot = slot_value s, ta_clientSeq = Finite 0, ta_sourceId = source, ta_targetId = ''center''\<rparr>"

definition example_board :: "territory obj" where
  "example_board = (let keep = example_tower Player 10 Barracks
     in [(''a_west'', keep\<lparr>t_id := ''a_west''\<rparr>), (''a_east'', keep\<lparr>t_id := ''a_east''\<rparr>),
         (''b_west'', keep\<lparr>t_id := ''b_west'', t_owner := Enemy\<rparr>), (''b_east'', keep\<lparr>t_id := ''b_east'', t_owner := Enemy\<rparr>),
         (''center'', keep\<lparr>t_id := ''center'', t_owner := Neutral\<rparr>)])"

definition example_battle :: "two_action list \<Rightarrow> two_options" where
  "example_battle as = \<lparr>to_initial = \<lparr>ti_rules = None, ti_territories = example_board,
     ti_assignments = [\<lparr>sa_slot = slot_value Slot0, sa_territoryId = ''a_west''\<rparr>,
        \<lparr>sa_slot = slot_value Slot1, sa_territoryId = ''a_east''\<rparr>,
        \<lparr>sa_slot = slot_value Slot2, sa_territoryId = ''b_west''\<rparr>,
        \<lparr>sa_slot = slot_value Slot3, sa_territoryId = ''b_east''\<rparr>],
     ti_modifiers = (\<lambda>_. default_modifiers), ti_timeLimit = None, ti_battlefieldId = None\<rparr>,
     to_actions = as, to_maxActions = None\<rparr>"

lemma example_canonical:
  "canonicalizeTwoVTwoActions [example_action 1 Slot1 ''a_west'', example_action 0 Slot0 ''a_west''] None
    = Inr [example_action 0 Slot0 ''a_west'', example_action 1 Slot1 ''a_west'']"
  by (simp add: canonicalizeTwoVTwoActions_def DEFAULT_MAX_ACTIONS_def MAX_PVP_ACTIONS_def js_sort_def
      compareCanonicalActions_def cmp_or_def example_action_def slot_value_def MATCH_SCHEMA_VERSION_2_def
      natural_number_def slot_of_def TWO_V_TWO_SLOTS_def math_floor_def)

lemma arrival_order_irrelevant_witness:
  "simulate2v2Battle manhattan (example_battle [example_action 0 Slot0 ''a_west'', example_action 1 Slot1 ''a_west''])
     = simulate2v2Battle manhattan (example_battle [example_action 1 Slot1 ''a_west'', example_action 0 Slot0 ''a_west''])"
proof -
  let ?as = "[example_action 1 Slot1 ''a_west'', example_action 0 Slot0 ''a_west'']"
    and ?bs = "[example_action 0 Slot0 ''a_west'', example_action 1 Slot1 ''a_west'']"
  have "canonicalizeTwoVTwoActions (to_actions (example_battle ?as)) (to_maxActions (example_battle ?as)) = Inr ?bs"
    using example_canonical by (simp add: example_battle_def)
  note order = arrival_order_irrelevant [OF this, of manhattan]
  have "mset ?bs = mset (to_actions (example_battle ?as))" by (simp add: example_battle_def add_mset_commute)
  with order have "simulate2v2Battle manhattan ((example_battle ?as)\<lparr>to_actions := ?bs\<rparr>)
      = simulate2v2Battle manhattan (example_battle ?as)" by blast
  moreover have "(example_battle ?as)\<lparr>to_actions := ?bs\<rparr> = example_battle ?bs" by (simp add: example_battle_def)
  ultimately show ?thesis by simp
qed

text \<open>
  C27: a 2v2 battle returns for every input. A list of actions that is not canonical is refused with one of its
  codes; then options whose spawns do not give each slot one tower of its own side, or with other rule versions
  than 1 and 2, are refused; then every action is carried out, or the battle is refused with one of the six codes
  of an order. Whenever it is not refused the final state is well formed on the same towers, the hash is its hash
  and every action was processed; and under the current rules with the usual 90 seconds the battle is decided by
  tick 4500.
\<close>

theorem simulate2v2Battle_total:
  assumes "two_options_ok (to_initial opts)" "hypot_ok hyp"
  shows "case canonicalizeTwoVTwoActions (to_actions opts) (to_maxActions opts) of
      Inl e \<Rightarrow> simulate2v2Battle hyp opts = Some (Inl e) \<and> (\<exists>code\<in>set action_codes. e = TwoVTwoSimulationError code)
    | Inr ys \<Rightarrow>
        if \<not> (spawns_ok (to_initial opts) \<and> two_rules_ok (to_initial opts))
        then \<exists>e\<in>two_init_errors. simulate2v2Battle hyp opts = Some (Inl e)
        else (\<exists>code\<in>set order_codes. ys \<noteq> [] \<and> simulate2v2Battle hyp opts = Some (Inl (TwoVTwoSimulationError code)))
          \<or> (\<exists>r accs. simulate2v2Battle hyp opts = Some (Inr r) \<and> tz_canonicalActions r = ys
               \<and> tz_actionsProcessed r = length ys \<and> tz_stateHash r = hashTwoVTwoState (tz_finalState r)
               \<and> wf_state (tz_finalState r) accs
               \<and> obj_keys (g_territories (tz_finalState r)) = obj_keys (ti_territories (to_initial opts))
               \<and> (current_battle (to_initial opts) \<longrightarrow> g_status (tz_finalState r) \<noteq> Playing
                    \<and> (\<exists>k\<le>4500. g_elapsed (tz_finalState r) = fl (of_nat k / 50))))"
proof (cases "canonicalizeTwoVTwoActions (to_actions opts) (to_maxActions opts)")
  case (Inl e)
  then show ?thesis using canonicalize_error [OF Inl] by (simp add: simulate2v2Battle_def)
next
  case (Inr ys)
  let ?o = "to_initial opts"
  show ?thesis
  proof (cases "spawns_ok ?o \<and> two_rules_ok ?o")
    case False
    then obtain e where "e \<in> two_init_errors" "createInitial2v2GameState ?o = Inl e"
      using createInitial2v2GameState_error by blast
    then show ?thesis using Inr False by (auto simp: simulate2v2Battle_def)
  next
    case True
    let ?ids = "obj_keys (ti_territories ?o)"
    obtain s where s: "createInitial2v2GameState ?o = Inr s" "battle_ok (g_rules s) (g_timeLimit s) ?ids (battle_start s)"
      "current_battle ?o \<Longrightarrow> g_rules s = Some 2 \<and> g_timeLimit s = 90"
      using two_start_ok [OF assms(1)] True by blast
    from play_actions_ok [OF s(2) assms(2) canonicalize_valid [OF Inr], of ?o "maximum_tick (g_timeLimit s)"] consider
        code where "code \<in> set order_codes" "ys \<noteq> []"
          "play_actions hyp ?o (maximum_tick (g_timeLimit s)) ys (battle_start s) = Some (Inl (TwoVTwoSimulationError code))"
      | b where "play_actions hyp ?o (maximum_tick (g_timeLimit s)) ys (battle_start s) = Some (Inr b)"
          "battle_ok (g_rules s) (g_timeLimit s) ?ids b" "tb_processed b = length ys"
      by (auto simp: battle_start_def)
    then show ?thesis
    proof cases
      case 1
      then show ?thesis using Inr True s(1) by (auto simp: simulate2v2Battle_def Let_def)
    next
      case 2
      obtain b' where b': "finish_battle hyp (maximum_tick (g_timeLimit s)) b = Some (Inr b')"
        "wf_state (tb_state b') (tb_accumulators b')" "obj_keys (g_territories (tb_state b')) = ?ids"
        "tb_processed b' = tb_processed b"
        "g_rules s = Some 2 \<and> g_timeLimit s = 90 \<longrightarrow> g_status (tb_state b') \<noteq> Playing
           \<and> (\<exists>k\<le>4500. g_elapsed (tb_state b') = fl (of_nat k / 50))"
        using finish_battle_ok [OF 2(2)] by blast
      have "simulate2v2Battle hyp opts = Some (Inr \<lparr>tz_canonicalActions = ys, tz_finalState = tb_state b',
          tz_stateHash = hashTwoVTwoState (tb_state b'), tz_actionsProcessed = tb_processed b'\<rparr>)"
        using Inr s(1) 2(1) b'(1) by (simp add: simulate2v2Battle_def Let_def)
      then show ?thesis using Inr True b'(2-5) 2(3) s(3) by auto
    qed
  qed
qed

lemma simulate2v2Battle_total_witness:
  "simulate2v2Battle manhattan (example_battle [example_action 0 Slot0 []])
     = Some (Inl (TwoVTwoSimulationError ''invalid_source''))
   \<and> (\<exists>r. simulate2v2Battle manhattan (example_battle []) = Some (Inr r) \<and> g_status (tz_finalState r) \<noteq> Playing)"
proof
  have ok: "two_options_ok (to_initial (example_battle as))" for as
    by (auto simp: two_options_ok_def example_battle_def example_board_def default_modifiers_def wf_board_def wf_tower_def
        example_tower_def Let_def split: if_splits)
  note total = simulate2v2Battle_total [OF ok manhattan_ok]
  have "canonicalizeTwoVTwoActions [example_action 0 Slot0 []] None = Inl (TwoVTwoSimulationError ''invalid_source'')"
    by (simp add: canonicalizeTwoVTwoActions_def DEFAULT_MAX_ACTIONS_def MAX_PVP_ACTIONS_def js_sort_def
        example_action_def slot_value_def MATCH_SCHEMA_VERSION_2_def natural_number_def slot_of_def TWO_V_TWO_SLOTS_def
        math_floor_def)
  then show "simulate2v2Battle manhattan (example_battle [example_action 0 Slot0 []])
      = Some (Inl (TwoVTwoSimulationError ''invalid_source''))"
    using total [of "[example_action 0 Slot0 []]"] by (simp add: example_battle_def)
  have "spawns_ok (to_initial (example_battle []))" "two_rules_ok (to_initial (example_battle []))"
    "current_battle (to_initial (example_battle []))"
    by (simp_all add: spawns_ok_def example_battle_def example_board_def spawn_slot_def spawn_ok_def example_tower_def
        TWO_V_TWO_SLOTS_def simulationOwner_cases two_rules_ok_def current_battle_def Let_def)
  moreover have "canonicalizeTwoVTwoActions [] None = Inr []" 
    by (simp add: canonicalizeTwoVTwoActions_def)
  moreover have "to_actions (example_battle []) = []" "to_maxActions (example_battle []) = None"
    by (simp_all add: example_battle_def)
  ultimately show "\<exists>r. simulate2v2Battle manhattan (example_battle []) = Some (Inr r) \<and> g_status (tz_finalState r) \<noteq> Playing"
    using total [of "[]"] by auto
qed

end
