(* ===== verification/ProtocolFacts.thy ===== *)
theory ProtocolFacts
  imports TwoVTwoProtocol TwoVTwoFacts
begin

text \<open>
  The validator of server messages fails closed: what it returns is well formed, and every well-formed message
  that is sent comes back unchanged. A client's messages determine what they ask for.
\<close>

section \<open>Well-formed messages\<close>

abbreviation natural :: "num \<Rightarrow> bool" where "natural n \<equiv> natural_number (Finite n)"

definition roster_entry_ok :: "roster_entry \<Rightarrow> bool" where
  "roster_entry_ok e \<longleftrightarrow> re_teamId e = teamIdForSlot (re_slot e) \<and> re_userId e \<noteq> []"

definition roster_ok :: "roster_entry list \<Rightarrow> bool" where
  "roster_ok es \<longleftrightarrow> (\<forall>e\<in>set es. roster_entry_ok e) \<and> mset (map re_slot es) = mset TWO_V_TWO_SLOTS"

definition participant_ok :: "participant_result \<Rightarrow> bool" where
  "participant_ok p \<longleftrightarrow> pr_teamId p = teamIdForSlot (pr_slot p) \<and> pr_userId p \<noteq> []
     \<and> parseMatchStats (pr_stats p) = pr_stats p \<and> parseSettlement (pr_settlement p) = pr_settlement p"

definition participants_ok :: "participant_result list \<Rightarrow> bool" where
  "participants_ok ps \<longleftrightarrow> (\<forall>p\<in>set ps. participant_ok p) \<and> mset (map pr_slot ps) = mset TWO_V_TWO_SLOTS
     \<and> distinct (map pr_userId ps)"

fun message_ok :: "server_message \<Rightarrow> bool" where
  "message_ok (MatchStarted p) \<longleftrightarrow> sm_matchId p \<noteq> [] \<and> sm_mode p = TWO_V_TWO_MATCH_MODE
     \<and> sm_teamId p = teamIdForSlot (sm_slot p) \<and> natural (sm_nextSequence p) \<and> roster_ok (sm_players p)
     \<and> isGameState (Some (sm_state p))"
| "message_ok (StateMessage p) \<longleftrightarrow> natural (sp_tick p) \<and> isGameState (Some (sp_state p))"
| "message_ok (CommandAccepted p) \<longleftrightarrow> natural (ca_sequence p)"
| "message_ok (CommandRejected p) \<longleftrightarrow> natural (cr_sequence p) \<and> cr_code p \<noteq> []"
| "message_ok (MatchResult p) \<longleftrightarrow> mr_matchId p \<noteq> [] \<and> mr_mode p = TWO_V_TWO_MATCH_MODE
     \<and> (if mr_cancelled p then mr_winnerTeamId p = None \<and> mr_participants p = None
        else \<exists>ps. mr_participants p = Some ps \<and> participants_ok ps)"
| "message_ok (RematchStarted i) \<longleftrightarrow> i \<noteq> []"
| "message_ok (MatchClosed i) \<longleftrightarrow> i \<noteq> []"
| "message_ok (ErrorMessage c) \<longleftrightarrow> c \<noteq> []"

section \<open>What the parsers accept\<close>

lemma require_Some [simp]: "require b v = Some x \<longleftrightarrow> b \<and> v = Some x"
  by (simp add: require_def)

lemma require_True [simp]: "require True v = v"
  by (simp add: require_def)

lemma finite_int_Some: "finite_int v = Some n \<longleftrightarrow> v = Some (jnum n) \<and> natural n"
proof
  assume "finite_int v = Some n"
  then obtain w where w: "v = Some (JNumber w)" "natural_number w" "n = finite_value w"
    by (auto simp: finite_int_def json_number_Some split: option.splits)
  then show "v = Some (jnum n) \<and> natural n" using natural_finite [OF w(2)] by simp
qed (simp add: finite_int_def finite_value_def)

lemma natural_slot: "natural (of_nat (slot_number s))"
  by (cases s) (simp_all add: natural_number_def math_floor_def)

lemma parseSlot_Some: "parseSlot v = Some s \<longleftrightarrow> v = Some (JNumber (slot_value s))"
  using natural_slot [of s] by (auto simp: parseSlot_def bind_eq_Some_conv finite_int_Some slot_of_eq slot_value_def)

lemma nonempty_string_Some: "nonempty_string v = Some s \<longleftrightarrow> v = Some (JString s) \<and> s \<noteq> []"
  by (auto simp: nonempty_string_def json_string_Some split: option.splits)

lemma parseMatchStats_Some: "parseMatchStats v = Some x \<Longrightarrow> v = Some x"
  by (auto simp: parseMatchStats_def split: option.splits)

lemma parseSettlement_Some: "parseSettlement v = Some x \<Longrightarrow> v = Some x"
  by (auto simp: parseSettlement_def split: option.splits)

lemma parse_absent [simp]: "parseMatchStats None = None" "parseSettlement None = None"
  by (simp_all add: parseMatchStats_def parseSettlement_def)

lemma parse_idem [simp]:
  "parseMatchStats (parseMatchStats v) = parseMatchStats v" "parseSettlement (parseSettlement v) = parseSettlement v"
  by (metis not_Some_eq parseMatchStats_Some parse_absent(1)) (metis not_Some_eq parseSettlement_Some parse_absent(2))

lemmas parser_inverts = bind_eq_Some_conv finite_int_Some parseSlot_Some nonempty_string_Some json_inverts

lemma parse_roster_entry_Some:
  "parse_roster_entry seen v = Some e \<Longrightarrow> roster_entry_ok e \<and> re_slot e \<notin> set seen"
  by (auto simp: parse_roster_entry_def parser_inverts roster_entry_ok_def)

lemma roster_from_Some:
  "roster_from seen vs = Some es \<Longrightarrow> length es = length vs \<and> (\<forall>e\<in>set es. roster_entry_ok e)
     \<and> distinct (map re_slot es) \<and> set seen \<inter> re_slot ` set es = {}"
proof (induction seen vs arbitrary: es rule: roster_from.induct)
  case (2 seen v vs)
  then obtain e es' where e: "parse_roster_entry seen v = Some e" "roster_from (re_slot e # seen) vs = Some es'" "es = e # es'"
    by (auto simp: bind_eq_Some_conv)
  then show ?case using parse_roster_entry_Some [OF e(1)] "2.IH" [OF e(1,2)] by auto
qed simp

lemma parseRoster_Some: "parseRoster v = Some es \<Longrightarrow> roster_ok es"
  using roster_from_Some [of "[]"] unfolding roster_ok_def four_slots
  by (auto simp: parseRoster_def parser_inverts all_slots)

lemma parse_participant_Some:
  "parse_participant ss us v = Some p \<Longrightarrow> participant_ok p \<and> pr_slot p \<notin> set ss \<and> pr_userId p \<notin> set us"
  by (auto simp: parse_participant_def parser_inverts participant_ok_def)

lemma participants_from_Some:
  "participants_from ss us vs = Some ps \<Longrightarrow> length ps = length vs \<and> (\<forall>p\<in>set ps. participant_ok p)
     \<and> distinct (map pr_slot ps) \<and> set ss \<inter> pr_slot ` set ps = {}
     \<and> distinct (map pr_userId ps) \<and> set us \<inter> pr_userId ` set ps = {}"
proof (induction ss us vs arbitrary: ps rule: participants_from.induct)
  case (2 ss us v vs)
  then obtain p ps' where p: "parse_participant ss us v = Some p"
    "participants_from (pr_slot p # ss) (pr_userId p # us) vs = Some ps'" "ps = p # ps'"
    by (auto simp: bind_eq_Some_conv)
  then show ?case using parse_participant_Some [OF p(1)] "2.IH" [OF p(1,2)] by auto
qed simp

lemma participants_from_ok: "participants_from [] [] vs = Some ps \<Longrightarrow> length vs = 4 \<Longrightarrow> participants_ok ps"
  using participants_from_Some [of "[]" "[]" vs ps] unfolding participants_ok_def four_slots by auto

lemma parse_message_ok: "parse_message ty raw = Some m \<Longrightarrow> message_ok m"
proof -
  assume m: "parse_message ty raw = Some m"
  have started: "message_ok m" if "parse_match_started raw = Some m"
    using that parseRoster_Some by (auto simp: parse_match_started_def parser_inverts)
  have ended: "message_ok m" if "parse_match_result raw = Some m"
    using that participants_from_ok
    by (auto simp: parse_match_result_def parser_inverts all_slots split: if_splits)
  show ?thesis
    using m started ended by (auto simp: parse_message_def parser_inverts split: if_splits)
qed

section \<open>The wire format\<close>

text \<open>How the server writes a message: the fields the validator reads, absent ones left out.\<close>

definition slot_json :: "slot \<Rightarrow> json" where "slot_json s = JNumber (slot_value s)"
definition team_json :: "team_id \<Rightarrow> json" where "team_json t = JString (team_id_text t)"

definition roster_json :: "roster_entry \<Rightarrow> json" where
  "roster_json e = JObject [(''slot'', slot_json (re_slot e)), (''teamId'', team_json (re_teamId e)),
     (''userId'', JString (re_userId e)), (''displayName'', JString (re_displayName e))]"

definition participant_json :: "participant_result \<Rightarrow> json" where
  "participant_json p = JObject ([(''slot'', slot_json (pr_slot p)), (''teamId'', team_json (pr_teamId p)),
     (''userId'', JString (pr_userId p)), (''status'', JString (participant_status_text (pr_status p)))]
     @ field ''stats'' (pr_stats p) @ field ''abandoned'' (map_option JBool (pr_abandoned p))
     @ field ''settlement'' (pr_settlement p))"

definition result_json :: "match_result \<Rightarrow> json" where
  "result_json r = JObject ([(''matchId'', JString (mr_matchId r)), (''mode'', JString (mr_mode r))]
     @ field ''winnerTeamId'' (map_option team_json (mr_winnerTeamId r))
     @ field ''outcome'' (if mr_cancelled r then Some (JString ''cancelled'') else None)
     @ field ''participants'' (map_option (\<lambda>ps. JArray (map participant_json ps)) (mr_participants r)))"

fun message_fields :: "server_message \<Rightarrow> string \<times> (string \<times> json) list" where
  "message_fields (MatchStarted p) = (''match_started'', [(''matchId'', JString (sm_matchId p)),
     (''mode'', JString (sm_mode p)), (''slot'', slot_json (sm_slot p)), (''teamId'', team_json (sm_teamId p)),
     (''nextSequence'', jnum (sm_nextSequence p)), (''players'', JArray (map roster_json (sm_players p))),
     (''state'', sm_state p)])"
| "message_fields (StateMessage p) = (''state'', [(''tick'', jnum (sp_tick p)), (''state'', sp_state p)])"
| "message_fields (CommandAccepted p) = (''command_accepted'', [(''sequence'', jnum (ca_sequence p)), (''slot'', slot_json (ca_slot p))])"
| "message_fields (CommandRejected p) = (''command_rejected'', [(''sequence'', jnum (cr_sequence p)), (''code'', JString (cr_code p))])"
| "message_fields (MatchResult r) = (''match_result'', [(''result'', result_json r)])"
| "message_fields (RematchStarted i) = (''rematch_started'', [(''matchId'', JString i)])"
| "message_fields (MatchClosed i) = (''match_closed'', [(''matchId'', JString i)])"
| "message_fields (ErrorMessage c) = (''error'', [(''code'', JString c)])"

definition message_json :: "server_message \<Rightarrow> json" where
  "message_json m = (case message_fields m of (ty, ps) \<Rightarrow>
     JObject ((''schemaVersion'', jnum MATCH_SCHEMA_VERSION_2) # (''type'', JString ty) # ps))"

lemma absent_field [simp]:
  "obj_get (field k v) j = (if j = k then v else None)"
  "(m ++ obj_get (field k v)) j = (if j = k \<and> v \<noteq> None then v else m j)"
  "(if v \<noteq> None then v else None) = v"
  by (auto simp: field_def map_add_def split: option.splits)

lemma json_tests [simp]:
  "json_object (Some (JObject ps)) = Some ps" "finite_int (Some (jnum n)) = require (natural n) (Some n)"
  "nonempty_string (Some (JString s)) = require (s \<noteq> []) (Some s)" "parseSlot (Some (slot_json sl)) = Some sl"
  "is_team (Some (team_json t)) t' \<longleftrightarrow> t = t'"
  by (simp_all add: finite_int_def finite_value_def nonempty_string_def parseSlot_Some slot_json_def is_team_def
      team_json_def team_id_text_def split: team_id.splits)

lemma parse_roster_json:
  "roster_entry_ok e \<Longrightarrow> re_slot e \<notin> set seen \<Longrightarrow> parse_roster_entry seen (roster_json e) = Some e"
  by (cases e) (simp add: parse_roster_entry_def roster_json_def roster_entry_ok_def)

lemma roster_from_json:
  "\<forall>e\<in>set es. roster_entry_ok e \<Longrightarrow> distinct (map re_slot es) \<Longrightarrow> set seen \<inter> re_slot ` set es = {}
     \<Longrightarrow> roster_from seen (map roster_json es) = Some es"
  by (induction es arbitrary: seen) (simp_all add: parse_roster_json)

lemma parseRoster_json: "roster_ok es \<Longrightarrow> parseRoster (Some (JArray (map roster_json es))) = Some es"
  unfolding roster_ok_def four_slots by (simp add: parseRoster_def all_slots roster_from_json)

lemma parse_status_text [simp]: "parse_status (Some (JString (participant_status_text st))) = Some st"
  by (cases st) (simp_all add: parse_status_def participant_status_text_def)

lemma json_bool_map [simp]: "json_bool (map_option JBool b) = b"
  by (cases b) simp_all

lemma parse_participant_json:
  assumes "participant_ok p" "pr_slot p \<notin> set ss" "pr_userId p \<notin> set us"
  shows "parse_participant ss us (participant_json p) = Some p"
  using assms by (cases p) (simp add: parse_participant_def participant_json_def participant_ok_def)

lemma participants_from_json:
  "\<forall>p\<in>set ps. participant_ok p \<Longrightarrow> distinct (map pr_slot ps) \<Longrightarrow> set ss \<inter> pr_slot ` set ps = {}
     \<Longrightarrow> distinct (map pr_userId ps) \<Longrightarrow> set us \<inter> pr_userId ` set ps = {}
     \<Longrightarrow> participants_from ss us (map participant_json ps) = Some ps"
  by (induction ps arbitrary: ss us) (simp_all add: parse_participant_json)

lemma parse_winner_json [simp]: "parse_winner None = Some None" "parse_winner (map_option team_json w) = Some w"
  by (simp add: parse_winner_def)
     (cases w; auto simp: parse_winner_def split: team_id.splits intro: team_id.exhaust)

lemma message_json_Some:
  "parseTwoVTwoServerMessage (Some (message_json m)) = parse_message (fst (message_fields m))
     ((''schemaVersion'', jnum MATCH_SCHEMA_VERSION_2) # (''type'', JString (fst (message_fields m))) # snd (message_fields m))"
  by (simp add: parseTwoVTwoServerMessage_def message_json_def split: prod.splits)

lemma parse_result_json:
  assumes "message_ok (MatchResult r)"
  shows "parse_match_result [(''schemaVersion'', v), (''type'', w), (''result'', result_json r)] = Some (MatchResult r)"
proof (cases "mr_cancelled r")
  case True
  then show ?thesis using assms
    by (cases r) (simp add: parse_match_result_def result_json_def TWO_V_TWO_MATCH_MODE_def)
next
  case False
  then obtain ps where ps: "mr_participants r = Some ps" "participants_ok ps" using assms by auto
  have "participants_from [] [] (map participant_json ps) = Some ps" "length ps = 4"
    using ps(2) unfolding participants_ok_def four_slots by (simp_all add: participants_from_json)
  then show ?thesis using assms False ps(1)
    by (cases r) (simp add: parse_match_result_def result_json_def TWO_V_TWO_MATCH_MODE_def all_slots)
qed

lemma parse_started_json:
  assumes "message_ok (MatchStarted p)"
  shows "parse_match_started ((''schemaVersion'', v) # (''type'', w) # snd (message_fields (MatchStarted p))) = Some (MatchStarted p)"
  using assms by (cases p) (simp add: parse_match_started_def TWO_V_TWO_MATCH_MODE_def parseRoster_json)

lemma parse_message_json:
  assumes "message_ok m" shows "parseTwoVTwoServerMessage (Some (message_json m)) = Some m"
proof (cases m)
  case (MatchStarted p)
  then show ?thesis using assms parse_started_json [of p]
    by (simp add: message_json_Some parse_message_def del: message_ok.simps)
next
  case (MatchResult r)
  then show ?thesis using assms parse_result_json [of r]
    by (simp add: message_json_Some parse_message_def del: message_ok.simps)
qed (use assms in \<open>simp_all add: message_json_Some parse_message_def\<close>)

section \<open>Properties\<close>

text \<open>
  C28: the validator of server messages fails closed. What it returns is a well-formed message: team and slot
  agree everywhere, numbers are safe naturals, ids are not empty, a roster and a result have each of the four
  slots exactly once, a result has four different users, and a cancelled match has no winner and no participants;
  and it returns a message only for an object of schema version 2 with that message's type.
\<close>

theorem parsed_messages_well_typed:
  assumes "parseTwoVTwoServerMessage v = Some m"
  shows "message_ok m \<and> (\<exists>raw. v = Some (JObject raw)
    \<and> obj_get raw ''schemaVersion'' = Some (jnum 2) \<and> obj_get raw ''type'' = Some (JString (fst (message_fields m))))"
proof -
  obtain raw ty where raw: "v = Some (JObject raw)" "obj_get raw ''schemaVersion'' = Some (jnum MATCH_SCHEMA_VERSION_2)"
    "obj_get raw ''type'' = Some (JString ty)" "parse_message ty raw = Some m"
    using assms by (auto simp: parseTwoVTwoServerMessage_def parser_inverts)
  have "fst (message_fields m) = ty"
    using raw(4) by (auto simp: parse_message_def parse_match_started_def parse_match_result_def parser_inverts split: if_splits)
  then show ?thesis using raw parse_message_ok [OF raw(4)] by (simp add: MATCH_SCHEMA_VERSION_2_def)
qed

lemma parsed_messages_well_typed_witness:
  "message_ok (CommandAccepted \<lparr>ca_sequence = 7, ca_slot = Slot2\<rparr>)"
proof -
  have "parseTwoVTwoServerMessage (Some (JObject [(''schemaVersion'', jnum 2), (''type'', JString ''command_accepted''),
      (''sequence'', jnum 7), (''slot'', jnum 2)])) = Some (CommandAccepted \<lparr>ca_sequence = 7, ca_slot = Slot2\<rparr>)"
    using parseSlot_Some [of "Some (jnum 2)" Slot2]
    by (simp add: parseTwoVTwoServerMessage_def MATCH_SCHEMA_VERSION_2_def parse_message_def natural_number_def
        slot_value_def math_floor_def)
  from parsed_messages_well_typed [OF this] show ?thesis by simp
qed

text \<open>
  C29: round trip of the wire format. A message written as JSON, with its absent fields left out, is parsed back
  to itself exactly if it is well formed; every other message is refused or at least not mistaken for itself.
\<close>

theorem message_round_trip:
  "parseTwoVTwoServerMessage (Some (message_json m)) = Some m \<longleftrightarrow> message_ok m"
  using parse_message_json parse_message_ok by (auto simp: message_json_Some)

end
