(* ===== verification/Rewards.thy ===== *)
theory Rewards
  imports Progression "HOL-Library.While_Combinator"
begin

text \<open>
  \<open>daily.ts\<close> and \<open>league.ts\<close> with their types of \<open>types.ts\<close>: daily missions and the crown chest, league ranks
  and their rewards. The calendar day of a moment in Tehran comes from the \<open>Intl\<close> time zone data, which is a
  parameter \<open>day\<close>; the search for the end of the day is a \<open>while\<close> loop, so a search that would not end
  is \<open>None\<close>.
\<close>

section \<open>Daily missions\<close>

datatype daily_reward = PlayMatches | WinMatch | CaptureTerritories | CrownChest

definition reward_name :: "daily_reward \<Rightarrow> string" where
  "reward_name r = (case r of PlayMatches \<Rightarrow> ''play_matches'' | WinMatch \<Rightarrow> ''win_match''
     | CaptureTerritories \<Rightarrow> ''capture_territories'' | CrownChest \<Rightarrow> ''crown_chest'')"

record daily_mission =
  dm_id :: daily_reward
  dm_title :: string
  dm_description :: string
  dm_progress :: num
  dm_target :: num
  dm_reward :: num
  dm_complete :: bool
  dm_claimed :: bool

record daily_chest =
  dc_reward :: num
  dc_unlocked :: bool
  dc_claimed :: bool

record daily_state =
  ds_dayKey :: string
  ds_resetsAt :: num
  ds_missions :: "daily_mission list"
  ds_chest :: daily_chest

record mission_definition =
  mn_id :: daily_reward
  mn_title :: string
  mn_description :: string
  mn_target :: num
  mn_reward :: num

definition MISSION_DEFINITIONS :: "mission_definition list" where
  "MISSION_DEFINITIONS = [
    \<lparr>mn_id = PlayMatches, mn_title = ''Battle Orders'', mn_description = ''Play 2 matches'', mn_target = 2, mn_reward = 30\<rparr>,
    \<lparr>mn_id = WinMatch, mn_title = ''Claim Victory'', mn_description = ''Win 1 match'', mn_target = 1, mn_reward = 40\<rparr>,
    \<lparr>mn_id = CaptureTerritories, mn_title = ''Expand the Realm'', mn_description = ''Capture 10 towers'', mn_target = 10,
      mn_reward = 50\<rparr>]"

definition CROWN_CHEST_REWARD :: num where "CROWN_CHEST_REWARD = 75"

type_synonym day_fn = "num \<Rightarrow> string"

definition day_search_step :: "day_fn \<Rightarrow> string \<Rightarrow> num \<times> num \<Rightarrow> num \<times> num" where
  "day_search_step day dayKey = (\<lambda>(low, high).
     let middle = math_floor (jdiv (jadd low high) 2)
     in if day middle = dayKey then (middle, high) else (low, middle))"

record day_window =
  dw_dayKey :: string
  dw_resetsAt :: num

definition tehranDayWindow :: "day_fn \<Rightarrow> num \<Rightarrow> day_window option" where
  "tehranDayWindow day now =
     map_option (\<lambda>(low, high). \<lparr>dw_dayKey = day now, dw_resetsAt = high\<rparr>)
       (while_option (\<lambda>(low, high). 1 < jsub high low) (day_search_step day (day now))
         (now, jadd now (30 * 60 * 60 * 1000)))"

definition mission_state :: "mission_definition \<Rightarrow> num \<Rightarrow> bool \<Rightarrow> bool \<Rightarrow> daily_mission" where
  "mission_state d progress isComplete claimed = \<lparr>dm_id = mn_id d, dm_title = mn_title d, dm_description = mn_description d,
     dm_progress = progress, dm_target = mn_target d, dm_reward = mn_reward d, dm_complete = isComplete, dm_claimed = claimed\<rparr>"

definition fresh_daily :: "day_window \<Rightarrow> daily_state" where
  "fresh_daily window = \<lparr>ds_dayKey = dw_dayKey window, ds_resetsAt = dw_resetsAt window,
     ds_missions = map (\<lambda>d. mission_state d 0 False False) MISSION_DEFINITIONS,
     ds_chest = \<lparr>dc_reward = CROWN_CHEST_REWARD, dc_unlocked = False, dc_claimed = False\<rparr>\<rparr>"

definition createDailyState :: "day_fn \<Rightarrow> num \<Rightarrow> daily_state option" where
  "createDailyState day now = map_option fresh_daily (tehranDayWindow day now)"

text \<open>\<open>new Map(...)\<close> keeps the last mission of an id; the stored progress is a finite number or missing.\<close>

definition stored_mission :: "daily_mission list \<Rightarrow> daily_reward \<Rightarrow> daily_mission option" where
  "stored_mission missions i = List.find (\<lambda>m. dm_id m = i) (rev missions)"

definition normalized_mission :: "daily_mission list \<Rightarrow> mission_definition \<Rightarrow> daily_mission" where
  "normalized_mission missions d =
     (let stored = stored_mission missions (mn_id d);
          progress = min (mn_target d) (max 0 (math_floor (case stored of Some m \<Rightarrow> dm_progress m | None \<Rightarrow> 0)))
      in mission_state d progress (mn_target d \<le> progress) (case stored of Some m \<Rightarrow> dm_claimed m | None \<Rightarrow> False))"

definition normalized_daily :: "day_window \<Rightarrow> daily_state \<Rightarrow> daily_state" where
  "normalized_daily window v =
     (let missions = map (normalized_mission (ds_missions v)) MISSION_DEFINITIONS;
          unlocked = list_all dm_claimed missions
      in \<lparr>ds_dayKey = dw_dayKey window, ds_resetsAt = dw_resetsAt window, ds_missions = missions,
          ds_chest = \<lparr>dc_reward = CROWN_CHEST_REWARD, dc_unlocked = unlocked,
            dc_claimed = (unlocked \<and> dc_claimed (ds_chest v))\<rparr>\<rparr>)"

definition normalizeDailyState :: "day_fn \<Rightarrow> daily_state option \<Rightarrow> num \<Rightarrow> daily_state option" where
  "normalizeDailyState day v now =
     Option.bind (tehranDayWindow day now) (\<lambda>window. case v of
         None \<Rightarrow> createDailyState day now
       | Some s \<Rightarrow> if ds_dayKey s \<noteq> dw_dayKey window then createDailyState day now else Some (normalized_daily window s))"

definition mission_increase :: "outcome \<Rightarrow> match_stats \<Rightarrow> daily_reward \<Rightarrow> num" where
  "mission_increase status stats i = (case i of
       PlayMatches \<Rightarrow> 1
     | WinMatch \<Rightarrow> if status = Won then 1 else 0
     | CaptureTerritories \<Rightarrow> max 0 (math_floor (ms_capturedByPlayer stats))
     | CrownChest \<Rightarrow> 0)"

definition advance_mission :: "outcome \<Rightarrow> match_stats \<Rightarrow> daily_mission \<Rightarrow> daily_mission" where
  "advance_mission status stats m =
     (let progress = min (dm_target m) (jadd (dm_progress m) (mission_increase status stats (dm_id m)))
      in m\<lparr>dm_progress := progress, dm_complete := dm_target m \<le> progress\<rparr>)"

definition advanceDailyState :: "day_fn \<Rightarrow> daily_state option \<Rightarrow> outcome \<Rightarrow> match_stats \<Rightarrow> num \<Rightarrow> daily_state option" where
  "advanceDailyState day v status stats now =
     Option.bind (normalizeDailyState day v now) (\<lambda>s.
       normalizeDailyState day (Some (s\<lparr>ds_missions := map (advance_mission status stats) (ds_missions s)\<rparr>)) now)"

datatype daily_failure = NotComplete | AlreadyClaimed | ChestLocked

record daily_claim =
  dr_claimId :: string
  dr_success :: bool
  dr_reason :: "daily_failure option"
  dr_rewardType :: daily_reward
  dr_reward :: num
  dr_replayed :: bool
  dr_state :: daily_state
  dr_newCareer :: player_career
  dr_ledgerEntry :: "ledger_entry option"

definition find_mission :: "daily_reward \<Rightarrow> daily_state \<Rightarrow> daily_mission option" where
  "find_mission r s = List.find (\<lambda>m. dm_id m = r) (ds_missions s)"

definition daily_refusal :: "daily_reward \<Rightarrow> daily_state \<Rightarrow> daily_failure option" where
  "daily_refusal r s = (case find_mission r s of
       Some m \<Rightarrow> if dm_claimed m then Some AlreadyClaimed else if \<not> dm_complete m then Some NotComplete else None
     | None \<Rightarrow> if dc_claimed (ds_chest s) then Some AlreadyClaimed
         else if \<not> dc_unlocked (ds_chest s) then Some ChestLocked else None)"

definition mark_claimed :: "daily_reward \<Rightarrow> daily_state \<Rightarrow> daily_state" where
  "mark_claimed r s = s\<lparr>ds_missions := map (\<lambda>m. if dm_id m = r then m\<lparr>dm_claimed := True\<rparr> else m) (ds_missions s),
     ds_chest := (if r = CrownChest then (ds_chest s)\<lparr>dc_claimed := True\<rparr> else ds_chest s)\<rparr>"

definition daily_entry :: "player_career \<Rightarrow> player_career \<Rightarrow> daily_reward \<Rightarrow> num \<Rightarrow> string \<Rightarrow> num \<Rightarrow> ledger_entry" where
  "daily_entry c new r reward claimId now =
     \<lparr>le_id = ''daily_'' @ claimId, le_player = pc_playerId c, le_currency = Coins, le_amount = reward,
      le_reason = ''daily_'' @ reward_name r, le_source = ''daily_reward'', le_previousBalance = pc_coins c,
      le_resultingBalance = pc_coins new, le_timestamp = now\<rparr>"

definition claimDailyRewardLocally ::
  "day_fn \<Rightarrow> daily_state option \<Rightarrow> player_career \<Rightarrow> daily_reward \<Rightarrow> string \<Rightarrow> num \<Rightarrow> daily_claim option" where
  "claimDailyRewardLocally day v c r claimId now =
     Option.bind (normalizeDailyState day v now) (\<lambda>s. case daily_refusal r s of
         Some reason \<Rightarrow> Some \<lparr>dr_claimId = claimId, dr_success = False, dr_reason = Some reason, dr_rewardType = r,
           dr_reward = 0, dr_replayed = False, dr_state = s, dr_newCareer = c, dr_ledgerEntry = None\<rparr>
       | None \<Rightarrow>
           let reward = (case find_mission r s of Some m \<Rightarrow> dm_reward m | None \<Rightarrow> CROWN_CHEST_REWARD);
               new = c\<lparr>pc_coins := jadd (pc_coins c) reward\<rparr>
           in Option.bind (normalizeDailyState day (Some (mark_claimed r s)) now) (\<lambda>next_state.
             Some \<lparr>dr_claimId = claimId, dr_success = True, dr_reason = None, dr_rewardType = r, dr_reward = reward,
               dr_replayed = False, dr_state = next_state, dr_newCareer = new,
               dr_ledgerEntry = Some (daily_entry c new r reward claimId now)\<rparr>))"

text \<open>\<open>a % b\<close> on non-negative numbers is exact.\<close>

definition js_mod :: "num \<Rightarrow> num \<Rightarrow> num" where
  "js_mod a b = a - b * math_floor (a / b)"

definition pad2 :: "string \<Rightarrow> string" where
  "pad2 s = replicate (2 - length s) (CHR ''0'') @ s"

definition formatDailyReset :: "num \<Rightarrow> num \<Rightarrow> string" where
  "formatDailyReset resetsAt now =
     (let remainingSeconds = max 0 (math_ceil (jdiv (jsub resetsAt now) 1000));
          hours = math_floor (jdiv remainingSeconds 3600);
          minutes = math_floor (jdiv (js_mod remainingSeconds 3600) 60);
          seconds = js_mod remainingSeconds 60
      in pad2 (num_string hours) @ '':'' @ pad2 (num_string minutes) @ '':'' @ pad2 (num_string seconds))"

section \<open>Leagues\<close>

definition LEAGUE_REWARDS :: "num obj" where
  "LEAGUE_REWARDS = [(''recruit'', 0), (''soldier'', 75), (''knight'', 150), (''commander'', 250), (''warlord'', 400),
     (''crown_lord'', 700)]"

text \<open>Stored levels may be any number; their sum follows the rules of the language.\<close>

fun js_add :: "js_number \<Rightarrow> js_number \<Rightarrow> js_number" where
  "js_add (Finite a) (Finite b) = Finite (jadd a b)"
| "js_add NaN b = NaN"
| "js_add a NaN = NaN"
| "js_add PosInfinity NegInfinity = NaN"
| "js_add NegInfinity PosInfinity = NaN"
| "js_add PosInfinity b = PosInfinity"
| "js_add NegInfinity b = NegInfinity"
| "js_add a PosInfinity = PosInfinity"
| "js_add a NegInfinity = NegInfinity"

definition getKingdomPower :: "player_career \<Rightarrow> js_number" where
  "getKingdomPower c = js_add (js_add (js_add (pc_startingGarrisonLevel c) (pc_productionLevel c)) (pc_armySpeedLevel c))
     (pc_treasuryLevel c)"

record league_progress =
  lg_current :: rank_tier
  lg_next :: "rank_tier option"
  lg_progress :: num
  lg_trophiesToNext :: num

text \<open>\<open>RANK_TIERS[RANK_TIERS.findIndex(...) + 1]\<close>.\<close>

definition next_tier :: "rank_tier \<Rightarrow> rank_tier option" where
  "next_tier current = (case List.find (\<lambda>i. rk_id (RANK_TIERS ! i) = rk_id current) [0..<length RANK_TIERS] of
       None \<Rightarrow> Some (RANK_TIERS ! 0)
     | Some i \<Rightarrow> if Suc i < length RANK_TIERS then Some (RANK_TIERS ! Suc i) else None)"

definition getLeagueProgress :: "num \<Rightarrow> league_progress" where
  "getLeagueProgress trophies =
     (let safeTrophies = max 0 trophies; current = getRankTier safeTrophies
      in case next_tier current of
        None \<Rightarrow> \<lparr>lg_current = current, lg_next = None, lg_progress = 1, lg_trophiesToNext = 0\<rparr>
      | Some n \<Rightarrow>
          let span = jsub (rk_minTrophies n) (rk_minTrophies current) in
          \<lparr>lg_current = current, lg_next = Some n,
           lg_progress = min 1 (max 0 (jdiv (jsub safeTrophies (rk_minTrophies current)) span)),
           lg_trophiesToNext = max 0 (jsub (rk_minTrophies n) safeTrophies)\<rparr>)"

record league_tier =
  lf_rankId :: string
  lf_name :: string
  lf_badge :: utext
  lf_minTrophies :: num
  lf_reward :: num
  lf_unlocked :: bool
  lf_claimed :: bool

record league_state =
  lv_trophies :: num
  lv_kingdomPower :: js_number
  lv_currentRankId :: string
  lv_tiers :: "league_tier list"

definition league_tier_state :: "player_career \<Rightarrow> string set \<Rightarrow> rank_tier \<Rightarrow> league_tier" where
  "league_tier_state c claimed tier = \<lparr>lf_rankId = rk_id tier, lf_name = rk_name tier, lf_badge = rk_badge tier,
     lf_minTrophies = rk_minTrophies tier, lf_reward = obj_get_or (Some LEAGUE_REWARDS) (rk_id tier) 0,
     lf_unlocked = (rk_minTrophies tier \<le> pc_trophies c), lf_claimed = (rk_id tier = ''recruit'' \<or> rk_id tier \<in> claimed)\<rparr>"

definition createLeagueState :: "player_career \<Rightarrow> string list \<Rightarrow> league_state" where
  "createLeagueState c claimedRankIds = \<lparr>lv_trophies = pc_trophies c, lv_kingdomPower = getKingdomPower c,
     lv_currentRankId = rk_id (getRankTier (pc_trophies c)),
     lv_tiers = map (league_tier_state c (set claimedRankIds)) RANK_TIERS\<rparr>"

datatype league_failure = InvalidRank | NotUnlocked | RankAlreadyClaimed

record league_claim =
  lc_claimId :: string
  lc_success :: bool
  lc_reason :: "league_failure option"
  lc_rankId :: string
  lc_reward :: num
  lc_replayed :: bool
  lc_state :: league_state
  lc_newCareer :: player_career
  lc_ledgerEntry :: "ledger_entry option"

definition league_refusal :: "league_state \<Rightarrow> player_career \<Rightarrow> league_tier option \<Rightarrow> league_failure option" where
  "league_refusal s c tier = (case tier of
       None \<Rightarrow> Some InvalidRank
     | Some t \<Rightarrow> if lf_reward t \<le> 0 then Some InvalidRank
         else if pc_trophies c < lf_minTrophies t then Some NotUnlocked
         else if lf_claimed t then Some RankAlreadyClaimed else None)"

definition league_entry :: "player_career \<Rightarrow> player_career \<Rightarrow> string \<Rightarrow> num \<Rightarrow> string \<Rightarrow> num \<Rightarrow> ledger_entry" where
  "league_entry c new rankId reward claimId timestamp =
     \<lparr>le_id = ''league_'' @ claimId, le_player = pc_playerId c, le_currency = Coins, le_amount = reward,
      le_reason = ''league_'' @ rankId, le_source = ''league_reward'', le_previousBalance = pc_coins c,
      le_resultingBalance = pc_coins new, le_timestamp = timestamp\<rparr>"

definition claimLeagueRewardLocally ::
  "league_state \<Rightarrow> player_career \<Rightarrow> string \<Rightarrow> string \<Rightarrow> num \<Rightarrow> league_claim" where
  "claimLeagueRewardLocally s c rankId claimId timestamp =
     (let tier = List.find (\<lambda>t. lf_rankId t = rankId) (lv_tiers s)
      in case (league_refusal s c tier, tier) of
        (None, Some t) \<Rightarrow>
          let new = c\<lparr>pc_coins := jadd (pc_coins c) (lf_reward t)\<rparr>
          in \<lparr>lc_claimId = claimId, lc_success = True, lc_reason = None, lc_rankId = rankId, lc_reward = lf_reward t,
              lc_replayed = False,
              lc_state = createLeagueState new (map lf_rankId (filter lf_claimed (lv_tiers s)) @ [rankId]),
              lc_newCareer = new, lc_ledgerEntry = Some (league_entry c new rankId (lf_reward t) claimId timestamp)\<rparr>
      | (reason, _) \<Rightarrow> \<lparr>lc_claimId = claimId, lc_success = False, lc_reason = reason, lc_rankId = rankId, lc_reward = 0,
          lc_replayed = False, lc_state = s, lc_newCareer = c, lc_ledgerEntry = None\<rparr>)"

end
