(* ===== verification/Career.thy ===== *)
theory Career
  imports Rewards Campaign
begin

text \<open>
  \<open>apps/game/src/career/CareerManager.ts\<close>: the career of the player on a device, its audited ledger, what is kept in
  the browser's storage, and the operations that a server settles. The outside enters as parameters: the clock and
  the random suffix of identifiers, whether the storage can be written, whether the build allows playing without
  a server, and the answers of the server. The answers of one operation arrive one after another, with no other
  operation in between.
\<close>

section \<open>What is stored\<close>

text \<open>
  A stored item is absent, unreadable (not JSON, or of another shape) or a value; the career was stored as
  \<open>Partial<PlayerCareer>\<close>, any field may be missing.
\<close>

datatype 'a stored = Absent | Unreadable | Stored 'a

record stored_career =
  sc_coins :: "num option"
  sc_gems :: "num option"
  sc_trophies :: "num option"
  sc_startingGarrisonLevel :: "js_number option"
  sc_productionLevel :: "js_number option"
  sc_armySpeedLevel :: "js_number option"
  sc_treasuryLevel :: "js_number option"
  sc_selectedCommanderId :: "string option"
  sc_matchesPlayed :: "num option"
  sc_matchesWon :: "num option"
  sc_currentStreak :: "num option"
  sc_bestStreak :: "num option"
  sc_lastMatchTimestamp :: "num option"

text \<open>
  The items of one player; the number of campaign levels is shared by the players of a device. The training items are
  those of \<open>TutorialStatus.ts\<close>: whether the old completion marker reads \<open>1\<close>, and the text of the progress.
\<close>

record storage =
  so_career :: "stored_career stored"
  so_ledger :: "ledger_entry list stored"
  so_daily :: "daily_state stored"
  so_league :: "string list stored"
  so_levels :: js_number
  so_legacyMarker :: bool
  so_trainingProgress :: "string option"

definition empty_storage :: storage where
  "empty_storage = \<lparr>so_career = Absent, so_ledger = Absent, so_daily = Absent, so_league = Absent, so_levels = Finite 0,
     so_legacyMarker = False, so_trainingProgress = None\<rparr>"

text \<open>
  What an operation finds around it: the clock, the random suffix of an identifier and a random number below 1,
  whether the browser has a storage and takes writes, whether the build allows a career without a server, which
  optional operations the server's client offers, and the calendar day of an instant.
\<close>

record environment =
  ev_now :: num
  ev_random :: string
  ev_draw :: num
  ev_hasStorage :: bool
  ev_writable :: bool
  ev_fallback :: bool
  ev_levelsApi :: bool
  ev_laneApi :: bool
  ev_weeklyApi :: bool
  ev_day :: day_fn

text \<open>Errors: a dropped socket is told apart from every other error.\<close>

datatype career_error = StaleSocket | CareerError string

definition isStaleSocketError :: "career_error \<Rightarrow> bool" where
  "isStaleSocketError e \<longleftrightarrow> e = StaleSocket"

section \<open>The manager\<close>

text \<open>
  \<open>cm_connecting\<close> says that a connection is in flight, \<open>cm_logins\<close> are the logins sent and \<open>cm_notified\<close> the
  snapshots its listeners have received, the latest last.
\<close>

record career_manager =
  cm_platformUserId :: string
  cm_career :: player_career
  cm_ledger :: "ledger_entry list"
  cm_dailyState :: daily_state
  cm_remoteConnected :: bool
  cm_connecting :: bool
  cm_logins :: nat
  cm_storage :: storage
  cm_notified :: "player_career list"

definition isRemoteConnected :: "career_manager \<Rightarrow> bool" where
  "isRemoteConnected m = cm_remoteConnected m"

definition isTutorialCompleted :: "career_manager \<Rightarrow> bool" where
  "isTutorialCompleted m \<longleftrightarrow> pc_tutorialCompleted (cm_career m) = Some True"

definition emitChange :: "career_manager \<Rightarrow> career_manager" where
  "emitChange m = m\<lparr>cm_notified := cm_notified m @ [cm_career m]\<rparr>"

section \<open>Saving\<close>

definition MAX_STORED_ENTRIES :: nat where "MAX_STORED_ENTRIES = 100"

text \<open>\<open>slice(-n)\<close>.\<close>

definition last_entries :: "nat \<Rightarrow> 'a list \<Rightarrow> 'a list" where
  "last_entries n xs = drop (length xs - n) xs"

definition can_write :: "environment \<Rightarrow> bool" where
  "can_write env \<longleftrightarrow> ev_hasStorage env \<and> ev_writable env"

text \<open>\<open>JSON.stringify\<close> prints a number that is not finite as \<open>null\<close>.\<close>

definition stored_level :: "js_number \<Rightarrow> js_number option" where
  "stored_level v = (if is_finite v then Some v else None)"

definition stored_form :: "player_career \<Rightarrow> stored_career" where
  "stored_form c = \<lparr>sc_coins = Some (pc_coins c), sc_gems = Some (pc_gems c), sc_trophies = Some (pc_trophies c),
     sc_startingGarrisonLevel = stored_level (pc_startingGarrisonLevel c),
     sc_productionLevel = stored_level (pc_productionLevel c), sc_armySpeedLevel = stored_level (pc_armySpeedLevel c),
     sc_treasuryLevel = stored_level (pc_treasuryLevel c), sc_selectedCommanderId = Some (pc_selectedCommanderId c),
     sc_matchesPlayed = Some (pc_matchesPlayed c), sc_matchesWon = Some (pc_matchesWon c),
     sc_currentStreak = Some (pc_currentStreak c), sc_bestStreak = Some (pc_bestStreak c),
     sc_lastMatchTimestamp = Some (pc_lastMatchTimestamp c)\<rparr>"

definition saveCareerDirect :: "environment \<Rightarrow> player_career \<Rightarrow> storage \<Rightarrow> storage" where
  "saveCareerDirect env c st = (if can_write env then st\<lparr>so_career := Stored (stored_form c)\<rparr> else st)"

definition saveCareer :: "environment \<Rightarrow> career_manager \<Rightarrow> career_manager" where
  "saveCareer env m = m\<lparr>cm_storage := saveCareerDirect env (cm_career m) (cm_storage m)\<rparr>"

definition saveLedger :: "environment \<Rightarrow> career_manager \<Rightarrow> career_manager" where
  "saveLedger env m = (if can_write env
     then m\<lparr>cm_storage := (cm_storage m)\<lparr>so_ledger := Stored (last_entries MAX_STORED_ENTRIES (cm_ledger m))\<rparr>\<rparr> else m)"

definition saveDailyState :: "environment \<Rightarrow> career_manager \<Rightarrow> career_manager" where
  "saveDailyState env m = (if can_write env
     then m\<lparr>cm_storage := (cm_storage m)\<lparr>so_daily := Stored (cm_dailyState m)\<rparr>\<rparr> else m)"

definition saveLeagueClaims :: "environment \<Rightarrow> string list \<Rightarrow> career_manager \<Rightarrow> career_manager" where
  "saveLeagueClaims env rankIds m = (if can_write env
     then m\<lparr>cm_storage := (cm_storage m)\<lparr>so_league := Stored rankIds\<rparr>\<rparr> else m)"

section \<open>Loading\<close>

definition or_zero :: "num option \<Rightarrow> num" where
  "or_zero v = (case v of Some x \<Rightarrow> x | None \<Rightarrow> 0)"

definition restored_career :: "string \<Rightarrow> stored_career \<Rightarrow> player_career option" where
  "restored_career playerId p = (case (sc_coins p, sc_trophies p) of
     (Some coins, Some trophies) \<Rightarrow>
       Some \<lparr>pc_playerId = playerId, pc_coins = max 0 coins,
         pc_gems = (case sc_gems p of Some g \<Rightarrow> g | None \<Rightarrow> 10), pc_trophies = max 0 trophies,
         pc_startingGarrisonLevel = Finite (normalizeUpgradeLevel (sc_startingGarrisonLevel p) StartingGarrison),
         pc_productionLevel = Finite (normalizeUpgradeLevel (sc_productionLevel p) Production),
         pc_armySpeedLevel = Finite (normalizeUpgradeLevel (sc_armySpeedLevel p) ArmySpeed),
         pc_treasuryLevel = Finite (normalizeUpgradeLevel (sc_treasuryLevel p) Treasury),
         pc_selectedCommanderId = normalizeCommanderId (sc_selectedCommanderId p),
         pc_matchesPlayed = or_zero (sc_matchesPlayed p), pc_matchesWon = or_zero (sc_matchesWon p),
         pc_currentStreak = or_zero (sc_currentStreak p), pc_bestStreak = or_zero (sc_bestStreak p),
         pc_lastMatchTimestamp = or_zero (sc_lastMatchTimestamp p), pc_tutorialCompleted = None\<rparr>
   | _ \<Rightarrow> None)"

text \<open>Whatever cannot be restored is replaced by the default career, which is saved.\<close>

definition loadCareer :: "environment \<Rightarrow> string \<Rightarrow> storage \<Rightarrow> player_career \<times> storage" where
  "loadCareer env playerId st =
     (let initial = createDefaultCareer playerId
      in if \<not> ev_hasStorage env then (initial, st)
         else case so_career st of
           Stored p \<Rightarrow> (case restored_career playerId p of
               Some c \<Rightarrow> (c, st)
             | None \<Rightarrow> (initial, saveCareerDirect env initial st))
         | _ \<Rightarrow> (initial, saveCareerDirect env initial st))"

definition loadLedger :: "environment \<Rightarrow> storage \<Rightarrow> ledger_entry list" where
  "loadLedger env st =
     (if \<not> ev_hasStorage env then []
      else case so_ledger st of Stored es \<Rightarrow> last_entries MAX_STORED_ENTRIES es | _ \<Rightarrow> [])"

text \<open>\<open>None\<close> is a search for the end of the day that does not end.\<close>

definition loadDailyState :: "environment \<Rightarrow> storage \<Rightarrow> daily_state option" where
  "loadDailyState env st =
     (if \<not> ev_hasStorage env then createDailyState (ev_day env) (ev_now env)
      else case so_daily st of
        Stored d \<Rightarrow> normalizeDailyState (ev_day env) (Some d) (ev_now env)
      | _ \<Rightarrow> createDailyState (ev_day env) (ev_now env))"

definition loadLeagueClaims :: "environment \<Rightarrow> storage \<Rightarrow> string list" where
  "loadLeagueClaims env st =
     (if \<not> ev_hasStorage env then [] else case so_league st of Stored ids \<Rightarrow> ids | _ \<Rightarrow> [])"

definition new_manager :: "environment \<Rightarrow> string \<Rightarrow> storage \<Rightarrow> career_manager option" where
  "new_manager env playerId st =
     (let (c, st') = loadCareer env playerId st
      in map_option (\<lambda>d. \<lparr>cm_platformUserId = playerId, cm_career = c, cm_ledger = loadLedger env st',
           cm_dailyState = d, cm_remoteConnected = False, cm_connecting = False, cm_logins = 0,
           cm_storage = st', cm_notified = []\<rparr>) (loadDailyState env st'))"

definition getInstance ::
  "environment \<Rightarrow> string \<Rightarrow> storage \<Rightarrow> career_manager option \<Rightarrow> career_manager option" where
  "getInstance env playerId st inst = (case inst of
     Some m \<Rightarrow> if cm_platformUserId m = playerId then Some m else new_manager env playerId st
   | None \<Rightarrow> new_manager env playerId st)"

section \<open>Answers of the server\<close>

text \<open>\<open>applyRemoteState\<close>: entries whose identifier the ledger already has are dropped.\<close>

definition applyRemoteState :: "environment \<Rightarrow> player_career \<Rightarrow> ledger_entry list \<Rightarrow> career_manager \<Rightarrow> career_manager" where
  "applyRemoteState env c entries m =
     (let known = le_id ` set (cm_ledger m)
      in emitChange (saveLedger env (saveCareer env
           (m\<lparr>cm_career := c, cm_ledger := cm_ledger m @ filter (\<lambda>e. le_id e \<notin> known) entries\<rparr>))))"

definition applyLiveMatchSettlement :: "environment \<Rightarrow> match_settlement \<Rightarrow> career_manager \<Rightarrow> career_manager" where
  "applyLiveMatchSettlement env s m = applyRemoteState env (st_newCareer s) (st_ledgerEntries s) m"

text \<open>\<open>TutorialStatus.ts\<close>: the marker of the old flow is consumed once the server knows.\<close>

record hydration =
  hy_completed :: bool
  hy_migrated :: bool

definition readLegacyTutorialMarker :: "environment \<Rightarrow> storage \<Rightarrow> bool" where
  "readLegacyTutorialMarker env st \<longleftrightarrow> ev_hasStorage env \<and> so_legacyMarker st"

definition clearLegacyTutorialMarker :: "environment \<Rightarrow> storage \<Rightarrow> storage" where
  "clearLegacyTutorialMarker env st = (if ev_hasStorage env then st\<lparr>so_legacyMarker := False\<rparr> else st)"

definition clearTrainingProgress :: "environment \<Rightarrow> storage \<Rightarrow> storage" where
  "clearTrainingProgress env st = (if ev_hasStorage env then st\<lparr>so_trainingProgress := None\<rparr> else st)"

definition migrateLegacyTutorialMarker :: "environment \<Rightarrow> bool \<Rightarrow> bool \<Rightarrow> storage \<Rightarrow> hydration \<times> storage" where
  "migrateLegacyTutorialMarker env accepted serverCompleted st =
     (if serverCompleted
      then (\<lparr>hy_completed = True, hy_migrated = False\<rparr>, clearTrainingProgress env (clearLegacyTutorialMarker env st))
      else if \<not> readLegacyTutorialMarker env st then (\<lparr>hy_completed = False, hy_migrated = False\<rparr>, st)
      else if \<not> accepted then (\<lparr>hy_completed = False, hy_migrated = False\<rparr>, st)
      else (\<lparr>hy_completed = True, hy_migrated = True\<rparr>, clearTrainingProgress env (clearLegacyTutorialMarker env st)))"

section \<open>Connecting\<close>

text \<open>The answers to the requests of a connection: the login, the promotion of the old marker, the ledger.\<close>

record connect_answers =
  ca_login :: "career_error + player_career"
  ca_tutorial :: bool
  ca_ledger :: "ledger_entry list option"

definition performConnect ::
  "environment \<Rightarrow> connect_answers \<Rightarrow> career_manager \<Rightarrow> (career_error + player_career) \<times> career_manager" where
  "performConnect env ans m = (case ca_login ans of
       Inl e \<Rightarrow> (Inl e, m)
     | Inr c \<Rightarrow>
         let (h, st) = migrateLegacyTutorialMarker env (ca_tutorial ans) (pc_tutorialCompleted c = Some True) (cm_storage m);
             c' = (if hy_migrated h then c\<lparr>pc_tutorialCompleted := Some True\<rparr> else c);
             m1 = m\<lparr>cm_remoteConnected := True, cm_storage := st, cm_career := c'\<rparr>;
             m2 = (case ca_ledger ans of Some es \<Rightarrow> m1\<lparr>cm_ledger := es\<rparr> | None \<Rightarrow> m1);
             m3 = emitChange (saveLedger env (saveCareer env m2))
         in (Inr (cm_career m3), m3))"

text \<open>A call sends a login unless the manager is connected or a login is in flight already.\<close>

definition connect_start :: "career_manager \<Rightarrow> career_manager" where
  "connect_start m = (if cm_remoteConnected m \<or> cm_connecting m then m
     else m\<lparr>cm_connecting := True, cm_logins := cm_logins m + 1\<rparr>)"

definition connect_finish ::
  "environment \<Rightarrow> connect_answers \<Rightarrow> career_manager \<Rightarrow> (career_error + player_career) \<times> career_manager" where
  "connect_finish env ans m = (let (r, m') = performConnect env ans m in (r, m'\<lparr>cm_connecting := False\<rparr>))"

definition connect_manager ::
  "environment \<Rightarrow> connect_answers \<Rightarrow> career_manager \<Rightarrow> (career_error + player_career) \<times> career_manager" where
  "connect_manager env ans m =
     (if cm_remoteConnected m then (Inr (cm_career m), m) else connect_finish env ans (connect_start m))"

text \<open>Operations that wait for a connection in flight; its failure is swallowed.\<close>

definition await_connection :: "environment \<Rightarrow> connect_answers \<Rightarrow> career_manager \<Rightarrow> career_manager" where
  "await_connection env ans m = (if cm_connecting m then snd (connect_finish env ans m) else m)"

section \<open>Operations the server settles\<close>

definition requireRemoteApi :: "career_manager \<Rightarrow> career_error + unit" where
  "requireRemoteApi m = (if cm_remoteConnected m then Inr () else Inl (CareerError ''career_remote_not_connected''))"

text \<open>
  The pattern of three operations: the first answer, and when the socket turns out to be stale and the platform is
  at hand, one new connection and one second answer.
\<close>

definition retry_once ::
  "environment \<Rightarrow> bool \<Rightarrow> connect_answers \<Rightarrow> (career_error + 'a) \<Rightarrow> (career_error + 'a) \<Rightarrow> career_manager
   \<Rightarrow> (career_error + 'a) \<times> career_manager" where
  "retry_once env hasPlatform ans first second m = (case first of
       Inr a \<Rightarrow> (Inr a, m)
     | Inl e \<Rightarrow>
         if \<not> hasPlatform \<or> \<not> isStaleSocketError e then (Inl e, m)
         else case connect_manager env ans (m\<lparr>cm_remoteConnected := False\<rparr>) of
             (Inl e', m') \<Rightarrow> (Inl e', m')
           | (Inr _, m') \<Rightarrow> (second, m'))"

definition refreshRemoteCareer ::
  "environment \<Rightarrow> (career_error + player_career) \<Rightarrow> career_manager \<Rightarrow> (career_error + player_career) \<times> career_manager" where
  "refreshRemoteCareer env ans m = (case requireRemoteApi m of
       Inl e \<Rightarrow> (Inl e, m)
     | Inr _ \<Rightarrow> (case ans of Inl e \<Rightarrow> (Inl e, m) | Inr c \<Rightarrow> let m' = applyRemoteState env c [] m in (Inr (cm_career m'), m')))"

definition completeTutorialRemote ::
  "environment \<Rightarrow> bool \<Rightarrow> connect_answers \<Rightarrow> (career_error + player_career) \<Rightarrow> (career_error + player_career) \<Rightarrow> career_manager
   \<Rightarrow> (career_error + player_career) \<times> career_manager" where
  "completeTutorialRemote env hasPlatform ans first second m = (case requireRemoteApi m of
       Inl e \<Rightarrow> (Inl e, m)
     | Inr _ \<Rightarrow> (case retry_once env hasPlatform ans first second m of
           (Inl e, m') \<Rightarrow> (Inl e, m')
         | (Inr c, m') \<Rightarrow> (Inr c, applyRemoteState env c [] m')))"

definition recordMatchResultRemote ::
  "environment \<Rightarrow> bool \<Rightarrow> connect_answers \<Rightarrow> (career_error + match_settlement) \<Rightarrow> (career_error + match_settlement)
   \<Rightarrow> career_manager \<Rightarrow> (career_error + match_settlement) \<times> career_manager" where
  "recordMatchResultRemote env hasPlatform ans first second m = (case requireRemoteApi m of
       Inl e \<Rightarrow> (Inl e, m)
     | Inr _ \<Rightarrow> (case retry_once env hasPlatform ans first second m of
           (Inl e, m') \<Rightarrow> (Inl e, m')
         | (Inr s, m') \<Rightarrow> (Inr s, applyRemoteState env (st_newCareer s) (st_ledgerEntries s) m')))"

text \<open>\<open>createLocalBotMatchTicket\<close> of \<open>battlefields.ts\<close>: a ticket for one of the battlefields for two.\<close>

record bot_ticket =
  bt_botDifficulty :: "bot_difficulty option"
  bt_playerModifiers :: "player_modifiers option"
  bt_expiresAt :: "num option"
  bt_rules :: "num option"
  bt_matchId :: string
  bt_battlefieldId :: battlefield_id
  bt_commanderId :: "commander_id option"

definition createLocalBotMatchTicket :: "environment \<Rightarrow> bot_difficulty \<Rightarrow> bot_ticket" where
  "createLocalBotMatchTicket env difficulty =
     (let oneVOne = filter (\<lambda>b. b_mode b = OneVsOne) BATTLEFIELDS;
          index = math_floor (jmul (ev_draw env) (of_nat (length oneVOne)))
      in \<lparr>bt_botDifficulty = Some difficulty, bt_playerModifiers = None, bt_expiresAt = None,
          bt_rules = Some GAMEPLAY_RULES_VERSION, bt_matchId = ''local_'' @ num_string (ev_now env) @ ''_'' @ ev_random env,
          bt_battlefieldId = (case num_get oneVOne index of Some b \<Rightarrow> b_id b | None \<Rightarrow> DEFAULT_BATTLEFIELD_ID),
          bt_commanderId = None\<rparr>)"

text \<open>
  A match may wait for the connection in flight (\<open>pending\<close>), connect itself (\<open>fresh\<close>) and connect again
  (\<open>again\<close>) before its second answer.
\<close>

definition startBotMatch ::
  "environment \<Rightarrow> bool \<Rightarrow> bot_difficulty \<Rightarrow> connect_answers \<Rightarrow> connect_answers \<Rightarrow> connect_answers
   \<Rightarrow> (career_error + bot_ticket) \<Rightarrow> (career_error + bot_ticket) \<Rightarrow> career_manager
   \<Rightarrow> (career_error + bot_ticket) \<times> career_manager" where
  "startBotMatch env hasPlatform difficulty pending fresh again first second m =
     (let m1 = await_connection env pending m;
          (r, m2) = (if \<not> cm_remoteConnected m1 \<and> hasPlatform then connect_manager env fresh m1 else (Inr (cm_career m1), m1))
      in case r of
        Inl e \<Rightarrow> if \<not> ev_fallback env then (Inl e, m2) else (Inr (createLocalBotMatchTicket env difficulty), m2)
      | Inr _ \<Rightarrow>
          if cm_remoteConnected m2 then retry_once env hasPlatform again first second m2
          else if \<not> ev_fallback env then (Inl (CareerError ''backend_required_for_match_start''), m2)
          else (Inr (createLocalBotMatchTicket env difficulty), m2))"

definition claim_id :: "string \<Rightarrow> environment \<Rightarrow> string" where
  "claim_id prefix env = prefix @ ''_'' @ num_string (ev_now env) @ ''_'' @ ev_random env"

text \<open>A request of the client and what the server made of it; the identifier travels with the request.\<close>

definition purchaseUpgradeRemote ::
  "environment \<Rightarrow> connect_answers \<Rightarrow> upgrade_type \<Rightarrow> (upgrade_type \<Rightarrow> string \<Rightarrow> career_error + upgrade_purchase) \<Rightarrow> career_manager
   \<Rightarrow> (career_error + upgrade_purchase) \<times> career_manager" where
  "purchaseUpgradeRemote env pending ty server m =
     (let m1 = await_connection env pending m; purchaseId = claim_id (''upgrade_'' @ upgrade_name ty) env
      in case requireRemoteApi m1 of
        Inl e \<Rightarrow> (Inl e, m1)
      | Inr _ \<Rightarrow> (case server ty purchaseId of
            Inl e \<Rightarrow> (Inl e, m1)
          | Inr r \<Rightarrow> (case up_outcome r of
                Inr entry \<Rightarrow> (Inr r, applyRemoteState env (up_newCareer r) [entry] m1)
              | Inl _ \<Rightarrow> (Inr r, m1))))"

record commander_selection =
  cs_success :: bool
  cs_reason :: "string option"
  cs_commanderId :: commander_id
  cs_newCareer :: player_career

definition selectCommander ::
  "environment \<Rightarrow> connect_answers \<Rightarrow> (career_error + commander_selection) \<Rightarrow> commander_id \<Rightarrow> career_manager
   \<Rightarrow> (career_error + commander_selection) \<times> career_manager" where
  "selectCommander env pending answer commanderId m =
     (let m1 = await_connection env pending m
      in if cm_remoteConnected m1 then (case answer of
            Inl e \<Rightarrow> (Inl e, m1)
          | Inr r \<Rightarrow> (Inr r, if cs_success r then applyRemoteState env (cs_newCareer r) [] m1 else m1))
         else if \<not> ev_fallback env then (Inl (CareerError ''backend_required_for_commander''), m1)
         else if \<not> isCommanderUnlocked (Some commanderId) (getKingdomLevel (cm_career m1)) then
           (Inr \<lparr>cs_success = False, cs_reason = Some ''commander_locked'', cs_commanderId = commanderId,
              cs_newCareer = cm_career m1\<rparr>, m1)
         else
           let m2 = emitChange (saveCareer env (m1\<lparr>cm_career := (cm_career m1)\<lparr>pc_selectedCommanderId := commanderId\<rparr>\<rparr>))
           in (Inr \<lparr>cs_success = True, cs_reason = None, cs_commanderId = commanderId, cs_newCareer = cm_career m2\<rparr>, m2))"

section \<open>Campaign, lanes and the weekly challenge\<close>

text \<open>What a report of a won battle returns; the count of levels is that of the campaign alone.\<close>

record clear_result =
  cr_success :: bool
  cr_reason :: "string option"
  cr_reward :: num
  cr_claimId :: string
  cr_newCareer :: "player_career option"
  cr_ledgerEntry :: "ledger_entry option"

record level_clear_result = clear_result +
  cr_levelsCompleted :: num

definition apply_clear :: "environment \<Rightarrow> 'a clear_result_scheme \<Rightarrow> career_manager \<Rightarrow> career_manager" where
  "apply_clear env r m = (case (cr_newCareer r, cr_ledgerEntry r) of
       (Some c, Some entry) \<Rightarrow> if cr_success r \<and> 0 < cr_reward r then applyRemoteState env c [entry] m else m
     | _ \<Rightarrow> m)"

definition loadLocalLevelsCompleted :: "environment \<Rightarrow> storage \<Rightarrow> num" where
  "loadLocalLevelsCompleted env st =
     (if \<not> ev_hasStorage env then 0
      else case so_levels st of
        Finite v \<Rightarrow> if number_is_integer (Finite v) \<and> 0 \<le> v \<and> v \<le> of_nat LEVEL_COUNT then v else 0
      | _ \<Rightarrow> 0)"

definition requireLevelsApi :: "environment \<Rightarrow> career_manager \<Rightarrow> career_error + unit" where
  "requireLevelsApi env m = (case requireRemoteApi m of
       Inl e \<Rightarrow> Inl e | Inr _ \<Rightarrow> if ev_levelsApi env then Inr () else Inl (CareerError ''levels_not_supported''))"

definition requireWeeklyApi :: "environment \<Rightarrow> career_manager \<Rightarrow> career_error + unit" where
  "requireWeeklyApi env m = (case requireRemoteApi m of
       Inl e \<Rightarrow> Inl e | Inr _ \<Rightarrow> if ev_weeklyApi env then Inr () else Inl (CareerError ''weekly_not_supported''))"

definition getLevelsCompleted :: "environment \<Rightarrow> (career_error + num) \<Rightarrow> career_manager \<Rightarrow> career_error + num" where
  "getLevelsCompleted env answer m =
     (if cm_remoteConnected m then (case requireLevelsApi env m of Inl e \<Rightarrow> Inl e | Inr _ \<Rightarrow> answer)
      else if \<not> ev_fallback env then Inl (CareerError ''backend_required_for_levels'')
      else Inr (loadLocalLevelsCompleted env (cm_storage m)))"

definition completeLevel ::
  "environment \<Rightarrow> num \<Rightarrow> (string \<Rightarrow> career_error + level_clear_result) \<Rightarrow> career_manager
   \<Rightarrow> (career_error + level_clear_result) \<times> career_manager" where
  "completeLevel env levelId server m =
     (let claimId = claim_id (''level_'' @ num_string levelId) env
      in if cm_remoteConnected m then (case requireLevelsApi env m of
            Inl e \<Rightarrow> (Inl e, m)
          | Inr _ \<Rightarrow> (case server claimId of Inl e \<Rightarrow> (Inl e, m) | Inr r \<Rightarrow> (Inr r, apply_clear env r m)))
         else if \<not> ev_fallback env then (Inl (CareerError ''backend_required_for_levels''), m)
         else
           let reached = levelsCompletedAfter (loadLocalLevelsCompleted env (cm_storage m)) (Finite levelId)
           in (Inr \<lparr>cr_success = True, cr_reason = None, cr_reward = 0, cr_claimId = claimId, cr_newCareer = None,
                 cr_ledgerEntry = None, cr_levelsCompleted = reached\<rparr>,
               if can_write env then m\<lparr>cm_storage := (cm_storage m)\<lparr>so_levels := Finite reached\<rparr>\<rparr> else m))"

definition completeLane ::
  "environment \<Rightarrow> num \<Rightarrow> (string \<Rightarrow> career_error + clear_result) \<Rightarrow> career_manager
   \<Rightarrow> (career_error + clear_result) \<times> career_manager" where
  "completeLane env levelId server m =
     (if \<not> cm_remoteConnected m then (Inl (CareerError ''backend_required_for_lane''), m)
      else if \<not> ev_laneApi env then (Inl (CareerError ''lane_not_supported''), m)
      else case server (claim_id (''lane_'' @ num_string levelId) env) of
        Inl e \<Rightarrow> (Inl e, m)
      | Inr r \<Rightarrow> (Inr r, apply_clear env r m))"

definition getWeeklyChallenge :: "environment \<Rightarrow> (career_error + 'w) \<Rightarrow> career_manager \<Rightarrow> career_error + 'w" where
  "getWeeklyChallenge env answer m =
     (if \<not> cm_remoteConnected m then Inl (CareerError ''backend_required_for_weekly'')
      else case requireWeeklyApi env m of Inl e \<Rightarrow> Inl e | Inr _ \<Rightarrow> answer)"

definition completeWeekly ::
  "environment \<Rightarrow> num \<Rightarrow> num \<Rightarrow> (string \<Rightarrow> career_error + clear_result) \<Rightarrow> career_manager
   \<Rightarrow> (career_error + clear_result) \<times> career_manager" where
  "completeWeekly env weekIndex slot_index server m =
     (if \<not> cm_remoteConnected m then (Inl (CareerError ''backend_required_for_weekly''), m)
      else case requireWeeklyApi env m of
        Inl e \<Rightarrow> (Inl e, m)
      | Inr _ \<Rightarrow> (case server (claim_id (''weekly_'' @ num_string weekIndex @ ''_'' @ num_string slot_index) env) of
            Inl e \<Rightarrow> (Inl e, m)
          | Inr r \<Rightarrow> (Inr r, apply_clear env r m)))"

section \<open>Daily missions and the league\<close>

text \<open>\<open>None\<close> is again a search for the end of the day that does not end.\<close>

definition set_daily :: "environment \<Rightarrow> daily_state \<Rightarrow> career_manager \<Rightarrow> career_manager" where
  "set_daily env d m = saveDailyState env (m\<lparr>cm_dailyState := d\<rparr>)"

definition getDailyStateRemote :: "(career_error + daily_state) \<Rightarrow> career_manager \<Rightarrow> career_error + daily_state" where
  "getDailyStateRemote answer m = (case requireRemoteApi m of Inl e \<Rightarrow> Inl e | Inr _ \<Rightarrow> answer)"

definition getDailyState ::
  "environment \<Rightarrow> (career_error + daily_state) \<Rightarrow> career_manager \<Rightarrow> ((career_error + daily_state) \<times> career_manager) option" where
  "getDailyState env answer m =
     (if cm_remoteConnected m then Some (case getDailyStateRemote answer m of
          Inl e \<Rightarrow> (Inl e, m)
        | Inr d \<Rightarrow> (Inr d, set_daily env d m))
      else if \<not> ev_fallback env then Some (Inl (CareerError ''backend_required_for_daily_missions''), m)
      else map_option (\<lambda>d. (Inr d, set_daily env d m)) (normalizeDailyState (ev_day env) (Some (cm_dailyState m)) (ev_now env)))"

definition claimDailyRewardRemote ::
  "environment \<Rightarrow> daily_reward \<Rightarrow> (string \<Rightarrow> career_error + daily_claim) \<Rightarrow> career_manager
   \<Rightarrow> (career_error + daily_claim) \<times> career_manager" where
  "claimDailyRewardRemote env r server m = (case requireRemoteApi m of
       Inl e \<Rightarrow> (Inl e, m)
     | Inr _ \<Rightarrow> (case server (claim_id (''daily_'' @ reward_name r) env) of
           Inl e \<Rightarrow> (Inl e, m)
         | Inr d \<Rightarrow>
             let m1 = set_daily env (dr_state d) m
             in (Inr d, case dr_ledgerEntry d of
                  Some entry \<Rightarrow> if dr_success d then applyRemoteState env (dr_newCareer d) [entry] m1 else m1
                | None \<Rightarrow> m1)))"

text \<open>What every local change of the balance does: the career, the ledger, the storage, the listeners.\<close>

definition apply_local :: "environment \<Rightarrow> player_career \<Rightarrow> ledger_entry list \<Rightarrow> career_manager \<Rightarrow> career_manager" where
  "apply_local env c entries m =
     emitChange (saveLedger env (saveCareer env (m\<lparr>cm_career := c, cm_ledger := cm_ledger m @ entries\<rparr>)))"

definition claimDailyReward ::
  "environment \<Rightarrow> daily_reward \<Rightarrow> (string \<Rightarrow> career_error + daily_claim) \<Rightarrow> career_manager
   \<Rightarrow> ((career_error + daily_claim) \<times> career_manager) option" where
  "claimDailyReward env r server m =
     (if cm_remoteConnected m then Some (claimDailyRewardRemote env r server m)
      else if \<not> ev_fallback env then Some (Inl (CareerError ''backend_required_for_daily_claim''), m)
      else map_option (\<lambda>d.
          let m1 = set_daily env (dr_state d) m
          in (Inr d, case dr_ledgerEntry d of
               Some entry \<Rightarrow> if dr_success d then apply_local env (dr_newCareer d) [entry] m1 else m1
             | None \<Rightarrow> m1))
        (claimDailyRewardLocally (ev_day env) (Some (cm_dailyState m)) (cm_career m) r
          (claim_id (''daily_'' @ reward_name r) env) (ev_now env)))"

definition getLeagueState :: "environment \<Rightarrow> (career_error + league_state) \<Rightarrow> career_manager \<Rightarrow> career_error + league_state" where
  "getLeagueState env answer m =
     (if cm_remoteConnected m then answer
      else if \<not> ev_fallback env then Inl (CareerError ''backend_required_for_league'')
      else Inr (createLeagueState (cm_career m) (loadLeagueClaims env (cm_storage m))))"

definition claimLeagueReward ::
  "environment \<Rightarrow> string \<Rightarrow> (string \<Rightarrow> career_error + league_claim) \<Rightarrow> career_manager
   \<Rightarrow> (career_error + league_claim) \<times> career_manager" where
  "claimLeagueReward env rankId server m =
     (let claimId = claim_id (''league_'' @ rankId) env
      in if cm_remoteConnected m then (case server claimId of
            Inl e \<Rightarrow> (Inl e, m)
          | Inr r \<Rightarrow> (Inr r, case lc_ledgerEntry r of
                Some entry \<Rightarrow> if lc_success r then applyRemoteState env (lc_newCareer r) [entry] m else m
              | None \<Rightarrow> m))
         else if \<not> ev_fallback env then (Inl (CareerError ''backend_required_for_league_claim''), m)
         else
           let s = createLeagueState (cm_career m) (loadLeagueClaims env (cm_storage m));
               r = claimLeagueRewardLocally s (cm_career m) rankId claimId (ev_now env)
           in (Inr r, case lc_ledgerEntry r of
                Some entry \<Rightarrow>
                  if lc_success r
                  then apply_local env (lc_newCareer r) [entry]
                    (saveLeagueClaims env (map lf_rankId (filter lf_claimed (lv_tiers (lc_state r)))) m)
                  else m
              | None \<Rightarrow> m))"

section \<open>Local matches and purchases\<close>

definition recordMatchResult ::
  "environment \<Rightarrow> outcome \<Rightarrow> match_stats \<Rightarrow> string option \<Rightarrow> career_manager \<Rightarrow> (match_settlement \<times> career_manager) option" where
  "recordMatchResult env status stats given m =
     (let matchId = (case given of Some i \<Rightarrow> i | None \<Rightarrow> ''m_'' @ num_string (ev_now env));
          s = settleMatch (cm_career m) status stats matchId (ev_now env)
      in map_option (\<lambda>d.
            (s, emitChange (saveDailyState env (saveLedger env (saveCareer env
              (m\<lparr>cm_career := st_newCareer s, cm_ledger := cm_ledger m @ st_ledgerEntries s, cm_dailyState := d\<rparr>))))))
          (advanceDailyState (ev_day env) (Some (cm_dailyState m)) (st_status s) (st_stats s) (ev_now env)))"

definition purchase_upgrade :: "environment \<Rightarrow> upgrade_type \<Rightarrow> career_manager \<Rightarrow> upgrade_purchase \<times> career_manager" where
  "purchase_upgrade env ty m =
     (let r = purchaseUpgrade (cm_career m) ty (claim_id (''upgrade_'' @ upgrade_name ty) env) (ev_now env)
      in case up_outcome r of
        Inl _ \<Rightarrow> (r, m)
      | Inr entry \<Rightarrow> (r, apply_local env (up_newCareer r) [entry] m))"

section \<open>Training\<close>

text \<open>
  \<open>TutorialStatus.ts\<close>: the text of the progress is read with \<open>Number.parseInt(raw, 10)\<close>, blanks, a sign and the
  leading digits; \<open>None\<close> is \<open>NaN\<close>. There are five guided steps, and the number five stands for all of them done.
\<close>

definition TRAINING_ACTIONS_COMPLETE :: nat where "TRAINING_ACTIONS_COMPLETE = 5"

definition is_digit :: "char \<Rightarrow> bool" where
  "is_digit ch \<longleftrightarrow> CHR ''0'' \<le> ch \<and> ch \<le> CHR ''9''"

definition is_blank :: "char \<Rightarrow> bool" where
  "is_blank ch \<longleftrightarrow> ch \<in> {CHR '' '', CHR 0x09, CHR 0x0A, CHR 0x0B, CHR 0x0C, CHR 0x0D, CHR 0xA0}"

definition digits_value :: "string \<Rightarrow> int" where
  "digits_value ds = foldl (\<lambda>v ch. 10 * v + (of_char ch - of_char (CHR ''0''))) 0 ds"

definition parse_int :: "string \<Rightarrow> int option" where
  "parse_int raw =
     (let body = dropWhile is_blank raw;
          negative = (body \<noteq> [] \<and> hd body = CHR ''-'');
          rest = (if body \<noteq> [] \<and> hd body \<in> {CHR ''-'', CHR ''+''} then tl body else body);
          ds = takeWhile is_digit rest
      in if ds = [] then None else Some (if negative then - digits_value ds else digits_value ds))"

definition saveTrainingProgress :: "environment \<Rightarrow> nat \<Rightarrow> storage \<Rightarrow> storage" where
  "saveTrainingProgress env stepIndex st =
     (if can_write env then st\<lparr>so_trainingProgress := Some (nat_string stepIndex)\<rparr> else st)"

definition loadTrainingProgress :: "environment \<Rightarrow> storage \<Rightarrow> nat" where
  "loadTrainingProgress env st =
     (let raw = (if ev_hasStorage env then so_trainingProgress st else None)
      in case parse_int (case raw of Some t \<Rightarrow> t | None \<Rightarrow> ''0'') of
        Some v \<Rightarrow> if 0 \<le> v \<and> v \<le> int TRAINING_ACTIONS_COMPLETE then nat v else 0
      | None \<Rightarrow> 0)"

definition createTrainingTicket :: "environment \<Rightarrow> bot_ticket" where
  "createTrainingTicket env = \<lparr>bt_botDifficulty = None, bt_playerModifiers = None, bt_expiresAt = None, bt_rules = None,
     bt_matchId = ''training_'' @ num_string (ev_now env) @ ''_'' @ ev_random env, bt_battlefieldId = ''crown_cross'',
     bt_commanderId = None\<rparr>"

datatype menu_entry = AutoTraining | ShowMenu
datatype play_entry = PlayTraining | PlayBot
datatype pvp_entry = PvpTraining | PvpMatch

definition resolveMenuEntryAction :: "bool \<Rightarrow> bool \<Rightarrow> menu_entry" where
  "resolveMenuEntryAction tutorialCompleted launchedThisSession =
     (if \<not> tutorialCompleted \<and> \<not> launchedThisSession then AutoTraining else ShowMenu)"

definition resolvePlayEntryAction :: "bool \<Rightarrow> play_entry" where
  "resolvePlayEntryAction tutorialCompleted = (if tutorialCompleted then PlayBot else PlayTraining)"

definition resolvePvpEntryAction :: "bool \<Rightarrow> pvp_entry" where
  "resolvePvpEntryAction tutorialCompleted = (if tutorialCompleted then PvpMatch else PvpTraining)"

end
