(* ===== verification/RewardFacts.thy ===== *)
theory RewardFacts
  imports Rewards
begin

text \<open>
  The end of the day is found; daily states stay in order; over any number of days each daily reward is paid
  once a day and has its entry in the ledger (\<open>books_ok\<close>); rewards of both desks are paid once, by a claim that the
  state allows.
\<close>

section \<open>The day's window\<close>

text \<open>
  What the code relies on: the moments of one local day form an interval, and no local day is as long as thirty
  hours.
\<close>

definition day_ok :: "day_fn \<Rightarrow> bool" where
  "day_ok day \<longleftrightarrow> (\<forall>a b c. a \<le> b \<and> b \<le> c \<and> day a = day c \<longrightarrow> day b = day a)
     \<and> (\<forall>t. day (t + 108000000) \<noteq> day t)"

definition window_inv :: "day_fn \<Rightarrow> int \<Rightarrow> num \<times> num \<Rightarrow> bool" where
  "window_inv day now = (\<lambda>(low, high). \<exists>l h. low = of_int l \<and> high = of_int h \<and> now \<le> l \<and> l < h \<and> h \<le> now + 108000000
     \<and> day (of_int l) = day (of_int now) \<and> day (of_int h) \<noteq> day (of_int now))"

lemma int_diff_exact: "\<bar>b - a\<bar> \<le> 2 ^ 53 \<Longrightarrow> jsub (of_int b) (of_int a) = of_int (b - a)"
  using fl_of_int_exact [of "b - a"] by simp

lemma middle_exact:
  assumes "\<bar>l + h\<bar> \<le> 2 ^ 53"
  shows "math_floor (jdiv (jadd (of_int l) (of_int h)) 2) = of_int ((l + h) div 2)"
proof -
  have "jadd (of_int l) (of_int h) = of_int (l + h)" using fl_of_int_exact [OF assms] by simp
  moreover have "jdiv (of_int (l + h)) 2 = of_int (l + h) / 2" using fl_dyadic [OF assms, of 1] by simp
  moreover have "\<lfloor>of_int (l + h) / (2 :: num)\<rfloor> = (l + h) div 2"
    using floor_divide_of_int_eq [of "l + h" 2, where ?'a = rat] by simp
  ultimately show ?thesis by (simp only: math_floor_def)
qed

lemma day_search_step_ok:
  assumes "0 \<le> now" "now \<le> 2 ^ 51" "window_inv day now (low, high)" "1 < jsub high low"
  shows "window_inv day now (day_search_step day (day (of_int now)) (low, high))
    \<and> nat \<lfloor>snd (day_search_step day (day (of_int now)) (low, high)) - fst (day_search_step day (day (of_int now)) (low, high))\<rfloor>
      < nat \<lfloor>high - low\<rfloor>"
proof -
  obtain l h where lh: "low = of_int l" "high = of_int h" "now \<le> l" "l < h" "h \<le> now + 108000000"
    "day (of_int l) = day (of_int now)" "day (of_int h) \<noteq> day (of_int now)"
    using assms(3) by (auto simp: window_inv_def)
  have "jsub high low = of_int (h - l)" unfolding lh(1,2) by (rule int_diff_exact) (use lh(3-5) in simp)
  then have gap: "1 < h - l" using assms(4) by simp
  have mid: "math_floor (jdiv (jadd low high) 2) = of_int ((l + h) div 2)"
    unfolding lh(1,2) by (rule middle_exact) (use assms(1,2) lh(3-5) in simp)
  have between: "l < (l + h) div 2" "(l + h) div 2 < h" using gap by linarith+
  show ?thesis
  proof (cases "day (of_int ((l + h) div 2)) = day (of_int now)")
    case True
    then have "day_search_step day (day (of_int now)) (low, high) = (of_int ((l + h) div 2), of_int h)"
      unfolding day_search_step_def prod.case Let_def mid using lh(2) by simp
    then show ?thesis using True lh between by (auto simp: window_inv_def simp flip: of_int_diff)
  next
    case False
    then have "day_search_step day (day (of_int now)) (low, high) = (of_int l, of_int ((l + h) div 2))"
      unfolding day_search_step_def prod.case Let_def mid using lh(1) by simp
    then show ?thesis using False lh between by (auto simp: window_inv_def simp flip: of_int_diff)
  qed
qed

lemma tehranDayWindow_ok:
  assumes "day_ok day" "0 \<le> now" "now \<le> 2 ^ 51"
  shows "\<exists>r. tehranDayWindow day (of_int now) = Some \<lparr>dw_dayKey = day (of_int now), dw_resetsAt = of_int r\<rparr>
    \<and> now < r \<and> r \<le> now + 108000000 \<and> day (of_int r) \<noteq> day (of_int now) \<and> day (of_int (r - 1)) = day (of_int now)"
proof -
  let ?b = "\<lambda>(low, high). 1 < jsub high low" and ?f = "day_search_step day (day (of_int now))"
  let ?P = "window_inv day now" and ?m = "\<lambda>(low, high). nat \<lfloor>high - low :: num\<rfloor>"
  have end_of_search: "jadd (of_int now) (30 * 60 * 60 * 1000) = of_int (now + 108000000)"
    using fl_of_int_exact [of "now + 108000000"] assms(2,3) by simp
  have start: "?P (of_int now, jadd (of_int now) (30 * 60 * 60 * 1000))"
  proof -
    have "day (of_int now + 108000000) \<noteq> day (of_int now)" using assms(1) unfolding day_ok_def by blast
    then have "day (of_int (now + 108000000)) \<noteq> day (of_int now)" by simp
    then show ?thesis unfolding end_of_search window_inv_def prod.case
      by (intro exI [of _ now] exI [of _ "now + 108000000"]) simp
  qed
  have step: "?P (?f p) \<and> ?m (?f p) < ?m p" if "?P p" "?b p" for p
    using day_search_step_ok [OF assms(2,3), of day "fst p" "snd p"] that by (simp add: case_prod_beta)
  obtain low high where run: "while_option ?b ?f (of_int now, jadd (of_int now) (30 * 60 * 60 * 1000)) = Some (low, high)"
    using measure_while_option_Some [of ?P ?b ?f ?m, OF step start] by (metis surj_pair)
  have "?P (low, high)" by (rule while_option_rule [where P = ?P, OF _ run start]) (use step in blast)
  then obtain l h where lh: "low = of_int l" "high = of_int h" "now \<le> l" "l < h" "h \<le> now + 108000000"
    "day (of_int l) = day (of_int now)" "day (of_int h) \<noteq> day (of_int now)" by (auto simp: window_inv_def)
  have "jsub high low = of_int (h - l)" unfolding lh(1,2) by (rule int_diff_exact) (use lh(3-5) in simp)
  moreover have "\<not> 1 < jsub high low" using while_option_stop [OF run] by simp
  ultimately have "l = h - 1" using lh(4) by simp
  then show ?thesis using run lh by (auto simp: tehranDayWindow_def)
qed

section \<open>Desks that pay rewards\<close>

text \<open>Claims one after another; a claim that is refused changes nothing.\<close>

fun claim_all :: "('s \<Rightarrow> player_career \<Rightarrow> 'k \<Rightarrow> ('s \<times> player_career) option) \<Rightarrow> 'k list \<Rightarrow> 's \<Rightarrow> player_career \<Rightarrow> 's \<times> player_career" where
  "claim_all claim [] s c = (s, c)"
| "claim_all claim (k # ks) s c = (case claim s c k of None \<Rightarrow> claim_all claim ks s c | Some (s', c') \<Rightarrow> claim_all claim ks s' c')"

text \<open>
  The interface of a desk: a claim that is granted is for a reward not paid before, adds its price to the coins,
  changes nothing else of the career, and marks that reward alone as paid.
\<close>

locale reward_desk =
  fixes claim :: "'s \<Rightarrow> player_career \<Rightarrow> 'k \<Rightarrow> ('s \<times> player_career) option"
    and paid :: "'s \<Rightarrow> 'k set" and price :: "'k \<Rightarrow> num" and keys :: "'k set" and ok :: "'s \<Rightarrow> bool"
  assumes granted: "ok s \<Longrightarrow> claim s c k = Some (s', c') \<Longrightarrow>
      k \<in> keys \<and> k \<notin> paid s \<and> paid s' = insert k (paid s) \<and> ok s' \<and> c' = c\<lparr>pc_coins := jadd (pc_coins c) (price k)\<rparr>"
    and finite_keys: "finite keys"
    and price_nat: "price k \<in> \<nat>"
begin

lemma price_sum: "sum price A \<in> \<nat>"
  by (induction A rule: infinite_finite_induct) (simp_all add: price_nat)

lemma price_nonneg: "0 \<le> price k"
  using price_nat [of k] by (simp add: Nats_iff)

lemma claims_paid:
  assumes "ok s" "pc_coins c \<in> \<nat>" "pc_coins c + sum price (keys - paid s) \<le> 2 ^ 53"
    and "claim_all claim ks s c = (s', c')"
  shows "ok s' \<and> paid s \<subseteq> paid s' \<and> paid s' - paid s \<subseteq> keys \<inter> set ks
    \<and> c' = c\<lparr>pc_coins := pc_coins c + sum price (paid s' - paid s)\<rparr>"
  using assms
proof (induction ks arbitrary: s c)
  case (Cons k ks)
  show ?case
  proof (cases "claim s c k")
    case None
    then show ?thesis using Cons.IH [OF Cons.prems(1-3)] Cons.prems(4) by auto
  next
    case (Some p)
    obtain s1 c1 where p: "claim s c k = Some (s1, c1)" using Some by (cases p) simp
    note g = granted [OF Cons.prems(1) p]
    have new: "k \<in> keys" "k \<notin> paid s" "paid s1 = insert k (paid s)" "ok s1" using g by blast+
    have split: "sum price (keys - paid s) = price k + sum price (keys - paid s1)"
    proof -
      have "keys - paid s = insert k (keys - paid s1)" "k \<notin> keys - paid s1" using new by auto
      then show ?thesis using finite_keys by simp
    qed
    have rest: "0 \<le> sum price (keys - paid s1)" by (rule sum_nonneg) (rule price_nonneg)
    have "jadd (pc_coins c) (price k) = pc_coins c + price k"
      by (rule Nats_add_exact [OF Cons.prems(2) price_nat]) (use Cons.prems(3) split rest in linarith)
    then have c1: "c1 = c\<lparr>pc_coins := pc_coins c + price k\<rparr>" using g by simp
    have "pc_coins c1 \<in> \<nat>" using Cons.prems(2) price_nat by (simp add: c1)
    moreover have "pc_coins c1 + sum price (keys - paid s1) \<le> 2 ^ 53" using Cons.prems(3) split by (simp add: c1 add.assoc)
    moreover have "claim_all claim ks s1 c1 = (s', c')" using Cons.prems(4) p by simp
    ultimately have IH: "ok s'" "paid s1 \<subseteq> paid s'" "paid s' - paid s1 \<subseteq> keys \<inter> set ks"
      "c' = c1\<lparr>pc_coins := pc_coins c1 + sum price (paid s' - paid s1)\<rparr>"
      using Cons.IH [OF new(4)] by blast+
    have "paid s' - paid s = insert k (paid s' - paid s1)" "k \<notin> paid s' - paid s1" using IH(2) new(2,3) by auto
    moreover have "finite (paid s' - paid s1)" using IH(3) finite_keys by (meson finite_Int finite_subset)
    ultimately have "sum price (paid s' - paid s) = price k + sum price (paid s' - paid s1)" by simp
    then show ?thesis using IH new by (auto simp: c1 add.assoc)
  qed
qed simp

lemma claims_bounded:
  assumes "ok s" "pc_coins c \<in> \<nat>" "pc_coins c + sum price (keys - paid s) \<le> 2 ^ 53"
    and "claim_all claim ks s c = (s', c')"
  shows "pc_coins c' \<le> pc_coins c + sum price (keys - paid s)"
proof -
  have c': "paid s' - paid s \<subseteq> keys" "c' = c\<lparr>pc_coins := pc_coins c + sum price (paid s' - paid s)\<rparr>"
    using claims_paid [OF assms] by auto
  have "sum price (paid s' - paid s) \<le> sum price (keys - paid s)"
    by (rule sum_mono2) (use finite_keys c'(1) price_nonneg in auto)
  then show ?thesis by (simp add: c'(2))
qed

end

section \<open>Daily states\<close>

text \<open>
  The normal form of a daily state: its window, the progress and the claims of its missions, and whether the chest
  has been claimed.
\<close>

definition daily_form :: "day_window \<Rightarrow> (daily_reward \<Rightarrow> num) \<Rightarrow> (daily_reward \<Rightarrow> bool) \<Rightarrow> bool \<Rightarrow> daily_state" where
  "daily_form window p b chest = \<lparr>ds_dayKey = dw_dayKey window, ds_resetsAt = dw_resetsAt window,
     ds_missions = map (\<lambda>d. mission_state d (p (mn_id d)) (mn_target d \<le> p (mn_id d)) (b (mn_id d))) MISSION_DEFINITIONS,
     ds_chest = \<lparr>dc_reward = CROWN_CHEST_REWARD, dc_unlocked = (\<forall>d\<in>set MISSION_DEFINITIONS. b (mn_id d)),
       dc_claimed = ((\<forall>d\<in>set MISSION_DEFINITIONS. b (mn_id d)) \<and> chest)\<rparr>\<rparr>"

definition mission_target :: "daily_reward \<Rightarrow> num" where
  "mission_target k = (case k of PlayMatches \<Rightarrow> 2 | WinMatch \<Rightarrow> 1 | CaptureTerritories \<Rightarrow> 10 | CrownChest \<Rightarrow> 0)"

definition progress_ok :: "(daily_reward \<Rightarrow> num) \<Rightarrow> bool" where
  "progress_ok p \<longleftrightarrow> (\<forall>k. p k \<in> \<nat> \<and> p k \<le> mission_target k)"

lemmas daily_table = MISSION_DEFINITIONS_def mission_state_def

lemma mission_simps [simp]:
  "dm_id (mission_state d q e f) = mn_id d" "dm_progress (mission_state d q e f) = q"
  "dm_target (mission_state d q e f) = mn_target d" "dm_reward (mission_state d q e f) = mn_reward d"
  "dm_complete (mission_state d q e f) = e" "dm_claimed (mission_state d q e f) = f"
  "dm_title (mission_state d q e f) = mn_title d" "dm_description (mission_state d q e f) = mn_description d"
  by (simp_all add: mission_state_def)

lemma clamp_ok: "0 \<le> t \<Longrightarrow> t \<in> \<nat> \<Longrightarrow> min t (max 0 (math_floor x)) \<in> \<nat> \<and> min t (max 0 (math_floor x)) \<le> (t :: num)"
  by (auto simp: min_def max_def Nats_iff)

text \<open>Every state is brought into the normal form of the window.\<close>

lemma normalized_form: "\<exists>p b. normalized_daily w v = daily_form w p b (dc_claimed (ds_chest v)) \<and> progress_ok p"
proof -
  let ?st = "stored_mission (ds_missions v)"
  define p where "p k = min (mission_target k) (max 0 (math_floor (case ?st k of Some m \<Rightarrow> dm_progress m | None \<Rightarrow> 0)))" for k
  define b where "b k = (case ?st k of Some m \<Rightarrow> dm_claimed m | None \<Rightarrow> False)" for k
  have "progress_ok p" unfolding progress_ok_def p_def
  proof
    fix k
    show "min (mission_target k) (max 0 (math_floor (case ?st k of Some m \<Rightarrow> dm_progress m | None \<Rightarrow> 0))) \<in> \<nat>
      \<and> min (mission_target k) (max 0 (math_floor (case ?st k of Some m \<Rightarrow> dm_progress m | None \<Rightarrow> 0))) \<le> mission_target k"
      by (rule clamp_ok) (simp_all add: mission_target_def split: daily_reward.split)
  qed
  moreover have "normalized_daily w v = daily_form w p b (dc_claimed (ds_chest v))"
    by (simp add: normalized_daily_def daily_form_def normalized_mission_def MISSION_DEFINITIONS_def Let_def p_def b_def
        mission_target_def)
  ultimately show ?thesis by blast
qed

lemma progress_okD: "progress_ok p \<Longrightarrow> math_floor (p k) = p k \<and> 0 \<le> p k \<and> p k \<le> mission_target k"
  by (auto simp: progress_ok_def Nats_iff dest: spec [of _ k])

lemma stored_form: "stored_mission (ds_missions (daily_form w p b chest)) k
   = (if k = CrownChest then None else Some (mission_state (the (List.find (\<lambda>d. mn_id d = k) MISSION_DEFINITIONS)) (p k)
        (mission_target k \<le> p k) (b k)))"
  by (cases k) (simp_all add: stored_mission_def daily_form_def MISSION_DEFINITIONS_def mission_target_def)

text \<open>The normal form is kept: only the window is replaced.\<close>

lemma normalized_mission_form:
  assumes "progress_ok p" "d \<in> set MISSION_DEFINITIONS"
  shows "normalized_mission (ds_missions (daily_form w p b chest)) d
    = mission_state d (p (mn_id d)) (mn_target d \<le> p (mn_id d)) (b (mn_id d))"
proof -
  have d: "mn_target d = mission_target (mn_id d)" "mn_id d \<noteq> CrownChest"
    using assms(2) by (auto simp: MISSION_DEFINITIONS_def mission_target_def)
  show ?thesis using d(2) progress_okD [OF assms(1), of "mn_id d"]
    by (simp add: normalized_mission_def stored_form d(1) Let_def)
qed

lemma normalized_daily_form:
  assumes "progress_ok p" shows "normalized_daily w' (daily_form w p b chest) = daily_form w' p b chest"
proof -
  have "map (normalized_mission (ds_missions (daily_form w p b chest))) MISSION_DEFINITIONS = ds_missions (daily_form w' p b chest)"
    using normalized_mission_form [OF assms] by (simp add: daily_form_def [of w'])
  then show ?thesis by (simp add: normalized_daily_def Let_def) (auto simp: daily_form_def list_all_iff)
qed

lemma find_form: "find_mission k (daily_form w p b chest)
   = (if k = CrownChest then None else Some (mission_state (the (List.find (\<lambda>d. mn_id d = k) MISSION_DEFINITIONS)) (p k)
        (mission_target k \<le> p k) (b k)))"
  by (cases k) (simp_all add: find_mission_def daily_form_def MISSION_DEFINITIONS_def mission_target_def)

definition daily_price :: "daily_reward \<Rightarrow> num" where
  "daily_price k = (case k of PlayMatches \<Rightarrow> 30 | WinMatch \<Rightarrow> 40 | CaptureTerritories \<Rightarrow> 50 | CrownChest \<Rightarrow> 75)"

definition daily_paid :: "daily_state \<Rightarrow> daily_reward set" where
  "daily_paid s = {k. case find_mission k s of Some m \<Rightarrow> dm_claimed m | None \<Rightarrow> dc_claimed (ds_chest s)}"

lemma daily_paid_form: "k \<in> daily_paid (daily_form w p b chest)
    \<longleftrightarrow> (if k = CrownChest then b PlayMatches \<and> b WinMatch \<and> b CaptureTerritories \<and> chest else b k)"
  by (simp add: daily_paid_def find_form) (simp add: daily_form_def MISSION_DEFINITIONS_def)

text \<open>Marking a reward as claimed and normalizing again.\<close>

lemma mark_form:
  assumes "progress_ok p"
  shows "normalized_daily w' (mark_claimed k (daily_form w p b chest))
    = daily_form w' p (b(k := True)) (if k = CrownChest then True
        else b PlayMatches \<and> b WinMatch \<and> b CaptureTerritories \<and> chest)"
proof -
  have "stored_mission (ds_missions (mark_claimed k (daily_form w p b chest))) j
      = stored_mission (ds_missions (daily_form w p (b(k := True)) chest)) j" for j
    by (cases k) (simp_all add: mark_claimed_def daily_form_def MISSION_DEFINITIONS_def stored_mission_def mission_state_def)
  then have "normalized_mission (ds_missions (mark_claimed k (daily_form w p b chest)))
      = normalized_mission (ds_missions (daily_form w p (b(k := True)) chest))"
    by (intro ext) (simp add: normalized_mission_def)
  then have missions: "map (normalized_mission (ds_missions (mark_claimed k (daily_form w p b chest)))) MISSION_DEFINITIONS
      = ds_missions (daily_form w' p (b(k := True)) chest)"
    using normalized_mission_form [OF assms] by (simp add: daily_form_def [of w'])
  have chest: "dc_claimed (ds_chest (mark_claimed k (daily_form w p b chest))) = (if k = CrownChest then True
        else b PlayMatches \<and> b WinMatch \<and> b CaptureTerritories \<and> chest)"
    by (simp add: mark_claimed_def daily_form_def MISSION_DEFINITIONS_def)
  show ?thesis unfolding normalized_daily_def missions chest Let_def
    by (simp add: daily_form_def MISSION_DEFINITIONS_def)
qed

lemma window_key: "tehranDayWindow day now = Some w \<Longrightarrow> dw_dayKey w = day now"
  by (auto simp: tehranDayWindow_def)

lemma fresh_form: "fresh_daily w = daily_form w (\<lambda>_. 0) (\<lambda>_. False) False"
  by (auto simp: fresh_daily_def daily_form_def MISSION_DEFINITIONS_def)

lemma normalizeDailyState_form:
  assumes "tehranDayWindow day now = Some w"
  shows "\<exists>p b chest. normalizeDailyState day v now = Some (daily_form w p b chest) \<and> progress_ok p"
proof (cases "\<exists>s. v = Some s \<and> ds_dayKey s = dw_dayKey w")
  case True
  then obtain s where "v = Some s" "ds_dayKey s = dw_dayKey w" by blast
  then show ?thesis using normalized_form [of w s] assms by (auto simp: normalizeDailyState_def)
next
  case False
  then have "normalizeDailyState day v now = Some (daily_form w (\<lambda>_. 0) (\<lambda>_. False) False)"
    using assms fresh_form by (auto simp: normalizeDailyState_def createDailyState_def split: option.splits)
  moreover have "progress_ok (\<lambda>_. 0)" by (simp add: progress_ok_def mission_target_def split: daily_reward.split)
  ultimately show ?thesis by blast
qed

lemma normalize_form:
  assumes "tehranDayWindow day now = Some w" "progress_ok p"
  shows "normalizeDailyState day (Some (daily_form w p b chest)) now = Some (daily_form w p b chest)"
proof -
  have "ds_dayKey (daily_form w p b chest) = dw_dayKey w" by (simp add: daily_form_def)
  then show ?thesis using normalized_daily_form [OF assms(2), of w w b chest] assms(1) by (simp add: normalizeDailyState_def)
qed

lemma chest_form:
  "dc_claimed (ds_chest (daily_form w p b chest)) = (b PlayMatches \<and> b WinMatch \<and> b CaptureTerritories \<and> chest)"
  "dc_unlocked (ds_chest (daily_form w p b chest)) = (b PlayMatches \<and> b WinMatch \<and> b CaptureTerritories)"
  by (simp_all add: daily_form_def MISSION_DEFINITIONS_def)

lemma refusal_form: "daily_refusal k (daily_form w p b chest) =
   (if k \<in> daily_paid (daily_form w p b chest) then Some AlreadyClaimed
    else if k = CrownChest then if b PlayMatches \<and> b WinMatch \<and> b CaptureTerritories then None else Some ChestLocked
    else if mission_target k \<le> p k then None else Some NotComplete)"
  by (cases "k = CrownChest") (auto simp: daily_refusal_def find_form daily_paid_form chest_form)

lemma claim_form:
  assumes "tehranDayWindow day now = Some w" "progress_ok p"
  shows "claimDailyRewardLocally day (Some (daily_form w p b chest)) c k i now = Some
    (case daily_refusal k (daily_form w p b chest) of
       Some reason \<Rightarrow> \<lparr>dr_claimId = i, dr_success = False, dr_reason = Some reason, dr_rewardType = k,
         dr_reward = 0, dr_replayed = False, dr_state = daily_form w p b chest, dr_newCareer = c, dr_ledgerEntry = None\<rparr>
     | None \<Rightarrow> \<lparr>dr_claimId = i, dr_success = True, dr_reason = None, dr_rewardType = k, dr_reward = daily_price k,
         dr_replayed = False, dr_state = daily_form w p (b(k := True)) (k = CrownChest \<or> b PlayMatches \<and> b WinMatch \<and> b CaptureTerritories \<and> chest),
         dr_newCareer = c\<lparr>pc_coins := jadd (pc_coins c) (daily_price k)\<rparr>,
         dr_ledgerEntry = Some (daily_entry c (c\<lparr>pc_coins := jadd (pc_coins c) (daily_price k)\<rparr>) k (daily_price k) i now)\<rparr>)"
proof -
  have price: "(case find_mission k (daily_form w p b chest) of Some m \<Rightarrow> dm_reward m | None \<Rightarrow> CROWN_CHEST_REWARD) = daily_price k"
    by (cases k) (simp_all add: find_form daily_price_def CROWN_CHEST_REWARD_def MISSION_DEFINITIONS_def)
  have "ds_dayKey (mark_claimed k (daily_form w p b chest)) = dw_dayKey w" by (simp add: mark_claimed_def daily_form_def)
  then have "normalizeDailyState day (Some (mark_claimed k (daily_form w p b chest))) now
      = Some (daily_form w p (b(k := True)) (k = CrownChest \<or> b PlayMatches \<and> b WinMatch \<and> b CaptureTerritories \<and> chest))"
    using mark_form [OF assms(2), of w k w b chest] assms(1) by (simp add: normalizeDailyState_def)
  then show ?thesis
    unfolding claimDailyRewardLocally_def normalize_form [OF assms] bind.bind_lunit price Let_def
    by (simp split: option.split)
qed

text \<open>The daily desk at one moment, and the interpretation of the interface.\<close>

definition daily_desk ::
  "day_fn \<Rightarrow> string \<Rightarrow> num \<Rightarrow> daily_state \<Rightarrow> player_career \<Rightarrow> daily_reward \<Rightarrow> (daily_state \<times> player_career) option" where
  "daily_desk day i now s c k = (case claimDailyRewardLocally day (Some s) c k i now of
       Some r \<Rightarrow> if dr_success r then Some (dr_state r, dr_newCareer r) else None
     | None \<Rightarrow> None)"

definition daily_ok :: "day_fn \<Rightarrow> num \<Rightarrow> daily_state \<Rightarrow> bool" where
  "daily_ok day now s \<longleftrightarrow> (\<exists>w p b chest. tehranDayWindow day now = Some w \<and> progress_ok p \<and> s = daily_form w p b chest)"

lemma daily_paid_marked:
  assumes "daily_refusal k (daily_form w p b chest) = None"
  shows "daily_paid (daily_form w p (b(k := True)) (k = CrownChest \<or> b PlayMatches \<and> b WinMatch \<and> b CaptureTerritories \<and> chest))
    = insert k (daily_paid (daily_form w p b chest))"
  using assms by (intro set_eqI; cases k) (auto simp: daily_paid_form refusal_form split: if_splits)

lemma daily_UNIV: "(UNIV :: daily_reward set) = {PlayMatches, WinMatch, CaptureTerritories, CrownChest}"
  by (auto intro: daily_reward.exhaust)

instance daily_reward :: finite
proof
  show "finite (UNIV :: daily_reward set)" by (simp only: daily_UNIV finite_insert finite.emptyI)
qed

interpretation daily: reward_desk "daily_desk day i now" daily_paid daily_price UNIV "daily_ok day now" for day i now
proof unfold_locales
  fix s c k s' c' assume "daily_ok day now s" and claim: "daily_desk day i now s c k = Some (s', c')"
  then obtain w p b chest where s: "tehranDayWindow day now = Some w" "progress_ok p" "s = daily_form w p b chest"
    by (auto simp: daily_ok_def)
  note form = claim_form [OF s(1,2), of b chest c k i, folded s(3)]
  have allowed: "daily_refusal k s = None" using claim by (auto simp: daily_desk_def form split: option.splits)
  then have s': "s' = daily_form w p (b(k := True)) (k = CrownChest \<or> b PlayMatches \<and> b WinMatch \<and> b CaptureTerritories \<and> chest)"
    and c': "c' = c\<lparr>pc_coins := jadd (pc_coins c) (daily_price k)\<rparr>" using claim by (simp_all add: daily_desk_def form)
  have "k \<notin> daily_paid s" using allowed by (auto simp: s(3) refusal_form)
  moreover have "daily_paid s' = insert k (daily_paid s)" using daily_paid_marked allowed unfolding s' s(3) by blast
  moreover have "daily_ok day now s'" using s(1,2) s' by (auto simp: daily_ok_def)
  ultimately show "k \<in> UNIV \<and> k \<notin> daily_paid s \<and> daily_paid s' = insert k (daily_paid s) \<and> daily_ok day now s'
      \<and> c' = c\<lparr>pc_coins := jadd (pc_coins c) (daily_price k)\<rparr>" using c' by simp
qed (simp_all add: daily_price_def split: daily_reward.split)

lemma daily_price_total: "sum daily_price A \<le> 195"
proof -
  have "sum daily_price A \<le> sum daily_price UNIV"
    by (rule sum_mono2) (use daily.price_nonneg in simp_all)
  also have "\<dots> = 195" by (simp add: daily_UNIV daily_price_def)
  finally show ?thesis .
qed

section \<open>The league desk\<close>

definition league_price :: "string \<Rightarrow> num" where
  "league_price k = obj_get_or (Some LEAGUE_REWARDS) k 0"

definition league_paid :: "league_state \<Rightarrow> string set" where
  "league_paid s = {lf_rankId t | t. t \<in> set (lv_tiers s) \<and> lf_claimed t}"

definition league_ranks :: "string set" where
  "league_ranks = {''soldier'', ''knight'', ''commander'', ''warlord'', ''crown_lord''}"

text \<open>A state made from a career and a list of claimed ranks.\<close>

definition league_ok :: "league_state \<Rightarrow> bool" where
  "league_ok s \<longleftrightarrow> (\<exists>c ids. s = createLeagueState c ids)"

definition league_desk ::
  "string \<Rightarrow> num \<Rightarrow> league_state \<Rightarrow> player_career \<Rightarrow> string \<Rightarrow> (league_state \<times> player_career) option" where
  "league_desk i now s c k = (let r = claimLeagueRewardLocally s c k i now
     in if lc_success r then Some (lc_state r, lc_newCareer r) else None)"

lemma rank_ids: "rk_id ` set RANK_TIERS = insert ''recruit'' league_ranks"
  by (auto simp: RANK_TIERS_def league_ranks_def)

lemma league_paid_create: "league_paid (createLeagueState c ids) = insert ''recruit'' (league_ranks \<inter> set ids)"
proof -
  have "league_paid (createLeagueState c ids) = {rk_id r | r. r \<in> set RANK_TIERS \<and> (rk_id r = ''recruit'' \<or> rk_id r \<in> set ids)}"
  proof -
    let ?f = "league_tier_state c (set ids)"
    have "league_paid (createLeagueState c ids) = {lf_rankId (?f r) | r. r \<in> set RANK_TIERS \<and> lf_claimed (?f r)}"
      unfolding league_paid_def createLeagueState_def by auto
    then show ?thesis by (simp add: league_tier_state_def)
  qed
  also have "\<dots> = {k \<in> rk_id ` set RANK_TIERS. k = ''recruit'' \<or> k \<in> set ids}" by blast
  also have "\<dots> = insert ''recruit'' (league_ranks \<inter> set ids)" unfolding rank_ids by blast
  finally show ?thesis .
qed

lemma league_price_ranks: "league_price k \<in> \<nat>" "0 < league_price k \<Longrightarrow> k \<in> league_ranks"
  by (auto simp: league_price_def LEAGUE_REWARDS_def obj_get_or_def league_ranks_def split: option.splits if_splits)

lemma league_claim_cases:
  assumes "league_desk i now s c k = Some (s', c')"
  obtains t where "t \<in> set (lv_tiers s)" "lf_rankId t = k" "0 < lf_reward t" "\<not> lf_claimed t" "lf_minTrophies t \<le> pc_trophies c"
    and "c' = c\<lparr>pc_coins := jadd (pc_coins c) (lf_reward t)\<rparr>"
    and "s' = createLeagueState c' (map lf_rankId (filter lf_claimed (lv_tiers s)) @ [k])"
    and "List.find (\<lambda>t. lf_rankId t = k) (lv_tiers s) = Some t"
proof (cases "List.find (\<lambda>t. lf_rankId t = k) (lv_tiers s)")
  case None
  then show thesis using assms by (simp add: league_desk_def claimLeagueRewardLocally_def league_refusal_def Let_def)
next
  case (Some t)
  then have t: "t \<in> set (lv_tiers s)" "lf_rankId t = k" by (auto simp: find_Some_iff)
  show thesis
  proof (cases "league_refusal s c (Some t)")
    case None
    then have "0 < lf_reward t" "\<not> lf_claimed t" "lf_minTrophies t \<le> pc_trophies c"
      by (auto simp: league_refusal_def not_le not_less split: if_splits)
    with t show thesis
      by (rule that) (use assms Some None in \<open>auto simp: league_desk_def claimLeagueRewardLocally_def Let_def\<close>)
  next
    case (Some reason)
    then show thesis using assms \<open>List.find (\<lambda>t. lf_rankId t = k) (lv_tiers s) = Some t\<close>
      by (simp add: league_desk_def claimLeagueRewardLocally_def Let_def)
  qed
qed

interpretation league: reward_desk "league_desk i now" league_paid league_price league_ranks league_ok for i now
proof unfold_locales
  fix s c k s' c' assume ok: "league_ok s" and claim: "league_desk i now s c k = Some (s', c')"
  obtain c0 ids where s: "s = createLeagueState c0 ids" using ok by (auto simp: league_ok_def)
  obtain t where t: "t \<in> set (lv_tiers s)" "lf_rankId t = k" "0 < lf_reward t" "\<not> lf_claimed t"
    "c' = c\<lparr>pc_coins := jadd (pc_coins c) (lf_reward t)\<rparr>"
    "s' = createLeagueState c' (map lf_rankId (filter lf_claimed (lv_tiers s)) @ [k])"
    using claim by (rule league_claim_cases)
  obtain r where r: "t = league_tier_state c0 (set ids) r" using t(1) by (auto simp: s createLeagueState_def)
  have price: "lf_reward t = league_price k" using r t(2) by (auto simp: league_tier_state_def league_price_def)
  then have rank: "k \<in> league_ranks" using league_price_ranks(2) t(3) by simp
  have "k \<notin> set ids" using r t(2,4) by (auto simp: league_tier_state_def)
  then have new: "k \<notin> league_paid s" using rank unfolding s league_paid_create by (auto simp: league_ranks_def)
  have "set (map lf_rankId (filter lf_claimed (lv_tiers s)) @ [k]) = insert k (league_paid s)"
    by (auto simp: league_paid_def)
  then have "league_paid s' = insert ''recruit'' (league_ranks \<inter> insert k (league_paid s))"
    unfolding t(6) league_paid_create by simp
  also have "\<dots> = insert k (league_paid s)" using rank unfolding s league_paid_create by auto
  finally have "league_paid s' = insert k (league_paid s)" .
  moreover have "league_ok s'" using t(6) unfolding league_ok_def by blast
  ultimately show "k \<in> league_ranks \<and> k \<notin> league_paid s \<and> league_paid s' = insert k (league_paid s) \<and> league_ok s'
      \<and> c' = c\<lparr>pc_coins := jadd (pc_coins c) (league_price k)\<rparr>" using rank new t(5) price by simp
qed (simp_all add: league_ranks_def league_price_ranks)

lemma league_price_total: "A \<subseteq> league_ranks \<Longrightarrow> sum league_price A \<le> 1575"
proof -
  assume A: "A \<subseteq> league_ranks"
  have "sum league_price A \<le> sum league_price league_ranks"
    by (rule sum_mono2 [OF league.finite_keys A]) (rule league.price_nonneg)
  also have "\<dots> = 1575" by (simp add: league_ranks_def league_price_def LEAGUE_REWARDS_def obj_get_or_def)
  finally show ?thesis .
qed

section \<open>Days at the desk\<close>

text \<open>Claims and matches at the moments they happen; the entries written are collected.\<close>

datatype daily_event = DailyClaim num daily_reward string | DailyMatch num outcome match_stats

definition daily_time :: "daily_event \<Rightarrow> num" where
  "daily_time ev = (case ev of DailyClaim now _ _ \<Rightarrow> now | DailyMatch now _ _ \<Rightarrow> now)"

type_synonym daily_books = "daily_state option \<times> player_career \<times> ledger_entry list"

definition daily_step :: "day_fn \<Rightarrow> daily_event \<Rightarrow> daily_books \<Rightarrow> daily_books option" where
  "daily_step day ev = (\<lambda>(v, c, es). case ev of
       DailyClaim now k i \<Rightarrow> map_option (\<lambda>r. (Some (dr_state r), dr_newCareer r,
           es @ (case dr_ledgerEntry r of Some e \<Rightarrow> [e] | None \<Rightarrow> []))) (claimDailyRewardLocally day v c k i now)
     | DailyMatch now status stats \<Rightarrow> map_option (\<lambda>s. (Some s, c, es)) (advanceDailyState day v status stats now))"

primrec daily_days :: "day_fn \<Rightarrow> daily_event list \<Rightarrow> daily_books \<Rightarrow> daily_books option" where
  "daily_days day [] x = Some x"
| "daily_days day (ev # evs) x = Option.bind (daily_step day ev x) (daily_days day evs)"

text \<open>Entries that lead from one balance to another.\<close>

primrec ledger_leads :: "num \<Rightarrow> ledger_entry list \<Rightarrow> num \<Rightarrow> bool" where
  "ledger_leads a [] b \<longleftrightarrow> a = b"
| "ledger_leads a (e # es) b \<longleftrightarrow> le_previousBalance e = a \<and> le_resultingBalance e = a + le_amount e
     \<and> ledger_leads (le_resultingBalance e) es b"

lemma ledger_leads_snoc:
  "ledger_leads a (es @ [e]) b \<longleftrightarrow> ledger_leads a es (le_previousBalance e)
     \<and> le_resultingBalance e = le_previousBalance e + le_amount e \<and> b = le_resultingBalance e"
  by (induction es arbitrary: a) auto

definition daily_reason :: "daily_reward \<Rightarrow> string" where
  "daily_reason k = ''daily_'' @ reward_name k"

lemma daily_reason_inj [simp]: "daily_reason j = daily_reason k \<longleftrightarrow> j = k"
  by (cases j; cases k) (simp_all add: daily_reason_def reward_name_def)

text \<open>The state seen at a later moment: the rewards paid on that day are those paid before, or none on a new day.\<close>

lemma normalize_later:
  assumes "tehranDayWindow day now = Some w'" "progress_ok p"
  shows "\<exists>p' b' chest'. normalizeDailyState day (Some (daily_form w p b chest)) now = Some (daily_form w' p' b' chest')
    \<and> progress_ok p' \<and> (dw_dayKey w = day now \<longrightarrow> daily_paid (daily_form w' p' b' chest') = daily_paid (daily_form w p b chest))"
proof (cases "dw_dayKey w = day now")
  case True
  then have "normalizeDailyState day (Some (daily_form w p b chest)) now = Some (daily_form w' p b chest)"
    using assms window_key [OF assms(1)] normalized_daily_form [OF assms(2)]
    by (simp add: normalizeDailyState_def) (simp add: daily_form_def)
  moreover have "daily_paid (daily_form w' p b chest) = daily_paid (daily_form w p b chest)" by (auto simp: daily_paid_form)
  ultimately show ?thesis using assms(2) by blast
next
  case False
  then show ?thesis using normalizeDailyState_form [OF assms(1), of "Some (daily_form w p b chest)"] by blast
qed

text \<open>A match changes no claim.\<close>

lemma advance_form:
  assumes "tehranDayWindow day now = Some w" "progress_ok p"
  shows "\<exists>p'. advanceDailyState day (Some (daily_form w p b chest)) status stats now = Some (daily_form w p' b chest) \<and> progress_ok p'"
proof -
  let ?s = "daily_form w p b chest"
  let ?s' = "?s\<lparr>ds_missions := map (advance_mission status stats) (ds_missions ?s)\<rparr>"
  obtain p' b' where f: "normalized_daily w ?s' = daily_form w p' b' (dc_claimed (ds_chest ?s'))" "progress_ok p'"
    using normalized_form by blast
  have "dm_claimed (normalized_mission (ds_missions ?s') d) = b (mn_id d)" if "d \<in> set MISSION_DEFINITIONS" for d
    using that by (auto simp: normalized_mission_def stored_mission_def daily_form_def MISSION_DEFINITIONS_def Let_def
        advance_mission_def mission_state_def)
  then have "map dm_claimed (ds_missions (normalized_daily w ?s')) = map (b \<circ> mn_id) MISSION_DEFINITIONS"
    by (simp add: normalized_daily_def Let_def)
  then have "\<forall>d\<in>set MISSION_DEFINITIONS. b' (mn_id d) = b (mn_id d)" unfolding f(1) by (simp add: daily_form_def o_def)
  then have "daily_form w p' b' (dc_claimed (ds_chest ?s')) = daily_form w p' b chest"
    by (simp add: daily_form_def MISSION_DEFINITIONS_def) blast
  moreover have "ds_dayKey ?s' = dw_dayKey w" by (simp add: daily_form_def)
  ultimately have "advanceDailyState day (Some ?s) status stats now = Some (daily_form w p' b chest)"
    using f assms by (simp add: advanceDailyState_def normalize_form normalizeDailyState_def [of day "Some ?s'"])
  then show ?thesis using f(2) by blast
qed

text \<open>
  The books at a moment: what is paid on the current day is marked in the state, no reward of a day has two entries,
  and the entries lead from the first balance to the present one. \<open>first\<close> and \<open>before\<close> are the moment at which the
  books were opened and what the state said was paid then.
\<close>

definition books_ok ::
  "day_fn \<Rightarrow> num \<Rightarrow> daily_reward set \<Rightarrow> player_career \<Rightarrow> num \<Rightarrow> daily_state \<Rightarrow> player_career \<Rightarrow> ledger_entry list \<Rightarrow> bool" where
  "books_ok day first before c0 seen s c es \<longleftrightarrow>
     (\<exists>w p b chest. s = daily_form w p b chest \<and> progress_ok p \<and> dw_dayKey w = day seen) \<and> first \<le> seen
     \<and> (day seen = day first \<longrightarrow> before \<subseteq> daily_paid s)
     \<and> c = c0\<lparr>pc_coins := pc_coins c0 + sum_list (map le_amount es)\<rparr> \<and> ledger_leads (pc_coins c0) es (pc_coins c)
     \<and> distinct (map (\<lambda>e. (day (le_timestamp e), le_reason e)) es)
     \<and> (\<forall>e\<in>set es. le_timestamp e \<le> seen \<and> (\<exists>k. le_reason e = daily_reason k \<and> le_amount e = daily_price k
          \<and> (day (le_timestamp e) = day seen \<longrightarrow> k \<in> daily_paid s) \<and> (day (le_timestamp e) = day first \<longrightarrow> k \<notin> before)))"

lemma books_later:
  assumes ok: "books_ok day first before c0 seen s c es" and day: "day_ok day" and now: "seen \<le> now"
    and w: "tehranDayWindow day now = Some w"
  obtains p b chest where "normalizeDailyState day (Some s) now = Some (daily_form w p b chest)" "progress_ok p"
    "books_ok day first before c0 now (daily_form w p b chest) c es"
proof -
  obtain w0 p0 b0 chest0 where s: "s = daily_form w0 p0 b0 chest0" "progress_ok p0" "dw_dayKey w0 = day seen"
    using ok by (auto simp: books_ok_def)
  obtain p b chest where n: "normalizeDailyState day (Some s) now = Some (daily_form w p b chest)" "progress_ok p"
    "day seen = day now \<longrightarrow> daily_paid (daily_form w p b chest) = daily_paid s"
    using normalize_later [OF w s(2), of w0 b0 chest0] s by auto
  have apart: "day x \<noteq> day now" if "x \<le> seen" "day seen \<noteq> day now" for x
    using day now that unfolding day_ok_def by metis
  have "first \<le> seen" using ok by (simp add: books_ok_def)
  have "books_ok day first before c0 now (daily_form w p b chest) c es"
    unfolding books_ok_def
  proof (intro conjI ballI)
    show "\<exists>w' p' b' chest'. daily_form w p b chest = daily_form w' p' b' chest' \<and> progress_ok p' \<and> dw_dayKey w' = day now"
      using n(2) window_key [OF w] by blast
    show "day now = day first \<longrightarrow> before \<subseteq> daily_paid (daily_form w p b chest)"
      using ok n(3) apart [OF \<open>first \<le> seen\<close>] by (auto simp: books_ok_def)
    fix e assume e: "e \<in> set es"
    then have "le_timestamp e \<le> seen" using ok by (simp add: books_ok_def)
    then show "\<exists>k. le_reason e = daily_reason k \<and> le_amount e = daily_price k
          \<and> (day (le_timestamp e) = day now \<longrightarrow> k \<in> daily_paid (daily_form w p b chest)) \<and> (day (le_timestamp e) = day first \<longrightarrow> k \<notin> before)"
      using ok e n(3) apart [of "le_timestamp e"] unfolding books_ok_def by metis
  qed (use ok now in \<open>auto simp: books_ok_def\<close>)
  then show thesis using that n(1,2) by blast
qed

text \<open>A claim and a match at the present moment.\<close>

lemma daily_price_Nats: "daily_price k \<in> \<nat>" "daily_price k \<le> 75" "0 < daily_price k"
  by (cases k; simp add: daily_price_def)+

lemma books_spent:
  assumes "books_ok day first before c0 seen s c es"
  shows "sum_list (map le_amount es) \<in> \<nat> \<and> sum_list (map le_amount es) \<le> 75 * of_nat (length es)"
proof -
  have "\<forall>e\<in>set es. le_amount e \<in> \<nat> \<and> le_amount e \<le> 75"
    using assms daily_price_Nats unfolding books_ok_def by metis
  then show ?thesis by (induction es) (auto simp: algebra_simps)
qed

lemma career_coins_twice: "c = c0\<lparr>pc_coins := x\<rparr> \<Longrightarrow> c\<lparr>pc_coins := y\<rparr> = c0\<lparr>pc_coins := y\<rparr>"
  by simp

lemma books_claim:
  assumes ok: "books_ok day first before c0 now (daily_form w p b chest) c es" and w: "tehranDayWindow day now = Some w"
    and p: "progress_ok p" and coins: "pc_coins c0 \<in> \<nat>" "pc_coins c0 + 75 * of_nat (Suc (length es)) \<le> 2 ^ 53"
  obtains s' c' new where "daily_step day (DailyClaim now k i) (Some (daily_form w p b chest), c, es) = Some (Some s', c', es @ new)"
    "books_ok day first before c0 now s' c' (es @ new)" "length new \<le> 1"
    "\<forall>e\<in>set new. le_timestamp e = now \<and> le_id e = ''daily_'' @ i \<and> le_reason e = daily_reason k \<and> le_currency e = Coins
       \<and> le_player e = pc_playerId c0"
proof (cases "daily_refusal k (daily_form w p b chest)")
  case (Some reason)
  then have "daily_step day (DailyClaim now k i) (Some (daily_form w p b chest), c, es) = Some (Some (daily_form w p b chest), c, es @ [])"
    by (simp add: daily_step_def claim_form [OF w p])
  from that [OF this] ok show thesis by simp
next
  case None
  let ?s = "daily_form w p b chest"
  let ?s' = "daily_form w p (b(k := True)) (k = CrownChest \<or> b PlayMatches \<and> b WinMatch \<and> b CaptureTerritories \<and> chest)"
  let ?c' = "c\<lparr>pc_coins := jadd (pc_coins c) (daily_price k)\<rparr>"
  let ?e = "daily_entry c ?c' k (daily_price k) i now"
  have step: "daily_step day (DailyClaim now k i) (Some ?s, c, es) = Some (Some ?s', ?c', es @ [?e])"
    by (simp add: daily_step_def claim_form [OF w p] None)
  have paid: "daily_paid ?s' = insert k (daily_paid ?s)" using daily_paid_marked [OF None] .
  have new: "k \<notin> daily_paid ?s" using None by (auto simp: refusal_form)
  note spent = books_spent [OF ok]
  have c: "pc_coins c = pc_coins c0 + sum_list (map le_amount es)" "pc_playerId c = pc_playerId c0"
    using ok by (auto simp: books_ok_def)
  have add: "jadd (pc_coins c) (daily_price k) = pc_coins c + daily_price k"
    unfolding c(1) by (rule Nats_add_exact)
      (use coins spent daily_price_Nats(1,2) [of k] in \<open>simp_all add: algebra_simps\<close>)
  have entry: "le_amount ?e = daily_price k" "le_reason ?e = daily_reason k" "le_timestamp ?e = now" "le_previousBalance ?e = pc_coins c"
    "le_resultingBalance ?e = pc_coins c + daily_price k" "le_id ?e = ''daily_'' @ i" "le_currency ?e = Coins" "le_player ?e = pc_playerId c0"
    by (simp_all add: daily_entry_def daily_reason_def add c(2))
  have apart: "(day (le_timestamp e), le_reason e) \<noteq> (day now, daily_reason k)" if "e \<in> set es" for e
    using ok that new unfolding books_ok_def by (metis Pair_inject daily_reason_inj)
  have "books_ok day first before c0 now ?s' ?c' (es @ [?e])"
    unfolding books_ok_def
  proof (intro conjI ballI)
    show "\<exists>w' p' b' chest'. ?s' = daily_form w' p' b' chest' \<and> progress_ok p' \<and> dw_dayKey w' = day now"
      using p window_key [OF w] by blast
    show "distinct (map (\<lambda>e. (day (le_timestamp e), le_reason e)) (es @ [?e]))"
    proof -
      have "distinct (map (\<lambda>e. (day (le_timestamp e), le_reason e)) es)" using ok by (simp only: books_ok_def)
      moreover have "(day (le_timestamp ?e), le_reason ?e) \<notin> (\<lambda>e. (day (le_timestamp e), le_reason e)) ` set es"
        using apart unfolding entry(2,3) by (metis (no_types, lifting) imageE)
      ultimately show ?thesis by simp
    qed
    show "?c' = c0\<lparr>pc_coins := pc_coins c0 + sum_list (map le_amount (es @ [?e]))\<rparr>"
    proof -
      have sum: "sum_list (map le_amount (es @ [?e])) = sum_list (map le_amount es) + daily_price k" by (simp add: entry(1))
      have "c = c0\<lparr>pc_coins := pc_coins c0 + sum_list (map le_amount es)\<rparr>" using ok by (simp only: books_ok_def)
      then show ?thesis unfolding sum unfolding add unfolding c(1) add.assoc by (rule career_coins_twice)
    qed
    show "ledger_leads (pc_coins c0) (es @ [?e]) (pc_coins ?c')"
    proof -
      have "ledger_leads (pc_coins c0) es (pc_coins c)" using ok unfolding books_ok_def by blast
      then show ?thesis unfolding ledger_leads_snoc entry by (simp add: add)
    qed
    fix e assume e: "e \<in> set (es @ [?e])"
    show "\<exists>j. le_reason e = daily_reason j \<and> le_amount e = daily_price j
        \<and> (day (le_timestamp e) = day now \<longrightarrow> j \<in> daily_paid ?s') \<and> (day (le_timestamp e) = day first \<longrightarrow> j \<notin> before)"
    proof (cases "e \<in> set es")
      case True
      then show ?thesis using ok unfolding books_ok_def paid by blast
    next
      case False
      then have "e = ?e" using e by simp
      then show ?thesis using ok new entry unfolding books_ok_def paid by (intro exI [of _ k]) auto
    qed
    show "le_timestamp e \<le> now" using e ok entry(3) by (auto simp: books_ok_def)
  qed (use ok paid in \<open>auto simp: books_ok_def\<close>)
  then show thesis using that [OF step] entry by simp
qed

lemma books_match:
  assumes ok: "books_ok day first before c0 now (daily_form w p b chest) c es" and w: "tehranDayWindow day now = Some w"
    and p: "progress_ok p"
  obtains s' where "daily_step day (DailyMatch now status stats) (Some (daily_form w p b chest), c, es) = Some (Some s', c, es)"
    "books_ok day first before c0 now s' c es"
proof -
  obtain p' where a: "advanceDailyState day (Some (daily_form w p b chest)) status stats now = Some (daily_form w p' b chest)" "progress_ok p'"
    using advance_form [OF w p] by blast
  have "daily_paid (daily_form w p' b chest) = daily_paid (daily_form w p b chest)" by (auto simp: daily_paid_form)
  then have "books_ok day first before c0 now (daily_form w p' b chest) c es"
    using ok a(2) window_key [OF w] unfolding books_ok_def by metis
  then show thesis using that [of "daily_form w p' b chest"] by (simp add: daily_step_def a(1))
qed

text \<open>Every operation normalizes the state it is given first.\<close>

lemma step_normalizes:
  assumes "normalizeDailyState day v (daily_time ev) = Some s" "normalizeDailyState day (Some s) (daily_time ev) = Some s"
  shows "daily_step day ev (v, c, es) = daily_step day ev (Some s, c, es)"
  using assms by (cases ev) (simp_all add: daily_step_def claimDailyRewardLocally_def advanceDailyState_def daily_time_def)

definition whole_time :: "daily_event \<Rightarrow> bool" where
  "whole_time ev \<longleftrightarrow> daily_time ev \<in> \<nat> \<and> daily_time ev \<le> 2 ^ 51"

lemma window_at:
  assumes "day_ok day" "whole_time ev"
  obtains w where "tehranDayWindow day (daily_time ev) = Some w"
proof -
  obtain n :: int where n: "daily_time ev = of_int n" "0 \<le> n" using assms(2) by (auto simp: whole_time_def Nats_altdef2 elim: Ints_cases)
  have "of_int n \<le> (of_int (2 ^ 51) :: num)" using assms(2) n by (simp add: whole_time_def)
  then have "n \<le> 2 ^ 51" by (simp only: of_int_le_iff)
  then show thesis using that tehranDayWindow_ok [OF assms(1) n(2)] n(1) by auto
qed

text \<open>Where an entry comes from.\<close>

definition claimed_by :: "player_career \<Rightarrow> daily_event list \<Rightarrow> ledger_entry \<Rightarrow> bool" where
  "claimed_by c evs e \<longleftrightarrow> le_currency e = Coins \<and> le_player e = pc_playerId c
     \<and> (\<exists>k i. DailyClaim (le_timestamp e) k i \<in> set evs \<and> le_id e = ''daily_'' @ i \<and> le_reason e = daily_reason k)"

lemma books_step:
  assumes ok: "books_ok day first before c0 seen s c es" and day: "day_ok day" and ev: "whole_time ev" "seen \<le> daily_time ev"
    and coins: "pc_coins c0 \<in> \<nat>" "pc_coins c0 + 75 * of_nat (Suc (length es)) \<le> 2 ^ 53"
  obtains s' c' new where "daily_step day ev (Some s, c, es) = Some (Some s', c', es @ new)"
    "books_ok day first before c0 (daily_time ev) s' c' (es @ new)" "length new \<le> 1" "\<forall>e\<in>set new. claimed_by c0 [ev] e"
proof -
  obtain w where w: "tehranDayWindow day (daily_time ev) = Some w" using window_at [OF day ev(1)] .
  obtain p b chest where n: "normalizeDailyState day (Some s) (daily_time ev) = Some (daily_form w p b chest)" "progress_ok p"
    "books_ok day first before c0 (daily_time ev) (daily_form w p b chest) c es"
    using books_later [OF ok day ev(2) w] .
  note same = step_normalizes [OF n(1) normalize_form [OF w n(2)]]
  show thesis
  proof (cases ev)
    case (DailyClaim now k i)
    then have now: "daily_time ev = now" by (simp add: daily_time_def)
    show thesis by (rule books_claim [OF n(3) [unfolded now] w [unfolded now] n(2) coins, of k i])
      (rule that, auto simp: same [unfolded DailyClaim] DailyClaim claimed_by_def daily_time_def)
  next
    case (DailyMatch now status stats)
    then have now: "daily_time ev = now" by (simp add: daily_time_def)
    show thesis by (rule books_match [OF n(3) [unfolded now] w [unfolded now] n(2), of status stats])
      (rule that [of _ _ "[]"], auto simp: same [unfolded DailyMatch] DailyMatch daily_time_def)
  qed
qed

lemma books_days:
  assumes "books_ok day first before c0 seen s c es" "day_ok day" "\<forall>ev\<in>set evs. whole_time ev"
    and "sorted (seen # map daily_time evs)" "pc_coins c0 \<in> \<nat>" "pc_coins c0 + 75 * of_nat (length es + length evs) \<le> 2 ^ 53"
  shows "\<exists>s' c' new seen'. daily_days day evs (Some s, c, es) = Some (Some s', c', es @ new)
    \<and> books_ok day first before c0 seen' s' c' (es @ new) \<and> (\<forall>e\<in>set new. claimed_by c0 evs e)"
  using assms
proof (induction evs arbitrary: seen s c es)
  case Nil
  then show ?case by (intro exI [of _ s] exI [of _ c] exI [of _ "[]"]) auto
next
  case (Cons ev evs)
  have space: "pc_coins c0 + 75 * of_nat (Suc (length es)) \<le> 2 ^ 53" using Cons.prems(6) by (simp add: algebra_simps)
  obtain s1 c1 new1 where 1: "daily_step day ev (Some s, c, es) = Some (Some s1, c1, es @ new1)"
    "books_ok day first before c0 (daily_time ev) s1 c1 (es @ new1)" "length new1 \<le> 1" "\<forall>e\<in>set new1. claimed_by c0 [ev] e"
    using books_step [OF Cons.prems(1,2) _ _ Cons.prems(5) space, of ev] Cons.prems(3,4) by auto
  have "(of_nat (length (es @ new1) + length evs) :: num) \<le> of_nat (length es + length (ev # evs))"
    using 1(3) by (intro of_nat_mono) simp
  then have "75 * of_nat (length (es @ new1) + length evs) \<le> (75 * of_nat (length es + length (ev # evs)) :: num)"
    by (rule mult_left_mono) simp
  then have "pc_coins c0 + 75 * of_nat (length (es @ new1) + length evs) \<le> 2 ^ 53"
    using Cons.prems(6) by (rule order_trans [OF add_left_mono])
  then obtain s' c' new seen' where 2: "daily_days day evs (Some s1, c1, es @ new1) = Some (Some s', c', (es @ new1) @ new)"
    "books_ok day first before c0 seen' s' c' ((es @ new1) @ new)" "\<forall>e\<in>set new. claimed_by c0 evs e"
    using Cons.IH [OF 1(2) Cons.prems(2) _ _ Cons.prems(5)] Cons.prems(3,4) by auto
  have "\<forall>e\<in>set (new1 @ new). claimed_by c0 (ev # evs) e" using 1(4) 2(3) by (auto simp: claimed_by_def)
  then show ?case using 1(1) 2(1,2) by (intro exI [of _ s'] exI [of _ c'] exI [of _ "new1 @ new"] exI [of _ seen']) simp
qed

text \<open>One day's entries have different reasons, so they pay at most the four prices.\<close>

lemma distinct_within: "distinct (map (\<lambda>e. (f e, g e)) es) \<Longrightarrow> distinct (map g (filter (\<lambda>e. f e = d) es))"
  by (induction es) (auto simp: image_iff)

lemma daily_total:
  assumes "distinct (map le_reason es)" "\<forall>e\<in>set es. \<exists>k. le_reason e = daily_reason k \<and> le_amount e = daily_price k"
  shows "sum_list (map le_amount es) \<le> 195"
proof -
  obtain f where f: "\<forall>e\<in>set es. le_reason e = daily_reason (f e) \<and> le_amount e = daily_price (f e)" using assms(2) by metis
  have "map le_reason es = map daily_reason (map f es)" using f by simp
  then have "distinct (map f es)" using assms(1) by (metis distinct_map)
  then have "sum_list (map daily_price (map f es)) = sum daily_price (set (map f es))" by (rule sum_list_distinct_conv_sum_set)
  moreover have "map le_amount es = map daily_price (map f es)" using f by simp
  ultimately show ?thesis using daily_price_total by metis
qed

lemma books_open:
  assumes "tehranDayWindow day now = Some w" "normalizeDailyState day v now = Some s"
  shows "books_ok day now (daily_paid s) c now s c [] \<and> normalizeDailyState day (Some s) now = Some s"
proof -
  obtain p b chest where "s = daily_form w p b chest" "progress_ok p"
    using normalizeDailyState_form [OF assms(1), of v] assms(2) by auto
  then show ?thesis using window_key [OF assms(1)] normalize_form [OF assms(1)] by (auto simp: books_ok_def)
qed

section \<open>Properties\<close>

text \<open>The witness: days of twenty-four hours, three and a half hours ahead of the time stamps.\<close>

definition day_name :: "int \<Rightarrow> string" where
  "day_name k = (if k < 0 then ''-'' else ''+'') @ nat_string (nat \<bar>k\<bar>)"

lemma day_name_inj: "day_name a = day_name b \<longleftrightarrow> a = b"
  by (auto simp: day_name_def nat_string_inj)

lemma fixed_day_ok: "day_ok (\<lambda>t :: num. day_name \<lfloor>(t + 12600000) / 86400000\<rfloor>)"
proof -
  have mono: "a \<le> b \<Longrightarrow> \<lfloor>(a + 12600000) / 86400000\<rfloor> \<le> \<lfloor>(b + 12600000) / (86400000 :: num)\<rfloor>" for a b
    by (intro floor_mono divide_right_mono) simp_all
  have shift: "\<lfloor>(t + 108000000 + 12600000) / 86400000\<rfloor> \<noteq> \<lfloor>(t + 12600000) / (86400000 :: num)\<rfloor>" for t
  proof -
    have "(t + 12600000) / 86400000 + 1 \<le> (t + 108000000 + 12600000) / (86400000 :: num)" by simp
    then have "\<lfloor>(t + 12600000) / 86400000 + 1\<rfloor> \<le> \<lfloor>(t + 108000000 + 12600000) / (86400000 :: num)\<rfloor>" by (rule floor_mono)
    then show ?thesis by simp
  qed
  show ?thesis unfolding day_ok_def day_name_inj
  proof (intro conjI allI impI)
    fix a b c :: num
    assume "a \<le> b \<and> b \<le> c \<and> \<lfloor>(a + 12600000) / 86400000\<rfloor> = \<lfloor>(c + 12600000) / 86400000\<rfloor>"
    then show "\<lfloor>(b + 12600000) / 86400000\<rfloor> = \<lfloor>(a + 12600000) / 86400000\<rfloor>" using mono [of a b] mono [of b c] by linarith
  qed (rule shift)
qed

text \<open>
  the search for the end of the day ends and is exact. For every moment in whole milliseconds up to the year
  73000 the window found carries the moment's day, and the moment it gives is the first one later that is not on
  that day.
\<close>

theorem tehranDayWindow_exact:
  assumes "day_ok day" "0 \<le> now" "now \<le> 2 ^ 51"
  shows "\<exists>r. tehranDayWindow day (of_int now) = Some \<lparr>dw_dayKey = day (of_int now), dw_resetsAt = of_int r\<rparr>
    \<and> now < r \<and> r \<le> now + 108000000 \<and> day (of_int r) \<noteq> day (of_int now)
    \<and> (\<forall>t. now \<le> t \<and> t < r \<longrightarrow> day (of_int t) = day (of_int now))"
proof -
  obtain r where r: "tehranDayWindow day (of_int now) = Some \<lparr>dw_dayKey = day (of_int now), dw_resetsAt = of_int r\<rparr>"
    "now < r" "r \<le> now + 108000000" "day (of_int r) \<noteq> day (of_int now)" "day (of_int (r - 1)) = day (of_int now)"
    using tehranDayWindow_ok [OF assms] by blast
  have "day (of_int t) = day (of_int now)" if "now \<le> t" "t < r" for t
  proof -
    have "of_int now \<le> (of_int t :: num)" "of_int t \<le> (of_int (r - 1) :: num)" using that by (simp_all only: of_int_le_iff)
    then show ?thesis using assms(1) r(5) unfolding day_ok_def by metis
  qed
  then show ?thesis using r(1-4) by blast
qed

lemma tehranDayWindow_exact_witness:
  "\<exists>day r. day_ok day \<and> tehranDayWindow day 0 = Some \<lparr>dw_dayKey = day 0, dw_resetsAt = of_int r\<rparr> \<and> 0 < r
     \<and> day (of_int r) \<noteq> day 0"
proof -
  let ?day = "\<lambda>t :: num. day_name \<lfloor>(t + 12600000) / 86400000\<rfloor>"
  show ?thesis using tehranDayWindow_exact [OF fixed_day_ok, of 0] by (intro exI [of _ ?day]) (use fixed_day_ok in auto)
qed

text \<open>
  C25: daily rewards are paid once a day and the ledger explains them. Whatever was stored, and whatever claims and
  matches follow over any number of days, with the clock not going back: each entry written is for a reward
  that was claimed at that moment, under the identifier of the claim, and records its price; the entries lead without
  a gap from the first balance to the last, nothing else of the career changes; no reward has two entries on one
  day, nor an entry on the first day when the stored state had it claimed; and no day pays more than 195 coins.
\<close>

theorem daily_rewards_paid_once:
  assumes "day_ok day" "sorted (map daily_time evs)" "\<forall>ev\<in>set evs. whole_time ev"
    and "pc_coins c \<in> \<nat>" "pc_coins c + 75 * of_nat (length evs) \<le> 2 ^ 53"
  shows "\<exists>v' c' es. daily_days day evs (v, c, []) = Some (v', c', es)
    \<and> c' = c\<lparr>pc_coins := pc_coins c + sum_list (map le_amount es)\<rparr> \<and> ledger_leads (pc_coins c) es (pc_coins c')
    \<and> distinct (map (\<lambda>e. (day (le_timestamp e), le_reason e)) es)
    \<and> (\<forall>e\<in>set es. le_currency e = Coins \<and> le_player e = pc_playerId c \<and> (\<exists>k i. DailyClaim (le_timestamp e) k i \<in> set evs
         \<and> le_id e = ''daily_'' @ i \<and> le_reason e = daily_reason k \<and> le_amount e = daily_price k
         \<and> (\<forall>s. normalizeDailyState day v (daily_time (hd evs)) = Some s \<and> day (le_timestamp e) = day (daily_time (hd evs))
              \<longrightarrow> k \<notin> daily_paid s)))
    \<and> (\<forall>d. sum_list (map le_amount (filter (\<lambda>e. day (le_timestamp e) = d) es)) \<le> 195)"
proof (cases evs)
  case Nil
  then show ?thesis by (cases v) (simp_all)
next
  case (Cons ev evs')
  define t0 where "t0 = daily_time ev"
  obtain w where w: "tehranDayWindow day t0 = Some w" using window_at [OF assms(1), of ev] assms(3) Cons by (auto simp: t0_def)
  obtain s where s: "normalizeDailyState day v t0 = Some s" using normalizeDailyState_form [OF w, of v] by blast
  note o = books_open [OF w s, of c]
  have "daily_days day evs (v, c, []) = daily_days day evs (Some s, c, [])"
    using step_normalizes [of day v ev s c "[]"] s o by (simp add: Cons t0_def)
  moreover have "sorted (t0 # map daily_time evs)" using assms(2) by (simp add: Cons t0_def)
  ultimately obtain s' c' es seen where run: "daily_days day evs (v, c, []) = Some (Some s', c', es)"
    "books_ok day t0 (daily_paid s) c seen s' c' es" "\<forall>e\<in>set es. claimed_by c evs e"
    using books_days [OF conjunct1 [OF o] assms(1,3) _ assms(4)] assms(5) by auto
  have entry: "\<exists>k. le_reason e = daily_reason k \<and> le_amount e = daily_price k \<and> (day (le_timestamp e) = day t0 \<longrightarrow> k \<notin> daily_paid s)"
    if "e \<in> set es" for e using run(2) that unfolding books_ok_def by blast
  have once: "distinct (map (\<lambda>e. (day (le_timestamp e), le_reason e)) es)" using run(2) by (simp only: books_ok_def)
  have capped: "sum_list (map le_amount (filter (\<lambda>e. day (le_timestamp e) = d) es)) \<le> 195" for d
  proof (rule daily_total)
    show "distinct (map le_reason (filter (\<lambda>e. day (le_timestamp e) = d) es))"
      by (rule distinct_within [OF once])
    show "\<forall>e\<in>set (filter (\<lambda>e. day (le_timestamp e) = d) es). \<exists>k. le_reason e = daily_reason k \<and> le_amount e = daily_price k"
      using entry by auto
  qed
  have from_claim: "le_currency e = Coins \<and> le_player e = pc_playerId c \<and> (\<exists>k i. DailyClaim (le_timestamp e) k i \<in> set evs
      \<and> le_id e = ''daily_'' @ i \<and> le_reason e = daily_reason k \<and> le_amount e = daily_price k
      \<and> (day (le_timestamp e) = day t0 \<longrightarrow> k \<notin> daily_paid s))" if "e \<in> set es" for e
    using entry [OF that] run(3) that unfolding claimed_by_def by (metis daily_reason_inj)
  have "daily_time (hd evs) = t0" by (simp add: Cons t0_def)
  then have "\<forall>e\<in>set es. le_currency e = Coins \<and> le_player e = pc_playerId c \<and> (\<exists>k i. DailyClaim (le_timestamp e) k i \<in> set evs
         \<and> le_id e = ''daily_'' @ i \<and> le_reason e = daily_reason k \<and> le_amount e = daily_price k
         \<and> (\<forall>s. normalizeDailyState day v (daily_time (hd evs)) = Some s \<and> day (le_timestamp e) = day (daily_time (hd evs))
              \<longrightarrow> k \<notin> daily_paid s))"
    using from_claim s by (metis option.inject)
  moreover have "c' = c\<lparr>pc_coins := pc_coins c + sum_list (map le_amount es)\<rparr>" "ledger_leads (pc_coins c) es (pc_coins c')"
    using run(2) unfolding books_ok_def by blast+
  ultimately show ?thesis using run(1) once capped by blast
qed

lemma daily_rewards_paid_once_witness:
  "\<exists>day v' c' es. day_ok day
    \<and> daily_days day [DailyMatch 0 Won empty_stats, DailyClaim 1 WinMatch ''x'', DailyClaim 2 WinMatch ''y''] (None, example_career, [])
        = Some (v', c', es) \<and> ledger_leads 100 es (pc_coins c') \<and> pc_trophies c' = 0
    \<and> distinct (map (\<lambda>e. (day (le_timestamp e), le_reason e)) es)"
proof -
  let ?day = "\<lambda>t :: num. day_name \<lfloor>(t + 12600000) / 86400000\<rfloor>"
  let ?evs = "[DailyMatch 0 Won empty_stats, DailyClaim 1 WinMatch ''x'', DailyClaim 2 WinMatch ''y'']"
  have "pc_coins example_career = 100" "pc_trophies example_career = 0" by (simp_all add: example_career_def)
  moreover have "sorted (map daily_time ?evs)" "\<forall>ev\<in>set ?evs. whole_time ev" by (simp_all add: daily_time_def whole_time_def)
  ultimately obtain v' c' es where "daily_days ?day ?evs (None, example_career, []) = Some (v', c', es)"
    "c' = example_career\<lparr>pc_coins := 100 + sum_list (map le_amount es)\<rparr>" "ledger_leads 100 es (pc_coins c')"
    "distinct (map (\<lambda>e. (?day (le_timestamp e), le_reason e)) es)"
    using daily_rewards_paid_once [OF fixed_day_ok, of ?evs example_career None] by auto
  then show ?thesis using fixed_day_ok by (intro exI [of _ ?day] exI [of _ v'] exI [of _ c'] exI [of _ es]) (simp add: example_career_def)
qed

text \<open>
  League rewards are paid once. From a state made from any career and any list of claimed ranks, whatever
  sequence of claims is made, the coins grow by exactly the prices of the ranks that become claimed; each of them
  was claimed for and had not been claimed before, and all ranks together pay at most 1575 coins. A rank whose
  trophies the career does not have is refused.
\<close>

theorem league_rewards_paid_once:
  assumes "pc_coins c \<in> \<nat>" "pc_coins c \<le> 2 ^ 52" "s = createLeagueState c0 ids"
    and "claim_all (league_desk i now) ks s c = (s', c')"
  shows "league_paid s \<subseteq> league_paid s' \<and> league_paid s' - league_paid s \<subseteq> set ks
    \<and> c' = c\<lparr>pc_coins := pc_coins c + sum league_price (league_paid s' - league_paid s)\<rparr>
    \<and> pc_coins c' \<le> pc_coins c + 1575
    \<and> (\<forall>t\<in>set (lv_tiers s). pc_trophies c < lf_minTrophies t \<longrightarrow> league_desk i now s c (lf_rankId t) = None)"
proof -
  have ok: "league_ok s" using assms(3) unfolding league_ok_def by blast
  have space: "pc_coins c + sum league_price (league_ranks - league_paid s) \<le> 2 ^ 53"
    using league_price_total [of "league_ranks - league_paid s"] assms(2) by simp
  have r: "league_paid s \<subseteq> league_paid s'" "league_paid s' - league_paid s \<subseteq> league_ranks \<inter> set ks"
    "c' = c\<lparr>pc_coins := pc_coins c + sum league_price (league_paid s' - league_paid s)\<rparr>"
    using league.claims_paid [OF ok assms(1) space assms(4)] by blast+
  have "sum league_price (league_paid s' - league_paid s) \<le> 1575" by (rule league_price_total) (use r(2) in blast)
  moreover have "league_desk i now s c (lf_rankId t) = None" if t: "t \<in> set (lv_tiers s)" "pc_trophies c < lf_minTrophies t" for t
  proof (rule ccontr)
    assume "league_desk i now s c (lf_rankId t) \<noteq> None"
    then obtain s1 c1 where "league_desk i now s c (lf_rankId t) = Some (s1, c1)" by auto
    then obtain t' where t': "t' \<in> set (lv_tiers s)" "lf_rankId t' = lf_rankId t" "lf_minTrophies t' \<le> pc_trophies c"
      by (rule league_claim_cases)
    have "inj_on rk_id (set RANK_TIERS)" by (simp add: RANK_TIERS_def)
    then have "t' = t" using t(1) t'(1,2) by (auto simp: assms(3) createLeagueState_def league_tier_state_def dest: inj_onD)
    then show False using t(2) t'(3) by simp
  qed
  ultimately show ?thesis using r by auto
qed

lemma league_rewards_paid_once_witness:
  "pc_coins (snd (claim_all (league_desk ''x'' 0) [''soldier'', ''soldier'', ''recruit'']
      (createLeagueState (example_career\<lparr>pc_trophies := 120\<rparr>) []) (example_career\<lparr>pc_trophies := 120\<rparr>))) \<le> 1675"
proof -
  let ?c = "example_career\<lparr>pc_trophies := 120\<rparr>"
  obtain s' c' where r: "claim_all (league_desk ''x'' 0) [''soldier'', ''soldier'', ''recruit''] (createLeagueState ?c []) ?c = (s', c')"
    by (rule prod.exhaust)
  have "pc_coins ?c \<in> \<nat>" "pc_coins ?c \<le> 2 ^ 52" "pc_coins ?c = 100" by (simp_all add: example_career_def)
  then have "pc_coins c' \<le> 1675" using league_rewards_paid_once [OF _ _ refl r] by auto
  then show ?thesis unfolding r by simp
qed

end
