(* ===== verification/CareerFacts.thy ===== *)
theory CareerFacts
  imports Career RewardFacts
begin

text \<open>
  Facts about \<open>Career\<close>: the interface of an operation that changes balances and explains the change in the ledger,
  its interpretations on the four local operations, the invariant of a career played without a server, reloads of
  the page, the operations that a server settles, and what completes the tutorial on a device that an older version
  may have used before (\<open>device_run\<close>).
\<close>

section \<open>Audits\<close>

text \<open>Following entries from a balance: each starts where the last one ended, and adds its amount.\<close>

fun audit_from :: "num \<Rightarrow> ledger_entry list \<Rightarrow> num option" where
  "audit_from b [] = Some b"
| "audit_from b (e # es) =
     (if le_previousBalance e = b \<and> b + le_amount e = le_resultingBalance e then audit_from (le_resultingBalance e) es else None)"

definition of_currency :: "currency \<Rightarrow> ledger_entry list \<Rightarrow> ledger_entry list" where
  "of_currency k = filter (\<lambda>e. le_currency e = k)"

definition balance :: "currency \<Rightarrow> player_career \<Rightarrow> num" where
  "balance k c = (case k of Coins \<Rightarrow> pc_coins c | Gems \<Rightarrow> pc_gems c | Trophies \<Rightarrow> pc_trophies c)"

lemma audit_append: "audit_from b (es @ fs) = Option.bind (audit_from b es) (\<lambda>b'. audit_from b' fs)"
  by (induction es arbitrary: b) simp_all

lemma of_currency_append [simp]: "of_currency k (es @ fs) = of_currency k es @ of_currency k fs"
  by (simp add: of_currency_def)

text \<open>A ledger audits to a balance when it leads there from some balance.\<close>

definition audits_to :: "currency \<Rightarrow> ledger_entry list \<Rightarrow> num \<Rightarrow> bool" where
  "audits_to k es b \<longleftrightarrow> (\<exists>b0. audit_from b0 (of_currency k es) = Some b)"

lemma audits_to_append:
  "audits_to k es b \<Longrightarrow> audit_from b (of_currency k fs) = Some b' \<Longrightarrow> audits_to k (es @ fs) b'"
  unfolding audits_to_def by (metis audit_append bind.bind_lunit of_currency_append)

lemma audits_to_suffix: "audits_to k (es @ fs) b \<Longrightarrow> audits_to k fs b"
  by (auto simp: audits_to_def audit_append bind_eq_Some_conv)

lemma audits_to_last: "audits_to k es b \<Longrightarrow> audits_to k (last_entries n es) b"
  unfolding last_entries_def by (rule audits_to_suffix [of k "take (length es - n) es"]) simp

section \<open>Operations that change balances\<close>

text \<open>
  A wallet after \<open>n\<close> operations: whole balances that have grown by a bounded amount each time, levels in range, a
  commander of the game.
\<close>

definition level_ok :: "js_number \<Rightarrow> bool" where
  "level_ok l \<longleftrightarrow> (\<exists>n\<le>20. l = Finite (of_nat n))"

definition wallet_ok :: "nat \<Rightarrow> player_career \<Rightarrow> bool" where
  "wallet_ok n c \<longleftrightarrow> pc_coins c \<in> \<nat> \<and> pc_coins c \<le> 100 + 1000 * of_nat n
     \<and> pc_trophies c \<in> \<nat> \<and> pc_trophies c \<le> 30 * of_nat n
     \<and> pc_currentStreak c \<in> \<nat> \<and> pc_currentStreak c \<le> of_nat n
     \<and> level_ok (pc_startingGarrisonLevel c) \<and> level_ok (pc_productionLevel c)
     \<and> level_ok (pc_armySpeedLevel c) \<and> level_ok (pc_treasuryLevel c)
     \<and> pc_selectedCommanderId c \<in> co_id ` set COMMANDERS \<and> pc_tutorialCompleted c = None"

text \<open>
  The interface: from a wallet in order, the operation gives entries that lead every balance to its new value, and
  a wallet in order again.
\<close>

locale ledger_operation =
  fixes pays :: "'i \<Rightarrow> player_career \<Rightarrow> player_career \<Rightarrow> ledger_entry list \<Rightarrow> bool"
  assumes explained: "wallet_ok n c \<Longrightarrow> n \<le> 2 ^ 40 \<Longrightarrow> pays i c c' es \<Longrightarrow>
      audit_from (balance k c) (of_currency k es) = Some (balance k c')"
    and kept: "wallet_ok n c \<Longrightarrow> n \<le> 2 ^ 40 \<Longrightarrow> pays i c c' es \<Longrightarrow>
      wallet_ok (Suc n) c' \<and> pc_playerId c' = pc_playerId c"

lemma level_ok_cases: "level_ok l \<Longrightarrow> (\<And>n. n \<le> 20 \<Longrightarrow> l = Finite (of_nat n) \<Longrightarrow> thesis) \<Longrightarrow> thesis"
  by (auto simp: level_ok_def)

lemma small_steps: "n \<le> 2 ^ 40 \<Longrightarrow> (of_nat n :: num) \<le> 2 ^ 40"
  using of_nat_mono [of n "2 ^ 40", where ?'a = rat] by simp

lemma wallet_space:
  assumes "wallet_ok n c" "n \<le> 2 ^ 40"
  shows "pc_coins c \<le> 2 ^ 51" "pc_trophies c \<le> 2 ^ 51" "pc_currentStreak c \<le> 2 ^ 51"
proof -
  have n: "(of_nat n :: num) \<le> 2 ^ 40" using small_steps [OF assms(2)] .
  have "100 + 1000 * (of_nat n :: num) \<le> 2 ^ 51" "30 * (of_nat n :: num) \<le> 2 ^ 51" "(of_nat n :: num) \<le> 2 ^ 51"
    using n by simp_all
  then show "pc_coins c \<le> 2 ^ 51" "pc_trophies c \<le> 2 ^ 51" "pc_currentStreak c \<le> 2 ^ 51"
    using assms(1) unfolding wallet_ok_def by linarith+
qed

text \<open>Adding a prize to the coins.\<close>

lemma prize_added:
  assumes "wallet_ok n c" "n \<le> 2 ^ 40" "p \<in> \<nat>" "p \<le> 1000"
  shows "jadd (pc_coins c) p = pc_coins c + p" "wallet_ok (Suc n) (c\<lparr>pc_coins := jadd (pc_coins c) p\<rparr>)"
proof -
  have coins: "pc_coins c \<in> \<nat>" using assms(1) by (simp add: wallet_ok_def)
  show add: "jadd (pc_coins c) p = pc_coins c + p"
    by (rule Nats_add_exact [OF coins assms(3)]) (use wallet_space(1) [OF assms(1,2)] assms(4) in simp)
  show "wallet_ok (Suc n) (c\<lparr>pc_coins := jadd (pc_coins c) p\<rparr>)"
    using assms(1,3,4) unfolding add wallet_ok_def by (simp add: algebra_simps)
qed

text \<open>A match.\<close>

definition settle_pays ::
  "outcome \<times> match_stats \<times> string \<times> num \<Rightarrow> player_career \<Rightarrow> player_career \<Rightarrow> ledger_entry list \<Rightarrow> bool" where
  "settle_pays = (\<lambda>(status, stats, matchId, now) c c' es.
     c' = st_newCareer (settleMatch c status stats matchId now) \<and> es = st_ledgerEntries (settleMatch c status stats matchId now))"

lemma settled_wallet:
  assumes w: "wallet_ok n c" and n: "n \<le> 2 ^ 40"
    and b: "b = calculateMatchRewards status stats (pc_currentStreak c) (pc_treasuryLevel c)"
    and new: "new = settled_career c status b now"
  shows "pc_coins new = pc_coins c + rb_totalCoins b" "wallet_ok (Suc n) new"
    "jsub (pc_trophies new) (pc_trophies c) = pc_trophies new - pc_trophies c"
proof -
  have streak: "pc_currentStreak c \<in> \<nat>" and trophies: "pc_trophies c \<in> \<nat>" using w by (simp_all add: wallet_ok_def)
  then have "pc_currentStreak c \<in> \<int>" by (auto simp: Nats_iff)
  note r = calculateMatchRewards_ok [OF this b]
  have p: "rb_totalCoins b \<le> 1000" using r(5) by simp
  note prize = prize_added [OF w n r(1) p]
  show "pc_coins new = pc_coins c + rb_totalCoins b" by (simp add: new settled_career_def Let_def prize(1))
  have d: "rb_trophyDelta b = 30 \<or> rb_trophyDelta b = -12 \<or> rb_trophyDelta b = 5" unfolding r(7) by (cases status) simp_all
  have "pc_trophies c \<le> 2 ^ 52" using wallet_space(2) [OF w n] by simp
  note t = new_trophies [OF trophies this d]
  have pn: "pc_trophies new = max 0 (pc_trophies c + rb_trophyDelta b)" by (simp add: new settled_career_def Let_def t(1))
  show "jsub (pc_trophies new) (pc_trophies c) = pc_trophies new - pc_trophies c" unfolding pn by (rule t(2))
  have s1: "jadd (pc_currentStreak c) 1 = pc_currentStreak c + 1"
    by (rule Nats_add_exact) (use streak wallet_space(3) [OF w n] in simp_all)
  have "pc_trophies new \<in> \<nat>" unfolding pn by (rule t(3))
  moreover have "pc_trophies new \<le> 30 * of_nat (Suc n)" using w d unfolding pn by (auto simp: wallet_ok_def)
  moreover have "pc_currentStreak new \<in> \<nat>" "pc_currentStreak new \<le> of_nat (Suc n)"
    using w by (auto simp: new settled_career_def Let_def s1 wallet_ok_def)
  ultimately show "wallet_ok (Suc n) new" using prize(2) by (simp add: wallet_ok_def new settled_career_def Let_def)
qed

interpretation settle: ledger_operation settle_pays
proof
  fix n c i c' es k assume w: "wallet_ok n c" "n \<le> 2 ^ 40" and p: "settle_pays i c c' es"
  obtain status stats matchId now where i: "i = (status, stats, matchId, now)" by (cases i)
  define b where "b = calculateMatchRewards status stats (pc_currentStreak c) (pc_treasuryLevel c)"
  have c': "c' = settled_career c status b now" and es: "es = settlement_entries c c' status (rb_totalCoins b) matchId now"
    using p by (simp_all add: i settle_pays_def settleMatch_def Let_def b_def)
  note s = settled_wallet [OF w b_def c']
  show "wallet_ok (Suc n) c' \<and> pc_playerId c' = pc_playerId c" using s(2) by (simp add: c' settled_career_def Let_def)
  have "pc_gems c' = pc_gems c" by (simp add: c' settled_career_def Let_def)
  then show "audit_from (balance k c) (of_currency k es) = Some (balance k c')"
    by (cases k) (simp_all add: es settlement_entries_def Let_def of_currency_def balance_def s(1,3))
qed

text \<open>An upgrade.\<close>

definition buy_pays :: "upgrade_type \<times> string \<times> num \<Rightarrow> player_career \<Rightarrow> player_career \<Rightarrow> ledger_entry list \<Rightarrow> bool" where
  "buy_pays = (\<lambda>(ty, purchaseId, now) c c' es.
     \<exists>e. up_outcome (purchaseUpgrade c ty purchaseId now) = Inr e \<and> es = [e] \<and> c' = up_newCareer (purchaseUpgrade c ty purchaseId now))"

lemma bought_wallet:
  assumes w: "wallet_ok n c" "n \<le> 2 ^ 40" and ok: "up_outcome (purchaseUpgrade c ty i now) = Inr e"
    and new: "new = up_newCareer (purchaseUpgrade c ty i now)"
  shows "wallet_ok (Suc n) new" "audit_from (pc_coins c) [e] = Some (pc_coins new)" "le_currency e = Coins"
    "pc_gems new = pc_gems c" "pc_trophies new = pc_trophies c" "pc_playerId new = pc_playerId c"
proof -
  obtain m where m: "m \<le> 20" "getUpgradeLevel c ty = of_nat m" using getUpgradeLevel_range by blast
  note cost = next_cost_level [OF m(2)]
  have afford: "m < 20" "UPGRADE_COSTS ! m \<le> pc_coins c"
    using ok by (auto simp: purchaseUpgrade_def Let_def cost not_less split: if_splits)
  note price = costs_bounds [OF afford(1)]
  have coins: "pc_coins c \<in> \<nat>" using w(1) by (simp add: wallet_ok_def)
  have left: "pc_coins c - UPGRADE_COSTS ! m \<in> \<nat>" using coins price afford(2) by (auto simp: Nats_iff)
  have sub: "jsub (pc_coins c) (UPGRADE_COSTS ! m) = pc_coins c - UPGRADE_COSTS ! m"
    by (rule Nats_double [OF left]) (use wallet_space(1) [OF w] price in simp)
  have up: "jadd (of_nat m) 1 = of_nat (Suc m)" using m(1) fl_of_nat_exact [of "Suc m"] by (simp add: add.commute)
  have level: "level_ok (Finite (jadd (of_nat m) 1))" using afford(1) unfolding up level_ok_def by (intro exI [of _ "Suc m"]) simp
  show "audit_from (pc_coins c) [e] = Some (pc_coins new)" "le_currency e = Coins" "pc_gems new = pc_gems c"
    "pc_trophies new = pc_trophies c" "pc_playerId new = pc_playerId c"
    using ok afford by (auto simp: purchaseUpgrade_def Let_def cost m(2) sub new)
  have "pc_coins c - UPGRADE_COSTS ! m \<le> 100 + 1000 * of_nat (Suc n)" using w(1) price by (simp add: wallet_ok_def)
  then show "wallet_ok (Suc n) new"
    using w(1) level left afford by (simp add: new purchaseUpgrade_def Let_def cost m(2) sub wallet_ok_def)
qed

interpretation buy: ledger_operation buy_pays
proof
  fix n c i c' es k assume w: "wallet_ok n c" "n \<le> 2 ^ 40" and p: "buy_pays i c c' es"
  obtain ty pid now where i: "i = (ty, pid, now)" by (cases i)
  obtain e where e: "up_outcome (purchaseUpgrade c ty pid now) = Inr e" "es = [e]" "c' = up_newCareer (purchaseUpgrade c ty pid now)"
    using p by (auto simp: i buy_pays_def)
  note b = bought_wallet [OF w e(1,3)]
  show "wallet_ok (Suc n) c' \<and> pc_playerId c' = pc_playerId c" using b(1,6) by simp
  show "audit_from (balance k c) (of_currency k es) = Some (balance k c')"
    using b(2-5) by (cases k) (simp_all add: e(2) of_currency_def balance_def)
qed

text \<open>The two desks pay a prize in coins and write one entry for it; that is enough for the interface.\<close>

locale prize_operation =
  fixes pays :: "'i \<Rightarrow> player_career \<Rightarrow> player_career \<Rightarrow> ledger_entry list \<Rightarrow> bool"
  assumes prize: "pays i c c' es \<Longrightarrow> \<exists>p e. p \<in> \<nat> \<and> p \<le> 1000 \<and> c' = c\<lparr>pc_coins := jadd (pc_coins c) p\<rparr> \<and> es = [e]
      \<and> le_currency e = Coins \<and> le_previousBalance e = pc_coins c \<and> le_amount e = p \<and> le_resultingBalance e = pc_coins c'"

sublocale prize_operation \<subseteq> ledger_operation pays
proof
  fix n c i c' es k assume w: "wallet_ok n c" "n \<le> 2 ^ 40" and p: "pays i c c' es"
  obtain p e where e: "p \<in> \<nat>" "p \<le> 1000" "c' = c\<lparr>pc_coins := jadd (pc_coins c) p\<rparr>" "es = [e]" "le_currency e = Coins"
    "le_previousBalance e = pc_coins c" "le_amount e = p" "le_resultingBalance e = pc_coins c'"
    using prize [OF p] by blast
  note a = prize_added [OF w e(1,2)]
  show "wallet_ok (Suc n) c' \<and> pc_playerId c' = pc_playerId c" unfolding e(3) using a(2) by simp
  show "audit_from (balance k c) (of_currency k es) = Some (balance k c')"
    using e by (cases k) (simp_all add: of_currency_def balance_def a(1))
qed

definition daily_pays ::
  "day_fn \<times> daily_state option \<times> daily_reward \<times> string \<times> num \<Rightarrow> player_career \<Rightarrow> player_career \<Rightarrow> ledger_entry list \<Rightarrow> bool" where
  "daily_pays = (\<lambda>(day, v, r, claimId, now) c c' es. \<exists>d e. claimDailyRewardLocally day v c r claimId now = Some d
     \<and> dr_success d \<and> dr_ledgerEntry d = Some e \<and> es = [e] \<and> c' = dr_newCareer d)"

lemma claimed_daily:
  assumes "claimDailyRewardLocally day v c r i now = Some d"
  obtains w p b chest where "tehranDayWindow day now = Some w" "progress_ok p"
    and "normalizeDailyState day v now = Some (daily_form w p b chest)"
    and "claimDailyRewardLocally day (Some (daily_form w p b chest)) c r i now = Some d"
proof -
  have "normalizeDailyState day v now \<noteq> None" using assms by (cases "normalizeDailyState day v now") (simp_all add: claimDailyRewardLocally_def)
  then have "tehranDayWindow day now \<noteq> None" by (cases "tehranDayWindow day now") (simp_all add: normalizeDailyState_def)
  then obtain w where w: "tehranDayWindow day now = Some w" by blast
  obtain p b chest where n: "normalizeDailyState day v now = Some (daily_form w p b chest)" "progress_ok p"
    using normalizeDailyState_form [OF w] by blast
  have "claimDailyRewardLocally day (Some (daily_form w p b chest)) c r i now = claimDailyRewardLocally day v c r i now"
    unfolding claimDailyRewardLocally_def normalize_form [OF w n(2)] n(1) ..
  then show thesis using that [OF w n(2) n(1)] assms by simp
qed

lemma daily_price_small: "daily_price k \<in> \<nat>" "daily_price k \<le> 1000"
  by (cases k; simp add: daily_price_def CROWN_CHEST_REWARD_def MISSION_DEFINITIONS_def)+

interpretation daily_claims: prize_operation daily_pays
proof
  fix i c c' es assume p: "daily_pays i c c' es"
  obtain day v r claimId now where i: "i = (day, v, r, claimId, now)" by (cases i)
  obtain d e where d: "claimDailyRewardLocally day v c r claimId now = Some d" "dr_success d" "dr_ledgerEntry d = Some e"
    "es = [e]" "c' = dr_newCareer d"
    using p by (auto simp: i daily_pays_def)
  obtain w p b chest where f: "tehranDayWindow day now = Some w" "progress_ok p"
    and "normalizeDailyState day v now = Some (daily_form w p b chest)"
    and g: "claimDailyRewardLocally day (Some (daily_form w p b chest)) c r claimId now = Some d"
    using d(1) by (rule claimed_daily)
  have "c' = c\<lparr>pc_coins := jadd (pc_coins c) (daily_price r)\<rparr> \<and> e = daily_entry c c' r (daily_price r) claimId now"
  proof (cases "daily_refusal r (daily_form w p b chest)")
    case None
    from g [unfolded claim_form [OF f(1,2)] None option.case(1) option.inject] show ?thesis using d(3,5) by auto
  next
    case (Some reason)
    from g [unfolded claim_form [OF f(1,2)] Some option.case(2) option.inject] show ?thesis using d(2) by auto
  qed
  then show "\<exists>p e. p \<in> \<nat> \<and> p \<le> 1000 \<and> c' = c\<lparr>pc_coins := jadd (pc_coins c) p\<rparr> \<and> es = [e]
      \<and> le_currency e = Coins \<and> le_previousBalance e = pc_coins c \<and> le_amount e = p \<and> le_resultingBalance e = pc_coins c'"
    using daily_price_small [of r] by (intro exI [of _ "daily_price r"] exI [of _ e]) (auto simp: d(4) daily_entry_def)
qed

definition league_pays ::
  "string list \<times> string \<times> string \<times> num \<Rightarrow> player_career \<Rightarrow> player_career \<Rightarrow> ledger_entry list \<Rightarrow> bool" where
  "league_pays = (\<lambda>(claims, rankId, claimId, now) c c' es.
     \<exists>e. let r = claimLeagueRewardLocally (createLeagueState c claims) c rankId claimId now
         in lc_success r \<and> lc_ledgerEntry r = Some e \<and> es = [e] \<and> c' = lc_newCareer r)"

lemma claimed_ids:
  "map lf_rankId (filter lf_claimed (lv_tiers (createLeagueState c ids)))
   = filter (\<lambda>k. k = ''recruit'' \<or> k \<in> set ids) (map rk_id RANK_TIERS)"
  by (simp add: createLeagueState_def filter_map o_def league_tier_state_def)

lemma league_claim_result:
  assumes r: "r = claimLeagueRewardLocally (createLeagueState c0 claims) c rankId claimId now" and ok: "lc_success r"
  shows "lc_newCareer r = c\<lparr>pc_coins := jadd (pc_coins c) (league_price rankId)\<rparr>"
    "lc_ledgerEntry r = Some (league_entry c (lc_newCareer r) rankId (league_price rankId) claimId now)"
    "rankId \<in> league_ranks" "rankId \<notin> set claims"
    "map lf_rankId (filter lf_claimed (lv_tiers (lc_state r)))
      = filter (\<lambda>k. k = ''recruit'' \<or> k = rankId \<or> k \<in> set claims) (map rk_id RANK_TIERS)"
proof -
  let ?s = "createLeagueState c0 claims"
  have "league_desk claimId now ?s c rankId = Some (lc_state r, lc_newCareer r)" using ok by (simp add: league_desk_def r Let_def)
  then obtain t where t: "t \<in> set (lv_tiers ?s)" "lf_rankId t = rankId" "0 < lf_reward t" "\<not> lf_claimed t"
    "lf_minTrophies t \<le> pc_trophies c"
    and new: "lc_newCareer r = c\<lparr>pc_coins := jadd (pc_coins c) (lf_reward t)\<rparr>"
    and state: "lc_state r = createLeagueState (lc_newCareer r) (map lf_rankId (filter lf_claimed (lv_tiers ?s)) @ [rankId])"
    and found: "List.find (\<lambda>t. lf_rankId t = rankId) (lv_tiers ?s) = Some t"
    by (rule league_claim_cases)
  obtain tier where tier: "t = league_tier_state c0 (set claims) tier" using t(1) by (auto simp: createLeagueState_def)
  have price: "lf_reward t = league_price rankId" using t(2) by (simp add: tier league_tier_state_def league_price_def)
  show "lc_newCareer r = c\<lparr>pc_coins := jadd (pc_coins c) (league_price rankId)\<rparr>" using new price by simp
  have "league_refusal ?s c (Some t) = None" using t(3-5) by (simp add: league_refusal_def)
  then show "lc_ledgerEntry r = Some (league_entry c (lc_newCareer r) rankId (league_price rankId) claimId now)"
    by (simp add: r claimLeagueRewardLocally_def found price Let_def)
  show "rankId \<in> league_ranks" using league_price_ranks(2) t(3) price by simp
  show "rankId \<notin> set claims" using t(2,4) by (auto simp: tier league_tier_state_def)
  show "map lf_rankId (filter lf_claimed (lv_tiers (lc_state r)))
      = filter (\<lambda>k. k = ''recruit'' \<or> k = rankId \<or> k \<in> set claims) (map rk_id RANK_TIERS)"
    unfolding state claimed_ids by (rule filter_cong [OF refl]) (auto simp: claimed_ids)
qed

interpretation league_claims: prize_operation league_pays
proof
  fix i c c' es assume p: "league_pays i c c' es"
  obtain claims rankId claimId now where i: "i = (claims, rankId, claimId, now)" by (cases i)
  define r where "r = claimLeagueRewardLocally (createLeagueState c claims) c rankId claimId now"
  obtain e where e: "lc_success r" "lc_ledgerEntry r = Some e" "es = [e]" "c' = lc_newCareer r"
    using p by (auto simp: i league_pays_def Let_def r_def)
  note l = league_claim_result [OF r_def e(1)]
  have "league_price rankId \<le> 1000"
    using l(3) by (auto simp: league_price_def LEAGUE_REWARDS_def league_ranks_def obj_get_or_def)
  then show "\<exists>p e. p \<in> \<nat> \<and> p \<le> 1000 \<and> c' = c\<lparr>pc_coins := jadd (pc_coins c) p\<rparr> \<and> es = [e]
      \<and> le_currency e = Coins \<and> le_previousBalance e = pc_coins c \<and> le_amount e = p \<and> le_resultingBalance e = pc_coins c'"
    using league_price_ranks(1) [of rankId] e l(1,2)
    by (intro exI [of _ "league_price rankId"] exI [of _ e]) (auto simp: league_entry_def)
qed

section \<open>A career without a server\<close>

text \<open>What the player does, and the page loading again; the operations never ask the server while disconnected.\<close>

datatype career_op =
    PlayMatch outcome match_stats "string option" | BuyUpgrade upgrade_type | LookAtDaily | ClaimDaily daily_reward
  | ClaimRank string | ChooseCommander commander_id | WinLevel num | ReloadPage

definition no_connection :: connect_answers where
  "no_connection = \<lparr>ca_login = Inl StaleSocket, ca_tutorial = False, ca_ledger = None\<rparr>"

definition career_step :: "environment \<Rightarrow> career_op \<Rightarrow> career_manager \<Rightarrow> career_manager option" where
  "career_step env action m = (case action of
       PlayMatch status stats matchId \<Rightarrow> map_option snd (recordMatchResult env status stats matchId m)
     | BuyUpgrade ty \<Rightarrow> Some (snd (purchase_upgrade env ty m))
     | LookAtDaily \<Rightarrow> map_option snd (getDailyState env (Inl StaleSocket) m)
     | ClaimDaily r \<Rightarrow> map_option snd (claimDailyReward env r (\<lambda>_. Inl StaleSocket) m)
     | ClaimRank rankId \<Rightarrow> Some (snd (claimLeagueReward env rankId (\<lambda>_. Inl StaleSocket) m))
     | ChooseCommander c \<Rightarrow> Some (snd (selectCommander env no_connection (Inl StaleSocket) c m))
     | WinLevel levelId \<Rightarrow> Some (snd (completeLevel env levelId (\<lambda>_. Inl StaleSocket) m))
     | ReloadPage \<Rightarrow> new_manager env (cm_platformUserId m) (cm_storage m))"

text \<open>
  The careers reached from an empty storage in \<open>n\<close> operations, each in an environment of its own whose storage takes
  writes; commanders are those of the type \<open>CommanderId\<close>.
\<close>

definition typed_op :: "career_op \<Rightarrow> bool" where
  "typed_op action \<longleftrightarrow> (case action of ChooseCommander c \<Rightarrow> c \<in> co_id ` set COMMANDERS | _ \<Rightarrow> True)"

inductive career_run :: "string \<Rightarrow> nat \<Rightarrow> career_manager \<Rightarrow> bool" for playerId where
  launch: "can_write env \<Longrightarrow> new_manager env playerId empty_storage = Some m \<Longrightarrow> career_run playerId 0 m"
| act: "career_run playerId n m \<Longrightarrow> can_write env \<Longrightarrow> typed_op action \<Longrightarrow> career_step env action m = Some m'
    \<Longrightarrow> career_run playerId (Suc n) m'"

text \<open>What the storage holds is what the manager holds.\<close>

definition in_storage :: "career_manager \<Rightarrow> bool" where
  "in_storage m \<longleftrightarrow> so_career (cm_storage m) = Stored (Career.stored_form (cm_career m))
     \<and> (so_ledger (cm_storage m) = Stored (last_entries MAX_STORED_ENTRIES (cm_ledger m))
        \<or> so_ledger (cm_storage m) = Absent \<and> cm_ledger m = [])"

definition career_inv :: "nat \<Rightarrow> career_manager \<Rightarrow> bool" where
  "career_inv n m \<longleftrightarrow> \<not> cm_remoteConnected m \<and> \<not> cm_connecting m \<and> wallet_ok n (cm_career m)
     \<and> pc_playerId (cm_career m) = cm_platformUserId m
     \<and> (\<forall>k. audits_to k (cm_ledger m) (balance k (cm_career m))) \<and> in_storage m"

lemma wallet_later: "wallet_ok n c \<Longrightarrow> wallet_ok (Suc n) c"
  by (auto simp: wallet_ok_def)

lemma career_inv_later: "career_inv n m \<Longrightarrow> career_inv (Suc n) m"
  by (simp add: career_inv_def wallet_later)

lemmas saving_defs = saveCareer_def saveCareerDirect_def saveLedger_def saveDailyState_def saveLeagueClaims_def emitChange_def
  set_daily_def apply_local_def

text \<open>The items of the daily missions, the league and the levels are not part of the invariant.\<close>

lemma career_inv_other_items [simp]:
  "career_inv n (set_daily env d m) = career_inv n m"
  "career_inv n (saveDailyState env m) = career_inv n m"
  "career_inv n (saveLeagueClaims env ids m) = career_inv n m"
  "career_inv n (m\<lparr>cm_storage := (cm_storage m)\<lparr>so_levels := v\<rparr>\<rparr>) = career_inv n m"
  "career_inv n (m\<lparr>cm_dailyState := d\<rparr>) = career_inv n m"
  "career_inv n (emitChange m) = career_inv n m"
  by (simp_all add: career_inv_def in_storage_def saving_defs)

context ledger_operation
begin

lemma applied:
  assumes inv: "career_inv n m" and n: "n \<le> 2 ^ 40" and w: "can_write env" and p: "pays i (cm_career m) c' es"
    and new: "m' = m\<lparr>cm_career := c', cm_ledger := cm_ledger m @ es\<rparr>"
  shows "career_inv (Suc n) (saveLedger env (saveCareer env m'))"
proof -
  have ok: "wallet_ok n (cm_career m)" "\<And>k. audits_to k (cm_ledger m) (balance k (cm_career m))"
    using inv by (simp_all add: career_inv_def)
  have "audits_to k (cm_ledger m @ es) (balance k c')" for k
    by (rule audits_to_append [OF ok(2) explained [OF ok(1) n p]])
  then show ?thesis using inv kept [OF ok(1) n p] w by (simp add: career_inv_def in_storage_def saving_defs new)
qed

lemma applied_locally:
  assumes "career_inv n m" "n \<le> 2 ^ 40" "can_write env" "pays i (cm_career m) c' es"
  shows "career_inv (Suc n) (apply_local env c' es m)"
  using applied [OF assms refl] by (simp add: apply_local_def)

end

section \<open>The page loads again\<close>

lemma level_restored: "level_ok l \<Longrightarrow> Finite (normalizeUpgradeLevel (stored_level l) ty) = l"
  by (auto simp: level_ok_def stored_level_def normalize_whole)

lemma commander_restored: "i \<in> co_id ` set COMMANDERS \<Longrightarrow> normalizeCommanderId (Some i) = i"
  by (auto simp: normalizeCommanderId_def list_ex_iff)

lemma career_restored:
  assumes "wallet_ok n c" "pc_playerId c = playerId"
  shows "restored_career playerId (Career.stored_form c) = Some c"
proof -
  have "0 \<le> pc_coins c" "0 \<le> pc_trophies c" using assms(1) by (auto simp: wallet_ok_def Nats_iff)
  then show ?thesis using assms
    by (simp add: restored_career_def Career.stored_form_def wallet_ok_def level_restored commander_restored or_zero_def)
qed

lemma last_entries_idem [simp]: "last_entries n (last_entries n es) = last_entries n es"
  by (simp add: last_entries_def)

lemma reloaded:
  assumes inv: "career_inv n m" and w: "can_write env" and m': "new_manager env (cm_platformUserId m) (cm_storage m) = Some m'"
  shows "cm_career m' = cm_career m" "cm_ledger m' = last_entries MAX_STORED_ENTRIES (cm_ledger m)"
    "cm_storage m' = cm_storage m" "cm_platformUserId m' = cm_platformUserId m" "career_inv n m'"
proof -
  have has: "ev_hasStorage env" using w by (simp add: can_write_def)
  have st: "so_career (cm_storage m) = Stored (Career.stored_form (cm_career m))" using inv by (simp add: career_inv_def in_storage_def)
  have "restored_career (cm_platformUserId m) (Career.stored_form (cm_career m)) = Some (cm_career m)"
    using inv by (auto simp: career_inv_def intro: career_restored)
  then have load: "loadCareer env (cm_platformUserId m) (cm_storage m) = (cm_career m, cm_storage m)"
    by (simp add: loadCareer_def has st Let_def)
  have ledger: "loadLedger env (cm_storage m) = last_entries MAX_STORED_ENTRIES (cm_ledger m)"
    using inv by (auto simp: career_inv_def in_storage_def loadLedger_def has last_entries_def)
  obtain d where "m' = \<lparr>cm_platformUserId = cm_platformUserId m, cm_career = cm_career m,
      cm_ledger = last_entries MAX_STORED_ENTRIES (cm_ledger m), cm_dailyState = d, cm_remoteConnected = False,
      cm_connecting = False, cm_logins = 0, cm_storage = cm_storage m, cm_notified = []\<rparr>"
    using m' by (auto simp: new_manager_def load ledger)
  then show "cm_career m' = cm_career m" "cm_ledger m' = last_entries MAX_STORED_ENTRIES (cm_ledger m)"
    "cm_storage m' = cm_storage m" "cm_platformUserId m' = cm_platformUserId m" "career_inv n m'"
    using inv by (auto simp: career_inv_def in_storage_def audits_to_last) (simp add: last_entries_def)?
qed

section \<open>Each operation keeps the invariant\<close>

lemma match_kept:
  assumes "career_inv n m" "n \<le> 2 ^ 40" "can_write env" "recordMatchResult env status stats given m = Some (s, m')"
  shows "career_inv (Suc n) m'"
proof -
  let ?id = "case given of Some i \<Rightarrow> i | None \<Rightarrow> ''m_'' @ num_string (ev_now env)"
  define r where "r = settleMatch (cm_career m) status stats ?id (ev_now env)"
  obtain d where m': "m' = emitChange (saveDailyState env (saveLedger env (saveCareer env
      (m\<lparr>cm_career := st_newCareer r, cm_ledger := cm_ledger m @ st_ledgerEntries r, cm_dailyState := d\<rparr>))))"
    using assms(4) by (auto simp: recordMatchResult_def Let_def r_def)
  have "settle_pays (status, stats, ?id, ev_now env) (cm_career (m\<lparr>cm_dailyState := d\<rparr>)) (st_newCareer r) (st_ledgerEntries r)"
    by (simp add: settle_pays_def r_def)
  note kept = settle.applied [OF _ assms(2,3) this refl]
  have order: "m\<lparr>cm_dailyState := d, cm_career := c, cm_ledger := l\<rparr> = m\<lparr>cm_career := c, cm_ledger := l, cm_dailyState := d\<rparr>" for c l
    by (cases m) simp
  have ledger: "cm_ledger (m\<lparr>cm_dailyState := d\<rparr>) = cm_ledger m" by simp
  show ?thesis using kept assms(1) unfolding m' order ledger career_inv_other_items by blast
qed

lemma purchase_kept:
  assumes "career_inv n m" "n \<le> 2 ^ 40" "can_write env"
  shows "career_inv (Suc n) (snd (purchase_upgrade env ty m))"
proof -
  let ?id = "claim_id (''upgrade_'' @ upgrade_name ty) env"
  define r where "r = purchaseUpgrade (cm_career m) ty ?id (ev_now env)"
  show ?thesis
  proof (cases "up_outcome r")
    case (Inl e)
    then show ?thesis using assms(1) by (simp add: purchase_upgrade_def Let_def r_def career_inv_later)
  next
    case (Inr e)
    have "buy_pays (ty, ?id, ev_now env) (cm_career m) (up_newCareer r) [e]" using Inr by (simp add: buy_pays_def r_def)
    from buy.applied_locally [OF assms this] show ?thesis using Inr by (simp add: purchase_upgrade_def Let_def r_def)
  qed
qed

lemma daily_kept:
  assumes inv: "career_inv n m" and "n \<le> 2 ^ 40" "can_write env" and "claimDailyReward env k server m = Some (res, m')"
  shows "career_inv (Suc n) m'"
proof (cases "ev_fallback env")
  case False
  then show ?thesis using assms(4) inv by (auto simp: claimDailyReward_def career_inv_def wallet_later)
next
  case True
  have off: "\<not> cm_remoteConnected m" using inv by (simp add: career_inv_def)
  obtain d where d: "claimDailyRewardLocally (ev_day env) (Some (cm_dailyState m)) (cm_career m) k
      (claim_id (''daily_'' @ reward_name k) env) (ev_now env) = Some d"
    and m': "m' = (let m1 = set_daily env (dr_state d) m
       in case dr_ledgerEntry d of Some entry \<Rightarrow> if dr_success d then apply_local env (dr_newCareer d) [entry] m1 else m1 | None \<Rightarrow> m1)"
    using assms(4) True off by (auto simp: claimDailyReward_def Let_def)
  show ?thesis
  proof (cases "\<exists>e. dr_ledgerEntry d = Some e \<and> dr_success d")
    case True
    then obtain e where e: "dr_ledgerEntry d = Some e" "dr_success d" by blast
    have "daily_pays (ev_day env, Some (cm_dailyState m), k, claim_id (''daily_'' @ reward_name k) env, ev_now env)
        (cm_career (set_daily env (dr_state d) m)) (dr_newCareer d) [e]"
      using d e by (simp add: daily_pays_def saving_defs)
    from daily_claims.applied_locally [OF _ assms(2,3) this] show ?thesis using e inv by (simp add: m' Let_def)
  next
    case False
    then have "m' = set_daily env (dr_state d) m" by (auto simp: m' Let_def split: option.split)
    then show ?thesis using career_inv_later [OF inv] by simp
  qed
qed

lemma league_kept:
  assumes inv: "career_inv n m" and "n \<le> 2 ^ 40" "can_write env"
  shows "career_inv (Suc n) (snd (claimLeagueReward env rankId server m))"
proof -
  have off: "\<not> cm_remoteConnected m" using inv by (simp add: career_inv_def)
  let ?claims = "loadLeagueClaims env (cm_storage m)" and ?id = "claim_id (''league_'' @ rankId) env"
  define r where "r = claimLeagueRewardLocally (createLeagueState (cm_career m) ?claims) (cm_career m) rankId ?id (ev_now env)"
  show ?thesis
  proof (cases "ev_fallback env \<and> lc_success r \<and> lc_ledgerEntry r \<noteq> None")
    case True
    then obtain e where e: "lc_success r" "lc_ledgerEntry r = Some e" by blast
    define m1 where "m1 = saveLeagueClaims env (map lf_rankId (filter lf_claimed (lv_tiers (lc_state r)))) m"
    have "league_pays (?claims, rankId, ?id, ev_now env) (cm_career m1) (lc_newCareer r) [e]"
      using e by (simp add: league_pays_def Let_def r_def m1_def saving_defs)
    from league_claims.applied_locally [OF _ assms(2,3) this] show ?thesis
      using e inv True off by (simp add: claimLeagueReward_def Let_def m1_def r_def)
  next
    case False
    then have "snd (claimLeagueReward env rankId server m) = m"
      using off by (auto simp: claimLeagueReward_def Let_def r_def split: option.splits)
    then show ?thesis using career_inv_later [OF inv] by simp
  qed
qed

lemma commander_kept:
  assumes "career_inv n m" "can_write env" "c \<in> co_id ` set COMMANDERS"
  shows "career_inv (Suc n) (snd (selectCommander env ans answer c m))"
proof -
  have "balance k (cm_career m\<lparr>pc_selectedCommanderId := c\<rparr>) = balance k (cm_career m)" for k by (cases k) (simp_all add: balance_def)
  moreover have "wallet_ok n (cm_career m\<lparr>pc_selectedCommanderId := c\<rparr>)" using assms by (simp add: career_inv_def wallet_ok_def)
  ultimately have "career_inv n (saveCareer env (m\<lparr>cm_career := (cm_career m)\<lparr>pc_selectedCommanderId := c\<rparr>\<rparr>))"
    using assms(1,2) by (simp add: career_inv_def in_storage_def saving_defs)
  then show ?thesis using assms(1) career_inv_later
    by (auto simp: selectCommander_def await_connection_def Let_def career_inv_def [of _ m])
qed

lemma level_kept:
  assumes "career_inv n m"
  shows "career_inv n (snd (completeLevel env l server m))"
  using assms by (auto simp: completeLevel_def Let_def career_inv_def [of _ m]) (simp add: career_inv_def in_storage_def)?

lemma step_kept:
  assumes "career_inv n m" "n \<le> 2 ^ 40" "can_write env" "typed_op action" "career_step env action m = Some m'"
  shows "career_inv (Suc n) m'"
proof (cases action)
  case LookAtDaily
  have "\<not> cm_remoteConnected m" using assms(1) by (simp add: career_inv_def)
  then have "m' = m \<or> (\<exists>d. m' = set_daily env d m)"
    using assms(5) LookAtDaily by (auto simp: career_step_def getDailyState_def split: if_splits)
  then show ?thesis using career_inv_later [OF assms(1)] by auto
next
  case ReloadPage
  then show ?thesis using assms career_inv_later [OF reloaded(5)] by (simp add: career_step_def)
qed (use assms career_inv_later level_kept in \<open>auto simp: career_step_def typed_op_def purchase_kept league_kept commander_kept
    elim: match_kept daily_kept\<close>)

lemma launched:
  assumes "can_write env" "new_manager env playerId empty_storage = Some m"
  shows "career_inv 0 m \<and> cm_platformUserId m = playerId"
proof -
  have has: "ev_hasStorage env" using assms(1) by (simp add: can_write_def)
  have "wallet_ok 0 (createDefaultCareer playerId)"
    by (auto simp: wallet_ok_def createDefaultCareer_def level_ok_def COMMANDERS_def intro: exI [of _ 0])
  moreover have "pc_playerId (createDefaultCareer playerId) = playerId" by (simp add: createDefaultCareer_def)
  moreover have "audits_to k [] b" for k b by (simp add: audits_to_def of_currency_def)
  moreover obtain d where "m = \<lparr>cm_platformUserId = playerId, cm_career = createDefaultCareer playerId, cm_ledger = [],
      cm_dailyState = d, cm_remoteConnected = False, cm_connecting = False, cm_logins = 0,
      cm_storage = saveCareerDirect env (createDefaultCareer playerId) empty_storage, cm_notified = []\<rparr>"
    using assms(2) has by (auto simp: new_manager_def loadCareer_def empty_storage_def Let_def loadLedger_def saveCareerDirect_def
        split: if_splits)
  ultimately show ?thesis using assms(1) by (simp add: career_inv_def in_storage_def saveCareerDirect_def empty_storage_def)
qed

lemma step_player: "career_step env action m = Some m' \<Longrightarrow> career_inv n m \<Longrightarrow> cm_platformUserId m' = cm_platformUserId m"
  by (cases action)
     (auto simp: career_step_def recordMatchResult_def purchase_upgrade_def getDailyState_def claimDailyReward_def claimLeagueReward_def
        selectCommander_def completeLevel_def new_manager_def await_connection_def saving_defs career_inv_def Let_def
      split: sum.splits option.splits prod.splits if_splits)

lemma run_inv:
  assumes "career_run playerId n m"
  shows "n \<le> 2 ^ 40 \<Longrightarrow> career_inv n m \<and> cm_platformUserId m = playerId"
  using assms
proof (induction rule: career_run.induct)
  case (launch env m)
  then show ?case using launched by blast
next
  case (act n m env action m')
  have "career_inv n m" "cm_platformUserId m = playerId" using act by simp_all
  then show ?case using step_kept [OF _ _ act(2-4)] step_player [OF act(4)] act(6) by simp
qed

section \<open>The tutorial\<close>

text \<open>
  A device and its server. The page opens with any storage, whatever was left there by an older version; then the
  player acts, the manager connects, and completions are reported, in any order. \<open>told\<close> says whether any answer since
  the page first opened said that the tutorial is complete, or accepted the promotion of the old marker.
\<close>

definition says_complete :: "career_error + player_career \<Rightarrow> bool" where
  "says_complete answer \<longleftrightarrow> (case answer of Inr c \<Rightarrow> pc_tutorialCompleted c = Some True | Inl _ \<Rightarrow> False)"

definition connection_says :: "connect_answers \<Rightarrow> bool" where
  "connection_says ans \<longleftrightarrow> says_complete (ca_login ans) \<or> (\<exists>c. ca_login ans = Inr c) \<and> ca_tutorial ans"

inductive device_run :: "string \<Rightarrow> bool \<Rightarrow> career_manager \<Rightarrow> bool" for playerId where
  opens: "new_manager env playerId st = Some m \<Longrightarrow> device_run playerId False m"
| acts: "device_run playerId told m \<Longrightarrow> career_step env action m = Some m' \<Longrightarrow> device_run playerId told m'"
| connects: "device_run playerId told m \<Longrightarrow> connect_manager env ans m = (r, m')
    \<Longrightarrow> device_run playerId (told \<or> connection_says ans) m'"
| refreshes: "device_run playerId told m \<Longrightarrow> refreshRemoteCareer env answer m = (r, m')
    \<Longrightarrow> device_run playerId (told \<or> says_complete answer) m'"
| reports: "device_run playerId told m \<Longrightarrow> completeTutorialRemote env hasPlatform ans first second m = (r, m')
    \<Longrightarrow> device_run playerId (told \<or> connection_says ans \<or> says_complete first \<or> says_complete second) m'"

lemma loaded_incomplete: "new_manager env playerId st = Some m \<Longrightarrow> \<not> isTutorialCompleted m"
  by (auto simp: new_manager_def loadCareer_def restored_career_def createDefaultCareer_def isTutorialCompleted_def Let_def
      split: if_splits option.splits stored.splits prod.splits)

lemma settled_tutorial: "pc_tutorialCompleted (st_newCareer (settleMatch c status stats i now)) = pc_tutorialCompleted c"
  by (simp add: settleMatch_def settled_career_def Let_def)

lemma bought_tutorial: "pc_tutorialCompleted (up_newCareer (purchaseUpgrade c ty i now)) = pc_tutorialCompleted c"
  by (simp add: purchaseUpgrade_def Let_def split: option.split)

lemma daily_tutorial: "claimDailyRewardLocally day v c k i now = Some d \<Longrightarrow> pc_tutorialCompleted (dr_newCareer d) = pc_tutorialCompleted c"
  by (auto simp: claimDailyRewardLocally_def Let_def bind_eq_Some_conv split: option.splits)

lemma league_tutorial: "pc_tutorialCompleted (lc_newCareer (claimLeagueRewardLocally s c k i now)) = pc_tutorialCompleted c"
  by (auto simp: claimLeagueRewardLocally_def Let_def split: option.splits)

text \<open>What the player does on the device neither completes the tutorial nor touches the old marker.\<close>

definition tutorial_kept :: "career_manager \<Rightarrow> career_manager \<Rightarrow> bool" where
  "tutorial_kept m m' \<longleftrightarrow> (isTutorialCompleted m' \<longrightarrow> isTutorialCompleted m)
     \<and> so_legacyMarker (cm_storage m') = so_legacyMarker (cm_storage m)"

lemma tutorial_kept_refl [simp]: "tutorial_kept m m"
  by (simp add: tutorial_kept_def)

lemma tutorial_kept_saving [simp]:
  "tutorial_kept m (emitChange m') = tutorial_kept m m'" "tutorial_kept m (saveCareer env m') = tutorial_kept m m'"
  "tutorial_kept m (saveLedger env m') = tutorial_kept m m'" "tutorial_kept m (saveDailyState env m') = tutorial_kept m m'"
  "tutorial_kept m (saveLeagueClaims env ids m') = tutorial_kept m m'" "tutorial_kept m (set_daily env d m') = tutorial_kept m m'"
  by (simp_all add: tutorial_kept_def isTutorialCompleted_def saving_defs)

lemma saving_career [simp]:
  "cm_career (set_daily env d m) = cm_career m" "cm_career (saveLeagueClaims env ids m) = cm_career m"
  by (simp_all add: saving_defs)

lemma tutorial_kept_career:
  assumes "tutorial_kept m m1" "pc_tutorialCompleted c = pc_tutorialCompleted (cm_career m1)"
  shows "tutorial_kept m (m1\<lparr>cm_career := c\<rparr>)" "tutorial_kept m (m1\<lparr>cm_career := c, cm_ledger := es\<rparr>)"
    "tutorial_kept m (m1\<lparr>cm_career := c, cm_ledger := es, cm_dailyState := d\<rparr>)" "tutorial_kept m (apply_local env c es m1)"
  using assms by (simp_all add: tutorial_kept_def isTutorialCompleted_def saving_defs)

lemma match_tutorial: "recordMatchResult env status stats i m = Some (r, m') \<Longrightarrow> tutorial_kept m m'"
  by (auto simp: recordMatchResult_def Let_def settled_tutorial intro!: tutorial_kept_career(3))

lemma purchase_tutorial: "tutorial_kept m (snd (purchase_upgrade env ty m))"
  by (simp add: purchase_upgrade_def Let_def bought_tutorial tutorial_kept_career split: sum.split)

lemma daily_view_tutorial: "getDailyState env answer m = Some (r, m') \<Longrightarrow> tutorial_kept m m'"
  by (auto simp: getDailyState_def Let_def split: if_splits sum.splits)

lemma daily_claim_tutorial:
  assumes "claimDailyReward env k (\<lambda>_. Inl StaleSocket) m = Some (r, m')" shows "tutorial_kept m m'"
proof -
  have "tutorial_kept m (apply_local env (dr_newCareer d) es (set_daily env d' m))"
    if "claimDailyRewardLocally day v (cm_career m) k i now = Some d" for day v i now d es d'
    using daily_tutorial [OF that] by (intro tutorial_kept_career) simp_all
  then show ?thesis using assms
    by (auto simp: claimDailyReward_def claimDailyRewardRemote_def requireRemoteApi_def Let_def split: if_splits sum.splits option.splits)
qed

lemma league_claim_tutorial: "tutorial_kept m (snd (claimLeagueReward env k (\<lambda>_. Inl StaleSocket) m))"
proof -
  have "tutorial_kept m (apply_local env (lc_newCareer (claimLeagueRewardLocally s (cm_career m) k i now)) es (saveLeagueClaims env ids m))"
    for s i now es ids
    by (intro tutorial_kept_career) (simp_all add: league_tutorial)
  then show ?thesis by (simp add: claimLeagueReward_def Let_def split: option.split sum.split)
qed

lemma commander_tutorial: "tutorial_kept m (snd (selectCommander env no_connection (Inl StaleSocket) c m))"
  by (simp add: selectCommander_def await_connection_def connect_finish_def performConnect_def no_connection_def Let_def)
    (simp add: tutorial_kept_def isTutorialCompleted_def)

lemma level_tutorial: "tutorial_kept m (snd (completeLevel env l (\<lambda>_. Inl StaleSocket) m))"
  by (simp add: completeLevel_def Let_def tutorial_kept_def isTutorialCompleted_def split: sum.split)

lemma reload_tutorial:
  assumes "new_manager env playerId (cm_storage m) = Some m'"
  shows "tutorial_kept m m'"
proof -
  obtain c st where l: "loadCareer env playerId (cm_storage m) = (c, st)" by fastforce
  then have "so_legacyMarker st = so_legacyMarker (cm_storage m)"
    by (auto simp: loadCareer_def saveCareerDirect_def Let_def split: if_splits option.splits stored.splits)
  then show ?thesis using assms loaded_incomplete [OF assms] by (auto simp: new_manager_def l tutorial_kept_def)
qed

lemma local_tutorial: "career_step env action m = Some m' \<Longrightarrow> tutorial_kept m m'"
  by (cases action)
    (auto simp: career_step_def purchase_tutorial league_claim_tutorial commander_tutorial level_tutorial
      dest: match_tutorial daily_view_tutorial daily_claim_tutorial reload_tutorial)

text \<open>An answer of the server is the only way.\<close>

lemma connect_tutorial:
  assumes "connect_manager env ans m = (r, m')"
  shows "isTutorialCompleted m' \<Longrightarrow> isTutorialCompleted m \<or> connection_says ans"
  using assms by (auto simp: connect_manager_def connect_finish_def connect_start_def performConnect_def migrateLegacyTutorialMarker_def
      isTutorialCompleted_def connection_says_def says_complete_def saving_defs Let_def
      split: if_splits sum.splits option.splits prod.splits)

lemma applied_tutorial: "isTutorialCompleted (applyRemoteState env c es m) \<longleftrightarrow> pc_tutorialCompleted c = Some True"
  by (simp add: applyRemoteState_def isTutorialCompleted_def saving_defs Let_def)

lemma refresh_tutorial:
  assumes "refreshRemoteCareer env answer m = (r, m')"
  shows "isTutorialCompleted m' \<Longrightarrow> isTutorialCompleted m \<or> says_complete answer"
  using assms by (auto simp: refreshRemoteCareer_def applied_tutorial says_complete_def Let_def split: sum.splits)

lemma retry_tutorial:
  assumes "retry_once env hasPlatform ans first second m = (r, m1)"
  shows "isTutorialCompleted m1 \<Longrightarrow> isTutorialCompleted m \<or> connection_says ans" "r = Inr c \<Longrightarrow> first = Inr c \<or> second = Inr c"
proof -
  have "isTutorialCompleted (m\<lparr>cm_remoteConnected := False\<rparr>) \<longleftrightarrow> isTutorialCompleted m" by (simp add: isTutorialCompleted_def)
  then show "isTutorialCompleted m1 \<Longrightarrow> isTutorialCompleted m \<or> connection_says ans"
    using assms connect_tutorial [of env ans "m\<lparr>cm_remoteConnected := False\<rparr>"]
    by (auto simp: retry_once_def split: sum.splits if_splits prod.splits)
  show "r = Inr c \<Longrightarrow> first = Inr c \<or> second = Inr c"
    using assms by (auto simp: retry_once_def split: sum.splits if_splits prod.splits)
qed

lemma report_tutorial:
  assumes "completeTutorialRemote env hasPlatform ans first second m = (r, m')" "isTutorialCompleted m'"
  shows "isTutorialCompleted m \<or> connection_says ans \<or> says_complete first \<or> says_complete second"
proof (cases "cm_remoteConnected m")
  case False
  then show ?thesis using assms by (auto simp: completeTutorialRemote_def requireRemoteApi_def)
next
  case True
  obtain a m1 where again: "retry_once env hasPlatform ans first second m = (a, m1)" by fastforce
  note t = retry_tutorial [OF again]
  show ?thesis
  proof (cases a)
    case (Inl e)
    then have "m' = m1" using assms(1) again True by (simp add: completeTutorialRemote_def requireRemoteApi_def)
    then show ?thesis using t(1) assms(2) by blast
  next
    case (Inr c)
    then have "m' = applyRemoteState env c [] m1" using assms(1) again True by (simp add: completeTutorialRemote_def requireRemoteApi_def)
    then have "says_complete (Inr c)" using assms(2) by (simp add: applied_tutorial says_complete_def)
    then show ?thesis using t(2) [OF Inr] by blast
  qed
qed

lemma completed_told: "device_run playerId told m \<Longrightarrow> isTutorialCompleted m \<Longrightarrow> told"
proof (induction rule: device_run.induct)
  case (acts told m env action m')
  then show ?case using local_tutorial [of env action m m'] by (simp add: tutorial_kept_def)
next
  case (connects told m env ans r m')
  then show ?case using connect_tutorial by blast
next
  case (refreshes told m env answer r m')
  then show ?case using refresh_tutorial by blast
next
  case (reports told m env hasPlatform ans first second r m')
  then show ?case using report_tutorial by blast
qed (use loaded_incomplete in blast)

section \<open>Properties\<close>

text \<open>
  C30: the ledger of a career played without a server audits. Whatever the player does, in whatever order and with
  the page loading again at any time, the entries of each currency lead without a gap, each by its amount, to the
  balance the career shows; balances are whole and not negative, and upgrade levels stay within 0 and 20.
\<close>

theorem career_ledger_audited:
  assumes "career_run playerId n m" "n \<le> 2 ^ 40"
  shows "audits_to k (cm_ledger m) (balance k (cm_career m))
    \<and> pc_coins (cm_career m) \<in> \<nat> \<and> pc_trophies (cm_career m) \<in> \<nat>
    \<and> level_ok (pc_startingGarrisonLevel (cm_career m)) \<and> level_ok (pc_productionLevel (cm_career m))
    \<and> level_ok (pc_armySpeedLevel (cm_career m)) \<and> level_ok (pc_treasuryLevel (cm_career m))
    \<and> pc_playerId (cm_career m) = playerId"
  using run_inv [OF assms] by (simp add: career_inv_def wallet_ok_def)

lemma day_advances:
  assumes w: "tehranDayWindow day now = Some w"
  shows "\<exists>d. advanceDailyState day v status stats now = Some d"
proof -
  obtain d where d: "normalizeDailyState day v now = Some d" using normalizeDailyState_form [OF w] by blast
  obtain d' where "normalizeDailyState day (Some (d\<lparr>ds_missions := map (advance_mission status stats) (ds_missions d)\<rparr>)) now = Some d'"
    using normalizeDailyState_form [OF w] by blast
  then show ?thesis by (simp add: advanceDailyState_def d)
qed

lemma page_loads:
  assumes w: "tehranDayWindow (ev_day env) (ev_now env) = Some w"
  shows "\<exists>m. new_manager env playerId st = Some m"
proof -
  obtain c st' where load: "loadCareer env playerId st = (c, st')" by fastforce
  obtain d where "loadDailyState env st' = Some d"
  proof (cases "ev_hasStorage env \<and> (\<exists>d. so_daily st' = Stored d)")
    case True
    then obtain d0 where "so_daily st' = Stored d0" "ev_hasStorage env" by blast
    moreover obtain d where "normalizeDailyState (ev_day env) (Some d0) (ev_now env) = Some d"
      using normalizeDailyState_form [OF w] by blast
    ultimately show thesis using that by (simp add: loadDailyState_def)
  next
    case False
    then have "loadDailyState env st' = createDailyState (ev_day env) (ev_now env)"
      by (cases "so_daily st'") (auto simp: loadDailyState_def)
    then show thesis using that w by (simp add: createDailyState_def)
  qed
  then show ?thesis by (simp add: new_manager_def load)
qed

text \<open>An environment with a clock at 0 and days of 24 hours, and a career that has won one match in it.\<close>

definition example_environment :: environment where
  "example_environment = \<lparr>ev_now = 0, ev_random = ''abcde'', ev_draw = 1 / 2, ev_hasStorage = True, ev_writable = True,
     ev_fallback = True, ev_levelsApi = True, ev_laneApi = True, ev_weeklyApi = True,
     ev_day = (\<lambda>t. day_name \<lfloor>(t + 12600000) / 86400000\<rfloor>)\<rparr>"

lemma example_window: "\<exists>w. tehranDayWindow (ev_day example_environment) (ev_now example_environment) = Some w"
  using tehranDayWindow_ok [OF fixed_day_ok, of 0] by (auto simp: example_environment_def)

lemma example_launch: "\<exists>m. new_manager example_environment ''p'' empty_storage = Some m"
  using example_window page_loads by blast

lemma example_played: "\<exists>m s m'. career_run ''p'' 0 m \<and> recordMatchResult example_environment Won empty_stats None m = Some (s, m')
    \<and> career_run ''p'' 1 m'"
proof -
  obtain m where m: "new_manager example_environment ''p'' empty_storage = Some m" using example_launch by blast
  have w: "can_write example_environment" by (simp add: can_write_def example_environment_def)
  have run: "career_run ''p'' 0 m" by (rule launch [OF w m])
  obtain window where "tehranDayWindow (ev_day example_environment) (ev_now example_environment) = Some window"
    using example_window by blast
  then have "\<exists>d. advanceDailyState (ev_day example_environment) v status stats (ev_now example_environment) = Some d" for v status stats
    by (rule day_advances)
  then have "\<exists>s m'. recordMatchResult example_environment Won empty_stats None m = Some (s, m')"
    by (auto simp: recordMatchResult_def Let_def)
  then obtain s m' where r: "recordMatchResult example_environment Won empty_stats None m = Some (s, m')" by blast
  have "career_run ''p'' (Suc 0) m'"
    by (rule act [OF run w, of "PlayMatch Won empty_stats None"]) (simp_all add: typed_op_def career_step_def r)
  then show ?thesis using run r by auto
qed

lemma career_ledger_audited_witness: "\<exists>m. career_run ''p'' 1 m \<and> audits_to Coins (cm_ledger m) (pc_coins (cm_career m))"
proof -
  obtain m where "career_run ''p'' 1 m" using example_played by blast
  with career_ledger_audited [OF this, of Coins] show ?thesis by (auto simp: balance_def)
qed

text \<open>
  C31: a career survives the page loading again. After any sequence of operations the stored items give back the
  career, field by field, and the latest hundred entries of the ledger, and loading writes nothing.
\<close>

theorem career_survives_reload:
  assumes "career_run playerId n m" "n \<le> 2 ^ 40" "can_write env"
    and "day_ok (ev_day env)" "0 \<le> now" "now \<le> 2 ^ 51" "ev_now env = of_int now"
  shows "\<exists>m'. new_manager env playerId (cm_storage m) = Some m' \<and> cm_career m' = cm_career m
    \<and> cm_ledger m' = last_entries 100 (cm_ledger m) \<and> cm_storage m' = cm_storage m"
proof -
  have inv: "career_inv n m" "cm_platformUserId m = playerId" using run_inv [OF assms(1,2)] by simp_all
  obtain w where "tehranDayWindow (ev_day env) (ev_now env) = Some w"
    using tehranDayWindow_ok [OF assms(4-6)] assms(7) by auto
  then obtain m' where "new_manager env (cm_platformUserId m) (cm_storage m) = Some m'"
    using page_loads by blast
  with reloaded [OF inv(1) assms(3) this] show ?thesis by (simp add: inv(2) MAX_STORED_ENTRIES_def)
qed

lemma career_survives_reload_witness:
  "\<exists>m m'. career_run ''p'' 1 m \<and> new_manager example_environment ''p'' (cm_storage m) = Some m' \<and> cm_career m' = cm_career m"
proof -
  obtain m where m: "career_run ''p'' 1 m" using example_played by blast
  have "can_write example_environment" "day_ok (ev_day example_environment)" "ev_now example_environment = of_int 0"
    using fixed_day_ok by (simp_all add: can_write_def example_environment_def)
  with career_survives_reload [OF m _ this(1,2), of 0] m show ?thesis by auto
qed

text \<open>
  C32: completing the tutorial is known from the server alone. Whatever an older version left in the storage, and
  whatever is played, connected and reported, in any order and with the page loading again, the tutorial is complete
  only if some answer of the server said so or accepted the promotion of the old marker; until then play and
  matches against people lead to the training. No local operation completes it or touches the marker. A login makes
  it complete exactly when the server says so, or the old marker is there and the server accepts its promotion; the
  marker is gone exactly then, and a failed login changes nothing.
\<close>

theorem tutorial_fail_closed:
  assumes "device_run playerId told m"
  shows "(isTutorialCompleted m \<longrightarrow> told)
    \<and> (\<not> told \<longrightarrow> resolvePlayEntryAction (isTutorialCompleted m) = PlayTraining
         \<and> resolvePvpEntryAction (isTutorialCompleted m) = PvpTraining)
    \<and> (\<forall>env action m'. career_step env action m = Some m' \<longrightarrow> (isTutorialCompleted m' \<longrightarrow> isTutorialCompleted m)
         \<and> so_legacyMarker (cm_storage m') = so_legacyMarker (cm_storage m))
    \<and> (\<forall>env ans r m'. ev_hasStorage env \<and> performConnect env ans m = (r, m') \<longrightarrow> (case ca_login ans of
        Inl e \<Rightarrow> r = Inl e \<and> m' = m
      | Inr c \<Rightarrow> r = Inr (cm_career m') \<and> isRemoteConnected m'
          \<and> (isTutorialCompleted m' \<longleftrightarrow> pc_tutorialCompleted c = Some True \<or> so_legacyMarker (cm_storage m) \<and> ca_tutorial ans)
          \<and> (so_legacyMarker (cm_storage m') \<longleftrightarrow> so_legacyMarker (cm_storage m) \<and> \<not> isTutorialCompleted m')))"
proof (intro conjI allI impI)
  show "isTutorialCompleted m \<Longrightarrow> told" by (rule completed_told [OF assms])
  assume "\<not> told"
  then have "\<not> isTutorialCompleted m" using completed_told [OF assms] by blast
  then show "resolvePlayEntryAction (isTutorialCompleted m) = PlayTraining" "resolvePvpEntryAction (isTutorialCompleted m) = PvpTraining"
    by (simp_all add: resolvePlayEntryAction_def resolvePvpEntryAction_def)
next
  fix env action m' assume "career_step env action m = Some m'"
  then have "tutorial_kept m m'" by (rule local_tutorial)
  then show "so_legacyMarker (cm_storage m') = so_legacyMarker (cm_storage m)" "isTutorialCompleted m' \<Longrightarrow> isTutorialCompleted m"
    by (simp_all add: tutorial_kept_def)
next
  fix env ans r m' assume "ev_hasStorage env \<and> performConnect env ans m = (r, m')"
  then show "case ca_login ans of
        Inl e \<Rightarrow> r = Inl e \<and> m' = m
      | Inr c \<Rightarrow> r = Inr (cm_career m') \<and> isRemoteConnected m'
          \<and> (isTutorialCompleted m' \<longleftrightarrow> pc_tutorialCompleted c = Some True \<or> so_legacyMarker (cm_storage m) \<and> ca_tutorial ans)
          \<and> (so_legacyMarker (cm_storage m') \<longleftrightarrow> so_legacyMarker (cm_storage m) \<and> \<not> isTutorialCompleted m')"
    by (auto simp: isTutorialCompleted_def isRemoteConnected_def performConnect_def
        migrateLegacyTutorialMarker_def readLegacyTutorialMarker_def clearLegacyTutorialMarker_def clearTrainingProgress_def
        saving_defs Let_def split: sum.splits if_splits option.splits)
qed

text \<open>A device with the old marker: refused at the first login, promoted at the second.\<close>

lemma tutorial_fail_closed_witness:
  "\<exists>m m1 m2. device_run ''p'' False m \<and> so_legacyMarker (cm_storage m) \<and> \<not> isTutorialCompleted m
    \<and> performConnect example_environment \<lparr>ca_login = Inr (createDefaultCareer ''p''), ca_tutorial = False, ca_ledger = None\<rparr> m
        = (Inr (cm_career m1), m1) \<and> \<not> isTutorialCompleted m1 \<and> so_legacyMarker (cm_storage m1)
    \<and> performConnect example_environment \<lparr>ca_login = Inr (createDefaultCareer ''p''), ca_tutorial = True, ca_ledger = None\<rparr> m
        = (Inr (cm_career m2), m2) \<and> isTutorialCompleted m2 \<and> \<not> so_legacyMarker (cm_storage m2)"
proof -
  let ?env = example_environment
  let ?a = "\<lambda>ok. \<lparr>ca_login = Inr (createDefaultCareer ''p''), ca_tutorial = ok, ca_ledger = None\<rparr>"
  obtain m where m: "new_manager ?env ''p'' (empty_storage\<lparr>so_legacyMarker := True\<rparr>) = Some m"
    using example_window page_loads by blast
  then have marker: "so_legacyMarker (cm_storage m)"
    by (auto simp: new_manager_def loadCareer_def saveCareerDirect_def empty_storage_def Let_def split: if_splits)
  have run: "device_run ''p'' False m" by (rule opens [OF m])
  have fresh: "pc_tutorialCompleted (createDefaultCareer ''p'') \<noteq> Some True" by (simp add: createDefaultCareer_def)
  have has: "ev_hasStorage ?env" by (simp add: example_environment_def)
  obtain r1 m1 r2 m2 where c: "performConnect ?env (?a False) m = (r1, m1)" "performConnect ?env (?a True) m = (r2, m2)" by fastforce
  have t: "\<forall>env ans r m'. ev_hasStorage env \<and> performConnect env ans m = (r, m') \<longrightarrow> (case ca_login ans of
        Inl e \<Rightarrow> r = Inl e \<and> m' = m
      | Inr c \<Rightarrow> r = Inr (cm_career m') \<and> isRemoteConnected m'
          \<and> (isTutorialCompleted m' \<longleftrightarrow> pc_tutorialCompleted c = Some True \<or> so_legacyMarker (cm_storage m) \<and> ca_tutorial ans)
          \<and> (so_legacyMarker (cm_storage m') \<longleftrightarrow> so_legacyMarker (cm_storage m) \<and> \<not> isTutorialCompleted m'))"
    and no: "\<not> isTutorialCompleted m" using tutorial_fail_closed [OF run] by blast+
  have "r1 = Inr (cm_career m1) \<and> \<not> isTutorialCompleted m1 \<and> so_legacyMarker (cm_storage m1)"
    using t [rule_format, OF conjI, OF has c(1)] fresh marker by simp
  moreover have "r2 = Inr (cm_career m2) \<and> isTutorialCompleted m2 \<and> \<not> so_legacyMarker (cm_storage m2)"
    using t [rule_format, OF conjI, OF has c(2)] marker by simp
  ultimately show ?thesis using run marker no c by blast
qed

lemma applied_ids:
  assumes "distinct (map le_id (cm_ledger m))" "distinct (map le_id es)"
  shows "distinct (map le_id (cm_ledger (applyRemoteState env c es m)))"
    "le_id ` set es \<subseteq> le_id ` set (cm_ledger (applyRemoteState env c es m))"
    "cm_career (applyRemoteState env c es m) = c" "cm_logins (applyRemoteState env c es m) = cm_logins m"
  using assms by (auto simp: applyRemoteState_def saving_defs Let_def distinct_map_filter intro: rev_image_eqI)

lemma connect_cases:
  assumes "connect_manager env ans (m\<lparr>cm_remoteConnected := False\<rparr>) = (r, m1)"
  shows "cm_logins m1 \<le> Suc (cm_logins m)"
    and "r = Inl e \<Longrightarrow> cm_career m1 = cm_career m \<and> cm_ledger m1 = cm_ledger m \<and> \<not> isRemoteConnected m1"
    and "r = Inr c \<Longrightarrow> cm_ledger m1 = (case ca_ledger ans of Some es \<Rightarrow> es | None \<Rightarrow> cm_ledger m) \<and> isRemoteConnected m1"
  using assms by (auto simp: connect_manager_def connect_finish_def connect_start_def performConnect_def isRemoteConnected_def
      saving_defs Let_def split: sum.splits prod.splits if_splits option.splits)

text \<open>
  C33: a settlement is applied exactly when it is returned. With a dropped socket the manager logs in at most once
  more and asks a second time; a settlement that arrives becomes the career, its entries are in the ledger, and no
  identifier is there twice. Any other error is raised and leaves the manager as it was, and when the new login fails
  the career and the ledger are kept and the manager is disconnected.
\<close>

theorem settlement_applied_once:
  assumes "recordMatchResultRemote env hasPlatform ans first second m = (r, m')" "isRemoteConnected m"
    and "distinct (map le_id (cm_ledger m))" "\<And>es. ca_ledger ans = Some es \<Longrightarrow> distinct (map le_id es)"
    and "\<And>s. first = Inr s \<or> second = Inr s \<Longrightarrow> distinct (map le_id (st_ledgerEntries s))"
  shows "cm_logins m' \<le> Suc (cm_logins m) \<and> (case r of
      Inr s \<Rightarrow> (first = Inr s \<or> first = Inl StaleSocket \<and> second = Inr s) \<and> cm_career m' = st_newCareer s
        \<and> le_id ` set (st_ledgerEntries s) \<subseteq> le_id ` set (cm_ledger m') \<and> distinct (map le_id (cm_ledger m'))
    | Inl e \<Rightarrow> first = Inl e \<and> (e \<noteq> StaleSocket \<or> \<not> hasPlatform) \<and> m' = m
        \<or> first = Inl StaleSocket \<and> hasPlatform
          \<and> (isRemoteConnected m' \<and> second = Inl e
            \<or> \<not> isRemoteConnected m' \<and> cm_career m' = cm_career m \<and> cm_ledger m' = cm_ledger m))"
proof (cases first)
  case (Inr s)
  then have r: "r = Inr s" "m' = applyRemoteState env (st_newCareer s) (st_ledgerEntries s) m"
    using assms(1,2) by (auto simp: recordMatchResultRemote_def requireRemoteApi_def retry_once_def isRemoteConnected_def)
  have "distinct (map le_id (st_ledgerEntries s))" using assms(5) Inr by blast
  with applied_ids [OF assms(3) this] show ?thesis by (simp add: r Inr)
next
  case (Inl e)
  show ?thesis
  proof (cases "e = StaleSocket \<and> hasPlatform")
    case False
    then show ?thesis using assms(1,2) Inl
      by (auto simp: recordMatchResultRemote_def requireRemoteApi_def retry_once_def isRemoteConnected_def isStaleSocketError_def)
  next
    case True
    obtain c m1 where conn: "connect_manager env ans (m\<lparr>cm_remoteConnected := False\<rparr>) = (c, m1)" by fastforce
    note again = connect_cases [OF conn]
    have answer: "(r, m') = (case c of Inl e' \<Rightarrow> (Inl e', m1) | Inr _ \<Rightarrow> (case second of Inl e' \<Rightarrow> (Inl e', m1)
        | Inr s \<Rightarrow> (Inr s, applyRemoteState env (st_newCareer s) (st_ledgerEntries s) m1)))"
      using assms(1,2) Inl True conn
      by (auto simp: recordMatchResultRemote_def requireRemoteApi_def retry_once_def isRemoteConnected_def isStaleSocketError_def
          split: sum.splits)
    show ?thesis
    proof (cases "\<exists>c' s. c = Inr c' \<and> second = Inr s")
      case False
      then show ?thesis using answer again True Inl by (auto split: sum.splits)
    next
      case both: True
      then obtain c' s where s: "c = Inr c'" "second = Inr s" by blast
      have "distinct (map le_id (cm_ledger m1))" using again(3) [OF s(1)] assms(3,4) by (auto split: option.splits)
      moreover have "distinct (map le_id (st_ledgerEntries s))" using assms(5) s(2) by blast
      ultimately show ?thesis using applied_ids [of m1 "st_ledgerEntries s"] answer again(1) True Inl s by simp
    qed
  qed
qed

lemma settlement_applied_once_witness:
  "\<exists>m s m'. recordMatchResultRemote example_environment True \<lparr>ca_login = Inr example_career, ca_tutorial = False, ca_ledger = Some []\<rparr>
      (Inl StaleSocket) (Inr s) m = (Inr s, m') \<and> cm_career m' = st_newCareer s"
proof -
  let ?ans = "\<lparr>ca_login = Inr example_career, ca_tutorial = False, ca_ledger = Some []\<rparr>"
  define s where "s = settleMatch example_career Lost empty_stats ''m'' 0"
  obtain m0 where "new_manager example_environment ''p'' empty_storage = Some m0" using example_launch by blast
  define m where "m = m0\<lparr>cm_remoteConnected := True, cm_ledger := []\<rparr>"
  obtain m' where m': "recordMatchResultRemote example_environment True ?ans (Inl StaleSocket) (Inr s) m = (Inr s, m')"
    by (simp add: recordMatchResultRemote_def requireRemoteApi_def retry_once_def m_def isStaleSocketError_def connect_manager_def
        connect_finish_def performConnect_def Let_def case_prod_unfold)
  have "distinct (map le_id (st_ledgerEntries s))"
    by (simp add: s_def settleMatch_def settlement_entries_def Let_def)
  then have "cm_career m' = st_newCareer s"
    using settlement_applied_once [OF m'] by (simp add: m_def isRemoteConnected_def)
  with m' show ?thesis by blast
qed

end
