(* ===== verification/LiveClient.thy ===== *)
theory LiveClient
  imports TwoVTwoProtocol
begin

text \<open>
  \<open>apps/game/src/api/LiveMatchClient.ts\<close>: the client of live matches. It reacts to calls of the game, to what arrives
  on its sockets, to its timers and to the answers of its requests; each of these is one input of \<open>live_step\<close>. Calls
  to sockets, emitted events, thrown errors and settled promises are effects in the order the code makes them.
  Sockets, timers, requests, promises, queues and sessions are numbered; a session is an object in a store, so that
  a closure that holds an old session is told apart from the current one. Listeners do not call back.
\<close>

section \<open>Constants\<close>

definition LIVE_CONNECT_TIMEOUT_MS :: nat where "LIVE_CONNECT_TIMEOUT_MS = 15000"
definition QUEUE_2V2_TIMEOUT_MS :: nat where "QUEUE_2V2_TIMEOUT_MS = LIVE_CONNECT_TIMEOUT_MS"
definition QUEUE_2V2_MAX_RETRIES :: nat where "QUEUE_2V2_MAX_RETRIES = 3"
definition QUEUE_2V2_RETRY_DELAYS_MS :: "nat list" where "QUEUE_2V2_RETRY_DELAYS_MS = [5000, 10000, 20000]"
definition TWO_V_TWO_RECONNECT_WINDOW_MS :: nat where "TWO_V_TWO_RECONNECT_WINDOW_MS = 25000"
definition TWO_V_TWO_RECONNECT_FIRST_DELAY_MS :: nat where "TWO_V_TWO_RECONNECT_FIRST_DELAY_MS = 500"
definition TWO_V_TWO_RECONNECT_RETRY_DELAY_MS :: nat where "TWO_V_TWO_RECONNECT_RETRY_DELAY_MS = 2000"
definition TWO_V_TWO_RESYNC_TIMEOUT_MS :: nat where "TWO_V_TWO_RESYNC_TIMEOUT_MS = 5000"

definition TERMINAL_REJOIN_CODES :: "string list" where
  "TERMINAL_REJOIN_CODES = [''live_match_finished'', ''live_match_not_authorized'', ''live_match_full'', ''not_in_match'',
     ''match_join_failed'', ''slot_not_reconnectable'']"

text \<open>The operation codes of the socket.\<close>

definition OP_DISPATCH :: nat where "OP_DISPATCH = 1"
definition OP_MATCH_STARTED :: nat where "OP_MATCH_STARTED = 2"
definition OP_STATE :: nat where "OP_STATE = 3"
definition OP_COMMAND_ACCEPTED :: nat where "OP_COMMAND_ACCEPTED = 5"
definition OP_COMMAND_REJECTED :: nat where "OP_COMMAND_REJECTED = 6"
definition OP_MATCH_RESULT :: nat where "OP_MATCH_RESULT = 7"
definition OP_ERROR :: nat where "OP_ERROR = 8"
definition OP_MATCH_CLOSED :: nat where "OP_MATCH_CLOSED = 9"

section \<open>Error codes\<close>

text \<open>An error: its text, and the value of the text when it is JSON.\<close>

record live_error =
  er_raw :: string
  er_json :: "json option"

fun text_includes :: "string \<Rightarrow> string \<Rightarrow> bool" where
  "text_includes pat [] \<longleftrightarrow> pat = []"
| "text_includes pat (c # cs) \<longleftrightarrow> take (length pat) (c # cs) = pat \<or> text_includes pat cs"

definition KNOWN_ERROR_CODES :: "string list" where
  "KNOWN_ERROR_CODES = [''invite_not_found'', ''live_match_full'', ''live_match_invalid_code'', ''live_match_finished'',
     ''live_match_not_authorized'', ''live_connection_timeout'', ''missing_room_code'', ''two_v2_disabled'',
     ''queue_2v2_failed'', ''two_v2_session_in_progress'']"

text \<open>A property of a parsed value; values other than objects have none of the properties read here.\<close>

definition prop_of :: "json \<Rightarrow> string \<Rightarrow> json option" where
  "prop_of v k = (case v of JObject ps \<Rightarrow> obj_get ps k | _ \<Rightarrow> None)"

definition nonempty_prop :: "json option \<Rightarrow> string \<Rightarrow> string option" where
  "nonempty_prop v k = (case v of None \<Rightarrow> None | Some j \<Rightarrow> nonempty_string (prop_of j k))"

definition parseLiveErrorCode :: "live_error option \<Rightarrow> string \<Rightarrow> string" where
  "parseLiveErrorCode err fallback = (case err of
       None \<Rightarrow> fallback
     | Some e \<Rightarrow> (case nonempty_prop (er_json e) ''message'' of
           Some t \<Rightarrow> t
         | None \<Rightarrow> (case nonempty_prop (er_json e) ''error'' of
               Some t \<Rightarrow> t
             | None \<Rightarrow> (case List.find (\<lambda>code. text_includes code (er_raw e)) KNOWN_ERROR_CODES of
                   Some code \<Rightarrow> code
                 | None \<Rightarrow> if er_raw e \<noteq> [] then er_raw e else fallback))))"

section \<open>State\<close>

datatype live_mode = Queue | CreateInvite | JoinInvite | Queue2v2

datatype session_phase = Connecting | Active | Reconnecting | ReconnectFailed | Finished | Cancelled | Expired

record reconnect_state =
  rs_attempts :: nat
  rs_attemptTimer :: "nat option"
  rs_resyncTimer :: "nat option"
  rs_deadlineTimer :: "nat option"

record live_session =
  ls_phase :: session_phase
  ls_rawMatchId :: string
  ls_canonicalMatchId :: "string option"
  ls_slot :: "slot option"
  ls_teamId :: "team_id option"
  ls_roster :: "roster_entry list option"
  ls_nextSequence :: num
  ls_lastAppliedTick :: num
  ls_accepted :: "num set"
  ls_pending :: "num set"
  ls_socket :: nat
  ls_reconnect :: "reconnect_state option"

record queue_state =
  qs_id :: nat
  qs_attempt :: nat
  qs_ticket :: "string option"
  qs_queueTimer :: "nat option"
  qs_retryTimer :: "nat option"

text \<open>Timers and requests with what their callbacks hold: promises, timers, queues, sessions and sockets by number.\<close>

datatype live_timer =
    ConnectTimeout nat | QueueTimeout nat nat | QueueRetry nat nat
  | ReconnectDeadline | ReconnectAttempt | ResyncTimeout nat nat

datatype live_request =
    TicketRequest nat nat | CreateRequest nat nat | CreateJoin nat nat | InviteRequest string nat nat | InviteJoin nat nat
  | Ticket2v2Request nat nat | MatchedJoin2v2 string | MatchedJoin | RematchJoin
  | DispatchSent nat | ControlSent nat | OpenTransport nat | Rejoin nat nat

datatype live_answer =
    TicketAnswer string | InviteAnswer string string | FoundAnswer string | SocketAnswer nat | DoneAnswer
  | FailedAnswer "live_error option"

text \<open>Events of version 1 carry values of the server as they are; those of version 2 carry parsed payloads.\<close>

datatype live_event =
    QueueWaiting | InviteCreated string | InviteWaiting
  | Started json json json json "json option" | StateEvent "json option" | AcceptedEvent json | RejectedEvent json json
  | ResultEvent json | ErrorEvent json | ClosedEvent
  | Started2v2 match_started | State2v2 state_payload | Accepted2v2 command_accepted | Rejected2v2 command_rejected
  | Result2v2 match_result | RematchEvent string | ReconnectingEvent string nat
  | ReconnectedEvent string slot team_id num | ReconnectFailedEvent string string | ExpiredEvent string

datatype live_effect =
    Emit live_event
  | AddMatchmaker string nat nat bool
  | RemoveMatchmaker string
  | CallRpc string string
  | JoinMatch nat string string
  | LeaveMatch nat string
  | SendMatchState nat string nat string
  | CallTransport
  | Disconnect nat
  | Settled nat "string option"
  | Threw string
  | Returned num

record live_client =
  lv_matchId :: "string option"
  lv_matchmakerTicket :: "string option"
  lv_nextSequence :: num
  lv_closed :: bool
  lv_lastSettled :: "json option"
  lv_enable2v2 :: bool
  lv_transport :: bool
  lv_activeMode :: "live_mode option"
  lv_epoch :: nat
  lv_handlers :: "nat \<Rightarrow> nat option"
  lv_queue :: "queue_state option"
  lv_sessions :: "nat \<Rightarrow> live_session option"
  lv_v2 :: "nat option"
  lv_fresh :: nat
  lv_timers :: "(nat \<times> live_timer \<times> nat) list"
  lv_requests :: "(nat \<times> live_request) list"
  lv_promises :: "nat list"
  lv_out :: "live_effect list"

text \<open>The socket the client is made with has the number 0.\<close>

definition bindSocketHandlers :: "nat \<Rightarrow> live_client \<Rightarrow> live_client" where
  "bindSocketHandlers sock c = c\<lparr>lv_epoch := Suc (lv_epoch c), lv_handlers := (lv_handlers c)(sock \<mapsto> Suc (lv_epoch c))\<rparr>"

definition detachSocketHandlers :: "nat \<Rightarrow> live_client \<Rightarrow> live_client" where
  "detachSocketHandlers sock c = c\<lparr>lv_handlers := (lv_handlers c)(sock := None)\<rparr>"

definition new_live_client :: "bool \<Rightarrow> bool \<Rightarrow> live_client" where
  "new_live_client enable2v2 transport = bindSocketHandlers 0
     \<lparr>lv_matchId = None, lv_matchmakerTicket = None, lv_nextSequence = 0, lv_closed = False, lv_lastSettled = None,
      lv_enable2v2 = enable2v2, lv_transport = transport, lv_activeMode = None, lv_epoch = 0, lv_handlers = (\<lambda>_. None),
      lv_queue = None, lv_sessions = (\<lambda>_. None), lv_v2 = None, lv_fresh = 0, lv_timers = [], lv_requests = [],
      lv_promises = [], lv_out = []\<rparr>"

section \<open>Effects, timers and requests\<close>

definition effect :: "live_effect \<Rightarrow> live_client \<Rightarrow> live_client" where
  "effect e c = c\<lparr>lv_out := lv_out c @ [e]\<rparr>"

definition emit_event :: "live_event \<Rightarrow> live_client \<Rightarrow> live_client" where
  "emit_event e = effect (Emit e)"

definition truthy_text :: "string option \<Rightarrow> bool" where
  "truthy_text v \<longleftrightarrow> v \<noteq> None \<and> v \<noteq> Some []"

definition new_number :: "live_client \<Rightarrow> nat \<times> live_client" where
  "new_number c = (lv_fresh c, c\<lparr>lv_fresh := Suc (lv_fresh c)\<rparr>)"

definition set_timer :: "live_timer \<Rightarrow> nat \<Rightarrow> live_client \<Rightarrow> nat \<times> live_client" where
  "set_timer t delay c = (let (h, c') = new_number c in (h, c'\<lparr>lv_timers := lv_timers c' @ [(h, t, delay)]\<rparr>))"

definition clear_timer :: "nat option \<Rightarrow> live_client \<Rightarrow> live_client" where
  "clear_timer h c = (case h of None \<Rightarrow> c | Some n \<Rightarrow> c\<lparr>lv_timers := filter (\<lambda>(m, _). m \<noteq> n) (lv_timers c)\<rparr>)"

definition request :: "live_request \<Rightarrow> live_effect \<Rightarrow> live_client \<Rightarrow> live_client" where
  "request r e c = (let (h, c') = new_number (effect e c) in c'\<lparr>lv_requests := lv_requests c' @ [(h, r)]\<rparr>)"

text \<open>A promise settles once; later calls do nothing. Version 1 also clears its timeout.\<close>

definition settle :: "nat \<Rightarrow> string option \<Rightarrow> live_client \<Rightarrow> live_client" where
  "settle p err c = (if p \<in> set (lv_promises c)
     then effect (Settled p err) (c\<lparr>lv_promises := filter (\<lambda>q. q \<noteq> p) (lv_promises c)\<rparr>) else c)"

definition settle1 :: "nat \<Rightarrow> nat \<Rightarrow> string option \<Rightarrow> live_client \<Rightarrow> live_client" where
  "settle1 p timeout err c = settle p err (clear_timer (Some timeout) c)"

definition current :: "live_client \<Rightarrow> live_session option" where
  "current c = Option.bind (lv_v2 c) (lv_sessions c)"

definition put_session :: "nat \<Rightarrow> live_session \<Rightarrow> live_client \<Rightarrow> live_client" where
  "put_session i s c = c\<lparr>lv_sessions := (lv_sessions c)(i \<mapsto> s)\<rparr>"

definition change_current :: "(live_session \<Rightarrow> live_session) \<Rightarrow> live_client \<Rightarrow> live_client" where
  "change_current f c = (case (lv_v2 c, current c) of (Some i, Some s) \<Rightarrow> put_session i (f s) c | _ \<Rightarrow> c)"

definition connecting_session :: "string \<Rightarrow> nat \<Rightarrow> live_session" where
  "connecting_session rawMatchId sock = \<lparr>ls_phase = Connecting, ls_rawMatchId = rawMatchId, ls_canonicalMatchId = None,
     ls_slot = None, ls_teamId = None, ls_roster = None, ls_nextSequence = 0, ls_lastAppliedTick = -1, ls_accepted = {},
     ls_pending = {}, ls_socket = sock, ls_reconnect = None\<rparr>"

definition new_session :: "string \<Rightarrow> nat \<Rightarrow> live_client \<Rightarrow> live_client" where
  "new_session rawMatchId sock c =
     (let (i, c') = new_number c in put_session i (connecting_session rawMatchId sock) (c'\<lparr>lv_v2 := Some i\<rparr>))"

section \<open>Reconnecting a 2v2 session\<close>

definition reconnecting_session :: "live_client \<Rightarrow> (live_session \<times> reconnect_state) option" where
  "reconnecting_session c = (case current c of
       Some s \<Rightarrow> if ls_phase s = Reconnecting then map_option (\<lambda>r. (s, r)) (ls_reconnect s) else None
     | None \<Rightarrow> None)"

definition change_reconnect :: "(reconnect_state \<Rightarrow> reconnect_state) \<Rightarrow> live_client \<Rightarrow> live_client" where
  "change_reconnect f = change_current (\<lambda>s. s\<lparr>ls_reconnect := map_option f (ls_reconnect s)\<rparr>)"

definition canonical_text :: "live_session \<Rightarrow> string" where
  "canonical_text s = (case ls_canonicalMatchId s of Some t \<Rightarrow> t | None \<Rightarrow> [])"

definition scheduleReconnectAttempt :: "nat \<Rightarrow> live_client \<Rightarrow> live_client" where
  "scheduleReconnectAttempt delay c =
     (if reconnecting_session c = None then c
      else let (h, c') = set_timer ReconnectAttempt delay c in change_reconnect (\<lambda>r. r\<lparr>rs_attemptTimer := Some h\<rparr>) c')"

definition teardownReconnectTimers :: "live_client \<Rightarrow> live_client" where
  "teardownReconnectTimers c = (case Option.bind (current c) ls_reconnect of
       None \<Rightarrow> c
     | Some r \<Rightarrow> change_reconnect (\<lambda>r. r\<lparr>rs_attemptTimer := None, rs_resyncTimer := None, rs_deadlineTimer := None\<rparr>)
         (clear_timer (rs_deadlineTimer r) (clear_timer (rs_resyncTimer r) (clear_timer (rs_attemptTimer r) c))))"

definition finishReconnect :: "string \<Rightarrow> live_client \<Rightarrow> live_client" where
  "finishReconnect code c = (case current c of
       None \<Rightarrow> c
     | Some s \<Rightarrow> if ls_phase s \<noteq> Reconnecting then c
         else emit_event (ReconnectFailedEvent (canonical_text s) code)
           (change_current (\<lambda>s. s\<lparr>ls_reconnect := None, ls_phase := ReconnectFailed\<rparr>) (teardownReconnectTimers c)))"

definition beginReconnect :: "live_client \<Rightarrow> live_client" where
  "beginReconnect c = (case current c of
       None \<Rightarrow> c
     | Some s \<Rightarrow> if ls_phase s \<noteq> Active \<or> lv_closed c then c
         else
           let c1 = change_current (\<lambda>s. s\<lparr>ls_phase := Reconnecting, ls_reconnect := Some \<lparr>rs_attempts = 0,
                 rs_attemptTimer = None, rs_resyncTimer = None, rs_deadlineTimer = None\<rparr>\<rparr>) c;
               c2 = emit_event (ReconnectingEvent (canonical_text s) 0) c1;
               (h, c3) = set_timer ReconnectDeadline TWO_V_TWO_RECONNECT_WINDOW_MS c2
           in scheduleReconnectAttempt TWO_V_TWO_RECONNECT_FIRST_DELAY_MS
                (change_reconnect (\<lambda>r. r\<lparr>rs_deadlineTimer := Some h\<rparr>) c3))"

definition scheduleNextReconnectAttempt :: "live_client \<Rightarrow> live_client" where
  "scheduleNextReconnectAttempt c = (case reconnecting_session c of
       None \<Rightarrow> c
     | Some (s, r) \<Rightarrow> scheduleReconnectAttempt TWO_V_TWO_RECONNECT_RETRY_DELAY_MS
         (emit_event (ReconnectingEvent (canonical_text s) (Suc (rs_attempts r)))
           (change_reconnect (\<lambda>r. r\<lparr>rs_attempts := Suc (rs_attempts r)\<rparr>) c)))"

text \<open>The timer of an attempt fires.\<close>

definition attemptReconnect :: "live_client \<Rightarrow> live_client" where
  "attemptReconnect c = (case (lv_v2 c, reconnecting_session c) of
       (Some i, Some _) \<Rightarrow>
         if \<not> lv_transport c then finishReconnect ''reconnect_unavailable'' c else request (OpenTransport i) CallTransport c
     | _ \<Rightarrow> c)"

definition drop_socket :: "nat \<Rightarrow> live_client \<Rightarrow> live_client" where
  "drop_socket sock c = effect (Disconnect sock) (detachSocketHandlers sock c)"

definition still_reconnecting :: "nat \<Rightarrow> live_client \<Rightarrow> bool" where
  "still_reconnecting i c \<longleftrightarrow> lv_v2 c = Some i \<and> (case current c of Some s \<Rightarrow> ls_phase s = Reconnecting | None \<Rightarrow> False)"

text \<open>The \<open>catch\<close> of an attempt, once a socket that was opened has been dropped.\<close>

definition attempt_failed :: "nat \<Rightarrow> live_error option \<Rightarrow> live_client \<Rightarrow> live_client" where
  "attempt_failed i err c =
     (if \<not> still_reconnecting i c then c
      else let code = parseLiveErrorCode err ''match_join_failed''
        in if code \<in> set TERMINAL_REJOIN_CODES then finishReconnect code c else scheduleNextReconnectAttempt c)"

text \<open>The new socket is there: it replaces the old one, unless the session is no longer the one that asked.\<close>

definition transport_opened :: "nat \<Rightarrow> nat \<Rightarrow> live_client \<Rightarrow> live_client" where
  "transport_opened i sock c =
     (if \<not> still_reconnecting i c \<or> lv_closed c then drop_socket sock c
      else case current c of
        None \<Rightarrow> c
      | Some s \<Rightarrow> request (Rejoin i sock) (JoinMatch sock (ls_rawMatchId s) [])
          (bindSocketHandlers sock (change_current (\<lambda>s. s\<lparr>ls_socket := sock\<rparr>) (detachSocketHandlers (ls_socket s) c))))"

text \<open>
  The join on the new socket succeeded. The next statement writes to \<open>session.reconnect\<close> without a test; when that is
  \<open>null\<close> by now the error is caught and the socket dropped.
\<close>

definition rejoined :: "nat \<Rightarrow> nat \<Rightarrow> live_client \<Rightarrow> live_client" where
  "rejoined i sock c = (case lv_sessions c i of
       None \<Rightarrow> c
     | Some s \<Rightarrow> (case ls_reconnect s of
           None \<Rightarrow> attempt_failed i None (drop_socket sock c)
         | Some r \<Rightarrow>
             let (h, c') = set_timer (ResyncTimeout i sock) TWO_V_TWO_RESYNC_TIMEOUT_MS c
             in put_session i (s\<lparr>ls_reconnect := Some (r\<lparr>rs_resyncTimer := Some h\<rparr>)\<rparr>) c'))"

definition resync_timeout :: "nat \<Rightarrow> nat \<Rightarrow> live_client \<Rightarrow> live_client" where
  "resync_timeout i sock c =
     (if \<not> still_reconnecting i c then c
      else scheduleNextReconnectAttempt
        (if map_option ls_socket (current c) = Some sock then drop_socket sock c else c))"

section \<open>The 2v2 queue\<close>

definition change_queue :: "(queue_state \<Rightarrow> queue_state) \<Rightarrow> live_client \<Rightarrow> live_client" where
  "change_queue f c = c\<lparr>lv_queue := map_option f (lv_queue c)\<rparr>"

definition is_queue :: "nat \<Rightarrow> live_client \<Rightarrow> bool" where
  "is_queue q c \<longleftrightarrow> map_option qs_id (lv_queue c) = Some q"

definition removeTicket :: "queue_state \<Rightarrow> live_client \<Rightarrow> live_client" where
  "removeTicket q c = (case qs_ticket q of Some t \<Rightarrow> if t = [] then c else effect (RemoveMatchmaker t) c | None \<Rightarrow> c)"

definition teardownQueue :: "live_client \<Rightarrow> live_client" where
  "teardownQueue c = (case lv_queue c of
       None \<Rightarrow> c
     | Some q \<Rightarrow> removeTicket q (clear_timer (qs_retryTimer q) (clear_timer (qs_queueTimer q) (c\<lparr>lv_queue := None\<rparr>))))"

definition submitTicket :: "nat \<Rightarrow> live_client \<Rightarrow> live_client" where
  "submitTicket p c = (case lv_queue c of
       None \<Rightarrow> c
     | Some q \<Rightarrow> if lv_closed c then c else request (Ticket2v2Request (qs_id q) p) (AddMatchmaker ''*'' 4 4 True) c)"

definition scheduleRetry :: "nat \<Rightarrow> live_client \<Rightarrow> live_client" where
  "scheduleRetry p c = (case lv_queue c of
       None \<Rightarrow> c
     | Some q \<Rightarrow>
         if lv_closed c then c
         else if QUEUE_2V2_MAX_RETRIES \<le> qs_attempt q then
           settle p (Some ''queue_2v2_failed'') (emit_event (ErrorEvent (JString ''queue_2v2_failed'')) (teardownQueue c))
         else
           let (h, c') = set_timer (QueueRetry (qs_id q) p) (QUEUE_2V2_RETRY_DELAYS_MS ! qs_attempt q) c
           in change_queue (\<lambda>q. q\<lparr>qs_attempt := Suc (qs_attempt q), qs_retryTimer := Some h\<rparr>) c')"

definition ticket_arrived :: "nat \<Rightarrow> nat \<Rightarrow> string \<Rightarrow> live_client \<Rightarrow> live_client" where
  "ticket_arrived q p ticket c =
     (if \<not> is_queue q c \<or> lv_closed c then c
      else
        let c1 = emit_event QueueWaiting (change_queue (\<lambda>s. s\<lparr>qs_ticket := Some ticket\<rparr>) c);
            (h, c2) = set_timer (QueueTimeout q p) QUEUE_2V2_TIMEOUT_MS c1
        in settle p None (change_queue (\<lambda>s. s\<lparr>qs_queueTimer := Some h\<rparr>) c2))"

definition ticket_refused :: "nat \<Rightarrow> nat \<Rightarrow> live_client \<Rightarrow> live_client" where
  "ticket_refused q p c = (if \<not> is_queue q c \<or> lv_closed c then c else scheduleRetry p c)"

definition queue_timeout :: "nat \<Rightarrow> nat \<Rightarrow> live_client \<Rightarrow> live_client" where
  "queue_timeout q p c = (case lv_queue c of
       None \<Rightarrow> c
     | Some s \<Rightarrow> if qs_id s \<noteq> q then c
         else scheduleRetry p (change_queue (\<lambda>s. s\<lparr>qs_ticket := None, qs_queueTimer := None\<rparr>) (removeTicket s c)))"

definition queue_retry :: "nat \<Rightarrow> nat \<Rightarrow> live_client \<Rightarrow> live_client" where
  "queue_retry q p c =
     (if \<not> is_queue q c \<or> lv_closed c then c else submitTicket p (change_queue (\<lambda>s. s\<lparr>qs_retryTimer := None\<rparr>) c))"

definition connectQueue2v2 :: "nat \<Rightarrow> live_client \<Rightarrow> live_client" where
  "connectQueue2v2 p c =
     (if \<not> lv_enable2v2 c then settle p (Some ''two_v2_disabled'') c
      else if lv_queue c \<noteq> None \<or> lv_v2 c \<noteq> None \<or> truthy_text (lv_matchmakerTicket c) \<or> truthy_text (lv_matchId c) then
        settle p (Some ''two_v2_session_in_progress'') c
      else
        let (q, c1) = new_number (c\<lparr>lv_activeMode := Some Queue2v2\<rparr>)
        in submitTicket p (c1\<lparr>lv_queue := Some \<lparr>qs_id = q, qs_attempt = 0, qs_ticket = None, qs_queueTimer = None,
             qs_retryTimer = None\<rparr>\<rparr>))"

section \<open>Calls of the game\<close>

definition connect_live :: "live_mode \<Rightarrow> string option \<Rightarrow> live_client \<Rightarrow> live_client" where
  "connect_live mode roomCode c =
     (let (p, c0) = new_number (c\<lparr>lv_closed := False, lv_nextSequence := 0\<rparr>);
          c1 = c0\<lparr>lv_promises := lv_promises c0 @ [p]\<rparr>
      in if mode = Queue2v2 then connectQueue2v2 p c1
         else if lv_queue c1 \<noteq> None \<or> lv_v2 c1 \<noteq> None \<or> lv_activeMode c1 = Some Queue2v2 then
           settle p (Some ''two_v2_session_in_progress'') c1
         else
           let (h, c2) = set_timer (ConnectTimeout p) LIVE_CONNECT_TIMEOUT_MS c1
           in case mode of
               CreateInvite \<Rightarrow> request (CreateRequest p h) (CallRpc ''pvp/create_invite'' []) c2
             | JoinInvite \<Rightarrow> (case roomCode of
                   Some code \<Rightarrow>
                     if code = [] then settle1 p h (Some ''missing_room_code'') c2
                     else request (InviteRequest code p h)
                       (CallRpc ''pvp/join_invite'' (stringify (JObject [(''inviteCode'', JString code)]))) c2
                 | None \<Rightarrow> settle1 p h (Some ''missing_room_code'') c2)
             | _ \<Rightarrow> request (TicketRequest p h) (AddMatchmaker [] 2 2 False) c2)"

definition sendTwoVTwoDispatch :: "string \<Rightarrow> string \<Rightarrow> live_client \<Rightarrow> live_client" where
  "sendTwoVTwoDispatch sourceId targetId c = (case (lv_v2 c, current c) of
       (Some i, Some s) \<Rightarrow>
         if ls_phase s \<noteq> Active then effect (Threw ''two_v2_not_active'') c
         else
           let sequence = ls_nextSequence s;
               c1 = change_current (\<lambda>s. s\<lparr>ls_nextSequence := jadd sequence 1, ls_pending := insert sequence (ls_pending s)\<rparr>) c
           in effect (Returned sequence) (request (DispatchSent i)
                (SendMatchState (ls_socket s) (ls_rawMatchId s) OP_DISPATCH
                  (createTwoVTwoDispatchMessage (Finite sequence) sourceId targetId)) c1)
     | _ \<Rightarrow> effect (Threw ''two_v2_not_active'') c)"

definition sendDispatch :: "string \<Rightarrow> string \<Rightarrow> live_client \<Rightarrow> live_client" where
  "sendDispatch sourceId targetId c =
     (if lv_v2 c \<noteq> None then sendTwoVTwoDispatch sourceId targetId c
      else case lv_matchId c of
        Some matchId \<Rightarrow>
          if matchId = [] then effect (Threw ''live_connection_not_open'') c
          else
            let sequence = lv_nextSequence c
            in effect (Returned sequence) (effect (SendMatchState 0 matchId OP_DISPATCH
                 (stringify (JObject [(''type'', JString ''dispatch''), (''sequence'', jnum sequence),
                    (''sourceId'', JString sourceId), (''targetId'', JString targetId)])))
                 (c\<lparr>lv_nextSequence := jadd sequence 1\<rparr>))
      | None \<Rightarrow> effect (Threw ''live_connection_not_open'') c)"

definition sendTwoVTwoControl :: "string \<Rightarrow> session_phase list \<Rightarrow> live_client \<Rightarrow> live_client" where
  "sendTwoVTwoControl message phases c = (case (lv_v2 c, current c) of
       (Some i, Some s) \<Rightarrow>
         if ls_phase s \<notin> set phases then effect (Threw ''two_v2_not_active'') c
         else request (ControlSent i) (SendMatchState (ls_socket s) (ls_rawMatchId s) OP_DISPATCH message) c
     | _ \<Rightarrow> effect (Threw ''two_v2_not_active'') c)"

definition sendReady :: "live_client \<Rightarrow> live_client" where
  "sendReady = sendTwoVTwoControl createTwoVTwoReadyMessage [Connecting, Active]"

definition sendSurrender :: "live_client \<Rightarrow> live_client" where
  "sendSurrender = sendTwoVTwoControl createTwoVTwoSurrenderMessage [Connecting, Active]"

definition sendRematchVote :: "live_client \<Rightarrow> live_client" where
  "sendRematchVote = sendTwoVTwoControl createTwoVTwoRematchVoteMessage [Finished]"

text \<open>Every handler of an earlier epoch is inert, and the sockets at hand lose theirs.\<close>

definition detachCurrentSocketHandlers :: "live_client \<Rightarrow> live_client" where
  "detachCurrentSocketHandlers c =
     (let c1 = detachSocketHandlers 0 (c\<lparr>lv_epoch := Suc (lv_epoch c)\<rparr>)
      in case current c1 of Some s \<Rightarrow> detachSocketHandlers (ls_socket s) c1 | None \<Rightarrow> c1)"

definition close_live :: "live_client \<Rightarrow> live_client" where
  "close_live c =
     (let c1 = teardownReconnectTimers (teardownQueue (c\<lparr>lv_closed := True\<rparr>));
          c2 = (if truthy_text (lv_matchId c1) then (effect (LeaveMatch 0 (the (lv_matchId c1))) c1)\<lparr>lv_matchId := None\<rparr>
                else case current c of
                  Some s \<Rightarrow> if ls_rawMatchId s \<noteq> [] then effect (LeaveMatch (ls_socket s) (ls_rawMatchId s)) c1 else c1
                | None \<Rightarrow> c1);
          c3 = (if truthy_text (lv_matchmakerTicket c2)
                then (effect (RemoveMatchmaker (the (lv_matchmakerTicket c2))) c2)\<lparr>lv_matchmakerTicket := None\<rparr> else c2)
      in (detachCurrentSocketHandlers c3)\<lparr>lv_v2 := None, lv_activeMode := None\<rparr>)"

section \<open>Messages of version 2\<close>

definition adoptSession :: "match_started \<Rightarrow> live_session \<Rightarrow> live_session" where
  "adoptSession m s = s\<lparr>ls_canonicalMatchId := Some (sm_matchId m), ls_slot := Some (sm_slot m), ls_teamId := Some (sm_teamId m),
     ls_roster := Some (sm_players m), ls_nextSequence := sm_nextSequence m, ls_lastAppliedTick := -1, ls_pending := {}\<rparr>"

definition handleMatchStarted2v2 :: "match_started \<Rightarrow> live_client \<Rightarrow> live_client" where
  "handleMatchStarted2v2 m c = (case current c of
       None \<Rightarrow> c
     | Some s \<Rightarrow>
         if ls_phase s = Reconnecting then
           if ls_canonicalMatchId s \<noteq> Some (sm_matchId m) \<or> ls_slot s \<noteq> Some (sm_slot m) \<or> ls_teamId s \<noteq> Some (sm_teamId m)
           then c
           else
             emit_event (ReconnectedEvent (sm_matchId m) (sm_slot m) (sm_teamId m) (sm_nextSequence m))
              (emit_event (Started2v2 m)
               (change_current (\<lambda>s. s\<lparr>ls_reconnect := None, ls_phase := Active\<rparr>)
                (teardownReconnectTimers (change_current (adoptSession m) c))))
         else if ls_phase s = Connecting then
           emit_event (Started2v2 m) (change_current (\<lambda>s. (adoptSession m s)\<lparr>ls_phase := Active\<rparr>) c)
         else c)"

definition beginRematch :: "string \<Rightarrow> live_client \<Rightarrow> live_client" where
  "beginRematch rawMatchId c = (case current c of
       None \<Rightarrow> c
     | Some s \<Rightarrow> if ls_phase s = ReconnectFailed then c
         else request RematchJoin (JoinMatch (ls_socket s) rawMatchId []) (new_session rawMatchId (ls_socket s) c))"

definition expectedOpcode :: "server_message \<Rightarrow> nat" where
  "expectedOpcode msg = (case msg of
       MatchStarted _ \<Rightarrow> OP_MATCH_STARTED
     | StateMessage _ \<Rightarrow> OP_STATE
     | CommandAccepted _ \<Rightarrow> OP_COMMAND_ACCEPTED
     | CommandRejected _ \<Rightarrow> OP_COMMAND_REJECTED
     | MatchResult _ \<Rightarrow> OP_MATCH_RESULT
     | RematchStarted _ \<Rightarrow> OP_MATCH_STARTED
     | MatchClosed _ \<Rightarrow> OP_MATCH_CLOSED
     | ErrorMessage _ \<Rightarrow> OP_ERROR)"

text \<open>The handler of each kind of message, for the session there is.\<close>

definition on_state :: "state_payload \<Rightarrow> live_session \<Rightarrow> live_client \<Rightarrow> live_client" where
  "on_state p s c = (if sp_tick p \<le> ls_lastAppliedTick s then c
     else emit_event (State2v2 p) (change_current (\<lambda>s. s\<lparr>ls_lastAppliedTick := sp_tick p\<rparr>) c))"

definition on_accepted :: "command_accepted \<Rightarrow> live_session \<Rightarrow> live_client \<Rightarrow> live_client" where
  "on_accepted p s c =
     (if ls_slot s \<noteq> Some (ca_slot p) \<or> ca_sequence p \<notin> ls_pending s then c
      else emit_event (Accepted2v2 p) (change_current (\<lambda>s. s\<lparr>ls_pending := ls_pending s - {ca_sequence p},
        ls_accepted := insert (ca_sequence p) (ls_accepted s)\<rparr>) c))"

definition on_rejected :: "command_rejected \<Rightarrow> live_client \<Rightarrow> live_client" where
  "on_rejected p c =
     emit_event (Rejected2v2 p) (change_current (\<lambda>s. s\<lparr>ls_pending := ls_pending s - {cr_sequence p}\<rparr>) c)"

definition on_result :: "match_result \<Rightarrow> live_session \<Rightarrow> live_client \<Rightarrow> live_client" where
  "on_result p s c =
     (if ls_canonicalMatchId s \<noteq> Some (mr_matchId p) \<or> lv_lastSettled c = Some (JString (mr_matchId p)) then c
      else emit_event (Result2v2 p)
        (change_current (\<lambda>s. s\<lparr>ls_phase := (if mr_cancelled p then Cancelled else Finished)\<rparr>)
          (c\<lparr>lv_lastSettled := Some (JString (mr_matchId p))\<rparr>)))"

definition on_closed :: "string \<Rightarrow> live_session \<Rightarrow> live_client \<Rightarrow> live_client" where
  "on_closed matchId s c =
     (if ls_phase s \<noteq> Finished \<or> ls_canonicalMatchId s \<noteq> Some matchId then c
      else emit_event (ExpiredEvent matchId) (change_current (\<lambda>s. s\<lparr>ls_phase := Expired\<rparr>) c))"

definition handle_message :: "server_message \<Rightarrow> live_client \<Rightarrow> live_client" where
  "handle_message msg c = (case msg of
       MatchStarted m \<Rightarrow> handleMatchStarted2v2 m c
     | ErrorMessage code \<Rightarrow> emit_event (ErrorEvent (JString code)) c
     | _ \<Rightarrow> (case current c of
           None \<Rightarrow> c
         | Some s \<Rightarrow> (case msg of
               StateMessage p \<Rightarrow> on_state p s c
             | CommandAccepted p \<Rightarrow> on_accepted p s c
             | CommandRejected p \<Rightarrow> on_rejected p c
             | MatchResult p \<Rightarrow> on_result p s c
             | RematchStarted matchId \<Rightarrow>
                 if ls_phase s \<noteq> Finished then c else emit_event (RematchEvent matchId) (beginRematch matchId c)
             | MatchClosed matchId \<Rightarrow> on_closed matchId s c
             | _ \<Rightarrow> c)))"

definition handleTwoVTwoPayload :: "nat \<Rightarrow> json \<Rightarrow> live_client \<Rightarrow> live_client" where
  "handleTwoVTwoPayload opCode envelope c = (case parseTwoVTwoServerMessage (Some envelope) of
       None \<Rightarrow> c
     | Some msg \<Rightarrow> if opCode \<noteq> expectedOpcode msg then c else handle_message msg c)"

section \<open>Messages of version 1\<close>

text \<open>\<open>v || fallback\<close>, and \<open>===\<close> on parsed values, of which objects and arrays are never the same.\<close>

definition falsy :: "json option \<Rightarrow> bool" where
  "falsy v \<longleftrightarrow> v \<in> {None, Some JNull, Some (JBool False), Some (JNumber (Finite 0)), Some (JNumber NaN), Some (JString [])}"

definition json_or :: "json option \<Rightarrow> json \<Rightarrow> json" where
  "json_or v fallback = (if falsy v then fallback else the v)"

fun same_value :: "json option \<Rightarrow> json option \<Rightarrow> bool" where
  "same_value (Some (JString a)) (Some (JString b)) \<longleftrightarrow> a = b"
| "same_value (Some (JNumber a)) (Some (JNumber b)) \<longleftrightarrow> a = b \<and> a \<noteq> NaN"
| "same_value (Some (JBool a)) (Some (JBool b)) \<longleftrightarrow> a = b"
| "same_value _ _ \<longleftrightarrow> False"

definition on_result1 :: "json option \<Rightarrow> live_client \<Rightarrow> live_client" where
  "on_result1 v c =
     (if falsy v then c
      else let matchId = prop_of (the v) ''matchId''
        in if falsy matchId \<or> same_value (lv_lastSettled c) matchId then c
           else emit_event (ResultEvent (the v)) (c\<lparr>lv_lastSettled := matchId\<rparr>))"

text \<open>\<open>null\<close> has no properties: reading one throws, and the message has no effect.\<close>

definition handle_legacy :: "nat \<Rightarrow> json \<Rightarrow> live_client \<Rightarrow> live_client" where
  "handle_legacy opCode payload c =
     (if payload = JNull then c
      else if opCode = OP_MATCH_STARTED then
        emit_event (Started (json_or (prop_of payload ''matchId'') (JString []))
          (json_or (prop_of payload ''role'') (JString ''player''))
          (json_or (prop_of payload ''playerName'') (JString ''Commander''))
          (json_or (prop_of payload ''opponentName'') (JString ''Opponent'')) (prop_of payload ''state'')) c
      else if opCode = OP_STATE then emit_event (StateEvent (prop_of payload ''state'')) c
      else if opCode = OP_COMMAND_ACCEPTED then emit_event (AcceptedEvent (json_or (prop_of payload ''sequence'') (jnum 0))) c
      else if opCode = OP_COMMAND_REJECTED then
        emit_event (RejectedEvent (json_or (prop_of payload ''sequence'') (jnum 0))
          (json_or (prop_of payload ''code'') (JString ''command_rejected''))) c
      else if opCode = OP_MATCH_RESULT then on_result1 (prop_of payload ''result'') c
      else if opCode = OP_ERROR then emit_event (ErrorEvent (json_or (prop_of payload ''code'') (JString ''live_error''))) c
      else c)"

text \<open>\<open>handleMatchData\<close>; data that is not JSON is dropped.\<close>

definition handleMatchData :: "nat \<Rightarrow> json option \<Rightarrow> live_client \<Rightarrow> live_client" where
  "handleMatchData opCode data c = (case data of
       None \<Rightarrow> c
     | Some payload \<Rightarrow>
         if prop_of payload ''schemaVersion'' = Some (jnum 2) then handleTwoVTwoPayload opCode payload c
         else if lv_v2 c \<noteq> None then c
         else handle_legacy opCode payload c)"

section \<open>The matchmaker\<close>

definition handleMatchmakerMatched :: "string \<Rightarrow> string \<Rightarrow> live_client \<Rightarrow> live_client" where
  "handleMatchmakerMatched matchId token c =
     (if lv_activeMode c = Some Queue2v2 then
        let c1 = (case lv_queue c of
              None \<Rightarrow> c
            | Some q \<Rightarrow> (clear_timer (qs_retryTimer q) (clear_timer (qs_queueTimer q) c))\<lparr>lv_queue := None\<rparr>)
        in request (MatchedJoin2v2 matchId) (JoinMatch 0 matchId token) (new_session matchId 0 c1)
      else request MatchedJoin (JoinMatch 0 matchId token) (c\<lparr>lv_matchId := Some matchId\<rparr>))"

definition join_failed :: "live_client \<Rightarrow> live_client" where
  "join_failed = emit_event (ErrorEvent (JString ''match_join_failed''))"

definition matched_joined :: "string \<Rightarrow> live_client \<Rightarrow> live_client" where
  "matched_joined matchId c = (case current c of
       Some s \<Rightarrow> if ls_rawMatchId s = matchId \<and> ls_phase s = Connecting then sendReady c else c
     | None \<Rightarrow> c)"

definition socket_lost :: "live_client \<Rightarrow> live_client" where
  "socket_lost c =
     (if lv_closed c then c
      else case current c of
        Some s \<Rightarrow> if ls_phase s = Active then beginReconnect c else emit_event ClosedEvent c
      | None \<Rightarrow> emit_event ClosedEvent c)"

section \<open>Answers and timers\<close>

definition timer_fired :: "live_timer \<Rightarrow> live_client \<Rightarrow> live_client" where
  "timer_fired t c = (case t of
       ConnectTimeout p \<Rightarrow> settle p (Some ''live_connection_timeout'') c
     | QueueTimeout q p \<Rightarrow> queue_timeout q p c
     | QueueRetry q p \<Rightarrow> queue_retry q p c
     | ReconnectDeadline \<Rightarrow> finishReconnect ''reconnect_window_expired'' c
     | ReconnectAttempt \<Rightarrow> attemptReconnect c
     | ResyncTimeout i sock \<Rightarrow> resync_timeout i sock c)"

text \<open>What the request resolves or rejects with; an answer of another kind cannot come.\<close>

definition refused :: "nat \<Rightarrow> nat \<Rightarrow> live_error option \<Rightarrow> string \<Rightarrow> live_client \<Rightarrow> live_client" where
  "refused p h err fallback = settle1 p h (Some (parseLiveErrorCode err fallback))"

definition answered :: "live_request \<Rightarrow> live_answer \<Rightarrow> live_client \<Rightarrow> live_client" where
  "answered r a c = (case (r, a) of
       (TicketRequest p h, TicketAnswer t) \<Rightarrow> settle1 p h None (emit_event QueueWaiting (c\<lparr>lv_matchmakerTicket := Some t\<rparr>))
     | (TicketRequest p h, FailedAnswer e) \<Rightarrow> refused p h e ''matchmaker_failed'' c
     | (CreateRequest p h, InviteAnswer matchId code) \<Rightarrow>
         request (CreateJoin p h) (JoinMatch 0 matchId code) (emit_event (InviteCreated code) (c\<lparr>lv_matchId := Some matchId\<rparr>))
     | (CreateRequest p h, FailedAnswer e) \<Rightarrow> refused p h e ''invite_create_failed'' c
     | (CreateJoin p h, DoneAnswer) \<Rightarrow> settle1 p h None (emit_event InviteWaiting c)
     | (CreateJoin p h, FailedAnswer e) \<Rightarrow> refused p h e ''invite_create_failed'' c
     | (InviteRequest code p h, FoundAnswer matchId) \<Rightarrow>
         request (InviteJoin p h) (JoinMatch 0 matchId code) (c\<lparr>lv_matchId := Some matchId\<rparr>)
     | (InviteRequest code p h, FailedAnswer e) \<Rightarrow> refused p h e ''invite_join_failed'' c
     | (InviteJoin p h, DoneAnswer) \<Rightarrow> settle1 p h None c
     | (InviteJoin p h, FailedAnswer e) \<Rightarrow> refused p h e ''invite_join_failed'' c
     | (Ticket2v2Request q p, TicketAnswer t) \<Rightarrow> ticket_arrived q p t c
     | (Ticket2v2Request q p, FailedAnswer e) \<Rightarrow> ticket_refused q p c
     | (MatchedJoin2v2 matchId, DoneAnswer) \<Rightarrow> matched_joined matchId c
     | (MatchedJoin2v2 matchId, FailedAnswer e) \<Rightarrow> join_failed c
     | (MatchedJoin, FailedAnswer e) \<Rightarrow> join_failed c
     | (RematchJoin, FailedAnswer e) \<Rightarrow> join_failed c
     | (DispatchSent i, FailedAnswer e) \<Rightarrow> if lv_v2 c = Some i then beginReconnect c else c
     | (ControlSent i, FailedAnswer e) \<Rightarrow>
         if lv_v2 c = Some i \<and> map_option ls_phase (current c) = Some Active then beginReconnect c else c
     | (OpenTransport i, SocketAnswer sock) \<Rightarrow> transport_opened i sock c
     | (OpenTransport i, FailedAnswer e) \<Rightarrow> attempt_failed i e c
     | (Rejoin i sock, DoneAnswer) \<Rightarrow> rejoined i sock c
     | (Rejoin i sock, FailedAnswer e) \<Rightarrow> attempt_failed i e (drop_socket sock c)
     | _ \<Rightarrow> c)"

section \<open>Steps\<close>

datatype live_input =
    CallConnect live_mode "string option" | CallDispatch string string | CallReady | CallSurrender | CallRematchVote | CallClose
  | MatchDataIn nat nat "json option" | MatchedIn nat string string | SocketLost nat | TimerIn nat | AnswerIn nat live_answer

text \<open>A socket event reaches the client while its handlers are bound and of the current epoch.\<close>

definition listening :: "nat \<Rightarrow> live_client \<Rightarrow> bool" where
  "listening sock c \<longleftrightarrow> lv_handlers c sock = Some (lv_epoch c)"

definition live_step :: "live_input \<Rightarrow> live_client \<Rightarrow> live_client" where
  "live_step inp c = (case inp of
       CallConnect mode roomCode \<Rightarrow> connect_live mode roomCode c
     | CallDispatch sourceId targetId \<Rightarrow> sendDispatch sourceId targetId c
     | CallReady \<Rightarrow> sendReady c
     | CallSurrender \<Rightarrow> sendSurrender c
     | CallRematchVote \<Rightarrow> sendRematchVote c
     | CallClose \<Rightarrow> close_live c
     | MatchDataIn sock opCode data \<Rightarrow> if listening sock c then handleMatchData opCode data c else c
     | MatchedIn sock matchId token \<Rightarrow> if listening sock c then handleMatchmakerMatched matchId token c else c
     | SocketLost sock \<Rightarrow> if listening sock c then socket_lost c else c
     | TimerIn h \<Rightarrow> (case map_of (lv_timers c) h of
           Some (t, _) \<Rightarrow> timer_fired t (clear_timer (Some h) c)
         | None \<Rightarrow> c)
     | AnswerIn h a \<Rightarrow> (case map_of (lv_requests c) h of
           Some r \<Rightarrow> answered r a (c\<lparr>lv_requests := filter (\<lambda>(m, _). m \<noteq> h) (lv_requests c)\<rparr>)
         | None \<Rightarrow> c))"

definition live_run :: "live_input list \<Rightarrow> live_client \<Rightarrow> live_client" where
  "live_run inputs c = fold live_step inputs c"

end
