(* ===== verification/LiveFacts.thy ===== *)
theory LiveFacts
  imports LiveClient ProtocolFacts
begin

text \<open>
  Facts about \<open>LiveClient\<close>: the states that any inputs in any order lead to, the flag that closes 2v2, the deadline
  that every reconnection has, the numbers of orders and the order of snapshots.
\<close>

section \<open>Reachable clients\<close>

inductive reached :: "bool \<Rightarrow> bool \<Rightarrow> live_client \<Rightarrow> bool" for flag transport where
  start: "reached flag transport (new_live_client flag transport)"
| step: "reached flag transport c \<Longrightarrow> reached flag transport (live_step inp c)"

lemmas plumbing = effect_def emit_event_def new_number_def set_timer_def clear_timer_def request_def settle_def settle1_def
  put_session_def change_current_def current_def new_session_def drop_socket_def bindSocketHandlers_def detachSocketHandlers_def
  change_queue_def removeTicket_def

section \<open>The 2v2 flag\<close>

text \<open>The tickets and the events of 2v2.\<close>

definition two_v_two_event :: "live_event \<Rightarrow> bool" where
  "two_v_two_event e \<longleftrightarrow> (case e of Started2v2 _ \<Rightarrow> True | State2v2 _ \<Rightarrow> True | Accepted2v2 _ \<Rightarrow> True | Rejected2v2 _ \<Rightarrow> True
     | Result2v2 _ \<Rightarrow> True | RematchEvent _ \<Rightarrow> True | ReconnectingEvent _ _ \<Rightarrow> True | ReconnectedEvent _ _ _ _ \<Rightarrow> True
     | ReconnectFailedEvent _ _ \<Rightarrow> True | ExpiredEvent _ \<Rightarrow> True | _ \<Rightarrow> False)"

definition two_v_two_effect :: "live_effect \<Rightarrow> bool" where
  "two_v_two_effect e \<longleftrightarrow> (case e of Emit ev \<Rightarrow> two_v_two_event ev | AddMatchmaker _ _ _ two \<Rightarrow> two | CallTransport \<Rightarrow> True | _ \<Rightarrow> False)"

definition one_v_one_only :: "live_client \<Rightarrow> bool" where
  "one_v_one_only c \<longleftrightarrow> \<not> lv_enable2v2 c \<and> lv_v2 c = None \<and> lv_queue c = None \<and> lv_activeMode c = None
     \<and> list_all (\<lambda>e. \<not> two_v_two_effect e) (lv_out c)"

lemma one_plumbing [simp]:
  "one_v_one_only (effect e c) \<longleftrightarrow> one_v_one_only c \<and> \<not> two_v_two_effect e"
  "one_v_one_only (clear_timer h c) \<longleftrightarrow> one_v_one_only c"
  "one_v_one_only (request r e c) \<longleftrightarrow> one_v_one_only c \<and> \<not> two_v_two_effect e"
  "one_v_one_only (detachSocketHandlers sock c) \<longleftrightarrow> one_v_one_only c"
  "one_v_one_only (put_session i s c) \<longleftrightarrow> one_v_one_only c"
  "one_v_one_only (snd (set_timer t d c)) \<longleftrightarrow> one_v_one_only c"
  by (auto simp: one_v_one_only_def plumbing Let_def split: option.splits)

lemma one_settle [simp]: "one_v_one_only (settle p err c) \<longleftrightarrow> one_v_one_only c"
  by (simp add: settle_def) (simp add: one_v_one_only_def two_v_two_effect_def)

lemma one_current: "one_v_one_only c \<Longrightarrow> current c = None \<and> lv_v2 c = None \<and> lv_queue c = None \<and> lv_activeMode c = None"
  by (simp add: one_v_one_only_def current_def)

lemma one_fields [simp]:
  "one_v_one_only (c\<lparr>lv_matchId := v\<rparr>) \<longleftrightarrow> one_v_one_only c"
  "one_v_one_only (c\<lparr>lv_matchmakerTicket := v\<rparr>) \<longleftrightarrow> one_v_one_only c"
  "one_v_one_only (c\<lparr>lv_lastSettled := w\<rparr>) \<longleftrightarrow> one_v_one_only c"
  "one_v_one_only (c\<lparr>lv_requests := rs\<rparr>) \<longleftrightarrow> one_v_one_only c"
  "one_v_one_only (c\<lparr>lv_nextSequence := n\<rparr>) \<longleftrightarrow> one_v_one_only c"
  "one_v_one_only (c\<lparr>lv_closed := b\<rparr>) \<longleftrightarrow> one_v_one_only c"
  "one_v_one_only (c\<lparr>lv_epoch := k\<rparr>) \<longleftrightarrow> one_v_one_only c"
  by (simp_all add: one_v_one_only_def)

lemma one_attempt [simp]: "one_v_one_only c \<Longrightarrow> one_v_one_only (attempt_failed i err c)"
  using one_current [of c] by (simp add: attempt_failed_def still_reconnecting_def)

lemma one_drop [simp]: "one_v_one_only (drop_socket sock c) \<longleftrightarrow> one_v_one_only c"
  by (simp add: drop_socket_def two_v_two_effect_def)

lemma one_answered: "one_v_one_only c \<Longrightarrow> one_v_one_only (answered r a c)"
  using one_current [of c]
  by (auto simp: answered_def refused_def settle1_def emit_event_def two_v_two_effect_def two_v_two_event_def ticket_arrived_def
      is_queue_def ticket_refused_def matched_joined_def join_failed_def transport_opened_def still_reconnecting_def
      rejoined_def Let_def case_prod_unfold split: live_request.split live_answer.split option.split)

lemma one_timer: "one_v_one_only c \<Longrightarrow> one_v_one_only (timer_fired t c)"
  using one_current [of c]
  by (auto simp: timer_fired_def queue_timeout_def queue_retry_def is_queue_def finishReconnect_def attemptReconnect_def
      resync_timeout_def still_reconnecting_def split: live_timer.split)

lemma one_data: "one_v_one_only c \<Longrightarrow> one_v_one_only (handleMatchData op data c)"
  using one_current [of c]
  by (auto simp: handleMatchData_def handleTwoVTwoPayload_def handle_message_def handleMatchStarted2v2_def handle_legacy_def on_result1_def
      emit_event_def two_v_two_effect_def two_v_two_event_def Let_def split: option.split server_message.split)

lemma one_connect: "one_v_one_only c \<Longrightarrow> one_v_one_only (connect_live mode code c)"
proof -
  assume one: "one_v_one_only c"
  define c1 where "c1 = c\<lparr>lv_closed := False, lv_nextSequence := 0, lv_fresh := Suc (lv_fresh c), lv_promises := lv_promises c @ [lv_fresh c]\<rparr>"
  have "one_v_one_only c1" "\<not> lv_enable2v2 c1" using one by (simp_all add: one_v_one_only_def c1_def)
  moreover from this have "lv_v2 c1 = None" "lv_queue c1 = None" "lv_activeMode c1 = None" using one_current by blast+
  moreover have "connect_live mode code c = (if mode = Queue2v2 then connectQueue2v2 (lv_fresh c) c1
      else if lv_queue c1 \<noteq> None \<or> lv_v2 c1 \<noteq> None \<or> lv_activeMode c1 = Some Queue2v2
      then settle (lv_fresh c) (Some ''two_v2_session_in_progress'') c1
      else let (h, c2) = set_timer (ConnectTimeout (lv_fresh c)) LIVE_CONNECT_TIMEOUT_MS c1
           in case mode of
               CreateInvite \<Rightarrow> request (CreateRequest (lv_fresh c) h) (CallRpc ''pvp/create_invite'' []) c2
             | JoinInvite \<Rightarrow> (case code of
                   Some code \<Rightarrow>
                     if code = [] then settle1 (lv_fresh c) h (Some ''missing_room_code'') c2
                     else request (InviteRequest code (lv_fresh c) h)
                       (CallRpc ''pvp/join_invite'' (stringify (JObject [(''inviteCode'', JString code)]))) c2
                 | None \<Rightarrow> settle1 (lv_fresh c) h (Some ''missing_room_code'') c2)
             | _ \<Rightarrow> request (TicketRequest (lv_fresh c) h) (AddMatchmaker [] 2 2 False) c2)"
    by (simp add: connect_live_def new_number_def c1_def)
  ultimately show ?thesis
    by (simp add: connectQueue2v2_def settle1_def two_v_two_effect_def Let_def case_prod_unfold split: live_mode.split option.split)
qed

lemma one_close: "one_v_one_only c \<Longrightarrow> one_v_one_only (close_live c)"
proof -
  assume one: "one_v_one_only c"
  define c1 where "c1 = c\<lparr>lv_closed := True\<rparr>"
  have "teardownReconnectTimers (teardownQueue c1) = c1"
    using one by (simp add: c1_def teardownQueue_def teardownReconnectTimers_def one_v_one_only_def current_def)
  then show ?thesis using one
    by (simp add: close_live_def c1_def Let_def detachCurrentSocketHandlers_def current_def plumbing two_v_two_effect_def one_v_one_only_def)
qed

lemma one_step: "one_v_one_only c \<Longrightarrow> one_v_one_only (live_step inp c)"
  using one_current [of c]
  by (auto simp: live_step_def one_connect one_close one_data one_timer one_answered sendDispatch_def sendTwoVTwoControl_def
      sendReady_def sendSurrender_def sendRematchVote_def handleMatchmakerMatched_def socket_lost_def emit_event_def two_v_two_effect_def
      two_v_two_event_def Let_def split: live_input.split option.split)

text \<open>
  The flag closes 2v2. A client made with the flag off never submits a 2v2 ticket, never opens a socket for a 2v2
  match, never has a 2v2 queue or session and never emits a 2v2 event, whatever the game calls, whatever arrives on
  its sockets, in whatever order timers fire and requests are answered.
\<close>

theorem two_v_two_flag_closed:
  assumes "reached False transport c"
  shows "lv_v2 c = None \<and> lv_queue c = None \<and> list_all (\<lambda>e. \<not> two_v_two_effect e) (lv_out c)"
proof -
  have "one_v_one_only c" using assms
  proof (induction rule: reached.induct)
    case start
    show ?case by (simp add: one_v_one_only_def new_live_client_def bindSocketHandlers_def)
  next
    case (step c inp)
    show ?case by (rule one_step) (rule step.IH)
  qed
  then show ?thesis by (simp add: one_v_one_only_def)
qed

lemma two_v_two_flag_closed_witness:
  "lv_v2 (live_step (CallConnect Queue2v2 None) (new_live_client False True)) = None"
  using two_v_two_flag_closed [OF reached.step [OF reached.start]] by blast

section \<open>Every reconnection has its deadline\<close>

definition armed :: "nat \<Rightarrow> live_client \<Rightarrow> bool" where
  "armed h c \<longleftrightarrow> (h, ReconnectDeadline, TWO_V_TWO_RECONNECT_WINDOW_MS) \<in> set (lv_timers c)"

text \<open>A number that clearing cannot hurt the deadline with.\<close>

definition harmless :: "live_client \<Rightarrow> nat \<Rightarrow> bool" where
  "harmless c n \<longleftrightarrow> n < lv_fresh c \<and> \<not> armed n c"

definition timeout_of :: "live_request \<Rightarrow> nat option" where
  "timeout_of r = (case r of TicketRequest _ h \<Rightarrow> Some h | CreateRequest _ h \<Rightarrow> Some h | CreateJoin _ h \<Rightarrow> Some h
     | InviteRequest _ _ h \<Rightarrow> Some h | InviteJoin _ h \<Rightarrow> Some h | _ \<Rightarrow> None)"

text \<open>Timers are numbered apart, and the timers that queues and requests hold are not the deadline.\<close>

definition live_base :: "live_client \<Rightarrow> bool" where
  "live_base c \<longleftrightarrow> distinct (map fst (lv_timers c)) \<and> (\<forall>x\<in>set (lv_timers c). fst x < lv_fresh c)
     \<and> (\<forall>q n. lv_queue c = Some q \<longrightarrow> qs_queueTimer q = Some n \<or> qs_retryTimer q = Some n \<longrightarrow> harmless c n)
     \<and> (\<forall>x n. x \<in> set (lv_requests c) \<longrightarrow> timeout_of (snd x) = Some n \<longrightarrow> harmless c n)"

definition on_deadline :: "live_client \<Rightarrow> live_session \<Rightarrow> bool" where
  "on_deadline c s \<longleftrightarrow> (ls_phase s = Reconnecting \<longrightarrow>
     (\<exists>r h. ls_reconnect s = Some r \<and> rs_deadlineTimer r = Some h \<and> armed h c))"

definition live_inv :: "live_client \<Rightarrow> bool" where
  "live_inv c \<longleftrightarrow> live_base c \<and> (\<forall>s. current c = Some s \<longrightarrow> on_deadline c s)"

lemmas live_inv_defs = live_inv_def live_base_def on_deadline_def harmless_def armed_def

text \<open>What the pieces do to the invariant.\<close>

lemma current_plumbing [simp]:
  "current (effect e c) = current c" "current (clear_timer h c) = current c" "current (request r e c) = current c"
  "current (settle p err c) = current c" "current (change_queue q c) = current c" "current (removeTicket s c) = current c"
  "current (snd (set_timer t d c)) = current c" "current (detachSocketHandlers sock c) = current c"
  "current (bindSocketHandlers sock c) = current c" "current (drop_socket sock c) = current c" "current (emit_event ev c) = current c"
  by (auto simp: plumbing Let_def split: option.splits)

lemma current_change [simp]: "current (change_current f c) = map_option f (current c)"
  by (cases "lv_v2 c"; cases "current c") (simp_all add: change_current_def put_session_def current_def)

lemma live_base_plumbing [simp]:
  "live_base (effect e c) \<longleftrightarrow> live_base c" "live_base (emit_event ev c) \<longleftrightarrow> live_base c"
  "live_base (change_current f c) \<longleftrightarrow> live_base c" "live_base (put_session i s c) \<longleftrightarrow> live_base c"
  "live_base (settle p err c) \<longleftrightarrow> live_base c" "live_base (detachSocketHandlers sock c) \<longleftrightarrow> live_base c"
  "live_base (bindSocketHandlers sock c) \<longleftrightarrow> live_base c" "live_base (drop_socket sock c) \<longleftrightarrow> live_base c"
  "live_base (removeTicket q c) \<longleftrightarrow> live_base c"
  by (auto simp: live_base_def harmless_def armed_def plumbing split: option.splits)

lemma live_inv_plumbing [simp]:
  "live_inv (effect e c) \<longleftrightarrow> live_inv c" "live_inv (emit_event ev c) \<longleftrightarrow> live_inv c" "live_inv (settle p err c) \<longleftrightarrow> live_inv c"
  "live_inv (detachSocketHandlers sock c) \<longleftrightarrow> live_inv c" "live_inv (bindSocketHandlers sock c) \<longleftrightarrow> live_inv c"
  "live_inv (drop_socket sock c) \<longleftrightarrow> live_inv c" "live_inv (removeTicket q c) \<longleftrightarrow> live_inv c"
  by (auto simp: live_inv_def live_base_def on_deadline_def harmless_def armed_def plumbing split: option.splits)

lemma live_inv_fields [simp]:
  "live_inv (c\<lparr>lv_matchId := v\<rparr>) \<longleftrightarrow> live_inv c" "live_inv (c\<lparr>lv_matchmakerTicket := v\<rparr>) \<longleftrightarrow> live_inv c"
  "live_inv (c\<lparr>lv_lastSettled := w\<rparr>) \<longleftrightarrow> live_inv c" "live_inv (c\<lparr>lv_nextSequence := n\<rparr>) \<longleftrightarrow> live_inv c"
  "live_inv (c\<lparr>lv_closed := b\<rparr>) \<longleftrightarrow> live_inv c" "live_inv (c\<lparr>lv_activeMode := mode\<rparr>) \<longleftrightarrow> live_inv c"
  "live_inv (c\<lparr>lv_promises := ps\<rparr>) \<longleftrightarrow> live_inv c"
  by (simp_all add: live_inv_def live_base_def on_deadline_def harmless_def armed_def current_def)

lemma live_base_clear: "live_base c \<Longrightarrow> live_base (clear_timer h c)"
  by (auto simp: live_base_def harmless_def armed_def clear_timer_def distinct_map_filter split: option.split)

lemma live_inv_clear: "live_inv c \<Longrightarrow> (\<And>n. h = Some n \<Longrightarrow> harmless c n) \<Longrightarrow> live_inv (clear_timer h c)"
  by (auto simp: live_inv_def live_base_clear on_deadline_def)
     (auto simp: harmless_def armed_def clear_timer_def split: option.split)

lemma live_inv_request: "live_inv c \<Longrightarrow> (\<And>n. timeout_of r = Some n \<Longrightarrow> harmless c n) \<Longrightarrow> live_inv (request r e c)"
  by (auto simp: live_inv_def live_base_def on_deadline_def harmless_def armed_def request_def new_number_def effect_def current_def
      less_SucI Let_def)

lemma live_base_timer:
  assumes "live_base c" "set_timer t d c = (h, c')"
  shows "live_base c'" "t \<noteq> ReconnectDeadline \<Longrightarrow> harmless c' h" "\<And>n. harmless c n \<Longrightarrow> harmless c' n"
    "\<And>n. armed n c \<Longrightarrow> armed n c'" "current c' = current c" "t = ReconnectDeadline \<Longrightarrow> d = TWO_V_TWO_RECONNECT_WINDOW_MS \<Longrightarrow> armed h c'"
    "lv_queue c' = lv_queue c" "lv_closed c' = lv_closed c"
proof -
  have c': "c' = c\<lparr>lv_fresh := Suc (lv_fresh c), lv_timers := lv_timers c @ [(lv_fresh c, t, d)]\<rparr>" and h: "h = lv_fresh c"
    using assms(2) by (auto simp: set_timer_def new_number_def)
  have new: "lv_fresh c \<notin> fst ` set (lv_timers c)" using assms(1) by (auto simp: live_base_def)
  show keep: "harmless c' n" if "harmless c n" for n using that by (auto simp: harmless_def armed_def c')
  show "armed n c'" if "armed n c" for n using that by (simp add: armed_def c')
  show "current c' = current c" by (simp add: c' current_def)
  show "harmless c' h" if "t \<noteq> ReconnectDeadline" using that new by (force simp: harmless_def armed_def c' h)
  show "armed h c'" if "t = ReconnectDeadline" "d = TWO_V_TWO_RECONNECT_WINDOW_MS" using that by (simp add: armed_def c' h)
  show "lv_queue c' = lv_queue c" "lv_closed c' = lv_closed c" by (simp_all add: c')
  have same: "lv_queue c' = lv_queue c" "lv_requests c' = lv_requests c" by (simp_all add: c')
  have "distinct (map fst (lv_timers c'))" "\<forall>x\<in>set (lv_timers c'). fst x < lv_fresh c'"
    using assms(1) new by (auto simp: live_base_def c' less_SucI)
  then show "live_base c'" using assms(1) keep unfolding live_base_def same by blast
qed

lemma live_inv_timer:
  assumes "live_inv c" "set_timer t d c = (h, c')"
  shows "live_inv c'" "t \<noteq> ReconnectDeadline \<Longrightarrow> harmless c' h"
proof -
  have base: "live_base c" using assms(1) by (simp add: live_inv_def)
  note t = live_base_timer [OF base assms(2)]
  show "live_inv c'" using assms(1) t(1,4,5) by (auto simp: live_inv_def on_deadline_def)
  show "t \<noteq> ReconnectDeadline \<Longrightarrow> harmless c' h" by (rule t(2))
qed

lemma live_inv_current:
  assumes "live_base c" "\<And>s. current c = Some s \<Longrightarrow> on_deadline c (f s)"
  shows "live_inv (change_current f c)"
proof -
  have "on_deadline (change_current f c) s \<longleftrightarrow> on_deadline c s" for s
    by (simp add: on_deadline_def armed_def change_current_def put_session_def split: option.split)
  then show ?thesis using assms by (auto simp: live_inv_def)
qed

lemma live_inv_queue:
  "live_inv c \<Longrightarrow> (\<And>q n. lv_queue c = Some q \<Longrightarrow> qs_queueTimer (f q) = Some n \<or> qs_retryTimer (f q) = Some n \<Longrightarrow> harmless c n)
    \<Longrightarrow> live_inv (change_queue f c)"
  by (auto simp: live_inv_def live_base_def on_deadline_def harmless_def armed_def change_queue_def current_def)

lemma live_inv_number: "live_inv c \<Longrightarrow> new_number c = (i, c') \<Longrightarrow> live_inv c'"
  by (fastforce simp: new_number_def live_inv_def live_base_def on_deadline_def harmless_def armed_def current_def intro: less_SucI)

lemma live_inv_session: "live_inv c \<Longrightarrow> live_inv (new_session rawMatchId sock c)"
  by (fastforce simp: new_session_def connecting_session_def new_number_def put_session_def live_inv_def live_base_def on_deadline_def harmless_def armed_def
      current_def intro: less_SucI)

lemma live_base_of: "live_inv c \<Longrightarrow> live_base c"
  by (simp add: live_inv_def)

lemma live_inv_deadline: "live_inv c \<Longrightarrow> current c = Some s \<Longrightarrow> on_deadline c s"
  by (simp add: live_inv_def)

lemma live_inv_change:
  "live_inv c \<Longrightarrow> (\<And>s. on_deadline c s \<Longrightarrow> on_deadline c (f s)) \<Longrightarrow> live_inv (change_current f c)"
  by (rule live_inv_current) (auto simp: live_inv_def)

subsection \<open>Reconnecting\<close>

lemma inv_attempt_timer: "live_inv c \<Longrightarrow> live_inv (scheduleReconnectAttempt delay c)"
proof -
  assume inv: "live_inv c"
  obtain h c' where t: "set_timer ReconnectAttempt delay c = (h, c')" by fastforce
  have "live_inv (change_reconnect (\<lambda>r. r\<lparr>rs_attemptTimer := Some h\<rparr>) c')"
    unfolding change_reconnect_def by (rule live_inv_change [OF live_inv_timer(1) [OF inv t]]) (auto simp: on_deadline_def)
  then show ?thesis using inv by (simp add: scheduleReconnectAttempt_def t)
qed

lemma base_teardown: "live_base c \<Longrightarrow> live_base (teardownReconnectTimers c)"
  by (simp add: teardownReconnectTimers_def change_reconnect_def live_base_clear split: option.split)

lemma inv_not_reconnecting:
  "live_base c \<Longrightarrow> (\<And>s. current c = Some s \<Longrightarrow> ls_phase s \<noteq> Reconnecting) \<Longrightarrow> live_inv c"
  by (auto simp: live_inv_def on_deadline_def)

lemma inv_finish: "live_base c \<Longrightarrow> live_inv (finishReconnect code c)"
  by (auto simp: finishReconnect_def base_teardown on_deadline_def intro: inv_not_reconnecting live_inv_current split: option.split)

lemma inv_begin: "live_inv c \<Longrightarrow> live_inv (beginReconnect c)"
proof (cases "current c")
  case (Some s)
  assume inv: "live_inv c"
  define c2 where "c2 = emit_event (ReconnectingEvent (canonical_text s) 0) (change_current (\<lambda>s. s\<lparr>ls_phase := Reconnecting,
    ls_reconnect := Some \<lparr>rs_attempts = 0, rs_attemptTimer = None, rs_resyncTimer = None, rs_deadlineTimer = None\<rparr>\<rparr>) c)"
  obtain h c3 where t: "set_timer ReconnectDeadline TWO_V_TWO_RECONNECT_WINDOW_MS c2 = (h, c3)" by fastforce
  have "live_base c2" using live_base_of [OF inv] by (simp add: c2_def)
  note t3 = live_base_timer [OF this t]
  have "current c2 = Some (s\<lparr>ls_phase := Reconnecting, ls_reconnect := Some \<lparr>rs_attempts = 0, rs_attemptTimer = None,
      rs_resyncTimer = None, rs_deadlineTimer = None\<rparr>\<rparr>)"
    using Some by (cases "lv_v2 c") (simp_all add: c2_def change_current_def put_session_def current_def emit_event_def effect_def)
  then have cur: "current c3 = Some (s\<lparr>ls_phase := Reconnecting, ls_reconnect := Some \<lparr>rs_attempts = 0, rs_attemptTimer = None,
      rs_resyncTimer = None, rs_deadlineTimer = None\<rparr>\<rparr>)"
    by (simp only: t3(5))
  have "live_inv (change_reconnect (\<lambda>r. r\<lparr>rs_deadlineTimer := Some h\<rparr>) c3)"
    unfolding change_reconnect_def by (rule live_inv_current [OF t3(1)]) (use cur t3(6) in \<open>auto simp: on_deadline_def\<close>)
  then have "live_inv (scheduleReconnectAttempt TWO_V_TWO_RECONNECT_FIRST_DELAY_MS (change_reconnect (\<lambda>r. r\<lparr>rs_deadlineTimer := Some h\<rparr>) c3))"
    by (rule inv_attempt_timer)
  then show ?thesis using inv Some t by (simp add: beginReconnect_def c2_def [symmetric])
qed (simp add: beginReconnect_def)

lemma inv_next: "live_inv c \<Longrightarrow> live_inv (scheduleNextReconnectAttempt c)"
  unfolding scheduleNextReconnectAttempt_def change_reconnect_def
  by (auto split: option.split intro!: inv_attempt_timer live_inv_change) (auto simp: on_deadline_def)

lemma inv_attempt: "live_inv c \<Longrightarrow> live_inv (attemptReconnect c)"
  by (auto simp: attemptReconnect_def live_base_of timeout_of_def intro: inv_finish live_inv_request split: option.split)

lemma inv_failed: "live_inv c \<Longrightarrow> live_inv (attempt_failed i err c)"
  by (simp add: attempt_failed_def live_base_of inv_finish inv_next Let_def)

lemma inv_opened: "live_inv c \<Longrightarrow> live_inv (transport_opened i sock c)"
  unfolding transport_opened_def
  by (auto simp: timeout_of_def intro!: live_inv_request live_inv_change split: option.split) (auto simp: on_deadline_def armed_def detachSocketHandlers_def)

lemma inv_rejoined: "live_inv c \<Longrightarrow> live_inv (rejoined i sock c)"
proof -
  assume inv: "live_inv c"
  have "live_inv (put_session i (s\<lparr>ls_reconnect := Some (r\<lparr>rs_resyncTimer := Some h\<rparr>)\<rparr>) c')"
    if s: "lv_sessions c i = Some s" "ls_reconnect s = Some r"
      and t: "set_timer (ResyncTimeout i sock) TWO_V_TWO_RESYNC_TIMEOUT_MS c = (h, c')" for s r h c'
  proof -
    have c': "live_inv c'" using live_inv_timer(1) [OF inv t] .
    have same: "lv_sessions c' = lv_sessions c" "lv_v2 c' = lv_v2 c" using t by (auto simp: set_timer_def new_number_def)
    have "on_deadline c' s" if "lv_v2 c' = Some i" using live_inv_deadline [OF c'] that s(1) same by (simp add: current_def)
    then have "on_deadline c' (s\<lparr>ls_reconnect := Some (r\<lparr>rs_resyncTimer := Some h\<rparr>)\<rparr>)" if "lv_v2 c' = Some i"
      using that s(2) by (auto simp: on_deadline_def)
    then show ?thesis using c' by (auto simp: live_inv_def current_def put_session_def on_deadline_def armed_def live_base_def harmless_def
        split: if_splits bind_splits)
  qed
  then show ?thesis using inv by (auto simp: rejoined_def inv_failed Let_def split: option.split prod.split)
qed

lemma inv_resync: "live_inv c \<Longrightarrow> live_inv (resync_timeout i sock c)"
  by (simp add: resync_timeout_def inv_next)

subsection \<open>The queue and the calls\<close>

lemma queue_harmless:
  "live_inv c \<Longrightarrow> lv_queue c = Some q \<Longrightarrow> qs_queueTimer q = Some n \<or> qs_retryTimer q = Some n \<Longrightarrow> harmless c n"
  by (auto simp: live_inv_def live_base_def)

lemma harmless_clear [simp]: "harmless c n \<Longrightarrow> harmless (clear_timer h c) n"
  by (auto simp: harmless_def armed_def clear_timer_def split: option.split)

lemma harmless_fields [simp]: "harmless (c\<lparr>lv_queue := q\<rparr>) n = harmless c n" "harmless (change_queue f c) n = harmless c n"
  "harmless (effect e c) n = harmless c n" "harmless (emit_event ev c) n = harmless c n" "harmless (removeTicket s c) n = harmless c n"
  "harmless (c\<lparr>lv_matchId := v\<rparr>) n = harmless c n" "harmless (c\<lparr>lv_matchmakerTicket := v\<rparr>) n = harmless c n"
  "harmless (c\<lparr>lv_requests := rs\<rparr>) n = harmless c n"
  by (simp_all add: harmless_def armed_def plumbing split: option.split)

lemma live_inv_no_queue: "live_inv c \<Longrightarrow> live_inv (c\<lparr>lv_queue := None\<rparr>)"
  by (auto simp: live_inv_def live_base_def on_deadline_def harmless_def armed_def current_def)

lemma inv_teardown_queue: "live_inv c \<Longrightarrow> live_inv (teardownQueue c)"
  by (auto simp: teardownQueue_def queue_harmless intro!: live_inv_clear live_inv_no_queue split: option.split)

lemma inv_submit: "live_inv c \<Longrightarrow> live_inv (submitTicket p c)"
  by (auto simp: submitTicket_def timeout_of_def intro!: live_inv_request split: option.split)

lemma inv_retry: "live_inv c \<Longrightarrow> live_inv (scheduleRetry p c)"
proof -
  assume inv: "live_inv c"
  have "live_inv (change_queue (\<lambda>q. q\<lparr>qs_attempt := Suc (qs_attempt q), qs_retryTimer := Some h\<rparr>) c')"
    if t: "set_timer (QueueRetry i p) d c = (h, c')" for i d h c'
  proof (rule live_inv_queue)
    show "live_inv c'" by (rule live_inv_timer(1) [OF inv t])
    note t' = live_base_timer [OF live_base_of [OF inv] t]
    show "harmless c' n" if "lv_queue c' = Some q"
      "qs_queueTimer (q\<lparr>qs_attempt := Suc (qs_attempt q), qs_retryTimer := Some h\<rparr>) = Some n
       \<or> qs_retryTimer (q\<lparr>qs_attempt := Suc (qs_attempt q), qs_retryTimer := Some h\<rparr>) = Some n" for q n
      using that t'(2,3,7) queue_harmless [OF inv] by auto
  qed
  then show ?thesis using inv by (auto simp: scheduleRetry_def inv_teardown_queue Let_def split: option.split prod.split)
qed

lemma inv_ticket: "live_inv c \<Longrightarrow> live_inv (ticket_arrived q p ticket c)"
proof -
  assume inv: "live_inv c"
  define c1 where "c1 = emit_event QueueWaiting (change_queue (\<lambda>s. s\<lparr>qs_ticket := Some ticket\<rparr>) c)"
  have inv1: "live_inv c1" unfolding c1_def live_inv_plumbing by (rule live_inv_queue [OF inv]) (use queue_harmless [OF inv] in auto)
  obtain h c2 where t: "set_timer (QueueTimeout q p) QUEUE_2V2_TIMEOUT_MS c1 = (h, c2)" by fastforce
  note t' = live_base_timer [OF live_base_of [OF inv1] t]
  have "live_inv (change_queue (\<lambda>s. s\<lparr>qs_queueTimer := Some h\<rparr>) c2)"
    by (rule live_inv_queue [OF live_inv_timer(1) [OF inv1 t]]) (use t'(2,3,7) queue_harmless [OF inv1] in auto)
  then show ?thesis using inv by (simp add: ticket_arrived_def c1_def [symmetric] t)
qed

lemma inv_queue_timeout: "live_inv c \<Longrightarrow> live_inv (queue_timeout q p c)"
  by (auto simp: queue_timeout_def intro!: inv_retry live_inv_queue split: option.split)
     (auto simp: removeTicket_def effect_def queue_harmless split: option.splits if_splits)

lemma inv_queue_retry: "live_inv c \<Longrightarrow> live_inv (queue_retry q p c)"
  by (auto simp: queue_retry_def queue_harmless intro!: inv_submit live_inv_queue)

lemma inv_connect: "live_inv c \<Longrightarrow> live_inv (connect_live mode code c)"
proof -
  assume inv: "live_inv c"
  obtain p c0 where n: "new_number (c\<lparr>lv_closed := False, lv_nextSequence := 0\<rparr>) = (p, c0)" by fastforce
  define c1 where "c1 = c0\<lparr>lv_promises := lv_promises c0 @ [p]\<rparr>"
  have inv1: "live_inv c1" unfolding c1_def live_inv_fields by (rule live_inv_number [OF _ n]) (simp add: inv)
  have two: "live_inv (connectQueue2v2 p c1)"
  proof -
    obtain q c2 where m: "new_number (c1\<lparr>lv_activeMode := Some Queue2v2\<rparr>) = (q, c2)" by fastforce
    have "live_inv c2" by (rule live_inv_number [OF _ m]) (simp add: inv1)
    then have "live_inv (c2\<lparr>lv_queue := Some \<lparr>qs_id = q, qs_attempt = 0, qs_ticket = None, qs_queueTimer = None, qs_retryTimer = None\<rparr>\<rparr>)"
      by (auto simp: live_inv_def live_base_def on_deadline_def harmless_def armed_def current_def)
    then show ?thesis using inv1 by (simp add: connectQueue2v2_def m inv_submit)
  qed
  obtain h c2 where t: "set_timer (ConnectTimeout p) LIVE_CONNECT_TIMEOUT_MS c1 = (h, c2)" by fastforce
  note t' = live_inv_timer [OF inv1 t]
  have "live_inv (settle1 p h err c2)" for err using t' by (auto simp: settle1_def intro: live_inv_clear)
  moreover have "live_inv (request r e c2)" if "timeout_of r = Some h" for r e using t' that by (intro live_inv_request) simp_all
  ultimately show ?thesis using two inv1
    by (simp add: connect_live_def n c1_def [symmetric] t timeout_of_def split: live_mode.split option.split)
qed

lemma inv_send: "live_inv c \<Longrightarrow> live_inv (sendDispatch sourceId targetId c)"
  by (auto simp: sendDispatch_def sendTwoVTwoDispatch_def timeout_of_def on_deadline_def Let_def
      intro!: live_inv_request live_inv_change split: option.split)

lemma inv_control: "live_inv c \<Longrightarrow> live_inv (sendTwoVTwoControl message phases c)"
  by (auto simp: sendTwoVTwoControl_def timeout_of_def intro!: live_inv_request split: option.split)

lemma inv_close: "live_inv c \<Longrightarrow> live_inv (close_live c)"
proof -
  assume "live_inv c"
  then have "live_base (teardownReconnectTimers (teardownQueue (c\<lparr>lv_closed := True\<rparr>)))"
    by (intro base_teardown live_base_of inv_teardown_queue) simp
  moreover have "live_base (c'\<lparr>lv_v2 := None, lv_activeMode := None\<rparr>) = live_base c'"
    "live_base (c'\<lparr>lv_matchId := None\<rparr>) = live_base c'" "live_base (c'\<lparr>lv_matchmakerTicket := None\<rparr>) = live_base c'"
    "live_base (c'\<lparr>lv_epoch := n\<rparr>) = live_base c'" for c' :: live_client and n
    by (simp_all add: live_base_def harmless_def armed_def)
  ultimately have "live_base (close_live c)"
    by (simp add: close_live_def detachCurrentSocketHandlers_def Let_def split: option.split)
  moreover have "current (close_live c) = None" by (simp add: close_live_def Let_def current_def)
  ultimately show ?thesis by (simp add: live_inv_def)
qed

subsection \<open>Messages, answers and timers\<close>

lemma inv_started: "live_inv c \<Longrightarrow> live_inv (handleMatchStarted2v2 m c)"
  by (auto simp: handleMatchStarted2v2_def adoptSession_def on_deadline_def live_base_of
      intro!: live_inv_current base_teardown split: option.split)

lemma inv_message: "live_inv c \<Longrightarrow> live_inv (handle_message msg c)"
  by (auto simp: handle_message_def inv_started on_state_def on_accepted_def on_rejected_def on_result_def on_closed_def beginRematch_def
      timeout_of_def on_deadline_def intro!: live_inv_change live_inv_request live_inv_session
      split: server_message.split option.split)

lemma inv_data: "live_inv c \<Longrightarrow> live_inv (handleMatchData op data c)"
  by (auto simp: handleMatchData_def handleTwoVTwoPayload_def inv_message handle_legacy_def on_result1_def Let_def split: option.split)

lemma inv_matched: "live_inv c \<Longrightarrow> live_inv (handleMatchmakerMatched matchId token c)"
  by (auto simp: handleMatchmakerMatched_def timeout_of_def queue_harmless Let_def
      intro!: live_inv_request live_inv_session live_inv_no_queue live_inv_clear split: option.split)

lemma inv_lost: "live_inv c \<Longrightarrow> live_inv (socket_lost c)"
  by (auto simp: socket_lost_def inv_begin split: option.split)

lemma inv_answered: "live_inv c \<Longrightarrow> (\<And>n. timeout_of r = Some n \<Longrightarrow> harmless c n) \<Longrightarrow> live_inv (answered r a c)"
  by (auto simp: answered_def refused_def settle1_def join_failed_def matched_joined_def sendReady_def inv_control inv_ticket
      ticket_refused_def inv_retry inv_begin inv_opened inv_failed inv_rejoined timeout_of_def
      intro!: live_inv_clear live_inv_request split: live_request.split live_answer.split option.split)

lemma inv_fired:
  assumes "live_base c" "t \<noteq> ReconnectDeadline \<Longrightarrow> live_inv c"
  shows "live_inv (timer_fired t c)"
  using assms by (cases t) (auto simp: timer_fired_def inv_finish inv_queue_timeout inv_queue_retry inv_attempt inv_resync)

lemma fired_harmless:
  assumes "live_base c" "map_of (lv_timers c) h = Some (t, d)" "t \<noteq> ReconnectDeadline"
  shows "harmless c h"
proof -
  have "(h, t, d) \<in> set (lv_timers c)" using assms(2) by (rule map_of_SomeD)
  moreover have "distinct (map fst (lv_timers c))" using assms(1) by (simp add: live_base_def)
  then have "(h, ReconnectDeadline, TWO_V_TWO_RECONNECT_WINDOW_MS) \<notin> set (lv_timers c)"
    using assms(2,3) map_of_is_SomeI by fastforce
  ultimately show ?thesis using assms(1) by (auto simp: harmless_def armed_def live_base_def)
qed

lemma inv_step: "live_inv c \<Longrightarrow> live_inv (live_step inp c)"
proof (cases inp)
  case (TimerIn h)
  assume inv: "live_inv c"
  show ?thesis
  proof (cases "map_of (lv_timers c) h")
    case (Some x)
    obtain t d where x: "map_of (lv_timers c) h = Some (t, d)" using Some by (cases x) simp
    have "live_inv (timer_fired t (clear_timer (Some h) c))"
    proof (rule inv_fired)
      show "live_base (clear_timer (Some h) c)" by (rule live_base_clear [OF live_base_of [OF inv]])
      show "live_inv (clear_timer (Some h) c)" if "t \<noteq> ReconnectDeadline"
        using fired_harmless [OF live_base_of [OF inv] x that] by (auto intro: live_inv_clear [OF inv])
    qed
    then show ?thesis by (simp add: live_step_def TimerIn x)
  qed (simp add: live_step_def TimerIn inv)
next
  case (AnswerIn h a)
  assume inv: "live_inv c"
  show ?thesis
  proof (cases "map_of (lv_requests c) h")
    case (Some r)
    have "(h, r) \<in> set (lv_requests c)" using Some by (rule map_of_SomeD)
    then have "harmless c n" if "timeout_of r = Some n" for n using inv that by (force simp: live_inv_def live_base_def)
    moreover have "live_inv (c\<lparr>lv_requests := filter (\<lambda>(m, _). m \<noteq> h) (lv_requests c)\<rparr>)"
      using inv by (auto simp: live_inv_def live_base_def on_deadline_def harmless_def armed_def current_def)
    ultimately show ?thesis by (simp add: live_step_def AnswerIn Some inv_answered)
  qed (simp add: live_step_def AnswerIn inv)
qed (simp_all add: live_step_def inv_connect inv_send inv_control inv_close inv_data inv_matched inv_lost sendReady_def
  sendSurrender_def sendRematchVote_def)

lemma reached_inv: "reached flag transport c \<Longrightarrow> live_inv c"
proof (induction rule: reached.induct)
  case start
  show ?case by (simp add: live_inv_def live_base_def new_live_client_def bindSocketHandlers_def current_def)
next
  case (step c inp)
  show ?case by (rule inv_step) (rule step.IH)
qed

text \<open>
  C35: a reconnection ends. Whenever a session is reconnecting, the timer of its window is armed, for 25 seconds;
  nothing that happens in between disarms it without ending the reconnection, and when it fires the session is
  abandoned and the game is told.
\<close>

theorem reconnecting_ends:
  assumes "reached flag transport c" "current c = Some s" "ls_phase s = Reconnecting"
  shows "\<exists>h s'. map_of (lv_timers c) h = Some (ReconnectDeadline, 25000)
    \<and> current (live_step (TimerIn h) c) = Some s' \<and> ls_phase s' = ReconnectFailed
    \<and> last (lv_out (live_step (TimerIn h) c)) = Emit (ReconnectFailedEvent (canonical_text s) ''reconnect_window_expired'')"
proof -
  have inv: "live_inv c" by (rule reached_inv [OF assms(1)])
  then obtain h where h: "(h, ReconnectDeadline, 25000) \<in> set (lv_timers c)"
    using assms(2,3) by (auto simp: live_inv_def on_deadline_def armed_def TWO_V_TWO_RECONNECT_WINDOW_MS_def)
  have "distinct (map fst (lv_timers c))" using inv by (simp add: live_inv_def live_base_def)
  then have m: "map_of (lv_timers c) h = Some (ReconnectDeadline, 25000)" using h by simp
  define c1 where "c1 = teardownReconnectTimers (clear_timer (Some h) c)"
  obtain s1 where s1: "current c1 = Some s1"
    using assms(2) by (cases "ls_reconnect s") (simp_all add: c1_def teardownReconnectTimers_def change_reconnect_def)
  have "live_step (TimerIn h) c = emit_event (ReconnectFailedEvent (canonical_text s) ''reconnect_window_expired'')
      (change_current (\<lambda>s. s\<lparr>ls_reconnect := None, ls_phase := ReconnectFailed\<rparr>) c1)"
    using assms(2,3) by (simp add: live_step_def m timer_fired_def finishReconnect_def c1_def)
  moreover from this have "current (live_step (TimerIn h) c) = Some (s1\<lparr>ls_reconnect := None, ls_phase := ReconnectFailed\<rparr>)"
    using s1 by simp
  moreover have "last (lv_out (emit_event ev c')) = Emit ev" for ev c' by (simp add: emit_event_def effect_def)
  moreover have "ls_phase (s1\<lparr>ls_reconnect := None, ls_phase := ReconnectFailed\<rparr>) = ReconnectFailed" by simp
  ultimately show ?thesis using m by metis
qed

section \<open>The life of a session\<close>

text \<open>
  The specification of a 2v2 session: what may happen to it, one rule per event. The client implements it: whatever
  reaches the client, the session it holds moves by these rules, is dropped, or is replaced by a fresh one.
\<close>

inductive session_move :: "live_session \<Rightarrow> live_session \<Rightarrow> bool" where
  order: "ls_phase s = Active \<Longrightarrow>
    session_move s (s\<lparr>ls_nextSequence := jadd (ls_nextSequence s) 1, ls_pending := insert (ls_nextSequence s) (ls_pending s)\<rparr>)"
| begin_match: "ls_phase s = Connecting \<Longrightarrow> message_ok (MatchStarted m) \<Longrightarrow> session_move s ((adoptSession m s)\<lparr>ls_phase := Active\<rparr>)"
| resync: "ls_phase s = Reconnecting \<Longrightarrow> message_ok (MatchStarted m) \<Longrightarrow> ls_canonicalMatchId s = Some (sm_matchId m)
    \<Longrightarrow> ls_slot s = Some (sm_slot m) \<Longrightarrow> ls_teamId s = Some (sm_teamId m)
    \<Longrightarrow> session_move s ((adoptSession m s)\<lparr>ls_reconnect := None, ls_phase := Active\<rparr>)"
| lose: "ls_phase s = Active \<Longrightarrow> session_move s (s\<lparr>ls_phase := Reconnecting, ls_reconnect := Some r\<rparr>)"
| give_up: "ls_phase s = Reconnecting \<Longrightarrow> session_move s (s\<lparr>ls_reconnect := None, ls_phase := ReconnectFailed\<rparr>)"
| new_socket: "ls_phase s = Reconnecting \<Longrightarrow> session_move s (s\<lparr>ls_socket := sock\<rparr>)"
| retime: "session_move s (s\<lparr>ls_reconnect := map_option f (ls_reconnect s)\<rparr>)"
| snapshot: "natural t \<Longrightarrow> ls_lastAppliedTick s < t \<Longrightarrow> session_move s (s\<lparr>ls_lastAppliedTick := t\<rparr>)"
| accept: "q \<in> ls_pending s \<Longrightarrow> session_move s (s\<lparr>ls_pending := ls_pending s - {q}, ls_accepted := insert q (ls_accepted s)\<rparr>)"
| reject: "session_move s (s\<lparr>ls_pending := ls_pending s - {q}\<rparr>)"
| result: "ls_canonicalMatchId s \<noteq> None \<Longrightarrow> p \<in> {Finished, Cancelled} \<Longrightarrow> session_move s (s\<lparr>ls_phase := p\<rparr>)"
| expire: "ls_phase s = Finished \<Longrightarrow> session_move s (s\<lparr>ls_phase := Expired\<rparr>)"

definition stays :: "live_client \<Rightarrow> live_client \<Rightarrow> bool" where
  "stays c c' \<longleftrightarrow> lv_v2 c' = lv_v2 c \<and> rel_option session_move\<^sup>*\<^sup>* (current c) (current c')"

text \<open>The client is left with the same session, moved, with none, or with a fresh one.\<close>

definition implements :: "live_client \<Rightarrow> live_client \<Rightarrow> bool" where
  "implements c c' \<longleftrightarrow> stays c c' \<or> lv_v2 c' = None \<or> (\<exists>rawMatchId sock. current c' = Some (connecting_session rawMatchId sock))"

lemma v2_plumbing [simp]:
  "lv_v2 (effect e c) = lv_v2 c" "lv_v2 (clear_timer h c) = lv_v2 c" "lv_v2 (request r e c) = lv_v2 c" "lv_v2 (settle p err c) = lv_v2 c"
  "lv_v2 (change_queue q c) = lv_v2 c" "lv_v2 (removeTicket s c) = lv_v2 c" "lv_v2 (snd (set_timer t d c)) = lv_v2 c"
  "lv_v2 (detachSocketHandlers sock c) = lv_v2 c" "lv_v2 (bindSocketHandlers sock c) = lv_v2 c" "lv_v2 (drop_socket sock c) = lv_v2 c"
  "lv_v2 (emit_event ev c) = lv_v2 c" "lv_v2 (change_current f c) = lv_v2 c"
  by (auto simp: plumbing Let_def split: option.splits)

lemma stays_same: "lv_v2 c' = lv_v2 c \<Longrightarrow> current c' = current c \<Longrightarrow> stays c c'"
  by (cases "current c") (simp_all add: stays_def)

lemma stays_refl [simp]: "stays c c" by (rule stays_same) simp_all

lemma stays_trans: "stays c c' \<Longrightarrow> stays c' c'' \<Longrightarrow> stays c c''"
  by (auto simp: stays_def option_rel_Some1 option_rel_Some2 rel_option_iff split: option.splits)

lemma stays_plumbing [simp]:
  "stays c (effect e c') \<longleftrightarrow> stays c c'" "stays c (clear_timer h c') \<longleftrightarrow> stays c c'" "stays c (request r e c') \<longleftrightarrow> stays c c'"
  "stays c (settle p err c') \<longleftrightarrow> stays c c'" "stays c (change_queue q c') \<longleftrightarrow> stays c c'" "stays c (removeTicket s c') \<longleftrightarrow> stays c c'"
  "stays c (snd (set_timer t d c')) \<longleftrightarrow> stays c c'" "stays c (detachSocketHandlers sock c') \<longleftrightarrow> stays c c'"
  "stays c (bindSocketHandlers sock c') \<longleftrightarrow> stays c c'" "stays c (drop_socket sock c') \<longleftrightarrow> stays c c'" "stays c (emit_event ev c') \<longleftrightarrow> stays c c'"
  by (simp_all add: stays_def)

lemma stays_fields [simp]:
  "stays c (c'\<lparr>lv_matchId := v\<rparr>) \<longleftrightarrow> stays c c'" "stays c (c'\<lparr>lv_matchmakerTicket := v\<rparr>) \<longleftrightarrow> stays c c'"
  "stays c (c'\<lparr>lv_lastSettled := w\<rparr>) \<longleftrightarrow> stays c c'" "stays c (c'\<lparr>lv_nextSequence := n\<rparr>) \<longleftrightarrow> stays c c'"
  "stays c (c'\<lparr>lv_closed := b\<rparr>) \<longleftrightarrow> stays c c'" "stays c (c'\<lparr>lv_activeMode := mode\<rparr>) \<longleftrightarrow> stays c c'"
  "stays c (c'\<lparr>lv_promises := ps\<rparr>) \<longleftrightarrow> stays c c'" "stays c (c'\<lparr>lv_queue := q\<rparr>) \<longleftrightarrow> stays c c'"
  "stays c (c'\<lparr>lv_fresh := n'\<rparr>) \<longleftrightarrow> stays c c'" "stays c (c'\<lparr>lv_requests := rs\<rparr>) \<longleftrightarrow> stays c c'"
  by (simp_all add: stays_def current_def)

lemma stays_change:
  "stays c c' \<Longrightarrow> (\<And>s. current c' = Some s \<Longrightarrow> session_move\<^sup>*\<^sup>* s (f s)) \<Longrightarrow> stays c (change_current f c')"
  by (rule stays_trans) (auto simp: stays_def option.rel_map rel_option_iff split: option.split)

lemma stays_step: "stays c c' \<Longrightarrow> (\<And>s. current c' = Some s \<Longrightarrow> session_move s (f s)) \<Longrightarrow> stays c (change_current f c')"
  by (rule stays_change) auto

lemma stays_reconnect: "stays c c' \<Longrightarrow> stays c (change_reconnect f c')"
  unfolding change_reconnect_def by (erule stays_step) (rule retime)

lemma set_timer_snd: "set_timer t d c = (h, c') \<Longrightarrow> c' = snd (set_timer t d c)"
  by simp

lemma stays_timer: "set_timer t d c' = (h, c'') \<Longrightarrow> stays c c' \<Longrightarrow> stays c c''"
  using stays_plumbing(7) [of c t d c'] by simp

lemma stays_attempt_timer: "stays c c' \<Longrightarrow> stays c (scheduleReconnectAttempt delay c')"
  by (auto simp: scheduleReconnectAttempt_def intro: stays_reconnect stays_timer split: prod.split)

lemma stays_teardown: "stays c c' \<Longrightarrow> stays c (teardownReconnectTimers c')"
  by (auto simp: teardownReconnectTimers_def intro: stays_reconnect split: option.split)

lemma teardown_phase: "current (teardownReconnectTimers c) = Some s' \<Longrightarrow> \<exists>s f. current c = Some s \<and> s' = s\<lparr>ls_reconnect := map_option f (ls_reconnect s)\<rparr>"
proof -
  assume a: "current (teardownReconnectTimers c) = Some s'"
  show ?thesis
  proof (cases "Option.bind (current c) ls_reconnect")
    case None
    then have "current c = Some s'" using a by (simp add: teardownReconnectTimers_def)
    then show ?thesis by (intro exI [of _ s'] exI [of _ id]) (simp add: option.map_id)
  next
    case (Some r)
    then show ?thesis using a by (auto simp: teardownReconnectTimers_def change_reconnect_def)
  qed
qed

lemma give_up_later: "ls_phase s = Reconnecting \<Longrightarrow>
    session_move (s\<lparr>ls_reconnect := r\<rparr>) (s\<lparr>ls_reconnect := None, ls_phase := ReconnectFailed\<rparr>)"
  using give_up [of "s\<lparr>ls_reconnect := r\<rparr>"] by simp

lemma stays_finish: "stays c c' \<Longrightarrow> stays c (finishReconnect code c')"
  by (auto simp: finishReconnect_def intro!: stays_step stays_teardown dest!: teardown_phase split: option.split)
     (auto intro: give_up_later)

lemma stays_begin: "stays c c' \<Longrightarrow> stays c (beginReconnect c')"
proof (cases "current c'")
  case (Some s)
  assume c: "stays c c'"
  define f :: "live_session \<Rightarrow> live_session" where "f = (\<lambda>s. s\<lparr>ls_phase := Reconnecting, ls_reconnect := Some \<lparr>rs_attempts = 0, rs_attemptTimer = None,
    rs_resyncTimer = None, rs_deadlineTimer = None\<rparr>\<rparr>)"
  define c2 where "c2 = emit_event (ReconnectingEvent (canonical_text s) 0) (change_current f c')"
  obtain h c3 where t: "set_timer ReconnectDeadline TWO_V_TWO_RECONNECT_WINDOW_MS c2 = (h, c3)" by fastforce
  show ?thesis
  proof (cases "ls_phase s \<noteq> Active \<or> lv_closed c'")
    case False
    then have "stays c c2" using c Some by (auto simp: c2_def f_def intro!: stays_step lose)
    from stays_timer [OF t this] False Some show ?thesis
      by (simp add: beginReconnect_def f_def [symmetric] c2_def [symmetric] t stays_attempt_timer stays_reconnect)
  qed (simp add: beginReconnect_def Some c)
qed (simp add: beginReconnect_def)

lemma stays_next: "stays c c' \<Longrightarrow> stays c (scheduleNextReconnectAttempt c')"
  by (auto simp: scheduleNextReconnectAttempt_def intro!: stays_attempt_timer stays_reconnect split: option.split)

lemma stays_attempt: "stays c c' \<Longrightarrow> stays c (attemptReconnect c')"
  by (auto simp: attemptReconnect_def intro: stays_finish split: option.split)

lemma stays_failed: "stays c c' \<Longrightarrow> stays c (attempt_failed i err c')"
  by (simp add: attempt_failed_def stays_finish stays_next Let_def)

lemma stays_opened: "stays c c' \<Longrightarrow> stays c (transport_opened i sock c')"
  by (auto simp: transport_opened_def still_reconnecting_def intro!: stays_step new_socket split: option.split)

lemma stays_rejoined: "stays c c' \<Longrightarrow> stays c (rejoined i sock c')"
proof -
  assume c: "stays c c'"
  have "stays c (put_session i (s\<lparr>ls_reconnect := Some (r\<lparr>rs_resyncTimer := Some h\<rparr>)\<rparr>) c'')"
    if s: "lv_sessions c' i = Some s" "ls_reconnect s = Some r" and t: "set_timer (ResyncTimeout i sock) d c' = (h, c'')" for s r d h c''
  proof (rule stays_trans [OF stays_timer [OF t c]])
    have same: "lv_sessions c'' = lv_sessions c'" using t by (auto simp: set_timer_def new_number_def)
    have "session_move s (s\<lparr>ls_reconnect := Some (r\<lparr>rs_resyncTimer := Some h\<rparr>)\<rparr>)"
      using retime [of s "\<lambda>r. r\<lparr>rs_resyncTimer := Some h\<rparr>"] s(2) by simp
    then show "stays c'' (put_session i (s\<lparr>ls_reconnect := Some (r\<lparr>rs_resyncTimer := Some h\<rparr>)\<rparr>) c'')"
      using s(1) same by (cases "lv_v2 c''") (auto simp: stays_def put_session_def current_def rel_option_iff split: option.split)
  qed
  then show ?thesis using c by (auto simp: rejoined_def stays_failed Let_def split: option.split prod.split)
qed

lemma stays_resync: "stays c c' \<Longrightarrow> stays c (resync_timeout i sock c')"
  by (simp add: resync_timeout_def stays_next)

lemma stays_teardown_queue: "stays c c' \<Longrightarrow> stays c (teardownQueue c')"
  by (auto simp: teardownQueue_def split: option.split)

lemma stays_submit: "stays c c' \<Longrightarrow> stays c (submitTicket p c')"
  by (auto simp: submitTicket_def split: option.split)

lemma stays_retry: "stays c c' \<Longrightarrow> stays c (scheduleRetry p c')"
  by (auto simp: scheduleRetry_def stays_teardown_queue Let_def intro: stays_timer split: option.split prod.split)

lemma stays_queue:
  "stays c c' \<Longrightarrow> stays c (ticket_arrived q p t c')" "stays c c' \<Longrightarrow> stays c (ticket_refused q p c')"
  "stays c c' \<Longrightarrow> stays c (queue_timeout q p c')" "stays c c' \<Longrightarrow> stays c (queue_retry q p c')"
  by (auto simp: ticket_arrived_def ticket_refused_def queue_timeout_def queue_retry_def Let_def intro!: stays_retry stays_submit
      intro: stays_timer split: option.split prod.split)

lemma stays_connect: "stays c (connect_live mode code c)"
proof -
  obtain p c0 where n: "new_number (c\<lparr>lv_closed := False, lv_nextSequence := 0\<rparr>) = (p, c0)" by fastforce
  define c1 where "c1 = c0\<lparr>lv_promises := lv_promises c0 @ [p]\<rparr>"
  have 1: "stays c c1" using n by (auto simp: c1_def new_number_def)
  then have "stays c (connectQueue2v2 p c1)"
    by (auto simp: connectQueue2v2_def new_number_def intro!: stays_submit)
  then show ?thesis using 1
    by (auto simp: connect_live_def n c1_def [symmetric] settle1_def dest: stays_timer split: live_mode.split option.split prod.split)
qed

lemma stays_send: "stays c (sendDispatch sourceId targetId c)"
  by (auto simp: sendDispatch_def sendTwoVTwoDispatch_def Let_def intro!: stays_step split: option.split)
     (auto intro: order)

lemma stays_control: "stays c c' \<Longrightarrow> stays c (sendTwoVTwoControl message phases c')"
  by (auto simp: sendTwoVTwoControl_def split: option.split)

lemma stays_resync_match:
  assumes cur: "current c = Some s" and ok: "message_ok (MatchStarted m)" and "ls_phase s = Reconnecting"
    "ls_canonicalMatchId s = Some (sm_matchId m)" "ls_slot s = Some (sm_slot m)" "ls_teamId s = Some (sm_teamId m)"
  shows "stays c (change_current (\<lambda>s. s\<lparr>ls_reconnect := None, ls_phase := Active\<rparr>)
    (teardownReconnectTimers (change_current (adoptSession m) c)))"
proof -
  let ?c1 = "change_current (adoptSession m) c"
  have "current (teardownReconnectTimers ?c1) \<noteq> None"
    using cur by (cases "ls_reconnect (adoptSession m s)") (simp_all add: teardownReconnectTimers_def change_reconnect_def)
  then obtain s1 where s1: "current (teardownReconnectTimers ?c1) = Some s1" by blast
  obtain f where "s1 = (adoptSession m s)\<lparr>ls_reconnect := map_option f (ls_reconnect (adoptSession m s))\<rparr>"
    using teardown_phase [OF s1] cur by auto
  then have "session_move\<^sup>*\<^sup>* s (s1\<lparr>ls_reconnect := None, ls_phase := Active\<rparr>)" using resync [OF assms(3) ok assms(4-6)] by auto
  moreover have "lv_v2 (teardownReconnectTimers ?c1) = lv_v2 c"
    using stays_teardown [OF stays_refl, of ?c1] by (simp add: stays_def)
  ultimately show ?thesis by (simp add: stays_def cur s1)
qed

lemma implements_fresh [simp]: "implements c (new_session rawMatchId sock c')"
  by (auto simp: implements_def new_session_def new_number_def put_session_def current_def)

lemma implements_plumbing [simp]:
  "implements c (request r e c') \<longleftrightarrow> implements c c'" "implements c (emit_event ev c') \<longleftrightarrow> implements c c'"
  by (simp_all add: implements_def)

lemma implements_stays: "stays c c' \<Longrightarrow> implements c c'"
  by (simp add: implements_def)

lemma stays_state: "natural (sp_tick p) \<Longrightarrow> stays c (on_state p s c)" if "current c = Some s"
  using that by (auto simp: on_state_def intro!: stays_step intro: snapshot)

lemma implements_message:
  assumes "message_ok msg"
  shows "implements c (handle_message msg c)"
proof (cases "current c")
  case None
  then show ?thesis
    by (auto simp: handle_message_def handleMatchStarted2v2_def intro!: implements_stays split: server_message.split)
next
  case (Some s)
  show ?thesis
  proof (cases msg)
    case (MatchStarted m)
    have "stays c (handleMatchStarted2v2 m c)"
      using assms Some stays_resync_match [OF Some] unfolding MatchStarted
      by (auto simp: handleMatchStarted2v2_def intro!: stays_step begin_match)
    then show ?thesis by (simp add: handle_message_def MatchStarted implements_def)
  next
    case (RematchStarted raw)
    show ?thesis using Some
      by (auto simp: handle_message_def RematchStarted beginRematch_def intro: implements_stays)
  next
    case (StateMessage p)
    then show ?thesis using Some assms by (simp add: handle_message_def implements_def stays_state)
  next
    case (CommandAccepted p)
    then show ?thesis using Some
      by (auto simp: handle_message_def on_accepted_def intro!: implements_stays stays_step intro: accept)
  next
    case (CommandRejected p)
    then show ?thesis using Some
      by (auto simp: handle_message_def on_rejected_def intro!: implements_stays stays_step intro: reject)
  next
    case (MatchResult p)
    have "current (c\<lparr>lv_lastSettled := w\<rparr>) = current c" for w by (simp add: current_def)
    then show ?thesis using Some MatchResult
      by (auto simp: handle_message_def on_result_def intro!: implements_stays stays_step result)
  next
    case (MatchClosed i)
    then show ?thesis using Some
      by (auto simp: handle_message_def on_closed_def intro!: implements_stays stays_step expire)
  qed (simp add: handle_message_def implements_def)
qed

lemma implements_data: "implements c (handleMatchData op data c)"
proof -
  have "stays c (handle_legacy op payload c)" for payload
    by (simp add: handle_legacy_def on_result1_def Let_def)
  moreover have "implements c (handleTwoVTwoPayload op payload c)" for payload
  proof (cases "parseTwoVTwoServerMessage (Some payload)")
    case (Some msg)
    then have "message_ok msg" by (auto simp: parseTwoVTwoServerMessage_def bind_eq_Some_conv dest: parse_message_ok)
    then show ?thesis by (simp add: handleTwoVTwoPayload_def Some implements_message implements_stays)
  qed (simp add: handleTwoVTwoPayload_def implements_stays)
  ultimately show ?thesis by (simp add: handleMatchData_def implements_stays split: option.split)
qed

lemma implements_matched: "implements c (handleMatchmakerMatched matchId token c)"
  by (simp add: handleMatchmakerMatched_def implements_stays Let_def)

lemma stays_answered: "stays c c' \<Longrightarrow> stays c (answered r a c')"
  by (auto simp: answered_def refused_def settle1_def join_failed_def matched_joined_def sendReady_def stays_control stays_queue
      stays_begin stays_opened stays_failed stays_rejoined split: live_request.split live_answer.split option.split)

lemma stays_fired: "stays c c' \<Longrightarrow> stays c (timer_fired t c')"
  by (cases t) (simp_all add: timer_fired_def stays_finish stays_queue stays_attempt stays_resync)

lemma implements_step: "implements c (live_step inp c)"
proof (cases inp)
  case CallClose
  then show ?thesis by (simp add: live_step_def close_live_def implements_def Let_def)
qed (auto simp: live_step_def stays_connect stays_send stays_control sendReady_def sendSurrender_def sendRematchVote_def
  implements_data implements_matched socket_lost_def stays_begin stays_fired stays_answered intro: implements_stays split: option.split)

text \<open>
  C34: the client implements the specification of a session. Whatever call, message, socket event, timer or answer
  reaches a client, in any state, the session it holds moves by the rules of \<open>session_move\<close>, or the client is left
  without a session or with a fresh one that has sent, received and adopted nothing.
\<close>

theorem client_implements_session: "implements c (live_step inp c)"
  by (rule implements_step)

text \<open>What holds of a fresh session and is kept by every move holds of every session a client ever has.\<close>

locale session_invariant =
  fixes ok :: "live_session \<Rightarrow> bool"
  assumes fresh: "ok (connecting_session rawMatchId sock)"
    and kept: "ok s \<Longrightarrow> session_move s s' \<Longrightarrow> ok s'"
begin

lemma moves_kept: "session_move\<^sup>*\<^sup>* s s' \<Longrightarrow> ok s \<Longrightarrow> ok s'"
  by (induction rule: rtranclp_induct) (auto intro: kept)

lemma holds: "reached flag transport c \<Longrightarrow> current c = Some s \<Longrightarrow> ok s"
proof (induction arbitrary: s rule: reached.induct)
  case start
  then show ?case by (simp add: new_live_client_def bindSocketHandlers_def current_def)
next
  case (step c inp)
  have "implements c (live_step inp c)" by (rule implements_step)
  then consider "stays c (live_step inp c)" | "lv_v2 (live_step inp c) = None"
    | raw sock where "current (live_step inp c) = Some (connecting_session raw sock)"
    by (auto simp: implements_def)
  then show ?case
  proof cases
    case 1
    then obtain s0 where "current c = Some s0" "session_move\<^sup>*\<^sup>* s0 s"
      using step.prems by (auto simp: stays_def option_rel_Some2)
    then show ?thesis using step.IH moves_kept by blast
  next
    case 2
    then show ?thesis using step.prems by (simp add: current_def)
  next
    case 3
    then show ?thesis using step.prems fresh by simp
  qed
qed

end

text \<open>Orders are numbered upwards: below the largest exact number, all that are pending are below the next one.\<close>

definition numbered :: "live_session \<Rightarrow> bool" where
  "numbered s \<longleftrightarrow> ls_nextSequence s \<in> \<nat> \<and> (ls_nextSequence s < 2 ^ 53 \<longrightarrow> (\<forall>q\<in>ls_pending s. q < ls_nextSequence s))"

text \<open>A session that has left \<open>connecting\<close> has its match, its seat with the team of that seat, and the roster.\<close>

definition seated :: "live_session \<Rightarrow> bool" where
  "seated s \<longleftrightarrow> (if ls_phase s = Connecting then ls_canonicalMatchId s = None
     else \<exists>i seat es. ls_canonicalMatchId s = Some i \<and> ls_slot s = Some seat \<and> ls_teamId s = Some (teamIdForSlot seat)
       \<and> ls_roster s = Some es \<and> roster_ok es)"

lemma natural_Nats: "natural n \<Longrightarrow> n \<in> \<nat>"
  by (auto simp: natural_number_def number_is_safe_integer.simps Nats_iff math_floor_def elim: Ints_cases)

interpretation numbering: session_invariant numbered
proof
  show "numbered (connecting_session raw sock)" for raw sock by (simp add: numbered_def connecting_session_def)
  show "numbered s'" if "numbered s" "session_move s s'" for s s'
    using that(2,1)
  proof cases
    case order
    let ?n = "ls_nextSequence s"
    have n: "?n \<in> \<nat>" using that(1) by (simp add: numbered_def)
    then have "jadd ?n 1 \<in> \<nat>" by (intro fl_Nats) simp
    moreover have "?n < jadd ?n 1" "\<forall>q\<in>ls_pending s. q < ?n" if less: "jadd ?n 1 < 2 ^ 53"
    proof -
      have "?n < 2 ^ 53"
      proof (rule ccontr)
        assume "\<not> ?n < 2 ^ 53"
        then have "(2 ^ 53 :: num) \<le> jadd ?n 1" by (intro fl_ge_double) (simp_all add: is_double_dyadic [of "2 ^ 53" 0, simplified])
        then show False using less by simp
      qed
      then show "\<forall>q\<in>ls_pending s. q < ?n" using that(1) \<open>numbered s\<close> by (simp add: numbered_def)
      have "?n + 1 \<le> 2 ^ 53" using n \<open>?n < 2 ^ 53\<close> by (auto elim!: Nats_cases)
      then have "jadd ?n 1 = ?n + 1" using n by (intro fl_Ints_exact) (auto simp: Nats_iff)
      then show "?n < jadd ?n 1" by simp
    qed
    ultimately show ?thesis unfolding order(1) by (auto simp: numbered_def dest: order_less_trans)
  qed (auto simp: numbered_def adoptSession_def natural_Nats)
qed

interpretation seating: session_invariant seated
proof
  show "seated (connecting_session raw sock)" for raw sock by (simp add: seated_def connecting_session_def)
  show "seated s'" if "seated s" "session_move s s'" for s s'
    using that(2,1) by cases (auto simp: seated_def adoptSession_def split: if_splits)
qed

section \<open>Numbered orders\<close>

text \<open>
  C36: an order is numbered once. In a session that is active the next order gets a number above every order that
  still waits for its answer, waits under that number itself, and moves the next number up by one; and the session
  has its match, its seat with the team of that seat and a roster of the four seats. In any other phase the order is
  refused and nothing is sent.
\<close>

theorem orders_numbered_once:
  assumes "reached flag transport c" "current c = Some s" "ls_nextSequence s < 2 ^ 53 - 1"
    and c': "c' = live_step (CallDispatch sourceId targetId) c"
  shows "if ls_phase s = Active
    then seated s \<and> (\<forall>q\<in>ls_pending s. q < ls_nextSequence s) \<and> last (lv_out c') = Returned (ls_nextSequence s)
      \<and> current c' = Some (s\<lparr>ls_nextSequence := ls_nextSequence s + 1, ls_pending := insert (ls_nextSequence s) (ls_pending s)\<rparr>)
    else lv_out c' = lv_out c @ [Threw ''two_v2_not_active''] \<and> current c' = Some s"
proof -
  have num: "numbered s" "seated s" by (rule numbering.holds [OF assms(1,2)], rule seating.holds [OF assms(1,2)])
  have two: "lv_v2 c \<noteq> None" using assms(2) by (cases "lv_v2 c") (auto simp: current_def)
  have "ls_nextSequence s \<in> \<nat>" using num(1) by (simp add: numbered_def)
  then have up: "jadd (ls_nextSequence s) 1 = ls_nextSequence s + 1"
    using assms(3) by (intro fl_Ints_exact) (auto simp: Nats_iff)
  show ?thesis
  proof (cases "ls_phase s = Active")
    case True
    obtain i where i: "lv_v2 c = Some i" using two by blast
    show ?thesis using True num assms(2,3)
      by (simp add: c' live_step_def sendDispatch_def sendTwoVTwoDispatch_def i up numbered_def Let_def)
         (simp add: effect_def)
  next
    case False
    then show ?thesis using two assms(2)
      by (auto simp: c' live_step_def sendDispatch_def sendTwoVTwoDispatch_def)
         (simp add: effect_def)
  qed
qed

text \<open>
  A resynchronisation that arrives before the join is answered ends the reconnection; the answer then finds no
  reconnection to write to, and the socket of the running session is dropped: nothing on it reaches the client.
\<close>

lemma early_resync_deafens:
  assumes "lv_v2 c = Some i" "current c = Some s" "ls_phase s = Active" "ls_reconnect s = None"
  shows "current (rejoined i (ls_socket s) c) = Some s" "\<not> listening (ls_socket s) (rejoined i (ls_socket s) c)"
    "last (lv_out (rejoined i (ls_socket s) c)) = Disconnect (ls_socket s)"
proof -
  have "lv_sessions c i = Some s" using assms(1,2) by (simp add: current_def)
  then have "rejoined i (ls_socket s) c = drop_socket (ls_socket s) c"
    using assms by (simp add: rejoined_def attempt_failed_def still_reconnecting_def)
  then show "current (rejoined i (ls_socket s) c) = Some s" "\<not> listening (ls_socket s) (rejoined i (ls_socket s) c)"
    "last (lv_out (rejoined i (ls_socket s) c)) = Disconnect (ls_socket s)"
    using assms(2) by (simp_all add: drop_socket_def listening_def effect_def detachSocketHandlers_def current_def)
qed

section \<open>A run\<close>

definition example_started :: match_started where
  "example_started = \<lparr>sm_matchId = ''m'', sm_mode = TWO_V_TWO_MATCH_MODE, sm_slot = Slot0, sm_teamId = TeamA, sm_nextSequence = 7,
     sm_players = [\<lparr>re_slot = Slot0, re_teamId = TeamA, re_userId = ''a'', re_displayName = ''A''\<rparr>,
       \<lparr>re_slot = Slot1, re_teamId = TeamA, re_userId = ''b'', re_displayName = ''B''\<rparr>,
       \<lparr>re_slot = Slot2, re_teamId = TeamB, re_userId = ''c'', re_displayName = ''C''\<rparr>,
       \<lparr>re_slot = Slot3, re_teamId = TeamB, re_userId = ''d'', re_displayName = ''D''\<rparr>],
     sm_state = JObject [(''status'', JString ''playing''), (''territories'', JObject []), (''armies'', JArray [])]\<rparr>"

lemma example_ok: "message_ok (MatchStarted example_started)"
  by (simp add: example_started_def roster_ok_def roster_entry_ok_def teamIdForSlot_def isGameState_def
      natural_number_def math_floor_def TWO_V_TWO_SLOTS_def less_slot_def)

text \<open>A client that has queued for 2v2, was matched, got its match, and lost its connection.\<close>

definition match_found :: live_client where
  "match_found = live_step (MatchedIn 0 ''raw'' ''token'') (live_step (CallConnect Queue2v2 None) (new_live_client True True))"

definition match_playing :: live_client where
  "match_playing = live_step (MatchDataIn 0 OP_MATCH_STARTED (Some (message_json (MatchStarted example_started)))) match_found"

definition match_lost :: live_client where
  "match_lost = live_step (SocketLost 0) match_playing"

lemma match_reached: "reached True True match_playing" "reached True True match_lost"
  unfolding match_playing_def match_found_def match_lost_def by (rule reached.intros)+

lemma message_version: "prop_of (message_json m) ''schemaVersion'' = Some (jnum 2)"
  by (simp add: message_json_def prop_of_def MATCH_SCHEMA_VERSION_2_def split: prod.split)

lemma data_in: "message_ok m \<Longrightarrow> listening sock c \<Longrightarrow> opCode = expectedOpcode m
    \<Longrightarrow> live_step (MatchDataIn sock opCode (Some (message_json m))) c = handle_message m c"
  by (simp add: live_step_def handleMatchData_def message_version handleTwoVTwoPayload_def parse_message_json)

lemma found: "current match_found = Some (connecting_session ''raw'' 0) \<and> listening 0 match_found \<and> \<not> lv_closed match_found"
  by (simp add: match_found_def live_step_def connect_live_def new_live_client_def connectQueue2v2_def submitTicket_def plumbing
      truthy_text_def Let_def handleMatchmakerMatched_def listening_def)

lemma playing_step: "match_playing = emit_event (Started2v2 example_started)
    (change_current (\<lambda>s. (adoptSession example_started s)\<lparr>ls_phase := Active\<rparr>) match_found)"
  unfolding match_playing_def
  by (subst data_in [OF example_ok])
     (simp_all add: found expectedOpcode_def handle_message_def handleMatchStarted2v2_def connecting_session_def)

lemma playing: "current match_playing = Some ((adoptSession example_started (connecting_session ''raw'' 0))\<lparr>ls_phase := Active\<rparr>)
    \<and> listening 0 match_playing \<and> \<not> lv_closed match_playing"
  using found by (simp add: playing_step) (auto simp: emit_event_def effect_def listening_def change_current_def put_session_def
      split: option.splits)

lemma phase_attempt: "map_option ls_phase (current (scheduleReconnectAttempt delay c)) = map_option ls_phase (current c)"
  by (auto simp: scheduleReconnectAttempt_def change_reconnect_def case_prod_unfold Let_def option.map_comp comp_def)

lemma phase_begin: "current c = Some s \<Longrightarrow> ls_phase s = Active \<Longrightarrow> \<not> lv_closed c
    \<Longrightarrow> map_option ls_phase (current (beginReconnect c)) = Some Reconnecting"
  by (simp add: beginReconnect_def Let_def case_prod_unfold phase_attempt change_reconnect_def)

lemma lost: "\<exists>s. current match_lost = Some s \<and> ls_phase s = Reconnecting"
proof -
  have "match_lost = beginReconnect match_playing"
    using playing by (simp add: match_lost_def live_step_def socket_lost_def adoptSession_def)
  then show ?thesis using playing phase_begin [of match_playing] by auto
qed

lemma reconnecting_ends_witness: "\<exists>h. map_of (lv_timers match_lost) h = Some (ReconnectDeadline, 25000)"
proof -
  obtain s where "current match_lost = Some s" "ls_phase s = Reconnecting" using lost by blast
  from reconnecting_ends [OF match_reached(2) this] show ?thesis by blast
qed

lemma orders_numbered_once_witness:
  "last (lv_out (live_step (CallDispatch ''t1'' ''t2'') match_playing)) = Returned 7"
proof -
  let ?s = "(adoptSession example_started (connecting_session ''raw'' 0))\<lparr>ls_phase := Active\<rparr>"
  have s: "current match_playing = Some ?s" "ls_nextSequence ?s = 7" "ls_phase ?s = Active"
    using playing by (simp_all add: adoptSession_def example_started_def)
  then have "ls_nextSequence ?s < 2 ^ 53 - 1" by simp
  from orders_numbered_once [OF match_reached(1) s(1) this refl, of "''t1''" "''t2''"] s(2,3) show ?thesis by simp
qed

end
