(* ===== verification/Tutorial.thy ===== *)
theory Tutorial
  imports Career LaneEngine
begin

text \<open>
  The guided training of \<open>apps/game/src\<close>: \<open>tutorial/TutorialController.ts\<close>, \<open>tutorial/trainingGuidance.ts\<close>,
  \<open>tutorial/tacticalGuidance.ts\<close> and \<open>lane/LaneTutorial.ts\<close>. The texts of the instructions are not modelled.
  \<open>localeCompare\<close> is the parameter \<open>loc\<close>: its order is that of the browser's locale.
\<close>

section \<open>The controller\<close>

definition TUTORIAL_ENEMY_BASE_ID :: string where "TUTORIAL_ENEMY_BASE_ID = ''e_base''"

datatype tutorial_step = DragToAttack | PreviewResult | TowerRoles | MultiDispatch | DestroyBase

definition TUTORIAL_STEPS :: "tutorial_step list" where
  "TUTORIAL_STEPS = [DragToAttack, PreviewResult, TowerRoles, MultiDispatch, DestroyBase]"

datatype tutorial_event = Started | StepEntered tutorial_step | StepCompleted tutorial_step | Completed
  | Skipped "tutorial_step option"

record tutorial_options =
  to_tactical :: bool
  to_quick :: bool
  to_startStep :: "js_number option"
  to_resumeCompleted :: bool

record tutorial =
  tc_stepIndex :: nat
  tc_quick :: bool
  tc_tactical :: bool
  tc_isCompleted :: bool
  tc_isSkipped :: bool
  tc_destroyed :: bool
  tc_firstCapture :: bool
  tc_previewShown :: bool
  tc_stepElapsed :: num
  tc_events :: "tutorial_event list"

definition PREVIEW_RESULT_MIN_DURATION :: num where "PREVIEW_RESULT_MIN_DURATION = 5 / 2"
definition TOWER_ROLES_MIN_DURATION :: num where "TOWER_ROLES_MIN_DURATION = 3 / 2"

definition isActive :: "tutorial \<Rightarrow> bool" where
  "isActive t \<longleftrightarrow> \<not> tc_isCompleted t \<and> \<not> tc_isSkipped t \<and> \<not> tc_destroyed t"

definition currentStepId :: "tutorial \<Rightarrow> tutorial_step option" where
  "currentStepId t =
     (if isActive t \<and> tc_stepIndex t < length TUTORIAL_STEPS then Some (TUTORIAL_STEPS ! tc_stepIndex t) else None)"

definition shouldPauseSimulation :: "tutorial \<Rightarrow> bool" where
  "shouldPauseSimulation t \<longleftrightarrow> isActive t \<and> tc_stepIndex t = 0"

definition tutorial_emit :: "tutorial_event \<Rightarrow> tutorial \<Rightarrow> tutorial" where
  "tutorial_emit e t = (if tc_destroyed t then t else t\<lparr>tc_events := tc_events t @ [e]\<rparr>)"

text \<open>The quick tour leaves out the second and the fourth step.\<close>

definition quick_index :: "bool \<Rightarrow> nat \<Rightarrow> nat" where
  "quick_index quick i = (if quick \<and> (i = 1 \<or> i = 3) then Suc i else i)"

text \<open>\<open>Math.trunc\<close> of the start step; whatever is not one of the steps is a fresh start.\<close>

definition start_index :: "js_number option \<Rightarrow> nat" where
  "start_index startStep = (case startStep of
       Some (Finite x) \<Rightarrow>
         let requested = (if 0 \<le> x then math_floor x else math_ceil x)
         in if 0 < requested \<and> requested < of_nat (length TUTORIAL_STEPS) then nat \<lfloor>requested\<rfloor> else 0
     | _ \<Rightarrow> 0)"

definition enter_step :: "tutorial \<Rightarrow> tutorial" where
  "enter_step t = (case currentStepId t of Some s \<Rightarrow> tutorial_emit (StepEntered s) t | None \<Rightarrow> t)"

definition new_tutorial :: "tutorial_options \<Rightarrow> tutorial" where
  "new_tutorial opts =
     (let quick = (\<not> to_tactical opts \<and> to_quick opts);
          t = \<lparr>tc_stepIndex = 0, tc_quick = quick, tc_tactical = to_tactical opts, tc_isCompleted = False,
            tc_isSkipped = False, tc_destroyed = False, tc_firstCapture = False, tc_previewShown = False,
            tc_stepElapsed = 0, tc_events = []\<rparr>
      in if to_resumeCompleted opts then t\<lparr>tc_stepIndex := length TUTORIAL_STEPS - 1, tc_isCompleted := True\<rparr>
         else enter_step (tutorial_emit Started
           (t\<lparr>tc_stepIndex := quick_index quick (start_index (to_startStep opts))\<rparr>)))"

definition advanceStep :: "tutorial \<Rightarrow> tutorial" where
  "advanceStep t = (if \<not> isActive t then t
     else
       let t1 = t\<lparr>tc_stepIndex := quick_index (tc_quick t) (Suc (tc_stepIndex t)), tc_stepElapsed := 0,
             tc_previewShown := False, tc_firstCapture := False\<rparr>;
           t2 = (case currentStepId t of Some s \<Rightarrow> tutorial_emit (StepCompleted s) t1 | None \<Rightarrow> t1)
       in if length TUTORIAL_STEPS \<le> tc_stepIndex t2 then tutorial_emit Completed (t2\<lparr>tc_isCompleted := True\<rparr>)
          else enter_step t2)"

definition onDispatch :: "string list \<Rightarrow> tutorial \<Rightarrow> tutorial" where
  "onDispatch sourceIds t = (case currentStepId t of
       Some DragToAttack \<Rightarrow> if 1 \<le> length sourceIds then advanceStep t else t
     | Some MultiDispatch \<Rightarrow> if \<not> tc_tactical t \<and> 2 \<le> length sourceIds then advanceStep t else t
     | _ \<Rightarrow> t)"

definition onReinforcement :: "tutorial \<Rightarrow> tutorial" where
  "onReinforcement t = (if tc_tactical t \<and> isActive t \<and> currentStepId t = Some MultiDispatch then advanceStep t else t)"

definition onCapture :: "string \<Rightarrow> bool \<Rightarrow> tutorial \<Rightarrow> tutorial" where
  "onCapture territoryId capturedByPlayer t =
     (if \<not> isActive t \<or> \<not> capturedByPlayer then t
      else
        let t1 = t\<lparr>tc_firstCapture := True\<rparr>
        in if currentStepId t = Some TowerRoles then
             if TOWER_ROLES_MIN_DURATION \<le> tc_stepElapsed t then advanceStep t1 else t1
           else if currentStepId t = Some DestroyBase \<and> territoryId = TUTORIAL_ENEMY_BASE_ID then advanceStep t1
           else t1)"

definition onPreviewShown :: "tutorial \<Rightarrow> tutorial" where
  "onPreviewShown t = (if isActive t then t\<lparr>tc_previewShown := True\<rparr> else t)"

definition onTimerTick :: "js_number \<Rightarrow> tutorial \<Rightarrow> tutorial" where
  "onTimerTick deltaSeconds t = (case deltaSeconds of
       Finite delta \<Rightarrow>
         if \<not> isActive t \<or> delta \<le> 0 then t
         else
           let t1 = t\<lparr>tc_stepElapsed := jadd (tc_stepElapsed t) delta\<rparr>
           in if currentStepId t = Some PreviewResult then
                if tc_previewShown t1 \<and> PREVIEW_RESULT_MIN_DURATION \<le> tc_stepElapsed t1 then advanceStep t1 else t1
              else if currentStepId t = Some TowerRoles then
                if tc_firstCapture t1 \<and> TOWER_ROLES_MIN_DURATION \<le> tc_stepElapsed t1 then advanceStep t1 else t1
              else t1
     | _ \<Rightarrow> t)"

definition skip :: "tutorial \<Rightarrow> tutorial" where
  "skip t = (if isActive t then tutorial_emit (Skipped (currentStepId t)) (t\<lparr>tc_isSkipped := True\<rparr>) else t)"

definition destroy_tutorial :: "tutorial \<Rightarrow> tutorial" where
  "destroy_tutorial t = t\<lparr>tc_destroyed := True\<rparr>"

text \<open>What the battle scene reports to the controller.\<close>

datatype tutorial_input = TowersSent "string list" | Reinforced | TowerCaptured string bool | PreviewShown | TimerTick js_number
  | SkipPressed | SceneDestroyed

definition tutorial_step_in :: "tutorial_input \<Rightarrow> tutorial \<Rightarrow> tutorial" where
  "tutorial_step_in inp t = (case inp of
       TowersSent sourceIds \<Rightarrow> onDispatch sourceIds t
     | Reinforced \<Rightarrow> onReinforcement t
     | TowerCaptured territoryId byPlayer \<Rightarrow> onCapture territoryId byPlayer t
     | PreviewShown \<Rightarrow> onPreviewShown t
     | TimerTick delta \<Rightarrow> onTimerTick delta t
     | SkipPressed \<Rightarrow> skip t
     | SceneDestroyed \<Rightarrow> destroy_tutorial t)"

definition tutorial_run :: "tutorial_input list \<Rightarrow> tutorial \<Rightarrow> tutorial" where
  "tutorial_run inputs t = fold tutorial_step_in inputs t"

section \<open>The sandbox of the training battle\<close>

definition PLAYER_BASE_ID :: string where "PLAYER_BASE_ID = ''p_base''"
definition TRAINING_PLAYER_BASE_UNITS :: num where "TRAINING_PLAYER_BASE_UNITS = 40"
definition TRAINING_ENEMY_BASE_UNITS :: num where "TRAINING_ENEMY_BASE_UNITS = 10"
definition TRAINING_ENEMY_BASE_PRODUCTION :: num where "TRAINING_ENEMY_BASE_PRODUCTION = fl (1 / 5)"

definition isTrainingTerritoryBright :: "string \<Rightarrow> team option \<Rightarrow> string list \<Rightarrow> bool" where
  "isTrainingTerritoryBright i owner spotlightIds \<longleftrightarrow> i \<in> set spotlightIds \<or> owner = Some Player"

definition boost_player_base :: "territory obj \<Rightarrow> territory obj" where
  "boost_player_base ts = (case obj_get ts PLAYER_BASE_ID of
       Some t \<Rightarrow> obj_set PLAYER_BASE_ID (t\<lparr>t_units := min (max (t_units t) TRAINING_PLAYER_BASE_UNITS) (t_maxUnits t)\<rparr>) ts
     | None \<Rightarrow> ts)"

definition applyTrainingSandbox :: "territory obj \<Rightarrow> territory obj" where
  "applyTrainingSandbox ts =
     (let ts' = boost_player_base ts
      in case obj_get ts' TUTORIAL_ENEMY_BASE_ID of
        Some t \<Rightarrow> obj_set TUTORIAL_ENEMY_BASE_ID
          (t\<lparr>t_units := min TRAINING_ENEMY_BASE_UNITS (t_maxUnits t), t_productionRate := TRAINING_ENEMY_BASE_PRODUCTION\<rparr>) ts'
      | None \<Rightarrow> ts')"

definition holdTrainingEnemyBase :: "territory obj \<Rightarrow> territory obj" where
  "holdTrainingEnemyBase ts = (case obj_get ts TUTORIAL_ENEMY_BASE_ID of
       Some t \<Rightarrow> if t_owner t = Enemy \<and> TRAINING_ENEMY_BASE_UNITS < t_units t
         then obj_set TUTORIAL_ENEMY_BASE_ID (t\<lparr>t_units := TRAINING_ENEMY_BASE_UNITS\<rparr>) ts else ts
     | None \<Rightarrow> ts)"

section \<open>Where the hand points\<close>

record guidance =
  gd_spotlightIds :: "string list"
  gd_hintPath :: "string list"

definition tower_distance :: "hypot_fn \<Rightarrow> territory \<Rightarrow> territory \<Rightarrow> num" where
  "tower_distance hyp a b = hyp (jsub (t_x a) (t_x b)) (jsub (t_y a) (t_y b))"

text \<open>\<open>reduce\<close> without an initial value: the first of the farthest.\<close>

definition farthest :: "hypot_fn \<Rightarrow> territory \<Rightarrow> territory list \<Rightarrow> territory" where
  "farthest hyp base ts =
     foldl (\<lambda>far t. if tower_distance hyp far base < tower_distance hyp t base then t else far) (hd ts) (tl ts)"

text \<open>The index of the first of the nearest.\<close>

definition nearest_index :: "hypot_fn \<Rightarrow> territory \<Rightarrow> territory list \<Rightarrow> nat" where
  "nearest_index hyp current ts =
     fold (\<lambda>i best. if tower_distance hyp current (ts ! i) < tower_distance hyp current (ts ! best) then i else best)
       [1..<length ts] 0"

lemma nearest_index_less: "ts \<noteq> [] \<Longrightarrow> nearest_index hyp current ts < length ts"
proof -
  have "fold (\<lambda>i best. if tower_distance hyp current (ts ! i) < tower_distance hyp current (ts ! best) then i else best) xs b < n"
    if "\<forall>i\<in>set xs. i < n" "b < n" for xs b n
    using that by (induction xs arbitrary: b) auto
  moreover assume "ts \<noteq> []"
  ultimately show ?thesis by (simp add: nearest_index_def)
qed

text \<open>\<open>splice(i, 1)\<close>.\<close>

definition remove_at :: "nat \<Rightarrow> 'a list \<Rightarrow> 'a list" where
  "remove_at i xs = take i xs @ drop (Suc i) xs"

lemma length_remove_at: "i < length xs \<Longrightarrow> length (remove_at i xs) < length xs"
  by (simp add: remove_at_def)

function nearest_first :: "hypot_fn \<Rightarrow> territory \<Rightarrow> territory list \<Rightarrow> territory list" where
  "nearest_first hyp current remaining =
     (if remaining = [] then []
      else
        let best = nearest_index hyp current remaining
        in remaining ! best # nearest_first hyp (remaining ! best) (remove_at best remaining))"
  by pat_completeness auto
termination
  by (relation "measure (\<lambda>(_, _, remaining). length remaining)") (auto intro: length_remove_at nearest_index_less)

declare nearest_first.simps [simp del]

definition sweepPath :: "hypot_fn \<Rightarrow> territory list \<Rightarrow> territory \<Rightarrow> territory list" where
  "sweepPath hyp towers base =
     (if length towers \<le> 1 then towers
      else let current = farthest hyp base towers in current # nearest_first hyp current (remove1 current towers))"

definition dispatchablePlayerTowers :: "territory obj \<Rightarrow> territory list" where
  "dispatchablePlayerTowers ts = filter (\<lambda>t. t_owner t = Player \<and> 1 < t_units t) (obj_values ts)"

definition cmp_strength :: "territory \<Rightarrow> territory \<Rightarrow> num" where
  "cmp_strength a b = cmp_or (jsub (t_units b) (t_units a)) (jsub (t_x a) (t_x b))"

definition cmp_base_first :: "territory \<Rightarrow> territory \<Rightarrow> num" where
  "cmp_base_first a b = cmp_or (jsub (if t_id b = PLAYER_BASE_ID then 1 else 0) (if t_id a = PLAYER_BASE_ID then 1 else 0))
     (cmp_strength a b)"

definition strongestPlayerTower :: "territory obj \<Rightarrow> territory option" where
  "strongestPlayerTower ts = (case js_sort cmp_base_first (dispatchablePlayerTowers ts) of
       t # _ \<Rightarrow> Some t | [] \<Rightarrow> obj_get ts PLAYER_BASE_ID)"

definition nearestCapturableTarget :: "hypot_fn \<Rightarrow> territory obj \<Rightarrow> territory \<Rightarrow> bool \<Rightarrow> territory option" where
  "nearestCapturableTarget hyp ts source includeEnemyBase =
     (let candidates = filter (\<lambda>t. t_id t \<noteq> t_id source \<and> t_owner t \<noteq> Player
            \<and> (includeEnemyBase \<or> t_id t \<noteq> TUTORIAL_ENEMY_BASE_ID)) (obj_values ts)
      in case js_sort (\<lambda>a b. cmp_or (jsub (tower_distance hyp source a) (tower_distance hyp source b)) (jsub (t_x a) (t_x b)))
             candidates of
        t # _ \<Rightarrow> Some t | [] \<Rightarrow> None)"

definition same_path :: "string list \<Rightarrow> guidance" where
  "same_path ids = \<lparr>gd_spotlightIds = ids, gd_hintPath = ids\<rparr>"

definition finale_guidance :: "hypot_fn \<Rightarrow> territory obj \<Rightarrow> territory \<Rightarrow> guidance" where
  "finale_guidance hyp ts playerBase =
     (let towers = dispatchablePlayerTowers ts;
          sources = (if towers \<noteq> [] then towers else [playerBase]);
          ordered = (case obj_get ts TUTORIAL_ENEMY_BASE_ID of
              Some base \<Rightarrow> sweepPath hyp sources base | None \<Rightarrow> js_sort cmp_strength sources)
      in same_path (map t_id ordered @ [TUTORIAL_ENEMY_BASE_ID]))"

definition chained_towers :: "territory obj \<Rightarrow> territory \<Rightarrow> territory list" where
  "chained_towers ts source = (case js_sort cmp_strength (dispatchablePlayerTowers ts) of
       a # b # _ \<Rightarrow> [a, b] | [a] \<Rightarrow> [a] | [] \<Rightarrow> [source])"

definition combo_guidance :: "hypot_fn \<Rightarrow> territory obj \<Rightarrow> territory \<Rightarrow> guidance" where
  "combo_guidance hyp ts source =
     (let chained = chained_towers ts source
      in case nearestCapturableTarget hyp ts (hd chained) False of
           None \<Rightarrow> \<lparr>gd_spotlightIds = map t_id chained, gd_hintPath = []\<rparr>
         | Some target \<Rightarrow>
             same_path (map t_id (js_sort (\<lambda>a b. jsub (tower_distance hyp b target) (tower_distance hyp a target)) chained)
               @ [t_id target]))"

definition resolveTrainingGuidance :: "hypot_fn \<Rightarrow> territory obj \<Rightarrow> tutorial_step \<Rightarrow> guidance" where
  "resolveTrainingGuidance hyp ts stepId = (case obj_get ts PLAYER_BASE_ID of
       None \<Rightarrow> same_path []
     | Some playerBase \<Rightarrow>
         if stepId = DestroyBase then finale_guidance hyp ts playerBase
         else case strongestPlayerTower ts of
             None \<Rightarrow> \<lparr>gd_spotlightIds = [PLAYER_BASE_ID], gd_hintPath = []\<rparr>
           | Some source \<Rightarrow>
               if stepId = MultiDispatch then combo_guidance hyp ts source
               else case nearestCapturableTarget hyp ts source False of
                   None \<Rightarrow> \<lparr>gd_spotlightIds = [t_id source], gd_hintPath = []\<rparr>
                 | Some target \<Rightarrow> same_path [t_id source, t_id target])"

section \<open>Guidance under the tactical rules\<close>

text \<open>\<open>filter\<close> and the search for the first element, with a route search as the test.\<close>

definition hint_route :: "hypot_fn \<Rightarrow> game_state \<Rightarrow> territory \<Rightarrow> territory \<Rightarrow> bool result" where
  "hint_route hyp s a b = rbind (findDispatchRoute hyp s (t_id a) (t_id b) Player) (\<lambda>r. Inr (r \<noteq> None))"

definition hint_detour :: "hypot_fn \<Rightarrow> game_state \<Rightarrow> territory \<Rightarrow> territory \<Rightarrow> bool result" where
  "hint_detour hyp s a b = rbind (findDispatchRoute hyp s (t_id a) (t_id b) Player)
     (\<lambda>r. Inr (case r of Some route \<Rightarrow> 3 \<le> length route | None \<Rightarrow> False))"

text \<open>An attack that would win, from every tower that may take part.\<close>

definition winning_attack ::
  "hypot_fn \<Rightarrow> game_state \<Rightarrow> territory list \<Rightarrow> territory \<Rightarrow> string list option result" where
  "winning_attack hyp s owned target =
     rbind (filter_res (\<lambda>a. hint_route hyp s a target) owned) (\<lambda>sources.
       rbind (previewOrder hyp s (map t_id sources) (t_id target) Player (Finite 1) 1) (\<lambda>p.
         Inr (if map_option t_owner (op_projected p) = Some Player then Some (map t_id sources @ [t_id target]) else None)))"

text \<open>Moving rear troops to the first front that reaches a target, or attacking from it when there are none.\<close>

definition concentrate ::
  "hypot_fn \<Rightarrow> game_state \<Rightarrow> territory list \<Rightarrow> territory \<times> territory \<Rightarrow> string list option result" where
  "concentrate hyp s owned pair = (case pair of (target, front) \<Rightarrow>
     rbind (hint_route hyp s front target) (\<lambda>ok.
       if \<not> ok then Inr None
       else rbind (find_res (\<lambda>t. if t_id t \<noteq> t_id front then hint_route hyp s t front else Inr False) owned) (\<lambda>rear.
         Inr (Some (case rear of Some r \<Rightarrow> [t_id r, t_id front] | None \<Rightarrow> [t_id front, t_id target])))))"

definition pair_path :: "territory \<times> territory \<Rightarrow> string list" where
  "pair_path p = [t_id (fst p), t_id (snd p)]"

text \<open>For the chain step: a pair of own towers with a road over a third one, else any pair with a route.\<close>

definition chain_path :: "hypot_fn \<Rightarrow> game_state \<Rightarrow> territory list \<Rightarrow> string list option result" where
  "chain_path hyp s owned =
     rbind (find_res (\<lambda>(a, b). hint_detour hyp s a b) (List.product owned owned)) (\<lambda>p.
       if p \<noteq> None then Inr (map_option pair_path p)
       else rbind (find_res (\<lambda>(a, b). hint_route hyp s a b) (List.product owned owned)) (\<lambda>p. Inr (map_option pair_path p)))"

definition resolveTacticalTrainingGuidance ::
  "(string \<Rightarrow> string \<Rightarrow> num) \<Rightarrow> hypot_fn \<Rightarrow> game_state \<Rightarrow> tutorial_step \<Rightarrow> guidance result" where
  "resolveTacticalTrainingGuidance loc hyp s step =
     (let towers = obj_values (g_territories s);
          owned = js_sort (\<lambda>a b. cmp_or (jsub (t_units b) (t_units a)) (loc (t_id a) (t_id b)))
            (filter (\<lambda>t. t_owner t = Player \<and> 1 < t_units t) towers);
          targets = js_sort (\<lambda>a b. cmp_or (if step = DestroyBase then jsub (t_y a) (t_y b) else jsub (t_y b) (t_y a))
              (loc (t_id a) (t_id b)))
            (filter (\<lambda>t. t_owner t \<noteq> Player \<and> (step = DestroyBase \<or> t_id t \<noteq> TUTORIAL_ENEMY_BASE_ID)) towers)
      in rbind (if step = MultiDispatch then chain_path hyp s owned else Inr None) (\<lambda>chain.
         rbind (if chain \<noteq> None then Inr chain else first_res (winning_attack hyp s owned) targets) (\<lambda>attack.
         rbind (if attack \<noteq> None then Inr attack else first_res (concentrate hyp s owned) (List.product targets owned)) (\<lambda>path.
         Inr (same_path (case path of Some ids \<Rightarrow> ids | None \<Rightarrow> []))))))"

section \<open>The guide of lane battles\<close>

definition LANE_TUTORIAL_CONQUER_SECONDS :: num where "LANE_TUTORIAL_CONQUER_SECONDS = 6"

datatype lane_tutorial_step = DragStep | CutStep | ConquerStep

record lane_tutorial =
  lt_step :: lane_tutorial_step
  lt_conquerSince :: "num option"
  lt_hadLane :: bool
  lt_finished :: bool

definition new_lane_tutorial :: lane_tutorial where
  "new_lane_tutorial = \<lparr>lt_step = DragStep, lt_conquerSince = None, lt_hadLane = False, lt_finished = False\<rparr>"

record hand =
  hd_from :: "num \<times> num"
  hd_to :: "num \<times> num"

definition drag_hand :: "hypot_fn \<Rightarrow> game_state \<Rightarrow> lane_state \<Rightarrow> hand option result" where
  "drag_hand hyp s lanes =
     rbind (planLanes hyp s lanes Player \<lparr>pl_skill = None, pl_config = None\<rparr>) (\<lambda>plan.
       let a = (case lo_open plan of ord # _ \<Rightarrow> lo_from ord | [] \<Rightarrow> ''p_base'');
           b = (case lo_open plan of ord # _ \<Rightarrow> lo_to ord | [] \<Rightarrow> ''n_bot_left'')
       in Inr (case (obj_get (g_territories s) a, obj_get (g_territories s) b) of
            (Some f, Some t) \<Rightarrow> Some \<lparr>hd_from = (t_x f, t_y f), hd_to = (t_x t, t_y t)\<rparr>
          | _ \<Rightarrow> None))"

text \<open>A sweep across the middle of the lane.\<close>

definition cut_hand :: "game_state \<Rightarrow> lane option \<Rightarrow> hand option" where
  "cut_hand s lane = (case lane of
       None \<Rightarrow> None
     | Some l \<Rightarrow> if la_routeIds l = [] then None
         else (case (obj_get (g_territories s) (hd (la_routeIds l)), obj_get (g_territories s) (last (la_routeIds l))) of
             (Some a, Some b) \<Rightarrow>
               let mx = jdiv (jadd (t_x a) (t_x b)) 2; my = jdiv (jadd (t_y a) (t_y b)) 2;
                   dx = jmul (jsub (t_y b) (t_y a)) (fl (3 / 10)); dy = jmul (- jsub (t_x b) (t_x a)) (fl (3 / 10))
               in Some \<lparr>hd_from = (jadd mx dx, jadd my dy), hd_to = (jsub mx dx, jsub my dy)\<rparr>
           | _ \<Rightarrow> None))"

record lane_tutorial_view =
  lw_step :: lane_tutorial_step
  lw_hand :: "hand option"

definition to_cut :: "lane list \<Rightarrow> lane_tutorial \<Rightarrow> lane_tutorial" where
  "to_cut playerLanes t = (if lt_step t = DragStep \<and> playerLanes \<noteq> [] then t\<lparr>lt_step := CutStep, lt_hadLane := True\<rparr> else t)"

definition to_conquer :: "lane list \<Rightarrow> num \<Rightarrow> lane_tutorial \<Rightarrow> lane_tutorial" where
  "to_conquer playerLanes nowSeconds t = (if lt_step t = CutStep \<and> lt_hadLane t \<and> playerLanes = []
     then t\<lparr>lt_step := ConquerStep, lt_conquerSince := Some nowSeconds\<rparr> else t)"

definition update_lane_tutorial ::
  "hypot_fn \<Rightarrow> game_state \<Rightarrow> lane_state \<Rightarrow> num \<Rightarrow> lane_tutorial \<Rightarrow> (lane_tutorial_view option \<times> lane_tutorial) result" where
  "update_lane_tutorial hyp s lanes nowSeconds t =
     (if lt_finished t then Inr (None, t)
      else
        let playerLanes = filter (\<lambda>l. la_owner l = Player) (ls_lanes lanes);
            t' = to_conquer playerLanes nowSeconds (to_cut playerLanes t);
            over = (case lt_conquerSince t' of
                Some since \<Rightarrow> lt_step t' = ConquerStep \<and> LANE_TUTORIAL_CONQUER_SECONDS \<le> jsub nowSeconds since
              | None \<Rightarrow> False)
        in if over then Inr (None, t'\<lparr>lt_finished := True\<rparr>)
           else rbind (case lt_step t' of
                DragStep \<Rightarrow> drag_hand hyp s lanes
              | CutStep \<Rightarrow> Inr (cut_hand s (if playerLanes = [] then None else Some (hd playerLanes)))
              | ConquerStep \<Rightarrow> Inr None)
             (\<lambda>h. Inr (Some \<lparr>lw_step = lt_step t', lw_hand = h\<rparr>, t')))"

end
