(* ===== verification/TutorialFacts.thy ===== *)
theory TutorialFacts
  imports Tutorial LaneBattle "HOL-Library.Sublist"
begin

text \<open>
  Facts about \<open>Tutorial\<close>: the lessons are taken in order and earned by doing, the hand points at moves that can be
  played, and under the tactical rules the hint is the right one of the legal moves.
\<close>

section \<open>Lessons\<close>

text \<open>The lessons of a session, from its start step; the quick tour leaves two out.\<close>

definition lesson_indices :: "bool \<Rightarrow> nat \<Rightarrow> nat \<Rightarrow> nat list" where
  "lesson_indices quick i n = filter (\<lambda>j. \<not> (quick \<and> (j = 1 \<or> j = 3))) [i..<n]"

definition quick_tour :: "tutorial_options \<Rightarrow> bool" where
  "quick_tour opts \<longleftrightarrow> \<not> to_tactical opts \<and> to_quick opts"

definition first_index :: "tutorial_options \<Rightarrow> nat" where
  "first_index opts = quick_index (quick_tour opts) (start_index (to_startStep opts))"

definition lessons_until :: "tutorial_options \<Rightarrow> nat \<Rightarrow> tutorial_step list" where
  "lessons_until opts n =
     map ((!) TUTORIAL_STEPS) (lesson_indices (quick_tour opts) (first_index opts) n)"

abbreviation lessons :: "tutorial_options \<Rightarrow> tutorial_step list" where
  "lessons opts \<equiv> lessons_until opts (length TUTORIAL_STEPS)"

text \<open>What the player does in a lesson, and that the lessons were done one after the other.\<close>

fun demonstrates :: "bool \<Rightarrow> tutorial_step \<Rightarrow> tutorial_input \<Rightarrow> bool" where
  "demonstrates tactical DragToAttack (TowersSent sources) \<longleftrightarrow> sources \<noteq> []"
| "demonstrates tactical PreviewResult PreviewShown \<longleftrightarrow> True"
| "demonstrates tactical TowerRoles (TowerCaptured i byPlayer) \<longleftrightarrow> byPlayer"
| "demonstrates tactical MultiDispatch (TowersSent sources) \<longleftrightarrow> \<not> tactical \<and> 2 \<le> length sources"
| "demonstrates tactical MultiDispatch Reinforced \<longleftrightarrow> tactical"
| "demonstrates tactical DestroyBase (TowerCaptured i byPlayer) \<longleftrightarrow> byPlayer \<and> i = TUTORIAL_ENEMY_BASE_ID"
| "demonstrates tactical _ _ \<longleftrightarrow> False"

definition performed :: "bool \<Rightarrow> tutorial_input list \<Rightarrow> tutorial_step list \<Rightarrow> bool" where
  "performed tactical inputs steps \<longleftrightarrow> (\<exists>demos. subseq demos inputs \<and> list_all2 (demonstrates tactical) steps demos)"

lemma performed_more: "performed tactical inputs steps \<Longrightarrow> performed tactical (inputs @ more_inputs) steps"
  by (auto simp: performed_def intro: list_emb_append2 subseq_order.trans subseq_rev_drop_many)

lemma performed_snoc: "performed tactical inputs steps \<Longrightarrow> demonstrates tactical s inp
    \<Longrightarrow> performed tactical (inputs @ [inp]) (steps @ [s])"
  unfolding performed_def by (blast intro: list_emb_append_mono [of "(=)"] list_all2_appendI subseq_order.refl list.rel_intros)

lemma performed_Nil: "performed tactical inputs []"
  by (auto simp: performed_def)

text \<open>The events of a session that has finished the first \<open>k\<close> of its lessons.\<close>

definition story :: "tutorial_step list \<Rightarrow> nat \<Rightarrow> bool \<Rightarrow> tutorial_event list" where
  "story steps k skipped =
     Started # concat (map (\<lambda>s. [StepEntered s, StepCompleted s]) (take k steps))
     @ (if k < length steps then StepEntered (steps ! k) # (if skipped then [Skipped (Some (steps ! k))] else []) else [Completed])"

section \<open>The tour\<close>

lemma steps_length: "length TUTORIAL_STEPS = 5"
  by (simp add: TUTORIAL_STEPS_def)

lemma first_index_ok: "first_index opts < 5"
  "quick_index (quick_tour opts) (first_index opts) = first_index opts"
proof -
  have less: "start_index v < 5" for v
    by (auto simp: start_index_def steps_length Let_def math_floor_def math_ceil_def nat_less_iff floor_less_iff
        split: option.split js_number.split)
  show "quick_index (quick_tour opts) (first_index opts) = first_index opts"
    by (auto simp: first_index_def quick_index_def)
  show "first_index opts < 5" using less [of "to_startStep opts"] by (auto simp: first_index_def quick_index_def)
qed

lemma lesson_indices_Suc:
  assumes "i \<le> j" "quick_index quick j = j"
  shows "lesson_indices quick i (quick_index quick (Suc j)) = lesson_indices quick i j @ [j]"
proof -
  have "[i..<Suc j] = [i..<j] @ [j]" "[i..<Suc (Suc j)] = [i..<j] @ [j, Suc j]" using assms(1) by simp_all
  then show ?thesis using assms(2) by (cases "quick \<and> (Suc j = 1 \<or> Suc j = 3)") (auto simp: lesson_indices_def quick_index_def split: if_splits)
qed

lemma lesson_indices_split:
  "i \<le> j \<Longrightarrow> j < n \<Longrightarrow> quick_index quick j = j
    \<Longrightarrow> lesson_indices quick i n = lesson_indices quick i j @ j # lesson_indices quick (Suc j) n"
proof -
  assume "i \<le> j" "j < n" "quick_index quick j = j"
  have "[i..<n] = [i..<j] @ j # [Suc j..<n]"
    using upt_add_eq_append [of i j "n - j"] \<open>i \<le> j\<close> \<open>j < n\<close> by (simp add: upt_conv_Cons)
  then show ?thesis using \<open>quick_index quick j = j\<close>
    by (auto simp: lesson_indices_def quick_index_def split: if_splits)
qed

definition on_tour :: "tutorial_options \<Rightarrow> tutorial_input list \<Rightarrow> tutorial \<Rightarrow> bool" where
  "on_tour opts inputs t \<longleftrightarrow> tc_quick t = quick_tour opts \<and> tc_tactical t = to_tactical opts
     \<and> first_index opts \<le> tc_stepIndex t \<and> tc_stepIndex t \<le> 5 \<and> quick_index (quick_tour opts) (tc_stepIndex t) = tc_stepIndex t
     \<and> (tc_isCompleted t \<longleftrightarrow> tc_stepIndex t = 5) \<and> (tc_isSkipped t \<longrightarrow> tc_stepIndex t < 5) \<and> 0 \<le> tc_stepElapsed t
     \<and> tc_events t = story (lessons opts) (length (lessons_until opts (tc_stepIndex t))) (tc_isSkipped t)
     \<and> performed (to_tactical opts) inputs (lessons_until opts (tc_stepIndex t))"

definition half_done :: "tutorial_options \<Rightarrow> tutorial_input list \<Rightarrow> tutorial \<Rightarrow> bool" where
  "half_done opts inputs t \<longleftrightarrow> (tc_previewShown t \<and> tc_stepIndex t = 1 \<or> tc_firstCapture t \<and> tc_stepIndex t = 2
     \<longrightarrow> performed (to_tactical opts) inputs (lessons_until opts (tc_stepIndex t) @ [TUTORIAL_STEPS ! tc_stepIndex t]))"

lemma on_tour_flags [simp]:
  "on_tour opts inputs (t\<lparr>tc_firstCapture := b\<rparr>) \<longleftrightarrow> on_tour opts inputs t"
  "on_tour opts inputs (t\<lparr>tc_previewShown := b\<rparr>) \<longleftrightarrow> on_tour opts inputs t"
  "on_tour opts inputs (t\<lparr>tc_destroyed := b\<rparr>) \<longleftrightarrow> on_tour opts inputs t"
  by (simp_all add: on_tour_def)

lemma on_tour_more: "on_tour opts inputs t \<Longrightarrow> on_tour opts (inputs @ [inp]) t"
  by (simp add: on_tour_def performed_more)

lemma half_done_more: "half_done opts inputs t \<Longrightarrow> half_done opts (inputs @ [inp]) t"
  by (simp add: half_done_def performed_more)

lemma lessons_split:
  assumes "first_index opts \<le> i" "i < 5" "quick_index (quick_tour opts) i = i"
  shows "\<exists>rest. lessons opts = lessons_until opts i @ TUTORIAL_STEPS ! i # rest"
  using lesson_indices_split [OF assms(1,2) assms(3)] by (auto simp: lessons_until_def steps_length)

lemma tour_current:
  assumes "on_tour opts inputs t" "isActive t"
  shows "tc_stepIndex t < 5" "currentStepId t = Some (TUTORIAL_STEPS ! tc_stepIndex t)"
proof -
  show "tc_stepIndex t < 5" using assms by (auto simp: on_tour_def isActive_def)
  then show "currentStepId t = Some (TUTORIAL_STEPS ! tc_stepIndex t)" using assms(2) by (simp add: currentStepId_def steps_length)
qed

lemma tour_advance:
  assumes tour: "on_tour opts inputs t" and active: "isActive t"
    and earned: "performed (to_tactical opts) inputs (lessons_until opts (tc_stepIndex t) @ [TUTORIAL_STEPS ! tc_stepIndex t])"
  shows "on_tour opts inputs (advanceStep t) \<and> half_done opts inputs (advanceStep t)"
proof -
  let ?q = "quick_tour opts" and ?i = "tc_stepIndex t"
  define j where "j = quick_index ?q (Suc ?i)"
  have q: "tc_quick t = ?q" "first_index opts \<le> ?i" "quick_index ?q ?i = ?i" and i: "?i < 5"
    using tour tour_current [OF tour active] by (simp_all add: on_tour_def)
  have j: "j \<le> 5" "?i < j" "quick_index ?q j = j" using i by (auto simp: j_def quick_index_def)
  have here: "lessons_until opts j = lessons_until opts ?i @ [TUTORIAL_STEPS ! ?i]"
    using lesson_indices_Suc [OF q(2) q(3)] by (simp add: lessons_until_def j_def)
  obtain rest where rest: "lessons opts = lessons_until opts ?i @ TUTORIAL_STEPS ! ?i # rest"
    using lessons_split [OF q(2) i q(3)] by blast
  have after: "if j < 5 then rest \<noteq> [] \<and> hd rest = TUTORIAL_STEPS ! j else rest = []"
  proof (cases "j < 5")
    case True
    obtain rest' where "lessons opts = lessons_until opts j @ TUTORIAL_STEPS ! j # rest'"
      using lessons_split [OF _ True j(3)] q(2) j(2) by auto
    then have "rest = TUTORIAL_STEPS ! j # rest'" using rest here by simp
    with True show ?thesis by simp
  next
    case False
    then have "lessons opts = lessons_until opts j" using j(1) by (simp add: steps_length)
    with rest here False show ?thesis by simp
  qed
  have events: "tc_events t = Started # concat (map (\<lambda>s. [StepEntered s, StepCompleted s]) (lessons_until opts ?i))
      @ [StepEntered (TUTORIAL_STEPS ! ?i)]"
    using tour active rest by (simp add: on_tour_def isActive_def story_def)
  have grown: "story (lessons opts) (length (lessons_until opts j)) False
      = tc_events t @ StepCompleted (TUTORIAL_STEPS ! ?i) # (if j < 5 then [StepEntered (TUTORIAL_STEPS ! j)] else [Completed])"
    using after by (cases rest) (auto simp: story_def here rest events nth_append split: if_splits)
  have parts: "\<not> tc_isCompleted t" "\<not> tc_isSkipped t" "\<not> tc_destroyed t" using active by (simp_all add: isActive_def)
  have adv: "advanceStep t = t\<lparr>tc_stepIndex := j, tc_stepElapsed := 0, tc_previewShown := False, tc_firstCapture := False,
      tc_isCompleted := (j = 5),
      tc_events := tc_events t @ StepCompleted (TUTORIAL_STEPS ! ?i) # (if j < 5 then [StepEntered (TUTORIAL_STEPS ! j)] else [Completed])\<rparr>"
    using active parts j(1) i
    by (simp add: advanceStep_def tour_current [OF tour active] Let_def tutorial_emit_def enter_step_def currentStepId_def isActive_def
        steps_length q(1) j_def [symmetric])
  show ?thesis using tour q j(1,2,3) parts earned grown
    by (simp add: adv on_tour_def here half_done_def)
qed

lemma tour_start: "\<not> to_resumeCompleted opts \<Longrightarrow> on_tour opts [] (new_tutorial opts) \<and> half_done opts [] (new_tutorial opts)"
proof -
  let ?q = "quick_tour opts"
  assume fresh: "\<not> to_resumeCompleted opts"
  have i: "first_index opts < 5" "quick_index ?q (first_index opts) = first_index opts" by (rule first_index_ok)+
  have none: "lessons_until opts (first_index opts) = []" by (simp add: lessons_until_def lesson_indices_def)
  obtain rest where rest: "lessons opts = TUTORIAL_STEPS ! first_index opts # rest"
    using lessons_split [OF _ i] none by auto
  have "story (lessons opts) 0 False = [Started, StepEntered (TUTORIAL_STEPS ! first_index opts)]"
    by (simp add: story_def rest)
  then show ?thesis using fresh i
    by (simp add: new_tutorial_def Let_def first_index_def [symmetric] enter_step_def tutorial_emit_def currentStepId_def isActive_def
        steps_length on_tour_def quick_tour_def [symmetric] none performed_Nil half_done_def)
qed

lemma tour_current_kind:
  assumes "on_tour opts inputs t" "isActive t" "currentStepId t = Some step"
  shows "step = TUTORIAL_STEPS ! tc_stepIndex t" "tc_stepIndex t = 1 \<longleftrightarrow> step = PreviewResult" "tc_stepIndex t = 2 \<longleftrightarrow> step = TowerRoles"
proof -
  show step: "step = TUTORIAL_STEPS ! tc_stepIndex t" using tour_current [OF assms(1,2)] assms(3) by simp
  have "tc_stepIndex t \<in> {0, 1, 2, 3, 4}" using tour_current [OF assms(1,2)] by auto
  then show "tc_stepIndex t = 1 \<longleftrightarrow> step = PreviewResult" "tc_stepIndex t = 2 \<longleftrightarrow> step = TowerRoles"
    by (auto simp: step TUTORIAL_STEPS_def)
qed

text \<open>A lesson that is demonstrated now is earned; one that was half done is earned when its time has come.\<close>

lemma tour_advance_by:
  assumes "on_tour opts inputs t" "isActive t" "currentStepId t = Some step" "demonstrates (to_tactical opts) step inp"
  shows "on_tour opts (inputs @ [inp]) (advanceStep t) \<and> half_done opts (inputs @ [inp]) (advanceStep t)"
proof (rule tour_advance [OF on_tour_more [OF assms(1)] assms(2)])
  have "performed (to_tactical opts) inputs (lessons_until opts (tc_stepIndex t))" using assms(1) by (simp add: on_tour_def)
  then show "performed (to_tactical opts) (inputs @ [inp]) (lessons_until opts (tc_stepIndex t) @ [TUTORIAL_STEPS ! tc_stepIndex t])"
    using assms(4) tour_current_kind(1) [OF assms(1-3)] by (simp add: performed_snoc)
qed

lemma half_done_advance:
  assumes "on_tour opts inputs t" "isActive t" "half_done opts inputs t"
    and "tc_previewShown t \<and> currentStepId t = Some PreviewResult \<or> tc_firstCapture t \<and> currentStepId t = Some TowerRoles"
  shows "on_tour opts (inputs @ [inp]) (advanceStep t) \<and> half_done opts (inputs @ [inp]) (advanceStep t)"
proof (rule tour_advance [OF on_tour_more [OF assms(1)] assms(2)])
  have "tc_previewShown t \<and> tc_stepIndex t = 1 \<or> tc_firstCapture t \<and> tc_stepIndex t = 2"
    using assms(4) tour_current_kind [OF assms(1,2)] by blast
  then show "performed (to_tactical opts) (inputs @ [inp]) (lessons_until opts (tc_stepIndex t) @ [TUTORIAL_STEPS ! tc_stepIndex t])"
    using assms(3) by (simp add: half_done_def performed_more)
qed

lemma active_flags [simp]:
  "isActive (t\<lparr>tc_firstCapture := b\<rparr>) \<longleftrightarrow> isActive t" "isActive (t\<lparr>tc_previewShown := b\<rparr>) \<longleftrightarrow> isActive t"
  "isActive (t\<lparr>tc_stepElapsed := x\<rparr>) \<longleftrightarrow> isActive t" "currentStepId (t\<lparr>tc_firstCapture := b\<rparr>) = currentStepId t"
  "currentStepId (t\<lparr>tc_previewShown := b\<rparr>) = currentStepId t" "currentStepId (t\<lparr>tc_stepElapsed := x\<rparr>) = currentStepId t"
  by (simp_all add: isActive_def currentStepId_def)

lemma current_active: "currentStepId t = Some step \<Longrightarrow> isActive t"
  by (simp add: currentStepId_def split: if_splits)

lemma tour_capture:
  assumes "on_tour opts inputs t" "half_done opts inputs t"
  shows "on_tour opts (inputs @ [TowerCaptured i b]) (onCapture i b t) \<and> half_done opts (inputs @ [TowerCaptured i b]) (onCapture i b t)"
proof (cases "isActive t \<and> b")
  case True
  let ?t = "t\<lparr>tc_firstCapture := True\<rparr>"
  have now: "on_tour opts (inputs @ [TowerCaptured i b]) (advanceStep ?t) \<and> half_done opts (inputs @ [TowerCaptured i b]) (advanceStep ?t)"
    if "currentStepId t = Some TowerRoles \<or> currentStepId t = Some DestroyBase \<and> i = TUTORIAL_ENEMY_BASE_ID"
    using that True assms(1) tour_advance_by [of opts inputs ?t] by fastforce
  have "half_done opts (inputs @ [TowerCaptured i b]) ?t"
  proof -
    have "performed (to_tactical opts) (inputs @ [TowerCaptured i b]) (lessons_until opts 2 @ [TUTORIAL_STEPS ! 2])"
      if "tc_stepIndex t = 2"
      using performed_snoc [of "to_tactical opts" inputs "lessons_until opts 2" TowerRoles "TowerCaptured i b"] that assms(1) True
      by (simp add: on_tour_def TUTORIAL_STEPS_def)
    then show ?thesis using half_done_more [OF assms(2)] by (auto simp: half_done_def)
  qed
  then show ?thesis using True now on_tour_more [OF assms(1)] by (auto simp: onCapture_def Let_def)
next
  case False
  then show ?thesis using assms by (auto simp: onCapture_def on_tour_more half_done_more)
qed

lemma tour_elapsed: "on_tour opts inputs t \<Longrightarrow> 0 \<le> x \<Longrightarrow> on_tour opts inputs (t\<lparr>tc_stepElapsed := x\<rparr>)"
  by (simp add: on_tour_def)

lemma half_elapsed [simp]: "half_done opts inputs (t\<lparr>tc_stepElapsed := x\<rparr>) \<longleftrightarrow> half_done opts inputs t"
  by (simp add: half_done_def)

lemma tour_tick:
  assumes "on_tour opts inputs t" "half_done opts inputs t"
  shows "on_tour opts (inputs @ [TimerTick d]) (onTimerTick d t) \<and> half_done opts (inputs @ [TimerTick d]) (onTimerTick d t)"
proof (cases "\<exists>delta. d = Finite delta \<and> isActive t \<and> 0 < delta")
  case True
  then obtain delta where d: "d = Finite delta" "isActive t" "0 < delta" by blast
  let ?t = "t\<lparr>tc_stepElapsed := jadd (tc_stepElapsed t) delta\<rparr>"
  have "0 \<le> tc_stepElapsed t" using assms(1) by (simp add: on_tour_def)
  then have t: "on_tour opts inputs ?t" "half_done opts inputs ?t"
    using d(3) assms by (auto intro!: tour_elapsed)
  show ?thesis using d t on_tour_more [OF t(1)] half_done_more [OF t(2)] half_done_advance [OF t(1) _ t(2), of "TimerTick d"]
    by (auto simp: onTimerTick_def Let_def)
next
  case False
  then show ?thesis using on_tour_more [OF assms(1)] half_done_more [OF assms(2)]
    by (auto simp: onTimerTick_def split: js_number.split)
qed

lemma tour_skip:
  assumes "on_tour opts inputs t"
  shows "on_tour opts inputs (skip t)"
proof (cases "isActive t")
  case True
  then have i: "tc_stepIndex t < 5" "currentStepId t = Some (TUTORIAL_STEPS ! tc_stepIndex t)" using tour_current [OF assms] by simp_all
  then obtain rest where "lessons opts = lessons_until opts (tc_stepIndex t) @ TUTORIAL_STEPS ! tc_stepIndex t # rest"
    using lessons_split [of opts "tc_stepIndex t"] assms by (auto simp: on_tour_def)
  then show ?thesis using assms True i
    by (auto simp: on_tour_def skip_def tutorial_emit_def isActive_def story_def)
qed (simp add: skip_def assms)

lemma half_skip: "half_done opts inputs t \<Longrightarrow> half_done opts inputs (skip t)"
  by (simp add: half_done_def skip_def tutorial_emit_def)

lemma tour_dispatch:
  assumes "on_tour opts inputs t" "half_done opts inputs t"
  shows "on_tour opts (inputs @ [TowersSent ss]) (onDispatch ss t) \<and> half_done opts (inputs @ [TowersSent ss]) (onDispatch ss t)"
proof (cases "\<exists>step. currentStepId t = Some step \<and> demonstrates (to_tactical opts) step (TowersSent ss)")
  case True
  then obtain step where step: "currentStepId t = Some step" "demonstrates (to_tactical opts) step (TowersSent ss)" by blast
  have "tc_tactical t = to_tactical opts" using assms(1) by (simp add: on_tour_def)
  then have "onDispatch ss t = advanceStep t" using step by (cases step) (auto simp: onDispatch_def Suc_le_eq)
  then show ?thesis using tour_advance_by [OF assms(1) current_active [OF step(1)] step] by simp
next
  case False
  have "tc_tactical t = to_tactical opts" using assms(1) by (simp add: on_tour_def)
  then have "onDispatch ss t = t" using False by (auto simp: onDispatch_def split: option.split tutorial_step.split)
  then show ?thesis using assms by (simp add: on_tour_more half_done_more)
qed

lemma tour_step:
  assumes "on_tour opts inputs t" "half_done opts inputs t"
  shows "on_tour opts (inputs @ [inp]) (tutorial_step_in inp t) \<and> half_done opts (inputs @ [inp]) (tutorial_step_in inp t)"
proof (cases inp)
  case (TowersSent ss)
  then show ?thesis using tour_dispatch [OF assms] by (simp add: tutorial_step_in_def)
next
  case Reinforced
  have "tc_tactical t = to_tactical opts" using assms(1) by (simp add: on_tour_def)
  then show ?thesis
    using Reinforced assms tour_advance_by [OF assms(1), of MultiDispatch Reinforced]
    by (auto simp: tutorial_step_in_def onReinforcement_def on_tour_more half_done_more)
next
  case (TowerCaptured i b)
  then show ?thesis using tour_capture [OF assms] by (simp add: tutorial_step_in_def)
next
  case PreviewShown
  have "performed (to_tactical opts) (inputs @ [PreviewShown]) (lessons_until opts 1 @ [TUTORIAL_STEPS ! 1])"
    if "tc_stepIndex t = 1"
    using performed_snoc [of "to_tactical opts" inputs "lessons_until opts 1" PreviewResult PreviewShown] that assms(1)
    by (simp add: on_tour_def TUTORIAL_STEPS_def)
  then have "half_done opts (inputs @ [PreviewShown]) (t\<lparr>tc_previewShown := True\<rparr>)"
    using half_done_more [OF assms(2)] by (auto simp: half_done_def)
  then show ?thesis using PreviewShown assms
    by (simp add: tutorial_step_in_def onPreviewShown_def on_tour_more half_done_more)
next
  case (TimerTick d)
  then show ?thesis using tour_tick [OF assms] by (simp add: tutorial_step_in_def)
next
  case SkipPressed
  then show ?thesis using on_tour_more [OF tour_skip [OF assms(1)]] half_done_more [OF half_skip [OF assms(2)]]
    by (simp add: tutorial_step_in_def)
next
  case SceneDestroyed
  then show ?thesis using on_tour_more [OF assms(1)] half_done_more [OF assms(2)]
    by (simp add: tutorial_step_in_def destroy_tutorial_def half_done_def)
qed

lemma tour_run:
  assumes "\<not> to_resumeCompleted opts"
  shows "on_tour opts inputs (tutorial_run inputs (new_tutorial opts)) \<and> half_done opts inputs (tutorial_run inputs (new_tutorial opts))"
proof (induction inputs rule: rev_induct)
  case Nil
  show ?case using tour_start [OF assms] by (simp add: tutorial_run_def)
next
  case (snoc inp inputs)
  then show ?case using tour_step by (simp add: tutorial_run_def)
qed

section \<open>Finishing the tour\<close>

text \<open>What the lessons ask for, done in order.\<close>

definition coach :: "bool \<Rightarrow> tutorial_step \<Rightarrow> tutorial_input list" where
  "coach tactical step = (case step of
       DragToAttack \<Rightarrow> [TowersSent [PLAYER_BASE_ID]]
     | PreviewResult \<Rightarrow> [PreviewShown, TimerTick (Finite 3)]
     | TowerRoles \<Rightarrow> [TowerCaptured ''n_center'' True, TimerTick (Finite 3)]
     | MultiDispatch \<Rightarrow> [if tactical then Reinforced else TowersSent [PLAYER_BASE_ID, ''n_center'']]
     | DestroyBase \<Rightarrow> [TowerCaptured TUTORIAL_ENEMY_BASE_ID True])"

lemma advance_forgets:
  "advanceStep (t\<lparr>tc_firstCapture := b\<rparr>) = (if isActive t then advanceStep t else t\<lparr>tc_firstCapture := b\<rparr>)"
  "advanceStep (t\<lparr>tc_previewShown := b\<rparr>) = (if isActive t then advanceStep t else t\<lparr>tc_previewShown := b\<rparr>)"
  "advanceStep (t\<lparr>tc_stepElapsed := x\<rparr>) = (if isActive t then advanceStep t else t\<lparr>tc_stepElapsed := x\<rparr>)"
  by (simp_all add: advanceStep_def)

lemma coach_advances:
  assumes tour: "on_tour opts inputs t" and active: "isActive t" and step: "currentStepId t = Some step"
  shows "\<exists>x. tutorial_run (coach (tc_tactical t) step) t = (advanceStep t)\<lparr>tc_stepElapsed := x\<rparr>"
proof -
  have "0 \<le> tc_stepElapsed t" using tour by (simp add: on_tour_def)
  then have late: "3 \<le> jadd (tc_stepElapsed t) 3" using fl_mono [of 3 "tc_stepElapsed t + 3"] by simp
  have same: "u = u\<lparr>tc_stepElapsed := tc_stepElapsed u\<rparr>" for u :: tutorial by simp
  have idle: "\<exists>x. onTimerTick (Finite 3) (advanceStep t) = (advanceStep t)\<lparr>tc_stepElapsed := x\<rparr>" if "step = TowerRoles"
  proof -
    have i: "tc_stepIndex t = 2" using tour_current_kind(3) [OF tour active step] that by simp
    have "currentStepId (advanceStep t) \<notin> {Some PreviewResult, Some TowerRoles}"
      using active step that i
      by (auto simp: advanceStep_def currentStepId_def isActive_def Let_def tutorial_emit_def enter_step_def steps_length quick_index_def
          TUTORIAL_STEPS_def split: if_splits)
    then show ?thesis using same [of "advanceStep t"]
      by (cases "isActive (advanceStep t)") (auto simp: onTimerTick_def Let_def intro: exI [of _ "tc_stepElapsed (advanceStep t)"])
  qed
  show ?thesis
  proof (cases step)
    case DragToAttack
    then have "tutorial_run (coach (tc_tactical t) step) t = advanceStep t"
      using step by (simp add: coach_def tutorial_run_def tutorial_step_in_def onDispatch_def)
    then show ?thesis using same [of "advanceStep t"] by metis
  next
    case PreviewResult
    then have "tutorial_run (coach (tc_tactical t) step) t = advanceStep t"
      using step active late by (simp add: coach_def tutorial_run_def tutorial_step_in_def onPreviewShown_def onTimerTick_def Let_def
          PREVIEW_RESULT_MIN_DURATION_def advance_forgets)
    then show ?thesis using same [of "advanceStep t"] by metis
  next
    case TowerRoles
    show ?thesis
    proof (cases "TOWER_ROLES_MIN_DURATION \<le> tc_stepElapsed t")
      case True
      then have "tutorial_run (coach (tc_tactical t) step) t = onTimerTick (Finite 3) (advanceStep t)"
        using TowerRoles step active
        by (simp add: coach_def tutorial_run_def tutorial_step_in_def onCapture_def Let_def advance_forgets)
      then show ?thesis using idle [OF TowerRoles] by simp
    next
      case False
      then have "tutorial_run (coach (tc_tactical t) step) t = advanceStep t"
        using TowerRoles step active late
        by (simp add: coach_def tutorial_run_def tutorial_step_in_def onCapture_def onTimerTick_def Let_def advance_forgets)
           (simp add: TOWER_ROLES_MIN_DURATION_def)
      then show ?thesis using same [of "advanceStep t"] by metis
    qed
  next
    case MultiDispatch
    then have "tutorial_run (coach (tc_tactical t) step) t = advanceStep t"
      using step active by (simp add: coach_def tutorial_run_def tutorial_step_in_def onDispatch_def onReinforcement_def)
    then show ?thesis using same [of "advanceStep t"] by metis
  next
    case DestroyBase
    then have "tutorial_run (coach (tc_tactical t) step) t = advanceStep t"
      using step active by (simp add: coach_def tutorial_run_def tutorial_step_in_def onCapture_def Let_def advance_forgets)
    then show ?thesis using same [of "advanceStep t"] by metis
  qed
qed

lemma coached:
  assumes "on_tour opts inputs t" "half_done opts inputs t" "isActive t"
  shows "tc_isCompleted (tutorial_run
    (concat (map (coach (tc_tactical t)) (map ((!) TUTORIAL_STEPS) (lesson_indices (quick_tour opts) (tc_stepIndex t) 5)))) t)"
  using assms
proof (induction "5 - tc_stepIndex t" arbitrary: inputs t rule: less_induct)
  case less
  let ?q = "quick_tour opts" and ?i = "tc_stepIndex t"
  have i: "?i < 5" "currentStepId t = Some (TUTORIAL_STEPS ! ?i)" using tour_current [OF less.prems(1,3)] by simp_all
  have q: "quick_index ?q ?i = ?i" "tc_quick t = ?q" using less.prems(1) by (simp_all add: on_tour_def)
  define ins where "ins = coach (tc_tactical t) (TUTORIAL_STEPS ! ?i)"
  obtain x where run: "tutorial_run ins t = (advanceStep t)\<lparr>tc_stepElapsed := x\<rparr>"
    using coach_advances [OF less.prems(1,3) i(2)] by (auto simp: ins_def)
  let ?t = "tutorial_run ins t" and ?j = "quick_index ?q (Suc ?i)"
  have along: "on_tour opts (inputs @ ins') (tutorial_run ins' t) \<and> half_done opts (inputs @ ins') (tutorial_run ins' t)" for ins'
  proof (induction ins' rule: rev_induct)
    case (snoc y ys)
    then show ?case using tour_step [of opts "inputs @ ys" "tutorial_run ys t" y] by (simp add: tutorial_run_def)
  qed (use less.prems in \<open>simp_all add: tutorial_run_def\<close>)
  have after: "tc_stepIndex ?t = ?j" "tc_tactical ?t = tc_tactical t" "isActive ?t \<longleftrightarrow> ?j < 5" "tc_isCompleted ?t \<longleftrightarrow> \<not> ?j < 5"
    using less.prems(3) i(2) q(2)
    by (auto simp: run advanceStep_def Let_def tutorial_emit_def enter_step_def isActive_def steps_length split: option.split)
  have list: "lesson_indices ?q ?i 5 = ?i # lesson_indices ?q ?j 5"
  proof -
    have "lesson_indices ?q ?i 5 = ?i # lesson_indices ?q (Suc ?i) 5" using lesson_indices_split [of ?i ?i 5 ?q] i(1) q(1)
      by (simp add: lesson_indices_def)
    moreover have "lesson_indices ?q (Suc ?i) 5 = lesson_indices ?q ?j 5"
      using i(1) by (auto simp: quick_index_def lesson_indices_def upt_conv_Cons)
    ultimately show ?thesis by simp
  qed
  have split: "tutorial_run (xs @ ys) t = tutorial_run ys (tutorial_run xs t)" for xs ys by (simp add: tutorial_run_def)
  show ?case
  proof (cases "?j < 5")
    case True
    have "5 - tc_stepIndex ?t < 5 - ?i" using after(1) True i(1) by (auto simp: quick_index_def split: if_splits)
    from less.hyps [OF this conjunct1 [OF along] conjunct2 [OF along]] True after
    have "tc_isCompleted (tutorial_run (concat (map (coach (tc_tactical t)) (map ((!) TUTORIAL_STEPS) (lesson_indices ?q ?j 5)))) ?t)"
      by simp
    then show ?thesis by (simp add: list split ins_def)
  next
    case False
    then have "lesson_indices ?q ?j 5 = []" by (simp add: lesson_indices_def)
    then show ?thesis using after False by (simp add: list ins_def)
  qed
qed

section \<open>Properties\<close>

text \<open>
  C37: the training is completed by doing. From any start step, with any reports of the scene in any order, the events
  tell the lessons one by one; the training is complete exactly after the last one, and each lesson told as done was
  performed in this order. Unless it was skipped or torn down, doing the lessons that are left completes it.
\<close>

theorem tutorial_earned:
  assumes "\<not> to_resumeCompleted opts" "t = tutorial_run inputs (new_tutorial opts)"
  shows "\<exists>k \<le> length (lessons opts). tc_events t = story (lessons opts) k (tc_isSkipped t)
    \<and> (tc_isCompleted t \<longleftrightarrow> k = length (lessons opts))
    \<and> performed (to_tactical opts) inputs (take k (lessons opts))
    \<and> (isActive t \<longrightarrow> tc_isCompleted (tutorial_run (concat (map (coach (to_tactical opts)) (drop k (lessons opts)))) t))"
proof -
  let ?i = "tc_stepIndex t" and ?k = "length (lessons_until opts (tc_stepIndex t))"
  have tour: "on_tour opts inputs t" "half_done opts inputs t" using tour_run [OF assms(1)] assms(2) by simp_all
  have i: "first_index opts \<le> ?i" "?i \<le> 5" "quick_index (quick_tour opts) ?i = ?i" "tc_tactical t = to_tactical opts"
    using tour(1) by (simp_all add: on_tour_def)
  have split: "lessons opts = lessons_until opts ?i @ map ((!) TUTORIAL_STEPS) (lesson_indices (quick_tour opts) ?i 5)"
    using i(1,2) upt_add_eq_append [of "first_index opts" ?i "5 - ?i"]
    by (simp add: lessons_until_def lesson_indices_def steps_length flip: map_append filter_append)
  have k: "take ?k (lessons opts) = lessons_until opts ?i"
    "drop ?k (lessons opts) = map ((!) TUTORIAL_STEPS) (lesson_indices (quick_tour opts) ?i 5)" by (simp_all add: split)
  have last: "?i = 5 \<longleftrightarrow> ?k = length (lessons opts)"
  proof (cases "?i < 5")
    case True
    then have "lesson_indices (quick_tour opts) ?i 5 \<noteq> []" using lesson_indices_split [of ?i ?i 5] i(3) by simp
    then show ?thesis using True by (simp add: split)
  qed (use i(2) in \<open>simp add: steps_length\<close>)
  have "isActive t \<longrightarrow> tc_isCompleted (tutorial_run (concat (map (coach (to_tactical opts)) (drop ?k (lessons opts)))) t)"
    using coached [OF tour] i(4) by (simp add: k(2))
  moreover have "?k \<le> length (lessons opts)" by (simp add: split)
  ultimately show ?thesis using tour(1) last by (intro exI [of _ ?k]) (simp add: k(1) on_tour_def)
qed

lemma tutorial_earned_witness:
  "\<exists>k \<le> 5. tc_events (tutorial_run [TowersSent [''p_base''], PreviewShown, SkipPressed]
      (new_tutorial \<lparr>to_tactical = False, to_quick = False, to_startStep = None, to_resumeCompleted = False\<rparr>))
    = story TUTORIAL_STEPS k True"
proof -
  let ?o = "\<lparr>to_tactical = False, to_quick = False, to_startStep = None, to_resumeCompleted = False\<rparr>"
  have l: "lessons ?o = TUTORIAL_STEPS"
    by (simp add: lessons_until_def lesson_indices_def first_index_def quick_tour_def quick_index_def start_index_def TUTORIAL_STEPS_def
        upt_conv_Cons)
  have "tc_isSkipped (tutorial_run [TowersSent [''p_base''], PreviewShown, SkipPressed] (new_tutorial ?o))"
    by (simp add: tutorial_run_def tutorial_step_in_def new_tutorial_def enter_step_def tutorial_emit_def currentStepId_def isActive_def
        start_index_def quick_index_def onDispatch_def onPreviewShown_def skip_def advanceStep_def TUTORIAL_STEPS_def Let_def)
  then show ?thesis
    using tutorial_earned [OF _ refl, of ?o "[TowersSent [''p_base''], PreviewShown, SkipPressed]", unfolded l]
    by (auto simp: steps_length)
qed

section \<open>Gestures that can be played\<close>

text \<open>A gesture sends half of every source to its last tower; it can be played when every order is accepted.\<close>

definition order_accepted :: "hypot_fn \<Rightarrow> game_state \<Rightarrow> string \<Rightarrow> string \<Rightarrow> bool" where
  "order_accepted hyp s i j \<longleftrightarrow> (\<exists>a b. obj_get (g_territories s) i = Some a \<and> obj_get (g_territories s) j = Some b
     \<and> (\<forall>armyId. \<exists>left m. dispatchArmy hyp a b Player (1 / 2) armyId (Finite 1) (Some s) = Inr (Dispatched left m)))"

definition playable :: "hypot_fn \<Rightarrow> game_state \<Rightarrow> string list \<Rightarrow> bool" where
  "playable hyp s path \<longleftrightarrow> 2 \<le> length path \<and> distinct path \<and> (\<forall>i\<in>set (butlast path). order_accepted hyp s i (last path))"

lemma playableI: "is \<noteq> [] \<Longrightarrow> distinct is \<Longrightarrow> (\<And>i. i \<in> set is \<Longrightarrow> i \<noteq> j \<and> order_accepted hyp s i j) \<Longrightarrow> playable hyp s (is @ [j])"
  by (cases "is") (auto simp: playable_def)

lemma accepted:
  assumes "hypot_ok hyp" "obj_get (g_territories s) (t_id a) = Some a" "obj_get (g_territories s) (t_id b) = Some b"
    and "t_owner a = Player" "1 < t_units a" "t_id a \<noteq> t_id b" "findDispatchRoute hyp s (t_id a) (t_id b) Player = Inr (Some route)"
  shows "order_accepted hyp s (t_id a) (t_id b)"
proof -
  have route: "dispatch_route hyp (Some s) a b Player = Inr (Some route)" by (simp add: dispatch_route_def assms(7))
  have units: "0 < calculateDispatchUnits (t_units a) (1 / 2)" using assms(5) by (simp add: calculateDispatchUnits_def)
  have "\<exists>left m. dispatchArmy hyp a b Player (1 / 2) armyId (Finite 1) (Some s) = Inr (Dispatched left m)" for armyId
  proof -
    obtain m where "routed_army hyp (Some s) a route (safe_speed_multiplier (Finite 1)) (new_army hyp a b Player
        (calculateDispatchUnits (t_units a) (1 / 2)) (safe_speed_multiplier (Finite 1)) armyId) = Inr m"
      using routed_army_total [OF assms(1) route] by blast
    then show ?thesis using assms(4,6) units by (simp add: dispatchArmy_def route Let_def)
  qed
  then show ?thesis using assms(2,3) unfolding order_accepted_def by blast
qed

lemma board_value: "wf_board ts \<Longrightarrow> t \<in> set (obj_values ts) \<Longrightarrow> obj_get ts (t_id t) = Some t"
  by (auto simp: wf_board_def wf_tower_def map_of_eq_Some_iff)

lemma board_keyed: "wf_board ts \<Longrightarrow> map t_id (obj_values ts) = obj_keys ts"
  by (auto simp: wf_board_def wf_tower_def intro: map_of_is_SomeI)

lemma board_distinct_ids: "wf_board ts \<Longrightarrow> distinct (map t_id (obj_values ts))"
  by (subst board_keyed) (simp_all add: wf_board_def)

lemma distinct_ids_filter: "wf_board ts \<Longrightarrow> distinct (map t_id (filter P (obj_values ts)))"
  using board_distinct_ids by (simp add: distinct_map_filter)

section \<open>Hints of the first rules\<close>

lemma mset_nth_remove_at: "i < length xs \<Longrightarrow> add_mset (xs ! i) (mset (remove_at i xs)) = mset xs"
  by (simp add: remove_at_def) (metis add_mset_add_single id_take_nth_drop mset.simps(2) mset_append union_mset_add_mset_right)

lemma mset_nearest_first: "mset (nearest_first hyp current ts) = mset ts"
proof (induction hyp current ts rule: nearest_first.induct)
  case (1 hyp current ts)
  then show ?case
    by (subst nearest_first.simps) (simp add: Let_def mset_nth_remove_at nearest_index_less)
qed

lemma farthest_in: "ts \<noteq> [] \<Longrightarrow> farthest hyp base ts \<in> set ts"
proof -
  have "foldl (\<lambda>far t. if tower_distance hyp far base < tower_distance hyp t base then t else far) b xs \<in> insert b (set xs)" for b xs
  proof (induction xs arbitrary: b)
    case (Cons x xs)
    show ?case using Cons.IH [of "if tower_distance hyp b base < tower_distance hyp x base then x else b"] by (auto split: if_splits)
  qed simp
  from this [of "hd ts" "tl ts"] show "ts \<noteq> [] \<Longrightarrow> ?thesis" by (cases ts) (auto simp: farthest_def)
qed

lemma mset_sweepPath: "mset (sweepPath hyp ts base) = mset ts"
proof (cases "length ts \<le> 1")
  case False
  then have "farthest hyp base ts \<in> set ts" by (intro farthest_in) auto
  then show ?thesis using False by (simp add: sweepPath_def Let_def mset_nearest_first)
qed (simp add: sweepPath_def)

lemma dispatchable_in: "t \<in> set (dispatchablePlayerTowers ts) \<longleftrightarrow> t \<in> set (obj_values ts) \<and> t_owner t = Player \<and> 1 < t_units t"
  by (auto simp: dispatchablePlayerTowers_def)

lemma strongest_in:
  "dispatchablePlayerTowers ts \<noteq> [] \<Longrightarrow> \<exists>t \<in> set (dispatchablePlayerTowers ts). strongestPlayerTower ts = Some t"
proof -
  assume "dispatchablePlayerTowers ts \<noteq> []"
  then obtain t xs where "js_sort cmp_base_first (dispatchablePlayerTowers ts) = t # xs"
    by (metis js_sort_eq_Nil neq_Nil_conv)
  then show ?thesis using set_js_sort [of cmp_base_first "dispatchablePlayerTowers ts"] by (auto simp: strongestPlayerTower_def)
qed

lemma nearest_target:
  "nearestCapturableTarget hyp ts source b = Some t \<Longrightarrow> t \<in> set (obj_values ts) \<and> t_id t \<noteq> t_id source \<and> t_owner t \<noteq> Player
     \<and> (b \<or> t_id t \<noteq> TUTORIAL_ENEMY_BASE_ID)"
  "nearestCapturableTarget hyp ts source b = None \<Longrightarrow> t \<in> set (obj_values ts) \<Longrightarrow> t_owner t = Player \<or> t_id t = t_id source
     \<or> \<not> b \<and> t_id t = TUTORIAL_ENEMY_BASE_ID"
proof -
  let ?c = "filter (\<lambda>t. t_id t \<noteq> t_id source \<and> t_owner t \<noteq> Player \<and> (b \<or> t_id t \<noteq> TUTORIAL_ENEMY_BASE_ID)) (obj_values ts)"
    and ?cmp = "\<lambda>a b. cmp_or (jsub (tower_distance hyp source a) (tower_distance hyp source b)) (jsub (t_x a) (t_x b))"
  have form: "nearestCapturableTarget hyp ts source b = (case js_sort ?cmp ?c of t # _ \<Rightarrow> Some t | [] \<Rightarrow> None)"
    by (simp add: nearestCapturableTarget_def Let_def)
  show "t \<in> set (obj_values ts) \<and> t_id t \<noteq> t_id source \<and> t_owner t \<noteq> Player \<and> (b \<or> t_id t \<noteq> TUTORIAL_ENEMY_BASE_ID)"
    if some: "nearestCapturableTarget hyp ts source b = Some t"
  proof -
    obtain xs where xs: "js_sort ?cmp ?c = t # xs" using some by (auto simp: form split: list.splits)
    have "set ?c = set (js_sort ?cmp ?c)" by (rule set_js_sort [symmetric])
    also have "\<dots> = set (t # xs)" by (rule arg_cong [OF xs])
    finally show ?thesis by auto
  qed
  show "t_owner t = Player \<or> t_id t = t_id source \<or> \<not> b \<and> t_id t = TUTORIAL_ENEMY_BASE_ID"
    if "nearestCapturableTarget hyp ts source b = None" "t \<in> set (obj_values ts)"
  proof -
    have "js_sort ?cmp ?c = []" using that(1) by (auto simp: form split: list.splits)
    then have "?c = []" by simp
    then show ?thesis using that(2) by (auto simp: filter_empty_conv)
  qed
qed

lemma plain_route:
  assumes "wf_board (g_territories s)" "\<not> usesTacticalRules (g_rules s)" "a \<in> set (dispatchablePlayerTowers (g_territories s))"
    and "b \<in> set (obj_values (g_territories s))" "t_id a \<noteq> t_id b" "hypot_ok hyp"
  shows "order_accepted hyp s (t_id a) (t_id b)"
proof -
  have "obj_get (g_territories s) (t_id a) = Some a" "obj_get (g_territories s) (t_id b) = Some b"
    using board_value [OF assms(1)] assms(3,4) by (auto simp: dispatchable_in)
  moreover have "t_owner a = Player" "1 < t_units a" using assms(3) by (simp_all add: dispatchable_in)
  ultimately show ?thesis
    using assms(2,5,6) by (intro accepted [where route = "[t_id a, t_id b]"]) (simp_all add: findDispatchRoute_def)
qed

lemma hint_playable:
  assumes "wf_board (g_territories s)" "\<not> usesTacticalRules (g_rules s)" "hypot_ok hyp"
    and "set as \<subseteq> set (dispatchablePlayerTowers (g_territories s))" "distinct (map t_id as)" "as \<noteq> []"
    and "b \<in> set (obj_values (g_territories s))" "t_owner b \<noteq> Player"
  shows "playable hyp s (map t_id as @ [t_id b])"
proof (rule playableI)
  fix i assume "i \<in> set (map t_id as)"
  then obtain a where a: "a \<in> set as" "i = t_id a" by auto
  have "t_id a \<noteq> t_id b"
  proof
    assume eq: "t_id a = t_id b"
    have "a \<in> set (obj_values (g_territories s))" "t_owner a = Player" using assms(4) a(1) by (auto simp: dispatchable_in)
    then have "Some a = Some b" using board_value [OF assms(1)] assms(7) eq by metis
    then show False using assms(8) \<open>t_owner a = Player\<close> by simp
  qed
  then show "i \<noteq> t_id b \<and> order_accepted hyp s i (t_id b)"
    using plain_route [OF assms(1,2) _ assms(7) _ assms(3)] assms(4) a by auto
qed (use assms(5,6) in simp_all)

text \<open>The two strongest towers of the chain, or the only one.\<close>

lemma chained_ok:
  fixes source :: territory
  assumes "wf_board ts" "dispatchablePlayerTowers ts \<noteq> []"
  defines "chained \<equiv> chained_towers ts source"
  shows "set chained \<subseteq> set (dispatchablePlayerTowers ts)" "distinct (map t_id chained)" "chained \<noteq> []"
    "length chained = min 2 (length (dispatchablePlayerTowers ts))"
proof -
  let ?xs = "js_sort cmp_strength (dispatchablePlayerTowers ts)"
  have take: "chained = take 2 ?xs" using assms(2) unfolding chained_def chained_towers_def
    by (cases ?xs rule: remdups_adj.cases) (auto simp: numeral_2_eq_2)
  have "distinct (map t_id ?xs)"
    using distinct_ids_filter [OF assms(1), of "\<lambda>t. t_owner t = Player \<and> 1 < t_units t"]
    by (simp add: dispatchablePlayerTowers_def distinct_map)
  then show "distinct (map t_id chained)" by (simp add: take take_map [symmetric])
  show "set chained \<subseteq> set (dispatchablePlayerTowers ts)" using set_take_subset [of 2 ?xs] by (simp add: take)
  show "chained \<noteq> []" using assms(2) by (simp add: take)
  show "length chained = min 2 (length (dispatchablePlayerTowers ts))" by (simp add: take min.commute)
qed

text \<open>
  The hand of the training shows moves that can be played. While the player has a tower to send from, a hint is
  missing only if every other tower but the enemy base is won; otherwise each tower it starts from may send its troops
  to the last one, which is not the player's, nor the enemy base before the finale. The chain step starts from two
  towers when there are two. The finale sweeps over each tower that can send, once, and ends at the enemy base.
\<close>

theorem training_hints_playable:
  assumes "wf_board (g_territories s)" "\<not> usesTacticalRules (g_rules s)" "hypot_ok hyp"
    and "obj_get (g_territories s) PLAYER_BASE_ID = Some base" "dispatchablePlayerTowers (g_territories s) \<noteq> []"
    and "hint = gd_hintPath (resolveTrainingGuidance hyp (g_territories s) step)"
  shows "if step = DestroyBase
    then \<exists>path. hint = map t_id path @ [TUTORIAL_ENEMY_BASE_ID]
      \<and> (\<forall>e. obj_get (g_territories s) TUTORIAL_ENEMY_BASE_ID = Some e \<and> t_owner e \<noteq> Player \<longrightarrow>
          mset path = mset (dispatchablePlayerTowers (g_territories s)) \<and> playable hyp s hint)
    else if hint = [] then \<forall>t\<in>set (obj_values (g_territories s)). t_owner t = Player \<or> t_id t = TUTORIAL_ENEMY_BASE_ID
    else playable hyp s hint \<and> last hint \<noteq> TUTORIAL_ENEMY_BASE_ID
      \<and> (\<exists>t. obj_get (g_territories s) (last hint) = Some t \<and> t_owner t \<noteq> Player)
      \<and> length hint = (if step = MultiDispatch then Suc (min 2 (length (dispatchablePlayerTowers (g_territories s)))) else 2)"
proof -
  let ?ts = "g_territories s" and ?d = "dispatchablePlayerTowers (g_territories s)"
  have ids: "distinct (map t_id ?d)" unfolding dispatchablePlayerTowers_def by (rule distinct_ids_filter [OF assms(1)])
  have mine: "t_owner t = Player" if "nearestCapturableTarget hyp ?ts a False = None" "t \<in> set (obj_values ?ts)" "a \<in> set ?d"
      "t_id t \<noteq> TUTORIAL_ENEMY_BASE_ID" for t a
    using nearest_target(2) [OF that(1,2)] that(3,4) board_value [OF assms(1)] that(2) by (metis dispatchable_in option.inject)
  have single: ?thesis if g: "step \<noteq> DestroyBase" "set as \<subseteq> set ?d" "distinct (map t_id as)" "a \<in> set as"
      "length as = (if step = MultiDispatch then min 2 (length ?d) else 1)"
      "hint = (case nearestCapturableTarget hyp ?ts a False of None \<Rightarrow> [] | Some t \<Rightarrow> map t_id bs @ [t_id t])" "mset bs = mset as" for as bs a
  proof (cases "nearestCapturableTarget hyp ?ts a False")
    case None
    then show ?thesis using g mine by auto
  next
    case (Some t)
    have bs: "set bs = set as" "distinct (map t_id bs)" "length bs = length as"
      using g(3,7) by (metis set_mset_mset, metis mset_eq_imp_distinct_iff mset_map, metis size_mset)
    have t: "t \<in> set (obj_values ?ts)" "t_owner t \<noteq> Player" "t_id t \<noteq> TUTORIAL_ENEMY_BASE_ID" using nearest_target(1) [OF Some] by simp_all
    have "playable hyp s (map t_id bs @ [t_id t])"
      by (rule hint_playable [OF assms(1-3)]) (use bs g t in auto)
    then show ?thesis using g(1,5,6) Some bs(3) t board_value [OF assms(1) t(1)] by auto
  qed
  obtain source where source: "strongestPlayerTower ?ts = Some source" "source \<in> set ?d" using strongest_in [OF assms(5)] by blast
  consider "step = DestroyBase" | "step = MultiDispatch" | "step \<noteq> DestroyBase" "step \<noteq> MultiDispatch" by blast
  then show ?thesis
  proof cases
    case 1
    define path where
      "path = (case obj_get ?ts TUTORIAL_ENEMY_BASE_ID of Some e \<Rightarrow> sweepPath hyp ?d e | None \<Rightarrow> js_sort cmp_strength ?d)"
    have hint: "hint = map t_id path @ [TUTORIAL_ENEMY_BASE_ID]"
      using 1 assms(4-6) by (simp add: resolveTrainingGuidance_def finale_guidance_def Let_def same_path_def path_def)
    have "playable hyp s hint \<and> mset path = mset ?d"
      if e: "obj_get ?ts TUTORIAL_ENEMY_BASE_ID = Some e" "t_owner e \<noteq> Player" for e
    proof -
      have path: "mset path = mset ?d" using e by (simp add: path_def mset_sweepPath)
      then have same: "set path = set ?d" "distinct (map t_id path)" using ids
        by (metis set_mset_mset, metis mset_eq_imp_distinct_iff mset_map)
      have "t_id e = TUTORIAL_ENEMY_BASE_ID" "e \<in> set (obj_values ?ts)"
        using assms(1) e(1) obj_get_Some_value [OF e(1)] by (auto simp: wf_board_def wf_tower_def)
      moreover have "path \<noteq> []" using path assms(5) by auto
      ultimately show ?thesis using hint_playable [OF assms(1-3), of path e] same e(2) path hint by simp
    qed
    then show ?thesis using 1 hint by auto
  next
    case 2
    let ?c = "chained_towers ?ts source"
    note c = chained_ok [OF assms(1,5), of source]
    have "hint = (case nearestCapturableTarget hyp ?ts (hd ?c) False of None \<Rightarrow> []
        | Some t \<Rightarrow> map t_id (js_sort (\<lambda>a b. jsub (tower_distance hyp b t) (tower_distance hyp a t)) ?c) @ [t_id t])"
      using 2 assms(4,6) source by (simp add: resolveTrainingGuidance_def combo_guidance_def Let_def same_path_def split: option.split)
    then show ?thesis using c 2
      by (intro single [of ?c "hd ?c" "case nearestCapturableTarget hyp ?ts (hd ?c) False of None \<Rightarrow> ?c
        | Some t \<Rightarrow> js_sort (\<lambda>a b. jsub (tower_distance hyp b t) (tower_distance hyp a t)) ?c"]) (auto split: option.split)
  next
    case 3
    then show ?thesis using source assms(4,6)
      by (intro single [of "[source]" source "[source]"])
         (auto simp: resolveTrainingGuidance_def same_path_def split: option.split)
  qed
qed

definition training_match :: "num option \<Rightarrow> game_state" where
  "training_match rules = \<lparr>g_rules = rules, g_readyAtMs = None, g_shieldedUntilMs = None, g_playerAbilityUsed = False,
     g_enemyAbilityUsed = False, g_battlefieldId = None, g_territories = map (\<lambda>t. (t_id t, t)) (b_territories crown_cross),
     g_armies = [], g_status = Playing, g_elapsed = 0, g_timeLimit = 300, g_stats = empty_stats\<rparr>"

lemma training_match_ok: "wf_match (training_match rules)"
proof -
  have keys: "obj_keys (g_territories (training_match rules)) = map t_id (b_territories crown_cross)"
    by (simp add: training_match_def)
  have "wf_tower (t_id t) t" if "t \<in> set (b_territories crown_cross)" for t
    using that by (auto simp: wf_tower_def crown_cross_def tower_def Let_def)
  then have "wf_tower k t" if "obj_get (g_territories (training_match rules)) k = Some t" for k t
    using map_of_SomeD [OF that] by (auto simp: training_match_def)
  moreover have "distinct (obj_keys (g_territories (training_match rules)))"
    using getBattlefield_distinct [of None] by (simp add: keys getBattlefield_None)
  ultimately have "wf_board (g_territories (training_match rules))" unfolding wf_board_def by blast
  then show ?thesis unfolding wf_match_def keys by (simp add: training_match_def getBattlefield_None)
qed

lemma training_hints_playable_witness:
  "\<exists>path :: territory list. gd_hintPath (resolveTrainingGuidance manhattan (g_territories (training_match None)) DestroyBase)
    = map t_id path @ [''e_base'']"
proof -
  let ?s = "training_match None"
  have wf: "wf_board (g_territories ?s)" using training_match_ok [of None] by (simp add: wf_match_def)
  have rules: "\<not> usesTacticalRules (g_rules ?s)" by (simp add: training_match_def usesTacticalRules_def)
  obtain base where base: "obj_get (g_territories ?s) PLAYER_BASE_ID = Some base" "t_owner base = Player" "t_units base = 20"
    by (simp add: training_match_def crown_cross_def tower_def Let_def PLAYER_BASE_ID_def)
  then have "base \<in> set (dispatchablePlayerTowers (g_territories ?s))"
    using obj_get_Some_value [OF base(1)] by (simp add: dispatchable_in)
  then have "dispatchablePlayerTowers (g_territories ?s) \<noteq> []" by auto
  from training_hints_playable [OF wf rules manhattan_ok base(1) this refl, of DestroyBase] show ?thesis
    unfolding TUTORIAL_ENEMY_BASE_ID_def by (simp only: simp_thms if_True) blast
qed

section \<open>Hints under the tactical rules\<close>

lemma filter_res_filter: "filter_res p xs = Inr ys \<Longrightarrow> ys = filter (\<lambda>x. p x = Inr True) xs"
  by (induction xs arbitrary: ys) (auto simp: rbind_eq_Inr split: if_splits)

lemma hint_route_total: "hypot_ok hyp \<Longrightarrow> \<exists>b. hint_route hyp s x y = Inr b"
  using findDispatchRoute_total [of hyp s "t_id x" "t_id y" Player] by (auto simp: hint_route_def)

lemma hint_route_iff:
  "hint_route hyp s x y = Inr True \<longleftrightarrow> (\<exists>route. findDispatchRoute hyp s (t_id x) (t_id y) Player = Inr (Some route))"
  "hint_route hyp s x y = Inr False \<longleftrightarrow> findDispatchRoute hyp s (t_id x) (t_id y) Player = Inr None"
  by (auto simp: hint_route_def rbind_eq_Inr)

text \<open>An order between towers of the board that has a route is accepted.\<close>

lemma routed_accepted:
  assumes "wf_board (g_territories s)" "hypot_ok hyp" "x \<in> set (dispatchablePlayerTowers (g_territories s))"
    and "y \<in> set (obj_values (g_territories s))" "hint_route hyp s x y = Inr True"
  shows "t_id x \<noteq> t_id y \<and> order_accepted hyp s (t_id x) (t_id y)"
proof -
  obtain route where route: "findDispatchRoute hyp s (t_id x) (t_id y) Player = Inr (Some route)"
    using assms(5) by (auto simp: hint_route_iff)
  then have "t_id x \<noteq> t_id y" by (rule findDispatchRoute_guards)
  moreover have "x \<in> set (obj_values (g_territories s))" "t_owner x = Player" "1 < t_units x" using assms(3) by (simp_all add: dispatchable_in)
  ultimately show ?thesis
    using accepted [OF assms(2) board_value [OF assms(1)] board_value [OF assms(1) assms(4)], of x] route by blast
qed

lemma two_playable: "x \<noteq> y \<and> order_accepted hyp s x y \<Longrightarrow> playable hyp s [x, y]"
  using playableI [of "[x]" y hyp s] by simp

lemma winning_attack_ok:
  assumes "wf_match s" "hypot_ok hyp" "set owned = set (dispatchablePlayerTowers (g_territories s))" "distinct (map t_id owned)"
    and "y \<in> set (obj_values (g_territories s))" "t_owner y \<noteq> Player"
  shows "\<exists>r. winning_attack hyp s owned y = Inr r \<and> (\<forall>hint. r = Some hint \<longrightarrow> playable hyp s hint)"
proof -
  have wf: "wf_board (g_territories s)" using assms(1) by (simp add: wf_match_def)
  obtain xs where xs: "filter_res (\<lambda>x. hint_route hyp s x y) owned = Inr xs"
    using filter_res_total [of owned "\<lambda>x. hint_route hyp s x y"] hint_route_total [OF assms(2)] by blast
  obtain p where p: "previewOrder hyp s (map t_id xs) (t_id y) Player (Finite 1) 1 = Inr p"
    using previewOrder_total [OF assms(1,2), of Player] by blast
  have "playable hyp s (map t_id xs @ [t_id y])" if won: "map_option t_owner (op_projected p) = Some Player"
  proof (rule playableI)
    show "map t_id xs \<noteq> []"
    proof
      assume "map t_id xs = []"
      then have "op_projected p = Some y"
        using p board_value [OF wf assms(5)] by (auto simp: previewOrder_def preview_arrivals_def flat_map_res_def Let_def)
      then show False using won assms(6) by simp
    qed
    have sub: "xs = filter (\<lambda>x. hint_route hyp s x y = Inr True) owned" by (rule filter_res_filter [OF xs])
    then show "distinct (map t_id xs)" using assms(4) by (simp add: distinct_map_filter)
    show "i \<noteq> t_id y \<and> order_accepted hyp s i (t_id y)" if "i \<in> set (map t_id xs)" for i
      using that routed_accepted [OF wf assms(2) _ assms(5)] assms(3) by (auto simp: sub)
  qed
  then show ?thesis using xs p by (auto simp: winning_attack_def)
qed

text \<open>What a hint of the tactical training is about: roads, targets, and attacks that are forecast to capture.\<close>

definition has_road :: "hypot_fn \<Rightarrow> game_state \<Rightarrow> territory \<Rightarrow> territory \<Rightarrow> bool" where
  "has_road hyp s x y \<longleftrightarrow> (\<exists>route. findDispatchRoute hyp s (t_id x) (t_id y) Player = Inr (Some route))"

definition has_chain :: "hypot_fn \<Rightarrow> game_state \<Rightarrow> territory \<Rightarrow> territory \<Rightarrow> bool" where
  "has_chain hyp s x y \<longleftrightarrow> (\<exists>route. findDispatchRoute hyp s (t_id x) (t_id y) Player = Inr (Some route) \<and> 3 \<le> length route)"

definition step_targets :: "game_state \<Rightarrow> tutorial_step \<Rightarrow> territory set" where
  "step_targets s step = {y \<in> set (obj_values (g_territories s)). t_owner y \<noteq> Player
     \<and> (step = DestroyBase \<or> t_id y \<noteq> TUTORIAL_ENEMY_BASE_ID)}"

definition joint_attack :: "hypot_fn \<Rightarrow> game_state \<Rightarrow> territory list \<Rightarrow> territory \<Rightarrow> string list" where
  "joint_attack hyp s owned y = map t_id (filter (\<lambda>x. has_road hyp s x y) owned)"

definition forecast_captures :: "hypot_fn \<Rightarrow> game_state \<Rightarrow> string list \<Rightarrow> territory \<Rightarrow> bool" where
  "forecast_captures hyp s sources y \<longleftrightarrow>
     (\<exists>p. previewOrder hyp s sources (t_id y) Player (Finite 1) 1 = Inr p \<and> map_option t_owner (op_projected p) = Some Player)"

text \<open>The choice: an own chain, else a capture, else concentrating behind a front or attacking from it, else nothing.\<close>

definition right_hint :: "hypot_fn \<Rightarrow> game_state \<Rightarrow> tutorial_step \<Rightarrow> territory list \<Rightarrow> string list \<Rightarrow> bool" where
  "right_hint hyp s step owned hint \<longleftrightarrow>
     (if step = MultiDispatch \<and> (\<exists>x\<in>set owned. \<exists>y\<in>set owned. has_road hyp s x y) then
        \<exists>x\<in>set owned. \<exists>y\<in>set owned. hint = [t_id x, t_id y] \<and> has_road hyp s x y
          \<and> ((\<exists>a\<in>set owned. \<exists>b\<in>set owned. has_chain hyp s a b) \<longrightarrow> has_chain hyp s x y)
      else if \<exists>y\<in>step_targets s step. forecast_captures hyp s (joint_attack hyp s owned y) y then
        \<exists>y\<in>step_targets s step. hint = joint_attack hyp s owned y @ [t_id y] \<and> forecast_captures hyp s (joint_attack hyp s owned y) y
      else if \<exists>y\<in>step_targets s step. \<exists>x\<in>set owned. has_road hyp s x y then
        \<exists>y\<in>step_targets s step. \<exists>x\<in>set owned. has_road hyp s x y
          \<and> (if \<exists>r\<in>set owned. t_id r \<noteq> t_id x \<and> has_road hyp s r x
             then \<exists>r\<in>set owned. t_id r \<noteq> t_id x \<and> has_road hyp s r x \<and> hint = [t_id r, t_id x]
             else hint = [t_id x, t_id y])
      else hint = [])"

lemma hint_route_has_road: "hypot_ok hyp \<Longrightarrow> hint_route hyp s x y = Inr (has_road hyp s x y)"
  using hint_route_total [of hyp s x y] by (auto simp: has_road_def hint_route_iff [symmetric])

lemma hint_detour_has_chain: "hypot_ok hyp \<Longrightarrow> hint_detour hyp s x y = Inr (has_chain hyp s x y)"
  using findDispatchRoute_total [of hyp s "t_id x" "t_id y" Player] by (auto simp: has_chain_def hint_detour_def split: option.split)

lemma has_chain_road: "has_chain hyp s x y \<Longrightarrow> has_road hyp s x y"
  by (auto simp: has_chain_def has_road_def)

lemma find_res_Inr: "find_res (\<lambda>x. Inr (p x)) xs = Inr (List.find p xs)"
  by (induction xs) auto

lemma filter_res_Inr: "filter_res (\<lambda>x. Inr (p x)) xs = Inr (filter p xs)"
  by (induction xs) auto

lemma chain_choice:
  assumes "hypot_ok hyp"
  shows "\<exists>chain. chain_path hyp s owned = Inr chain \<and> (case chain of
      Some hint \<Rightarrow> \<exists>x\<in>set owned. \<exists>y\<in>set owned. hint = [t_id x, t_id y] \<and> has_road hyp s x y
          \<and> ((\<exists>a\<in>set owned. \<exists>b\<in>set owned. has_chain hyp s a b) \<longrightarrow> has_chain hyp s x y)
    | None \<Rightarrow> \<not> (\<exists>x\<in>set owned. \<exists>y\<in>set owned. has_road hyp s x y))"
proof -
  let ?pairs = "List.product owned owned"
  let ?far = "List.find (\<lambda>(x, y). has_chain hyp s x y) ?pairs" and ?near = "List.find (\<lambda>(x, y). has_road hyp s x y) ?pairs"
  have run: "chain_path hyp s owned = Inr (map_option pair_path (if ?far \<noteq> None then ?far else ?near))"
    by (simp add: chain_path_def hint_route_has_road [OF assms] hint_detour_has_chain [OF assms] case_prod_unfold find_res_Inr)
  have found: "p \<in> set xs \<and> Q p" if "List.find Q xs = Some p" for Q p and xs :: "(territory \<times> territory) list"
    using that by (auto simp: find_Some_iff)
  show ?thesis
  proof (cases ?far)
    case (Some p)
    then have "p \<in> set ?pairs \<and> has_chain hyp s (fst p) (snd p)" using found [OF Some] by (simp add: case_prod_unfold)
    then show ?thesis using Some run has_chain_road by (fastforce simp: pair_path_def)
  next
    case far: None
    then have none: "\<not> (\<exists>a\<in>set owned. \<exists>b\<in>set owned. has_chain hyp s a b)" by (auto simp: find_None_iff)
    show ?thesis
    proof (cases ?near)
      case (Some p)
      then have "p \<in> set ?pairs \<and> has_road hyp s (fst p) (snd p)" using found [OF Some] by (simp add: case_prod_unfold)
      then show ?thesis using Some far none run by (fastforce simp: pair_path_def)
    next
      case None
      then have "\<not> (\<exists>x\<in>set owned. \<exists>y\<in>set owned. has_road hyp s x y)" by (auto simp: find_None_iff)
      then show ?thesis using None far run by simp
    qed
  qed
qed

lemma attack_choice:
  assumes "wf_match s" "hypot_ok hyp"
  shows "winning_attack hyp s owned y
    = Inr (if forecast_captures hyp s (joint_attack hyp s owned y) y then Some (joint_attack hyp s owned y @ [t_id y]) else None)"
proof -
  obtain p where "previewOrder hyp s (joint_attack hyp s owned y) (t_id y) Player (Finite 1) 1 = Inr p"
    using previewOrder_total [OF assms, of Player] by blast
  then show ?thesis
    by (simp add: winning_attack_def hint_route_has_road [OF assms(2)] filter_res_Inr forecast_captures_def flip: joint_attack_def)
qed

lemma concentrate_choice:
  assumes "hypot_ok hyp"
  shows "concentrate hyp s owned (y, x) = Inr (if \<not> has_road hyp s x y then None
    else case List.find (\<lambda>r. t_id r \<noteq> t_id x \<and> has_road hyp s r x) owned of
        Some r \<Rightarrow> Some [t_id r, t_id x] | None \<Rightarrow> Some [t_id x, t_id y])"
proof -
  have "(\<lambda>r. if t_id r \<noteq> t_id x then hint_route hyp s r x else Inr False) = (\<lambda>r. Inr (t_id r \<noteq> t_id x \<and> has_road hyp s r x))"
    by (auto simp: hint_route_has_road [OF assms])
  then show ?thesis by (simp add: concentrate_def hint_route_has_road [OF assms] find_res_Inr split: option.split)
qed

lemma first_res_Inr: "(\<And>x. f x = Inr (g x)) \<Longrightarrow> first_res f xs = Inr (case filter (\<lambda>x. g x \<noteq> None) xs of [] \<Rightarrow> None | x # _ \<Rightarrow> g x)"
  by (induction xs) (auto split: option.split)

lemma filter_first: "filter P xs = x # ys \<Longrightarrow> x \<in> set xs \<and> P x"
  by (induction xs) (auto split: if_splits)

lemma right_hint_front:
  assumes "\<not> (step = MultiDispatch \<and> (\<exists>x\<in>set owned. \<exists>y\<in>set owned. has_road hyp s x y))"
    and "\<not> (\<exists>y\<in>step_targets s step. forecast_captures hyp s (joint_attack hyp s owned y) y)"
    and "y \<in> step_targets s step" "x \<in> set owned" "has_road hyp s x y"
    and "if \<exists>r\<in>set owned. t_id r \<noteq> t_id x \<and> has_road hyp s r x
         then \<exists>r\<in>set owned. t_id r \<noteq> t_id x \<and> has_road hyp s r x \<and> hint = [t_id r, t_id x]
         else hint = [t_id x, t_id y]"
  shows "right_hint hyp s step owned hint"
proof -
  have "\<exists>y\<in>step_targets s step. \<exists>x\<in>set owned. has_road hyp s x y" using assms(3-5) by blast
  then show ?thesis
    unfolding right_hint_def if_not_P [OF assms(1)] if_not_P [OF assms(2)] by (subst if_P, assumption) (use assms(3-6) in blast)
qed

text \<open>The three searches, one after another.\<close>

lemma guidance_search:
  assumes "wf_match s" "hypot_ok hyp"
    and owned: "owned = js_sort (\<lambda>a b. cmp_or (jsub (t_units b) (t_units a)) (loc (t_id a) (t_id b)))
      (filter (\<lambda>t. t_owner t = Player \<and> 1 < t_units t) (obj_values (g_territories s)))"
  shows "\<exists>hint. resolveTacticalTrainingGuidance loc hyp s step = Inr (same_path hint) \<and> right_hint hyp s step owned hint"
proof -
  let ?joint = "joint_attack hyp s owned"
  define targets where "targets = js_sort (\<lambda>a b. cmp_or (if step = DestroyBase then jsub (t_y a) (t_y b) else jsub (t_y b) (t_y a))
        (loc (t_id a) (t_id b)))
      (filter (\<lambda>t. t_owner t \<noteq> Player \<and> (step = DestroyBase \<or> t_id t \<noteq> TUTORIAL_ENEMY_BASE_ID)) (obj_values (g_territories s)))"
  have targets: "set targets = step_targets s step" by (auto simp: targets_def step_targets_def)
  define capture where "capture = (\<lambda>y. if forecast_captures hyp s (?joint y) y then Some (?joint y @ [t_id y]) else None)"
  define fallback where "fallback = (\<lambda>p. if \<not> has_road hyp s (snd p) (fst p) then None
    else case List.find (\<lambda>r. t_id r \<noteq> t_id (snd p) \<and> has_road hyp s r (snd p)) owned of
        Some r \<Rightarrow> Some [t_id r, t_id (snd p)] | None \<Rightarrow> Some [t_id (snd p), t_id (fst p)])"
  obtain chain where chain: "chain_path hyp s owned = Inr chain" "case chain of
      Some hint \<Rightarrow> \<exists>x\<in>set owned. \<exists>y\<in>set owned. hint = [t_id x, t_id y] \<and> has_road hyp s x y
          \<and> ((\<exists>a\<in>set owned. \<exists>b\<in>set owned. has_chain hyp s a b) \<longrightarrow> has_chain hyp s x y)
    | None \<Rightarrow> \<not> (\<exists>x\<in>set owned. \<exists>y\<in>set owned. has_road hyp s x y)"
    using chain_choice [OF assms(2)] by blast
  define first where "first = (if step = MultiDispatch then chain else None)"
  have searches: "first_res (winning_attack hyp s owned) targets
      = Inr (case filter (\<lambda>y. capture y \<noteq> None) targets of [] \<Rightarrow> None | y # _ \<Rightarrow> capture y)"
    "first_res (concentrate hyp s owned) (List.product targets owned)
      = Inr (case filter (\<lambda>p. fallback p \<noteq> None) (List.product targets owned) of [] \<Rightarrow> None | p # _ \<Rightarrow> fallback p)"
    by (rule first_res_Inr; simp add: attack_choice [OF assms(1,2)] capture_def
      concentrate_choice [OF assms(2), of s owned "fst p" "snd p" for p, unfolded prod.collapse] fallback_def)+
  have run: "resolveTacticalTrainingGuidance loc hyp s step =
      rbind (if step = MultiDispatch then chain_path hyp s owned else Inr None) (\<lambda>chain.
        rbind (if chain \<noteq> None then Inr chain else first_res (winning_attack hyp s owned) targets) (\<lambda>attack.
        rbind (if attack \<noteq> None then Inr attack else first_res (concentrate hyp s owned) (List.product targets owned)) (\<lambda>path.
        Inr (same_path (case path of Some ids \<Rightarrow> ids | None \<Rightarrow> [])))))"
    by (simp only: resolveTacticalTrainingGuidance_def Let_def owned targets_def)
  have head: "(if step = MultiDispatch then chain_path hyp s owned else Inr None) = Inr first" by (simp add: first_def chain(1))
  show ?thesis
  proof (cases first)
    case (Some hint)
    then have "step = MultiDispatch" "chain = Some hint" by (simp_all add: first_def split: if_splits)
    moreover have "resolveTacticalTrainingGuidance loc hyp s step = Inr (same_path hint)" unfolding run head by (simp add: Some)
    ultimately show ?thesis using chain(2) by (intro exI [of _ hint]) (auto simp: right_hint_def)
  next
    case no_chain: None
    then have no_pair: "\<not> (step = MultiDispatch \<and> (\<exists>x\<in>set owned. \<exists>y\<in>set owned. has_road hyp s x y))"
      using chain(2) by (auto simp: first_def)
    show ?thesis
    proof (cases "filter (\<lambda>y. capture y \<noteq> None) targets")
      case (Cons y ys)
      then have y: "y \<in> step_targets s step" "forecast_captures hyp s (?joint y) y"
        using filter_first [OF Cons] targets by (auto simp: capture_def split: if_splits)
      then have "resolveTacticalTrainingGuidance loc hyp s step = Inr (same_path (?joint y @ [t_id y]))"
        unfolding run head searches Cons by (simp add: no_chain capture_def)
      then show ?thesis using y no_pair by (auto simp: right_hint_def)
    next
      case no_capture: Nil
      then have none: "\<not> (\<exists>y\<in>step_targets s step. forecast_captures hyp s (?joint y) y)"
        unfolding targets [symmetric] by (auto simp: filter_empty_conv capture_def)
      show ?thesis
      proof (cases "filter (\<lambda>p. fallback p \<noteq> None) (List.product targets owned)")
        case (Cons p ps)
        obtain y x where p: "p = (y, x)" by (cases p)
        have yx: "y \<in> step_targets s step" "x \<in> set owned" "has_road hyp s x y"
          using filter_first [OF Cons] targets by (auto simp: p fallback_def split: if_splits)
        obtain hint where hint: "fallback p = Some hint" using filter_first [OF Cons] by auto
        have "resolveTacticalTrainingGuidance loc hyp s step = Inr (same_path hint)"
          unfolding run head searches no_capture Cons by (simp add: no_chain hint)
        moreover have "if \<exists>r\<in>set owned. t_id r \<noteq> t_id x \<and> has_road hyp s r x
             then \<exists>r\<in>set owned. t_id r \<noteq> t_id x \<and> has_road hyp s r x \<and> hint = [t_id r, t_id x]
             else hint = [t_id x, t_id y]"
        proof (cases "List.find (\<lambda>r. t_id r \<noteq> t_id x \<and> has_road hyp s r x) owned")
          case None
          then have alone: "\<not> (\<exists>r\<in>set owned. t_id r \<noteq> t_id x \<and> has_road hyp s r x)" by (auto simp: find_None_iff)
          have "hint = [t_id x, t_id y]" using hint yx None by (simp add: p fallback_def)
          then show ?thesis by (simp only: alone if_False)
        next
          case (Some r)
          then have "r \<in> set owned \<and> t_id r \<noteq> t_id x \<and> has_road hyp s r x" by (auto simp: find_Some_iff)
          then show ?thesis using hint yx Some by (auto simp: p fallback_def)
        qed
        ultimately show ?thesis using right_hint_front [OF no_pair none yx] by blast
      next
        case Nil
        then have "\<not> (\<exists>y\<in>step_targets s step. \<exists>x\<in>set owned. has_road hyp s x y)"
          unfolding targets [symmetric] by (force simp: filter_empty_conv fallback_def split: if_splits option.splits)
        moreover have "resolveTacticalTrainingGuidance loc hyp s step = Inr (same_path [])"
          unfolding run head searches no_capture Nil by (simp add: no_chain)
        ultimately show ?thesis using no_pair none unfolding right_hint_def by (intro exI [of _ "[]"]) (simp only: if_False simp_thms)
      qed
    qed
  qed
qed

lemma right_hint_playable:
  assumes "wf_match s" "hypot_ok hyp" "right_hint hyp s step owned hint" "hint \<noteq> []"
    and owned: "set owned = set (dispatchablePlayerTowers (g_territories s))" "distinct (map t_id owned)"
  shows "playable hyp s hint"
proof -
  have wf: "wf_board (g_territories s)" using assms(1) by (simp add: wf_match_def)
  have own: "y \<in> set (obj_values (g_territories s))" if "y \<in> set owned" for y using that owned(1) by (simp add: dispatchable_in)
  have two: "playable hyp s [t_id x, t_id y]" if "x \<in> set owned" "y \<in> set (obj_values (g_territories s))" "has_road hyp s x y" for x y
    using routed_accepted [OF wf assms(2), of x y] that owned(1) hint_route_has_road [OF assms(2), of s x y] by (auto intro: two_playable)
  have target: "y \<in> set (obj_values (g_territories s)) \<and> t_owner y \<noteq> Player" if "y \<in> step_targets s step" for y
    using that by (simp add: step_targets_def)
  have attack: "playable hyp s (joint_attack hyp s owned y @ [t_id y])"
    if "y \<in> step_targets s step" "forecast_captures hyp s (joint_attack hyp s owned y) y" for y
    using winning_attack_ok [OF assms(1,2) owned, of y] target [OF that(1)] that(2) by (auto simp: attack_choice [OF assms(1,2)])
  show ?thesis
    using assms(3,4) unfolding right_hint_def by (auto split: if_splits intro: two attack own dest: target)
qed

text \<open>
  C38: what the hand shows under the tactical rules. Whatever the match, the search for a hint ends without an error,
  and each tower of a hint but the last may send its troops to the last one by a road the rules allow. When the step is
  about reinforcing and two own towers are joined by a road, the hint is such a road, one that passes over a third tower
  if there is any. Otherwise, when all the own towers with a road to some target of the step together are forecast to
  capture it, the hint is such an attack. Otherwise, when any own tower has a road to a target, the hint moves troops
  from another own tower up to such a front tower, or, when none can reach it, attacks the target from there with no
  forecast of a capture. There is no hint in the remaining case only.
\<close>

theorem tactical_hints_legal:
  assumes "wf_match s" "hypot_ok hyp"
  shows "\<exists>hint owned. resolveTacticalTrainingGuidance loc hyp s step = Inr (same_path hint)
    \<and> distinct owned \<and> set owned = set (dispatchablePlayerTowers (g_territories s))
    \<and> right_hint hyp s step owned hint \<and> (hint \<noteq> [] \<longrightarrow> playable hyp s hint)"
proof -
  have wf: "wf_board (g_territories s)" using assms(1) by (simp add: wf_match_def)
  define owned where "owned = js_sort (\<lambda>a b. cmp_or (jsub (t_units b) (t_units a)) (loc (t_id a) (t_id b)))
      (filter (\<lambda>t. t_owner t = Player \<and> 1 < t_units t) (obj_values (g_territories s)))"
  have owned: "set owned = set (dispatchablePlayerTowers (g_territories s))" "distinct (map t_id owned)"
    using distinct_ids_filter [OF wf, of "\<lambda>t. t_owner t = Player \<and> 1 < t_units t"]
    by (simp_all add: owned_def dispatchablePlayerTowers_def distinct_map)
  obtain hint where "resolveTacticalTrainingGuidance loc hyp s step = Inr (same_path hint)" "right_hint hyp s step owned hint"
    using guidance_search [OF assms owned_def] by blast
  moreover have "distinct owned" using owned(2) by (simp add: distinct_map)
  ultimately show ?thesis using right_hint_playable [OF assms _ _ owned] owned(1) by blast
qed

lemma tactical_hints_legal_witness:
  "\<exists>hint owned. resolveTacticalTrainingGuidance (\<lambda>x y. 0) manhattan (training_match (Some 3)) MultiDispatch = Inr (same_path hint)
    \<and> distinct owned \<and> set owned = set (dispatchablePlayerTowers (g_territories (training_match (Some 3))))
    \<and> right_hint manhattan (training_match (Some 3)) MultiDispatch owned hint
    \<and> (hint = [] \<or> playable manhattan (training_match (Some 3)) hint)"
  using tactical_hints_legal [OF training_match_ok [of "Some 3"] manhattan_ok, of "\<lambda>x y. 0" MultiDispatch] by blast

end
