(* ===== verification/Analytics.thy ===== *)
theory Analytics
  imports Tutorial TwoVTwoProtocol
begin

text \<open>
  \<open>apps/game/src/analytics\<close>: the events of \<open>Analytics.ts\<close> with their envelopes and the validator, and the sink of
  \<open>AnalyticsSink.ts\<close>, which buffers valid events, keeps them in the browser's storage and sends them in batches.
  Identifiers and the clock are parameters. The answers of the server are inputs of the sink.
\<close>

section \<open>Events\<close>

definition ANALYTICS_SCHEMA_VERSION :: num where "ANALYTICS_SCHEMA_VERSION = 1"
definition ANALYTICS_PROPERTY_MAX_COUNT :: nat where "ANALYTICS_PROPERTY_MAX_COUNT = 16"
definition ANALYTICS_PROPERTY_KEY_MAX_LENGTH :: nat where "ANALYTICS_PROPERTY_KEY_MAX_LENGTH = 64"
definition ANALYTICS_PROPERTY_STRING_MAX_LENGTH :: nat where "ANALYTICS_PROPERTY_STRING_MAX_LENGTH = 256"

datatype play_mode = BotMode | LiveMode | TwoVTwoMode | AsyncMode
datatype render_tier = LowTier | MidTier | HighTier

definition play_mode_text :: "play_mode \<Rightarrow> string" where
  "play_mode_text m = (case m of BotMode \<Rightarrow> ''bot'' | LiveMode \<Rightarrow> ''live'' | TwoVTwoMode \<Rightarrow> ''2v2'' | AsyncMode \<Rightarrow> ''async'')"

definition render_tier_text :: "render_tier \<Rightarrow> string" where
  "render_tier_text t = (case t of LowTier \<Rightarrow> ''low'' | MidTier \<Rightarrow> ''mid'' | HighTier \<Rightarrow> ''high'')"

definition bot_difficulty_text :: "bot_difficulty \<Rightarrow> string" where
  "bot_difficulty_text d = (case d of Easy \<Rightarrow> ''easy'' | Normal \<Rightarrow> ''normal'' | Hard \<Rightarrow> ''hard'')"

definition outcome_text :: "outcome \<Rightarrow> string" where
  "outcome_text r = (case r of outcome.Won \<Rightarrow> ''victory'' | outcome.Lost \<Rightarrow> ''defeat'' | outcome.Drawn \<Rightarrow> ''draw'')"

definition upgrade_failure_text :: "upgrade_failure \<Rightarrow> string" where
  "upgrade_failure_text f = (case f of InsufficientCoins \<Rightarrow> ''insufficient_coins'' | MaxLevel \<Rightarrow> ''max_level'')"

definition tutorial_step_text :: "tutorial_step \<Rightarrow> string" where
  "tutorial_step_text s = (case s of DragToAttack \<Rightarrow> ''drag_to_attack'' | PreviewResult \<Rightarrow> ''preview_result''
     | TowerRoles \<Rightarrow> ''tower_roles'' | MultiDispatch \<Rightarrow> ''multi_dispatch'' | DestroyBase \<Rightarrow> ''destroy_base'')"

text \<open>What the end of a match and its start have in common, as far as the code gives it.\<close>

record match_context =
  mc_botDifficulty :: "bot_difficulty option"
  mc_rules :: "num option"
  mc_matchId :: string
  mc_mode :: play_mode

record client_error =
  ce_kind :: string
  ce_errorName :: string
  ce_message :: string
  ce_source :: string
  ce_scene :: string
  ce_build :: string

datatype (plugins only:) analytics_input =
    EvSessionStart
  | EvMenuViewed string
  | EvMatchStart match_context string "string option" "num option" "team_id option"
  | EvMatchEnd match_context outcome js_number "num option" "team_id option"
  | EvMatchQuit match_context js_number
  | EvMatchMenuOpened string play_mode | EvMatchResumed string play_mode
  | EvMatchLeaveRequested string play_mode | EvMatchLeaveCancelled string play_mode
  | EvMatchQuitConfirmed string play_mode js_number
  | EvMatchRewardReceived string play_mode
  | EvUpgradePanelViewed string | EvUpgradePurchaseSucceeded string | EvUpgradePurchaseFailed upgrade_type upgrade_failure
  | EvDailyPanelViewed | EvDailyRewardClaimed string
  | EvLeaguePanelViewed | EvLeagueRewardClaimed string
  | EvCommanderPanelViewed | EvCommanderSelected commander_id
  | EvRankPromoted string
  | EvLiveQueueJoined | EvLiveQueue2v2Joined | EvLiveQueueFallback js_number | EvLiveInviteCreated | EvLiveInviteJoined
  | EvShareOpened string
  | EvAbilityUsed string commander_id js_number
  | EvLiveMatchStarted string "string option" | EvLiveMatchEnded string outcome | EvLiveMatchDisconnected string
  | EvLevelStarted js_number | EvLevelCompleted js_number js_number | EvLevelFailed js_number js_number
  | EvLevelRewardClaimed string
  | EvWeeklyChallengeViewed | EvWeeklyChallengeStarted js_number | EvWeeklyChallengeCompleted js_number js_number
  | EvWeeklyChallengeFailed js_number js_number | EvWeeklyRewardClaimed string
  | EvLaneBattleStarted js_number | EvLaneBattleCompleted js_number js_number | EvLaneBattleFailed js_number js_number
  | EvLaneRewardClaimed string | EvLaneTutorialCompleted
  | EvRenderTierDowngraded render_tier render_tier js_number
  | EvTutorialStarted | EvTutorialStepCompleted tutorial_step | EvTutorialCompleted | EvTutorialSkipped tutorial_step
  | EvTutorialMenuOpened | EvTutorialMenuClosed | EvTutorialLeaveRequested | EvTutorialLeaveCancelled
  | EvClientError client_error

text \<open>The name, and the other properties of the object; a property that is left out is not there.\<close>

definition id_mode :: "string \<Rightarrow> play_mode \<Rightarrow> (string \<times> json) list" where
  "id_mode i m = [(''matchId'', JString i), (''mode'', JString (play_mode_text m))]"

definition context_props :: "match_context \<Rightarrow> (string \<times> json) list" where
  "context_props c = field ''botDifficulty'' (map_option (JString \<circ> bot_difficulty_text) (mc_botDifficulty c))
     @ field ''gameplayRulesVersion'' (map_option jnum (mc_rules c)) @ id_mode (mc_matchId c) (mc_mode c)"

definition seat_props :: "num option \<Rightarrow> team_id option \<Rightarrow> (string \<times> json) list" where
  "seat_props slot team = field ''slot'' (map_option jnum slot) @ field ''teamId'' (map_option (JString \<circ> team_id_text) team)"

definition id_seconds :: "string \<Rightarrow> js_number \<Rightarrow> js_number \<Rightarrow> (string \<times> json) list" where
  "id_seconds k i seconds = [(k, JNumber i), (''durationSeconds'', JNumber seconds)]"

definition event_of :: "analytics_input \<Rightarrow> string \<times> (string \<times> json) list" where
  "event_of e = (case e of
       EvSessionStart \<Rightarrow> (''session_start'', [])
     | EvMenuViewed rankId \<Rightarrow> (''menu_viewed'', [(''rankId'', JString rankId)])
     | EvMatchStart c source battlefield slot team \<Rightarrow> (''match_start'', context_props c @ [(''source'', JString source)]
         @ field ''battlefieldId'' (map_option JString battlefield) @ seat_props slot team)
     | EvMatchEnd c result seconds slot team \<Rightarrow> (''match_end'', context_props c @ [(''result'', JString (outcome_text result)),
         (''durationSeconds'', JNumber seconds)] @ seat_props slot team)
     | EvMatchQuit c seconds \<Rightarrow> (''match_quit'', context_props c @ [(''durationSeconds'', JNumber seconds)])
     | EvMatchMenuOpened i m \<Rightarrow> (''match_menu_opened'', id_mode i m)
     | EvMatchResumed i m \<Rightarrow> (''match_resumed'', id_mode i m)
     | EvMatchLeaveRequested i m \<Rightarrow> (''match_leave_requested'', id_mode i m)
     | EvMatchLeaveCancelled i m \<Rightarrow> (''match_leave_cancelled'', id_mode i m)
     | EvMatchQuitConfirmed i m seconds \<Rightarrow> (''match_quit_confirmed'', id_mode i m @ [(''durationSeconds'', JNumber seconds)])
     | EvMatchRewardReceived i m \<Rightarrow> (''match_reward_received'', id_mode i m)
     | EvUpgradePanelViewed source \<Rightarrow> (''upgrade_panel_viewed'', [(''source'', JString source)])
     | EvUpgradePurchaseSucceeded i \<Rightarrow> (''upgrade_purchase_succeeded'', [(''purchaseId'', JString i)])
     | EvUpgradePurchaseFailed ty reason \<Rightarrow> (''upgrade_purchase_failed'',
         [(''upgradeType'', JString (upgrade_name ty)), (''reason'', JString (upgrade_failure_text reason))])
     | EvDailyPanelViewed \<Rightarrow> (''daily_panel_viewed'', [])
     | EvDailyRewardClaimed i \<Rightarrow> (''daily_reward_claimed'', [(''claimId'', JString i)])
     | EvLeaguePanelViewed \<Rightarrow> (''league_panel_viewed'', [])
     | EvLeagueRewardClaimed i \<Rightarrow> (''league_reward_claimed'', [(''claimId'', JString i)])
     | EvCommanderPanelViewed \<Rightarrow> (''commander_panel_viewed'', [])
     | EvCommanderSelected i \<Rightarrow> (''commander_selected'', [(''commanderId'', JString i)])
     | EvRankPromoted i \<Rightarrow> (''rank_promoted'', [(''matchId'', JString i)])
     | EvLiveQueueJoined \<Rightarrow> (''live_queue_joined'', [])
     | EvLiveQueue2v2Joined \<Rightarrow> (''live_queue_2v2_joined'', [])
     | EvLiveQueueFallback waited \<Rightarrow> (''live_queue_fallback'', [(''waitedSeconds'', JNumber waited)])
     | EvLiveInviteCreated \<Rightarrow> (''live_invite_created'', [])
     | EvLiveInviteJoined \<Rightarrow> (''live_invite_joined'', [])
     | EvShareOpened source \<Rightarrow> (''share_opened'', [(''source'', JString source)])
     | EvAbilityUsed i commander at_seconds \<Rightarrow> (''ability_used'',
         [(''matchId'', JString i), (''commanderId'', JString commander), (''atSeconds'', JNumber at_seconds)])
     | EvLiveMatchStarted i m \<Rightarrow> (''live_match_started'', (''matchId'', JString i) # field ''mode'' (map_option JString m))
     | EvLiveMatchEnded i status \<Rightarrow> (''live_match_ended'', [(''matchId'', JString i), (''status'', JString (outcome_text status))])
     | EvLiveMatchDisconnected i \<Rightarrow> (''live_match_disconnected'', [(''matchId'', JString i)])
     | EvLevelStarted i \<Rightarrow> (''level_started'', [(''levelId'', JNumber i)])
     | EvLevelCompleted i seconds \<Rightarrow> (''level_completed'', id_seconds ''levelId'' i seconds)
     | EvLevelFailed i seconds \<Rightarrow> (''level_failed'', id_seconds ''levelId'' i seconds)
     | EvLevelRewardClaimed i \<Rightarrow> (''level_reward_claimed'', [(''claimId'', JString i)])
     | EvWeeklyChallengeViewed \<Rightarrow> (''weekly_challenge_viewed'', [])
     | EvWeeklyChallengeStarted i \<Rightarrow> (''weekly_challenge_started'', [(''slot'', JNumber i)])
     | EvWeeklyChallengeCompleted i seconds \<Rightarrow> (''weekly_challenge_completed'', id_seconds ''slot'' i seconds)
     | EvWeeklyChallengeFailed i seconds \<Rightarrow> (''weekly_challenge_failed'', id_seconds ''slot'' i seconds)
     | EvWeeklyRewardClaimed i \<Rightarrow> (''weekly_reward_claimed'', [(''claimId'', JString i)])
     | EvLaneBattleStarted i \<Rightarrow> (''lane_battle_started'', [(''levelId'', JNumber i)])
     | EvLaneBattleCompleted i seconds \<Rightarrow> (''lane_battle_completed'', id_seconds ''levelId'' i seconds)
     | EvLaneBattleFailed i seconds \<Rightarrow> (''lane_battle_failed'', id_seconds ''levelId'' i seconds)
     | EvLaneRewardClaimed i \<Rightarrow> (''lane_reward_claimed'', [(''claimId'', JString i)])
     | EvLaneTutorialCompleted \<Rightarrow> (''lane_tutorial_completed'', [])
     | EvRenderTierDowngraded a b fps \<Rightarrow> (''render_tier_downgraded'',
         [(''from'', JString (render_tier_text a)), (''to'', JString (render_tier_text b)), (''fps'', JNumber fps)])
     | EvTutorialStarted \<Rightarrow> (''tutorial_started'', [])
     | EvTutorialStepCompleted s \<Rightarrow> (''tutorial_step_completed'', [(''stepId'', JString (tutorial_step_text s))])
     | EvTutorialCompleted \<Rightarrow> (''tutorial_completed'', [])
     | EvTutorialSkipped s \<Rightarrow> (''tutorial_skipped'', [(''lastStepId'', JString (tutorial_step_text s))])
     | EvTutorialMenuOpened \<Rightarrow> (''tutorial_menu_opened'', [])
     | EvTutorialMenuClosed \<Rightarrow> (''tutorial_menu_closed'', [])
     | EvTutorialLeaveRequested \<Rightarrow> (''tutorial_leave_requested'', [])
     | EvTutorialLeaveCancelled \<Rightarrow> (''tutorial_leave_cancelled'', [])
     | EvClientError r \<Rightarrow> (''client_error'', [(''kind'', JString (ce_kind r)), (''errorName'', JString (ce_errorName r)),
         (''message'', JString (ce_message r)), (''source'', JString (ce_source r)), (''scene'', JString (ce_scene r)),
         (''build'', JString (ce_build r))]))"

definition EVENT_NAMES :: "string list" where
  "EVENT_NAMES = [''session_start'', ''menu_viewed'', ''match_start'', ''match_end'', ''match_quit'', ''match_menu_opened'',
     ''match_resumed'', ''match_leave_requested'', ''match_leave_cancelled'', ''match_quit_confirmed'',
     ''match_reward_received'', ''upgrade_panel_viewed'', ''upgrade_purchase_succeeded'', ''upgrade_purchase_failed'',
     ''daily_panel_viewed'', ''daily_reward_claimed'', ''league_panel_viewed'', ''league_reward_claimed'',
     ''commander_panel_viewed'', ''commander_selected'', ''rank_promoted'', ''live_queue_joined'',
     ''live_queue_2v2_joined'', ''live_queue_fallback'', ''live_invite_created'', ''live_invite_joined'', ''share_opened'',
     ''ability_used'', ''live_match_started'', ''live_match_ended'', ''live_match_disconnected'', ''level_started'',
     ''level_completed'', ''level_failed'', ''level_reward_claimed'', ''weekly_challenge_viewed'',
     ''weekly_challenge_started'', ''weekly_challenge_completed'', ''weekly_challenge_failed'', ''weekly_reward_claimed'',
     ''lane_battle_started'', ''lane_battle_completed'', ''lane_battle_failed'', ''lane_reward_claimed'',
     ''lane_tutorial_completed'', ''render_tier_downgraded'', ''tutorial_started'', ''tutorial_step_completed'',
     ''tutorial_completed'', ''tutorial_skipped'', ''tutorial_menu_opened'', ''tutorial_menu_closed'',
     ''tutorial_leave_requested'', ''tutorial_leave_cancelled'', ''client_error'']"

definition is_primitive :: "json \<Rightarrow> bool" where
  "is_primitive v = (case v of JString _ \<Rightarrow> True | JBool _ \<Rightarrow> True | JNumber x \<Rightarrow> is_finite x | _ \<Rightarrow> False)"

definition property_ok :: "string \<times> json \<Rightarrow> bool" where
  "property_ok p \<longleftrightarrow> fst p \<noteq> [] \<and> length (fst p) \<le> ANALYTICS_PROPERTY_KEY_MAX_LENGTH \<and> is_primitive (snd p)
     \<and> (case snd p of JString t \<Rightarrow> length t \<le> ANALYTICS_PROPERTY_STRING_MAX_LENGTH | _ \<Rightarrow> True)"

definition nonempty_text :: "json option \<Rightarrow> bool" where
  "nonempty_text v \<longleftrightarrow> (\<exists>t \<in> set_option (json_string v). t \<noteq> [])"

definition isAnalyticsEvent :: "json \<Rightarrow> bool" where
  "isAnalyticsEvent v = (case v of
       JObject ps \<Rightarrow>
         nonempty_text (obj_get ps ''eventId'') \<and> nonempty_text (obj_get ps ''sessionId'')
         \<and> (case json_number (obj_get ps ''occurredAt'') of Some x \<Rightarrow> is_finite x | None \<Rightarrow> False)
         \<and> obj_get ps ''schemaVersion'' = Some (jnum ANALYTICS_SCHEMA_VERSION)
         \<and> (case json_string (obj_get ps ''name'') of Some n \<Rightarrow> n \<in> set EVENT_NAMES | None \<Rightarrow> False)
         \<and> (case json_object (obj_get ps ''props'') of
              Some props \<Rightarrow> length props \<le> ANALYTICS_PROPERTY_MAX_COUNT \<and> list_all property_ok props
            | None \<Rightarrow> False)
     | _ \<Rightarrow> False)"

section \<open>Tracking\<close>

text \<open>The module's own state and the envelopes it has dispatched to the window, the latest last.\<close>

record tracker =
  tk_sessionId :: string
  tk_sessionStarted :: bool
  tk_terminalMatchIds :: "string set"
  tk_dispatched :: "json list"

text \<open>The identifier and the time of an envelope are those of its moment.\<close>

record moment =
  mo_eventId :: string
  mo_now :: num

definition envelope :: "tracker \<Rightarrow> moment \<Rightarrow> analytics_input \<Rightarrow> json" where
  "envelope k mo e = JObject [(''eventId'', JString (mo_eventId mo)), (''name'', JString (fst (event_of e))),
     (''sessionId'', JString (tk_sessionId k)), (''occurredAt'', jnum (mo_now mo)),
     (''schemaVersion'', jnum ANALYTICS_SCHEMA_VERSION), (''props'', JObject (snd (event_of e)))]"

definition trackEvent :: "moment \<Rightarrow> analytics_input \<Rightarrow> tracker \<Rightarrow> tracker" where
  "trackEvent mo e k = k\<lparr>tk_dispatched := tk_dispatched k @ [envelope k mo e]\<rparr>"

definition trackSessionStart :: "moment \<Rightarrow> tracker \<Rightarrow> tracker" where
  "trackSessionStart mo k =
     (if tk_sessionStarted k then k else trackEvent mo EvSessionStart (k\<lparr>tk_sessionStarted := True\<rparr>))"

definition terminal_match :: "analytics_input \<Rightarrow> string option" where
  "terminal_match e = (case e of EvMatchEnd c _ _ _ _ \<Rightarrow> Some (mc_matchId c) | EvMatchQuit c _ \<Rightarrow> Some (mc_matchId c) | _ \<Rightarrow> None)"

definition trackTerminalMatchEvent :: "moment \<Rightarrow> analytics_input \<Rightarrow> tracker \<Rightarrow> bool \<times> tracker" where
  "trackTerminalMatchEvent mo e k = (case terminal_match e of
       None \<Rightarrow> (False, k)
     | Some i \<Rightarrow> if i \<in> tk_terminalMatchIds k then (False, k)
         else (True, trackEvent mo e (k\<lparr>tk_terminalMatchIds := insert i (tk_terminalMatchIds k)\<rparr>)))"

section \<open>The sink\<close>

definition ANALYTICS_BATCH_MAX_SIZE :: nat where "ANALYTICS_BATCH_MAX_SIZE = 50"
definition CACHE_MAX_AGE_MS :: num where "CACHE_MAX_AGE_MS = 30 * 86400000"

text \<open>\<open>slice(-n)\<close>: the last \<open>n\<close>, and all of them for 0, which is \<open>-0\<close>.\<close>

definition slice_last :: "nat \<Rightarrow> 'a list \<Rightarrow> 'a list" where
  "slice_last n xs = (if n = 0 then xs else drop (length xs - n) xs)"

text \<open>\<open>splice(start, count)\<close>, which removes.\<close>

definition splice_out :: "nat \<Rightarrow> nat \<Rightarrow> 'a list \<Rightarrow> 'a list" where
  "splice_out start n xs = take start xs @ drop (start + n) xs"

text \<open>
  \<open>sk_flushing\<close> is a flush in progress, waiting for the answer to the batch in flight; \<open>sk_stored\<close> is the value
  of the item of the storage, if there is one that can be read; \<open>sk_sent\<close> are the batches given to the server and
  \<open>sk_delivered\<close> the events of those it took.
\<close>

record sink =
  sk_persistent :: bool
  sk_maxBuffer :: nat
  sk_buffer :: "json list"
  sk_inFlight :: "json list"
  sk_flushing :: bool
  sk_listening :: bool
  sk_stored :: "json option"
  sk_sent :: "json list list"
  sk_delivered :: "json list"

definition occurred_at :: "json \<Rightarrow> num" where
  "occurred_at v = (case v of
       JObject ps \<Rightarrow> (case obj_get ps ''occurredAt'' of Some (JNumber (Finite x)) \<Rightarrow> x | _ \<Rightarrow> 0)
     | _ \<Rightarrow> 0)"

definition saved_events :: "num \<Rightarrow> nat \<Rightarrow> json option \<Rightarrow> json list" where
  "saved_events now maxBuffer stored = (case stored of
       Some (JArray vs) \<Rightarrow> slice_last maxBuffer (filter (\<lambda>e. jsub now CACHE_MAX_AGE_MS < occurred_at e) (filter isAnalyticsEvent vs))
     | _ \<Rightarrow> [])"

definition new_sink :: "bool \<Rightarrow> nat \<Rightarrow> num \<Rightarrow> json option \<Rightarrow> sink" where
  "new_sink persistent maxBuffer now stored = \<lparr>sk_persistent = persistent, sk_maxBuffer = maxBuffer,
     sk_buffer = (if persistent then saved_events now maxBuffer stored else []), sk_inFlight = [], sk_flushing = False,
     sk_listening = False, sk_stored = stored, sk_sent = [], sk_delivered = []\<rparr>"

definition persist :: "bool \<Rightarrow> sink \<Rightarrow> sink" where
  "persist writable s =
     (if \<not> sk_persistent s \<or> \<not> writable then s
      else
        let remaining = sk_maxBuffer s - length (sk_inFlight s)
        in s\<lparr>sk_stored := Some (JArray (sk_inFlight s @ (if 0 < remaining then slice_last remaining (sk_buffer s) else [])))\<rparr>)"

definition trimBuffer :: "nat \<Rightarrow> sink \<Rightarrow> sink" where
  "trimBuffer preserveHead s =
     (if sk_maxBuffer s < length (sk_buffer s) then
        let overflow = length (sk_buffer s) - sk_maxBuffer s
        in s\<lparr>sk_buffer := splice_out (if 0 < preserveHead then max preserveHead (sk_maxBuffer s) else 0) overflow (sk_buffer s)\<rparr>
      else s)"

definition handleEvent :: "bool \<Rightarrow> json \<Rightarrow> sink \<Rightarrow> sink" where
  "handleEvent writable e s =
     (if isAnalyticsEvent e then persist writable (trimBuffer 0 (s\<lparr>sk_buffer := sk_buffer s @ [e]\<rparr>)) else s)"

text \<open>One turn of the loop of \<open>flushBufferedEvents\<close> up to its \<open>await\<close>, or the end of the flush.\<close>

definition send_batch :: "bool \<Rightarrow> bool \<Rightarrow> sink \<Rightarrow> sink" where
  "send_batch writable shouldFlush s =
     (if sk_buffer s \<noteq> [] \<and> shouldFlush then
        let batch = take ANALYTICS_BATCH_MAX_SIZE (sk_buffer s)
        in persist writable (s\<lparr>sk_buffer := drop ANALYTICS_BATCH_MAX_SIZE (sk_buffer s), sk_inFlight := batch,
             sk_sent := sk_sent s @ [batch]\<rparr>)
      else s\<lparr>sk_flushing := False\<rparr>)"

definition flush :: "bool \<Rightarrow> bool \<Rightarrow> sink \<Rightarrow> sink" where
  "flush writable shouldFlush s =
     (if sk_flushing s \<or> sk_buffer s = [] \<or> \<not> shouldFlush then s else send_batch writable shouldFlush (s\<lparr>sk_flushing := True\<rparr>))"

definition batch_taken :: "bool \<Rightarrow> bool \<Rightarrow> sink \<Rightarrow> sink" where
  "batch_taken writable shouldFlush s =
     (if \<not> sk_flushing s then s
      else send_batch writable shouldFlush
        (persist writable (s\<lparr>sk_delivered := sk_delivered s @ sk_inFlight s, sk_inFlight := []\<rparr>)))"

definition batch_failed :: "bool \<Rightarrow> sink \<Rightarrow> sink" where
  "batch_failed writable s =
     (if \<not> sk_flushing s then s
      else persist writable (trimBuffer (length (sk_inFlight s))
        (s\<lparr>sk_inFlight := [], sk_buffer := sk_inFlight s @ sk_buffer s, sk_flushing := False\<rparr>)))"

text \<open>
  What reaches a sink: events of the window while it listens, requests to flush from its interval, from the page
  being hidden and from the code, and the answers to its batch.
\<close>

datatype sink_input = SinkStart | SinkStop | WindowEvent json | FlushNow | BatchTaken | BatchFailed

definition sink_step :: "bool \<Rightarrow> bool \<Rightarrow> sink_input \<Rightarrow> sink \<Rightarrow> sink" where
  "sink_step writable shouldFlush inp s = (case inp of
       SinkStart \<Rightarrow> s\<lparr>sk_listening := True\<rparr>
     | SinkStop \<Rightarrow> s\<lparr>sk_listening := False\<rparr>
     | WindowEvent e \<Rightarrow> if sk_listening s then handleEvent writable e s else s
     | FlushNow \<Rightarrow> flush writable shouldFlush s
     | BatchTaken \<Rightarrow> batch_taken writable shouldFlush s
     | BatchFailed \<Rightarrow> batch_failed writable s)"

end
