(* ===== verification/AnalyticsFacts.thy ===== *)
theory AnalyticsFacts
  imports Analytics "HOL-Library.Sublist"
begin

text \<open>
  The analytics pipeline: envelopes pass the validator the sink applies, and the sink gives the server what it
  heard, in the order it heard it, through failed batches, a full buffer and reloads of the page.
\<close>

section \<open>A run of the sink\<close>

type_synonym sink_run = "(bool \<times> bool \<times> sink_input) list"

fun run_sink :: "sink_run \<Rightarrow> sink \<Rightarrow> sink" where
  "run_sink [] s = s"
| "run_sink ((w, f, i) # is) s = run_sink is (sink_step w f i s)"

text \<open>The specification: the valid events of the window while somebody listens.\<close>

fun heard :: "bool \<Rightarrow> sink_run \<Rightarrow> json list" where
  "heard on [] = []"
| "heard on ((w, f, i) # is) = (case i of
       SinkStart \<Rightarrow> heard True is
     | SinkStop \<Rightarrow> heard False is
     | WindowEvent e \<Rightarrow> (if on \<and> isAnalyticsEvent e then e # heard on is else heard on is)
     | _ \<Rightarrow> heard on is)"

definition trail :: "sink \<Rightarrow> json list" where
  "trail s = sk_delivered s @ sk_inFlight s @ sk_buffer s"

definition sink_inv :: "sink \<Rightarrow> bool" where
  "sink_inv s \<longleftrightarrow> length (sk_buffer s) \<le> sk_maxBuffer s \<and> length (sk_inFlight s) \<le> sk_maxBuffer s
     \<and> length (sk_inFlight s) \<le> ANALYTICS_BATCH_MAX_SIZE \<and> (\<not> sk_flushing s \<longrightarrow> sk_inFlight s = [])
     \<and> (\<forall>e \<in> set (sk_inFlight s @ sk_buffer s). isAnalyticsEvent e)
     \<and> (\<forall>b \<in> set (sk_sent s). b \<noteq> [] \<and> length b \<le> ANALYTICS_BATCH_MAX_SIZE \<and> (\<forall>e \<in> set b. isAnalyticsEvent e))"

lemma persist_simps [simp]:
  "sk_buffer (persist w s) = sk_buffer s" "sk_inFlight (persist w s) = sk_inFlight s"
  "sk_maxBuffer (persist w s) = sk_maxBuffer s" "sk_flushing (persist w s) = sk_flushing s"
  "sk_listening (persist w s) = sk_listening s" "sk_sent (persist w s) = sk_sent s"
  "sk_delivered (persist w s) = sk_delivered s" "sk_persistent (persist w s) = sk_persistent s"
  by (simp_all add: persist_def Let_def)

lemma trimBuffer_simps [simp]:
  "sk_inFlight (trimBuffer n s) = sk_inFlight s" "sk_maxBuffer (trimBuffer n s) = sk_maxBuffer s"
  "sk_flushing (trimBuffer n s) = sk_flushing s" "sk_listening (trimBuffer n s) = sk_listening s"
  "sk_sent (trimBuffer n s) = sk_sent s" "sk_delivered (trimBuffer n s) = sk_delivered s"
  "sk_persistent (trimBuffer n s) = sk_persistent s"
  by (simp_all add: trimBuffer_def Let_def)

lemma trim_short: "length (sk_buffer s) \<le> sk_maxBuffer s \<Longrightarrow> sk_buffer (trimBuffer n s) = sk_buffer s"
  by (simp add: trimBuffer_def)

text \<open>A new event pushes out the oldest; a batch that comes back keeps its place and pushes out the newest.\<close>

lemma trim_oldest:
  "sk_buffer (trimBuffer 0 s) = drop (length (sk_buffer s) - sk_maxBuffer s) (sk_buffer s)"
  by (simp add: trimBuffer_def splice_out_def Let_def)

lemma trim_newest:
  "n \<le> sk_maxBuffer s \<Longrightarrow> 0 < n \<Longrightarrow> sk_buffer (trimBuffer n s) = take (sk_maxBuffer s) (sk_buffer s)"
  by (auto simp: trimBuffer_def splice_out_def Let_def max_def)

lemma subseq_drop: "subseq (drop n xs) xs"
  using list_emb_append2 [of "(=)" "drop n xs" "drop n xs" "take n xs"] by simp

lemma subseq_take: "subseq (take n xs) xs"
  using list_emb_append_mono [of "(=)" "take n xs" "take n xs" "[]" "drop n xs"] by simp

section \<open>One step\<close>

lemma send_batch_inv:
  assumes "sink_inv s" "sk_inFlight s = []" "sk_flushing s"
  shows "sink_inv (send_batch w f s)" "trail (send_batch w f s) = trail s"
proof -
  have len: "length (take ANALYTICS_BATCH_MAX_SIZE (sk_buffer s)) \<le> sk_maxBuffer s"
    using assms(1) by (simp add: sink_inv_def min.coboundedI1)
  show "sink_inv (send_batch w f s)"
    using assms len by (auto simp: sink_inv_def send_batch_def Let_def ANALYTICS_BATCH_MAX_SIZE_def
      dest: in_set_takeD in_set_dropD)
  show "trail (send_batch w f s) = trail s"
    using assms(2) by (simp add: trail_def send_batch_def Let_def)
qed

lemma batch_failed_inv:
  assumes s: "sink_inv s"
  shows "sink_inv (batch_failed w s)" "subseq (trail (batch_failed w s)) (trail s)"
    "length (sk_inFlight s @ sk_buffer s) \<le> sk_maxBuffer s \<Longrightarrow> trail (batch_failed w s) = trail s"
proof -
  let ?n = "length (sk_inFlight s)" and ?all = "sk_inFlight s @ sk_buffer s"
  let ?s = "s\<lparr>sk_inFlight := [], sk_buffer := ?all, sk_flushing := False\<rparr>"
  have n: "?n \<le> sk_maxBuffer s" and b: "length (sk_buffer s) \<le> sk_maxBuffer s" using s by (auto simp: sink_inv_def)
  have take: "sk_buffer (trimBuffer ?n ?s) = take (sk_maxBuffer s) ?all"
  proof (cases "sk_inFlight s = []")
    case True
    then show ?thesis using b trim_short [of ?s ?n] by simp
  next
    case False
    then show ?thesis using trim_newest [of ?n ?s] n by simp
  qed
  show "sink_inv (batch_failed w s)"
    using s take by (auto simp: batch_failed_def sink_inv_def dest: in_set_takeD)
  have "subseq (sk_delivered s @ take (sk_maxBuffer s) ?all) (sk_delivered s @ ?all)"
    unfolding subseq_append' by (rule subseq_take)
  then show "subseq (trail (batch_failed w s)) (trail s)"
    using take by (simp add: batch_failed_def trail_def)
  show "trail (batch_failed w s) = trail s" if "length ?all \<le> sk_maxBuffer s"
    using take that by (simp add: batch_failed_def trail_def)
qed

lemma handleEvent_inv:
  assumes s: "sink_inv s" and v: "isAnalyticsEvent e"
  shows "sink_inv (handleEvent w e s)" "subseq (trail (handleEvent w e s)) (trail s @ [e])"
    "length (sk_buffer s) < sk_maxBuffer s \<Longrightarrow> trail (handleEvent w e s) = trail s @ [e]"
proof -
  let ?d = "Suc (length (sk_buffer s)) - sk_maxBuffer s"
  have b: "sk_buffer (handleEvent w e s) = drop ?d (sk_buffer s @ [e])"
    using v by (simp add: handleEvent_def trim_oldest)
  have same: "sk_inFlight (handleEvent w e s) = sk_inFlight s" "sk_delivered (handleEvent w e s) = sk_delivered s"
    "sk_maxBuffer (handleEvent w e s) = sk_maxBuffer s" "sk_flushing (handleEvent w e s) = sk_flushing s"
    "sk_sent (handleEvent w e s) = sk_sent s"
    by (simp_all add: handleEvent_def)
  have valid: "\<forall>x \<in> set (drop ?d (sk_buffer s @ [e])). isAnalyticsEvent x"
    using s v by (auto simp: sink_inv_def dest!: in_set_dropD)
  have len: "length (drop ?d (sk_buffer s @ [e])) \<le> sk_maxBuffer s" by simp
  show "sink_inv (handleEvent w e s)"
    using s valid len unfolding sink_inv_def b same set_append ball_Un by blast
  have "subseq ((sk_delivered s @ sk_inFlight s) @ drop ?d (sk_buffer s @ [e]))
      ((sk_delivered s @ sk_inFlight s) @ (sk_buffer s @ [e]))"
    unfolding subseq_append' by (rule subseq_drop)
  then show "subseq (trail (handleEvent w e s)) (trail s @ [e])"
    by (simp only: trail_def b same append_assoc)
  show "trail (handleEvent w e s) = trail s @ [e]" if "length (sk_buffer s) < sk_maxBuffer s"
    using that by (simp add: trail_def b same)
qed

text \<open>What one input adds to the events heard.\<close>

definition heard_now :: "sink \<Rightarrow> sink_input \<Rightarrow> json list" where
  "heard_now s i = (case i of WindowEvent e \<Rightarrow> if sk_listening s \<and> isAnalyticsEvent e then [e] else [] | _ \<Rightarrow> [])"

lemma sink_step_max [simp]: "sk_maxBuffer (sink_step w f i s) = sk_maxBuffer s"
  by (simp add: sink_step_def handleEvent_def flush_def send_batch_def batch_taken_def batch_failed_def Let_def
      split: sink_input.splits)

lemma sink_step_persistent [simp]: "sk_persistent (sink_step w f i s) = sk_persistent s"
  by (simp add: sink_step_def handleEvent_def flush_def send_batch_def batch_taken_def batch_failed_def Let_def
      split: sink_input.splits)

lemma batch_taken_inv:
  assumes s: "sink_inv s"
  shows "sink_inv (batch_taken w f s)" "trail (batch_taken w f s) = trail s"
proof -
  let ?s = "persist w (s\<lparr>sk_delivered := sk_delivered s @ sk_inFlight s, sk_inFlight := []\<rparr>)"
  have "sink_inv ?s" "trail ?s = trail s" using s by (simp_all add: sink_inv_def trail_def)
  then show "sink_inv (batch_taken w f s)" "trail (batch_taken w f s) = trail s"
    using s send_batch_inv [of ?s w f] by (simp_all add: batch_taken_def)
qed

lemma flush_inv:
  assumes s: "sink_inv s"
  shows "sink_inv (flush w f s)" "trail (flush w f s) = trail s"
proof -
  have "sk_inFlight s = []" if "\<not> sk_flushing s" using s that by (simp add: sink_inv_def)
  then show "sink_inv (flush w f s)" "trail (flush w f s) = trail s"
    using s send_batch_inv [of "s\<lparr>sk_flushing := True\<rparr>" w f]
    by (auto simp: flush_def sink_inv_def trail_def)
qed

lemma sink_step_inv:
  assumes s: "sink_inv s"
  shows "sink_inv (sink_step w f i s)" "subseq (trail (sink_step w f i s)) (trail s @ heard_now s i)"
proof -
  have same: "sink_inv (s\<lparr>sk_listening := b\<rparr>)" "trail (s\<lparr>sk_listening := b\<rparr>) = trail s" for b
    using s by (simp_all add: sink_inv_def trail_def)
  show "sink_inv (sink_step w f i s)"
    using s same handleEvent_inv(1) [OF s] batch_taken_inv(1) [OF s] batch_failed_inv(1) [OF s] flush_inv(1) [OF s]
    by (auto simp: sink_step_def handleEvent_def split: sink_input.splits)
  show "subseq (trail (sink_step w f i s)) (trail s @ heard_now s i)"
    using same handleEvent_inv(2) [OF s] batch_taken_inv(2) [OF s] batch_failed_inv(2) [OF s] flush_inv(2) [OF s]
    by (auto simp: sink_step_def heard_now_def handleEvent_def split: sink_input.splits)
qed

lemma sink_step_exact:
  assumes s: "sink_inv s" and room: "length (trail s @ heard_now s i) \<le> sk_maxBuffer s"
  shows "trail (sink_step w f i s) = trail s @ heard_now s i"
proof (cases i)
  case (WindowEvent e)
  have "length (sk_buffer s) \<le> length (trail s)" by (simp add: trail_def)
  then show ?thesis using WindowEvent room handleEvent_inv(3) [OF s, of e w]
    by (auto simp: sink_step_def heard_now_def handleEvent_def)
next
  case BatchFailed
  have "length (sk_inFlight s @ sk_buffer s) \<le> length (trail s)" by (simp add: trail_def)
  then show ?thesis using BatchFailed room batch_failed_inv(3) [OF s, of w]
    by (simp add: sink_step_def heard_now_def)
qed (use batch_taken_inv(2) [OF s] flush_inv(2) [OF s] in \<open>simp_all add: sink_step_def heard_now_def trail_def\<close>)

lemma listening_step:
  "sk_listening (sink_step w f i s) = (case i of SinkStart \<Rightarrow> True | SinkStop \<Rightarrow> False | _ \<Rightarrow> sk_listening s)"
  by (simp add: sink_step_def handleEvent_def flush_def send_batch_def batch_taken_def batch_failed_def Let_def
      split: sink_input.splits)

lemma heard_step: "heard (sk_listening s) ((w, f, i) # is) = heard_now s i @ heard (sk_listening (sink_step w f i s)) is"
  by (simp add: heard_now_def listening_step split: sink_input.splits)

section \<open>A whole run\<close>

definition sample_event :: "string \<Rightarrow> json" where
  "sample_event i = JObject [(''eventId'', JString i), (''name'', JString ''share_opened''), (''sessionId'', JString ''s''),
     (''occurredAt'', jnum 1000), (''schemaVersion'', jnum 1), (''props'', JObject [(''source'', JString ''menu'')])]"

lemma sample_event_valid: "isAnalyticsEvent (sample_event i) \<longleftrightarrow> i \<noteq> []"
  by (simp add: sample_event_def isAnalyticsEvent_def nonempty_text_def ANALYTICS_SCHEMA_VERSION_def EVENT_NAMES_def
      ANALYTICS_PROPERTY_MAX_COUNT_def property_ok_def ANALYTICS_PROPERTY_KEY_MAX_LENGTH_def is_primitive_def
      ANALYTICS_PROPERTY_STRING_MAX_LENGTH_def)

definition sample_run :: sink_run where
  "sample_run = [(True, True, WindowEvent (sample_event ''z'')), (True, True, SinkStart),
     (True, True, WindowEvent (sample_event ''a'')), (True, True, WindowEvent (sample_event ''b'')), (True, True, FlushNow),
     (True, True, WindowEvent (sample_event ''c'')), (True, True, BatchFailed), (True, True, WindowEvent (sample_event []))]"

lemma sample_run_result:
  "run_sink sample_run (new_sink True 2 0 None)
   = \<lparr>sk_persistent = True, sk_maxBuffer = 2, sk_buffer = [sample_event ''a'', sample_event ''b''], sk_inFlight = [],
      sk_flushing = False, sk_listening = True,
      sk_stored = Some (JArray [sample_event ''a'', sample_event ''b'']),
      sk_sent = [[sample_event ''a'', sample_event ''b'']], sk_delivered = []\<rparr>"
  by (simp add: sample_run_def sink_step_def new_sink_def saved_events_def handleEvent_def sample_event_valid trimBuffer_def
      splice_out_def persist_def flush_def send_batch_def batch_failed_def ANALYTICS_BATCH_MAX_SIZE_def slice_last_def Let_def)

lemma sample_run_heard: "heard False sample_run = [sample_event ''a'', sample_event ''b'', sample_event ''c'']"
  by (simp add: sample_run_def sample_event_valid)

lemma run_sink_inv:
  "sink_inv s \<Longrightarrow> sink_inv (run_sink is s) \<and> subseq (trail (run_sink is s)) (trail s @ heard (sk_listening s) is)"
proof (induction "is" s rule: run_sink.induct)
  case (2 w f i "is" s)
  let ?t = "sink_step w f i s"
  have t: "sink_inv ?t" and sub: "subseq (trail ?t) (trail s @ heard_now s i)" using sink_step_inv [OF 2(2)] .
  have ih: "sink_inv (run_sink is ?t)" "subseq (trail (run_sink is ?t)) (trail ?t @ heard (sk_listening ?t) is)"
    using 2(1) [OF t] by simp_all
  have "subseq (trail ?t @ heard (sk_listening ?t) is) ((trail s @ heard_now s i) @ heard (sk_listening ?t) is)"
    using sub unfolding subseq_append .
  then have "subseq (trail (run_sink is ?t)) (trail s @ heard (sk_listening s) ((w, f, i) # is))"
    using ih(2) subseq_order.trans heard_step [of s w f i "is"] append_assoc by metis
  then show ?case using ih(1) by (simp only: run_sink.simps simp_thms)
qed simp

lemma run_sink_exact:
  "sink_inv s \<Longrightarrow> length (trail s @ heard (sk_listening s) is) \<le> sk_maxBuffer s
     \<Longrightarrow> trail (run_sink is s) = trail s @ heard (sk_listening s) is"
proof (induction "is" s rule: run_sink.induct)
  case (2 w f i "is" s)
  have "trail (sink_step w f i s) = trail s @ heard_now s i"
    using sink_step_exact [OF 2(2), of i w f] 2(3) heard_step [of s w f i "is"] by simp
  then show ?case using 2(1) [OF sink_step_inv(1) [OF 2(2)]] 2(3) heard_step [of s w f i "is"] by simp
qed simp

lemma slice_last_set: "set (slice_last n xs) \<subseteq> set xs"
  by (simp add: slice_last_def set_drop_subset)

lemma slice_last_length: "0 < n \<Longrightarrow> length (slice_last n xs) \<le> n"
  by (simp add: slice_last_def)

lemma saved_events_valid: "e \<in> set (saved_events now m stored) \<Longrightarrow> isAnalyticsEvent e"
  unfolding saved_events_def by (cases stored; cases "the stored") (use slice_last_set in \<open>fastforce+\<close>)

lemma saved_events_length: "0 < m \<Longrightarrow> length (saved_events now m stored) \<le> m"
  unfolding saved_events_def by (cases stored; cases "the stored") (simp_all add: slice_last_length)

lemma new_sink_inv: "0 < m \<Longrightarrow> sink_inv (new_sink p m now stored)"
  using saved_events_valid [of _ now m stored] saved_events_length [of m now stored]
  by (simp add: sink_inv_def new_sink_def)

text \<open>
  C39: The analytics sink delivers what it heard, in order and at most once. Take any sink with a buffer of at least
  one event, whatever the storage held when it was made, and any sequence of inputs: events of the window, starts,
  stops, flushes, batches taken and batches failed, with the storage writable or not and flushing allowed or not at
  each moment. What it has delivered, what is in flight and what is buffered, one after the other, is a subsequence
  of the saved events followed by the valid events it heard, and all of them while they fit in the buffer; the buffer
  never exceeds its bound, every batch has between 1 and 50 events, all valid.
\<close>

theorem sink_delivers_in_order:
  fixes "is" :: sink_run
  assumes "0 < m" "s = new_sink p m now stored" "t = run_sink is s"
  shows "subseq (sk_delivered t @ sk_inFlight t @ sk_buffer t) (sk_buffer s @ heard False is)
    \<and> (length (sk_buffer s @ heard False is) \<le> m
      \<longrightarrow> sk_delivered t @ sk_inFlight t @ sk_buffer t = sk_buffer s @ heard False is)
    \<and> length (sk_buffer t) \<le> m \<and> (\<forall>b \<in> set (sk_sent t). b \<noteq> [] \<and> length b \<le> 50 \<and> (\<forall>e \<in> set b. isAnalyticsEvent e))"
proof -
  have s: "sink_inv s" using new_sink_inv assms by simp
  have start: "trail s = sk_buffer s" "\<not> sk_listening s" "sk_maxBuffer s = m"
    using assms(2) by (simp_all add: trail_def new_sink_def)
  have t: "sink_inv t" and sub: "subseq (trail t) (sk_buffer s @ heard False is)"
    using run_sink_inv [OF s, of "is"] start assms(3) by simp_all
  have "subseq (sk_delivered t @ sk_inFlight t @ sk_buffer t) (sk_buffer s @ heard False is)"
    using sub by (simp add: trail_def)
  moreover have "sk_delivered t @ sk_inFlight t @ sk_buffer t = sk_buffer s @ heard False is"
    if "length (sk_buffer s @ heard False is) \<le> m"
    using run_sink_exact [OF s, of "is"] that start assms(3) by (simp add: trail_def)
  moreover have "sk_maxBuffer (run_sink is s) = sk_maxBuffer s" by (induction "is" s rule: run_sink.induct) simp_all
  then have "length (sk_buffer t) \<le> m \<and> (\<forall>b \<in> set (sk_sent t). b \<noteq> [] \<and> length b \<le> 50 \<and> (\<forall>e \<in> set b. isAnalyticsEvent e))"
    using t start assms(3) by (simp add: sink_inv_def ANALYTICS_BATCH_MAX_SIZE_def)
  ultimately show ?thesis by blast
qed

theorem sink_delivers_in_order_witness:
  "subseq [sample_event ''a'', sample_event ''b''] [sample_event ''a'', sample_event ''b'', sample_event ''c'']
   \<and> length [sample_event ''a'', sample_event ''b''] \<le> 2"
  using sink_delivers_in_order [of 2 "new_sink True 2 0 None" True 0 None "run_sink sample_run (new_sink True 2 0 None)" sample_run]
  unfolding sample_run_result sample_run_heard by (simp add: new_sink_def saved_events_def)

section \<open>Reloading the page\<close>

text \<open>What the item of the storage holds after a write.\<close>

definition kept :: "sink \<Rightarrow> json list" where
  "kept s = (let r = sk_maxBuffer s - length (sk_inFlight s)
     in sk_inFlight s @ (if 0 < r then slice_last r (sk_buffer s) else []))"

definition in_store :: "sink \<Rightarrow> bool" where
  "in_store s \<longleftrightarrow> sk_stored s = Some (JArray (kept s)) \<or> (sk_stored s = None \<and> sk_inFlight s = [] \<and> sk_buffer s = [])"

lemma persist_in_store: "sk_persistent s \<Longrightarrow> in_store (persist True s)"
  by (simp add: in_store_def kept_def persist_def Let_def)

lemma in_store_same: "in_store s \<Longrightarrow> in_store (s\<lparr>sk_flushing := b\<rparr>) \<and> in_store (s\<lparr>sk_listening := b\<rparr>)"
  by (auto simp: in_store_def kept_def)

lemma send_batch_in_store: "sk_persistent s \<Longrightarrow> in_store s \<Longrightarrow> in_store (send_batch True f s)"
  using persist_in_store in_store_same by (simp add: send_batch_def Let_def)

lemma sink_step_in_store:
  assumes "sk_persistent s" "in_store s"
  shows "in_store (sink_step True f i s)"
  using assms persist_in_store send_batch_in_store in_store_same
  by (cases i) (simp_all add: sink_step_def handleEvent_def flush_def batch_taken_def batch_failed_def)

lemma run_sink_in_store:
  "sk_persistent s \<Longrightarrow> in_store s \<Longrightarrow> \<forall>x \<in> set is. fst x \<Longrightarrow> in_store (run_sink is s)"
  by (induction "is" s rule: run_sink.induct) (simp_all add: sink_step_in_store)

lemma slice_last_all: "length xs \<le> n \<Longrightarrow> slice_last n xs = xs"
  by (simp add: slice_last_def)

lemma kept_all: "length (sk_inFlight s @ sk_buffer s) \<le> sk_maxBuffer s \<Longrightarrow> kept s = sk_inFlight s @ sk_buffer s"
  by (cases "sk_buffer s") (auto simp: kept_def Let_def slice_last_all)

lemma filter_id: "(\<And>x. x \<in> set xs \<Longrightarrow> P x) \<Longrightarrow> filter P xs = xs"
  by (simp add: filter_id_conv)

text \<open>
  Nothing pending is lost when the page is reloaded. A persistent sink that starts on an empty storage and can
  always write has, after any run, everything that was not delivered in the storage as long as it fits the buffer: a
  sink made later from that storage starts with exactly the events that were in flight and those that were buffered,
  in that order, less those older than 30 days by then.
\<close>

theorem sink_survives_reload:
  fixes "is" :: sink_run
  assumes "0 < m" "\<forall>x \<in> set is. fst x" "t = run_sink is (new_sink True m now None)"
    and fits: "length (sk_inFlight t @ sk_buffer t) \<le> m"
  shows "sk_buffer (new_sink True m later (sk_stored t))
    = filter (\<lambda>e. jsub later CACHE_MAX_AGE_MS < occurred_at e) (sk_inFlight t @ sk_buffer t)"
proof -
  let ?s = "new_sink True m now None" and ?P = "\<lambda>e. jsub later CACHE_MAX_AGE_MS < occurred_at e"
  have s: "sink_inv ?s" by (rule new_sink_inv [OF assms(1)])
  have fresh: "sk_persistent ?s" "in_store ?s" by (simp_all add: new_sink_def in_store_def saved_events_def)
  have "in_store t" using run_sink_in_store [OF fresh] assms(2,3) by simp
  moreover have t: "sink_inv t" using run_sink_inv [OF s] assms(3) by simp
  moreover have m: "sk_maxBuffer t = m"
  proof -
    have "sk_maxBuffer (run_sink is s) = sk_maxBuffer s" for s by (induction "is" s rule: run_sink.induct) simp_all
    then show ?thesis using assms(3) by (simp add: new_sink_def)
  qed
  ultimately consider (none) "sk_stored t = None" "sk_inFlight t @ sk_buffer t = []"
    | (some) "sk_stored t = Some (JArray (sk_inFlight t @ sk_buffer t))"
    using fits kept_all [of t] by (auto simp: in_store_def)
  then show ?thesis
  proof cases
    case none
    then show ?thesis by (simp add: new_sink_def saved_events_def)
  next
    case some
    have "filter isAnalyticsEvent (sk_inFlight t @ sk_buffer t) = sk_inFlight t @ sk_buffer t"
      by (rule filter_id) (use t in \<open>simp add: sink_inv_def\<close>)
    moreover have "length (filter ?P (sk_inFlight t @ sk_buffer t)) \<le> m"
      using fits length_filter_le order_trans by blast
    ultimately show ?thesis using some by (simp only: new_sink_def saved_events_def sink.simps option.simps json.simps
      if_True slice_last_all)
  qed
qed

theorem sink_survives_reload_witness:
  "sk_buffer (new_sink True 2 5000 (Some (JArray [sample_event ''a'', sample_event ''b''])))
   = filter (\<lambda>e. jsub 5000 CACHE_MAX_AGE_MS < occurred_at e) [sample_event ''a'', sample_event ''b'']"
  using sink_survives_reload [of 2 sample_run "run_sink sample_run (new_sink True 2 0 None)" 0 5000]
  unfolding sample_run_result by (simp add: sample_run_def)

section \<open>Draining\<close>

lemma drain_step:
  assumes "sk_flushing s" "length (sk_inFlight s @ sk_buffer s) \<le> 50 * n" "sk_buffer s \<noteq> [] \<longrightarrow> length (sk_inFlight s) = 50"
    "sk_buffer s = [] \<longrightarrow> n \<noteq> 0"
  shows "\<exists>k\<le>n. \<not> sk_flushing (run_sink (replicate k (w, True, BatchTaken)) s)
    \<and> trail (run_sink (replicate k (w, True, BatchTaken)) s) = trail s
    \<and> sk_inFlight (run_sink (replicate k (w, True, BatchTaken)) s) = []
    \<and> sk_buffer (run_sink (replicate k (w, True, BatchTaken)) s) = []"
  using assms
proof (induction n arbitrary: s)
  case (Suc n)
  let ?t = "sink_step w True BatchTaken s"
  show ?case
  proof (cases "sk_buffer s = []")
    case True
    then have "\<not> sk_flushing ?t \<and> trail ?t = trail s \<and> sk_inFlight ?t = [] \<and> sk_buffer ?t = []"
      using Suc.prems(1) by (simp add: sink_step_def batch_taken_def send_batch_def trail_def)
    then show ?thesis by (intro exI [of _ 1]) simp
  next
    case False
    have t: "sk_flushing ?t" "trail ?t = trail s" "sk_inFlight ?t = take 50 (sk_buffer s)" "sk_buffer ?t = drop 50 (sk_buffer s)"
      using Suc.prems(1) False
      by (simp_all add: sink_step_def batch_taken_def send_batch_def trail_def Let_def ANALYTICS_BATCH_MAX_SIZE_def)
    have "length (sk_inFlight ?t @ sk_buffer ?t) \<le> 50 * n" "n \<noteq> 0"
      "sk_buffer ?t \<noteq> [] \<longrightarrow> length (sk_inFlight ?t) = 50"
      using Suc.prems(2,3) False t by (auto simp: length_greater_0_conv [symmetric] simp del: length_greater_0_conv)
    then obtain k where "k \<le> n" "\<not> sk_flushing (run_sink (replicate k (w, True, BatchTaken)) ?t)"
      "trail (run_sink (replicate k (w, True, BatchTaken)) ?t) = trail ?t"
      "sk_inFlight (run_sink (replicate k (w, True, BatchTaken)) ?t) = []"
      "sk_buffer (run_sink (replicate k (w, True, BatchTaken)) ?t) = []"
      using Suc.IH [OF t(1)] by blast
    then show ?thesis using t(2) by (intro exI [of _ "Suc k"]) simp
  qed
qed auto

text \<open>
  The sink empties itself when the server answers. Whatever happened to it before, once it is idle, a request to
  flush followed by at most one accepted batch per fifty buffered events (rounded up) delivers every buffered event,
  in order, and leaves the sink idle with nothing buffered and nothing in flight.
\<close>

theorem sink_drains:
  fixes "is" :: sink_run
  assumes "0 < m" "s = run_sink is (new_sink p m now stored)" "\<not> sk_flushing s"
  shows "\<exists>k \<le> (length (sk_buffer s) + 49) div 50.
    let t = run_sink ((w, True, FlushNow) # replicate k (w, True, BatchTaken)) s
    in \<not> sk_flushing t \<and> sk_buffer t = [] \<and> sk_inFlight t = [] \<and> sk_delivered t = sk_delivered s @ sk_buffer s"
proof -
  have inv: "sink_inv s" using run_sink_inv new_sink_inv assms(1,2) by simp
  then have idle: "sk_inFlight s = []" using assms(3) by (simp add: sink_inv_def)
  show ?thesis
  proof (cases "sk_buffer s = []")
    case True
    then show ?thesis using idle assms(3) by (intro exI [of _ 0]) (simp add: sink_step_def flush_def)
  next
    case False
    let ?t = "sink_step w True FlushNow s" and ?n = "(length (sk_buffer s) + 49) div 50"
    have t: "sk_flushing ?t" "trail ?t = trail s" "sk_inFlight ?t = take 50 (sk_buffer s)" "sk_buffer ?t = drop 50 (sk_buffer s)"
      using False assms(3) idle
      by (simp_all add: sink_step_def flush_def send_batch_def trail_def Let_def ANALYTICS_BATCH_MAX_SIZE_def)
    have n: "length (sk_buffer s) \<le> 50 * ?n" "0 < ?n" using False by (cases "sk_buffer s"; simp; linarith)+
    have "\<exists>k\<le>?n. \<not> sk_flushing (run_sink (replicate k (w, True, BatchTaken)) ?t)
      \<and> trail (run_sink (replicate k (w, True, BatchTaken)) ?t) = trail ?t
      \<and> sk_inFlight (run_sink (replicate k (w, True, BatchTaken)) ?t) = []
      \<and> sk_buffer (run_sink (replicate k (w, True, BatchTaken)) ?t) = []"
      by (rule drain_step [OF t(1)]) (use n in \<open>simp_all add: t(3,4)\<close>)
    then show ?thesis using t(2) idle by (auto simp: Let_def trail_def)
  qed
qed

theorem sink_drains_witness:
  "\<exists>k \<le> 1.
    let t = run_sink ((True, True, FlushNow) # replicate k (True, True, BatchTaken)) (run_sink sample_run (new_sink True 2 0 None))
    in \<not> sk_flushing t \<and> sk_buffer t = [] \<and> sk_inFlight t = [] \<and> sk_delivered t = [sample_event ''a'', sample_event ''b'']"
  using sink_drains [of 2 "run_sink sample_run (new_sink True 2 0 None)" sample_run True 0 None True]
  unfolding sample_run_result by simp

section \<open>The events themselves\<close>

text \<open>What the validator leaves to the caller: no text above 256 characters and no number that is not finite.\<close>

definition small_value :: "json \<Rightarrow> bool" where
  "small_value v = (case v of JString t \<Rightarrow> length t \<le> 256 | JNumber x \<Rightarrow> is_finite x | _ \<Rightarrow> True)"

lemma event_name_known: "fst (event_of e) \<in> set EVENT_NAMES"
  by (cases e) (simp_all add: event_of_def EVENT_NAMES_def)

lemma field_items: "p \<in> set (field k v) \<longleftrightarrow> (\<exists>x. v = Some x \<and> p = (k, x))"
  by (auto simp: field_def split: option.splits)

lemma event_props_count: "length (snd (event_of e)) \<le> ANALYTICS_PROPERTY_MAX_COUNT"
  by (cases e) (simp_all add: event_of_def ANALYTICS_PROPERTY_MAX_COUNT_def context_props_def seat_props_def id_mode_def
      id_seconds_def field_def split: option.splits)

definition event_keys :: "string list" where
  "event_keys = [''matchId'', ''mode'', ''botDifficulty'', ''gameplayRulesVersion'', ''slot'', ''teamId'', ''source'',
     ''battlefieldId'', ''result'', ''durationSeconds'', ''purchaseId'', ''upgradeType'', ''reason'', ''claimId'',
     ''commanderId'', ''waitedSeconds'', ''atSeconds'', ''status'', ''levelId'', ''from'', ''to'', ''fps'', ''stepId'',
     ''lastStepId'', ''kind'', ''errorName'', ''message'', ''scene'', ''build'', ''rankId'']"

lemma event_keys_short: "list_all (\<lambda>k. k \<noteq> [] \<and> length k \<le> ANALYTICS_PROPERTY_KEY_MAX_LENGTH) event_keys"
  by (simp add: event_keys_def ANALYTICS_PROPERTY_KEY_MAX_LENGTH_def)

definition flat_value :: "json \<Rightarrow> bool" where
  "flat_value v = (case v of JString _ \<Rightarrow> True | JNumber _ \<Rightarrow> True | JBool _ \<Rightarrow> True | _ \<Rightarrow> False)"

lemma event_props_flat: "list_all (\<lambda>p. fst p \<in> set event_keys \<and> flat_value (snd p)) (snd (event_of e))"
  by (cases e) (simp_all add: event_of_def event_keys_def flat_value_def context_props_def seat_props_def id_mode_def
      id_seconds_def field_def split: option.splits)

lemma property_ok_small:
  "fst p \<in> set event_keys \<Longrightarrow> flat_value (snd p) \<Longrightarrow> property_ok p \<longleftrightarrow> small_value (snd p)"
  using event_keys_short
  by (cases "snd p") (auto simp: property_ok_def flat_value_def small_value_def is_primitive_def list_all_iff
      ANALYTICS_PROPERTY_STRING_MAX_LENGTH_def)

lemma props_ok_small: "list_all property_ok (snd (event_of e)) \<longleftrightarrow> (\<forall>p \<in> set (snd (event_of e)). small_value (snd p))"
  using event_props_flat [of e] property_ok_small unfolding list_all_iff by blast

text \<open>
  C40: Every event the game can name passes the validator. The envelope \<open>trackEvent\<close> builds for any of the 55 events
  is accepted by \<open>isAnalyticsEvent\<close>, and therefore buffered by the sink, exactly when the event and session
  identifiers are not empty, the texts it carries have at most 256 characters and its numbers are finite: its name is
  always one the validator knows, it never has too many properties, and no property is nested or badly named.
\<close>

theorem envelopes_valid:
  "isAnalyticsEvent (envelope k mo e) \<longleftrightarrow> mo_eventId mo \<noteq> [] \<and> tk_sessionId k \<noteq> []
     \<and> (\<forall>p \<in> set (snd (event_of e)). small_value (snd p))"
  using event_name_known [of e] event_props_count [of e] props_ok_small [of e]
  by (simp add: envelope_def isAnalyticsEvent_def nonempty_text_def)

theorem envelopes_valid_witness:
  "isAnalyticsEvent (envelope \<lparr>tk_sessionId = ''s'', tk_sessionStarted = True, tk_terminalMatchIds = {}, tk_dispatched = []\<rparr>
     \<lparr>mo_eventId = ''e1'', mo_now = 1000\<rparr> (EvLevelCompleted (Finite 3) (Finite 42)))"
  using envelopes_valid [of "\<lparr>tk_sessionId = ''s'', tk_sessionStarted = True, tk_terminalMatchIds = {}, tk_dispatched = []\<rparr>"
     "\<lparr>mo_eventId = ''e1'', mo_now = 1000\<rparr>" "EvLevelCompleted (Finite 3) (Finite 42)"]
  by (simp add: event_of_def id_seconds_def small_value_def)

section \<open>Each match ends once\<close>

text \<open>The calls of the module in the order they are made.\<close>

datatype track_call = Track moment analytics_input | SessionStart moment | Terminal moment analytics_input

definition track_step :: "track_call \<Rightarrow> tracker \<Rightarrow> tracker" where
  "track_step c k = (case c of Track mo e \<Rightarrow> trackEvent mo e k | SessionStart mo \<Rightarrow> trackSessionStart mo k
     | Terminal mo e \<Rightarrow> snd (trackTerminalMatchEvent mo e k))"

fun run_tracker :: "track_call list \<Rightarrow> tracker \<Rightarrow> tracker" where
  "run_tracker [] k = k"
| "run_tracker (c # cs) k = run_tracker cs (track_step c k)"

text \<open>The discipline of the call sites: ends of matches and starts of sessions have their own functions.\<close>

definition proper :: "track_call \<Rightarrow> bool" where
  "proper c = (case c of Track mo e \<Rightarrow> terminal_match e = None \<and> e \<noteq> EvSessionStart | _ \<Rightarrow> True)"

text \<open>How the receiver of the envelopes recognises them.\<close>

definition envelope_name :: "json \<Rightarrow> string option" where
  "envelope_name v = (case v of JObject ps \<Rightarrow> json_string (obj_get ps ''name'') | _ \<Rightarrow> None)"

definition ended_match :: "json \<Rightarrow> string option" where
  "ended_match v = (case v of
       JObject ps \<Rightarrow>
         if envelope_name v \<in> {Some ''match_end'', Some ''match_quit''}
         then (case json_object (obj_get ps ''props'') of Some props \<Rightarrow> json_string (obj_get props ''matchId'') | None \<Rightarrow> None)
         else None
     | _ \<Rightarrow> None)"

definition called_ends :: "track_call list \<Rightarrow> string set" where
  "called_ends cs = {i. \<exists>mo e. Terminal mo e \<in> set cs \<and> terminal_match e = Some i}"

lemma ended_match_envelope: "ended_match (envelope k mo e) = terminal_match e"
  by (cases e) (simp_all add: ended_match_def envelope_name_def envelope_def event_of_def terminal_match_def
      context_props_def field_def id_mode_def split: option.splits)

lemma envelope_name_envelope: "envelope_name (envelope k mo e) = Some (fst (event_of e))"
  by (simp add: envelope_name_def envelope_def)

lemma session_start_name: "fst (event_of e) = ''session_start'' \<longleftrightarrow> e = EvSessionStart"
  by (cases e) (simp_all add: event_of_def)

definition starts :: "tracker \<Rightarrow> nat" where
  "starts k = length (filter (\<lambda>v. envelope_name v = Some ''session_start'') (tk_dispatched k))"

definition ends :: "tracker \<Rightarrow> string list" where "ends k = List.map_filter ended_match (tk_dispatched k)"

lemma trackEvent_starts: "starts (trackEvent mo e k) = starts k + (if e = EvSessionStart then 1 else 0)"
  by (simp add: starts_def trackEvent_def envelope_name_envelope session_start_name)

lemma trackEvent_ends: "ends (trackEvent mo e k) = ends k @ (case terminal_match e of Some i \<Rightarrow> [i] | None \<Rightarrow> [])"
  by (simp add: ends_def trackEvent_def map_filter_def ended_match_envelope split: option.splits)

lemma trackEvent_state [simp]:
  "tk_sessionStarted (trackEvent mo e k) = tk_sessionStarted k"
  "tk_terminalMatchIds (trackEvent mo e k) = tk_terminalMatchIds k"
  by (simp_all add: trackEvent_def)

lemma with_state [simp]:
  "starts (k\<lparr>tk_sessionStarted := b\<rparr>) = starts k" "ends (k\<lparr>tk_sessionStarted := b\<rparr>) = ends k"
  "starts (k\<lparr>tk_terminalMatchIds := A\<rparr>) = starts k" "ends (k\<lparr>tk_terminalMatchIds := A\<rparr>) = ends k"
  by (simp_all add: starts_def ends_def)

definition tracker_inv :: "tracker \<Rightarrow> bool" where
  "tracker_inv k \<longleftrightarrow> distinct (ends k) \<and> set (ends k) = tk_terminalMatchIds k
     \<and> starts k = (if tk_sessionStarted k then 1 else 0)"

lemma track_step_inv:
  assumes k: "tracker_inv k" and c: "proper c"
  shows "tracker_inv (track_step c k)"
    "tk_terminalMatchIds (track_step c k) = tk_terminalMatchIds k \<union> called_ends [c]"
    "tk_sessionStarted (track_step c k) \<longleftrightarrow> tk_sessionStarted k \<or> (\<exists>mo. c = SessionStart mo)"
  using k c by (auto simp: track_step_def tracker_inv_def proper_def called_ends_def trackSessionStart_def
      trackTerminalMatchEvent_def trackEvent_starts trackEvent_ends terminal_match_def
      split: track_call.splits option.splits)

lemma run_tracker_inv:
  assumes "tracker_inv k" "list_all proper cs"
  shows "tracker_inv (run_tracker cs k)
    \<and> tk_terminalMatchIds (run_tracker cs k) = tk_terminalMatchIds k \<union> called_ends cs
    \<and> (tk_sessionStarted (run_tracker cs k) \<longleftrightarrow> tk_sessionStarted k \<or> (\<exists>mo. SessionStart mo \<in> set cs))"
  using assms
proof (induction cs k rule: run_tracker.induct)
  case (2 c cs k)
  have c: "tracker_inv k" "proper c" "list_all proper cs" using 2 by simp_all
  have split: "called_ends (c # cs) = called_ends [c] \<union> called_ends cs" by (auto simp: called_ends_def)
  show ?case using 2(1) [OF track_step_inv(1) [OF c(1,2)] c(3)] track_step_inv(2,3) [OF c(1,2)] split by auto
qed (simp add: called_ends_def)

text \<open>
  Every match ends once in the analytics, and every session starts once. Whatever sequence of calls the game
  makes of the module, as long as ends of matches and starts of sessions go through their own functions, the
  envelopes dispatched name each match at most once as ended or quit, they name exactly the matches whose end was
  reported, and there is a session start exactly when one was asked for,
  and only one.
\<close>

theorem matches_end_once:
  assumes "list_all proper calls"
    "k = run_tracker calls \<lparr>tk_sessionId = i, tk_sessionStarted = False, tk_terminalMatchIds = {}, tk_dispatched = []\<rparr>"
  shows "distinct (List.map_filter ended_match (tk_dispatched k))"
    "set (List.map_filter ended_match (tk_dispatched k))
       = {i. \<exists>mo e. Terminal mo e \<in> set calls \<and> terminal_match e = Some i}"
    "length (filter (\<lambda>v. envelope_name v = Some ''session_start'') (tk_dispatched k))
       = (if \<exists>mo. SessionStart mo \<in> set calls then 1 else 0)"
proof -
  have "tracker_inv \<lparr>tk_sessionId = i, tk_sessionStarted = False, tk_terminalMatchIds = {}, tk_dispatched = []\<rparr>"
    by (simp add: tracker_inv_def ends_def starts_def map_filter_def)
  from run_tracker_inv [OF this assms(1)]
  have "tracker_inv k" "tk_terminalMatchIds k = called_ends calls"
    "tk_sessionStarted k \<longleftrightarrow> (\<exists>mo. SessionStart mo \<in> set calls)"
    using assms(2) by simp_all
  then show "distinct (List.map_filter ended_match (tk_dispatched k))"
    "set (List.map_filter ended_match (tk_dispatched k))
       = {i. \<exists>mo e. Terminal mo e \<in> set calls \<and> terminal_match e = Some i}"
    "length (filter (\<lambda>v. envelope_name v = Some ''session_start'') (tk_dispatched k))
       = (if \<exists>mo. SessionStart mo \<in> set calls then 1 else 0)"
    unfolding tracker_inv_def ends_def starts_def called_ends_def by simp_all
qed

theorem matches_end_once_witness:
  "let e = EvMatchQuit \<lparr>mc_botDifficulty = None, mc_rules = None, mc_matchId = ''m1'', mc_mode = BotMode\<rparr> (Finite 5);
       mo = \<lparr>mo_eventId = ''e1'', mo_now = 1000\<rparr>;
       calls = [SessionStart mo, Terminal mo e, Track mo EvLiveInviteCreated, SessionStart mo, Terminal mo e];
       k = run_tracker calls \<lparr>tk_sessionId = ''s'', tk_sessionStarted = False, tk_terminalMatchIds = {}, tk_dispatched = []\<rparr>
   in distinct (List.map_filter ended_match (tk_dispatched k)) \<and> List.map_filter ended_match (tk_dispatched k) = [''m1'']"
  using matches_end_once(1) [of "let e = EvMatchQuit \<lparr>mc_botDifficulty = None, mc_rules = None, mc_matchId = ''m1'', mc_mode = BotMode\<rparr> (Finite 5);
       mo = \<lparr>mo_eventId = ''e1'', mo_now = 1000\<rparr>
     in [SessionStart mo, Terminal mo e, Track mo EvLiveInviteCreated, SessionStart mo, Terminal mo e]" _ "''s''", OF _ refl]
  by (simp add: Let_def proper_def terminal_match_def track_step_def trackSessionStart_def trackTerminalMatchEvent_def
      trackEvent_def map_filter_def ended_match_envelope)

end
