(* ===== verification/ArmyNames.thy ===== *)
theory ArmyNames
  imports PvpReplay
begin

text \<open>
  The names of armies carry no meaning: the client draws them from the clock and \<open>Math.random\<close>, the replay counts
  them, and every operation of the core gives the same result whatever they are. Nor does any operation read how
  many units the player has sent, which the client adds up order by order and the replay army by army.
  \<open>anonymous\<close> forgets both.
\<close>

named_theorems anon_simps

section \<open>Results up to a function\<close>

definition rmap :: "('a \<Rightarrow> 'b) \<Rightarrow> 'e + 'a \<Rightarrow> 'e + 'b" where "rmap f m = rbind m (\<lambda>x. Inr (f x))"

lemma rmap_simps [simp]: "rmap f (Inl e) = Inl e" "rmap f (Inr v) = Inr (f v)"
  by (simp_all add: rmap_def)

lemma rmap_rbind: "rmap f (rbind m g) = rbind m (\<lambda>x. rmap f (g x))"
  by (cases m) simp_all

lemma rbind_rmap: "rbind (rmap f m) g = rbind m (\<lambda>x. g (f x))"
  by (cases m) simp_all

lemma rmap_rmap: "rmap f (rmap g m) = rmap (\<lambda>x. f (g x)) m"
  by (cases m) simp_all

lemma rmap_if: "rmap f (if b then x else y) = (if b then rmap f x else rmap f y)"
  by simp

lemma rmap_eq_Inr: "rmap f m = Inr y \<longleftrightarrow> (\<exists>x. m = Inr x \<and> f x = y)"
  by (cases m) simp_all

lemma map_res_map: "map_res f (map g xs) = map_res (\<lambda>x. f (g x)) xs"
  by (induction xs) simp_all

lemma map_res_rmap: "map_res (\<lambda>x. rmap f (g x)) xs = rmap (map f) (map_res g xs)"
  by (induction xs) (simp_all add: rmap_rbind rbind_rmap)

lemma fold_res_rmap:
  assumes "\<And>x s. x \<in> set xs \<Longrightarrow> f (h x) (g s) = rmap g (f' x s)"
  shows "fold_res f (map h xs) (g s) = rmap g (fold_res f' xs s)"
  using assms by (induction xs arbitrary: s) (simp_all add: rmap_rbind rbind_rmap)

lemma sort_insert_map: "(\<And>x y. cmp (f x) (f y) = cmp' x y) \<Longrightarrow> sort_insert cmp (f x) (map f xs) = map f (sort_insert cmp' x xs)"
  by (induction xs) simp_all

lemma js_sort_map:
  assumes "\<And>x y. cmp (f x) (f y) = cmp' x y" shows "js_sort cmp (map f xs) = map f (js_sort cmp' xs)"
proof -
  have "fold (sort_insert cmp) (map f xs) (map f ys) = map f (fold (sort_insert cmp') xs ys)" for ys
    by (induction xs arbitrary: ys) (simp_all add: sort_insert_map [of cmp f cmp', OF assms])
  from this [of "[]"] show ?thesis by (simp add: js_sort_def)
qed

section \<open>Forgetting the names\<close>

definition anon :: "army \<Rightarrow> army" where "anon m = m\<lparr>a_id := []\<rparr>"

definition unsent_stats :: "match_stats \<Rightarrow> match_stats" where
  "unsent_stats st = st\<lparr>ms_playerUnitsDispatched := 0\<rparr>"

definition anonymous :: "game_state \<Rightarrow> game_state" where
  "anonymous s = s\<lparr>g_armies := map anon (g_armies s), g_stats := unsent_stats (g_stats s)\<rparr>"

text \<open>The same match, whatever its armies are called and however the player's units are counted.\<close>

definition same_match :: "game_state \<Rightarrow> game_state \<Rightarrow> bool" where
  "same_match s s' \<longleftrightarrow> anonymous s = anonymous s'"

lemma anon_sel [simp]:
  "a_routeIds (anon m) = a_routeIds m" "a_routeLeg (anon m) = a_routeLeg m" "a_routeSpeed (anon m) = a_routeSpeed m"
  "a_sourceId (anon m) = a_sourceId m" "a_targetId (anon m) = a_targetId m" "a_owner (anon m) = a_owner m"
  "a_units (anon m) = a_units m" "a_progress (anon m) = a_progress m" "a_speed (anon m) = a_speed m"
  "a_distance (anon m) = a_distance m" "a_startX (anon m) = a_startX m" "a_startY (anon m) = a_startY m"
  "a_targetX (anon m) = a_targetX m" "a_targetY (anon m) = a_targetY m" "a_id (anon m) = []" "anon (anon m) = anon m"
  by (simp_all add: anon_def)

lemma anon_upd:
  "(anon m)\<lparr>a_progress := p\<rparr> = anon (m\<lparr>a_progress := p\<rparr>)" "(anon m)\<lparr>a_units := u\<rparr> = anon (m\<lparr>a_units := u\<rparr>)"
  "anon (m\<lparr>a_id := i\<rparr>) = anon m"
  by (simp_all add: anon_def)

lemma anonymous_sel [simp]:
  "g_rules (anonymous s) = g_rules s" "g_readyAtMs (anonymous s) = g_readyAtMs s"
  "g_shieldedUntilMs (anonymous s) = g_shieldedUntilMs s" "g_playerAbilityUsed (anonymous s) = g_playerAbilityUsed s"
  "g_enemyAbilityUsed (anonymous s) = g_enemyAbilityUsed s" "g_battlefieldId (anonymous s) = g_battlefieldId s"
  "g_territories (anonymous s) = g_territories s" "g_status (anonymous s) = g_status s"
  "g_elapsed (anonymous s) = g_elapsed s" "g_timeLimit (anonymous s) = g_timeLimit s"
  "g_stats (anonymous s) = unsent_stats (g_stats s)"
  "g_armies (anonymous s) = map anon (g_armies s)" "anonymous (anonymous s) = anonymous s"
  by (simp_all add: anonymous_def comp_def unsent_stats_def)

lemma unsent_simps:
  "(unsent_stats st)\<lparr>ms_duration := e\<rparr> = unsent_stats (st\<lparr>ms_duration := e\<rparr>)"
  "unsent_stats (unsent_stats st) = unsent_stats st" "unsent_stats (st\<lparr>ms_playerUnitsDispatched := u\<rparr>) = unsent_stats st"
  "unsent_stats (st\<lparr>ms_playerUnitsDispatched := u, ms_enemyUnitsDispatched := v\<rparr>)
    = unsent_stats (st\<lparr>ms_enemyUnitsDispatched := v\<rparr>)"
  "st\<lparr>ms_enemyUnitsDispatched := ms_enemyUnitsDispatched st\<rparr> = st"
  "count_capture w (unsent_stats st) = unsent_stats (count_capture w st)"
  by (simp_all add: unsent_stats_def count_capture_def split: team.split)

lemma unsent_enemy:
  assumes "unsent_stats st = unsent_stats st'"
  shows "ms_enemyUnitsDispatched st = ms_enemyUnitsDispatched st'"
    "unsent_stats (st\<lparr>ms_enemyUnitsDispatched := u\<rparr>) = unsent_stats (st'\<lparr>ms_enemyUnitsDispatched := u\<rparr>)"
proof -
  have "unsent_stats (x\<lparr>ms_enemyUnitsDispatched := u\<rparr>) = (unsent_stats x)\<lparr>ms_enemyUnitsDispatched := u\<rparr>" for x
    by (simp add: unsent_stats_def)
  then show "unsent_stats (st\<lparr>ms_enemyUnitsDispatched := u\<rparr>) = unsent_stats (st'\<lparr>ms_enemyUnitsDispatched := u\<rparr>)"
    using assms by simp
  show "ms_enemyUnitsDispatched st = ms_enemyUnitsDispatched st'"
    using arg_cong [OF assms, of ms_enemyUnitsDispatched] by (simp add: unsent_stats_def)
qed

lemma unsent_count_dispatch:
  "unsent_stats st = unsent_stats st' \<Longrightarrow> unsent_stats (count_dispatch w u st) = unsent_stats (count_dispatch w u st')"
  using unsent_enemy [of st st'] by (simp add: count_dispatch_def unsent_simps)

lemma same_match_refl [simp]: "same_match s s"
  by (simp add: same_match_def)

lemma same_match_sym: "same_match s s' \<Longrightarrow> same_match s' s"
  by (simp add: same_match_def)

lemma same_match_trans: "same_match s s' \<Longrightarrow> same_match s' s'' \<Longrightarrow> same_match s s''"
  by (simp add: same_match_def)

lemma same_matchD:
  assumes "same_match s s'"
  shows "g_rules s = g_rules s'" "g_readyAtMs s = g_readyAtMs s'" "g_shieldedUntilMs s = g_shieldedUntilMs s'"
    "g_playerAbilityUsed s = g_playerAbilityUsed s'" "g_enemyAbilityUsed s = g_enemyAbilityUsed s'"
    "g_battlefieldId s = g_battlefieldId s'" "g_territories s = g_territories s'" "g_status s = g_status s'"
    "g_elapsed s = g_elapsed s'" "g_timeLimit s = g_timeLimit s'" "unsent_stats (g_stats s) = unsent_stats (g_stats s')"
    "map anon (g_armies s) = map anon (g_armies s')"
  using assms anonymous_sel unfolding same_match_def by metis+

lemma same_matchI:
  assumes "g_rules s = g_rules s'" "g_readyAtMs s = g_readyAtMs s'" "g_shieldedUntilMs s = g_shieldedUntilMs s'"
    "g_playerAbilityUsed s = g_playerAbilityUsed s'" "g_enemyAbilityUsed s = g_enemyAbilityUsed s'"
    "g_battlefieldId s = g_battlefieldId s'" "g_territories s = g_territories s'" "g_status s = g_status s'"
    "g_elapsed s = g_elapsed s'" "g_timeLimit s = g_timeLimit s'" "unsent_stats (g_stats s) = unsent_stats (g_stats s')"
    "map anon (g_armies s) = map anon (g_armies s')"
  shows "same_match s s'"
  unfolding same_match_def by (rule game_state.equality) (simp_all add: assms)

section \<open>Routes and marching\<close>

lemma setArmyLeg_anon: "setArmyLeg hyp (anon m) a b leg = anon (setArmyLeg hyp m a b leg)"
  by (simp add: setArmyLeg_def anon_def Let_def)

lemma tacticalNeighbors_anon [anon_simps]: "tacticalNeighbors (anonymous s) i = tacticalNeighbors s i"
  by (simp add: tacticalNeighbors_def)

lemma friendly_pushes_anon: "friendly_pushes hyp (anonymous s) owner best entry = friendly_pushes hyp s owner best entry"
  by (simp add: friendly_pushes_def friendly_targets_def anon_simps)

lemma friendly_loop_anon: "friendly_loop hyp (anonymous s) owner best queue = friendly_loop hyp s owner best queue"
proof (induction hyp s owner best queue rule: friendly_loop.induct)
  case (1 hyp s owner best queue)
  show ?case
  proof (cases "js_sort cmp_path_entry queue")
    case Nil
    then show ?thesis by (simp add: friendly_loop.simps)
  next
    case (Cons entry rest)
    then show ?thesis using 1(1) [OF Cons] 1(2) [OF Cons] friendly_loop.simps [of hyp "anonymous s" owner best queue]
        friendly_loop.simps [of hyp s owner best queue]
      by (cases "friendly_pushes hyp s owner best entry") (auto simp: friendly_pushes_anon)
  qed
qed

lemma friendlyPaths_anon [anon_simps]: "friendlyPaths hyp (anonymous s) a w = friendlyPaths hyp s a w"
  by (simp add: friendlyPaths_def friendly_loop_anon)

lemma choose_entry_anon [anon_simps]: "choose_entry hyp (anonymous s) = choose_entry hyp s"
  by (intro ext) (simp add: choose_entry_def split: option.split)

lemma findDispatchRoute_anon [anon_simps]:
  "findDispatchRoute hyp (anonymous s) a b w = findDispatchRoute hyp s a b w"
  by (simp add: findDispatchRoute_def anon_simps split: option.split)

lemma advance_loop_anon:
  "advance_loop hyp ts (anon m) r = rmap (\<lambda>(x, b). (anon x, b)) (advance_loop hyp ts m r)"
proof (induction hyp ts m r rule: advance_loop.induct)
  case (1 hyp ts m r)
  show ?case
    by (subst advance_loop.simps, subst (2) advance_loop.simps)
      (auto simp: Let_def anon_upd setArmyLeg_anon rmap_rbind 1 intro!: rbind_cong split: option.splits)
qed

lemma armyDestination_anon [anon_simps]:
  "armyDestination (anon m) x = armyDestination m x"
  "armyDestination m (Some (anonymous s)) = armyDestination m (Some s)"
proof -
  show "armyDestination (anon m) x = armyDestination m x"
    unfolding armyDestination_def anon_sel by (rule refl)
  show "armyDestination m (Some (anonymous s)) = armyDestination m (Some s)"
    unfolding armyDestination_def prod.case option.case anonymous_sel by (rule refl)
qed

lemma remaining_legs_anon [anon_simps]:
  "remaining_legs hyp (anon m) s d i ids x = remaining_legs hyp m s d i ids x"
  "remaining_legs hyp m (anonymous s) d i ids x = remaining_legs hyp m s d i ids x"
  by (induction hyp m s d i ids x rule: remaining_legs.induct) (auto simp: setArmyLeg_anon intro!: rbind_cong)

lemma armyArrivalSeconds_anon [anon_simps]:
  "armyArrivalSeconds hyp (anon m) s = armyArrivalSeconds hyp m s"
  "armyArrivalSeconds hyp m (anonymous s) = armyArrivalSeconds hyp m s"
  unfolding armyArrivalSeconds_def anon_sel anon_simps by (rule refl)+

section \<open>One step\<close>

definition anon_work :: "step_work \<Rightarrow> step_work" where
  "anon_work w = w\<lparr>sw_remaining := map anon (sw_remaining w), sw_stats := unsent_stats (sw_stats w)\<rparr>"

lemma march_anon: "march hyp (anonymous s) ts d (anon m) = rmap (\<lambda>(x, p). (anon x, p)) (march hyp s ts d m)"
  by (auto simp: march_def advanceRoutedArmy_def advance_loop_anon rbind_rmap rmap_rbind intro!: rbind_cong)

lemma route_interrupted_anon: "route_interrupted (anon m) = route_interrupted m"
  by (simp add: route_interrupted_def cong: option.case_cong)

lemma arrive_anon: "arrive (anonymous s) n (anon m) t (anon_work w) = anon_work (arrive s n m t w)"
  by (simp add: arrive_def route_interrupted_anon anon_work_def unsent_simps Let_def)

lemma move_army_anon:
  "move_army hyp (anonymous s) n d (anon m) (anon_work w) = rmap anon_work (move_army hyp s n d m w)"
proof -
  have "sw_territories (anon_work w) = sw_territories w" by (simp add: anon_work_def)
  then show ?thesis
    by (auto simp: move_army_def march_anon rbind_rmap rmap_rbind arrive_anon anon_upd anon_work_def [of "w\<lparr>sw_remaining := _\<rparr>"]
        intro!: rbind_cong split: option.splits) (simp add: anon_work_def)
qed

lemma move_armies_anon:
  "fold_res (move_army hyp (anonymous s) n d) (map anon ms) (anon_work w)
     = rmap anon_work (fold_res (move_army hyp s n d) ms w)"
  by (rule fold_res_rmap) (rule move_army_anon)

lemma owned_armies_anon: "owned_armies w (map anon ms) = map anon (owned_armies w ms)"
  by (simp add: owned_armies_def filter_map comp_def)

lemma match_verdict_anon: "match_verdict ts (map anon ms) e l = match_verdict ts ms e l"
  unfolding match_verdict_def owned_armies_anon by (simp add: Let_def)

definition anon_step :: "step_result \<Rightarrow> step_result" where
  "anon_step r = r\<lparr>sr_state := anonymous (sr_state r)\<rparr>"

lemma step_finish_anon: "step_finish (anonymous s) e d (anon_work w) = anon_step (step_finish s e d w)"
proof -
  have "sr_state (step_finish (anonymous s) e d (anon_work w)) = anonymous (sr_state (step_finish s e d w))"
    by (rule game_state.equality)
      (simp_all add: step_finish_def step_production_def anon_work_def match_verdict_anon Let_def)
  then show ?thesis
    by (simp add: step_finish_def step_production_def anon_work_def anon_step_def Let_def)
qed

lemma stepSimulation_anon: "stepSimulation hyp (anonymous s) accs d = rmap anon_step (stepSimulation hyp s accs d)"
proof -
  have start: "step_start (anonymous s) accs e = anon_work (step_start s accs e)" for e
    by (simp add: step_start_def anon_work_def unsent_simps)
  have clock: "step_elapsed (anonymous s) d = step_elapsed s d" "step_now (anonymous s) d = step_now s d"
    by (simp_all add: step_elapsed_def step_now_def)
  show ?thesis
    by (auto simp: stepSimulation_def start clock move_armies_anon rbind_rmap rmap_rbind step_finish_anon
        anon_step_def Let_def intro!: rbind_cong)
qed

lemma stepSimulation_same:
  assumes "same_match s s'" "stepSimulation hyp s accs d = Inr r"
  shows "\<exists>r'. stepSimulation hyp s' accs d = Inr r' \<and> same_match (sr_state r) (sr_state r')
    \<and> sr_accumulators r = sr_accumulators r' \<and> sr_arrivals r = sr_arrivals r'"
proof -
  have "rmap anon_step (stepSimulation hyp s' accs d) = Inr (anon_step r)"
    using stepSimulation_anon [of hyp s accs d] stepSimulation_anon [of hyp s' accs d] assms by (simp add: same_match_def)
  then obtain r' where r': "stepSimulation hyp s' accs d = Inr r'" "anon_step r' = anon_step r" by (auto simp: rmap_eq_Inr)
  then have "sr_state (anon_step r') = sr_state (anon_step r)" "sr_accumulators (anon_step r') = sr_accumulators (anon_step r)"
    "sr_arrivals (anon_step r') = sr_arrivals (anon_step r)" by simp_all
  then show ?thesis using r'(1) by (simp add: anon_step_def same_match_def)
qed

section \<open>Orders\<close>

text \<open>An order depends on the match alone; its army carries the name it is given.\<close>

definition anon_dispatch :: "dispatch_result \<Rightarrow> dispatch_result" where
  "anon_dispatch d = (case d of DispatchFailed e \<Rightarrow> DispatchFailed e | Dispatched left m \<Rightarrow> Dispatched left (anon m))"

lemma anon_dispatch_simps [simp]:
  "anon_dispatch (DispatchFailed e) = DispatchFailed e" "anon_dispatch (Dispatched left m) = Dispatched left (anon m)"
  by (simp_all add: anon_dispatch_def)

lemma dispatchArmy_state_anon [anon_simps]:
  "dispatchArmy hyp src tgt w r n sp (Some (anonymous s)) = dispatchArmy hyp src tgt w r n sp (Some s)"
  unfolding dispatchArmy_def dispatch_route_def routed_army_def option.case anon_simps anonymous_sel by (rule refl)

lemma new_army_anon: "anon (new_army hyp src tgt w u sp n) = new_army hyp src tgt w u sp []"
  by (simp add: new_army_def anon_def Let_def)

lemma routed_army_anon: "rmap anon (routed_army hyp s src route sp m) = routed_army hyp s src route sp (anon m)"
proof -
  have "anon (setArmyLeg hyp (m\<lparr>a_routeIds := r, a_routeSpeed := q\<rparr>) a b 0)
      = setArmyLeg hyp ((anon m)\<lparr>a_routeIds := r, a_routeSpeed := q\<rparr>) a b 0" for r q a b
    by (simp add: setArmyLeg_def anon_def Let_def)
  then show ?thesis by (simp add: routed_army_def rmap_rbind split: option.split)
qed

lemma dispatchArmy_anon:
  "rmap anon_dispatch (dispatchArmy hyp src tgt w r n sp s) = dispatchArmy hyp src tgt w r [] sp s"
proof -
  have "rmap anon_dispatch (rbind (routed_army hyp s src route q m) (\<lambda>x. Inr (Dispatched t x)))
      = rbind (routed_army hyp s src route q (anon m)) (\<lambda>x. Inr (Dispatched t x))" for route q m t
    unfolding routed_army_anon [symmetric] by (simp add: rmap_rbind rbind_rmap)
  then show ?thesis
    by (auto simp: dispatchArmy_def rmap_rbind Let_def new_army_anon intro!: rbind_cong split: option.split)
qed

lemma dispatchArmy_same:
  assumes "same_match s s'"
  shows "rmap anon_dispatch (dispatchArmy hyp src tgt w r n sp (Some s))
       = rmap anon_dispatch (dispatchArmy hyp src tgt w r n' sp (Some s'))"
  unfolding dispatchArmy_anon
  using dispatchArmy_state_anon [of hyp src tgt w r "[]" sp s] dispatchArmy_state_anon [of hyp src tgt w r "[]" sp s'] assms
  by (simp add: same_match_def)

lemma dispatchArmy_Dispatched_same:
  assumes "same_match s s'" "dispatchArmy hyp src tgt w r n sp (Some s) = Inr (Dispatched left m)"
  shows "\<exists>m'. dispatchArmy hyp src tgt w r n' sp (Some s') = Inr (Dispatched left m') \<and> anon m' = anon m"
proof -
  have "rmap anon_dispatch (dispatchArmy hyp src tgt w r n' sp (Some s')) = Inr (Dispatched left (anon m))"
    using dispatchArmy_same [OF assms(1), of hyp src tgt w r n sp n'] assms(2) by simp
  then obtain d where "dispatchArmy hyp src tgt w r n' sp (Some s') = Inr d" "anon_dispatch d = Dispatched left (anon m)"
    by (auto simp: rmap_eq_Inr)
  then show ?thesis by (cases d) simp_all
qed

text \<open>Writing back what an order leaves.\<close>

lemma same_match_write:
  assumes "same_match s s'" "map anon ms = map anon ms'" "unsent_stats st = unsent_stats st'"
  shows "same_match (s\<lparr>g_territories := ts, g_armies := g_armies s @ ms, g_stats := st\<rparr>)
    (s'\<lparr>g_territories := ts, g_armies := g_armies s' @ ms', g_stats := st'\<rparr>)"
  using same_matchD [OF assms(1)] assms(2,3) by (intro same_matchI) simp_all

lemma dispatchFromState_same:
  assumes "same_match s s'" "dispatchFromState hyp s i j w sp n = Inr t"
  shows "\<exists>t'. dispatchFromState hyp s' i j w sp n' = Inr t' \<and> same_match t t'"
proof -
  note same = same_matchD [OF assms(1)]
  obtain src tgt left m where st: "obj_get (g_territories s) i = Some src" "obj_get (g_territories s) j = Some tgt"
    "dispatchArmy hyp src tgt w (1 / 2) n (Finite sp) (Some s) = Inr (Dispatched left m)"
  proof -
    obtain src tgt r where 1: "obj_get (g_territories s) i = Some src" "obj_get (g_territories s) j = Some tgt"
      "dispatchArmy hyp src tgt w (1 / 2) n (Finite sp) (Some s) = Inr r"
      using assms(2) by (auto simp: dispatchFromState_def rbind_eq_Inr split: option.splits)
    show ?thesis by (cases r) (use that 1 assms(2) in \<open>auto simp: dispatchFromState_def\<close>)
  qed
  obtain m' where m': "dispatchArmy hyp src tgt w (1 / 2) n' (Finite sp) (Some s') = Inr (Dispatched left m')" "anon m' = anon m"
    using dispatchArmy_Dispatched_same [OF assms(1) st(3)] by blast
  have "a_units m' = a_units m" using m'(2) by (metis anon_sel(7))
  then show ?thesis using assms(2) st m' same unsent_enemy [OF same(11)]
    by (auto simp: dispatchFromState_def unsent_simps intro!: same_matchI)
qed

lemma dispatchFromState_error_same:
  assumes "same_match s s'" "dispatchFromState hyp s i j w sp n = Inl e" "hypot_ok hyp"
  shows "\<exists>c. dispatchFromState hyp s' i j w sp n' = Inl (PvpSimulationError c)"
  using dispatchFromState_total [OF assms(3), of s' i j w sp n']
    dispatchFromState_same [OF same_match_sym [OF assms(1)], of hyp i j w sp n' _ n] assms(2) by fastforce

section \<open>The bot's policies\<close>

definition anon_incoming :: "incoming \<Rightarrow> incoming" where "anon_incoming x = x\<lparr>in_army := anon (in_army x)\<rparr>"

lemma anon_incoming_sel [simp]:
  "in_army (anon_incoming x) = anon (in_army x)" "in_index (anon_incoming x) = in_index x" "in_eta (anon_incoming x) = in_eta x"
  by (simp_all add: anon_incoming_def)

lemma tacticalIncoming_anon:
  "tacticalIncoming hyp (anonymous s) i = rmap (map anon_incoming) (tacticalIncoming hyp s i)"
proof -
  let ?ms = "filter (\<lambda>a. armyDestination a (Some s) = i) (g_armies s)"
  let ?f = "\<lambda>(m, index). rbind (armyArrivalSeconds hyp m s) (\<lambda>eta. Inr \<lparr>in_army = m, in_index = index, in_eta = eta\<rparr>)"
  have ms: "filter (\<lambda>a. armyDestination a (Some (anonymous s)) = i) (g_armies (anonymous s)) = map anon ?ms"
    by (simp add: filter_map comp_def anon_simps)
  have zip: "zip (map anon ?ms) [0..<length (map anon ?ms)] = map (\<lambda>(m, k). (anon m, k)) (zip ?ms [0..<length ?ms])"
    by (simp add: zip_map1)
  have f: "(\<lambda>(m, index). rbind (armyArrivalSeconds hyp m (anonymous s)) (\<lambda>eta. Inr \<lparr>in_army = m, in_index = index, in_eta = eta\<rparr>))
      = (\<lambda>(m, index). rbind (armyArrivalSeconds hyp m s) (\<lambda>eta. Inr \<lparr>in_army = m, in_index = index, in_eta = eta\<rparr>))"
    by (simp add: anon_simps)
  have g: "(\<lambda>x. ?f (case x of (m, k) \<Rightarrow> (anon m, k))) = (\<lambda>x. rmap anon_incoming (?f x))"
    by (auto simp: anon_simps rmap_rbind anon_incoming_def fun_eq_iff)
  have sort: "js_sort cmp_incoming (map anon_incoming xs) = map anon_incoming (js_sort cmp_incoming xs)" for xs
    by (rule js_sort_map) (simp add: cmp_incoming_def)
  show ?thesis
    unfolding tacticalIncoming_def Let_def ms zip f map_res_map g map_res_rmap rbind_rmap rmap_rbind rmap_simps sort
    by (rule refl)
qed

lemma forecast_arrival_anon: "forecast_arrival secs d (anon_incoming x) = forecast_arrival secs d x"
  by (intro ext) (simp add: forecast_arrival_def)

lemma tacticalForecast_anon [anon_simps]:
  "tacticalForecast hyp (anonymous s) t secs u d = tacticalForecast hyp s t secs u d"
  by (simp add: tacticalForecast_def tacticalIncoming_anon rbind_rmap fold_map comp_def forecast_arrival_anon)

lemma hostile_incoming_anon: "hostile_incoming hyp (anonymous s) w i = rmap (map anon_incoming) (hostile_incoming hyp s w i)"
  by (simp add: hostile_incoming_def tacticalIncoming_anon rbind_rmap rmap_rbind filter_map comp_def)

lemma sorted_towers_anon [anon_simps]: "sorted_towers (anonymous s) = sorted_towers s"
  by (simp add: sorted_towers_def)

lemma source_candidate_anon [anon_simps]: "source_candidate hyp (anonymous s) = source_candidate hyp s"
  by (intro ext) (auto simp: source_candidate_def anon_simps hostile_incoming_anon rbind_rmap last_map intro!: rbind_cong
      split: dispatch_result.split)

lemma move_candidates_anon [anon_simps]: "move_candidates hyp (anonymous s) w sp t = move_candidates hyp s w sp t"
  by (simp add: move_candidates_def anon_simps)

lemma rescue_loop_anon [anon_simps]:
  "rescue_loop hyp (anonymous s) w t h cs u ms = rescue_loop hyp s w t h cs u ms"
  by (induction cs arbitrary: u ms) (simp_all only: rescue_loop.simps anon_simps Let_def)

lemma rescue_tower_anon [anon_simps]: "rescue_tower hyp (anonymous s) = rescue_tower hyp s"
  by (intro ext) (auto simp: rescue_tower_def anon_simps hostile_incoming_anon rbind_rmap last_map hd_map Let_def intro!: rbind_cong)

lemma attack_target_anon [anon_simps]: "attack_target hyp (anonymous s) = attack_target hyp s"
  by (intro ext) (simp only: attack_target_def anon_simps)

lemma best_attack_anon [anon_simps]: "best_attack hyp (anonymous s) = best_attack hyp s"
  by (intro ext) (simp only: best_attack_def anon_simps)

lemma hostile_neighbors_anon [anon_simps]: "hostile_neighbors (anonymous s) w i = hostile_neighbors s w i"
  by (simp add: hostile_neighbors_def anon_simps)

lemma frontier_anon [anon_simps]: "frontier (anonymous s) = frontier s"
  by (intro ext) (simp only: frontier_def anon_simps anonymous_sel)

lemma supply_tower_anon [anon_simps]: "supply_tower hyp (anonymous s) = supply_tower hyp s"
proof (intro ext)
  fix w sp t
  have "fold (\<lambda>x n. jadd n (a_units (in_army x))) (filter (\<lambda>x. a_owner (in_army x) = w) (map anon_incoming xs)) a
      = fold (\<lambda>x n. jadd n (a_units (in_army x))) (filter (\<lambda>x. a_owner (in_army x) = w) xs) a" for xs a
    by (simp add: filter_map fold_map comp_def)
  then show "supply_tower hyp (anonymous s) w sp t = supply_tower hyp s w sp t"
    by (simp only: supply_tower_def anon_simps tacticalIncoming_anon rbind_rmap Let_def)
qed

lemma evaluateTacticalMoves_anon [anon_simps]: "evaluateTacticalMoves hyp (anonymous s) w sp = evaluateTacticalMoves hyp s w sp"
  by (simp only: evaluateTacticalMoves_def anon_simps anonymous_sel)

lemma evaluateTacticalMoves_same:
  "same_match s s' \<Longrightarrow> evaluateTacticalMoves hyp s w sp = evaluateTacticalMoves hyp s' w sp"
  using evaluateTacticalMoves_anon unfolding same_match_def by metis

section \<open>Abilities\<close>

lemma threatenedTowers_anon [anon_simps]: "threatenedTowers hyp (anonymous s) w = threatenedTowers hyp s w"
proof -
  have "tower_threat hyp (anonymous s) w = tower_threat hyp s w"
    by (intro ext) (auto simp: tower_threat_def anon_simps hostile_incoming_anon rbind_rmap last_map hd_map intro!: rbind_cong)
  then show ?thesis by (simp add: threatenedTowers_def)
qed

lemma ability_guards_anon [anon_simps]:
  "ability_used (anonymous s) w = ability_used s w" "ability_locked (anonymous s) = ability_locked s"
  by (simp_all add: ability_used_def ability_locked_def)

lemma saves_anon [anon_simps]:
  "shield_saves hyp (anonymous s) = shield_saves hyp s" "supply_saves hyp (anonymous s) = supply_saves hyp s"
  by (intro ext, simp only: shield_saves_def supply_saves_def anon_simps)+

lemma chooseBotAbility_anon [anon_simps]: "chooseBotAbility hyp (anonymous s) w c ms = chooseBotAbility hyp s w c ms"
  unfolding chooseBotAbility_def anon_simps anonymous_sel by (rule refl)

lemma chooseBotAbility_same:
  "same_match s s' \<Longrightarrow> chooseBotAbility hyp s w c ms = chooseBotAbility hyp s' w c ms"
  using chooseBotAbility_anon unfolding same_match_def by metis

lemma mark_used_fields [simp]:
  "g_playerAbilityUsed (mark_used w s) = (w = Player \<or> g_playerAbilityUsed s)"
  "g_enemyAbilityUsed (mark_used w s) = (w \<noteq> Player \<or> g_enemyAbilityUsed s)"
  by (auto simp: mark_used_def)

lemma applyTeamAbility_same:
  assumes "same_match s s'" "applyTeamAbility hyp s w c i j sp n = Inr x"
  shows "\<exists>x'. applyTeamAbility hyp s' w c i j sp n' = Inr x'
    \<and> rel_option (\<lambda>a a'. same_match (ar_state a) (ar_state a')) x x'"
proof -
  note same = same_matchD [OF assms(1)]
  have guards: "ability_used s w = ability_used s' w" "ability_locked s = ability_locked s'"
    using ability_guards_anon assms(1) unfolding same_match_def by metis+
  have shield: "same_match (ar_state (apply_shield s w i)) (ar_state (apply_shield s' w i))"
    and supplied: "same_match (ar_state (apply_supply s w i src)) (ar_state (apply_supply s' w i src))" for src
    using same by (auto simp: apply_shield_def apply_supply_def intro!: same_matchI)
  have charge: "same_match (ar_state (apply_charge s w i left m)) (ar_state (apply_charge s' w i left m'))"
    if "anon m' = anon m" for left m m'
  proof -
    have "a_units m' = a_units m" using that by (metis anon_sel(7))
    moreover have "anon (m'\<lparr>a_units := u\<rparr>) = anon (m\<lparr>a_units := u\<rparr>)" for u
      using that anon_upd(2) by metis
    ultimately show ?thesis using same by (auto simp: apply_charge_def Let_def intro!: same_matchI unsent_count_dispatch)
  qed
  have order: "rmap anon_dispatch (dispatchArmy hyp src tgt w (1 / 2) n q (Some s))
      = rmap anon_dispatch (dispatchArmy hyp src tgt w (1 / 2) n' q (Some s'))" for src tgt q
    by (rule dispatchArmy_same [OF assms(1)])
  have vanguard: "\<exists>x'. rbind (dispatchArmy hyp src tgt w (1 / 2) n' q (Some s')) (\<lambda>r. Inr (case r of
        DispatchFailed _ \<Rightarrow> None | Dispatched left m \<Rightarrow> Some (apply_charge s' w i left m))) = Inr x'
      \<and> rel_option (\<lambda>a a'. same_match (ar_state a) (ar_state a')) x x'"
    if c: "rbind (dispatchArmy hyp src tgt w (1 / 2) n q (Some s)) (\<lambda>r. Inr (case r of
        DispatchFailed _ \<Rightarrow> None | Dispatched left m \<Rightarrow> Some (apply_charge s w i left m))) = Inr x" for src tgt q
  proof -
    obtain r where r: "dispatchArmy hyp src tgt w (1 / 2) n q (Some s) = Inr r"
      "x = (case r of DispatchFailed _ \<Rightarrow> None | Dispatched left m \<Rightarrow> Some (apply_charge s w i left m))"
      using c by (auto simp: rbind_eq_Inr)
    have "rmap anon_dispatch (dispatchArmy hyp src tgt w (1 / 2) n' q (Some s')) = Inr (anon_dispatch r)"
      using order [of src tgt q] r(1) by simp
    then obtain r' where r': "dispatchArmy hyp src tgt w (1 / 2) n' q (Some s') = Inr r'" "anon_dispatch r' = anon_dispatch r"
      by (auto simp: rmap_eq_Inr)
    show ?thesis using r r' charge by (cases r; cases r') auto
  qed
  show ?thesis
    using assms(2) same(1,7,8) guards shield supplied vanguard
    by (auto simp: applyTeamAbility_def split: option.splits ability.splits if_splits)
qed

end
