(* ===== verification/ReplayClock.thy ===== *)
theory ReplayClock
  imports ArmyNames
begin

text \<open>
  The replay under the current rules as a machine of ticks. The server jumps from order to order and from turn to
  turn of the bot; between two orders that is the same as doing, tick by tick, what the client does: one step, and
  the bot when its turn is due. The bot's clock is a sum of rounded periods, but never far from the tick it stands for.
\<close>

section \<open>Clocks and ticks\<close>

definition clock :: "nat \<Rightarrow> num" where "clock k = fl (of_nat k / 50)"

definition near_tick :: "num \<Rightarrow> nat \<Rightarrow> bool" where
  "near_tick a n \<longleftrightarrow> \<bar>a - of_nat n / 50\<bar> \<le> of_nat n / 1000000000000000"

definition ai_ticks :: "bot_difficulty \<Rightarrow> nat" where
  "ai_ticks d = (case d of Easy \<Rightarrow> 180 | Normal \<Rightarrow> 90 | Hard \<Rightarrow> 45)"

lemma ai_ticks_bounds: "45 \<le> ai_ticks d" "ai_ticks d \<le> 180"
  by (cases d; simp add: ai_ticks_def)+

lemma clock_near: "near_tick (clock k) k" "0 \<le> clock k"
  using fl_near [of "of_nat k / 50"] by (simp_all add: clock_def near_tick_def)

lemma period_near: "\<bar>getBotAiTickSeconds d - of_nat (ai_ticks d) / 50\<bar> \<le> 1 / 1000000000000000"
  using fl_near [of "36 / 10"] fl_near [of "18 / 10"] fl_near [of "9 / 10"]
  by (cases d) (simp_all add: getBotAiTickSeconds_def ai_ticks_def)

lemma near_tick_first: "near_tick (getBotAiTickSeconds d) (ai_ticks d)"
  using period_near [of d] ai_ticks_bounds [of d] unfolding near_tick_def by (simp add: field_simps)

lemma near_tick_next:
  assumes "near_tick a n" "n \<le> 5000"
  shows "near_tick (jadd a (getBotAiTickSeconds d)) (n + ai_ticks d)"
proof -
  let ?p = "getBotAiTickSeconds d" and ?q = "ai_ticks d"
  have n: "(of_nat n :: num) \<le> 5000" using assms(2) by (metis of_nat_le_iff of_nat_numeral)
  have q: "(45 :: num) \<le> of_nat ?q" "of_nat ?q \<le> (180 :: num)"
    using ai_ticks_bounds [of d] by (metis of_nat_le_iff of_nat_numeral)+
  have a: "\<bar>a - of_nat n / 50\<bar> \<le> of_nat n / 1000000000000000" using assms(1) by (simp add: near_tick_def)
  have p: "\<bar>?p - of_nat ?q / 50\<bar> \<le> 1 / 1000000000000000" by (rule period_near)
  have sum: "0 \<le> a + ?p" "a + ?p \<le> 104" using a p n q by linarith+
  have near: "\<bar>jadd a ?p - (a + ?p)\<bar> \<le> 12 / 1000000000000000"
    by (rule fl_near_within [OF sum]) simp
  have "\<bar>jadd a ?p - (of_nat n / 50 + of_nat ?q / 50)\<bar>
      \<le> of_nat n / 1000000000000000 + of_nat ?q / 1000000000000000"
    using near a p q by linarith
  then show ?thesis by (simp add: near_tick_def add_divide_distrib)
qed

lemma near_tick_bound:
  assumes "near_tick a n" "n \<le> 5000"
  shows "\<bar>a - of_nat n / 50\<bar> \<le> 1 / 100000000000" "(of_nat n :: num) \<le> 5000"
proof -
  show n: "(of_nat n :: num) \<le> 5000" using assms(2) by (metis of_nat_le_iff of_nat_numeral)
  show "\<bar>a - of_nat n / 50\<bar> \<le> 1 / 100000000000" using assms(1) n unfolding near_tick_def by linarith
qed

lemma epsilon_near: "\<bar>CLOCK_EPSILON - 1 / 1000000000\<bar> \<le> 1 / 1000000000000"
  using fl_near [of "1 / 1000000000"] by (simp add: CLOCK_EPSILON_def)

lemma target_tick_near:
  assumes "near_tick a n" "n \<le> 5000"
  shows "target_tick a = of_nat n"
proof -
  let ?T = PVP_SIMULATION_TICK_SECONDS
  define q where "q = a / ?T"
  define x where "x = fl (fl q + CLOCK_EPSILON)"
  note n = near_tick_bound(2) [OF assms]
  have a: "a \<le> of_nat n / 50 + 1 / 100000000000" "of_nat n / 50 - 1 / 100000000000 \<le> a"
    using near_tick_bound(1) [OF assms] by linarith+
  have qa: "q = a * (288230376151711744 / 5764607523034235)" by (simp add: q_def pvp_tick_value)
  have q: "\<bar>q - of_nat n\<bar> \<le> 6 / 10000000000"
  proof -
    have "q - of_nat n \<le> 6 / 10000000000" using a(1) n unfolding qa by linarith
    moreover have "of_nat n - q \<le> 6 / 10000000000" using a(2) n unfolding qa by linarith
    ultimately show ?thesis by linarith
  qed
  show ?thesis
  proof (cases "n = 0")
    case True
    then have "a = 0" using assms(1) by (simp add: near_tick_def)
    then have "x = CLOCK_EPSILON" by (simp add: x_def q_def CLOCK_EPSILON_def)
    then have "0 \<le> x" "x < 1" using epsilon_near by linarith+
    then have "math_floor x = 0" by (simp add: math_floor_def floor_eq_iff)
    then show ?thesis using True by (simp add: target_tick_def x_def q_def)
  next
    case False
    then have "(1::num) \<le> of_nat n" by (metis One_nat_def Suc_leI of_nat_1 of_nat_le_iff neq0_conv)
    then have q0: "0 \<le> q" "q \<le> 5001" using q n by linarith+
    have fq: "\<bar>fl q - q\<bar> \<le> 1 / 1000000000000" by (rule fl_near_within [OF q0]) simp
    have s0: "0 \<le> fl q + CLOCK_EPSILON" "fl q + CLOCK_EPSILON \<le> 5002" using fq q0 q \<open>1 \<le> of_nat n\<close> epsilon_near by linarith+
    have "\<bar>x - (fl q + CLOCK_EPSILON)\<bar> \<le> 1 / 1000000000000" unfolding x_def by (rule fl_near_within [OF s0]) simp
    then have "of_nat n \<le> x" "x < of_nat n + 1" using fq q epsilon_near by linarith+
    then have "\<lfloor>x\<rfloor> = int n" by (simp add: floor_eq_iff)
    then show ?thesis by (simp add: target_tick_def x_def q_def math_floor_def)
  qed
qed

text \<open>The comparisons by which the server and the client decide that the bot's turn is due.\<close>

lemma due_server:
  assumes "near_tick a n" "n \<le> 5000" "k \<le> 4500"
  shows "a \<le> jadd (clock k) CLOCK_EPSILON \<longleftrightarrow> n \<le> k"
proof -
  have k: "\<bar>clock k - of_nat k / 50\<bar> \<le> 1 / 100000000000" "(of_nat k :: num) \<le> 5000"
    using near_tick_bound [OF clock_near(1), of k] assms(3) by simp_all
  have a: "\<bar>a - of_nat n / 50\<bar> \<le> 1 / 100000000000" by (rule near_tick_bound [OF assms(1,2)])
  have s: "0 \<le> clock k + CLOCK_EPSILON" "clock k + CLOCK_EPSILON \<le> 101" using k epsilon_near clock_near(2) [of k] by linarith+
  have j: "\<bar>jadd (clock k) CLOCK_EPSILON - (clock k + CLOCK_EPSILON)\<bar> \<le> 1 / 1000000000000"
    by (rule fl_near_within [OF s]) simp
  show ?thesis
  proof (cases "n \<le> k")
    case True
    then have "(of_nat n :: num) \<le> of_nat k" by simp
    then have "a \<le> jadd (clock k) CLOCK_EPSILON" using a k j epsilon_near by linarith
    with True show ?thesis by simp
  next
    case False
    then have "(of_nat k + 1 :: num) \<le> of_nat n" by (metis not_less_eq_eq of_nat_Suc of_nat_le_iff add.commute)
    then have "jadd (clock k) CLOCK_EPSILON < a" using a k j epsilon_near by linarith
    with False show ?thesis by simp
  qed
qed

lemma due_client:
  assumes "near_tick a n" "n \<le> 5000" "k \<le> 4500" "1 \<le> n"
  shows "jsub a CLOCK_EPSILON \<le> clock k \<longleftrightarrow> n \<le> k"
proof -
  have k: "\<bar>clock k - of_nat k / 50\<bar> \<le> 1 / 100000000000" "(of_nat k :: num) \<le> 5000"
    using near_tick_bound [OF clock_near(1), of k] assms(3) by simp_all
  have a: "\<bar>a - of_nat n / 50\<bar> \<le> 1 / 100000000000" "(of_nat n :: num) \<le> 5000" by (rule near_tick_bound [OF assms(1,2)])+
  have n: "(1 :: num) \<le> of_nat n" using assms(4) by (metis of_nat_1 of_nat_le_iff)
  have s: "0 \<le> a - CLOCK_EPSILON" "a - CLOCK_EPSILON \<le> 101" using a n epsilon_near by linarith+
  have j: "\<bar>jsub a CLOCK_EPSILON - (a - CLOCK_EPSILON)\<bar> \<le> 1 / 1000000000000"
    by (rule fl_near_within [OF s]) simp
  show ?thesis
  proof (cases "n \<le> k")
    case True
    then have "(of_nat n :: num) \<le> of_nat k" by simp
    then have "jsub a CLOCK_EPSILON \<le> clock k" using a k j epsilon_near by linarith
    with True show ?thesis by simp
  next
    case False
    then have "(of_nat k + 1 :: num) \<le> of_nat n" by (metis not_less_eq_eq of_nat_Suc of_nat_le_iff add.commute)
    then have "clock k < jsub a CLOCK_EPSILON" using a k j epsilon_near by linarith
    with False show ?thesis by simp
  qed
qed

text \<open>The milliseconds that the client records are the clock itself.\<close>

lemma recorded_clock:
  assumes "k \<le> 4500" shows "jdiv (math_round (jmul (clock k) 1000)) 1000 = clock k"
proof -
  have k: "(of_nat k :: num) \<le> 4500" using assms by (metis of_nat_le_iff of_nat_numeral)
  have c: "\<bar>clock k - of_nat k / 50\<bar> \<le> 1 / 100000000000"
    using near_tick_bound [OF clock_near(1), of k] assms by simp
  have m: "0 \<le> clock k * 1000" "clock k * 1000 \<le> 100000" using c k clock_near(2) [of k] by linarith+
  have "\<bar>jmul (clock k) 1000 - clock k * 1000\<bar> \<le> 1 / 1000000000" by (rule fl_near_within [OF m]) simp
  then have "\<bar>jmul (clock k) 1000 - 20 * of_nat k\<bar> < 1 / 2" using c by linarith
  then have "\<bar>jmul (clock k) 1000 - of_int (int (20 * k))\<bar> < 1 / 2" by simp
  then have "math_round (jmul (clock k) 1000) = of_int (int (20 * k))" by (rule math_round_near)
  then show ?thesis by (simp add: clock_def)
qed

lemma clock_last: "clock 4500 = 90"
  by (simp add: clock_def)

lemma clock_bounds: "k \<le> 4500 \<Longrightarrow> clock k \<le> 90" "0 \<le> clock k"
proof -
  assume "k \<le> 4500"
  then have "clock k \<le> clock 4500" unfolding clock_def by (intro fl_mono divide_right_mono) simp_all
  then show "clock k \<le> 90" by (simp only: clock_last)
qed (rule clock_near)

lemma clock_mono: "i \<le> k \<Longrightarrow> clock i \<le> clock k"
  unfolding clock_def by (intro fl_mono divide_right_mono) simp_all

section \<open>Unfolding the loops\<close>

lemma while_run_unfold: "while_run c f s = (if c s then run_bind (f s) (while_run c f) else Some (Inr s))"
proof -
  let ?b = "\<lambda>m. case m of Some (Inr v) \<Rightarrow> c v | _ \<Rightarrow> False" and ?f = "\<lambda>m. run_bind m f"
  have stop: "while_option ?b ?f None = Some None" "while_option ?b ?f (Some (Inl e)) = Some (Some (Inl e))" for e
    by (subst while_option_unfold, simp)+
  show ?thesis
  proof (cases "c s")
    case True
    have "while_run c f s = (case while_option ?b ?f (f s) of None \<Rightarrow> None | Some m \<Rightarrow> m)"
      unfolding while_run_def by (subst while_option_unfold) (simp add: True)
    also have "\<dots> = run_bind (f s) (while_run c f)"
      by (cases "f s"; cases "the (f s)") (simp_all add: stop while_run_def)
    finally show ?thesis using True by simp
  qed (simp add: while_run_def, subst while_option_unfold, simp)
qed

definition at_clock :: "replay \<Rightarrow> replay" where
  "at_clock r = r\<lparr>rp_time := jmul (of_nat (rp_tick r)) PVP_SIMULATION_TICK_SECONDS\<rparr>"

lemma at_clock_sel [simp]:
  "rp_state (at_clock r) = rp_state r" "rp_accumulators (at_clock r) = rp_accumulators r"
  "rp_tick (at_clock r) = rp_tick r" "rp_nextAi (at_clock r) = rp_nextAi r" "rp_actionIndex (at_clock r) = rp_actionIndex r"
  "at_clock (at_clock r) = at_clock r"
  by (simp_all add: at_clock_def)

lemma replay_ok_at_clock: "replay_ok v r \<Longrightarrow> replay_ok v (at_clock r)"
  by (simp add: replay_ok_def) (simp add: at_clock_def pvp_tick_value)

lemma stepTo_unfold:
  "stepTo hyp True a r = (if rp_playing r \<and> of_nat (rp_tick r) < target_tick a
     then run_bind (Some (tick_body hyp r)) (stepTo hyp True a) else Some (Inr (at_clock r)))"
proof -
  have body: "(\<lambda>r. Some (rbind (replay_step hyp PVP_SIMULATION_TICK_SECONDS r) (\<lambda>r. Inr (r\<lparr>rp_tick := Suc (rp_tick r)\<rparr>))))
      = (\<lambda>r. Some (tick_body hyp r))" by (simp add: tick_body_def)
  have final: "(\<lambda>r. Some (Inr (r\<lparr>rp_time := jmul (of_nat (rp_tick r)) PVP_SIMULATION_TICK_SECONDS\<rparr>)))
      = (\<lambda>r. Some (Inr (at_clock r)))" by (simp add: at_clock_def)
  have step: "stepTo hyp True a r = run_bind (while_run (\<lambda>r. rp_playing r \<and> of_nat (rp_tick r) < target_tick a)
      (\<lambda>r. Some (tick_body hyp r)) r) (\<lambda>r. Some (Inr (at_clock r)))" for r
    unfolding stepTo_def if_True step_to_current_def while_res_def body final by (rule refl)
  show ?thesis
    unfolding step by (subst while_run_unfold) (cases "tick_body hyp r"; simp)
qed

lemma ai_until_unfold:
  "ai_until hyp opts b limit r = (if rp_playing r \<and> rp_nextAi r \<le> limit
     then run_bind (ai_body hyp opts b r) (ai_until hyp opts b limit) else Some (Inr r))"
  unfolding ai_until_def ai_body_def by (rule while_run_unfold)

section \<open>One tick of the replay\<close>

definition turn_due :: "replay \<Rightarrow> bool" where
  "turn_due r \<longleftrightarrow> rp_playing r \<and> rp_nextAi r \<le> jadd (clock (rp_tick r)) CLOCK_EPSILON"

definition bot_turn :: "hypot_fn \<Rightarrow> pvp_options \<Rightarrow> replay \<Rightarrow> replay result" where
  "bot_turn hyp opts r = rbind (executeAiAction hyp opts (at_clock r)) (\<lambda>r.
     Inr (r\<lparr>rp_nextAi := jadd (rp_nextAi r) (ai_tick opts)\<rparr>))"

definition replay_tick :: "hypot_fn \<Rightarrow> pvp_options \<Rightarrow> replay \<Rightarrow> replay result" where
  "replay_tick hyp opts r =
     (if rp_playing r then rbind (tick_body hyp r) (\<lambda>r. if turn_due r then bot_turn hyp opts r else Inr r) else Inr r)"

text \<open>The replay brought up to a tick, as it is before an order and before the end.\<close>

definition advance :: "hypot_fn \<Rightarrow> pvp_options \<Rightarrow> nat \<Rightarrow> replay \<Rightarrow> replay run" where
  "advance hyp opts k r = run_bind (ai_until hyp opts True (jadd (clock k) CLOCK_EPSILON) r) (\<lambda>r.
     if rp_playing r then stepTo hyp True (clock k) r else Some (Inr r))"

text \<open>A replay on its ticks: the bot's turn is still to come, and its clock is near its tick.\<close>

definition aligned :: "num option \<Rightarrow> replay \<Rightarrow> bool" where
  "aligned v r \<longleftrightarrow> replay_ok v r \<and> hasCaptureRecovery v \<and> (\<exists>n. near_tick (rp_nextAi r) n \<and> rp_tick r < n \<and> n \<le> 4680)"

definition bot_difficulty_of :: "pvp_options \<Rightarrow> bot_difficulty" where
  "bot_difficulty_of opts = (case px_botDifficulty opts of Some d \<Rightarrow> d | None \<Rightarrow> Normal)"

lemma aligned_playing: "aligned v r \<Longrightarrow> rp_playing r \<Longrightarrow> rp_tick r < 4500"
  by (auto simp: aligned_def replay_ok_def)

lemma bot_turn_ok:
  assumes "replay_ok v r" "hypot_ok hyp" "near_tick (rp_nextAi r) (rp_tick r)" "hasCaptureRecovery v"
  shows "\<exists>r'. bot_turn hyp opts r = Inr r' \<and> aligned v r' \<and> rp_tick r' = rp_tick r
    \<and> ordered (rp_state r) (rp_state r') \<and> rp_accumulators r' = rp_accumulators r \<and> rp_actionIndex r' = rp_actionIndex r
    \<and> rp_nextAi r' = jadd (rp_nextAi r) (ai_tick opts)"
proof -
  let ?c = "at_clock r"
  have c: "replay_ok v ?c" by (rule replay_ok_at_clock [OF assms(1)])
  then have "pvp_ok v (rp_state ?c) (rp_accumulators ?c)" by (simp add: replay_ok_def)
  from executeAiAction_ok [OF this assms(2), of opts] obtain r1 where 1: "executeAiAction hyp opts ?c = Inr r1"
    "pvp_ok v (rp_state r1) (rp_accumulators ?c)" "ordered (rp_state ?c) (rp_state r1)" "same_clock ?c r1" by blast
  have ok1: "replay_ok v r1" by (rule replay_ok_ordered [OF c 1(2,3)]) (use 1(4) in \<open>simp add: same_clock_def\<close>)
  have tick: "rp_tick r \<le> 4500" using assms(1,4) by (simp add: replay_ok_def)
  have next_turn: "near_tick (jadd (rp_nextAi r) (ai_tick opts)) (rp_tick r + ai_ticks (bot_difficulty_of opts))"
    using near_tick_next [OF assms(3), of "bot_difficulty_of opts"] tick by (simp add: ai_tick_def bot_difficulty_of_def)
  have nonneg: "0 \<le> jadd (rp_nextAi r) (ai_tick opts)"
    using assms(1) ai_tick_bounds(1) [of opts] by (simp add: replay_ok_def)
  define r' where "r' = r1\<lparr>rp_nextAi := jadd (rp_nextAi r) (ai_tick opts)\<rparr>"
  have same: "rp_tick r1 = rp_tick r" "rp_accumulators r1 = rp_accumulators r" "rp_actionIndex r1 = rp_actionIndex r"
    "rp_nextAi r1 = rp_nextAi r" using 1(4) by (simp_all add: same_clock_def)
  have "replay_ok v r'" using ok1 nonneg by (simp add: r'_def replay_ok_def)
  moreover have "rp_tick r' < rp_tick r + ai_ticks (bot_difficulty_of opts)" "rp_tick r + ai_ticks (bot_difficulty_of opts) \<le> 4680"
    using ai_ticks_bounds [of "bot_difficulty_of opts"] tick same by (simp_all add: r'_def)
  ultimately have "aligned v r'" using next_turn assms(4) unfolding aligned_def by (auto simp: r'_def)
  then show ?thesis using 1 same by (simp add: bot_turn_def r'_def)
qed

text \<open>A tick of a match that runs: it ends the match, or leaves it on its ticks one tick later.\<close>

lemma replay_tick_ok2:
  assumes "aligned v r" "rp_playing r" "hypot_ok hyp"
  obtains r1 where "tick_body hyp r = Inr r1" "replay_ok v r1" "rp_tick r1 = Suc (rp_tick r)" "rp_nextAi r1 = rp_nextAi r"
    "rp_actionIndex r1 = rp_actionIndex r"
proof -
  have ok: "replay_ok v r" "hasCaptureRecovery v" using assms(1) by (simp_all add: aligned_def)
  obtain r' where "replay_step hyp PVP_SIMULATION_TICK_SECONDS r = Inr r'" "replay_ok v (r'\<lparr>rp_tick := Suc (rp_tick r')\<rparr>)"
    "rp_tick r' = rp_tick r" "rp_nextAi r' = rp_nextAi r" "rp_actionIndex r' = rp_actionIndex r"
    using replay_tick_ok [OF ok assms(2)] by blast
  then show ?thesis using that [of "r'\<lparr>rp_tick := Suc (rp_tick r')\<rparr>"] by (simp add: tick_body_def)
qed

lemma turn_due_iff:
  assumes "near_tick (rp_nextAi r) n" "n \<le> 4680" "rp_tick r \<le> 4500" "rp_playing r"
  shows "turn_due r \<longleftrightarrow> n \<le> rp_tick r"
  using due_server [OF assms(1) _ assms(3)] assms(2,4) by (simp add: turn_due_def)

lemma replay_tick_aligned:
  assumes "aligned v r" "rp_playing r" "hypot_ok hyp"
  shows "\<exists>r'. replay_tick hyp opts r = Inr r' \<and> rp_tick r' = Suc (rp_tick r) \<and> replay_ok v r'
    \<and> (rp_playing r' \<longrightarrow> aligned v r')"
proof -
  obtain n where n: "near_tick (rp_nextAi r) n" "rp_tick r < n" "n \<le> 4680" and rec: "hasCaptureRecovery v"
    using assms(1) by (auto simp: aligned_def)
  obtain r1 where r1: "tick_body hyp r = Inr r1" "replay_ok v r1" "rp_tick r1 = Suc (rp_tick r)" "rp_nextAi r1 = rp_nextAi r"
    by (rule replay_tick_ok2 [OF assms])
  have t1: "rp_tick r1 \<le> 4500" using r1(2) rec by (simp add: replay_ok_def)
  show ?thesis
  proof (cases "turn_due r1")
    case True
    then have "rp_playing r1" by (simp add: turn_due_def)
    then have "n \<le> rp_tick r1" using True turn_due_iff [of r1 n] n r1(4) t1 by simp
    then have "n = rp_tick r1" using n(2) r1(3) by simp
    then have "near_tick (rp_nextAi r1) (rp_tick r1)" using n(1) r1(4) by simp
    from bot_turn_ok [OF r1(2) assms(3) this rec, of opts] show ?thesis
      using r1 True assms(2) by (auto simp: replay_tick_def aligned_def)
  next
    case False
    then have "aligned v r1" if "rp_playing r1"
      using turn_due_iff [of r1 n] that n r1 t1 rec unfolding aligned_def by auto
    then show ?thesis using r1 False assms(2) by (auto simp: replay_tick_def)
  qed
qed

section \<open>Between two orders\<close>

lemma ai_body_over:
  assumes "stepTo hyp True (rp_nextAi r) r = Some (Inr r1)" "\<not> rp_playing r1"
  shows "ai_body hyp opts True r = Some (Inr (r1\<lparr>rp_nextAi := jadd (rp_nextAi r1) (ai_tick opts)\<rparr>))"
  using assms by (simp add: ai_body_def executeAiAction_def)

lemma advance_over: "\<not> rp_playing r \<Longrightarrow> advance hyp opts k r = Some (Inr r)"
  unfolding advance_def by (subst ai_until_unfold) simp

lemma clock_target: "k \<le> 4500 \<Longrightarrow> target_tick (clock k) = of_nat k"
  by (rule target_tick_near [OF clock_near(1)]) simp

lemma advance_stay:
  assumes "aligned v r" "rp_playing r" "rp_tick r = k"
  shows "advance hyp opts k r = Some (Inr (at_clock r))"
proof -
  obtain n where n: "near_tick (rp_nextAi r) n" "k < n" "n \<le> 4680" using assms(1,3) by (auto simp: aligned_def)
  have k: "k \<le> 4500" using aligned_playing [OF assms(1,2)] assms(3) by simp
  have "\<not> rp_nextAi r \<le> jadd (clock k) CLOCK_EPSILON" using due_server [OF n(1) _ k] n by simp
  then have "ai_until hyp opts True (jadd (clock k) CLOCK_EPSILON) r = Some (Inr r)" by (subst ai_until_unfold) simp
  moreover have "stepTo hyp True (clock k) r = Some (Inr (at_clock r))"
    by (subst stepTo_unfold) (simp add: clock_target [OF k] assms(3))
  ultimately show ?thesis using assms(2) by (simp add: advance_def)
qed

text \<open>Doing one tick first changes nothing: not when the tick is on the way to the bot's turn or to the order \<dots>\<close>

lemma stepTo_tick:
  assumes "rp_playing r" "of_nat (rp_tick r) < target_tick a" "tick_body hyp r = Inr r1"
  shows "stepTo hyp True a r = stepTo hyp True a r1"
  by (subst stepTo_unfold) (simp add: assms)

lemma stepTo_over: "\<not> rp_playing r \<Longrightarrow> stepTo hyp True a r = Some (Inr (at_clock r))"
  by (subst stepTo_unfold) simp

definition ends_like :: "replay run \<Rightarrow> replay \<Rightarrow> bool" where
  "ends_like m r \<longleftrightarrow> (\<exists>r2. m = Some (Inr r2) \<and> \<not> rp_playing r2 \<and> rp_state r2 = rp_state r)"

lemma advance_step:
  assumes r: "aligned v r" "rp_playing r" "hypot_ok hyp" and k: "rp_tick r < k" "k \<le> 4500"
    and tick: "replay_tick hyp opts r = Inr r1"
  shows "if rp_playing r1 then advance hyp opts k r = advance hyp opts k r1 else ends_like (advance hyp opts k r) r1"
proof -
  let ?lim = "jadd (clock k) CLOCK_EPSILON"
  obtain n where n: "near_tick (rp_nextAi r) n" "rp_tick r < n" "n \<le> 4680" and rec: "hasCaptureRecovery v"
    using r(1) by (auto simp: aligned_def)
  obtain rt where rt: "tick_body hyp r = Inr rt" "replay_ok v rt" "rp_tick rt = Suc (rp_tick r)" "rp_nextAi rt = rp_nextAi r"
    by (rule replay_tick_ok2 [OF r])
  have rt_tick: "rp_tick rt \<le> 4500" using k rt(3) by simp
  have due: "turn_due rt \<longleftrightarrow> rp_playing rt \<and> n \<le> rp_tick rt"
    using turn_due_iff [of rt n] n rt(4) rt_tick by (auto simp: turn_due_def)
  have target: "target_tick (rp_nextAi r) = of_nat n" by (rule target_tick_near [OF n(1)]) (use n(3) in simp)
  have to_turn: "stepTo hyp True (rp_nextAi r) r = stepTo hyp True (rp_nextAi r) rt"
    by (rule stepTo_tick [OF r(2) _ rt(1)]) (simp add: target n(2))
  have to_order: "stepTo hyp True (clock k) r = stepTo hyp True (clock k) rt"
    by (rule stepTo_tick [OF r(2) _ rt(1)]) (simp add: clock_target [OF k(2)] k(1))
  have lim: "rp_nextAi r \<le> ?lim \<longleftrightarrow> n \<le> k" by (rule due_server [OF n(1) _ k(2)]) (use n(3) in simp)
  show ?thesis
  proof (cases "rp_playing rt")
    case over: False
    then have r1: "r1 = rt" using tick rt(1) r(2) by (simp add: replay_tick_def due)
    have "\<exists>r2. advance hyp opts k r = Some (Inr r2) \<and> \<not> rp_playing r2 \<and> rp_state r2 = rp_state rt"
    proof (cases "n \<le> k")
      case True
      have "stepTo hyp True (rp_nextAi r) r = Some (Inr (at_clock rt))" unfolding to_turn by (rule stepTo_over [OF over])
      from ai_body_over [OF this] over
      have "ai_until hyp opts True ?lim r
          = Some (Inr ((at_clock rt)\<lparr>rp_nextAi := jadd (rp_nextAi rt) (ai_tick opts)\<rparr>))"
        by (subst ai_until_unfold) (simp add: r(2) lim True, subst ai_until_unfold, simp)
      then show ?thesis using over by (simp add: advance_def)
    next
      case False
      then have "ai_until hyp opts True ?lim r = Some (Inr r)" by (subst ai_until_unfold) (simp add: lim)
      then show ?thesis using over r(2) by (simp add: advance_def to_order stepTo_over)
    qed
    then show ?thesis using over by (simp add: r1 ends_like_def)
  next
    case on: True
    show ?thesis
    proof (cases "n \<le> rp_tick rt")
      case False
      then have r1: "r1 = rt" using tick rt(1) r(2) by (simp add: replay_tick_def due)
      have "ai_until hyp opts True ?lim r = ai_until hyp opts True ?lim rt" if "n \<le> k"
      proof -
        have "ai_body hyp opts True r = ai_body hyp opts True rt" by (simp add: ai_body_def to_turn rt(4))
        then show ?thesis by (subst (1 2) ai_until_unfold) (simp add: r(2) on rt(4) lim that)
      qed
      moreover have "ai_until hyp opts True ?lim r = Some (Inr r)" "ai_until hyp opts True ?lim rt = Some (Inr rt)" if "\<not> n \<le> k"
        using that lim by (subst ai_until_unfold, simp add: rt(4))+
      ultimately show ?thesis using on r(2) to_order by (cases "n \<le> k") (simp_all add: r1 advance_def)
    next
      case True
      then have n_eq: "n = rp_tick rt" using n(2) rt(3) by simp
      have near: "near_tick (rp_nextAi rt) (rp_tick rt)" using n(1) rt(4) n_eq by simp
      from bot_turn_ok [OF rt(2) r(3) near rec, of opts] obtain r' where r': "bot_turn hyp opts rt = Inr r'"
        "ordered (rp_state rt) (rp_state r')" by blast
      then have r1: "r1 = r'" using tick rt(1) r(2) on True by (simp add: replay_tick_def due)
      have on': "rp_playing r'" using r'(2) on by (simp add: ordered_def)
      have "stepTo hyp True (rp_nextAi r) rt = Some (Inr (at_clock rt))"
        by (subst stepTo_unfold) (simp add: target n_eq)
      then have "ai_body hyp opts True r = Some (Inr r')" using r'(1) by (simp add: ai_body_def to_turn bot_turn_def)
      then have "ai_until hyp opts True ?lim r = ai_until hyp opts True ?lim r'"
        by (subst ai_until_unfold) (use r(2) lim n_eq rt(3) k(1) in simp)
      then show ?thesis using on' by (simp add: r1 advance_def)
    qed
  qed
qed

text \<open>\<dots> and so for any number of ticks, up to the one that ends the match.\<close>

lemma run_ticks:
  assumes "aligned v r" "rp_playing r" "hypot_ok hyp" "rp_tick r + m \<le> k" "k \<le> 4500"
  shows "\<exists>r'. run_steps m (replay_tick hyp opts) r = Inr r' \<and> replay_ok v r'
    \<and> (if rp_playing r' then aligned v r' \<and> rp_tick r' = rp_tick r + m \<and> advance hyp opts k r = advance hyp opts k r'
       else ends_like (advance hyp opts k r) r')"
  using assms(1,2,4)
proof (induction m arbitrary: r)
  case 0
  then show ?case by (simp add: aligned_def)
next
  case (Suc m)
  obtain r1 where r1: "replay_tick hyp opts r = Inr r1" "rp_tick r1 = Suc (rp_tick r)" "replay_ok v r1"
    "rp_playing r1 \<longrightarrow> aligned v r1"
    using replay_tick_aligned [OF Suc.prems(1,2) assms(3), of opts] by blast
  have step: "if rp_playing r1 then advance hyp opts k r = advance hyp opts k r1 else ends_like (advance hyp opts k r) r1"
    by (rule advance_step [OF Suc.prems(1,2) assms(3) _ assms(5) r1(1)]) (use Suc.prems(3) in simp)
  show ?case
  proof (cases "rp_playing r1")
    case True
    have "\<exists>r'. run_steps m (replay_tick hyp opts) r1 = Inr r' \<and> replay_ok v r'
      \<and> (if rp_playing r' then aligned v r' \<and> rp_tick r' = rp_tick r1 + m \<and> advance hyp opts k r1 = advance hyp opts k r'
         else ends_like (advance hyp opts k r1) r')"
      by (rule Suc.IH) (use True r1 Suc.prems(3) in simp_all)
    then obtain r' where r': "run_steps m (replay_tick hyp opts) r1 = Inr r'" "replay_ok v r'"
      "if rp_playing r' then aligned v r' \<and> rp_tick r' = rp_tick r1 + m \<and> advance hyp opts k r1 = advance hyp opts k r'
       else ends_like (advance hyp opts k r1) r'" by blast
    show ?thesis using r' r1(1,2) step True by (intro exI [of _ r']) simp
  next
    case False
    then have "run_steps m (replay_tick hyp opts) r1 = Inr r1" by (induction m) (simp_all add: replay_tick_def)
    then show ?thesis using r1 step False by simp
  qed
qed

section \<open>Orders\<close>

lemma if_negate: "(if \<not> b then x else y) = (if b then y else x)"
  by simp

lemma run_bind_assoc: "run_bind (run_bind m f) g = run_bind m (\<lambda>x. run_bind (f x) g)"
  by (cases m; cases "the m") simp_all

lemma replay_action_advance:
  assumes "finite_value (pa_at a) = clock k"
  shows "replay_actions hyp opts True CLOCK_EPSILON (a # as) r = run_bind (advance hyp opts k r) (\<lambda>r.
    if rp_playing r then run_bind (Some (player_action hyp opts a r)) (replay_actions hyp opts True CLOCK_EPSILON as)
    else Some (Inr r))"
proof -
  have "(if \<not> rp_playing x then Some (Inr x) else run_bind (stepTo hyp True (clock k) x) (\<lambda>r.
         if \<not> rp_playing r then Some (Inr r)
         else run_bind (Some (player_action hyp opts a r)) (replay_actions hyp opts True CLOCK_EPSILON as)))
      = run_bind (if rp_playing x then stepTo hyp True (clock k) x else Some (Inr x)) (\<lambda>r.
         if rp_playing r then run_bind (Some (player_action hyp opts a r)) (replay_actions hyp opts True CLOCK_EPSILON as)
         else Some (Inr r))" for x
    by (cases "rp_playing x") (simp_all only: not_not if_True if_False run_bind_simps simp_thms if_negate)
  then show ?thesis unfolding replay_actions.simps assms advance_def run_bind_assoc by presburger
qed

lemma replay_finish_advance:
  "replay_finish hyp opts True CLOCK_EPSILON r = run_bind (advance hyp opts 4500 r) (\<lambda>r.
     if rp_playing r then Some (replay_step hyp 0 r) else Some (Inr r))"
proof -
  have "(if \<not> rp_playing x then Some (Inr x) else run_bind (stepTo hyp True 90 x) (\<lambda>r.
         if \<not> rp_playing r then Some (Inr r) else Some (replay_step hyp 0 r)))
      = run_bind (if rp_playing x then stepTo hyp True 90 x else Some (Inr x)) (\<lambda>r.
         if rp_playing r then Some (replay_step hyp 0 r) else Some (Inr r))" for x
    by (cases "rp_playing x") (simp_all only: not_not if_True if_False run_bind_simps simp_thms if_negate)
  then show ?thesis
    unfolding replay_finish_def PVP_TIME_LIMIT_SECONDS_def advance_def clock_last run_bind_assoc by presburger
qed

lemma replay_actions_over: "\<not> rp_playing r \<Longrightarrow> replay_actions hyp opts True CLOCK_EPSILON as r = Some (Inr r)"
  by (cases as) (simp, simp, subst ai_until_unfold, simp)

lemma replay_actions_append:
  "replay_actions hyp opts True CLOCK_EPSILON (as @ bs) r
     = run_bind (replay_actions hyp opts True CLOCK_EPSILON as r) (replay_actions hyp opts True CLOCK_EPSILON bs)"
proof (induction as arbitrary: r)
  case (Cons a as)
  have cases: "run_bind m f = run_bind m g" if "\<And>x. m = Some (Inr x) \<Longrightarrow> f x = g x" for m :: "replay run" and f g :: "replay \<Rightarrow> replay run"
    using that by (cases m; cases "the m") simp_all
  show ?case
    by (auto simp: run_bind_assoc Cons.IH replay_actions_over intro!: cases)
qed simp

section \<open>Following a running match\<close>

text \<open>
  What the server reaches with the orders given so far, brought up to a tick: the match runs, or it was decided
  there. Orders that come after the decision carry its time.
\<close>

definition served ::
  "hypot_fn \<Rightarrow> pvp_options \<Rightarrow> num option \<Rightarrow> game_state \<Rightarrow> pvp_action list \<Rightarrow> nat \<Rightarrow> replay \<Rightarrow> bool" where
  "served hyp opts v s0 as k r \<longleftrightarrow> (\<exists>r0 m. replay_actions hyp opts True CLOCK_EPSILON as (replay_start opts s0) = Some (Inr r0)
     \<and> aligned v r0 \<and> rp_playing r0 \<and> run_steps m (replay_tick hyp opts) r0 = Inr r \<and> k = rp_tick r0 + m
     \<and> replay_ok v r \<and> rp_tick r = k)"

definition follows ::
  "hypot_fn \<Rightarrow> pvp_options \<Rightarrow> num option \<Rightarrow> game_state \<Rightarrow> pvp_action list \<Rightarrow> nat \<Rightarrow> replay \<Rightarrow> bool" where
  "follows hyp opts v s0 as k r \<longleftrightarrow> served hyp opts v s0 as k r \<and> rp_playing r \<and> aligned v r"

definition decided ::
  "hypot_fn \<Rightarrow> pvp_options \<Rightarrow> num option \<Rightarrow> game_state \<Rightarrow> pvp_action list \<Rightarrow> nat \<Rightarrow> replay \<Rightarrow> bool" where
  "decided hyp opts v s0 as k r \<longleftrightarrow> (\<exists>before late. as = before @ late \<and> served hyp opts v s0 before k r
     \<and> list_all (\<lambda>a. pa_at a = Finite (clock k)) late) \<and> \<not> rp_playing r"

lemma run_steps_append: "run_steps (m + n) f s = rbind (run_steps m f s) (run_steps n f)"
proof (induction m arbitrary: s)
  case (Suc m)
  then show ?case by (cases "f s") simp_all
qed simp

lemma replay_start_aligned:
  assumes "options_ok opts" "createInitialGameState (pvp_initial_options opts) = Inr s"
    and "hasCaptureRecovery (Some (initial_version (pvp_initial_options opts)))"
  shows "aligned (g_rules s) (replay_start opts s) \<and> rp_playing (replay_start opts s)
    \<and> g_rules s = Some (initial_version (pvp_initial_options opts))"
proof -
  have s: "g_rules s = Some (initial_version (pvp_initial_options opts))" "replay_ok (g_rules s) (replay_start opts s)"
    using replay_start_ok [OF assms(1)] assms(2) by auto
  have "near_tick (rp_nextAi (replay_start opts s)) (ai_ticks (bot_difficulty_of opts))"
    using near_tick_first [of "bot_difficulty_of opts"] by (simp add: replay_start_def ai_tick_def bot_difficulty_of_def)
  moreover have "0 < ai_ticks (bot_difficulty_of opts)" "ai_ticks (bot_difficulty_of opts) \<le> 4680"
    using ai_ticks_bounds [of "bot_difficulty_of opts"] by linarith+
  moreover have "rp_tick (replay_start opts s) = 0" by (simp add: replay_start_def)
  ultimately have "aligned (g_rules s) (replay_start opts s)" using s assms(3) unfolding aligned_def by metis
  moreover have "rp_playing (replay_start opts s)"
    using createInitialGameState_ok [of "pvp_initial_options opts"] assms(1,2)
    by (auto simp: replay_start_def options_ok_def pvp_initial_options_def)
  ultimately show ?thesis using s(1) by blast
qed

lemma follows_start:
  assumes "aligned v (replay_start opts s)" "rp_playing (replay_start opts s)"
  shows "follows hyp opts v s [] 0 (replay_start opts s)"
proof -
  have "served hyp opts v s [] 0 (replay_start opts s)" unfolding served_def
    by (rule exI [of _ "replay_start opts s"], rule exI [of _ 0])
      (use assms in \<open>simp add: aligned_def\<close>, simp add: replay_start_def)
  with assms show ?thesis by (simp add: follows_def)
qed

lemma follows_tick:
  assumes "follows hyp opts v s0 as k r" "hypot_ok hyp"
  shows "\<exists>r'. replay_tick hyp opts r = Inr r'
    \<and> (if rp_playing r' then follows hyp opts v s0 as (Suc k) r' else decided hyp opts v s0 as (Suc k) r')"
proof -
  obtain r0 m where r0: "replay_actions hyp opts True CLOCK_EPSILON as (replay_start opts s0) = Some (Inr r0)"
    "aligned v r0" "rp_playing r0" "run_steps m (replay_tick hyp opts) r0 = Inr r" "k = rp_tick r0 + m" "rp_tick r = k"
    and r: "rp_playing r" "aligned v r" using assms(1) by (auto simp: follows_def served_def)
  obtain r' where r': "replay_tick hyp opts r = Inr r'" "rp_tick r' = Suc (rp_tick r)" "replay_ok v r'"
    "rp_playing r' \<longrightarrow> aligned v r'" using replay_tick_aligned [OF r(2,1) assms(2)] by blast
  have "run_steps (m + 1) (replay_tick hyp opts) r0 = Inr r'" unfolding run_steps_append using r0(4) r'(1) by simp
  then have "served hyp opts v s0 as (Suc k) r'" unfolding served_def using r0 r' by fastforce
  moreover from this have "decided hyp opts v s0 as (Suc k) r'" if "\<not> rp_playing r'"
    unfolding decided_def using that by (intro conjI exI [of _ as] exI [of _ "[]"]) simp_all
  ultimately show ?thesis using r' by (simp add: follows_def)
qed

lemma served_tick_limit: "served hyp opts v s0 as k r \<Longrightarrow> hasCaptureRecovery v \<Longrightarrow> k \<le> 4500"
  by (auto simp: served_def replay_ok_def)

text \<open>An order at the time the match has reached is performed on the match as it is.\<close>

lemma follows_order:
  assumes "follows hyp opts v s0 as k r" "hypot_ok hyp" "pa_at a = Finite (clock k)"
    and "player_action hyp opts a (at_clock r) = Inr r'"
  shows "follows hyp opts v s0 (as @ [a]) k r'"
proof -
  obtain r0 m where r0: "replay_actions hyp opts True CLOCK_EPSILON as (replay_start opts s0) = Some (Inr r0)"
    "aligned v r0" "rp_playing r0" "run_steps m (replay_tick hyp opts) r0 = Inr r" "k = rp_tick r0 + m" "rp_tick r = k"
    and r: "rp_playing r" "aligned v r" using assms(1) by (auto simp: follows_def served_def)
  have k: "k \<le> 4500" using aligned_playing [OF r(2,1)] r0(6) by simp
  have "advance hyp opts k r0 = advance hyp opts k r"
    using run_ticks [OF r0(2,3) assms(2), of m k opts] r0(4,5) k r(1) by auto
  also have "\<dots> = Some (Inr (at_clock r))" by (rule advance_stay [OF r(2,1) r0(6)])
  finally have "replay_actions hyp opts True CLOCK_EPSILON [a] r0 = Some (Inr r')"
    using replay_action_advance [of a k hyp opts "[]" r0] assms(3,4) r(1) by (simp add: finite_value_def)
  then have acts: "replay_actions hyp opts True CLOCK_EPSILON (as @ [a]) (replay_start opts s0) = Some (Inr r')"
    unfolding replay_actions_append r0(1) by simp
  have clocked: "replay_ok v (at_clock r)" using r(2) replay_ok_at_clock by (simp add: aligned_def)
  then have "pvp_ok v (rp_state (at_clock r)) (rp_accumulators (at_clock r))" by (simp add: replay_ok_def)
  from player_action_ok [OF this assms(2), of opts a] assms(4)
  have after: "pvp_ok v (rp_state r') (rp_accumulators (at_clock r))" "ordered (rp_state (at_clock r)) (rp_state r')"
    "same_clock (at_clock r) (r'\<lparr>rp_actionIndex := rp_actionIndex (at_clock r)\<rparr>)" by auto
  have "replay_ok v r'" by (rule replay_ok_ordered [OF clocked after])
  moreover have "rp_tick r' = k" "rp_nextAi r' = rp_nextAi r" using after(3) r0(6) by (simp_all add: same_clock_def)
  ultimately have "aligned v r'" using r(2) r0(6) by (auto simp: aligned_def)
  moreover have "rp_playing r'" using after(2) r(1) by (simp add: ordered_def)
  ultimately have "served hyp opts v s0 (as @ [a]) k r'" unfolding served_def
    using acts \<open>replay_ok v r'\<close> \<open>rp_tick r' = k\<close> by (intro exI [of _ r'] exI [of _ 0]) simp
  with \<open>aligned v r'\<close> \<open>rp_playing r'\<close> show ?thesis by (simp add: follows_def)
qed

lemma decided_order:
  "decided hyp opts v s0 as k r \<Longrightarrow> pa_at a = Finite (clock k) \<Longrightarrow> decided hyp opts v s0 (as @ [a]) k r"
  unfolding decided_def by clarify (rule exI, rule exI [of _ "_ @ [a]"], simp)

text \<open>The server's replay of all orders ends in the match that was decided.\<close>

lemma decided_replay:
  assumes "decided hyp opts v s0 as k r" "hypot_ok hyp" "hasCaptureRecovery v"
  shows "\<exists>r2. run_bind (replay_actions hyp opts True CLOCK_EPSILON as (replay_start opts s0))
      (replay_finish hyp opts True CLOCK_EPSILON) = Some (Inr r2) \<and> rp_state r2 = rp_state r"
proof -
  obtain before late r0 m where as: "as = before @ late" "list_all (\<lambda>a. pa_at a = Finite (clock k)) late"
    and r0: "replay_actions hyp opts True CLOCK_EPSILON before (replay_start opts s0) = Some (Inr r0)"
      "aligned v r0" "rp_playing r0" "run_steps m (replay_tick hyp opts) r0 = Inr r" "k = rp_tick r0 + m"
    and over: "\<not> rp_playing r" and k: "k \<le> 4500"
    using assms(1,3) by (auto simp: decided_def served_def replay_ok_def)
  have ends: "ends_like (advance hyp opts j r0) r" if "k \<le> j" "j \<le> 4500" for j
    using run_ticks [OF r0(2,3) assms(2), of m j opts] r0(4,5) that over by auto
  show ?thesis
  proof (cases late)
    case Nil
    obtain r2 where "advance hyp opts 4500 r0 = Some (Inr r2)" "\<not> rp_playing r2" "rp_state r2 = rp_state r"
      using ends [OF k] by (auto simp: ends_like_def)
    then show ?thesis using r0(1) as(1) Nil by (simp add: replay_finish_advance)
  next
    case (Cons a rest)
    obtain r2 where r2: "advance hyp opts k r0 = Some (Inr r2)" "\<not> rp_playing r2" "rp_state r2 = rp_state r"
      using ends [of k] k by (auto simp: ends_like_def)
    have "finite_value (pa_at a) = clock k" using as(2) Cons by (simp add: finite_value_def)
    from replay_action_advance [OF this, of hyp opts rest r0]
    have "replay_actions hyp opts True CLOCK_EPSILON late r0 = Some (Inr r2)" using r2 Cons by simp
    then have "replay_actions hyp opts True CLOCK_EPSILON as (replay_start opts s0) = Some (Inr r2)"
      unfolding as(1) replay_actions_append r0(1) by simp
    then show ?thesis using r2 by (simp add: replay_finish_advance advance_over)
  qed
qed

end

