(* ===== verification/MatchMenu.thy ===== *)
theory MatchMenu
  imports Analytics
begin

text \<open>
  \<open>apps/game/src/match\<close>: the menu of a running match (\<open>MatchMenuController.ts\<close>), the countdown before a bot
  battle (\<open>MatchIntro.ts\<close>), the cause an ended battle shows (\<open>EndBeat.ts\<close>) and the whole seconds it reports
  (\<open>MatchPresentation.ts\<close>). What the controller tells the scene through its callbacks is a list of effects, the
  latest last.
\<close>

section \<open>The menu\<close>

datatype menu_state = MenuClosed | MenuOpen | ConfirmOpen
datatype confirm_origin = FromMenu | FromMatch

text \<open>\<open>MatchQuitEvent\<close> and \<open>MatchNavigationAnalyticsEvent\<close>: the identifier and the mode are the match's.\<close>

record match_quit =
  mq_matchId :: string
  mq_mode :: play_mode
  mq_seconds :: num

datatype menu_effect =
    Navigated analytics_input
  | StateShown menu_state
  | QuitTracked match_quit
  | LiveClientClosed
  | ExitConfirmed

text \<open>The dependencies a match gives its menu; the duration is asked for when the exit is confirmed.\<close>

record menu_deps =
  md_live :: bool
  md_matchId :: string
  md_confirmation :: "string option"

record match_menu =
  mm_state :: menu_state
  mm_exiting :: bool
  mm_origin :: confirm_origin
  mm_effects :: "menu_effect list"

definition new_menu :: match_menu where
  "new_menu = \<lparr>mm_state = MenuClosed, mm_exiting = False, mm_origin = FromMenu, mm_effects = []\<rparr>"

definition menu_mode :: "menu_deps \<Rightarrow> play_mode" where
  "menu_mode d = (if md_live d then LiveMode else BotMode)"

definition menu_emit :: "menu_effect \<Rightarrow> match_menu \<Rightarrow> match_menu" where
  "menu_emit e m = m\<lparr>mm_effects := mm_effects m @ [e]\<rparr>"

definition navigate :: "menu_deps \<Rightarrow> (string \<Rightarrow> play_mode \<Rightarrow> analytics_input) \<Rightarrow> match_menu \<Rightarrow> match_menu" where
  "navigate d ev m = menu_emit (Navigated (ev (md_matchId d) (menu_mode d))) m"

definition show_state :: "menu_state \<Rightarrow> match_menu \<Rightarrow> match_menu" where
  "show_state s m = menu_emit (StateShown s) (m\<lparr>mm_state := s\<rparr>)"

definition isOpen :: "match_menu \<Rightarrow> bool" where
  "isOpen m \<longleftrightarrow> mm_state m \<noteq> MenuClosed"

definition openMenu :: "menu_deps \<Rightarrow> match_menu \<Rightarrow> match_menu" where
  "openMenu d m =
     (if mm_exiting m then m
      else show_state MenuOpen (if mm_state m = MenuClosed then navigate d EvMatchMenuOpened m else m))"

definition closeMenu :: "menu_deps \<Rightarrow> match_menu \<Rightarrow> match_menu" where
  "closeMenu d m =
     (if mm_exiting m then m
      else show_state MenuClosed (if mm_state m = MenuOpen then navigate d EvMatchResumed m else m))"

definition openConfirm :: "menu_deps \<Rightarrow> confirm_origin \<Rightarrow> match_menu \<Rightarrow> match_menu" where
  "openConfirm d origin m =
     (if mm_exiting m then m
      else show_state ConfirmOpen (navigate d EvMatchLeaveRequested (m\<lparr>mm_origin := origin\<rparr>)))"

definition backToMenu :: "menu_deps \<Rightarrow> match_menu \<Rightarrow> match_menu" where
  "backToMenu d m =
     (if mm_exiting m then m
      else let m1 = (if mm_state m = ConfirmOpen then navigate d EvMatchLeaveCancelled m else m)
        in if mm_origin m1 = FromMatch
          then menu_emit (StateShown MenuClosed) (navigate d EvMatchResumed (m1\<lparr>mm_state := MenuClosed\<rparr>))
          else show_state MenuOpen m1)"

definition handleBackButton :: "menu_deps \<Rightarrow> match_menu \<Rightarrow> match_menu" where
  "handleBackButton d m =
     (if mm_exiting m then m
      else case mm_state m of
        ConfirmOpen \<Rightarrow> backToMenu d m
      | MenuOpen \<Rightarrow> closeMenu d m
      | MenuClosed \<Rightarrow> openConfirm d FromMatch m)"

text \<open>The quit event carries the match clock at that moment; a live match also closes its connection.\<close>

definition confirmExit :: "menu_deps \<Rightarrow> num \<Rightarrow> match_menu \<Rightarrow> match_menu" where
  "confirmExit d seconds m =
     (if mm_exiting m then m
      else let m1 = m\<lparr>mm_exiting := True, mm_state := MenuClosed\<rparr>;
          m2 = navigate d (\<lambda>i mode. EvMatchQuitConfirmed i mode (Finite seconds)) m1;
          m3 = menu_emit (QuitTracked \<lparr>mq_matchId = md_matchId d, mq_mode = menu_mode d, mq_seconds = seconds\<rparr>) m2;
          m4 = (if md_live d then menu_emit LiveClientClosed m3 else m3)
        in menu_emit ExitConfirmed m4)"

text \<open>
  A bot match pauses while the menu is open. When the modal is no longer on the screen, the menu closes
  instead.
\<close>

definition isPaused :: "menu_deps \<Rightarrow> bool \<Rightarrow> match_menu \<Rightarrow> bool \<times> match_menu" where
  "isPaused d visible m =
     (if md_live d \<or> \<not> isOpen m then (False, m)
      else if \<not> visible then (False, closeMenu d m)
      else (True, m))"

definition reconcileVisualState :: "menu_deps \<Rightarrow> bool \<Rightarrow> match_menu \<Rightarrow> match_menu" where
  "reconcileVisualState d visible m = (if \<not> visible \<and> isOpen m then closeMenu d m else m)"

text \<open>The two default texts are those of the catalogue.\<close>

definition getConfirmationMessage :: "menu_deps \<Rightarrow> string \<Rightarrow> string \<Rightarrow> string" where
  "getConfirmationMessage d leaveLive leaveBot = (case md_confirmation d of
       Some msg \<Rightarrow> if msg \<noteq> [] then msg else if md_live d then leaveLive else leaveBot
     | None \<Rightarrow> if md_live d then leaveLive else leaveBot)"

text \<open>Whatever a player and the platform do with the menu.\<close>

datatype menu_input = OpenTap | CloseTap | LeaveTap | CancelTap | BackButton | ConfirmTap num | PausePoll bool | VisualPoll bool

definition menu_step :: "menu_deps \<Rightarrow> menu_input \<Rightarrow> match_menu \<Rightarrow> match_menu" where
  "menu_step d i m = (case i of
       OpenTap \<Rightarrow> openMenu d m
     | CloseTap \<Rightarrow> closeMenu d m
     | LeaveTap \<Rightarrow> openConfirm d FromMenu m
     | CancelTap \<Rightarrow> backToMenu d m
     | BackButton \<Rightarrow> handleBackButton d m
     | ConfirmTap seconds \<Rightarrow> confirmExit d seconds m
     | PausePoll visible \<Rightarrow> snd (isPaused d visible m)
     | VisualPoll visible \<Rightarrow> reconcileVisualState d visible m)"

definition menu_run :: "menu_deps \<Rightarrow> menu_input list \<Rightarrow> match_menu \<Rightarrow> match_menu" where
  "menu_run d is m = fold (menu_step d) is m"

section \<open>The gates of a settlement\<close>

text \<open>\<open>scenes/gameSceneGuards.ts\<close>.\<close>

definition shouldActivateStressMode :: "bool \<Rightarrow> bool \<Rightarrow> bool \<Rightarrow> bool" where
  "shouldActivateStressMode isDebugPerformance requestedQaStress liveMode \<longleftrightarrow>
     isDebugPerformance \<and> requestedQaStress \<and> \<not> liveMode"

definition canInitiateBotSettlement :: "bool \<Rightarrow> bool \<Rightarrow> bool \<Rightarrow> bool \<Rightarrow> bool \<Rightarrow> bool" where
  "canInitiateBotSettlement isExiting hasResultModal resultPending isStressMode liveMode =
     (if isExiting \<or> hasResultModal \<or> resultPending then False
      else if isStressMode \<and> \<not> liveMode then False else True)"

definition canFinalizeBotSettlement :: "bool \<Rightarrow> bool \<Rightarrow> bool" where
  "canFinalizeBotSettlement isStressMode liveMode = (if isStressMode \<and> \<not> liveMode then False else True)"

definition canHandleLiveSettlement :: "bool \<Rightarrow> bool \<Rightarrow> bool" where
  "canHandleLiveSettlement isExiting hasResultModal = (if isExiting \<or> hasResultModal then False else True)"

section \<open>The countdown and the end\<close>

datatype intro_phase = Three | Two | One | Go | Done

record intro_step =
  is_phase :: intro_phase
  is_atMs :: num

definition INTRO_STEP_MS :: num where "INTRO_STEP_MS = 600"
definition INTRO_GO_MS :: num where "INTRO_GO_MS = 450"

definition matchIntroSchedule :: "num \<Rightarrow> num \<Rightarrow> intro_step list" where
  "matchIntroSchedule stepMs goMs =
     [\<lparr>is_phase = Three, is_atMs = 0\<rparr>, \<lparr>is_phase = Two, is_atMs = stepMs\<rparr>, \<lparr>is_phase = One, is_atMs = jmul stepMs 2\<rparr>,
      \<lparr>is_phase = Go, is_atMs = jmul stepMs 3\<rparr>, \<lparr>is_phase = Done, is_atMs = jadd (jmul stepMs 3) goMs\<rparr>]"

definition isIntroHolding :: "intro_phase \<Rightarrow> bool" where
  "isIntroHolding p \<longleftrightarrow> p = Three \<or> p = Two \<or> p = One"

record intro_eligibility =
  ie_live :: bool
  ie_training :: bool
  ie_stress :: bool
  ie_elapsed :: num

definition shouldPlayMatchIntro :: "intro_eligibility \<Rightarrow> bool" where
  "shouldPlayMatchIntro i \<longleftrightarrow> \<not> ie_live i \<and> \<not> ie_training i \<and> \<not> ie_stress i \<and> ie_elapsed i \<le> 0"

datatype end_cause = TimeUp | Eliminated

definition END_BEAT_MS :: num where "END_BEAT_MS = 1100"

definition resolveLocalEndCause :: "num \<Rightarrow> num \<Rightarrow> end_cause" where
  "resolveLocalEndCause elapsed timeLimit = (if timeLimit \<le> elapsed then TimeUp else Eliminated)"

definition wholeMatchSeconds :: "js_number \<Rightarrow> num" where
  "wholeMatchSeconds seconds = (case seconds of Finite x \<Rightarrow> max 0 (math_round x) | _ \<Rightarrow> 0)"

end
