(* ===== verification/BotScene.thy ===== *)
theory BotScene
  imports MatchMenu Campaign
begin

text \<open>
  The bot battle of \<open>scenes/GameScene.ts\<close>: what the player's pointer, the ability button, the menu, the frames and
  the answers of the backend do to the match, and the orders the scene records for the server's replay. The live
  branches of the handlers, drawing, sounds, haptics and texts are left out. A pointer is its point in the flat
  world; \<open>Phaser.Math.Distance.Between\<close> is the parameter \<open>between\<close>; the names of the armies that \<open>dispatch.ts\<close> draws
  are the parameter \<open>fresh\<close>. A thrown error is a value, as in the replay.
\<close>

section \<open>The scene\<close>

text \<open>How a battle is settled; a weekly challenge and a campaign level are levels.\<close>

datatype settle_kind = CareerBattle | RealmBattle | LevelBattle | LaneLevelBattle

text \<open>What the launch of the scene fixes for the whole battle.\<close>

record scene_config =
  sg_matchId :: string
  sg_kind :: settle_kind
  sg_training :: bool
  sg_stress :: bool
  sg_difficulty :: bot_difficulty
  sg_rules :: num
  sg_battlefieldId :: battlefield_id
  sg_playerModifiers :: player_modifiers
  sg_enemyModifiers :: "player_modifiers option"
  sg_ticketCommander :: "commander_id option"
  sg_saves :: bool
  sg_tour :: tutorial_options

text \<open>How far the asynchronous settlement of an ended battle has come; an answer is a result or an error.\<close>

datatype settle_phase = NotSettling | Connecting | Awaiting | Answered bool | Settled

datatype button_state = Charging | Ready | Targeting | Used

record saved_battle =
  sv_state :: game_state
  sv_actions :: "pvp_action list"
  sv_accumulators :: "num obj"
  sv_aiNextTick :: num
  sv_remainder :: num

text \<open>
  \<open>gs_sent\<close>, \<open>gs_laneSent\<close> and \<open>gs_recorded\<close> are what was given to the backend, and to the local career when there is
  none, for settlement; \<open>gs_saved\<close> is what the browser keeps.
\<close>

record bot_scene =
  gs_state :: game_state
  gs_accumulators :: "num obj"
  gs_aiNextTick :: num
  gs_remainder :: num
  gs_actions :: "pvp_action list"
  gs_lanes :: "lane_engine option"
  gs_laneActions :: "lane_action list"
  gs_swipeFrom :: "point option"
  gs_selected :: "string list"
  gs_hovered :: "string option"
  gs_lastHovered :: "string option"
  gs_lastDrag :: "point option"
  gs_targeting :: bool
  gs_button :: "button_state option"
  gs_introHolding :: bool
  gs_menu :: match_menu
  gs_modal :: bool
  gs_exiting :: bool
  gs_resultPending :: bool
  gs_resultShown :: bool
  gs_retryCard :: bool
  gs_syncing :: bool
  gs_settlementReady :: bool
  gs_tutorial :: "tutorial option"
  gs_completionPending :: bool
  gs_drawn :: nat
  gs_phase :: settle_phase
  gs_sent :: "(match_status \<times> pvp_action list) list"
  gs_laneSent :: "(match_status \<times> lane_action list) list"
  gs_recorded :: "(match_status \<times> match_stats) list"
  gs_saved :: "saved_battle option"
  gs_closed :: bool

definition TERRITORY_HIT_PADDING :: num where "TERRITORY_HIT_PADDING = 18"
definition TRAINING_TIME_LIMIT_SECONDS :: num where "TRAINING_TIME_LIMIT_SECONDS = 300"

definition playerArmySpeed :: "scene_config \<Rightarrow> num" where
  "playerArmySpeed cfg = pm_armySpeedMultiplier (sg_playerModifiers cfg)"

definition enemyArmySpeed :: "scene_config \<Rightarrow> num" where
  "enemyArmySpeed cfg = (case sg_enemyModifiers cfg of Some m \<Rightarrow> pm_armySpeedMultiplier m | None \<Rightarrow> 1)"

text \<open>Abilities are only there under rules that have them, and never in the training battle.\<close>

definition abilityCommanderId :: "scene_config \<Rightarrow> commander_id option" where
  "abilityCommanderId cfg =
     (if \<not> sg_training cfg \<and> hasCommanderAbilities (Some (sg_rules cfg)) then sg_ticketCommander cfg else None)"

definition battle_modifiers ::
  "bool \<Rightarrow> player_modifiers option \<Rightarrow> player_modifiers option \<Rightarrow> player_career \<Rightarrow> player_modifiers" where
  "battle_modifiers isLevel realm pinned career =
     (if isLevel then LEVEL_PLAYER_MODIFIERS
      else case realm of Some m \<Rightarrow> m
        | None \<Rightarrow> (case pinned of Some m \<Rightarrow> m | None \<Rightarrow> getPlayerUpgradeModifiers career))"

definition createUpgradedMatchState :: "scene_config \<Rightarrow> game_state result" where
  "createUpgradedMatchState cfg =
     rbind (createInitialGameState \<lparr>io_rules = Some (sg_rules cfg), io_timeLimit = None,
         io_playerModifiers = Some (sg_playerModifiers cfg), io_enemyModifiers = sg_enemyModifiers cfg,
         io_battlefieldId = Some (sg_battlefieldId cfg)\<rparr>) (\<lambda>s.
       Inr (if sg_training cfg
            then s\<lparr>g_territories := applyTrainingSandbox (g_territories s), g_timeLimit := TRAINING_TIME_LIMIT_SECONDS\<rparr>
            else s))"

section \<open>Towers under the pointer\<close>

definition pointer_closest ::
  "(num \<Rightarrow> num \<Rightarrow> num \<Rightarrow> num \<Rightarrow> num) \<Rightarrow> point \<Rightarrow> territory \<Rightarrow> (territory \<times> num) option \<Rightarrow> (territory \<times> num) option" where
  "pointer_closest between world t best =
     (let d = between (pt_x world) (pt_y world) (t_x t) (t_y t) in
      if d \<le> jadd (t_radius t) TERRITORY_HIT_PADDING \<and> (case best of None \<Rightarrow> True | Some b \<Rightarrow> d < snd b)
      then Some (t, d) else best)"

definition getTerritoryUnderPointer ::
  "(num \<Rightarrow> num \<Rightarrow> num \<Rightarrow> num \<Rightarrow> num) \<Rightarrow> territory obj \<Rightarrow> point \<Rightarrow> territory option" where
  "getTerritoryUnderPointer between ts world = map_option fst (fold (pointer_closest between world) (obj_values ts) None)"

text \<open>\<open>ui/TerritorySweep.ts\<close>: how far along the segment a tower is, and the towers it crosses in that order.\<close>

definition sweep_along :: "point \<Rightarrow> num \<Rightarrow> num \<Rightarrow> territory \<Rightarrow> num" where
  "sweep_along from dx dy t =
     (let lengthSq = jadd (jmul dx dx) (jmul dy dy) in
      if lengthSq = 0 then 0
      else min 1 (max 0 (jdiv (jadd (jmul (jsub (t_x t) (pt_x from)) dx) (jmul (jsub (t_y t) (pt_y from)) dy)) lengthSq)))"

definition sweep_cmp :: "territory \<times> num \<Rightarrow> territory \<times> num \<Rightarrow> num" where
  "sweep_cmp a b = cmp_or (jsub (snd a) (snd b)) (if t_id (fst a) < t_id (fst b) then -1 else 1)"

definition territoriesCrossedBySegment ::
  "hypot_fn \<Rightarrow> territory list \<Rightarrow> point \<Rightarrow> point \<Rightarrow> num \<Rightarrow> territory list" where
  "territoriesCrossedBySegment hyp ts from to padding =
     (let dx = jsub (pt_x to) (pt_x from); dy = jsub (pt_y to) (pt_y from);
          crossed = List.map_filter (\<lambda>t.
            let along = sweep_along from dx dy t;
                closest = hyp (jsub (jadd (pt_x from) (jmul dx along)) (t_x t)) (jsub (jadd (pt_y from) (jmul dy along)) (t_y t))
            in if closest \<le> jadd (t_radius t) padding then Some (t, along) else None) ts
      in map fst (js_sort sweep_cmp crossed))"

section \<open>Selecting and dragging\<close>

definition cancelDragSelection :: "bot_scene \<Rightarrow> bot_scene" where
  "cancelDragSelection sc = sc\<lparr>gs_selected := [], gs_hovered := None, gs_lastHovered := None\<rparr>"

definition setAbilityTargeting :: "bool \<Rightarrow> bot_scene \<Rightarrow> bot_scene" where
  "setAbilityTargeting on sc =
     (let sc1 = sc\<lparr>gs_targeting := on\<rparr> in if on then cancelDragSelection sc1 else sc1)"

definition isSelfTargetingAbility :: "scene_config \<Rightarrow> bot_scene \<Rightarrow> bool" where
  "isSelfTargetingAbility cfg sc = (case abilityCommanderId cfg of
       Some c \<Rightarrow> gs_targeting sc \<and> (case COMMANDER_ABILITY c of Some a \<Rightarrow> \<not> abilityNeedsTarget a | None \<Rightarrow> True)
     | None \<Rightarrow> False)"

definition linkFriendlySource :: "territory option \<Rightarrow> bot_scene \<Rightarrow> bot_scene" where
  "linkFriendlySource t sc = (case t of
       None \<Rightarrow> sc
     | Some t \<Rightarrow> if gs_targeting sc \<or> t_owner t \<noteq> Player \<or> t_units t \<le> 1 \<or> t_id t \<in> set (gs_selected sc) then sc
         else sc\<lparr>gs_selected := gs_selected sc @ [t_id t]\<rparr>)"

definition startDragFromTerritory :: "string \<Rightarrow> bot_scene \<Rightarrow> bot_scene" where
  "startDragFromTerritory i sc =
     (if gs_exiting sc \<or> isOpen (gs_menu sc) \<or> g_status (gs_state sc) \<noteq> Playing then sc
      else case obj_get (g_territories (gs_state sc)) i of
        None \<Rightarrow> sc
      | Some t \<Rightarrow> if t_owner t = Player \<and> 1 < t_units t
          then sc\<lparr>gs_selected := [i], gs_lastHovered := None, gs_lastDrag := None, gs_hovered := None\<rparr> else sc)"

section \<open>The training battle\<close>

text \<open>
  Running a callback of the controller: when it completes the training, the scene starts to save that, once.
\<close>

definition handleTrainingCompleted :: "bot_scene \<Rightarrow> bot_scene" where
  "handleTrainingCompleted sc =
     (if gs_completionPending sc \<or> gs_exiting sc then sc else sc\<lparr>gs_completionPending := True\<rparr>)"

definition with_tutorial :: "(tutorial \<Rightarrow> tutorial) \<Rightarrow> bot_scene \<Rightarrow> bot_scene" where
  "with_tutorial f sc = (case gs_tutorial sc of
       None \<Rightarrow> sc
     | Some t \<Rightarrow>
         let t' = f t; sc1 = sc\<lparr>gs_tutorial := Some t'\<rparr>
         in if Completed \<in> set (drop (length (tc_events t)) (tc_events t')) then handleTrainingCompleted sc1 else sc1)"

text \<open>\<open>initTrainingBattle\<close>: a player who has done everything goes on with saving it.\<close>

definition initTrainingBattle :: "scene_config \<Rightarrow> bot_scene \<Rightarrow> bot_scene" where
  "initTrainingBattle cfg sc =
     (let sc1 = sc\<lparr>gs_tutorial := Some (new_tutorial (sg_tour cfg))\<rparr>
      in if to_resumeCompleted (sg_tour cfg) then handleTrainingCompleted sc1 else sc1)"

definition resetTrainingBattlefield :: "scene_config \<Rightarrow> bot_scene \<Rightarrow> bot_scene result" where
  "resetTrainingBattlefield cfg sc = rbind (createUpgradedMatchState cfg) (\<lambda>s.
     Inr (sc\<lparr>gs_state := s, gs_accumulators := [], gs_aiNextTick := getBotAiTickSeconds (sg_difficulty cfg),
       gs_remainder := 0, gs_selected := [], gs_hovered := None, gs_lastHovered := None\<rparr>))"

text \<open>What the arrival of an army means to the training; the rest of the handler draws it.\<close>

definition onCombatArrival :: "combat_result \<Rightarrow> bot_scene \<Rightarrow> bot_scene result" where
  "onCombatArrival r sc =
     (case obj_get (g_territories (gs_state sc)) (c_targetId r) of
        None \<Rightarrow> if c_routeInterrupted r then Inl TypeError else Inr sc
      | Some _ \<Rightarrow> Inr (if c_captured r
          then with_tutorial (onCapture (c_targetId r) (c_attackerOwner r = Player)) sc else sc))"

section \<open>Orders\<close>

text \<open>The match clock in milliseconds, as the actions record it.\<close>

definition recorded_seconds :: "num \<Rightarrow> num" where
  "recorded_seconds elapsed = jdiv (math_round (jmul elapsed 1000)) 1000"

definition record_dispatch :: "num \<Rightarrow> army \<Rightarrow> pvp_action list \<Rightarrow> pvp_action list" where
  "record_dispatch at_seconds m actions =
     (if MAX_PVP_ACTIONS \<le> length actions then actions
      else actions @ [\<lparr>pa_sequence = Finite (of_nat (length actions)), pa_at = Finite at_seconds,
        pa_sourceId = a_sourceId m, pa_targetId = armyDestination m None, pa_kind = None\<rparr>])"

definition recordDispatchActions :: "army list \<Rightarrow> bot_scene \<Rightarrow> bot_scene" where
  "recordDispatchActions ms sc =
     sc\<lparr>gs_actions := fold (record_dispatch (recorded_seconds (g_elapsed (gs_state sc)))) ms (gs_actions sc)\<rparr>"

definition object_assign :: "'v obj \<Rightarrow> 'v obj \<Rightarrow> 'v obj" where
  "object_assign ts us = fold (\<lambda>(k, v). obj_set k v) us ts"

text \<open>The client stops before the replay's limit: the towers that would send are counted by the preview.\<close>

definition dispatch_selected ::
  "hypot_fn \<Rightarrow> (nat \<Rightarrow> string) \<Rightarrow> scene_config \<Rightarrow> string list \<Rightarrow> string \<Rightarrow> territory list \<Rightarrow> territory
     \<Rightarrow> bot_scene \<Rightarrow> bot_scene result" where
  "dispatch_selected hyp fresh cfg sourceIds targetId sources target sc =
     (let s = gs_state sc; speed = Finite (playerArmySpeed cfg) in
      rbind (previewOrder hyp s sourceIds targetId Player speed 1) (\<lambda>preview.
        if MAX_PVP_ACTIONS < length (gs_actions sc) + length (op_orders preview) then Inr sc
        else rbind (dispatchMultipleArmies hyp sources target Player (1 / 2) speed (\<lambda>k. fresh (gs_drawn sc + k)) (Some s))
          (\<lambda>sent.
            if md_armies sent = [] then Inr sc
            else
              let s1 = s\<lparr>g_territories := object_assign (g_territories s) (md_updatedSources sent),
                    g_armies := g_armies s @ md_armies sent,
                    g_stats := (g_stats s)\<lparr>ms_playerUnitsDispatched :=
                      jadd (ms_playerUnitsDispatched (g_stats s)) (md_total sent)\<rparr>\<rparr>;
                  sc1 = recordDispatchActions (md_armies sent)
                    (sc\<lparr>gs_state := s1, gs_drawn := gs_drawn sc + length (md_armies sent)\<rparr>);
                  sc2 = with_tutorial (onDispatch (map a_sourceId (md_armies sent))) sc1
              in Inr (if t_owner target = Player then with_tutorial onReinforcement sc2 else sc2))))"

text \<open>An illegal choice leaves the ability armed; the name of its army counts the recorded actions.\<close>

definition tryUseAbility ::
  "hypot_fn \<Rightarrow> scene_config \<Rightarrow> string \<Rightarrow> string \<Rightarrow> bot_scene \<Rightarrow> bot_scene result" where
  "tryUseAbility hyp cfg sourceId targetId sc =
     (if abilityCommanderId cfg = None \<or> MAX_PVP_ACTIONS \<le> length (gs_actions sc) then Inr sc
      else rbind (applyPlayerAbility hyp (gs_state sc) (abilityCommanderId cfg) sourceId targetId (playerArmySpeed cfg)
          (''player_ability_'' @ nat_string (length (gs_actions sc)))) (\<lambda>r. Inr (case r of
        None \<Rightarrow> sc
      | Some a \<Rightarrow> sc\<lparr>gs_state := ar_state a,
          gs_actions := gs_actions sc @ [\<lparr>pa_sequence = Finite (of_nat (length (gs_actions sc))),
            pa_at = Finite (recorded_seconds (g_elapsed (ar_state a))), pa_sourceId = sourceId,
            pa_targetId = targetId, pa_kind = Some ''ability''\<rparr>],
          gs_targeting := False\<rparr>)))"

section \<open>Lane battles\<close>

definition recordLaneAction :: "string \<Rightarrow> string \<Rightarrow> string \<Rightarrow> bot_scene \<Rightarrow> bot_scene" where
  "recordLaneAction kind sourceId targetId sc =
     sc\<lparr>gs_laneActions := gs_laneActions sc @ [\<lparr>lx_sequence = Finite (of_nat (length (gs_laneActions sc))),
       lx_at = Finite (recorded_seconds (g_elapsed (gs_state sc))), lx_kind = kind, lx_sourceId = sourceId,
       lx_targetId = targetId\<rparr>]\<rparr>"

definition openLanes :: "hypot_fn \<Rightarrow> string list \<Rightarrow> string \<Rightarrow> bot_scene \<Rightarrow> bot_scene result" where
  "openLanes hyp sourceIds targetId sc = (case gs_lanes sc of
       None \<Rightarrow> Inr sc
     | Some e \<Rightarrow>
         if MAX_LANE_ACTIONS < length (gs_laneActions sc) + length sourceIds then Inr sc
         else rbind (engineOpenFor hyp e (gs_state sc) sourceIds targetId) (\<lambda>r.
           Inr (fold (\<lambda>i. recordLaneAction ''lane'' i targetId) (of_opened r) (sc\<lparr>gs_lanes := Some (of_engine r)\<rparr>))))"

text \<open>The limit is looked at once for all lanes the finger crosses.\<close>

definition swipeCutLanes :: "point \<Rightarrow> bot_scene \<Rightarrow> bot_scene" where
  "swipeCutLanes to sc = (case (gs_lanes sc, gs_swipeFrom sc) of
       (Some e, Some from) \<Rightarrow>
         let sc1 = sc\<lparr>gs_swipeFrom := Some to\<rparr>
         in if length (gs_laneActions sc) < MAX_LANE_ACTIONS then
              let r = cutBySwipe e (gs_state sc) from to
              in fold (\<lambda>l. recordLaneAction ''cut'' (la_sourceId l) (la_targetId l)) (snd r) (sc1\<lparr>gs_lanes := Some (fst r)\<rparr>)
            else sc1
     | _ \<Rightarrow> sc)"

section \<open>The pointer\<close>

definition release_on ::
  "hypot_fn \<Rightarrow> (nat \<Rightarrow> string) \<Rightarrow> scene_config \<Rightarrow> string list \<Rightarrow> string \<Rightarrow> bot_scene \<Rightarrow> bot_scene result" where
  "release_on hyp fresh cfg sourceIds targetId sc =
     (let ts = g_territories (gs_state sc); sources = List.map_filter (obj_get ts) sourceIds in
      case obj_get ts targetId of
        None \<Rightarrow> Inr sc
      | Some target \<Rightarrow>
          if sources = [] then Inr sc
          else if gs_lanes sc \<noteq> None then openLanes hyp sourceIds targetId sc
          else if gs_targeting sc then tryUseAbility hyp cfg (hd sourceIds) targetId sc
          else dispatch_selected hyp fresh cfg sourceIds targetId sources target sc)"

definition handlePointerRelease ::
  "hypot_fn \<Rightarrow> (nat \<Rightarrow> string) \<Rightarrow> scene_config \<Rightarrow> bot_scene \<Rightarrow> bot_scene result" where
  "handlePointerRelease hyp fresh cfg sc =
     (if gs_selected sc = [] then Inr sc
      else
        let sc1 = sc\<lparr>gs_selected := [], gs_hovered := None, gs_lastHovered := None\<rparr>
        in case gs_hovered sc of
            None \<Rightarrow> Inr sc1
          | Some targetId \<Rightarrow> if targetId \<in> set (gs_selected sc) then Inr sc1
              else release_on hyp fresh cfg (gs_selected sc) targetId sc1)"

definition pointerDown ::
  "hypot_fn \<Rightarrow> (num \<Rightarrow> num \<Rightarrow> num \<Rightarrow> num \<Rightarrow> num) \<Rightarrow> scene_config \<Rightarrow> point \<Rightarrow> bot_scene \<Rightarrow> bot_scene result" where
  "pointerDown hyp between cfg world sc =
     (if gs_exiting sc \<or> gs_introHolding sc \<or> isOpen (gs_menu sc) \<or> g_status (gs_state sc) \<noteq> Playing
         \<or> gs_selected sc \<noteq> [] then Inr sc
      else
        let under = getTerritoryUnderPointer between (g_territories (gs_state sc)) world
        in if isSelfTargetingAbility cfg sc then (case under of
              Some t \<Rightarrow> tryUseAbility hyp cfg (t_id t) (t_id t) sc
            | None \<Rightarrow> Inr (setAbilityTargeting False sc))
          else Inr (case under of
              Some t \<Rightarrow> startDragFromTerritory (t_id t) sc
            | None \<Rightarrow> if gs_lanes sc \<noteq> None then sc\<lparr>gs_swipeFrom := Some world\<rparr> else sc))"

text \<open>The towers the finger passed since the last sample, and a friendly tower it has left, join the strike.\<close>

definition drag_sources :: "hypot_fn \<Rightarrow> territory option \<Rightarrow> point \<Rightarrow> bot_scene \<Rightarrow> bot_scene" where
  "drag_sources hyp hovered world sc =
     (let ts = g_territories (gs_state sc);
          previous = (case gs_lastDrag sc of Some p \<Rightarrow> p | None \<Rightarrow> world);
          crossed = territoriesCrossedBySegment hyp (obj_values ts) previous world TERRITORY_HIT_PADDING;
          sc1 = fold (\<lambda>t sc. if Some (t_id t) \<noteq> map_option t_id hovered then linkFriendlySource (Some t) sc else sc)
            crossed (sc\<lparr>gs_lastDrag := Some world\<rparr>)
      in case gs_lastHovered sc1 of
          None \<Rightarrow> sc1
        | Some i \<Rightarrow> if map_option t_id hovered \<noteq> Some i
            then (linkFriendlySource (obj_get ts i) sc1)\<lparr>gs_lastHovered := None\<rparr> else sc1)"

definition hover_target :: "territory option \<Rightarrow> bot_scene \<Rightarrow> bot_scene" where
  "hover_target hovered sc = (case hovered of
       None \<Rightarrow> sc\<lparr>gs_hovered := None\<rparr>
     | Some t \<Rightarrow> if t_id t \<in> set (gs_selected sc) then sc\<lparr>gs_hovered := None\<rparr>
         else if t_owner t = Player then sc\<lparr>gs_hovered := Some (t_id t), gs_lastHovered := Some (t_id t)\<rparr>
         else sc\<lparr>gs_hovered := Some (t_id t)\<rparr>)"

text \<open>When \<open>renderDragTrajectory\<close> shows the outcome of an order, which the training asks for.\<close>

definition preview_shown :: "hypot_fn \<Rightarrow> scene_config \<Rightarrow> bot_scene \<Rightarrow> bot_scene result" where
  "preview_shown hyp cfg sc =
     (let s = gs_state sc; ts = g_territories s in
      if List.map_filter (obj_get ts) (gs_selected sc) = [] then Inr sc
      else case (case gs_hovered sc of None \<Rightarrow> None | Some i \<Rightarrow> obj_get ts i) of
        None \<Rightarrow> Inr sc
      | Some target \<Rightarrow>
          if usesTacticalRules (g_rules s) then
            rbind (previewOrder hyp s (gs_selected sc) (t_id target) Player (Finite (playerArmySpeed cfg)) 1) (\<lambda>preview.
              Inr (if op_orders preview \<noteq> [] then with_tutorial onPreviewShown sc else sc))
          else Inr (if t_owner target \<noteq> Player then with_tutorial onPreviewShown sc else sc))"

definition pointerMove ::
  "hypot_fn \<Rightarrow> (num \<Rightarrow> num \<Rightarrow> num \<Rightarrow> num \<Rightarrow> num) \<Rightarrow> scene_config \<Rightarrow> point \<Rightarrow> bot_scene \<Rightarrow> bot_scene result" where
  "pointerMove hyp between cfg world sc =
     (let sc1 = (if gs_lanes sc \<noteq> None \<and> gs_swipeFrom sc \<noteq> None \<and> gs_selected sc = [] then swipeCutLanes world sc else sc) in
      if gs_exiting sc1 \<or> isOpen (gs_menu sc1) \<or> gs_selected sc1 = [] then Inr sc1
      else
        let hovered = getTerritoryUnderPointer between (g_territories (gs_state sc1)) world
        in preview_shown hyp cfg (hover_target hovered (drag_sources hyp hovered world sc1)))"

definition pointerUp ::
  "hypot_fn \<Rightarrow> (nat \<Rightarrow> string) \<Rightarrow> scene_config \<Rightarrow> bot_scene \<Rightarrow> bot_scene result" where
  "pointerUp hyp fresh cfg sc =
     (let sc1 = sc\<lparr>gs_swipeFrom := None\<rparr> in
      if gs_exiting sc1 \<or> isOpen (gs_menu sc1) then Inr (cancelDragSelection sc1)
      else handlePointerRelease hyp fresh cfg sc1)"

section \<open>The ability button\<close>

definition button_update :: "num \<Rightarrow> bool \<Rightarrow> bool \<Rightarrow> button_state" where
  "button_update elapsed used targeting =
     (if used then Used else if targeting then Targeting
      else if ability_unlockSeconds \<le> jadd elapsed CLOCK_EPSILON then Ready else Charging)"

definition updateAbilityPresentation :: "bot_scene \<Rightarrow> bot_scene" where
  "updateAbilityPresentation sc = sc\<lparr>gs_button := map_option (\<lambda>_. button_update (g_elapsed (gs_state sc))
     (g_playerAbilityUsed (gs_state sc)) (gs_targeting sc)) (gs_button sc)\<rparr>"

definition abilityPressed :: "bot_scene \<Rightarrow> bot_scene" where
  "abilityPressed sc =
     (if gs_exiting sc \<or> isOpen (gs_menu sc) \<or> g_status (gs_state sc) \<noteq> Playing then sc
      else case gs_button sc of
        Some Ready \<Rightarrow> setAbilityTargeting True sc
      | Some Targeting \<Rightarrow> setAbilityTargeting False sc
      | _ \<Rightarrow> sc)"

section \<open>The menu and leaving\<close>

definition returnToMenu :: "bot_scene \<Rightarrow> bot_scene" where
  "returnToMenu sc =
     (if gs_exiting sc then sc
      else sc\<lparr>gs_exiting := True, gs_resultPending := False, gs_resultShown := False, gs_retryCard := False,
        gs_syncing := False, gs_modal := False\<rparr>)"

definition handleMatchMenuStateChange :: "menu_state \<Rightarrow> bot_scene \<Rightarrow> bot_scene" where
  "handleMatchMenuStateChange ms sc = (case ms of
       MenuClosed \<Rightarrow> sc\<lparr>gs_modal := False\<rparr>
     | _ \<Rightarrow> (cancelDragSelection (sc\<lparr>gs_modal := False\<rparr>))\<lparr>gs_modal := True\<rparr>)"

text \<open>A realm attack is first given up at the backend.\<close>

definition handleMatchExitConfirmed :: "scene_config \<Rightarrow> bot_scene \<Rightarrow> bot_scene" where
  "handleMatchExitConfirmed cfg sc =
     (let sc1 = sc\<lparr>gs_modal := False\<rparr>;
          sc2 = (if sg_training cfg then with_tutorial skip sc1 else sc1)
      in if sg_kind cfg = RealmBattle then sc2 else returnToMenu sc2)"

definition menu_effect_in :: "scene_config \<Rightarrow> menu_effect \<Rightarrow> bot_scene \<Rightarrow> bot_scene" where
  "menu_effect_in cfg e sc = (case e of
       StateShown ms \<Rightarrow> handleMatchMenuStateChange ms sc
     | ExitConfirmed \<Rightarrow> handleMatchExitConfirmed cfg sc
     | _ \<Rightarrow> sc)"

definition with_menu :: "scene_config \<Rightarrow> (match_menu \<Rightarrow> match_menu) \<Rightarrow> bot_scene \<Rightarrow> bot_scene" where
  "with_menu cfg f sc =
     (let m = gs_menu sc; m' = f m
      in fold (menu_effect_in cfg) (drop (length (mm_effects m)) (mm_effects m')) (sc\<lparr>gs_menu := m'\<rparr>))"

definition scene_menu_deps :: "scene_config \<Rightarrow> menu_deps" where
  "scene_menu_deps cfg = \<lparr>md_live = False, md_matchId = sg_matchId cfg, md_confirmation = None\<rparr>"

text \<open>Asking the menu whether the match is paused closes a menu whose modal is gone.\<close>

definition scene_paused :: "scene_config \<Rightarrow> bot_scene \<Rightarrow> bool \<times> bot_scene" where
  "scene_paused cfg sc =
     (fst (isPaused (scene_menu_deps cfg) (gs_modal sc) (gs_menu sc)),
      with_menu cfg (\<lambda>m. snd (isPaused (scene_menu_deps cfg) (gs_modal sc) m)) sc)"

text \<open>The platform's back button leaves a result or the wait for it; before that it works the menu.\<close>

definition backButtonPressed :: "scene_config \<Rightarrow> bot_scene \<Rightarrow> bot_scene" where
  "backButtonPressed cfg sc =
     (if gs_exiting sc then sc
      else if gs_resultShown sc \<or> gs_syncing sc then returnToMenu sc
      else with_menu cfg (handleBackButton (scene_menu_deps cfg)) sc)"

section \<open>Frames\<close>

definition bot_dispatch ::
  "hypot_fn \<Rightarrow> (nat \<Rightarrow> string) \<Rightarrow> scene_config \<Rightarrow> ai_move \<Rightarrow> bot_scene \<Rightarrow> bot_scene result" where
  "bot_dispatch hyp fresh cfg mv sc =
     (let s = gs_state sc; ts = g_territories s in
      rbind (defined_or_type_error (obj_get ts (am_from mv))) (\<lambda>source.
        rbind (defined_or_type_error (obj_get ts (am_to mv))) (\<lambda>target.
          rbind (dispatchArmy hyp source target Enemy (1 / 2) (fresh (gs_drawn sc)) (Finite (enemyArmySpeed cfg)) (Some s)) (\<lambda>r.
            Inr (case r of
                DispatchFailed _ \<Rightarrow> sc
              | Dispatched left m \<Rightarrow> sc\<lparr>gs_state := s\<lparr>g_territories := obj_set (am_from mv) left ts,
                  g_armies := g_armies s @ [m],
                  g_stats := (g_stats s)\<lparr>ms_enemyUnitsDispatched := jadd (ms_enemyUnitsDispatched (g_stats s)) (a_units m)\<rparr>\<rparr>,
                  gs_drawn := Suc (gs_drawn sc)\<rparr>)))))"

definition bot_spends_ability ::
  "hypot_fn \<Rightarrow> scene_config \<Rightarrow> ai_move list \<Rightarrow> bot_scene \<Rightarrow> (bot_scene \<times> ai_move list) result" where
  "bot_spends_ability hyp cfg moves sc =
     (let s = gs_state sc; commander = BOT_COMMANDER (sg_difficulty cfg) in
      rbind (chooseBotAbility hyp s Enemy commander moves) (\<lambda>choice. case choice of
          None \<Rightarrow> Inr (sc, moves)
        | Some c \<Rightarrow> rbind (applyTeamAbility hyp s Enemy commander (bc_sourceId c) (bc_targetId c) (enemyArmySpeed cfg)
              (''enemy_ability_'' @ nat_string (length (g_armies s)))) (\<lambda>ability. Inr (case ability of
            Some a \<Rightarrow> if commander \<noteq> None then (sc\<lparr>gs_state := ar_state a\<rparr>, bc_moves c) else (sc, moves)
          | None \<Rightarrow> (sc, moves)))))"

text \<open>Under the rules before the tactical ones the bot gives one order, without roads.\<close>

definition bot_classic_move ::
  "hypot_fn \<Rightarrow> (nat \<Rightarrow> string) \<Rightarrow> scene_config \<Rightarrow> bot_scene \<Rightarrow> bot_scene result" where
  "bot_classic_move hyp fresh cfg sc =
     (let s = gs_state sc; ts = g_territories s in
      case evaluateAiMove hyp ts Enemy 8 of
        None \<Rightarrow> Inr sc
      | Some mv \<Rightarrow> (case (obj_get ts (am_from mv), obj_get ts (am_to mv)) of
          (Some source, Some target) \<Rightarrow>
            rbind (dispatchArmy hyp source target Enemy (1 / 2) (fresh (gs_drawn sc)) (Finite (enemyArmySpeed cfg)) None) (\<lambda>r.
              Inr (case r of
                  DispatchFailed _ \<Rightarrow> sc
                | Dispatched left m \<Rightarrow> sc\<lparr>gs_state := s\<lparr>g_territories := obj_set (t_id source) left ts,
                    g_armies := g_armies s @ [m],
                    g_stats := (g_stats s)\<lparr>ms_enemyUnitsDispatched := jadd (ms_enemyUnitsDispatched (g_stats s)) (a_units m)\<rparr>\<rparr>,
                    gs_drawn := Suc (gs_drawn sc)\<rparr>))
        | _ \<Rightarrow> Inr sc))"

definition executeAiTurn ::
  "hypot_fn \<Rightarrow> (nat \<Rightarrow> string) \<Rightarrow> scene_config \<Rightarrow> bot_scene \<Rightarrow> bot_scene result" where
  "executeAiTurn hyp fresh cfg sc =
     (if usesTacticalRules (g_rules (gs_state sc)) then
        rbind (evaluateTacticalMoves hyp (gs_state sc) Enemy (Finite (enemyArmySpeed cfg))) (\<lambda>moves.
          rbind (bot_spends_ability hyp cfg moves sc) (\<lambda>(sc, moves).
            fold_res (bot_dispatch hyp fresh cfg) moves sc))
      else bot_classic_move hyp fresh cfg sc)"

text \<open>One tick of the clock: the step of the lanes or of the match, its arrivals, and the bot when its turn is due.\<close>

definition match_step :: "hypot_fn \<Rightarrow> bot_scene \<Rightarrow> (bot_scene \<times> combat_result list) run" where
  "match_step hyp sc = (case gs_lanes sc of
       Some e \<Rightarrow> run_bind (engineStep hyp e (gs_state sc) (gs_accumulators sc) PVP_SIMULATION_TICK_SECONDS) (\<lambda>x.
         Some (Inr (sc\<lparr>gs_state := es_state x, gs_accumulators := es_accumulators x, gs_lanes := Some (es_engine x)\<rparr>,
           es_captures x)))
     | None \<Rightarrow> Some (rbind (stepSimulation hyp (gs_state sc) (gs_accumulators sc) PVP_SIMULATION_TICK_SECONDS) (\<lambda>x.
         Inr (sc\<lparr>gs_state := sr_state x, gs_accumulators := sr_accumulators x\<rparr>, sr_arrivals x))))"

definition bot_turn_due :: "bot_scene \<Rightarrow> bool" where
  "bot_turn_due sc \<longleftrightarrow> gs_lanes sc = None \<and> g_status (gs_state sc) = Playing
     \<and> jsub (gs_aiNextTick sc) CLOCK_EPSILON \<le> g_elapsed (gs_state sc)"

definition bot_match_tick ::
  "hypot_fn \<Rightarrow> (nat \<Rightarrow> string) \<Rightarrow> scene_config \<Rightarrow> bot_scene \<Rightarrow> bot_scene run" where
  "bot_match_tick hyp fresh cfg sc =
     run_bind (match_step hyp sc) (\<lambda>(sc1, arrivals).
       let s = gs_state sc1;
           sc2 = (if sg_training cfg
             then sc1\<lparr>gs_state := s\<lparr>g_territories := holdTrainingEnemyBase (g_territories s)\<rparr>\<rparr> else sc1)
       in Some (rbind (fold_res onCombatArrival arrivals sc2) (\<lambda>sc3.
         if bot_turn_due sc3 then
           let sc4 = sc3\<lparr>gs_aiNextTick := jadd (gs_aiNextTick sc3) (getBotAiTickSeconds (sg_difficulty cfg))\<rparr>
           in if sg_training cfg then Inr sc4 else executeAiTurn hyp fresh cfg sc4
         else Inr sc3)))"

primrec bot_match_ticks ::
  "nat \<Rightarrow> hypot_fn \<Rightarrow> (nat \<Rightarrow> string) \<Rightarrow> scene_config \<Rightarrow> bot_scene \<Rightarrow> bot_scene run" where
  "bot_match_ticks 0 hyp fresh cfg sc = Some (Inr sc)"
| "bot_match_ticks (Suc n) hyp fresh cfg sc =
     (if g_status (gs_state sc) = Playing
      then run_bind (bot_match_tick hyp fresh cfg sc) (bot_match_ticks n hyp fresh cfg) else Some (Inr sc))"

text \<open>A frame runs at most 20 ticks; what a long frame leaves over stays in the remainder.\<close>

definition stepBotMatch ::
  "hypot_fn \<Rightarrow> (nat \<Rightarrow> string) \<Rightarrow> scene_config \<Rightarrow> num \<Rightarrow> bot_scene \<Rightarrow> bot_scene run" where
  "stepBotMatch hyp fresh cfg deltaSeconds sc =
     (if deltaSeconds \<le> 0 then Some (Inr sc)
      else
        let budget = consumeSimulationTicks (Finite (if gs_remainder sc < 0 then 0 else gs_remainder sc))
              (Finite (min deltaSeconds (1 / 4)));
            ticks = min (tb_ticks budget) 20
        in run_bind (bot_match_ticks (nat \<lfloor>ticks\<rfloor>) hyp fresh cfg (sc\<lparr>gs_remainder := tb_remainder budget\<rparr>)) (\<lambda>sc1.
          Some (Inr (if ticks < tb_ticks budget
            then sc1\<lparr>gs_remainder := jadd (gs_remainder sc1) (jmul (jsub (tb_ticks budget) ticks) PVP_SIMULATION_TICK_SECONDS)\<rparr>
            else sc1))))"

text \<open>
  The end of a match starts its settlement, unless the training or a benchmark is running. A level that was not won
  has nothing to settle.
\<close>

definition finalizeMatch :: "scene_config \<Rightarrow> bot_scene \<Rightarrow> bot_scene" where
  "finalizeMatch cfg sc =
     (if sg_training cfg then sc
      else if \<not> canFinalizeBotSettlement (sg_stress cfg) False then sc
      else sc\<lparr>gs_phase := Connecting\<rparr>)"

definition endMatch :: "scene_config \<Rightarrow> bot_scene \<Rightarrow> bot_scene" where
  "endMatch cfg sc =
     (if sg_training cfg then sc
      else if \<not> canInitiateBotSettlement (gs_exiting sc) (gs_resultShown sc) (gs_resultPending sc) (sg_stress cfg) False then sc
      else
        let sc1 = sc\<lparr>gs_resultPending := True, gs_settlementReady := False\<rparr>
        in if sg_kind cfg = CareerBattle \<or> sg_kind cfg = RealmBattle then finalizeMatch cfg sc1
          else sc1\<lparr>gs_phase := (if g_status (gs_state sc) = Victory then Connecting else Answered True)\<rparr>)"

definition training_paused :: "bot_scene \<Rightarrow> bool" where
  "training_paused sc = (case gs_tutorial sc of
       Some t \<Rightarrow> shouldPauseSimulation t \<or> tc_isCompleted t \<or> gs_completionPending sc
     | None \<Rightarrow> gs_completionPending sc)"

definition match_over :: "scene_config \<Rightarrow> bot_scene \<Rightarrow> bot_scene result" where
  "match_over cfg sc =
     (if g_status (gs_state sc) = Playing then Inr sc
      else if sg_training cfg then (if gs_completionPending sc then Inr sc else resetTrainingBattlefield cfg sc)
      else Inr (endMatch cfg sc))"

definition update_frame ::
  "hypot_fn \<Rightarrow> (nat \<Rightarrow> string) \<Rightarrow> scene_config \<Rightarrow> js_number \<Rightarrow> bot_scene \<Rightarrow> bot_scene run" where
  "update_frame hyp fresh cfg delta sc = (case delta of
       Finite d \<Rightarrow>
         if d \<le> 0 then Some (Inr sc)
         else
           let deltaSeconds = jdiv d 1000;
               sc1 = updateAbilityPresentation sc;
               sc2 = (if \<exists>t \<in> set_option (gs_tutorial sc1). isActive t
                 then with_tutorial (onTimerTick (Finite deltaSeconds)) sc1 else sc1)
           in run_bind
             (if g_status (gs_state sc2) \<noteq> Playing then Some (Inr sc2)
              else let (paused, sc3) = scene_paused cfg sc2 in
                if paused \<or> training_paused sc2 \<or> gs_introHolding sc2 then Some (Inr sc3)
                else run_bind (stepBotMatch hyp fresh cfg deltaSeconds sc3) (\<lambda>sc4. Some (match_over cfg sc4)))
             (\<lambda>sc5. Some (Inr (snd (scene_paused cfg sc5))))
     | _ \<Rightarrow> Some (Inr sc))"

section \<open>Settlement\<close>

definition localMatchStats :: "game_state \<Rightarrow> match_stats" where
  "localMatchStats s = (g_stats s)\<lparr>ms_duration := math_floor (g_elapsed s)\<rparr>"

text \<open>
  Once the connection is settled the recorded orders go out. Without a backend a career battle is recorded locally
  where that is allowed, and is an error elsewhere.
\<close>

definition settlement_goes_out :: "scene_config \<Rightarrow> bool \<Rightarrow> bool \<Rightarrow> bot_scene \<Rightarrow> bot_scene" where
  "settlement_goes_out cfg online fallbackAllowed sc =
     (if gs_phase sc \<noteq> Connecting then sc
      else
        let status = g_status (gs_state sc);
            sent = sc\<lparr>gs_phase := Awaiting, gs_sent := gs_sent sc @ [(status, gs_actions sc)]\<rparr>
        in case sg_kind cfg of
            CareerBattle \<Rightarrow>
              if online then sent
              else if fallbackAllowed
                then sc\<lparr>gs_phase := Answered True, gs_settlementReady := True,
                  gs_recorded := gs_recorded sc @ [(status, localMatchStats (gs_state sc))]\<rparr>
              else sc\<lparr>gs_phase := Answered False, gs_settlementReady := True\<rparr>
          | LaneLevelBattle \<Rightarrow> sc\<lparr>gs_phase := Awaiting, gs_laneSent := gs_laneSent sc @ [(status, gs_laneActions sc)]\<rparr>
          | _ \<Rightarrow> sent)"

text \<open>The end stamp is over before the answer is there.\<close>

definition end_beat_over :: "scene_config \<Rightarrow> bot_scene \<Rightarrow> bot_scene" where
  "end_beat_over cfg sc =
     (if (sg_kind cfg = CareerBattle \<or> sg_kind cfg = RealmBattle) \<and> gs_resultPending sc \<and> \<not> gs_settlementReady sc
         \<and> \<not> gs_exiting sc \<and> \<not> gs_resultShown sc
      then sc\<lparr>gs_syncing := True\<rparr> else sc)"

text \<open>The answer. A settled realm attack is not kept any longer; a level shows its result whatever the answer.\<close>

definition answer_arrived :: "scene_config \<Rightarrow> bool \<Rightarrow> bot_scene \<Rightarrow> bot_scene" where
  "answer_arrived cfg ok sc =
     (if gs_phase sc \<noteq> Awaiting then sc
      else case sg_kind cfg of
          CareerBattle \<Rightarrow> sc\<lparr>gs_phase := Answered ok, gs_settlementReady := True\<rparr>
        | RealmBattle \<Rightarrow>
            let sc1 = sc\<lparr>gs_phase := Answered ok, gs_settlementReady := True\<rparr>
            in if ok then sc1\<lparr>gs_closed := True, gs_saved := None\<rparr> else sc1
        | _ \<Rightarrow> sc\<lparr>gs_phase := Answered True\<rparr>)"

text \<open>\<open>showSettlementError\<close>: the card with the retry button.\<close>

definition showSettlementError :: "bot_scene \<Rightarrow> bot_scene" where
  "showSettlementError sc = sc\<lparr>gs_resultShown := True, gs_retryCard := True\<rparr>"

text \<open>
  A result, or the error that replaces it, is shown after the end stamp. A realm attack takes over the verdict the
  server answers, which is the parameter \<open>reply\<close> of the orders sent.
\<close>

definition result_shown :: "(pvp_action list \<Rightarrow> match_status) \<Rightarrow> scene_config \<Rightarrow> bot_scene \<Rightarrow> bot_scene" where
  "result_shown reply cfg sc = (case gs_phase sc of
       Answered ok \<Rightarrow>
         let sc1 = sc\<lparr>gs_phase := Settled, gs_resultPending := False\<rparr>
         in if sg_kind cfg = CareerBattle \<or> sg_kind cfg = RealmBattle then
              let sc2 = sc1\<lparr>gs_syncing := False\<rparr>
              in if \<not> ok then showSettlementError sc2
                else if sg_kind cfg = RealmBattle
                  then sc2\<lparr>gs_state := (gs_state sc)\<lparr>g_status := reply (snd (last (gs_sent sc)))\<rparr>, gs_resultShown := True\<rparr>
                else sc2\<lparr>gs_resultShown := True\<rparr>
            else if gs_exiting sc \<or> gs_resultShown sc then sc1 else sc1\<lparr>gs_resultShown := True\<rparr>
     | _ \<Rightarrow> sc)"

definition retryPressed :: "scene_config \<Rightarrow> bot_scene \<Rightarrow> bot_scene" where
  "retryPressed cfg sc =
     (if gs_exiting sc \<or> \<not> gs_retryCard sc then sc
      else finalizeMatch cfg (sc\<lparr>gs_resultShown := False, gs_retryCard := False, gs_resultPending := True, gs_syncing := True\<rparr>))"

section \<open>Opening and saving a battle\<close>

text \<open>A running battle of a realm or of a pinned practice is kept in the browser, with the orders so far.\<close>

definition saveRealmBattle :: "scene_config \<Rightarrow> bot_scene \<Rightarrow> bot_scene" where
  "saveRealmBattle cfg sc =
     (if \<not> sg_saves cfg \<or> gs_closed sc \<or> g_status (gs_state sc) \<noteq> Playing then sc
      else sc\<lparr>gs_saved := Some \<lparr>sv_state = gs_state sc, sv_actions = gs_actions sc, sv_accumulators = gs_accumulators sc,
        sv_aiNextTick = gs_aiNextTick sc, sv_remainder = gs_remainder sc\<rparr>\<rparr>)"

definition resume_battle :: "scene_config \<Rightarrow> bot_scene \<Rightarrow> bot_scene" where
  "resume_battle cfg sc = (case gs_saved sc of
       Some v \<Rightarrow>
         if sg_saves cfg \<and> g_status (sv_state v) = Playing \<and> g_rules (sv_state v) = Some (sg_rules cfg)
            \<and> length (sv_actions v) \<le> MAX_PVP_ACTIONS
         then sc\<lparr>gs_state := sv_state v, gs_actions := sv_actions v, gs_accumulators := sv_accumulators v,
           gs_aiNextTick := sv_aiNextTick v, gs_remainder := sv_remainder v\<rparr> else sc
     | None \<Rightarrow> sc)"

definition fresh_scene :: "scene_config \<Rightarrow> game_state \<Rightarrow> bot_scene" where
  "fresh_scene cfg s =
     \<lparr>gs_state = s, gs_accumulators = [], gs_aiNextTick = getBotAiTickSeconds (sg_difficulty cfg), gs_remainder = 0,
      gs_actions = [],
      gs_lanes = (if sg_kind cfg = LaneLevelBattle then Some (new_engine (sg_difficulty cfg) LANE_CONFIG None) else None),
      gs_laneActions = [], gs_swipeFrom = None, gs_selected = [], gs_hovered = None, gs_lastHovered = None,
      gs_lastDrag = None, gs_targeting = False,
      gs_button = (if abilityCommanderId cfg = None then None else Some Charging),
      gs_introHolding = False, gs_menu = new_menu, gs_modal = False, gs_exiting = False, gs_resultPending = False,
      gs_resultShown = False, gs_retryCard = False, gs_syncing = False, gs_settlementReady = False, gs_tutorial = None,
      gs_completionPending = False, gs_drawn = 0, gs_phase = NotSettling, gs_sent = [], gs_laneSent = [],
      gs_recorded = [], gs_saved = None, gs_closed = False\<rparr>"

text \<open>The countdown holds every battle that has not begun, but the training and a benchmark.\<close>

definition create_scene :: "scene_config \<Rightarrow> bot_scene option \<Rightarrow> bot_scene result" where
  "create_scene cfg before = rbind (createUpgradedMatchState cfg) (\<lambda>s.
     let sc0 = (case before of None \<Rightarrow> fresh_scene cfg s
           | Some b \<Rightarrow> (fresh_scene cfg s)\<lparr>gs_drawn := gs_drawn b, gs_sent := gs_sent b, gs_laneSent := gs_laneSent b,
               gs_recorded := gs_recorded b, gs_saved := gs_saved b\<rparr>);
         sc1 = resume_battle cfg sc0;
         sc2 = sc1\<lparr>gs_introHolding := shouldPlayMatchIntro \<lparr>ie_live = False, ie_training = sg_training cfg,
           ie_stress = sg_stress cfg, ie_elapsed = g_elapsed (gs_state sc1)\<rparr>\<rparr>
     in Inr (if sg_training cfg then initTrainingBattle cfg sc2 else sc2))"

definition intro_phase_reached :: "intro_phase \<Rightarrow> bot_scene \<Rightarrow> bot_scene" where
  "intro_phase_reached p sc = (if gs_exiting sc then sc else sc\<lparr>gs_introHolding := isIntroHolding p\<rparr>)"

section \<open>Everything that can happen to the scene\<close>

datatype scene_input =
    PointerDownAt point | PointerMoveTo point | PointerUpAt
  | AbilityTap | MenuTap | MenuCloseTap | LeaveButton | CancelButton | ConfirmButton | PlatformBack | ModalLost
  | IntroPhase intro_phase | Frame js_number
  | Connected bool bool | EndBeatOver | AnswerArrived bool | ResultDue | RetryTap | ResultLeaveTap
  | RealmAbandoned | AbandonFailed
  | TrainingSaveFailed | TrainingSaveRetry
  | SaveTick | Reopened

text \<open>The backend has accepted that a realm attack is given up, or has not.\<close>

definition realm_abandoned :: "scene_config \<Rightarrow> bot_scene \<Rightarrow> bot_scene" where
  "realm_abandoned cfg sc =
     (if mm_exiting (gs_menu sc) \<and> sg_kind cfg = RealmBattle
      then returnToMenu (sc\<lparr>gs_closed := True, gs_saved := None\<rparr>) else sc)"

definition abandon_failed :: "scene_config \<Rightarrow> bot_scene \<Rightarrow> bot_scene" where
  "abandon_failed cfg sc = (if mm_exiting (gs_menu sc) \<and> sg_kind cfg = RealmBattle then showSettlementError sc else sc)"

text \<open>A scene that is leaving takes no pointer or button any more: \<open>input.enabled\<close> is off.\<close>

definition scene_step ::
  "hypot_fn \<Rightarrow> (num \<Rightarrow> num \<Rightarrow> num \<Rightarrow> num \<Rightarrow> num) \<Rightarrow> (nat \<Rightarrow> string) \<Rightarrow> (pvp_action list \<Rightarrow> match_status)
     \<Rightarrow> scene_config \<Rightarrow> scene_input \<Rightarrow> bot_scene \<Rightarrow> bot_scene run" where
  "scene_step hyp between fresh reply cfg i sc = (case i of
       PointerDownAt p \<Rightarrow> Some (if gs_exiting sc then Inr sc else pointerDown hyp between cfg p sc)
     | PointerMoveTo p \<Rightarrow> Some (if gs_exiting sc then Inr sc else pointerMove hyp between cfg p sc)
     | PointerUpAt \<Rightarrow> Some (if gs_exiting sc then Inr sc else pointerUp hyp fresh cfg sc)
     | AbilityTap \<Rightarrow> Some (Inr (abilityPressed sc))
     | MenuTap \<Rightarrow> Some (Inr (if gs_exiting sc then sc else with_menu cfg (openMenu (scene_menu_deps cfg)) sc))
     | MenuCloseTap \<Rightarrow> Some (Inr (if gs_exiting sc then sc else with_menu cfg (closeMenu (scene_menu_deps cfg)) sc))
     | LeaveButton \<Rightarrow> Some (Inr (if gs_exiting sc then sc else with_menu cfg (openConfirm (scene_menu_deps cfg) FromMenu) sc))
     | CancelButton \<Rightarrow> Some (Inr (if gs_exiting sc then sc else with_menu cfg (backToMenu (scene_menu_deps cfg)) sc))
     | ConfirmButton \<Rightarrow> Some (Inr (if gs_exiting sc then sc else with_menu cfg
         (confirmExit (scene_menu_deps cfg) (wholeMatchSeconds (Finite (g_elapsed (gs_state sc))))) sc))
     | PlatformBack \<Rightarrow> Some (Inr (backButtonPressed cfg sc))
     | ModalLost \<Rightarrow> Some (Inr (sc\<lparr>gs_modal := False\<rparr>))
     | IntroPhase p \<Rightarrow> Some (Inr (intro_phase_reached p sc))
     | Frame delta \<Rightarrow> update_frame hyp fresh cfg delta sc
     | Connected remote allowed \<Rightarrow> Some (Inr (settlement_goes_out cfg remote allowed sc))
     | EndBeatOver \<Rightarrow> Some (Inr (end_beat_over cfg sc))
     | AnswerArrived ok \<Rightarrow> Some (Inr (answer_arrived cfg ok sc))
     | ResultDue \<Rightarrow> Some (Inr (result_shown reply cfg sc))
     | RetryTap \<Rightarrow> Some (Inr (retryPressed cfg sc))
     | ResultLeaveTap \<Rightarrow> Some (Inr (if gs_resultShown sc then returnToMenu sc else sc))
     | RealmAbandoned \<Rightarrow> Some (Inr (realm_abandoned cfg sc))
     | AbandonFailed \<Rightarrow> Some (Inr (abandon_failed cfg sc))
     | TrainingSaveFailed \<Rightarrow> Some (Inr (if gs_exiting sc then sc else sc\<lparr>gs_completionPending := False\<rparr>))
     | TrainingSaveRetry \<Rightarrow> Some (Inr (if \<exists>t \<in> set_option (gs_tutorial sc). tc_isCompleted t
         then handleTrainingCompleted sc else sc))
     | SaveTick \<Rightarrow> Some (Inr (saveRealmBattle cfg sc))
     | Reopened \<Rightarrow> Some (create_scene cfg (Some sc)))"

fun scene_run ::
  "hypot_fn \<Rightarrow> (num \<Rightarrow> num \<Rightarrow> num \<Rightarrow> num \<Rightarrow> num) \<Rightarrow> (nat \<Rightarrow> string) \<Rightarrow> (pvp_action list \<Rightarrow> match_status)
     \<Rightarrow> scene_config \<Rightarrow> scene_input list \<Rightarrow> bot_scene \<Rightarrow> bot_scene run" where
  "scene_run hyp between fresh reply cfg [] sc = Some (Inr sc)"
| "scene_run hyp between fresh reply cfg (i # is) sc =
     run_bind (scene_step hyp between fresh reply cfg i sc) (scene_run hyp between fresh reply cfg is)"

end
