(* ===== verification/SceneOrders.thy ===== *)
theory SceneOrders
  imports ReplayClock BotScene
begin

text \<open>
  A strike of several towers. The client sends all of them from one picture of the match, the replay one after
  another, each from the match the others left. Both give the same match: garrisons and armies do not change a
  route, and the towers of a strike are different.
\<close>

section \<open>What a route depends on\<close>

named_theorems road_simps

definition roads :: "game_state \<Rightarrow> game_state" where
  "roads s = s\<lparr>g_territories := obj_map (\<lambda>_ t. t\<lparr>t_units := 0\<rparr>) (g_territories s), g_armies := [], g_stats := empty_stats\<rparr>"

lemma roads_sel [simp]:
  "g_rules (roads s) = g_rules s" "g_battlefieldId (roads s) = g_battlefieldId s"
  "obj_get (g_territories (roads s)) i = map_option (\<lambda>t. t\<lparr>t_units := 0\<rparr>) (obj_get (g_territories s) i)"
  by (simp_all add: roads_def obj_simps)

lemma unmanned_distance:
  "territory_distance hyp (a\<lparr>t_units := u\<rparr>) b = territory_distance hyp a b"
  "territory_distance hyp a (b\<lparr>t_units := u\<rparr>) = territory_distance hyp a b"
  "legCost hyp (a\<lparr>t_units := u\<rparr>) b = legCost hyp a b" "legCost hyp a (b\<lparr>t_units := u\<rparr>) = legCost hyp a b"
  by (simp_all add: territory_distance_def legCost_def)

lemma tacticalNeighbors_roads [road_simps]: "tacticalNeighbors (roads s) i = tacticalNeighbors s i"
  by (simp add: tacticalNeighbors_def)

lemma friendly_targets_roads:
  "friendly_targets (roads s) owner best i = map (\<lambda>(i, t). (i, t\<lparr>t_units := 0\<rparr>)) (friendly_targets s owner best i)"
  unfolding friendly_targets_def road_simps map_concat map_map
  by (intro arg_cong [where f = concat] map_cong refl) (auto split: option.splits)

lemma friendly_pushes_roads: "friendly_pushes hyp (roads s) owner best entry = friendly_pushes hyp s owner best entry"
proof -
  have "rbind (defined_or_type_error (map_option (\<lambda>t. t\<lparr>t_units := 0\<rparr>) o1)) (\<lambda>from. Inr (path_push hyp entry from i (t\<lparr>t_units := 0\<rparr>)))
      = rbind (defined_or_type_error o1) (\<lambda>from. Inr (path_push hyp entry from i t))" for o1 i t
    by (cases o1) (simp_all add: path_push_def unmanned_distance)
  then show ?thesis
    by (simp add: friendly_pushes_def friendly_targets_roads map_res_map case_prod_unfold)
qed

lemma friendly_loop_roads: "friendly_loop hyp (roads s) owner best queue = friendly_loop hyp s owner best queue"
proof (induction hyp s owner best queue rule: friendly_loop.induct)
  case (1 hyp s owner best queue)
  show ?case
  proof (cases "js_sort cmp_path_entry queue")
    case Nil
    then show ?thesis by (simp add: friendly_loop.simps)
  next
    case (Cons entry rest)
    then show ?thesis using 1(1) [OF Cons] 1(2) [OF Cons] friendly_loop.simps [of hyp "roads s" owner best queue]
        friendly_loop.simps [of hyp s owner best queue]
      by (cases "friendly_pushes hyp s owner best entry") (auto simp: friendly_pushes_roads)
  qed
qed

lemma friendlyPaths_roads [road_simps]: "friendlyPaths hyp (roads s) a w = friendlyPaths hyp s a w"
  by (simp add: friendlyPaths_def friendly_loop_roads)

lemma choose_entry_roads [road_simps]:
  "choose_entry hyp (roads s) best (t\<lparr>t_units := u\<rparr>) = choose_entry hyp s best t"
proof (intro ext)
  fix targetId i chosen
  show "choose_entry hyp (roads s) best (t\<lparr>t_units := u\<rparr>) targetId i chosen = choose_entry hyp s best t targetId i chosen"
    by (cases "obj_get (g_territories s) i") (simp_all add: choose_entry_def unmanned_distance split: option.split)
qed

lemma findDispatchRoute_roads [road_simps]:
  "findDispatchRoute hyp (roads s) a b w = findDispatchRoute hyp s a b w"
  by (cases "obj_get (g_territories s) a"; cases "obj_get (g_territories s) b")
    (simp_all add: findDispatchRoute_def road_simps)

lemma dispatchArmy_roads:
  "dispatchArmy hyp src tgt w r n sp (Some (roads s)) = dispatchArmy hyp src tgt w r n sp (Some s)"
proof -
  have "routed_army hyp (Some (roads s)) src route q m = routed_army hyp (Some s) src route q m" for route q m
    by (cases "obj_get (g_territories s) (route ! 1)")
      (simp_all add: routed_army_def setArmyLeg_def unmanned_distance Let_def)
  then show ?thesis unfolding dispatchArmy_def dispatch_route_def option.case road_simps by presburger
qed

lemma dispatchArmy_same_roads:
  "roads s = roads s' \<Longrightarrow> dispatchArmy hyp src tgt w r n sp (Some s) = dispatchArmy hyp src tgt w r n sp (Some s')"
  by (metis dispatchArmy_roads)

text \<open>A tower's target does not matter to the army but for its place.\<close>

lemma obj_map_update: "obj_map f (obj_set i v ob) = obj_set i (f i v) (obj_map f ob)"
  by (induction ob) (auto simp: obj_map_def)

lemma roads_write:
  assumes "obj_get (g_territories s) i = Some src" "left = src\<lparr>t_units := u\<rparr>"
  shows "roads (s\<lparr>g_territories := obj_set i left (g_territories s), g_armies := ms, g_stats := st\<rparr>) = roads s"
proof -
  have "obj_get (obj_map (\<lambda>_ t. t\<lparr>t_units := 0\<rparr>) (g_territories s)) i = Some (src\<lparr>t_units := 0\<rparr>)"
    using assms(1) by (simp add: obj_simps)
  then have "obj_map (\<lambda>_ t. t\<lparr>t_units := 0\<rparr>) (obj_set i left (g_territories s)) = obj_map (\<lambda>_ t. t\<lparr>t_units := 0\<rparr>) (g_territories s)"
    unfolding obj_map_update assms(2) by (simp add: update_triv)
  then show ?thesis by (simp add: roads_def)
qed

text \<open>What an order records: where its army comes from and where its route ends.\<close>

lemma dispatched_ends:
  assumes "dispatchArmy hyp src tgt w r n sp (Some s) = Inr (Dispatched left m)" "hypot_ok hyp"
  shows "a_sourceId m = t_id src" "armyDestination m None = t_id tgt" "\<exists>u. left = src\<lparr>t_units := u\<rparr>"
proof -
  obtain route where d: "dispatch_route hyp (Some s) src tgt w = Inr (Some route)"
    "routed_army hyp (Some s) src route (safe_speed_multiplier sp) (new_army hyp src tgt w
       (calculateDispatchUnits (t_units src) r) (safe_speed_multiplier sp) n) = Inr m"
    "left = src\<lparr>t_units := jsub (t_units src) (calculateDispatchUnits (t_units src) r)\<rparr>"
    using assms(1) by (rule dispatchArmy_Dispatched)
  show "\<exists>u. left = src\<lparr>t_units := u\<rparr>" using d(3) by blast
  show "a_sourceId m = t_id src" "armyDestination m None = t_id tgt"
  proof -
    have "a_sourceId m = t_id src \<and> armyDestination m None = t_id tgt"
    proof (cases "usesTacticalRules (g_rules s)")
      case True
      have "findDispatchRoute hyp s (t_id src) (t_id tgt) w = Inr (Some route)" using d(1) by (simp add: dispatch_route_def)
      from findDispatchRoute_path [OF assms(2) True this] have "last route = t_id tgt" "2 \<le> length route" by blast+
      moreover from this have "route \<noteq> []" by auto
      ultimately show ?thesis using d(2) True
        by (auto simp: routed_army_def rbind_eq_Inr setArmyLeg_def new_army_def armyDestination_def Let_def)
    next
      case False
      then have "m = new_army hyp src tgt w (calculateDispatchUnits (t_units src) r) (safe_speed_multiplier sp) n"
        using d(2) by (simp add: routed_army_def)
      then show ?thesis by (simp add: new_army_def armyDestination_def Let_def)
    qed
    then show "a_sourceId m = t_id src" "armyDestination m None = t_id tgt" by blast+
  qed
qed

text \<open>Under the rules before the tactical ones an order needs no roads.\<close>

lemma dispatchArmy_classic:
  assumes "\<not> usesTacticalRules (g_rules s)" "obj_get (g_territories s) (t_id src) = Some src"
    "obj_get (g_territories s) (t_id tgt) = Some tgt"
  shows "dispatchArmy hyp src tgt w r n sp (Some s) = dispatchArmy hyp src tgt w r n sp None"
proof -
  have "routed_army hyp (Some s) src route q m = routed_army hyp None src route q m" for route q m
    using assms(1) by (simp add: routed_army_def)
  then show ?thesis using assms by (simp add: dispatchArmy_def dispatch_route_def findDispatchRoute_def Let_def)
qed

section \<open>A strike is its orders one after another\<close>

definition send_orders :: "hypot_fn \<Rightarrow> num \<Rightarrow> (string \<times> string) list \<Rightarrow> game_state \<Rightarrow> game_state result" where
  "send_orders hyp speed os s = fold_res (\<lambda>(i, j) t. dispatchFromState hyp t i j Player speed []) os s"

definition army_order :: "army \<Rightarrow> string \<times> string" where
  "army_order m = (a_sourceId m, armyDestination m None)"

definition strike_state :: "game_state \<Rightarrow> multi_dispatch \<Rightarrow> game_state" where
  "strike_state s acc = s\<lparr>g_territories := object_assign (g_territories s) (md_updatedSources acc),
     g_armies := g_armies s @ md_armies acc,
     g_stats := (g_stats s)\<lparr>ms_playerUnitsDispatched := jadd (ms_playerUnitsDispatched (g_stats s)) (md_total acc)\<rparr>\<rparr>"

lemma fold_res_snoc: "fold_res f (xs @ [x]) s = rbind (fold_res f xs s) (f x)"
proof (induction xs arbitrary: s)
  case Nil
  show ?case by (cases "f x s") simp_all
next
  case (Cons a xs)
  then show ?case by (cases "f a s") simp_all
qed

lemma send_orders_snoc:
  "send_orders hyp speed (os @ [(i, j)]) s = rbind (send_orders hyp speed os s) (\<lambda>t. dispatchFromState hyp t i j Player speed [])"
  by (simp add: send_orders_def fold_res_snoc)

lemma object_assign_new:
  "k \<notin> set (obj_keys us) \<Longrightarrow> object_assign ts (obj_set k v us) = obj_set k v (object_assign ts us)"
  by (simp add: object_assign_def obj_set_new)

text \<open>What a strike has done after some of its towers, and which towers are still as they were.\<close>

definition strike_inv :: "hypot_fn \<Rightarrow> num \<Rightarrow> game_state \<Rightarrow> string set \<Rightarrow> multi_dispatch \<Rightarrow> bool" where
  "strike_inv hyp speed s done_ids acc \<longleftrightarrow> set (obj_keys (md_updatedSources acc)) \<subseteq> done_ids
     \<and> (\<exists>t. send_orders hyp speed (map army_order (md_armies acc)) s = Inr t \<and> same_match t (strike_state s acc)
         \<and> roads t = roads s \<and> (\<forall>i. i \<notin> done_ids \<longrightarrow> obj_get (g_territories t) i = obj_get (g_territories s) i))"

lemma strike_step:
  assumes inv: "strike_inv hyp speed s ids acc" and hyp: "hypot_ok hyp"
    and src: "obj_get (g_territories s) (t_id src) = Some src" "t_id src \<notin> ids"
    and tgt: "obj_get (g_territories s) (t_id tgt) = Some tgt" "t_id tgt \<notin> ids"
  shows "\<exists>acc'. dispatch_source hyp tgt Player (1 / 2) (Finite speed) names (Some s) src acc = Inr acc'
    \<and> strike_inv hyp speed s (insert (t_id src) ids) acc'"
proof -
  obtain t where t: "send_orders hyp speed (map army_order (md_armies acc)) s = Inr t" "same_match t (strike_state s acc)"
    "roads t = roads s" "\<forall>i. i \<notin> ids \<longrightarrow> obj_get (g_territories t) i = obj_get (g_territories s) i"
    and keys: "set (obj_keys (md_updatedSources acc)) \<subseteq> ids" using inv by (auto simp: strike_inv_def)
  have weaker: "strike_inv hyp speed s (insert (t_id src) ids) acc" using t keys unfolding strike_inv_def by blast
  let ?n = "names (length (md_armies acc))"
  obtain d where d: "dispatchArmy hyp src tgt Player (1 / 2) ?n (Finite speed) (Some s) = Inr d"
    using dispatchArmy_total [OF hyp] by blast
  show ?thesis
  proof (cases "t_id src = t_id tgt \<or> (\<exists>e. d = DispatchFailed e)")
    case True
    then show ?thesis using weaker d by (auto simp: dispatch_source_def)
  next
    case False
    then obtain left m where dm: "d = Dispatched left m" by (cases d) auto
    note sent = d [unfolded dm]
    note ends = dispatched_ends [OF sent hyp]
    obtain u where left: "left = src\<lparr>t_units := u\<rparr>" using ends(3) by blast
    have "dispatchArmy hyp src tgt Player (1 / 2) ?n (Finite speed) (Some t) = Inr (Dispatched left m)"
      using sent dispatchArmy_same_roads [OF t(3), of hyp src tgt Player "1 / 2" ?n "Finite speed"] by simp
    from dispatchArmy_Dispatched_same [OF same_match_refl this, of "[]"] obtain m' where
      m': "dispatchArmy hyp src tgt Player (1 / 2) [] (Finite speed) (Some t) = Inr (Dispatched left m')" "anon m' = anon m" by blast
    have units: "a_units m' = a_units m" using m'(2) by (metis anon_sel(7))
    have at: "obj_get (g_territories t) (t_id src) = Some src" "obj_get (g_territories t) (t_id tgt) = Some tgt"
      using t(4) src tgt by simp_all
    define acc' where "acc' = acc\<lparr>md_successes := md_successes acc @ [d], md_armies := md_armies acc @ [m],
      md_updatedSources := obj_set (t_id src) left (md_updatedSources acc), md_total := jadd (md_total acc) (a_units m)\<rparr>"
    define t' where "t' = t\<lparr>g_territories := obj_set (t_id src) left (g_territories t), g_armies := g_armies t @ [m'],
      g_stats := (g_stats t)\<lparr>ms_playerUnitsDispatched := jadd (ms_playerUnitsDispatched (g_stats t)) (a_units m')\<rparr>\<rparr>"
    have step: "dispatchFromState hyp t (t_id src) (t_id tgt) Player speed [] = Inr t'"
      using at m'(1) by (simp add: dispatchFromState_def t'_def)
    have "send_orders hyp speed (map army_order (md_armies acc')) s = Inr t'"
      using step t(1) ends(1,2) by (simp add: acc'_def army_order_def send_orders_snoc)
    moreover have "same_match t' (strike_state s acc')"
    proof -
      note same = same_matchD [OF t(2)]
      have "t_id src \<notin> set (obj_keys (md_updatedSources acc))" using keys src(2) by blast
      then show ?thesis using same m'(2)
        by (intro same_matchI) (simp_all add: t'_def acc'_def strike_state_def object_assign_new unsent_simps)
    qed
    moreover have "roads t' = roads s" unfolding t'_def by (subst roads_write [OF at(1) left]) (rule t(3))
    moreover have "\<forall>i. i \<notin> insert (t_id src) ids \<longrightarrow> obj_get (g_territories t') i = obj_get (g_territories s) i"
      using t(4) by (simp add: t'_def obj_simps)
    moreover have "set (obj_keys (md_updatedSources acc')) \<subseteq> insert (t_id src) ids"
      using keys by (auto simp: acc'_def obj_keys_set simp del: set_map)
    ultimately have "strike_inv hyp speed s (insert (t_id src) ids) acc'" unfolding strike_inv_def by blast
    moreover have "dispatch_source hyp tgt Player (1 / 2) (Finite speed) names (Some s) src acc = Inr acc'"
      using False sent dm by (simp add: dispatch_source_def acc'_def)
    ultimately show ?thesis by blast
  qed
qed

lemma strike_steps:
  assumes "hypot_ok hyp" "strike_inv hyp speed s ids acc"
    and "\<forall>src\<in>set sources. obj_get (g_territories s) (t_id src) = Some src" "distinct (map t_id sources)"
    and "set (map t_id sources) \<inter> ids = {}"
    and "obj_get (g_territories s) (t_id tgt) = Some tgt" "t_id tgt \<notin> ids \<union> set (map t_id sources)"
  shows "\<exists>acc'. fold_res (dispatch_source hyp tgt Player (1 / 2) (Finite speed) names (Some s)) sources acc = Inr acc'
    \<and> (\<exists>ids'. strike_inv hyp speed s ids' acc')"
  using assms(2-5,7)
proof (induction sources arbitrary: ids acc)
  case (Cons src sources)
  obtain acc1 where 1: "dispatch_source hyp tgt Player (1 / 2) (Finite speed) names (Some s) src acc = Inr acc1"
    "strike_inv hyp speed s (insert (t_id src) ids) acc1"
    using strike_step [OF Cons.prems(1) assms(1) _ _ assms(6), of src names] Cons.prems(2-5) by auto
  have "\<exists>acc'. fold_res (dispatch_source hyp tgt Player (1 / 2) (Finite speed) names (Some s)) sources acc1 = Inr acc'
    \<and> (\<exists>ids'. strike_inv hyp speed s ids' acc')"
    by (rule Cons.IH [OF 1(2)]) (use Cons.prems in auto)
  then show ?case using 1(1) by simp
qed auto

text \<open>A strike never throws, and is the sequence of its orders.\<close>

lemma strike_sequential:
  assumes "hypot_ok hyp" "\<forall>src\<in>set sources. obj_get (g_territories s) (t_id src) = Some src" "distinct (map t_id sources)"
    and "obj_get (g_territories s) (t_id tgt) = Some tgt" "t_id tgt \<notin> set (map t_id sources)"
  shows "\<exists>acc t. dispatchMultipleArmies hyp sources tgt Player (1 / 2) (Finite speed) names (Some s) = Inr acc
    \<and> send_orders hyp speed (map army_order (md_armies acc)) s = Inr t \<and> same_match t (strike_state s acc)"
proof -
  let ?start = "\<lparr>md_successes = [], md_armies = [], md_updatedSources = [], md_total = 0\<rparr>"
  have "strike_inv hyp speed s {} ?start"
    by (simp add: strike_inv_def send_orders_def strike_state_def object_assign_def same_matchI unsent_simps)
  from strike_steps [OF assms(1) this assms(2,3) _ assms(4), of names] assms(5) show ?thesis
    by (auto simp: dispatchMultipleArmies_def strike_inv_def)
qed

end
