(* ===== verification/SceneFacts.thy ===== *)
theory SceneFacts
  imports SceneOrders
begin

text \<open>
  The bot battle and the server's replay agree. Whatever the player does and however the frames come, the orders
  the scene has recorded are always acceptable, and when its match is decided the server's replay of them ends with
  the same verdict at the same time.
\<close>

section \<open>Matches that only differ in the names of armies\<close>

lemma wf_army_anon: "wf_army ids (anon m) = wf_army ids m" "a_progress (anon m) = a_progress m"
  by (simp_all add: wf_army_def)

lemma wf_armies_same:
  assumes "map anon ms = map anon ms'" "\<forall>m\<in>set ms'. wf_army ids m \<and> a_progress m < 1"
  shows "\<forall>m\<in>set ms. wf_army ids m \<and> a_progress m < 1"
proof -
  have all: "(\<forall>m\<in>set xs. wf_army ids m \<and> a_progress m < 1)
      \<longleftrightarrow> list_all (\<lambda>m. wf_army ids m \<and> a_progress m < 1) (map anon xs)" for xs
    by (simp add: wf_army_anon list_all_iff)
  show ?thesis using assms unfolding all by simp
qed

lemma pvp_ok_same:
  assumes "same_match s s'" "pvp_ok v s' accs" shows "pvp_ok v s accs"
proof -
  note same = same_matchD [OF assms(1)]
  have "wf_state s' accs" "wf_match s'" "g_rules s' = v" "g_timeLimit s' = PVP_TIME_LIMIT_SECONDS"
    using assms(2) by (simp_all add: pvp_ok_def)
  moreover from this(1) have "\<forall>m\<in>set (g_armies s). wf_army (obj_keys (g_territories s)) m \<and> a_progress m < 1"
    unfolding same(7) by (intro wf_armies_same [OF same(12)]) (simp add: wf_state_def)
  ultimately show ?thesis by (simp add: pvp_ok_def wf_state_def wf_match_def same(1,6,7,10))
qed

section \<open>Arrivals\<close>

lemma move_army_arrivals:
  assumes "work_ok ids w" "wf_army ids m" "a_progress m < 1" "0 \<le> delta"
    and "\<forall>c\<in>set (sw_arrivals w). c_targetId c \<in> set ids"
  shows "\<exists>w'. move_army hyp s nowMs delta m w = Inr w' \<and> work_ok ids w' \<and> (\<forall>c\<in>set (sw_arrivals w'). c_targetId c \<in> set ids)"
proof -
  obtain w' where w': "move_army hyp s nowMs delta m w = Inr w'" "work_ok ids w'"
    using move_army_ok [OF assms(1-4)] by blast
  have arrive: "sw_arrivals (arrive s n x t u) = sw_arrivals u @ [c] \<Longrightarrow> c_targetId c = t_id t" for n x t u c
    by (auto simp: arrive_def Let_def split: if_splits)
  have "set (sw_arrivals (arrive s n x t u)) = insert (last (sw_arrivals (arrive s n x t u))) (set (sw_arrivals u))
      \<and> c_targetId (last (sw_arrivals (arrive s n x t u))) = t_id t" for n x t u
    by (simp add: arrive_def Let_def)
  moreover have "t_id t \<in> set ids" if "obj_get (sw_territories w) i = Some t" for i t
    using that assms(1) wf_boardD [of "sw_territories w" i t] obj_get_Some_key [OF that] unfolding work_ok_def wf_tower_def by metis
  ultimately have "\<forall>c\<in>set (sw_arrivals w'). c_targetId c \<in> set ids"
    using w'(1) assms(5) by (auto simp: move_army_def rbind_eq_Inr split: if_splits option.splits)
  with w' show ?thesis by blast
qed

lemma step_arrivals:
  assumes "wf_state s accs" "0 \<le> delta" "stepSimulation hyp s accs delta = Inr x"
  shows "\<forall>c\<in>set (sr_arrivals x). obj_get (g_territories (sr_state x)) (c_targetId c) \<noteq> None"
proof (cases "g_status s = Playing")
  case True
  let ?ids = "obj_keys (g_territories s)"
  let ?P = "\<lambda>w. work_ok ?ids w \<and> (\<forall>c\<in>set (sw_arrivals w). c_targetId c \<in> set ?ids)"
  obtain w where step: "stepSimulation hyp s accs delta = Inr (step_finish s (step_elapsed s delta) delta w)"
    and fold: "fold_res (move_army hyp s (step_now s delta) delta) (g_armies s) (step_start s accs (step_elapsed s delta)) = Inr w"
    using stepSimulation_Inr [OF assms(1,2) True] by blast
  have "?P (step_start s accs (step_elapsed s delta))" using step_start_ok [OF assms(1)] by (simp add: step_start_def)
  then have "\<exists>w. fold_res (move_army hyp s (step_now s delta) delta) (g_armies s) (step_start s accs (step_elapsed s delta)) = Inr w
      \<and> ?P w"
    by (rule fold_res_total) (use assms(1,2) move_army_arrivals in \<open>auto simp: wf_state_def simp del: set_map\<close>)
  then have P: "?P w" using fold by auto
  have x: "x = step_finish s (step_elapsed s delta) delta w" using step assms(3) by simp
  have "obj_keys (g_territories (sr_state x)) = ?ids"
    using step_wf [OF assms(1,2), of hyp] assms(3) by auto
  moreover have "sr_arrivals x = sw_arrivals w" by (simp add: x step_finish_def Let_def)
  ultimately show ?thesis using P obj_get_key by metis
qed (use assms(3) in \<open>auto simp: stepSimulation_def\<close>)

section \<open>The configuration of a replayed battle\<close>

definition scene_options :: "scene_config \<Rightarrow> pvp_action list \<Rightarrow> pvp_options" where
  "scene_options cfg as = \<lparr>px_botDifficulty = Some (sg_difficulty cfg), px_rules = Some (sg_rules cfg),
     px_playerModifiers = Some (sg_playerModifiers cfg), px_enemyModifiers = sg_enemyModifiers cfg, px_actions = as,
     px_battlefieldId = Some (sg_battlefieldId cfg), px_commanderId = sg_ticketCommander cfg\<rparr>"

text \<open>A battle the server replays: no training, no lanes, under the current rules.\<close>

definition replayed :: "scene_config \<Rightarrow> bool" where
  "replayed cfg \<longleftrightarrow> \<not> sg_training cfg \<and> sg_kind cfg \<noteq> LaneLevelBattle \<and> options_ok (scene_options cfg [])
     \<and> hasCaptureRecovery (Some (sg_rules cfg))"

lemma scene_options_sel [simp]:
  "px_botDifficulty (scene_options cfg as) = Some (sg_difficulty cfg)" "px_rules (scene_options cfg as) = Some (sg_rules cfg)"
  "px_playerModifiers (scene_options cfg as) = Some (sg_playerModifiers cfg)"
  "px_enemyModifiers (scene_options cfg as) = sg_enemyModifiers cfg"
  "px_actions (scene_options cfg as) = as" "px_commanderId (scene_options cfg as) = sg_ticketCommander cfg"
  "army_speed (Some (sg_playerModifiers cfg)) = playerArmySpeed cfg"
  "army_speed (sg_enemyModifiers cfg) = enemyArmySpeed cfg"
  "ai_tick (scene_options cfg as) = getBotAiTickSeconds (sg_difficulty cfg)"
  "initial_version (pvp_initial_options (scene_options cfg as)) = sg_rules cfg"
  by (simp_all add: scene_options_def army_speed_def playerArmySpeed_def enemyArmySpeed_def ai_tick_def pvp_initial_options_def
      initial_version_def)

lemma scene_initial_options: "pvp_initial_options (scene_options cfg as) = pvp_initial_options (scene_options cfg [])"
  by (simp add: pvp_initial_options_def scene_options_def)

text \<open>The orders are an argument of the replay; nothing else of it looks at them.\<close>

lemma executeAiAction_actions: "executeAiAction hyp (scene_options cfg as) = executeAiAction hyp (scene_options cfg [])"
  unfolding executeAiAction_def scene_options_sel by (rule refl)

lemma ai_until_actions: "ai_until hyp (scene_options cfg as) = ai_until hyp (scene_options cfg [])"
  unfolding ai_until_def executeAiAction_actions [of hyp cfg as] ai_tick_def scene_options_sel by (rule refl)

lemma player_action_actions: "player_action hyp (scene_options cfg as) = player_action hyp (scene_options cfg [])"
  unfolding player_action_def scene_options_sel by (rule refl)

lemma replay_actions_actions:
  "replay_actions hyp (scene_options cfg as) b e bs r = replay_actions hyp (scene_options cfg []) b e bs r"
proof (induction bs arbitrary: r)
  case (Cons a bs)
  have "replay_actions hyp (scene_options cfg as) b e bs = replay_actions hyp (scene_options cfg []) b e bs"
    by (rule ext) (rule Cons.IH)
  then show ?case
    by (simp only: replay_actions.simps ai_until_actions [of hyp cfg as] player_action_actions [of hyp cfg as])
qed simp

lemma replay_finish_actions: "replay_finish hyp (scene_options cfg as) = replay_finish hyp (scene_options cfg [])"
  unfolding replay_finish_def ai_until_actions [of hyp cfg as] by (rule refl)

lemma replay_start_actions_eq: "replay_start (scene_options cfg as) s = replay_start (scene_options cfg []) s"
  by (simp add: replay_start_def)

lemma createUpgradedMatchState_replay:
  assumes "\<not> sg_training cfg"
  shows "createUpgradedMatchState cfg = createInitialGameState (pvp_initial_options (scene_options cfg []))"
proof -
  let ?o = "pvp_initial_options (scene_options cfg [])"
  have "createInitialGameState (?o\<lparr>io_timeLimit := None\<rparr>) = createInitialGameState ?o"
    unfolding createInitialGameState_def pvp_initial_options_def PVP_TIME_LIMIT_SECONDS_def DEFAULT_MATCH_TIME_LIMIT_def
      initial_options.simps option.case by (rule refl)
  moreover have "\<lparr>io_rules = Some (sg_rules cfg), io_timeLimit = None, io_playerModifiers = Some (sg_playerModifiers cfg),
      io_enemyModifiers = sg_enemyModifiers cfg, io_battlefieldId = Some (sg_battlefieldId cfg)\<rparr> = ?o\<lparr>io_timeLimit := None\<rparr>"
    by (simp add: pvp_initial_options_def scene_options_def)
  ultimately show ?thesis using assms
    by (cases "createInitialGameState ?o") (simp_all add: createUpgradedMatchState_def)
qed

section \<open>The recorded orders are acceptable\<close>

definition orders_ok :: "pvp_action list \<Rightarrow> nat \<Rightarrow> bool" where
  "orders_ok as k \<longleftrightarrow> length as \<le> MAX_PVP_ACTIONS \<and> validate_from 0 0 as = Inr ()
     \<and> list_all (\<lambda>a. \<exists>j\<le>k. pa_at a = Finite (clock j)) as"

lemma validate_snoc:
  "validate_from n t (as @ [a]) = Inr () \<longleftrightarrow> validate_from n t as = Inr ()
     \<and> pa_sequence a = Finite (of_nat (n + length as)) \<and> (pa_kind a = None \<or> pa_kind a = Some ''ability'')
     \<and> valid_timestamp (if as = [] then t else finite_value (pa_at (last as))) (pa_at a)"
  by (induction n t as rule: validate_from.induct) auto

lemma orders_ok_Nil: "orders_ok [] k"
  by (simp add: orders_ok_def)

lemma orders_ok_later: "orders_ok as k \<Longrightarrow> k \<le> k' \<Longrightarrow> orders_ok as k'"
  unfolding orders_ok_def list_all_iff using le_trans by blast

lemma orders_ok_snoc:
  assumes "orders_ok as k" "length as < MAX_PVP_ACTIONS" "k \<le> 4500" "pa_at a = Finite (clock k)"
    and "pa_sequence a = Finite (of_nat (length as))" "pa_kind a = None \<or> pa_kind a = Some ''ability''"
  shows "orders_ok (as @ [a]) k"
proof -
  have past: "finite_value (pa_at (last as)) \<le> clock k" if "as \<noteq> []"
  proof -
    have "list_all (\<lambda>a. \<exists>j\<le>k. pa_at a = Finite (clock j)) as" using assms(1) by (simp add: orders_ok_def)
    moreover have "last as \<in> set as" by (rule last_in_set [OF that])
    ultimately obtain j where "j \<le> k" "pa_at (last as) = Finite (clock j)" by (auto simp: list_all_iff)
    then show ?thesis by (simp add: finite_value_def clock_mono)
  qed
  have "valid_timestamp (if as = [] then 0 else finite_value (pa_at (last as))) (pa_at a)"
    using past clock_bounds [of k] assms(3) by (simp add: valid_timestamp_def assms(4) PVP_TIME_LIMIT_SECONDS_def)
  then show ?thesis using assms by (auto simp: orders_ok_def validate_snoc)
qed

text \<open>What the scene records of an order of a tower.\<close>

definition order_action :: "num \<Rightarrow> string \<times> string \<Rightarrow> pvp_action list \<Rightarrow> pvp_action" where
  "order_action t o1 as = \<lparr>pa_sequence = Finite (of_nat (length as)), pa_at = Finite t, pa_sourceId = fst o1,
     pa_targetId = snd o1, pa_kind = None\<rparr>"

definition order_actions :: "num \<Rightarrow> (string \<times> string) list \<Rightarrow> pvp_action list \<Rightarrow> pvp_action list" where
  "order_actions t os as = fold (\<lambda>o1 as. as @ [order_action t o1 as]) os as"

lemma order_actions_simps [simp]:
  "order_actions t [] as = as" "order_actions t (o1 # os) as = order_actions t os (as @ [order_action t o1 as])"
  by (simp_all add: order_actions_def)

lemma order_action_sel [simp]:
  "pa_at (order_action t o1 as) = Finite t" "pa_sequence (order_action t o1 as) = Finite (of_nat (length as))"
  "pa_kind (order_action t o1 as) = None" "pa_sourceId (order_action t o1 as) = fst o1"
  "pa_targetId (order_action t o1 as) = snd o1"
  by (simp_all add: order_action_def)

lemma orders_ok_strike:
  assumes "orders_ok as k" "length as + length os \<le> MAX_PVP_ACTIONS" "k \<le> 4500"
  shows "orders_ok (order_actions (clock k) os as) k"
  using assms(1,2)
proof (induction os arbitrary: as)
  case (Cons o1 os)
  have "orders_ok (as @ [order_action (clock k) o1 as]) k"
    by (rule orders_ok_snoc [OF Cons.prems(1)]) (use Cons.prems(2) assms(3) in simp_all)
  then show ?case using Cons.IH Cons.prems(2) by simp
qed simp

lemma record_dispatch_orders:
  "length as + length ms \<le> MAX_PVP_ACTIONS
     \<Longrightarrow> fold (record_dispatch t) ms as = order_actions t (map army_order ms) as"
  by (induction ms arbitrary: as) (simp_all add: record_dispatch_def order_action_def army_order_def)

section \<open>Following the orders of a strike\<close>

lemma follows_send:
  assumes "follows hyp opts v s0 as k r" "hypot_ok hyp" "same_match s (rp_state r)"
    and "dispatchFromState hyp s (fst o1) (snd o1) Player (army_speed (px_playerModifiers opts)) [] = Inr t"
  shows "\<exists>r'. follows hyp opts v s0 (as @ [order_action (clock k) o1 as]) k r' \<and> same_match t (rp_state r')
    \<and> rp_accumulators r' = rp_accumulators r \<and> rp_nextAi r' = rp_nextAi r"
proof -
  let ?a = "order_action (clock k) o1 as"
  obtain t' where t': "dispatchFromState hyp (rp_state r) (fst o1) (snd o1) Player (army_speed (px_playerModifiers opts))
      (player_army_id ?a) = Inr t'" "same_match t t'"
    using dispatchFromState_same [OF assms(3,4)] by blast
  define r' where "r' = (at_clock r)\<lparr>rp_state := t', rp_actionIndex := Suc (rp_actionIndex (at_clock r))\<rparr>"
  have "player_action hyp opts ?a (at_clock r) = Inr r'" using t'(1) by (simp add: player_action_def r'_def Let_def)
  from follows_order [OF assms(1,2) _ this] have "follows hyp opts v s0 (as @ [?a]) k r'" by simp
  moreover have "rp_state r' = t'" "rp_accumulators r' = rp_accumulators r" "rp_nextAi r' = rp_nextAi r"
    by (simp_all add: r'_def)
  ultimately show ?thesis using t'(2) by blast
qed

lemma follows_strike:
  assumes "follows hyp opts v s0 as k r" "hypot_ok hyp" "same_match s (rp_state r)"
    and "send_orders hyp (army_speed (px_playerModifiers opts)) os s = Inr t"
  shows "\<exists>r'. follows hyp opts v s0 (order_actions (clock k) os as) k r' \<and> same_match t (rp_state r')
    \<and> rp_accumulators r' = rp_accumulators r \<and> rp_nextAi r' = rp_nextAi r"
  using assms(1,3,4)
proof (induction os arbitrary: as r s)
  case (Cons o1 os)
  obtain s1 where s1: "dispatchFromState hyp s (fst o1) (snd o1) Player (army_speed (px_playerModifiers opts)) [] = Inr s1"
    "send_orders hyp (army_speed (px_playerModifiers opts)) os s1 = Inr t"
    using Cons.prems(3) by (auto simp: send_orders_def rbind_eq_Inr case_prod_unfold)
  obtain r1 where r1: "follows hyp opts v s0 (as @ [order_action (clock k) o1 as]) k r1" "same_match s1 (rp_state r1)"
    "rp_accumulators r1 = rp_accumulators r" "rp_nextAi r1 = rp_nextAi r"
    using follows_send [OF Cons.prems(1) assms(2) Cons.prems(2) s1(1)] by blast
  from Cons.IH [OF r1(1,2) s1(2)] show ?case using r1(3,4) by simp
qed (auto simp: send_orders_def)

lemma decided_strike:
  "decided hyp opts v s0 as k r \<Longrightarrow> decided hyp opts v s0 (order_actions (clock k) os as) k r"
  by (induction os arbitrary: as) (simp_all add: decided_order)

lemma send_orders_ok:
  assumes "pvp_ok v s accs" "hypot_ok hyp" "send_orders hyp speed os s = Inr t"
  shows "pvp_ok v t accs \<and> ordered s t"
  using assms(1,3)
proof (induction os arbitrary: s)
  case (Cons o1 os)
  obtain s1 where s1: "dispatchFromState hyp s (fst o1) (snd o1) Player speed [] = Inr s1" "send_orders hyp speed os s1 = Inr t"
    using Cons.prems(2) by (auto simp: send_orders_def rbind_eq_Inr case_prod_unfold)
  have "order_ok v accs (fst o1) s s1" by (rule dispatchFromState_ok [OF Cons.prems(1) assms(2) _ s1(1)]) simp
  then show ?case using Cons.IH [OF _ s1(2)] ordered_trans unfolding order_ok_def by blast
qed (simp add: send_orders_def ordered_def same_map_def)

section \<open>The bot's turn\<close>

lemma bot_dispatch_same:
  assumes "same_match (gs_state sc) (rp_state r)" "dispatch_ai_move hyp (enemyArmySpeed cfg) mv r = Inr r'"
  shows "\<exists>s'. bot_dispatch hyp fresh cfg mv sc = Inr (sc\<lparr>gs_state := s', gs_drawn := Suc (gs_drawn sc)\<rparr>)
    \<and> same_match s' (rp_state r')"
proof -
  obtain t where t: "dispatchFromState hyp (rp_state r) (am_from mv) (am_to mv) Enemy (enemyArmySpeed cfg)
      (ai_army_id (rp_aiIndex r)) = Inr t" "rp_state r' = t"
    using assms(2) by (auto simp: dispatch_ai_move_def rbind_eq_Inr)
  obtain t' where t': "dispatchFromState hyp (gs_state sc) (am_from mv) (am_to mv) Enemy (enemyArmySpeed cfg)
      (fresh (gs_drawn sc)) = Inr t'" "same_match t t'"
    using dispatchFromState_same [OF same_match_sym [OF assms(1)] t(1)] by blast
  have "bot_dispatch hyp fresh cfg mv sc = Inr (sc\<lparr>gs_state := t', gs_drawn := Suc (gs_drawn sc)\<rparr>)"
    using t'(1)
    by (auto simp: dispatchFromState_def bot_dispatch_def rbind_eq_Inr Let_def split: option.splits dispatch_result.splits)
  with t'(2) t(2) show ?thesis using same_match_sym by blast
qed

lemma bot_dispatches_same:
  assumes "same_match (gs_state sc) (rp_state r)" "fold_res (dispatch_ai_move hyp (enemyArmySpeed cfg)) ms r = Inr r'"
  shows "\<exists>s' n. fold_res (bot_dispatch hyp fresh cfg) ms sc = Inr (sc\<lparr>gs_state := s', gs_drawn := n\<rparr>)
    \<and> same_match s' (rp_state r')"
  using assms
proof (induction ms arbitrary: sc r)
  case (Cons mv ms)
  obtain r1 where r1: "dispatch_ai_move hyp (enemyArmySpeed cfg) mv r = Inr r1"
    "fold_res (dispatch_ai_move hyp (enemyArmySpeed cfg)) ms r1 = Inr r'"
    using Cons.prems(2) by (auto simp: rbind_eq_Inr)
  obtain s1 where s1: "bot_dispatch hyp fresh cfg mv sc = Inr (sc\<lparr>gs_state := s1, gs_drawn := Suc (gs_drawn sc)\<rparr>)"
    "same_match s1 (rp_state r1)"
    using bot_dispatch_same [OF Cons.prems(1) r1(1)] by blast
  obtain s' n where "fold_res (bot_dispatch hyp fresh cfg) ms (sc\<lparr>gs_state := s1, gs_drawn := Suc (gs_drawn sc)\<rparr>)
      = Inr (sc\<lparr>gs_state := s', gs_drawn := n\<rparr>)" "same_match s' (rp_state r')"
    using Cons.IH [OF _ r1(2), of "sc\<lparr>gs_state := s1, gs_drawn := Suc (gs_drawn sc)\<rparr>"] s1(2) by auto
  then show ?case using s1(1) by auto
next
  case Nil
  then show ?case by (intro exI [of _ "gs_state sc"] exI [of _ "gs_drawn sc"]) simp
qed

lemma bot_spends_same:
  assumes "same_match (gs_state sc) (rp_state r)" "bot_ability hyp (sg_difficulty cfg) (enemyArmySpeed cfg) ms r = Inr (r', ms')"
  shows "\<exists>s'. bot_spends_ability hyp cfg ms sc = Inr (sc\<lparr>gs_state := s'\<rparr>, ms') \<and> same_match s' (rp_state r')"
proof -
  let ?c = "BOT_COMMANDER (sg_difficulty cfg)"
  obtain choice where choice: "chooseBotAbility hyp (rp_state r) Enemy ?c ms = Inr choice"
    using assms(2) by (auto simp: bot_ability_def rbind_eq_Inr)
  then have choice': "chooseBotAbility hyp (gs_state sc) Enemy ?c ms = Inr choice"
    using chooseBotAbility_same [OF assms(1)] by simp
  show ?thesis
  proof (cases choice)
    case None
    then have "r' = r" "ms' = ms" using assms(2) choice by (simp_all add: bot_ability_def)
    moreover have "bot_spends_ability hyp cfg ms sc = Inr (sc\<lparr>gs_state := gs_state sc\<rparr>, ms)"
      using choice' None by (simp add: bot_spends_ability_def)
    ultimately show ?thesis using assms(1) by blast
  next
    case (Some c)
    then have named: "?c \<noteq> None" using choice by (cases ?c) (simp_all add: chooseBotAbility_def)
    obtain x where x: "applyTeamAbility hyp (rp_state r) Enemy ?c (bc_sourceId c) (bc_targetId c) (enemyArmySpeed cfg)
        (ai_army_id (rp_aiIndex r)) = Inr x"
      using assms(2) choice Some by (auto simp: bot_ability_def rbind_eq_Inr)
    obtain x' where x': "applyTeamAbility hyp (gs_state sc) Enemy ?c (bc_sourceId c) (bc_targetId c) (enemyArmySpeed cfg)
        (''enemy_ability_'' @ nat_string (length (g_armies (gs_state sc)))) = Inr x'"
      "rel_option (\<lambda>a a'. same_match (ar_state a) (ar_state a')) x x'"
      using applyTeamAbility_same [OF same_match_sym [OF assms(1)] x] by blast
    show ?thesis
    proof (cases x)
      case None
      then have "r' = r" "ms' = ms" using assms(2) choice Some x by (simp_all add: bot_ability_def)
      moreover have "bot_spends_ability hyp cfg ms sc = Inr (sc\<lparr>gs_state := gs_state sc\<rparr>, ms)"
        using choice' Some x' None by (simp add: bot_spends_ability_def)
      ultimately show ?thesis using assms(1) by blast
    next
      case a: (Some a)
      then obtain a' where a': "x' = Some a'" "same_match (ar_state a) (ar_state a')" using x'(2) by (cases x') auto
      have "rp_state r' = ar_state a" "ms' = bc_moves c" using assms(2) choice Some x a by (auto simp: bot_ability_def)
      moreover have "bot_spends_ability hyp cfg ms sc = Inr (sc\<lparr>gs_state := ar_state a'\<rparr>, bc_moves c)"
        using choice' Some x'(1) a'(1) named by (simp add: bot_spends_ability_def)
      ultimately show ?thesis using same_match_sym [OF a'(2)] by auto
    qed
  qed
qed

lemma bot_classic_same:
  assumes "same_match (gs_state sc) (rp_state r)" "wf_board (g_territories (rp_state r))"
    and "\<not> usesTacticalRules (g_rules (rp_state r))"
    and "evaluateAiMove hyp (g_territories (rp_state r)) Enemy 8 = Some mv"
    and "dispatch_ai_move hyp (enemyArmySpeed cfg) mv r = Inr r'"
  shows "\<exists>s' n. bot_classic_move hyp fresh cfg sc = Inr (sc\<lparr>gs_state := s', gs_drawn := n\<rparr>) \<and> same_match s' (rp_state r')"
proof -
  note same = same_matchD [OF assms(1)]
  let ?ts = "g_territories (gs_state sc)"
  have legal: "legal_move hyp (rp_state r) Enemy mv" by (rule evaluateAiMove_legal [OF assms(2-4)])
  then obtain src tgt where st: "obj_get ?ts (am_from mv) = Some src" "obj_get ?ts (am_to mv) = Some tgt"
    by (auto simp: legal_move_def same(7))
  have ids: "t_id src = am_from mv" "t_id tgt = am_to mv"
    using wf_boardD [OF assms(2)] st by (auto simp: same(7) wf_tower_def)
  have "dispatchArmy hyp src tgt Enemy (1 / 2) (fresh (gs_drawn sc)) (Finite (enemyArmySpeed cfg)) None
      = dispatchArmy hyp src tgt Enemy (1 / 2) (fresh (gs_drawn sc)) (Finite (enemyArmySpeed cfg)) (Some (gs_state sc))"
    by (rule dispatchArmy_classic [symmetric]) (use assms(3) st ids same(1) in simp_all)
  then have "bot_classic_move hyp fresh cfg sc = bot_dispatch hyp fresh cfg mv sc"
    using st ids assms(4) by (simp add: bot_classic_move_def bot_dispatch_def same(7) Let_def cong: dispatch_result.case_cong)
  then show ?thesis using bot_dispatch_same [OF assms(1,5), of fresh] by metis
qed

lemma executeAiTurn_same:
  assumes same: "same_match (gs_state sc) (rp_state r)" and ok: "wf_board (g_territories (rp_state r))" "rp_playing r"
    and turn: "executeAiAction hyp (scene_options cfg as) r = Inr r'"
  shows "\<exists>s' n. executeAiTurn hyp fresh cfg sc = Inr (sc\<lparr>gs_state := s', gs_drawn := n\<rparr>) \<and> same_match s' (rp_state r')"
proof (cases "usesTacticalRules (g_rules (rp_state r))")
  case True
  obtain ms r1 ms1 where 1: "evaluateTacticalMoves hyp (rp_state r) Enemy (Finite (enemyArmySpeed cfg)) = Inr ms"
    "bot_ability hyp (sg_difficulty cfg) (enemyArmySpeed cfg) ms r = Inr (r1, ms1)"
    "fold_res (dispatch_ai_move hyp (enemyArmySpeed cfg)) ms1 r1 = Inr r'"
    using turn ok(2) True by (auto simp: executeAiAction_def rbind_eq_Inr Let_def)
  obtain s1 where s1: "bot_spends_ability hyp cfg ms sc = Inr (sc\<lparr>gs_state := s1\<rparr>, ms1)" "same_match s1 (rp_state r1)"
    using bot_spends_same [OF same 1(2)] by blast
  have "same_match (gs_state (sc\<lparr>gs_state := s1\<rparr>)) (rp_state r1)" using s1(2) by simp
  from bot_dispatches_same [OF this 1(3), of fresh] obtain s' n where
    "fold_res (bot_dispatch hyp fresh cfg) ms1 (sc\<lparr>gs_state := s1\<rparr>) = Inr (sc\<lparr>gs_state := s', gs_drawn := n\<rparr>)"
    "same_match s' (rp_state r')" by auto
  then show ?thesis using True 1(1) s1(1) same_matchD(1) [OF same] evaluateTacticalMoves_same [OF same]
    by (auto simp: executeAiTurn_def)
next
  case False
  show ?thesis
  proof (cases "evaluateAiMove hyp (g_territories (rp_state r)) Enemy 8")
    case None
    then have "r' = r" using turn ok(2) False by (simp add: executeAiAction_def Let_def)
    moreover have "executeAiTurn hyp fresh cfg sc = Inr (sc\<lparr>gs_state := gs_state sc, gs_drawn := gs_drawn sc\<rparr>)"
      using None False same_matchD(1,7) [OF same] by (simp add: executeAiTurn_def bot_classic_move_def)
    ultimately show ?thesis using same by blast
  next
    case (Some mv)
    then have "dispatch_ai_move hyp (enemyArmySpeed cfg) mv r = Inr r'" using turn ok(2) False by (simp add: executeAiAction_def Let_def)
    from bot_classic_same [OF same ok(1) False Some this, of fresh] show ?thesis
      using False same_matchD(1) [OF same] by (simp add: executeAiTurn_def)
  qed
qed

section \<open>The scene and the server at one time\<close>

abbreviation scene_rules :: "scene_config \<Rightarrow> num option" where "scene_rules cfg \<equiv> Some (sg_rules cfg)"

definition on_track ::
  "hypot_fn \<Rightarrow> scene_config \<Rightarrow> game_state \<Rightarrow> nat \<Rightarrow> game_state \<Rightarrow> num obj \<Rightarrow> num \<Rightarrow> pvp_action list \<Rightarrow> bool" where
  "on_track hyp cfg s0 k s accs ai as \<longleftrightarrow> (\<exists>r. follows hyp (scene_options cfg []) (scene_rules cfg) s0 as k r
     \<and> same_match s (rp_state r) \<and> accs = rp_accumulators r \<and> ai = rp_nextAi r)"

definition at_verdict ::
  "hypot_fn \<Rightarrow> scene_config \<Rightarrow> game_state \<Rightarrow> nat \<Rightarrow> game_state \<Rightarrow> pvp_action list \<Rightarrow> bool" where
  "at_verdict hyp cfg s0 k s as \<longleftrightarrow> (\<exists>r. decided hyp (scene_options cfg []) (scene_rules cfg) s0 as k r
     \<and> g_status s = g_status (rp_state r) \<and> g_elapsed s = g_elapsed (rp_state r)
     \<and> unsent_stats (g_stats s) = unsent_stats (g_stats (rp_state r)))"

definition tracked ::
  "hypot_fn \<Rightarrow> scene_config \<Rightarrow> game_state \<Rightarrow> game_state \<Rightarrow> num obj \<Rightarrow> num \<Rightarrow> pvp_action list \<Rightarrow> bool" where
  "tracked hyp cfg s0 s accs ai as \<longleftrightarrow> pvp_ok (scene_rules cfg) s accs \<and> (\<exists>k\<le>4500. g_elapsed s = clock k \<and> orders_ok as k
     \<and> (if g_status s = Playing then on_track hyp cfg s0 k s accs ai as else at_verdict hyp cfg s0 k s as))"

lemma follows_clock: "follows hyp opts v s0 as k r \<Longrightarrow> hasCaptureRecovery v
  \<Longrightarrow> rp_playing r \<and> k < 4500 \<and> g_elapsed (rp_state r) = clock k \<and> rp_tick r = k \<and> replay_ok v r"
  using aligned_playing [of v r] by (auto simp: follows_def served_def replay_ok_def clock_def)

lemma tracked_playing:
  assumes "follows hyp (scene_options cfg []) (scene_rules cfg) s0 as k r" "same_match s (rp_state r)"
    and "hasCaptureRecovery (scene_rules cfg)" "orders_ok as k"
  shows "tracked hyp cfg s0 s (rp_accumulators r) (rp_nextAi r) as \<and> g_status s = Playing"
proof -
  note at = follows_clock [OF assms(1,3)]
  note same = same_matchD [OF assms(2)]
  have "pvp_ok (scene_rules cfg) s (rp_accumulators r)"
    by (rule pvp_ok_same [OF assms(2)]) (use at in \<open>simp add: replay_ok_def\<close>)
  then show ?thesis using at same(8,9) assms(1,2,4) unfolding tracked_def on_track_def by (auto intro!: exI [of _ k])
qed

lemma tracked_start:
  assumes "replayed cfg" "createUpgradedMatchState cfg = Inr s0"
  shows "tracked hyp cfg s0 s0 [] (getBotAiTickSeconds (sg_difficulty cfg)) [] \<and> g_status s0 = Playing"
proof -
  let ?opts = "scene_options cfg []"
  have cfg: "options_ok ?opts" "hasCaptureRecovery (scene_rules cfg)" "\<not> sg_training cfg"
    using assms(1) unfolding replayed_def by blast+
  have s0: "createInitialGameState (pvp_initial_options ?opts) = Inr s0"
    using assms(2) createUpgradedMatchState_replay [OF cfg(3)] by metis
  have version: "initial_version (pvp_initial_options ?opts) = sg_rules cfg" by (rule scene_options_sel)
  have start: "aligned (g_rules s0) (replay_start ?opts s0) \<and> rp_playing (replay_start ?opts s0)
      \<and> g_rules s0 = scene_rules cfg"
    using replay_start_aligned [OF cfg(1) s0] cfg(2) unfolding version by blast
  then have "follows hyp ?opts (scene_rules cfg) s0 [] 0 (replay_start ?opts s0)"
    by (metis follows_start)
  from tracked_playing [OF this _ cfg(2) orders_ok_Nil, of s0]
  show ?thesis by (simp add: replay_start_def)
qed

section \<open>A tick\<close>

lemma arrivals_unseen:
  assumes "gs_tutorial sc = None" "\<forall>c\<in>set cs. obj_get (g_territories (gs_state sc)) (c_targetId c) \<noteq> None"
  shows "fold_res onCombatArrival cs sc = Inr sc"
  using assms(2) by (induction cs) (auto simp: onCombatArrival_def with_tutorial_def assms(1))

lemma tick_body_step:
  assumes "tick_body hyp r = Inr r1"
  shows "\<exists>x. stepSimulation hyp (rp_state r) (rp_accumulators r) PVP_SIMULATION_TICK_SECONDS = Inr x
    \<and> r1 = r\<lparr>rp_state := sr_state x, rp_accumulators := sr_accumulators x, rp_tick := Suc (rp_tick r)\<rparr>"
  using assms by (auto simp: tick_body_def replay_step_def rbind_eq_Inr)

lemma clock_inject: "k \<le> 4500 \<Longrightarrow> k' \<le> 4500 \<Longrightarrow> clock k = clock k' \<Longrightarrow> k = k'"
  by (metis clock_target of_nat_eq_iff)

lemma bot_match_tick_tracked:
  assumes cfg: "replayed cfg" "hypot_ok hyp" and sc: "gs_lanes sc = None" "gs_tutorial sc = None" "g_status (gs_state sc) = Playing"
    and track: "tracked hyp cfg s0 (gs_state sc) (gs_accumulators sc) (gs_aiNextTick sc) as"
  shows "\<exists>s' accs ai n. bot_match_tick hyp fresh cfg sc = Some (Inr (sc\<lparr>gs_state := s', gs_accumulators := accs,
      gs_aiNextTick := ai, gs_drawn := n\<rparr>)) \<and> tracked hyp cfg s0 s' accs ai as
    \<and> (\<forall>k\<le>4500. g_elapsed (gs_state sc) = clock k \<longrightarrow> g_elapsed s' = clock (Suc k))"
proof -
  let ?opts = "scene_options cfg []" and ?v = "scene_rules cfg"
  have rec: "hasCaptureRecovery ?v" and live: "\<not> sg_training cfg" using cfg(1) by (simp_all add: replayed_def)
  obtain k r where k: "orders_ok as k" and r: "follows hyp ?opts ?v s0 as k r" "same_match (gs_state sc) (rp_state r)"
    "gs_accumulators sc = rp_accumulators r" "gs_aiNextTick sc = rp_nextAi r"
    using track sc(3) by (auto simp: tracked_def on_track_def)
  note at = follows_clock [OF r(1) rec]
  obtain r' where r': "replay_tick hyp ?opts r = Inr r'"
    "if rp_playing r' then follows hyp ?opts ?v s0 as (Suc k) r' else decided hyp ?opts ?v s0 as (Suc k) r'"
    using follows_tick [OF r(1) cfg(2)] by blast
  have al: "aligned ?v r" using r(1) by (simp add: follows_def)
  obtain n where n: "near_tick (rp_nextAi r) n" "rp_tick r < n" "n \<le> 4680" using al by (auto simp: aligned_def)
  obtain rt where rt: "tick_body hyp r = Inr rt" "replay_ok ?v rt" "rp_tick rt = Suc (rp_tick r)" "rp_nextAi rt = rp_nextAi r"
    using replay_tick_ok2 [OF al _ cfg(2)] at by blast
  obtain x where x: "stepSimulation hyp (rp_state r) (rp_accumulators r) PVP_SIMULATION_TICK_SECONDS = Inr x"
    "rt = r\<lparr>rp_state := sr_state x, rp_accumulators := sr_accumulators x, rp_tick := Suc (rp_tick r)\<rparr>"
    using tick_body_step [OF rt(1)] by blast
  obtain y where y: "stepSimulation hyp (gs_state sc) (rp_accumulators r) PVP_SIMULATION_TICK_SECONDS = Inr y"
    "same_match (sr_state y) (rp_state rt)" "sr_accumulators y = rp_accumulators rt"
    using stepSimulation_same [OF same_match_sym [OF r(2)] x(1)] same_match_sym x(2) by auto
  define sc1 where "sc1 = sc\<lparr>gs_state := sr_state y, gs_accumulators := sr_accumulators y\<rparr>"
  have wf: "wf_state (gs_state sc) (rp_accumulators r)" using track r(3) by (simp add: tracked_def pvp_ok_def)
  have "fold_res onCombatArrival (sr_arrivals y) sc1 = Inr sc1"
    using step_arrivals [OF wf tick_near(2) y(1)] sc(2) by (intro arrivals_unseen) (simp_all add: sc1_def)
  then have tick: "bot_match_tick hyp fresh cfg sc = Some (if bot_turn_due sc1
      then executeAiTurn hyp fresh cfg (sc1\<lparr>gs_aiNextTick := jadd (rp_nextAi r) (getBotAiTickSeconds (sg_difficulty cfg))\<rparr>)
      else Inr sc1)"
    using sc(1) live y(1) r(3,4) by (simp add: bot_match_tick_def match_step_def sc1_def Let_def)
  have elapsed: "g_elapsed (rp_state rt) = clock (Suc k)" "Suc k \<le> 4500"
    using rt(2,3) at rec by (simp_all add: replay_ok_def clock_def)
  have due: "bot_turn_due sc1 \<longleftrightarrow> turn_due rt"
  proof -
    have "jsub (rp_nextAi r) CLOCK_EPSILON \<le> clock (Suc k) \<longleftrightarrow> n \<le> Suc k"
      by (rule due_client [OF n(1)]) (use n elapsed in simp_all)
    moreover have "turn_due rt \<longleftrightarrow> rp_playing rt \<and> n \<le> Suc k"
      using turn_due_iff [of rt n] n rt(3,4) elapsed at by (auto simp: turn_due_def)
    ultimately show ?thesis using same_matchD(8,9) [OF y(2)] sc(1) r(4) elapsed by (simp add: bot_turn_due_def sc1_def)
  qed
  have later: "orders_ok as (Suc k)" by (rule orders_ok_later [OF k]) simp
  have clocked: "\<forall>k'\<le>4500. g_elapsed (gs_state sc) = clock k' \<longrightarrow> g_elapsed s' = clock (Suc k')"
    if "g_elapsed s' = clock (Suc k)" for s'
    using that at same_matchD(9) [OF r(2)] clock_inject [of k] by auto
  show ?thesis
  proof (cases "turn_due rt")
    case True
    then obtain r2 where r2: "executeAiAction hyp ?opts (at_clock rt) = Inr r2"
      "r' = r2\<lparr>rp_nextAi := jadd (rp_nextAi r2) (ai_tick ?opts)\<rparr>"
      using r'(1) rt(1) at by (auto simp: replay_tick_def bot_turn_def rbind_eq_Inr)
    have ok: "pvp_ok ?v (rp_state (at_clock rt)) (rp_accumulators rt)" using rt(2) by (simp add: replay_ok_def)
    have r2_ok: "ordered (rp_state rt) (rp_state r2)" "same_clock (at_clock rt) r2"
      using executeAiAction_ok [OF ok cfg(2), of ?opts] r2(1) by auto
    have on: "rp_playing rt" using True by (simp add: turn_due_def)
    have board: "wf_board (g_territories (rp_state (at_clock rt)))" using ok by (simp add: pvp_ok_def wf_match_def)
    define sc2 where "sc2 = sc1\<lparr>gs_aiNextTick := jadd (rp_nextAi r) (getBotAiTickSeconds (sg_difficulty cfg))\<rparr>"
    have "same_match (gs_state sc2) (rp_state (at_clock rt))" using y(2) by (simp add: sc2_def sc1_def)
    from executeAiTurn_same [OF this board _ r2(1), of fresh] on obtain s' m where
      s': "executeAiTurn hyp fresh cfg sc2 = Inr (sc2\<lparr>gs_state := s', gs_drawn := m\<rparr>)" "same_match s' (rp_state r2)" by auto
    have r'_sel: "rp_state r' = rp_state r2" "rp_accumulators r' = rp_accumulators rt"
      "rp_nextAi r' = jadd (rp_nextAi r) (getBotAiTickSeconds (sg_difficulty cfg))"
      using r2_ok(2) rt(4) by (simp_all add: r2(2) same_clock_def)
    have "rp_playing r'" using r2_ok(1) on by (simp add: r'_sel ordered_def)
    then have "follows hyp ?opts ?v s0 as (Suc k) r'" using r'(2) by simp
    from tracked_playing [OF this _ rec later, of s'] s'(2)
    have "tracked hyp cfg s0 s' (sr_accumulators y) (jadd (rp_nextAi r) (getBotAiTickSeconds (sg_difficulty cfg))) as"
      by (simp add: r'_sel y(3))
    moreover have "bot_match_tick hyp fresh cfg sc = Some (Inr (sc\<lparr>gs_state := s', gs_accumulators := sr_accumulators y,
        gs_aiNextTick := jadd (rp_nextAi r) (getBotAiTickSeconds (sg_difficulty cfg)), gs_drawn := m\<rparr>))"
      using tick due True s'(1) by (simp add: sc2_def sc1_def)
    moreover have "g_elapsed s' = clock (Suc k)"
      using same_matchD(9) [OF s'(2)] r2_ok(1) elapsed(1) by (simp add: ordered_def)
    ultimately show ?thesis using clocked by blast
  next
    case False
    then have r'_rt: "r' = rt" using r'(1) rt(1) at by (simp add: replay_tick_def)
    have ticked: "bot_match_tick hyp fresh cfg sc = Some (Inr (sc\<lparr>gs_state := sr_state y, gs_accumulators := sr_accumulators y,
        gs_aiNextTick := rp_nextAi r, gs_drawn := gs_drawn sc\<rparr>))"
      using tick due False r(4) by (simp add: sc1_def)
    have "tracked hyp cfg s0 (sr_state y) (sr_accumulators y) (rp_nextAi r) as"
    proof (cases "rp_playing rt")
      case True
      then have "follows hyp ?opts ?v s0 as (Suc k) rt" using r'(2) r'_rt by simp
      from tracked_playing [OF this y(2) rec later] show ?thesis using y(3) rt(4) by simp
    next
      case over: False
      then have "decided hyp ?opts ?v s0 as (Suc k) rt" using r'(2) r'_rt by simp
      moreover have "pvp_ok ?v (sr_state y) (sr_accumulators y)"
        unfolding y(3) by (rule pvp_ok_same [OF y(2)]) (use rt(2) in \<open>simp add: replay_ok_def\<close>)
      ultimately show ?thesis using same_matchD(8,9,11) [OF y(2)] over elapsed later
        unfolding tracked_def at_verdict_def by (auto intro!: exI [of _ "Suc k"])
    qed
    with ticked show ?thesis using clocked same_matchD(9) [OF y(2)] elapsed(1) by metis
  qed
qed

section \<open>Orders of the player\<close>

text \<open>What the preview counts is at least what the strike sends.\<close>

lemma preview_covers_source:
  assumes "obj_get (g_territories s) i = Some src"
    and "preview_source hyp s (Some tgt) Player sp um i = Inr os"
    and "dispatch_source hyp tgt Player (1 / 2) sp names (Some s) src acc = Inr acc'"
  shows "length (md_armies acc') \<le> length (md_armies acc) + length os"
proof (cases "t_id src = t_id tgt")
  case False
  let ?n = "names (length (md_armies acc))"
  obtain e where e: "dispatchArmy hyp src tgt Player (1 / 2) ?n sp (Some s) = Inr e"
    using assms(3) False by (auto simp: dispatch_source_def rbind_eq_Inr)
  show ?thesis
  proof (cases e)
    case (DispatchFailed err)
    then show ?thesis using assms(3) False e by (simp add: dispatch_source_def)
  next
    case (Dispatched left m)
    obtain m' where "dispatchArmy hyp src tgt Player (1 / 2) (''preview_'' @ i) sp (Some s) = Inr (Dispatched left m')"
      using dispatchArmy_Dispatched_same [OF same_match_refl e [unfolded Dispatched]] by blast
    then show ?thesis using assms False e Dispatched by (auto simp: dispatch_source_def preview_source_def)
  qed
qed (use assms(3) in \<open>simp add: dispatch_source_def\<close>)

lemma preview_covers_strike:
  assumes "flat_map_res (preview_source hyp s (Some tgt) Player sp um) ids = Inr os"
    and "fold_res (dispatch_source hyp tgt Player (1 / 2) sp names (Some s))
      (List.map_filter (obj_get (g_territories s)) ids) acc = Inr acc'"
  shows "length (md_armies acc') \<le> length (md_armies acc) + length os"
  using assms
proof (induction ids arbitrary: os acc)
  case (Cons i ids)
  obtain os1 os2 where os: "preview_source hyp s (Some tgt) Player sp um i = Inr os1"
    "flat_map_res (preview_source hyp s (Some tgt) Player sp um) ids = Inr os2" "os = os1 @ os2"
    using Cons.prems(1) by (auto simp: flat_map_res_def rbind_eq_Inr)
  show ?case
  proof (cases "obj_get (g_territories s) i")
    case None
    then have "length (md_armies acc') \<le> length (md_armies acc) + length os2"
      using Cons.IH [OF os(2)] Cons.prems(2) by (simp add: List.map_filter_simps)
    then show ?thesis by (simp add: os(3))
  next
    case (Some src)
    then obtain acc1 where acc1: "dispatch_source hyp tgt Player (1 / 2) sp names (Some s) src acc = Inr acc1"
      "fold_res (dispatch_source hyp tgt Player (1 / 2) sp names (Some s))
        (List.map_filter (obj_get (g_territories s)) ids) acc1 = Inr acc'"
      using Cons.prems(2) by (auto simp: List.map_filter_simps rbind_eq_Inr)
    show ?thesis using preview_covers_source [OF Some os(1) acc1(1)] Cons.IH [OF os(2) acc1(2)] os(3) by simp
  qed
qed (simp add: List.map_filter_simps)

lemma with_tutorial_none: "gs_tutorial sc = None \<Longrightarrow> with_tutorial f sc = sc"
  by (simp add: with_tutorial_def)

lemma strike_frame:
  "g_status (strike_state s acc) = g_status s" "g_elapsed (strike_state s acc) = g_elapsed s"
  "unsent_stats (g_stats (strike_state s acc)) = unsent_stats (g_stats s)"
  by (simp_all add: strike_state_def unsent_simps)

text \<open>The sources of an order: the towers of the board among the selected ones, each once.\<close>

lemma strike_sources:
  assumes "wf_board ts" "distinct ids"
  shows "\<forall>src\<in>set (List.map_filter (obj_get ts) ids). obj_get ts (t_id src) = Some src"
    "distinct (map t_id (List.map_filter (obj_get ts) ids))" "set (map t_id (List.map_filter (obj_get ts) ids)) \<subseteq> set ids"
proof -
  have id: "obj_get ts i = Some t \<Longrightarrow> t_id t = i" for i t using wf_boardD [OF assms(1)] by (simp add: wf_tower_def)
  show "\<forall>src\<in>set (List.map_filter (obj_get ts) ids). obj_get ts (t_id src) = Some src"
    using id by (induction ids) (auto simp: List.map_filter_simps split: option.splits)
  show sub: "set (map t_id (List.map_filter (obj_get ts) ids)) \<subseteq> set ids" for ids
    using id by (induction ids) (auto simp: List.map_filter_simps split: option.splits)
  show "distinct (map t_id (List.map_filter (obj_get ts) ids))"
    using assms(2)
  proof (induction ids)
    case (Cons i ids)
    then show ?case using id sub [of ids] by (cases "obj_get ts i") (auto simp: List.map_filter_simps)
  qed (simp add: List.map_filter_simps)
qed

lemma strike_tracked:
  assumes cfg: "replayed cfg" "hypot_ok hyp" and track: "tracked hyp cfg s0 s accs ai as"
    and sent: "send_orders hyp (playerArmySpeed cfg) os s = Inr t" "same_match t (strike_state s acc)"
    and room: "length as + length os \<le> MAX_PVP_ACTIONS"
  shows "tracked hyp cfg s0 (strike_state s acc) accs ai (order_actions (recorded_seconds (g_elapsed s)) os as)"
proof -
  let ?opts = "scene_options cfg []" and ?v = "scene_rules cfg"
  have rec: "hasCaptureRecovery ?v" using cfg(1) by (simp add: replayed_def)
  obtain k where k: "k \<le> 4500" "g_elapsed s = clock k" "orders_ok as k" and ok: "pvp_ok ?v s accs"
    and at: "if g_status s = Playing then on_track hyp cfg s0 k s accs ai as else at_verdict hyp cfg s0 k s as"
    using track unfolding tracked_def by blast
  have rs: "recorded_seconds (g_elapsed s) = clock k" using recorded_clock [OF k(1)] by (simp add: recorded_seconds_def k(2))
  have fine: "orders_ok (order_actions (clock k) os as) k" by (rule orders_ok_strike [OF k(3) room k(1)])
  show ?thesis
  proof (cases "g_status s = Playing")
    case True
    then obtain r where r: "follows hyp ?opts ?v s0 as k r" "same_match s (rp_state r)" "accs = rp_accumulators r" "ai = rp_nextAi r"
      using at by (auto simp: on_track_def)
    have "send_orders hyp (army_speed (px_playerModifiers ?opts)) os s = Inr t" using sent(1) by simp
    from follows_strike [OF r(1) cfg(2) r(2) this] obtain r' where
      r': "follows hyp ?opts ?v s0 (order_actions (clock k) os as) k r'" "same_match t (rp_state r')"
        "rp_accumulators r' = rp_accumulators r" "rp_nextAi r' = rp_nextAi r" by blast
    have "same_match (strike_state s acc) (rp_state r')" by (rule same_match_trans [OF same_match_sym [OF sent(2)] r'(2)])
    from tracked_playing [OF r'(1) this rec fine] show ?thesis using r(3,4) r'(3,4) by (simp add: rs)
  next
    case False
    then obtain r where r: "decided hyp ?opts ?v s0 as k r" "g_status s = g_status (rp_state r)"
      "g_elapsed s = g_elapsed (rp_state r)" "unsent_stats (g_stats s) = unsent_stats (g_stats (rp_state r))"
      using at by (auto simp: at_verdict_def)
    have "pvp_ok ?v (strike_state s acc) accs"
      by (rule pvp_ok_same [OF same_match_sym [OF sent(2)]]) (use send_orders_ok [OF ok cfg(2) sent(1)] in blast)
    moreover have "at_verdict hyp cfg s0 k (strike_state s acc) (order_actions (clock k) os as)"
      using decided_strike [OF r(1), of os] r(2-4) unfolding at_verdict_def strike_frame by blast
    ultimately show ?thesis using k(1,2) fine False unfolding tracked_def strike_frame rs by auto
  qed
qed

lemma dispatch_selected_tracked:
  assumes cfg: "replayed cfg" "hypot_ok hyp" and sc: "gs_tutorial sc = None"
    and track: "tracked hyp cfg s0 (gs_state sc) (gs_accumulators sc) (gs_aiNextTick sc) (gs_actions sc)"
    and ids: "distinct ids" "j \<notin> set ids" "obj_get (g_territories (gs_state sc)) j = Some tgt"
  shows "\<exists>s' as n. dispatch_selected hyp fresh cfg ids j (List.map_filter (obj_get (g_territories (gs_state sc))) ids) tgt sc
      = Inr (sc\<lparr>gs_state := s', gs_actions := as, gs_drawn := n\<rparr>)
    \<and> tracked hyp cfg s0 s' (gs_accumulators sc) (gs_aiNextTick sc) as \<and> g_status s' = g_status (gs_state sc)"
proof -
  let ?s = "gs_state sc" and ?sources = "List.map_filter (obj_get (g_territories (gs_state sc))) ids"
  let ?speed = "playerArmySpeed cfg" and ?names = "\<lambda>k. fresh (gs_drawn sc + k)"
  have same: "\<exists>s' as n. Inr sc = Inr (sc\<lparr>gs_state := s', gs_actions := as, gs_drawn := n\<rparr>)
      \<and> tracked hyp cfg s0 s' (gs_accumulators sc) (gs_aiNextTick sc) as \<and> g_status s' = g_status ?s"
    using track by (intro exI [of _ ?s] exI [of _ "gs_actions sc"] exI [of _ "gs_drawn sc"]) simp
  have wf: "wf_match ?s" "wf_board (g_territories ?s)" using track by (simp_all add: tracked_def pvp_ok_def wf_match_def)
  note sources = strike_sources [OF wf(2) ids(1)]
  have tgt: "t_id tgt = j" using wf_boardD [OF wf(2) ids(3)] by (simp add: wf_tower_def)
  obtain p where p: "previewOrder hyp ?s ids j Player (Finite ?speed) 1 = Inr p"
    using previewOrder_total [OF wf(1) cfg(2), of Player ids j "Finite ?speed" 1] by auto
  then have orders: "flat_map_res (preview_source hyp ?s (Some tgt) Player (Finite ?speed) 1) ids = Inr (op_orders p)"
    by (auto simp: previewOrder_def Let_def rbind_eq_Inr ids(3))
  obtain acc t where acc: "dispatchMultipleArmies hyp ?sources tgt Player (1 / 2) (Finite ?speed) ?names (Some ?s) = Inr acc"
    "send_orders hyp ?speed (map army_order (md_armies acc)) ?s = Inr t" "same_match t (strike_state ?s acc)"
    using strike_sequential [OF cfg(2) sources(1,2), of tgt ?speed ?names] ids(2,3) sources(3) tgt by auto
  have less: "length (md_armies acc) \<le> length (op_orders p)"
    using preview_covers_strike [OF orders] acc(1) by (fastforce simp: dispatchMultipleArmies_def)
  show ?thesis
  proof (cases "MAX_PVP_ACTIONS < length (gs_actions sc) + length (op_orders p) \<or> md_armies acc = []")
    case True
    then have "dispatch_selected hyp fresh cfg ids j ?sources tgt sc = Inr sc"
      using p acc(1) by (auto simp: dispatch_selected_def Let_def)
    then show ?thesis using same by simp
  next
    case False
    then have room: "length (gs_actions sc) + length (map army_order (md_armies acc)) \<le> MAX_PVP_ACTIONS" using less by simp
    let ?as = "order_actions (recorded_seconds (g_elapsed ?s)) (map army_order (md_armies acc)) (gs_actions sc)"
    let ?sc = "sc\<lparr>gs_state := strike_state ?s acc, gs_actions := ?as, gs_drawn := gs_drawn sc + length (md_armies acc)\<rparr>"
    have "recordDispatchActions (md_armies acc) (sc\<lparr>gs_state := strike_state ?s acc,
        gs_drawn := gs_drawn sc + length (md_armies acc)\<rparr>) = ?sc"
      using record_dispatch_orders [of "gs_actions sc" "md_armies acc"] room
      by (simp add: recordDispatchActions_def strike_frame)
    then have "dispatch_selected hyp fresh cfg ids j ?sources tgt sc = Inr ?sc"
      using False p acc(1) sc unfolding dispatch_selected_def Let_def strike_state_def [symmetric]
      by (simp add: with_tutorial_none)
    moreover have "tracked hyp cfg s0 (strike_state ?s acc) (gs_accumulators sc) (gs_aiNextTick sc) ?as"
      by (rule strike_tracked [OF cfg track acc(2,3) room])
    ultimately show ?thesis using strike_frame(1) by blast
  qed
qed

text \<open>The player's ability; after the verdict it is refused.\<close>

lemma tryUseAbility_tracked:
  assumes cfg: "replayed cfg" "hypot_ok hyp"
    and track: "tracked hyp cfg s0 (gs_state sc) (gs_accumulators sc) (gs_aiNextTick sc) (gs_actions sc)"
  shows "\<exists>s' as b. tryUseAbility hyp cfg i j sc = Inr (sc\<lparr>gs_state := s', gs_actions := as, gs_targeting := b\<rparr>)
    \<and> tracked hyp cfg s0 s' (gs_accumulators sc) (gs_aiNextTick sc) as \<and> g_status s' = g_status (gs_state sc)"
proof -
  let ?s = "gs_state sc" and ?opts = "scene_options cfg []" and ?v = "scene_rules cfg"
  let ?name = "''player_ability_'' @ nat_string (length (gs_actions sc))"
  have rec: "hasCaptureRecovery ?v" using cfg(1) by (simp add: replayed_def)
  have stay: "\<exists>s' as b. tryUseAbility hyp cfg i j sc = Inr (sc\<lparr>gs_state := s', gs_actions := as, gs_targeting := b\<rparr>)
      \<and> tracked hyp cfg s0 s' (gs_accumulators sc) (gs_aiNextTick sc) as \<and> g_status s' = g_status ?s" if "tryUseAbility hyp cfg i j sc = Inr sc"
    using track that by (intro exI [of _ ?s] exI [of _ "gs_actions sc"] exI [of _ "gs_targeting sc"]) simp
  obtain k where k: "k \<le> 4500" "g_elapsed ?s = clock k" "orders_ok (gs_actions sc) k"
    and ok: "pvp_ok ?v ?s (gs_accumulators sc)"
    and at: "if g_status ?s = Playing then on_track hyp cfg s0 k ?s (gs_accumulators sc) (gs_aiNextTick sc) (gs_actions sc)
      else at_verdict hyp cfg s0 k ?s (gs_actions sc)"
    using track unfolding tracked_def by blast
  obtain x where x: "applyTeamAbility hyp ?s Player (abilityCommanderId cfg) i j (playerArmySpeed cfg) ?name = Inr x"
    "\<forall>a. x = Some a \<longrightarrow> ability_ok ?v (gs_accumulators sc) Player i j ?s a"
    using applyTeamAbility_ok [OF ok cfg(2), of Player] by blast
  show ?thesis
  proof (cases "abilityCommanderId cfg = None \<or> MAX_PVP_ACTIONS \<le> length (gs_actions sc) \<or> x = None")
    case True
    then have "tryUseAbility hyp cfg i j sc = Inr sc" using x(1) by (auto simp: tryUseAbility_def applyPlayerAbility_def)
    then show ?thesis by (rule stay)
  next
    case False
    then obtain a where a: "x = Some a" by blast
    have commander: "abilityCommanderId cfg = px_commanderId ?opts" using False by (auto simp: abilityCommanderId_def split: if_splits)
    have playing: "g_status ?s = Playing"
      using x(1) a by (auto simp: applyTeamAbility_def split: option.splits if_splits)
    then obtain r where r: "follows hyp ?opts ?v s0 (gs_actions sc) k r" "same_match ?s (rp_state r)"
      "gs_accumulators sc = rp_accumulators r" "gs_aiNextTick sc = rp_nextAi r"
      using at by (auto simp: on_track_def)
    define act where "act = \<lparr>pa_sequence = Finite (of_nat (length (gs_actions sc))), pa_at = Finite (clock k),
      pa_sourceId = i, pa_targetId = j, pa_kind = Some ''ability''\<rparr>"
    obtain x' where x': "applyTeamAbility hyp (rp_state r) Player (abilityCommanderId cfg) i j (playerArmySpeed cfg)
        (player_army_id act) = Inr x'" "rel_option (\<lambda>a a'. same_match (ar_state a) (ar_state a')) x x'"
      using applyTeamAbility_same [OF r(2) x(1)] by blast
    then obtain a' where a': "x' = Some a'" "same_match (ar_state a) (ar_state a')" using a by (cases x') auto
    define r' where "r' = (at_clock r)\<lparr>rp_state := ar_state a', rp_actionIndex := Suc (rp_actionIndex (at_clock r))\<rparr>"
    have "player_action hyp ?opts act (at_clock r) = Inr r'"
      using x'(1) a'(1) commander by (simp add: player_action_def applyPlayerAbility_def r'_def act_def)
    from follows_order [OF r(1) cfg(2) _ this] have f: "follows hyp ?opts ?v s0 (gs_actions sc @ [act]) k r'"
      by (simp add: act_def)
    have fine: "orders_ok (gs_actions sc @ [act]) k"
      by (rule orders_ok_snoc [OF k(3) _ k(1)]) (use False in \<open>simp_all add: act_def\<close>)
    have "same_match (ar_state a) (rp_state r')" using a'(2) by (simp add: r'_def)
    from tracked_playing [OF f this rec fine] have
      after: "tracked hyp cfg s0 (ar_state a) (gs_accumulators sc) (gs_aiNextTick sc) (gs_actions sc @ [act])"
      using r(3,4) by (simp add: r'_def)
    have "g_elapsed (ar_state a) = clock k"
      using x(2) a k(2) by (simp add: ability_ok_def order_ok_def ordered_def)
    then have "tryUseAbility hyp cfg i j sc = Inr (sc\<lparr>gs_state := ar_state a, gs_actions := gs_actions sc @ [act], gs_targeting := False\<rparr>)"
      using False x(1) a recorded_clock [OF k(1)]
      by (auto simp add: tryUseAbility_def applyPlayerAbility_def act_def recorded_seconds_def)
    moreover have "g_status (ar_state a) = g_status ?s" using x(2) a by (simp add: ability_ok_def order_ok_def ordered_def)
    ultimately show ?thesis using after by blast
  qed
qed

section \<open>The server's answer\<close>

lemma tracked_settles:
  assumes cfg: "replayed cfg" "hypot_ok hyp" "createUpgradedMatchState cfg = Inr s0"
    and track: "tracked hyp cfg s0 s accs ai as" and over: "g_status s \<noteq> Playing"
  shows "\<exists>res. simulatePvpBattle hyp (scene_options cfg as) = Some (Inr res)
    \<and> bs_status (pv_summary res) = g_status s \<and> bs_duration (pv_summary res) = math_floor (g_elapsed s)
    \<and> unsent_stats (bs_stats (pv_summary res)) = unsent_stats (g_stats s)"
proof -
  let ?opts = "scene_options cfg []" and ?v = "scene_rules cfg"
  have live: "\<not> sg_training cfg" and rec: "hasCaptureRecovery ?v" using cfg(1) by (simp_all add: replayed_def)
  have s0: "createInitialGameState (pvp_initial_options ?opts) = Inr s0"
    using createUpgradedMatchState_replay [OF live] cfg(3) by metis
  obtain k r where k: "orders_ok as k" and r: "decided hyp ?opts ?v s0 as k r" "g_status s = g_status (rp_state r)"
    "g_elapsed s = g_elapsed (rp_state r)" "unsent_stats (g_stats s) = unsent_stats (g_stats (rp_state r))"
    using track over by (auto simp: tracked_def at_verdict_def)
  obtain r2 where r2: "run_bind (replay_actions hyp ?opts True CLOCK_EPSILON as (replay_start ?opts s0))
      (replay_finish hyp ?opts True CLOCK_EPSILON) = Some (Inr r2)" "rp_state r2 = rp_state r"
    using decided_replay [OF r(1) cfg(2) rec] by blast
  have rules: "g_rules s0 = ?v"
    using replay_start_aligned [OF _ s0] cfg(1) rec by (simp add: replayed_def)
  have "validateActions as = Inr ()" using k by (simp add: orders_ok_def validateActions_def)
  moreover have "run_bind (replay_actions hyp (scene_options cfg as) True CLOCK_EPSILON as (replay_start (scene_options cfg as) s0))
      (replay_finish hyp (scene_options cfg as) True CLOCK_EPSILON) = Some (Inr r2)"
    using r2(1) by (simp only: replay_actions_actions [of hyp cfg as] replay_finish_actions [of hyp cfg as]
        replay_start_actions_eq [of cfg as])
  moreover have "(?v = Some 2 \<or> usesTacticalRules ?v) = True" using rec currentRules_iff by blast
  ultimately have "simulatePvpBattle hyp (scene_options cfg as) = Some (Inr \<lparr>pv_finalState = rp_state r2, pv_summary = replay_summary r2\<rparr>)"
    unfolding simulatePvpBattle_def
    by (simp add: scene_initial_options [of cfg as] s0 rules Let_def run_bind_assoc [symmetric] del: replay_actions.simps)
  then show ?thesis using r(2-4) r2(2) over by (auto simp: replay_summary_def)
qed

end
