(* ===== verification/SceneReplay.thy ===== *)
theory SceneReplay
  imports SceneFacts
begin

text \<open>
  The whole bot battle: an invariant of everything that can happen to the scene, from which the orders it sends for
  settlement are replayed to the verdict the player saw, also after the battle was closed and opened again.
\<close>

section \<open>The invariant\<close>

text \<open>The part of the scene that the replay knows, and what becomes of it.\<close>

definition core where
  "core sc = (gs_state sc, gs_accumulators sc, gs_aiNextTick sc, gs_actions sc, gs_lanes sc, gs_tutorial sc, gs_saved sc,
     gs_sent sc, gs_phase sc)"

definition settles :: "hypot_fn \<Rightarrow> scene_config \<Rightarrow> match_status \<Rightarrow> pvp_action list \<Rightarrow> bool" where
  "settles hyp cfg st as \<longleftrightarrow> (\<exists>res. simulatePvpBattle hyp (scene_options cfg as) = Some (Inr res) \<and> bs_status (pv_summary res) = st)"

definition tracked_scene :: "hypot_fn \<Rightarrow> scene_config \<Rightarrow> game_state \<Rightarrow> bot_scene \<Rightarrow> bool" where
  "tracked_scene hyp cfg s0 sc \<longleftrightarrow> tracked hyp cfg s0 (gs_state sc) (gs_accumulators sc) (gs_aiNextTick sc) (gs_actions sc)"

definition scene_inv :: "hypot_fn \<Rightarrow> scene_config \<Rightarrow> game_state \<Rightarrow> bot_scene \<Rightarrow> bool" where
  "scene_inv hyp cfg s0 sc \<longleftrightarrow> gs_lanes sc = None \<and> gs_tutorial sc = None \<and> distinct (gs_selected sc)
     \<and> tracked_scene hyp cfg s0 sc
     \<and> (\<forall>v \<in> set_option (gs_saved sc). tracked hyp cfg s0 (sv_state v) (sv_accumulators v) (sv_aiNextTick v) (sv_actions v))
     \<and> list_all (\<lambda>(st, as). settles hyp cfg st as) (gs_sent sc)
     \<and> (gs_phase sc = NotSettling \<or> g_status (gs_state sc) \<noteq> Playing)
     \<and> (gs_retryCard sc \<longrightarrow> g_status (gs_state sc) \<noteq> Playing)
     \<and> (gs_phase sc \<in> {Awaiting, Answered True} \<and> sg_kind cfg = RealmBattle
        \<longrightarrow> gs_sent sc \<noteq> [] \<and> fst (last (gs_sent sc)) = g_status (gs_state sc))"

text \<open>The server answers with the verdict of its replay.\<close>

definition honest :: "hypot_fn \<Rightarrow> scene_config \<Rightarrow> (pvp_action list \<Rightarrow> match_status) \<Rightarrow> bool" where
  "honest hyp cfg reply \<longleftrightarrow> (\<forall>as res. simulatePvpBattle hyp (scene_options cfg as) = Some (Inr res)
     \<longrightarrow> reply as = bs_status (pv_summary res))"

lemma honest_settles: "honest hyp cfg reply \<Longrightarrow> settles hyp cfg st as \<Longrightarrow> reply as = st"
  by (auto simp: honest_def settles_def)

text \<open>A step that only touches what the player sees.\<close>

definition quiet :: "bot_scene \<Rightarrow> bot_scene \<Rightarrow> bool" where
  "quiet sc sc' \<longleftrightarrow> core sc' = core sc \<and> (distinct (gs_selected sc) \<longrightarrow> distinct (gs_selected sc'))
     \<and> (gs_retryCard sc' \<longrightarrow> gs_retryCard sc)"

lemma quiet_refl [simp]: "quiet sc sc"
  by (simp add: quiet_def)

lemma quiet_trans: "quiet sc sc1 \<Longrightarrow> quiet sc1 sc2 \<Longrightarrow> quiet sc sc2"
  by (simp add: quiet_def)

lemma quiet_inv: "quiet sc sc' \<Longrightarrow> scene_inv hyp cfg s0 sc \<Longrightarrow> scene_inv hyp cfg s0 sc'"
  by (simp add: quiet_def core_def scene_inv_def tracked_scene_def)

lemma quiet_tutorial: "quiet sc sc' \<Longrightarrow> gs_tutorial sc' = gs_tutorial sc"
  by (simp add: quiet_def core_def)

lemma quiet_fold: "(\<And>x sc. quiet sc (f x sc)) \<Longrightarrow> quiet sc (fold f xs sc)"
  by (induction xs arbitrary: sc) (auto intro: quiet_trans)

named_theorems quiet_intros

lemma quiet_simple [quiet_intros]:
  "quiet sc (cancelDragSelection sc)" "quiet sc (linkFriendlySource o1 sc)" "quiet sc (startDragFromTerritory i sc)"
  "quiet sc (hover_target o1 sc)" "quiet sc (updateAbilityPresentation sc)" "quiet sc (returnToMenu sc)"
  "quiet sc (intro_phase_reached p sc)" "quiet sc (end_beat_over cfg sc)" "quiet sc (setAbilityTargeting b sc)"
  "quiet sc (abilityPressed sc)" "quiet sc (handleMatchMenuStateChange ms sc)"
  by (simp_all add: quiet_def core_def cancelDragSelection_def linkFriendlySource_def startDragFromTerritory_def
      hover_target_def updateAbilityPresentation_def returnToMenu_def intro_phase_reached_def end_beat_over_def
      setAbilityTargeting_def abilityPressed_def handleMatchMenuStateChange_def Let_def
      split: option.split button_state.split menu_state.split)

lemma quiet_drag_sources [quiet_intros]: "quiet sc (drag_sources hyp hovered world sc)"
proof -
  let ?link = "\<lambda>t sc. if Some (t_id t) \<noteq> map_option t_id hovered then linkFriendlySource (Some t) sc else sc"
  have start: "quiet sc (sc\<lparr>gs_lastDrag := p\<rparr>)" "quiet sc (sc\<lparr>gs_lastHovered := q\<rparr>)" for sc p q
    by (simp_all add: quiet_def core_def)
  have folded: "quiet sc (fold ?link xs (sc\<lparr>gs_lastDrag := p\<rparr>))" for xs p
    by (rule quiet_trans [OF start(1)], rule quiet_fold) (simp add: quiet_intros)
  have tail: "quiet sc (case gs_lastHovered S of None \<Rightarrow> S
      | Some i \<Rightarrow> if c i then (linkFriendlySource (f i) S)\<lparr>gs_lastHovered := None\<rparr> else S)" if "quiet sc S" for S c f
    using that quiet_trans [OF that quiet_trans [OF quiet_simple(2) start(2)]] by (simp split: option.split)
  show ?thesis unfolding drag_sources_def Let_def by (rule tail, rule folded)
qed

text \<open>The menu, and leaving; there is no training to skip.\<close>

lemma quiet_exit: "\<not> sg_training cfg \<Longrightarrow> quiet sc (handleMatchExitConfirmed cfg sc)"
proof -
  assume "\<not> sg_training cfg"
  moreover have "quiet sc (sc\<lparr>gs_modal := False\<rparr>)" by (simp add: quiet_def core_def)
  moreover note quiet_trans [OF this quiet_simple(6)]
  ultimately show ?thesis by (simp add: handleMatchExitConfirmed_def Let_def)
qed

lemma quiet_menu: "\<not> sg_training cfg \<Longrightarrow> quiet sc (with_menu cfg f sc)"
proof -
  assume cfg: "\<not> sg_training cfg"
  have "quiet sc (menu_effect_in cfg e sc)" for e sc
    by (cases e) (simp_all add: menu_effect_in_def quiet_intros quiet_exit [OF cfg])
  moreover have "quiet sc (sc\<lparr>gs_menu := m\<rparr>)" for m by (simp add: quiet_def core_def)
  ultimately show ?thesis unfolding with_menu_def Let_def by (metis quiet_fold quiet_trans)
qed

lemma quiet_paused: "\<not> sg_training cfg \<Longrightarrow> quiet sc (snd (scene_paused cfg sc))"
  by (simp add: scene_paused_def quiet_menu)

lemma quiet_back: "\<not> sg_training cfg \<Longrightarrow> quiet sc (backButtonPressed cfg sc)"
  by (simp add: backButtonPressed_def quiet_menu quiet_intros)

section \<open>Orders and frames\<close>

lemma inv_write:
  assumes "scene_inv hyp cfg s0 sc" "tracked hyp cfg s0 s' accs ai as" "g_status s' = g_status (gs_state sc)"
    and "core sc' = (s', accs, ai, as, gs_lanes sc, gs_tutorial sc, gs_saved sc, gs_sent sc, gs_phase sc)"
    and "gs_selected sc' = gs_selected sc" "gs_retryCard sc' = gs_retryCard sc"
  shows "scene_inv hyp cfg s0 sc'"
  using assms by (simp add: scene_inv_def tracked_scene_def core_def)

lemma inv_track: "scene_inv hyp cfg s0 sc
  \<Longrightarrow> tracked hyp cfg s0 (gs_state sc) (gs_accumulators sc) (gs_aiNextTick sc) (gs_actions sc)"
  by (simp add: scene_inv_def tracked_scene_def)

lemma dispatch_selected_inv:
  assumes "replayed cfg" "hypot_ok hyp" "scene_inv hyp cfg s0 sc"
    and "distinct ids" "j \<notin> set ids" "obj_get (g_territories (gs_state sc)) j = Some tgt"
  shows "\<exists>sc'. dispatch_selected hyp fresh cfg ids j (List.map_filter (obj_get (g_territories (gs_state sc))) ids) tgt sc = Inr sc'
    \<and> scene_inv hyp cfg s0 sc'"
proof -
  have "gs_tutorial sc = None" using assms(3) by (simp add: scene_inv_def)
  from dispatch_selected_tracked [OF assms(1,2) this inv_track [OF assms(3)] assms(4-6), of fresh] obtain s' as n where
    d: "dispatch_selected hyp fresh cfg ids j (List.map_filter (obj_get (g_territories (gs_state sc))) ids) tgt sc
      = Inr (sc\<lparr>gs_state := s', gs_actions := as, gs_drawn := n\<rparr>)"
    and t: "tracked hyp cfg s0 s' (gs_accumulators sc) (gs_aiNextTick sc) as" "g_status s' = g_status (gs_state sc)" by blast
  have "scene_inv hyp cfg s0 (sc\<lparr>gs_state := s', gs_actions := as, gs_drawn := n\<rparr>)"
    by (rule inv_write [OF assms(3) t]) (simp_all add: core_def)
  with d show ?thesis by blast
qed

lemma tryUseAbility_inv:
  assumes "replayed cfg" "hypot_ok hyp" "scene_inv hyp cfg s0 sc"
  shows "\<exists>sc'. tryUseAbility hyp cfg i j sc = Inr sc' \<and> scene_inv hyp cfg s0 sc'"
proof -
  from tryUseAbility_tracked [OF assms(1,2) inv_track [OF assms(3)], of i j] obtain s' as b where
    d: "tryUseAbility hyp cfg i j sc = Inr (sc\<lparr>gs_state := s', gs_actions := as, gs_targeting := b\<rparr>)"
    and t: "tracked hyp cfg s0 s' (gs_accumulators sc) (gs_aiNextTick sc) as" "g_status s' = g_status (gs_state sc)" by blast
  have "scene_inv hyp cfg s0 (sc\<lparr>gs_state := s', gs_actions := as, gs_targeting := b\<rparr>)"
    by (rule inv_write [OF assms(3) t]) (simp_all add: core_def)
  with d show ?thesis by blast
qed

lemma handlePointerRelease_inv:
  assumes "replayed cfg" "hypot_ok hyp" "scene_inv hyp cfg s0 sc"
  shows "\<exists>sc'. handlePointerRelease hyp fresh cfg sc = Inr sc' \<and> scene_inv hyp cfg s0 sc'"
proof -
  let ?sc = "sc\<lparr>gs_selected := [], gs_hovered := None, gs_lastHovered := None\<rparr>"
  have idle: "scene_inv hyp cfg s0 ?sc" by (rule quiet_inv [OF _ assms(3)]) (simp add: quiet_def core_def)
  have lanes: "gs_lanes sc = None" and ids: "distinct (gs_selected sc)" using assms(3) by (simp_all add: scene_inv_def)
  have "\<exists>sc'. release_on hyp fresh cfg (gs_selected sc) j ?sc = Inr sc' \<and> scene_inv hyp cfg s0 sc'"
    if "j \<notin> set (gs_selected sc)" for j
    using idle lanes tryUseAbility_inv [OF assms(1,2) idle] dispatch_selected_inv [OF assms(1,2) idle ids that]
    by (auto simp: release_on_def Let_def split: option.split)
  with idle assms(3) show ?thesis by (auto simp: handlePointerRelease_def Let_def split: option.split)
qed

lemma pointerUp_inv:
  assumes "replayed cfg" "hypot_ok hyp" "scene_inv hyp cfg s0 sc"
  shows "\<exists>sc'. pointerUp hyp fresh cfg sc = Inr sc' \<and> scene_inv hyp cfg s0 sc'"
proof -
  have "scene_inv hyp cfg s0 (sc\<lparr>gs_swipeFrom := None\<rparr>)"
    by (rule quiet_inv [OF _ assms(3)]) (simp add: quiet_def core_def)
  from this handlePointerRelease_inv [OF assms(1,2) this] show ?thesis
    by (auto simp: pointerUp_def Let_def intro: quiet_inv [OF quiet_simple(1)])
qed

lemma pointerDown_inv:
  assumes "replayed cfg" "hypot_ok hyp" "scene_inv hyp cfg s0 sc"
  shows "\<exists>sc'. pointerDown hyp between cfg p sc = Inr sc' \<and> scene_inv hyp cfg s0 sc'"
  using tryUseAbility_inv [OF assms] assms(3) quiet_inv [OF quiet_simple(3) assms(3)] quiet_inv [OF quiet_simple(9) assms(3)]
  by (auto simp: pointerDown_def Let_def scene_inv_def split: option.split)

lemma pointerMove_inv:
  assumes "replayed cfg" "hypot_ok hyp" "scene_inv hyp cfg s0 sc"
  shows "\<exists>sc'. pointerMove hyp between cfg p sc = Inr sc' \<and> scene_inv hyp cfg s0 sc'"
proof -
  let ?h = "getTerritoryUnderPointer between (g_territories (gs_state sc)) p"
  have q: "quiet sc (hover_target ?h (drag_sources hyp ?h p sc))"
    by (rule quiet_trans [OF quiet_drag_sources quiet_simple(4)])
  have lanes: "gs_lanes sc = None" using assms(3) by (simp add: scene_inv_def)
  define sc1 where "sc1 = hover_target ?h (drag_sources hyp ?h p sc)"
  have inv: "scene_inv hyp cfg s0 sc1" unfolding sc1_def by (rule quiet_inv [OF q assms(3)])
  then have wf: "wf_match (gs_state sc1)" and tut: "gs_tutorial sc1 = None"
    using inv_track [OF inv] by (simp_all add: tracked_def pvp_ok_def scene_inv_def)
  have "rbind (previewOrder hyp (gs_state sc1) ids j Player sp 1) (\<lambda>preview. Inr sc1) = Inr sc1" for ids j sp
    using previewOrder_total [OF wf assms(2), of Player ids j sp 1] by auto
  then have "preview_shown hyp cfg sc1 = Inr sc1"
    unfolding preview_shown_def Let_def with_tutorial_none [OF tut] if_cancel by (simp split: option.split)
  then show ?thesis using inv assms(3) lanes by (simp add: pointerMove_def sc1_def Let_def)
qed

lemma bot_match_tick_core:
  assumes "replayed cfg" "hypot_ok hyp" "scene_inv hyp cfg s0 sc" "g_status (gs_state sc) = Playing"
  shows "\<exists>s' accs ai n. bot_match_tick hyp fresh cfg sc = Some (Inr (sc\<lparr>gs_state := s', gs_accumulators := accs,
      gs_aiNextTick := ai, gs_drawn := n\<rparr>))
    \<and> scene_inv hyp cfg s0 (sc\<lparr>gs_state := s', gs_accumulators := accs, gs_aiNextTick := ai, gs_drawn := n\<rparr>)
    \<and> (\<forall>k\<le>4500. g_elapsed (gs_state sc) = clock k \<longrightarrow> g_elapsed s' = clock (Suc k))"
proof -
  have sc: "gs_lanes sc = None" "gs_tutorial sc = None" "gs_phase sc = NotSettling \<and> \<not> gs_retryCard sc"
    using assms(3,4) by (auto simp: scene_inv_def)
  obtain s' accs ai n where t: "bot_match_tick hyp fresh cfg sc = Some (Inr (sc\<lparr>gs_state := s', gs_accumulators := accs,
      gs_aiNextTick := ai, gs_drawn := n\<rparr>))" "tracked hyp cfg s0 s' accs ai (gs_actions sc)"
    "\<forall>k\<le>4500. g_elapsed (gs_state sc) = clock k \<longrightarrow> g_elapsed s' = clock (Suc k)"
    using bot_match_tick_tracked [OF assms(1,2) sc(1,2) assms(4) inv_track [OF assms(3)]] by blast
  have "scene_inv hyp cfg s0 (sc\<lparr>gs_state := s', gs_accumulators := accs, gs_aiNextTick := ai, gs_drawn := n\<rparr>)"
    using assms(3) t(2) sc(3) by (simp add: scene_inv_def tracked_scene_def)
  with t(1,3) show ?thesis by blast
qed

lemma bot_match_tick_inv:
  assumes "replayed cfg" "hypot_ok hyp" "scene_inv hyp cfg s0 sc" "g_status (gs_state sc) = Playing"
  shows "\<exists>sc'. bot_match_tick hyp fresh cfg sc = Some (Inr sc') \<and> scene_inv hyp cfg s0 sc'"
  using bot_match_tick_core [OF assms] by blast

lemma bot_match_ticks_inv:
  assumes "replayed cfg" "hypot_ok hyp" "scene_inv hyp cfg s0 sc"
  shows "\<exists>sc'. bot_match_ticks n hyp fresh cfg sc = Some (Inr sc') \<and> scene_inv hyp cfg s0 sc'"
  using assms(3)
proof (induction n arbitrary: sc)
  case (Suc n)
  show ?case
  proof (cases "g_status (gs_state sc) = Playing")
    case True
    then obtain sc1 where "bot_match_tick hyp fresh cfg sc = Some (Inr sc1)" "scene_inv hyp cfg s0 sc1"
      using bot_match_tick_inv [OF assms(1,2) Suc.prems] by blast
    then show ?thesis using True Suc.IH [of sc1] by simp
  qed (use Suc.prems in simp)
qed simp

lemma stepBotMatch_inv:
  assumes "replayed cfg" "hypot_ok hyp" "scene_inv hyp cfg s0 sc"
  shows "\<exists>sc'. stepBotMatch hyp fresh cfg d sc = Some (Inr sc') \<and> scene_inv hyp cfg s0 sc'"
proof -
  have rest: "quiet sc (sc\<lparr>gs_remainder := x\<rparr>)" for sc x by (simp add: quiet_def core_def)
  have "\<exists>sc'. run_bind (bot_match_ticks n hyp fresh cfg (sc\<lparr>gs_remainder := x\<rparr>)) (\<lambda>sc1.
      Some (Inr (if b then sc1\<lparr>gs_remainder := f sc1\<rparr> else sc1))) = Some (Inr sc') \<and> scene_inv hyp cfg s0 sc'" for n x b f
    using bot_match_ticks_inv [OF assms(1,2) quiet_inv [OF rest assms(3)], of n fresh x]
    by (auto intro: quiet_inv [OF rest])
  with assms(3) show ?thesis unfolding stepBotMatch_def Let_def by auto
qed

lemma endMatch_inv:
  assumes "scene_inv hyp cfg s0 sc" "g_status (gs_state sc) \<noteq> Playing" shows "scene_inv hyp cfg s0 (endMatch cfg sc)"
  using assms by (auto simp: endMatch_def finalizeMatch_def scene_inv_def tracked_scene_def Let_def)

lemma update_frame_inv:
  assumes "replayed cfg" "hypot_ok hyp" "scene_inv hyp cfg s0 sc"
  shows "\<exists>sc'. update_frame hyp fresh cfg delta sc = Some (Inr sc') \<and> scene_inv hyp cfg s0 sc'"
proof -
  have live: "\<not> sg_training cfg" using assms(1) by (simp add: replayed_def)
  define sc1 where "sc1 = updateAbilityPresentation sc"
  have sc1: "scene_inv hyp cfg s0 sc1" unfolding sc1_def by (rule quiet_inv [OF quiet_simple(5) assms(3)])
  then have tut: "gs_tutorial sc1 = None" by (simp add: scene_inv_def)
  define sc3 where "sc3 = snd (scene_paused cfg sc1)"
  have sc3: "scene_inv hyp cfg s0 sc3" unfolding sc3_def by (rule quiet_inv [OF quiet_paused [OF live] sc1])
  have over: "\<exists>sc5. match_over cfg sc4 = Inr sc5 \<and> scene_inv hyp cfg s0 sc5" if "scene_inv hyp cfg s0 sc4" for sc4
    using that endMatch_inv [OF that] live by (simp add: match_over_def)
  have step: "\<exists>sc5. (case scene_paused cfg sc1 of (paused, sc3) \<Rightarrow>
        if paused \<or> training_paused sc1 \<or> gs_introHolding sc1 then Some (Inr sc3)
        else run_bind (stepBotMatch hyp fresh cfg d sc3) (\<lambda>sc4. Some (match_over cfg sc4))) = Some (Inr sc5)
      \<and> scene_inv hyp cfg s0 sc5" for d
  proof -
    obtain sc4 where "stepBotMatch hyp fresh cfg d sc3 = Some (Inr sc4)" "scene_inv hyp cfg s0 sc4"
      using stepBotMatch_inv [OF assms(1,2) sc3] by blast
    then show ?thesis using over [of sc4] sc3 by (auto simp: sc3_def case_prod_unfold)
  qed
  have shown: "scene_inv hyp cfg s0 sc5 \<Longrightarrow> scene_inv hyp cfg s0 (snd (scene_paused cfg sc5))" for sc5
    by (rule quiet_inv [OF quiet_paused [OF live]])
  show ?thesis
  proof (cases delta)
    case (Finite d)
    obtain sc5 where "(case scene_paused cfg sc1 of (paused, sc3) \<Rightarrow>
        if paused \<or> training_paused sc1 \<or> gs_introHolding sc1 then Some (Inr sc3)
        else run_bind (stepBotMatch hyp fresh cfg (jdiv d 1000) sc3) (\<lambda>sc4. Some (match_over cfg sc4))) = Some (Inr sc5)"
      "scene_inv hyp cfg s0 sc5" using step by blast
    then show ?thesis using Finite assms(3) tut sc1 shown
      by (cases "g_status (gs_state sc1) = Playing") (simp_all add: update_frame_def sc1_def [symmetric] Let_def)
  qed (use assms(3) in \<open>simp_all add: update_frame_def\<close>)
qed

section \<open>Settlement, saving and opening again\<close>

lemma settlement_goes_out_inv:
  assumes "replayed cfg" "hypot_ok hyp" "createUpgradedMatchState cfg = Inr s0" "scene_inv hyp cfg s0 sc"
  shows "scene_inv hyp cfg s0 (settlement_goes_out cfg remote allowed sc)"
proof (cases "gs_phase sc = Connecting")
  case True
  then have "g_status (gs_state sc) \<noteq> Playing" using assms(4) by (simp add: scene_inv_def)
  then have "settles hyp cfg (g_status (gs_state sc)) (gs_actions sc)"
    using tracked_settles [OF assms(1-3) inv_track [OF assms(4)]] unfolding settles_def by blast
  then show ?thesis using True assms(4)
    by (auto simp: settlement_goes_out_def scene_inv_def tracked_scene_def Let_def split: settle_kind.split)
qed (use assms(4) in \<open>simp add: settlement_goes_out_def\<close>)

lemma answer_arrived_inv:
  assumes "scene_inv hyp cfg s0 sc" shows "scene_inv hyp cfg s0 (answer_arrived cfg ok sc)"
  using assms by (cases "sg_kind cfg"; cases ok) (auto simp: answer_arrived_def scene_inv_def tracked_scene_def Let_def)

lemma result_shown_inv:
  assumes "scene_inv hyp cfg s0 sc" "honest hyp cfg reply" shows "scene_inv hyp cfg s0 (result_shown reply cfg sc)"
proof (cases "gs_phase sc")
  case (Answered ok)
  have settled: "reply (snd (last (gs_sent sc))) = g_status (gs_state sc)" if "ok" "sg_kind cfg = RealmBattle"
  proof -
    have "gs_sent sc \<noteq> []" "fst (last (gs_sent sc)) = g_status (gs_state sc)"
      using assms(1) Answered that by (simp_all add: scene_inv_def)
    moreover have "settles hyp cfg (fst (last (gs_sent sc))) (snd (last (gs_sent sc)))"
      using assms(1) last_in_set [OF calculation(1)] by (auto simp: scene_inv_def list_all_iff)
    ultimately show ?thesis using honest_settles [OF assms(2)] by metis
  qed
  have over: "g_status (gs_state sc) \<noteq> Playing" using assms(1) Answered by (simp add: scene_inv_def)
  have same: "(gs_state sc)\<lparr>g_status := g_status (gs_state sc)\<rparr> = gs_state sc" by simp
  show ?thesis
    using assms(1) Answered settled over
    by (auto simp: result_shown_def showSettlementError_def scene_inv_def tracked_scene_def Let_def same)
qed (use assms(1) in \<open>simp_all add: result_shown_def\<close>)

lemma retryPressed_inv:
  assumes "scene_inv hyp cfg s0 sc" shows "scene_inv hyp cfg s0 (retryPressed cfg sc)"
  using assms by (auto simp: retryPressed_def finalizeMatch_def scene_inv_def tracked_scene_def)

lemma saveRealmBattle_inv:
  assumes "scene_inv hyp cfg s0 sc" shows "scene_inv hyp cfg s0 (saveRealmBattle cfg sc)"
  using assms by (auto simp: saveRealmBattle_def scene_inv_def tracked_scene_def)

lemma realm_abandoned_inv:
  assumes "scene_inv hyp cfg s0 sc" shows "scene_inv hyp cfg s0 (realm_abandoned cfg sc)"
proof -
  have "scene_inv hyp cfg s0 (sc\<lparr>gs_closed := True, gs_saved := None\<rparr>)"
    using assms by (simp add: scene_inv_def tracked_scene_def)
  then show ?thesis using assms quiet_inv [OF quiet_simple(6)] by (simp add: realm_abandoned_def)
qed

lemma fresh_scene_inv:
  assumes "replayed cfg" "createUpgradedMatchState cfg = Inr s0"
  shows "scene_inv hyp cfg s0 (fresh_scene cfg s0)"
  using tracked_start [OF assms, of hyp] assms(1) by (simp add: scene_inv_def tracked_scene_def fresh_scene_def replayed_def)

lemma resume_battle_inv:
  assumes "scene_inv hyp cfg s0 sc" "gs_phase sc = NotSettling" "\<not> gs_retryCard sc"
  shows "scene_inv hyp cfg s0 (resume_battle cfg sc)"
  using assms by (cases "gs_saved sc") (simp_all add: resume_battle_def scene_inv_def tracked_scene_def)

lemma create_scene_inv:
  assumes "replayed cfg" "createUpgradedMatchState cfg = Inr s0" "\<forall>b \<in> set_option before. scene_inv hyp cfg s0 b"
  shows "\<exists>sc. create_scene cfg before = Inr sc \<and> scene_inv hyp cfg s0 sc"
proof -
  note new = fresh_scene_inv [OF assms(1,2), of hyp]
  define sc0 where "sc0 = (case before of None \<Rightarrow> fresh_scene cfg s0
    | Some b \<Rightarrow> (fresh_scene cfg s0)\<lparr>gs_drawn := gs_drawn b, gs_sent := gs_sent b, gs_laneSent := gs_laneSent b,
        gs_recorded := gs_recorded b, gs_saved := gs_saved b\<rparr>)"
  have begun: "gs_phase (fresh_scene cfg s0) = NotSettling" "\<not> gs_retryCard (fresh_scene cfg s0)"
    by (simp_all add: fresh_scene_def)
  have "gs_phase sc0 = NotSettling" "\<not> gs_retryCard sc0" by (simp_all add: sc0_def fresh_scene_def split: option.split)
  moreover have "scene_inv hyp cfg s0 sc0"
    using new assms(3) begun by (cases before) (simp_all add: sc0_def scene_inv_def tracked_scene_def)
  ultimately have "scene_inv hyp cfg s0 (resume_battle cfg sc0)" by (simp add: resume_battle_inv)
  moreover have "quiet sc (sc\<lparr>gs_introHolding := b\<rparr>)" for sc b by (simp add: quiet_def core_def)
  ultimately show ?thesis using assms(1,2)
    by (auto simp: create_scene_def replayed_def sc0_def Let_def intro: quiet_inv)
qed

section \<open>Everything that can happen\<close>

lemma scene_step_inv:
  assumes "replayed cfg" "hypot_ok hyp" "createUpgradedMatchState cfg = Inr s0" "scene_inv hyp cfg s0 sc"
    and "honest hyp cfg reply" "i \<noteq> AbandonFailed"
  shows "\<exists>sc'. scene_step hyp between fresh reply cfg i sc = Some (Inr sc') \<and> scene_inv hyp cfg s0 sc'"
proof -
  have live: "\<not> sg_training cfg" using assms(1) by (simp add: replayed_def)
  note inv = assms(4)
  have tut: "gs_tutorial sc = None" using inv by (simp add: scene_inv_def)
  have menu: "scene_inv hyp cfg s0 (with_menu cfg f sc)" for f by (rule quiet_inv [OF quiet_menu [OF live] inv])
  have plain: "scene_inv hyp cfg s0 (sc\<lparr>gs_modal := b\<rparr>)" "scene_inv hyp cfg s0 (sc\<lparr>gs_completionPending := b\<rparr>)" for b
    by (rule quiet_inv [OF _ inv], simp add: quiet_def core_def)+
  have quiets: "scene_inv hyp cfg s0 (abilityPressed sc)" "scene_inv hyp cfg s0 (backButtonPressed cfg sc)"
    "scene_inv hyp cfg s0 (intro_phase_reached p sc)" "scene_inv hyp cfg s0 (end_beat_over cfg sc)"
    "scene_inv hyp cfg s0 (returnToMenu sc)" for p
    using quiet_inv [OF _ inv] quiet_simple quiet_back [OF live] by blast+
  have again: "\<exists>sc'. create_scene cfg (Some sc) = Inr sc' \<and> scene_inv hyp cfg s0 sc'"
    using create_scene_inv [OF assms(1,3), of "Some sc" hyp] inv by simp
  show ?thesis
    using inv menu plain quiets again tut pointerDown_inv [OF assms(1,2) inv] pointerMove_inv [OF assms(1,2) inv]
      pointerUp_inv [OF assms(1,2) inv] update_frame_inv [OF assms(1,2) inv] settlement_goes_out_inv [OF assms(1-4)]
      answer_arrived_inv [OF inv] result_shown_inv [OF inv assms(5)] retryPressed_inv [OF inv] assms(6) saveRealmBattle_inv [OF inv] realm_abandoned_inv [OF inv]
    by (cases i) (auto simp: scene_step_def)
qed

lemma scene_run_inv:
  assumes "replayed cfg" "hypot_ok hyp" "createUpgradedMatchState cfg = Inr s0" "scene_inv hyp cfg s0 sc"
    and "honest hyp cfg reply" "AbandonFailed \<notin> set is"
  shows "\<exists>sc'. scene_run hyp between fresh reply cfg is sc = Some (Inr sc') \<and> scene_inv hyp cfg s0 sc'"
  using assms(4,6)
proof (induction "is" arbitrary: sc)
  case (Cons i "is")
  obtain sc1 where "scene_step hyp between fresh reply cfg i sc = Some (Inr sc1)" "scene_inv hyp cfg s0 sc1"
    using scene_step_inv [OF assms(1-3) Cons.prems(1) assms(5), of i] Cons.prems(2) by auto
  then show ?case using Cons.IH [of sc1] Cons.prems(2) by simp
qed simp

text \<open>A battle from its opening: the scene is created, and then anything happens to it, in any order.\<close>

definition scene_battle ::
  "hypot_fn \<Rightarrow> (num \<Rightarrow> num \<Rightarrow> num \<Rightarrow> num \<Rightarrow> num) \<Rightarrow> (nat \<Rightarrow> string) \<Rightarrow> (pvp_action list \<Rightarrow> match_status)
     \<Rightarrow> scene_config \<Rightarrow> scene_input list \<Rightarrow> bot_scene run" where
  "scene_battle hyp between fresh reply cfg is =
     run_bind (Some (create_scene cfg None)) (scene_run hyp between fresh reply cfg is)"

lemma replayed_opens: "replayed cfg \<Longrightarrow> \<exists>s0. createUpgradedMatchState cfg = Inr s0"
  using createInitialGameState_ok [of "pvp_initial_options (scene_options cfg [])"] createUpgradedMatchState_replay [of cfg]
  by (auto simp: replayed_def options_ok_def pvp_initial_options_def)

lemma scene_battle_inv:
  assumes "replayed cfg" "hypot_ok hyp" "createUpgradedMatchState cfg = Inr s0"
    and "honest hyp cfg reply" "AbandonFailed \<notin> set is"
  shows "\<exists>sc. scene_battle hyp between fresh reply cfg is = Some (Inr sc) \<and> scene_inv hyp cfg s0 sc"
proof -
  obtain sc where "create_scene cfg None = Inr sc" "scene_inv hyp cfg s0 sc"
    using create_scene_inv [OF assms(1,3), of None hyp] by auto
  then show ?thesis using scene_run_inv [OF assms(1-3) _ assms(4,5)] by (simp add: scene_battle_def)
qed

end
