(* ===== verification/BattleFacts.thy ===== *)
theory BattleFacts
  imports SceneReplay
begin

text \<open>
  What the bot battle promises: it never throws, its frames bring every match to its verdict, and what it sends for
  settlement is replayed to that verdict. Then the menu, and where the scene does not do what it means to.
\<close>

section \<open>Frames decide a match\<close>

definition idle :: "bot_scene \<Rightarrow> bool" where
  "idle sc \<longleftrightarrow> \<not> isOpen (gs_menu sc) \<and> \<not> gs_introHolding sc \<and> \<not> gs_completionPending sc \<and> \<not> gs_exiting sc
     \<and> \<not> gs_resultShown sc \<and> \<not> gs_resultPending sc \<and> gs_remainder sc = 0"

text \<open>A frame of 20 milliseconds is one tick.\<close>

lemma frame_of_a_tick:
  "tb_ticks (consumeSimulationTicks (Finite 0) (Finite (min (jdiv 20 1000) (1 / 4)))) = 1"
  "tb_remainder (consumeSimulationTicks (Finite 0) (Finite (min (jdiv 20 1000) (1 / 4)))) = 0"
  "jdiv 20 1000 > 0"
  by code_simp+

lemma paused_closed: "\<not> isOpen (gs_menu sc) \<Longrightarrow> scene_paused cfg sc = (False, sc)"
  by (simp add: scene_paused_def isPaused_def with_menu_def Let_def)

lemma idle_step:
  assumes "idle sc" "g_status (gs_state sc) = Playing"
    and "bot_match_tick hyp fresh cfg sc = Some (Inr sc1)" "gs_remainder sc1 = 0"
  shows "stepBotMatch hyp fresh cfg (jdiv 20 1000) sc = Some (Inr sc1)"
proof -
  have rest: "gs_remainder sc = 0" using assms(1) by (simp add: idle_def)
  then have same: "sc\<lparr>gs_remainder := 0\<rparr> = sc" by simp
  have one: "nat \<lfloor>min 1 (20 :: num)\<rfloor> = Suc 0" by simp
  show ?thesis
    using frame_of_a_tick assms(2-4) by (simp add: stepBotMatch_def Let_def rest same one)
qed

lemma idle_frame:
  assumes cfg: "replayed cfg" "hypot_ok hyp" "\<not> sg_stress cfg" "sg_kind cfg = CareerBattle" and inv: "scene_inv hyp cfg s0 sc"
    and sc: "idle sc" "g_status (gs_state sc) = Playing" "g_elapsed (gs_state sc) = clock k" "k \<le> 4500"
  shows "\<exists>sc'. update_frame hyp fresh cfg (Finite 20) sc = Some (Inr sc') \<and> scene_inv hyp cfg s0 sc'
    \<and> gs_actions sc' = gs_actions sc \<and> gs_sent sc' = gs_sent sc
    \<and> (if g_status (gs_state sc') = Playing then idle sc' \<and> g_elapsed (gs_state sc') = clock (Suc k)
       else gs_phase sc' = Connecting)"
proof -
  define sc1 where "sc1 = updateAbilityPresentation sc"
  have sc1: "scene_inv hyp cfg s0 sc1" "idle sc1" "gs_state sc1 = gs_state sc" "gs_actions sc1 = gs_actions sc"
    "gs_sent sc1 = gs_sent sc"
    using quiet_inv [OF quiet_simple(5) inv] sc(1) by (simp_all add: sc1_def updateAbilityPresentation_def idle_def)
  have tut: "gs_tutorial sc1 = None" and pending: "\<not> gs_completionPending sc1"
    using sc1(1,2) by (simp_all add: scene_inv_def idle_def)
  from bot_match_tick_core [OF cfg(1,2) sc1(1), of fresh] sc1(3) sc(2) obtain s' accs ai n where
    t: "bot_match_tick hyp fresh cfg sc1 = Some (Inr (sc1\<lparr>gs_state := s', gs_accumulators := accs, gs_aiNextTick := ai, gs_drawn := n\<rparr>))"
      "scene_inv hyp cfg s0 (sc1\<lparr>gs_state := s', gs_accumulators := accs, gs_aiNextTick := ai, gs_drawn := n\<rparr>)"
      "\<forall>k\<le>4500. g_elapsed (gs_state sc1) = clock k \<longrightarrow> g_elapsed s' = clock (Suc k)" by auto
  define sc2 where "sc2 = sc1\<lparr>gs_state := s', gs_accumulators := accs, gs_aiNextTick := ai, gs_drawn := n\<rparr>"
  have sc2: "gs_state sc2 = s'" "gs_actions sc2 = gs_actions sc" "gs_sent sc2 = gs_sent sc" "idle sc2"
    "scene_inv hyp cfg s0 sc2"
    using sc1 t(2) by (simp_all add: sc2_def idle_def)
  have step: "stepBotMatch hyp fresh cfg (jdiv 20 1000) sc1 = Some (Inr sc2)"
    by (rule idle_step [OF sc1(2)]) (use sc1 sc(2) t(1) sc2(4) in \<open>simp_all add: sc2_def idle_def\<close>)
  define sc3 where "sc3 = (if g_status s' = Playing then sc2 else endMatch cfg sc2)"
  have live: "\<not> sg_training cfg" using cfg(1) by (simp add: replayed_def)
  have over: "match_over cfg sc2 = Inr sc3" using live by (simp add: match_over_def sc3_def sc2(1))
  have sc3: "\<not> isOpen (gs_menu sc3)" "scene_inv hyp cfg s0 sc3" "gs_actions sc3 = gs_actions sc" "gs_sent sc3 = gs_sent sc"
    "gs_state sc3 = s'" "g_status s' = Playing \<Longrightarrow> idle sc3" "g_status s' \<noteq> Playing \<Longrightarrow> gs_phase sc3 = Connecting"
    using sc2 endMatch_inv [OF sc2(5)] live cfg(3,4)
    by (auto simp: sc3_def idle_def endMatch_def canInitiateBotSettlement_def finalizeMatch_def canFinalizeBotSettlement_def Let_def)
  have "training_paused sc1 = False" "\<not> gs_introHolding sc1" "\<not> isOpen (gs_menu sc1)"
    using tut pending sc1(2) by (simp_all add: training_paused_def idle_def)
  then have "update_frame hyp fresh cfg (Finite 20) sc = Some (Inr sc3)"
    using step over sc1(3) sc(2) frame_of_a_tick(3) tut paused_closed [of sc1] paused_closed [OF sc3(1)]
    by (simp add: update_frame_def sc1_def [symmetric] Let_def)
  moreover have "g_elapsed s' = clock (Suc k)" using t(3) sc1(3) sc(3,4) by simp
  ultimately show ?thesis using sc3 by auto
qed

text \<open>A frame of a match that is over changes nothing of it.\<close>

lemma over_frame:
  assumes "replayed cfg" "scene_inv hyp cfg s0 sc" "g_status (gs_state sc) \<noteq> Playing"
  shows "\<exists>sc'. update_frame hyp fresh cfg (Finite d) sc = Some (Inr sc') \<and> quiet sc sc'"
proof -
  define sc1 where "sc1 = updateAbilityPresentation sc"
  have q: "quiet sc sc1" unfolding sc1_def by (rule quiet_simple)
  then have "gs_tutorial sc1 = None" "gs_state sc1 = gs_state sc"
    using assms(2) by (simp_all add: quiet_def core_def scene_inv_def)
  then have "update_frame hyp fresh cfg (Finite d) sc = Some (Inr (if d \<le> 0 then sc else snd (scene_paused cfg sc1)))"
    using assms(3) by (simp add: update_frame_def sc1_def [symmetric] Let_def)
  moreover have "quiet sc (snd (scene_paused cfg sc1))"
    by (rule quiet_trans [OF q quiet_paused]) (use assms(1) in \<open>simp add: replayed_def\<close>)
  ultimately show ?thesis by auto
qed

lemma scene_run_append:
  "scene_run hyp between fresh reply cfg (is @ js) sc = run_bind (scene_run hyp between fresh reply cfg is sc) (scene_run hyp between fresh reply cfg js)"
proof (induction "is" arbitrary: sc)
  case (Cons i "is")
  have "scene_run hyp between fresh reply cfg (is @ js) = (\<lambda>sc. run_bind (scene_run hyp between fresh reply cfg is sc) (scene_run hyp between fresh reply cfg js))"
    by (rule ext) (rule Cons.IH)
  then show ?case by (simp add: run_bind_assoc)
qed simp

definition waits :: "nat \<Rightarrow> scene_input list" where "waits n = replicate n (Frame (Finite 20))"

lemma over_waits:
  assumes "replayed cfg" "scene_inv hyp cfg s0 sc" "g_status (gs_state sc) \<noteq> Playing"
  shows "\<exists>sc'. scene_run hyp between fresh reply cfg (waits n) sc = Some (Inr sc') \<and> scene_inv hyp cfg s0 sc' \<and> core sc' = core sc"
  using assms(2,3)
proof (induction n arbitrary: sc)
  case (Suc n)
  obtain sc1 where sc1: "update_frame hyp fresh cfg (Finite 20) sc = Some (Inr sc1)" "quiet sc sc1"
    using over_frame [OF assms(1) Suc.prems] by blast
  have "scene_inv hyp cfg s0 sc1" "core sc1 = core sc" "g_status (gs_state sc1) \<noteq> Playing"
    using quiet_inv [OF sc1(2) Suc.prems(1)] sc1(2) Suc.prems(2) by (simp_all add: quiet_def core_def)
  then obtain sc2 where "scene_run hyp between fresh reply cfg (waits n) sc1 = Some (Inr sc2)" "scene_inv hyp cfg s0 sc2" "core sc2 = core sc1"
    using Suc.IH by blast
  then show ?case using sc1(1) \<open>core sc1 = core sc\<close> by (simp add: waits_def scene_step_def)
qed (simp add: waits_def)

lemma idle_waits:
  assumes cfg: "replayed cfg" "hypot_ok hyp" "\<not> sg_stress cfg" "sg_kind cfg = CareerBattle" and inv: "scene_inv hyp cfg s0 sc"
    and sc: "idle sc" "g_status (gs_state sc) = Playing" "g_elapsed (gs_state sc) = clock k" "n + k \<le> 4501"
  shows "\<exists>sc'. scene_run hyp between fresh reply cfg (waits n) sc = Some (Inr sc') \<and> scene_inv hyp cfg s0 sc'
    \<and> gs_actions sc' = gs_actions sc \<and> gs_sent sc' = gs_sent sc
    \<and> (if g_status (gs_state sc') = Playing then g_elapsed (gs_state sc') = clock (n + k) else gs_phase sc' = Connecting)"
  using inv sc
proof (induction n arbitrary: sc k)
  case 0
  then show ?case by (simp add: waits_def)
next
  case (Suc n)
  have k: "k \<le> 4500" using Suc.prems(5) by simp
  obtain sc1 where sc1: "update_frame hyp fresh cfg (Finite 20) sc = Some (Inr sc1)" "scene_inv hyp cfg s0 sc1"
    "gs_actions sc1 = gs_actions sc" "gs_sent sc1 = gs_sent sc"
    "if g_status (gs_state sc1) = Playing then idle sc1 \<and> g_elapsed (gs_state sc1) = clock (Suc k) else gs_phase sc1 = Connecting"
    using idle_frame [OF cfg Suc.prems(1-4) k] by blast
  have first: "scene_run hyp between fresh reply cfg (waits (Suc n)) sc = scene_run hyp between fresh reply cfg (waits n) sc1"
    using sc1(1) by (simp add: waits_def scene_step_def)
  show ?case
  proof (cases "g_status (gs_state sc1) = Playing")
    case True
    then show ?thesis using Suc.IH [OF sc1(2), of "Suc k"] sc1(3-5) Suc.prems(5) unfolding first by auto
  next
    case False
    obtain sc2 where "scene_run hyp between fresh reply cfg (waits n) sc1 = Some (Inr sc2)" "scene_inv hyp cfg s0 sc2" "core sc2 = core sc1"
      using over_waits [OF cfg(1) sc1(2) False] by blast
    then show ?thesis using sc1(3-5) False unfolding first by (auto simp: core_def)
  qed
qed

lemma playing_early:
  assumes "replayed cfg" "scene_inv hyp cfg s0 sc" "g_status (gs_state sc) = Playing" "g_elapsed (gs_state sc) = clock k" "k \<le> 4500"
  shows "k < 4500"
proof -
  have rec: "hasCaptureRecovery (scene_rules cfg)" using assms(1) by (simp add: replayed_def)
  obtain k' r where k': "k' \<le> 4500" "g_elapsed (gs_state sc) = clock k'"
    "follows hyp (scene_options cfg []) (scene_rules cfg) s0 (gs_actions sc) k' r"
    using inv_track [OF assms(2)] assms(3) by (auto simp: tracked_def on_track_def)
  then show ?thesis using follows_clock [OF k'(3) rec] clock_inject [OF assms(5) k'(1)] assms(4) by simp
qed

lemma waits_decide:
  assumes cfg: "replayed cfg" "hypot_ok hyp" "\<not> sg_stress cfg" "sg_kind cfg = CareerBattle" and inv: "scene_inv hyp cfg s0 sc"
    and sc: "idle sc" "g_status (gs_state sc) = Playing" "g_elapsed (gs_state sc) = clock 0" and n: "4500 \<le> n"
  shows "\<exists>sc'. scene_run hyp between fresh reply cfg (waits n) sc = Some (Inr sc') \<and> scene_inv hyp cfg s0 sc'
    \<and> gs_actions sc' = gs_actions sc \<and> gs_sent sc' = gs_sent sc \<and> g_status (gs_state sc') \<noteq> Playing \<and> gs_phase sc' = Connecting"
proof -
  obtain sc1 where sc1: "scene_run hyp between fresh reply cfg (waits 4500) sc = Some (Inr sc1)" "scene_inv hyp cfg s0 sc1"
    "gs_actions sc1 = gs_actions sc" "gs_sent sc1 = gs_sent sc"
    "if g_status (gs_state sc1) = Playing then g_elapsed (gs_state sc1) = clock (4500 + 0) else gs_phase sc1 = Connecting"
    using idle_waits [OF cfg inv sc, of 4500 between fresh reply] by auto
  have over: "g_status (gs_state sc1) \<noteq> Playing" using playing_early [OF cfg(1) sc1(2), of 4500] sc1(5) by auto
  obtain sc2 where sc2: "scene_run hyp between fresh reply cfg (waits (n - 4500)) sc1 = Some (Inr sc2)" "scene_inv hyp cfg s0 sc2"
    "core sc2 = core sc1" using over_waits [OF cfg(1) sc1(2) over] by blast
  have "waits n = waits 4500 @ waits (n - 4500)" using n by (simp add: waits_def replicate_add [symmetric])
  then have "scene_run hyp between fresh reply cfg (waits n) sc = Some (Inr sc2)" using sc1(1) sc2(1) by (simp add: scene_run_append)
  then show ?thesis using sc1(3-5) sc2(2,3) over by (auto simp: core_def)
qed

text \<open>A career battle in which the player does nothing after the countdown.\<close>

lemma idle_battle:
  assumes cfg: "replayed cfg" "hypot_ok hyp" "sg_kind cfg = CareerBattle" "\<not> sg_stress cfg" and n: "4500 \<le> n"
  shows "\<exists>sc. scene_battle hyp between fresh reply cfg (IntroPhase Done # waits n @ [Connected True b]) = Some (Inr sc)
    \<and> g_status (gs_state sc) \<noteq> Playing \<and> gs_sent sc = [(g_status (gs_state sc), gs_actions sc)] \<and> gs_actions sc = []
    \<and> gs_phase sc = Awaiting"
proof -
  obtain s0 where s0: "createUpgradedMatchState cfg = Inr s0" using replayed_opens [OF cfg(1)] by blast
  have start: "tracked hyp cfg s0 s0 [] (getBotAiTickSeconds (sg_difficulty cfg)) [] \<and> g_status s0 = Playing"
    by (rule tracked_start [OF cfg(1) s0])
  then have elapsed: "g_elapsed s0 = clock 0"
  proof -
    obtain s where "createInitialGameState (pvp_initial_options (scene_options cfg [])) = Inr s" "g_elapsed s = 0"
      using createInitialGameState_ok [of "pvp_initial_options (scene_options cfg [])"] cfg(1)
      by (auto simp: replayed_def options_ok_def pvp_initial_options_def)
    then show ?thesis using createUpgradedMatchState_replay [of cfg] cfg(1) s0 by (simp add: replayed_def clock_def)
  qed
  define sc1 where "sc1 = (fresh_scene cfg s0)\<lparr>gs_introHolding := False\<rparr>"
  have quiet1: "quiet (fresh_scene cfg s0) sc1" by (simp add: sc1_def quiet_def core_def)
  have sc1: "scene_inv hyp cfg s0 sc1" by (rule quiet_inv [OF quiet1 fresh_scene_inv [OF cfg(1) s0]])
  have sel: "idle sc1" "gs_state sc1 = s0" "gs_actions sc1 = []" "gs_sent sc1 = []"
    by (simp_all add: sc1_def idle_def fresh_scene_def isOpen_def new_menu_def)
  have opened: "scene_battle hyp between fresh reply cfg (IntroPhase Done # is) = scene_run hyp between fresh reply cfg is sc1" for "is"
    using s0 cfg(1) by (simp add: scene_battle_def create_scene_def resume_battle_def fresh_scene_def replayed_def scene_step_def
        intro_phase_reached_def isIntroHolding_def sc1_def Let_def)
  obtain sc2 where sc2: "scene_run hyp between fresh reply cfg (waits n) sc1 = Some (Inr sc2)" "scene_inv hyp cfg s0 sc2"
    "gs_actions sc2 = []" "gs_sent sc2 = []" "g_status (gs_state sc2) \<noteq> Playing" "gs_phase sc2 = Connecting"
    using waits_decide [OF cfg(1,2,4,3) sc1 sel(1) _ _ n, of between fresh reply] sel start elapsed by auto
  define sc3 where "sc3 = settlement_goes_out cfg True b sc2"
  have "gs_sent sc3 = [(g_status (gs_state sc3), gs_actions sc3)]" "gs_state sc3 = gs_state sc2" "gs_actions sc3 = []"
    "gs_phase sc3 = Awaiting"
    using sc2(3-6) cfg(3,4) by (simp_all add: sc3_def settlement_goes_out_def Let_def)
  moreover have "scene_battle hyp between fresh reply cfg (IntroPhase Done # waits n @ [Connected True b]) = Some (Inr sc3)"
    using sc2(1) by (simp add: opened scene_run_append scene_step_def sc3_def)
  ultimately show ?thesis using sc2(5) by metis
qed

section \<open>The properties\<close>

definition sample_battle :: scene_config where
  "sample_battle = \<lparr>sg_matchId = ''match_1'', sg_kind = CareerBattle, sg_training = False, sg_stress = False,
     sg_difficulty = Normal, sg_rules = 4, sg_battlefieldId = ''crown_cross'', sg_playerModifiers = LEVEL_PLAYER_MODIFIERS,
     sg_enemyModifiers = None, sg_ticketCommander = Some ''guardian'', sg_saves = True,
     sg_tour = \<lparr>to_tactical = True, to_quick = False, to_startStep = None, to_resumeCompleted = False\<rparr>\<rparr>"

lemma sample_battle_ok: "replayed sample_battle" "sg_kind sample_battle = CareerBattle" "\<not> sg_stress sample_battle"
proof -
  have "normalizeBattlefieldId (Some ''crown_cross'') \<noteq> ''quad_citadel''"
    by (simp add: normalizeBattlefieldId_def BATTLEFIELDS_def crown_cross_def)
  moreover have "(20 :: num) \<in> \<nat>" by (metis of_nat_in_Nats of_nat_numeral)
  ultimately show "replayed sample_battle"
    by (simp add: replayed_def sample_battle_def scene_options_def options_ok_def modifiers_ok_def LEVEL_PLAYER_MODIFIERS_def
        pvp_initial_options_def initial_version_def hasCaptureRecovery_def)
qed (simp_all add: sample_battle_def)

definition sample_between :: "num \<Rightarrow> num \<Rightarrow> num \<Rightarrow> num \<Rightarrow> num" where
  "sample_between x1 y1 x2 y2 = manhattan (jsub x2 x1) (jsub y2 y1)"

definition sample_name :: "nat \<Rightarrow> string" where "sample_name k = ''army_'' @ nat_string k"

abbreviation sample_inputs :: "scene_input list" where
  "sample_inputs \<equiv> IntroPhase Done # waits 4500 @ [Connected True True]"

definition sample_reply :: "pvp_action list \<Rightarrow> match_status" where
  "sample_reply as = (case simulatePvpBattle manhattan (scene_options sample_battle as) of
     Some (Inr res) \<Rightarrow> bs_status (pv_summary res) | _ \<Rightarrow> Draw)"

lemma sample_reply_honest: "honest manhattan sample_battle sample_reply"
  by (simp add: honest_def sample_reply_def)

lemma sample_inputs_ok: "AbandonFailed \<notin> set sample_inputs"
  by (simp add: waits_def)

text \<open>
  C1: whatever happens in a bot battle that the server can replay (taps, drags, abilities, menus, frames of any
  length, saving and opening again, answers of the backend and retries, in any order, but for a realm attack the backend fails to give up), the scene
  never throws, and everything it sends for settlement is accepted by the server and replayed to exactly the verdict
  the player saw.
\<close>

theorem settlement_replays:
  assumes "replayed cfg" "hypot_ok hyp" "honest hyp cfg reply" "AbandonFailed \<notin> set is"
  shows "\<exists>sc. scene_battle hyp between fresh reply cfg is = Some (Inr sc)
    \<and> (\<forall>(st, as)\<in>set (gs_sent sc). \<exists>res. simulatePvpBattle hyp (scene_options cfg as) = Some (Inr res)
          \<and> bs_status (pv_summary res) = st)"
proof -
  obtain s0 where "createUpgradedMatchState cfg = Inr s0" using replayed_opens [OF assms(1)] by blast
  from scene_battle_inv [OF assms(1,2) this assms(3,4), of between fresh] show ?thesis
    by (auto simp: scene_inv_def settles_def list_all_iff)
qed

lemma settlement_replays_witness:
  "\<exists>st res. st \<noteq> Playing \<and> simulatePvpBattle manhattan (scene_options sample_battle []) = Some (Inr res)
     \<and> bs_status (pv_summary res) = st
     \<and> (\<exists>sc. scene_battle manhattan sample_between sample_name sample_reply sample_battle sample_inputs = Some (Inr sc) \<and> gs_sent sc = [(st, [])])"
proof -
  obtain sc where "scene_battle manhattan sample_between sample_name sample_reply sample_battle sample_inputs = Some (Inr sc)"
    "g_status (gs_state sc) \<noteq> Playing" "gs_sent sc = [(g_status (gs_state sc), gs_actions sc)]" "gs_actions sc = []"
    using idle_battle [OF sample_battle_ok(1) manhattan_ok sample_battle_ok(2,3) order_refl] by blast
  then show ?thesis
    using settlement_replays [OF sample_battle_ok(1) manhattan_ok sample_reply_honest sample_inputs_ok, of sample_between sample_name] by auto
qed

text \<open>
  C2: once the match on the screen is over, the server's replay of the recorded orders agrees with it: the same
  verdict, the same duration in whole seconds and the same statistics, but for the player's own count of units sent,
  which the scene goes on with after the verdict.
\<close>

theorem verdict_replays:
  assumes "replayed cfg" "hypot_ok hyp" "honest hyp cfg reply" "AbandonFailed \<notin> set is"
  shows "\<exists>sc. scene_battle hyp between fresh reply cfg is = Some (Inr sc)
    \<and> (g_status (gs_state sc) \<noteq> Playing \<longrightarrow>
        (\<exists>res. simulatePvpBattle hyp (scene_options cfg (gs_actions sc)) = Some (Inr res)
          \<and> bs_status (pv_summary res) = g_status (gs_state sc)
          \<and> bs_duration (pv_summary res) = ms_duration (localMatchStats (gs_state sc))
          \<and> unsent_stats (bs_stats (pv_summary res)) = unsent_stats (g_stats (gs_state sc))))"
proof -
  obtain s0 where s0: "createUpgradedMatchState cfg = Inr s0" using replayed_opens [OF assms(1)] by blast
  from scene_battle_inv [OF assms(1,2) this assms(3,4), of between fresh] obtain sc where
    "scene_battle hyp between fresh reply cfg is = Some (Inr sc)" "scene_inv hyp cfg s0 sc" by blast
  with tracked_settles [OF assms(1,2) s0 inv_track, of sc] show ?thesis by (auto simp: localMatchStats_def)
qed

lemma verdict_replays_witness:
  "\<exists>sc res. scene_battle manhattan sample_between sample_name sample_reply sample_battle sample_inputs = Some (Inr sc)
     \<and> simulatePvpBattle manhattan (scene_options sample_battle []) = Some (Inr res)
     \<and> bs_status (pv_summary res) = g_status (gs_state sc)"
proof -
  obtain sc where "scene_battle manhattan sample_between sample_name sample_reply sample_battle sample_inputs = Some (Inr sc)"
    "g_status (gs_state sc) \<noteq> Playing" "gs_actions sc = []"
    using idle_battle [OF sample_battle_ok(1) manhattan_ok sample_battle_ok(2,3) order_refl] by blast
  then show ?thesis
    using verdict_replays [OF sample_battle_ok(1) manhattan_ok sample_reply_honest sample_inputs_ok, of sample_between sample_name] by auto
qed

text \<open>
  C3: at every moment of a bot battle the recorded orders are at most 120, numbered in order, with times that never
  go back and never pass the clock, so that the server accepts them; a strike that would not fit is not sent at all.
\<close>

theorem recorded_orders_bounded:
  assumes "replayed cfg" "hypot_ok hyp" "honest hyp cfg reply" "AbandonFailed \<notin> set is"
  shows "\<exists>sc. scene_battle hyp between fresh reply cfg is = Some (Inr sc) \<and> length (gs_actions sc) \<le> MAX_PVP_ACTIONS
    \<and> validateActions (gs_actions sc) = Inr () \<and> g_elapsed (gs_state sc) \<le> PVP_TIME_LIMIT_SECONDS
    \<and> list_all (\<lambda>a. \<exists>t\<le>g_elapsed (gs_state sc). pa_at a = Finite t) (gs_actions sc)"
proof -
  obtain s0 where s0: "createUpgradedMatchState cfg = Inr s0" using replayed_opens [OF assms(1)] by blast
  from scene_battle_inv [OF assms(1,2) this assms(3,4), of between fresh] obtain sc where
    sc: "scene_battle hyp between fresh reply cfg is = Some (Inr sc)" "scene_inv hyp cfg s0 sc" by blast
  obtain k where k: "k \<le> 4500" "g_elapsed (gs_state sc) = clock k" "orders_ok (gs_actions sc) k"
    using inv_track [OF sc(2)] by (auto simp: tracked_def)
  have "list_all (\<lambda>a. \<exists>t\<le>g_elapsed (gs_state sc). pa_at a = Finite t) (gs_actions sc)"
    using k(2,3) clock_mono unfolding orders_ok_def list_all_iff by metis
  moreover have "validateActions (gs_actions sc) = Inr ()" "length (gs_actions sc) \<le> MAX_PVP_ACTIONS"
    using k(3) by (simp_all add: orders_ok_def validateActions_def)
  moreover have "g_elapsed (gs_state sc) \<le> PVP_TIME_LIMIT_SECONDS"
    using clock_bounds(1) [OF k(1)] k(2) by (simp add: PVP_TIME_LIMIT_SECONDS_def)
  ultimately show ?thesis using sc(1) by blast
qed

lemma recorded_orders_bounded_witness:
  "\<exists>sc. scene_battle manhattan sample_between sample_name sample_reply sample_battle sample_inputs = Some (Inr sc)
     \<and> validateActions (gs_actions sc) = Inr () \<and> g_elapsed (gs_state sc) \<le> 90"
  using recorded_orders_bounded [OF sample_battle_ok(1) manhattan_ok sample_reply_honest sample_inputs_ok, of sample_between sample_name]
  by (auto simp: PVP_TIME_LIMIT_SECONDS_def)

text \<open>
  C4: a battle always ends and is settled: after the countdown, 4500 frames of a tick decide it without the player
  doing anything, its orders go out once, and when the answer is there the result is shown.
\<close>

theorem idle_battle_settles:
  assumes "replayed cfg" "hypot_ok hyp" "sg_kind cfg = CareerBattle" "\<not> sg_stress cfg" "4500 \<le> n"
  shows "\<exists>sc. scene_battle hyp between fresh reply cfg (IntroPhase Done # waits n @ [Connected True b, AnswerArrived True, ResultDue]) = Some (Inr sc)
    \<and> g_status (gs_state sc) \<noteq> Playing \<and> gs_sent sc = [(g_status (gs_state sc), [])] \<and> gs_resultShown sc
    \<and> \<not> gs_resultPending sc \<and> gs_phase sc = Settled"
proof -
  obtain sc where sc: "scene_battle hyp between fresh reply cfg (IntroPhase Done # waits n @ [Connected True b]) = Some (Inr sc)"
    "g_status (gs_state sc) \<noteq> Playing" "gs_sent sc = [(g_status (gs_state sc), gs_actions sc)]" "gs_actions sc = []"
    "gs_phase sc = Awaiting" using idle_battle [OF assms] by blast
  define sc' where "sc' = result_shown reply cfg (answer_arrived cfg True sc)"
  have "scene_battle hyp between fresh reply cfg (is @ [AnswerArrived True, ResultDue])
      = run_bind (scene_battle hyp between fresh reply cfg is) (\<lambda>sc. Some (Inr (result_shown reply cfg (answer_arrived cfg True sc))))" for "is"
  proof -
    have two: "scene_run hyp between fresh reply cfg [AnswerArrived True, ResultDue]
        = (\<lambda>sc. Some (Inr (result_shown reply cfg (answer_arrived cfg True sc))))"
      by (rule ext) (simp add: scene_step_def)
    have "scene_run hyp between fresh reply cfg (is @ [AnswerArrived True, ResultDue]) = (\<lambda>sc. run_bind (scene_run hyp between fresh reply cfg is sc)
        (\<lambda>sc. Some (Inr (result_shown reply cfg (answer_arrived cfg True sc)))))"
      unfolding two [symmetric] by (rule ext) (rule scene_run_append)
    then show ?thesis by (simp add: scene_battle_def run_bind_assoc)
  qed
  from this [of "IntroPhase Done # waits n @ [Connected True b]"] sc(1)
  have "scene_battle hyp between fresh reply cfg (IntroPhase Done # waits n @ [Connected True b, AnswerArrived True, ResultDue]) = Some (Inr sc')"
    by (simp add: sc'_def)
  moreover have "gs_state sc' = gs_state sc" "gs_sent sc' = [(g_status (gs_state sc), [])]" "gs_resultShown sc'"
    "\<not> gs_resultPending sc'" "gs_phase sc' = Settled"
    using sc(3-5) assms(3) by (simp_all add: sc'_def answer_arrived_def result_shown_def Let_def)
  ultimately show ?thesis using sc(2) by auto
qed

lemma idle_battle_settles_witness:
  "\<exists>sc. scene_battle manhattan sample_between sample_name sample_reply sample_battle
       (IntroPhase Done # waits 4500 @ [Connected True True, AnswerArrived True, ResultDue]) = Some (Inr sc) \<and> gs_resultShown sc"
  using idle_battle_settles [OF sample_battle_ok(1) manhattan_ok sample_battle_ok(2,3) order_refl] by blast

text \<open>
  C5: sending a strike of several towers at once, as the client does, is sending their orders one after another, as
  the server's replay does: neither throws, the orders are those the client records, and both give the same match, but
  for the names of its armies and the sum in which the player's units are counted.
\<close>

theorem strike_is_its_orders:
  assumes "hypot_ok hyp" "wf_match s" "distinct ids" "obj_get (g_territories s) target = Some tgt" "target \<notin> set ids"
  shows "\<exists>acc t. dispatchMultipleArmies hyp (List.map_filter (obj_get (g_territories s)) ids) tgt Player (1 / 2) (Finite speed) names (Some s) = Inr acc
    \<and> send_orders hyp speed (map army_order (md_armies acc)) s = Inr t \<and> same_match t (strike_state s acc)"
proof -
  have wf: "wf_board (g_territories s)" using assms(2) by (simp add: wf_match_def)
  note sources = strike_sources [OF wf assms(3)]
  have "t_id tgt = target" using wf_boardD [OF wf assms(4)] by (simp add: wf_tower_def)
  then show ?thesis using strike_sequential [OF assms(1) sources(1,2)] assms(4,5) sources(3) by blast
qed

lemma strike_is_its_orders_witness:
  "\<exists>acc t. dispatchMultipleArmies manhattan (List.map_filter (obj_get (g_territories ability_match)) [''p_base'', ''n_left''])
      (the (obj_get (g_territories ability_match) ''n_center'')) Player (1 / 2) (Finite 1) sample_name (Some ability_match) = Inr acc
    \<and> send_orders manhattan 1 (map army_order (md_armies acc)) ability_match = Inr t"
proof -
  obtain tgt where "obj_get (g_territories ability_match) ''n_center'' = Some tgt"
    by (simp add: ability_match_def crown_cross_def tower_def Let_def)
  moreover have "wf_match ability_match" using ability_match_ok by (simp add: pvp_ok_def)
  ultimately show ?thesis
    using strike_is_its_orders [OF manhattan_ok, of ability_match "[''p_base'', ''n_left'']" "''n_center''" tgt 1 sample_name]
    by auto
qed

section \<open>The menu\<close>

text \<open>
  Leaving is confirmed once: the menu leaves exactly when the player confirms, whatever is pressed before and after,
  and then the exit, the quit event and, in a live match, the closing of the connection each happen exactly once.
\<close>

definition is_quit :: "menu_effect \<Rightarrow> bool" where "is_quit e = (case e of QuitTracked q \<Rightarrow> True | _ \<Rightarrow> False)"

definition menu_inv :: "menu_deps \<Rightarrow> match_menu \<Rightarrow> bool" where
  "menu_inv d m \<longleftrightarrow> count_list (mm_effects m) ExitConfirmed = (if mm_exiting m then 1 else 0)
     \<and> length (filter is_quit (mm_effects m)) = (if mm_exiting m then 1 else 0)
     \<and> count_list (mm_effects m) LiveClientClosed = (if mm_exiting m \<and> md_live d then 1 else 0)"

lemmas menu_defs = openMenu_def closeMenu_def openConfirm_def backToMenu_def handleBackButton_def confirmExit_def isPaused_def
  reconcileVisualState_def navigate_def show_state_def menu_emit_def is_quit_def Let_def

lemma menu_step_inv:
  assumes "menu_inv d m"
  shows "menu_inv d (menu_step d i m) \<and> mm_exiting (menu_step d i m) = (mm_exiting m \<or> (\<exists>s. i = ConfirmTap s))"
proof (cases "mm_exiting m")
  case True
  then have "menu_step d i m = m" by (cases i) (auto simp: menu_step_def menu_defs)
  with assms True show ?thesis by simp
next
  case False
  with assms show ?thesis
    by (cases i; cases "mm_state m"; cases "mm_origin m") (simp_all add: menu_step_def menu_inv_def menu_defs)
qed

theorem menu_leaves_once:
  "menu_inv d (menu_run d is new_menu) \<and> mm_exiting (menu_run d is new_menu) = (\<exists>s. ConfirmTap s \<in> set is)"
proof -
  have "menu_inv d m \<Longrightarrow> menu_inv d (fold (menu_step d) is m)
      \<and> mm_exiting (fold (menu_step d) is m) = (mm_exiting m \<or> (\<exists>s. ConfirmTap s \<in> set is))" for m
  proof (induction "is" arbitrary: m)
    case (Cons i "is")
    then show ?case using menu_step_inv [OF Cons.prems, of i] by auto
  qed simp
  from this [of new_menu] show ?thesis by (simp add: menu_run_def menu_inv_def new_menu_def)
qed

section \<open>Where the scene does not do what it means to\<close>

text \<open>
  When the backend fails to give up a realm attack, the card of a failed settlement comes up over the running match,
  and its retry button sends the attack for settlement although it has not ended.
\<close>

lemma retry_settles_running_attack:
  assumes "sg_kind cfg = RealmBattle" "\<not> sg_stress cfg" "\<not> sg_training cfg" "\<not> gs_exiting sc" "mm_exiting (gs_menu sc)"
    and "g_status (gs_state sc) = Playing"
  shows "gs_sent (settlement_goes_out cfg remote allowed (retryPressed cfg (abandon_failed cfg sc)))
    = gs_sent sc @ [(Playing, gs_actions sc)]"
  using assms by (simp add: abandon_failed_def showSettlementError_def retryPressed_def finalizeMatch_def
      canFinalizeBotSettlement_def settlement_goes_out_def Let_def)

definition over_scene :: bot_scene where
  "over_scene = (fresh_scene sample_battle (ability_match\<lparr>g_rules := Some 2, g_status := Victory\<rparr>))
     \<lparr>gs_selected := [''p_base''], gs_hovered := Some ''n_center''\<rparr>"

text \<open>A drag that began before the end and is released after it still sends an army and records the order.\<close>

lemma release_after_verdict:
  "case handlePointerRelease manhattan sample_name sample_battle over_scene of
     Inr sc \<Rightarrow> length (g_armies (gs_state sc)) = 1 \<and> length (gs_actions sc) = 1 | Inl _ \<Rightarrow> False"
  by code_simp

text \<open>A swipe over two lanes records both of them even when there is room for one, and the server refuses the list.\<close>

lemma recordLaneAction_length: "length (gs_laneActions (fold (\<lambda>l. recordLaneAction k (f l) (g l)) ls sc)) = length (gs_laneActions sc) + length ls"
  by (induction ls arbitrary: sc) (simp_all add: recordLaneAction_def)

lemma swipe_passes_limit:
  assumes "gs_lanes sc = Some e" "gs_swipeFrom sc = Some from" "length (gs_laneActions sc) = 119"
    and "length (snd (cutBySwipe e (gs_state sc) from to)) = 2"
  shows "validateLaneActions (gs_laneActions (swipeCutLanes to sc)) s0 = Inl (LaneReplayError ''too_many_actions'')"
  using assms by (simp add: swipeCutLanes_def Let_def validateLaneActions_def recordLaneAction_length MAX_LANE_ACTIONS_def MAX_PVP_ACTIONS_def)

end
