(* ===== verification/LiveArmies.thy ===== *)
theory LiveArmies
  imports SimulationFacts TwoVTwo
begin

text \<open>
  \<open>apps/game/src/combat/LiveCombatFeedback.ts\<close>: what the client shows of a live match between two snapshots of the
  server. It moves the armies on, takes its own unanswered orders out of the towers, takes a refused order back, and
  blends its armies into those of a new snapshot. The maps and sets of the code keep the order of their insertion.
\<close>

definition armyVisualId :: "team \<Rightarrow> string \<Rightarrow> string" where
  "armyVisualId w i = team_name w @ '':'' @ i"

definition army_visual_id :: "army \<Rightarrow> string" where
  "army_visual_id m = armyVisualId (a_owner m) (a_id m)"

text \<open>An army of the client's own, not yet confirmed: \<open>id.startsWith('pred_')\<close>.\<close>

definition predicted_id :: "string \<Rightarrow> bool" where
  "predicted_id i \<longleftrightarrow> take 5 i = ''pred_''"

abbreviation is_predicted :: "army \<Rightarrow> bool" where
  "is_predicted m \<equiv> predicted_id (a_id m)"

section \<open>Arrivals between two snapshots\<close>

definition arrived_between :: "game_state \<Rightarrow> army \<Rightarrow> bool" where
  "arrived_between new m \<longleftrightarrow> \<not> is_predicted m \<and> army_visual_id m \<notin> army_visual_id ` set (g_armies new)
     \<and> fl (65 / 100) \<le> a_progress m"

definition project_arrival :: "game_state \<Rightarrow> army \<Rightarrow> territory obj \<times> combat_result list \<Rightarrow> territory obj \<times> combat_result list" where
  "project_arrival new m acc =
     (if \<not> arrived_between new m then acc
      else case obj_get (fst acc) (a_targetId m) of
        None \<Rightarrow> acc
      | Some t \<Rightarrow>
          let r = resolveArrival t (a_units m) (a_owner m) 1
          in (obj_set (a_targetId m) (t\<lparr>t_owner := c_newOwner r, t_units := c_remainingUnits r\<rparr>) (fst acc), snd acc @ [r]))"

definition deriveLiveCombatArrivals :: "game_state \<Rightarrow> game_state \<Rightarrow> combat_result list" where
  "deriveLiveCombatArrivals old new =
     (if (0 < g_elapsed new \<or> 0 < g_elapsed old) \<and> g_elapsed new \<le> g_elapsed old then []
      else snd (fold (project_arrival new) (g_armies old) (g_territories old, [])))"

section \<open>Between snapshots\<close>

definition step_live_army :: "num \<Rightarrow> army \<Rightarrow> army" where
  "step_live_army deltaSeconds m =
     m\<lparr>a_progress := min (fl (99 / 100)) (jadd (a_progress m) (jmul (a_speed m) deltaSeconds))\<rparr>"

definition stepLiveArmies :: "army list \<Rightarrow> num \<Rightarrow> army list" where
  "stepLiveArmies ms deltaSeconds = (if ms = [] \<or> deltaSeconds \<le> 0 then ms else map (step_live_army deltaSeconds) ms)"

record pending_dispatch =
  pd_sequence :: num
  pd_armyId :: string
  pd_sourceId :: string
  pd_units :: num

definition apply_pending :: "pending_dispatch \<Rightarrow> territory obj \<Rightarrow> territory obj" where
  "apply_pending p ts = (case obj_get ts (pd_sourceId p) of
       None \<Rightarrow> ts
     | Some t \<Rightarrow> if t_owner t \<noteq> Player then ts
         else obj_set (pd_sourceId p) (t\<lparr>t_units := max 0 (jsub (t_units t) (pd_units p))\<rparr>) ts)"

definition applyPendingLiveDispatches :: "territory obj \<Rightarrow> pending_dispatch list \<Rightarrow> territory obj" where
  "applyPendingLiveDispatches ts ps = fold apply_pending ps ts"

definition rejectLivePrediction ::
  "army list \<Rightarrow> pending_dispatch list \<Rightarrow> num \<Rightarrow> army list \<times> pending_dispatch list" where
  "rejectLivePrediction ms ps sequence = (case List.find (\<lambda>p. pd_sequence p = sequence) ps of
       None \<Rightarrow> (ms, ps)
     | Some r \<Rightarrow> (filter (\<lambda>m. a_id m \<noteq> pd_armyId r) ms, filter (\<lambda>p. pd_sequence p \<noteq> sequence) ps))"

section \<open>A new snapshot\<close>

definition local_by_key :: "army list \<Rightarrow> army obj" where
  "local_by_key ms = fold (\<lambda>m ob. if is_predicted m then ob else obj_set (army_visual_id m) m ob) ms []"

definition blended :: "num \<Rightarrow> army \<Rightarrow> army \<Rightarrow> army" where
  "blended w l m = m\<lparr>a_progress := jadd (a_progress l) (jmul (jsub (a_progress m) (a_progress l)) w)\<rparr>"

definition progress_gap :: "army \<Rightarrow> army \<Rightarrow> num" where
  "progress_gap l m = \<bar>jsub (a_progress l) (a_progress m)\<bar>"

text \<open>The predicted armies taken so far, by their ids, and the renames of visuals.\<close>

record reconciling =
  rc_matched :: "string list"
  rc_renames :: "(string \<times> string) list"

definition prediction_of :: "army list \<Rightarrow> string list \<Rightarrow> army \<Rightarrow> army option" where
  "prediction_of predictions taken m =
     List.find (\<lambda>p. a_id p \<notin> set taken \<and> a_sourceId p = a_sourceId m \<and> a_targetId p = a_targetId m) predictions"

definition reconcile_army :: "num \<Rightarrow> army obj \<Rightarrow> army list \<Rightarrow> army \<Rightarrow> reconciling \<Rightarrow> army \<times> reconciling" where
  "reconcile_army w byKey predictions m rc = (case obj_get byKey (army_visual_id m) of
       Some l \<Rightarrow> (if 0 < progress_gap l m \<and> progress_gap l m < fl (1 / 5) then blended w l m else m, rc)
     | None \<Rightarrow>
         if a_owner m = Player then
           (case prediction_of predictions (rc_matched rc) m of
              None \<Rightarrow> (m, rc)
            | Some p \<Rightarrow> (if progress_gap p m < fl (1 / 5) then blended w p m else m,
                rc\<lparr>rc_matched := a_id p # rc_matched rc, rc_renames := rc_renames rc @ [(army_visual_id p, army_visual_id m)]\<rparr>))
         else (m, rc))"

primrec reconcile_all :: "num \<Rightarrow> army obj \<Rightarrow> army list \<Rightarrow> army list \<Rightarrow> reconciling \<Rightarrow> army list \<times> reconciling" where
  "reconcile_all w byKey predictions [] rc = ([], rc)"
| "reconcile_all w byKey predictions (m # ms) rc =
     (let (m', rc1) = reconcile_army w byKey predictions m rc; (ms', rc2) = reconcile_all w byKey predictions ms rc1
      in (m' # ms', rc2))"

definition unconfirmed :: "string list \<Rightarrow> army \<Rightarrow> bool" where
  "unconfirmed taken p \<longleftrightarrow> a_id p \<notin> set taken \<and> a_progress p < 3 / 4"

definition LIVE_BLEND_WEIGHT :: num where "LIVE_BLEND_WEIGHT = fl (35 / 100)"

definition reconcileLiveArmies :: "army list \<Rightarrow> army list \<Rightarrow> num \<Rightarrow> army list \<times> (string \<times> string) list" where
  "reconcileLiveArmies localArmies serverArmies w =
     (let predictions = filter is_predicted localArmies;
          (ms, rc) = reconcile_all w (local_by_key localArmies) predictions serverArmies \<lparr>rc_matched = [], rc_renames = []\<rparr>
      in (ms @ filter (unconfirmed (rc_matched rc)) predictions, rc_renames rc))"

end
