(* ===== verification/LiveResults.thy ===== *)
theory LiveResults
  imports MatchMenu LiveClient
begin

text \<open>
  How the client takes the result of a live match: the live part of \<open>scenes/gameSceneGuards.ts\<close> and the view model of
  \<open>pvp/TwoVTwoResultViewModel.ts\<close>. The callbacks a consumer is given are effects, in the order it calls them. A 2v2
  result is the parsed payload, whose statistics and settlement are values of the server; \<open>None\<close> as a slot stands for
  the \<open>-1\<close> of a scene without a session.
\<close>

section \<open>Events\<close>

text \<open>The moment of an event depends on how many were dispatched before.\<close>

definition note_event :: "(nat \<Rightarrow> moment) \<Rightarrow> analytics_input \<Rightarrow> tracker \<Rightarrow> tracker" where
  "note_event mo e k = trackEvent (mo (length (tk_dispatched k))) e k"

definition note_terminal :: "(nat \<Rightarrow> moment) \<Rightarrow> analytics_input \<Rightarrow> tracker \<Rightarrow> bool \<times> tracker" where
  "note_terminal mo e k = trackTerminalMatchEvent (mo (length (tk_dispatched k))) e k"

definition live_context :: "string \<Rightarrow> play_mode \<Rightarrow> match_context" where
  "live_context i m = \<lparr>mc_botDifficulty = None, mc_rules = None, mc_matchId = i, mc_mode = m\<rparr>"

section \<open>The result of a match of two\<close>

record live_result =
  lr_matchId :: string
  lr_status :: outcome
  lr_stats :: match_stats
  lr_settlement :: match_settlement

datatype consumer_effect = ApplySettlement match_settlement | RenderModal outcome match_stats match_settlement | CloseClient

definition result_events :: "(nat \<Rightarrow> moment) \<Rightarrow> live_result \<Rightarrow> tracker \<Rightarrow> tracker" where
  "result_events mo r k =
     (let k1 = note_event mo (EvMatchRewardReceived (lr_matchId r) LiveMode) k;
          k2 = (if st_rankPromoted (lr_settlement r) then note_event mo (EvRankPromoted (lr_matchId r)) k1 else k1)
      in note_event mo (EvLiveMatchEnded (lr_matchId r) (lr_status r)) k2)"

definition processLiveMatchResult ::
  "(nat \<Rightarrow> moment) \<Rightarrow> live_result \<Rightarrow> bool \<Rightarrow> bool \<Rightarrow> string option \<Rightarrow> tracker \<Rightarrow> bool \<times> consumer_effect list \<times> tracker" where
  "processLiveMatchResult mo r isExiting hasResultModal settled k =
     (if lr_matchId r = [] \<or> settled = Some (lr_matchId r) \<or> \<not> canHandleLiveSettlement isExiting hasResultModal
      then (False, [], k)
      else
        let (recorded, k1) = note_terminal mo (EvMatchEnd (live_context (lr_matchId r) LiveMode) (lr_status r)
              (Finite (ms_duration (lr_stats r))) None None) k
        in (True, [ApplySettlement (lr_settlement r), RenderModal (lr_status r) (lr_stats r) (lr_settlement r), CloseClient],
            if recorded then result_events mo r k1 else k1))"

section \<open>The result of a match of four\<close>

definition participant_outcome :: "participant_status \<Rightarrow> outcome" where
  "participant_outcome p = (case p of
       participant_status.Won \<Rightarrow> outcome.Won | participant_status.Lost \<Rightarrow> outcome.Lost
     | participant_status.Drawn \<Rightarrow> outcome.Drawn)"

text \<open>\<open>None\<close> as a status is \<open>'unknown'\<close>.\<close>

record result_analytics =
  ra_matchId :: string
  ra_cancelled :: bool
  ra_myStatus :: "participant_status option"
  ra_seconds :: js_number
  ra_slot :: slot
  ra_teamId :: team_id

definition track2v2ResultAnalytics :: "(nat \<Rightarrow> moment) \<Rightarrow> result_analytics \<Rightarrow> tracker \<Rightarrow> bool \<times> tracker" where
  "track2v2ResultAnalytics mo a k = (case ra_myStatus a of
       None \<Rightarrow> (False, k)
     | Some status \<Rightarrow>
         if ra_cancelled a then (False, k)
         else
           let (recorded, k1) = note_terminal mo (EvMatchEnd (live_context (ra_matchId a) TwoVTwoMode)
                 (participant_outcome status) (ra_seconds a) (Some (of_nat (slot_number (ra_slot a)))) (Some (ra_teamId a))) k
           in if \<not> recorded then (False, k1)
              else (True, note_event mo (EvLiveMatchEnded (ra_matchId a) (participant_outcome status))
                (note_event mo (EvMatchRewardReceived (ra_matchId a) TwoVTwoMode) k1)))"

text \<open>The test that a slot is a number from 0 to 3 is in the type of slots.\<close>

definition isCurrent2v2MatchResult :: "match_result \<Rightarrow> string \<Rightarrow> slot option \<Rightarrow> team_id option \<Rightarrow> bool" where
  "isCurrent2v2MatchResult r activeMatchId mySlot myTeamId =
     (if mr_matchId r = [] \<or> mr_matchId r \<noteq> activeMatchId then False
      else if mr_cancelled r then True
      else case mr_participants r of
        None \<Rightarrow> False
      | Some ps \<Rightarrow>
          if length ps \<noteq> 4 \<or> \<not> distinct (map pr_slot ps) then False
          else case filter (\<lambda>p. Some (pr_slot p) = mySlot) ps of
              [mine] \<Rightarrow> myTeamId = None \<or> Some (pr_teamId mine) = myTeamId
            | _ \<Rightarrow> False)"

definition selectLocal2v2Participant :: "match_result \<Rightarrow> slot option \<Rightarrow> participant_result option" where
  "selectLocal2v2Participant r mySlot = (case mr_participants r of
       None \<Rightarrow> None
     | Some ps \<Rightarrow> (case filter (\<lambda>p. Some (pr_slot p) = mySlot) ps of [mine] \<Rightarrow> Some mine | _ \<Rightarrow> None))"

section \<open>The view of a result\<close>

definition slotLabel :: "slot \<Rightarrow> string" where
  "slotLabel s = (if s < Slot2 then CHR ''A'' # nat_string (slot_number s + 1) else CHR ''B'' # nat_string (slot_number s - 1))"

record participant_card =
  vc_slot :: slot
  vc_teamId :: team_id
  vc_label :: string
  vc_displayName :: string
  vc_status :: "participant_status option"
  vc_abandoned :: bool
  vc_unitsDispatched :: "js_number option"
  vc_territoriesCaptured :: "js_number option"
  vc_coinsAwarded :: "js_number option"
  vc_isYou :: bool

record team_group =
  tg_teamId :: team_id
  tg_isMyTeam :: bool
  tg_isWinner :: bool
  tg_participants :: "participant_card list"

record result_view =
  rv_matchId :: string
  rv_cancelled :: bool
  rv_myStatus :: "participant_status option"
  rv_winnerTeamId :: "team_id option"
  rv_myTeam :: team_group
  rv_otherTeam :: team_group
  rv_hasSettlements :: bool

definition number_in :: "json option \<Rightarrow> string \<Rightarrow> js_number option" where
  "number_in v k = json_number (Option.bind v (\<lambda>j. prop_of j k))"

text \<open>The name a card shows; \<open>commander\<close> is the catalogue's word for a player without one.\<close>

definition card_name :: "string \<Rightarrow> (slot \<Rightarrow> string option) \<Rightarrow> slot \<Rightarrow> string" where
  "card_name commander names s = (case names s of Some n \<Rightarrow> n | None \<Rightarrow> commander @ '' '' @ nat_string (slot_number s + 1))"

definition participantCard :: "string \<Rightarrow> (slot \<Rightarrow> string option) \<Rightarrow> slot \<Rightarrow> participant_result \<Rightarrow> participant_card" where
  "participantCard commander names mySlot p = \<lparr>vc_slot = pr_slot p, vc_teamId = pr_teamId p, vc_label = slotLabel (pr_slot p),
     vc_displayName = card_name commander names (pr_slot p), vc_status = Some (pr_status p),
     vc_abandoned = (pr_abandoned p = Some True), vc_unitsDispatched = number_in (pr_stats p) ''playerUnitsDispatched'',
     vc_territoriesCaptured = number_in (pr_stats p) ''territoriesCapturedByPlayer'',
     vc_coinsAwarded = number_in (Option.bind (pr_settlement p) (\<lambda>j. prop_of j ''breakdown'')) ''totalCoins'',
     vc_isYou = (pr_slot p = mySlot)\<rparr>"

definition missing_card :: "string \<Rightarrow> (slot \<Rightarrow> string option) \<Rightarrow> slot \<Rightarrow> slot \<Rightarrow> participant_card" where
  "missing_card commander names mySlot s = \<lparr>vc_slot = s, vc_teamId = teamIdForSlot s, vc_label = slotLabel s,
     vc_displayName = card_name commander names s, vc_status = None, vc_abandoned = False, vc_unitsDispatched = None,
     vc_territoriesCaptured = None, vc_coinsAwarded = None, vc_isYou = (s = mySlot)\<rparr>"

definition other_team :: "team_id \<Rightarrow> team_id" where
  "other_team t = (if t = TeamA then TeamB else TeamA)"

text \<open>A later participant of the same slot replaces an earlier one in the map.\<close>

definition by_slot :: "participant_result list \<Rightarrow> slot \<Rightarrow> participant_result option" where
  "by_slot ps = map_of (rev (map (\<lambda>p. (pr_slot p, p)) ps))"

definition card_for :: "string \<Rightarrow> (slot \<Rightarrow> string option) \<Rightarrow> slot \<Rightarrow> participant_result list \<Rightarrow> slot \<Rightarrow> participant_card" where
  "card_for commander names mySlot ps s = (case by_slot ps s of
       Some p \<Rightarrow> participantCard commander names mySlot p
     | None \<Rightarrow> missing_card commander names mySlot s)"

definition cancelled_view :: "match_result \<Rightarrow> slot \<Rightarrow> result_view" where
  "cancelled_view r mySlot = \<lparr>rv_matchId = mr_matchId r, rv_cancelled = True, rv_myStatus = None, rv_winnerTeamId = None,
     rv_myTeam = \<lparr>tg_teamId = teamIdForSlot mySlot, tg_isMyTeam = True, tg_isWinner = False, tg_participants = []\<rparr>,
     rv_otherTeam = \<lparr>tg_teamId = other_team (teamIdForSlot mySlot), tg_isMyTeam = False, tg_isWinner = False,
       tg_participants = []\<rparr>,
     rv_hasSettlements = False\<rparr>"

definition buildTwoVTwoResultViewModel ::
  "string \<Rightarrow> match_result \<Rightarrow> slot \<Rightarrow> (slot \<Rightarrow> string option) \<Rightarrow> result_view" where
  "buildTwoVTwoResultViewModel commander r mySlot names = (case mr_participants r of
       None \<Rightarrow> cancelled_view r mySlot
     | Some ps \<Rightarrow>
         if mr_cancelled r then cancelled_view r mySlot
         else
           let mine = teamIdForSlot mySlot;
               cards = map (card_for commander names mySlot ps) TWO_V_TWO_SLOTS;
               group = (\<lambda>t. \<lparr>tg_teamId = t, tg_isMyTeam = (t = mine), tg_isWinner = (mr_winnerTeamId r = Some t),
                 tg_participants = filter (\<lambda>c. vc_teamId c = t) cards\<rparr>)
           in \<lparr>rv_matchId = mr_matchId r, rv_cancelled = False,
               rv_myStatus = map_option pr_status (by_slot ps mySlot), rv_winnerTeamId = mr_winnerTeamId r,
               rv_myTeam = group mine, rv_otherTeam = group (other_team mine),
               rv_hasSettlements = (\<exists>p\<in>set ps. pr_settlement p \<noteq> None)\<rparr>)"

end
