(* ===== verification/LiveScene.thy ===== *)
theory LiveScene
  imports LiveArmies LiveResults BotScene
begin

text \<open>
  The live branches of \<open>scenes/GameScene.ts\<close>: a match of two or of four against the server. The scene shows what the
  server last sent, with the player's unanswered orders already carried out, and reacts to the events its client
  emits, to frames and to taps. What it asks of the client, gives to the career and reports is recorded in order.
  Drawing, sounds, haptics, texts and the refresh of the career's cache are left out.

  At the start of a match and after a reconnect the scene stores one and the same object as its state and as the last
  state of the server, and it changes its state in place; \<open>SameState\<close> stands for that.
\<close>

section \<open>The scene\<close>

datatype authority = NoState | SameState | Snapshot game_state

record started_2v2 =
  s2_matchId :: string
  s2_slot :: slot
  s2_teamId :: team_id
  s2_nextSequence :: num
  s2_players :: "roster_entry list"
  s2_state :: game_state

text \<open>What covers the field at the end; the vote button of a team result is live until it is pressed.\<close>

datatype live_modal = ResultCard outcome match_stats match_settlement | TeamCard result_view bool | LostCard
datatype live_overlay = ReconnectingOverlay nat | AbandonedOverlay string
datatype applied_settlement = SettledOne match_settlement | SettledTeam json
datatype client_call = DispatchCall string string | ReadyCall | VoteCall | SurrenderCall | CloseCall

record live_scene =
  ln_state :: game_state
  ln_auth :: authority
  ln_predictions :: "pending_dispatch list"
  ln_matchId :: string
  ln_battlefieldId :: battlefield_id
  ln_settled :: "string option"
  ln_exiting :: bool
  ln_bound :: bool
  ln_listening :: bool
  ln_client :: bool
  ln_modal :: "live_modal option"
  ln_overlay :: "live_overlay option"
  ln_two :: "started_2v2 option"
  ln_appliedStart :: "string option"
  ln_voted :: bool
  ln_surrendered :: bool
  ln_menu :: match_menu
  ln_menuMatchId :: string
  ln_menuModal :: bool
  ln_tracker :: tracker
  ln_applied :: "(string \<times> applied_settlement) list"
  ln_arrivals :: "combat_result list"
  ln_calls :: "client_call list"
  ln_errors :: "js_error list"

text \<open>The clock of the events, the catalogue's word for a player, and what the dispatch needs.\<close>

record live_env =
  le_moment :: "nat \<Rightarrow> moment"
  le_commander :: string
  le_hypot :: hypot_fn
  le_fresh :: "nat \<Rightarrow> string"
  le_armySpeed :: num

definition authoritative :: "live_scene \<Rightarrow> game_state option" where
  "authoritative sc = (case ln_auth sc of NoState \<Rightarrow> None | SameState \<Rightarrow> Some (ln_state sc) | Snapshot s \<Rightarrow> Some s)"

definition is2v2 :: "live_scene \<Rightarrow> bool" where
  "is2v2 sc \<longleftrightarrow> ln_two sc \<noteq> None"

definition live_note :: "live_env \<Rightarrow> analytics_input \<Rightarrow> live_scene \<Rightarrow> live_scene" where
  "live_note env e sc = sc\<lparr>ln_tracker := note_event (le_moment env) e (ln_tracker sc)\<rparr>"

definition call_client :: "client_call \<Rightarrow> live_scene \<Rightarrow> live_scene" where
  "call_client x sc = sc\<lparr>ln_calls := ln_calls sc @ [x]\<rparr>"

section \<open>Leaving and errors\<close>

definition live_returnToMenu :: "live_scene \<Rightarrow> live_scene" where
  "live_returnToMenu sc = (if ln_exiting sc then sc else sc\<lparr>ln_exiting := True, ln_modal := None, ln_menuModal := False\<rparr>)"

text \<open>\<open>this.liveClient?.close()\<close>, and the field is cleared.\<close>

definition close_client :: "live_scene \<Rightarrow> live_scene" where
  "close_client sc = (if ln_client sc then (call_client CloseCall sc)\<lparr>ln_client := False\<rparr> else sc)"

definition showLiveConnectionError :: "live_scene \<Rightarrow> live_scene" where
  "showLiveConnectionError sc =
     (if ln_exiting sc \<or> ln_modal sc \<noteq> None then sc
      else let sc1 = close_client sc in sc1\<lparr>ln_state := (ln_state sc1)\<lparr>g_status := Defeat\<rparr>, ln_modal := Some LostCard\<rparr>)"

definition hide2v2ReconnectOverlay :: "live_scene \<Rightarrow> live_scene" where
  "hide2v2ReconnectOverlay sc = sc\<lparr>ln_overlay := None\<rparr>"

definition show2v2ReconnectOverlay :: "nat \<Rightarrow> live_scene \<Rightarrow> live_scene" where
  "show2v2ReconnectOverlay attempt sc =
     (if ln_exiting sc \<or> ln_modal sc \<noteq> None then sc else sc\<lparr>ln_overlay := Some (ReconnectingOverlay attempt)\<rparr>)"

definition show2v2AbandonedOverlay :: "string \<Rightarrow> live_scene \<Rightarrow> live_scene" where
  "show2v2AbandonedOverlay code sc =
     (let sc1 = hide2v2ReconnectOverlay sc
      in if ln_exiting sc1 \<or> ln_modal sc1 \<noteq> None then sc1 else sc1\<lparr>ln_overlay := Some (AbandonedOverlay code)\<rparr>)"

section \<open>Snapshots and refusals\<close>

definition applyLiveServerState :: "game_state \<Rightarrow> live_scene \<Rightarrow> live_scene" where
  "applyLiveServerState s sc =
     (if (case authoritative sc of Some a \<Rightarrow> g_elapsed s \<le> g_elapsed a | None \<Rightarrow> False) then sc
      else
        let arrivals = (case authoritative sc of Some a \<Rightarrow> deriveLiveCombatArrivals a s | None \<Rightarrow> []);
            ms = fst (reconcileLiveArmies (g_armies (ln_state sc)) (g_armies s) LIVE_BLEND_WEIGHT);
            kept = filter (\<lambda>p. pd_armyId p \<in> a_id ` set (filter is_predicted ms)) (ln_predictions sc)
        in sc\<lparr>ln_auth := Snapshot s, ln_predictions := kept,
            ln_state := s\<lparr>g_territories := applyPendingLiveDispatches (g_territories s) kept, g_armies := ms\<rparr>,
            ln_arrivals := ln_arrivals sc @ arrivals\<rparr>)"

definition rejectLiveCommand :: "num option \<Rightarrow> live_scene \<Rightarrow> live_scene" where
  "rejectLiveCommand sequence sc = (case sequence of
       None \<Rightarrow> sc
     | Some n \<Rightarrow>
         let (ms, ps) = rejectLivePrediction (g_armies (ln_state sc)) (ln_predictions sc) n;
             sc1 = sc\<lparr>ln_predictions := ps, ln_state := (ln_state sc)\<lparr>g_armies := ms\<rparr>\<rparr>
         in case authoritative sc1 of
              None \<Rightarrow> sc1
            | Some a \<Rightarrow> sc1\<lparr>ln_state := (ln_state sc1)\<lparr>g_territories := applyPendingLiveDispatches (g_territories a) ps\<rparr>\<rparr>)"

section \<open>Orders\<close>

text \<open>
  \<open>sendDispatch\<close> throws (\<open>None\<close>), or numbers the orders of a strike one after another from its cursor.
\<close>

primrec number_orders :: "num \<Rightarrow> army list \<Rightarrow> (num \<times> army) list" where
  "number_orders n [] = []"
| "number_orders n (m # ms) = (n, m) # number_orders (jadd n 1) ms"

definition predicted_army :: "num \<times> army \<Rightarrow> army" where
  "predicted_army x = (snd x)\<lparr>a_id := ''pred_'' @ num_string (fst x)\<rparr>"

definition prediction_for :: "num \<times> army \<Rightarrow> pending_dispatch" where
  "prediction_for x = \<lparr>pd_sequence = fst x, pd_armyId = a_id (predicted_army x), pd_sourceId = a_sourceId (snd x),
     pd_units = a_units (snd x)\<rparr>"

definition is2v2InputBlocked :: "live_scene \<Rightarrow> bool" where
  "is2v2InputBlocked sc \<longleftrightarrow> is2v2 sc \<and> (ln_surrendered sc \<or> ln_overlay sc \<noteq> None)"

definition live_strike :: "multi_dispatch \<Rightarrow> num \<Rightarrow> live_scene \<Rightarrow> live_scene" where
  "live_strike sent n sc =
     (let orders = number_orders n (md_armies sent); s = ln_state sc
      in sc\<lparr>ln_predictions := ln_predictions sc @ map prediction_for orders,
          ln_state := s\<lparr>g_territories := object_assign (g_territories s) (md_updatedSources sent),
            g_armies := g_armies s @ map predicted_army orders\<rparr>,
          ln_calls := ln_calls sc @ map (\<lambda>m. DispatchCall (a_sourceId m) (a_targetId m)) (md_armies sent)\<rparr>)"

definition live_release :: "live_env \<Rightarrow> num option \<Rightarrow> string list \<Rightarrow> string \<Rightarrow> live_scene \<Rightarrow> live_scene" where
  "live_release env cursor sourceIds targetId sc =
     (let ts = g_territories (ln_state sc); sources = List.map_filter (obj_get ts) sourceIds in
      case obj_get ts targetId of
        None \<Rightarrow> sc
      | Some target \<Rightarrow>
          if sources = [] \<or> is2v2InputBlocked sc then sc
          else case dispatchMultipleArmies (le_hypot env) sources target Player (1 / 2) (Finite (le_armySpeed env)) (le_fresh env) None of
              Inl _ \<Rightarrow> showLiveConnectionError sc
            | Inr sent \<Rightarrow>
                if md_armies sent = [] then sc
                else if \<not> ln_client sc then showLiveConnectionError sc
                else (case cursor of
                    None \<Rightarrow> showLiveConnectionError
                      (call_client (DispatchCall (a_sourceId (hd (md_armies sent))) (a_targetId (hd (md_armies sent)))) sc)
                  | Some n \<Rightarrow> live_strike sent n sc))"

text \<open>Lifting the finger: a selection of towers and the tower under the finger.\<close>

definition live_pointer_up :: "live_env \<Rightarrow> num option \<Rightarrow> string list \<Rightarrow> string option \<Rightarrow> live_scene \<Rightarrow> live_scene" where
  "live_pointer_up env cursor sourceIds hovered sc =
     (if ln_exiting sc \<or> isOpen (ln_menu sc) \<or> sourceIds = [] then sc
      else case hovered of
        None \<Rightarrow> sc
      | Some targetId \<Rightarrow> if targetId \<in> set sourceIds then sc else live_release env cursor sourceIds targetId sc)"

section \<open>Frames\<close>

definition stepLiveMatch :: "num \<Rightarrow> live_scene \<Rightarrow> live_scene" where
  "stepLiveMatch deltaSeconds sc =
     (if g_armies (ln_state sc) \<noteq> []
      then sc\<lparr>ln_state := (ln_state sc)\<lparr>g_armies := stepLiveArmies (g_armies (ln_state sc)) deltaSeconds\<rparr>\<rparr> else sc)"

definition live_frame :: "num \<Rightarrow> live_scene \<Rightarrow> live_scene" where
  "live_frame delta sc =
     (if delta \<le> 0 then sc
      else if g_status (ln_state sc) = Playing then stepLiveMatch (jdiv delta 1000) sc else sc)"

section \<open>The events of a match of two\<close>

definition outcome_status :: "outcome \<Rightarrow> match_status" where
  "outcome_status r = (case r of outcome.Won \<Rightarrow> Victory | outcome.Lost \<Rightarrow> Defeat | outcome.Drawn \<Rightarrow> Draw)"

definition consume :: "live_result \<Rightarrow> consumer_effect \<Rightarrow> live_scene \<Rightarrow> live_scene" where
  "consume r e sc = (case e of
       ApplySettlement st \<Rightarrow> sc\<lparr>ln_state := (ln_state sc)\<lparr>g_status := outcome_status (lr_status r)\<rparr>,
         ln_applied := ln_applied sc @ [(lr_matchId r, SettledOne st)]\<rparr>
     | RenderModal status stats st \<Rightarrow> sc\<lparr>ln_modal := Some (ResultCard status stats st)\<rparr>
     | CloseClient \<Rightarrow> call_client CloseCall sc)"

definition handleLiveMatchResult :: "live_env \<Rightarrow> live_result \<Rightarrow> live_scene \<Rightarrow> live_scene" where
  "handleLiveMatchResult env r sc =
     (let (processed, effects, k) = processLiveMatchResult (le_moment env) r (ln_exiting sc) (ln_modal sc \<noteq> None)
            (ln_settled sc) (ln_tracker sc);
          sc1 = fold (consume r) effects (sc\<lparr>ln_tracker := k\<rparr>)
      in if processed then sc1\<lparr>ln_settled := Some (lr_matchId r)\<rparr> else sc1)"

definition quit_event :: "play_mode \<Rightarrow> live_scene \<Rightarrow> analytics_input" where
  "quit_event m sc = EvMatchQuit (live_context (ln_matchId sc) m) (Finite (g_elapsed (ln_state sc)))"

definition live_closed :: "live_env \<Rightarrow> live_scene \<Rightarrow> live_scene" where
  "live_closed env sc =
     (if ln_exiting sc \<or> ln_modal sc \<noteq> None \<or> g_status (ln_state sc) \<noteq> Playing then sc
      else
        let (recorded, k) = note_terminal (le_moment env) (quit_event LiveMode sc) (ln_tracker sc);
            sc1 = sc\<lparr>ln_tracker := k\<rparr>
        in showLiveConnectionError (if recorded then live_note env (EvLiveMatchDisconnected (ln_matchId sc)) sc1 else sc1))"

definition live_error_event :: "string \<Rightarrow> live_scene \<Rightarrow> live_scene" where
  "live_error_event code sc =
     (if ln_exiting sc then sc else if code = ''settlement_failed'' then showLiveConnectionError sc else sc)"

section \<open>The events of a match of four\<close>

definition initTwoVTwoSession :: "started_2v2 \<Rightarrow> live_scene \<Rightarrow> live_scene" where
  "initTwoVTwoSession p sc = sc\<lparr>ln_two := Some p, ln_appliedStart := Some (s2_matchId p), ln_voted := False,
     ln_surrendered := False\<rparr>"

definition start_event :: "string \<Rightarrow> live_scene \<Rightarrow> analytics_input" where
  "start_event source sc = EvMatchStart (live_context (ln_matchId sc) (if is2v2 sc then TwoVTwoMode else LiveMode)) source
     (Some (ln_battlefieldId sc)) (map_option (\<lambda>p. of_nat (slot_number (s2_slot p))) (ln_two sc))
     (map_option s2_teamId (ln_two sc))"

definition resetFor2v2Rematch :: "live_env \<Rightarrow> started_2v2 \<Rightarrow> live_scene \<Rightarrow> live_scene" where
  "resetFor2v2Rematch env p sc =
     (let sc1 = (initTwoVTwoSession p (sc\<lparr>ln_modal := None\<rparr>))\<lparr>ln_matchId := s2_matchId p, ln_state := s2_state p,
            ln_auth := SameState, ln_predictions := [], ln_settled := None\<rparr>
      in live_note env (start_event ''rematch'' sc1) sc1)"

definition handle2v2MatchStarted :: "live_env \<Rightarrow> started_2v2 \<Rightarrow> live_scene \<Rightarrow> live_scene" where
  "handle2v2MatchStarted env p sc =
     (if ln_exiting sc then sc
      else if Some (s2_matchId p) = ln_appliedStart sc
        then hide2v2ReconnectOverlay (sc\<lparr>ln_predictions := [], ln_state := s2_state p, ln_auth := SameState\<rparr>)
      else resetFor2v2Rematch env p sc)"

definition rosterNameMap :: "live_scene \<Rightarrow> slot \<Rightarrow> string option" where
  "rosterNameMap sc = (case ln_two sc of
       None \<Rightarrow> Map.empty
     | Some p \<Rightarrow> map_of (rev (map (\<lambda>e. (re_slot e, re_displayName e)) (s2_players p))))"

text \<open>
  The seconds a settlement reports, if they are positive; reading them from a settlement without statistics throws.
\<close>

definition settlement_seconds :: "json \<Rightarrow> js_number option result" where
  "settlement_seconds v = (case prop_of v ''stats'' of
       None \<Rightarrow> Inl TypeError
     | Some JNull \<Rightarrow> Inl TypeError
     | Some stats \<Rightarrow> Inr (case number_in (Some stats) ''matchDurationSeconds'' of
           Some (Finite x) \<Rightarrow> if 0 < x then Some (Finite x) else None
         | Some PosInfinity \<Rightarrow> Some PosInfinity
         | _ \<Rightarrow> None))"

definition team_result_report ::
  "live_env \<Rightarrow> match_result \<Rightarrow> result_view \<Rightarrow> started_2v2 \<Rightarrow> live_scene \<Rightarrow> js_error option \<times> live_scene" where
  "team_result_report env r view two sc =
     (let mine = selectLocal2v2Participant r (Some (s2_slot two));
          settlement = Option.bind mine pr_settlement;
          sc1 = (case settlement of
              Some v \<Rightarrow> sc\<lparr>ln_applied := ln_applied sc @ [(mr_matchId r, SettledTeam v)]\<rparr> | None \<Rightarrow> sc)
      in case (case settlement of Some v \<Rightarrow> settlement_seconds v | None \<Rightarrow> Inr None) of
          Inl e \<Rightarrow> (Some e, sc1)
        | Inr seconds \<Rightarrow>
            (None, sc1\<lparr>ln_tracker := snd (track2v2ResultAnalytics (le_moment env) \<lparr>ra_matchId = mr_matchId r,
               ra_cancelled = rv_cancelled view, ra_myStatus = rv_myStatus view,
               ra_seconds = (case seconds of Some v \<Rightarrow> v | None \<Rightarrow> Finite (g_elapsed (ln_state sc))),
               ra_slot = s2_slot two, ra_teamId = s2_teamId two\<rparr> (ln_tracker sc1))\<rparr>))"

definition handle2v2MatchResult :: "live_env \<Rightarrow> match_result \<Rightarrow> live_scene \<Rightarrow> live_scene" where
  "handle2v2MatchResult env r sc =
     (if ln_exiting sc \<or> ln_modal sc \<noteq> None
         \<or> \<not> isCurrent2v2MatchResult r (ln_matchId sc) (map_option s2_slot (ln_two sc)) (map_option s2_teamId (ln_two sc))
         \<or> ln_settled sc = Some (mr_matchId r) then sc
      else
        let view = buildTwoVTwoResultViewModel (le_commander env) r
              (case ln_two sc of Some p \<Rightarrow> s2_slot p | None \<Rightarrow> Slot0) (rosterNameMap sc);
            sc1 = hide2v2ReconnectOverlay (sc\<lparr>ln_settled := Some (mr_matchId r)\<rparr>);
            (thrown, sc2) = (case ln_two sc of
              Some two \<Rightarrow> if rv_cancelled view then (None, sc1) else team_result_report env r view two sc1
            | None \<Rightarrow> (None, sc1))
        in case thrown of
            Some e \<Rightarrow> sc2\<lparr>ln_errors := ln_errors sc2 @ [e]\<rparr>
          | None \<Rightarrow> sc2\<lparr>ln_modal := Some (TeamCard view True)\<rparr>)"

definition team_closed :: "live_env \<Rightarrow> live_scene \<Rightarrow> live_scene" where
  "team_closed env sc =
     (if ln_exiting sc \<or> ln_modal sc \<noteq> None \<or> ln_overlay sc \<noteq> None \<or> g_status (ln_state sc) \<noteq> Playing then sc
      else show2v2AbandonedOverlay ''connection_closed''
        (sc\<lparr>ln_tracker := snd (note_terminal (le_moment env) (quit_event TwoVTwoMode sc) (ln_tracker sc))\<rparr>))"

definition team_error_event :: "string \<Rightarrow> live_scene \<Rightarrow> live_scene" where
  "team_error_event code sc =
     (if ln_exiting sc \<or> ln_modal sc \<noteq> None then sc
      else if code = ''settlement_failed'' then show2v2AbandonedOverlay code sc else sc)"

definition handle2v2MatchExpired :: "string \<Rightarrow> live_scene \<Rightarrow> live_scene" where
  "handle2v2MatchExpired matchId sc = (if matchId \<noteq> ln_matchId sc then sc else live_returnToMenu sc)"

text \<open>A client that cannot send the signal does not stop the rematch.\<close>

definition handle2v2RematchStarted :: "live_scene \<Rightarrow> live_scene" where
  "handle2v2RematchStarted sc = call_client ReadyCall (sc\<lparr>ln_voted := False\<rparr>)"

section \<open>Taps\<close>

text \<open>Voting for a rematch; a refused vote can be repeated.\<close>

definition rematchPressed :: "bool \<Rightarrow> live_scene \<Rightarrow> live_scene" where
  "rematchPressed sendable sc = (case ln_modal sc of
       Some (TeamCard view enabled) \<Rightarrow>
         if \<not> enabled \<or> ln_voted sc \<or> rv_cancelled view then sc
         else let sc1 = call_client VoteCall sc
           in if \<not> sendable then sc1\<lparr>ln_voted := False\<rparr>
              else sc1\<lparr>ln_voted := True, ln_modal := Some (TeamCard view False)\<rparr>
     | _ \<Rightarrow> sc)"

text \<open>The menu keeps the identifier it was made with, also through a rematch.\<close>

definition live_menu_deps :: "live_scene \<Rightarrow> menu_deps" where
  "live_menu_deps sc = \<lparr>md_live = True, md_matchId = ln_menuMatchId sc, md_confirmation = None\<rparr>"

definition live_menu_effect :: "live_env \<Rightarrow> menu_effect \<Rightarrow> live_scene \<Rightarrow> live_scene" where
  "live_menu_effect env e sc = (case e of
       Navigated ev \<Rightarrow> live_note env ev sc
     | StateShown ms \<Rightarrow> sc\<lparr>ln_menuModal := (ms \<noteq> MenuClosed)\<rparr>
     | QuitTracked q \<Rightarrow> sc\<lparr>ln_tracker := snd (note_terminal (le_moment env)
         (EvMatchQuit (live_context (mq_matchId q) (mq_mode q)) (Finite (mq_seconds q))) (ln_tracker sc))\<rparr>
     | LiveClientClosed \<Rightarrow> close_client sc
     | ExitConfirmed \<Rightarrow> live_returnToMenu (sc\<lparr>ln_menuModal := False\<rparr>))"

definition with_live_menu :: "live_env \<Rightarrow> (match_menu \<Rightarrow> match_menu) \<Rightarrow> live_scene \<Rightarrow> live_scene" where
  "with_live_menu env f sc =
     (let m = ln_menu sc; m' = f m
      in fold (live_menu_effect env) (drop (length (mm_effects m)) (mm_effects m')) (sc\<lparr>ln_menu := m'\<rparr>))"

text \<open>The buttons of the menu are there while it shows them.\<close>

definition menu_shows :: "menu_state \<Rightarrow> live_scene \<Rightarrow> bool" where
  "menu_shows ms sc \<longleftrightarrow> ln_menuModal sc \<and> mm_state (ln_menu sc) = ms"

definition confirmLeavePressed :: "live_env \<Rightarrow> live_scene \<Rightarrow> live_scene" where
  "confirmLeavePressed env sc =
     (if \<not> menu_shows ConfirmOpen sc then sc
      else let sc1 = (if is2v2 sc \<and> \<not> ln_surrendered sc
            then (if ln_client sc then call_client SurrenderCall sc else sc)\<lparr>ln_surrendered := True\<rparr> else sc)
      in with_live_menu env (confirmExit (live_menu_deps sc1) (wholeMatchSeconds (Finite (g_elapsed (ln_state sc1))))) sc1)"

definition live_backButton :: "live_env \<Rightarrow> live_scene \<Rightarrow> live_scene" where
  "live_backButton env sc =
     (if ln_exiting sc then sc
      else if ln_modal sc \<noteq> None then live_returnToMenu sc
      else with_live_menu env (handleBackButton (live_menu_deps sc)) sc)"

text \<open>The buttons that lead to the menu: those of every card, and that of an abandoned match.\<close>

definition menuPressed :: "live_scene \<Rightarrow> live_scene" where
  "menuPressed sc =
     (if ln_modal sc \<noteq> None \<or> (case ln_overlay sc of Some (AbandonedOverlay _) \<Rightarrow> True | _ \<Rightarrow> False)
      then live_returnToMenu sc else sc)"

section \<open>Opening and closing the scene\<close>

datatype live_launch = LaunchOne string game_state | LaunchTeam started_2v2

definition launch_state :: "live_launch \<Rightarrow> game_state" where
  "launch_state l = (case l of LaunchOne _ s \<Rightarrow> s | LaunchTeam p \<Rightarrow> s2_state p)"

definition launch_matchId :: "live_launch \<Rightarrow> string" where
  "launch_matchId l = (case l of LaunchOne i _ \<Rightarrow> i | LaunchTeam p \<Rightarrow> s2_matchId p)"

definition blank_live_scene :: "live_launch \<Rightarrow> bool \<Rightarrow> tracker \<Rightarrow> live_scene" where
  "blank_live_scene l hasClient k = \<lparr>ln_state = launch_state l, ln_auth = SameState, ln_predictions = [],
     ln_matchId = launch_matchId l,
     ln_battlefieldId = (case g_battlefieldId (launch_state l) of Some b \<Rightarrow> b | None \<Rightarrow> ''crown_cross''),
     ln_settled = None, ln_exiting = False, ln_bound = True, ln_listening = hasClient, ln_client = hasClient, ln_modal = None, ln_overlay = None,
     ln_two = None, ln_appliedStart = None, ln_voted = False, ln_surrendered = False, ln_menu = new_menu, ln_menuMatchId = launch_matchId l,
     ln_menuModal = False, ln_tracker = k, ln_applied = [], ln_arrivals = [], ln_calls = [], ln_errors = []\<rparr>"

definition open_live_scene :: "live_env \<Rightarrow> live_launch \<Rightarrow> bool \<Rightarrow> string \<Rightarrow> tracker \<Rightarrow> live_scene" where
  "open_live_scene env l hasClient source k =
     (let sc = blank_live_scene l hasClient k;
          sc1 = (case l of LaunchTeam p \<Rightarrow> initTwoVTwoSession p sc | LaunchOne _ _ \<Rightarrow> sc);
          sc2 = live_note env (start_event source sc1) sc1
      in if hasClient then sc2
         else if is2v2 sc2 then show2v2AbandonedOverlay ''connection_closed'' sc2 else showLiveConnectionError sc2)"

definition live_cleanup :: "live_scene \<Rightarrow> live_scene" where
  "live_cleanup sc = (close_client sc)\<lparr>ln_bound := False, ln_listening := False, ln_predictions := [], ln_auth := NoState, ln_overlay := None,
     ln_two := None, ln_appliedStart := None, ln_voted := False, ln_surrendered := False, ln_modal := None,
     ln_menuModal := False, ln_settled := None\<rparr>"

section \<open>Steps\<close>

definition menuHitPressed :: "live_env \<Rightarrow> live_scene \<Rightarrow> live_scene" where
  "menuHitPressed env sc =
     (if ln_modal sc \<noteq> None \<or> ln_exiting sc then sc else with_live_menu env (openMenu (live_menu_deps sc)) sc)"

definition resumePressed :: "live_env \<Rightarrow> live_scene \<Rightarrow> live_scene" where
  "resumePressed env sc = (if menu_shows MenuOpen sc then with_live_menu env (closeMenu (live_menu_deps sc)) sc else sc)"

definition leavePressed :: "live_env \<Rightarrow> live_scene \<Rightarrow> live_scene" where
  "leavePressed env sc =
     (if menu_shows MenuOpen sc then with_live_menu env (openConfirm (live_menu_deps sc) FromMenu) sc else sc)"

definition keepPlayingPressed :: "live_env \<Rightarrow> live_scene \<Rightarrow> live_scene" where
  "keepPlayingPressed env sc =
     (if menu_shows ConfirmOpen sc then with_live_menu env (backToMenu (live_menu_deps sc)) sc else sc)"

text \<open>What the client emits, and what the player and the platform do.\<close>

datatype live_client_event =
    StateIn game_state | CommandRejectedIn string "num option" | ResultIn live_result | ClosedIn | ErrorIn string
  | StartedIn started_2v2 | TeamResultIn match_result | ReconnectingIn nat | ReconnectedIn | ReconnectFailedIn string
  | RematchStartedIn | ExpiredIn string

datatype live_scene_input =
    ClientEvent live_client_event
  | FrameIn num
  | Strike "num option" "string list" "string option"
  | MenuTap | ResumeTap | LeaveTap | CancelLeaveTap | ConfirmLeaveTap | BackTap
  | RematchTap bool | MenuButtonTap | Shutdown

definition duel_event :: "live_env \<Rightarrow> live_client_event \<Rightarrow> live_scene \<Rightarrow> live_scene" where
  "duel_event env e sc = (case e of
       StateIn s \<Rightarrow> if ln_modal sc \<noteq> None then sc else applyLiveServerState s sc
     | CommandRejectedIn code sequence \<Rightarrow> rejectLiveCommand sequence sc
     | ResultIn r \<Rightarrow> handleLiveMatchResult env r sc
     | ClosedIn \<Rightarrow> live_closed env sc
     | ErrorIn code \<Rightarrow> live_error_event code sc
     | _ \<Rightarrow> sc)"

definition team_event :: "live_env \<Rightarrow> live_client_event \<Rightarrow> live_scene \<Rightarrow> live_scene" where
  "team_event env e sc = (case e of
       StateIn s \<Rightarrow> if ln_modal sc \<noteq> None then sc else applyLiveServerState s sc
     | CommandRejectedIn code sequence \<Rightarrow> rejectLiveCommand sequence sc
     | StartedIn p \<Rightarrow> handle2v2MatchStarted env p sc
     | TeamResultIn r \<Rightarrow> handle2v2MatchResult env r sc
     | ReconnectingIn attempt \<Rightarrow> if ln_exiting sc then sc else show2v2ReconnectOverlay attempt sc
     | ReconnectedIn \<Rightarrow> hide2v2ReconnectOverlay sc
     | ReconnectFailedIn code \<Rightarrow>
         if ln_exiting sc then sc else show2v2AbandonedOverlay code (hide2v2ReconnectOverlay sc)
     | RematchStartedIn \<Rightarrow> if ln_exiting sc then sc else handle2v2RematchStarted sc
     | ExpiredIn matchId \<Rightarrow> if ln_exiting sc then sc else handle2v2MatchExpired matchId sc
     | ClosedIn \<Rightarrow> team_closed env sc
     | ErrorIn code \<Rightarrow> team_error_event code sc
     | ResultIn _ \<Rightarrow> sc)"

text \<open>The listeners are there until the scene is shut down; a scene opened without a client has none.\<close>

definition live_scene_step :: "live_env \<Rightarrow> live_scene_input \<Rightarrow> live_scene \<Rightarrow> live_scene" where
  "live_scene_step env i sc =
     (if \<not> ln_bound sc then sc
      else case i of
        ClientEvent e \<Rightarrow> if \<not> ln_listening sc then sc
          else if is2v2 sc then team_event env e sc else duel_event env e sc
      | FrameIn delta \<Rightarrow> live_frame delta sc
      | Strike cursor sourceIds hovered \<Rightarrow> live_pointer_up env cursor sourceIds hovered sc
      | MenuTap \<Rightarrow> menuHitPressed env sc
      | ResumeTap \<Rightarrow> resumePressed env sc
      | LeaveTap \<Rightarrow> leavePressed env sc
      | CancelLeaveTap \<Rightarrow> keepPlayingPressed env sc
      | ConfirmLeaveTap \<Rightarrow> confirmLeavePressed env sc
      | BackTap \<Rightarrow> live_backButton env sc
      | RematchTap sendable \<Rightarrow> rematchPressed sendable sc
      | MenuButtonTap \<Rightarrow> menuPressed sc
      | Shutdown \<Rightarrow> live_cleanup sc)"

definition live_scene_run :: "live_env \<Rightarrow> live_scene_input list \<Rightarrow> live_scene \<Rightarrow> live_scene" where
  "live_scene_run env inputs sc = fold (live_scene_step env) inputs sc"

end
