(* ===== verification/LiveSceneFacts.thy ===== *)
theory LiveSceneFacts
  imports LiveScene SceneOrders LiveFacts
begin

text \<open>
  What the client of a live match shows and settles. Its towers are those of the server's last snapshot with the
  player's unanswered orders taken out (\<open>view_inv\<close>), and a snapshot loses no army of the
  server and no order of the player (\<open>takes\<close>).
\<close>

section \<open>Towers without the pending orders\<close>

lemma applyPending_append:
  "applyPendingLiveDispatches ts (ps @ qs) = applyPendingLiveDispatches (applyPendingLiveDispatches ts ps) qs"
  by (simp add: applyPendingLiveDispatches_def)

lemma applyPending_Nil [simp]: "applyPendingLiveDispatches ts [] = ts"
  by (simp add: applyPendingLiveDispatches_def)

lemma apply_pending_get:
  "obj_get (apply_pending p ts) i = (case obj_get ts i of
     Some t \<Rightarrow> Some (if i = pd_sourceId p \<and> t_owner t = Player then t\<lparr>t_units := max 0 (jsub (t_units t) (pd_units p))\<rparr> else t)
   | None \<Rightarrow> None)"
  by (auto simp: apply_pending_def obj_simps split: option.splits)

lemma apply_pending_keys [simp]: "obj_keys (apply_pending p ts) = obj_keys ts"
proof (cases "obj_get ts (pd_sourceId p)")
  case (Some t)
  then show ?thesis by (auto simp: apply_pending_def obj_keys_set simp del: set_map dest: obj_get_Some_key)
qed (simp add: apply_pending_def)

text \<open>A board of whole garrisons below \<open>2 ^ 53\<close>.\<close>

definition live_board :: "territory obj \<Rightarrow> bool" where
  "live_board ts \<longleftrightarrow> wf_board ts \<and> (\<forall>i t. obj_get ts i = Some t \<longrightarrow> t_units t \<le> 2 ^ 53)"

lemma live_boardD:
  assumes "live_board ts" "obj_get ts i = Some t"
  shows "t_id t = i" "t_units t \<in> \<nat>" "t_units t \<le> 2 ^ 53" "0 \<le> t_units t"
proof -
  have "wf_tower i t" using assms by (auto simp: live_board_def dest: wf_boardD)
  then show "t_id t = i" "t_units t \<in> \<nat>" "0 \<le> t_units t" by (auto simp: wf_tower_def Nats_iff)
  show "t_units t \<le> 2 ^ 53" using assms by (simp add: live_board_def)
qed

definition whole_pending :: "pending_dispatch \<Rightarrow> bool" where
  "whole_pending p \<longleftrightarrow> pd_units p \<in> \<nat>"

lemma pending_units:
  assumes "u \<in> \<nat>" "u \<le> 2 ^ 53" "n \<in> \<nat>"
  shows "max 0 (jsub u n) = max 0 (u - n)" "max 0 (jsub u n) \<in> \<nat>" "max 0 (jsub u n) \<le> u"
proof -
  have "jsub u n \<le> 0" if "u \<le> n" using that by simp
  moreover have "jsub u n = u - n" if "n \<le> u"
    using that assms by (intro fl_Ints_exact) (auto simp: Nats_iff)
  ultimately show eq: "max 0 (jsub u n) = max 0 (u - n)" by (cases "n \<le> u") (auto simp: max_def)
  show "max 0 (jsub u n) \<in> \<nat>" "max 0 (jsub u n) \<le> u"
    using assms unfolding eq by (auto simp: Nats_iff max_def)
qed

lemma live_board_apply_pending:
  assumes "live_board ts" "whole_pending p"
  shows "live_board (apply_pending p ts)"
proof -
  have "wf_tower i t' \<and> t_units t' \<le> 2 ^ 53" if get: "obj_get (apply_pending p ts) i = Some t'" for i t'
  proof -
    obtain t where t: "obj_get ts i = Some t"
      "t' = (if i = pd_sourceId p \<and> t_owner t = Player then t\<lparr>t_units := max 0 (jsub (t_units t) (pd_units p))\<rparr> else t)"
      using get by (auto simp: apply_pending_get split: option.splits)
    note b = live_boardD [OF assms(1) t(1)]
    have "wf_tower i t" using assms(1) t(1) by (auto simp: live_board_def dest: wf_boardD)
    moreover have "max 0 (jsub (t_units t) (pd_units p)) \<in> \<nat>" "max 0 (jsub (t_units t) (pd_units p)) \<le> t_units t"
      using pending_units [of "t_units t" "pd_units p"] b assms(2) by (auto simp: whole_pending_def)
    ultimately show ?thesis using t(2) b by (auto simp: wf_tower_def)
  qed
  then show ?thesis using assms(1) by (simp add: live_board_def wf_board_def)
qed

lemma live_board_applyPending:
  "live_board ts \<Longrightarrow> list_all whole_pending ps \<Longrightarrow> live_board (applyPendingLiveDispatches ts ps)"
  unfolding applyPendingLiveDispatches_def
  by (induction ps arbitrary: ts) (auto simp: live_board_apply_pending)

section \<open>A strike is its pending orders\<close>

lemma dispatched_half:
  assumes "dispatchArmy hyp src tgt Player (1 / 2) n sp None = Inr (Dispatched left m)"
    and "t_units src \<in> \<nat>" "t_units src \<le> 2 ^ 53"
  shows "a_sourceId m = t_id src" "t_owner src = Player" "a_units m \<in> \<nat>"
    "left = src\<lparr>t_units := max 0 (jsub (t_units src) (a_units m))\<rparr>" "t_units left \<in> \<nat>" "t_units left \<le> t_units src"
proof -
  obtain k where k: "t_units src = of_nat k" using assms(2) by (auto elim: Nats_cases)
  have "k \<le> 2 ^ 53" using assms(3) k by (metis of_nat_le_iff of_nat_numeral of_nat_power)
  note half = calculateDispatchUnits_half [OF this]
  have d: "t_owner src = Player" "m = new_army hyp src tgt Player (calculateDispatchUnits (t_units src) (1 / 2)) (safe_speed_multiplier sp) n"
    "left = src\<lparr>t_units := jsub (t_units src) (calculateDispatchUnits (t_units src) (1 / 2))\<rparr>"
    using dispatchArmy_Dispatched [OF assms(1)] by (auto simp: routed_army_def)
  then show "a_sourceId m = t_id src" "t_owner src = Player" "a_units m \<in> \<nat>"
    by (simp_all add: new_army_def Let_def k half)
  have u: "a_units m = of_nat (k div 2)" using d(2) by (simp add: new_army_def Let_def k half)
  have "jsub (t_units src) (a_units m) = t_units src - a_units m"
  proof (rule fl_Ints_exact)
    show "t_units src - a_units m \<in> \<int>" by (simp add: k u)
    have "(of_nat (k div 2) :: rat) \<le> of_nat k" by (simp del: of_nat_div)
    then show "\<bar>t_units src - a_units m\<bar> \<le> 2 ^ 53" using assms(3) by (simp add: k u)
  qed
  moreover have "(of_nat (k div 2) :: rat) \<le> of_nat k" by (simp del: of_nat_div)
  ultimately have nonneg: "0 \<le> jsub (t_units src) (a_units m)" "jsub (t_units src) (a_units m) \<in> \<nat>"
    "jsub (t_units src) (a_units m) \<le> t_units src"
    by (simp_all add: k u flip: of_nat_diff)
  have "calculateDispatchUnits (t_units src) (1 / 2) = a_units m" using d(2) by (simp add: new_army_def Let_def)
  then show "left = src\<lparr>t_units := max 0 (jsub (t_units src) (a_units m))\<rparr>" "t_units left \<in> \<nat>" "t_units left \<le> t_units src"
    using d(3) nonneg by (simp_all add: max_def)
qed

lemma prediction_for_sel [simp]:
  "pd_sourceId (prediction_for x) = a_sourceId (snd x)" "pd_units (prediction_for x) = a_units (snd x)"
  "pd_sequence (prediction_for x) = fst x" "pd_armyId (prediction_for x) = ''pred_'' @ num_string (fst x)"
  by (simp_all add: prediction_for_def predicted_army_def)

lemma number_orders_append: "\<exists>n'. number_orders n (ms @ ms') = number_orders n ms @ number_orders n' ms'"
  by (induction ms arbitrary: n) auto

lemma map_snd_orders [simp]: "map snd (number_orders n ms) = ms"
  by (induction ms arbitrary: n) auto

text \<open>What a list of orders takes from the towers does not depend on their numbers.\<close>

definition take_out :: "army \<Rightarrow> territory obj \<Rightarrow> territory obj" where
  "take_out m = apply_pending \<lparr>pd_sequence = 0, pd_armyId = [], pd_sourceId = a_sourceId m, pd_units = a_units m\<rparr>"

lemma applyPending_orders:
  "applyPendingLiveDispatches ts (map prediction_for (number_orders n ms)) = fold take_out ms ts"
proof (induction ms arbitrary: n ts)
  case (Cons m ms)
  have "apply_pending (prediction_for (n, m)) = take_out m"
    by (intro ext) (simp add: take_out_def apply_pending_def split: option.split)
  then show ?case using Cons by (simp add: applyPendingLiveDispatches_def)
qed simp

lemma strike_takes_out:
  assumes "fold_res (dispatch_source hyp tgt Player (1 / 2) sp ids None) sources acc = Inr r"
    and "distinct (map t_id sources)" "set (map t_id sources) \<inter> set (obj_keys (md_updatedSources acc)) = {}"
    and "\<forall>src\<in>set sources. obj_get ts (t_id src) = Some src \<and> t_units src \<in> \<nat> \<and> t_units src \<le> 2 ^ 53"
  shows "\<exists>ms. md_armies r = md_armies acc @ ms \<and> list_all (\<lambda>m. a_units m \<in> \<nat>) ms
    \<and> object_assign ts (md_updatedSources r) = fold take_out ms (object_assign ts (md_updatedSources acc))"
  using assms
proof (induction sources arbitrary: acc)
  case (Cons src sources)
  then obtain acc1 where 1: "dispatch_source hyp tgt Player (1 / 2) sp ids None src acc = Inr acc1"
    "fold_res (dispatch_source hyp tgt Player (1 / 2) sp ids None) sources acc1 = Inr r" by (auto simp: rbind_eq_Inr)
  from 1(1) show ?case
  proof (cases rule: dispatch_source_cases)
    case 1
    then show ?thesis using Cons.IH [OF \<open>fold_res _ sources acc1 = Inr r\<close>] Cons.prems by auto
  next
    case (2 left m)
    have src: "obj_get ts (t_id src) = Some src" "t_units src \<in> \<nat>" "t_units src \<le> 2 ^ 53" using Cons.prems(4) by auto
    note half = dispatched_half [OF 2(1) src(2,3)]
    have new: "t_id src \<notin> set (obj_keys (md_updatedSources acc))" using Cons.prems(3) by auto
    have keys: "set (map t_id sources) \<inter> set (obj_keys (md_updatedSources acc1)) = {}"
      using Cons.prems(2,3) 2(2) by (auto simp: obj_keys_set simp del: set_map)
    obtain ms where ms: "md_armies r = md_armies acc1 @ ms" "list_all (\<lambda>m. a_units m \<in> \<nat>) ms"
      "object_assign ts (md_updatedSources r) = fold take_out ms (object_assign ts (md_updatedSources acc1))"
      using Cons.IH [OF 1(2) _ keys] Cons.prems(2,4) by auto
    have "obj_get (object_assign ts us) i = obj_get ts i" if "i \<notin> set (obj_keys us)" for us i
      using that by (induction us arbitrary: ts) (auto simp: object_assign_def obj_simps)
    from this [OF new] have at: "obj_get (object_assign ts (md_updatedSources acc)) (t_id src) = Some src" using src(1) by simp
    have "object_assign ts (md_updatedSources acc1) = take_out m (object_assign ts (md_updatedSources acc))"
      using at half(1,2,4) 2(2) new by (simp add: object_assign_new take_out_def apply_pending_def)
    then show ?thesis using ms 2(2) half(3) by (intro exI [of _ "m # ms"]) simp
  qed
qed simp

section \<open>What the scene shows\<close>

text \<open>The units of the pending orders that leave a tower, and the towers of a snapshot without them.\<close>

definition pending_from :: "string \<Rightarrow> pending_dispatch list \<Rightarrow> num" where
  "pending_from i ps = sum_list (map pd_units (filter (\<lambda>p. pd_sourceId p = i) ps))"

definition without_pending :: "pending_dispatch list \<Rightarrow> string \<Rightarrow> territory \<Rightarrow> territory" where
  "without_pending ps i t = (if t_owner t = Player then t\<lparr>t_units := max 0 (t_units t - pending_from i ps)\<rparr> else t)"

lemma pending_from_Nats: "list_all whole_pending ps \<Longrightarrow> pending_from i ps \<in> \<nat>"
  by (induction ps) (auto simp: pending_from_def whole_pending_def)

lemma applyPending_get:
  assumes "live_board ts" "list_all whole_pending ps"
  shows "obj_get (applyPendingLiveDispatches ts ps) i = map_option (without_pending ps i) (obj_get ts i)"
  using assms
proof (induction ps arbitrary: ts)
  case Nil
  then show ?case
    by (cases "obj_get ts i") (auto simp: without_pending_def pending_from_def max_def dest: live_boardD(4))
next
  case (Cons p ps)
  have p: "whole_pending p" "list_all whole_pending ps" using Cons.prems(2) by auto
  have "obj_get (applyPendingLiveDispatches ts (p # ps)) i
      = map_option (without_pending ps i) (obj_get (apply_pending p ts) i)"
    using Cons.IH [OF live_board_apply_pending [OF Cons.prems(1) p(1)] p(2)] by (simp add: applyPendingLiveDispatches_def)
  also have "\<dots> = map_option (without_pending (p # ps) i) (obj_get ts i)"
  proof (cases "obj_get ts i")
    case (Some t)
    note b = live_boardD [OF Cons.prems(1) Some]
    have n: "pd_units p \<in> \<nat>" using p(1) by (simp add: whole_pending_def)
    have "0 \<le> pending_from i ps" using pending_from_Nats [OF p(2)] by (simp add: Nats_iff)
    then show ?thesis using pending_units(1) [OF b(2,3) n] Some n
      by (auto simp: apply_pending_get without_pending_def pending_from_def max_def Nats_iff)
  qed (simp add: apply_pending_get)
  finally show ?case .
qed

text \<open>The invariant speaks of the towers shown, the server's word and the pending orders alone.\<close>

definition view :: "live_scene \<Rightarrow> territory obj \<times> authority \<times> pending_dispatch list" where
  "view sc = (g_territories (ln_state sc), ln_auth sc, ln_predictions sc)"

definition view_ok :: "territory obj \<times> authority \<times> pending_dispatch list \<Rightarrow> bool" where
  "view_ok v = (case v of (ts, auth, ps) \<Rightarrow> live_board ts \<and> list_all whole_pending ps
     \<and> (case auth of Snapshot s \<Rightarrow> live_board (g_territories s) \<and> ts = applyPendingLiveDispatches (g_territories s) ps
        | _ \<Rightarrow> True))"

abbreviation view_inv :: "live_scene \<Rightarrow> bool" where "view_inv sc \<equiv> view_ok (view sc)"

named_theorems live_frame_simps

lemma view_frames [live_frame_simps]:
  "view (live_note env e sc) = view sc" "view (call_client x sc) = view sc" "view (live_returnToMenu sc) = view sc"
  "view (close_client sc) = view sc" "view (showLiveConnectionError sc) = view sc"
  "view (hide2v2ReconnectOverlay sc) = view sc" "view (show2v2ReconnectOverlay n sc) = view sc"
  "view (show2v2AbandonedOverlay code sc) = view sc" "view (live_frame delta sc) = view sc"
  "view (consume r ce sc) = view sc" "view (live_error_event code sc) = view sc" "view (team_error_event code sc) = view sc"
  "view (team_closed env sc) = view sc" "view (handle2v2MatchExpired i sc) = view sc"
  "view (handle2v2RematchStarted sc) = view sc" "view (menuPressed sc) = view sc" "view (live_menu_effect env me sc) = view sc"
  by (simp_all add: view_def live_note_def call_client_def live_returnToMenu_def close_client_def showLiveConnectionError_def
      hide2v2ReconnectOverlay_def show2v2ReconnectOverlay_def show2v2AbandonedOverlay_def live_frame_def stepLiveMatch_def
      consume_def live_error_event_def team_error_event_def team_closed_def handle2v2MatchExpired_def
      handle2v2RematchStarted_def menuPressed_def live_menu_effect_def Let_def split: consumer_effect.split menu_effect.split)

lemma fold_frame: "(\<And>x s. f (g x s) = f s) \<Longrightarrow> f (fold g xs s) = f s"
  by (induction xs arbitrary: s) simp_all

lemma view_upd [simp]:
  "view (sc\<lparr>ln_tracker := k\<rparr>) = view sc" "view (sc\<lparr>ln_settled := o1\<rparr>) = view sc" "view (sc\<lparr>ln_menu := m\<rparr>) = view sc"
  "view (sc\<lparr>ln_voted := b\<rparr>) = view sc" "view (sc\<lparr>ln_modal := o2\<rparr>) = view sc" "view (sc\<lparr>ln_surrendered := b\<rparr>) = view sc"
  "view (sc\<lparr>ln_applied := xs\<rparr>) = view sc" "view (sc\<lparr>ln_errors := es\<rparr>) = view sc"
  by (simp_all add: view_def)

lemma view_handlers [live_frame_simps]:
  "view (handleLiveMatchResult env r sc) = view sc" "view (live_closed env sc) = view sc"
  "view (with_live_menu env f sc) = view sc" "view (rematchPressed ok sc) = view sc"
  by (auto simp: handleLiveMatchResult_def live_closed_def with_live_menu_def rematchPressed_def live_frame_simps
      fold_frame [of view] Let_def split: prod.split option.split live_modal.split)

lemma view_taps [live_frame_simps]:
  "view (confirmLeavePressed env sc) = view sc" "view (live_backButton env sc) = view sc"
  "view (menuHitPressed env sc) = view sc" "view (resumePressed env sc) = view sc" "view (leavePressed env sc) = view sc"
  "view (keepPlayingPressed env sc) = view sc"
  by (simp_all add: confirmLeavePressed_def live_backButton_def menuHitPressed_def resumePressed_def leavePressed_def
      keepPlayingPressed_def live_frame_simps Let_def)

lemma view_team_report: "view (snd (team_result_report env r v two sc)) = view sc"
  by (simp add: team_result_report_def Let_def split: option.split sum.split)

lemma view_team_result [live_frame_simps]: "view (handle2v2MatchResult env r sc) = view sc"
proof -
  have "view sc2 = view sc1" if "team_result_report env r v two sc1 = (e, sc2)" for v two sc1 e sc2
    using view_team_report [of env r v two sc1] that by simp
  then show ?thesis
    by (auto simp: handle2v2MatchResult_def live_frame_simps Let_def split: option.split prod.split)
qed

lemma view_ok_applied:
  assumes "live_board (g_territories s)" "list_all whole_pending ps"
  shows "view_ok (applyPendingLiveDispatches (g_territories s) ps, Snapshot s, ps)"
  using assms by (simp add: view_ok_def live_board_applyPending)

lemma view_applyLiveServerState:
  assumes "view_inv sc" "live_board (g_territories s)"
  shows "view_inv (applyLiveServerState s sc)"
proof (cases "case authoritative sc of Some a \<Rightarrow> g_elapsed s \<le> g_elapsed a | None \<Rightarrow> False")
  case True
  then show ?thesis using assms(1) by (simp add: applyLiveServerState_def)
next
  case False
  have "list_all whole_pending (filter P (ln_predictions sc))" for P
    using assms(1) by (auto simp: view_ok_def view_def list_all_iff)
  then show ?thesis using view_ok_applied [OF assms(2)]
    by (simp add: applyLiveServerState_def False view_def Let_def)
qed

lemma rejectLivePrediction_pending:
  "snd (rejectLivePrediction ms ps n) = filter (\<lambda>p. pd_sequence p \<noteq> n) ps"
  by (auto simp: rejectLivePrediction_def find_None_iff intro: sym [OF filter_True] split: option.split)

lemma view_rejectLiveCommand:
  assumes "view_inv sc"
  shows "view_inv (rejectLiveCommand n sc)"
proof (cases n)
  case None
  then show ?thesis using assms by (simp add: rejectLiveCommand_def)
next
  case (Some k)
  obtain ms ps where r: "rejectLivePrediction (g_armies (ln_state sc)) (ln_predictions sc) k = (ms, ps)" by fastforce
  have ps: "list_all whole_pending ps"
    using assms rejectLivePrediction_pending [of "g_armies (ln_state sc)" "ln_predictions sc" k] r
    by (auto simp: view_ok_def view_def list_all_iff)
  show ?thesis
    using assms ps live_board_applyPending [OF _ ps]
    by (cases "ln_auth sc") (auto simp: rejectLiveCommand_def Some r authoritative_def view_ok_def view_def)
qed

lemma view_live_strike:
  assumes "view_inv sc" "dispatchMultipleArmies hyp (List.map_filter (obj_get (g_territories (ln_state sc))) is) tgt Player (1 / 2) sp ids None = Inr sent"
    and "distinct is"
  shows "view_inv (live_strike sent n sc)"
proof -
  let ?ts = "g_territories (ln_state sc)"
  have board: "live_board ?ts" using assms(1) by (simp add: view_ok_def view_def)
  have ids: "map t_id (List.map_filter (obj_get ?ts) is) = filter (\<lambda>i. obj_get ?ts i \<noteq> None) is" for "is"
    by (induction "is") (auto simp: map_filter_simps dest: live_boardD(1) [OF board] split: option.splits)
  have "\<forall>src\<in>set (List.map_filter (obj_get ?ts) is). obj_get ?ts (t_id src) = Some src \<and> t_units src \<in> \<nat> \<and> t_units src \<le> 2 ^ 53"
    using live_boardD [OF board] by (fastforce simp: set_map_filter)
  then obtain ms where ms: "md_armies sent = ms" "list_all (\<lambda>m. a_units m \<in> \<nat>) ms"
    "object_assign ?ts (md_updatedSources sent) = fold take_out ms ?ts"
    using strike_takes_out [OF assms(2) [unfolded dispatchMultipleArmies_def], of ?ts] assms(3)
    by (auto simp: ids object_assign_def)
  have whole: "list_all whole_pending (map prediction_for (number_orders n ms))"
    using ms(2) by (induction ms arbitrary: n) (simp_all add: whole_pending_def)
  have taken: "object_assign ?ts (md_updatedSources sent) = applyPendingLiveDispatches ?ts (map prediction_for (number_orders n ms))"
    by (simp add: ms(3) applyPending_orders)
  show ?thesis using assms(1) whole live_board_applyPending [OF board whole]
    by (auto simp: live_strike_def view_ok_def view_def taken ms(1) Let_def applyPending_append split: authority.split)
qed

lemma view_pointer_up:
  assumes "view_inv sc" "distinct is"
  shows "view_inv (live_pointer_up env cursor is hovered sc)"
  using assms view_live_strike [OF assms(1) _ assms(2)]
  by (auto simp: live_pointer_up_def live_release_def Let_def live_frame_simps split: option.split sum.split)

lemma view_started:
  assumes "view_inv sc" "live_board (g_territories (s2_state p))"
  shows "view_inv (handle2v2MatchStarted env p sc)"
  using assms
  by (auto simp: handle2v2MatchStarted_def resetFor2v2Rematch_def initTwoVTwoSession_def live_frame_simps Let_def)
    (simp_all add: view_ok_def view_def)

text \<open>The server's boards are whole, and a selection holds a tower once.\<close>

definition live_input_ok :: "live_scene_input \<Rightarrow> bool" where
  "live_input_ok i = (case i of
       ClientEvent (StateIn s) \<Rightarrow> live_board (g_territories s)
     | ClientEvent (StartedIn p) \<Rightarrow> live_board (g_territories (s2_state p))
     | Strike _ is _ \<Rightarrow> distinct is
     | _ \<Rightarrow> True)"

lemma view_step:
  assumes "view_inv sc" "live_input_ok i"
  shows "view_inv (live_scene_step env i sc)"
proof (cases i)
  case (ClientEvent e)
  then show ?thesis using assms view_applyLiveServerState [OF assms(1)] view_started [OF assms(1)]
    by (cases e) (simp_all add: live_scene_step_def duel_event_def team_event_def live_frame_simps live_input_ok_def
        view_rejectLiveCommand)
next
  case Shutdown
  then show ?thesis using assms by (auto simp: live_scene_step_def live_cleanup_def view_def view_ok_def close_client_def call_client_def)
qed (use assms in \<open>simp_all add: live_scene_step_def live_frame_simps view_pointer_up live_input_ok_def\<close>)

lemma view_run:
  "view_inv sc \<Longrightarrow> list_all live_input_ok inputs \<Longrightarrow> view_inv (live_scene_run env inputs sc)"
  unfolding live_scene_run_def by (induction inputs arbitrary: sc) (simp_all add: view_step)

lemma view_open:
  assumes "live_board (g_territories (launch_state l))"
  shows "view_inv (open_live_scene env l hasClient source k)"
  using assms
  by (auto simp: open_live_scene_def blank_live_scene_def initTwoVTwoSession_def live_frame_simps Let_def split: live_launch.split)
    (simp_all add: view_ok_def view_def)

section \<open>The armies of a snapshot\<close>

lemma is_double_half_of: "is_double x \<Longrightarrow> is_double (x / 2)"
  unfolding is_double_def
proof (elim exE conjE)
  fix m e assume "x = of_int m * 2 powi e" "\<bar>m\<bar> \<le> 2 ^ 53"
  moreover have "(2::rat) powi (e - 1) = 2 powi e / 2" by (simp add: power_int_diff)
  ultimately show "\<exists>m e. x / 2 = of_int m * 2 powi e \<and> \<bar>m\<bar> \<le> 2 ^ 53" by (intro exI [of _ m] exI [of _ "e - 1"]) simp
qed

lemma fl_le_twice: "0 \<le> x \<Longrightarrow> fl x \<le> 2 * x"
proof (cases "x = 0")
  case False
  assume "0 \<le> x"
  with False have pos: "0 < x" by simp
  note b = ilog2_bounds [OF pos]
  have "fl x \<le> 2 powi (ilog2 x + 1)" using b(2) by (intro fl_le_double) simp_all
  also have "\<dots> = 2 * 2 powi (ilog2 x)" by (simp add: two_powi_add)
  also have "\<dots> \<le> 2 * x" using b(1) by simp
  finally show ?thesis .
qed simp

text \<open>A step of the blend goes towards the server and not past it.\<close>

lemma blend_up:
  assumes "is_double a" "is_double b" "a \<le> b" "0 \<le> w" "w \<le> 1 / 2"
  shows "a \<le> jadd a (jmul (jsub b a) w)" "jadd a (jmul (jsub b a) w) \<le> b"
proof -
  define d where "d = jsub b a"
  have d: "0 \<le> d" "d / 2 \<le> b - a" using assms(3) fl_le_twice [of "b - a"] by (simp_all add: d_def)
  have "d * w \<le> d / 2" using mult_left_mono [OF assms(5) d(1)] by simp
  then have "jmul d w \<le> d / 2" by (rule fl_le_double) (simp add: d_def is_double_half_of)
  moreover have "0 \<le> jmul d w" using d(1) assms(4) by simp
  ultimately show "a \<le> jadd a (jmul (jsub b a) w)" "jadd a (jmul (jsub b a) w) \<le> b"
    using d(2) assms(1,2) unfolding d_def [symmetric] by (intro fl_ge_double fl_le_double; simp)+
qed

definition between :: "num \<Rightarrow> num \<Rightarrow> num \<Rightarrow> bool" where
  "between a b x \<longleftrightarrow> min a b \<le> x \<and> x \<le> max a b"

lemma blend_between:
  assumes "is_double a" "is_double b" "0 \<le> w" "w \<le> 1 / 2"
  shows "between a b (jadd a (jmul (jsub b a) w))"
proof (cases "a \<le> b")
  case True
  then show ?thesis using blend_up [OF assms(1,2) True assms(3,4)] by (simp add: between_def)
next
  case False
  have "jsub (- b) (- a) = - jsub b a" by (metis fl_minus minus_diff_eq uminus_add_conv_diff add.commute diff_minus_eq_add)
  then have "jmul (jsub (- b) (- a)) w = - jmul (jsub b a) w" by (simp only: mult_minus_left fl_minus)
  then have "jadd (- a) (jmul (jsub (- b) (- a)) w) = - jadd a (jmul (jsub b a) w)"
    by (metis fl_minus minus_add_distrib)
  then show ?thesis using False blend_up [of "- a" "- b" w] assms by (simp add: between_def)
qed

text \<open>
  How an army of the snapshot is shown: without a counterpart on the client as it is; else it differs in progress at
  most, which is drawn towards the counterpart's when the two are close, and lies between them.
\<close>

definition same_road :: "army \<Rightarrow> army \<Rightarrow> bool" where
  "same_road p m \<longleftrightarrow> a_sourceId p = a_sourceId m \<and> a_targetId p = a_targetId m"

definition shown_near :: "num \<Rightarrow> army \<Rightarrow> army \<Rightarrow> army \<Rightarrow> bool" where
  "shown_near w l m x \<longleftrightarrow> x\<lparr>a_progress := a_progress m\<rparr> = m \<and> between (a_progress l) (a_progress m) (a_progress x)
     \<and> a_progress x = (if progress_gap l m < fl (1 / 5)
          then jadd (a_progress l) (jmul (jsub (a_progress m) (a_progress l)) w) else a_progress m)"

text \<open>
  The counterpart is the army of the client with the same visual, which is no prediction, or else a prediction. Which
  prediction an army of the snapshot takes, when those in \<open>used\<close> are taken: none if the client knows the army; only
  the player's armies take one, of the same road, and a prediction on that road that is older than the taken one is
  used, as are all when none is taken.
\<close>

definition known_as :: "army list \<Rightarrow> army \<Rightarrow> army option" where
  "known_as ls m = List.find (\<lambda>l. \<not> is_predicted l \<and> army_visual_id l = army_visual_id m) (rev ls)"

definition older_than :: "army option \<Rightarrow> army list \<Rightarrow> army list" where
  "older_than t ls = (case t of Some p \<Rightarrow> takeWhile (\<lambda>l. l \<noteq> p) ls | None \<Rightarrow> ls)"

definition takes :: "num \<Rightarrow> army list \<Rightarrow> string set \<Rightarrow> army \<Rightarrow> army option \<Rightarrow> army \<Rightarrow> bool" where
  "takes w ls used m t x \<longleftrightarrow> (case known_as ls m of
       Some l \<Rightarrow> t = None \<and> shown_near w l m x
     | None \<Rightarrow>
         (case t of None \<Rightarrow> x = m
          | Some p \<Rightarrow> a_owner m = Player \<and> p \<in> set ls \<and> is_predicted p \<and> same_road p m \<and> a_id p \<notin> used \<and> shown_near w p m x)
         \<and> (a_owner m = Player \<longrightarrow> (\<forall>q\<in>set (older_than t ls). is_predicted q \<and> same_road q m \<longrightarrow> a_id q \<in> used)))"

definition ids_of :: "army option list \<Rightarrow> string set" where
  "ids_of ts = {a_id p | p. Some p \<in> set ts}"

lemma ids_of_simps [simp]: "ids_of [] = {}" "ids_of (None # ts) = ids_of ts" "ids_of (Some p # ts) = insert (a_id p) (ids_of ts)"
  by (auto simp: ids_of_def)

definition renames_of :: "army list \<Rightarrow> army option list \<Rightarrow> (string \<times> string) list" where
  "renames_of ms ts = concat (map2 (\<lambda>m t. case t of Some p \<Rightarrow> [(army_visual_id p, army_visual_id m)] | None \<Rightarrow> []) ms ts)"

lemma local_by_key_known: "obj_get (local_by_key ls) (army_visual_id m) = known_as ls m"
proof -
  have "obj_get (fold (\<lambda>m ob. if is_predicted m then ob else obj_set (army_visual_id m) m ob) ls ob) k
      = (case List.find (\<lambda>l. \<not> is_predicted l \<and> army_visual_id l = k) (rev ls) of Some l \<Rightarrow> Some l | None \<Rightarrow> obj_get ob k)" for ob k
    by (induction ls rule: rev_induct) (simp_all add: obj_simps eq_commute split: option.split)
  from this [of "[]"] show ?thesis by (simp add: local_by_key_def known_as_def split: option.split)
qed

lemma known_as_Some: "known_as ls m = Some l \<Longrightarrow> l \<in> set ls"
  by (auto simp: known_as_def find_Some_iff) (metis length_rev nth_mem set_rev)

lemma near_blended:
  assumes "is_double (a_progress l)" "is_double (a_progress m)" "0 \<le> w" "w \<le> 1 / 2"
  shows "shown_near w l m (if progress_gap l m < fl (1 / 5) then blended w l m else m)"
  using blend_between [OF assms] by (simp add: shown_near_def blended_def) (simp add: between_def)

lemma near_known:
  assumes "is_double (a_progress l)" "is_double (a_progress m)" "0 \<le> w" "w \<le> 1 / 2"
  shows "shown_near w l m (if 0 < progress_gap l m \<and> progress_gap l m < fl (1 / 5) then blended w l m else m)"
proof (cases "a_progress l = a_progress m")
  case True
  then show ?thesis using assms by (simp add: shown_near_def blended_def progress_gap_def between_def)
next
  case False
  then have "0 < progress_gap l m" by (simp add: progress_gap_def)
  then show ?thesis using near_blended [OF assms] by simp
qed

lemma prediction_of_first:
  assumes "prediction_of (filter is_predicted ls) taken m = t"
  shows "t = Some p \<Longrightarrow> p \<in> set ls \<and> is_predicted p \<and> same_road p m \<and> a_id p \<notin> set taken"
    "q \<in> set (older_than t ls) \<Longrightarrow> is_predicted q \<Longrightarrow> same_road q m \<Longrightarrow> a_id q \<in> set taken"
proof -
  have "(t = Some p \<longrightarrow> p \<in> set ls \<and> is_predicted p \<and> same_road p m \<and> a_id p \<notin> set taken)
      \<and> (q \<in> set (older_than t ls) \<longrightarrow> is_predicted q \<longrightarrow> same_road q m \<longrightarrow> a_id q \<in> set taken)"
    using assms by (induction ls)
      (auto simp: prediction_of_def older_than_def same_road_def split: if_splits option.splits)
  then show "t = Some p \<Longrightarrow> p \<in> set ls \<and> is_predicted p \<and> same_road p m \<and> a_id p \<notin> set taken"
    "q \<in> set (older_than t ls) \<Longrightarrow> is_predicted q \<Longrightarrow> same_road q m \<Longrightarrow> a_id q \<in> set taken" by simp_all
qed

lemma reconcile_army_takes:
  assumes run: "reconcile_army w (local_by_key ls) (filter is_predicted ls) m rc = (x, rc')"
    and "\<forall>l\<in>set ls. is_double (a_progress l)" "is_double (a_progress m)" "0 \<le> w" "w \<le> 1 / 2"
  shows "\<exists>t. takes w ls (set (rc_matched rc)) m t x \<and> set (rc_matched rc') = ids_of [t] \<union> set (rc_matched rc)
    \<and> rc_renames rc' = rc_renames rc @ renames_of [m] [t]"
proof (cases "known_as ls m")
  case (Some l)
  then have "shown_near w l m x" "rc' = rc"
    using run near_known [of l m w] assms(2-5) known_as_Some [OF Some] by (auto simp: reconcile_army_def local_by_key_known)
  then show ?thesis using Some by (intro exI [of _ None]) (simp add: takes_def renames_of_def)
next
  case unknown: None
  define t where "t = (if a_owner m = Player then prediction_of (filter is_predicted ls) (rc_matched rc) m else None)"
  note first = prediction_of_first [OF refl, where ls = ls and taken = "rc_matched rc" and m = m]
  show ?thesis
  proof (cases t)
    case (Some p)
    then have p: "a_owner m = Player" "prediction_of (filter is_predicted ls) (rc_matched rc) m = Some p" by (auto simp: t_def split: if_splits)
    then have "x = (if progress_gap p m < fl (1 / 5) then blended w p m else m)"
      "rc' = rc\<lparr>rc_matched := a_id p # rc_matched rc, rc_renames := rc_renames rc @ [(army_visual_id p, army_visual_id m)]\<rparr>"
      using run unknown by (auto simp: reconcile_army_def local_by_key_known)
    moreover have chosen: "p \<in> set ls" "is_predicted p" "same_road p m" "a_id p \<notin> set (rc_matched rc)"
      using first(1) p(2) by blast+
    moreover have "shown_near w p m (if progress_gap p m < fl (1 / 5) then blended w p m else m)"
      using chosen(1) assms(2-5) by (intro near_blended) simp_all
    moreover have "\<forall>q\<in>set (older_than (Some p) ls). is_predicted q \<and> same_road q m \<longrightarrow> a_id q \<in> set (rc_matched rc)"
      using first(2) unfolding p(2) by blast
    ultimately show ?thesis using unknown p(1)
      by (intro exI [of _ "Some p"]) (simp add: takes_def renames_of_def)
  next
    case None
    then have "x = m" "rc' = rc" using run unknown by (auto simp: reconcile_army_def local_by_key_known t_def split: if_splits option.splits)
    moreover have "a_owner m = Player \<longrightarrow> (\<forall>q\<in>set (older_than None ls). is_predicted q \<and> same_road q m \<longrightarrow> a_id q \<in> set (rc_matched rc))"
      using first(2) None by (auto simp: t_def)
    ultimately show ?thesis using unknown
      by (intro exI [of _ None]) (simp add: takes_def renames_of_def)
  qed
qed

lemma reconcile_all_takes:
  assumes "reconcile_all w (local_by_key ls) (filter is_predicted ls) ms rc = (xs, rc')"
    and "\<forall>l\<in>set ls \<union> set ms. is_double (a_progress l)" "0 \<le> w" "w \<le> 1 / 2"
  shows "\<exists>ts. length ts = length ms \<and> length xs = length ms
    \<and> (\<forall>j<length ms. takes w ls (set (rc_matched rc) \<union> ids_of (take j ts)) (ms ! j) (ts ! j) (xs ! j))
    \<and> set (rc_matched rc') = set (rc_matched rc) \<union> ids_of ts \<and> rc_renames rc' = rc_renames rc @ renames_of ms ts"
  using assms
proof (induction ms arbitrary: xs rc)
  case (Cons m ms)
  obtain x rc1 where 1: "reconcile_army w (local_by_key ls) (filter is_predicted ls) m rc = (x, rc1)" by fastforce
  obtain xs' where 2: "reconcile_all w (local_by_key ls) (filter is_predicted ls) ms rc1 = (xs', rc')" "xs = x # xs'"
    using Cons.prems(1) 1 by (auto split: prod.splits)
  obtain t where t: "takes w ls (set (rc_matched rc)) m t x" "set (rc_matched rc1) = ids_of [t] \<union> set (rc_matched rc)"
    "rc_renames rc1 = rc_renames rc @ renames_of [m] [t]"
    using reconcile_army_takes [OF 1 _ _ Cons.prems(3,4)] Cons.prems(2) by auto
  obtain ts where ts: "length ts = length ms" "length xs' = length ms"
    "\<forall>j<length ms. takes w ls (set (rc_matched rc1) \<union> ids_of (take j ts)) (ms ! j) (ts ! j) (xs' ! j)"
    "set (rc_matched rc') = set (rc_matched rc1) \<union> ids_of ts" "rc_renames rc' = rc_renames rc1 @ renames_of ms ts"
    using Cons.IH [OF 2(1) _ Cons.prems(3,4)] Cons.prems(2) by auto
  have ids: "ids_of (t # us) = ids_of [t] \<union> ids_of us" for us by (cases t) simp_all
  have "takes w ls (set (rc_matched rc) \<union> ids_of (take j (t # ts))) ((m # ms) ! j) ((t # ts) ! j) (xs ! j)"
    if "j < length (m # ms)" for j
    using that t(1,2) ts(3) ids [of "take (j - 1) ts"] by (cases j) (simp_all add: 2(2) Un_ac)
  moreover have "renames_of (m # ms) (t # ts) = renames_of [m] [t] @ renames_of ms ts" by (simp add: renames_of_def)
  ultimately show ?case using ts t(2,3) ids [of ts] 2(2)
    by (intro exI [of _ "t # ts"]) (auto simp: Un_ac)
qed (simp add: renames_of_def)

text \<open>
  C8: no army of the server and no order of the player is lost when a snapshot arrives. The armies shown begin with the
  server's, one for one. An army the client knows is shown near the client's and takes no prediction; an unknown
  army of the player takes the oldest prediction of its road that no army before it has taken, and none only when
  all are taken; so no prediction is taken twice. All differ from the server's in progress at most. After them come, in
  their order, exactly the predictions less than three quarters on their way that were not taken. The renames hand
  the visual of each taken prediction to the army that took it.
\<close>

theorem snapshot_keeps_armies:
  assumes "\<forall>m\<in>set local_armies \<union> set server_armies. is_double (a_progress m)"
    and "reconcileLiveArmies local_armies server_armies LIVE_BLEND_WEIGHT = (ms, renames)"
  shows "\<exists>shown taken. ms = shown @ filter (\<lambda>p. is_predicted p \<and> a_progress p < 3 / 4 \<and> a_id p \<notin> ids_of taken) local_armies
    \<and> length shown = length server_armies \<and> length taken = length server_armies
    \<and> (\<forall>j<length server_armies.
         takes LIVE_BLEND_WEIGHT local_armies (ids_of (take j taken)) (server_armies ! j) (taken ! j) (shown ! j))
    \<and> renames = renames_of server_armies taken"
proof -
  let ?ps = "filter is_predicted local_armies"
  obtain xs rc where r: "reconcile_all LIVE_BLEND_WEIGHT (local_by_key local_armies) ?ps server_armies
      \<lparr>rc_matched = [], rc_renames = []\<rparr> = (xs, rc)" by fastforce
  have "0 \<le> LIVE_BLEND_WEIGHT" by (simp add: LIVE_BLEND_WEIGHT_def)
  moreover have "LIVE_BLEND_WEIGHT \<le> 1 / 2" unfolding LIVE_BLEND_WEIGHT_def by (rule fl_le_double) simp_all
  ultimately obtain ts where ts: "length ts = length server_armies" "length xs = length server_armies"
    "\<forall>j<length server_armies. takes LIVE_BLEND_WEIGHT local_armies (ids_of (take j ts)) (server_armies ! j) (ts ! j) (xs ! j)"
    "set (rc_matched rc) = ids_of ts" "rc_renames rc = renames_of server_armies ts"
    using reconcile_all_takes [OF r assms(1)] by auto
  have "filter (unconfirmed (rc_matched rc)) ?ps = filter (\<lambda>p. is_predicted p \<and> a_progress p < 3 / 4 \<and> a_id p \<notin> ids_of ts) local_armies"
    by (auto simp: unconfirmed_def ts(4) intro: filter_cong)
  then show ?thesis using assms(2) r ts
    by (intro exI [of _ xs] exI [of _ ts]) (auto simp: reconcileLiveArmies_def Let_def)
qed

section \<open>A sample match\<close>

definition sample_live_state :: "num \<Rightarrow> army list \<Rightarrow> game_state" where
  "sample_live_state elapsed ms = \<lparr>g_rules = Some 2, g_readyAtMs = None, g_shieldedUntilMs = None,
     g_playerAbilityUsed = False, g_enemyAbilityUsed = False, g_battlefieldId = None,
     g_territories = [(''n_center'', example_tower Player 21 Stable), (''e'', (example_tower Enemy 5 Fortress)\<lparr>t_id := ''e''\<rparr>)],
     g_armies = ms, g_status = Playing, g_elapsed = elapsed, g_timeLimit = 90, g_stats = empty_stats\<rparr>"

definition sample_live_env :: live_env where
  "sample_live_env = \<lparr>le_moment = (\<lambda>n. \<lparr>mo_eventId = ''e'', mo_now = 0\<rparr>), le_commander = ''Commander'',
     le_hypot = manhattan, le_fresh = (\<lambda>_. ''a''), le_armySpeed = 1\<rparr>"

definition sample_tracker :: tracker where
  "sample_tracker = \<lparr>tk_sessionId = ''s'', tk_sessionStarted = True, tk_terminalMatchIds = {}, tk_dispatched = []\<rparr>"

definition sample_team_start :: "string \<Rightarrow> started_2v2" where
  "sample_team_start i = \<lparr>s2_matchId = i, s2_slot = Slot0, s2_teamId = TeamA, s2_nextSequence = 0, s2_players = [],
     s2_state = sample_live_state 0 []\<rparr>"

definition sample_order :: "num \<Rightarrow> army" where
  "sample_order p = (new_army manhattan (example_tower Player 21 Stable) ((example_tower Enemy 5 Fortress)\<lparr>t_id := ''e''\<rparr>)
     Player 10 1 ''pred_0'')\<lparr>a_progress := p\<rparr>"

text \<open>The client knows army m and has just sent a second order on its road: both are shown.\<close>

lemma snapshot_keeps_armies_witness:
  "map a_id (fst (reconcileLiveArmies [(sample_order (1 / 4))\<lparr>a_id := ''m''\<rparr>, sample_order 0]
     [(sample_order (1 / 2))\<lparr>a_id := ''m''\<rparr>] LIVE_BLEND_WEIGHT)) = [''m'', ''pred_0'']"
proof -
  let ?k = "(sample_order (1 / 4))\<lparr>a_id := ''m''\<rparr>" and ?m = "(sample_order (1 / 2))\<lparr>a_id := ''m''\<rparr>"
  obtain ms renames where r: "reconcileLiveArmies [?k, sample_order 0] [?m] LIVE_BLEND_WEIGHT = (ms, renames)" by fastforce
  have "is_double (1 / 4)" using is_double_dyadic [of 1 2] by simp
  then have "\<forall>m\<in>set [?k, sample_order 0] \<union> set [?m]. is_double (a_progress m)" by (simp add: sample_order_def)
  from snapshot_keeps_armies [OF this r] obtain x t where x: "takes LIVE_BLEND_WEIGHT [?k, sample_order 0] {} ?m t x"
    "ms = x # filter (\<lambda>p. is_predicted p \<and> a_progress p < 3 / 4 \<and> a_id p \<notin> ids_of [t]) [?k, sample_order 0]"
    by (auto simp: length_Suc_conv)
  have "a_id (sample_order 0) = ''pred_0''" "a_owner (sample_order y) = Player" "a_progress (sample_order 0) = 0" for y
    by (simp_all add: sample_order_def new_army_def Let_def)
  moreover from this have "known_as [?k, sample_order 0] ?m = Some ?k"
    by (simp add: known_as_def army_visual_id_def predicted_id_def)
  ultimately have "t = None" "a_id x = ''m''" "a_id (sample_order 0) = ''pred_0''" "a_progress (sample_order 0) = 0"
    using x(1) by (auto simp: takes_def shown_near_def dest: arg_cong [of _ _ a_id])
  then show ?thesis using r x(2) by (simp add: predicted_id_def)
qed

text \<open>
  C6: between snapshots the player sees the server's towers with the unanswered orders taken out. Whatever the client
  emits and whatever is tapped, once a snapshot has arrived every tower shown is the tower of the last one, less the
  units of the pending orders from it if it is the player's; a refused order is no longer pending and so is given back.
\<close>

theorem shown_towers_are_servers:
  assumes "live_board (g_territories (launch_state l))" and "list_all live_input_ok inputs"
    and "sc = live_scene_run env inputs (open_live_scene env l hasClient source k)" and "ln_auth sc = Snapshot s"
  shows "obj_get (g_territories (ln_state sc)) i = map_option (without_pending (ln_predictions sc) i) (obj_get (g_territories s) i)
    \<and> (ln_bound sc \<and> ln_listening sc \<longrightarrow>
        (let sc' = live_scene_step env (ClientEvent (CommandRejectedIn code (Some n))) sc in
         obj_get (g_territories (ln_state sc')) i
           = map_option (without_pending (filter (\<lambda>p. pd_sequence p \<noteq> n) (ln_predictions sc)) i) (obj_get (g_territories s) i)))"
proof -
  have inv: "view_inv sc" using view_run [OF view_open [OF assms(1)] assms(2)] assms(3) by simp
  then have ok: "live_board (g_territories s)" "list_all whole_pending (ln_predictions sc)"
    "g_territories (ln_state sc) = applyPendingLiveDispatches (g_territories s) (ln_predictions sc)"
    using assms(4) by (simp_all add: view_ok_def view_def)
  let ?ps = "filter (\<lambda>p. pd_sequence p \<noteq> n) (ln_predictions sc)"
  have "list_all whole_pending ?ps" using ok(2) by (simp add: list_all_iff)
  note given_back = applyPending_get [OF ok(1) this]
  obtain ms where r: "rejectLivePrediction (g_armies (ln_state sc)) (ln_predictions sc) n = (ms, ?ps)"
    using rejectLivePrediction_pending [of "g_armies (ln_state sc)" "ln_predictions sc" n] by (metis prod.collapse)
  have "g_territories (ln_state (rejectLiveCommand (Some n) sc)) = applyPendingLiveDispatches (g_territories s) ?ps"
    by (simp add: rejectLiveCommand_def r authoritative_def assms(4))
  then show ?thesis using applyPending_get [OF ok(1,2)] ok(3) given_back
    by (simp add: live_scene_step_def duel_event_def team_event_def)
qed

definition sample_live_inputs :: "live_scene_input list" where
  "sample_live_inputs = [ClientEvent (StateIn (sample_live_state 1 [])), Strike (Some 0) [''n_center''] (Some ''e'')]"

definition sample_live_scene :: live_scene where
  "sample_live_scene = live_scene_run sample_live_env sample_live_inputs
     (open_live_scene sample_live_env (LaunchTeam (sample_team_start ''m'')) True ''menu'' sample_tracker)"

lemma sample_live_board: "live_board (g_territories (sample_live_state x ms))"
  by (simp add: live_board_def wf_board_def wf_tower_def sample_live_state_def example_tower_def)

lemma sample_live_scene_sel:
  "ln_predictions sample_live_scene = [\<lparr>pd_sequence = 0, pd_armyId = ''pred_0'', pd_sourceId = ''n_center'', pd_units = 10\<rparr>]"
  "(case ln_auth sample_live_scene of Snapshot s \<Rightarrow> g_territories s | _ \<Rightarrow> []) = g_territories (sample_live_state 1 [])"
  "ln_bound sample_live_scene" "ln_listening sample_live_scene"
  by (code_simp+)

lemma shown_towers_are_servers_witness:
  "map_option t_units (obj_get (g_territories (ln_state sample_live_scene)) ''n_center'') = Some 11
    \<and> map_option t_units (obj_get (g_territories (ln_state (live_scene_step sample_live_env
        (ClientEvent (CommandRejectedIn ''busy'' (Some 0))) sample_live_scene))) ''n_center'') = Some 21"
proof -
  obtain s where s: "ln_auth sample_live_scene = Snapshot s" "g_territories s = g_territories (sample_live_state 1 [])"
    using sample_live_scene_sel(2) by (cases "ln_auth sample_live_scene") (simp_all add: sample_live_state_def)
  have "live_board (g_territories (launch_state (LaunchTeam (sample_team_start ''m''))))"
    by (simp add: launch_state_def sample_team_start_def sample_live_board)
  moreover have "list_all live_input_ok sample_live_inputs"
    by (simp add: sample_live_inputs_def live_input_ok_def sample_live_board)
  ultimately show ?thesis
    using shown_towers_are_servers [OF _ _ sample_live_scene_def s(1), of "''n_center''" "''busy''" 0]
    by (simp add: s(2) sample_live_scene_sel without_pending_def pending_from_def sample_live_state_def example_tower_def Let_def)
qed

end
