(* ===== verification/LiveSettling.thy ===== *)
theory LiveSettling
  imports LiveSceneFacts
begin

text \<open>
  A live scene settles a match at most once: whatever its client emits and the player taps, in whatever order, the
  settlement of a match reaches the career once for every time the match was started.
\<close>

section \<open>Steps that settle nothing\<close>

text \<open>What the count of settlements depends on.\<close>

definition settling :: "live_scene \<Rightarrow> string list \<times> string option \<times> string \<times> bool \<times> bool \<times> string option \<times> bool" where
  "settling sc = (map fst (ln_applied sc), ln_settled sc, ln_matchId sc, ln_bound sc, ln_listening sc, ln_appliedStart sc,
     is2v2 sc)"

text \<open>A step that settles nothing: the count stays, and a scene that is being left or covered stays so.\<close>

definition settles_nothing :: "live_scene \<Rightarrow> live_scene \<Rightarrow> bool" where
  "settles_nothing sc sc' \<longleftrightarrow> settling sc' = settling sc \<and> (ln_exiting sc \<longrightarrow> ln_exiting sc')
     \<and> (ln_modal sc \<noteq> None \<or> ln_exiting sc \<longrightarrow> ln_modal sc' \<noteq> None \<or> ln_exiting sc')"

lemma settles_nothing_refl [simp]: "settles_nothing sc sc"
  by (simp add: settles_nothing_def)

lemma settles_nothing_trans: "settles_nothing a b \<Longrightarrow> settles_nothing b c \<Longrightarrow> settles_nothing a c"
  by (auto simp: settles_nothing_def)

lemma settles_nothing_fold: "(\<And>x s. settles_nothing s (g x s)) \<Longrightarrow> settles_nothing s (fold g xs s)"
  by (induction xs arbitrary: s) (simp, simp, blast intro: settles_nothing_trans)

lemma settles_nothing_upd [simp]:
  "settles_nothing sc (sc\<lparr>ln_tracker := k\<rparr>)" "settles_nothing sc (sc\<lparr>ln_menu := m\<rparr>)" "settles_nothing sc (sc\<lparr>ln_voted := b\<rparr>)"
  "settles_nothing sc (sc\<lparr>ln_surrendered := b\<rparr>)" "settles_nothing sc (sc\<lparr>ln_menuModal := b\<rparr>)"
  "settles_nothing sc (sc\<lparr>ln_modal := Some x\<rparr>)" "settles_nothing sc (sc\<lparr>ln_state := s\<rparr>)" "settles_nothing sc (sc\<lparr>ln_overlay := v\<rparr>)"
  by (simp_all add: settles_nothing_def settling_def is2v2_def)

lemma settles_nothing_frame:
  "settles_nothing sc (live_note env e sc)" "settles_nothing sc (call_client x sc)" "settles_nothing sc (live_returnToMenu sc)"
  "settles_nothing sc (close_client sc)" "settles_nothing sc (hide2v2ReconnectOverlay sc)"
  by (simp_all add: settles_nothing_def settling_def is2v2_def live_note_def call_client_def live_returnToMenu_def
      close_client_def hide2v2ReconnectOverlay_def)

lemma settles_nothing_lost: "settles_nothing sc (showLiveConnectionError sc)"
  by (simp add: settles_nothing_def settling_def is2v2_def showLiveConnectionError_def close_client_def call_client_def Let_def)

lemma settles_nothing_overlays:
  "settles_nothing sc (show2v2ReconnectOverlay n sc)" "settles_nothing sc (show2v2AbandonedOverlay code sc)"
  by (simp_all add: settles_nothing_def settling_def is2v2_def show2v2ReconnectOverlay_def show2v2AbandonedOverlay_def
      hide2v2ReconnectOverlay_def Let_def)

lemma settles_nothing_state:
  "settles_nothing sc (live_frame delta sc)" "settles_nothing sc (applyLiveServerState s sc)"
  "settles_nothing sc (rejectLiveCommand sq sc)"
  by (simp_all add: settles_nothing_def settling_def is2v2_def live_frame_def stepLiveMatch_def applyLiveServerState_def
      rejectLiveCommand_def Let_def split: option.split prod.split)

lemma settles_nothing_strike: "settles_nothing sc (live_strike sent n sc)"
  by (simp add: settles_nothing_def settling_def is2v2_def live_strike_def Let_def)

lemma settles_nothing_release: "settles_nothing sc (live_pointer_up env cursor is hovered sc)"
proof -
  have "settles_nothing sc (live_release env cursor is t sc)" for t
    unfolding live_release_def Let_def
    by (auto simp: settles_nothing_lost settles_nothing_strike split: option.splits sum.splits
        intro: settles_nothing_trans [OF settles_nothing_frame(2) settles_nothing_lost])
  then show ?thesis by (simp add: live_pointer_up_def split: option.split)
qed

lemma settles_nothing_events:
  "settles_nothing sc (live_error_event code sc)" "settles_nothing sc (team_error_event code sc)"
  "settles_nothing sc (handle2v2MatchExpired i sc)"
  by (simp_all add: live_error_event_def team_error_event_def handle2v2MatchExpired_def settles_nothing_lost
      settles_nothing_overlays settles_nothing_frame)

lemma settles_nothing_rematch_started: "settles_nothing sc (handle2v2RematchStarted sc)"
  unfolding handle2v2RematchStarted_def
  by (rule settles_nothing_trans [OF settles_nothing_upd(3) settles_nothing_frame(2)])

lemma settles_nothing_team_closed: "settles_nothing sc (team_closed env sc)"
proof -
  have "settles_nothing sc (show2v2AbandonedOverlay code (sc\<lparr>ln_tracker := k\<rparr>))" for code k
    by (rule settles_nothing_trans [OF settles_nothing_upd(1) settles_nothing_overlays(2)])
  then show ?thesis unfolding team_closed_def by (simp split: if_split)
qed

lemma settles_nothing_live_closed: "settles_nothing sc (live_closed env sc)"
proof -
  have "settles_nothing sc (showLiveConnectionError (sc\<lparr>ln_tracker := k\<rparr>))"
    "settles_nothing sc (showLiveConnectionError (live_note env e (sc\<lparr>ln_tracker := k\<rparr>)))" for k e
    by (rule settles_nothing_trans [OF settles_nothing_upd(1) settles_nothing_lost]
        settles_nothing_trans [OF settles_nothing_trans [OF settles_nothing_upd(1) settles_nothing_frame(1)] settles_nothing_lost])+
  then show ?thesis by (simp add: live_closed_def Let_def case_prod_unfold split: if_split)
qed

lemma settles_nothing_buttons:
  "settles_nothing sc (menuPressed sc)" "settles_nothing sc (rematchPressed ok sc)"
  by (simp_all add: menuPressed_def settles_nothing_frame)
    (simp add: settles_nothing_def settling_def is2v2_def rematchPressed_def call_client_def Let_def
      split: option.split live_modal.split)

lemma settles_nothing_menu_effect: "settles_nothing sc (live_menu_effect env e sc)"
proof (cases e)
  case ExitConfirmed
  then show ?thesis
    by (simp add: live_menu_effect_def settles_nothing_trans [OF settles_nothing_upd(5) settles_nothing_frame(3)])
qed (simp_all add: live_menu_effect_def settles_nothing_frame)

lemma settles_nothing_menu: "settles_nothing sc (with_live_menu env f sc)"
  unfolding with_live_menu_def Let_def
  by (rule settles_nothing_trans [OF settles_nothing_upd(2) settles_nothing_fold [OF settles_nothing_menu_effect]])

lemma settles_nothing_leave: "settles_nothing sc (confirmLeavePressed env sc)"
proof -
  have asked: "settles_nothing sc ((call_client SurrenderCall sc)\<lparr>ln_surrendered := True\<rparr>)"
    by (rule settles_nothing_trans [OF settles_nothing_frame(2) settles_nothing_upd(4)])
  show ?thesis unfolding confirmLeavePressed_def Let_def
    by (auto intro: settles_nothing_menu settles_nothing_trans [OF asked settles_nothing_menu]
        settles_nothing_trans [OF settles_nothing_upd(4) settles_nothing_menu])
qed

lemma settles_nothing_taps:
  "settles_nothing sc (live_backButton env sc)"
  "settles_nothing sc (menuHitPressed env sc)" "settles_nothing sc (resumePressed env sc)"
  "settles_nothing sc (leavePressed env sc)" "settles_nothing sc (keepPlayingPressed env sc)"
  by (simp_all add: live_backButton_def menuHitPressed_def resumePressed_def leavePressed_def keepPlayingPressed_def
    settles_nothing_menu settles_nothing_frame)

lemmas settles_nothing_intros = settles_nothing_frame settles_nothing_lost settles_nothing_overlays settles_nothing_state
  settles_nothing_release settles_nothing_events settles_nothing_rematch_started settles_nothing_team_closed
  settles_nothing_live_closed settles_nothing_buttons settles_nothing_menu settles_nothing_leave settles_nothing_taps

text \<open>The identifiers of the matches that were started, in order.\<close>

definition started_ids :: "live_scene_input list \<Rightarrow> string list" where
  "started_ids = List.map_filter (\<lambda>i. case i of ClientEvent (StartedIn p) \<Rightarrow> Some (s2_matchId p) | _ \<Rightarrow> None)"

definition live_scene_on :: "live_scene \<Rightarrow> bool" where
  "live_scene_on sc \<longleftrightarrow> ln_bound sc \<and> ln_listening sc \<and> \<not> ln_exiting sc"

text \<open>The match a scene is in and has not settled yet.\<close>

definition awaiting :: "live_scene \<Rightarrow> string \<Rightarrow> nat" where
  "awaiting sc i = (if live_scene_on sc \<and> i = ln_matchId sc \<and> ln_settled sc \<noteq> Some i then 1 else 0)"

definition matches_counted :: "string list \<Rightarrow> live_scene \<Rightarrow> bool" where
  "matches_counted started sc \<longleftrightarrow>
     (\<forall>i. count_list (map fst (ln_applied sc)) i + awaiting sc i \<le> count_list (remdups_adj started) i)
     \<and> (live_scene_on sc \<longrightarrow> started \<noteq> [] \<and> last started = ln_matchId sc \<and> ln_appliedStart sc = Some (ln_matchId sc))
     \<and> (ln_bound sc \<longrightarrow> is2v2 sc)"

lemma remdups_adj_snoc:
  "remdups_adj (xs @ [x]) = (if xs \<noteq> [] \<and> last xs = x then remdups_adj xs else remdups_adj xs @ [x])"
  by (induction xs rule: remdups_adj.induct) auto

lemma count_remdups_snoc: "count_list (remdups_adj xs) i \<le> count_list (remdups_adj (xs @ [x])) i"
  by (simp add: remdups_adj_snoc)

lemma matches_countedD:
  assumes "matches_counted started sc"
  shows "count_list (map fst (ln_applied sc)) i + awaiting sc i \<le> count_list (remdups_adj started) i"
    "count_list (map fst (ln_applied sc)) i \<le> count_list (remdups_adj started) i"
    "live_scene_on sc \<Longrightarrow> started \<noteq> [] \<and> last started = ln_matchId sc \<and> ln_appliedStart sc = Some (ln_matchId sc)"
    "ln_bound sc \<Longrightarrow> is2v2 sc"
  using assms unfolding matches_counted_def by (blast intro: add_leD1)+

lemma matches_countedI:
  assumes "\<And>i. count_list (map fst (ln_applied sc)) i + awaiting sc i \<le> count_list (remdups_adj started) i"
    "live_scene_on sc \<Longrightarrow> started \<noteq> [] \<and> last started = ln_matchId sc \<and> ln_appliedStart sc = Some (ln_matchId sc)"
    "ln_bound sc \<Longrightarrow> is2v2 sc"
  shows "matches_counted started sc"
  using assms unfolding matches_counted_def by blast

lemma matches_counted_nothing:
  assumes "matches_counted started sc" "settles_nothing sc sc'"
  shows "matches_counted started sc'"
proof -
  have same: "map fst (ln_applied sc') = map fst (ln_applied sc)" "ln_settled sc' = ln_settled sc" "ln_matchId sc' = ln_matchId sc"
    "ln_bound sc' = ln_bound sc" "ln_appliedStart sc' = ln_appliedStart sc" "is2v2 sc' = is2v2 sc"
    and on: "live_scene_on sc' \<Longrightarrow> live_scene_on sc"
    using assms(2) by (auto simp: settles_nothing_def settling_def live_scene_on_def)
  have "awaiting sc' i \<le> awaiting sc i" for i using on by (simp add: awaiting_def same)
  then have "count_list (map fst (ln_applied sc')) i + awaiting sc' i \<le> count_list (remdups_adj started) i" for i
    using assms(1) unfolding matches_counted_def same by (meson add_left_mono le_trans)
  then show ?thesis using assms(1) on by (simp only: matches_counted_def same) simp
qed

text \<open>The result of a match of four: the settlement, if there is one, is given on under the identifier of the match.\<close>

definition settled_by :: "live_scene \<Rightarrow> live_scene \<Rightarrow> bool" where
  "settled_by sc sc' \<longleftrightarrow>
     (ln_applied sc' = ln_applied sc \<or> (\<exists>st. ln_applied sc' = ln_applied sc @ [(ln_matchId sc, st)]))
     \<and> ln_settled sc' = Some (ln_matchId sc) \<and> ln_matchId sc' = ln_matchId sc \<and> ln_bound sc' = ln_bound sc
     \<and> ln_listening sc' = ln_listening sc \<and> ln_exiting sc' = ln_exiting sc \<and> ln_appliedStart sc' = ln_appliedStart sc
     \<and> ln_two sc' = ln_two sc"

lemma settled_by_upd:
  "settled_by sc sc' \<Longrightarrow> settled_by sc (sc'\<lparr>ln_modal := m\<rparr>)" "settled_by sc sc' \<Longrightarrow> settled_by sc (sc'\<lparr>ln_errors := es\<rparr>)"
  "settled_by sc sc' \<Longrightarrow> settled_by sc (sc'\<lparr>ln_tracker := k\<rparr>)"
  by (simp_all add: settled_by_def)

lemma settled_by_report:
  assumes "mr_matchId r = ln_matchId sc"
  shows "settled_by sc (snd (team_result_report env r rv two
    (hide2v2ReconnectOverlay (sc\<lparr>ln_settled := Some (mr_matchId r)\<rparr>))))"
proof -
  define sc1 where "sc1 = hide2v2ReconnectOverlay (sc\<lparr>ln_settled := Some (mr_matchId r)\<rparr>)"
  have "settled_by sc sc1" "\<And>st. settled_by sc (sc1\<lparr>ln_applied := ln_applied sc1 @ [(mr_matchId r, st)]\<rparr>)"
    using assms by (simp_all add: sc1_def settled_by_def hide2v2ReconnectOverlay_def)
  then show ?thesis unfolding sc1_def [symmetric] team_result_report_def Let_def
    by (simp add: settled_by_upd split: option.split sum.split)
qed

lemma team_result_applied: "handle2v2MatchResult env r sc = sc
    \<or> ln_settled sc \<noteq> Some (ln_matchId sc) \<and> settled_by sc (handle2v2MatchResult env r sc)"
proof (cases "ln_exiting sc \<or> ln_modal sc \<noteq> None
    \<or> \<not> isCurrent2v2MatchResult r (ln_matchId sc) (map_option s2_slot (ln_two sc)) (map_option s2_teamId (ln_two sc))
    \<or> ln_settled sc = Some (mr_matchId r)")
  case True
  then show ?thesis by (simp only: handle2v2MatchResult_def if_True) simp
next
  case False
  then have i: "mr_matchId r = ln_matchId sc" by (auto simp: isCurrent2v2MatchResult_def split: if_splits)
  let ?sc1 = "hide2v2ReconnectOverlay (sc\<lparr>ln_settled := Some (mr_matchId r)\<rparr>)"
  have sc1: "settled_by sc ?sc1" using i by (simp add: settled_by_def hide2v2ReconnectOverlay_def)
  define rv where "rv = buildTwoVTwoResultViewModel (le_commander env) r
              (case ln_two sc of Some p \<Rightarrow> s2_slot p | None \<Rightarrow> Slot0) (rosterNameMap sc)"
  define out where "out = (case ln_two sc of
              Some two \<Rightarrow> if rv_cancelled rv then (None, ?sc1) else team_result_report env r rv two ?sc1
            | None \<Rightarrow> (None, ?sc1))"
  have "settled_by sc (snd out)"
    unfolding out_def using sc1 settled_by_report [OF i] by (simp split: option.split)
  moreover have "handle2v2MatchResult env r sc = (case fst out of
            Some e \<Rightarrow> (snd out)\<lparr>ln_errors := ln_errors (snd out) @ [e]\<rparr>
          | None \<Rightarrow> (snd out)\<lparr>ln_modal := Some (TeamCard rv True)\<rparr>)"
    unfolding handle2v2MatchResult_def if_not_P [OF False] Let_def rv_def [symmetric] out_def [symmetric]
    by (simp add: case_prod_unfold)
  ultimately have "settled_by sc (handle2v2MatchResult env r sc)" by (simp add: settled_by_upd split: option.split)
  then show ?thesis using False i by auto
qed

section \<open>The count through a step\<close>

lemma matches_counted_settled:
  assumes counted: "matches_counted started sc" and new: "ln_settled sc \<noteq> Some (ln_matchId sc)" and on: "live_scene_on sc"
    and sb: "settled_by sc sc'"
  shows "matches_counted started sc'"
proof -
  have same: "ln_settled sc' = Some (ln_matchId sc)" "ln_matchId sc' = ln_matchId sc" "live_scene_on sc' = live_scene_on sc"
    "ln_appliedStart sc' = ln_appliedStart sc" "is2v2 sc' = is2v2 sc" "ln_bound sc' = ln_bound sc"
    using sb by (simp_all add: settled_by_def live_scene_on_def is2v2_def)
  have "count_list (map fst (ln_applied sc')) i + awaiting sc' i \<le> count_list (map fst (ln_applied sc)) i + awaiting sc i" for i
    using sb new on by (auto simp: settled_by_def awaiting_def)
  then show ?thesis using matches_countedD [OF counted]
    by (intro matches_countedI) (blast intro: le_trans, simp_all add: same)
qed

lemma matches_counted_more:
  assumes "matches_counted started sc" "\<not> live_scene_on sc"
  shows "matches_counted (started @ xs) sc"
proof -
  have "count_list (remdups_adj started) i \<le> count_list (remdups_adj (started @ xs)) i" for i
  proof (induction xs rule: rev_induct)
    case (snoc x xs)
    then show ?case using count_remdups_snoc [of "started @ xs" i x] by simp
  qed simp
  then show ?thesis using matches_countedD [OF assms(1)] assms(2)
    by (intro matches_countedI) (blast intro: le_trans, simp_all)
qed

lemma reset_settling:
  "ln_applied (resetFor2v2Rematch env p sc) = ln_applied sc" "ln_settled (resetFor2v2Rematch env p sc) = None"
  "ln_matchId (resetFor2v2Rematch env p sc) = s2_matchId p"
  "ln_appliedStart (resetFor2v2Rematch env p sc) = Some (s2_matchId p)" "is2v2 (resetFor2v2Rematch env p sc)"
  "live_scene_on (resetFor2v2Rematch env p sc) = live_scene_on sc" "ln_bound (resetFor2v2Rematch env p sc) = ln_bound sc"
  by (simp_all add: resetFor2v2Rematch_def initTwoVTwoSession_def live_note_def is2v2_def live_scene_on_def Let_def)

lemma matches_counted_start:
  assumes counted: "matches_counted started sc" and on: "live_scene_on sc"
  shows "matches_counted (started @ [s2_matchId p]) (handle2v2MatchStarted env p sc)"
proof (cases "s2_matchId p = ln_matchId sc")
  case True
  then have "remdups_adj (started @ [s2_matchId p]) = remdups_adj started"
    using counted on by (auto simp: matches_counted_def remdups_adj_snoc)
  moreover have "settles_nothing sc (handle2v2MatchStarted env p sc)"
    using True counted on by (simp add: handle2v2MatchStarted_def matches_counted_def settles_nothing_def settling_def
        is2v2_def hide2v2ReconnectOverlay_def)
  ultimately show ?thesis using matches_counted_nothing [OF counted] True counted on
    by (auto simp: matches_counted_def settles_nothing_def settling_def)
next
  case False
  then have "remdups_adj (started @ [s2_matchId p]) = remdups_adj started @ [s2_matchId p]"
    using counted on by (auto simp: matches_counted_def remdups_adj_snoc)
  moreover have "handle2v2MatchStarted env p sc = resetFor2v2Rematch env p sc"
    using False counted on by (auto simp: handle2v2MatchStarted_def matches_counted_def live_scene_on_def)
  moreover have "awaiting (resetFor2v2Rematch env p sc) i \<le> count_list [s2_matchId p] i" for i
    by (simp add: awaiting_def reset_settling)
  ultimately show ?thesis using add_mono [OF matches_countedD(2) [OF counted]]
    by (intro matches_countedI) (simp_all add: reset_settling)
qed

definition starts_of :: "live_scene_input \<Rightarrow> string list" where
  "starts_of i = (case i of ClientEvent (StartedIn p) \<Rightarrow> [s2_matchId p] | _ \<Rightarrow> [])"

lemma started_ids_Cons: "started_ids (i # is) = starts_of i @ started_ids is"
  by (simp add: started_ids_def starts_of_def List.map_filter_def split: live_scene_input.split live_client_event.split)

lemma cleanup_settling:
  "ln_applied (live_cleanup sc) = ln_applied sc" "\<not> ln_bound (live_cleanup sc)" "\<not> live_scene_on (live_cleanup sc)"
  by (simp_all add: live_cleanup_def close_client_def call_client_def live_scene_on_def)

lemma matches_counted_cleanup: "matches_counted started sc \<Longrightarrow> matches_counted started (live_cleanup sc)"
  by (intro matches_countedI) (simp_all add: cleanup_settling awaiting_def matches_countedD)

text \<open>A scene that is not on, be it left or without listeners, takes no start of a match.\<close>

lemma off_start: "\<not> live_scene_on sc \<Longrightarrow> starts_of i \<noteq> [] \<Longrightarrow> ln_bound sc \<longrightarrow> is2v2 sc \<Longrightarrow> live_scene_step env i sc = sc"
  by (auto simp: live_scene_step_def starts_of_def live_scene_on_def team_event_def handle2v2MatchStarted_def
      split: live_scene_input.splits live_client_event.splits)

lemma matches_counted_event:
  assumes counted: "matches_counted started sc" and team: "is2v2 sc" and listening: "ln_bound sc" "ln_listening sc"
    and other: "starts_of (ClientEvent e) = []"
  shows "matches_counted started (team_event env e sc)"
proof (cases "\<exists>r. e = TeamResultIn r")
  case True
  then obtain r where r: "team_event env e sc = handle2v2MatchResult env r sc" by (auto simp: team_event_def)
  show ?thesis
  proof (cases "ln_exiting sc")
    case True
    then show ?thesis using counted r by (simp add: handle2v2MatchResult_def)
  next
    case False
    then have "live_scene_on sc" using listening by (simp add: live_scene_on_def)
    then show ?thesis using team_result_applied [of env r sc] counted matches_counted_settled r by metis
  qed
next
  case False
  have hidden: "settles_nothing sc (show2v2AbandonedOverlay code (hide2v2ReconnectOverlay sc))" for code
    by (rule settles_nothing_trans [OF settles_nothing_frame(5) settles_nothing_overlays(2)])
  have "settles_nothing sc (team_event env e sc)"
    using False other by (auto simp: team_event_def starts_of_def settles_nothing_intros hidden split: live_client_event.split)
  then show ?thesis by (rule matches_counted_nothing [OF counted])
qed

lemma matches_counted_step:
  assumes counted: "matches_counted started sc"
  shows "matches_counted (started @ starts_of i) (live_scene_step env i sc)"
proof (cases "ln_bound sc")
  case False
  then have "\<not> live_scene_on sc" by (simp add: live_scene_on_def)
  then show ?thesis using False matches_counted_more [OF counted] by (simp add: live_scene_step_def)
next
  case bound: True
  then have team: "is2v2 sc" using counted by (simp add: matches_counted_def)
  show ?thesis
  proof (cases "starts_of i = []")
    case none: True
    show ?thesis
    proof (cases i)
      case (ClientEvent e)
      then show ?thesis using bound team none counted matches_counted_event [OF counted team bound]
        by (auto simp: live_scene_step_def)
    next
      case Shutdown
      then show ?thesis using bound none matches_counted_cleanup [OF counted] by (simp add: live_scene_step_def)
    qed (use bound none in \<open>simp_all add: live_scene_step_def matches_counted_nothing [OF counted] settles_nothing_intros\<close>)
  next
    case False
    then obtain p where p: "i = ClientEvent (StartedIn p)"
      by (auto simp: starts_of_def split: live_scene_input.splits live_client_event.splits)
    show ?thesis
    proof (cases "live_scene_on sc")
      case True
      then show ?thesis using p bound team matches_counted_start [OF counted True]
        by (simp add: live_scene_step_def team_event_def starts_of_def live_scene_on_def)
    next
      case off: False
      then show ?thesis using off_start [OF off False] bound team matches_counted_more [OF counted off] by simp
    qed
  qed
qed

lemma matches_counted_run:
  "matches_counted started sc \<Longrightarrow> matches_counted (started @ started_ids is) (live_scene_run env is sc)"
proof (induction "is" arbitrary: started sc)
  case Nil
  then show ?case by (simp add: live_scene_run_def started_ids_def List.map_filter_def)
next
  case (Cons i "is")
  show ?case using Cons.IH [OF matches_counted_step [OF Cons.prems]]
    by (simp add: live_scene_run_def started_ids_Cons)
qed

lemma matches_counted_open: "matches_counted [s2_matchId p] (open_live_scene env (LaunchTeam p) hasClient source k)"
proof -
  let ?sc = "live_note env (start_event source (initTwoVTwoSession p (blank_live_scene (LaunchTeam p) hasClient k)))
    (initTwoVTwoSession p (blank_live_scene (LaunchTeam p) hasClient k))"
  have started: "matches_counted [s2_matchId p] ?sc"
    by (simp add: matches_counted_def awaiting_def live_note_def initTwoVTwoSession_def blank_live_scene_def live_scene_on_def is2v2_def
        launch_matchId_def)
  have "is2v2 ?sc" by (simp add: live_note_def initTwoVTwoSession_def is2v2_def)
  then have "open_live_scene env (LaunchTeam p) hasClient source k =
      (if hasClient then ?sc else show2v2AbandonedOverlay ''connection_closed'' ?sc)"
    by (simp only: open_live_scene_def Let_def live_launch.case if_True)
  then show ?thesis using matches_counted_nothing [OF started settles_nothing_overlays(2)] started
    by (simp only: split: if_split) simp
qed

section \<open>A match of two\<close>

definition duel_counted :: "live_scene \<Rightarrow> bool" where
  "duel_counted sc \<longleftrightarrow> length (ln_applied sc) \<le> 1 \<and> (ln_bound sc \<longrightarrow> \<not> is2v2 sc)
     \<and> (ln_bound sc \<and> ln_applied sc \<noteq> [] \<longrightarrow> ln_modal sc \<noteq> None \<or> ln_exiting sc)"

lemma duel_counted_nothing:
  assumes "duel_counted sc" "settles_nothing sc sc'"
  shows "duel_counted sc'"
proof -
  have fst: "map fst (ln_applied sc') = map fst (ln_applied sc)" and b: "ln_bound sc' = ln_bound sc" "is2v2 sc' = is2v2 sc"
    and covered: "ln_modal sc \<noteq> None \<or> ln_exiting sc \<longrightarrow> ln_modal sc' \<noteq> None \<or> ln_exiting sc'"
    using assms(2) by (simp_all add: settles_nothing_def settling_def)
  have "length (ln_applied sc') = length (ln_applied sc)" using arg_cong [OF fst, of length] by simp
  then show ?thesis using assms(1) covered unfolding duel_counted_def b by (metis length_0_conv)
qed

lemma duel_result:
  "handleLiveMatchResult env r sc = sc \<or>
     \<not> ln_exiting sc \<and> ln_modal sc = None
     \<and> (let sc' = handleLiveMatchResult env r sc
        in ln_applied sc' = ln_applied sc @ [(lr_matchId r, SettledOne (lr_settlement r))] \<and> ln_modal sc' \<noteq> None
          \<and> is2v2 sc' = is2v2 sc \<and> ln_bound sc' = ln_bound sc)"
proof (cases "lr_matchId r = [] \<or> ln_settled sc = Some (lr_matchId r) \<or> \<not> canHandleLiveSettlement (ln_exiting sc) (ln_modal sc \<noteq> None)")
  case True
  then have "processLiveMatchResult (le_moment env) r (ln_exiting sc) (ln_modal sc \<noteq> None) (ln_settled sc) (ln_tracker sc)
      = (False, [], ln_tracker sc)" by (simp only: processLiveMatchResult_def if_True)
  then show ?thesis by (simp add: handleLiveMatchResult_def)
next
  case False
  then have "\<not> ln_exiting sc" "ln_modal sc = None" by (auto simp: canHandleLiveSettlement_def split: if_splits)
  moreover obtain k where "processLiveMatchResult (le_moment env) r (ln_exiting sc) (ln_modal sc \<noteq> None) (ln_settled sc) (ln_tracker sc)
      = (True, [ApplySettlement (lr_settlement r), RenderModal (lr_status r) (lr_stats r) (lr_settlement r), CloseClient], k)"
    unfolding processLiveMatchResult_def if_not_P [OF False] by (simp add: case_prod_unfold Let_def)
  ultimately show ?thesis
    by (simp add: handleLiveMatchResult_def consume_def call_client_def is2v2_def)
qed

lemma duel_counted_event:
  assumes "duel_counted sc" "ln_bound sc"
  shows "duel_counted (duel_event env e sc)"
proof (cases e)
  case (ResultIn r)
  then show ?thesis using duel_result [of env r sc] assms by (auto simp: duel_event_def duel_counted_def Let_def)
qed (simp_all add: duel_event_def assms duel_counted_nothing [OF assms(1)] settles_nothing_intros)

lemma duel_counted_step:
  assumes counted: "duel_counted sc"
  shows "duel_counted (live_scene_step env i sc)"
proof (cases "ln_bound sc")
  case False
  then show ?thesis using counted by (simp add: live_scene_step_def)
next
  case bound: True
  show ?thesis
  proof (cases i)
    case (ClientEvent e)
    then show ?thesis using bound counted duel_counted_event [OF counted bound] by (simp add: live_scene_step_def duel_counted_def)
  next
    case Shutdown
    then show ?thesis using bound counted by (simp add: live_scene_step_def duel_counted_def cleanup_settling)
  qed (use bound in \<open>simp_all add: live_scene_step_def duel_counted_nothing [OF counted] settles_nothing_intros\<close>)
qed

lemma duel_counted_run: "duel_counted sc \<Longrightarrow> duel_counted (live_scene_run env is sc)"
  by (induction "is" arbitrary: sc) (simp_all add: live_scene_run_def duel_counted_step)

lemma duel_counted_open: "duel_counted (open_live_scene env (LaunchOne i s) hasClient source k)"
proof -
  let ?sc = "live_note env (start_event source (blank_live_scene (LaunchOne i s) hasClient k)) (blank_live_scene (LaunchOne i s) hasClient k)"
  have started: "duel_counted ?sc" by (simp add: duel_counted_def live_note_def blank_live_scene_def is2v2_def)
  have "\<not> is2v2 ?sc" by (simp add: live_note_def blank_live_scene_def is2v2_def)
  then have "open_live_scene env (LaunchOne i s) hasClient source k = (if hasClient then ?sc else showLiveConnectionError ?sc)"
    by (simp only: open_live_scene_def Let_def live_launch.case if_False)
  then show ?thesis using duel_counted_nothing [OF started settles_nothing_lost] started by (simp only: split: if_split) simp
qed

section \<open>Settling once\<close>

text \<open>C7: A live scene settles a match at most once. In a match of two whatever the client emits and the player does, in
  whatever order, at most one settlement is given to the career; in a match of four each match is settled at most
  as often as it was started, where the repeated start of the match that is on (a reconnect) does not count. So a
  result that is sent again, before or after a reconnect, or that comes after the scene was left, settles nothing.\<close>

theorem matches_settled_once:
  "length (ln_applied (live_scene_run env inputs (open_live_scene env (LaunchOne i s) hasClient source k))) \<le> 1
   \<and> count_list (map fst (ln_applied (live_scene_run env inputs (open_live_scene env (LaunchTeam p) hasClient source k)))) m
       \<le> count_list (remdups_adj (s2_matchId p # started_ids inputs)) m"
proof
  show "length (ln_applied (live_scene_run env inputs (open_live_scene env (LaunchOne i s) hasClient source k))) \<le> 1"
    using duel_counted_run [OF duel_counted_open] by (simp add: duel_counted_def)
  show "count_list (map fst (ln_applied (live_scene_run env inputs (open_live_scene env (LaunchTeam p) hasClient source k)))) m
       \<le> count_list (remdups_adj (s2_matchId p # started_ids inputs)) m"
    using matches_countedD(2) [OF matches_counted_run [OF matches_counted_open [of p env hasClient source k]], of env inputs m]
    by (simp only: append_Cons append_Nil)
qed

section \<open>What an early refusal leaves\<close>

text \<open>
  The authoritative board is restored on a refusal, but until the first snapshot the scene has only one board, from
  which the order has already been taken: the ten units of a refused order are then not given back.
\<close>

definition early_refusal :: live_scene where
  "early_refusal = live_scene_run sample_live_env
     [Strike (Some 0) [''n_center''] (Some ''e''), ClientEvent (CommandRejectedIn ''busy'' (Some 0))]
     (open_live_scene sample_live_env (LaunchTeam (sample_team_start ''m'')) True ''menu'' sample_tracker)"

lemma early_refusal_not_given_back:
  "map_option t_units (obj_get (g_territories (ln_state early_refusal)) ''n_center'') = Some 11
   \<and> ln_predictions early_refusal = [] \<and> g_armies (ln_state early_refusal) = []"
  by (intro conjI) code_simp+

end
