(* ===== verification/Spec2Isabelle.thy ===== *)
theory Spec2Isabelle
  imports LaneBattle ProtocolFacts CareerFacts LiveFacts TutorialFacts AnalyticsFacts BattleFacts LiveSettling
begin

text \<open>
  A verification development for the game core of Crown Clash (\<open>packages/game-core/src\<close>, with the
  battlefield data of \<open>apps/server-nakama/battlefields.json\<close>) and of the parts of its client that decide
  (\<open>apps/game/src\<close>). Towers produce units, orders send armies
  along roads, arrivals reinforce or capture, and after 90 seconds the larger side wins; on top of one shared,
  deterministic step the repository builds bot matches, replays on the server, lane battles, 2v2 battles and the
  economy of a career.

  \<^bold>\<open>Theories and code.\<close>
  \<^item> \<open>Binary64\<close>: IEEE double arithmetic as rounding to nearest, ties to even, of rational numbers
    (\<open>fl\<close>), exact on integers up to \<open>2 ^ 53\<close>; \<open>Math.floor/ceil/round\<close>. Numbers that may be \<open>NaN\<close> or
    infinite where the code tests for it are \<open>js_number\<close>. \<open>Prelude\<close>: thrown errors as values, objects in
    insertion order, stable sorting, decimal numerals, and the interface \<open>tick_machine\<close> of a simulation
    with a time limit. \<open>NumberText\<close>, \<open>JsonText\<close>: \<open>String(x)\<close>, \<open>toFixed\<close>, JSON values and \<open>JSON.stringify\<close>.
  \<^item> \<open>GameTypes\<close>: \<open>types.ts\<close>, \<open>gameplay-rules.ts\<close>, \<open>territory-types.ts\<close>. \<open>Battlefields\<close>:
    \<open>battlefields.ts\<close> with all its validation, the shipped data, and \<open>map.ts\<close>.
  \<^item> \<open>Combat\<close>: \<open>combat.ts\<close>. \<open>Generation\<close>: \<open>generation.ts\<close>. \<open>TacticalRoutes\<close>, \<open>RouteFacts\<close>:
    \<open>tactical-routes.ts\<close>. \<open>Dispatch\<close>: \<open>dispatch.ts\<close>. \<open>Simulation\<close>, \<open>SimulationFacts\<close>:
    \<open>simulation.ts\<close>, the initial state and one step with every handler it calls.
  \<^item> \<open>Ai\<close>, \<open>AiFacts\<close>, \<open>PolicyFacts\<close>, \<open>MatchPolicies\<close>: \<open>ai.ts\<close>, \<open>tactical-ai.ts\<close>. \<open>Abilities\<close>:
    \<open>abilities.ts\<close>, \<open>bot-abilities.ts\<close>, \<open>bot-difficulty.ts\<close>, \<open>fog.ts\<close>, \<open>order-preview.ts\<close>.
  \<^item> \<open>Pvp\<close>, \<open>PvpFacts\<close>, \<open>PvpReplay\<close>: \<open>pvp.ts\<close>, the replay of a match from timestamped orders.
  \<^item> \<open>Upgrades\<close>: \<open>commanders.ts\<close>, \<open>upgrades.ts\<close>. \<open>Progression\<close>: \<open>progression.ts\<close>, \<open>kingdom.ts\<close>,
    \<open>realm.ts\<close>. \<open>Campaign\<close>: \<open>levels.ts\<close>. \<open>Rewards\<close>, \<open>RewardFacts\<close>: \<open>daily.ts\<close>, \<open>league.ts\<close>.
  \<^item> \<open>Lanes\<close>, \<open>LaneEngine\<close>, \<open>LaneFacts\<close>, \<open>LaneBattle\<close>: \<open>lanes.ts\<close>, \<open>lane-ai.ts\<close>, \<open>lane-engine.ts\<close>,
    \<open>lane-levels.ts\<close>, \<open>lane-replay.ts\<close>.
  \<^item> \<open>TwoVTwo\<close>, \<open>TwoVTwoFacts\<close>: \<open>init2v2.ts\<close> and the simulation and state hash of \<open>pvp2v2.ts\<close>;
    \<open>TwoVTwoProtocol\<close>, \<open>ProtocolFacts\<close>: its wire protocol.

  \<^item> \<open>Career\<close>, \<open>CareerFacts\<close>: the client's \<open>career/CareerManager.ts\<close> and \<open>tutorial/TutorialStatus.ts\<close>: balances,
    ledger and stored items, each operation with the answers of the server as arguments. Loading and saving, remote
    state are proved over all sequences of local operations (\<open>career_run\<close>), and what completes the tutorial over
    all operations on a device that an older version may have used (\<open>device_run\<close>).
  \<^item> \<open>LiveClient\<close>, \<open>LiveFacts\<close>: the client's \<open>api/LiveMatchClient.ts\<close> as a step function over calls, socket
    events, timers and answers; \<open>session_move\<close> is the specification of a 2v2 session it refines, \<open>reached\<close>
    are the clients that any inputs lead to. Listeners are assumed not to call back into the client.
  \<^item> \<open>Tutorial\<close>, \<open>TutorialFacts\<close>: the client's \<open>tutorial/TutorialController.ts\<close>, \<open>trainingGuidance.ts\<close>,
    \<open>tacticalGuidance.ts\<close> and \<open>lane/LaneTutorial.ts\<close>: completion is earned action by action, the hints are
    orders the rules allow, and \<open>right_hint\<close> says which of them the tactical hint is. \<open>Analytics\<close>, \<open>AnalyticsFacts\<close>: \<open>analytics/Analytics.ts\<close> and
    \<open>analytics/AnalyticsSink.ts\<close>; a run of the sink (\<open>run_sink\<close>) is compared with the events it heard.
  \<^item> \<open>MatchMenu\<close>: \<open>match/*.ts\<close> and the settlement gates of \<open>scenes/gameSceneGuards.ts\<close>. \<open>BotScene\<close>: the bot
    battle of \<open>scenes/GameScene.ts\<close>, every handler that changes the match or the recorded orders, as \<open>scene_step\<close>
    over taps, frames, timers and answers. \<open>ReplayClock\<close> turns the server's replay into ticks, \<open>ArmyNames\<close> and
    \<open>SceneOrders\<close> show that the names of armies and the order within a strike do not matter, \<open>SceneFacts\<close> keeps the
    scene and the replay together tick by tick (\<open>tracked\<close>), \<open>SceneReplay\<close> lifts this to everything that can happen
    (\<open>scene_inv\<close>), and \<open>BattleFacts\<close> concludes that what a battle sends is replayed to the verdict the player saw.
  \<^item> \<open>LiveArmies\<close>: \<open>combat/LiveCombatFeedback.ts\<close>. \<open>LiveResults\<close>: the live part of \<open>gameSceneGuards.ts\<close> and
    \<open>pvp/TwoVTwoResultViewModel.ts\<close>. \<open>LiveScene\<close>: the live branches of \<open>GameScene.ts\<close> as \<open>live_scene_step\<close> over the
    client's events, frames and taps; \<open>LiveSceneFacts\<close> relates the towers it shows to the server's last snapshot
    (\<open>view_inv\<close>) and pairs the armies it shows with the snapshot's, one to one, and \<open>LiveSettling\<close> counts the settlements it gives to the career (\<open>matches_counted\<close>).

  \<^bold>\<open>How the parts interact.\<close> \<open>stepSimulation\<close> moves every army (\<open>march\<close>, over waypoints under the
  tactical rules), resolves arrivals (\<open>resolveArrival\<close>), runs production (\<open>tickUnitGeneration\<close>) and decides
  (\<open>match_verdict\<close>). Orders of players and bots all go through \<open>dispatchArmy\<close>, which asks
  \<open>findDispatchRoute\<close>. The replays (\<open>simulatePvpBattle\<close>, \<open>simulateLaneBattle\<close>, \<open>simulate2v2Battle\<close>) interleave
  orders, bot turns and steps of 20 ms; their results are settled by \<open>settleMatch\<close> into a career whose upgrades
  are the modifiers of the next match.

  \<^bold>\<open>What is shown.\<close> Well-formedness (\<open>wf_state\<close>: ids agree with keys, garrisons and armies are whole, speeds
  are in the unit interval) is kept by every step and every order, so no step throws; a capture, a tie, a repulse and
  a reinforcement have the outcomes the rules give them; production respects capacities; the route search finds a
  cheapest legal route exactly when one exists; the bots only give legal orders. Every loop of the replays ends, and
  under the current rules the match clock is \<open>k / 50\<close> rounded once, so a match is decided by tick 4500. A validated battlefield is its own image under a half
  turn that swaps the sides. Ledger entries balance, rewards are paid once a day and entered as paid, levels and ranks are monotone. The 2v2 code does not depend on the order in
  which actions arrive, and its message validator is sound and complete for the wire format.

  \<^bold>\<open>Bounds and fuel.\<close> No definition has fuel: a loop the source does not bound is \<open>while_option\<close>, so
  not returning is \<open>None\<close>, and the termination properties show the result is \<open>Some\<close>. Careers are assumed below
  \<open>2 ^ 52\<close> coins and matches, moments below \<open>2 ^ 51\<close> ms, where integer arithmetic on doubles is exact.

  \<^bold>\<open>Parameters.\<close> \<open>Math.hypot\<close> is implementation-approximated by the language definition: \<open>hyp\<close>, assumed to
  return non-negative doubles. The server's answer to a realm attack is \<open>reply\<close>, assumed to be the verdict of its
  replay (\<open>honest\<close>), and \<open>replayed\<close> says which battles it replays. The calendar day in Tehran comes from the \<open>Intl\<close> data: \<open>day\<close>. The evaluated
  model agrees bit for bit with the repository's own golden 2v2 state hashes (\<open>dacd20cf\<close> and \<open>eb165a7a\<close> in
  \<open>__tests__/pvp2v2.test.ts\<close>), which pin positions, clocks and printed numbers.

  \<^bold>\<open>Limits of the model.\<close> Objects are looked up by own keys: an id such as \<open>constructor\<close>, which the
  language would find on the prototype, is unknown here. Doubles have no negative zero and no overflow. Text outside
  the listed messages is 8-bit.

  \<^bold>\<open>Not modelled.\<close> The drawing of \<open>GameScene.ts\<close>, the other scenes, widgets, art, audio and layout of the client (Phaser), its network clients and platform
  adapters (promises over sockets and browser storage), debugging and benchmark tools, build scripts, and the Go
  server, which mirrors the core in another language.
\<close>

end
